(* ===== verification/Prelude.thy ===== *)
theory Prelude
  imports Main "HOL-Library.AList" "HOL-Library.Char_ord"
begin

text \<open>
  What every component of the model shares: JSON documents as the code handles them (Python
  values out of \<open>json.loads\<close> or a JSONB column), Python's dictionary operations on them, Python's
  exceptions as values of a sum type, the loops \<open>[f(x) for x in xs]\<close> over a body that may raise,
  and the decimal printing and parsing of integers (\<open>f"{n}"\<close>, \<open>int(s)\<close>).

  A Python \<open>str\<close> is a \<open>string\<close> here, that is a list of 8-bit characters. A Python \<open>dict\<close> is an
  association list in insertion order, as the language keeps it; its keys are distinct
  (\<open>json_ok\<close>).
\<close>

section \<open>Collections of rewrite rules\<close>

named_theorems errs \<open>rules that run the error monad\<close>
named_theorems dicts \<open>rules that evaluate dictionary operations\<close>

section \<open>Exceptions as values\<close>

text \<open>
  The exceptions of the Python runtime that the modelled code can raise without naming them.
  \<open>NotModelled\<close> is no exception of Python: it marks the few runs in which Python leaves the JSON
  data model (such as a dictionary with an integer key); each use says why it is there.
\<close>

datatype py_exn = AttributeError | TypeError | ValueError | KeyError | IndexError | NotModelled

fun bindE :: "'e + 'a \<Rightarrow> ('a \<Rightarrow> 'e + 'b) \<Rightarrow> 'e + 'b" where
  "bindE (Inl e) f = Inl e"
| "bindE (Inr a) f = f a"

declare bindE.simps [errs]

lemma bindE_cong [fundef_cong]:
  "m = m' \<Longrightarrow> (\<And>a. m' = Inr a \<Longrightarrow> f a = g a) \<Longrightarrow> bindE m f = bindE m' g"
  by (cases m') auto

lemma bindE_eq_Inr [errs]: "bindE m f = Inr b \<longleftrightarrow> (\<exists>a. m = Inr a \<and> f a = Inr b)"
  by (cases m) auto

lemma bindE_eq_Inl [errs]:
  "bindE m f = Inl e \<longleftrightarrow> m = Inl e \<or> (\<exists>a. m = Inr a \<and> f a = Inl e)"
  by (cases m) auto

text \<open>Two computations one after the other, neither using the other's result.\<close>

fun bothE :: "'e + 'a \<Rightarrow> 'e + 'b \<Rightarrow> ('a \<Rightarrow> 'b \<Rightarrow> 'c) \<Rightarrow> 'e + 'c" where
  "bothE (Inl e) n f = Inl e"
| "bothE (Inr a) (Inl e) f = Inl e"
| "bothE (Inr a) (Inr b) f = Inr (f a b)"

declare bothE.simps [errs]

lemma bothE_eq_Inr [errs]:
  "bothE m n f = Inr c \<longleftrightarrow> (\<exists>a b. m = Inr a \<and> n = Inr b \<and> c = f a b)"
  by (cases m; cases n) auto

lemma bindE_assoc: "bindE (bindE m f) g = bindE m (\<lambda>a. bindE (f a) g)"
  by (cases m) auto

text \<open>An error of one type read as an error of another (an inner call inside an outer one).\<close>

fun liftE :: "('e \<Rightarrow> 'f) \<Rightarrow> 'e + 'a \<Rightarrow> 'f + 'a" where
  "liftE h (Inl e) = Inl (h e)"
| "liftE h (Inr a) = Inr a"

declare liftE.simps [errs]

lemma liftE_eq_Inr [errs]: "liftE h m = Inr a \<longleftrightarrow> m = Inr a"
  by (cases m) auto

lemma liftE_eq_Inl [errs]: "liftE h m = Inl e \<longleftrightarrow> (\<exists>e'. m = Inl e' \<and> e = h e')"
  by (cases m) auto

subsection \<open>Loops whose body may raise\<close>

fun mapE :: "('a \<Rightarrow> 'e + 'b) \<Rightarrow> 'a list \<Rightarrow> 'e + 'b list" where
  "mapE f [] = Inr []"
| "mapE f (x # xs) = bindE (f x) (\<lambda>y. bindE (mapE f xs) (\<lambda>ys. Inr (y # ys)))"

lemma mapE_cong [fundef_cong]:
  "xs = ys \<Longrightarrow> (\<And>x. x \<in> set ys \<Longrightarrow> f x = g x) \<Longrightarrow> mapE f xs = mapE g ys"
  by (induction ys arbitrary: xs) auto

lemma mapE_Inr_all2: "mapE f xs = Inr ys \<longleftrightarrow> list_all2 (\<lambda>x y. f x = Inr y) xs ys"
  by (induction xs arbitrary: ys) (auto simp: errs list_all2_Cons1)

lemma mapE_pure [simp]: "mapE (\<lambda>x. Inr (f x)) xs = Inr (map f xs)"
  by (induction xs) auto

lemma mapE_total: "(\<And>x. x \<in> set xs \<Longrightarrow> \<exists>y. f x = Inr y) \<Longrightarrow> \<exists>ys. mapE f xs = Inr ys"
  by (induction xs) (force simp: errs)+

lemma mapE_length: "mapE f xs = Inr ys \<Longrightarrow> length ys = length xs"
  by (auto simp: mapE_Inr_all2 dest: list_all2_lengthD)

lemma mapE_set: "mapE f xs = Inr ys \<Longrightarrow> y \<in> set ys \<Longrightarrow> \<exists>x \<in> set xs. f x = Inr y"
  by (induction xs arbitrary: ys) (auto simp: errs)

lemma mapE_rel:
  "mapE f xs = Inr ys \<Longrightarrow> (\<And>x y. x \<in> set xs \<Longrightarrow> f x = Inr y \<Longrightarrow> g x = Inr (h y)) \<Longrightarrow>
   mapE g xs = Inr (map h ys)"
  by (induction xs arbitrary: ys) (auto simp: errs)

lemma mapE_compose:
  "mapE f xs = Inr ys \<Longrightarrow> (\<And>x y. x \<in> set xs \<Longrightarrow> f x = Inr y \<Longrightarrow> g y = Inr (h y)) \<Longrightarrow>
   mapE g ys = Inr (map h ys)"
  by (induction xs arbitrary: ys) (fastforce simp: errs)+

definition concatE :: "('a \<Rightarrow> 'e + 'b list) \<Rightarrow> 'a list \<Rightarrow> 'e + 'b list" where
  "concatE f xs = bindE (mapE f xs) (\<lambda>ys. Inr (concat ys))"

lemma concatE_cong [fundef_cong]:
  "xs = ys \<Longrightarrow> (\<And>x. x \<in> set ys \<Longrightarrow> f x = g x) \<Longrightarrow> concatE f xs = concatE g ys"
  unfolding concatE_def by (metis mapE_cong)

lemma concatE_simps [simp]:
  "concatE f [] = Inr []"
  "concatE f (x # xs) = bindE (f x) (\<lambda>y. bindE (concatE f xs) (\<lambda>ys. Inr (y @ ys)))"
  by (auto simp: concatE_def bindE_assoc)

lemma concatE_set:
  "concatE f xs = Inr ys \<Longrightarrow> y \<in> set ys \<longleftrightarrow> (\<exists>x \<in> set xs. \<exists>zs. f x = Inr zs \<and> y \<in> set zs)"
  by (induction xs arbitrary: ys) (auto simp: errs)

lemma concatE_rel:
  "concatE f xs = Inr ys \<Longrightarrow> (\<And>x zs. x \<in> set xs \<Longrightarrow> f x = Inr zs \<Longrightarrow> g x = Inr (map h zs)) \<Longrightarrow>
   concatE g xs = Inr (map h ys)"
  by (induction xs arbitrary: ys) (auto simp: errs)

section \<open>JSON documents\<close>

text \<open>
  \<open>JDec m e\<close> is the number \<open>m * 10^e\<close> written with a fraction or an exponent (a Python float);
  the modelled code only passes such numbers on and tests their truth.
\<close>

datatype json =
    JNull
  | JBool bool
  | JInt int
  | JDec int int
  | JStr string
  | JList "json list"
  | JDict "(string \<times> json) list"

type_synonym obj = "(string \<times> json) list"

text \<open>Python's truth value of such a value (\<open>if x:\<close>, \<open>x or y\<close>).\<close>

fun truthy :: "json \<Rightarrow> bool" where
  "truthy JNull = False"
| "truthy (JBool b) = b"
| "truthy (JInt n) = (n \<noteq> 0)"
| "truthy (JDec m e) = (m \<noteq> 0)"
| "truthy (JStr s) = (s \<noteq> [])"
| "truthy (JList xs) = (xs \<noteq> [])"
| "truthy (JDict d) = (d \<noteq> [])"

text \<open>\<open>d.get(k)\<close>, \<open>d.get(k, default)\<close>, \<open>d[k] = v\<close>, \<open>d.pop(k, None)\<close>, \<open>k in d\<close>.\<close>

definition dget :: "obj \<Rightarrow> string \<Rightarrow> json" where
  "dget d k = (case map_of d k of None \<Rightarrow> JNull | Some v \<Rightarrow> v)"

definition dget_or :: "obj \<Rightarrow> string \<Rightarrow> json \<Rightarrow> json" where
  "dget_or d k v0 = (case map_of d k of None \<Rightarrow> v0 | Some v \<Rightarrow> v)"

definition dset :: "string \<Rightarrow> json \<Rightarrow> obj \<Rightarrow> obj" where
  "dset k v d = AList.update k v d"

definition dpop :: "string \<Rightarrow> obj \<Rightarrow> obj" where
  "dpop k d = AList.delete k d"

definition dhas :: "obj \<Rightarrow> string \<Rightarrow> bool" where
  "dhas d k = (map_of d k \<noteq> None)"

lemma map_of_dset [simp]: "map_of (dset k v d) = (map_of d)(k \<mapsto> v)"
  by (simp add: dset_def update_conv fun_eq_iff)

lemma map_of_dpop [simp]: "map_of (dpop k d) = (map_of d)(k := None)"
  by (simp add: dpop_def delete_conv fun_eq_iff)

lemma dget_dset [simp]: "dget (dset k v d) k' = (if k' = k then v else dget d k')"
  by (simp add: dget_def)

lemma dget_or_dset [simp]: "dget_or (dset k v d) k' w = (if k' = k then v else dget_or d k' w)"
  by (simp add: dget_or_def)

lemma dget_dpop [simp]: "dget (dpop k d) k' = (if k' = k then JNull else dget d k')"
  by (simp add: dget_def)

lemma dhas_dset [simp]: "dhas (dset k v d) k' = (k' = k \<or> dhas d k')"
  by (auto simp: dhas_def)

lemma keys_dset: "set (map fst (dset k v d)) = insert k (set (map fst d))"
  by (induction d) (auto simp: dset_def)

lemma distinct_dset: "distinct (map fst d) \<Longrightarrow> distinct (map fst (dset k v d))"
  by (simp add: dset_def distinct_update)

lemma distinct_dpop: "distinct (map fst d) \<Longrightarrow> distinct (map fst (dpop k d))"
  by (simp add: dpop_def distinct_delete)

lemma dset_values: "(k', v') \<in> set (dset k v d) \<Longrightarrow> (k', v') = (k, v) \<or> (k', v') \<in> set d"
  by (induction d) (auto simp: dset_def split: if_splits)

lemma dset_same: "map_of d k = Some v \<Longrightarrow> dset k v d = d"
  by (induction d) (auto simp: dset_def)

lemma dset_twice [simp]: "dset k v (dset k w d) = dset k v d"
  by (induction d) (auto simp: dset_def)

lemma dset_fresh: "k \<notin> set (map fst d) \<Longrightarrow> dset k v d = d @ [(k, v)]"
  by (induction d) (auto simp: dset_def)

declare dget_def [dicts] dget_or_def [dicts] dhas_def [dicts]

text \<open>\<open>for x in v\<close>: a list gives its items, a dictionary its keys, a string its characters.\<close>

fun py_iter :: "json \<Rightarrow> py_exn + json list" where
  "py_iter (JList xs) = Inr xs"
| "py_iter (JDict d) = Inr (map (\<lambda>(k, _). JStr k) d)"
| "py_iter (JStr s) = Inr (map (\<lambda>c. JStr [c]) s)"
| "py_iter _ = Inl TypeError"

text \<open>A document as \<open>json.loads\<close> returns it: no key twice in a dictionary, at any depth.\<close>

fun json_ok :: "json \<Rightarrow> bool" where
  "json_ok (JList xs) = (\<forall>x \<in> set xs. json_ok x)"
| "json_ok (JDict d) = (distinct (map fst d) \<and> (\<forall>kv \<in> set d. json_ok (snd kv)))"
| "json_ok _ = True"

lemma json_ok_map_of: "json_ok (JDict d) \<Longrightarrow> map_of d k = Some v \<Longrightarrow> json_ok v"
  by (auto dest: map_of_SomeD)

lemma json_ok_dset: "json_ok (JDict d) \<Longrightarrow> json_ok v \<Longrightarrow> json_ok (JDict (dset k v d))"
  using dset_values by (fastforce intro: distinct_dset)

subsection \<open>Sizes, for recursion into documents\<close>

lemma size_list_item: "x \<in> set xs \<Longrightarrow> size x < size (JList xs)"
  by (induction xs) auto

lemma size_dict_value: "(k, v) \<in> set d \<Longrightarrow> size v < size (JDict d)"
  by (induction d) auto

lemma size_dget: "map_of d k = Some v \<Longrightarrow> size v < size (JDict d)"
  using size_dict_value [OF map_of_SomeD] .

lemma size_iter_dict:
  assumes "py_iter v = Inr xs" and "JDict d \<in> set xs"
  shows "size (JDict d) < size v"
  using assms by (cases v) (auto dest: size_list_item)

subsection \<open>\<open>for key, value in d.items()\<close>\<close>

text \<open>
  A loop over the items of a dictionary that builds a new one: the body keeps the key with a new
  value (\<open>Some\<close>), leaves it out (\<open>None\<close>) or raises.
\<close>

fun itemsE :: "(string \<Rightarrow> json \<Rightarrow> 'e + json option) \<Rightarrow> obj \<Rightarrow> 'e + obj" where
  "itemsE f [] = Inr []"
| "itemsE f ((k, v) # d) =
     bindE (f k v) (\<lambda>r. bindE (itemsE f d) (\<lambda>d'.
       Inr (case r of None \<Rightarrow> d' | Some w \<Rightarrow> (k, w) # d')))"

lemma itemsE_cong [fundef_cong]:
  "d = e \<Longrightarrow> (\<And>k v. (k, v) \<in> set e \<Longrightarrow> f k v = g k v) \<Longrightarrow> itemsE f d = itemsE g e"
proof (induction e arbitrary: d)
  case (Cons kv e)
  then show ?case by (cases kv) auto
qed simp

lemma itemsE_ConsE:
  assumes "itemsE f ((k, v) # d) = Inr r"
  obtains w r' where "f k v = Inr w" and "itemsE f d = Inr r'"
    and "r = (case w of None \<Rightarrow> r' | Some w' \<Rightarrow> (k, w') # r')"
  using assms by (auto simp: errs)

lemma itemsE_item:
  "itemsE f d = Inr r \<Longrightarrow> (k, w) \<in> set r \<longleftrightarrow> (\<exists>v. (k, v) \<in> set d \<and> f k v = Inr (Some w))"
proof (induction d arbitrary: r)
  case (Cons kv d)
  obtain k' v' where kv: "kv = (k', v')" by (cases kv)
  from Cons.prems(1) [unfolded kv] obtain o' r' where o': "f k' v' = Inr o'"
    and r': "itemsE f d = Inr r'" and r: "r = (case o' of None \<Rightarrow> r' | Some w \<Rightarrow> (k', w) # r')"
    by (rule itemsE_ConsE)
  from Cons.IH [OF r'] show ?case using kv o' r by (cases o') auto
qed simp

lemma itemsE_keys: "itemsE f d = Inr r \<Longrightarrow> set (map fst r) \<subseteq> set (map fst d)"
  by (auto simp: itemsE_item) (metis fst_conv image_eqI)

lemma itemsE_distinct: "itemsE f d = Inr r \<Longrightarrow> distinct (map fst d) \<Longrightarrow> distinct (map fst r)"
proof (induction d arbitrary: r)
  case (Cons kv d)
  obtain k' v' where kv: "kv = (k', v')" by (cases kv)
  from Cons.prems(1) [unfolded kv] obtain o' r' where o': "f k' v' = Inr o'"
    and r': "itemsE f d = Inr r'" and r: "r = (case o' of None \<Rightarrow> r' | Some w \<Rightarrow> (k', w) # r')"
    by (rule itemsE_ConsE)
  from Cons.IH [OF r'] itemsE_keys [OF r'] Cons.prems(2) show ?case
    using kv r by (cases o') auto
qed simp

lemma itemsE_total:
  "(\<And>k v. (k, v) \<in> set d \<Longrightarrow> \<exists>w. f k v = Inr w) \<Longrightarrow> \<exists>r. itemsE f d = Inr r"
proof (induction d)
  case (Cons kv d)
  obtain k v where kv: "kv = (k, v)" by (cases kv)
  from Cons.prems kv obtain w where "f k v = Inr w" by fastforce
  moreover from Cons obtain r where "itemsE f d = Inr r" by fastforce
  ultimately show ?case using kv by simp
qed simp

lemma itemsE_compose:
  "itemsE f d = Inr r \<Longrightarrow>
   (\<And>k v w. (k, v) \<in> set d \<Longrightarrow> f k v = Inr (Some w) \<Longrightarrow> g k w = h k v) \<Longrightarrow>
   (\<And>k v. (k, v) \<in> set d \<Longrightarrow> f k v = Inr None \<Longrightarrow> h k v = Inr None) \<Longrightarrow>
   itemsE g r = itemsE h d"
proof (induction d arbitrary: r)
  case (Cons kv d)
  obtain k v where kv: "kv = (k, v)" by (cases kv)
  from Cons.prems(1) [unfolded kv] obtain o' r' where o': "f k v = Inr o'"
    and r': "itemsE f d = Inr r'" and r: "r = (case o' of None \<Rightarrow> r' | Some w \<Rightarrow> (k, w) # r')"
    by (rule itemsE_ConsE)
  have IH: "itemsE g r' = itemsE h d"
    using Cons.prems(2,3) by (intro Cons.IH [OF r']) auto
  show ?case
  proof (cases o')
    case None
    with Cons.prems(3) [of k v] kv o' have "h k v = Inr None" by simp
    with None kv r IH show ?thesis by (cases "itemsE h d") auto
  next
    case (Some w)
    with Cons.prems(2) [of k v w] kv o' r IH show ?thesis by simp
  qed
qed simp

lemma map_of_itemsE:
  assumes "itemsE f d = Inr r" and "distinct (map fst d)"
  shows "map_of r k = (case map_of d k of None \<Rightarrow> None | Some v \<Rightarrow>
           (case f k v of Inr w \<Rightarrow> w | Inl _ \<Rightarrow> None))"
  using assms
proof (induction d arbitrary: r)
  case (Cons kv d)
  obtain k' v where kv: "kv = (k', v)" by (cases kv)
  from Cons.prems(1) [unfolded kv] obtain o' r' where o': "f k' v = Inr o'"
    and r': "itemsE f d = Inr r'" and r: "r = (case o' of None \<Rightarrow> r' | Some w \<Rightarrow> (k', w) # r')"
    by (rule itemsE_ConsE)
  have IH: "map_of r' k = (case map_of d k of None \<Rightarrow> None | Some v \<Rightarrow>
           (case f k v of Inr w \<Rightarrow> w | Inl _ \<Rightarrow> None))"
    using Cons.prems(2) by (intro Cons.IH [OF r']) auto
  have fresh: "map_of r' k' = None"
    using itemsE_keys [OF r'] Cons.prems(2) kv by (auto simp: map_of_eq_None_iff)
  show ?case using r o' kv IH fresh by (cases o') auto
qed simp

text \<open>Iterating over an entry of a dictionary, for recursion into the dictionaries found there.\<close>

lemma size_iter_get:
  assumes "py_iter (dget_or d k (JList [])) = Inr xs" and "JDict e \<in> set xs"
  shows "size (JDict e) < size (JDict d)"
proof (cases "map_of d k")
  case None
  with assms show ?thesis by (simp add: dget_or_def)
next
  case (Some v)
  with assms have "size (JDict e) < size v"
    by (intro size_iter_dict) (auto simp: dget_or_def)
  also have "size v < size (JDict d)" by (rule size_dget [OF Some])
  finally show ?thesis .
qed

section \<open>Decimal integers\<close>

text \<open>\<open>f"{n}"\<close> of a natural number.\<close>

definition digit_char :: "nat \<Rightarrow> char" where
  "digit_char n = char_of (48 + n)"

fun show_nat :: "nat \<Rightarrow> string" where
  "show_nat n = (if n < 10 then [digit_char n] else show_nat (n div 10) @ [digit_char (n mod 10)])"

declare show_nat.simps [simp del]

definition show_int :: "int \<Rightarrow> string" where
  "show_int n = (if n < 0 then CHR ''-'' # show_nat (nat (- n)) else show_nat (nat n))"

definition is_digit :: "char \<Rightarrow> bool" where
  "is_digit c = (48 \<le> (of_char c :: nat) \<and> (of_char c :: nat) \<le> 57)"

definition digit_val :: "char \<Rightarrow> nat" where
  "digit_val c = of_char c - 48"

text \<open>
  \<open>int(s)\<close> for an ASCII string: white space around, one sign, decimal digits with single
  underscores between them; anything else is a ValueError (\<open>None\<close>). CPython's limit of 4300
  digits is not modelled.
\<close>

definition py_space :: "char \<Rightarrow> bool" where
  "py_space c = (c = CHR '' '' \<or> (9 \<le> (of_char c :: nat) \<and> (of_char c :: nat) \<le> 13))"

definition py_strip :: "string \<Rightarrow> string" where
  "py_strip s = rev (dropWhile py_space (rev (dropWhile py_space s)))"

text \<open>\<open>s.strip()\<close>: the white space of a \<open>str\<close> (code points below 256).\<close>

definition str_space :: "char \<Rightarrow> bool" where
  "str_space c = (let n = (of_char c :: nat) in
     (9 \<le> n \<and> n \<le> 13) \<or> (28 \<le> n \<and> n \<le> 32) \<or> n = 133 \<or> n = 160)"

definition str_strip :: "string \<Rightarrow> string" where
  "str_strip s = rev (dropWhile str_space (rev (dropWhile str_space s)))"

fun digits_val :: "nat \<Rightarrow> bool \<Rightarrow> string \<Rightarrow> nat option" where
  "digits_val acc us [] = (if us then None else Some acc)"
| "digits_val acc us (c # cs) =
     (if is_digit c then digits_val (10 * acc + digit_val c) False cs
      else if c = CHR ''_'' \<and> \<not> us then digits_val acc True cs
      else None)"

definition py_int :: "string \<Rightarrow> int option" where
  "py_int s =
     (case py_strip s of
        [] \<Rightarrow> None
      | c # cs \<Rightarrow>
          if c = CHR ''-'' then map_option (\<lambda>n. - int n) (digits_val 0 True cs)
          else if c = CHR ''+'' then map_option int (digits_val 0 True cs)
          else map_option int (digits_val 0 True (c # cs)))"

lemma of_char_digit_char: "n < 10 \<Longrightarrow> (of_char (digit_char n) :: nat) = 48 + n"
  by (simp add: digit_char_def)

lemma is_digit_digit_char [simp]: "n < 10 \<Longrightarrow> is_digit (digit_char n)"
  by (simp add: is_digit_def of_char_digit_char)

lemma digit_val_digit_char [simp]: "n < 10 \<Longrightarrow> digit_val (digit_char n) = n"
  by (simp add: digit_val_def of_char_digit_char)

lemma show_nat_nonempty [simp]: "show_nat n \<noteq> []"
  by (subst show_nat.simps) simp

lemma show_nat_digits: "c \<in> set (show_nat n) \<Longrightarrow> is_digit c"
proof (induction n rule: show_nat.induct)
  case (1 n)
  then show ?case by (subst (asm) (2) show_nat.simps) (auto split: if_splits)
qed

lemma digits_val_run:
  "\<forall>c \<in> set ds. is_digit c \<Longrightarrow>
   digits_val acc False (ds @ es) = digits_val (foldl (\<lambda>a c. 10 * a + digit_val c) acc ds) False es"
  by (induction ds arbitrary: acc) auto

lemma digits_val_append:
  "\<forall>c \<in> set ds. is_digit c \<Longrightarrow> ds \<noteq> [] \<Longrightarrow>
   digits_val acc us (ds @ es) = digits_val (foldl (\<lambda>a c. 10 * a + digit_val c) acc ds) False es"
  by (cases ds) (auto simp: digits_val_run)

lemma digits_val_show_nat_acc: "foldl (\<lambda>a c. 10 * a + digit_val c) 0 (show_nat n) = n"
proof (induction n rule: show_nat.induct)
  case (1 n)
  then show ?case by (cases "n < 10") (simp_all add: show_nat.simps [of n])
qed

lemma digits_val_show_nat: "digits_val 0 True (show_nat n) = Some n"
  using digits_val_append [of "show_nat n" 0 True "[]"]
  by (simp add: show_nat_digits digits_val_show_nat_acc)

lemma digit_not_space: "is_digit c \<Longrightarrow> \<not> py_space c"
  by (auto simp: is_digit_def py_space_def)

lemma digit_not_special:
  "is_digit c \<Longrightarrow> c \<noteq> CHR ''-'' \<and> c \<noteq> CHR ''+'' \<and> c \<noteq> CHR '']'' \<and> c \<noteq> CHR ''_''"
  by (auto simp: is_digit_def)

lemma dropWhile_all_false: "xs \<noteq> [] \<Longrightarrow> \<not> P (hd xs) \<Longrightarrow> dropWhile P xs = xs"
  by (cases xs) auto

lemma py_strip_id:
  "s \<noteq> [] \<Longrightarrow> \<not> py_space (hd s) \<Longrightarrow> \<not> py_space (last s) \<Longrightarrow> py_strip s = s"
  by (simp add: py_strip_def dropWhile_all_false hd_rev)

lemma py_int_show_nat [simp]: "py_int (show_nat n) = Some (int n)"
proof -
  obtain c cs where eq: "show_nat n = c # cs"
    by (cases "show_nat n") auto
  have dig: "\<forall>x \<in> set (c # cs). is_digit x"
    using show_nat_digits [of _ n] eq by simp
  have "py_strip (c # cs) = c # cs"
    using dig by (intro py_strip_id) (auto intro!: digit_not_space)
  moreover have "c \<noteq> CHR ''-''" and "c \<noteq> CHR ''+''"
    using dig digit_not_special by auto
  moreover have "digits_val 0 True (c # cs) = Some n"
    using digits_val_show_nat [of n] eq by simp
  ultimately show ?thesis by (simp add: py_int_def eq del: digits_val.simps)
qed

lemma show_nat_inj: "show_nat m = show_nat n \<Longrightarrow> m = n"
  by (metis py_int_show_nat of_nat_eq_iff option.inject)

section \<open>Splitting text\<close>

text \<open>\<open>s.split(c)\<close>.\<close>

fun split_char :: "char \<Rightarrow> string \<Rightarrow> string list" where
  "split_char c [] = [[]]"
| "split_char c (x # xs) =
     (if x = c then [] # split_char c xs
      else case split_char c xs of [] \<Rightarrow> [[x]] | w # ws \<Rightarrow> (x # w) # ws)"

section \<open>Invariants of step relations\<close>

text \<open>
  Several components are step relations on a state. What holds at first and is kept by every step
  holds in every state that can be reached.
\<close>

locale inductive_invariant =
  fixes init :: "'s \<Rightarrow> bool"
    and step :: "'s \<Rightarrow> 's \<Rightarrow> bool"
    and inv :: "'s \<Rightarrow> bool"
  assumes init_inv: "init s \<Longrightarrow> inv s"
    and step_inv: "step s s' \<Longrightarrow> inv s \<Longrightarrow> inv s'"
begin

lemma steps_inv: "step\<^sup>*\<^sup>* s s' \<Longrightarrow> inv s \<Longrightarrow> inv s'"
  by (induction rule: rtranclp_induct) (simp_all add: step_inv)

lemma reachable_inv: "init s \<Longrightarrow> step\<^sup>*\<^sup>* s s' \<Longrightarrow> inv s'"
  using steps_inv init_inv by blast

end

end
