(* ===== verification/AccessControl.thy ===== *)
theory AccessControl
  imports Prelude "HOL-Library.Word"
begin

unbundle bit_operations_syntax

text \<open>
  Who may do what: role-based permissions (\<open>src/titan/security/rbac.py\<close>), attribute-based policies
  and their engine (\<open>src/titan/security/abac.py\<close>), and the request dependencies that apply both
  (\<open>src/titan/security/deps.py\<close>). Token validation, the textual syntax of IP addresses and the
  tenant context are parameters.
\<close>

section \<open>Users and roles\<close>

text \<open>A user without the raw claims of the token, which no decision reads.\<close>

record user =
  sub :: string
  email :: "string option"
  user_name :: "string option"
  roles :: "string list"
  tenant_id :: "string option"

definition user_is_admin :: "user \<Rightarrow> bool" where
  "user_is_admin u = (''admin'' \<in> set (roles u) \<or> ''titan:admin'' \<in> set (roles u))"

definition user_can_read :: "user \<Rightarrow> bool" where
  "user_can_read u = (user_is_admin u \<or> ''reader'' \<in> set (roles u) \<or>
     ''titan:read'' \<in> set (roles u) \<or> ''titan:write'' \<in> set (roles u))"

definition user_can_write :: "user \<Rightarrow> bool" where
  "user_can_write u = (user_is_admin u \<or> ''writer'' \<in> set (roles u) \<or>
     ''titan:write'' \<in> set (roles u))"

datatype permission =
    READ_AAS | READ_SUBMODEL | READ_DESCRIPTOR | READ_CONCEPT_DESCRIPTION
  | CREATE_AAS | UPDATE_AAS | DELETE_AAS
  | CREATE_SUBMODEL | UPDATE_SUBMODEL | DELETE_SUBMODEL
  | CREATE_DESCRIPTOR | UPDATE_DESCRIPTOR | DELETE_DESCRIPTOR
  | CREATE_CONCEPT_DESCRIPTION | UPDATE_CONCEPT_DESCRIPTION | DELETE_CONCEPT_DESCRIPTION
  | INVOKE_OPERATION
  | ADMIN

definition all_permissions :: "permission list" where
  "all_permissions =
     [READ_AAS, READ_SUBMODEL, READ_DESCRIPTOR, READ_CONCEPT_DESCRIPTION,
      CREATE_AAS, UPDATE_AAS, DELETE_AAS, CREATE_SUBMODEL, UPDATE_SUBMODEL, DELETE_SUBMODEL,
      CREATE_DESCRIPTOR, UPDATE_DESCRIPTOR, DELETE_DESCRIPTOR,
      CREATE_CONCEPT_DESCRIPTION, UPDATE_CONCEPT_DESCRIPTION, DELETE_CONCEPT_DESCRIPTION,
      INVOKE_OPERATION, ADMIN]"

definition reader_permissions :: "permission list" where
  "reader_permissions =
     [READ_AAS, READ_SUBMODEL, READ_DESCRIPTOR, READ_CONCEPT_DESCRIPTION]"

definition writer_permissions :: "permission list" where
  "writer_permissions =
     [READ_AAS, READ_SUBMODEL, READ_DESCRIPTOR, READ_CONCEPT_DESCRIPTION,
      CREATE_AAS, UPDATE_AAS, CREATE_SUBMODEL, UPDATE_SUBMODEL,
      CREATE_DESCRIPTOR, UPDATE_DESCRIPTOR,
      CREATE_CONCEPT_DESCRIPTION, UPDATE_CONCEPT_DESCRIPTION, INVOKE_OPERATION]"

definition role_permissions :: "(string \<times> permission list) list" where
  "role_permissions =
     [(''reader'', reader_permissions), (''titan:read'', reader_permissions),
      (''writer'', writer_permissions), (''titan:write'', writer_permissions),
      (''admin'', all_permissions), (''titan:admin'', all_permissions)]"

definition get_user_permissions :: "(string \<times> permission list) list \<Rightarrow> user \<Rightarrow> permission set" where
  "get_user_permissions rp u =
     (\<Union>r \<in> set (roles u). case map_of rp r of None \<Rightarrow> {} | Some ps \<Rightarrow> set ps)"

definition has_permission :: "(string \<times> permission list) list \<Rightarrow> user \<Rightarrow> permission \<Rightarrow> bool" where
  "has_permission rp u p = (user_is_admin u \<or> p \<in> get_user_permissions rp u)"

definition has_any_permission ::
  "(string \<times> permission list) list \<Rightarrow> user \<Rightarrow> permission list \<Rightarrow> bool" where
  "has_any_permission rp u ps =
     (user_is_admin u \<or> (\<exists>p \<in> set ps. p \<in> get_user_permissions rp u))"

definition has_all_permissions ::
  "(string \<times> permission list) list \<Rightarrow> user \<Rightarrow> permission list \<Rightarrow> bool" where
  "has_all_permissions rp u ps =
     (user_is_admin u \<or> (\<forall>p \<in> set ps. p \<in> get_user_permissions rp u))"

definition policy_can_read :: "(string \<times> permission list) list \<Rightarrow> user \<Rightarrow> bool" where
  "policy_can_read rp u =
     (user_can_read u \<or> has_any_permission rp u [READ_AAS, READ_SUBMODEL, READ_DESCRIPTOR])"

definition policy_can_write :: "(string \<times> permission list) list \<Rightarrow> user \<Rightarrow> bool" where
  "policy_can_write rp u =
     (user_can_write u \<or>
      has_any_permission rp u [CREATE_AAS, UPDATE_AAS, CREATE_SUBMODEL, UPDATE_SUBMODEL])"

section \<open>Attribute-based policies\<close>

datatype action = Create | Read | Update | Delete | ListA | Execute

datatype resource_type = AAS | Submodel | SubmodelElement | ConceptDescription | Descriptor

text \<open>
  IP addresses after parsing, and networks as the standard library keeps them: the network address
  and the mask. An address lies in a network of its own version if its masked bits are the
  network's.
\<close>

datatype ip = V4 "32 word" | V6 "128 word"

datatype network = Net4 "32 word" "32 word" | Net6 "128 word" "128 word"

fun in_network :: "ip \<Rightarrow> network \<Rightarrow> bool" where
  "in_network (V4 a) (Net4 net netm) = ((a AND netm) = net)"
| "in_network (V6 a) (Net6 net netm) = ((a AND netm) = net)"
| "in_network _ _ = False"

record policy_context =
  ctx_user :: user
  ctx_resource_type :: resource_type
  ctx_resource_id :: "string option"
  ctx_resource_owner :: "string option"
  ctx_resource_tenant :: "string option"
  ctx_action :: action
  ctx_client_ip :: "string option"
  ctx_hour :: nat
  ctx_weekday :: nat

datatype decision = ALLOW | DENY | NOT_APPLICABLE

text \<open>The messages of the results, one constructor per message.\<close>

datatype reason =
    NoOwner | IsOwner | NotOwner
  | NoTenantContext | UserWithoutTenant | SameTenant | TenantMismatch string string
  | DeniedDay nat | DeniedHour nat | WithinWindow
  | NoClientIP | InvalidIP string | IPAllowed | IPNotAllowed string
  | NoRestriction action | TypeAllowed | TypeNotAllowed resource_type action
  | DefaultDeny | DefaultAllow
  | CustomReason "string option"

record policy_result =
  res_decision :: decision
  res_policy :: string
  res_reason :: reason

datatype policy =
    AllowOwnerPolicy
  | TenantIsolationPolicy
  | TimeBasedPolicy nat nat "nat list option"
  | IPAllowlistPolicy "network list"
  | ResourceTypePolicy "(action \<times> resource_type list) list"
  | CustomPolicy string "policy_context \<Rightarrow> policy_result" int

fun policy_name :: "policy \<Rightarrow> string" where
  "policy_name AllowOwnerPolicy = ''allow_owner''"
| "policy_name TenantIsolationPolicy = ''tenant_isolation''"
| "policy_name (TimeBasedPolicy _ _ _) = ''time_based''"
| "policy_name (IPAllowlistPolicy _) = ''ip_allowlist''"
| "policy_name (ResourceTypePolicy _) = ''resource_type''"
| "policy_name (CustomPolicy n _ _) = n"

fun policy_priority :: "policy \<Rightarrow> int" where
  "policy_priority AllowOwnerPolicy = 10"
| "policy_priority TenantIsolationPolicy = 5"
| "policy_priority (TimeBasedPolicy _ _ _) = 50"
| "policy_priority (IPAllowlistPolicy _) = 20"
| "policy_priority (ResourceTypePolicy _) = 30"
| "policy_priority (CustomPolicy _ _ p) = p"

definition result_of :: "policy \<Rightarrow> decision \<Rightarrow> reason \<Rightarrow> policy_result" where
  "result_of p d r = \<lparr>res_decision = d, res_policy = policy_name p, res_reason = r\<rparr>"

definition eval_owner :: "policy_context \<Rightarrow> decision \<times> reason" where
  "eval_owner c =
     (case ctx_resource_owner c of
        None \<Rightarrow> (NOT_APPLICABLE, NoOwner)
      | Some ow \<Rightarrow> if sub (ctx_user c) = ow then (ALLOW, IsOwner) else (NOT_APPLICABLE, NotOwner))"

definition eval_tenant :: "policy_context \<Rightarrow> decision \<times> reason" where
  "eval_tenant c =
     (case ctx_resource_tenant c of
        None \<Rightarrow> (NOT_APPLICABLE, NoTenantContext)
      | Some rt \<Rightarrow>
          (case tenant_id (ctx_user c) of
             None \<Rightarrow> (DENY, UserWithoutTenant)
           | Some ut \<Rightarrow> if ut = rt then (NOT_APPLICABLE, SameTenant) else (DENY, TenantMismatch ut rt)))"

definition eval_time :: "nat \<Rightarrow> nat \<Rightarrow> nat list option \<Rightarrow> policy_context \<Rightarrow> decision \<times> reason" where
  "eval_time start_hour end_hour days c =
     (if (case days of None \<Rightarrow> False | Some ds \<Rightarrow> ctx_weekday c \<notin> set ds)
      then (DENY, DeniedDay (ctx_weekday c))
      else if \<not> (start_hour \<le> ctx_hour c \<and> ctx_hour c < end_hour)
      then (DENY, DeniedHour (ctx_hour c))
      else (NOT_APPLICABLE, WithinWindow))"

definition eval_ip :: "(string \<Rightarrow> ip option) \<Rightarrow> network list \<Rightarrow> policy_context \<Rightarrow> decision \<times> reason" where
  "eval_ip parse_ip nets c =
     (case ctx_client_ip c of
        None \<Rightarrow> (NOT_APPLICABLE, NoClientIP)
      | Some s \<Rightarrow>
          (case parse_ip s of
             None \<Rightarrow> (DENY, InvalidIP s)
           | Some a \<Rightarrow> if \<exists>n \<in> set nets. in_network a n then (NOT_APPLICABLE, IPAllowed)
                       else (DENY, IPNotAllowed s)))"

definition eval_type :: "(action \<times> resource_type list) list \<Rightarrow> policy_context \<Rightarrow> decision \<times> reason" where
  "eval_type allowed c =
     (let ts = (case map_of allowed (ctx_action c) of None \<Rightarrow> [] | Some ts \<Rightarrow> ts) in
      if ts = [] then (NOT_APPLICABLE, NoRestriction (ctx_action c))
      else if ctx_resource_type c \<in> set ts then (NOT_APPLICABLE, TypeAllowed)
      else (DENY, TypeNotAllowed (ctx_resource_type c) (ctx_action c)))"

fun policy_evaluate :: "(string \<Rightarrow> ip option) \<Rightarrow> policy \<Rightarrow> policy_context \<Rightarrow> policy_result" where
  "policy_evaluate ipp (CustomPolicy n f pr) c = f c"
| "policy_evaluate ipp AllowOwnerPolicy c =
     (case eval_owner c of (d, r) \<Rightarrow> result_of AllowOwnerPolicy d r)"
| "policy_evaluate ipp TenantIsolationPolicy c =
     (case eval_tenant c of (d, r) \<Rightarrow> result_of TenantIsolationPolicy d r)"
| "policy_evaluate ipp (TimeBasedPolicy a b ds) c =
     (case eval_time a b ds c of (d, r) \<Rightarrow> result_of (TimeBasedPolicy a b ds) d r)"
| "policy_evaluate ipp (IPAllowlistPolicy ns) c =
     (case eval_ip ipp ns c of (d, r) \<Rightarrow> result_of (IPAllowlistPolicy ns) d r)"
| "policy_evaluate ipp (ResourceTypePolicy al) c =
     (case eval_type al c of (d, r) \<Rightarrow> result_of (ResourceTypePolicy al) d r)"

section \<open>The engine\<close>

record engine =
  policies :: "policy list"
  default_deny :: bool

definition new_engine :: "policy list \<Rightarrow> bool \<Rightarrow> engine" where
  "new_engine ps dd = \<lparr>policies = sort_key policy_priority ps, default_deny = dd\<rparr>"

definition add_policy :: "policy \<Rightarrow> engine \<Rightarrow> engine" where
  "add_policy p e = e\<lparr>policies := sort_key policy_priority (policies e @ [p])\<rparr>"

fun remove_first :: "string \<Rightarrow> policy list \<Rightarrow> policy list option" where
  "remove_first n [] = None"
| "remove_first n (p # ps) =
     (if policy_name p = n then Some ps else map_option ((#) p) (remove_first n ps))"

definition remove_policy :: "string \<Rightarrow> engine \<Rightarrow> engine \<times> bool" where
  "remove_policy n e =
     (case remove_first n (policies e) of
        None \<Rightarrow> (e, False) | Some ps \<Rightarrow> (e\<lparr>policies := ps\<rparr>, True))"

fun first_decision :: "(string \<Rightarrow> ip option) \<Rightarrow> policy list \<Rightarrow> policy_context \<Rightarrow> policy_result option" where
  "first_decision ipp [] c = None"
| "first_decision ipp (p # ps) c =
     (let r = policy_evaluate ipp p c in
      if res_decision r = ALLOW \<or> res_decision r = DENY then Some r else first_decision ipp ps c)"

definition engine_evaluate :: "(string \<Rightarrow> ip option) \<Rightarrow> engine \<Rightarrow> policy_context \<Rightarrow> policy_result" where
  "engine_evaluate ipp e c =
     (case first_decision ipp (policies e) c of
        Some r \<Rightarrow> r
      | None \<Rightarrow>
          if default_deny e
          then \<lparr>res_decision = DENY, res_policy = ''default'', res_reason = DefaultDeny\<rparr>
          else \<lparr>res_decision = ALLOW, res_policy = ''default'', res_reason = DefaultAllow\<rparr>)"

definition is_allowed :: "(string \<Rightarrow> ip option) \<Rightarrow> engine \<Rightarrow> policy_context \<Rightarrow> bool" where
  "is_allowed ipp e c = (res_decision (engine_evaluate ipp e c) = ALLOW)"

definition evaluate_all :: "(string \<Rightarrow> ip option) \<Rightarrow> engine \<Rightarrow> policy_context \<Rightarrow> policy_result list" where
  "evaluate_all ipp e c = map (\<lambda>p. policy_evaluate ipp p c) (policies e)"

definition create_default_engine :: engine where
  "create_default_engine = new_engine [TenantIsolationPolicy, AllowOwnerPolicy] True"

section \<open>Request dependencies\<close>

text \<open>
  What the dependencies read of a request: the headers by name, the peer address, the path
  parameters and the tenant of the current context. HTTP errors are values.
\<close>

record request =
  headers :: "string \<Rightarrow> string option"
  client_host :: "string option"
  path_params :: "string \<Rightarrow> string option"
  context_tenant :: "string option"
  at_hour :: nat
  at_weekday :: nat

text \<open>The detail of a response: a fixed text, or one that names the permission or the reason.\<close>

datatype detail = Text string | PermissionRequired permission | ABACDenied reason

datatype http_error = HTTP nat detail

definition get_client_ip :: "request \<Rightarrow> string option" where
  "get_client_ip rq =
     (case headers rq ''X-Forwarded-For'' of
        Some (c # cs) \<Rightarrow> Some (str_strip (takeWhile (\<lambda>x. x \<noteq> CHR '','') (c # cs)))
      | _ \<Rightarrow>
          (case headers rq ''X-Real-IP'' of
             Some (c # cs) \<Rightarrow> Some (str_strip (c # cs))
           | _ \<Rightarrow> client_host rq))"

definition get_resource_tenant :: "request \<Rightarrow> string option" where
  "get_resource_tenant rq =
     (case context_tenant rq of
        Some (c # cs) \<Rightarrow> Some (c # cs)
      | _ \<Rightarrow> headers rq ''X-Tenant-ID'')"

fun join_slash :: "string list \<Rightarrow> string" where
  "join_slash [] = []"
| "join_slash [p] = p"
| "join_slash (p # ps) = p @ ''/'' @ join_slash ps"

definition get_resource_id :: "request \<Rightarrow> string list option \<Rightarrow> string option" where
  "get_resource_id rq params =
     (case params of
        None \<Rightarrow> None
      | Some ps \<Rightarrow>
          (let parts = List.map_filter (path_params rq) ps
           in if parts = [] then None else Some (join_slash parts)))"

fun permission_to_abac :: "permission \<Rightarrow> action \<times> resource_type" where
  "permission_to_abac READ_AAS = (Read, AAS)"
| "permission_to_abac CREATE_AAS = (Create, AAS)"
| "permission_to_abac UPDATE_AAS = (Update, AAS)"
| "permission_to_abac DELETE_AAS = (Delete, AAS)"
| "permission_to_abac READ_SUBMODEL = (Read, Submodel)"
| "permission_to_abac CREATE_SUBMODEL = (Create, Submodel)"
| "permission_to_abac UPDATE_SUBMODEL = (Update, Submodel)"
| "permission_to_abac DELETE_SUBMODEL = (Delete, Submodel)"
| "permission_to_abac READ_DESCRIPTOR = (Read, Descriptor)"
| "permission_to_abac CREATE_DESCRIPTOR = (Create, Descriptor)"
| "permission_to_abac UPDATE_DESCRIPTOR = (Update, Descriptor)"
| "permission_to_abac DELETE_DESCRIPTOR = (Delete, Descriptor)"
| "permission_to_abac READ_CONCEPT_DESCRIPTION = (Read, ConceptDescription)"
| "permission_to_abac CREATE_CONCEPT_DESCRIPTION = (Create, ConceptDescription)"
| "permission_to_abac UPDATE_CONCEPT_DESCRIPTION = (Update, ConceptDescription)"
| "permission_to_abac DELETE_CONCEPT_DESCRIPTION = (Delete, ConceptDescription)"
| "permission_to_abac ADMIN = (Read, AAS)"
| "permission_to_abac INVOKE_OPERATION = (Read, AAS)"

text \<open>
  \<open>validator\<close> is the configured token validator (\<open>None\<close>: OIDC is not configured), which returns
  a user or the message of an \<open>InvalidTokenError\<close>.
\<close>

type_synonym validator = "(string \<Rightarrow> string + user) option"

definition get_current_user :: "validator \<Rightarrow> string option \<Rightarrow> http_error + user option" where
  "get_current_user validator authorization =
     (case validator of
        None \<Rightarrow> Inr None
      | Some validate \<Rightarrow>
          (case authorization of
             None \<Rightarrow> Inr None
           | Some a \<Rightarrow>
               if take 7 a \<noteq> ''Bearer '' then Inl (HTTP 401 (Text ''Invalid authorization header format''))
               else (case validate (drop 7 a) of
                       Inl msg \<Rightarrow> Inl (HTTP 401 (Text msg)) | Inr u \<Rightarrow> Inr (Some u))))"

definition anonymous_admin :: user where
  "anonymous_admin = \<lparr>sub = ''anonymous'', email = None, user_name = Some ''Anonymous (DEV MODE)'',
     roles = [''admin''], tenant_id = None\<rparr>"

definition require_authenticated :: "validator \<Rightarrow> bool \<Rightarrow> user option \<Rightarrow> http_error + user" where
  "require_authenticated validator allow_anonymous_admin u =
     (case validator of
        None \<Rightarrow> if allow_anonymous_admin then Inr anonymous_admin
                else Inl (HTTP 401 (Text (''Authentication is not configured. Set OIDC_ISSUER to enable OIDC or '' @
                                     ''ALLOW_ANONYMOUS_ADMIN=true for local development only.'')))
      | Some _ \<Rightarrow> (case u of None \<Rightarrow> Inl (HTTP 401 (Text ''Authentication required'')) | Some v \<Rightarrow> Inr v))"

definition require_read :: "user \<Rightarrow> http_error + user" where
  "require_read u = (if \<not> policy_can_read role_permissions u
                     then Inl (HTTP 403 (Text ''Read permission required'')) else Inr u)"

definition require_write :: "user \<Rightarrow> http_error + user" where
  "require_write u = (if \<not> policy_can_write role_permissions u
                      then Inl (HTTP 403 (Text ''Write permission required'')) else Inr u)"

definition require_admin :: "user \<Rightarrow> http_error + user" where
  "require_admin u = (if \<not> user_is_admin u
                      then Inl (HTTP 403 (Text ''Admin access required'')) else Inr u)"

definition require_permission_if_public ::
  "permission \<Rightarrow> bool \<Rightarrow> validator \<Rightarrow> bool \<Rightarrow> user option \<Rightarrow> http_error + user option" where
  "require_permission_if_public p public validator anon u =
     (if public then Inr u
      else bindE (require_authenticated validator anon u) (\<lambda>v.
             if \<not> has_permission role_permissions v p
             then Inl (HTTP 403 (PermissionRequired p)) else Inr (Some v)))"

definition context_of ::
  "permission \<Rightarrow> resource_type option \<Rightarrow> string list option \<Rightarrow> request \<Rightarrow> user \<Rightarrow> policy_context" where
  "context_of p rt params rq u =
     \<lparr>ctx_user = u,
      ctx_resource_type = (case rt of Some t \<Rightarrow> t | None \<Rightarrow> snd (permission_to_abac p)),
      ctx_resource_id = get_resource_id rq params,
      ctx_resource_owner = None,
      ctx_resource_tenant = get_resource_tenant rq,
      ctx_action = fst (permission_to_abac p),
      ctx_client_ip = get_client_ip rq,
      ctx_hour = at_hour rq, ctx_weekday = at_weekday rq\<rparr>"

text \<open>
  The engine is created when first needed and kept: later changes of \<open>abac_default_deny\<close> have no
  effect, \<open>enable_abac\<close> is read every time. The function returns the engine in use and the new value
  of the module's variable.
\<close>

definition get_abac_engine :: "bool \<Rightarrow> bool \<Rightarrow> engine option \<Rightarrow> engine option \<times> engine option" where
  "get_abac_engine enable_abac abac_default_deny kept =
     (if \<not> enable_abac then (None, kept)
      else case kept of
        None \<Rightarrow> (let e = create_default_engine\<lparr>default_deny := abac_default_deny\<rparr> in (Some e, Some e))
      | Some e \<Rightarrow> (Some e, Some e))"

definition abac_check ::
  "(string \<Rightarrow> ip option) \<Rightarrow> engine option \<Rightarrow> policy_context \<Rightarrow> http_error + user" where
  "abac_check ipp abac c =
     (case abac of
        None \<Rightarrow> Inr (ctx_user c)
      | Some e \<Rightarrow>
          if user_is_admin (ctx_user c) then Inr (ctx_user c)
          else (let r = engine_evaluate ipp e c in
                if res_decision r = DENY then Inl (HTTP 403 (ABACDenied (res_reason r)))
                else Inr (ctx_user c)))"

definition require_permission ::
  "(string \<Rightarrow> ip option) \<Rightarrow> engine option \<Rightarrow> permission \<Rightarrow> resource_type option \<Rightarrow> string list option \<Rightarrow>
   request \<Rightarrow> user \<Rightarrow> http_error + user" where
  "require_permission ipp abac p rt params rq u =
     (if \<not> has_permission role_permissions u p then Inl (HTTP 403 (PermissionRequired p))
      else abac_check ipp abac (context_of p rt params rq u))"

section \<open>Roles and permissions\<close>

lemma admin_has_permission [simp]: "user_is_admin u \<Longrightarrow> has_permission rp u p"
  by (simp add: has_permission_def)

lemma all_permissions_complete: "p \<in> set all_permissions"
  by (cases p) (simp_all add: all_permissions_def)

lemma role_permissions_of:
  "map_of role_permissions r =
     (if r = ''reader'' \<or> r = ''titan:read'' then Some reader_permissions
      else if r = ''writer'' \<or> r = ''titan:write'' then Some writer_permissions
      else if r = ''admin'' \<or> r = ''titan:admin'' then Some all_permissions else None)"
  by (simp add: role_permissions_def)

lemma reader_below_writer: "set reader_permissions \<subseteq> set writer_permissions"
  by (simp add: reader_permissions_def writer_permissions_def)

lemma reader_has:
  "r = ''reader'' \<or> r = ''titan:read'' \<Longrightarrow> r \<in> set (roles u) \<Longrightarrow> p \<in> set reader_permissions \<Longrightarrow>
   p \<in> get_user_permissions role_permissions u"
  unfolding get_user_permissions_def by (rule UN_I [of r]) (auto simp: role_permissions_of)

lemma writer_has:
  "r = ''writer'' \<or> r = ''titan:write'' \<Longrightarrow> r \<in> set (roles u) \<Longrightarrow> p \<in> set writer_permissions \<Longrightarrow>
   p \<in> get_user_permissions role_permissions u"
  unfolding get_user_permissions_def by (rule UN_I [of r]) (auto simp: role_permissions_of)

lemma permission_source:
  "p \<in> get_user_permissions role_permissions u \<Longrightarrow>
   user_is_admin u \<or>
   ((''writer'' \<in> set (roles u) \<or> ''titan:write'' \<in> set (roles u)) \<and> p \<in> set writer_permissions) \<or>
   ((''reader'' \<in> set (roles u) \<or> ''titan:read'' \<in> set (roles u)) \<and> p \<in> set reader_permissions)"
  unfolding get_user_permissions_def
  by (auto simp: role_permissions_of user_is_admin_def split: if_splits)

text \<open>
  What a user may do under the built-in roles, for every permission: an administrator may do
  everything; \<open>writer\<close> and \<open>titan:write\<close> grant exactly the writer permissions, \<open>reader\<close> and
  \<open>titan:read\<close> exactly the four read permissions, and roles add up. In particular no combination
  of roles short of an administrator's grants a delete permission or \<open>admin:*\<close>.
\<close>

lemma rbac_levels:
  "has_permission role_permissions u p =
     (user_is_admin u \<or>
      ((''writer'' \<in> set (roles u) \<or> ''titan:write'' \<in> set (roles u)) \<and> p \<in> set writer_permissions) \<or>
      ((''reader'' \<in> set (roles u) \<or> ''titan:read'' \<in> set (roles u)) \<and> p \<in> set reader_permissions)) \<and>
   (p \<in> {DELETE_AAS, DELETE_SUBMODEL, DELETE_DESCRIPTOR, DELETE_CONCEPT_DESCRIPTION, ADMIN} \<longrightarrow>
    has_permission role_permissions u p = user_is_admin u)"
proof -
  let ?W = "(''writer'' \<in> set (roles u) \<or> ''titan:write'' \<in> set (roles u)) \<and> p \<in> set writer_permissions"
  let ?R = "(''reader'' \<in> set (roles u) \<or> ''titan:read'' \<in> set (roles u)) \<and> p \<in> set reader_permissions"
  have eq: "has_permission role_permissions u p = (user_is_admin u \<or> ?W \<or> ?R)"
    using permission_source [of p u] reader_has [of _ u p] writer_has [of _ u p]
    by (auto simp: has_permission_def)
  moreover have "has_permission role_permissions u p = user_is_admin u"
    if "p \<in> {DELETE_AAS, DELETE_SUBMODEL, DELETE_DESCRIPTOR, DELETE_CONCEPT_DESCRIPTION, ADMIN}"
    using that unfolding eq by (auto simp: writer_permissions_def reader_permissions_def)
  ultimately show ?thesis by simp
qed

lemma rbac_levels_witness:
  "has_permission role_permissions
     \<lparr>sub = ''u'', email = None, user_name = None, roles = [''writer'', ''reader''], tenant_id = None\<rparr>
     DELETE_AAS = False"
  using conjunct2 [OF rbac_levels [where p = DELETE_AAS and u = "\<lparr>sub = ''u'', email = None,
    user_name = None, roles = [''writer'', ''reader''], tenant_id = None\<rparr>"]]
  by (simp add: user_is_admin_def)

section \<open>The engine decides by priority\<close>

lemma first_decision_Some:
  assumes "first_decision ipp ps c = Some r"
  obtains qs p rs where "ps = qs @ p # rs" and "r = policy_evaluate ipp p c"
    and "res_decision r \<noteq> NOT_APPLICABLE"
    and "\<forall>q \<in> set qs. res_decision (policy_evaluate ipp q c) = NOT_APPLICABLE"
  using assms
proof (induction ps arbitrary: thesis)
  case (Cons a ps)
  show ?case
  proof (cases "res_decision (policy_evaluate ipp a c) = NOT_APPLICABLE")
    case True
    with Cons.prems(2) have "first_decision ipp ps c = Some r" by simp
    then obtain qs p rs where "ps = qs @ p # rs" and "r = policy_evaluate ipp p c"
      and "res_decision r \<noteq> NOT_APPLICABLE"
      and "\<forall>q \<in> set qs. res_decision (policy_evaluate ipp q c) = NOT_APPLICABLE"
      using Cons.IH by blast
    with True show ?thesis by (intro Cons.prems(1) [of "a # qs" p rs]) simp_all
  next
    case False
    then have "first_decision ipp (a # ps) c = Some (policy_evaluate ipp a c)"
      by (cases "res_decision (policy_evaluate ipp a c)") (simp_all add: Let_def)
    with Cons.prems(2) False show ?thesis by (intro Cons.prems(1) [of "[]" a ps]) simp_all
  qed
qed simp

lemma first_decision_None:
  "first_decision ipp ps c = None \<longleftrightarrow>
   (\<forall>p \<in> set ps. res_decision (policy_evaluate ipp p c) = NOT_APPLICABLE)"
proof (induction ps)
  case (Cons a ps)
  then show ?case
    by (cases "res_decision (policy_evaluate ipp a c)") (simp_all add: Let_def)
qed simp

text \<open>The engines a program can hold: built by the constructor and changed by the two operations.\<close>

inductive engine_built :: "engine \<Rightarrow> bool" where
  built_new: "engine_built (new_engine ps dd)"
| built_add: "engine_built e \<Longrightarrow> engine_built (add_policy p e)"
| built_remove: "engine_built e \<Longrightarrow> engine_built (fst (remove_policy n e))"
| built_default: "engine_built e \<Longrightarrow> engine_built (e\<lparr>default_deny := b\<rparr>)"

lemma remove_first_Some:
  "remove_first n ps = Some qs \<Longrightarrow> \<exists>as p bs. ps = as @ p # bs \<and> qs = as @ bs \<and> policy_name p = n"
  by (induction ps arbitrary: qs) (auto split: if_splits, (metis append_Cons append_Nil)+)

lemma engine_built_sorted: "engine_built e \<Longrightarrow> sorted (map policy_priority (policies e))"
proof (induction rule: engine_built.induct)
  case (built_remove e n)
  then show ?case
    by (auto simp: remove_policy_def sorted_append split: option.splits dest!: remove_first_Some)
qed (simp_all add: new_engine_def add_policy_def)

text \<open>
  C39. In every engine the operations can build, the policy with the smallest priority number among
  those that decide is the one that decides: if some policy answers allow or deny, the engine's
  answer is that of a policy at least as urgent, every strictly more urgent policy is not
  applicable, and the default is not consulted; if no policy decides, the answer is the default.
\<close>

theorem engine_decides_by_priority:
  assumes "engine_built e"
  shows "(\<forall>p \<in> set (policies e). res_decision (policy_evaluate ipp p c) \<noteq> NOT_APPLICABLE \<longrightarrow>
            (\<exists>q \<in> set (policies e). policy_priority q \<le> policy_priority p \<and>
               engine_evaluate ipp e c = policy_evaluate ipp q c \<and>
               res_decision (engine_evaluate ipp e c) \<noteq> NOT_APPLICABLE \<and>
               (\<forall>p' \<in> set (policies e). policy_priority p' < policy_priority q \<longrightarrow>
                  res_decision (policy_evaluate ipp p' c) = NOT_APPLICABLE))) \<and>
         ((\<forall>p \<in> set (policies e). res_decision (policy_evaluate ipp p c) = NOT_APPLICABLE) \<longrightarrow>
            res_decision (engine_evaluate ipp e c) = (if default_deny e then DENY else ALLOW))"
proof (cases "first_decision ipp (policies e) c")
  case None
  then have "res_decision (engine_evaluate ipp e c) = (if default_deny e then DENY else ALLOW)"
    by (simp add: engine_evaluate_def)
  with None show ?thesis by (auto simp: first_decision_None)
next
  case (Some r)
  then obtain qs q rs where ps: "policies e = qs @ q # rs" and r: "r = policy_evaluate ipp q c"
    and dec: "res_decision r \<noteq> NOT_APPLICABLE"
    and na: "\<forall>q \<in> set qs. res_decision (policy_evaluate ipp q c) = NOT_APPLICABLE"
    by (rule first_decision_Some)
  have sorted: "sorted (map policy_priority (policies e))"
    using assms by (rule engine_built_sorted)
  have eval: "engine_evaluate ipp e c = policy_evaluate ipp q c"
    using Some r by (simp add: engine_evaluate_def)
  have before: "\<forall>p' \<in> set (policies e). policy_priority p' < policy_priority q \<longrightarrow> p' \<in> set qs"
    using sorted by (auto simp: ps sorted_append)
  have first: "policy_priority q \<le> policy_priority p"
    if "p \<in> set (policies e)" "res_decision (policy_evaluate ipp p c) \<noteq> NOT_APPLICABLE" for p
    using that before na by fastforce
  show ?thesis using dec r eval first before na ps by auto
qed

theorem engine_decides_by_priority_witness:
  "res_decision (engine_evaluate Map.empty (add_policy TenantIsolationPolicy (new_engine [AllowOwnerPolicy] True))
     \<lparr>ctx_user = \<lparr>sub = ''u'', email = None, user_name = None, roles = [], tenant_id = Some ''a''\<rparr>,
      ctx_resource_type = AAS, ctx_resource_id = None, ctx_resource_owner = Some ''u'',
      ctx_resource_tenant = Some ''b'', ctx_action = Read, ctx_client_ip = None,
      ctx_hour = 0, ctx_weekday = 0\<rparr>) \<noteq> NOT_APPLICABLE"
  (is "res_decision (engine_evaluate _ ?e ?c) \<noteq> _")
proof -
  have "engine_built ?e" by (intro built_add built_new)
  note dec = conjunct1 [OF engine_decides_by_priority [OF this, of Map.empty ?c]]
  have "TenantIsolationPolicy \<in> set (policies ?e)"
    by (simp add: add_policy_def)
  moreover have "res_decision (policy_evaluate Map.empty TenantIsolationPolicy ?c) \<noteq> NOT_APPLICABLE"
    by (simp add: eval_tenant_def result_of_def)
  ultimately show ?thesis using dec by blast
qed

section \<open>The default engine and the request check\<close>

lemma default_policies: "policies create_default_engine = [TenantIsolationPolicy, AllowOwnerPolicy]"
  by (simp add: create_default_engine_def new_engine_def)

lemma default_deny_default: "default_deny create_default_engine"
  by (simp add: create_default_engine_def new_engine_def)

definition tenant_ok :: "policy_context \<Rightarrow> bool" where
  "tenant_ok c = (ctx_resource_tenant c = None \<or> tenant_id (ctx_user c) = ctx_resource_tenant c)"

definition is_owner :: "policy_context \<Rightarrow> bool" where
  "is_owner c = (ctx_resource_owner c = Some (sub (ctx_user c)))"

lemma eval_tenant_ok: "fst (eval_tenant c) = (if tenant_ok c then NOT_APPLICABLE else DENY)"
  by (auto simp: eval_tenant_def tenant_ok_def split: option.splits)

lemma eval_owner_is: "fst (eval_owner c) = (if is_owner c then ALLOW else NOT_APPLICABLE)"
  by (auto simp: eval_owner_def is_owner_def split: option.splits)

lemma default_engine_decision:
  "res_decision (engine_evaluate ipp (create_default_engine\<lparr>default_deny := dd\<rparr>) c) =
     (if \<not> tenant_ok c then DENY else if is_owner c then ALLOW else if dd then DENY else ALLOW)"
  using eval_tenant_ok [of c] eval_owner_is [of c]
  by (auto simp: engine_evaluate_def default_policies result_of_def Let_def split: prod.splits if_splits)

text \<open>
  Tenant isolation dominates in the default engine, ownership comes next, and the default last:
  access is allowed exactly to the owner of a resource whose tenant, if it has one, is the user's
  own. A tenant mismatch denies even the owner.
\<close>

lemma default_engine_allows:
  "is_allowed ipp create_default_engine c = (tenant_ok c \<and> is_owner c) \<and>
   is_allowed ipp (create_default_engine\<lparr>default_deny := False\<rparr>) c = tenant_ok c"
proof -
  have "create_default_engine\<lparr>default_deny := True\<rparr> = create_default_engine"
    by (simp add: default_deny_default)
  then show ?thesis
    using default_engine_decision [of ipp True c] default_engine_decision [of ipp False c]
    by (simp add: is_allowed_def)
qed

text \<open>
  With ABAC enabled and its default settings, the request check never passes for a user who is
  not an administrator, whatever the roles, the permission and the request: the context it builds
  carries no resource owner, so that no policy of the default engine can allow. With
  \<open>abac_default_deny\<close> off it passes exactly when the role-based check does and the tenants agree.
\<close>

lemma abac_request_check:
  "(\<exists>v. require_permission ipp (fst (get_abac_engine True True None)) p rt params rq u = Inr v) =
     user_is_admin u \<and>
   (\<exists>v. require_permission ipp (fst (get_abac_engine True False None)) p rt params rq u = Inr v) =
     (user_is_admin u \<or>
      (has_permission role_permissions u p \<and>
       (get_resource_tenant rq = None \<or> tenant_id u = get_resource_tenant rq)))"
proof -
  let ?c = "context_of p rt params rq u"
  have "\<not> is_owner ?c" by (simp add: is_owner_def context_of_def)
  moreover have "tenant_ok ?c \<longleftrightarrow> get_resource_tenant rq = None \<or> tenant_id u = get_resource_tenant rq"
    by (simp add: tenant_ok_def context_of_def)
  moreover have "ctx_user ?c = u" by (simp add: context_of_def)
  ultimately show ?thesis
    using default_engine_decision [of ipp True ?c] default_engine_decision [of ipp False ?c]
    by (auto simp: require_permission_def abac_check_def get_abac_engine_def Let_def)
qed

text \<open>
  C40. With an identity provider configured, a protected request gets through only with a
  \<open>Bearer\<close> token that the validator accepts, and as the user the validator returned, who holds the
  required permission; with none configured it gets through only if anonymous administration is
  switched on.
\<close>

theorem access_needs_valid_token:
  assumes "bindE (get_current_user validator authorization) (\<lambda>ou.
             bindE (require_authenticated validator anon ou)
               (require_permission ipp abac p rt params rq)) = Inr u"
  shows "case validator of
           None \<Rightarrow> anon \<and> u = anonymous_admin
         | Some validate \<Rightarrow>
             (\<exists>token. authorization = Some (''Bearer '' @ token) \<and> validate token = Inr u) \<and>
             has_permission role_permissions u p"
proof -
  from assms obtain ou v where cu: "get_current_user validator authorization = Inr ou"
    and ra: "require_authenticated validator anon ou = Inr v"
    and rp: "require_permission ipp abac p rt params rq v = Inr u"
    by (auto simp: errs)
  from rp have uv: "u = v" and perm: "has_permission role_permissions u p"
    by (auto simp: require_permission_def abac_check_def context_of_def Let_def
        split: if_splits option.splits)
  show ?thesis
  proof (cases validator)
    case None
    with ra uv show ?thesis by (auto simp: require_authenticated_def split: if_splits)
  next
    case (Some validate)
    with ra uv have "ou = Some u" by (auto simp: require_authenticated_def split: option.splits)
    with cu Some obtain a where a: "authorization = Some a" "take 7 a = ''Bearer ''"
      and val: "validate (drop 7 a) = Inr u"
      by (auto simp: get_current_user_def split: option.splits if_splits sum.splits)
    from a(2) have "a = ''Bearer '' @ drop 7 a" using append_take_drop_id [of 7 a] by simp
    with a val Some perm show ?thesis by auto
  qed
qed

theorem access_needs_valid_token_witness:
  "has_permission role_permissions
     \<lparr>sub = ''u'', email = None, user_name = None, roles = [''reader''], tenant_id = None\<rparr> READ_AAS"
  using access_needs_valid_token [of
    "Some (\<lambda>t. if t = ''tok'' then Inr \<lparr>sub = ''u'', email = None, user_name = None,
       roles = [''reader''], tenant_id = None\<rparr> else Inl ''bad'')"
    "Some ''Bearer tok''" False Map.empty None READ_AAS None None
    "\<lparr>headers = Map.empty, client_host = None, path_params = Map.empty, context_tenant = None,
      at_hour = 0, at_weekday = 0\<rparr>"
    "\<lparr>sub = ''u'', email = None, user_name = None, roles = [''reader''], tenant_id = None\<rparr>"]
  by (simp add: get_current_user_def require_authenticated_def require_permission_def
      abac_check_def context_of_def has_permission_def get_user_permissions_def
      role_permissions_of reader_permissions_def)

end
