(* ===== verification/Ids.thy ===== *)
theory Ids
  imports Prelude
begin

text \<open>
  Identifiers in URLs (\<open>src/titan/core/ids.py\<close>): Base64URL without padding of the UTF-8 encoding.
  An identifier is a list of Unicode code points here, a byte a number below 256; the UTF-8 and
  Base64 codecs of the standard library are written out.
\<close>

section \<open>UTF-8\<close>

definition surrogate :: "nat \<Rightarrow> bool" where
  "surrogate c = (55296 \<le> c \<and> c < 57344)"

text \<open>\<open>None\<close>: UnicodeEncodeError, for a lone surrogate (and for what is no code point).\<close>

definition utf8_char :: "nat \<Rightarrow> nat list option" where
  "utf8_char c =
     (if c < 128 then Some [c]
      else if c < 2048 then Some [192 + c div 64, 128 + c mod 64]
      else if surrogate c then None
      else if c < 65536 then Some [224 + c div 4096, 128 + c div 64 mod 64, 128 + c mod 64]
      else if c < 1114112 then
        Some [240 + c div 262144, 128 + c div 4096 mod 64, 128 + c div 64 mod 64, 128 + c mod 64]
      else None)"

fun utf8_encode :: "nat list \<Rightarrow> nat list option" where
  "utf8_encode [] = Some []"
| "utf8_encode (c # cs) =
     (case (utf8_char c, utf8_encode cs) of
        (Some bs, Some bs') \<Rightarrow> Some (bs @ bs')
      | _ \<Rightarrow> None)"

definition cont :: "nat \<Rightarrow> bool" where
  "cont b = (128 \<le> b \<and> b < 192)"

text \<open>Strict decoding: \<open>None\<close> (UnicodeDecodeError) for overlong forms, surrogates and stray bytes.\<close>

fun utf8_decode :: "nat list \<Rightarrow> nat list option" where
  "utf8_decode [] = Some []"
| "utf8_decode (a # r) =
     (if a < 128 then map_option ((#) a) (utf8_decode r)
      else if a < 192 then None
      else if a < 224 then
        (case r of
           b # r' \<Rightarrow>
             (let c = (a - 192) * 64 + (b - 128) in
              if cont b \<and> 128 \<le> c then map_option ((#) c) (utf8_decode r') else None)
         | _ \<Rightarrow> None)
      else if a < 240 then
        (case r of
           b1 # b2 # r' \<Rightarrow>
             (let c = (a - 224) * 4096 + (b1 - 128) * 64 + (b2 - 128) in
              if cont b1 \<and> cont b2 \<and> 2048 \<le> c \<and> \<not> surrogate c
              then map_option ((#) c) (utf8_decode r') else None)
         | _ \<Rightarrow> None)
      else if a < 248 then
        (case r of
           b1 # b2 # b3 # r' \<Rightarrow>
             (let c = (a - 240) * 262144 + (b1 - 128) * 4096 + (b2 - 128) * 64 + (b3 - 128) in
              if cont b1 \<and> cont b2 \<and> cont b3 \<and> 65536 \<le> c \<and> c < 1114112
              then map_option ((#) c) (utf8_decode r') else None)
         | _ \<Rightarrow> None)
      else None)"

text \<open>Numbers in base 64 (and other bases), split and joined.\<close>

lemma join_div_mod:
  fixes q :: nat
  assumes "y < k"
  shows "(q * k + y) div k = q" and "(q * k + y) mod k = y"
  using assms by simp_all

lemma div_4096: "(c::nat) div 4096 = c div 64 div 64"
  and div_262144: "(c::nat) div 262144 = c div 64 div 64 div 64"
  by (simp_all add: div_mult2_eq [symmetric])

lemma split_64: "(c::nat) div 64 * 64 + c mod 64 = c"
  by simp

lemma split_4096: "(c::nat) div 4096 * 4096 + c div 64 mod 64 * 64 + c mod 64 = c"
proof -
  have "(c div 4096 * 64 + c div 64 mod 64) * 64 + c mod 64 = c"
    unfolding div_4096 split_64 ..
  then show ?thesis by (simp add: algebra_simps)
qed

lemma split_262144:
  "(c::nat) div 262144 * 262144 + c div 4096 mod 64 * 4096 + c div 64 mod 64 * 64 + c mod 64 = c"
proof -
  have "((c div 262144 * 64 + c div 4096 mod 64) * 64 + c div 64 mod 64) * 64 + c mod 64 = c"
    unfolding div_4096 div_262144 split_64 ..
  then show ?thesis by (simp add: algebra_simps)
qed

lemma decode_char:
  assumes "utf8_char c = Some bs"
  shows "utf8_decode (bs @ r) = map_option ((#) c) (utf8_decode r)"
proof -
  consider "c < 128" "bs = [c]"
    | "128 \<le> c" "c < 2048" "bs = [192 + c div 64, 128 + c mod 64]"
    | "2048 \<le> c" "c < 65536" "\<not> surrogate c" "bs = [224 + c div 4096, 128 + c div 64 mod 64, 128 + c mod 64]"
    | "65536 \<le> c" "c < 1114112"
      "bs = [240 + c div 262144, 128 + c div 4096 mod 64, 128 + c div 64 mod 64, 128 + c mod 64]"
    using assms by (force simp: utf8_char_def split: if_splits)
  then show ?thesis
  proof cases
    case 2
    then have "c div 64 < 32" by (simp add: less_mult_imp_div_less)
    with 2 show ?thesis by (simp add: cont_def Let_def)
  next
    case 3
    then have "c div 4096 < 16" by (simp add: less_mult_imp_div_less)
    with 3 split_4096 [of c] show ?thesis by (simp add: cont_def Let_def)
  next
    case 4
    then have "c div 262144 < 5" by (simp add: less_mult_imp_div_less)
    with 4 split_262144 [of c] show ?thesis by (simp add: cont_def Let_def)
  qed simp
qed

lemma utf8_decode_encode: "utf8_encode cs = Some bs \<Longrightarrow> utf8_decode bs = Some cs"
  by (induction cs arbitrary: bs) (auto simp: decode_char split: option.splits)

lemma utf8_char_bytes: "utf8_char c = Some bs \<Longrightarrow> \<forall>b \<in> set bs. b < 256"
  by (auto simp: utf8_char_def split: if_splits)

lemma utf8_encode_bytes: "utf8_encode cs = Some bs \<Longrightarrow> \<forall>b \<in> set bs. b < 256"
  by (induction cs arbitrary: bs) (auto dest!: utf8_char_bytes split: option.splits)

lemma utf8_encode_empty: "utf8_encode cs = Some [] \<longleftrightarrow> cs = []"
  by (cases cs) (auto simp: utf8_char_def split: option.splits if_splits)

lemma cont_low: "cont b \<Longrightarrow> b - 128 < 64 \<and> 128 \<le> b \<and> b < 192"
  unfolding cont_def by linarith

lemma char_two:
  assumes "192 \<le> a" "a < 224" "cont b" "c = (a - 192) * 64 + (b - 128)" "128 \<le> c"
  shows "utf8_char c = Some [a, b]"
proof -
  have "b - 128 < 64" using assms(3) by (simp add: cont_low)
  note * = join_div_mod [OF this, of "a - 192"]
  have "c < 2048" using assms(1,2,4) cont_low [OF assms(3)] by linarith
  with assms * show ?thesis by (simp add: utf8_char_def cont_def)
qed

lemma char_three:
  assumes "224 \<le> a" "a < 240" "cont b1" "cont b2"
    "c = (a - 224) * 4096 + (b1 - 128) * 64 + (b2 - 128)" "2048 \<le> c" "\<not> surrogate c"
  shows "utf8_char c = Some [a, b1, b2]"
proof -
  have lt: "b1 - 128 < 64" "b2 - 128 < 64" using assms(3,4) by (simp_all add: cont_low)
  have c: "c = ((a - 224) * 64 + (b1 - 128)) * 64 + (b2 - 128)" using assms(5) by simp
  have "c < 65536" using assms(1,2,5) lt by linarith
  moreover have "c div 64 = (a - 224) * 64 + (b1 - 128)" "c mod 64 = b2 - 128"
    unfolding c by (rule join_div_mod [OF lt(2)])+
  ultimately show ?thesis
    using assms join_div_mod [OF lt(1), of "a - 224"]
    by (simp add: utf8_char_def cont_def div_4096)
qed

lemma char_four:
  assumes "240 \<le> a" "cont b1" "cont b2" "cont b3"
    "c = (a - 240) * 262144 + (b1 - 128) * 4096 + (b2 - 128) * 64 + (b3 - 128)"
    "65536 \<le> c" "c < 1114112"
  shows "utf8_char c = Some [a, b1, b2, b3]"
proof -
  have lt: "b1 - 128 < 64" "b2 - 128 < 64" "b3 - 128 < 64" using assms(2-4) by (simp_all add: cont_low)
  have c: "c = (((a - 240) * 64 + (b1 - 128)) * 64 + (b2 - 128)) * 64 + (b3 - 128)"
    using assms(5) by simp
  have d1: "c div 64 = ((a - 240) * 64 + (b1 - 128)) * 64 + (b2 - 128)" "c mod 64 = b3 - 128"
    unfolding c by (rule join_div_mod [OF lt(3)])+
  have d2: "c div 64 div 64 = (a - 240) * 64 + (b1 - 128)" "c div 64 mod 64 = b2 - 128"
    unfolding d1 by (rule join_div_mod [OF lt(2)])+
  have d3: "c div 64 div 64 div 64 = a - 240" "c div 64 div 64 mod 64 = b1 - 128"
    unfolding d2 by (rule join_div_mod [OF lt(1)])+
  have "\<not> surrogate c" using assms(6) by (simp add: surrogate_def)
  with assms(1-4,6,7) d1(2) d2(2) d3 show ?thesis
    by (simp add: utf8_char_def cont_def div_4096 div_262144)
qed

lemma utf8_encode_decode: "utf8_decode bs = Some cs \<Longrightarrow> utf8_encode cs = Some bs"
proof (induction bs arbitrary: cs rule: utf8_decode.induct)
  case (2 a r)
  have "\<not> (128 \<le> a \<and> a < 192)" by (rule notI) (use "2.prems" in simp)
  moreover have "a < 248" by (rule ccontr) (use "2.prems" in simp)
  ultimately consider "a < 128" | "192 \<le> a" "a < 224" | "224 \<le> a" "a < 240" | "240 \<le> a" "a < 248"
    by linarith
  then show ?case
  proof cases
    case 1
    with "2.prems" "2.IH"(1) show ?thesis by (auto simp: utf8_char_def)
  next
    case 2
    with "2.prems" obtain b r' where r: "r = b # r'" by (cases r) auto
    let ?c = "(a - 192) * 64 + (b - 128)"
    from 2 "2.prems" r obtain ds where ds: "cont b" "128 \<le> ?c" "utf8_decode r' = Some ds" "cs = ?c # ds"
      by (auto simp: Let_def split: if_splits)
    with 2 r have "utf8_encode ds = Some r'" using "2.IH"(2) [of b r' ?c ds] by simp
    with ds r char_two [OF 2 ds(1) refl ds(2)] show ?thesis by simp
  next
    case 3
    with "2.prems" obtain b1 b2 r' where r: "r = b1 # b2 # r'"
      by (cases r; cases "tl r") auto
    let ?c = "(a - 224) * 4096 + (b1 - 128) * 64 + (b2 - 128)"
    from 3 "2.prems" r obtain ds where ds: "cont b1" "cont b2" "2048 \<le> ?c" "\<not> surrogate ?c"
        "utf8_decode r' = Some ds" "cs = ?c # ds"
      by (auto simp: Let_def split: if_splits)
    with 3 r have "utf8_encode ds = Some r'"
      using "2.IH"(3) [of b1 "b2 # r'" b2 r' ?c ds] by simp
    with ds r char_three [OF 3 ds(1,2) refl ds(3,4)] show ?thesis by simp
  next
    case 4
    with "2.prems" obtain b1 b2 b3 r' where r: "r = b1 # b2 # b3 # r'"
      by (cases r; cases "tl r"; cases "tl (tl r)") auto
    let ?c = "(a - 240) * 262144 + (b1 - 128) * 4096 + (b2 - 128) * 64 + (b3 - 128)"
    from 4 "2.prems" r obtain ds where ds: "cont b1" "cont b2" "cont b3" "65536 \<le> ?c" "?c < 1114112"
        "utf8_decode r' = Some ds" "cs = ?c # ds"
      by (auto simp: Let_def split: if_splits)
    with 4 r have "utf8_encode ds = Some r'"
      using "2.IH"(4) [of b1 "b2 # b3 # r'" b2 "b3 # r'" b3 r' ?c ds] by simp
    with ds r char_four [OF 4(1) ds(1-3) refl ds(4,5)] show ?thesis by simp
  qed
qed simp

section \<open>Base64URL\<close>

definition b64_alphabet :: string where
  "b64_alphabet = ''ABCDEFGHIJKLMNOPQRSTUVWXYZabcdefghijklmnopqrstuvwxyz0123456789-_''"

definition b64_char :: "nat \<Rightarrow> char" where
  "b64_char n = b64_alphabet ! n"

fun position :: "'a \<Rightarrow> 'a list \<Rightarrow> nat" where
  "position x [] = 0"
| "position x (y # ys) = (if x = y then 0 else Suc (position x ys))"

definition b64_value :: "char \<Rightarrow> nat" where
  "b64_value c = position c b64_alphabet"

fun sextets :: "nat list \<Rightarrow> nat list" where
  "sextets [] = []"
| "sextets [a] = [a div 4, a mod 4 * 16]"
| "sextets [a, b] = [a div 4, a mod 4 * 16 + b div 16, b mod 16 * 4]"
| "sextets (a # b # c # r) =
     [a div 4, a mod 4 * 16 + b div 16, b mod 16 * 4 + c div 64, c mod 64] @ sextets r"

text \<open>
  Decoding ignores the bits of the last sextet that belong to no byte; a single sextet left over is
  an error, whatever the padding.
\<close>

fun octets :: "nat list \<Rightarrow> nat list option" where
  "octets [] = Some []"
| "octets [w] = None"
| "octets [w, x] = Some [w * 4 + x div 16]"
| "octets [w, x, y] = Some [w * 4 + x div 16, x mod 16 * 16 + y div 4]"
| "octets (w # x # y # z # r) =
     map_option ((@) [w * 4 + x div 16, x mod 16 * 16 + y div 4, y mod 4 * 64 + z]) (octets r)"

datatype id_error = EmptyValue | InvalidAlphabet | InvalidValue

text \<open>\<open>None\<close>: UnicodeEncodeError.\<close>

definition encode_id_to_b64url :: "nat list \<Rightarrow> string option" where
  "encode_id_to_b64url cs = map_option (map b64_char \<circ> sextets) (utf8_encode cs)"

definition decode_id_from_b64url :: "string \<Rightarrow> id_error + nat list" where
  "decode_id_from_b64url v =
     (if v = [] then Inl EmptyValue
      else if \<exists>ch \<in> set v. ch \<notin> set b64_alphabet then Inl InvalidAlphabet
      else case octets (map b64_value v) of
             None \<Rightarrow> Inl InvalidValue
           | Some bs \<Rightarrow> (case utf8_decode bs of None \<Rightarrow> Inl InvalidValue | Some cs \<Rightarrow> Inr cs))"

lemma byte_parts: "(b::nat) < 256 \<Longrightarrow> b div 4 < 64 \<and> b div 16 < 16 \<and> b div 64 < 4"
  by (simp add: less_mult_imp_div_less)

lemma octets_sextets: "\<forall>b \<in> set bs. b < 256 \<Longrightarrow> octets (sextets bs) = Some bs"
proof (induction bs rule: sextets.induct)
  case (4 a b c r)
  then have "b div 16 < 16" "c div 64 < 4" by (simp_all add: byte_parts)
  from join_div_mod [OF this(1), of "a mod 4"] join_div_mod [OF this(2), of "b mod 16"] 4
  show ?case by simp
next
  case (3 a b)
  then have "b div 16 < 16" by (simp add: byte_parts)
  from join_div_mod [OF this, of "a mod 4"] show ?case by simp
qed simp_all

lemma join_bound: "(x::nat) mod m * k + y < m * k" if "y < k" and "0 < m"
proof -
  have "Suc (x mod m) * k \<le> m * k" using that(2) by (intro mult_right_mono) (simp_all add: Suc_leI)
  with that(1) show ?thesis by simp
qed

lemma sextets_bound: "\<forall>b \<in> set bs. b < 256 \<Longrightarrow> \<forall>x \<in> set (sextets bs). x < 64"
proof (induction bs rule: sextets.induct)
  case (4 a b c r)
  then have "b div 16 < 16" "c div 64 < 4" "a div 4 < 64" by (simp_all add: byte_parts)
  with join_bound [OF this(1), of 4 a] join_bound [OF this(2), of 16 b] 4 show ?case by auto
next
  case (3 a b)
  then have "b div 16 < 16" "a div 4 < 64" by (simp_all add: byte_parts)
  with join_bound [OF this(1), of 4 a] join_bound [of 0 4 16 b] show ?case by auto
next
  case (2 a)
  then have "a div 4 < 64" by (simp add: byte_parts)
  with join_bound [of 0 16 4 a] show ?case by auto
qed auto

lemma length_alphabet: "length b64_alphabet = 64"
  by (simp add: b64_alphabet_def)

lemma distinct_alphabet: "distinct b64_alphabet"
  by (simp add: b64_alphabet_def)

lemma position_nth: "distinct xs \<Longrightarrow> n < length xs \<Longrightarrow> position (xs ! n) xs = n"
  by (induction xs arbitrary: n) (auto simp: nth_Cons' split: nat.splits)

lemma nth_position: "x \<in> set xs \<Longrightarrow> xs ! position x xs = x \<and> position x xs < length xs"
  by (induction xs) auto

lemma b64_value_char [simp]: "n < 64 \<Longrightarrow> b64_value (b64_char n) = n"
  by (simp add: b64_value_def b64_char_def position_nth distinct_alphabet length_alphabet)

lemma b64_char_in [simp]: "n < 64 \<Longrightarrow> b64_char n \<in> set b64_alphabet"
  by (simp add: b64_char_def length_alphabet)

lemma b64_char_value: "c \<in> set b64_alphabet \<Longrightarrow> b64_char (b64_value c) = c \<and> b64_value c < 64"
  using nth_position [of c b64_alphabet] by (simp add: b64_char_def b64_value_def length_alphabet)

lemma sextet_parts: "(x::nat) < 64 \<Longrightarrow> x div 16 < 4 \<and> x div 4 < 16"
  by (simp add: less_mult_imp_div_less)

lemma sextets_octets:
  "octets ss = Some bs \<Longrightarrow> \<forall>x \<in> set ss. x < 64 \<Longrightarrow>
   length (sextets bs) = length ss \<and> butlast (sextets bs) = butlast ss \<and>
   (length ss mod 4 = 0 \<longrightarrow> sextets bs = ss) \<and> (\<forall>b \<in> set bs. b < 256)"
proof (induction ss arbitrary: bs rule: octets.induct)
  case (3 w x)
  then have lt: "x div 16 < 4" and bs: "bs = [w * 4 + x div 16]" by (simp_all add: sextet_parts)
  have "sextets bs = [w, x div 16 * 16]"
    unfolding bs using join_div_mod [OF lt, of w] by simp
  moreover have "w * 4 + x div 16 < 256" using 3(2) lt by simp
  ultimately show ?case using bs by simp
next
  case (4 w x y)
  then have lt: "x div 16 < 4" "y div 4 < 16"
    and bs: "bs = [w * 4 + x div 16, x mod 16 * 16 + y div 4]" by (simp_all add: sextet_parts)
  have "sextets bs = [w, x, y div 4 * 4]"
    unfolding bs
    using join_div_mod [OF lt(1), of w] join_div_mod [OF lt(2), of "x mod 16"] by simp
  moreover have "w * 4 + x div 16 < 256" using 4(2) lt by simp
  moreover have "x mod 16 * 16 + y div 4 < 256" using join_bound [OF lt(2), of 16 x] by simp
  ultimately show ?case using bs by simp
next
  case (5 w x y z r)
  then obtain bs' where bs': "octets r = Some bs'"
    "bs = [w * 4 + x div 16, x mod 16 * 16 + y div 4, y mod 4 * 64 + z] @ bs'" by auto
  have lt: "x div 16 < 4" "y div 4 < 16" "z < 64" using 5(3) by (simp_all add: sextet_parts)
  have bound: "w * 4 + x div 16 < 256" "x mod 16 * 16 + y div 4 < 256" "y mod 4 * 64 + z < 256"
    using 5(3) lt join_bound [OF lt(2), of 16 x] join_bound [OF lt(3), of 4 y] by simp_all
  have eq: "sextets bs = [w, x, y, z] @ sextets bs'"
    unfolding bs'(2)
    using join_div_mod [OF lt(1), of w] join_div_mod [OF lt(2), of "x mod 16"]
      join_div_mod [OF lt(3), of "y mod 4"] by simp
  have IH: "length (sextets bs') = length r" "butlast (sextets bs') = butlast r"
    "length r mod 4 = 0 \<longrightarrow> sextets bs' = r" "\<forall>b \<in> set bs'. b < 256"
    using 5(1) [OF bs'(1)] 5(3) by auto
  have "sextets bs' = [] \<longleftrightarrow> r = []" using IH(1) by (metis length_0_conv)
  with IH bound show ?case unfolding eq by (auto simp: bs'(2))
qed simp_all

text \<open>An encoding that exists is over the alphabet and is decoded to what was encoded.\<close>

lemma decode_encoded:
  assumes "encode_id_to_b64url cs = Some v" and "cs \<noteq> []"
  shows "set v \<subseteq> set b64_alphabet \<and> decode_id_from_b64url v = Inr cs"
proof -
  from assms(1) obtain bs where bs: "utf8_encode cs = Some bs" and v: "v = map b64_char (sextets bs)"
    by (auto simp: encode_id_to_b64url_def)
  from bs have bytes: "\<forall>b \<in> set bs. b < 256" by (rule utf8_encode_bytes)
  have vals: "map b64_value v = sextets bs"
    unfolding v using sextets_bound [OF bytes] by (simp add: map_idI)
  have "bs \<noteq> []" using bs assms(2) utf8_encode_empty by auto
  then have "v \<noteq> []" unfolding v by (cases bs rule: sextets.cases) auto
  moreover have alpha: "set v \<subseteq> set b64_alphabet" unfolding v using sextets_bound [OF bytes] by auto
  ultimately have "decode_id_from_b64url v = Inr cs"
    using octets_sextets [OF bytes] utf8_decode_encode [OF bs] vals
    by (auto simp: decode_id_from_b64url_def)
  with alpha show ?thesis by simp
qed

lemma decoded_alphabet: "decode_id_from_b64url v = Inr cs \<Longrightarrow> set v \<subseteq> set b64_alphabet"
  by (auto simp: decode_id_from_b64url_def split: if_splits)

text \<open>
  C32. Decoding undoes encoding: every non-empty identifier without lone surrogates has an encoding,
  over the Base64URL alphabet and without padding, from which the same identifier is read back.
\<close>

theorem decode_encode_id:
  assumes "cs \<noteq> []" and "\<forall>c \<in> set cs. c < 1114112 \<and> \<not> surrogate c"
  shows "\<exists>v. encode_id_to_b64url cs = Some v \<and> set v \<subseteq> set b64_alphabet \<and>
             decode_id_from_b64url v = Inr cs"
proof -
  have "utf8_encode cs \<noteq> None"
    using assms(2) by (induction cs) (auto simp: utf8_char_def split: option.splits)
  then obtain v where "encode_id_to_b64url cs = Some v" by (auto simp: encode_id_to_b64url_def)
  with decode_encoded [OF this assms(1)] show ?thesis by blast
qed

theorem decode_encode_id_witness:
  "\<exists>v. encode_id_to_b64url [104, 233, 8364, 128512] = Some v \<and> decode_id_from_b64url v = Inr [104, 233, 8364, 128512]"
  using decode_encode_id [of "[104, 233, 8364, 128512]"] by (auto simp: surrogate_def)

text \<open>
  What decoding accepts: a value that decodes to an identifier agrees with the identifier's own
  encoding up to its last character, and is that encoding when its length is a multiple of four. (The
  decoder ignores the unused bits of the last character, so the other values with those bits set
  name the same identifier.)
\<close>

lemma decoded_id_spelling:
  assumes "decode_id_from_b64url v = Inr cs"
  shows "\<exists>v'. encode_id_to_b64url cs = Some v' \<and> length v' = length v \<and> butlast v' = butlast v \<and>
              (length v mod 4 = 0 \<longrightarrow> v' = v)"
proof -
  from assms obtain bs where alpha: "\<forall>c \<in> set v. c \<in> set b64_alphabet"
    and bs: "octets (map b64_value v) = Some bs" and cs: "utf8_decode bs = Some cs"
    by (auto simp: decode_id_from_b64url_def split: if_splits option.splits)
  have vals: "\<forall>x \<in> set (map b64_value v). x < 64" using alpha b64_char_value by auto
  have rejoin: "map b64_char (map b64_value v) = v" using alpha b64_char_value by (simp add: map_idI)
  note spec = sextets_octets [OF bs vals]
  have "encode_id_to_b64url cs = Some (map b64_char (sextets bs))"
    using utf8_encode_decode [OF cs] by (simp add: encode_id_to_b64url_def)
  moreover have "butlast (map b64_char (sextets bs)) = butlast v"
    using spec rejoin by (metis map_butlast)
  moreover have "length v mod 4 = 0 \<longrightarrow> map b64_char (sextets bs) = v"
    using spec rejoin by simp
  ultimately show ?thesis using spec by simp
qed

lemma decoded_id_spelling_witness:
  "\<exists>v'. encode_id_to_b64url [65] = Some v' \<and> length v' = 2"
proof -
  have "decode_id_from_b64url ''QR'' = Inr [65]"
    by (simp add: decode_id_from_b64url_def b64_value_def b64_alphabet_def)
  from decoded_id_spelling [OF this] show ?thesis by auto
qed

end
