(* ===== verification/Http.thy ===== *)
theory Http
  imports Prelude Ids
begin

text \<open>
  The HTTP client as the federation uses it (\<open>httpx\<close>, a package outside the repository): requests
  with a body, a reply that is a status or an exception, and the pages of a list endpoint. What a
  server answers is a parameter wherever it is used.
\<close>

datatype 'b http_request =
    POST string 'b
  | PUT string 'b
  | DELETE string

datatype http_reply = Replied nat | Raised string

text \<open>
  The answer to \<open>GET\<close> of a list: an exception (of the transport or of \<open>response.json()\<close>), a status
  other than 200, or a document. \<open>pages k url cursor\<close> is the answer to the \<open>k\<close>-th request of a loop.
\<close>

datatype page = PageRaised | PageStatus nat | PageOf json

type_synonym hub_pages = "nat \<Rightarrow> string \<Rightarrow> json option \<Rightarrow> page"

text \<open>
  The path segment of an entity: its id in UTF-8 and Base64URL without padding. (An 8-bit string has
  an encoding, so the encoder's error cannot occur.)
\<close>

definition encoded_id :: "string \<Rightarrow> string" where
  "encoded_id s = (case encode_id_to_b64url (map of_char s) of Some v \<Rightarrow> v | None \<Rightarrow> [])"

end
