(* ===== verification/Edge.thy ===== *)
theory Edge
  imports Http
begin

text \<open>
  An edge node's queue of pending changes and its synchronisation with a hub
  (\<open>src/titan/federation/edge.py\<close>). The hub and the clock are parameters: every HTTP request is
  answered by a status or an exception.
\<close>

section \<open>State\<close>

datatype connection = CONNECTED | DISCONNECTED | CONNECTING | LIMITED

datatype sync_priority = HIGH | NORMAL | LOW

record pending_change =
  ch_id :: string
  ch_entity_type :: string
  ch_entity_id :: string
  ch_action :: string
  ch_data :: "string option"
  ch_etag :: "string option"
  ch_priority :: sync_priority
  created_at :: int
  attempts :: nat
  last_error :: "string option"

record edge_config =
  hub_url :: "string option"
  sync_interval :: int
  max_offline_queue :: int
  bandwidth_limit :: "int option"
  retry_attempts :: int
  auto_reconnect :: bool
  reconnect_delay :: int

definition default_config :: edge_config where
  "default_config = \<lparr>hub_url = None, sync_interval = 60, max_offline_queue = 1000,
     bandwidth_limit = None, retry_attempts = 3, auto_reconnect = True, reconnect_delay = 10\<rparr>"

record conflict_entry =
  e_entity_type :: string
  e_entity_id :: json
  e_local_doc :: obj
  e_local_etag :: json
  e_remote_doc :: obj
  e_remote_etag :: json
  e_detected_at :: int

text \<open>
  Changes are objects that the queue and a running synchronisation share, so they live in a store and
  the queue holds their addresses. Background tasks are counted: the running sync loops, the running
  reconnect loops, and the immediate synchronisations asked for.
\<close>

record edge =
  conn :: connection
  store :: "nat \<Rightarrow> pending_change"
  pending :: "nat list"
  conflicts :: "conflict_entry list"
  sync_loops :: nat
  reconnect_loops :: nat
  immediate_syncs :: nat
  last_sync :: "int option"
  last_sync_cursor :: "json option"
  aas_cursor :: "json option"
  submodel_cursor :: "json option"

definition hub_of :: "edge_config \<Rightarrow> string option" where
  "hub_of cfg = (case hub_url cfg of Some (c # cs) \<Rightarrow> Some (c # cs) | _ \<Rightarrow> None)"

record edge_status =
  st_connection :: connection
  st_hub_url :: "string option"
  st_last_sync :: "int option"
  st_pending :: nat
  st_conflicts :: nat
  st_bytes :: nat

definition status :: "edge_config \<Rightarrow> edge \<Rightarrow> edge_status" where
  "status cfg st =
     \<lparr>st_connection = conn st, st_hub_url = hub_url cfg, st_last_sync = last_sync st,
      st_pending = length (pending st), st_conflicts = length (conflicts st),
      st_bytes = sum_list (map (\<lambda>a. case ch_data (store st a) of None \<Rightarrow> 0 | Some d \<Rightarrow> length d) (pending st))\<rparr>"

definition is_connected :: "edge \<Rightarrow> bool" where
  "is_connected st = (conn st = CONNECTED)"

section \<open>The queue\<close>

text \<open>\<open>list.remove\<close>: the first entry that is equal, by value, to the one given.\<close>

fun remove_equal :: "(nat \<Rightarrow> pending_change) \<Rightarrow> pending_change \<Rightarrow> nat list \<Rightarrow> nat list" where
  "remove_equal h x [] = []"
| "remove_equal h x (a # as) = (if h a = x then as else a # remove_equal h x as)"

definition accept_change :: "nat \<Rightarrow> edge \<Rightarrow> edge" where
  "accept_change a st =
     (let st' = st\<lparr>pending := pending st @ [a]\<rparr> in
      if is_connected st' \<and> ch_priority (store st' a) = HIGH
      then st'\<lparr>immediate_syncs := Suc (immediate_syncs st')\<rparr> else st')"

definition queue_change :: "edge_config \<Rightarrow> nat \<Rightarrow> edge \<Rightarrow> edge" where
  "queue_change cfg a st =
     (if int (length (pending st)) \<ge> max_offline_queue cfg
      then (case filter (\<lambda>b. ch_priority (store st b) = LOW) (pending st) of
              [] \<Rightarrow> st
            | b # _ \<Rightarrow>
                accept_change a
                  (st\<lparr>pending := remove_equal (store st) (store st b) (pending st)\<rparr>))
      else accept_change a st)"

definition clear_pending :: "edge \<Rightarrow> edge \<times> nat" where
  "clear_pending st = (st\<lparr>pending := []\<rparr>, length (pending st))"

section \<open>Pushing\<close>

datatype push_result = Pushed | NotPushed | PushRaised string

definition push_request :: "edge_config \<Rightarrow> pending_change \<Rightarrow> string http_request option" where
  "push_request cfg c =
     (case (hub_of cfg, ch_data c) of
        (Some url, Some (d # ds)) \<Rightarrow>
          (case (if ch_entity_type c = ''aas'' then Some (url @ ''/shells'')
                 else if ch_entity_type c = ''submodel'' then Some (url @ ''/submodels'')
                 else None) of
             None \<Rightarrow> None
           | Some endpoint \<Rightarrow>
               if ch_action c = ''create'' then Some (POST endpoint (d # ds))
               else if ch_action c = ''update''
               then Some (PUT (endpoint @ ''/'' @ encoded_id (ch_entity_id c)) (d # ds))
               else if ch_action c = ''delete''
               then Some (DELETE (endpoint @ ''/'' @ encoded_id (ch_entity_id c)))
               else None)
      | _ \<Rightarrow> None)"

definition push_change :: "(string http_request \<Rightarrow> http_reply) \<Rightarrow> edge_config \<Rightarrow> pending_change \<Rightarrow> push_result" where
  "push_change hub cfg c =
     (case push_request cfg c of
        None \<Rightarrow> NotPushed
      | Some rq \<Rightarrow>
          (case hub rq of
             Raised e \<Rightarrow> PushRaised e
           | Replied n \<Rightarrow> if n \<in> {200, 201, 204} then Pushed else NotPushed))"

text \<open>
  A synchronisation in progress: the changes of its snapshot still to try, the ids pushed, the
  result so far. \<open>push_next\<close> is one turn of the loop over the snapshot.
\<close>

record sync =
  todo :: "nat list"
  pushed_ids :: "string list"
  n_pushed :: nat
  n_pulled :: int
  sync_errors :: "string list"

definition begin_sync :: "edge \<Rightarrow> sync" where
  "begin_sync st = \<lparr>todo = pending st, pushed_ids = [], n_pushed = 0, n_pulled = 0, sync_errors = []\<rparr>"

definition update_change :: "nat \<Rightarrow> (pending_change \<Rightarrow> pending_change) \<Rightarrow> edge \<Rightarrow> edge" where
  "update_change a f st = st\<lparr>store := (store st)(a := f (store st a))\<rparr>"

definition exhausted :: "edge_config \<Rightarrow> pending_change \<Rightarrow> bool" where
  "exhausted cfg c = (int (attempts c) \<ge> retry_attempts cfg)"

definition push_next :: "(string http_request \<Rightarrow> http_reply) \<Rightarrow> edge_config \<Rightarrow> edge \<times> sync \<Rightarrow> edge \<times> sync" where
  "push_next hub cfg = (\<lambda>(st, sy).
     (case todo sy of
        [] \<Rightarrow> (st, sy)
      | a # as \<Rightarrow>
          (let c = store st a; sy' = sy\<lparr>todo := as\<rparr> in
           if exhausted cfg c then (st, sy')
           else case push_change hub cfg c of
             Pushed \<Rightarrow> (st, sy'\<lparr>pushed_ids := pushed_ids sy @ [ch_id c], n_pushed := Suc (n_pushed sy)\<rparr>)
           | NotPushed \<Rightarrow> (update_change a (\<lambda>c. c\<lparr>attempts := Suc (attempts c)\<rparr>) st, sy')
           | PushRaised e \<Rightarrow>
               (update_change a (\<lambda>c. c\<lparr>attempts := Suc (attempts c), last_error := Some e\<rparr>) st,
                sy'\<lparr>sync_errors := sync_errors sy @ [e]\<rparr>))))"

definition remove_pushed :: "sync \<Rightarrow> edge \<Rightarrow> edge" where
  "remove_pushed sy st =
     st\<lparr>pending := filter (\<lambda>a. ch_id (store st a) \<notin> set (pushed_ids sy)) (pending st)\<rparr>"

section \<open>Pulling\<close>

definition get_sync_cursor :: "string \<Rightarrow> edge \<Rightarrow> json option" where
  "get_sync_cursor etype st =
     (if etype = ''aas'' then aas_cursor st
      else if etype = ''submodel'' then submodel_cursor st else None)"

definition set_sync_cursor :: "string \<Rightarrow> json \<Rightarrow> edge \<Rightarrow> edge" where
  "set_sync_cursor etype cur st =
     (let st' = (if etype = ''aas'' then st\<lparr>aas_cursor := Some cur\<rparr>
                 else if etype = ''submodel'' then st\<lparr>submodel_cursor := Some cur\<rparr> else st)
      in st'\<lparr>last_sync_cursor := Some cur\<rparr>)"

text \<open>
  The repository behind the node: \<open>get_local\<close> gives the local version of an entity. In the class
  itself \<open>_get_local_item\<close> finds nothing (\<open>stub_local\<close>) and \<open>_apply_pulled_item\<close> does nothing; both
  wait for a repository.
\<close>

type_synonym local_lookup = "string \<Rightarrow> json \<Rightarrow> obj option"

definition stub_local :: local_lookup where
  "stub_local etype item_id = None"

definition apply_pulled_item :: "string \<Rightarrow> obj \<Rightarrow> edge \<Rightarrow> edge" where
  "apply_pulled_item etype item st = st"

definition handle_conflict ::
  "int \<Rightarrow> string \<Rightarrow> json \<Rightarrow> obj \<Rightarrow> json \<Rightarrow> obj \<Rightarrow> json \<Rightarrow> edge \<Rightarrow> edge" where
  "handle_conflict now etype eid ldoc letag rdoc retag st =
     st\<lparr>conflicts := conflicts st @
          [\<lparr>e_entity_type = etype, e_entity_id = eid, e_local_doc = ldoc, e_local_etag = letag,
            e_remote_doc = rdoc, e_remote_etag = retag, e_detected_at = now\<rparr>]\<rparr>"

text \<open>Whether \<open>value[:8]\<close>, in the log message of a conflict, is defined.\<close>

fun sliceable :: "json \<Rightarrow> bool" where
  "sliceable (JStr _) = True"
| "sliceable (JList _) = True"
| "sliceable _ = False"

text \<open>
  One pulled item; the second result is whether it was processed without an exception. A conflict is
  recorded before the log message that may raise.
\<close>

definition process_pulled_item ::
  "local_lookup \<Rightarrow> int \<Rightarrow> string \<Rightarrow> json \<Rightarrow> edge \<Rightarrow> edge \<times> bool" where
  "process_pulled_item get_local now etype item st =
     (case item of
        JDict d \<Rightarrow>
          (let item_id = dget_or d ''id'' (JStr []); retag = dget_or d ''_etag'' (JStr []) in
           case get_local etype item_id of
             None \<Rightarrow> (apply_pulled_item etype d st, True)
           | Some l \<Rightarrow>
               (let letag = dget_or l ''_etag'' (JStr []) in
                if letag = retag then (st, True)
                else if truthy letag \<and> truthy retag
                then (handle_conflict now etype item_id l letag d retag st,
                      sliceable letag \<and> sliceable retag)
                else (apply_pulled_item etype d st, True)))
      | _ \<Rightarrow> (st, False))"

fun process_items ::
  "local_lookup \<Rightarrow> int \<Rightarrow> string \<Rightarrow> json list \<Rightarrow> edge \<times> int \<Rightarrow> edge \<times> int" where
  "process_items get_local now etype [] acc = acc"
| "process_items get_local now etype (i # is) (st, n) =
     (let (st', ok) = process_pulled_item get_local now etype i st
      in process_items get_local now etype is (st', if ok then n + 1 else n))"

text \<open>
  One page of the hub's answer. \<open>pull_page\<close> is one turn of the loop: the new state and count, and
  the next cursor if the loop goes on; an exception inside a turn ends the loop with what was pulled
  so far.
\<close>

definition pull_page ::
  "local_lookup \<Rightarrow> int \<Rightarrow> string \<Rightarrow> page \<Rightarrow> edge \<times> int \<Rightarrow> (edge \<times> int) \<times> json option" where
  "pull_page get_local now etype pg acc =
     (case pg of
        PageOf (JDict d) \<Rightarrow>
          (let items = dget_or d ''result'' (JList []) in
           if \<not> truthy items then (acc, None)
           else case py_iter items of
             Inl _ \<Rightarrow> (acc, None)
           | Inr is \<Rightarrow>
               (let (st, n) = process_items get_local now etype is acc in
                case dget_or d ''paging_metadata'' (JDict []) of
                  JDict pm \<Rightarrow>
                    (let cur = dget pm ''cursor'' in
                     if truthy cur then ((set_sync_cursor etype cur st, n), Some cur)
                     else ((st, n), None))
                | _ \<Rightarrow> ((st, n), None)))
      | _ \<Rightarrow> (acc, None))"

text \<open>
  The loop \<open>while True\<close>: \<open>pages k url cursor\<close> is the hub's answer to the \<open>k\<close>-th request of the
  loop; \<open>fuel\<close> bounds the number of pages, \<open>None\<close> when it runs out.
\<close>

definition cursor_param :: "json option \<Rightarrow> json option" where
  "cursor_param cur = (case cur of None \<Rightarrow> None | Some c \<Rightarrow> if truthy c then Some c else None)"

fun pull_loop ::
  "nat \<Rightarrow> hub_pages \<Rightarrow> local_lookup \<Rightarrow> int \<Rightarrow> string \<Rightarrow> string \<Rightarrow> nat \<Rightarrow> json option \<Rightarrow>
   edge \<times> int \<Rightarrow> (edge \<times> int) option" where
  "pull_loop 0 pages get_local now etype url k cur acc = None"
| "pull_loop (Suc fuel) pages get_local now etype url k cur acc =
     (case pull_page get_local now etype (pages k url (cursor_param cur)) acc of
        (acc', None) \<Rightarrow> Some acc'
      | (acc', Some cur') \<Rightarrow> pull_loop fuel pages get_local now etype url (Suc k) (Some cur') acc')"

definition pull_entity_type ::
  "nat \<Rightarrow> hub_pages \<Rightarrow> local_lookup \<Rightarrow> int \<Rightarrow> edge_config \<Rightarrow> string \<Rightarrow> string \<Rightarrow> edge \<Rightarrow>
   (edge \<times> int) option" where
  "pull_entity_type fuel pages get_local now cfg etype endpoint st =
     (case hub_of cfg of
        None \<Rightarrow> Some (st, 0)
      | Some url \<Rightarrow>
          pull_loop fuel pages get_local now etype (url @ endpoint) 0 (get_sync_cursor etype st) (st, 0))"

definition pull_from_hub ::
  "nat \<Rightarrow> hub_pages \<Rightarrow> local_lookup \<Rightarrow> int \<Rightarrow> edge_config \<Rightarrow> edge \<Rightarrow> (edge \<times> int) option" where
  "pull_from_hub fuel pages get_local now cfg st =
     (case hub_of cfg of
        None \<Rightarrow> Some (st, 0)
      | Some _ \<Rightarrow>
          (case pull_entity_type fuel pages get_local now cfg ''aas'' ''/shells'' st of
             None \<Rightarrow> None
           | Some (st1, n1) \<Rightarrow>
               (case pull_entity_type fuel pages get_local now cfg ''submodel'' ''/submodels'' st1 of
                  None \<Rightarrow> None
                | Some (st2, n2) \<Rightarrow> Some (st2, n1 + n2))))"

section \<open>Synchronisation\<close>

datatype sync_result = SyncError string | SyncDone nat int "string list"

text \<open>What a hub does during one synchronisation; \<open>client_error\<close>: opening the HTTP client raises.\<close>

record hub =
  client_error :: "string option"
  replies :: "string http_request \<Rightarrow> http_reply"
  answers :: hub_pages

definition push_all :: "(string http_request \<Rightarrow> http_reply) \<Rightarrow> edge_config \<Rightarrow> edge \<Rightarrow> edge \<times> sync" where
  "push_all rep cfg st =
     ((push_next rep cfg) ^^ length (pending st)) (st, begin_sync st)"

definition sync_to_hub ::
  "nat \<Rightarrow> hub \<Rightarrow> local_lookup \<Rightarrow> int \<Rightarrow> edge_config \<Rightarrow> edge \<Rightarrow> (edge \<times> sync_result) option" where
  "sync_to_hub fuel h get_local now cfg st =
     (if hub_of cfg = None then Some (st, SyncError ''No hub configured'')
      else case client_error h of
        Some e \<Rightarrow> Some (st, SyncDone 0 0 [e])
      | None \<Rightarrow>
          (let (st1, sy) = push_all (replies h) cfg st; st2 = remove_pushed sy st1 in
           case pull_from_hub fuel (answers h) get_local now cfg st2 of
             None \<Rightarrow> None
           | Some (st3, n) \<Rightarrow>
               Some (st3\<lparr>last_sync := Some now\<rparr>, SyncDone (n_pushed sy) n (sync_errors sy))))"

definition sync_now ::
  "nat \<Rightarrow> hub \<Rightarrow> local_lookup \<Rightarrow> int \<Rightarrow> edge_config \<Rightarrow> edge \<Rightarrow> (edge \<times> sync_result) option" where
  "sync_now fuel h get_local now cfg st =
     (if \<not> is_connected st then Some (st, SyncError ''Not connected to hub'')
      else sync_to_hub fuel h get_local now cfg st)"

definition sync_high_priority ::
  "nat \<Rightarrow> hub \<Rightarrow> local_lookup \<Rightarrow> int \<Rightarrow> edge_config \<Rightarrow> edge \<Rightarrow> edge option" where
  "sync_high_priority fuel h get_local now cfg st =
     (if filter (\<lambda>a. ch_priority (store st a) = HIGH) (pending st) = [] then Some st
      else map_option fst (sync_to_hub fuel h get_local now cfg st))"

section \<open>Connection\<close>

text \<open>\<open>health\<close> is the hub's answer to the readiness probe.\<close>

definition connect :: "http_reply \<Rightarrow> edge_config \<Rightarrow> edge \<Rightarrow> edge \<times> bool" where
  "connect health cfg st =
     (if hub_of cfg = None then (st, False)
      else if health = Replied 200
      then (st\<lparr>conn := CONNECTED, sync_loops := Suc (sync_loops st)\<rparr>, True)
      else (let st' = st\<lparr>conn := DISCONNECTED\<rparr> in
            ((if auto_reconnect cfg then st'\<lparr>reconnect_loops := Suc (reconnect_loops st')\<rparr> else st'),
             False)))"

definition start :: "http_reply \<Rightarrow> edge_config \<Rightarrow> edge \<Rightarrow> edge" where
  "start health cfg st = (if hub_of cfg = None then st else fst (connect health cfg st))"

text \<open>
  One turn of a reconnect loop that wakes up: it tries to connect; it ends if that succeeds or the
  node is no longer disconnected.
\<close>

definition reconnect_turn :: "http_reply \<Rightarrow> edge_config \<Rightarrow> edge \<Rightarrow> edge" where
  "reconnect_turn health cfg st =
     (let (st', ok) = connect health cfg st in
      if ok \<or> conn st' \<noteq> DISCONNECTED then st'\<lparr>reconnect_loops := reconnect_loops st' - 1\<rparr> else st')"

text \<open>
  One turn of the sync loop: no exception comes out of \<open>_sync_to_hub\<close>, so the branch that marks the
  node disconnected is never taken; the loop ends when the node is not connected any more.
\<close>

definition sync_turn ::
  "nat \<Rightarrow> hub \<Rightarrow> local_lookup \<Rightarrow> int \<Rightarrow> edge_config \<Rightarrow> edge \<Rightarrow> edge option" where
  "sync_turn fuel h get_local now cfg st =
     map_option (\<lambda>(st', _). if conn st' = CONNECTED then st'
                            else st'\<lparr>sync_loops := sync_loops st' - 1\<rparr>)
       (sync_to_hub fuel h get_local now cfg st)"

section \<open>One synchronisation\<close>

definition acknowledged :: "(string http_request \<Rightarrow> http_reply) \<Rightarrow> edge_config \<Rightarrow> pending_change \<Rightarrow> bool" where
  "acknowledged rep cfg c = (\<not> exhausted cfg c \<and> push_change rep cfg c = Pushed)"

definition tried :: "(string http_request \<Rightarrow> http_reply) \<Rightarrow> edge_config \<Rightarrow> pending_change \<Rightarrow> pending_change" where
  "tried rep cfg c =
     (if exhausted cfg c then c
      else case push_change rep cfg c of
        Pushed \<Rightarrow> c
      | NotPushed \<Rightarrow> c\<lparr>attempts := Suc (attempts c)\<rparr>
      | PushRaised e \<Rightarrow> c\<lparr>attempts := Suc (attempts c), last_error := Some e\<rparr>)"

lemma tried_same [simp]:
  "ch_id (tried rep cfg c) = ch_id c" "ch_priority (tried rep cfg c) = ch_priority c"
  "ch_data (tried rep cfg c) = ch_data c"
  by (auto simp: tried_def split: push_result.splits)

lemma push_next_Cons:
  assumes "todo sy = a # as"
  shows "push_next rep cfg (st, sy) =
    (st\<lparr>store := (store st)(a := tried rep cfg (store st a))\<rparr>,
     sy\<lparr>todo := as,
        pushed_ids := pushed_ids sy @ (if acknowledged rep cfg (store st a) then [ch_id (store st a)] else []),
        n_pushed := n_pushed sy + (if acknowledged rep cfg (store st a) then 1 else 0),
        sync_errors := sync_errors sy @
          (case push_change rep cfg (store st a) of
             PushRaised e \<Rightarrow> if exhausted cfg (store st a) then [] else [e] | _ \<Rightarrow> [])\<rparr>)"
  using assms
  by (auto simp: push_next_def Let_def tried_def acknowledged_def update_change_def
      split: push_result.splits)

lemma push_run:
  assumes "todo sy = as" and "distinct as"
    and "((push_next rep cfg) ^^ length as) (st, sy) = (st', sy')"
  shows "st' = st\<lparr>store := \<lambda>a. if a \<in> set as then tried rep cfg (store st a) else store st a\<rparr> \<and>
    todo sy' = [] \<and>
    pushed_ids sy' = pushed_ids sy @
      map (ch_id \<circ> store st) (filter (\<lambda>a. acknowledged rep cfg (store st a)) as) \<and>
    n_pushed sy' = n_pushed sy + length (filter (\<lambda>a. acknowledged rep cfg (store st a)) as)"
  using assms
proof (induction as arbitrary: st sy)
  case (Cons a as)
  obtain st1 sy1 where one: "push_next rep cfg (st, sy) = (st1, sy1)" by fastforce
  then have eqs: "st1 = st\<lparr>store := (store st)(a := tried rep cfg (store st a))\<rparr>"
    "todo sy1 = as"
    "pushed_ids sy1 = pushed_ids sy @ (if acknowledged rep cfg (store st a) then [ch_id (store st a)] else [])"
    "n_pushed sy1 = n_pushed sy + (if acknowledged rep cfg (store st a) then 1 else 0)"
    by (auto simp: push_next_Cons [OF Cons.prems(1)])
  have "((push_next rep cfg) ^^ length as) (st1, sy1) = (st', sy')"
    using Cons.prems(3) one by (simp add: funpow_swap1)
  note IH = Cons.IH [OF _ _ this]
  have "todo sy1 = as" and dist: "distinct as" using eqs Cons.prems(2) by simp_all
  from IH [OF this] have
    st': "st' = st1\<lparr>store := \<lambda>b. if b \<in> set as then tried rep cfg (store st1 b) else store st1 b\<rparr>"
    and rest: "todo sy' = []"
      "pushed_ids sy' = pushed_ids sy1 @
         map (ch_id \<circ> store st1) (filter (\<lambda>a. acknowledged rep cfg (store st1 a)) as)"
      "n_pushed sy' = n_pushed sy1 + length (filter (\<lambda>a. acknowledged rep cfg (store st1 a)) as)"
    by simp_all
  have old: "store st1 b = store st b" if "b \<in> set as" for b
    using that Cons.prems(2) eqs by auto
  then have filt: "filter (\<lambda>a. acknowledged rep cfg (store st1 a)) as =
      filter (\<lambda>a. acknowledged rep cfg (store st a)) as"
    "map (ch_id \<circ> store st1) (filter (\<lambda>a. acknowledged rep cfg (store st a)) as) =
      map (ch_id \<circ> store st) (filter (\<lambda>a. acknowledged rep cfg (store st a)) as)"
    by (auto intro: filter_cong)
  show ?case
    using rest Cons.prems(2) old unfolding filt st' by (auto simp: eqs fun_eq_iff)
qed simp

lemma set_sync_cursor_keeps [simp]:
  "store (set_sync_cursor t c st) = store st" "pending (set_sync_cursor t c st) = pending st"
  "conn (set_sync_cursor t c st) = conn st" "conflicts (set_sync_cursor t c st) = conflicts st"
  by (simp_all add: set_sync_cursor_def Let_def)

text \<open>What pulling leaves alone.\<close>

definition same_queue :: "edge \<Rightarrow> edge \<Rightarrow> bool" where
  "same_queue st st' = (store st' = store st \<and> pending st' = pending st \<and> conn st' = conn st \<and>
     sync_loops st' = sync_loops st \<and> reconnect_loops st' = reconnect_loops st)"

lemma same_queue_refl [simp]: "same_queue st st"
  by (simp add: same_queue_def)

lemma same_queue_trans: "same_queue a b \<Longrightarrow> same_queue b c \<Longrightarrow> same_queue a c"
  by (simp add: same_queue_def)

lemma same_queue_process: "same_queue st (fst (process_pulled_item gl now t i st))"
  by (auto simp: process_pulled_item_def same_queue_def apply_pulled_item_def handle_conflict_def
      Let_def split: json.splits option.splits)

lemma same_queue_items: "same_queue st (fst (process_items gl now t is (st, n)))"
proof (induction "is" arbitrary: st n)
  case (Cons i "is")
  obtain st' ok where "process_pulled_item gl now t i st = (st', ok)" by fastforce
  with same_queue_process [of st gl now t i] Cons.IH [of st'] show ?case
    by (auto intro: same_queue_trans)
qed simp

lemma same_queue_page: "same_queue (fst acc) (fst (fst (pull_page gl now t pg acc)))"
proof -
  have "same_queue s st \<Longrightarrow> same_queue s (set_sync_cursor t c st)" for s st c
    by (simp add: same_queue_def set_sync_cursor_def Let_def)
  moreover have "same_queue (fst acc) st"
    if "process_items gl now t is acc = (st, n)" for "is" st n
    using same_queue_items [of "fst acc" gl now t "is" "snd acc"] that by simp
  ultimately show ?thesis
    by (auto simp: pull_page_def Let_def split: page.splits json.splits sum.splits prod.splits
        intro: same_queue_trans)
qed

lemma same_queue_loop:
  "pull_loop fuel pages gl now t url k cur acc = Some acc' \<Longrightarrow> same_queue (fst acc) (fst acc')"
proof (induction fuel arbitrary: k cur acc)
  case (Suc fuel)
  then show ?case
    using same_queue_page [of acc gl now t "pages k url (cursor_param cur)"]
    by (auto split: prod.splits option.splits intro: same_queue_trans)
qed simp

lemma same_queue_pull:
  assumes "pull_from_hub fuel pages gl now cfg st = Some (st', n)"
  shows "same_queue st st'"
proof -
  have ent: "pull_entity_type fuel pages gl now cfg t e s = Some (s', m) \<Longrightarrow> same_queue s s'" for t e s s' m
    by (auto simp: pull_entity_type_def dest!: same_queue_loop split: option.splits)
  with assms show ?thesis
    by (auto simp: pull_from_hub_def split: option.splits prod.splits dest!: ent intro: same_queue_trans)
qed

lemma sync_to_hub_cases:
  assumes "sync_to_hub fuel h gl now cfg st = Some (st', SyncDone p n errs)"
    and "client_error h = None" and "distinct (pending st)"
  obtains "store st' = (\<lambda>a. if a \<in> set (pending st) then tried (replies h) cfg (store st a) else store st a)"
    and "pending st' = filter (\<lambda>a. \<not> (\<exists>b \<in> set (pending st). acknowledged (replies h) cfg (store st b) \<and>
           ch_id (store st b) = ch_id (store st a))) (pending st)"
    and "p = length (filter (\<lambda>a. acknowledged (replies h) cfg (store st a)) (pending st))"
    and "conn st' = conn st"
proof -
  obtain st1 sy where push: "push_all (replies h) cfg st = (st1, sy)" by fastforce
  from assms(1,2) push obtain st3 where
    pull: "pull_from_hub fuel (answers h) gl now cfg (remove_pushed sy st1) = Some (st3, n)"
    and st': "st' = st3\<lparr>last_sync := Some now\<rparr>" and p: "p = n_pushed sy"
    by (auto simp: sync_to_hub_def split: if_splits option.splits prod.splits)
  note run = push_run [OF _ assms(3) push [unfolded push_all_def]]
  have run: "st1 = st\<lparr>store := \<lambda>a. if a \<in> set (pending st) then tried (replies h) cfg (store st a) else store st a\<rparr>"
    "pushed_ids sy = map (ch_id \<circ> store st) (filter (\<lambda>a. acknowledged (replies h) cfg (store st a)) (pending st))"
    "n_pushed sy = length (filter (\<lambda>a. acknowledged (replies h) cfg (store st a)) (pending st))"
    using run by (simp_all add: begin_sync_def)
  have same: "same_queue (remove_pushed sy st1) st'"
    using same_queue_pull [OF pull] by (simp add: same_queue_def st')
  have "pending st' = filter (\<lambda>a. ch_id (store st a) \<notin> set (pushed_ids sy)) (pending st)"
    using same by (auto simp: same_queue_def remove_pushed_def run(1) intro: filter_cong)
  moreover have "x \<in> set (pushed_ids sy) \<longleftrightarrow>
      (\<exists>b \<in> set (pending st). acknowledged (replies h) cfg (store st b) \<and> ch_id (store st b) = x)" for x
    by (auto simp: run(2))
  ultimately have "pending st' = filter (\<lambda>a. \<not> (\<exists>b \<in> set (pending st). acknowledged (replies h) cfg (store st b) \<and>
           ch_id (store st b) = ch_id (store st a))) (pending st)"
    by simp
  with same p run(3) show thesis
    by (intro that) (simp_all add: same_queue_def remove_pushed_def run(1))
qed

text \<open>
  One synchronisation with a reachable hub: every pending change that still has attempts left is
  tried once; a change leaves the queue exactly when a change with its id was acknowledged (200, 201
  or 204); the others keep their order, those tried in vain with one attempt more and the last
  exception noted, exhausted ones untouched; the number reported is that of the acknowledged changes.
\<close>

lemma sync_exact:
  assumes "sync_to_hub fuel h gl now cfg st = Some (st', SyncDone p n errs)"
    and "client_error h = None" and "distinct (pending st)"
  shows "(\<forall>a \<in> set (pending st). store st' a = tried (replies h) cfg (store st a)) \<and>
    pending st' = filter (\<lambda>a. \<not> (\<exists>b \<in> set (pending st). acknowledged (replies h) cfg (store st b) \<and>
                                     ch_id (store st b) = ch_id (store st a))) (pending st) \<and>
    p = length (filter (\<lambda>a. acknowledged (replies h) cfg (store st a)) (pending st)) \<and>
    conn st' = conn st"
  using assms
proof (rule sync_to_hub_cases)
  assume "store st' = (\<lambda>a. if a \<in> set (pending st) then tried (replies h) cfg (store st a) else store st a)"
    and "pending st' = filter (\<lambda>a. \<not> (\<exists>b \<in> set (pending st). acknowledged (replies h) cfg (store st b) \<and>
           ch_id (store st b) = ch_id (store st a))) (pending st)"
    and "p = length (filter (\<lambda>a. acknowledged (replies h) cfg (store st a)) (pending st))"
    and "conn st' = conn st"
  then show ?thesis by simp
qed

definition sample_change :: "string \<Rightarrow> string \<Rightarrow> string option \<Rightarrow> pending_change" where
  "sample_change i act d = \<lparr>ch_id = i, ch_entity_type = ''aas'', ch_entity_id = ''e'', ch_action = act,
     ch_data = d, ch_etag = None, ch_priority = NORMAL, created_at = 0, attempts = 0, last_error = None\<rparr>"

definition sample_edge :: edge where
  "sample_edge = \<lparr>conn = CONNECTED,
     store = (\<lambda>a. if a = 0 then sample_change ''x'' ''create'' (Some ''d'')
                  else sample_change ''y'' ''delete'' None),
     pending = [0, 1], conflicts = [], sync_loops = 1, reconnect_loops = 0, immediate_syncs = 0,
     last_sync = None, last_sync_cursor = None, aas_cursor = None, submodel_cursor = None\<rparr>"

definition sample_hub :: hub where
  "sample_hub = \<lparr>client_error = None, replies = (\<lambda>_. Replied 201), answers = (\<lambda>_ _ _. PageStatus 404)\<rparr>"

definition sample_config :: edge_config where
  "sample_config = default_config\<lparr>hub_url := Some ''http://hub''\<rparr>"

lemmas sample_defs = sample_change_def sample_edge_def sample_hub_def sample_config_def default_config_def

lemma sample_run:
  "fst (the (sync_to_hub 1 sample_hub stub_local 5 sample_config sample_edge)) =
     sample_edge\<lparr>pending := [1], last_sync := Some 5,
       store := (store sample_edge)(1 := (store sample_edge 1)\<lparr>attempts := 1\<rparr>)\<rparr> \<and>
   sync_to_hub 1 sample_hub stub_local 5 sample_config sample_edge =
     Some (fst (the (sync_to_hub 1 sample_hub stub_local 5 sample_config sample_edge)), SyncDone 1 0 [])"
  by (simp add: sample_defs sync_to_hub_def hub_of_def push_all_def begin_sync_def push_next_def
      exhausted_def push_change_def push_request_def Let_def update_change_def remove_pushed_def
      pull_from_hub_def pull_entity_type_def pull_page_def numeral_2_eq_2)

lemma sync_exact_witness:
  "pending (fst (the (sync_to_hub 1 sample_hub stub_local 5 sample_config sample_edge))) = [1]"
proof -
  have "distinct (pending sample_edge)" and "client_error sample_hub = None"
    by (simp_all add: sample_defs)
  from sync_exact [OF conjunct2 [OF sample_run] this(2,1)]
  show ?thesis
    by (auto simp: sample_defs acknowledged_def exhausted_def push_change_def push_request_def hub_of_def)
qed

section \<open>Changes that never reach the hub\<close>

lemma push_request_no_data: "ch_data c = None \<Longrightarrow> push_request cfg c = None"
  by (auto simp: push_request_def split: option.splits)

text \<open>
  A change without data, as every plain deletion is, never reaches the hub: whatever the hub
  answers, a synchronisation leaves it in the queue (unless another change with its id is
  acknowledged) and counts an attempt against it until none are left; from then on it stays in the
  queue as it is.
\<close>

lemma delete_never_pushed:
  assumes "sync_to_hub fuel h gl now cfg st = Some (st', SyncDone p n errs)"
    and "client_error h = None" and "distinct (pending st)"
    and "a \<in> set (pending st)" and "ch_data (store st a) = None"
    and "\<forall>b \<in> set (pending st). b \<noteq> a \<longrightarrow> ch_id (store st b) \<noteq> ch_id (store st a)"
  shows "a \<in> set (pending st') \<and> ch_data (store st' a) = None \<and>
    attempts (store st' a) =
      (if int (attempts (store st a)) \<ge> retry_attempts cfg
       then attempts (store st a) else Suc (attempts (store st a)))"
  using assms(1-3)
proof (rule sync_to_hub_cases)
  assume store: "store st' = (\<lambda>a. if a \<in> set (pending st) then tried (replies h) cfg (store st a) else store st a)"
    and pend: "pending st' = filter (\<lambda>a. \<not> (\<exists>b \<in> set (pending st).
      acknowledged (replies h) cfg (store st b) \<and> ch_id (store st b) = ch_id (store st a))) (pending st)"
  have np: "push_change (replies h) cfg (store st a) = NotPushed"
    using assms(5) by (simp add: push_change_def push_request_no_data)
  then have "\<not> acknowledged (replies h) cfg (store st a)" by (simp add: acknowledged_def)
  with assms(4,6) have "a \<in> set (pending st')" unfolding pend by auto
  moreover have "store st' a = tried (replies h) cfg (store st a)" using assms(4) store by simp
  ultimately show ?thesis using np assms(5) by (simp add: tried_def exhausted_def)
qed

lemma delete_never_pushed_witness:
  "1 \<in> set (pending (fst (the (sync_to_hub 1 sample_hub stub_local 5 sample_config sample_edge))))"
proof -
  have "distinct (pending sample_edge)" and "client_error sample_hub = None"
    and "1 \<in> set (pending sample_edge)" and "ch_data (store sample_edge 1) = None"
    and "\<forall>b \<in> set (pending sample_edge). b \<noteq> 1 \<longrightarrow> ch_id (store sample_edge b) \<noteq> ch_id (store sample_edge 1)"
    by (simp_all add: sample_defs)
  from delete_never_pushed [OF conjunct2 [OF sample_run] this(2,1,3,4,5)] show ?thesis by simp
qed

section \<open>Reconnecting\<close>

text \<open>
  Reconnect loops pile up: with automatic reconnection, each failed attempt of a reconnect loop
  leaves that loop running and starts another one, so that after \<open>n\<close> failed attempts there are \<open>n\<close>
  more loops than before; only a successful attempt ends a loop, and it ends one.
\<close>

lemma reconnect_loops_accumulate:
  assumes "hub_of cfg \<noteq> None" and "auto_reconnect cfg" and "health \<noteq> Replied 200"
  shows "reconnect_loops ((reconnect_turn health cfg ^^ n) st) = reconnect_loops st + n \<and>
    reconnect_loops (reconnect_turn (Replied 200) cfg st) = reconnect_loops st - 1"
proof -
  have "reconnect_loops (reconnect_turn health cfg s) = Suc (reconnect_loops s)" for s
    using assms by (auto simp: reconnect_turn_def connect_def Let_def)
  then have "reconnect_loops ((reconnect_turn health cfg ^^ n) st) = reconnect_loops st + n"
    by (induction n) simp_all
  moreover have "reconnect_loops (reconnect_turn (Replied 200) cfg st) = reconnect_loops st - 1"
    using assms(1) by (auto simp: reconnect_turn_def connect_def Let_def)
  ultimately show ?thesis ..
qed

lemma reconnect_loops_accumulate_witness:
  "reconnect_loops ((reconnect_turn (Raised ''refused'') sample_config ^^ 7)
     (start (Raised ''refused'') sample_config sample_edge)) = 8"
  using reconnect_loops_accumulate [of sample_config "Raised ''refused''" 7
      "start (Raised ''refused'') sample_config sample_edge"]
  by (simp add: sample_defs hub_of_def start_def connect_def Let_def)

lemma sync_keeps_conn:
  assumes "sync_to_hub fuel h gl now cfg st = Some (st', r)"
  shows "conn st' = conn st \<and> sync_loops st' = sync_loops st"
proof -
  have next_keeps: "conn (fst (push_next rep cfg ss)) = conn (fst ss) \<and>
      sync_loops (fst (push_next rep cfg ss)) = sync_loops (fst ss)" for rep ss
    by (auto simp: push_next_def Let_def update_change_def split: prod.splits list.splits push_result.splits)
  have run: "conn (fst ((push_next rep cfg ^^ n) ss)) = conn (fst ss) \<and>
      sync_loops (fst ((push_next rep cfg ^^ n) ss)) = sync_loops (fst ss)" for rep ss n
    by (induction n) (simp_all add: next_keeps)
  show ?thesis
    using assms run [where n = "length (pending st)" and ss = "(st, begin_sync st)"]
    by (auto simp: sync_to_hub_def push_all_def remove_pushed_def same_queue_def
        dest!: same_queue_pull split: if_splits option.splits prod.splits) (metis fst_conv)+
qed

text \<open>
  Losing the hub goes unnoticed: a turn of the sync loop of a connected node leaves it connected
  and the loop running, whatever the hub answers, errors included. The code that would mark the node
  disconnected and start reconnecting is never reached.
\<close>

lemma sync_loop_stays_connected:
  assumes "sync_turn fuel h gl now cfg st = Some st'" and "conn st = CONNECTED"
  shows "conn st' = CONNECTED \<and> sync_loops st' = sync_loops st"
  using assms sync_keeps_conn by (auto simp: sync_turn_def split: if_splits)

lemma sync_loop_stays_connected_witness:
  "conn (the (sync_turn 0 (sample_hub\<lparr>client_error := Some ''unreachable''\<rparr>) stub_local 5 sample_config sample_edge))
     = CONNECTED"
proof -
  have "sync_turn 0 (sample_hub\<lparr>client_error := Some ''unreachable''\<rparr>) stub_local 5 sample_config sample_edge =
      Some sample_edge" and "conn sample_edge = CONNECTED"
    by (simp_all add: sync_turn_def sync_to_hub_def hub_of_def sample_defs)
  from sync_loop_stays_connected [OF this] this(1) show ?thesis by simp
qed

section \<open>Pulling ends when the hub stops paging\<close>

text \<open>The \<open>k\<close>-th page ends the loop: it is no page, an empty one, or one without a next cursor.\<close>

fun next_cursor :: "page \<Rightarrow> json option" where
  "next_cursor (PageOf (JDict d)) =
     (if truthy (dget_or d ''result'' (JList [])) \<and> (\<exists>xs. py_iter (dget_or d ''result'' (JList [])) = Inr xs)
      then case dget_or d ''paging_metadata'' (JDict []) of
             JDict pm \<Rightarrow> if truthy (dget pm ''cursor'') then Some (dget pm ''cursor'') else None
           | _ \<Rightarrow> None
      else None)"
| "next_cursor _ = None"

lemma snd_pull_page: "snd (pull_page gl now t pg acc) = next_cursor pg"
  by (cases pg rule: next_cursor.cases)
     (auto simp: pull_page_def Let_def split: sum.splits prod.splits json.splits)

text \<open>The cursor sent with the \<open>k\<close>-th request of a loop that has come that far.\<close>

fun cursor_at :: "hub_pages \<Rightarrow> string \<Rightarrow> json option \<Rightarrow> nat \<Rightarrow> nat \<Rightarrow> json option" where
  "cursor_at pages url cur k0 0 = cur"
| "cursor_at pages url cur k0 (Suc k) =
     next_cursor (pages (k0 + k) url (cursor_param (cursor_at pages url cur k0 k)))"

lemma cursor_at_shift:
  "cursor_at pages url (next_cursor (pages k0 url (cursor_param cur))) (Suc k0) k =
   cursor_at pages url cur k0 (Suc k)"
  by (induction k) simp_all

lemma pull_loop_ends:
  "(pull_loop fuel pages gl now t url k0 cur acc \<noteq> None) =
   (\<exists>k < fuel. cursor_at pages url cur k0 (Suc k) = None)"
proof (induction fuel arbitrary: k0 cur acc)
  case (Suc fuel)
  let ?pg = "pages k0 url (cursor_param cur)"
  obtain acc' nc where pp: "pull_page gl now t ?pg acc = (acc', nc)" by fastforce
  then have nc: "nc = next_cursor ?pg" using snd_pull_page [of gl now t ?pg acc] by simp
  show ?case
  proof (cases nc)
    case None
    with pp nc show ?thesis by (auto intro!: exI [of _ 0])
  next
    case (Some cur')
    have "(pull_loop (Suc fuel) pages gl now t url k0 cur acc \<noteq> None) =
        (pull_loop fuel pages gl now t url (Suc k0) (Some cur') acc' \<noteq> None)"
      using pp Some by simp
    also have "\<dots> = (\<exists>k < fuel. cursor_at pages url (Some cur') (Suc k0) (Suc k) = None)"
      by (rule Suc.IH)
    also have "\<dots> = (\<exists>k < fuel. cursor_at pages url cur k0 (Suc (Suc k)) = None)"
      using cursor_at_shift [of pages url k0 cur] nc Some by simp
    also have "\<dots> = (\<exists>k < Suc fuel. cursor_at pages url cur k0 (Suc k) = None)"
      using nc Some by (auto simp: less_Suc_eq_0_disj)
    finally show ?thesis .
  qed
qed simp

text \<open>
  Pulling one kind of entity returns exactly when the hub, asked page after page with the cursor
  it gave before, at some point answers with something that is no page, an empty page or a page
  without a cursor; as many pages as come before that are enough. A hub that always gives another
  cursor keeps the loop running for ever.
\<close>

lemma pull_returns_iff:
  assumes "hub_of cfg = Some url"
  shows "(pull_entity_type fuel pages gl now cfg etype endpoint st \<noteq> None) =
    (\<exists>k < fuel. cursor_at pages (url @ endpoint) (get_sync_cursor etype st) 0 (Suc k) = None)"
  using assms by (simp add: pull_entity_type_def pull_loop_ends del: cursor_at.simps not_None_eq)

lemma pull_returns_iff_witness:
  "pull_entity_type 1 (\<lambda>_ _ _. PageOf (JDict [(''result'', JList [JDict []])])) stub_local 5 sample_config
     ''aas'' ''/shells'' sample_edge \<noteq> None"
proof -
  have "hub_of sample_config = Some ''http://hub''" by (simp add: sample_defs hub_of_def)
  from pull_returns_iff [OF this, of 1 "\<lambda>_ _ _. PageOf (JDict [(''result'', JList [JDict []])])"
      stub_local 5 "''aas''" "''/shells''" sample_edge]
  show ?thesis by (simp add: dget_or_def dget_def)
qed

section \<open>Interleaved operations\<close>

text \<open>
  The controller runs its operations as tasks that interleave wherever one of them waits for the
  hub: between two pushes of a synchronisation, changes can be queued, other synchronisations can
  start, push and finish, the queue can be cleared, and the node can connect. A system is the
  controller with the synchronisations in progress. Three sets record what happened: the changes
  accepted into the queue, those that were in it when somebody cleared it (and not accepted again
  since), and the ids the hub has acknowledged.
\<close>

record system =
  edge_of :: edge
  running :: "sync list"
  accepted :: "nat set"
  cleared :: "nat set"
  delivered :: "string set"

definition note_accepted :: "edge \<Rightarrow> nat \<Rightarrow> system \<Rightarrow> system" where
  "note_accepted st a s =
     (let s' = s\<lparr>edge_of := st\<rparr> in
      if a \<in> set (pending st)
      then s'\<lparr>accepted := insert a (accepted s), cleared := cleared s - {a}\<rparr> else s')"

definition note_delivered ::
  "(string http_request \<Rightarrow> http_reply) \<Rightarrow> edge_config \<Rightarrow> sync \<Rightarrow> system \<Rightarrow> string set" where
  "note_delivered rep cfg sy s =
     (case todo sy of
        [] \<Rightarrow> delivered s
      | a # _ \<Rightarrow> if acknowledged rep cfg (store (edge_of s) a)
                 then insert (ch_id (store (edge_of s) a)) (delivered s) else delivered s)"

inductive edge_step :: "edge_config \<Rightarrow> system \<Rightarrow> system \<Rightarrow> bool" for cfg where
  step_queue: "edge_step cfg s (note_accepted (queue_change cfg a (edge_of s)) a s)"
| step_clear: "clear_pending (edge_of s) = (st', n) \<Longrightarrow>
    edge_step cfg s (s\<lparr>edge_of := st', cleared := cleared s \<union> set (pending (edge_of s))\<rparr>)"
| step_begin: "edge_step cfg s (s\<lparr>running := running s @ [begin_sync (edge_of s)]\<rparr>)"
| step_push: "i < length (running s) \<Longrightarrow> push_next rep cfg (edge_of s, running s ! i) = (st', sy') \<Longrightarrow>
    edge_step cfg s (s\<lparr>edge_of := st', running := (running s)[i := sy'],
                       delivered := note_delivered rep cfg (running s ! i) s\<rparr>)"
| step_remove: "i < length (running s) \<Longrightarrow> todo (running s ! i) = [] \<Longrightarrow>
    edge_step cfg s (s\<lparr>edge_of := remove_pushed (running s ! i) (edge_of s)\<rparr>)"
| step_pull: "pull_from_hub fuel pages gl now cfg (edge_of s) = Some (st', n) \<Longrightarrow>
    edge_step cfg s (s\<lparr>edge_of := st'\<lparr>last_sync := Some now\<rparr>\<rparr>)"
| step_end: "i < length (running s) \<Longrightarrow>
    edge_step cfg s (s\<lparr>running := take i (running s) @ drop (Suc i) (running s)\<rparr>)"
| step_connect: "edge_step cfg s (s\<lparr>edge_of := fst (connect health cfg (edge_of s))\<rparr>)"

definition fresh_system :: "(nat \<Rightarrow> pending_change) \<Rightarrow> system" where
  "fresh_system h =
     \<lparr>edge_of = \<lparr>conn = DISCONNECTED, store = h, pending = [], conflicts = [], sync_loops = 0,
        reconnect_loops = 0, immediate_syncs = 0, last_sync = None, last_sync_cursor = None,
        aas_cursor = None, submodel_cursor = None\<rparr>,
      running = [], accepted = {}, cleared = {}, delivered = {}\<rparr>"

definition edge_reach :: "edge_config \<Rightarrow> system \<Rightarrow> bool" where
  "edge_reach cfg s = (\<exists>h. (edge_step cfg)\<^sup>*\<^sup>* (fresh_system h) s)"

text \<open>A \<open>LOW\<close> entry is the only one that an arrival can push out, and it is the oldest one.\<close>

lemma remove_equal_in:
  "x \<in> set (remove_equal h v as) \<Longrightarrow> x \<in> set as"
  by (induction as) (auto split: if_splits)

lemma remove_equal_keeps: "x \<in> set as \<Longrightarrow> h x \<noteq> v \<Longrightarrow> x \<in> set (remove_equal h v as)"
  by (induction as) auto

lemma length_remove_equal: "b \<in> set as \<Longrightarrow> Suc (length (remove_equal h (h b) as)) = length as"
  by (induction as) auto

lemma accept_change_sel [simp]:
  "store (accept_change a st) = store st" "pending (accept_change a st) = pending st @ [a]"
  by (simp_all add: accept_change_def Let_def)

lemma queue_change_store [simp]: "store (queue_change cfg a st) = store st"
  by (auto simp: queue_change_def split: list.splits)

lemma filter_ConsD: "filter P xs = b # bs \<Longrightarrow> b \<in> set xs \<and> P b"
  by (auto simp: filter_eq_Cons_iff)

lemma queue_change_keeps:
  "x \<in> set (pending st) \<Longrightarrow> ch_priority (store st x) \<noteq> LOW \<Longrightarrow> x \<in> set (pending (queue_change cfg a st))"
  by (auto simp: queue_change_def split: list.splits dest!: filter_ConsD intro!: remove_equal_keeps)

lemma queue_change_length:
  "int (length (pending (queue_change cfg a st))) \<le> max (int (length (pending st))) (max_offline_queue cfg)"
  using length_remove_equal [of _ "pending st" "store st"]
  by (auto simp: queue_change_def split: list.splits dest!: filter_ConsD)

definition edge_inv :: "edge_config \<Rightarrow> system \<Rightarrow> bool" where
  "edge_inv cfg s =
     ((\<forall>a \<in> accepted s. a \<in> set (pending (edge_of s)) \<or> a \<in> cleared s \<or>
                        ch_priority (store (edge_of s) a) = LOW \<or> ch_id (store (edge_of s) a) \<in> delivered s) \<and>
      (\<forall>sy \<in> set (running s). set (pushed_ids sy) \<subseteq> delivered s) \<and>
      int (length (pending (edge_of s))) \<le> max 0 (max_offline_queue cfg))"

lemma push_next_keeps:
  assumes "push_next rep cfg (st, sy) = (st', sy')"
  shows "pending st' = pending st \<and>
    ch_id (store st' a) = ch_id (store st a) \<and> ch_priority (store st' a) = ch_priority (store st a) \<and>
    set (pushed_ids sy') \<subseteq> set (pushed_ids sy) \<union>
      (case todo sy of [] \<Rightarrow> {} | b # _ \<Rightarrow> if acknowledged rep cfg (store st b) then {ch_id (store st b)} else {})"
proof (cases "todo sy")
  case Nil
  with assms show ?thesis by (simp add: push_next_def)
next
  case (Cons b bs)
  from assms [unfolded push_next_Cons [OF Cons]] Cons show ?thesis by auto
qed

lemma delivered_grows: "delivered s \<subseteq> note_delivered rep cfg sy s"
  by (auto simp: note_delivered_def split: list.splits)

lemma inv_queue: "edge_inv cfg s \<Longrightarrow> edge_inv cfg (note_accepted (queue_change cfg a (edge_of s)) a s)"
  using queue_change_keeps [of _ "edge_of s" cfg a] queue_change_length [of cfg a "edge_of s"]
  by (auto simp: edge_inv_def note_accepted_def Let_def)

lemma inv_push:
  assumes inv: "edge_inv cfg s" and i: "i < length (running s)"
    and push: "push_next rep cfg (edge_of s, running s ! i) = (st', sy')"
  shows "edge_inv cfg (s\<lparr>edge_of := st', running := (running s)[i := sy'],
                         delivered := note_delivered rep cfg (running s ! i) s\<rparr>)"
proof -
  have pushed: "set (pushed_ids (running s ! i)) \<subseteq> delivered s"
    using inv i by (simp add: edge_inv_def)
  have "set (pushed_ids sy') \<subseteq> note_delivered rep cfg (running s ! i) s"
    using push_next_keeps [OF push, of 0] pushed
    by (cases "todo (running s ! i)") (auto simp: note_delivered_def split: if_splits)
  then have "\<forall>sy \<in> set ((running s)[i := sy']). set (pushed_ids sy) \<subseteq> note_delivered rep cfg (running s ! i) s"
    using inv delivered_grows [of s rep cfg "running s ! i"] set_update_subset_insert [of "running s" i sy']
    unfolding edge_inv_def by blast
  then show ?thesis
    using inv push_next_keeps [OF push] delivered_grows [of s rep cfg "running s ! i"]
    by (auto simp: edge_inv_def)
qed

lemma inv_remove:
  assumes "edge_inv cfg s" and "i < length (running s)"
  shows "edge_inv cfg (s\<lparr>edge_of := remove_pushed (running s ! i) (edge_of s)\<rparr>)"
proof -
  have "set (pushed_ids (running s ! i)) \<subseteq> delivered s"
    using assms by (simp add: edge_inv_def)
  moreover have "length (filter P (pending (edge_of s))) \<le> length (pending (edge_of s))" for P
    by (rule length_filter_le)
  ultimately show ?thesis
    using assms(1) by (force simp: edge_inv_def remove_pushed_def intro: order_trans [rotated])
qed

lemma inv_same_queue:
  "edge_inv cfg s \<Longrightarrow> store st' = store (edge_of s) \<Longrightarrow> pending st' = pending (edge_of s) \<Longrightarrow>
   edge_inv cfg (s\<lparr>edge_of := st'\<rparr>)"
  by (simp add: edge_inv_def)

lemma connect_keeps [simp]:
  "store (fst (connect health cfg st)) = store st" "pending (fst (connect health cfg st)) = pending st"
  by (auto simp: connect_def Let_def)

lemma edge_step_inv: "edge_step cfg s s' \<Longrightarrow> edge_inv cfg s \<Longrightarrow> edge_inv cfg s'"
proof (induction rule: edge_step.induct)
  case (step_clear s st' n)
  then show ?case by (auto simp: edge_inv_def clear_pending_def)
next
  case (step_begin s)
  then show ?case by (simp add: edge_inv_def begin_sync_def)
next
  case (step_pull fuel pages gl now s st' n)
  then show ?case by (intro inv_same_queue) (auto dest!: same_queue_pull simp: same_queue_def)
next
  case (step_end i s)
  then show ?case by (auto simp: edge_inv_def dest: in_set_takeD in_set_dropD)
qed (simp_all add: inv_queue inv_push inv_remove inv_same_queue)

lemma fresh_inv: "edge_inv cfg (fresh_system h)"
  by (simp add: edge_inv_def fresh_system_def)

interpretation edge_run: inductive_invariant "\<lambda>s. \<exists>h. s = fresh_system h" "edge_step cfg" "edge_inv cfg" for cfg
  by unfold_locales (use fresh_inv edge_step_inv in blast)+

lemma edge_reach_inv: "edge_reach cfg s \<Longrightarrow> edge_inv cfg s"
  using edge_run.reachable_inv by (auto simp: edge_reach_def)

text \<open>
  C34. No change is lost, however the operations interleave: a change accepted into the queue is still
  there, or an id equal to its own has been acknowledged by the hub, or it was in the queue when
  \<open>clear_pending\<close> emptied it (and was not accepted again since), or it has low priority (and may have
  made room for a newer one). The queue never holds more than \<open>max_offline_queue\<close> changes.
\<close>

theorem no_change_lost:
  assumes "edge_reach cfg s"
  shows "(\<forall>a \<in> accepted s. ch_priority (store (edge_of s) a) \<noteq> LOW \<longrightarrow>
            a \<in> set (pending (edge_of s)) \<or> ch_id (store (edge_of s) a) \<in> delivered s \<or>
            a \<in> cleared s) \<and>
         int (length (pending (edge_of s))) \<le> max 0 (max_offline_queue cfg)"
  using edge_reach_inv [OF assms] by (auto simp: edge_inv_def)

text \<open>A change that is queued after the queue was cleared.\<close>

theorem no_change_lost_witness:
  "7 \<in> set (pending (queue_change sample_config 7
     (fst (clear_pending (queue_change sample_config 3
       (edge_of (fresh_system (\<lambda>_. sample_change ''y'' ''delete'' None))))))))"
proof -
  let ?s = "fresh_system (\<lambda>_. sample_change ''y'' ''delete'' None)"
  let ?s1 = "note_accepted (queue_change sample_config 3 (edge_of ?s)) 3 ?s"
  let ?s2 = "?s1\<lparr>edge_of := fst (clear_pending (edge_of ?s1)),
    cleared := cleared ?s1 \<union> set (pending (edge_of ?s1))\<rparr>"
  let ?s3 = "note_accepted (queue_change sample_config 7 (edge_of ?s2)) 7 ?s2"
  have "edge_step sample_config ?s ?s1" by (rule step_queue)
  moreover have "edge_step sample_config ?s1 ?s2" by (rule step_clear [of _ _ "snd (clear_pending (edge_of ?s1))"]) simp
  moreover have "edge_step sample_config ?s2 ?s3" by (rule step_queue)
  ultimately have "edge_reach sample_config ?s3"
    unfolding edge_reach_def by (meson converse_rtranclp_into_rtranclp rtranclp.rtrancl_refl)
  from no_change_lost [OF this] show ?thesis
    by (auto simp: note_accepted_def fresh_system_def queue_change_def clear_pending_def sample_defs Let_def)
qed

end
