(* ===== verification/Redis.thy ===== *)
theory Redis
  imports Prelude
begin

text \<open>
  The Redis server, a service outside the repository, as the program uses it: a record of its
  operations on a state of any type, and the documented behaviour the program relies on as a
  predicate on such a record. A stored text is represented by the JSON document it denotes
  (\<open>json.loads\<close> undoes \<open>json.dumps\<close>). Connection errors are not part of the interface.

  An in-memory table satisfies the predicate; it serves to run the model on examples.
\<close>

section \<open>The operations\<close>

text \<open>
  \<open>SET\<close> takes an expiry in seconds; \<open>r_set_nx\<close> is \<open>SET .. NX EX\<close> and tells whether it set the key;
  \<open>r_lrange q i j\<close> is \<open>LRANGE\<close> with its inclusive end, negative numbers counting from the end;
  \<open>r_lrem q x\<close> is \<open>LREM q 1 x\<close>; \<open>r_brpoplpush\<close> gives \<open>None\<close> when it times out.
\<close>

record 's redis =
  r_get :: "string \<Rightarrow> 's \<Rightarrow> json option"
  r_set :: "string \<Rightarrow> json \<Rightarrow> int \<Rightarrow> 's \<Rightarrow> 's"
  r_set_nx :: "string \<Rightarrow> json \<Rightarrow> int \<Rightarrow> 's \<Rightarrow> 's \<times> bool"
  r_expire :: "string \<Rightarrow> int \<Rightarrow> 's \<Rightarrow> 's"
  r_del :: "string \<Rightarrow> 's \<Rightarrow> 's"
  r_lrange :: "string \<Rightarrow> int \<Rightarrow> int \<Rightarrow> 's \<Rightarrow> string list"
  r_llen :: "string \<Rightarrow> 's \<Rightarrow> nat"
  r_lpush :: "string \<Rightarrow> string \<Rightarrow> 's \<Rightarrow> 's"
  r_lrem :: "string \<Rightarrow> string \<Rightarrow> 's \<Rightarrow> 's"
  r_brpoplpush :: "string \<Rightarrow> string \<Rightarrow> 's \<Rightarrow> 's \<times> string option"

text \<open>The whole list under a key.\<close>

definition r_all :: "'s redis \<Rightarrow> string \<Rightarrow> 's \<Rightarrow> string list" where
  "r_all R q s = r_lrange R q 0 (- 1) s"

section \<open>Documented behaviour\<close>

text \<open>
  Strings and lists live in one key space and a command on a key of the other kind is an error; the
  behaviour is stated for a set of keys that hold lists and the others, which hold strings.
\<close>

definition redis_strings :: "'s redis \<Rightarrow> string set \<Rightarrow> bool" where
  "redis_strings R Q =
     (\<forall>k s. k \<notin> Q \<longrightarrow>
        (\<forall>k' v ex. k' \<notin> Q \<longrightarrow> r_get R k (r_set R k' v ex s) = (if k = k' then Some v else r_get R k s)) \<and>
        (\<forall>k' v ex. k' \<notin> Q \<longrightarrow>
           r_set_nx R k' v ex s =
             (if r_get R k' s = None then (r_set R k' v ex s, True) else (s, False))) \<and>
        (\<forall>k' ex. k' \<notin> Q \<longrightarrow> r_get R k (r_expire R k' ex s) = r_get R k s) \<and>
        (\<forall>k'. k' \<notin> Q \<longrightarrow> r_get R k (r_del R k' s) = (if k = k' then None else r_get R k s)) \<and>
        (\<forall>q x. q \<in> Q \<longrightarrow> r_get R k (r_lpush R q x s) = r_get R k s) \<and>
        (\<forall>q x. q \<in> Q \<longrightarrow> r_get R k (r_lrem R q x s) = r_get R k s) \<and>
        (\<forall>q q'. q \<in> Q \<longrightarrow> q' \<in> Q \<longrightarrow> r_get R k (fst (r_brpoplpush R q q' s)) = r_get R k s))"

definition redis_lists :: "'s redis \<Rightarrow> string set \<Rightarrow> bool" where
  "redis_lists R Q =
     (\<forall>q s. q \<in> Q \<longrightarrow>
        (\<forall>k v ex. k \<notin> Q \<longrightarrow> r_all R q (r_set R k v ex s) = r_all R q s) \<and>
        (\<forall>q' x. q' \<in> Q \<longrightarrow>
           r_all R q (r_lpush R q' x s) = (if q = q' then x # r_all R q s else r_all R q s)) \<and>
        (\<forall>q' x. q' \<in> Q \<longrightarrow>
           r_all R q (r_lrem R q' x s) = (if q = q' then remove1 x (r_all R q s) else r_all R q s)) \<and>
        (\<forall>n. 0 \<le> n \<longrightarrow> r_lrange R q 0 n s = take (nat n + 1) (r_all R q s)) \<and>
        r_llen R q s = length (r_all R q s))"

definition redis_moves :: "'s redis \<Rightarrow> string set \<Rightarrow> bool" where
  "redis_moves R Q =
     (\<forall>q q' s. q \<in> Q \<longrightarrow> q' \<in> Q \<longrightarrow> q \<noteq> q' \<longrightarrow>
        (r_all R q s = [] \<longrightarrow> r_brpoplpush R q q' s = (s, None)) \<and>
        (r_all R q s \<noteq> [] \<longrightarrow>
           snd (r_brpoplpush R q q' s) = Some (last (r_all R q s)) \<and>
           (\<forall>p. p \<in> Q \<longrightarrow> r_all R p (fst (r_brpoplpush R q q' s)) =
              (if p = q then butlast (r_all R q s)
               else if p = q' then last (r_all R q s) # r_all R q' s
               else r_all R p s))))"

definition redis_ok :: "'s redis \<Rightarrow> string set \<Rightarrow> bool" where
  "redis_ok R Q = (redis_strings R Q \<and> redis_lists R Q \<and> redis_moves R Q)"

named_theorems redis \<open>the behaviour of Redis as rewrite rules\<close>

lemma redis_get [redis]:
  assumes "redis_ok R Q" and "k \<notin> Q"
  shows "k' \<notin> Q \<Longrightarrow> r_get R k (r_set R k' v ex s) = (if k = k' then Some v else r_get R k s)"
    and "k' \<notin> Q \<Longrightarrow> r_get R k (r_expire R k' ex s) = r_get R k s"
    and "k' \<notin> Q \<Longrightarrow> r_get R k (r_del R k' s) = (if k = k' then None else r_get R k s)"
    and "q \<in> Q \<Longrightarrow> r_get R k (r_lpush R q x s) = r_get R k s"
    and "q \<in> Q \<Longrightarrow> r_get R k (r_lrem R q x s) = r_get R k s"
    and "q \<in> Q \<Longrightarrow> q' \<in> Q \<Longrightarrow> r_get R k (fst (r_brpoplpush R q q' s)) = r_get R k s"
  using assms by (simp_all add: redis_ok_def redis_strings_def)

lemma redis_set_nx:
  "redis_ok R Q \<Longrightarrow> k \<notin> Q \<Longrightarrow>
   r_set_nx R k v ex s = (if r_get R k s = None then (r_set R k v ex s, True) else (s, False))"
  by (simp add: redis_ok_def redis_strings_def)

lemma redis_list [redis]:
  assumes "redis_ok R Q" and "q \<in> Q"
  shows "k \<notin> Q \<Longrightarrow> r_all R q (r_set R k v ex s) = r_all R q s"
    and "q' \<in> Q \<Longrightarrow> r_all R q (r_lpush R q' x s) = (if q = q' then x # r_all R q s else r_all R q s)"
    and "q' \<in> Q \<Longrightarrow>
         r_all R q (r_lrem R q' x s) = (if q = q' then remove1 x (r_all R q s) else r_all R q s)"
    and "0 \<le> n \<Longrightarrow> r_lrange R q 0 n s = take (nat n + 1) (r_all R q s)"
    and "r_llen R q s = length (r_all R q s)"
  using assms by (simp_all add: redis_ok_def redis_lists_def)

lemma redis_move_empty:
  "redis_ok R Q \<Longrightarrow> q \<in> Q \<Longrightarrow> q' \<in> Q \<Longrightarrow> q \<noteq> q' \<Longrightarrow> r_all R q s = [] \<Longrightarrow>
   r_brpoplpush R q q' s = (s, None)"
  by (simp add: redis_ok_def redis_moves_def)

lemma redis_move:
  assumes "redis_ok R Q" and "q \<in> Q" and "q' \<in> Q" and "q \<noteq> q'"
    and "r_brpoplpush R q q' s = (s', Some x)"
  shows "r_all R q s \<noteq> [] \<and> x = last (r_all R q s) \<and> r_all R q s' = butlast (r_all R q s) \<and>
    r_all R q' s' = x # r_all R q' s \<and> (\<forall>p \<in> Q. p \<noteq> q \<longrightarrow> p \<noteq> q' \<longrightarrow> r_all R p s' = r_all R p s)"
proof -
  have ne: "r_all R q s \<noteq> []" using redis_move_empty [OF assms(1-4), of s] assms(5) by auto
  have all: "snd (r_brpoplpush R q q' s) = Some (last (r_all R q s)) \<and>
           (\<forall>p. p \<in> Q \<longrightarrow> r_all R p (fst (r_brpoplpush R q q' s)) =
              (if p = q then butlast (r_all R q s)
               else if p = q' then last (r_all R q s) # r_all R q' s
               else r_all R p s))"
    using assms(1-4) ne by (simp add: redis_ok_def redis_moves_def)
  with assms(2,3,4,5) ne show ?thesis by auto
qed

lemma redis_move_None:
  assumes "redis_ok R Q" and "q \<in> Q" and "q' \<in> Q" and "q \<noteq> q'"
    and "r_brpoplpush R q q' s = (s', None)"
  shows "s' = s \<and> r_all R q s = []"
proof -
  have "r_all R q s = []"
  proof (rule ccontr)
    assume "r_all R q s \<noteq> []"
    with assms(1-4) have "snd (r_brpoplpush R q q' s) \<noteq> None"
      by (simp add: redis_ok_def redis_moves_def)
    with assms(5) show False by simp
  qed
  with redis_move_empty [OF assms(1-4) this] assms(5) show ?thesis by simp
qed

section \<open>A table in memory\<close>

type_synonym memory = "(string \<Rightarrow> json option) \<times> (string \<Rightarrow> string list)"

definition mem_lrange :: "int \<Rightarrow> int \<Rightarrow> string list \<Rightarrow> string list" where
  "mem_lrange i j xs =
     (let n = int (length xs);
          a = (if i < 0 then max 0 (n + i) else i);
          b = (if j < 0 then n + j else j)
      in take (nat (b + 1) - nat a) (drop (nat a) xs))"

definition mem_redis :: "memory redis" where
  "mem_redis =
     \<lparr>r_get = \<lambda>k (f, g). f k,
      r_set = \<lambda>k v ex (f, g). (f(k := Some v), g),
      r_set_nx = \<lambda>k v ex (f, g). if f k = None then ((f(k := Some v), g), True) else ((f, g), False),
      r_expire = \<lambda>k ex s. s,
      r_del = \<lambda>k (f, g). (f(k := None), g),
      r_lrange = \<lambda>q i j (f, g). mem_lrange i j (g q),
      r_llen = \<lambda>q (f, g). length (g q),
      r_lpush = \<lambda>q x (f, g). (f, g(q := x # g q)),
      r_lrem = \<lambda>q x (f, g). (f, g(q := remove1 x (g q))),
      r_brpoplpush = \<lambda>q q' (f, g).
        if g q = [] then ((f, g), None)
        else ((f, (g(q := butlast (g q)))(q' := last (g q) # (g(q := butlast (g q))) q')), Some (last (g q)))\<rparr>"

lemma mem_lrange_all: "mem_lrange 0 (- 1) xs = xs"
  by (simp add: mem_lrange_def Let_def)

lemma mem_lrange_prefix: "0 \<le> n \<Longrightarrow> mem_lrange 0 n xs = take (nat n + 1) xs"
  by (simp add: mem_lrange_def Let_def nat_add_distrib)

lemma mem_redis_ok: "redis_ok mem_redis Q"
  unfolding redis_ok_def redis_strings_def redis_lists_def redis_moves_def r_all_def
  by (auto simp: mem_redis_def mem_lrange_all mem_lrange_prefix split: prod.splits)

end
