(* ===== verification/Jobs.thy ===== *)
theory Jobs
  imports Prelude Redis "HOL-Library.Multiset"
begin

text \<open>
  The job queue in Redis (\<open>src/titan/jobs/queue.py\<close>) and the worker that processes its jobs
  (\<open>src/titan/jobs/worker.py\<close>). Redis, the clock, the generator of job ids and the ISO format of
  timestamps are parameters.
\<close>

section \<open>Jobs\<close>

datatype job_status = PENDING | RUNNING | COMPLETED | FAILED | CANCELLED | DEAD

fun status_value :: "job_status \<Rightarrow> string" where
  "status_value PENDING = ''pending''"
| "status_value RUNNING = ''running''"
| "status_value COMPLETED = ''completed''"
| "status_value FAILED = ''failed''"
| "status_value CANCELLED = ''cancelled''"
| "status_value DEAD = ''dead''"

definition parse_status :: "json \<Rightarrow> py_exn + job_status" where
  "parse_status v =
     (case List.find (\<lambda>s. v = JStr (status_value s)) [PENDING, RUNNING, COMPLETED, FAILED, CANCELLED, DEAD] of
        Some s \<Rightarrow> Inr s | None \<Rightarrow> Inl ValueError)"

record job =
  j_id :: string
  task :: string
  payload :: obj
  j_status :: job_status
  j_created_at :: int
  started_at :: "int option"
  completed_at :: "int option"
  j_result :: "obj option"
  j_error :: "string option"
  j_attempts :: int
  max_retries :: int
  priority :: int

text \<open>Timestamps are UTC instants; \<open>iso\<close> is \<open>isoformat\<close>, \<open>from_iso\<close> is \<open>fromisoformat\<close>.\<close>

record iso_format =
  iso :: "int \<Rightarrow> string"
  from_iso :: "string \<Rightarrow> int option"

definition iso_ok :: "iso_format \<Rightarrow> bool" where
  "iso_ok F = (\<forall>t. from_iso F (iso F t) = Some t \<and> iso F t \<noteq> [])"

fun json_opt :: "('a \<Rightarrow> json) \<Rightarrow> 'a option \<Rightarrow> json" where
  "json_opt f None = JNull"
| "json_opt f (Some a) = f a"

definition to_dict :: "iso_format \<Rightarrow> job \<Rightarrow> obj" where
  "to_dict F j =
     [(''id'', JStr (j_id j)), (''task'', JStr (task j)), (''payload'', JDict (payload j)),
      (''status'', JStr (status_value (j_status j))), (''created_at'', JStr (iso F (j_created_at j))),
      (''started_at'', json_opt (\<lambda>t. JStr (iso F t)) (started_at j)),
      (''completed_at'', json_opt (\<lambda>t. JStr (iso F t)) (completed_at j)),
      (''result'', json_opt JDict (j_result j)), (''error'', json_opt JStr (j_error j)),
      (''attempts'', JInt (j_attempts j)), (''max_retries'', JInt (max_retries j)),
      (''priority'', JInt (priority j))]"

text \<open>
  \<open>data[k]\<close>; and the types of the fields, which Python does not check: a document with another type
  in a field of the job is \<open>NotModelled\<close>.
\<close>

definition item :: "obj \<Rightarrow> string \<Rightarrow> py_exn + json" where
  "item d k = (case map_of d k of None \<Rightarrow> Inl KeyError | Some v \<Rightarrow> Inr v)"

fun as_str :: "json \<Rightarrow> py_exn + string" where
  "as_str (JStr s) = Inr s"
| "as_str _ = Inl NotModelled"

fun as_obj :: "json \<Rightarrow> py_exn + obj" where
  "as_obj (JDict d) = Inr d"
| "as_obj _ = Inl NotModelled"

fun as_int :: "json \<Rightarrow> py_exn + int" where
  "as_int (JInt n) = Inr n"
| "as_int _ = Inl NotModelled"

fun as_opt :: "(json \<Rightarrow> py_exn + 'a) \<Rightarrow> json \<Rightarrow> py_exn + 'a option" where
  "as_opt f JNull = Inr None"
| "as_opt f v = bindE (f v) (\<lambda>a. Inr (Some a))"

fun as_time :: "iso_format \<Rightarrow> json \<Rightarrow> py_exn + int" where
  "as_time F (JStr s) = (case from_iso F s of Some t \<Rightarrow> Inr t | None \<Rightarrow> Inl ValueError)"
| "as_time F _ = Inl TypeError"

definition opt_time :: "iso_format \<Rightarrow> json \<Rightarrow> py_exn + int option" where
  "opt_time F v = (if truthy v then bindE (as_time F v) (\<lambda>t. Inr (Some t)) else Inr None)"

definition DEFAULT_MAX_RETRIES :: int where
  "DEFAULT_MAX_RETRIES = 3"

definition from_dict :: "iso_format \<Rightarrow> obj \<Rightarrow> py_exn + job" where
  "from_dict F d =
     bindE (bindE (item d ''id'') as_str) (\<lambda>i.
     bindE (bindE (item d ''task'') as_str) (\<lambda>t.
     bindE (bindE (item d ''payload'') as_obj) (\<lambda>p.
     bindE (bindE (item d ''status'') parse_status) (\<lambda>s.
     bindE (bindE (item d ''created_at'') (as_time F)) (\<lambda>c.
     bindE (opt_time F (dget d ''started_at'')) (\<lambda>sa.
     bindE (opt_time F (dget d ''completed_at'')) (\<lambda>ca.
     bindE (as_opt as_obj (dget d ''result'')) (\<lambda>r.
     bindE (as_opt as_str (dget d ''error'')) (\<lambda>e.
     bindE (as_int (dget_or d ''attempts'' (JInt 0))) (\<lambda>n.
     bindE (as_int (dget_or d ''max_retries'' (JInt DEFAULT_MAX_RETRIES))) (\<lambda>m.
     bindE (as_int (dget_or d ''priority'' (JInt 0))) (\<lambda>pr.
       Inr \<lparr>j_id = i, task = t, payload = p, j_status = s, j_created_at = c, started_at = sa,
            completed_at = ca, j_result = r, j_error = e, j_attempts = n, max_retries = m,
            priority = pr\<rparr>))))))))))))"

section \<open>The queue\<close>

definition JOB_PREFIX :: string where "JOB_PREFIX = ''titan:job:''"
definition QUEUE_PENDING :: string where "QUEUE_PENDING = ''titan:jobs:pending''"
definition QUEUE_PROCESSING :: string where "QUEUE_PROCESSING = ''titan:jobs:processing''"
definition QUEUE_DLQ :: string where "QUEUE_DLQ = ''titan:jobs:dlq''"

definition queue_keys :: "string set" where
  "queue_keys = {QUEUE_PENDING, QUEUE_PROCESSING, QUEUE_DLQ}"

definition job_key :: "string \<Rightarrow> string" where
  "job_key i = JOB_PREFIX @ i"

record job_queue =
  job_ttl :: int
  result_ttl :: int
  q_max_retries :: int
  claim_timeout :: int

definition default_queue :: job_queue where
  "default_queue = \<lparr>job_ttl = 86400 * 7, result_ttl = 86400, q_max_retries = 3, claim_timeout = 5000\<rparr>"

text \<open>
  Every operation takes the interface to Redis, the ISO format, the queue's settings and the state of
  Redis, and returns the new state with its value or the exception of a stored document that is no
  job.
\<close>

definition save_job :: "'s redis \<Rightarrow> iso_format \<Rightarrow> job \<Rightarrow> int \<Rightarrow> 's \<Rightarrow> 's" where
  "save_job R F j ttl s = r_set R (job_key (j_id j)) (JDict (to_dict F j)) ttl s"

definition get_job :: "'s redis \<Rightarrow> iso_format \<Rightarrow> string \<Rightarrow> 's \<Rightarrow> py_exn + job option" where
  "get_job R F i s =
     (case r_get R (job_key i) s of
        None \<Rightarrow> Inr None
      | Some (JDict d) \<Rightarrow> bindE (from_dict F d) (\<lambda>j. Inr (Some j))
      | Some _ \<Rightarrow> Inl TypeError)"

definition new_job :: "job_queue \<Rightarrow> string \<Rightarrow> int \<Rightarrow> string \<Rightarrow> obj \<Rightarrow> int \<Rightarrow> int option \<Rightarrow> job" where
  "new_job Q uuid now tsk pl prio mr =
     \<lparr>j_id = uuid, task = tsk, payload = pl, j_status = PENDING, j_created_at = now,
      started_at = None, completed_at = None, j_result = None, j_error = None, j_attempts = 0,
      max_retries = (case mr of Some m \<Rightarrow> m | None \<Rightarrow> q_max_retries Q), priority = prio\<rparr>"

text \<open>\<open>payload or {}\<close>: no payload is the empty one.\<close>

definition submit ::
  "'s redis \<Rightarrow> iso_format \<Rightarrow> job_queue \<Rightarrow> string \<Rightarrow> int \<Rightarrow> string \<Rightarrow> obj option \<Rightarrow> int \<Rightarrow> int option \<Rightarrow> 's \<Rightarrow>
   's \<times> string" where
  "submit R F Q uuid now tsk pl prio mr s =
     (let j = new_job Q uuid now tsk (case pl of Some d \<Rightarrow> d | None \<Rightarrow> []) prio mr
      in (r_lpush R QUEUE_PENDING (j_id j) (save_job R F j (job_ttl Q) s), j_id j))"

text \<open>What the operations make of a job before they store it again.\<close>

definition claimed :: "int \<Rightarrow> job \<Rightarrow> job" where
  "claimed now j = j\<lparr>j_status := RUNNING, started_at := Some now, j_attempts := j_attempts j + 1\<rparr>"

definition completed :: "int \<Rightarrow> obj option \<Rightarrow> job \<Rightarrow> job" where
  "completed now res j = j\<lparr>j_status := COMPLETED, completed_at := Some now, j_result := res\<rparr>"

definition failed :: "string \<Rightarrow> job \<Rightarrow> job" where
  "failed err j = j\<lparr>j_error := Some err\<rparr>"

definition may_retry :: "bool \<Rightarrow> job \<Rightarrow> bool" where
  "may_retry retry j = (retry \<and> j_attempts j < max_retries j)"

definition requeued :: "job \<Rightarrow> job" where
  "requeued j = j\<lparr>j_status := PENDING\<rparr>"

definition buried :: "int \<Rightarrow> job \<Rightarrow> job" where
  "buried now j = j\<lparr>j_status := DEAD, completed_at := Some now\<rparr>"

definition cancellable :: "job \<Rightarrow> bool" where
  "cancellable j = (j_status j = PENDING \<or> j_status j = RUNNING)"

definition cancelled :: "int \<Rightarrow> job \<Rightarrow> job" where
  "cancelled now j = j\<lparr>j_status := CANCELLED, completed_at := Some now\<rparr>"

text \<open>One turn of \<open>claim_jobs\<close>; the generator stops at \<open>NoJob\<close> and goes on after \<open>Gone\<close>.\<close>

datatype claim = NoJob | Gone | Claimed job

definition claim_next ::
  "'s redis \<Rightarrow> iso_format \<Rightarrow> job_queue \<Rightarrow> int \<Rightarrow> 's \<Rightarrow> 's \<times> (py_exn + claim)" where
  "claim_next R F Q now s =
     (case r_brpoplpush R QUEUE_PENDING QUEUE_PROCESSING s of
        (s1, None) \<Rightarrow> (s1, Inr NoJob)
      | (s1, Some i) \<Rightarrow>
          (case get_job R F i s1 of
             Inl e \<Rightarrow> (s1, Inl e)
           | Inr None \<Rightarrow> (r_lrem R QUEUE_PROCESSING i s1, Inr Gone)
           | Inr (Some j) \<Rightarrow>
               (let j' = claimed now j
                in (save_job R F j' (job_ttl Q) s1, Inr (Claimed j')))))"

fun claim_jobs ::
  "'s redis \<Rightarrow> iso_format \<Rightarrow> job_queue \<Rightarrow> int \<Rightarrow> nat \<Rightarrow> 's \<Rightarrow> 's \<times> (py_exn + job list)" where
  "claim_jobs R F Q now 0 s = (s, Inr [])"
| "claim_jobs R F Q now (Suc n) s =
     (case claim_next R F Q now s of
        (s1, Inl e) \<Rightarrow> (s1, Inl e)
      | (s1, Inr NoJob) \<Rightarrow> (s1, Inr [])
      | (s1, Inr Gone) \<Rightarrow> claim_jobs R F Q now n s1
      | (s1, Inr (Claimed j)) \<Rightarrow>
          (case claim_jobs R F Q now n s1 of
             (s2, Inl e) \<Rightarrow> (s2, Inl e) | (s2, Inr js) \<Rightarrow> (s2, Inr (j # js))))"

definition complete_job ::
  "'s redis \<Rightarrow> iso_format \<Rightarrow> job_queue \<Rightarrow> int \<Rightarrow> string \<Rightarrow> obj option \<Rightarrow> 's \<Rightarrow> 's \<times> (py_exn + unit)" where
  "complete_job R F Q now i res s =
     (case get_job R F i s of
        Inl e \<Rightarrow> (s, Inl e)
      | Inr None \<Rightarrow> (s, Inr ())
      | Inr (Some j) \<Rightarrow>
          (let j' = completed now res j
           in (r_lrem R QUEUE_PROCESSING i (save_job R F j' (result_ttl Q) s), Inr ())))"

definition fail_job ::
  "'s redis \<Rightarrow> iso_format \<Rightarrow> job_queue \<Rightarrow> int \<Rightarrow> string \<Rightarrow> string \<Rightarrow> bool \<Rightarrow> 's \<Rightarrow> 's \<times> (py_exn + unit)" where
  "fail_job R F Q now i err retry s =
     (case get_job R F i s of
        Inl e \<Rightarrow> (s, Inl e)
      | Inr None \<Rightarrow> (s, Inr ())
      | Inr (Some j) \<Rightarrow>
          (let j1 = failed err j; s1 = r_lrem R QUEUE_PROCESSING i s in
           if may_retry retry j1
           then (r_lpush R QUEUE_PENDING i (save_job R F (requeued j1) (job_ttl Q) s1), Inr ())
           else (r_lpush R QUEUE_DLQ i (save_job R F (buried now j1) (job_ttl Q) s1), Inr ())))"

definition cancel_job ::
  "'s redis \<Rightarrow> iso_format \<Rightarrow> job_queue \<Rightarrow> int \<Rightarrow> string \<Rightarrow> 's \<Rightarrow> 's \<times> (py_exn + bool)" where
  "cancel_job R F Q now i s =
     (case get_job R F i s of
        Inl e \<Rightarrow> (s, Inl e)
      | Inr None \<Rightarrow> (s, Inr False)
      | Inr (Some j) \<Rightarrow>
          if \<not> cancellable j then (s, Inr False)
          else (let s1 = r_lrem R QUEUE_PROCESSING i (r_lrem R QUEUE_PENDING i s)
                in (save_job R F (cancelled now j) (result_ttl Q) s1, Inr True)))"

text \<open>\<open>xs[:n]\<close>\<close>

definition upto_index :: "int \<Rightarrow> 'a list \<Rightarrow> 'a list" where
  "upto_index n xs = (if n < 0 then take (nat (int (length xs) + n)) xs else take (nat n) xs)"

definition list_jobs ::
  "'s redis \<Rightarrow> iso_format \<Rightarrow> job_status option \<Rightarrow> int \<Rightarrow> 's \<Rightarrow> py_exn + job list" where
  "list_jobs R F st limit s =
     (let range = (\<lambda>q. r_lrange R q 0 (limit - 1) s);
          ids = (if st = Some PENDING then range QUEUE_PENDING
                 else if st = Some RUNNING then range QUEUE_PROCESSING
                 else if st = Some DEAD then range QUEUE_DLQ
                 else range QUEUE_PENDING @ range QUEUE_PROCESSING @ range QUEUE_DLQ)
      in concatE (\<lambda>i. bindE (get_job R F i s) (\<lambda>oj.
           Inr (case oj of
                  None \<Rightarrow> []
                | Some j \<Rightarrow> if st = None \<or> st = Some (j_status j) then [j] else [])))
         (upto_index limit ids))"

definition get_queue_stats :: "'s redis \<Rightarrow> 's \<Rightarrow> nat \<times> nat \<times> nat" where
  "get_queue_stats R s =
     (r_llen R QUEUE_PENDING s, r_llen R QUEUE_PROCESSING s, r_llen R QUEUE_DLQ s)"

section \<open>The worker\<close>

text \<open>
  A handler returns a result or raises; an exception of \<open>complete_job\<close> counts as a failure of the
  job, too. \<open>exn_text\<close> is the text of such an exception.
\<close>

type_synonym handlers = "string \<Rightarrow> (job \<Rightarrow> string + obj option) option"

definition process_job ::
  "'s redis \<Rightarrow> iso_format \<Rightarrow> job_queue \<Rightarrow> (py_exn \<Rightarrow> string) \<Rightarrow> handlers \<Rightarrow> int \<Rightarrow> job \<Rightarrow> 's \<Rightarrow>
   's \<times> (py_exn + unit)" where
  "process_job R F Q exn_text hs now j s =
     (case hs (task j) of
        None \<Rightarrow> fail_job R F Q now (j_id j) (''Unknown task type: '' @ task j) False s
      | Some h \<Rightarrow>
          (case h j of
             Inl err \<Rightarrow> fail_job R F Q now (j_id j) err True s
           | Inr res \<Rightarrow>
               (case complete_job R F Q now (j_id j) res s of
                  (s1, Inr u) \<Rightarrow> (s1, Inr u)
                | (s1, Inl e) \<Rightarrow> fail_job R F Q now (j_id j) (exn_text e) True s1)))"

text \<open>\<open>run_once\<close>: claim and process one after the other, up to the batch size.\<close>

fun run_once ::
  "'s redis \<Rightarrow> iso_format \<Rightarrow> job_queue \<Rightarrow> (py_exn \<Rightarrow> string) \<Rightarrow> handlers \<Rightarrow> int \<Rightarrow> nat \<Rightarrow> 's \<Rightarrow>
   's \<times> (py_exn + nat)" where
  "run_once R F Q exn_text hs now 0 s = (s, Inr 0)"
| "run_once R F Q exn_text hs now (Suc n) s =
     (case claim_next R F Q now s of
        (s1, Inl e) \<Rightarrow> (s1, Inl e)
      | (s1, Inr NoJob) \<Rightarrow> (s1, Inr 0)
      | (s1, Inr Gone) \<Rightarrow> run_once R F Q exn_text hs now n s1
      | (s1, Inr (Claimed j)) \<Rightarrow>
          (case process_job R F Q exn_text hs now j s1 of
             (s2, Inl e) \<Rightarrow> (s2, Inl e)
           | (s2, Inr _) \<Rightarrow>
               (case run_once R F Q exn_text hs now n s2 of
                  (s3, Inl e) \<Rightarrow> (s3, Inl e) | (s3, Inr m) \<Rightarrow> (s3, Inr (Suc m)))))"

section \<open>Stored jobs\<close>

lemma parse_status_value [simp]: "parse_status (JStr (status_value s)) = Inr s"
  by (cases s) (simp_all add: parse_status_def)

lemma opt_time_iso:
  "iso_ok F \<Longrightarrow> opt_time F (json_opt (\<lambda>t. JStr (iso F t)) x) = Inr x"
  by (cases x) (simp_all add: opt_time_def iso_ok_def)

lemma as_opt_obj: "as_opt as_obj (json_opt JDict x) = Inr x"
  by (cases x) simp_all

lemma as_opt_str: "as_opt as_str (json_opt JStr x) = Inr x"
  by (cases x) simp_all

lemma from_to_dict: "iso_ok F \<Longrightarrow> from_dict F (to_dict F j) = Inr j"
proof -
  assume ok: "iso_ok F"
  then have time: "as_time F (JStr (iso F t)) = Inr t" for t by (simp add: iso_ok_def)
  show ?thesis
    by (simp add: from_dict_def to_dict_def item_def dget_def dget_or_def time
        opt_time_iso [OF ok] as_opt_obj as_opt_str del: as_time.simps)
qed

text \<open>
  A job survives its storage: \<open>from_dict\<close> undoes \<open>to_dict\<close> for every job, whatever its state.
\<close>

lemma job_roundtrip:
  assumes "iso_ok F"
  shows "from_dict F (to_dict F j) = Inr j"
  using assms by (rule from_to_dict)

definition int_iso :: iso_format where
  "int_iso = \<lparr>iso = show_int, from_iso = py_int\<rparr>"

lemma int_iso_ok: "iso_ok int_iso"
proof -
  have neg: "py_int (CHR ''-'' # show_nat n) = Some (- int n)" for n
  proof -
    have "\<not> py_space (last (show_nat n))"
      using digit_not_space [OF show_nat_digits [OF last_in_set]] by simp
    then have "py_strip (CHR ''-'' # show_nat n) = CHR ''-'' # show_nat n"
      by (intro py_strip_id) (simp_all add: py_space_def)
    then show ?thesis by (simp add: py_int_def digits_val_show_nat del: digits_val.simps)
  qed
  have "py_int (show_int t) = Some t" for t
    by (cases "t < 0") (simp_all add: show_int_def neg)
  then show ?thesis by (simp add: iso_ok_def int_iso_def show_int_def)
qed

lemma job_roundtrip_witness:
  "from_dict int_iso (to_dict int_iso
     \<lparr>j_id = ''a'', task = ''export'', payload = [], j_status = DEAD, j_created_at = 5,
      started_at = Some (- 7), completed_at = None, j_result = Some [], j_error = Some ''e'',
      j_attempts = 3, max_retries = 3, priority = 1\<rparr>) =
   Inr \<lparr>j_id = ''a'', task = ''export'', payload = [], j_status = DEAD, j_created_at = 5,
      started_at = Some (- 7), completed_at = None, j_result = Some [], j_error = Some ''e'',
      j_attempts = 3, max_retries = 3, priority = 1\<rparr>"
  by (rule job_roundtrip [OF int_iso_ok])

text \<open>What the queue relies on: a Redis whose queue keys hold lists, and the ISO format.\<close>

definition env_ok :: "'s redis \<Rightarrow> iso_format \<Rightarrow> bool" where
  "env_ok R F = (redis_ok R queue_keys \<and> iso_ok F)"

lemma mem_env_ok: "env_ok mem_redis int_iso"
  by (simp add: env_ok_def mem_redis_ok int_iso_ok)

lemma queue_keys_simps [simp]:
  "QUEUE_PENDING \<in> queue_keys" "QUEUE_PROCESSING \<in> queue_keys" "QUEUE_DLQ \<in> queue_keys"
  "QUEUE_PENDING \<noteq> QUEUE_PROCESSING" "QUEUE_PROCESSING \<noteq> QUEUE_PENDING"
  "QUEUE_PENDING \<noteq> QUEUE_DLQ" "QUEUE_DLQ \<noteq> QUEUE_PENDING"
  "QUEUE_PROCESSING \<noteq> QUEUE_DLQ" "QUEUE_DLQ \<noteq> QUEUE_PROCESSING"
  "job_key i \<notin> queue_keys" "job_key i = job_key i' \<longleftrightarrow> i = i'"
  by (simp_all add: queue_keys_def QUEUE_PENDING_def QUEUE_PROCESSING_def QUEUE_DLQ_def
      job_key_def JOB_PREFIX_def)

lemma get_job_frame:
  assumes "env_ok R F"
  shows "q \<in> queue_keys \<Longrightarrow> get_job R F i (r_lpush R q x s) = get_job R F i s"
    and "q \<in> queue_keys \<Longrightarrow> get_job R F i (r_lrem R q x s) = get_job R F i s"
    and "q \<in> queue_keys \<Longrightarrow> q' \<in> queue_keys \<Longrightarrow>
         get_job R F i (fst (r_brpoplpush R q q' s)) = get_job R F i s"
    and "get_job R F i (save_job R F j ttl s) =
         (if i = j_id j then Inr (Some j) else get_job R F i s)"
  using assms redis_get [of R queue_keys "job_key i"]
  by (simp_all add: get_job_def save_job_def env_ok_def from_to_dict)

lemma queue_frame:
  assumes "env_ok R F" and "q \<in> queue_keys"
  shows "r_all R q (save_job R F j ttl s) = r_all R q s"
    and "q' \<in> queue_keys \<Longrightarrow>
         r_all R q (r_lpush R q' x s) = (if q = q' then x # r_all R q s else r_all R q s)"
    and "q' \<in> queue_keys \<Longrightarrow>
         r_all R q (r_lrem R q' x s) = (if q = q' then remove1 x (r_all R q s) else r_all R q s)"
  using assms redis_list [of R queue_keys q] by (simp_all add: save_job_def env_ok_def)

lemmas job_frame = get_job_frame queue_frame

section \<open>The queue as a system of workers\<close>

text \<open>
  Any number of clients and workers use the queue, and their operations interleave at every command
  to Redis. An activity is what is left of an operation, named for its next command; the comments of
  \<open>advance\<close> name the operation. A worker that has claimed a job runs its handler (\<open>Working\<close>) and then
  reports on it.
\<close>

datatype activity =
    Submitting job | Queueing string
  | Claiming | Reading string | Dropping string | Starting job
  | Working job
  | Completing string "obj option" | Storing string job | Removing string
  | Failing string string bool | Unlisting string job bool
  | Requeueing string job | Pushing string | Burying string job | Entombing string
  | Cancelling string | Unqueueing string job | Unclaiming string job | Revoking job

text \<open>
  One command, and what is left of the operation after it: \<open>submit\<close> (the first two), one turn of
  \<open>claim_jobs\<close> (from \<open>Claiming\<close> on), \<open>complete_job\<close>, \<open>fail_job\<close>, \<open>cancel_job\<close>. An exception of
  \<open>complete_job\<close> makes the worker call \<open>fail_job\<close>; any other one ends the operation.
\<close>

fun advance ::
  "'s redis \<Rightarrow> iso_format \<Rightarrow> job_queue \<Rightarrow> (py_exn \<Rightarrow> string) \<Rightarrow> int \<Rightarrow> activity \<Rightarrow> 's \<Rightarrow> 's \<times> activity option" where
  "advance R F Q et now (Submitting j) s = (save_job R F j (job_ttl Q) s, Some (Queueing (j_id j)))"
| "advance R F Q et now (Queueing i) s = (r_lpush R QUEUE_PENDING i s, None)"
| "advance R F Q et now Claiming s =
     (case r_brpoplpush R QUEUE_PENDING QUEUE_PROCESSING s of
        (s1, None) \<Rightarrow> (s1, None)
      | (s1, Some i) \<Rightarrow> (s1, Some (Reading i)))"
| "advance R F Q et now (Reading i) s =
     (s, case get_job R F i s of
           Inl e \<Rightarrow> None
         | Inr None \<Rightarrow> Some (Dropping i)
         | Inr (Some j) \<Rightarrow> Some (Starting (claimed now j)))"
| "advance R F Q et now (Dropping i) s = (r_lrem R QUEUE_PROCESSING i s, None)"
| "advance R F Q et now (Starting j) s = (save_job R F j (job_ttl Q) s, Some (Working j))"
| "advance R F Q et now (Working j) s = (s, Some (Working j))"
| "advance R F Q et now (Completing i res) s =
     (s, case get_job R F i s of
           Inl e \<Rightarrow> Some (Failing i (et e) True)
         | Inr None \<Rightarrow> None
         | Inr (Some j) \<Rightarrow> Some (Storing i (completed now res j)))"
| "advance R F Q et now (Storing i j) s = (save_job R F j (result_ttl Q) s, Some (Removing i))"
| "advance R F Q et now (Removing i) s = (r_lrem R QUEUE_PROCESSING i s, None)"
| "advance R F Q et now (Failing i err retry) s =
     (s, case get_job R F i s of
           Inl e \<Rightarrow> None
         | Inr None \<Rightarrow> None
         | Inr (Some j) \<Rightarrow> Some (Unlisting i (failed err j) retry))"
| "advance R F Q et now (Unlisting i j retry) s =
     (r_lrem R QUEUE_PROCESSING i s,
      Some (if may_retry retry j then Requeueing i (requeued j) else Burying i (buried now j)))"
| "advance R F Q et now (Requeueing i j) s = (save_job R F j (job_ttl Q) s, Some (Pushing i))"
| "advance R F Q et now (Pushing i) s = (r_lpush R QUEUE_PENDING i s, None)"
| "advance R F Q et now (Burying i j) s = (save_job R F j (job_ttl Q) s, Some (Entombing i))"
| "advance R F Q et now (Entombing i) s = (r_lpush R QUEUE_DLQ i s, None)"
| "advance R F Q et now (Cancelling i) s =
     (s, case get_job R F i s of
           Inl e \<Rightarrow> None
         | Inr None \<Rightarrow> None
         | Inr (Some j) \<Rightarrow> if cancellable j then Some (Unqueueing i j) else None)"
| "advance R F Q et now (Unqueueing i j) s = (r_lrem R QUEUE_PENDING i s, Some (Unclaiming i j))"
| "advance R F Q et now (Unclaiming i j) s =
     (r_lrem R QUEUE_PROCESSING i s, Some (Revoking (cancelled now j)))"
| "advance R F Q et now (Revoking j) s = (save_job R F j (result_ttl Q) s, None)"

text \<open>What the worker does when the handler of its job is done.\<close>

definition report :: "handlers \<Rightarrow> job \<Rightarrow> activity" where
  "report hs j =
     (case hs (task j) of
        None \<Rightarrow> Failing (j_id j) (''Unknown task type: '' @ task j) False
      | Some h \<Rightarrow> (case h j of Inl err \<Rightarrow> Failing (j_id j) err True | Inr res \<Rightarrow> Completing (j_id j) res))"

text \<open>
  Carried out without interference, the commands are the operations: \<open>finish n\<close> carries out up to \<open>n\<close>
  commands.
\<close>

fun finish ::
  "nat \<Rightarrow> 's redis \<Rightarrow> iso_format \<Rightarrow> job_queue \<Rightarrow> (py_exn \<Rightarrow> string) \<Rightarrow> int \<Rightarrow> activity \<Rightarrow> 's \<Rightarrow>
   's \<times> activity option" where
  "finish 0 R F Q et now a s = (s, Some a)"
| "finish (Suc n) R F Q et now a s =
     (case advance R F Q et now a s of
        (s1, None) \<Rightarrow> (s1, None)
      | (s1, Some b) \<Rightarrow> finish n R F Q et now b s1)"

lemma operations_by_commands:
  "finish 2 R F Q et now (Submitting (new_job Q uuid now tsk (case pl of Some d \<Rightarrow> d | None \<Rightarrow> []) prio mr)) s =
     (fst (submit R F Q uuid now tsk pl prio mr s), None)"
  "finish 3 R F Q et now Claiming s =
     (fst (claim_next R F Q now s),
      case snd (claim_next R F Q now s) of Inr (Claimed j) \<Rightarrow> Some (Working j) | _ \<Rightarrow> None)"
  "finish 7 R F Q et now (report hs j) s = (fst (process_job R F Q et hs now j s), None)"
  "finish 4 R F Q et now (Cancelling i) s = (fst (cancel_job R F Q now i s), None)"
proof -
  have fail: "finish (Suc (Suc (Suc (Suc n)))) R F Q et now (Failing i err retry) s =
      (fst (fail_job R F Q now i err retry s), None)" for n i err retry s
    by (simp add: fail_job_def Let_def split: sum.split option.split)
  have complete: "finish 7 R F Q et now (Completing i res) s =
      (case complete_job R F Q now i res s of
         (s1, Inl e) \<Rightarrow> (fst (fail_job R F Q now i (et e) True s1), None)
       | (s1, Inr _) \<Rightarrow> (s1, None))" for i res s
  proof (cases "get_job R F i s")
    case (Inl e)
    then show ?thesis using fail [of 2 i "et e" True s] by (simp add: complete_job_def numeral_eq_Suc)
  next
    case (Inr b)
    then show ?thesis by (cases b) (simp_all add: complete_job_def Let_def numeral_eq_Suc)
  qed
  show "finish 7 R F Q et now (report hs j) s = (fst (process_job R F Q et hs now j s), None)"
    using fail [of 3] complete
    by (auto simp: report_def process_job_def numeral_eq_Suc simp del: finish.simps
        split: option.split sum.split prod.split)
qed (simp_all add: submit_def claim_next_def cancel_job_def Let_def numeral_eq_Suc
    split: option.split sum.split prod.split)

text \<open>
  A system is Redis with the activities under way. What happened is recorded: the ids given out, the
  retry limit each job was submitted with, how often each was handed to a handler, and the ids
  somebody has asked to cancel. A job can be cancelled at any time, an activity can end anywhere (a
  worker crashes, or a command fails and its exception ends the operation), a failed command of
  \<open>complete_job\<close> makes the worker report a failure, and a stored job can expire.
\<close>

record 's job_system =
  server :: 's
  acts :: "activity list"
  used :: "string set"
  retry_limit :: "string \<Rightarrow> int"
  start_count :: "string \<Rightarrow> nat"
  cancels :: "string set"

text \<open>The ids an activity has in its hands: those a client is submitting or a worker has claimed.\<close>

fun owned :: "activity \<Rightarrow> string list" where
  "owned (Submitting j) = [j_id j]"
| "owned (Queueing i) = [i]"
| "owned Claiming = []"
| "owned (Reading i) = [i]"
| "owned (Dropping i) = [i]"
| "owned (Starting j) = [j_id j]"
| "owned (Working j) = [j_id j]"
| "owned (Completing i res) = [i]"
| "owned (Storing i j) = [i]"
| "owned (Removing i) = [i]"
| "owned (Failing i err retry) = [i]"
| "owned (Unlisting i j retry) = [i]"
| "owned (Requeueing i j) = [i]"
| "owned (Pushing i) = [i]"
| "owned (Burying i j) = [i]"
| "owned (Entombing i) = [i]"
| "owned (Cancelling i) = []"
| "owned (Unqueueing i j) = []"
| "owned (Unclaiming i j) = []"
| "owned (Revoking j) = []"

definition held :: "'s job_system \<Rightarrow> string list" where
  "held s = concat (map owned (acts s))"

fun note_start :: "activity \<Rightarrow> (string \<Rightarrow> nat) \<Rightarrow> string \<Rightarrow> nat" where
  "note_start (Starting j) f = f(j_id j := Suc (f (j_id j)))"
| "note_start _ f = f"

fun completing :: "activity \<Rightarrow> bool" where
  "completing (Completing i res) = True"
| "completing (Storing i j) = True"
| "completing (Removing i) = True"
| "completing _ = False"

definition remaining :: "activity option \<Rightarrow> activity list" where
  "remaining b = (case b of None \<Rightarrow> [] | Some a \<Rightarrow> [a])"

inductive job_step :: "'s redis \<Rightarrow> iso_format \<Rightarrow> job_queue \<Rightarrow> 's job_system \<Rightarrow> 's job_system \<Rightarrow> bool"
  for R F Q where
  step_submit: "uuid \<notin> used s \<Longrightarrow> j = new_job Q uuid now tsk pl prio mr \<Longrightarrow>
    job_step R F Q s (s\<lparr>acts := Submitting j # acts s, used := insert uuid (used s),
                        retry_limit := (retry_limit s)(uuid := max_retries j)\<rparr>)"
| step_claim: "job_step R F Q s (s\<lparr>acts := Claiming # acts s\<rparr>)"
| step_cancel: "job_step R F Q s (s\<lparr>acts := Cancelling i # acts s, cancels := insert i (cancels s)\<rparr>)"
| step_command: "acts s = xs @ a # ys \<Longrightarrow> advance R F Q et now a (server s) = (s1, b) \<Longrightarrow>
    job_step R F Q s (s\<lparr>server := s1, acts := xs @ remaining b @ ys, start_count := note_start a (start_count s)\<rparr>)"
| step_report: "acts s = xs @ Working j # ys \<Longrightarrow>
    job_step R F Q s (s\<lparr>acts := xs @ report hs j # ys\<rparr>)"
| step_complete_error: "acts s = xs @ a # ys \<Longrightarrow> completing a \<Longrightarrow> owned a = [i] \<Longrightarrow>
    job_step R F Q s (s\<lparr>acts := xs @ Failing i err True # ys\<rparr>)"
| step_crash: "acts s = xs @ a # ys \<Longrightarrow> job_step R F Q s (s\<lparr>acts := xs @ ys\<rparr>)"
| step_expire: "(\<forall>q \<in> queue_keys. r_all R q s1 = r_all R q (server s)) \<Longrightarrow>
    (\<forall>k. k \<notin> queue_keys \<longrightarrow> r_get R k s1 = None \<or> r_get R k s1 = r_get R k (server s)) \<Longrightarrow>
    job_step R F Q s (s\<lparr>server := s1\<rparr>)"

definition empty_system :: "'s redis \<Rightarrow> 's job_system \<Rightarrow> bool" where
  "empty_system R s =
     ((\<forall>q \<in> queue_keys. r_all R q (server s) = []) \<and> (\<forall>i. r_get R (job_key i) (server s) = None) \<and>
      acts s = [] \<and> used s = {} \<and> start_count s = (\<lambda>_. 0) \<and> cancels s = {})"

subsection \<open>Every id in one place\<close>

text \<open>
  The places an id can be in: the pending jobs, the dead letters, the hands of an activity. A command
  moves ids between them and never makes a second one.
\<close>

definition places :: "'s redis \<Rightarrow> 's \<Rightarrow> activity list \<Rightarrow> string list" where
  "places R s as = r_all R QUEUE_PENDING s @ r_all R QUEUE_DLQ s @ concat (map owned as)"

definition stored_ok :: "'s redis \<Rightarrow> iso_format \<Rightarrow> string set \<Rightarrow> 's \<Rightarrow> bool" where
  "stored_ok R F us s =
     (\<forall>i. get_job R F i s = Inr None \<or> (\<exists>j. get_job R F i s = Inr (Some j) \<and> j_id j = i \<and> i \<in> us))"

text \<open>The job an activity carries has the id it works on; a cancellation works on an id asked for.\<close>

fun act_wf :: "string set \<Rightarrow> string set \<Rightarrow> activity \<Rightarrow> bool" where
  "act_wf us cs (Storing i j) = (j_id j = i)"
| "act_wf us cs (Unlisting i j retry) = (j_id j = i)"
| "act_wf us cs (Requeueing i j) = (j_id j = i)"
| "act_wf us cs (Burying i j) = (j_id j = i)"
| "act_wf us cs (Cancelling i) = (i \<in> cs)"
| "act_wf us cs (Unqueueing i j) = (j_id j = i \<and> i \<in> cs \<and> i \<in> us)"
| "act_wf us cs (Unclaiming i j) = (j_id j = i \<and> i \<in> cs \<and> i \<in> us)"
| "act_wf us cs (Revoking j) = (j_id j \<in> cs \<and> j_id j \<in> us)"
| "act_wf us cs a = True"

definition job_inv :: "'s redis \<Rightarrow> iso_format \<Rightarrow> 's job_system \<Rightarrow> bool" where
  "job_inv R F s =
     (distinct (places R (server s) (acts s)) \<and> set (places R (server s) (acts s)) \<subseteq> used s \<and>
      stored_ok R F (used s) (server s) \<and> (\<forall>a \<in> set (acts s). act_wf (used s) (cancels s) a))"

lemma stored_okE:
  assumes "stored_ok R F us s"
  obtains "get_job R F i s = Inr None" | j where "get_job R F i s = Inr (Some j)" "j_id j = i" "i \<in> us"
  using assms unfolding stored_ok_def by blast

lemma updates_id [simp]:
  "j_id (claimed now j) = j_id j" "j_id (completed now res j) = j_id j" "j_id (failed err j) = j_id j"
  "j_id (requeued j) = j_id j" "j_id (buried now j) = j_id j" "j_id (cancelled now j) = j_id j"
  by (simp_all add: claimed_def completed_def failed_def requeued_def buried_def cancelled_def)

lemma distinct_mset_le:
  assumes "distinct ys" and "mset xs \<subseteq># mset ys"
  shows "distinct xs" and "set xs \<subseteq> set ys"
proof -
  show "set xs \<subseteq> set ys" using assms(2) set_mset_mono by fastforce
  show "distinct xs"
    using assms mset_subset_eq_count [OF assms(2)] unfolding distinct_count_atmost_1
    by (metis count_mset_0_iff le_zero_eq le_antisym less_one not_le)
qed

lemma advance_places:
  assumes env: "env_ok R F" and "stored_ok R F us s"
    and adv: "advance R F Q et now a s = (s1, b)"
  shows "mset (places R s1 (xs @ remaining b @ ys)) \<subseteq># mset (places R s (xs @ a # ys))"
proof -
  have ok: "redis_ok R queue_keys" using env by (simp add: env_ok_def)
  have got: "j_id j = i" if "get_job R F i s = Inr (Some j)" for i j
    using assms(2) that unfolding stored_ok_def by (metis Inr_inject option.distinct(1) option.inject)
  have eq: "mset (places R t (xs @ as @ ys)) = mset (r_all R QUEUE_PENDING t) + mset (r_all R QUEUE_DLQ t) +
      mset (concat (map owned as)) + mset (concat (map owned xs)) + mset (concat (map owned ys))" for t as
    by (simp add: places_def)
  have "mset (r_all R QUEUE_PENDING s1) + mset (r_all R QUEUE_DLQ s1) + mset (concat (map owned (remaining b))) \<subseteq>#
      mset (r_all R QUEUE_PENDING s) + mset (r_all R QUEUE_DLQ s) + mset (owned a)"
  proof (cases a)
    case Claiming
    show ?thesis
    proof (cases "snd (r_brpoplpush R QUEUE_PENDING QUEUE_PROCESSING s)")
      case None
      then obtain s2 where mv: "r_brpoplpush R QUEUE_PENDING QUEUE_PROCESSING s = (s2, None)"
        by (metis prod.collapse)
      with ok have "s2 = s"
        using redis_move_None [of R queue_keys QUEUE_PENDING QUEUE_PROCESSING s s2] by simp
      with adv mv Claiming show ?thesis by (simp add: remaining_def)
    next
      case (Some i)
      then obtain s2 where mv: "r_brpoplpush R QUEUE_PENDING QUEUE_PROCESSING s = (s2, Some i)"
        by (metis prod.collapse)
      note moved = redis_move [OF ok _ _ _ mv, simplified]
      then have "r_all R QUEUE_PENDING s = r_all R QUEUE_PENDING s2 @ [i]"
        "r_all R QUEUE_DLQ s2 = r_all R QUEUE_DLQ s" by simp_all
      with adv mv Claiming show ?thesis by (auto simp: remaining_def)
    qed
  qed (use adv got in \<open>auto simp: remaining_def job_frame [OF env] diff_subset_eq_self
        split: sum.splits option.splits if_splits\<close>)
  then show ?thesis using eq [of s1 "remaining b"] eq [of s "[a]"] by simp
qed

lemma stored_ok_change:
  assumes "stored_ok R F us s" and "us \<subseteq> us'"
    and "\<And>i'. get_job R F i' s1 = get_job R F i' s \<or> get_job R F i' s1 = Inr None \<or>
      (\<exists>j. get_job R F i' s1 = Inr (Some j) \<and> j_id j = i' \<and> i' \<in> us')"
  shows "stored_ok R F us' s1"
  unfolding stored_ok_def
proof
  fix i'
  show "get_job R F i' s1 = Inr None \<or>
    (\<exists>j. get_job R F i' s1 = Inr (Some j) \<and> j_id j = i' \<and> i' \<in> us')"
    using assms(3) [of i'] assms(1,2) unfolding stored_ok_def by (metis subsetD)
qed

text \<open>The job a command writes, if it writes one.\<close>

fun writes :: "activity \<Rightarrow> job option" where
  "writes (Submitting j) = Some j"
| "writes (Starting j) = Some j"
| "writes (Storing i j) = Some j"
| "writes (Requeueing i j) = Some j"
| "writes (Burying i j) = Some j"
| "writes (Revoking j) = Some j"
| "writes _ = None"

lemma advance_get:
  assumes env: "env_ok R F" and adv: "advance R F Q et now a s = (s1, b)"
  shows "get_job R F i s1 =
    (case writes a of
       Some j \<Rightarrow> if i = j_id j then Inr (Some j) else get_job R F i s
     | None \<Rightarrow> get_job R F i s)"
proof (cases a)
  case Claiming
  then have "s1 = fst (r_brpoplpush R QUEUE_PENDING QUEUE_PROCESSING s)"
    using adv by (auto split: prod.splits option.splits)
  then show ?thesis using Claiming by (simp add: job_frame [OF env])
qed (use adv in \<open>auto simp: job_frame [OF env]\<close>)

lemma writes_used:
  assumes "act_wf us cs a" and "set (owned a) \<subseteq> us" and "writes a = Some j"
  shows "j_id j \<in> us"
  using assms by (cases a) auto

lemma advance_wf:
  assumes "stored_ok R F us s" and "act_wf us cs a" and "advance R F Q et now a s = (s1, Some b)"
  shows "act_wf us cs b"
proof -
  have got: "j_id j = i \<and> i \<in> us" if "get_job R F i s = Inr (Some j)" for i j
    using assms(1) that unfolding stored_ok_def by (metis Inr_inject option.distinct(1) option.inject)
  show ?thesis
    using assms(2,3) got by (cases a) (auto split: prod.splits option.splits sum.splits if_splits)
qed

lemma act_wf_mono: "act_wf us cs a \<Longrightarrow> us \<subseteq> us' \<Longrightarrow> cs \<subseteq> cs' \<Longrightarrow> act_wf us' cs' a"
  by (cases a) auto

text \<open>Replacing an activity by one with no more in its hands.\<close>

lemma places_replace:
  "mset (concat (map owned bs)) \<subseteq># mset (owned a) \<Longrightarrow>
   mset (places R s (xs @ bs @ ys)) \<subseteq># mset (places R s (xs @ a # ys))"
  by (simp add: places_def)

lemma job_inv_replace:
  assumes "job_inv R F s" and "acts s = xs @ a # ys"
    and "mset (concat (map owned bs)) \<subseteq># mset (owned a)"
    and "\<forall>b \<in> set bs. act_wf (used s) (cancels s) b"
  shows "job_inv R F (s\<lparr>acts := xs @ bs @ ys\<rparr>)"
  using assms distinct_mset_le [OF _ places_replace [OF assms(3)], of R "server s" xs ys]
  by (auto simp: job_inv_def)

lemma report_owned: "owned (report hs j) = [j_id j]" "act_wf us cs (report hs j)"
  by (auto simp: report_def split: option.split sum.split)

lemma job_step_inv:
  assumes "job_step R F Q s s'" and env: "env_ok R F" and inv: "job_inv R F s"
  shows "job_inv R F s'"
  using assms(1)
proof (cases rule: job_step.cases)
  case (step_submit uuid j now tsk pl prio mr)
  have "j_id j = uuid" using step_submit(3) by (simp add: new_job_def)
  moreover have "stored_ok R F (insert uuid (used s)) (server s)"
    by (rule stored_ok_change [of R F "used s" "server s"]) (use inv in \<open>auto simp: job_inv_def\<close>)
  moreover have "\<forall>a \<in> set (acts s). act_wf (insert uuid (used s)) (cancels s) a"
    using inv act_wf_mono [of "used s" "cancels s" _ "insert uuid (used s)"] by (auto simp: job_inv_def)
  ultimately show ?thesis
    using inv step_submit(2) unfolding step_submit(1) by (auto simp: job_inv_def places_def)
next
  case step_claim
  then show ?thesis using inv by (simp add: job_inv_def places_def)
next
  case (step_cancel i)
  have "\<forall>a \<in> set (acts s). act_wf (used s) (insert i (cancels s)) a"
    using inv act_wf_mono [of "used s" "cancels s" _ "used s" "insert i (cancels s)"] by (auto simp: job_inv_def)
  then show ?thesis using inv unfolding step_cancel by (simp add: job_inv_def places_def)
next
  case (step_command xs a ys et now s1 b)
  have st: "stored_ok R F (used s) (server s)" and wf: "act_wf (used s) (cancels s) a"
    and own: "set (owned a) \<subseteq> used s"
    using inv step_command(2) by (auto simp: job_inv_def places_def)
  note pl = advance_places [OF env st step_command(3), of xs ys]
  have "stored_ok R F (used s) s1"
  proof (rule stored_ok_change [OF st])
    show "get_job R F i' s1 = get_job R F i' (server s) \<or> get_job R F i' s1 = Inr None \<or>
        (\<exists>j. get_job R F i' s1 = Inr (Some j) \<and> j_id j = i' \<and> i' \<in> used s)" for i'
      using advance_get [OF env step_command(3), of i'] writes_used [OF wf own]
      by (cases "writes a") auto
  qed simp
  moreover have "\<forall>c \<in> set (remaining b). act_wf (used s) (cancels s) c"
    using advance_wf [OF st wf, of Q et now s1] step_command(3) by (auto simp: remaining_def split: option.splits)
  ultimately show ?thesis
    using inv distinct_mset_le [OF _ pl] step_command(2) unfolding step_command(1)
    by (auto simp: job_inv_def)
next
  case (step_report xs j ys hs)
  with job_inv_replace [OF inv step_report(2), of "[report hs j]"] show ?thesis
    by (simp add: report_owned)
next
  case (step_complete_error xs a ys i err)
  with job_inv_replace [OF inv step_complete_error(2), of "[Failing i err True]"] show ?thesis by simp
next
  case (step_crash xs a ys)
  with job_inv_replace [OF inv step_crash(2), of "[]"] show ?thesis by simp
next
  case (step_expire s1)
  have "stored_ok R F (used s) s1"
  proof (rule stored_ok_change)
    show "stored_ok R F (used s) (server s)" using inv by (simp add: job_inv_def)
    show "get_job R F i s1 = get_job R F i (server s) \<or> get_job R F i s1 = Inr None \<or>
        (\<exists>j. get_job R F i s1 = Inr (Some j) \<and> j_id j = i \<and> i \<in> used s)" for i
      using step_expire(3) [rule_format, of "job_key i"] by (auto simp: get_job_def)
  qed simp
  with inv step_expire(1,2) show ?thesis by (simp add: job_inv_def places_def)
qed

lemma empty_inv: "empty_system R s \<Longrightarrow> job_inv R F s"
  by (simp add: empty_system_def job_inv_def stored_ok_def get_job_def places_def)

interpretation job_run: inductive_invariant "empty_system R" "job_step R F Q" "\<lambda>s. env_ok R F \<longrightarrow> job_inv R F s"
  for R F Q
  by unfold_locales (use empty_inv job_step_inv in blast)+

text \<open>
  C36. A claimed job is processed by one worker only: however the commands of clients and workers
  interleave, with jobs cancelled, expired, commands failed and workers crashed, an id is at most once
  among the pending jobs, the dead letters and the jobs in the hands of workers (or of the client that
  is submitting it).
\<close>

theorem claims_exclusive:
  assumes "env_ok R F" and "empty_system R s0" and "(job_step R F Q)\<^sup>*\<^sup>* s0 s"
  shows "distinct (r_all R QUEUE_PENDING (server s) @ r_all R QUEUE_DLQ (server s) @ held s)"
  using job_run.reachable_inv [OF assms(2,3)] assms(1) by (simp add: job_inv_def places_def held_def)

subsection \<open>Runs\<close>

text \<open>
  Runs of a system, for examples: the client submits, a worker claims, somebody asks to cancel, the
  first activity of the list (or the \<open>n\<close>-th) makes its next command or reports.
\<close>

definition run_submit :: "string \<Rightarrow> int option \<Rightarrow> memory job_system \<Rightarrow> memory job_system" where
  "run_submit uuid mr s =
     (if uuid \<in> used s then s
      else (let j = new_job default_queue uuid 1 ''export'' [] 0 mr in
        s\<lparr>acts := Submitting j # acts s, used := insert uuid (used s),
          retry_limit := (retry_limit s)(uuid := max_retries j)\<rparr>))"

definition run_claim :: "memory job_system \<Rightarrow> memory job_system" where
  "run_claim s = s\<lparr>acts := Claiming # acts s\<rparr>"

definition run_cancel :: "string \<Rightarrow> memory job_system \<Rightarrow> memory job_system" where
  "run_cancel i s = s\<lparr>acts := Cancelling i # acts s, cancels := insert i (cancels s)\<rparr>"

definition run_command :: "nat \<Rightarrow> memory job_system \<Rightarrow> memory job_system" where
  "run_command n s =
     (case drop n (acts s) of
        [] \<Rightarrow> s
      | a # ys \<Rightarrow>
          (let (s1, b) = advance mem_redis int_iso default_queue (\<lambda>_. []) 2 a (server s)
           in s\<lparr>server := s1, acts := take n (acts s) @ remaining b @ ys, start_count := note_start a (start_count s)\<rparr>))"

definition run_failure :: "nat \<Rightarrow> memory job_system \<Rightarrow> memory job_system" where
  "run_failure n s =
     (case drop n (acts s) of
        Working j # ys \<Rightarrow> s\<lparr>acts := take n (acts s) @ report (\<lambda>_. Some (\<lambda>_. Inl ''e'')) j # ys\<rparr>
      | _ \<Rightarrow> s)"

definition mem_reach :: "memory job_system \<Rightarrow> memory job_system \<Rightarrow> bool" where
  "mem_reach s s' = (job_step mem_redis int_iso default_queue)\<^sup>*\<^sup>* s s'"

lemma run_reach:
  "mem_reach s t \<Longrightarrow> mem_reach s (run_submit uuid mr t)"
  "mem_reach s t \<Longrightarrow> mem_reach s (run_claim t)"
  "mem_reach s t \<Longrightarrow> mem_reach s (run_cancel i t)"
  "mem_reach s t \<Longrightarrow> mem_reach s (run_command n t)"
  "mem_reach s t \<Longrightarrow> mem_reach s (run_failure n t)"
  "mem_reach s s"
proof -
  have add: "mem_reach s t'" if "mem_reach s t" "t' = t \<or> job_step mem_redis int_iso default_queue t t'" for t'
    using that unfolding mem_reach_def by (auto intro: rtranclp.rtrancl_into_rtrancl)
  have split: "acts t = take n (acts t) @ a # ys" if "drop n (acts t) = a # ys" for a ys
    using append_take_drop_id [of n "acts t"] that by simp
  have command: "run_command n t = t \<or> job_step mem_redis int_iso default_queue t (run_command n t)"
  proof (cases "drop n (acts t)")
    case (Cons a ys)
    obtain s1 b where "advance mem_redis int_iso default_queue (\<lambda>_. []) 2 a (server t) = (s1, b)"
      by fastforce
    with step_command [OF split [OF Cons] this] Cons show ?thesis by (simp add: run_command_def)
  qed (simp add: run_command_def)
  have failure: "run_failure n t = t \<or> job_step mem_redis int_iso default_queue t (run_failure n t)"
  proof (cases "drop n (acts t)")
    case (Cons a ys)
    then show ?thesis
      using step_report [OF split, of _ ys mem_redis int_iso default_queue "\<lambda>_. Some (\<lambda>_. Inl ''e'')"]
      by (cases a) (auto simp: run_failure_def)
  qed (simp add: run_failure_def)
  have submit: "run_submit uuid mr t = t \<or> job_step mem_redis int_iso default_queue t (run_submit uuid mr t)"
    using step_submit [of uuid t _ default_queue 1 "''export''" "[]" 0 mr mem_redis int_iso]
    by (simp add: run_submit_def Let_def)
  assume "mem_reach s t"
  then show "mem_reach s (run_submit uuid mr t)" "mem_reach s (run_claim t)" "mem_reach s (run_cancel i t)"
    "mem_reach s (run_command n t)" "mem_reach s (run_failure n t)"
    using command failure submit by (auto intro!: add simp: run_claim_def run_cancel_def intro: step_claim step_cancel)
qed (simp add: mem_reach_def)

definition mem_system :: "memory job_system" where
  "mem_system = \<lparr>server = (Map.empty, \<lambda>_. []), acts = [], used = {}, retry_limit = (\<lambda>_. 0),
     start_count = (\<lambda>_. 0), cancels = {}\<rparr>"

lemma mem_system_empty: "empty_system mem_redis mem_system"
  by (simp add: empty_system_def mem_system_def mem_redis_def r_all_def mem_lrange_def)

text \<open>A run: one job is submitted and claimed.\<close>

definition mem_after :: "memory job_system" where
  "mem_after =
     (run_command 0 \<circ> run_command 0 \<circ> run_command 0 \<circ> run_claim \<circ> run_command 0 \<circ> run_command 0 \<circ>
        run_submit ''a'' None) mem_system"

lemma mem_run: "(job_step mem_redis int_iso default_queue)\<^sup>*\<^sup>* mem_system mem_after"
  unfolding mem_reach_def [symmetric] mem_after_def comp_def by (intro run_reach)

lemmas run_defs = run_submit_def run_claim_def run_cancel_def run_command_def run_failure_def comp_def
  remaining_def new_job_def save_job_def get_job_def claimed_def failed_def may_retry_def requeued_def
  cancelled_def cancellable_def report_def mem_redis_def mem_system_def default_queue_def
  from_to_dict [OF int_iso_ok] Let_def

lemma mem_after_acts:
  "acts mem_after = [Working \<lparr>j_id = ''a'', task = ''export'', payload = [], j_status = RUNNING,
     j_created_at = 1, started_at = Some 2, completed_at = None, j_result = None, j_error = None,
     j_attempts = 1, max_retries = 3, priority = 0\<rparr>]"
  by (simp add: mem_after_def run_defs)

theorem claims_exclusive_witness:
  "distinct (r_all mem_redis QUEUE_PENDING (server mem_after) @ r_all mem_redis QUEUE_DLQ (server mem_after) @
     held mem_after) \<and> held mem_after = [''a'']"
  using claims_exclusive [OF mem_env_ok mem_system_empty mem_run] by (simp add: held_def mem_after_acts)

subsection \<open>Every start is counted\<close>

text \<open>Whether a job may be started once more, and whether its counter counts its starts (less \<open>k\<close>).\<close>

definition ready :: "(string \<Rightarrow> nat) \<Rightarrow> (string \<Rightarrow> int) \<Rightarrow> string \<Rightarrow> bool" where
  "ready st lim i = (st i = 0 \<or> int (st i) < lim i)"

definition tallied :: "(string \<Rightarrow> nat) \<Rightarrow> (string \<Rightarrow> int) \<Rightarrow> nat \<Rightarrow> job \<Rightarrow> bool" where
  "tallied st lim k j = (j_attempts j = int (st (j_id j) + k) \<and> max_retries j = lim (j_id j))"

fun act_tallied :: "(string \<Rightarrow> nat) \<Rightarrow> (string \<Rightarrow> int) \<Rightarrow> activity \<Rightarrow> bool" where
  "act_tallied st lim (Submitting j) = (tallied st lim 0 j \<and> st (j_id j) = 0)"
| "act_tallied st lim (Queueing i) = (st i = 0)"
| "act_tallied st lim (Reading i) = ready st lim i"
| "act_tallied st lim (Starting j) = (tallied st lim 1 j \<and> ready st lim (j_id j))"
| "act_tallied st lim (Storing i j) = tallied st lim 0 j"
| "act_tallied st lim (Unlisting i j retry) = tallied st lim 0 j"
| "act_tallied st lim (Requeueing i j) = (tallied st lim 0 j \<and> ready st lim i)"
| "act_tallied st lim (Pushing i) = ready st lim i"
| "act_tallied st lim (Burying i j) = tallied st lim 0 j"
| "act_tallied st lim a = True"

definition id_tallied :: "'s redis \<Rightarrow> iso_format \<Rightarrow> 's job_system \<Rightarrow> string \<Rightarrow> bool" where
  "id_tallied R F s i =
     (int (start_count s i) \<le> max 1 (retry_limit s i) \<and> (i \<notin> used s \<longrightarrow> start_count s i = 0) \<and>
      (\<forall>j. get_job R F i (server s) = Inr (Some j) \<longrightarrow> tallied (start_count s) (retry_limit s) 0 j) \<and>
      (i \<in> set (r_all R QUEUE_PENDING (server s)) \<longrightarrow> ready (start_count s) (retry_limit s) i))"

definition count_inv :: "'s redis \<Rightarrow> iso_format \<Rightarrow> 's job_system \<Rightarrow> bool" where
  "count_inv R F s =
     ((\<forall>i. i \<notin> cancels s \<longrightarrow> id_tallied R F s i) \<and>
      (\<forall>a \<in> set (acts s). set (owned a) \<inter> cancels s = {} \<longrightarrow> act_tallied (start_count s) (retry_limit s) a))"

lemma tallied_updates [simp]:
  "tallied st lim (Suc 0) (claimed now j) = tallied st lim 0 j"
  "tallied st lim 0 (completed now res j) = tallied st lim 0 j"
  "tallied st lim 0 (failed err j) = tallied st lim 0 j"
  "tallied st lim 0 (requeued j) = tallied st lim 0 j"
  "tallied st lim 0 (buried now j) = tallied st lim 0 j"
  by (auto simp: tallied_def claimed_def completed_def failed_def requeued_def buried_def)

lemma tallied_ready: "tallied st lim 0 j \<Longrightarrow> may_retry retry j \<Longrightarrow> ready st lim (j_id j)"
  by (auto simp: tallied_def may_retry_def ready_def)

lemma tallied_start: "tallied st lim (Suc 0) j \<Longrightarrow> tallied (st(j_id j := Suc (st (j_id j)))) lim 0 j"
  by (simp add: tallied_def)

lemma note_start_eq:
  "note_start a f i = (if \<exists>j. a = Starting j \<and> j_id j = i then Suc (f i) else f i)"
  by (cases a) auto

lemma act_tallied_cong:
  assumes "act_wf us cs a" and "\<And>i. i \<in> set (owned a) \<Longrightarrow> st i = st' i \<and> lim i = lim' i"
  shows "act_tallied st lim a = act_tallied st' lim' a"
  using assms by (cases a) (auto simp: tallied_def ready_def)

lemma advance_pending:
  assumes env: "env_ok R F" and adv: "advance R F Q et now a s = (s1, b)"
    and i: "i \<in> set (r_all R QUEUE_PENDING s1)" and a: "a \<noteq> Queueing i" "a \<noteq> Pushing i"
  shows "i \<in> set (r_all R QUEUE_PENDING s)"
proof (cases a)
  case Claiming
  have ok: "redis_ok R queue_keys" using env by (simp add: env_ok_def)
  show ?thesis
  proof (cases "snd (r_brpoplpush R QUEUE_PENDING QUEUE_PROCESSING s)")
    case None
    then obtain s2 where mv: "r_brpoplpush R QUEUE_PENDING QUEUE_PROCESSING s = (s2, None)"
      by (metis prod.collapse)
    with ok have "s2 = s" using redis_move_None [of R queue_keys QUEUE_PENDING QUEUE_PROCESSING s s2] by simp
    with adv mv Claiming i show ?thesis by simp
  next
    case (Some k)
    then obtain s2 where mv: "r_brpoplpush R QUEUE_PENDING QUEUE_PROCESSING s = (s2, Some k)"
      by (metis prod.collapse)
    from redis_move [OF ok _ _ _ mv, simplified] adv mv Claiming i show ?thesis
      by (auto dest: in_set_butlastD)
  qed
qed (use adv i a in \<open>auto simp: job_frame [OF env] dest: notin_set_remove1 set_remove1_subset [THEN subsetD]\<close>)

text \<open>What the next activity may rely on.\<close>

lemma advance_tallied:
  assumes env: "env_ok R F" and job: "job_inv R F s" and cnt: "count_inv R F s"
    and a: "acts s = xs @ a # ys" and adv: "advance R F Q et now a (server s) = (s1, Some b)"
    and b: "set (owned b) \<inter> cancels s = {}"
  shows "act_tallied (note_start a (start_count s)) (retry_limit s) b"
proof -
  have stored: "j_id j = i \<and> (i \<notin> cancels s \<longrightarrow> tallied (start_count s) (retry_limit s) 0 j)"
    if "get_job R F i (server s) = Inr (Some j)" for i j
  proof -
    have "stored_ok R F (used s) (server s)" using job by (simp add: job_inv_def)
    then have "j_id j = i"
      by (rule stored_okE [where i = i]) (use that in auto)
    with cnt that show ?thesis by (auto simp: count_inv_def id_tallied_def)
  qed
  have own: "set (owned a) \<inter> cancels s = {} \<Longrightarrow> act_tallied (start_count s) (retry_limit s) a"
    and wf: "act_wf (used s) (cancels s) a"
    using cnt job a by (auto simp: count_inv_def job_inv_def)
  have pend: "ready (start_count s) (retry_limit s) i"
    if "i \<in> set (r_all R QUEUE_PENDING (server s))" "i \<notin> cancels s" for i
    using cnt that by (auto simp: count_inv_def id_tallied_def)
  have fresh: "ready (start_count s) (retry_limit s) i" if "a = Reading i" "i \<notin> cancels s" for i
    using own that by simp
  show ?thesis
  proof (cases a)
    case Claiming
    then obtain i where mv: "r_brpoplpush R QUEUE_PENDING QUEUE_PROCESSING (server s) = (s1, Some i)"
      and bi: "b = Reading i"
      using adv by (auto split: prod.splits option.splits)
    have "i \<in> set (r_all R QUEUE_PENDING (server s))"
      using redis_move [OF _ _ _ _ mv, of queue_keys] env by (auto simp: env_ok_def)
    with pend b bi Claiming show ?thesis by simp
  next
    case (Starting j)
    with adv b own show ?thesis by (auto intro: tallied_start)
  next
    case (Unlisting i j retry)
    with adv b own wf show ?thesis by (auto intro: tallied_ready split: if_splits)
  qed (use adv b own wf stored fresh in \<open>auto split: sum.splits option.splits if_splits\<close>)
qed

lemma count_command:
  assumes env: "env_ok R F" and job: "job_inv R F s" and cnt: "count_inv R F s"
    and a: "acts s = xs @ a # ys" and adv: "advance R F Q et now a (server s) = (s1, b)"
  shows "count_inv R F (s\<lparr>server := s1, acts := xs @ remaining b @ ys, start_count := note_start a (start_count s)\<rparr>)"
proof -
  let ?st = "note_start a (start_count s)"
  have wf: "act_wf (used s) (cancels s) c" if "c \<in> set (acts s)" for c
    using job that by (simp add: job_inv_def)
  have own: "set (owned a) \<inter> cancels s = {} \<Longrightarrow> act_tallied (start_count s) (retry_limit s) a" "set (owned a) \<subseteq> used s"
    using cnt job a by (auto simp: count_inv_def job_inv_def places_def)
  have old: "i \<notin> cancels s \<Longrightarrow> id_tallied R F s i" for i using cnt by (simp add: count_inv_def)
  have alone: "i \<notin> set (r_all R QUEUE_PENDING (server s))" "c \<in> set xs \<union> set ys \<Longrightarrow> i \<notin> set (owned c)"
    if "i \<in> set (owned a)" for i c
    using job that a by (auto simp: job_inv_def places_def)
  have started: "i \<in> set (owned a) \<and> act_tallied (start_count s) (retry_limit s) a \<and> writes a = Some j"
    if "a = Starting j" "j_id j = i" "i \<notin> cancels s" for i j
    using that own(1) by simp
  have ids: "id_tallied R F (s\<lparr>server := s1, acts := xs @ remaining b @ ys, start_count := ?st\<rparr>) i"
    if i: "i \<notin> cancels s" for i
  proof -
    have "int (?st i) \<le> max 1 (retry_limit s i)"
      using old [OF i] started [of _ i] i by (auto simp: note_start_eq id_tallied_def ready_def)
    moreover have "i \<notin> used s \<longrightarrow> ?st i = 0"
      using old [OF i] own(2) by (auto simp: note_start_eq id_tallied_def)
    moreover have "tallied ?st (retry_limit s) 0 k" if k: "get_job R F i s1 = Inr (Some k)" for k
    proof (cases "\<exists>j. writes a = Some j \<and> j_id j = i")
      case True
      then obtain j where j: "writes a = Some j" "j_id j = i" by blast
      with k advance_get [OF env adv, of i] have "k = j" by simp
      moreover have "owned a = [i]"
        using wf [of a] a j i by (cases a) auto
      ultimately show ?thesis using own(1) j i by (cases a) (auto simp: tallied_def)
    next
      case False
      then have "get_job R F i (server s) = Inr (Some k)"
        using k advance_get [OF env adv, of i] by (auto split: option.splits)
      moreover have "?st i = start_count s i" using False by (auto simp: note_start_eq)
      moreover have "j_id k = i"
        using job calculation(1) unfolding job_inv_def stored_ok_def
        by (metis Inr_inject option.distinct(1) option.inject)
      ultimately show ?thesis using old [OF i] by (auto simp: id_tallied_def tallied_def)
    qed
    moreover have "ready ?st (retry_limit s) i" if p: "i \<in> set (r_all R QUEUE_PENDING s1)"
    proof (cases "a = Queueing i \<or> a = Pushing i")
      case True
      then show ?thesis using own(1) i by (auto simp: ready_def)
    next
      case False
      then have "i \<in> set (r_all R QUEUE_PENDING (server s))"
        using advance_pending [OF env adv p] by blast
      moreover from this alone(1) [of i] have "?st i = start_count s i" by (auto simp: note_start_eq)
      ultimately show ?thesis using old [OF i] by (simp add: id_tallied_def ready_def)
    qed
    ultimately show ?thesis by (simp add: id_tallied_def)
  qed
  have "act_tallied ?st (retry_limit s) c" if c: "c \<in> set (xs @ remaining b @ ys)" "set (owned c) \<inter> cancels s = {}" for c
  proof (cases "c \<in> set xs \<union> set ys")
    case True
    have "?st i = start_count s i" if "i \<in> set (owned c)" for i
      using alone(2) [OF _ True, of i] that by (auto simp: note_start_eq)
    with act_tallied_cong [of "used s" "cancels s" c ?st "start_count s" "retry_limit s" "retry_limit s"] wf [of c] True a cnt c(2)
    show ?thesis by (auto simp: count_inv_def)
  next
    case False
    then obtain d where "b = Some d" "c = d" using c(1) by (auto simp: remaining_def split: option.splits)
    with advance_tallied [OF env job cnt a] adv c(2) show ?thesis by blast
  qed
  with ids show ?thesis by (simp add: count_inv_def)
qed

lemma count_replace:
  assumes "count_inv R F s" and "acts s = xs @ a # ys"
    and "\<forall>b \<in> set bs. act_tallied (start_count s) (retry_limit s) b"
  shows "count_inv R F (s\<lparr>acts := xs @ bs @ ys\<rparr>)"
  using assms by (auto simp: count_inv_def id_tallied_def)

lemma count_step:
  assumes "job_step R F Q s s'" and env: "env_ok R F" and job: "job_inv R F s" and cnt: "count_inv R F s"
  shows "count_inv R F s'"
  using assms(1)
proof (cases rule: job_step.cases)
  case (step_submit uuid j now tsk pl prio mr)
  have j: "j_id j = uuid" "j_attempts j = 0" using step_submit(3) by (simp_all add: new_job_def)
  have none: "get_job R F uuid (server s) = Inr None"
    using job step_submit(2) unfolding job_inv_def stored_ok_def by blast
  have out: "uuid \<notin> set (r_all R QUEUE_PENDING (server s))"
    "a \<in> set (acts s) \<Longrightarrow> uuid \<notin> set (owned a)" for a
    using job step_submit(2) by (auto simp: job_inv_def places_def)
  let ?s = "s\<lparr>acts := Submitting j # acts s, used := insert uuid (used s), retry_limit := (retry_limit s)(uuid := max_retries j)\<rparr>"
  have "id_tallied R F ?s i" if "i \<notin> cancels s" for i
  proof (cases "i = uuid")
    case True
    then show ?thesis
      using cnt step_submit(2) that none out(1) by (auto simp: count_inv_def id_tallied_def)
  next
    case False
    have "j_id k = i" if "get_job R F i (server s) = Inr (Some k)" for k
      using job that unfolding job_inv_def stored_ok_def
      by (metis Inr_inject option.distinct(1) option.inject)
    with False cnt that show ?thesis
      by (auto simp: count_inv_def id_tallied_def tallied_def ready_def)
  qed
  moreover have "act_tallied (start_count s) ((retry_limit s)(uuid := max_retries j)) a"
    if a: "a \<in> set (acts s)" "set (owned a) \<inter> cancels s = {}" for a
  proof -
    have "act_tallied (start_count s) ((retry_limit s)(uuid := max_retries j)) a = act_tallied (start_count s) (retry_limit s) a"
      by (rule act_tallied_cong [where us = "used s" and cs = "cancels s"])
        (use a(1) job out(2) [OF a(1)] in \<open>auto simp: job_inv_def\<close>)
    with a cnt show ?thesis by (simp add: count_inv_def)
  qed
  moreover have "uuid \<notin> cancels s \<longrightarrow> start_count s uuid = 0"
    using cnt step_submit(2) by (auto simp: count_inv_def id_tallied_def)
  ultimately show ?thesis
    unfolding step_submit(1) by (auto simp: count_inv_def j tallied_def)
next
  case step_claim
  then show ?thesis using cnt by (auto simp: count_inv_def id_tallied_def)
next
  case (step_cancel i)
  then show ?thesis using cnt by (auto simp: count_inv_def id_tallied_def)
next
  case (step_command xs a ys et now s1 b)
  with count_command [OF env job cnt step_command(2,3)] show ?thesis by simp
next
  case (step_report xs j ys hs)
  have "act_tallied (start_count s) (retry_limit s) (report hs j)"
    by (auto simp: report_def split: option.split sum.split)
  with count_replace [OF cnt step_report(2), of "[report hs j]"] step_report show ?thesis by simp
next
  case (step_complete_error xs a ys i err)
  with count_replace [OF cnt step_complete_error(2), of "[Failing i err True]"] show ?thesis by simp
next
  case (step_crash xs a ys)
  with count_replace [OF cnt step_crash(2), of "[]"] show ?thesis by simp
next
  case (step_expire s1)
  have "get_job R F i s1 = get_job R F i (server s) \<or> get_job R F i s1 = Inr None" for i
    using step_expire(3) [rule_format, of "job_key i"] by (auto simp: get_job_def)
  then have "get_job R F i s1 = Inr (Some j) \<Longrightarrow> get_job R F i (server s) = Inr (Some j)" for i j
    by (metis Inr_inject option.distinct(1))
  with cnt step_expire(1,2) show ?thesis by (auto simp: count_inv_def id_tallied_def)
qed

interpretation count_run: inductive_invariant "empty_system R" "job_step R F Q"
    "\<lambda>s. env_ok R F \<longrightarrow> job_inv R F s \<and> count_inv R F s"
  for R F Q
proof
  show "env_ok R F \<longrightarrow> job_inv R F s \<and> count_inv R F s" if "empty_system R s" for s
    using that empty_inv [OF that] by (auto simp: empty_system_def count_inv_def id_tallied_def get_job_def)
qed (use job_step_inv count_step in blast)

text \<open>
  C37. A job is started at most \<open>max(1, max_retries)\<close> times: in every reachable state, over any
  interleaving of the commands of clients and workers, with crashes and failed commands, a job that
  nobody has asked to cancel has been handed to a handler at most that often, its stored counter (if it
  is still stored) is the number of these starts, and it waits in the queue only if it is new or has been
  started less often than its limit. (A cancellation that overlaps with a claim writes back an old
  counter, see \<open>racing_cancel_adds_a_start\<close>.)
\<close>

theorem attempts_bounded:
  assumes "env_ok R F" and "empty_system R s0" and "(job_step R F Q)\<^sup>*\<^sup>* s0 s" and "i \<notin> cancels s"
  shows "int (start_count s i) \<le> max 1 (retry_limit s i) \<and>
    (\<forall>j. get_job R F i (server s) = Inr (Some j) \<longrightarrow>
       j_id j = i \<and> j_attempts j = int (start_count s i) \<and> max_retries j = retry_limit s i) \<and>
    (i \<in> set (r_all R QUEUE_PENDING (server s)) \<longrightarrow> start_count s i = 0 \<or> int (start_count s i) < retry_limit s i)"
proof -
  have inv: "job_inv R F s" "count_inv R F s"
    using count_run.reachable_inv [OF assms(2,3)] assms(1) by simp_all
  have "j_id j = i" if "get_job R F i (server s) = Inr (Some j)" for j
    using inv(1) that unfolding job_inv_def stored_ok_def
    by (metis Inr_inject option.distinct(1) option.inject)
  with inv(2) assms(4) show ?thesis
    by (auto simp: count_inv_def id_tallied_def tallied_def ready_def)
qed

lemma mem_after_job:
  "get_job mem_redis int_iso ''a'' (server mem_after) =
     Inr (Some \<lparr>j_id = ''a'', task = ''export'', payload = [], j_status = RUNNING, j_created_at = 1,
       started_at = Some 2, completed_at = None, j_result = None, j_error = None, j_attempts = 1,
       max_retries = 3, priority = 0\<rparr>)"
  by (simp add: mem_after_def run_defs)

theorem attempts_bounded_witness:
  "\<exists>j. get_job mem_redis int_iso ''a'' (server mem_after) = Inr (Some j) \<and> j_status j = RUNNING \<and>
       j_attempts j = int (start_count mem_after ''a'') \<and> start_count mem_after ''a'' = 1"
proof -
  have "''a'' \<notin> cancels mem_after" by (simp add: mem_after_def run_defs)
  from attempts_bounded [OF mem_env_ok mem_system_empty mem_run this] mem_after_job show ?thesis by auto
qed

text \<open>
  A job with one retry is started twice: the cancellation reads it while it waits (no attempts yet), a
  worker claims and starts it, the cancellation writes its copy back, and the failure of the worker
  finds attempts left and puts the cancelled job into the queue again.
\<close>

definition racing_start :: "memory job_system" where
  "racing_start =
     (run_command 0 \<circ> run_cancel ''a'' \<circ> run_command 0 \<circ> run_command 0 \<circ> run_submit ''a'' (Some 1)) mem_system"

definition racing_cancelled :: "memory job_system" where
  "racing_cancelled =
     (run_command 1 \<circ> run_command 1 \<circ> run_command 1 \<circ>
      run_command 0 \<circ> run_command 0 \<circ> run_command 0 \<circ> run_claim) racing_start"

definition racing_failed :: "memory job_system" where
  "racing_failed =
     (run_command 0 \<circ> run_command 0 \<circ> run_command 0 \<circ> run_command 0 \<circ> run_failure 0) racing_cancelled"

definition racing :: "memory job_system" where
  "racing = (run_command 0 \<circ> run_command 0 \<circ> run_command 0 \<circ> run_claim) racing_failed"

definition racing_job :: "job_status \<Rightarrow> int option \<Rightarrow> string option \<Rightarrow> job" where
  "racing_job st fin err =
     \<lparr>j_id = ''a'', task = ''export'', payload = [], j_status = st, j_created_at = 1, started_at = None,
      completed_at = fin, j_result = None, j_error = err, j_attempts = 0, max_retries = 1, priority = 0\<rparr>"

definition racing_state ::
  "job \<Rightarrow> string list \<Rightarrow> activity list \<Rightarrow> nat \<Rightarrow> memory job_system" where
  "racing_state j pend as n =
     \<lparr>server = (Map.empty(job_key ''a'' \<mapsto> JDict (to_dict int_iso j)),
                \<lambda>q. if q = QUEUE_PENDING then pend else []),
      acts = as, used = {''a''}, retry_limit = (\<lambda>_. 0)(''a'' := 1), start_count = (\<lambda>_. 0)(''a'' := n),
      cancels = {''a''}\<rparr>"

lemma racing_start_state:
  "racing_start = racing_state (racing_job PENDING None None) [''a'']
     [Unqueueing ''a'' (racing_job PENDING None None)] 0"
  by (simp add: racing_start_def racing_state_def racing_job_def run_defs fun_eq_iff)

lemma racing_cancelled_state:
  "racing_cancelled = racing_state (racing_job CANCELLED (Some 2) None) []
     [Working ((racing_job RUNNING None None)\<lparr>j_attempts := 1, started_at := Some 2\<rparr>)] 1"
  by (simp add: racing_cancelled_def racing_start_state racing_state_def racing_job_def run_defs fun_eq_iff)

lemma racing_failed_state:
  "racing_failed = racing_state (racing_job PENDING (Some 2) (Some ''e'')) [''a''] [] 1"
  by (simp add: racing_failed_def racing_cancelled_state racing_state_def racing_job_def run_defs fun_eq_iff)

lemma racing_cancel_adds_a_start:
  "(job_step mem_redis int_iso default_queue)\<^sup>*\<^sup>* mem_system racing \<and>
   retry_limit racing ''a'' = 1 \<and> start_count racing ''a'' = 2"
proof
  show "(job_step mem_redis int_iso default_queue)\<^sup>*\<^sup>* mem_system racing"
    unfolding mem_reach_def [symmetric] racing_def racing_failed_def racing_cancelled_def racing_start_def comp_def
    by (intro run_reach)
  show "retry_limit racing ''a'' = 1 \<and> start_count racing ''a'' = 2"
    by (simp add: racing_def racing_failed_state racing_state_def racing_job_def run_defs)
qed

section \<open>Order and cancellation\<close>

text \<open>
  The queue is first in, first out, whatever the priorities: with a job waiting, submitting
  another one of any priority does not change which job the next claim takes.
\<close>

lemma priority_ignored:
  assumes "env_ok R F" and "r_all R QUEUE_PENDING s = xs @ [i]"
    and "submit R F Q uuid now tsk pl prio mr s = (s1, uuid')"
  shows "r_all R QUEUE_PENDING s1 = uuid # xs @ [i] \<and>
    snd (r_brpoplpush R QUEUE_PENDING QUEUE_PROCESSING s1) = Some i"
proof -
  have pend: "r_all R QUEUE_PENDING s1 = uuid # xs @ [i]"
    using assms(2,3) by (auto simp: submit_def Let_def new_job_def job_frame [OF assms(1)])
  have "snd (r_brpoplpush R QUEUE_PENDING QUEUE_PROCESSING s1) = Some (last (r_all R QUEUE_PENDING s1))"
    using assms(1) pend by (simp add: env_ok_def redis_ok_def redis_moves_def)
  with pend show ?thesis by simp
qed

text \<open>
  Cancelling a running job does not stop it: \<open>cancel_job\<close> succeeds and takes the job out of the
  queues, but the worker that holds it reports back all the same, and then a failure with attempts
  left puts the cancelled job back into the queue as pending, and a success marks it completed.
\<close>

lemma cancelled_job_revived:
  assumes env: "env_ok R F" and job: "get_job R F i s = Inr (Some j)" and id: "j_id j = i"
    and st: "j_status j = RUNNING" and left: "j_attempts j < max_retries j"
    and cancel: "cancel_job R F Q now i s = (s1, r)"
    and fail: "fail_job R F Q now' i err True s1 = (s2, r2)"
    and comp: "complete_job R F Q now' i res s1 = (s3, r3)"
  shows "r = Inr True \<and>
    get_job R F i s1 = Inr (Some (j\<lparr>j_status := CANCELLED, completed_at := Some now\<rparr>)) \<and>
    (\<exists>j2. get_job R F i s2 = Inr (Some j2) \<and> j_status j2 = PENDING) \<and>
    i \<in> set (r_all R QUEUE_PENDING s2) \<and>
    (\<exists>j3. get_job R F i s3 = Inr (Some j3) \<and> j_status j3 = COMPLETED)"
proof -
  let ?c = "j\<lparr>j_status := CANCELLED, completed_at := Some now\<rparr>"
  have s1: "s1 = save_job R F ?c (result_ttl Q)
      (r_lrem R QUEUE_PROCESSING i (r_lrem R QUEUE_PENDING i s))" and r: "r = Inr True"
    using cancel job st by (auto simp: cancel_job_def cancellable_def cancelled_def Let_def)
  have got: "get_job R F i s1 = Inr (Some ?c)" using id by (simp add: s1 job_frame [OF env])
  have s2: "s2 = r_lpush R QUEUE_PENDING i (save_job R F (?c\<lparr>j_error := Some err, j_status := PENDING\<rparr>)
      (job_ttl Q) (r_lrem R QUEUE_PROCESSING i s1))"
    using fail got left by (auto simp: fail_job_def failed_def may_retry_def requeued_def Let_def)
  have s3: "s3 = r_lrem R QUEUE_PROCESSING i
      (save_job R F (?c\<lparr>j_status := COMPLETED, completed_at := Some now', j_result := res\<rparr>) (result_ttl Q) s1)"
    using comp got by (auto simp: complete_job_def completed_def Let_def)
  have "get_job R F i s2 = Inr (Some (?c\<lparr>j_error := Some err, j_status := PENDING\<rparr>))"
    using id by (simp add: s2 job_frame [OF env])
  moreover have "i \<in> set (r_all R QUEUE_PENDING s2)" by (simp add: s2 job_frame [OF env])
  moreover have "get_job R F i s3 =
      Inr (Some (?c\<lparr>j_status := COMPLETED, completed_at := Some now', j_result := res\<rparr>))"
    using id by (simp add: s3 job_frame [OF env])
  ultimately show ?thesis using r got by auto
qed

lemma cancelled_job_revived_witness:
  "snd (cancel_job mem_redis int_iso default_queue 3 ''a'' (server mem_after)) = Inr True \<and>
   ''a'' \<in> set (r_all mem_redis QUEUE_PENDING
     (fst (fail_job mem_redis int_iso default_queue 4 ''a'' ''e'' True
       (fst (cancel_job mem_redis int_iso default_queue 3 ''a'' (server mem_after))))))"
proof -
  obtain s1 r where c: "cancel_job mem_redis int_iso default_queue 3 ''a'' (server mem_after) = (s1, r)"
    by fastforce
  obtain s2 r2 where f: "fail_job mem_redis int_iso default_queue 4 ''a'' ''e'' True s1 = (s2, r2)" by fastforce
  obtain s3 r3 where d: "complete_job mem_redis int_iso default_queue 4 ''a'' None s1 = (s3, r3)" by fastforce
  from cancelled_job_revived [OF mem_env_ok mem_after_job _ _ _ c f d] show ?thesis by (simp add: c f)
qed

end
