(* ===== verification/Leader.thy ===== *)
theory Leader
  imports Prelude Redis
begin

text \<open>
  Leader election over a lock in Redis with a lease (\<open>src/titan/distributed/leader.py\<close>). Redis is the
  interface of the theory Redis; instances run concurrently and may interleave wherever one awaits
  Redis.
\<close>

section \<open>One instance\<close>

text \<open>
  Tasks that wait for leadership are numbered; \<open>notified\<close> lists those that have been woken. (Nothing
  ever waits for a demotion.)
\<close>

record election =
  role_name :: string
  instance_id :: string
  lease_ttl :: int
  renewal_interval :: int
  is_leader :: bool
  e_running :: bool
  waiting :: "nat list"
  notified :: "nat list"

definition LOCK_PREFIX :: string where "LOCK_PREFIX = ''titan:leader:''"
definition DEFAULT_LEASE_TTL :: int where "DEFAULT_LEASE_TTL = 30"
definition RENEWAL_INTERVAL :: int where "RENEWAL_INTERVAL = 10"

definition new_election :: "string \<Rightarrow> string \<Rightarrow> int \<Rightarrow> int \<Rightarrow> election" where
  "new_election name iid ttl interval =
     \<lparr>role_name = name, instance_id = iid, lease_ttl = ttl, renewal_interval = interval,
      is_leader = False, e_running = False, waiting = [], notified = []\<rparr>"

definition lock_key :: "election \<Rightarrow> string" where
  "lock_key e = LOCK_PREFIX @ role_name e"

definition acquire_lock :: "'s redis \<Rightarrow> election \<Rightarrow> 's \<Rightarrow> 's \<times> bool" where
  "acquire_lock R e s = r_set_nx R (lock_key e) (JStr (instance_id e)) (lease_ttl e) s"

text \<open>Renewing reads the owner and, if it is this instance, extends the lease with a second command.\<close>

definition renew_check :: "'s redis \<Rightarrow> election \<Rightarrow> 's \<Rightarrow> bool" where
  "renew_check R e s =
     (case r_get R (lock_key e) s of None \<Rightarrow> False | Some v \<Rightarrow> v = JStr (instance_id e))"

definition renew_extend :: "'s redis \<Rightarrow> election \<Rightarrow> 's \<Rightarrow> 's" where
  "renew_extend R e s = r_expire R (lock_key e) (lease_ttl e) s"

definition renew_lock :: "'s redis \<Rightarrow> election \<Rightarrow> 's \<Rightarrow> 's \<times> bool" where
  "renew_lock R e s = (if renew_check R e s then (renew_extend R e s, True) else (s, False))"

text \<open>
  A command can be answered; or be executed, its answer lost in an exception \<open>x\<close>; or fail with \<open>x\<close>
  before it reaches the server.
\<close>

datatype 'x reply = Answered | ReplyLost 'x | NotSent 'x

text \<open>
  The script that deletes the lock of its owner runs in one step on the server; the flag of the
  instance is cleared only when its answer has arrived and says that the lock was deleted.
\<close>

definition release_script :: "'s redis \<Rightarrow> string \<Rightarrow> string \<Rightarrow> 's \<Rightarrow> 's \<times> bool" where
  "release_script R k v s =
     (if r_get R k s = Some (JStr v) then (r_del R k s, True) else (s, False))"

definition release_send :: "'s redis \<Rightarrow> election \<Rightarrow> 's \<Rightarrow> 's \<times> bool" where
  "release_send R e s = release_script R (lock_key e) (instance_id e) s"

definition release_reply :: "bool \<Rightarrow> election \<Rightarrow> election" where
  "release_reply deleted e = (if deleted then e\<lparr>is_leader := False\<rparr> else e)"

definition release_lock :: "'s redis \<Rightarrow> 'x reply \<Rightarrow> election \<Rightarrow> 's \<Rightarrow> 's \<times> election \<times> ('x + bool)" where
  "release_lock R out e s =
     (case out of
        NotSent x \<Rightarrow> (s, e, Inl x)
      | ReplyLost x \<Rightarrow> (fst (release_send R e s), e, Inl x)
      | Answered \<Rightarrow> (let (s1, ok) = release_send R e s in (s1, release_reply ok e, Inr ok)))"

definition handle_election :: "election \<Rightarrow> election" where
  "handle_election e =
     e\<lparr>is_leader := True, notified := notified e @ waiting e, waiting := []\<rparr>"

definition handle_demotion :: "election \<Rightarrow> election" where
  "handle_demotion e = e\<lparr>is_leader := False\<rparr>"

text \<open>One turn of the election loop, without interference.\<close>

definition election_turn :: "'s redis \<Rightarrow> election \<Rightarrow> 's \<Rightarrow> 's \<times> election" where
  "election_turn R e s =
     (if is_leader e
      then (let (s1, ok) = renew_lock R e s in (s1, if ok then e else handle_demotion e))
      else (let (s1, ok) = acquire_lock R e s in (s1, if ok then handle_election e else e)))"

text \<open>An exception inside a turn.\<close>

definition election_error :: "election \<Rightarrow> election" where
  "election_error e = e\<lparr>is_leader := False\<rparr>"

definition start :: "election \<Rightarrow> election" where
  "start e = e\<lparr>e_running := True\<rparr>"

text \<open>
  Stopping first clears \<open>_running\<close> and cancels the loop; then, if the flag is set, it releases the lock.
\<close>

definition stop_begin :: "election \<Rightarrow> election" where
  "stop_begin e = e\<lparr>e_running := False\<rparr>"

definition stop :: "'s redis \<Rightarrow> 'x reply \<Rightarrow> election \<Rightarrow> 's \<Rightarrow> 's \<times> election \<times> ('x + unit)" where
  "stop R out e s =
     (let e1 = stop_begin e in
      if is_leader e1
      then (case release_lock R out e1 s of
              (s1, e2, Inl x) \<Rightarrow> (s1, e2, Inl x)
            | (s1, e2, Inr _) \<Rightarrow> (s1, e2, Inr ()))
      else (s, e1, Inr ()))"

text \<open>\<open>wait_for_leadership\<close> up to its await: at once, or by the task \<open>w\<close> waiting; and its timeout.\<close>

definition wait_for_leadership :: "nat \<Rightarrow> election \<Rightarrow> election \<times> bool" where
  "wait_for_leadership w e =
     (if is_leader e then (e, True) else (e\<lparr>waiting := waiting e @ [w]\<rparr>, False))"

definition wait_timeout :: "nat \<Rightarrow> election \<Rightarrow> election" where
  "wait_timeout w e = e\<lparr>waiting := remove1 w (waiting e)\<rparr>"

definition get_current_leader :: "'s redis \<Rightarrow> election \<Rightarrow> 's \<Rightarrow> json option" where
  "get_current_leader R e s = r_get R (lock_key e) s"

definition aenter :: "'s redis \<Rightarrow> 'x reply \<Rightarrow> election \<Rightarrow> 's \<Rightarrow> 's \<times> election \<times> ('x + unit)" where
  "aenter R out e s =
     (case out of
        NotSent x \<Rightarrow> (s, e, Inl x)
      | ReplyLost x \<Rightarrow> (fst (acquire_lock R e s), e, Inl x)
      | Answered \<Rightarrow> (let (s1, ok) = acquire_lock R e s in (s1, e\<lparr>is_leader := ok\<rparr>, Inr ())))"

definition aexit :: "'s redis \<Rightarrow> 'x reply \<Rightarrow> election \<Rightarrow> 's \<Rightarrow> 's \<times> election \<times> ('x + unit)" where
  "aexit R out e s =
     (if is_leader e
      then (case release_lock R out e s of
              (s1, e2, Inl x) \<Rightarrow> (s1, e2, Inl x)
            | (s1, e2, Inr _) \<Rightarrow> (s1, e2, Inr ()))
      else (s, e, Inr ()))"

text \<open>
  \<open>leader_only\<close>: the function runs between entry and exit if this instance got the lock. \<open>f\<close> is the
  function with everything that happens to Redis meanwhile; its value may be an exception, which does
  not keep the lock from being released. An exception of the exit replaces what the function returned;
  after one of the entry there is no exit.
\<close>

definition leader_only ::
  "'s redis \<Rightarrow> 'x reply \<Rightarrow> 'x reply \<Rightarrow> string \<Rightarrow> string \<Rightarrow> int \<Rightarrow> ('s \<Rightarrow> 's \<times> ('x + 'r)) \<Rightarrow>
   's \<Rightarrow> 's \<times> ('x + 'r option)" where
  "leader_only R out1 out2 name iid ttl f s =
     (case aenter R out1 (new_election name iid ttl RENEWAL_INTERVAL) s of
        (s1, _, Inl x) \<Rightarrow> (s1, Inl x)
      | (s1, e1, Inr _) \<Rightarrow>
          (let (s2, r) = (if is_leader e1
                          then (let (t, a) = f s1 in (t, case a of Inl x \<Rightarrow> Inl x | Inr v \<Rightarrow> Inr (Some v)))
                          else (s1, Inr None))
           in (case aexit R out2 e1 s2 of
                 (s3, _, Inl x) \<Rightarrow> (s3, Inl x)
               | (s3, _, Inr _) \<Rightarrow> (s3, r))))"

section \<open>Turns\<close>

definition owner :: "'s redis \<Rightarrow> string \<Rightarrow> 's \<Rightarrow> json option" where
  "owner R key s = r_get R key s"

lemma election_fields [simp]:
  "lock_key (e\<lparr>is_leader := b\<rparr>) = lock_key e" "lock_key (e\<lparr>e_running := b\<rparr>) = lock_key e"
  "lock_key (handle_election e) = lock_key e" "lock_key (handle_demotion e) = lock_key e"
  by (simp_all add: lock_key_def handle_election_def handle_demotion_def)

lemma acquire_lock_eq:
  assumes "redis_ok R Q" and "lock_key e \<notin> Q"
  shows "acquire_lock R e s =
    (if owner R (lock_key e) s = None
     then (r_set R (lock_key e) (JStr (instance_id e)) (lease_ttl e) s, True) else (s, False))"
  using redis_set_nx [OF assms] by (simp add: acquire_lock_def owner_def)

lemma renew_check_eq: "renew_check R e s \<longleftrightarrow> owner R (lock_key e) s = Some (JStr (instance_id e))"
  by (simp add: renew_check_def owner_def split: option.splits)

text \<open>
  What one turn of the election loop makes of an instance, by the owner of the lock before it: a
  leader stays leader exactly if the lock is still its own; any other instance becomes leader
  exactly if the lock is free, and then owns it; all other turns leave the owner as it is. So an
  instance that lost its flag to an exception while it holds the lock is not elected, and nobody
  else is, until the lease runs out.
\<close>

lemma election_turn_exact:
  assumes "redis_ok R Q" and "lock_key e \<notin> Q" and "election_turn R e s = (s1, e1)"
  shows "is_leader e1 =
      (if is_leader e then owner R (lock_key e) s = Some (JStr (instance_id e))
       else owner R (lock_key e) s = None) \<and>
    owner R (lock_key e) s1 =
      (if \<not> is_leader e \<and> owner R (lock_key e) s = None then Some (JStr (instance_id e))
       else owner R (lock_key e) s) \<and>
    (owner R (lock_key e) s = Some (JStr (instance_id e)) \<longrightarrow>
       \<not> is_leader (snd (election_turn R (election_error e) s)))"
proof -
  note get = redis_get [OF assms(1,2)]
  have eq: "election_turn R e s =
    (if is_leader e
     then if owner R (lock_key e) s = Some (JStr (instance_id e))
          then (renew_extend R e s, e) else (s, e\<lparr>is_leader := False\<rparr>)
     else if owner R (lock_key e) s = None
          then (r_set R (lock_key e) (JStr (instance_id e)) (lease_ttl e) s, handle_election e) else (s, e))"
    by (simp add: election_turn_def renew_lock_def renew_check_eq acquire_lock_eq [OF assms(1,2)]
        handle_demotion_def)
  have "owner R (lock_key e) s = Some (JStr (instance_id e)) \<longrightarrow>
       \<not> is_leader (snd (election_turn R (election_error e) s))"
    using assms(1,2) acquire_lock_eq [of R Q "election_error e" s]
    by (simp add: election_turn_def election_error_def)
  moreover have "owner R (lock_key e) (renew_extend R e s) = owner R (lock_key e) s"
    using get assms(2) by (simp add: owner_def renew_extend_def)
  moreover have "owner R (lock_key e) (r_set R (lock_key e) (JStr (instance_id e)) (lease_ttl e) s) =
      Some (JStr (instance_id e))"
    using get assms(2) by (simp add: owner_def)
  moreover have "is_leader (handle_election e)" by (simp add: handle_election_def)
  ultimately show ?thesis using assms(3) unfolding eq by (auto split: if_splits)
qed

lemma election_turn_exact_witness:
  "is_leader (snd (election_turn mem_redis (new_election ''job'' ''a'' 30 10) (Map.empty, \<lambda>_. [])))"
proof -
  obtain s1 e1 where t: "election_turn mem_redis (new_election ''job'' ''a'' 30 10) (Map.empty, \<lambda>_. []) = (s1, e1)"
    by fastforce
  have "lock_key (new_election ''job'' ''a'' 30 10) \<notin> {}" by simp
  from election_turn_exact [OF mem_redis_ok this t] t show ?thesis
    by (simp add: new_election_def owner_def mem_redis_def)
qed

text \<open>
  Stopping an instance that believes to be leader deletes the lock if the lock is its own and the
  command reaches the server, and leaves any other lock. The flag is cleared only if the answer
  arrives as well: an instance stays marked as leader after it has stopped if its lease has lapsed, if
  the command fails, or if the answer is lost; in the last case the lock is gone all the same.
\<close>

lemma stop_releases_own:
  assumes "redis_ok R Q" and "lock_key e \<notin> Q" and "is_leader e" and "stop R out e s = (s1, e1, r)"
  shows "\<not> e_running e1 \<and>
    (case out of
       NotSent x \<Rightarrow> s1 = s \<and> is_leader e1 \<and> r = Inl x
     | ReplyLost x \<Rightarrow> is_leader e1 \<and> r = Inl x \<and>
         (if owner R (lock_key e) s = Some (JStr (instance_id e))
          then owner R (lock_key e) s1 = None else s1 = s)
     | Answered \<Rightarrow> r = Inr () \<and>
         (if owner R (lock_key e) s = Some (JStr (instance_id e))
          then owner R (lock_key e) s1 = None \<and> \<not> is_leader e1
          else s1 = s \<and> is_leader e1))"
  using assms(3,4) redis_get(3) [OF assms(1,2,2), of s]
  by (cases out)
    (auto simp: stop_def stop_begin_def release_lock_def release_send_def release_reply_def
      release_script_def owner_def lock_key_def Let_def split: if_splits)

lemma stop_releases_own_witness:
  "is_leader (fst (snd (stop mem_redis (Answered :: unit reply)
     ((new_election ''job'' ''a'' 30 10)\<lparr>is_leader := True\<rparr>) (Map.empty, \<lambda>_. []))))"
proof -
  let ?e = "(new_election ''job'' ''a'' 30 10)\<lparr>is_leader := True\<rparr>"
  obtain s1 e1 r where t: "stop mem_redis (Answered :: unit reply) ?e (Map.empty, \<lambda>_. []) = (s1, e1, r)"
    by (metis prod_cases3)
  have "lock_key ?e \<notin> {}" and "is_leader ?e" by simp_all
  from stop_releases_own [OF mem_redis_ok this t] t show ?thesis
    by (simp add: owner_def mem_redis_def)
qed

section \<open>Several instances\<close>

text \<open>
  The instances that compete for one role, each named by its instance id. An instance is idle or
  waits for the reply to a command that Redis has already executed: the \<open>SET NX\<close> of an acquisition,
  the \<open>GET\<close> of a renewal (whether the instance was the owner), or the \<open>EXPIRE\<close> after it, all in the
  election loop; or the \<open>SET NX\<close> of a context manager. Releases (from \<open>stop\<close> or at the exit of a context
  manager) run beside the loop: \<open>releases\<close> lists the answers under way to an instance. Two records of
  the past serve the theorem: the set \<open>lapsed\<close> holds the instances whose lease ran out after they last
  took the lock, the set \<open>let_go\<close> those that had it deleted by a release of their own since.
\<close>

datatype phase = Idle | SetReply bool | GetReply bool | ExpireReply | EnterReply bool

record 's cluster =
  srv :: 's
  nodes :: "string \<Rightarrow> election"
  phase_of :: "string \<Rightarrow> phase"
  releases :: "string \<Rightarrow> bool list"
  lapsed :: "string set"
  let_go :: "string set"

definition set_node :: "string \<Rightarrow> election \<Rightarrow> phase \<Rightarrow> 's cluster \<Rightarrow> 's cluster" where
  "set_node n e p c = c\<lparr>nodes := (nodes c)(n := e), phase_of := (phase_of c)(n := p)\<rparr>"

definition took_lock :: "string \<Rightarrow> bool \<Rightarrow> 's cluster \<Rightarrow> 's cluster" where
  "took_lock n ok c = (if ok then c\<lparr>lapsed := lapsed c - {n}, let_go := let_go c - {n}\<rparr> else c)"

text \<open>What is left of a phase when the loop's task is cancelled or has an exception.\<close>

definition loop_dropped :: "phase \<Rightarrow> phase" where
  "loop_dropped p = (case p of EnterReply ok \<Rightarrow> EnterReply ok | _ \<Rightarrow> Idle)"

text \<open>
  The steps. \<open>step_stop\<close> is the part of \<open>stop\<close> before its await of the cancelled task; its release, and that
  at an exit, is \<open>step_release\<close> (the flag is read, the script runs on the server) and later
  \<open>step_release_reply\<close> or, with an exception, \<open>step_release_lost\<close>. A release that fails before it reaches
  the server changes nothing and is no step, nor is an \<open>aenter\<close> that does.
\<close>

inductive cluster_step :: "'s redis \<Rightarrow> string \<Rightarrow> 's cluster \<Rightarrow> 's cluster \<Rightarrow> bool" for R key where
  step_start: "cluster_step R key c (set_node n (start (nodes c n)) (phase_of c n) c)"
| step_set: "phase_of c n = Idle \<Longrightarrow> e_running (nodes c n) \<Longrightarrow> \<not> is_leader (nodes c n) \<Longrightarrow>
    acquire_lock R (nodes c n) (srv c) = (s1, ok) \<Longrightarrow>
    cluster_step R key c (took_lock n ok (set_node n (nodes c n) (SetReply ok) (c\<lparr>srv := s1\<rparr>)))"
| step_set_reply: "phase_of c n = SetReply ok \<Longrightarrow>
    cluster_step R key c (set_node n (if ok then handle_election (nodes c n) else nodes c n) Idle c)"
| step_get: "phase_of c n = Idle \<Longrightarrow> e_running (nodes c n) \<Longrightarrow> is_leader (nodes c n) \<Longrightarrow>
    cluster_step R key c (set_node n (nodes c n) (GetReply (renew_check R (nodes c n) (srv c))) c)"
| step_get_reply_own: "phase_of c n = GetReply True \<Longrightarrow>
    cluster_step R key c (set_node n (nodes c n) ExpireReply (c\<lparr>srv := renew_extend R (nodes c n) (srv c)\<rparr>))"
| step_get_reply_lost: "phase_of c n = GetReply False \<Longrightarrow>
    cluster_step R key c (set_node n (handle_demotion (nodes c n)) Idle c)"
| step_expire_reply: "phase_of c n = ExpireReply \<Longrightarrow>
    cluster_step R key c (set_node n (nodes c n) Idle c)"
| step_error: "cluster_step R key c
    (set_node n (election_error (nodes c n)) (loop_dropped (phase_of c n)) c)"
| step_stop: "cluster_step R key c
    (set_node n (stop_begin (nodes c n)) (loop_dropped (phase_of c n)) c)"
| step_release: "is_leader (nodes c n) \<Longrightarrow> release_send R (nodes c n) (srv c) = (s1, ok) \<Longrightarrow>
    cluster_step R key c (c\<lparr>srv := s1, releases := (releases c)(n := ok # releases c n),
      let_go := (if ok then insert n (let_go c) else let_go c)\<rparr>)"
| step_release_reply: "ok \<in> set (releases c n) \<Longrightarrow>
    cluster_step R key c (set_node n (release_reply ok (nodes c n)) (phase_of c n)
      (c\<lparr>releases := (releases c)(n := remove1 ok (releases c n))\<rparr>))"
| step_release_lost: "ok \<in> set (releases c n) \<Longrightarrow>
    cluster_step R key c (c\<lparr>releases := (releases c)(n := remove1 ok (releases c n))\<rparr>)"
| step_enter: "phase_of c n = Idle \<Longrightarrow> acquire_lock R (nodes c n) (srv c) = (s1, ok) \<Longrightarrow>
    cluster_step R key c (took_lock n ok (set_node n (nodes c n) (EnterReply ok) (c\<lparr>srv := s1\<rparr>)))"
| step_enter_reply: "phase_of c n = EnterReply ok \<Longrightarrow>
    cluster_step R key c (set_node n ((nodes c n)\<lparr>is_leader := ok\<rparr>) Idle c)"
| step_enter_lost: "phase_of c n = EnterReply ok \<Longrightarrow>
    cluster_step R key c (set_node n (nodes c n) Idle c)"
| step_lapse: "owner R key (srv c) = Some (JStr n) \<Longrightarrow> owner R key s1 = None \<Longrightarrow>
    cluster_step R key c (c\<lparr>srv := s1, lapsed := insert n (lapsed c)\<rparr>)"

definition cluster_start :: "'s redis \<Rightarrow> string \<Rightarrow> 's cluster \<Rightarrow> bool" where
  "cluster_start R key c =
     (owner R key (srv c) = None \<and>
      (\<forall>n. lock_key (nodes c n) = key \<and> instance_id (nodes c n) = n \<and> \<not> is_leader (nodes c n) \<and>
           phase_of c n = Idle \<and> releases c n = []))"

text \<open>
  An instance claims the lease if it is leader or about to learn that it is, and neither its lease has
  run out nor its lock been deleted by itself since it took the lock.
\<close>

definition lease_claim :: "'s cluster \<Rightarrow> string \<Rightarrow> bool" where
  "lease_claim c n =
     ((is_leader (nodes c n) \<or> phase_of c n \<in> {SetReply True, EnterReply True}) \<and>
      n \<notin> lapsed c \<and> n \<notin> let_go c)"

definition cluster_inv :: "'s redis \<Rightarrow> string \<Rightarrow> 's cluster \<Rightarrow> bool" where
  "cluster_inv R key c =
     ((\<forall>n. lock_key (nodes c n) = key \<and> instance_id (nodes c n) = n) \<and>
      (\<forall>n. lease_claim c n \<longrightarrow> owner R key (srv c) = Some (JStr n)))"

lemma instance_fields [simp]:
  "instance_id (handle_election e) = instance_id e" "instance_id (handle_demotion e) = instance_id e"
  "instance_id (election_error e) = instance_id e" "instance_id (start e) = instance_id e"
  "instance_id (stop_begin e) = instance_id e" "instance_id (release_reply ok e) = instance_id e"
  "lock_key (election_error e) = lock_key e" "lock_key (start e) = lock_key e"
  "lock_key (stop_begin e) = lock_key e" "lock_key (release_reply ok e) = lock_key e"
  "is_leader (handle_election e)" "\<not> is_leader (handle_demotion e)" "\<not> is_leader (election_error e)"
  "is_leader (start e) = is_leader e" "is_leader (stop_begin e) = is_leader e"
  "is_leader (release_reply ok e) = (is_leader e \<and> \<not> ok)"
  by (simp_all add: handle_election_def handle_demotion_def election_error_def start_def lock_key_def
      stop_begin_def release_reply_def)

text \<open>A step of one instance, and a step that only moves an instance along.\<close>

lemma cluster_inv_step:
  assumes "cluster_inv R key c"
    and "nodes c' = (nodes c)(n := e)" "phase_of c' = (phase_of c)(n := p)"
    and "lock_key e = key" "instance_id e = n"
    and "lease_claim c' n \<Longrightarrow> owner R key (srv c') = Some (JStr n)"
    and "\<And>m. m \<noteq> n \<Longrightarrow> owner R key (srv c) = Some (JStr m) \<Longrightarrow> owner R key (srv c') = Some (JStr m)"
    and "lapsed c - {n} \<subseteq> lapsed c'" "let_go c - {n} \<subseteq> let_go c'"
  shows "cluster_inv R key c'"
proof -
  have "owner R key (srv c') = Some (JStr m)" if cl: "lease_claim c' m" for m
  proof (cases "m = n")
    case False
    with cl assms(2,3,8,9) have "lease_claim c m" by (auto simp: lease_claim_def)
    with assms(1,7) False show ?thesis by (simp add: cluster_inv_def)
  qed (use assms(6) cl in simp)
  with assms(1,2,4,5) show ?thesis by (auto simp: cluster_inv_def)
qed

lemma cluster_inv_same:
  assumes "cluster_inv R key c" and "lock_key e = key" "instance_id e = n"
    and "is_leader e \<or> p \<in> {SetReply True, EnterReply True} \<Longrightarrow>
      is_leader (nodes c n) \<or> phase_of c n \<in> {SetReply True, EnterReply True}"
  shows "cluster_inv R key (set_node n e p c)"
  by (rule cluster_inv_step [OF assms(1), where n = n and e = e and p = p])
    (use assms in \<open>auto simp: set_node_def lease_claim_def cluster_inv_def\<close>)

lemma loop_dropped_claim:
  "loop_dropped p \<in> {SetReply True, EnterReply True} \<Longrightarrow> p \<in> {SetReply True, EnterReply True}"
  by (cases p) (simp_all add: loop_dropped_def)

lemma release_send_effect:
  assumes "redis_ok R Q" and "lock_key e \<notin> Q" and "release_send R e s = (s1, ok)"
  shows "ok \<longleftrightarrow> owner R (lock_key e) s = Some (JStr (instance_id e))"
    and "owner R (lock_key e) s1 = (if ok then None else owner R (lock_key e) s)"
  using assms(3) redis_get(3) [OF assms(1,2,2), of s]
  by (auto simp: release_send_def release_script_def owner_def split: if_splits)

lemma cluster_inv_taken:
  assumes ok: "redis_ok R Q" "key \<notin> Q" and inv: "cluster_inv R key c"
    and "acquire_lock R (nodes c n) (srv c) = (s1, got)" and p: "p = SetReply got \<or> p = EnterReply got"
  shows "cluster_inv R key (took_lock n got (set_node n (nodes c n) p (c\<lparr>srv := s1\<rparr>)))"
proof -
  have node: "lock_key (nodes c n) = key" "instance_id (nodes c n) = n"
    using inv by (simp_all add: cluster_inv_def)
  have set: "owner R key (r_set R key (JStr n) ttl s) = Some (JStr n)" for ttl s
    using redis_get(1) [OF ok ok(2)] by (simp add: owner_def)
  have eq: "(s1, got) =
      (if owner R key (srv c) = None
       then (r_set R key (JStr n) (lease_ttl (nodes c n)) (srv c), True) else (srv c, False))"
    using acquire_lock_eq [OF ok(1), of "nodes c n" "srv c"] ok(2) node assms(4) by simp
  show ?thesis
  proof (rule cluster_inv_step [OF inv, where n = n and e = "nodes c n" and p = p])
    show "lease_claim (took_lock n got (set_node n (nodes c n) p (c\<lparr>srv := s1\<rparr>))) n \<Longrightarrow>
      owner R key (srv (took_lock n got (set_node n (nodes c n) p (c\<lparr>srv := s1\<rparr>)))) = Some (JStr n)"
      using eq set inv p by (auto simp: took_lock_def set_node_def lease_claim_def cluster_inv_def split: if_splits)
  qed (use node eq in \<open>auto simp: took_lock_def set_node_def split: if_splits\<close>)
qed

lemma cluster_step_inv:
  assumes ok: "redis_ok R Q" "key \<notin> Q" and st: "cluster_step R key c c'" and inv: "cluster_inv R key c"
  shows "cluster_inv R key c'"
proof -
  have node [simp]: "lock_key (nodes c n) = key" "instance_id (nodes c n) = n" for n
    using inv by (simp_all add: cluster_inv_def)
  note same = cluster_inv_same [OF inv]
  from st show ?thesis
  proof cases
    case step_get_reply_own
    then show ?thesis using inv redis_get(2) [OF ok ok(2)]
      by (auto simp: cluster_inv_def lease_claim_def set_node_def renew_extend_def owner_def)
  next
    case (step_release n s1 gone)
    from release_send_effect [OF ok(1) _ step_release(3)] ok(2) inv step_release(1) show ?thesis
      by (auto simp: cluster_inv_def lease_claim_def)
  next
    case (step_release_reply gone n)
    have "cluster_inv R key (set_node n (release_reply gone (nodes c n)) (phase_of c n) c)"
      by (rule same) auto
    then show ?thesis
      unfolding step_release_reply(1) by (simp add: cluster_inv_def lease_claim_def set_node_def)
  next
    case step_release_lost
    then show ?thesis using inv by (simp add: cluster_inv_def lease_claim_def)
  next
    case step_lapse
    then show ?thesis using inv by (auto simp: cluster_inv_def lease_claim_def)
  next
    case (step_error n)
    then show ?thesis using loop_dropped_claim [of "phase_of c n"] by (auto intro!: same)
  next
    case (step_stop n)
    then show ?thesis using loop_dropped_claim [of "phase_of c n"] by (auto intro!: same)
  qed (auto intro!: same cluster_inv_taken [OF ok inv] split: if_splits)
qed

lemma cluster_start_inv: "cluster_start R key c \<Longrightarrow> cluster_inv R key c"
  by (simp add: cluster_start_def cluster_inv_def lease_claim_def)

interpretation cluster_run: inductive_invariant "cluster_start R key" "cluster_step R key"
    "\<lambda>c. redis_ok R Q \<and> key \<notin> Q \<longrightarrow> cluster_inv R key c"
  for R Q key
  by unfold_locales (use cluster_start_inv cluster_step_inv in blast)+

text \<open>
  C38. Two leaders only after a lapse or a release: however the instances interleave, with replies of
  Redis delayed or lost, errors, stops and restarts, an instance that is leader is the owner of the
  lock, unless its lease has run out since it took the lock or a release of its own has deleted the lock
  while its answer is still under way or was lost (the flag is cleared only when the answer arrives).
  Hence of two leaders at one time at least one has a lapsed lease or has released its lock; the next
  renewal of such a one finds another owner, or none, and makes it step down.
\<close>

theorem one_leader_per_lease:
  assumes "redis_ok R Q" and "key \<notin> Q" and "cluster_start R key c0" and "(cluster_step R key)\<^sup>*\<^sup>* c0 c"
  shows "(is_leader (nodes c n) \<and> n \<notin> lapsed c \<and> n \<notin> let_go c \<longrightarrow>
       owner R key (srv c) = Some (JStr n)) \<and>
    (is_leader (nodes c n) \<and> is_leader (nodes c m) \<and> n \<noteq> m \<longrightarrow>
       n \<in> lapsed c \<union> let_go c \<or> m \<in> lapsed c \<union> let_go c) \<and>
    (is_leader (nodes c n) \<and> owner R key (srv c) \<noteq> Some (JStr n) \<longrightarrow>
       \<not> is_leader (snd (election_turn R (nodes c n) (srv c))))"
proof -
  have inv: "cluster_inv R key c"
    using cluster_run.reachable_inv [OF assms(3,4)] assms(1,2) by blast
  then have own: "is_leader (nodes c k) \<Longrightarrow> k \<notin> lapsed c \<Longrightarrow> k \<notin> let_go c \<Longrightarrow>
      owner R key (srv c) = Some (JStr k)" for k
    by (simp add: cluster_inv_def lease_claim_def)
  have "n \<in> lapsed c \<union> let_go c \<or> m \<in> lapsed c \<union> let_go c"
    if "is_leader (nodes c n)" "is_leader (nodes c m)" "n \<noteq> m"
  proof (rule ccontr)
    assume "\<not> ?thesis"
    with own [of n] own [of m] that show False by simp
  qed
  moreover have "\<not> is_leader (snd (election_turn R (nodes c n) (srv c)))"
    if "is_leader (nodes c n)" "owner R key (srv c) \<noteq> Some (JStr n)"
    using that inv by (simp add: election_turn_def renew_lock_def renew_check_eq handle_demotion_def cluster_inv_def)
  ultimately show ?thesis using own [of n] by blast
qed

text \<open>The exception is real: between the script of a release and its answer another instance can be elected.\<close>

lemma release_leaves_two_leaders:
  assumes ok: "redis_ok R Q" "key \<notin> Q" and nm: "n \<noteq> m"
    and node: "\<And>k. lock_key (nodes c k) = key \<and> instance_id (nodes c k) = k"
    and n: "is_leader (nodes c n)" "owner R key (srv c) = Some (JStr n)"
    and m: "\<not> is_leader (nodes c m)" "e_running (nodes c m)" "phase_of c m = Idle"
  shows "\<exists>c'. (cluster_step R key)\<^sup>*\<^sup>* c c' \<and> is_leader (nodes c' n) \<and> is_leader (nodes c' m) \<and>
    owner R key (srv c') = Some (JStr m) \<and> True \<in> set (releases c' n)"
proof -
  note node = node [THEN conjunct1] node [THEN conjunct2]
  obtain s1 gone where rel: "release_send R (nodes c n) (srv c) = (s1, gone)" by fastforce
  have gone: gone "owner R key s1 = None"
    using release_send_effect [OF ok(1) _ rel] ok(2) n(2) node by auto
  define c1 where "c1 = c\<lparr>srv := s1, releases := (releases c)(n := True # releases c n),
    let_go := insert n (let_go c)\<rparr>"
  have s1: "cluster_step R key c c1"
    using step_release [OF n(1) rel] gone(1) by (simp add: c1_def)
  obtain s2 where acq: "acquire_lock R (nodes c1 m) (srv c1) = (s2, True)" "owner R key s2 = Some (JStr m)"
    using acquire_lock_eq [OF ok(1), of "nodes c1 m" "srv c1"] ok gone(2) node redis_get(1) [OF ok ok(2)]
    by (simp add: c1_def owner_def)
  define c2 where "c2 = took_lock m True (set_node m (nodes c1 m) (SetReply True) (c1\<lparr>srv := s2\<rparr>))"
  have s2: "cluster_step R key c1 c2"
    unfolding c2_def using m acq(1) by (intro step_set) (simp_all add: c1_def)
  define c3 where "c3 = set_node m (handle_election (nodes c2 m)) Idle c2"
  have s3: "cluster_step R key c2 c3"
    using step_set_reply [of c2 m True R key] by (simp add: c3_def c2_def took_lock_def set_node_def)
  have "(cluster_step R key)\<^sup>*\<^sup>* c c3"
    using s1 s2 s3 by (meson converse_rtranclp_into_rtranclp r_into_rtranclp)
  with nm n(1) acq(2) show ?thesis
    by (intro exI [of _ c3]) (simp add: c3_def c2_def c1_def took_lock_def set_node_def)
qed

definition mem_cluster :: "memory cluster" where
  "mem_cluster = \<lparr>srv = (Map.empty, \<lambda>_. []),
     nodes = (\<lambda>n. (new_election ''job'' n 30 10)\<lparr>e_running := True\<rparr>),
     phase_of = (\<lambda>_. Idle), releases = (\<lambda>_. []), lapsed = {}, let_go = {}\<rparr>"

lemma mem_cluster_start: "cluster_start mem_redis (LOCK_PREFIX @ ''job'') mem_cluster"
  by (simp add: cluster_start_def mem_cluster_def owner_def mem_redis_def new_election_def lock_key_def)

text \<open>A run: the instance \<open>a\<close> takes the lock and becomes leader.\<close>

lemma mem_cluster_run:
  "\<exists>c. (cluster_step mem_redis (LOCK_PREFIX @ ''job''))\<^sup>*\<^sup>* mem_cluster c \<and>
       is_leader (nodes c ''a'') \<and> lapsed c = {} \<and> let_go c = {}"
proof -
  let ?key = "LOCK_PREFIX @ ''job''" and ?e = "nodes mem_cluster ''a''"
  obtain s1 where acq: "acquire_lock mem_redis ?e (srv mem_cluster) = (s1, True)"
    by (simp add: acquire_lock_def mem_redis_def mem_cluster_def)
  let ?c1 = "took_lock ''a'' True (set_node ''a'' ?e (SetReply True) (mem_cluster\<lparr>srv := s1\<rparr>))"
  let ?c2 = "set_node ''a'' (handle_election (nodes ?c1 ''a'')) Idle ?c1"
  have "cluster_step mem_redis ?key mem_cluster ?c1"
    using acq by (intro step_set) (simp_all add: mem_cluster_def new_election_def)
  moreover have "cluster_step mem_redis ?key ?c1 ?c2"
    using step_set_reply [of ?c1 "''a''" True mem_redis ?key] by (simp add: took_lock_def set_node_def)
  ultimately have "(cluster_step mem_redis ?key)\<^sup>*\<^sup>* mem_cluster ?c2"
    by (meson converse_rtranclp_into_rtranclp r_into_rtranclp)
  moreover have "is_leader (nodes ?c2 ''a'')" "lapsed ?c2 = {}" "let_go ?c2 = {}"
    by (simp_all add: set_node_def took_lock_def mem_cluster_def)
  ultimately show ?thesis by blast
qed

theorem one_leader_per_lease_witness:
  "\<exists>c. (cluster_step mem_redis (LOCK_PREFIX @ ''job''))\<^sup>*\<^sup>* mem_cluster c \<and>
       owner mem_redis (LOCK_PREFIX @ ''job'') (srv c) = Some (JStr ''a'')"
proof -
  obtain c where c: "(cluster_step mem_redis (LOCK_PREFIX @ ''job''))\<^sup>*\<^sup>* mem_cluster c"
    "is_leader (nodes c ''a'')" "lapsed c = {}" "let_go c = {}"
    using mem_cluster_run by blast
  have "LOCK_PREFIX @ ''job'' \<notin> {}" by simp
  from one_leader_per_lease [OF mem_redis_ok this mem_cluster_start c(1), of "''a''" "''a''"] c
  show ?thesis by auto
qed

section \<open>Functions for the leader only\<close>

text \<open>
  With Redis answering, \<open>leader_only\<close> runs its function exactly if the lock is free when it is called, and
  returns its result; otherwise it returns nothing and changes nothing. Afterwards the lock is free
  again if it is still this call's own, and untouched if another instance has taken it meanwhile, which
  it can once the lease has run out: nothing renews it while the function runs.
\<close>

lemma aenter_eq:
  assumes "redis_ok R Q" and "LOCK_PREFIX @ name \<notin> Q"
  shows "aenter R Answered (new_election name iid ttl RENEWAL_INTERVAL) s =
    (if owner R (LOCK_PREFIX @ name) s = None
     then (r_set R (LOCK_PREFIX @ name) (JStr iid) ttl s,
           (new_election name iid ttl RENEWAL_INTERVAL)\<lparr>is_leader := True\<rparr>, Inr ())
     else (s, new_election name iid ttl RENEWAL_INTERVAL, Inr ()))"
proof -
  have key: "lock_key (new_election name iid ttl RENEWAL_INTERVAL) = LOCK_PREFIX @ name"
    by (simp add: new_election_def lock_key_def)
  show ?thesis
    using acquire_lock_eq [OF assms(1), of "new_election name iid ttl RENEWAL_INTERVAL" s] assms(2)
    unfolding key by (simp add: aenter_def new_election_def)
qed

lemma aexit_eq:
  "aexit R Answered ((new_election name iid ttl RENEWAL_INTERVAL)\<lparr>is_leader := True\<rparr>) s =
    (if owner R (LOCK_PREFIX @ name) s = Some (JStr iid)
     then (r_del R (LOCK_PREFIX @ name) s, new_election name iid ttl RENEWAL_INTERVAL, Inr ())
     else (s, (new_election name iid ttl RENEWAL_INTERVAL)\<lparr>is_leader := True\<rparr>, Inr ()))"
  by (simp add: aexit_def release_lock_def release_send_def release_script_def release_reply_def
      owner_def new_election_def lock_key_def)

lemma leader_only_spec:
  assumes "redis_ok R Q" and "LOCK_PREFIX @ name \<notin> Q"
  shows "let key = LOCK_PREFIX @ name in
    if owner R key s = None
    then (let s1 = r_set R key (JStr iid) ttl s; (s2, r) = f s1;
              (s3, out) = leader_only R Answered Answered name iid ttl f s
          in out = (case r of Inl x \<Rightarrow> Inl x | Inr a \<Rightarrow> Inr (Some a)) \<and>
             owner R key s1 = Some (JStr iid) \<and>
             (if owner R key s2 = Some (JStr iid) then owner R key s3 = None else s3 = s2))
    else leader_only R Answered Answered name iid ttl f s = (s, Inr None)"
proof (cases "owner R (LOCK_PREFIX @ name) s = None")
  case True
  let ?key = "LOCK_PREFIX @ name"
  obtain s2 r where f: "f (r_set R ?key (JStr iid) ttl s) = (s2, r)" by fastforce
  have own: "owner R ?key (r_set R ?key (JStr iid) ttl s) = Some (JStr iid)"
    "owner R ?key (r_del R ?key t) = None" for t
    using redis_get(1,3) [OF assms assms(2)] by (simp_all add: owner_def)
  have "leader_only R Answered Answered name iid ttl f s =
      (if owner R ?key s2 = Some (JStr iid) then r_del R ?key s2 else s2,
       case r of Inl x \<Rightarrow> Inl x | Inr a \<Rightarrow> Inr (Some a))"
    using True f by (simp add: leader_only_def aenter_eq [OF assms] aexit_eq)
  with True f own show ?thesis by (simp add: Let_def)
next
  case False
  then obtain v where "owner R (LOCK_PREFIX @ name) s = Some v" by auto
  then have "leader_only R Answered Answered name iid ttl f s = (s, Inr None)"
    by (simp add: leader_only_def aenter_eq [OF assms]) (simp add: aexit_def new_election_def)
  with False show ?thesis by (simp only: Let_def if_False)
qed

lemma leader_only_spec_witness:
  "snd (leader_only mem_redis Answered Answered ''job'' ''a'' 30 (\<lambda>s. (s, Inr 7)) (Map.empty, \<lambda>_. [])
     :: memory \<times> (unit + int option)) = Inr (Some 7)"
proof -
  have "LOCK_PREFIX @ ''job'' \<notin> {}" by simp
  from leader_only_spec [OF mem_redis_ok this, of "(Map.empty, \<lambda>_. [])" "''a''" 30
      "\<lambda>s. (s, Inr 7 :: unit + int)"]
  show ?thesis by (auto simp: owner_def mem_redis_def Let_def split: prod.splits)
qed

text \<open>
  If the answer to the entry's command is lost, the function does not run and the exception is raised,
  but the lock, free before, is taken: with no exit to release it, nobody can run until the lease lapses.
\<close>

lemma lost_entry_keeps_lock:
  assumes "redis_ok R Q" and "LOCK_PREFIX @ name \<notin> Q" and "owner R (LOCK_PREFIX @ name) s = None"
  shows "leader_only R (ReplyLost x) out name iid ttl f s =
      (r_set R (LOCK_PREFIX @ name) (JStr iid) ttl s, Inl x)"
  using acquire_lock_eq [OF assms(1), of "new_election name iid ttl RENEWAL_INTERVAL" s] assms(2,3)
  by (simp add: leader_only_def aenter_def new_election_def lock_key_def)

end
