(* ===== verification/Scheduler.thy ===== *)
theory Scheduler
  imports Prelude Jobs "HOL-Library.Product_Lexorder"
begin

text \<open>
  The cron-like scheduler (\<open>src/titan/jobs/scheduler.py\<close>): cron expressions, the search for the next
  run, and the check that submits the jobs that are due. Leader election gates the check in the code's
  main loop; it is modelled in the theory Leader.
\<close>

section \<open>Times\<close>

text \<open>A UTC \<open>datetime\<close>, ordered as Python orders them.\<close>

datatype datetime =
  DT (dt_year: nat) (dt_month: nat) (dt_day: nat) (dt_hour: nat) (dt_minute: nat) (dt_second: nat)
     (dt_microsecond: nat)

fun dt_key :: "datetime \<Rightarrow> nat \<times> nat \<times> nat \<times> nat \<times> nat \<times> nat \<times> nat" where
  "dt_key (DT y mo d h mi s us) = (y, mo, d, h, mi, s, us)"

lemma dt_key_inj: "dt_key a = dt_key b \<Longrightarrow> a = b"
  by (cases a; cases b) simp

instantiation datetime :: linorder
begin

definition less_eq_datetime :: "datetime \<Rightarrow> datetime \<Rightarrow> bool" where
  "less_eq_datetime a b = (dt_key a \<le> dt_key b)"

definition less_datetime :: "datetime \<Rightarrow> datetime \<Rightarrow> bool" where
  "less_datetime a b = (dt_key a < dt_key b)"

instance
  by standard (auto simp: less_eq_datetime_def less_datetime_def intro: dt_key_inj)

end

definition leap_year :: "nat \<Rightarrow> bool" where
  "leap_year y = (y mod 4 = 0 \<and> (y mod 100 \<noteq> 0 \<or> y mod 400 = 0))"

definition days_in_month :: "nat \<Rightarrow> nat \<Rightarrow> nat" where
  "days_in_month y m =
     (if m = 2 then (if leap_year y then 29 else 28)
      else if m \<in> {4, 6, 9, 11} then 30 else 31)"

definition valid_datetime :: "datetime \<Rightarrow> bool" where
  "valid_datetime t =
     (1 \<le> dt_year t \<and> 1 \<le> dt_month t \<and> dt_month t \<le> 12 \<and>
      1 \<le> dt_day t \<and> dt_day t \<le> days_in_month (dt_year t) (dt_month t) \<and>
      dt_hour t < 24 \<and> dt_minute t < 60 \<and> dt_second t < 60 \<and> dt_microsecond t < 1000000)"

text \<open>The proleptic Gregorian ordinal and \<open>weekday()\<close> (0 is Monday).\<close>

definition ordinal :: "nat \<Rightarrow> nat \<Rightarrow> nat \<Rightarrow> nat" where
  "ordinal y m d =
     (let p = y - 1
      in p * 365 + p div 4 - p div 100 + p div 400 + sum_list (map (days_in_month y) [1..<m]) + d)"

definition weekday :: "datetime \<Rightarrow> nat" where
  "weekday t = (ordinal (dt_year t) (dt_month t) (dt_day t) + 6) mod 7"

section \<open>Cron expressions\<close>

text \<open>\<open>s.split()\<close>; \<open>split_char\<close> is \<open>s.split(c)\<close>.\<close>

fun split_space :: "string \<Rightarrow> string list" where
  "split_space [] = []"
| "split_space (x # xs) =
     (if str_space x then split_space xs
      else case xs of
        [] \<Rightarrow> [[x]]
      | y # _ \<Rightarrow> if str_space y then [x] # split_space xs
                 else case split_space xs of [] \<Rightarrow> [[x]] | w # ws \<Rightarrow> (x # w) # ws)"

definition int_or_error :: "string \<Rightarrow> py_exn + int" where
  "int_or_error s = (case py_int s of None \<Rightarrow> Inl ValueError | Some n \<Rightarrow> Inr n)"

text \<open>\<open>range(a, b, step)\<close> for a positive \<open>a < b\<close>: nothing for a negative step, an error for zero.\<close>

definition stepped :: "int \<Rightarrow> int \<Rightarrow> int \<Rightarrow> py_exn + int list" where
  "stepped a b step =
     (if step = 0 then Inl ValueError
      else if step < 0 then Inr []
      else Inr (filter (\<lambda>n. (n - a) mod step = 0) [a..b - 1]))"

definition parse_part :: "string \<Rightarrow> int \<Rightarrow> int \<Rightarrow> py_exn + int list" where
  "parse_part part lo hi =
     (if part = ''*'' then Inr [lo..hi]
      else if take 2 part = ''*/''
      then bindE (int_or_error (drop 2 part)) (\<lambda>step. stepped lo (hi + 1) step)
      else if CHR ''-'' \<in> set part
      then (case split_char CHR ''-'' part of
              [a, b] \<Rightarrow> bothE (int_or_error a) (int_or_error b) (\<lambda>x y. [x..y])
            | _ \<Rightarrow> Inl ValueError)
      else bindE (int_or_error part) (\<lambda>n. Inr [n]))"

definition parse_field :: "string \<Rightarrow> int \<Rightarrow> int \<Rightarrow> py_exn + int list" where
  "parse_field field lo hi = concatE (\<lambda>part. parse_part part lo hi) (split_char CHR '','' field)"

text \<open>The sets of values are lists here; only membership matters.\<close>

record cron =
  minutes :: "int list"
  hours :: "int list"
  days_of_month :: "int list"
  months :: "int list"
  days_of_week :: "int list"

definition parse_cron :: "string \<Rightarrow> py_exn + cron" where
  "parse_cron expression =
     (case split_space (str_strip expression) of
        [f1, f2, f3, f4, f5] \<Rightarrow>
          bindE (parse_field f1 0 59) (\<lambda>mi. bindE (parse_field f2 0 23) (\<lambda>h.
          bindE (parse_field f3 1 31) (\<lambda>d. bindE (parse_field f4 1 12) (\<lambda>mo.
          bindE (parse_field f5 0 6) (\<lambda>w.
            Inr \<lparr>minutes = mi, hours = h, days_of_month = d, months = mo, days_of_week = w\<rparr>)))))
      | _ \<Rightarrow> Inl ValueError)"

definition convert_weekday :: "int list \<Rightarrow> int list" where
  "convert_weekday cron_days = map (\<lambda>day. if day = 0 then 6 else day - 1) cron_days"

definition cron_matches :: "cron \<Rightarrow> datetime \<Rightarrow> bool" where
  "cron_matches c t =
     (int (dt_minute t) \<in> set (minutes c) \<and> int (dt_hour t) \<in> set (hours c) \<and>
      int (dt_day t) \<in> set (days_of_month c) \<and> int (dt_month t) \<in> set (months c) \<and>
      int (weekday t) \<in> set (convert_weekday (days_of_week c)))"

text \<open>
  One turn of the search: the next minute. Past midnight, \<open>replace(day=day + 1)\<close> raises a ValueError
  (\<open>None\<close>) when the month has no such day.
\<close>

definition next_minute :: "datetime \<Rightarrow> datetime option" where
  "next_minute t =
     (case t of DT y mo d h mi s us \<Rightarrow>
        if (mi + 1) mod 60 \<noteq> 0 then Some (DT y mo d h ((mi + 1) mod 60) s us)
        else if (h + 1) mod 24 \<noteq> 0 then Some (DT y mo d ((h + 1) mod 24) 0 s us)
        else if d + 1 \<le> days_in_month y mo then Some (DT y mo (d + 1) 0 0 s us)
        else None)"

fun search :: "nat \<Rightarrow> cron \<Rightarrow> datetime \<Rightarrow> py_exn + datetime" where
  "search 0 c t = Inl ValueError"
| "search (Suc n) c t =
     (case next_minute t of
        None \<Rightarrow> Inl ValueError
      | Some u \<Rightarrow> if cron_matches c u then Inr u else search n c u)"

definition truncate_minute :: "datetime \<Rightarrow> datetime" where
  "truncate_minute t =
     (case t of DT y mo d h mi s us \<Rightarrow> DT y mo d h mi 0 0)"

definition next_run :: "cron \<Rightarrow> datetime \<Rightarrow> py_exn + datetime" where
  "next_run c after = search 525600 c (truncate_minute after)"

section \<open>The scheduler\<close>

record scheduled_job =
  s_name :: string
  s_task :: string
  s_cron :: string
  s_payload :: obj
  enabled :: bool
  last_run :: "datetime option"
  s_next_run :: "datetime option"

text \<open>The two dictionaries of the scheduler, kept under the same names.\<close>

record scheduler =
  jobs :: "(string \<times> scheduled_job) list"
  crons :: "(string \<times> cron) list"

definition add_job ::
  "string \<Rightarrow> string option \<Rightarrow> string \<Rightarrow> obj option \<Rightarrow> bool \<Rightarrow> datetime \<Rightarrow> scheduler \<Rightarrow>
   py_exn + scheduler \<times> scheduled_job" where
  "add_job name tsk expression pl en now sch =
     bindE (parse_cron expression) (\<lambda>c.
     bindE (next_run c now) (\<lambda>t.
       let j = \<lparr>s_name = name, s_task = (case tsk of Some (x # xs) \<Rightarrow> x # xs | _ \<Rightarrow> name),
                s_cron = expression, s_payload = (case pl of Some d \<Rightarrow> d | None \<Rightarrow> []), enabled = en,
                last_run = None, s_next_run = Some t\<rparr>
       in Inr (sch\<lparr>jobs := AList.update name j (jobs sch), crons := AList.update name c (crons sch)\<rparr>, j)))"

definition remove_job :: "string \<Rightarrow> scheduler \<Rightarrow> scheduler \<times> bool" where
  "remove_job name sch =
     (if map_of (jobs sch) name \<noteq> None
      then (sch\<lparr>jobs := AList.delete name (jobs sch), crons := AList.delete name (crons sch)\<rparr>, True)
      else (sch, False))"

definition set_enabled :: "bool \<Rightarrow> string \<Rightarrow> scheduler \<Rightarrow> scheduler \<times> bool" where
  "set_enabled b name sch =
     (case map_of (jobs sch) name of
        None \<Rightarrow> (sch, False)
      | Some j \<Rightarrow> (sch\<lparr>jobs := AList.update name (j\<lparr>enabled := b\<rparr>) (jobs sch)\<rparr>, True))"

definition scheduled_payload :: "string \<Rightarrow> bool \<Rightarrow> obj \<Rightarrow> obj" where
  "scheduled_payload name manual pl =
     (let d = dset ''_schedule_name'' (JStr name) (dset ''_scheduled'' (JBool True) pl)
      in if manual then dset ''_manual_trigger'' (JBool True) d else d)"

text \<open>
  One job of the check. \<open>put\<close> submits a job to the queue. The job is submitted and its last run noted
  before the next run is computed; if that raises, the exception is logged and the next run stays
  what it was.
\<close>

definition check_job ::
  "(string \<Rightarrow> obj \<Rightarrow> 's \<Rightarrow> 's) \<Rightarrow> datetime \<Rightarrow> string \<Rightarrow> cron \<Rightarrow> scheduled_job \<Rightarrow> 's \<Rightarrow>
   's \<times> scheduled_job" where
  "check_job put now name c j s =
     (case s_next_run j of
        Some t \<Rightarrow>
          if enabled j \<and> t \<le> now
          then (let s1 = put (s_task j) (scheduled_payload name False (s_payload j)) s;
                    j1 = j\<lparr>last_run := Some now\<rparr>
                in (s1, case next_run c now of Inr t' \<Rightarrow> j1\<lparr>s_next_run := Some t'\<rparr> | Inl _ \<Rightarrow> j1))
          else (s, j)
      | None \<Rightarrow> (s, j))"

fun check_each ::
  "(string \<Rightarrow> obj \<Rightarrow> 's \<Rightarrow> 's) \<Rightarrow> datetime \<Rightarrow> (string \<times> cron) list \<Rightarrow> (string \<times> scheduled_job) list \<Rightarrow>
   's \<Rightarrow> 's \<times> (string \<times> scheduled_job) list" where
  "check_each put now cs [] s = (s, [])"
| "check_each put now cs ((name, j) # js) s =
     (let (s1, j1) = (case map_of cs name of None \<Rightarrow> (s, j) | Some c \<Rightarrow> check_job put now name c j s);
          (s2, js2) = check_each put now cs js s1
      in (s2, (name, j1) # js2))"

definition check_schedules ::
  "(string \<Rightarrow> obj \<Rightarrow> 's \<Rightarrow> 's) \<Rightarrow> datetime \<Rightarrow> scheduler \<Rightarrow> 's \<Rightarrow> 's \<times> scheduler" where
  "check_schedules put now sch s =
     (let (s1, js) = check_each put now (crons sch) (jobs sch) s in (s1, sch\<lparr>jobs := js\<rparr>))"

definition run_now ::
  "(string \<Rightarrow> obj \<Rightarrow> 's \<Rightarrow> 's) \<Rightarrow> string \<Rightarrow> scheduler \<Rightarrow> 's \<Rightarrow> 's \<times> bool" where
  "run_now put name sch s =
     (case map_of (jobs sch) name of
        None \<Rightarrow> (s, False)
      | Some j \<Rightarrow> (put (s_task j) (scheduled_payload name True (s_payload j)) s, True))"

text \<open>Putting a scheduled job into the queue of the theory Jobs.\<close>

definition queue_put ::
  "'s redis \<Rightarrow> iso_format \<Rightarrow> job_queue \<Rightarrow> string \<Rightarrow> int \<Rightarrow> string \<Rightarrow> obj \<Rightarrow> 's \<Rightarrow> 's" where
  "queue_put R F Q uuid at tsk pl s = fst (submit R F Q uuid at tsk (Some pl) 0 None s)"

section \<open>What the search finds\<close>

text \<open>The number of a minute within its month.\<close>

definition minute_index :: "datetime \<Rightarrow> nat" where
  "minute_index t = (dt_day t * 24 + dt_hour t) * 60 + dt_minute t"

text \<open>A full minute of the same month.\<close>

definition same_month_minute :: "datetime \<Rightarrow> datetime \<Rightarrow> bool" where
  "same_month_minute t u =
     (valid_datetime u \<and> dt_year u = dt_year t \<and> dt_month u = dt_month t \<and>
      dt_second u = 0 \<and> dt_microsecond u = 0)"

lemma base_eq: "(a::nat) * k + x = b * k + y \<Longrightarrow> x < k \<Longrightarrow> y < k \<Longrightarrow> a = b \<and> x = y"
proof -
  assume eq: "a * k + x = b * k + y" and lt: "x < k" "y < k"
  from eq have "(a * k + x) div k = (b * k + y) div k" by simp
  with lt have "a = b" by simp
  with eq show ?thesis by simp
qed

lemma minute_index_inj:
  assumes "same_month_minute t u" and "same_month_minute t v" and "minute_index u = minute_index v"
  shows "u = v"
proof -
  have lt: "dt_minute u < 60" "dt_minute v < 60" "dt_hour u < 24" "dt_hour v < 24"
    using assms(1,2) by (simp_all add: same_month_minute_def valid_datetime_def)
  from base_eq [OF assms(3) [unfolded minute_index_def] lt(1,2)]
  have 1: "dt_day u * 24 + dt_hour u = dt_day v * 24 + dt_hour v" "dt_minute u = dt_minute v" by simp_all
  from base_eq [OF 1(1) lt(3,4)] have "dt_day u = dt_day v" "dt_hour u = dt_hour v" by simp_all
  with 1(2) assms(1,2) show ?thesis
    by (cases u; cases v) (simp add: same_month_minute_def)
qed

lemma days_in_month_le: "days_in_month y m \<le> 31"
  by (simp add: days_in_month_def)

lemma minute_index_bound: "valid_datetime u \<Longrightarrow> minute_index u < 46080"
proof -
  assume v: "valid_datetime u"
  then have "dt_day u \<le> 31" "dt_hour u < 24" "dt_minute u < 60"
    using days_in_month_le [of "dt_year u" "dt_month u"] by (auto simp: valid_datetime_def)
  then show ?thesis by (simp add: minute_index_def)
qed

lemma next_minute_Some:
  assumes "same_month_minute t u" and "next_minute u = Some v"
  shows "same_month_minute t v \<and> minute_index v = Suc (minute_index u)"
proof (cases u)
  case (DT y mo d h mi s us)
  have lt: "h < 24" "mi < 60" using assms(1) DT by (simp_all add: same_month_minute_def valid_datetime_def)
  consider "mi < 59" | "mi = 59" "h < 23" | "mi = 59" "h = 23" using lt by linarith
  then show ?thesis
    by cases (use assms DT in \<open>auto simp: next_minute_def same_month_minute_def valid_datetime_def
        minute_index_def split: if_splits\<close>)
qed

lemma next_minute_None:
  assumes "same_month_minute t u" and "next_minute u = None" and "same_month_minute t v"
  shows "minute_index v \<le> minute_index u"
proof (cases u)
  case (DT y mo d h mi s us)
  with assms(1,2) have last: "mi = 59" "h = 23" "\<not> d + 1 \<le> days_in_month y mo"
    by (auto simp: next_minute_def same_month_minute_def valid_datetime_def mod_Suc split: if_splits)
  have "dt_day v \<le> d" "dt_hour v < 24" "dt_minute v < 60"
    using assms(1,3) DT last(3) by (auto simp: same_month_minute_def valid_datetime_def)
  then show ?thesis by (simp add: minute_index_def DT last)
qed

lemma search_spec:
  assumes "same_month_minute t u" and "46080 \<le> n + minute_index u"
  shows "case search n c u of
      Inr v \<Rightarrow> same_month_minute t v \<and> minute_index u < minute_index v \<and> cron_matches c v \<and>
        (\<forall>w. same_month_minute t w \<longrightarrow> minute_index u < minute_index w \<longrightarrow> cron_matches c w \<longrightarrow>
             minute_index v \<le> minute_index w)
    | Inl e \<Rightarrow> e = ValueError \<and>
        (\<forall>w. same_month_minute t w \<longrightarrow> minute_index u < minute_index w \<longrightarrow> \<not> cron_matches c w)"
  using assms
proof (induction n arbitrary: u)
  case 0
  then show ?case using minute_index_bound [of u] by (simp add: same_month_minute_def)
next
  case (Suc n)
  show ?case
  proof (cases "next_minute u")
    case None
    have "\<not> minute_index u < minute_index w" if "same_month_minute t w" for w
      using next_minute_None [OF Suc.prems(1) None that] by simp
    with None show ?thesis by auto
  next
    case (Some v)
    note v = next_minute_Some [OF Suc.prems(1) Some]
    have only: "w = v" if "same_month_minute t w" "minute_index u < minute_index w" "minute_index w \<le> minute_index v" for w
      using that v minute_index_inj [of t w v] by linarith
    show ?thesis
    proof (cases "cron_matches c v")
      case True
      with Some v show ?thesis by auto
    next
      case False
      have "46080 \<le> n + minute_index v" using v Suc.prems(2) by simp
      note IH = Suc.IH [OF conjunct1 [OF v] this]
      have later: "minute_index u < minute_index w \<longleftrightarrow> minute_index v < minute_index w"
        if "same_month_minute t w" "cron_matches c w" for w
        using that only [of w] False v by (cases "minute_index w = minute_index v") auto
      have step: "search (Suc n) c u = search n c v" using Some False by simp
      show ?thesis
      proof (cases "search n c v")
        case (Inl e)
        with IH later show ?thesis unfolding step by auto
      next
        case (Inr x)
        with IH have x: "same_month_minute t x" "minute_index v < minute_index x" "cron_matches c x"
          and least: "\<And>w. same_month_minute t w \<Longrightarrow> minute_index v < minute_index w \<Longrightarrow>
            cron_matches c w \<Longrightarrow> minute_index x \<le> minute_index w"
          by auto
        with later v show ?thesis unfolding step Inr by auto
      qed
    qed
  qed
qed

lemma truncate_same_month: "valid_datetime t \<Longrightarrow> same_month_minute t (truncate_minute t)"
  by (cases t) (simp add: same_month_minute_def valid_datetime_def truncate_minute_def)

lemma truncate_index: "minute_index (truncate_minute t) = minute_index t"
  by (cases t) (simp add: minute_index_def truncate_minute_def)

text \<open>
  C33. What the search for the next run finds: the first full minute after the given time that
  matches the expression and lies in the same month; when the rest of the month has none, it raises
  a ValueError, since it tries to go to the day after the last one. It never finds a run in a later
  month.
\<close>

theorem next_run_exact:
  assumes "valid_datetime t"
  shows "case next_run c t of
      Inr v \<Rightarrow> same_month_minute t v \<and> minute_index t < minute_index v \<and> cron_matches c v \<and>
        (\<forall>w. same_month_minute t w \<and> minute_index t < minute_index w \<and> cron_matches c w \<longrightarrow>
             minute_index v \<le> minute_index w)
    | Inl e \<Rightarrow> e = ValueError \<and>
        \<not> (\<exists>w. same_month_minute t w \<and> minute_index t < minute_index w \<and> cron_matches c w)"
  using search_spec [OF truncate_same_month [OF assms], of 525600 c]
  by (auto simp: next_run_def truncate_index split: sum.splits)

definition daily_2am :: cron where
  "daily_2am = \<lparr>minutes = [0], hours = [2], days_of_month = [1..31], months = [1..12], days_of_week = [0..6]\<rparr>"

lemma last_day_no_run:
  assumes "2 \<le> h" and "h < 24" and "mi < 60" and "s < 60" and "us < 1000000"
  shows "valid_datetime (DT 2025 1 31 h mi s us) \<and> next_run daily_2am (DT 2025 1 31 h mi s us) = Inl ValueError"
proof
  let ?t = "DT 2025 1 31 h mi s us"
  show valid: "valid_datetime ?t" using assms by (simp add: valid_datetime_def days_in_month_def)
  have "\<not> cron_matches daily_2am w"
    if "same_month_minute ?t w" "minute_index ?t < minute_index w" for w
  proof
    assume "cron_matches daily_2am w"
    then have "dt_hour w = 2" "dt_minute w = 0" by (simp_all add: cron_matches_def daily_2am_def)
    moreover have "dt_day w \<le> 31"
      using that(1) days_in_month_le [of "dt_year w" "dt_month w"]
      unfolding same_month_minute_def valid_datetime_def by linarith
    ultimately show False using that(2) assms(1) by (simp add: minute_index_def)
  qed
  with search_spec [OF truncate_same_month [OF valid], of 525600 daily_2am]
  show "next_run daily_2am ?t = Inl ValueError"
    by (auto simp: next_run_def truncate_index split: sum.splits)
qed

theorem next_run_exact_witness:
  "next_run daily_2am (DT 2025 1 31 2 0 5 0) = Inl ValueError \<and>
   \<not> (\<exists>w. same_month_minute (DT 2025 1 31 2 0 5 0) w \<and>
          minute_index (DT 2025 1 31 2 0 5 0) < minute_index w \<and> cron_matches daily_2am w)"
proof -
  have "valid_datetime (DT 2025 1 31 2 0 5 0)" by (simp add: valid_datetime_def days_in_month_def)
  from next_run_exact [OF this, of daily_2am] last_day_no_run [of 2 0 5 0] show ?thesis by simp
qed

section \<open>Consequences for the scheduler\<close>

definition monthly_first :: cron where
  "monthly_first = \<lparr>minutes = [0], hours = [0], days_of_month = [1], months = [1..12], days_of_week = [0..6]\<rparr>"

lemma parse_monthly: "parse_cron ''0 0 1 * *'' = Inr monthly_first"
  by code_simp

text \<open>
  A monthly job can never be scheduled: \<open>add_job\<close> with the preset \<open>monthly_first\<close>
  (\<open>0 0 1 * *\<close>, midnight of the first day) raises a ValueError whatever the time of the call.
\<close>

lemma monthly_never_scheduled:
  assumes "valid_datetime now"
  shows "add_job name tsk ''0 0 1 * *'' pl en now sch = Inl ValueError"
proof -
  have "\<not> cron_matches monthly_first w"
    if "same_month_minute now w" "minute_index now < minute_index w" for w
  proof
    assume "cron_matches monthly_first w"
    then have "minute_index w = 1440"
      by (simp add: cron_matches_def monthly_first_def minute_index_def)
    moreover have "1 \<le> dt_day now" using assms by (simp add: valid_datetime_def)
    then have "1440 \<le> minute_index now" by (simp add: minute_index_def add_mult_distrib)
    ultimately show False using that(2) by simp
  qed
  with search_spec [OF truncate_same_month [OF assms], of 525600 monthly_first]
  have "next_run monthly_first now = Inl ValueError"
    by (auto simp: next_run_def truncate_index split: sum.splits)
  then show ?thesis by (simp add: add_job_def parse_monthly)
qed

lemma monthly_never_scheduled_witness:
  "add_job ''report'' None ''0 0 1 * *'' None True (DT 2025 1 1 0 0 0 0) \<lparr>jobs = [], crons = []\<rparr> = Inl ValueError"
  by (rule monthly_never_scheduled) (simp add: valid_datetime_def days_in_month_def)

text \<open>A log of what is put into the queue.\<close>

definition log_put :: "string \<Rightarrow> obj \<Rightarrow> (string \<times> obj) list \<Rightarrow> (string \<times> obj) list" where
  "log_put tsk pl log = log @ [(tsk, pl)]"

lemma check_single:
  assumes "enabled j" and "s_next_run j = Some t" and "t \<le> now" and "next_run c now = Inl e"
  shows "check_schedules log_put now \<lparr>jobs = [(name, j)], crons = [(name, c)]\<rparr> log =
    (log @ [(s_task j, scheduled_payload name False (s_payload j))],
     \<lparr>jobs = [(name, j\<lparr>last_run := Some now\<rparr>)], crons = [(name, c)]\<rparr>)"
  using assms by (simp add: check_schedules_def check_job_def log_put_def)

text \<open>
  When the next run of a due job cannot be computed, which happens to a daily job for the rest
  of the last day of a month, the job is submitted again at every check: after checks at any number
  of such times, there are as many copies of it in the queue.
\<close>

lemma due_job_resubmitted:
  assumes "enabled j" and "s_next_run j = Some t"
    and "\<forall>now \<in> set moments. t \<le> now \<and> next_run c now = Inl ValueError"
  shows "fst (fold (\<lambda>now (log, sch). check_schedules log_put now sch log) moments
      ([], \<lparr>jobs = [(name, j)], crons = [(name, c)]\<rparr>)) =
    replicate (length moments) (s_task j, scheduled_payload name False (s_payload j))"
proof -
  let ?x = "(s_task j, scheduled_payload name False (s_payload j))"
  have "fst (fold (\<lambda>now (log, sch). check_schedules log_put now sch log) ts
      (log, \<lparr>jobs = [(name, j\<lparr>last_run := lr\<rparr>)], crons = [(name, c)]\<rparr>)) = log @ replicate (length ts) ?x"
    if "set ts \<subseteq> set moments" for ts log lr
    using that
  proof (induction ts arbitrary: log lr)
    case (Cons now ts)
    with assms have "t \<le> now" "next_run c now = Inl ValueError" by auto
    with check_single [of "j\<lparr>last_run := lr\<rparr>" t now c ValueError name log] assms(1,2) Cons
    show ?case by simp
  qed simp
  from this [of moments "[]" "last_run j"] show ?thesis by simp
qed

lemma due_job_resubmitted_witness:
  "length (fst (fold (\<lambda>now (log, sch). check_schedules log_put now sch log)
     [DT 2025 1 31 2 0 5 0, DT 2025 1 31 2 1 5 0, DT 2025 1 31 2 2 5 0]
     ([], \<lparr>jobs = [(''cleanup'', \<lparr>s_name = ''cleanup'', s_task = ''cleanup'', s_cron = ''0 2 * * *'',
        s_payload = [], enabled = True, last_run = None, s_next_run = Some (DT 2025 1 31 2 0 0 0)\<rparr>)],
       crons = [(''cleanup'', daily_2am)]\<rparr>))) = 3"
proof -
  let ?j = "\<lparr>s_name = ''cleanup'', s_task = ''cleanup'', s_cron = ''0 2 * * *'',
        s_payload = [], enabled = True, last_run = None, s_next_run = Some (DT 2025 1 31 2 0 0 0)\<rparr>"
  let ?moments = "[DT 2025 1 31 2 0 5 0, DT 2025 1 31 2 1 5 0, DT 2025 1 31 2 2 5 0]"
  have "\<forall>now \<in> set ?moments. DT 2025 1 31 2 0 0 0 \<le> now \<and> next_run daily_2am now = Inl ValueError"
    using last_day_no_run [of 2 0 5 0] last_day_no_run [of 2 1 5 0] last_day_no_run [of 2 2 5 0]
    by (simp add: less_eq_datetime_def)
  from due_job_resubmitted [of ?j "DT 2025 1 31 2 0 0 0" ?moments daily_2am "''cleanup''", OF _ _ this]
  show ?thesis by simp
qed

end
