(* ===== verification/Conflicts.thy ===== *)
theory Conflicts
  imports Prelude
begin

text \<open>
  Conflicts between the local and the remote version of an entity
  (\<open>src/titan/federation/conflicts.py\<close>): the resolution strategies and the manager that keeps the
  conflicts of a federation.
\<close>

section \<open>Documents and timestamps\<close>

text \<open>
  A \<open>datetime\<close> is aware of its offset, then it is an instant, or naive, then it is a local time; both
  in microseconds. Python compares two of the same kind and raises a TypeError for a mixed pair.
  Parsing (\<open>datetime.fromisoformat\<close>) is a parameter, \<open>None\<close> its ValueError.
\<close>

datatype timestamp = Aware int | Naive int

fun ts_less :: "timestamp \<Rightarrow> timestamp \<Rightarrow> py_exn + bool" where
  "ts_less (Aware a) (Aware b) = Inr (a < b)"
| "ts_less (Naive a) (Naive b) = Inr (a < b)"
| "ts_less _ _ = Inl TypeError"

text \<open>A document is a dictionary whose values are JSON values or \<open>datetime\<close> objects.\<close>

datatype field_value = Plain json | Time timestamp

type_synonym doc = "(string \<times> field_value) list"

type_synonym iso_parser = "string \<Rightarrow> timestamp option"

text \<open>\<open>value.replace("Z", "+00:00")\<close>\<close>

definition replace_Z :: "string \<Rightarrow> string" where
  "replace_Z s = concat (map (\<lambda>c. if c = CHR ''Z'' then ''+00:00'' else [c]) s)"

definition field_timestamp :: "iso_parser \<Rightarrow> field_value option \<Rightarrow> timestamp option" where
  "field_timestamp parse v =
     (case v of
        Some (Time t) \<Rightarrow> Some t
      | Some (Plain (JStr s)) \<Rightarrow> if s = [] then None else parse (replace_Z s)
      | _ \<Rightarrow> None)"

fun first_timestamp :: "iso_parser \<Rightarrow> doc \<Rightarrow> string list \<Rightarrow> timestamp option" where
  "first_timestamp parse d [] = None"
| "first_timestamp parse d (f # fs) =
     (case field_timestamp parse (map_of d f) of
        Some t \<Rightarrow> Some t
      | None \<Rightarrow> first_timestamp parse d fs)"

definition extract_timestamp :: "iso_parser \<Rightarrow> doc \<Rightarrow> timestamp option" where
  "extract_timestamp parse d =
     first_timestamp parse d [''updated_at'', ''updatedAt'', ''_updated_at'', ''modified'']"

section \<open>Conflicts and strategies\<close>

datatype strategy = LAST_WRITE_WINS | LOCAL_PREFERRED | REMOTE_PREFERRED | MANUAL

record conflict =
  c_id :: string
  peer_id :: string
  entity_type :: string
  entity_id :: string
  local_doc :: doc
  local_etag :: string
  remote_doc :: doc
  remote_etag :: string
  detected_at :: int
  resolution_strategy :: "strategy option"
  resolved_at :: "int option"
  resolved_by :: "string option"

definition is_resolved :: "conflict \<Rightarrow> bool" where
  "is_resolved c = (resolved_at c \<noteq> None)"

datatype resolve_error =
    ManualRequired | ResolutionRaised py_exn | ConflictNotFound string | AlreadyResolved

record resolution =
  success :: bool
  chosen_doc :: "doc option"
  strategy_applied :: "strategy option"
  error :: "resolve_error option"

definition chose :: "doc \<Rightarrow> strategy \<Rightarrow> resolution" where
  "chose d s = \<lparr>success = True, chosen_doc = Some d, strategy_applied = Some s, error = None\<rparr>"

definition refused :: "resolve_error \<Rightarrow> strategy option \<Rightarrow> resolution" where
  "refused e s = \<lparr>success = False, chosen_doc = None, strategy_applied = s, error = Some e\<rparr>"

definition resolve_last_write_wins :: "iso_parser \<Rightarrow> conflict \<Rightarrow> py_exn + resolution" where
  "resolve_last_write_wins parse c =
     (case (extract_timestamp parse (remote_doc c), extract_timestamp parse (local_doc c)) of
        (Some r, Some l) \<Rightarrow>
          bindE (ts_less l r) (\<lambda>later.
            Inr (chose (if later then remote_doc c else local_doc c) LAST_WRITE_WINS))
      | (Some r, None) \<Rightarrow> Inr (chose (remote_doc c) LAST_WRITE_WINS)
      | (None, _) \<Rightarrow> Inr (chose (local_doc c) LAST_WRITE_WINS))"

definition resolve_local_preferred :: "conflict \<Rightarrow> resolution" where
  "resolve_local_preferred c = chose (local_doc c) LOCAL_PREFERRED"

definition resolve_remote_preferred :: "conflict \<Rightarrow> resolution" where
  "resolve_remote_preferred c = chose (remote_doc c) REMOTE_PREFERRED"

text \<open>\<open>resolve\<close> with the resolver's default strategy; every exception becomes a failed result.\<close>

definition resolve :: "iso_parser \<Rightarrow> strategy \<Rightarrow> conflict \<Rightarrow> strategy option \<Rightarrow> resolution" where
  "resolve parse default_strategy c s =
     (case (case s of None \<Rightarrow> default_strategy | Some s' \<Rightarrow> s') of
        MANUAL \<Rightarrow> refused ManualRequired (Some MANUAL)
      | LAST_WRITE_WINS \<Rightarrow>
          (case resolve_last_write_wins parse c of
             Inr r \<Rightarrow> r
           | Inl e \<Rightarrow> refused (ResolutionRaised e) (Some LAST_WRITE_WINS))
      | LOCAL_PREFERRED \<Rightarrow> resolve_local_preferred c
      | REMOTE_PREFERRED \<Rightarrow> resolve_remote_preferred c)"

section \<open>The manager\<close>

text \<open>
  The manager's dictionary in insertion order; \<open>upd\<close> keeps the place of a key that is there. The
  resolver and the clock are arguments: \<open>clock cid\<close> is the time at which the conflict \<open>cid\<close> is
  resolved.
\<close>

type_synonym manager = "(string \<times> conflict) list"

definition add_conflict :: "conflict \<Rightarrow> manager \<Rightarrow> manager" where
  "add_conflict c m = AList.update (c_id c) c m"

definition get_conflict :: "manager \<Rightarrow> string \<Rightarrow> conflict option" where
  "get_conflict m cid = map_of m cid"

definition list_unresolved :: "manager \<Rightarrow> string option \<Rightarrow> conflict list" where
  "list_unresolved m peer =
     (let cs = filter (\<lambda>c. \<not> is_resolved c) (map snd m) in
      case peer of
        None \<Rightarrow> cs
      | Some p \<Rightarrow> if p = [] then cs else filter (\<lambda>c. peer_id c = p) cs)"

definition mark_resolved :: "resolution \<Rightarrow> int \<Rightarrow> string option \<Rightarrow> conflict \<Rightarrow> conflict" where
  "mark_resolved r now by_whom c =
     c\<lparr>resolution_strategy := strategy_applied r, resolved_at := Some now, resolved_by := by_whom\<rparr>"

definition resolve_conflict ::
  "(conflict \<Rightarrow> strategy option \<Rightarrow> resolution) \<Rightarrow> (string \<Rightarrow> int) \<Rightarrow> string \<Rightarrow> strategy option \<Rightarrow>
   string option \<Rightarrow> manager \<Rightarrow> manager \<times> resolution" where
  "resolve_conflict rs clock cid s by_whom m =
     (case get_conflict m cid of
        None \<Rightarrow> (m, refused (ConflictNotFound cid) None)
      | Some c \<Rightarrow>
          if is_resolved c then (m, refused AlreadyResolved (resolution_strategy c))
          else (let r = rs c s in
                (if success r then AList.update cid (mark_resolved r (clock cid) by_whom c) m else m, r)))"

fun resolve_each ::
  "(conflict \<Rightarrow> strategy option \<Rightarrow> resolution) \<Rightarrow> (string \<Rightarrow> int) \<Rightarrow> strategy option \<Rightarrow>
   string option \<Rightarrow> conflict list \<Rightarrow> manager \<times> (string \<times> resolution) list \<Rightarrow>
   manager \<times> (string \<times> resolution) list" where
  "resolve_each rs clock s by_whom [] st = st"
| "resolve_each rs clock s by_whom (c # cs) (m, results) =
     (let (m', r) = resolve_conflict rs clock (c_id c) s by_whom m
      in resolve_each rs clock s by_whom cs (m', AList.update (c_id c) r results))"

definition resolve_all ::
  "(conflict \<Rightarrow> strategy option \<Rightarrow> resolution) \<Rightarrow> (string \<Rightarrow> int) \<Rightarrow> string option \<Rightarrow> strategy option \<Rightarrow>
   string option \<Rightarrow> manager \<Rightarrow> manager \<times> (string \<times> resolution) list" where
  "resolve_all rs clock peer s by_whom m =
     resolve_each rs clock s by_whom (list_unresolved m peer) (m, [])"

definition clear_resolved :: "manager \<Rightarrow> manager \<times> nat" where
  "clear_resolved m =
     (let ids = map fst (filter (\<lambda>(_, c). is_resolved c) m)
      in (fold AList.delete ids m, length ids))"

section \<open>Last write wins\<close>

definition mirror :: "conflict \<Rightarrow> conflict" where
  "mirror c = c\<lparr>local_doc := remote_doc c, local_etag := remote_etag c,
                remote_doc := local_doc c, remote_etag := local_etag c\<rparr>"

lemma chose_sel [simp]:
  "success (chose d s)" "chosen_doc (chose d s) = Some d" "strategy_applied (chose d s) = Some s"
  by (simp_all add: chose_def)

lemma refused_sel [simp]: "\<not> success (refused e s)" "chosen_doc (refused e s) = None"
  by (simp_all add: refused_def)

lemma resolve_chooses:
  "success (resolve parse d c s) \<longleftrightarrow> chosen_doc (resolve parse d c s) \<noteq> None"
  by (auto simp: resolve_def resolve_local_preferred_def resolve_remote_preferred_def
      resolve_last_write_wins_def errs split: option.splits strategy.splits sum.splits)

text \<open>The instant or local time by which two timestamps of the same kind are compared.\<close>

fun comparable :: "timestamp option \<Rightarrow> timestamp option \<Rightarrow> bool" where
  "comparable (Some (Aware _)) (Some (Naive _)) = False"
| "comparable (Some (Naive _)) (Some (Aware _)) = False"
| "comparable _ _ = True"

text \<open>
  Two peers that resolve the same conflict by last write wins, each from its own side, both
  succeed exactly when they do not compare a timestamp with an offset to one without; and then they
  choose the same document exactly when the documents are equal or the timestamps are not the same:
  with equal timestamps, or none at all, each peer keeps its own version and the two stay apart.
\<close>

lemma lww_converges:
  fixes parse :: iso_parser and c :: conflict and d :: strategy
  defines "l \<equiv> extract_timestamp parse (local_doc c)"
    and "r \<equiv> extract_timestamp parse (remote_doc c)"
    and "here \<equiv> resolve parse d c (Some LAST_WRITE_WINS)"
    and "there \<equiv> resolve parse d (mirror c) (Some LAST_WRITE_WINS)"
  shows "(success here \<longleftrightarrow> comparable l r) \<and> (success there \<longleftrightarrow> comparable l r) \<and>
    (success here \<longrightarrow> (chosen_doc here = chosen_doc there \<longleftrightarrow> local_doc c = remote_doc c \<or> l \<noteq> r))"
  unfolding here_def there_def l_def r_def
  by (cases "extract_timestamp parse (local_doc c)" rule: option.exhaust;
      cases "extract_timestamp parse (remote_doc c)" rule: option.exhaust)
     (auto simp: resolve_def resolve_last_write_wins_def mirror_def errs
       elim!: ts_less.elims split: sum.splits)

lemma lww_converges_witness:
  "let c = \<lparr>c_id = ''1'', peer_id = ''p'', entity_type = ''aas'', entity_id = ''x'',
     local_doc = [(''modified'', Time (Aware 5))], local_etag = ''a'',
     remote_doc = [(''updated_at'', Plain (JStr ''T''))], remote_etag = ''b'', detected_at = 0,
     resolution_strategy = None, resolved_at = None, resolved_by = None\<rparr>
   in chosen_doc (resolve (\<lambda>_. Some (Aware 9)) MANUAL c (Some LAST_WRITE_WINS)) =
      chosen_doc (resolve (\<lambda>_. Some (Aware 9)) MANUAL (mirror c) (Some LAST_WRITE_WINS))"
  using lww_converges [of "\<lambda>_. Some (Aware 9)" MANUAL "\<lparr>c_id = ''1'', peer_id = ''p'',
    entity_type = ''aas'', entity_id = ''x'',
     local_doc = [(''modified'', Time (Aware 5))], local_etag = ''a'',
     remote_doc = [(''updated_at'', Plain (JStr ''T''))], remote_etag = ''b'', detected_at = 0,
     resolution_strategy = None, resolved_at = None, resolved_by = None\<rparr>"]
  by (simp add: Let_def extract_timestamp_def field_timestamp_def replace_Z_def)

section \<open>The manager's operations\<close>

definition manager_ok :: "manager \<Rightarrow> bool" where
  "manager_ok m = (distinct (map fst m) \<and> (\<forall>(k, c) \<in> set m. c_id c = k))"

lemma manager_ok_map_of: "manager_ok m \<Longrightarrow> (k, c) \<in> set m \<longleftrightarrow> map_of m k = Some c"
  unfolding manager_ok_def by simp

lemma manager_ok_id: "manager_ok m \<Longrightarrow> map_of m k = Some c \<Longrightarrow> c_id c = k"
  by (auto simp: manager_ok_def dest!: map_of_SomeD)

lemma add_conflict_ok: "manager_ok m \<Longrightarrow> manager_ok (add_conflict c m)"
proof -
  have "(k, x) \<in> set (AList.update (c_id c) c m) \<Longrightarrow> (k, x) = (c_id c, c) \<or> (k, x) \<in> set m" for k x
    by (induction m) (auto split: if_splits)
  then show "manager_ok m \<Longrightarrow> manager_ok (add_conflict c m)"
    by (fastforce simp: manager_ok_def add_conflict_def distinct_update)
qed

lemma update_as_map:
  "manager_ok m \<Longrightarrow> map_of m (c_id c) = Some c \<Longrightarrow>
   AList.update (c_id c) v m = map (\<lambda>(k, x). (k, if x = c then v else x)) m"
proof (induction m)
  case (Cons kx m)
  obtain k x where kx: "kx = (k, x)" by (cases kx)
  have ok: "manager_ok m" and idx: "c_id x = k" and fresh: "k \<notin> fst ` set m"
    using Cons.prems(1) kx by (auto simp: manager_ok_def)
  show ?case
  proof (cases "k = c_id c")
    case True
    with Cons.prems(2) kx have "x = c" by simp
    moreover from fresh True have "(k', x') \<in> set m \<Longrightarrow> x' \<noteq> c" for k' x'
      using ok by (force simp: manager_ok_def)
    then have "map (\<lambda>(k, x). (k, if x = c then v else x)) m = m"
      by (intro map_idI) auto
    ultimately show ?thesis using kx True by simp
  next
    case False
    with Cons.prems(2) kx idx Cons.IH [OF ok] show ?thesis by auto
  qed
qed simp

lemma c_id_mark [simp]: "c_id (mark_resolved r now b c) = c_id c"
  by (simp add: mark_resolved_def)

text \<open>A conflict after an attempt to resolve it.\<close>

definition attempted ::
  "(conflict \<Rightarrow> strategy option \<Rightarrow> resolution) \<Rightarrow> (string \<Rightarrow> int) \<Rightarrow> strategy option \<Rightarrow>
   string option \<Rightarrow> conflict \<Rightarrow> conflict" where
  "attempted rs clock s by_whom c =
     (if success (rs c s) then mark_resolved (rs c s) (clock (c_id c)) by_whom c else c)"

lemma c_id_attempted [simp]: "c_id (attempted rs clock s b c) = c_id c"
  by (simp add: attempted_def)

lemma manager_ok_map:
  "manager_ok m \<Longrightarrow> (\<And>c. c_id (f c) = c_id c) \<Longrightarrow> manager_ok (map (\<lambda>(k, x). (k, f x)) m)"
  by (auto simp: manager_ok_def comp_def case_prod_beta')

lemma resolve_conflict_unresolved:
  assumes "manager_ok m" and "map_of m (c_id c) = Some c" and "\<not> is_resolved c"
  shows "resolve_conflict rs clock (c_id c) s b m =
    (map (\<lambda>(k, x). (k, if x = c then attempted rs clock s b c else x)) m, rs c s)"
proof -
  have "map (\<lambda>(k, x). (k, if x = c then attempted rs clock s b c else x)) m = m"
    if "\<not> success (rs c s)"
    using that by (intro map_idI) (auto simp: attempted_def)
  with assms show ?thesis
    by (auto simp: resolve_conflict_def get_conflict_def attempted_def update_as_map Let_def)
qed

lemma update_fresh: "k \<notin> fst ` set xs \<Longrightarrow> AList.update k v xs = xs @ [(k, v)]"
  by (induction xs) auto

lemma resolve_each_spec:
  assumes "manager_ok m" and "distinct (map c_id cs)"
    and "\<And>c. c \<in> set cs \<Longrightarrow> map_of m (c_id c) = Some c \<and> \<not> is_resolved c"
    and "fst ` set res \<inter> c_id ` set cs = {}"
  shows "resolve_each rs clock s b cs (m, res) =
    (map (\<lambda>(k, x). (k, if x \<in> set cs then attempted rs clock s b x else x)) m,
     res @ map (\<lambda>c. (c_id c, rs c s)) cs)"
  using assms
proof (induction cs arbitrary: m res)
  case Nil
  have "map (\<lambda>(k, x). (k, x)) m = m" by (intro map_idI) auto
  then show ?case by simp
next
  case (Cons c cs)
  let ?f = "\<lambda>x. if x = c then attempted rs clock s b c else x"
  let ?m = "map (\<lambda>(k, x). (k, ?f x)) m"
  have c: "map_of m (c_id c) = Some c" "\<not> is_resolved c" using Cons.prems(3) by auto
  have fresh: "c_id x \<noteq> c_id c" "x \<noteq> c" if "x \<in> set cs" for x
    using Cons.prems(2) that by (auto simp: image_iff)
  have ok: "manager_ok ?m"
    by (rule manager_ok_map [OF Cons.prems(1)]) auto
  have mem: "map_of ?m (c_id x) = Some x \<and> \<not> is_resolved x" if "x \<in> set cs" for x
    using Cons.prems(3) [of x] fresh [OF that] that by (simp add: map_of_map)
  have "resolve_each rs clock s b (c # cs) (m, res) =
      resolve_each rs clock s b cs (?m, res @ [(c_id c, rs c s)])"
    using Cons.prems(4) by (simp add: resolve_conflict_unresolved [OF Cons.prems(1) c] update_fresh)
  also have "\<dots> = (map (\<lambda>(k, x). (k, if x \<in> set cs then attempted rs clock s b x else x)) ?m,
     (res @ [(c_id c, rs c s)]) @ map (\<lambda>c. (c_id c, rs c s)) cs)"
    using Cons.prems(2,4) ok mem by (intro Cons.IH) auto
  also have "map (\<lambda>(k, x). (k, if x \<in> set cs then attempted rs clock s b x else x)) ?m =
      map (\<lambda>(k, x). (k, if x \<in> set (c # cs) then attempted rs clock s b x else x)) m"
    using fresh(1) by (fastforce simp: c_id_attempted)
  finally show ?case by simp
qed

lemma list_unresolved_set:
  "c \<in> set (list_unresolved m peer) \<longleftrightarrow>
   c \<in> snd ` set m \<and> \<not> is_resolved c \<and> (peer = None \<or> peer = Some [] \<or> peer = Some (peer_id c))"
  by (auto simp: list_unresolved_def Let_def split: option.splits)

lemma list_unresolved_distinct: "manager_ok m \<Longrightarrow> distinct (map c_id (list_unresolved m peer))"
proof -
  assume ok: "manager_ok m"
  then have "map (c_id \<circ> snd) m = map fst m" by (auto simp: manager_ok_def)
  with ok have "distinct (map c_id (map snd m))"
    unfolding map_map by (metis manager_ok_def)
  then show ?thesis
    by (auto simp: list_unresolved_def Let_def intro: distinct_map_filter split: option.splits)
qed

text \<open>
  \<open>resolve_all\<close> attempts exactly the unresolved conflicts of the peer asked for (of all peers,
  when none is named), each once and independently of the others: the results are those of the
  resolver on each, in the manager's order; a conflict is marked resolved, with the strategy applied,
  the time and the name given, exactly when its own attempt succeeded; every other conflict is left
  as it was.
\<close>

lemma resolve_all_exact:
  assumes "manager_ok m"
  shows "resolve_all rs clock peer s b m =
    (map (\<lambda>(k, x). (k, if \<not> is_resolved x \<and> (peer = None \<or> peer = Some [] \<or> peer = Some (peer_id x)) \<and>
                           success (rs x s)
                         then x\<lparr>resolution_strategy := strategy_applied (rs x s),
                                resolved_at := Some (clock k), resolved_by := b\<rparr>
                         else x)) m,
     map (\<lambda>c. (c_id c, rs c s)) (list_unresolved m peer))"
proof -
  have "map_of m (c_id c) = Some c \<and> \<not> is_resolved c" if "c \<in> set (list_unresolved m peer)" for c
    using that assms manager_ok_map_of [OF assms] by (force simp: list_unresolved_set manager_ok_def)
  then have "resolve_all rs clock peer s b m =
    (map (\<lambda>(k, x). (k, if x \<in> set (list_unresolved m peer) then attempted rs clock s b x else x)) m,
     map (\<lambda>c. (c_id c, rs c s)) (list_unresolved m peer))"
    using resolve_each_spec [OF assms list_unresolved_distinct [OF assms], of peer "[]"]
    by (simp add: resolve_all_def)
  then show ?thesis
    using assms by (auto simp: list_unresolved_set attempted_def mark_resolved_def manager_ok_def
        intro!: image_eqI [where x = "(_, _)"])
qed

lemma resolve_all_exact_witness:
  "let c = \<lparr>c_id = ''1'', peer_id = ''p'', entity_type = ''aas'', entity_id = ''x'',
     local_doc = [], local_etag = ''a'', remote_doc = [], remote_etag = ''b'', detected_at = 0,
     resolution_strategy = None, resolved_at = None, resolved_by = None\<rparr>
   in map_of (fst (resolve_all (resolve Map.empty LOCAL_PREFERRED) (\<lambda>_. 7) None None (Some ''u'') [(''1'', c)])) ''1''
      = Some (c\<lparr>resolution_strategy := Some LOCAL_PREFERRED, resolved_at := Some 7, resolved_by := Some ''u''\<rparr>)"
proof -
  have ok: "manager_ok [(''1'', \<lparr>c_id = ''1'', peer_id = ''p'', entity_type = ''aas'', entity_id = ''x'',
     local_doc = [], local_etag = ''a'', remote_doc = [], remote_etag = ''b'', detected_at = 0,
     resolution_strategy = None, resolved_at = None, resolved_by = None\<rparr>)]"
    by (simp add: manager_ok_def)
  show ?thesis
    using resolve_all_exact [OF ok, of "resolve Map.empty LOCAL_PREFERRED" "\<lambda>_. 7" None None "Some ''u''"]
    by (simp add: Let_def is_resolved_def resolve_def resolve_local_preferred_def)
qed

text \<open>Clearing.\<close>

lemma fold_delete: "fold AList.delete ks m = filter (\<lambda>(k, _). k \<notin> set ks) m"
proof (induction ks arbitrary: m)
  case (Cons k ks)
  then show ?case by (simp add: AList.delete_eq) (auto intro: filter_cong)
qed (simp add: case_prod_beta')

lemma clear_resolved_filter:
  assumes "manager_ok m"
  shows "clear_resolved m =
    (filter (\<lambda>(_, c). \<not> is_resolved c) m, length (filter (\<lambda>(_, c). is_resolved c) m))"
proof -
  have "k \<in> fst ` {x \<in> set m. case x of (_, c) \<Rightarrow> is_resolved c} \<longleftrightarrow> is_resolved c"
    if "(k, c) \<in> set m" for k c
    using that manager_ok_map_of [OF assms] by (force simp: image_iff)
  then have "filter (\<lambda>(k, _). k \<notin> fst ` {x \<in> set m. case x of (_, c) \<Rightarrow> is_resolved c}) m =
      filter (\<lambda>(_, c). \<not> is_resolved c) m"
    by (intro filter_cong) auto
  then show ?thesis by (simp add: clear_resolved_def Let_def fold_delete)
qed

lemma map_of_update_other:
  "k \<noteq> k' \<Longrightarrow> map_of (AList.update k v m) k' = map_of m k'"
  by (simp add: update_conv')

text \<open>
  A resolution is final: once a conflict is resolved, resolving it again is refused with
  \<open>Conflict already resolved\<close>, and no call of \<open>resolve_conflict\<close> or \<open>resolve_all\<close>, for whatever
  conflict or peer, changes it. It leaves the manager only by \<open>clear_resolved\<close>, which removes exactly
  the resolved conflicts, reports their number, and keeps the list of unresolved ones.
\<close>

lemma resolution_is_final:
  assumes ok: "manager_ok m" and c: "map_of m cid = Some c" and res: "is_resolved c"
  shows "resolve_conflict rs clock cid s b m = (m, refused AlreadyResolved (resolution_strategy c)) \<and>
    get_conflict (fst (resolve_conflict rs clock cid' s b m)) cid = Some c \<and>
    get_conflict (fst (resolve_all rs clock peer s b m)) cid = Some c \<and>
    get_conflict (fst (clear_resolved m)) cid = None \<and>
    snd (clear_resolved m) + length (fst (clear_resolved m)) = length m \<and>
    list_unresolved (fst (clear_resolved m)) peer = list_unresolved m peer"
proof (intro conjI)
  show refuse: "resolve_conflict rs clock cid s b m =
      (m, refused AlreadyResolved (resolution_strategy c))"
    using c res by (simp add: resolve_conflict_def get_conflict_def)
  show "get_conflict (fst (resolve_conflict rs clock cid' s b m)) cid = Some c"
  proof (cases "cid' = cid")
    case True
    with refuse c show ?thesis by (simp add: get_conflict_def)
  next
    case False
    with c show ?thesis
      by (auto simp: resolve_conflict_def get_conflict_def map_of_update_other Let_def
          split: option.splits)
  qed
  show "get_conflict (fst (resolve_all rs clock peer s b m)) cid = Some c"
  proof -
    have mem: "x \<in> set (list_unresolved m peer) \<Longrightarrow>
        map_of m (c_id x) = Some x \<and> \<not> is_resolved x" for x
      using ok manager_ok_map_of [OF ok] by (force simp: list_unresolved_set manager_ok_def)
    have "c \<notin> set (list_unresolved m peer)" using res by (simp add: list_unresolved_set)
    with c show ?thesis
      using resolve_each_spec [OF ok list_unresolved_distinct [OF ok] mem, of peer "[]" rs clock s b]
      by (simp add: resolve_all_def get_conflict_def map_of_map)
  qed
  show "get_conflict (fst (clear_resolved m)) cid = None"
    using c res manager_ok_map_of [OF ok]
    by (auto simp: clear_resolved_filter [OF ok] get_conflict_def map_of_eq_None_iff)
  show "snd (clear_resolved m) + length (fst (clear_resolved m)) = length m"
    using sum_length_filter_compl [of "\<lambda>(_, c). is_resolved c" m]
    by (simp add: clear_resolved_filter [OF ok] case_prod_beta')
  have "filter (\<lambda>c. \<not> is_resolved c) (map snd (filter (\<lambda>(_, c). \<not> is_resolved c) m)) =
      filter (\<lambda>c. \<not> is_resolved c) (map snd m)"
    by (simp add: filter_map comp_def case_prod_beta')
  then show "list_unresolved (fst (clear_resolved m)) peer = list_unresolved m peer"
    by (simp add: clear_resolved_filter [OF ok] list_unresolved_def)
qed

lemma resolution_is_final_witness:
  "snd (resolve_conflict (resolve Map.empty LOCAL_PREFERRED) (\<lambda>_. 7) ''1'' None None
     [(''1'', \<lparr>c_id = ''1'', peer_id = ''p'', entity_type = ''aas'', entity_id = ''x'',
        local_doc = [], local_etag = ''a'', remote_doc = [], remote_etag = ''b'', detected_at = 0,
        resolution_strategy = Some REMOTE_PREFERRED, resolved_at = Some 3, resolved_by = None\<rparr>)]) =
   refused AlreadyResolved (Some REMOTE_PREFERRED)"
  (is "snd (resolve_conflict ?rs ?clock _ _ _ [(_, ?c)]) = _")
proof -
  have "manager_ok [(''1'', ?c)]" and "map_of [(''1'', ?c)] ''1'' = Some ?c" and "is_resolved ?c"
    by (simp_all add: manager_ok_def is_resolved_def)
  from conjunct1 [OF resolution_is_final [OF this, of ?rs ?clock None None]] show ?thesis by simp
qed

end
