(* ===== verification/Federation.thy ===== *)
theory Federation
  imports Http Conflicts
begin

text \<open>
  Synchronisation between federated instances (\<open>src/titan/federation/sync.py\<close>) and the registry of
  peers (\<open>src/titan/federation/peer.py\<close>): the queue of local changes, pushing them to the peers,
  pulling the peers' entities, and the conflicts handed to the manager of theory \<open>Conflicts\<close>.
  The peers' answers, the clock, \<open>uuid4\<close>, the hash of a document and the callback for local data are
  parameters.
\<close>

section \<open>The queue of changes\<close>

record change =
  sc_id :: string
  sc_entity_type :: string
  sc_entity_id :: string
  sc_operation :: string
  sc_doc :: "json option"
  sc_etag :: "string option"
  sc_time :: int

record change_queue =
  changes :: "change list"
  max_size :: int

text \<open>\<open>xs[i:]\<close>: a negative index counts from the end.\<close>

definition slice_from :: "int \<Rightarrow> 'a list \<Rightarrow> 'a list" where
  "slice_from i xs = drop (nat (if i < 0 then int (length xs) + i else i)) xs"

definition queue_add :: "change \<Rightarrow> change_queue \<Rightarrow> change_queue" where
  "queue_add c q =
     (let kept = (if max_size q \<le> int (length (changes q))
                  then slice_from (- max_size q + 1) (changes q) else changes q)
      in q\<lparr>changes := kept @ [c]\<rparr>)"

definition get_pending :: "int option \<Rightarrow> change_queue \<Rightarrow> change list" where
  "get_pending since q =
     (case since of None \<Rightarrow> changes q | Some t \<Rightarrow> filter (\<lambda>c. t < sc_time c) (changes q))"

definition mark_synced :: "string list \<Rightarrow> change_queue \<Rightarrow> change_queue \<times> nat" where
  "mark_synced ids q =
     (let rest = filter (\<lambda>c. sc_id c \<notin> set ids) (changes q)
      in (q\<lparr>changes := rest\<rparr>, length (changes q) - length rest))"

definition clear_queue :: "change_queue \<Rightarrow> change_queue" where
  "clear_queue q = q\<lparr>changes := []\<rparr>"

section \<open>Peers\<close>

datatype peer_status = ONLINE | OFFLINE | DEGRADED | UNKNOWN

record capabilities =
  aas_repository :: bool
  submodel_repository :: bool
  aas_registry :: bool
  submodel_registry :: bool
  aasx_server :: bool
  read_only :: bool
  max_payload_size :: int

definition default_capabilities :: capabilities where
  "default_capabilities =
     \<lparr>aas_repository = True, submodel_repository = True, aas_registry = False,
      submodel_registry = False, aasx_server = False, read_only = False,
      max_payload_size = 10 * 1024 * 1024\<rparr>"

record peer =
  p_id :: string
  p_url :: string
  p_name :: "string option"
  p_status :: peer_status
  p_capabilities :: capabilities
  p_last_seen :: "int option"
  p_last_sync :: "int option"
  p_version :: json

definition is_healthy :: "peer \<Rightarrow> bool" where
  "is_healthy p = (p_status p = ONLINE)"

text \<open>
  The registry holds references to peers, which the callers share: the objects are a table from
  addresses, the registry a dictionary from ids to addresses.
\<close>

record registry =
  heap :: "nat \<Rightarrow> peer"
  peers :: "(string \<times> nat) list"
  has_client :: bool

definition set_peer :: "nat \<Rightarrow> (peer \<Rightarrow> peer) \<Rightarrow> registry \<Rightarrow> registry" where
  "set_peer a f r = r\<lparr>heap := (heap r)(a := f (heap r a))\<rparr>"

definition register :: "nat \<Rightarrow> registry \<Rightarrow> registry" where
  "register a r = r\<lparr>peers := AList.update (p_id (heap r a)) a (peers r)\<rparr>"

definition unregister :: "string \<Rightarrow> registry \<Rightarrow> registry \<times> bool" where
  "unregister pid r =
     (if map_of (peers r) pid \<noteq> None then (r\<lparr>peers := AList.delete pid (peers r)\<rparr>, True)
      else (r, False))"

definition get_peer :: "registry \<Rightarrow> string \<Rightarrow> nat option" where
  "get_peer r pid = map_of (peers r) pid"

definition list_all_peers :: "registry \<Rightarrow> nat list" where
  "list_all_peers r = map snd (peers r)"

definition list_healthy :: "registry \<Rightarrow> nat list" where
  "list_healthy r = filter (\<lambda>a. is_healthy (heap r a)) (map snd (peers r))"

subsection \<open>Health\<close>

text \<open>
  The answer to the health request: a status with the body (\<open>None\<close> when \<open>response.json()\<close> raises), a
  timeout, another error of the transport, or an exception that is neither (a URL \<open>httpx\<close> rejects).
\<close>

datatype health_reply = Health nat "json option" | TimedOut | Unreachable | HealthRaised string

definition check_health :: "health_reply \<Rightarrow> int \<Rightarrow> nat \<Rightarrow> registry \<Rightarrow> string + registry \<times> peer_status" where
  "check_health reply now a r =
     (if \<not> has_client r then Inr (r, UNKNOWN)
      else case reply of
        Health n body \<Rightarrow>
          (let r' = (if n = 200
             then set_peer a (\<lambda>p. p\<lparr>p_status := ONLINE, p_last_seen := Some now,
                    p_version := (case body of Some (JDict d) \<Rightarrow> dget d ''version'' | _ \<Rightarrow> p_version p)\<rparr>) r
             else set_peer a (\<lambda>p. p\<lparr>p_status := DEGRADED\<rparr>) r)
           in Inr (r', p_status (heap r' a)))
      | HealthRaised e \<Rightarrow> Inl e
      | _ \<Rightarrow> Inr (set_peer a (\<lambda>p. p\<lparr>p_status := OFFLINE\<rparr>) r, OFFLINE))"

text \<open>
  The loop over all peers; the second result is the exception that ended it. The first exception
  leaves the peers after it unchecked.
\<close>

fun check_each ::
  "(nat \<Rightarrow> health_reply) \<Rightarrow> int \<Rightarrow> nat list \<Rightarrow> registry \<times> (string \<times> peer_status) list \<Rightarrow>
   registry \<times> (string + (string \<times> peer_status) list)" where
  "check_each reply now [] (r, res) = (r, Inr res)"
| "check_each reply now (a # as) (r, res) =
     (case check_health (reply a) now a r of
        Inl e \<Rightarrow> (r, Inl e)
      | Inr (r', s) \<Rightarrow> check_each reply now as (r', AList.update (p_id (heap r a)) s res))"

definition check_all_health ::
  "(nat \<Rightarrow> health_reply) \<Rightarrow> int \<Rightarrow> registry \<Rightarrow> registry \<times> (string + (string \<times> peer_status) list)" where
  "check_all_health reply now r = check_each reply now (list_all_peers r) (r, [])"

text \<open>One turn of the background loop: its handler logs the exception and the loop goes on.\<close>

definition health_turn :: "(nat \<Rightarrow> health_reply) \<Rightarrow> int \<Rightarrow> registry \<Rightarrow> registry" where
  "health_turn reply now r = fst (check_all_health reply now r)"

text \<open>\<open>key in paths\<close> for a JSON value.\<close>

fun py_in :: "string \<Rightarrow> json \<Rightarrow> py_exn + bool" where
  "py_in k (JDict d) = Inr (dhas d k)"
| "py_in k (JList xs) = Inr (JStr k \<in> set xs)"
| "py_in k (JStr s) = Inr (\<exists>i \<in> set [0..<Suc (length s)]. take (length k) (drop i s) = k)"
| "py_in k _ = Inl TypeError"

definition capabilities_of :: "json \<Rightarrow> py_exn + capabilities" where
  "capabilities_of paths =
     bindE (py_in ''/shells'' paths) (\<lambda>a. bindE (py_in ''/submodels'' paths) (\<lambda>b.
     bindE (py_in ''/shell-descriptors'' paths) (\<lambda>c. bindE (py_in ''/submodel-descriptors'' paths) (\<lambda>d.
     bindE (py_in ''/packages'' paths) (\<lambda>e.
       Inr (default_capabilities\<lparr>aas_repository := a, submodel_repository := b, aas_registry := c,
              submodel_registry := d, aasx_server := e\<rparr>))))))"

definition discover_capabilities :: "page \<Rightarrow> nat \<Rightarrow> registry \<Rightarrow> registry \<times> capabilities" where
  "discover_capabilities reply a r =
     (let r' = (if \<not> has_client r then r else case reply of
        PageOf (JDict spec) \<Rightarrow>
          (case capabilities_of (dget_or spec ''paths'' (JDict [])) of
             Inr caps \<Rightarrow> set_peer a (\<lambda>p. p\<lparr>p_capabilities := caps\<rparr>) r
           | Inl _ \<Rightarrow> r)
      | _ \<Rightarrow> r)
      in (r', p_capabilities (heap r' a)))"

section \<open>State of the synchronisation\<close>

datatype sync_mode = PULL | PUSH | BIDIRECTIONAL

datatype topology = MESH | HUB_SPOKE

text \<open>
  The settings; \<open>simple_etag\<close> is \<open>_compute_simple_etag\<close> (a hash of the sorted JSON text),
  \<open>show_id\<close> prints an id that is not a string inside \<open>f"{entity_type}:{entity_id}"\<close>, \<open>uuid\<close> gives
  the \<open>n\<close>-th identifier from \<open>uuid4\<close>.
\<close>

record settings =
  mode :: sync_mode
  topology_of :: topology
  delta_sync_enabled :: bool
  hub_peer_id :: "string option"
  local_data :: "(string \<Rightarrow> json \<Rightarrow> doc option) option"
  simple_etag :: "obj \<Rightarrow> string"
  show_id :: "json \<Rightarrow> string"
  uuid :: "nat \<Rightarrow> string"

record federation =
  reg :: registry
  queue :: change_queue
  etag_store :: "string \<Rightarrow> string option"
  manager :: manager
  uuids_used :: nat

definition fresh_uuid :: "settings \<Rightarrow> federation \<Rightarrow> string" where
  "fresh_uuid cfg st = uuid cfg (uuids_used st)"

definition track_change ::
  "settings \<Rightarrow> int \<Rightarrow> string \<Rightarrow> string \<Rightarrow> string \<Rightarrow> json option \<Rightarrow> string option \<Rightarrow>
   federation \<Rightarrow> federation" where
  "track_change cfg now etype eid op d tag st =
     (let c = \<lparr>sc_id = fresh_uuid cfg st, sc_entity_type = etype, sc_entity_id = eid,
               sc_operation = op, sc_doc = d, sc_etag = tag, sc_time = now\<rparr>
      in st\<lparr>queue := queue_add c (queue st), uuids_used := Suc (uuids_used st),
            etag_store := (case tag of
                Some (t # ts) \<Rightarrow> (etag_store st)(etype @ '':'' @ eid := Some (t # ts))
              | _ \<Rightarrow> etag_store st)\<rparr>)"

definition clear_pending_changes :: "federation \<Rightarrow> federation \<times> nat" where
  "clear_pending_changes st = (st\<lparr>queue := clear_queue (queue st)\<rparr>, length (changes (queue st)))"

definition get_sync_peers :: "settings \<Rightarrow> registry \<Rightarrow> nat list" where
  "get_sync_peers cfg r =
     (if topology_of cfg = HUB_SPOKE then
        (case hub_peer_id cfg of
           Some (h # hs) \<Rightarrow>
             (case get_peer r (h # hs) of
                Some a \<Rightarrow> if is_healthy (heap r a) then [a] else []
              | None \<Rightarrow> [])
         | _ \<Rightarrow> list_healthy r)
      else list_healthy r)"

section \<open>Pushing\<close>

definition push_endpoint :: "string \<Rightarrow> string option" where
  "push_endpoint etype =
     (if etype = ''aas'' then Some ''/shells''
      else if etype = ''submodel'' then Some ''/submodels''
      else if etype = ''concept_description'' then Some ''/concept-descriptions'' else None)"

definition url_encode_id :: "string \<Rightarrow> string" where
  "url_encode_id s = encoded_id s"

text \<open>The body of the \<open>try\<close>, whose exception is the left value; then the function with its handler.\<close>

definition push_body ::
  "(json option http_request \<Rightarrow> http_reply) \<Rightarrow> string \<Rightarrow> change \<Rightarrow> string + bool" where
  "push_body net url c =
     (let entity_url = url @ ''/'' @ url_encode_id (sc_entity_id c);
          answer = (\<lambda>rq codes. case net rq of Raised e \<Rightarrow> Inl e | Replied n \<Rightarrow> Inr (n \<in> codes))
      in if sc_operation c = ''create'' then answer (POST url (sc_doc c)) {201, 409}
         else if sc_operation c = ''update'' then answer (PUT entity_url (sc_doc c)) {200, 204}
         else if sc_operation c = ''delete'' then answer (DELETE entity_url) {204, 404}
         else Inr False)"

definition push_single_change ::
  "(json option http_request \<Rightarrow> http_reply) \<Rightarrow> string \<Rightarrow> change \<Rightarrow> string + bool" where
  "push_single_change net peer_url c =
     (case push_endpoint (sc_entity_type c) of
        None \<Rightarrow> Inr False
      | Some endpoint \<Rightarrow>
          (case push_body net (peer_url @ endpoint) c of Inl e \<Rightarrow> Inr False | Inr b \<Rightarrow> Inr b))"

text \<open>
  One turn of the loop over the changes of the snapshot, with the ids synced so far (\<open>pushed\<close> counts
  them); then the whole loop, where \<open>net k\<close> answers the \<open>k\<close>-th turn.
\<close>

definition push_one ::
  "(json option http_request \<Rightarrow> http_reply) \<Rightarrow> string \<Rightarrow> change \<Rightarrow> string list \<Rightarrow> string list" where
  "push_one net url c ids =
     (case push_single_change net url c of
        Inr True \<Rightarrow> ids @ [sc_id c]
      | _ \<Rightarrow> ids)"

fun push_each ::
  "(nat \<Rightarrow> json option http_request \<Rightarrow> http_reply) \<Rightarrow> string \<Rightarrow> nat \<Rightarrow> change list \<Rightarrow>
   string list \<Rightarrow> string list" where
  "push_each net url k [] ids = ids"
| "push_each net url k (c # cs) ids = push_each net url (Suc k) cs (push_one (net k) url c ids)"

definition outstanding :: "settings \<Rightarrow> federation \<Rightarrow> nat \<Rightarrow> change list" where
  "outstanding cfg st a =
     get_pending (if delta_sync_enabled cfg then p_last_sync (heap (reg st) a) else None) (queue st)"

definition drop_synced :: "string list \<Rightarrow> federation \<Rightarrow> federation" where
  "drop_synced ids st = (if ids = [] then st else st\<lparr>queue := fst (mark_synced ids (queue st))\<rparr>)"

definition push_to_peer ::
  "settings \<Rightarrow> (nat \<Rightarrow> json option http_request \<Rightarrow> http_reply) \<Rightarrow> nat \<Rightarrow> federation \<Rightarrow>
   federation \<times> (string + nat)" where
  "push_to_peer cfg net a st =
     (case outstanding cfg st a of
        [] \<Rightarrow> (st, Inr 0)
      | c # cs \<Rightarrow>
          (let ids = push_each net (p_url (heap (reg st) a)) 0 (c # cs) []
           in (drop_synced ids st, Inr (length ids))))"

section \<open>Pulling\<close>

definition id_text :: "settings \<Rightarrow> json \<Rightarrow> string" where
  "id_text cfg v = (case v of JStr s \<Rightarrow> s | _ \<Rightarrow> show_id cfg v)"

definition plain_doc :: "obj \<Rightarrow> doc" where
  "plain_doc d = map (\<lambda>(k, v). (k, Plain v)) d"

text \<open>One entity of a peer; the left value is the exception of an item that is no dictionary.\<close>

definition check_and_handle_conflict ::
  "settings \<Rightarrow> int \<Rightarrow> string \<Rightarrow> string \<Rightarrow> json \<Rightarrow> federation \<Rightarrow> federation \<times> (py_exn + bool)" where
  "check_and_handle_conflict cfg now peer etype item st =
     (case item of
        JDict d \<Rightarrow>
          (let eid = dget_or d ''id'' (JStr []); rtag = simple_etag cfg d in
           case etag_store st (etype @ '':'' @ id_text cfg eid) of
             None \<Rightarrow> (st, Inr False)
           | Some ltag \<Rightarrow>
               if ltag = rtag then (st, Inr False)
               else (case (case local_data cfg of None \<Rightarrow> None | Some f \<Rightarrow> f etype eid) of
                       None \<Rightarrow> (st, Inr False)
                     | Some ldoc \<Rightarrow>
                         (st\<lparr>manager := add_conflict
                               \<lparr>c_id = fresh_uuid cfg st, peer_id = peer, entity_type = etype,
                                entity_id = id_text cfg eid, local_doc = ldoc, local_etag = ltag,
                                remote_doc = plain_doc d, remote_etag = rtag, detected_at = now,
                                resolution_strategy = None, resolved_at = None, resolved_by = None\<rparr>
                               (manager st),
                             uuids_used := Suc (uuids_used st)\<rparr>, Inr True)))
      | _ \<Rightarrow> (st, Inl AttributeError))"

text \<open>The counters of a pull: items without and with a conflict.\<close>

type_synonym counts = "nat \<times> nat"

text \<open>The items of a page; \<open>False\<close> when one raised, which ends the pull of this type.\<close>

fun pull_items ::
  "settings \<Rightarrow> int \<Rightarrow> string \<Rightarrow> string \<Rightarrow> json list \<Rightarrow> federation \<times> counts \<Rightarrow>
   (federation \<times> counts) \<times> bool" where
  "pull_items cfg now peer etype [] acc = (acc, True)"
| "pull_items cfg now peer etype (i # is) (st, n, m) =
     (case check_and_handle_conflict cfg now peer etype i st of
        (st', Inl _) \<Rightarrow> ((st', n, m), False)
      | (st', Inr True) \<Rightarrow> pull_items cfg now peer etype is (st', n, Suc m)
      | (st', Inr False) \<Rightarrow> pull_items cfg now peer etype is (st', Suc n, m))"

text \<open>One turn of the loop \<open>while True\<close>, with the next cursor if there is another turn.\<close>

definition pull_page ::
  "settings \<Rightarrow> int \<Rightarrow> string \<Rightarrow> string \<Rightarrow> page \<Rightarrow> federation \<times> counts \<Rightarrow>
   (federation \<times> counts) \<times> json option" where
  "pull_page cfg now peer etype pg acc =
     (case pg of
        PageOf (JDict data) \<Rightarrow>
          (let items = dget_or data ''result'' (JList []) in
           if \<not> truthy items then (acc, None)
           else case py_iter items of
             Inl _ \<Rightarrow> (acc, None)
           | Inr is \<Rightarrow>
               (case pull_items cfg now peer etype is acc of
                  (acc', False) \<Rightarrow> (acc', None)
                | (acc', True) \<Rightarrow>
                    (case dget_or data ''paging_metadata'' (JDict []) of
                       JDict pm \<Rightarrow> (let cur = dget pm ''cursor'' in
                                     (acc', if truthy cur then Some cur else None))
                     | _ \<Rightarrow> (acc', None))))
      | _ \<Rightarrow> (acc, None))"

fun pull_loop ::
  "nat \<Rightarrow> settings \<Rightarrow> hub_pages \<Rightarrow> int \<Rightarrow> string \<Rightarrow> string \<Rightarrow> string \<Rightarrow> nat \<Rightarrow> json option \<Rightarrow>
   federation \<times> counts \<Rightarrow> (federation \<times> counts) option" where
  "pull_loop 0 cfg pages now peer etype url k cur acc = None"
| "pull_loop (Suc fuel) cfg pages now peer etype url k cur acc =
     (case pull_page cfg now peer etype (pages k url cur) acc of
        (acc', None) \<Rightarrow> Some acc'
      | (acc', Some cur') \<Rightarrow>
          pull_loop fuel cfg pages now peer etype url (Suc k) (Some cur') acc')"

definition pull_entity_type ::
  "nat \<Rightarrow> settings \<Rightarrow> hub_pages \<Rightarrow> int \<Rightarrow> nat \<Rightarrow> string \<Rightarrow> string \<Rightarrow> federation \<Rightarrow>
   (federation \<times> counts) option" where
  "pull_entity_type fuel cfg pages now a etype endpoint st =
     (let p = heap (reg st) a
      in pull_loop fuel cfg pages now (p_id p) etype (p_url p @ endpoint) 0 None (st, 0, 0))"

definition pull_from_peer ::
  "nat \<Rightarrow> settings \<Rightarrow> hub_pages \<Rightarrow> int \<Rightarrow> nat \<Rightarrow> federation \<Rightarrow>
   (federation \<times> (string + counts)) option" where
  "pull_from_peer fuel cfg pages now a st =
     (case pull_entity_type fuel cfg pages now a ''aas'' ''/shells'' st of
        None \<Rightarrow> None
      | Some (st1, n1, m1) \<Rightarrow>
          (case pull_entity_type fuel cfg pages now a ''submodel'' ''/submodels'' st1 of
             None \<Rightarrow> None
           | Some (st2, n2, m2) \<Rightarrow> Some (st2, Inr (n1 + n2, m1 + m2))))"

section \<open>One cycle\<close>

record sync_result =
  r_peer :: string
  r_success :: bool
  r_pushed :: nat
  r_pulled :: nat
  r_conflicts :: nat
  r_errors :: "string list"

text \<open>What one peer does during the cycle, and the time at which the cycle is through with it.\<close>

record responses =
  replies :: "nat \<Rightarrow> json option http_request \<Rightarrow> http_reply"
  answers :: hub_pages
  finished_at :: int

definition fail_result :: "sync_result \<Rightarrow> string \<Rightarrow> sync_result" where
  "fail_result r e = r\<lparr>r_success := False, r_errors := r_errors r @ [e]\<rparr>"

definition sync_with_peer ::
  "nat \<Rightarrow> settings \<Rightarrow> responses \<Rightarrow> nat \<Rightarrow> federation \<Rightarrow> (federation \<times> sync_result) option" where
  "sync_with_peer fuel cfg rs a st =
     (let r0 = \<lparr>r_peer = p_id (heap (reg st) a), r_success = True, r_pushed = 0, r_pulled = 0,
                r_conflicts = 0, r_errors = []\<rparr>;
          (st1, pushed) = (if mode cfg \<in> {PUSH, BIDIRECTIONAL}
                           then push_to_peer cfg (replies rs) a st else (st, Inr 0))
      in case pushed of
           Inl e \<Rightarrow> Some (st1, fail_result r0 e)
         | Inr n \<Rightarrow>
             (let r1 = r0\<lparr>r_pushed := n\<rparr> in
              if mode cfg \<in> {PULL, BIDIRECTIONAL}
              then (case pull_from_peer fuel cfg (answers rs) (finished_at rs) a st1 of
                      None \<Rightarrow> None
                    | Some (st2, Inl e) \<Rightarrow> Some (st2, fail_result r1 e)
                    | Some (st2, Inr (k, m)) \<Rightarrow> Some (st2, r1\<lparr>r_pulled := k, r_conflicts := m\<rparr>))
              else Some (st1, r1)))"

definition set_last_sync :: "nat \<Rightarrow> int \<Rightarrow> federation \<Rightarrow> federation" where
  "set_last_sync a t st = st\<lparr>reg := set_peer a (\<lambda>p. p\<lparr>p_last_sync := Some t\<rparr>) (reg st)\<rparr>"

text \<open>
  The loop over the peers; \<open>world a\<close> is what the peer at \<open>a\<close> does. Its \<open>except\<close> is unreachable:
  \<open>_sync_with_peer\<close> catches every exception itself.
\<close>

fun sync_each ::
  "nat \<Rightarrow> settings \<Rightarrow> (nat \<Rightarrow> responses) \<Rightarrow> nat list \<Rightarrow> federation \<times> sync_result list \<Rightarrow>
   (federation \<times> sync_result list) option" where
  "sync_each fuel cfg world [] acc = Some acc"
| "sync_each fuel cfg world (a # as) (st, res) =
     (case sync_with_peer fuel cfg (world a) a st of
        None \<Rightarrow> None
      | Some (st', r) \<Rightarrow>
          sync_each fuel cfg world as (set_last_sync a (finished_at (world a)) st', res @ [r]))"

datatype overall = Skipped | Completed | Partial | Failed

record summary =
  s_peers :: nat
  s_synced :: nat
  s_status :: overall
  s_pushed :: nat
  s_pulled :: nat
  s_conflicts :: nat
  s_pending :: nat
  s_errors :: "string list"

definition summarise :: "sync_result list \<Rightarrow> federation \<Rightarrow> summary" where
  "summarise res st =
     (let successful = length (filter r_success res) in
      \<lparr>s_peers = length res, s_synced = successful,
       s_status = (if successful = length res then Completed
                   else if 0 < successful then Partial else Failed),
       s_pushed = sum_list (map r_pushed res), s_pulled = sum_list (map r_pulled res),
       s_conflicts = sum_list (map r_conflicts res), s_pending = length (changes (queue st)),
       s_errors = take 10 (concat (map r_errors res))\<rparr>)"

definition sync_once ::
  "nat \<Rightarrow> settings \<Rightarrow> (nat \<Rightarrow> responses) \<Rightarrow> federation \<Rightarrow> (federation \<times> summary) option" where
  "sync_once fuel cfg world st =
     (case get_sync_peers cfg (reg st) of
        [] \<Rightarrow> Some (st, \<lparr>s_peers = 0, s_synced = 0, s_status = Skipped, s_pushed = 0, s_pulled = 0,
                       s_conflicts = 0, s_pending = length (changes (queue st)), s_errors = []\<rparr>)
      | a # as \<Rightarrow>
          (case sync_each fuel cfg world (a # as) (st, []) of
             None \<Rightarrow> None
           | Some (st', res) \<Rightarrow> Some (st', summarise res st')))"

definition resolve_conflicts ::
  "(conflict \<Rightarrow> strategy option \<Rightarrow> resolution) \<Rightarrow> (string \<Rightarrow> int) \<Rightarrow> strategy \<Rightarrow> string option \<Rightarrow>
   federation \<Rightarrow> federation \<times> nat \<times> nat" where
  "resolve_conflicts rs clock s peer st =
     (let (m, results) = resolve_all rs clock peer (Some s) (Some ''federation_sync'') (manager st);
          resolved = length (filter (success \<circ> snd) results)
      in (st\<lparr>manager := m\<rparr>, resolved, length results - resolved))"

section \<open>The queue's bound\<close>

lemma slice_from_suffix: "\<exists>pre. xs = pre @ slice_from i xs"
  unfolding slice_from_def by (metis append_take_drop_id)

lemma set_slice_from: "set (slice_from i xs) \<subseteq> set xs"
  by (simp add: slice_from_def set_drop_subset)

lemma queue_add_changes:
  "\<exists>pre kept. changes q = pre @ kept \<and> changes (queue_add c q) = kept @ [c]"
  using slice_from_suffix [of "changes q" "- max_size q + 1"]
  by (auto simp: queue_add_def Let_def)

lemma max_size_queue_add [simp]: "max_size (queue_add c q) = max_size q"
  by (simp add: queue_add_def Let_def)

lemma changes_full:
  assumes "2 \<le> max_size q" and "max_size q \<le> int (length (changes q))"
  shows "changes (queue_add c q) =
    drop (length (changes q) - nat (max_size q - 1)) (changes q) @ [c]"
proof -
  have "nat (int (length (changes q)) + (1 - max_size q)) = length (changes q) - nat (max_size q - 1)"
    using assms by linarith
  with assms show ?thesis by (simp add: queue_add_def slice_from_def Let_def)
qed

lemma changes_room: "int (length (changes q)) < max_size q \<Longrightarrow> changes (queue_add c q) = changes q @ [c]"
  by (simp add: queue_add_def)

lemma changes_one: "max_size q = 1 \<Longrightarrow> changes (queue_add c q) = changes q @ [c]"
  by (simp add: queue_add_def slice_from_def)

lemma changes_nonpositive: "max_size q \<le> 0 \<Longrightarrow> length (changes q) \<le> 1 \<Longrightarrow> changes (queue_add c q) = [c]"
  by (cases "changes q") (simp_all add: queue_add_def slice_from_def)

lemma queue_add_bound:
  "max_size q \<noteq> 1 \<Longrightarrow> int (length (changes q)) \<le> max 1 (max_size q) \<Longrightarrow>
   int (length (changes (queue_add c q))) \<le> max 1 (max_size q)"
proof -
  assume a: "max_size q \<noteq> 1" "int (length (changes q)) \<le> max 1 (max_size q)"
  consider "max_size q \<le> 0" | "2 \<le> max_size q" "max_size q \<le> int (length (changes q))"
    | "2 \<le> max_size q" "int (length (changes q)) < max_size q"
    using a(1) by linarith
  then show ?thesis
  proof cases
    case 1
    with a(2) have "length (changes q) \<le> 1" by simp
    with changes_nonpositive [OF 1, of c] show ?thesis by simp
  qed (use a in \<open>auto simp: changes_full changes_room\<close>)
qed

lemma fold_queue_add_size [simp]: "max_size (fold queue_add cs q) = max_size q"
  by (induction cs arbitrary: q) simp_all

text \<open>
  The queue of changes keeps at most its maximum size (at least one), dropping the oldest, for
  every maximum but one: a queue of maximum size 1 never drops anything, because \<open>xs[-1 + 1:]\<close> is
  the whole list.
\<close>

lemma queue_bounded_unless_one:
  "(n \<noteq> 1 \<longrightarrow> int (length (changes (fold queue_add cs \<lparr>changes = [], max_size = n\<rparr>))) \<le> max 1 n) \<and>
   changes (fold queue_add cs \<lparr>changes = [], max_size = 1\<rparr>) = cs"
proof -
  have "int (length (changes (fold queue_add cs q))) \<le> max 1 (max_size q)"
    if "max_size q \<noteq> 1" and "int (length (changes q)) \<le> max 1 (max_size q)" for q
    using that
  proof (induction cs arbitrary: q)
    case (Cons c cs)
    with queue_add_bound [of q c] Cons.IH [of "queue_add c q"] show ?case by simp
  qed simp
  from this [of "\<lparr>changes = [], max_size = n\<rparr>"]
  have "n \<noteq> 1 \<longrightarrow> int (length (changes (fold queue_add cs \<lparr>changes = [], max_size = n\<rparr>))) \<le> max 1 n"
    by simp
  moreover have "changes (fold queue_add cs q) = changes q @ cs" if "max_size q = 1" for q
    using that by (induction cs arbitrary: q) (simp_all add: changes_one)
  then have "changes (fold queue_add cs \<lparr>changes = [], max_size = 1\<rparr>) = cs" by simp
  ultimately show ?thesis by blast
qed

definition sample_sync_change :: "string \<Rightarrow> int \<Rightarrow> change" where
  "sample_sync_change i t = \<lparr>sc_id = i, sc_entity_type = ''aas'', sc_entity_id = ''x'',
     sc_operation = ''create'', sc_doc = Some (JDict []), sc_etag = None, sc_time = t\<rparr>"

lemma queue_bounded_unless_one_witness:
  "length (changes (fold queue_add [sample_sync_change ''1'' 0, sample_sync_change ''2'' 1,
     sample_sync_change ''3'' 2] \<lparr>changes = [], max_size = 2\<rparr>)) \<le> 2 \<and>
   length (changes (fold queue_add [sample_sync_change ''1'' 0, sample_sync_change ''2'' 1,
     sample_sync_change ''3'' 2] \<lparr>changes = [], max_size = 1\<rparr>)) = 3"
  using queue_bounded_unless_one [of 2 "[sample_sync_change ''1'' 0, sample_sync_change ''2'' 1,
     sample_sync_change ''3'' 2]"]
  by auto

section \<open>What a cycle reports\<close>

lemma push_to_peer_Inr: "\<exists>n. push_to_peer cfg net a st = (fst (push_to_peer cfg net a st), Inr n)"
  by (auto simp: push_to_peer_def Let_def split: list.split)

lemma pull_from_peer_Inr:
  "pull_from_peer fuel cfg pages now a st = Some (st', x) \<Longrightarrow> \<exists>k m. x = Inr (k, m)"
  by (auto simp: pull_from_peer_def split: option.splits prod.splits)

lemma sync_with_peer_succeeds:
  assumes "sync_with_peer fuel cfg rs a st = Some (st', r)"
  shows "r_success r \<and> r_errors r = []"
proof -
  obtain n where "push_to_peer cfg (replies rs) a st = (fst (push_to_peer cfg (replies rs) a st), Inr n)"
    using push_to_peer_Inr by blast
  then obtain st1 n' where st1: "(if mode cfg \<in> {PUSH, BIDIRECTIONAL}
      then push_to_peer cfg (replies rs) a st else (st, Inr 0)) = (st1, Inr n')"
    by (cases "mode cfg \<in> {PUSH, BIDIRECTIONAL}") auto
  show ?thesis
    using assms unfolding sync_with_peer_def st1
    by (auto simp: Let_def split: if_splits option.splits sum.splits prod.splits dest: pull_from_peer_Inr)
qed

lemma sync_each_succeeds:
  "sync_each fuel cfg world as (st, res) = Some (st', res') \<Longrightarrow>
   \<exists>new. res' = res @ new \<and> length new = length as \<and> (\<forall>r \<in> set new. r_success r \<and> r_errors r = [])"
proof (induction as arbitrary: st res)
  case (Cons a as)
  from Cons.prems obtain st1 r where st1: "sync_with_peer fuel cfg (world a) a st = Some (st1, r)"
    and rest: "sync_each fuel cfg world as (set_last_sync a (finished_at (world a)) st1, res @ [r]) =
               Some (st', res')"
    by (auto split: option.splits prod.splits)
  from Cons.IH [OF rest] obtain new where new: "res' = (res @ [r]) @ new" "length new = length as"
    "\<forall>r \<in> set new. r_success r \<and> r_errors r = []" by blast
  with sync_with_peer_succeeds [OF st1] show ?case by (intro exI [of _ "r # new"]) simp
qed simp

lemma sum_list_zero: "(\<And>x. x \<in> set xs \<Longrightarrow> f x = (0::nat)) \<Longrightarrow> sum_list (map f xs) = 0"
  by (induction xs) simp_all

lemma pull_loop_down: "pull_loop (Suc n) cfg (\<lambda>_ _ _. PageRaised) now peer t url k cur acc = Some acc"
  by (simp add: pull_page_def)

lemma push_each_none:
  "(\<And>k c ids. c \<in> set cs \<Longrightarrow> push_one (net k) url c ids = ids) \<Longrightarrow> push_each net url k cs ids = ids"
  by (induction cs arbitrary: k) simp_all

lemma push_one_down: "(\<And>rq. \<exists>e. net rq = Raised e) \<Longrightarrow> push_one net url c ids = ids"
proof -
  assume down: "\<And>rq. \<exists>e. net rq = Raised e"
  have "push_body net u c \<noteq> Inr True" for u
    using down [of "POST u (sc_doc c)"] down [of "PUT (u @ ''/'' @ url_encode_id (sc_entity_id c)) (sc_doc c)"]
      down [of "DELETE (u @ ''/'' @ url_encode_id (sc_entity_id c))"]
    by (auto simp: push_body_def Let_def split: http_reply.splits)
  then show ?thesis
    by (auto simp: push_one_def push_single_change_def split: option.split sum.split bool.split)
qed

definition down :: "responses \<Rightarrow> bool" where
  "down rs = ((\<forall>k rq. \<exists>e. replies rs k rq = Raised e) \<and> answers rs = (\<lambda>_ _ _. PageRaised))"

lemma sync_with_peer_down:
  assumes "down rs"
  shows "\<exists>r. sync_with_peer (Suc n) cfg rs a st = Some (st, r) \<and> r_pushed r = 0 \<and> r_pulled r = 0 \<and>
    r_conflicts r = 0"
proof -
  have "push_each (replies rs) url k cs [] = []" for url k cs
    using assms by (intro push_each_none push_one_down) (simp add: down_def)
  then have push: "push_to_peer cfg (replies rs) a st = (st, Inr 0)"
    by (simp add: push_to_peer_def drop_synced_def del: push_each.simps split: list.split)
  have "pull_from_peer (Suc n) cfg (answers rs) now a st = Some (st, Inr (0, 0))" for now
    using assms
    by (simp add: pull_from_peer_def pull_entity_type_def Let_def down_def pull_loop_down
        del: pull_loop.simps)
  with push show ?thesis
    by (simp add: sync_with_peer_def Let_def)
qed

lemma sync_once_down:
  assumes as: "get_sync_peers cfg (reg st) = a # as" and d: "\<forall>a. down (world a)"
  shows "\<exists>st' s. sync_once 1 cfg world st = Some (st', s) \<and> s_pushed s = 0 \<and> s_pulled s = 0 \<and>
  queue st' = queue st"
proof -
  have "\<exists>st' res'. sync_each 1 cfg world bs (st0, res) = Some (st', res') \<and> queue st' = queue st0 \<and>
      (\<forall>r \<in> set res'. r \<in> set res \<or> (r_pushed r = 0 \<and> r_pulled r = 0))" for bs st0 res
  proof (induction bs arbitrary: st0 res)
    case (Cons b bs)
    from d sync_with_peer_down [of "world b" 0 cfg b st0] obtain r where
      r: "sync_with_peer 1 cfg (world b) b st0 = Some (st0, r)" "r_pushed r = 0" "r_pulled r = 0"
      by auto
    with Cons.IH [of "set_last_sync b (finished_at (world b)) st0" "res @ [r]"] show ?case
      by (force simp: set_last_sync_def)
  qed simp
  from this [of "a # as" st "[]"] obtain st' res' where
    "sync_each 1 cfg world (a # as) (st, []) = Some (st', res')" and "queue st' = queue st"
    and "\<forall>r \<in> set res'. r_pushed r = 0 \<and> r_pulled r = 0" by auto
  then show ?thesis
    by (simp add: sync_once_def as summarise_def sum_list_zero Let_def del: sync_each.simps)
  qed

text \<open>
  A cycle with at least one peer that comes to an end reports itself as completed without an
  error, whatever the peers answered: every failure is caught below \<open>_sync_with_peer\<close>. In
  particular a cycle in which every request to every peer fails ends, is reported as completed, with
  all peers synced and nothing pushed or pulled.
\<close>

lemma sync_always_completed:
  fixes st :: federation
  assumes peers: "get_sync_peers cfg (reg st) \<noteq> []"
  shows "(\<forall>fuel world st' s. sync_once fuel cfg world st = Some (st', s) \<longrightarrow>
            s_status s = Completed \<and> s_errors s = [] \<and>
            s_synced s = length (get_sync_peers cfg (reg st))) \<and>
    (\<forall>world. (\<forall>a. down (world a)) \<longrightarrow> (\<exists>st' s. sync_once 1 cfg world st = Some (st', s) \<and>
            s_pushed s = 0 \<and> s_pulled s = 0 \<and> queue st' = queue st))"
proof -
  obtain a as where as: "get_sync_peers cfg (reg st) = a # as"
    using peers by (cases "get_sync_peers cfg (reg st)") auto
  have "s_status s = Completed \<and> s_errors s = [] \<and> s_synced s = Suc (length as)"
    if "sync_once fuel cfg world st = Some (st', s)" for fuel world st' s
  proof -
    from that as obtain res where each: "sync_each fuel cfg world (a # as) (st, []) = Some (st', res)"
      and s: "s = summarise res st'"
      by (auto simp: sync_once_def simp del: sync_each.simps split: option.splits)
    from sync_each_succeeds [OF each] have ok: "length res = Suc (length as)"
      "\<forall>r \<in> set res. r_success r \<and> r_errors r = []" by auto
    then have "filter r_success res = res" and "concat (map r_errors res) = []"
      by (simp_all add: filter_id_conv)
    with ok(1) s show ?thesis by (simp add: summarise_def)
  qed
  moreover note sync_once_down [OF as]
  ultimately show ?thesis using as by simp
qed

definition sample_peer :: "string \<Rightarrow> peer" where
  "sample_peer i = \<lparr>p_id = i, p_url = ''http://'' @ i, p_name = None, p_status = ONLINE,
     p_capabilities = default_capabilities, p_last_seen = None, p_last_sync = None, p_version = JNull\<rparr>"

text \<open>Two peers that are online, and one queued change of time 3.\<close>

definition sample_federation :: federation where
  "sample_federation =
     \<lparr>reg = \<lparr>heap = (\<lambda>a. sample_peer (if a = 0 then ''a'' else ''b'')), peers = [(''a'', 0), (''b'', 1)],
             has_client = True\<rparr>,
      queue = \<lparr>changes = [sample_sync_change ''1'' 3], max_size = 10000\<rparr>, etag_store = Map.empty,
      manager = [], uuids_used = 1\<rparr>"

definition sample_settings :: "sync_mode \<Rightarrow> settings" where
  "sample_settings md =
     \<lparr>mode = md, topology_of = MESH, delta_sync_enabled = True, hub_peer_id = None,
      local_data = None, simple_etag = (\<lambda>d. ''tag''), show_id = (\<lambda>v. []), uuid = show_nat\<rparr>"

definition silent :: "nat \<Rightarrow> responses" where
  "silent a = \<lparr>replies = (\<lambda>k rq. Raised ''down''), answers = (\<lambda>k url cur. PageRaised), finished_at = 9\<rparr>"

lemma sample_sync_peers: "get_sync_peers (sample_settings md) (reg sample_federation) = [0, 1]"
  by (simp add: get_sync_peers_def sample_settings_def sample_federation_def list_healthy_def
      is_healthy_def sample_peer_def)

lemma down_silent [simp]: "down (silent a)"
  by (simp add: down_def silent_def)

lemma sync_always_completed_witness:
  "\<exists>st' s. sync_once 1 (sample_settings BIDIRECTIONAL) silent sample_federation = Some (st', s) \<and>
     s_status s = Completed \<and> s_synced s = 2 \<and> s_pushed s = 0"
proof -
  note both = sync_always_completed [of "sample_settings BIDIRECTIONAL" sample_federation,
      unfolded sample_sync_peers, simplified]
  from both [THEN conjunct2, rule_format, of silent] obtain st' s where
    run: "sync_once 1 (sample_settings BIDIRECTIONAL) silent sample_federation = Some (st', s)"
    and "s_pushed s = 0" by auto
  with both [THEN conjunct1, rule_format, OF run] show ?thesis by auto
qed

section \<open>Changes that fail are not tried again\<close>

lemma push_each_ids:
  "set (push_each net url k cs ids) \<subseteq> set ids \<union> sc_id ` set cs"
proof (induction cs arbitrary: k ids)
  case (Cons c cs)
  have "set (push_one (net k) url c ids) \<subseteq> insert (sc_id c) (set ids)"
    by (auto simp: push_one_def split: sum.splits bool.splits)
  with Cons.IH [of "Suc k" "push_one (net k) url c ids"] show ?case by auto
qed simp

lemma push_each_refused:
  assumes "distinct (map sc_id cs)" and "c \<in> set cs" and "sc_id c \<notin> set ids"
    and "\<And>k. push_single_change (net k) url c \<noteq> Inr True"
  shows "sc_id c \<notin> set (push_each net url k cs ids)"
  using assms(1-3)
proof (induction cs arbitrary: k ids)
  case (Cons b cs)
  show ?case
  proof (cases "b = c")
    case True
    then have "push_one (net k) url b ids = ids"
      using assms(4) [of k] by (auto simp: push_one_def split: sum.split bool.split)
    moreover have "sc_id c \<notin> sc_id ` set cs" using Cons.prems(1) True by auto
    ultimately show ?thesis using Cons.prems(3) push_each_ids [of net url "Suc k" cs ids] by auto
  next
    case False
    then have "sc_id b \<noteq> sc_id c" using Cons.prems(1,2) by force
    then have "sc_id c \<notin> set (push_one (net k) url b ids)"
      using Cons.prems(3) by (auto simp: push_one_def split: sum.splits bool.splits)
    with Cons False show ?thesis by simp
  qed
qed simp

lemma outstanding_subset: "set (outstanding cfg st a) \<subseteq> set (changes (queue st))"
  by (auto simp: outstanding_def get_pending_def split: option.splits)

lemma distinct_outstanding:
  "distinct (map sc_id (changes (queue st))) \<Longrightarrow> distinct (map sc_id (outstanding cfg st a))"
  by (auto simp: outstanding_def get_pending_def distinct_map_filter split: option.splits)

lemma drop_synced_queue [simp]:
  "changes (queue (drop_synced ids st)) = filter (\<lambda>c. sc_id c \<notin> set ids) (changes (queue st))"
  "reg (drop_synced ids st) = reg st" "etag_store (drop_synced ids st) = etag_store st"
  "manager (drop_synced ids st) = manager st" "uuids_used (drop_synced ids st) = uuids_used st"
  by (simp_all add: drop_synced_def mark_synced_def Let_def)

lemma push_to_peer_state:
  "\<exists>ids. fst (push_to_peer cfg net a st) = drop_synced ids st \<and>
         ids = push_each net (p_url (heap (reg st) a)) 0 (outstanding cfg st a) []"
  by (cases "outstanding cfg st a") (simp_all add: push_to_peer_def drop_synced_def Let_def)

text \<open>What pulling leaves alone.\<close>

definition pull_frame :: "federation \<Rightarrow> federation \<Rightarrow> bool" where
  "pull_frame st st' = (reg st' = reg st \<and> queue st' = queue st \<and> etag_store st' = etag_store st)"

lemma pull_frame_refl [simp]: "pull_frame st st"
  by (simp add: pull_frame_def)

lemma pull_frame_trans: "pull_frame a b \<Longrightarrow> pull_frame b c \<Longrightarrow> pull_frame a c"
  by (simp add: pull_frame_def)

lemma check_frame: "pull_frame st (fst (check_and_handle_conflict cfg now p t i st))"
  by (auto simp: check_and_handle_conflict_def pull_frame_def Let_def
      split: json.splits option.splits)

lemma pull_items_frame: "pull_frame (fst acc) (fst (fst (pull_items cfg now p t is acc)))"
proof (induction "is" arbitrary: acc)
  case (Cons i "is")
  obtain st n m where acc: "acc = (st, n, m)" by (cases acc) auto
  obtain st' x where st': "check_and_handle_conflict cfg now p t i st = (st', x)"
    by (cases "check_and_handle_conflict cfg now p t i st") auto
  have fr: "pull_frame st st'" using check_frame [of st cfg now p t i] st' by simp
  show ?case
    using fr Cons.IH [of "(st', Suc n, m)"] Cons.IH [of "(st', n, Suc m)"]
    by (auto simp: acc st' split: sum.split bool.split intro: pull_frame_trans)
qed simp

lemma pull_page_frame: "pull_frame (fst acc) (fst (fst (pull_page cfg now p t pg acc)))"
proof (cases "\<exists>data is. pg = PageOf (JDict data) \<and> truthy (dget_or data ''result'' (JList [])) \<and>
    py_iter (dget_or data ''result'' (JList [])) = Inr is")
  case True
  then obtain data "is" where pg: "pg = PageOf (JDict data)"
    "truthy (dget_or data ''result'' (JList []))" "py_iter (dget_or data ''result'' (JList [])) = Inr is"
    by blast
  have "pull_frame (fst acc) (fst (fst (pull_items cfg now p t is acc)))" by (rule pull_items_frame)
  with pg show ?thesis
    by (auto simp: pull_page_def Let_def split: prod.splits bool.splits json.splits)
next
  case False
  then have "fst (pull_page cfg now p t pg acc) = acc"
    by (auto simp: pull_page_def Let_def split: page.split json.split sum.split)
  then show ?thesis by simp
qed

lemma pull_loop_frame:
  "pull_loop fuel cfg pages now p t url k cur acc = Some acc' \<Longrightarrow> pull_frame (fst acc) (fst acc')"
proof (induction fuel arbitrary: k cur acc)
  case (Suc fuel)
  then show ?case
    using pull_page_frame [of acc cfg now p t "pages k url cur"]
    by (auto split: prod.splits option.splits intro: pull_frame_trans)
qed simp

lemma pull_from_peer_frame:
  assumes "pull_from_peer fuel cfg pages now a st = Some (st', x)"
  shows "pull_frame st st'"
proof -
  have ent: "pull_frame s s'" if "pull_entity_type fuel cfg pages now a t e s = Some (s', n, m)" for s s' t e n m
    using pull_loop_frame [OF that [unfolded pull_entity_type_def Let_def]] by simp
  from assms show ?thesis
    by (auto simp: pull_from_peer_def split: option.splits prod.splits dest!: ent intro: pull_frame_trans)
qed

text \<open>A peer's turn in a cycle: what it does to the queue and the registry.\<close>

lemma sync_with_peer_state:
  assumes "sync_with_peer fuel cfg rs a st = Some (st', r)"
  obtains ids where "queue st' = queue (drop_synced ids st)" and "reg st' = reg st"
    and "etag_store st' = etag_store st"
    and "ids = [] \<or> ids = push_each (replies rs) (p_url (heap (reg st) a)) 0 (outstanding cfg st a) []"
proof -
  define pp where "pp = (if mode cfg \<in> {PUSH, BIDIRECTIONAL}
      then push_to_peer cfg (replies rs) a st else (st, Inr 0))"
  obtain ids where ids: "fst pp = drop_synced ids st"
    "ids = [] \<or> ids = push_each (replies rs) (p_url (heap (reg st) a)) 0 (outstanding cfg st a) []"
  proof (cases "mode cfg \<in> {PUSH, BIDIRECTIONAL}")
    case True
    then show ?thesis using push_to_peer_state [of cfg "replies rs" a st] that by (auto simp: pp_def)
  next
    case False
    then show ?thesis using that [of "[]"] by (simp add: pp_def drop_synced_def)
  qed
  obtain st1 x where pp: "pp = (st1, x)" by (cases pp)
  have "pull_frame st1 st'"
    using assms unfolding sync_with_peer_def pp_def [symmetric] pp
    by (auto simp: Let_def split: if_splits option.splits sum.splits prod.splits
        dest: pull_from_peer_frame)
  then show ?thesis
    using that [of ids] ids pp by (auto simp: pull_frame_def)
qed

text \<open>The loop over the peers: the changes that stay and the times of the last synchronisation.\<close>

lemma set_last_sync_sel [simp]:
  "queue (set_last_sync a t st) = queue st" "etag_store (set_last_sync a t st) = etag_store st"
  "manager (set_last_sync a t st) = manager st" "uuids_used (set_last_sync a t st) = uuids_used st"
  "p_url (heap (reg (set_last_sync a t st)) b) = p_url (heap (reg st) b)"
  "p_id (heap (reg (set_last_sync a t st)) b) = p_id (heap (reg st) b)"
  "p_status (heap (reg (set_last_sync a t st)) b) = p_status (heap (reg st) b)"
  "peers (reg (set_last_sync a t st)) = peers (reg st)"
  "p_last_sync (heap (reg (set_last_sync a t st)) b) =
     (if b = a then Some t else p_last_sync (heap (reg st) b))"
  by (auto simp: set_last_sync_def set_peer_def)

lemma sync_each_last_sync:
  "sync_each fuel cfg world as (st, res) = Some (st', res') \<Longrightarrow>
   p_last_sync (heap (reg st') a) =
     (if a \<in> set as then Some (finished_at (world a)) else p_last_sync (heap (reg st) a)) \<and>
   p_url (heap (reg st') a) = p_url (heap (reg st) a)"
proof (induction as arbitrary: st res)
  case (Cons b bs)
  from Cons.prems obtain st1 r where st1: "sync_with_peer fuel cfg (world b) b st = Some (st1, r)"
    and rest: "sync_each fuel cfg world bs (set_last_sync b (finished_at (world b)) st1, res @ [r]) =
               Some (st', res')"
    by (auto split: option.splits prod.splits)
  obtain ids where "reg st1 = reg st" by (rule sync_with_peer_state [OF st1])
  with Cons.IH [OF rest] show ?case by auto
qed simp

lemma sync_each_keeps:
  assumes "sync_each fuel cfg world as (st, res) = Some (st', res')"
    and "distinct (map sc_id (changes (queue st)))" and "c \<in> set (changes (queue st))"
    and "\<And>a k. a \<in> set as \<Longrightarrow>
           push_single_change (replies (world a) k) (p_url (heap (reg st) a)) c \<noteq> Inr True"
  shows "c \<in> set (changes (queue st'))"
  using assms
proof (induction as arbitrary: st res)
  case (Cons b bs)
  from Cons.prems(1) obtain st1 r where st1: "sync_with_peer fuel cfg (world b) b st = Some (st1, r)"
    and rest: "sync_each fuel cfg world bs (set_last_sync b (finished_at (world b)) st1, res @ [r]) =
               Some (st', res')"
    by (auto split: option.splits prod.splits)
  obtain ids where q: "queue st1 = queue (drop_synced ids st)" and r: "reg st1 = reg st"
    and ids: "ids = [] \<or>
      ids = push_each (replies (world b)) (p_url (heap (reg st) b)) 0 (outstanding cfg st b) []"
    by (rule sync_with_peer_state [OF st1])
  have "sc_id c \<notin> set ids"
  proof (cases "c \<in> set (outstanding cfg st b)")
    case True
    with push_each_refused [OF distinct_outstanding [OF Cons.prems(2)] True] ids Cons.prems(4) [of b]
    show ?thesis by auto
  next
    case False
    have "sc_id c \<notin> sc_id ` set (outstanding cfg st b)"
    proof
      assume "sc_id c \<in> sc_id ` set (outstanding cfg st b)"
      then obtain d where "d \<in> set (outstanding cfg st b)" "sc_id d = sc_id c" by auto
      with outstanding_subset [of cfg st b] Cons.prems(2,3) have "d = c"
        by (metis distinct_map inj_on_def subsetD)
      with \<open>d \<in> set (outstanding cfg st b)\<close> False show False by simp
    qed
    with ids push_each_ids [of "replies (world b)" "p_url (heap (reg st) b)" 0 "outstanding cfg st b" "[]"]
    show ?thesis by auto
  qed
  moreover have "distinct (map sc_id (changes (queue st1)))"
    using Cons.prems(2) by (simp add: q distinct_map_filter)
  ultimately show ?case
    using Cons.prems(3,4) by (intro Cons.IH [OF rest]) (simp_all add: q r)
qed simp

text \<open>
  Under delta synchronisation, a change that no peer accepts during a cycle stays in the queue
  and is outstanding for none of the cycle's peers any more: the cycle moves \<open>last_sync\<close> past the
  change although the push failed, so neither the next cycle nor a later one sends it again.
\<close>

lemma failed_change_never_retried:
  assumes delta: "delta_sync_enabled cfg"
    and cycle: "sync_once fuel cfg world st = Some (st', s)"
    and ids: "distinct (map sc_id (changes (queue st)))" and c: "c \<in> set (changes (queue st))"
    and before: "\<forall>a \<in> set (get_sync_peers cfg (reg st)). sc_time c \<le> finished_at (world a)"
    and refused: "\<forall>a \<in> set (get_sync_peers cfg (reg st)). \<forall>k.
      push_single_change (replies (world a) k) (p_url (heap (reg st) a)) c \<noteq> Inr True"
  shows "c \<in> set (changes (queue st')) \<and>
    (\<forall>a \<in> set (get_sync_peers cfg (reg st)). c \<notin> set (outstanding cfg st' a))"
proof (cases "get_sync_peers cfg (reg st)")
  case Nil
  with cycle c show ?thesis by (simp add: sync_once_def)
next
  case (Cons a as)
  with cycle obtain res where each: "sync_each fuel cfg world (a # as) (st, []) = Some (st', res)"
    by (auto simp: sync_once_def simp del: sync_each.simps split: option.splits)
  have "c \<in> set (changes (queue st'))"
    using sync_each_keeps [OF each ids c] refused Cons by auto
  moreover have "c \<notin> set (outstanding cfg st' b)" if "b \<in> set (a # as)" for b
    using sync_each_last_sync [OF each, of b] that before Cons delta
    by (auto simp: outstanding_def get_pending_def)
  ultimately show ?thesis using Cons by simp
qed


lemma push_single_silent: "push_single_change (replies (silent a) k) url c \<noteq> Inr True"
  by (auto simp: silent_def push_single_change_def push_body_def Let_def split: option.splits)

lemma failed_change_never_retried_witness:
  "\<exists>st' s. sync_once 1 (sample_settings PUSH) silent sample_federation = Some (st', s) \<and>
     sample_sync_change ''1'' 3 \<in> set (changes (queue st')) \<and>
     sample_sync_change ''1'' 3 \<notin> set (outstanding (sample_settings PUSH) st' 0)"
proof -
  obtain st' s where run: "sync_once 1 (sample_settings PUSH) silent sample_federation = Some (st', s)"
    using sync_once_down [OF sample_sync_peers, of silent PUSH] by auto
  have q: "changes (queue sample_federation) = [sample_sync_change ''1'' 3]"
    by (simp add: sample_federation_def)
  show ?thesis
    using failed_change_never_retried [OF _ run, of "sample_sync_change ''1'' 3"] run
    by (auto simp: sample_sync_peers q push_single_silent)
      (simp_all add: sample_settings_def silent_def sample_sync_change_def)
qed

section \<open>Every change reaches at most one peer\<close>

text \<open>
  The operations of a federation one after the other, a push in progress being a state of its own:
  the peer, the changes still to send and the ids it accepted. Between two requests of a push,
  changes are tracked, peers come and go, and other pushes begin, send and end: \<open>sync_once\<close> takes no
  lock, and \<open>POST /federation/sync/now\<close> starts a cycle beside the running loop. A push can also be
  interrupted (its task cancelled), which leaves what was accepted in the queue. The pushes under way
  are numbered. \<open>tracked\<close>, \<open>accepted\<close>, \<open>dropped\<close> and \<open>contested\<close> record what happened: the ids of all
  changes; the accepted ids with the peer's address; the ids that left the queue by overflow or by
  clearing it; and the ids that a push took while another push under way had them as well, or that an
  interrupted push had already handed over.
\<close>

record fed_system =
  fed :: federation
  inflight :: "nat \<Rightarrow> (nat \<times> change list \<times> string list) option"
  tracked :: "string set"
  accepted :: "(string \<times> nat) list"
  dropped :: "string set"
  contested :: "string set"

definition queue_ids :: "federation \<Rightarrow> string set" where
  "queue_ids st = sc_id ` set (changes (queue st))"

definition note_accepted ::
  "(json option http_request \<Rightarrow> http_reply) \<Rightarrow> nat \<Rightarrow> string \<Rightarrow> change \<Rightarrow> (string \<times> nat) list \<Rightarrow>
   (string \<times> nat) list" where
  "note_accepted net a url c log =
     (if push_single_change net url c = Inr True then (sc_id c, a) # log else log)"

text \<open>The ids a push under way still has to send, and those it has had accepted.\<close>

fun to_send :: "(nat \<times> change list \<times> string list) option \<Rightarrow> string set" where
  "to_send None = {}"
| "to_send (Some (a, cs, ids)) = sc_id ` set cs"

fun handed_over :: "(nat \<times> change list \<times> string list) option \<Rightarrow> string set" where
  "handed_over None = {}"
| "handed_over (Some (a, cs, ids)) = set ids"

definition held :: "fed_system \<Rightarrow> nat \<Rightarrow> string set" where
  "held s p = to_send (inflight s p) \<union> handed_over (inflight s p)"

inductive fed_step :: "settings \<Rightarrow> fed_system \<Rightarrow> fed_system \<Rightarrow> bool" for cfg where
  fs_track: "st' = track_change cfg now etype eid op d tag (fed s) \<Longrightarrow>
    fed_step cfg s (s\<lparr>fed := st', tracked := insert (fresh_uuid cfg (fed s)) (tracked s),
                      dropped := dropped s \<union> (queue_ids (fed s) - queue_ids st')\<rparr>)"
| fs_begin: "inflight s p = None \<Longrightarrow>
    fed_step cfg s (s\<lparr>inflight := (inflight s)(p := Some (a, outstanding cfg (fed s) a, [])),
                      contested := contested s \<union> (sc_id ` set (outstanding cfg (fed s) a) \<inter> (\<Union>q. held s q))\<rparr>)"
| fs_push: "inflight s p = Some (a, c # cs, ids) \<Longrightarrow> url = p_url (heap (reg (fed s)) a) \<Longrightarrow>
    fed_step cfg s (s\<lparr>inflight := (inflight s)(p := Some (a, cs, push_one net url c ids)),
                      accepted := note_accepted net a url c (accepted s)\<rparr>)"
| fs_end: "inflight s p = Some (a, [], ids) \<Longrightarrow>
    fed_step cfg s (s\<lparr>fed := drop_synced ids (fed s), inflight := (inflight s)(p := None)\<rparr>)"
| fs_cancel: "inflight s p = Some (a, cs, ids) \<Longrightarrow>
    fed_step cfg s (s\<lparr>inflight := (inflight s)(p := None), contested := contested s \<union> set ids\<rparr>)"
| fs_synced: "fed_step cfg s (s\<lparr>fed := set_last_sync a t (fed s)\<rparr>)"
| fs_pull: "pull_from_peer fuel cfg pages now a (fed s) = Some (st', x) \<Longrightarrow>
    fed_step cfg s (s\<lparr>fed := st'\<rparr>)"
| fs_resolve: "fed_step cfg s (s\<lparr>fed := fst (resolve_conflicts rs clock sg peer (fed s))\<rparr>)"
| fs_clear: "fed_step cfg s (s\<lparr>fed := fst (clear_pending_changes (fed s)),
                               dropped := dropped s \<union> queue_ids (fed s)\<rparr>)"
| fs_registry: "fed_step cfg s (s\<lparr>fed := (fed s)\<lparr>reg := r\<rparr>\<rparr>)"

definition fed_fresh :: "fed_system \<Rightarrow> bool" where
  "fed_fresh s = (changes (queue (fed s)) = [] \<and> inflight s = (\<lambda>_. None) \<and> tracked s = {} \<and>
     accepted s = [] \<and> dropped s = {} \<and> contested s = {})"

definition push_ok :: "fed_system \<Rightarrow> nat \<Rightarrow> bool" where
  "push_ok s p =
     ((case inflight s p of None \<Rightarrow> True | Some (a, cs, ids) \<Rightarrow> distinct (map sc_id cs)) \<and>
      to_send (inflight s p) \<subseteq> tracked s \<and>
      handed_over (inflight s p) \<subseteq> fst ` set (accepted s) \<and>
      fst ` set (accepted s) \<inter> to_send (inflight s p) \<subseteq> contested s)"

definition fed_inv :: "settings \<Rightarrow> fed_system \<Rightarrow> bool" where
  "fed_inv cfg s =
     (let q = changes (queue (fed s)); acc = fst ` set (accepted s)
      in tracked s \<subseteq> uuid cfg ` {..<uuids_used (fed s)} \<and>
         distinct (map sc_id q) \<and> sc_id ` set q \<subseteq> tracked s \<and> acc \<subseteq> tracked s \<and>
         (\<forall>p. push_ok s p) \<and>
         (\<forall>p r. p \<noteq> r \<longrightarrow> held s p \<inter> held s r \<subseteq> contested s) \<and>
         acc \<inter> sc_id ` set q \<subseteq> contested s \<union> (\<Union>p. handed_over (inflight s p)) \<and>
         (\<forall>i. i \<notin> contested s \<longrightarrow> count_list (map fst (accepted s)) i \<le> 1) \<and>
         tracked s \<subseteq> sc_id ` set q \<union> acc \<union> dropped s)"

lemma fed_invI:
  assumes "tracked s \<subseteq> uuid cfg ` {..<uuids_used (fed s)}"
    and "distinct (map sc_id (changes (queue (fed s))))" and "queue_ids (fed s) \<subseteq> tracked s"
    and "fst ` set (accepted s) \<subseteq> tracked s" and "\<And>p. push_ok s p"
    and "\<And>p r. p \<noteq> r \<Longrightarrow> held s p \<inter> held s r \<subseteq> contested s"
    and "fst ` set (accepted s) \<inter> queue_ids (fed s) \<subseteq> contested s \<union> (\<Union>p. handed_over (inflight s p))"
    and "\<And>i. i \<notin> contested s \<Longrightarrow> count_list (map fst (accepted s)) i \<le> 1"
    and "tracked s \<subseteq> queue_ids (fed s) \<union> fst ` set (accepted s) \<union> dropped s"
  shows "fed_inv cfg s"
  unfolding fed_inv_def Let_def using assms unfolding queue_ids_def by (intro conjI allI impI)

lemma fed_invD:
  assumes "fed_inv cfg s"
  shows "tracked s \<subseteq> uuid cfg ` {..<uuids_used (fed s)}"
    and "distinct (map sc_id (changes (queue (fed s))))" and "queue_ids (fed s) \<subseteq> tracked s"
    and "fst ` set (accepted s) \<subseteq> tracked s" and "push_ok s p"
    and "p \<noteq> r \<Longrightarrow> held s p \<inter> held s r \<subseteq> contested s"
    and "fst ` set (accepted s) \<inter> queue_ids (fed s) \<subseteq> contested s \<union> (\<Union>p. handed_over (inflight s p))"
    and "i \<notin> contested s \<Longrightarrow> count_list (map fst (accepted s)) i \<le> 1"
    and "tracked s \<subseteq> queue_ids (fed s) \<union> fst ` set (accepted s) \<union> dropped s"
proof -
  have all: "tracked s \<subseteq> uuid cfg ` {..<uuids_used (fed s)}"
    "distinct (map sc_id (changes (queue (fed s))))" "queue_ids (fed s) \<subseteq> tracked s"
    "fst ` set (accepted s) \<subseteq> tracked s" "\<forall>p. push_ok s p"
    "\<forall>p r. p \<noteq> r \<longrightarrow> held s p \<inter> held s r \<subseteq> contested s"
    "fst ` set (accepted s) \<inter> queue_ids (fed s) \<subseteq> contested s \<union> (\<Union>p. handed_over (inflight s p))"
    "\<forall>i. i \<notin> contested s \<longrightarrow> count_list (map fst (accepted s)) i \<le> 1"
    "tracked s \<subseteq> queue_ids (fed s) \<union> fst ` set (accepted s) \<union> dropped s"
    using assms by (simp_all only: fed_inv_def Let_def queue_ids_def simp_thms)
      (elim conjE, assumption)+
  show "push_ok s p" using all(5) ..
  show "p \<noteq> r \<Longrightarrow> held s p \<inter> held s r \<subseteq> contested s" using all(6) by (elim allE impE)
  show "i \<notin> contested s \<Longrightarrow> count_list (map fst (accepted s)) i \<le> 1" using all(8) by (elim allE impE)
qed (use assms in \<open>(simp_all only: fed_inv_def Let_def queue_ids_def simp_thms)?\<close>)

lemma track_change_sel [simp]:
  "uuids_used (track_change cfg now e i op d tag st) = Suc (uuids_used st)"
  "queue (track_change cfg now e i op d tag st) =
     queue_add \<lparr>sc_id = fresh_uuid cfg st, sc_entity_type = e, sc_entity_id = i, sc_operation = op,
                sc_doc = d, sc_etag = tag, sc_time = now\<rparr> (queue st)"
  "reg (track_change cfg now e i op d tag st) = reg st"
  by (simp_all add: track_change_def Let_def)

lemma inv_track:
  assumes inv: "fed_inv cfg s" and inj: "inj (uuid cfg)"
    and st': "st' = track_change cfg now etype eid op d tag (fed s)"
  shows "fed_inv cfg (s\<lparr>fed := st', tracked := insert (fresh_uuid cfg (fed s)) (tracked s),
                      dropped := dropped s \<union> (queue_ids (fed s) - queue_ids st')\<rparr>)"
proof -
  let ?c = "\<lparr>sc_id = fresh_uuid cfg (fed s), sc_entity_type = etype, sc_entity_id = eid,
    sc_operation = op, sc_doc = d, sc_etag = tag, sc_time = now\<rparr>"
  obtain pre kept where q: "changes (queue (fed s)) = pre @ kept" "changes (queue st') = kept @ [?c]"
    using queue_add_changes [of "queue (fed s)" ?c] unfolding st' by auto
  have "fresh_uuid cfg (fed s) \<notin> uuid cfg ` {..<uuids_used (fed s)}"
    using inj by (auto simp: fresh_uuid_def inj_eq)
  then have new: "fresh_uuid cfg (fed s) \<notin> tracked s" using inv by (auto simp: fed_inv_def Let_def)
  have used: "uuids_used st' = Suc (uuids_used (fed s))" by (simp add: st')
  have "fresh_uuid cfg (fed s) \<in> uuid cfg ` {..<Suc (uuids_used (fed s))}"
    by (auto simp: fresh_uuid_def)
  moreover have "fresh_uuid cfg (fed s) \<notin> fst ` set (accepted s)"
    using inv new by (auto simp: fed_inv_def Let_def)
  ultimately show ?thesis
    using inv new used q
    unfolding fed_inv_def Let_def queue_ids_def push_ok_def held_def
    by (auto simp: lessThan_Suc; blast)
qed

lemma inv_begin:
  assumes inv: "fed_inv cfg s" and idle: "inflight s p = None"
  shows "fed_inv cfg (s\<lparr>inflight := (inflight s)(p := Some (a, outstanding cfg (fed s) a, [])),
    contested := contested s \<union> (sc_id ` set (outstanding cfg (fed s) a) \<inter> (\<Union>q. held s q))\<rparr>)"
    (is "fed_inv cfg ?s")
proof -
  let ?O = "sc_id ` set (outstanding cfg (fed s) a)"
  note D = fed_invD [OF inv]
  have sub: "?O \<subseteq> queue_ids (fed s)" unfolding queue_ids_def by (intro image_mono outstanding_subset)
  have held: "held ?s q = (if q = p then ?O else held s q)" for q by (simp add: held_def)
  have over: "handed_over (inflight ?s q) = handed_over (inflight s q)" for q using idle by simp
  have in_held: "(\<Union>q. handed_over (inflight s q)) \<subseteq> (\<Union>q. held s q)" unfolding held_def by blast
  have new: "push_ok ?s p"
  proof -
    have "fst ` set (accepted s) \<inter> ?O \<subseteq> contested s \<union> (?O \<inter> (\<Union>q. held s q))"
      using D(7) sub in_held by blast
    moreover have "?O \<subseteq> tracked s" using sub D(3) by blast
    ultimately show ?thesis using distinct_outstanding [OF D(2)] by (simp add: push_ok_def)
  qed
  have "push_ok ?s q" for q
    using new D(5) [of q] by (cases "q = p") (auto simp: push_ok_def)
  moreover have "held ?s q \<inter> held ?s r \<subseteq> contested ?s" if "q \<noteq> r" for q r
    using that D(6) [of q r] unfolding held by auto
  moreover have "fst ` set (accepted s) \<inter> queue_ids (fed s) \<subseteq>
      contested ?s \<union> (\<Union>q. handed_over (inflight ?s q))"
    using D(7) unfolding over by auto
  ultimately show ?thesis using D(1-4,8,9) by (intro fed_invI) simp_all
qed

lemma inv_push_change:
  assumes inv: "fed_inv cfg s" and i: "inflight s p = Some (a, c # cs, ids)"
  shows "fed_inv cfg (s\<lparr>inflight := (inflight s)(p := Some (a, cs, push_one net url c ids)),
                        accepted := note_accepted net a url c (accepted s)\<rparr>)"
    (is "fed_inv cfg ?s")
proof -
  let ?acc = "fst ` set (accepted s)"
  note D = fed_invD [OF inv] and ok = fed_invD(5) [OF inv] and apart = fed_invD(6) [OF inv]
  have c: "sc_id c \<notin> sc_id ` set cs" "distinct (map sc_id cs)" "sc_id c \<in> tracked s"
    "sc_id c \<in> ?acc \<Longrightarrow> sc_id c \<in> contested s" "sc_id ` set cs \<subseteq> tracked s"
    using ok [of p] i by (auto simp: push_ok_def)
  have other: "sc_id c \<in> contested s" if "q \<noteq> p" "sc_id c \<in> held s q" for q
    using apart [of p q] that i by (auto simp: held_def)
  show ?thesis
  proof (cases "push_single_change net url c = Inr True")
    case True
    then have s: "inflight ?s = (inflight s)(p := Some (a, cs, ids @ [sc_id c]))"
      "accepted ?s = (sc_id c, a) # accepted s"
      by (simp_all add: push_one_def note_accepted_def)
    have held: "held ?s q = held s q" for q using i unfolding held_def s(1) by auto
    have "push_ok ?s q" for q
      using ok [of q] c i other [of q] unfolding push_ok_def s
      by (cases "q = p") (auto simp: held_def)
    moreover have "count_list (map fst (accepted ?s)) k \<le> 1" if "k \<notin> contested s" for k
      using D(8) c(4) that unfolding s(2)
      by (cases "k = sc_id c") (auto simp: count_list_0_iff)
    moreover have "fst ` set (accepted ?s) \<inter> queue_ids (fed s) \<subseteq>
        contested s \<union> (\<Union>q. handed_over (inflight ?s q))"
    proof
      fix k assume k: "k \<in> fst ` set (accepted ?s) \<inter> queue_ids (fed s)"
      have grow: "handed_over (inflight s q) \<subseteq> handed_over (inflight ?s q)" for q
        using i unfolding s(1) by auto
      show "k \<in> contested s \<union> (\<Union>q. handed_over (inflight ?s q))"
      proof (cases "k = sc_id c")
        case True
        then have "k \<in> handed_over (inflight ?s p)" unfolding s(1) by simp
        then show ?thesis by blast
      next
        case False
        with k s(2) have "k \<in> ?acc \<inter> queue_ids (fed s)" by auto
        then have "k \<in> contested s \<union> (\<Union>q. handed_over (inflight s q))" using D(7) by (rule subsetD [rotated])
        then show ?thesis using grow by blast
      qed
    qed
    moreover have "held ?s q \<inter> held ?s r \<subseteq> contested ?s" if "q \<noteq> r" for q r
      using apart [OF that] unfolding held by simp
    moreover have "tracked s \<subseteq> queue_ids (fed s) \<union> fst ` set (accepted ?s) \<union> dropped s"
      using D(9) unfolding s(2) by auto
    moreover have "fst ` set (accepted ?s) \<subseteq> tracked s" using D(4) c(3) unfolding s(2) by simp
    ultimately show ?thesis using D(1-3) by (intro fed_invI) simp_all
  next
    case False
    then have s: "?s = s\<lparr>inflight := (inflight s)(p := Some (a, cs, ids))\<rparr>"
      by (auto simp: push_one_def note_accepted_def split: sum.splits bool.splits)
    have held: "held (s\<lparr>inflight := (inflight s)(p := Some (a, cs, ids))\<rparr>) q \<subseteq> held s q" for q
      using i by (auto simp: held_def)
    have over: "handed_over (((inflight s)(p := Some (a, cs, ids))) q) = handed_over (inflight s q)" for q
      using i by simp
    have "push_ok (s\<lparr>inflight := (inflight s)(p := Some (a, cs, ids))\<rparr>) q" for q
      using ok [of q] i by (auto simp: push_ok_def)
    moreover have "held (s\<lparr>inflight := (inflight s)(p := Some (a, cs, ids))\<rparr>) q \<inter>
        held (s\<lparr>inflight := (inflight s)(p := Some (a, cs, ids))\<rparr>) r \<subseteq> contested s" if "q \<noteq> r" for q r
      using apart [OF that] held [of q] held [of r] by blast
    ultimately show ?thesis unfolding s using D(1-4,7-9) by (intro fed_invI) (simp_all add: over del: fun_upd_apply)
  qed
qed

lemma image_filter_notin: "f ` {x \<in> A. f x \<notin> B} = f ` A - B"
  by auto

text \<open>A push that is over: the ids it handed over leave the queue, or count as contested.\<close>

lemma inv_over:
  assumes inv: "fed_inv cfg s"
    and s': "s' = s\<lparr>fed := st', inflight := (inflight s)(p := None), contested := C\<rparr>"
    and st': "uuids_used st' = uuids_used (fed s)" "sc_id ` set (changes (queue st')) =
      sc_id ` set (changes (queue (fed s))) - D" "distinct (map sc_id (changes (queue st')))"
    and D: "D \<subseteq> handed_over (inflight s p)" "handed_over (inflight s p) \<subseteq> D \<union> C" "contested s \<subseteq> C"
  shows "fed_inv cfg s'"
proof -
  let ?acc = "fst ` set (accepted s)"
  note I = fed_invD [OF inv]
  have sel: "fed s' = st'" "accepted s' = accepted s" "tracked s' = tracked s" "contested s' = C"
    "dropped s' = dropped s" "inflight s' p = None" "q \<noteq> p \<Longrightarrow> inflight s' q = inflight s q" for q
    by (simp_all add: s')
  have ids: "queue_ids st' = queue_ids (fed s) - D" using st'(2) by (simp add: queue_ids_def)
  have held: "held s' q \<subseteq> held s q" for q by (cases "q = p") (auto simp: held_def sel)
  have "push_ok s' q" for q
    using I(5) [of q] D(3) by (cases "q = p") (auto simp: push_ok_def sel)
  moreover have "held s' q \<inter> held s' r \<subseteq> C" if "q \<noteq> r" for q r
    using I(6) [OF that] held [of q] held [of r] D(3) by blast
  moreover have left: "k \<in> C \<union> (\<Union>q. handed_over (inflight s' q))" if k: "k \<in> ?acc" "k \<in> queue_ids st'" for k
  proof -
    from k ids have "k \<in> ?acc \<inter> queue_ids (fed s)" by blast
    then have "k \<in> contested s \<union> (\<Union>q. handed_over (inflight s q))" using I(7) by (rule subsetD [rotated])
    then consider "k \<in> C" | q where "k \<in> handed_over (inflight s q)" using D(3) by blast
    then show ?thesis
    proof cases
      case (2 q)
      show ?thesis
      proof (cases "q = p")
        case True
        with 2 D(2) k ids show ?thesis by blast
      next
        case False
        with 2 have "k \<in> handed_over (inflight s' q)" by (simp add: sel)
        then show ?thesis by blast
      qed
    qed simp
  qed
  moreover have "D \<subseteq> ?acc" using I(5) [of p] D(1) by (auto simp: push_ok_def)
  moreover have "count_list (map fst (accepted s)) i \<le> 1" if "i \<notin> C" for i
    using I(8) [of i] that D(3) by blast
  ultimately show ?thesis
  proof (intro fed_invI)
    show "fst ` set (accepted s') \<inter> queue_ids (fed s') \<subseteq>
        contested s' \<union> (\<Union>q. handed_over (inflight s' q))"
      using left by (auto simp only: sel)
  qed (use I(1,3,4,9) st'(1,3) in \<open>auto simp: sel ids\<close>)
qed

lemma inv_end:
  assumes "fed_inv cfg s" and "inflight s p = Some (a, [], ids)"
  shows "fed_inv cfg (s\<lparr>fed := drop_synced ids (fed s), inflight := (inflight s)(p := None)\<rparr>)"
proof (rule inv_over [OF assms(1), where D = "set ids" and C = "contested s"])
  have "distinct (map sc_id (changes (queue (fed s))))" using assms(1) by (simp add: fed_inv_def Let_def)
  then show "distinct (map sc_id (changes (queue (drop_synced ids (fed s)))))"
    by (simp add: distinct_map_filter)
qed (use assms(2) in \<open>auto simp: image_filter_notin\<close>)

lemma inv_cancel:
  assumes "fed_inv cfg s" and "inflight s p = Some (a, cs, ids)"
  shows "fed_inv cfg (s\<lparr>inflight := (inflight s)(p := None), contested := contested s \<union> set ids\<rparr>)"
  by (rule inv_over [OF assms(1), where st' = "fed s" and D = "{}" and C = "contested s \<union> set ids"])
    (use assms in \<open>auto simp: fed_inv_def Let_def\<close>)

lemma inv_frame:
  "fed_inv cfg s \<Longrightarrow> queue st' = queue (fed s) \<Longrightarrow> uuids_used (fed s) \<le> uuids_used st' \<Longrightarrow>
   fed_inv cfg (s\<lparr>fed := st'\<rparr>)"
  unfolding fed_inv_def Let_def push_ok_def held_def by (auto; fastforce)

lemma inv_clear:
  "fed_inv cfg s \<Longrightarrow> fed_inv cfg (s\<lparr>fed := fst (clear_pending_changes (fed s)),
                               dropped := dropped s \<union> queue_ids (fed s)\<rparr>)"
  unfolding fed_inv_def Let_def clear_pending_changes_def clear_queue_def queue_ids_def push_ok_def held_def
  by auto

lemma check_uuids: "uuids_used st \<le> uuids_used (fst (check_and_handle_conflict cfg now p t i st))"
  by (auto simp: check_and_handle_conflict_def Let_def split: json.split option.split)

lemma pull_items_uuids: "uuids_used (fst acc) \<le> uuids_used (fst (fst (pull_items cfg now p t is acc)))"
proof (induction "is" arbitrary: acc)
  case (Cons i "is")
  obtain st n m where acc: "acc = (st, n, m)" by (cases acc) auto
  obtain st' x where st': "check_and_handle_conflict cfg now p t i st = (st', x)"
    by (cases "check_and_handle_conflict cfg now p t i st") auto
  show ?case
    using check_uuids [of st cfg now p t i] st' Cons.IH [of "(st', Suc n, m)"] Cons.IH [of "(st', n, Suc m)"]
    by (auto simp: acc st' split: sum.split bool.split)
qed simp

lemma pull_page_uuids: "uuids_used (fst acc) \<le> uuids_used (fst (fst (pull_page cfg now p t pg acc)))"
  using pull_items_uuids [of acc cfg now p t]
  by (auto simp: pull_page_def Let_def split: page.split json.split sum.split prod.split bool.split)
    (metis fst_conv)+

lemma pull_loop_uuids:
  "pull_loop fuel cfg pages now p t url k cur acc = Some acc' \<Longrightarrow> uuids_used (fst acc) \<le> uuids_used (fst acc')"
proof (induction fuel arbitrary: k cur acc)
  case (Suc fuel)
  then show ?case
    using pull_page_uuids [of acc cfg now p t "pages k url cur"]
    by (auto split: prod.splits option.splits intro: order_trans)
qed simp

lemma pull_from_peer_uuids:
  assumes "pull_from_peer fuel cfg pages now a st = Some (st', x)"
  shows "uuids_used st \<le> uuids_used st'"
proof -
  have ent: "uuids_used s \<le> uuids_used s'"
    if "pull_entity_type fuel cfg pages now a t e s = Some (s', n, m)" for s s' t e n m
    using pull_loop_uuids [OF that [unfolded pull_entity_type_def Let_def]] by simp
  from assms show ?thesis
    by (auto simp: pull_from_peer_def split: option.splits prod.splits dest!: ent)
qed

lemma inv_pull:
  assumes "fed_inv cfg s" and "pull_from_peer fuel cfg pages now a (fed s) = Some (st', x)"
  shows "fed_inv cfg (s\<lparr>fed := st'\<rparr>)"
  using assms(1) pull_from_peer_frame [OF assms(2)] pull_from_peer_uuids [OF assms(2)]
  by (intro inv_frame) (simp_all add: pull_frame_def)

lemma fed_step_inv:
  "fed_step cfg s s' \<Longrightarrow> inj (uuid cfg) \<and> fed_inv cfg s \<Longrightarrow> inj (uuid cfg) \<and> fed_inv cfg s'"
proof (induction rule: fed_step.induct)
  case (fs_resolve s rs clock sg peer)
  then show ?case
    by (auto simp: resolve_conflicts_def Let_def split: prod.split intro!: inv_frame)
qed (simp_all add: inv_track inv_begin inv_push_change inv_end inv_cancel inv_pull inv_clear inv_frame)

interpretation fed_run: inductive_invariant "\<lambda>s. fed_fresh s \<and> inj (uuid cfg)" "fed_step cfg"
  "\<lambda>s. inj (uuid cfg) \<and> fed_inv cfg s" for cfg
proof
  show "inj (uuid cfg) \<and> fed_inv cfg s" if "fed_fresh s \<and> inj (uuid cfg)" for s
    using that by (simp add: fed_inv_def fed_fresh_def push_ok_def held_def)
qed (rule fed_step_inv)

text \<open>
  C35. In every run of a federation with any number of peers and any number of overlapping cycles, over
  any interleaving of tracking, pushing (also interrupted), pulling, resolving and changes of the
  registry: a change is accepted by one peer at most, because the first acceptance removes it from the
  queue that all peers share once the push ends - the other peers of a mesh never get it. The only
  exceptions are contested changes: those that one push took while another push under way had them as
  well, or that an interrupted push had handed over without removing them. An accepted change that is
  not contested is in the queue only while the push that sent it is under way. And no change vanishes:
  each one is in the queue, accepted, or was dropped by an overflow or by clearing the queue.
\<close>

theorem change_accepted_once:
  assumes "fed_fresh s0" and "inj (uuid cfg)" and "(fed_step cfg)\<^sup>*\<^sup>* s0 s"
  shows "(\<forall>i. i \<notin> contested s \<longrightarrow> count_list (map fst (accepted s)) i \<le> 1) \<and>
    (\<forall>i \<in> fst ` set (accepted s). i \<notin> contested s \<and> i \<in> queue_ids (fed s) \<longrightarrow>
       (\<exists>p a cs ids. inflight s p = Some (a, cs, ids) \<and> i \<in> set ids)) \<and>
    (\<forall>i \<in> tracked s. i \<in> queue_ids (fed s) \<or> i \<in> fst ` set (accepted s) \<or> i \<in> dropped s)"
proof -
  have inv: "fed_inv cfg s" using fed_run.reachable_inv [of s0 cfg s] assms by auto
  have "\<exists>p a cs ids. inflight s p = Some (a, cs, ids) \<and> i \<in> set ids"
    if "i \<in> fst ` set (accepted s)" "i \<notin> contested s" "i \<in> queue_ids (fed s)" for i
  proof -
    have "i \<in> (\<Union>p. handed_over (inflight s p))"
      using fed_invD(7) [OF inv] that by blast
    then obtain p where "i \<in> handed_over (inflight s p)" by blast
    then show ?thesis by (cases "inflight s p" rule: to_send.cases) auto
  qed
  then show ?thesis using fed_invD(8,9) [OF inv] by blast
qed

definition sample_run :: "nat \<Rightarrow> fed_system" where
  "sample_run n =
     \<lparr>fed = \<lparr>reg = reg sample_federation, queue = \<lparr>changes = [], max_size = 5\<rparr>, etag_store = Map.empty,
             manager = [], uuids_used = n\<rparr>,
      inflight = (\<lambda>_. None), tracked = {}, accepted = [], dropped = {}, contested = {}\<rparr>"

lemma sample_run_fresh: "fed_fresh (sample_run 0)"
  by (simp add: fed_fresh_def sample_run_def)

lemma sample_uuids: "inj (uuid (sample_settings PUSH))"
  by (simp add: sample_settings_def inj_def show_nat_inj)

text \<open>A run in which the change \<open>0\<close> is tracked; \<open>n\<close> pushes take it, one after the other from the peer 0 on.\<close>

definition sample_tracked :: fed_system where
  "sample_tracked = (let cfg = sample_settings PUSH; s = sample_run 0;
       st = track_change cfg 3 ''aas'' ''x'' ''create'' (Some (JDict [])) None (fed s)
     in s\<lparr>fed := st, tracked := insert (fresh_uuid cfg (fed s)) (tracked s),
          dropped := dropped s \<union> (queue_ids (fed s) - queue_ids st)\<rparr>)"

definition sample_begun :: "nat \<Rightarrow> fed_system \<Rightarrow> fed_system" where
  "sample_begun p s = (let cs = outstanding (sample_settings PUSH) (fed s) p in
     s\<lparr>inflight := (inflight s)(p := Some (p, cs, [])),
       contested := contested s \<union> (sc_id ` set cs \<inter> (\<Union>q. held s q))\<rparr>)"

definition sample_pushed :: "nat \<Rightarrow> fed_system \<Rightarrow> fed_system" where
  "sample_pushed p s =
     (case inflight s p of
        Some (a, c # cs, ids) \<Rightarrow>
          (let url = p_url (heap (reg (fed s)) a) in
           s\<lparr>inflight := (inflight s)(p := Some (a, cs, push_one (\<lambda>rq. Replied 201) url c ids)),
             accepted := note_accepted (\<lambda>rq. Replied 201) a url c (accepted s)\<rparr>)
      | _ \<Rightarrow> s)"

lemma sample_steps:
  "fed_step (sample_settings PUSH) (sample_run 0) sample_tracked"
  "inflight s p = None \<Longrightarrow> fed_step (sample_settings PUSH) s (sample_begun p s)"
  "inflight s p = Some (a, c # cs, ids) \<Longrightarrow> fed_step (sample_settings PUSH) s (sample_pushed p s)"
  by (auto simp: sample_tracked_def sample_begun_def sample_pushed_def Let_def intro: fed_step.intros)

lemma sample_change:
  "\<exists>c. changes (queue (fed sample_tracked)) = [c] \<and> sc_id c = ''0'' \<and> sc_entity_type c = ''aas'' \<and>
     sc_operation c = ''create'' \<and> (p \<in> {0, 1} \<longrightarrow> outstanding (sample_settings PUSH) (fed sample_tracked) p = [c])"
proof -
  have zero: "show_nat 0 = ''0''" by code_simp
  show ?thesis
    by (auto simp: sample_tracked_def sample_run_def outstanding_def get_pending_def sample_settings_def
        sample_federation_def sample_peer_def queue_add_def fresh_uuid_def zero track_change_def Let_def)
qed

lemma sample_push_ok:
  "sc_entity_type c = ''aas'' \<Longrightarrow> sc_operation c = ''create'' \<Longrightarrow>
   push_single_change (\<lambda>rq. Replied 201) url c = Inr True"
  by (simp add: push_single_change_def push_endpoint_def push_body_def)

lemmas sample_run_defs =
  sample_begun_def sample_pushed_def held_def Let_def push_one_def note_accepted_def

text \<open>A change tracked, sent to the first of the two peers and accepted; then nothing is left for the second.\<close>

theorem change_accepted_once_witness:
  "\<exists>s. (fed_step (sample_settings PUSH))\<^sup>*\<^sup>* (sample_run 0) s \<and> accepted s = [(''0'', 0)] \<and>
     count_list (map fst (accepted s)) ''0'' \<le> 1 \<and> outstanding (sample_settings PUSH) (fed s) 1 = []"
proof -
  let ?cfg = "sample_settings PUSH"
  obtain c where c: "changes (queue (fed sample_tracked)) = [c]" "sc_id c = ''0''" "sc_entity_type c = ''aas''"
    "sc_operation c = ''create''" "outstanding ?cfg (fed sample_tracked) 0 = [c]"
    using sample_change [of 0] by auto
  let ?s2 = "sample_begun 0 sample_tracked" and ?s3 = "sample_pushed 0 (sample_begun 0 sample_tracked)"
  define s4 where "s4 = ?s3\<lparr>fed := drop_synced [''0''] (fed ?s3), inflight := (inflight ?s3)(0 := None)\<rparr>"
  have idle: "inflight sample_tracked = (\<lambda>_. None)" "accepted sample_tracked = []" "contested sample_tracked = {}"
    by (simp_all add: sample_tracked_def sample_run_def Let_def)
  have s2: "inflight ?s2 0 = Some (0, [c], [])" by (simp add: sample_run_defs c)
  have s3: "inflight ?s3 0 = Some (0, [], [''0''])" "accepted ?s3 = [(''0'', 0)]" "contested ?s3 = {}"
    "fed ?s3 = fed sample_tracked"
    by (simp_all add: sample_run_defs c idle sample_push_ok)
  have "fed_step ?cfg ?s3 s4" unfolding s4_def by (rule fs_end) (rule s3(1))
  then have run: "(fed_step ?cfg)\<^sup>*\<^sup>* (sample_run 0) s4"
    using sample_steps(1) sample_steps(2) [of sample_tracked 0] sample_steps(3) [OF s2] idle(1)
    by (meson rtranclp.rtrancl_into_rtrancl rtranclp.rtrancl_refl)
  have "''0'' \<notin> contested s4" by (simp add: s4_def s3)
  then have "count_list (map fst (accepted s4)) ''0'' \<le> 1"
    using change_accepted_once [OF sample_run_fresh sample_uuids run] by blast
  moreover have "accepted s4 = [(''0'', 0)]" by (simp add: s4_def s3)
  moreover have "outstanding ?cfg (fed s4) 1 = []"
    by (simp add: s4_def s3 c outstanding_def get_pending_def split: option.split)
  ultimately show ?thesis using run by blast
qed

text \<open>
  The exception is real: two cycles that overlap both take the change before either has removed it, and
  both peers accept it.
\<close>

lemma overlapping_cycles_send_twice:
  "\<exists>s. (fed_step (sample_settings PUSH))\<^sup>*\<^sup>* (sample_run 0) s \<and> accepted s = [(''0'', 1), (''0'', 0)]"
proof -
  let ?cfg = "sample_settings PUSH"
  obtain c where c: "sc_id c = ''0''" "sc_entity_type c = ''aas''" "sc_operation c = ''create''"
    "changes (queue (fed sample_tracked)) = [c]" "outstanding ?cfg (fed sample_tracked) 0 = [c]"
    using sample_change [of 0] by auto
  moreover have "outstanding ?cfg (fed sample_tracked) 1 = [c]"
    using sample_change [of 1] c(4) by auto
  moreover have idle: "inflight sample_tracked = (\<lambda>_. None)" "accepted sample_tracked = []"
    by (simp_all add: sample_tracked_def sample_run_def Let_def)
  let ?s2 = "sample_begun 0 sample_tracked" and ?s3 = "sample_begun 1 (sample_begun 0 sample_tracked)"
  let ?s4 = "sample_pushed 0 ?s3" and ?s5 = "sample_pushed 1 (sample_pushed 0 ?s3)"
  have s2: "inflight ?s2 1 = None" using idle by (simp add: sample_run_defs)
  have s3: "inflight ?s3 0 = Some (0, [c], [])" "inflight ?s4 1 = Some (1, [c], [])"
    "accepted ?s5 = [(''0'', 1), (''0'', 0)]"
    using calculation idle by (simp_all add: sample_run_defs sample_push_ok)
  show ?thesis
    using sample_steps(1) sample_steps(2) [of sample_tracked 0] sample_steps(2) [OF s2]
      sample_steps(3) [OF s3(1)] sample_steps(3) [OF s3(2)] s3(3) idle(1)
    by (meson rtranclp.rtrancl_into_rtrancl rtranclp.rtrancl_refl)
qed

section \<open>Pulling changes nothing\<close>

text \<open>
  Two states from which a pull does the same: the same etags, and the same peers up to the times of
  their last synchronisation.
\<close>

definition same_view :: "federation \<Rightarrow> federation \<Rightarrow> bool" where
  "same_view st st' =
     (etag_store st' = etag_store st \<and> peers (reg st') = peers (reg st) \<and>
      (\<forall>a. p_id (heap (reg st') a) = p_id (heap (reg st) a) \<and>
           p_url (heap (reg st') a) = p_url (heap (reg st) a) \<and>
           p_status (heap (reg st') a) = p_status (heap (reg st) a)))"

lemma same_view_frame: "pull_frame st st1 \<Longrightarrow> same_view st0 st \<Longrightarrow> same_view st0 st1"
  by (simp add: pull_frame_def same_view_def)

lemma same_view_frame2: "pull_frame st st1 \<Longrightarrow> same_view st st0 \<Longrightarrow> same_view st1 st0"
  by (simp add: pull_frame_def same_view_def)

lemma check_same:
  "same_view st st' \<Longrightarrow>
   snd (check_and_handle_conflict cfg now p t i st) = snd (check_and_handle_conflict cfg now' p t i st')"
  by (auto simp: check_and_handle_conflict_def same_view_def Let_def split: json.split option.split)

lemma pull_items_same:
  "same_view st st' \<Longrightarrow>
   snd (fst (pull_items cfg now p t is (st, c))) = snd (fst (pull_items cfg now' p t is (st', c))) \<and>
   snd (pull_items cfg now p t is (st, c)) = snd (pull_items cfg now' p t is (st', c))"
proof (induction "is" arbitrary: st st' c)
  case (Cons i "is")
  obtain n m where c: "c = (n, m)" by (cases c)
  obtain s1 x where s1: "check_and_handle_conflict cfg now p t i st = (s1, x)"
    by (cases "check_and_handle_conflict cfg now p t i st")
  obtain s1' where s1': "check_and_handle_conflict cfg now' p t i st' = (s1', x)"
    using check_same [OF Cons.prems, of cfg now p t i now'] s1
    by (cases "check_and_handle_conflict cfg now' p t i st'") auto
  have "same_view s1 s1'"
    using check_frame [of st cfg now p t i] check_frame [of st' cfg now' p t i] s1 s1' Cons.prems
    by (auto intro: same_view_frame same_view_frame2)
  then show ?case
    using Cons.IH [of s1 s1'] by (auto simp: c s1 s1' split: sum.split bool.split)
qed simp

lemma pull_page_same:
  assumes "same_view st st'"
  shows "snd (fst (pull_page cfg now p t pg (st, c))) = snd (fst (pull_page cfg now' p t pg (st', c))) \<and>
         snd (pull_page cfg now p t pg (st, c)) = snd (pull_page cfg now' p t pg (st', c))"
  using pull_items_same [OF assms, of cfg now p t _ c now']
  by (auto simp: pull_page_def Let_def split: page.split json.split sum.split prod.split bool.split)
    (metis fst_conv snd_conv)+


lemma pull_loop_same:
  "same_view st st' \<Longrightarrow>
   pull_loop fuel cfg pages now p t url k cur (st, c) = Some (st1, c1) \<Longrightarrow>
   \<exists>st1'. pull_loop fuel cfg pages now' p t url k cur (st', c) = Some (st1', c1)"
proof (induction fuel arbitrary: k cur st st' c)
  case (Suc fuel)
  let ?pg = "pages k url cur"
  obtain s d nx where s: "pull_page cfg now p t ?pg (st, c) = ((s, d), nx)"
    by (cases "pull_page cfg now p t ?pg (st, c)") auto
  obtain s' where s': "pull_page cfg now' p t ?pg (st', c) = ((s', d), nx)"
    using pull_page_same [OF Suc.prems(1), of cfg now p t ?pg c now'] s
    by (cases "pull_page cfg now' p t ?pg (st', c)") auto
  have "same_view s s'"
    using pull_page_frame [of "(st, c)" cfg now p t ?pg] pull_page_frame [of "(st', c)" cfg now' p t ?pg]
      s s' Suc.prems(1) by (auto intro: same_view_frame same_view_frame2)
  with Suc.IH Suc.prems(2) show ?case by (auto simp: s s' split: option.splits)
qed simp

lemma pull_from_peer_same:
  assumes "same_view st st'" and "pull_from_peer fuel cfg pages now a st = Some (st1, x)"
  shows "\<exists>st1'. pull_from_peer fuel cfg pages now' a st' = Some (st1', x) \<and> same_view st1 st1'"
proof -
  have ent: "\<exists>s1'. pull_entity_type fuel cfg pages now' a t e s' = Some (s1', c) \<and> same_view s1 s1'"
    if v: "same_view s s'" and run: "pull_entity_type fuel cfg pages now a t e s = Some (s1, c)"
    for s s' t e s1 c
  proof -
    from v have p: "p_id (heap (reg s') a) = p_id (heap (reg s) a)"
      "p_url (heap (reg s') a) = p_url (heap (reg s) a)" by (simp_all add: same_view_def)
    from pull_loop_same [OF v run [unfolded pull_entity_type_def Let_def], of now'] obtain s1' where
      run': "pull_entity_type fuel cfg pages now' a t e s' = Some (s1', c)"
      by (auto simp: pull_entity_type_def Let_def p)
    have "pull_frame s s1" and "pull_frame s' s1'"
      using pull_loop_frame [OF run [unfolded pull_entity_type_def Let_def]]
        pull_loop_frame [OF run' [unfolded pull_entity_type_def Let_def]] by simp_all
    with v run' show ?thesis by (blast intro: same_view_frame same_view_frame2)
  qed
  from assms(2) obtain s1 n1 m1 n2 m2 where
    1: "pull_entity_type fuel cfg pages now a ''aas'' ''/shells'' st = Some (s1, n1, m1)" and
    2: "pull_entity_type fuel cfg pages now a ''submodel'' ''/submodels'' s1 = Some (st1, n2, m2)" and
    x: "x = Inr (n1 + n2, m1 + m2)"
    by (auto simp: pull_from_peer_def split: option.splits prod.splits)
  from ent [OF assms(1) 1] obtain s1' where
    first: "pull_entity_type fuel cfg pages now' a ''aas'' ''/shells'' st' = Some (s1', n1, m1)"
    "same_view s1 s1'" by blast
  from ent [OF first(2) 2] first(1) x show ?thesis by (fastforce simp: pull_from_peer_def)
qed

lemma sync_with_peer_same:
  assumes "mode cfg = PULL" and "same_view st st'" and "answers rs' = answers rs"
    and "sync_with_peer fuel cfg rs a st = Some (st1, r)"
  shows "\<exists>st1'. sync_with_peer fuel cfg rs' a st' = Some (st1', r) \<and> same_view st1 st1'"
proof -
  from assms(1,4) obtain x where x: "pull_from_peer fuel cfg (answers rs) (finished_at rs) a st = Some (st1, x)"
    by (auto simp: sync_with_peer_def Let_def split: option.splits sum.splits prod.splits)
  from pull_from_peer_same [OF assms(2) x, of "finished_at rs'"] obtain st1' where
    x': "pull_from_peer fuel cfg (answers rs) (finished_at rs') a st' = Some (st1', x)"
    and v: "same_view st1 st1'" by blast
  have "p_id (heap (reg st') a) = p_id (heap (reg st) a)" using assms(2) by (simp add: same_view_def)
  with assms x x' v show ?thesis
    by (auto simp: sync_with_peer_def Let_def split: option.splits sum.splits prod.splits)
qed

lemma same_view_set_last_sync:
  "same_view st st' \<Longrightarrow> same_view (set_last_sync a t st) (set_last_sync a t' st')"
  by (simp add: same_view_def)

lemma sync_each_same:
  assumes "mode cfg = PULL" and "\<And>a. answers (world' a) = answers (world a)"
  shows "same_view st st' \<Longrightarrow> sync_each fuel cfg world as (st, res) = Some (st1, res1) \<Longrightarrow>
    \<exists>st1'. sync_each fuel cfg world' as (st', res) = Some (st1', res1)"
proof (induction as arbitrary: st st' res)
  case (Cons a as)
  from Cons.prems(2) obtain s r where s: "sync_with_peer fuel cfg (world a) a st = Some (s, r)"
    and rest: "sync_each fuel cfg world as (set_last_sync a (finished_at (world a)) s, res @ [r]) =
               Some (st1, res1)"
    by (auto split: option.splits prod.splits)
  from sync_with_peer_same [OF assms(1) Cons.prems(1) assms(2) s] obtain s' where
    s': "sync_with_peer fuel cfg (world' a) a st' = Some (s', r)" and v: "same_view s s'" by blast
  from Cons.IH [OF same_view_set_last_sync [OF v] rest] s' show ?case by auto
qed simp

lemma sync_each_view:
  assumes "mode cfg = PULL"
  shows "sync_each fuel cfg world as (st, res) = Some (st1, res1) \<Longrightarrow> same_view st st1 \<and> queue st1 = queue st"
proof (induction as arbitrary: st res)
  case (Cons a as)
  from Cons.prems obtain s r where s: "sync_with_peer fuel cfg (world a) a st = Some (s, r)"
    and rest: "sync_each fuel cfg world as (set_last_sync a (finished_at (world a)) s, res @ [r]) =
               Some (st1, res1)"
    by (auto split: option.splits prod.splits)
  from s assms have "pull_frame st s"
    by (auto simp: sync_with_peer_def Let_def dest: pull_from_peer_frame
        split: option.splits sum.splits prod.splits)
  with Cons.IH [OF rest] show ?case by (auto simp: pull_frame_def same_view_def)
qed (simp add: same_view_def)

lemma same_view_peers: "same_view st st' \<Longrightarrow> get_sync_peers cfg (reg st') = get_sync_peers cfg (reg st)"
  by (simp add: get_sync_peers_def list_healthy_def is_healthy_def get_peer_def same_view_def
      split: list.split option.split)

lemma same_view_resolve: "same_view st (fst (resolve_conflicts rs clock sg peer st))"
  by (simp add: resolve_conflicts_def same_view_def Let_def split: prod.split)

lemma same_view_trans: "same_view a b \<Longrightarrow> same_view b c \<Longrightarrow> same_view a c"
  by (simp add: same_view_def)

text \<open>
  Pulling applies nothing: a cycle in pull mode changes neither the etags nor the queue, and
  after resolving the conflicts it found, by any strategy, the next cycle over unchanged peers
  counts the same items as pulled and the same conflicts again.
\<close>

lemma pull_finds_the_same_again:
  assumes pull: "mode cfg = PULL" and same: "\<forall>a. answers (world' a) = answers (world a)"
    and cycle: "sync_once fuel cfg world st = Some (st1, s1)"
  shows "etag_store st1 = etag_store st \<and> queue st1 = queue st \<and>
    (\<exists>st3 s3. sync_once fuel cfg world' (fst (resolve_conflicts rs clock sg peer st1)) = Some (st3, s3) \<and>
       s_pulled s3 = s_pulled s1 \<and> s_conflicts s3 = s_conflicts s1)"
proof (cases "get_sync_peers cfg (reg st)")
  case Nil
  with cycle have st1: "st1 = st" "s_pulled s1 = 0" "s_conflicts s1 = 0"
    by (auto simp: sync_once_def)
  with Nil same_view_peers [OF same_view_resolve, of cfg rs clock sg peer st] show ?thesis
    by (simp add: sync_once_def)
next
  case (Cons a as)
  with cycle obtain res where each: "sync_each fuel cfg world (a # as) (st, []) = Some (st1, res)"
    and s1: "s1 = summarise res st1"
    by (auto simp: sync_once_def simp del: sync_each.simps split: option.splits)
  let ?st2 = "fst (resolve_conflicts rs clock sg peer st1)"
  from sync_each_view [OF pull each] have v: "same_view st st1" and q: "queue st1 = queue st" by auto
  have v2: "same_view st ?st2" using v same_view_resolve by (rule same_view_trans)
  from sync_each_same [OF pull _ v2 each, of world'] same obtain st3 where
    each2: "sync_each fuel cfg world' (a # as) (?st2, []) = Some (st3, res)" by blast
  have "sync_once fuel cfg world' ?st2 = Some (st3, summarise res st3)"
    using each2 same_view_peers [OF v2, of cfg] Cons
    by (simp add: sync_once_def del: sync_each.simps)
  with v q s1 show ?thesis by (simp add: same_view_def summarise_def Let_def)
qed

text \<open>A peer with one shell whose etag differs from the local one.\<close>

definition one_shell :: "nat \<Rightarrow> responses" where
  "one_shell a = \<lparr>replies = (\<lambda>k rq. Raised ''down''),
     answers = (\<lambda>k url cur. if url = ''http://a/shells''
       then PageOf (JDict [(''result'', JList [JDict [(''id'', JStr ''x'')]])]) else PageRaised),
     finished_at = 9\<rparr>"

definition shell_settings :: settings where
  "shell_settings = (sample_settings PULL)\<lparr>local_data := Some (\<lambda>t i. Some [])\<rparr>"

definition shell_federation :: federation where
  "shell_federation = sample_federation\<lparr>etag_store := [''aas:x'' \<mapsto> ''old'']\<rparr>"

lemma pull_finds_the_same_again_witness:
  "\<exists>st1 s1 st3 s3. sync_once 1 shell_settings one_shell shell_federation = Some (st1, s1) \<and>
     s_conflicts s1 = 1 \<and>
     sync_once 1 shell_settings one_shell
       (fst (resolve_conflicts (resolve (\<lambda>_. None) MANUAL) (\<lambda>_. 0) REMOTE_PREFERRED None st1)) =
       Some (st3, s3) \<and> s_conflicts s3 = 1"
proof -
  have "get_sync_peers shell_settings (reg shell_federation) = [0, 1]"
    by (simp add: get_sync_peers_def shell_settings_def sample_settings_def shell_federation_def
        sample_federation_def list_healthy_def is_healthy_def sample_peer_def)
  then obtain st1 s1 where run: "sync_once 1 shell_settings one_shell shell_federation = Some (st1, s1)"
    and one: "s_conflicts s1 = 1"
    by (simp add: sync_once_def sync_with_peer_def shell_settings_def sample_settings_def
        pull_from_peer_def pull_entity_type_def pull_page_def one_shell_def dicts shell_federation_def
        sample_federation_def sample_peer_def check_and_handle_conflict_def id_text_def Let_def
        summarise_def set_last_sync_def set_peer_def)
  have "mode shell_settings = PULL" by (simp add: shell_settings_def sample_settings_def)
  from pull_finds_the_same_again [OF this _ run, of one_shell] run one show ?thesis by fastforce
qed

section \<open>Health checks\<close>

lemma check_each_stops:
  "check_each reply now (as @ a # bs) (r, res) =
     (case check_each reply now as (r, res) of
        (r', Inl e) \<Rightarrow> (r', Inl e)
      | (r', Inr res') \<Rightarrow> check_each reply now (a # bs) (r', res'))"
  by (induction as arbitrary: r res) (auto split: sum.split prod.split)

lemma check_health_other:
  "check_health h now a r = Inr (r', s) \<Longrightarrow>
   has_client r' = has_client r \<and> peers r' = peers r \<and> (b \<noteq> a \<longrightarrow> heap r' b = heap r b)"
  by (auto simp: check_health_def set_peer_def Let_def split: if_splits health_reply.splits)

lemma check_each_other:
  "b \<notin> set as \<Longrightarrow> check_each reply now as (r, res) = (r', x) \<Longrightarrow>
   has_client r' = has_client r \<and> heap r' b = heap r b"
proof (induction as arbitrary: r res)
  case (Cons a as)
  show ?case
  proof (cases "check_health (reply a) now a r")
    case (Inl e)
    with Cons.prems show ?thesis by simp
  next
    case (Inr y)
    obtain r1 s where y: "y = (r1, s)" by (cases y)
    have "has_client r1 = has_client r \<and> heap r1 b = heap r b"
      using check_health_other [OF Inr [unfolded y], of b] Cons.prems(1) by auto
    with Cons.IH [of r1] Cons.prems Inr y show ?thesis by auto
  qed
qed simp

lemma one_bad_peer_blinds_the_rest:
  assumes "has_client r" and "map snd (peers r) = as @ a # bs" and "reply a = HealthRaised e"
    and "b \<in> set bs" and "b \<notin> set as" and "b \<noteq> a"
  shows "heap (health_turn reply now r) b = heap r b"
proof -
  obtain r1 x where r1: "check_each reply now as (r, []) = (r1, x)"
    by (cases "check_each reply now as (r, [])")
  from check_each_other [OF assms(5) r1] have c: "has_client r1 \<and> heap r1 b = heap r b"
    using assms(1) by simp
  then have "check_health (reply a) now a r1 = Inl e" using assms(3) by (simp add: check_health_def)
  then show ?thesis
    using c by (auto simp: health_turn_def check_all_health_def list_all_peers_def assms(2)
        check_each_stops r1 simp del: check_each.simps split: sum.split)
      (simp add: c)
qed

end
