(* ===== verification/Externalize.thy ===== *)
theory Externalize
  imports Prelude Ids "HOL-Library.Sublist"
begin

text \<open>
  Moving the content of \<open>Blob\<close> and \<open>File\<close> elements into object storage
  (\<open>src/titan/storage/externalize.py\<close>, the decision in \<open>src/titan/storage/base.py\<close>). The code changes
  the document in place and collects the stored blobs and the references it meets; here a run returns
  the changed document and the list of what it did, in order. The storage gives the ids of the blobs
  (\<open>uuid4\<close>).
\<close>

section \<open>Blobs\<close>

record blob =
  b_id :: string
  b_owner :: string
  b_path :: string
  b_type :: string
  b_content :: "nat list"

record storage =
  inline_threshold :: nat
  new_blob_id :: "nat \<Rightarrow> string"

datatype event = Ref string string | New blob

text \<open>A run: the number of blobs stored so far goes in and out, the events are appended.\<close>

type_synonym 'a run = "nat \<Rightarrow> py_exn + 'a \<times> nat \<times> event list"

definition retR :: "'a \<Rightarrow> 'a run" where
  "retR a n = Inr (a, n, [])"

definition liftR :: "py_exn + 'a \<Rightarrow> 'a run" where
  "liftR m n = (case m of Inl e \<Rightarrow> Inl e | Inr a \<Rightarrow> Inr (a, n, []))"

definition bindR :: "'a run \<Rightarrow> ('a \<Rightarrow> 'b run) \<Rightarrow> 'b run" where
  "bindR m f n =
     bindE (m n) (\<lambda>(a, n', es). bindE (f a n') (\<lambda>(b, n'', es'). Inr (b, n'', es @ es')))"

fun mapR :: "('a \<Rightarrow> 'b run) \<Rightarrow> 'a list \<Rightarrow> 'b list run" where
  "mapR f [] = retR []"
| "mapR f (x # xs) = bindR (f x) (\<lambda>y. bindR (mapR f xs) (\<lambda>ys. retR (y # ys)))"

lemma mapR_cong [fundef_cong]:
  "xs = ys \<Longrightarrow> (\<And>x. x \<in> set ys \<Longrightarrow> f x = g x) \<Longrightarrow> mapR f xs = mapR g ys"
  by (induction ys arbitrary: xs) auto

lemma bindR_Inr:
  "bindR m f n = Inr (b, k, es) \<longleftrightarrow>
   (\<exists>a n' es1 es2. m n = Inr (a, n', es1) \<and> f a n' = Inr (b, k, es2) \<and> es = es1 @ es2)"
  by (auto simp: bindR_def errs)

lemma retR_Inr [simp]: "retR a n = Inr (b, k, es) \<longleftrightarrow> b = a \<and> k = n \<and> es = []"
  by (auto simp: retR_def)

section \<open>Values\<close>

definition blob_prefix :: string where
  "blob_prefix = ''/blobs/''"

text \<open>\<open>Some id\<close> with a non-empty id; an empty rest is false in the \<open>if\<close> that follows.\<close>

definition blob_ref :: "string \<Rightarrow> string option" where
  "blob_ref v = (if prefix blob_prefix v \<and> v \<noteq> blob_prefix
                 then Some (drop (length blob_prefix) v) else None)"

text \<open>
  \<open>base64.b64decode(s, validate=True)\<close>: the standard alphabet, at most two characters of padding at
  the end, at least as many as are missing; \<open>None\<close> is its error, a ValueError.
\<close>

definition std_alphabet :: string where
  "std_alphabet = butlast (butlast b64_alphabet) @ ''+/''"

definition std_value :: "char \<Rightarrow> nat" where
  "std_value c = position c std_alphabet"

definition b64decode :: "string \<Rightarrow> nat list option" where
  "b64decode s =
     (let body = takeWhile (\<lambda>c. c \<noteq> CHR ''='') s; pads = length s - length body;
          missing = (4 - length body mod 4) mod 4
      in if (\<forall>c \<in> set body. c \<in> set std_alphabet) \<and> (\<forall>c \<in> set (drop (length body) s). c = CHR ''='') \<and>
            pads \<le> 2 \<and> (missing \<noteq> 3 \<and> missing \<le> pads)
         then octets (map std_value body) else None)"

definition default_type :: string where
  "default_type = ''application/octet-stream''"

definition data_uri :: "string \<Rightarrow> py_exn + (nat list \<times> string) option" where
  "data_uri v =
     (if \<not> prefix ''data:'' v \<or> \<not> sublist '';base64,'' v then Inr None
      else (let header = takeWhile (\<lambda>c. c \<noteq> CHR '','') v; b64 = drop (Suc (length header)) v;
                ct = takeWhile (\<lambda>c. c \<noteq> CHR '';'') (drop 5 header)
            in case b64decode b64 of
                 None \<Rightarrow> Inl ValueError
               | Some bs \<Rightarrow> Inr (Some (bs, if ct = [] then default_type else ct))))"

text \<open>\<open>element.get("contentType") or default\<close>; validation leaves a string or nothing there.\<close>

definition content_type :: "obj \<Rightarrow> string \<Rightarrow> py_exn + string" where
  "content_type e dflt =
     (let v = dget e ''contentType'' in
      if \<not> truthy v then Inr dflt else case v of JStr s \<Rightarrow> Inr s | _ \<Rightarrow> Inl NotModelled)"

definition should_externalize :: "storage \<Rightarrow> nat list \<Rightarrow> string \<Rightarrow> bool" where
  "should_externalize S content ct =
     (inline_threshold S < length content \<or>
      list_ex (\<lambda>t. prefix t ct)
        [''application/pdf'', ''application/zip'', ''application/gzip'', ''application/x-tar'',
         ''image/png'', ''image/jpeg'', ''image/gif'', ''image/tiff'', ''video/'', ''audio/'', ''model/''])"

definition build_path :: "string \<Rightarrow> json \<Rightarrow> nat option \<Rightarrow> py_exn + string" where
  "build_path parent id_short index =
     (case index of
        Some i \<Rightarrow> Inr (parent @ ''['' @ show_nat i @ '']'')
      | None \<Rightarrow>
          if \<not> truthy id_short then Inr parent
          else case id_short of
            JStr s \<Rightarrow> Inr (if parent = [] then s else parent @ ''.'' @ s)
          | _ \<Rightarrow> Inl NotModelled)"

section \<open>Elements\<close>

text \<open>Storing content and pointing the element at it.\<close>

definition store_value :: "storage \<Rightarrow> string \<Rightarrow> string \<Rightarrow> obj \<Rightarrow> nat list \<Rightarrow> string \<Rightarrow> obj run" where
  "store_value S owner path e content ct n =
     (if \<not> should_externalize S content ct then Inr (e, n, [])
      else Inr (dset ''value'' (JStr (blob_prefix @ new_blob_id S n)) e, Suc n,
             [New \<lparr>b_id = new_blob_id S n, b_owner = owner, b_path = path, b_type = ct,
                   b_content = content\<rparr>]))"

definition externalize_blob :: "storage \<Rightarrow> string \<Rightarrow> string \<Rightarrow> obj \<Rightarrow> obj run" where
  "externalize_blob S owner path e n =
     (case dget e ''value'' of
        JStr v \<Rightarrow>
          if v = [] then Inr (e, n, [])
          else (case blob_ref v of
            Some i \<Rightarrow> Inr (e, n, [Ref i path])
          | None \<Rightarrow>
              bindE (content_type e default_type) (\<lambda>ct.
                case b64decode v of
                  None \<Rightarrow> Inr (e, n, [])
                | Some content \<Rightarrow> store_value S owner path e content ct n))
      | _ \<Rightarrow> Inr (e, n, []))"

definition externalize_file :: "storage \<Rightarrow> string \<Rightarrow> string \<Rightarrow> obj \<Rightarrow> obj run" where
  "externalize_file S owner path e n =
     (case dget e ''value'' of
        JStr v \<Rightarrow>
          if v = [] then Inr (e, n, [])
          else (case blob_ref v of
            Some i \<Rightarrow> Inr (e, n, [Ref i path])
          | None \<Rightarrow>
              bindE (data_uri v) (\<lambda>d. case d of
                  None \<Rightarrow> Inr (e, n, [])
                | Some (content, inferred) \<Rightarrow>
                    bindE (content_type e inferred) (\<lambda>ct. store_value S owner path e content ct n)))
      | _ \<Rightarrow> Inr (e, n, []))"

definition externalize_leaf :: "storage \<Rightarrow> string \<Rightarrow> string \<Rightarrow> obj \<Rightarrow> obj run" where
  "externalize_leaf S owner path e =
     (if dget e ''modelType'' = JStr ''Blob'' then externalize_blob S owner path e
      else if dget e ''modelType'' = JStr ''File'' then externalize_file S owner path e
      else retR e)"

text \<open>One item of a list of elements, at its index; items that are no dictionaries stay.\<close>

definition element_item ::
  "(string \<Rightarrow> obj \<Rightarrow> obj run) \<Rightarrow> string \<Rightarrow> bool \<Rightarrow> nat \<times> json \<Rightarrow> json run" where
  "element_item f parent is_list ix =
     (case snd ix of
        JDict c \<Rightarrow>
          bindR (liftR (build_path parent (dget c ''idShort'') (if is_list then Some (fst ix) else None)))
            (\<lambda>p. bindR (f p c) (\<lambda>c'. retR (JDict c')))
      | x \<Rightarrow> retR x)"

lemma element_item_cong [fundef_cong]:
  "p = p' \<Longrightarrow> l = l' \<Longrightarrow> ix = iy \<Longrightarrow> (\<And>q c. snd iy = JDict c \<Longrightarrow> f q c = g q c) \<Longrightarrow>
   element_item f p l ix = element_item g p' l' iy"
  by (auto simp: element_item_def split: json.split)

text \<open>
  The value under a key, when it is a list of elements: the new dictionary. \<open>value\<close> may be anything
  that can be iterated (a string or a dictionary has no dictionaries in it), the other keys are
  looked at only when they are lists.
\<close>

definition in_value :: "(nat \<times> json \<Rightarrow> json run) \<Rightarrow> json \<Rightarrow> json run" where
  "in_value f v =
     (if \<not> truthy v then retR v
      else case v of
        JList xs \<Rightarrow> bindR (mapR f (enumerate 0 xs)) (\<lambda>ys. retR (JList ys))
      | JStr _ \<Rightarrow> retR v
      | JDict _ \<Rightarrow> retR v
      | _ \<Rightarrow> liftR (Inl TypeError))"

definition in_list :: "(nat \<times> json \<Rightarrow> json run) \<Rightarrow> json \<Rightarrow> json run" where
  "in_list f v =
     (case v of
        JList xs \<Rightarrow> bindR (mapR f (enumerate 0 xs)) (\<lambda>ys. retR (JList ys))
      | _ \<Rightarrow> retR v)"

definition at_key :: "string \<Rightarrow> (json \<Rightarrow> json run) \<Rightarrow> obj \<Rightarrow> obj \<Rightarrow> obj run" where
  "at_key k f e e1 = (if dhas e k then bindR (f (dget e k)) (\<lambda>v. retR (dset k v e1)) else retR e1)"

text \<open>A variable of an operation: the element under its \<open>value\<close>.\<close>

definition variable_item ::
  "(string \<Rightarrow> obj \<Rightarrow> obj run) \<Rightarrow> string \<Rightarrow> nat \<times> json \<Rightarrow> json run" where
  "variable_item f path ix =
     (case snd ix of
        JDict var \<Rightarrow>
          (case dget var ''value'' of
             JDict c \<Rightarrow>
               bindR (liftR (build_path path JNull (Some (fst ix)))) (\<lambda>vp.
               bindR (element_item f vp False (0, JDict c)) (\<lambda>c'. retR (JDict (dset ''value'' c' var))))
           | _ \<Rightarrow> retR (JDict var))
      | x \<Rightarrow> retR x)"

lemma in_value_cong [fundef_cong]:
  "v = w \<Longrightarrow> (\<And>xs i x. w = JList xs \<Longrightarrow> x \<in> set xs \<Longrightarrow> f (i, x) = g (i, x)) \<Longrightarrow> in_value f v = in_value g w"
  by (auto simp: in_value_def in_set_enumerate_eq split: json.split intro!: mapR_cong arg_cong2 [of _ _ _ _ bindR])

lemma in_list_cong [fundef_cong]:
  "v = w \<Longrightarrow> (\<And>xs i x. w = JList xs \<Longrightarrow> x \<in> set xs \<Longrightarrow> f (i, x) = g (i, x)) \<Longrightarrow> in_list f v = in_list g w"
  by (auto simp: in_list_def in_set_enumerate_eq split: json.split intro!: mapR_cong arg_cong2 [of _ _ _ _ bindR])

lemma at_key_cong [fundef_cong]:
  "k = k' \<Longrightarrow> e = d \<Longrightarrow> e1 = d1 \<Longrightarrow> (\<And>v. map_of d k' = Some v \<Longrightarrow> f v = g v) \<Longrightarrow>
   at_key k f e e1 = at_key k' g d d1"
  by (auto simp: at_key_def dhas_def dget_def split: option.splits)

lemma variable_item_cong [fundef_cong]:
  "p = p' \<Longrightarrow> ix = iy \<Longrightarrow>
   (\<And>q var c. snd iy = JDict var \<Longrightarrow> map_of var ''value'' = Some (JDict c) \<Longrightarrow> f q c = g q c) \<Longrightarrow>
   variable_item f p ix = variable_item g p' iy"
  by (auto simp: variable_item_def dget_def split: json.split option.split intro!: element_item_cong
      arg_cong2 [of _ _ _ _ bindR])

lemma size_element_in:
  assumes "map_of e k = Some (JList xs)" and "JDict c \<in> set xs"
  shows "size (JDict c) < size (JDict e)"
  using size_dget [of e k, OF assms(1)] size_list_item [OF assms(2)] by linarith

lemma size_variable_in:
  assumes "map_of e k = Some (JList xs)" and "JDict var \<in> set xs" and "map_of var ''value'' = Some (JDict c)"
  shows "size (JDict c) < size (JDict e)"
  using size_element_in [OF assms(1,2)] size_dget [of var, OF assms(3)] by linarith

function externalize_element :: "storage \<Rightarrow> string \<Rightarrow> string \<Rightarrow> obj \<Rightarrow> obj run" where
  "externalize_element S owner path e =
     bindR (externalize_leaf S owner path e) (\<lambda>e1.
     bindR (if dget e ''modelType'' \<in> {JStr ''SubmodelElementCollection'', JStr ''SubmodelElementList''}
            then at_key ''value''
              (in_value (element_item (externalize_element S owner) path
                 (dget e ''modelType'' = JStr ''SubmodelElementList''))) e e1
            else retR e1) (\<lambda>e2.
     bindR (at_key ''annotations'' (in_list (element_item (externalize_element S owner) path False)) e e2) (\<lambda>e3.
     bindR (at_key ''statements'' (in_list (element_item (externalize_element S owner) path False)) e e3) (\<lambda>e4.
     bindR (at_key ''inputVariables'' (in_list (variable_item (externalize_element S owner) path)) e e4) (\<lambda>e5.
     bindR (at_key ''outputVariables'' (in_list (variable_item (externalize_element S owner) path)) e e5) (\<lambda>e6.
     bindR (at_key ''inoutputVariables'' (in_list (variable_item (externalize_element S owner) path)) e e6) retR))))))"
  by pat_completeness auto

termination
  by (relation "measure (\<lambda>(S, owner, path, e). size (JDict e))")
    (auto simp del: json.size dest: size_element_in size_variable_in)

declare externalize_element.simps [simp del]

section \<open>Documents\<close>

record externalized =
  ext_doc :: obj
  new_blobs :: "blob list"
  referenced :: "(string \<times> string) list"

fun new_of :: "event list \<Rightarrow> blob list" where
  "new_of [] = []"
| "new_of (New b # es) = b # new_of es"
| "new_of (Ref i p # es) = new_of es"

fun refs_of :: "event list \<Rightarrow> (string \<times> string) list \<Rightarrow> (string \<times> string) list" where
  "refs_of [] acc = acc"
| "refs_of (New b # es) acc = refs_of es acc"
| "refs_of (Ref i p # es) acc = refs_of es (AList.update i p acc)"

definition externalize_elements :: "storage \<Rightarrow> string \<Rightarrow> obj \<Rightarrow> obj run" where
  "externalize_elements S owner d =
     at_key ''submodelElements'' (in_value (element_item (externalize_element S owner) [] False)) d d"

definition externalize_submodel_doc :: "storage \<Rightarrow> string \<Rightarrow> obj \<Rightarrow> nat \<Rightarrow> py_exn + externalized \<times> nat" where
  "externalize_submodel_doc S owner d n =
     bindE (externalize_elements S owner d n) (\<lambda>(d', n', es).
       Inr (\<lparr>ext_doc = d', new_blobs = new_of es, referenced = refs_of es []\<rparr>, n'))"

section \<open>Externalizing again\<close>

text \<open>What a second run reports instead of an event of the first: a stored blob is now a reference.\<close>

fun seen :: "event \<Rightarrow> event" where
  "seen (Ref i p) = Ref i p"
| "seen (New b) = Ref (b_id b) (b_path b)"

definition settles :: "('a \<Rightarrow> 'a run) \<Rightarrow> 'a \<Rightarrow> bool" where
  "settles f x = (\<forall>n y m es. f x n = Inr (y, m, es) \<longrightarrow> (\<forall>k. f y k = Inr (y, k, map seen es)))"

lemma settlesD: "settles f x \<Longrightarrow> f x n = Inr (y, m, es) \<Longrightarrow> f y k = Inr (y, k, map seen es)"
  by (auto simp: settles_def)

lemma settles_retR [simp]: "settles retR x"
  by (simp add: settles_def retR_def)

definition storage_ok :: "storage \<Rightarrow> bool" where
  "storage_ok S = (\<forall>n. new_blob_id S n \<noteq> [])"

lemma blob_ref_prefix [simp]: "i \<noteq> [] \<Longrightarrow> blob_ref (blob_prefix @ i) = Some i"
  by (simp add: blob_ref_def)

subsection \<open>Leaves\<close>

definition same_at :: "string set \<Rightarrow> obj \<Rightarrow> obj \<Rightarrow> bool" where
  "same_at K d e = (\<forall>k \<in> K. map_of d k = map_of e k)"

lemma same_at_dget: "same_at K d e \<Longrightarrow> k \<in> K \<Longrightarrow> dget d k = dget e k"
  by (simp add: same_at_def dget_def)

lemma store_value_Inr:
  "store_value S owner p e c ct n = Inr (e1, m, es) \<longleftrightarrow>
   (\<not> should_externalize S c ct \<and> e1 = e \<and> m = n \<and> es = []) \<or>
   (should_externalize S c ct \<and> e1 = dset ''value'' (JStr (blob_prefix @ new_blob_id S n)) e \<and> m = Suc n \<and>
    es = [New \<lparr>b_id = new_blob_id S n, b_owner = owner, b_path = p, b_type = ct, b_content = c\<rparr>])"
  by (auto simp: store_value_def)

lemma value_dset: "dget (dset ''value'' v e) ''value'' = v"
  by simp

lemma blob_of_stored:
  assumes "dget d ''value'' = JStr (blob_prefix @ i)" and "i \<noteq> []"
  shows "externalize_blob S owner p d k = Inr (d, k, [Ref i p])"
    and "externalize_file S owner p d k = Inr (d, k, [Ref i p])"
  using assms by (simp_all add: externalize_blob_def externalize_file_def)

lemma leaf_again_blob:
  assumes ok: "storage_ok S" and run: "externalize_blob S owner p e n = Inr (e1, m, es)"
    and same: "same_at {''value'', ''contentType''} d e1"
  shows "externalize_blob S owner p d k = Inr (d, k, map seen es)"
proof (cases "\<exists>v ct c. dget e ''value'' = JStr v \<and> v \<noteq> [] \<and> blob_ref v = None \<and>
    content_type e default_type = Inr ct \<and> b64decode v = Some c \<and> should_externalize S c ct")
  case True
  with run have "e1 = dset ''value'' (JStr (blob_prefix @ new_blob_id S n)) e"
    and es: "\<exists>b. es = [New b] \<and> b_id b = new_blob_id S n \<and> b_path b = p"
    by (auto simp: externalize_blob_def store_value_def)
  with same have "dget d ''value'' = JStr (blob_prefix @ new_blob_id S n)"
    by (simp add: same_at_dget)
  from blob_of_stored(1) [OF this] ok es show ?thesis by (auto simp: storage_ok_def)
next
  case False
  with run have e1: "e1 = e"
    by (auto simp: externalize_blob_def errs store_value_def split: json.splits if_splits option.splits)
  have "dget d ''value'' = dget e ''value''" "content_type d = content_type e"
    using same e1 by (simp_all add: same_at_def dget_def content_type_def fun_eq_iff)
  with False run show ?thesis
    by (cases "dget e ''value''"; cases "content_type e default_type")
      (auto simp: externalize_blob_def store_value_def split: if_splits option.splits)
qed

lemma leaf_again_file:
  assumes ok: "storage_ok S" and run: "externalize_file S owner p e n = Inr (e1, m, es)"
    and same: "same_at {''value'', ''contentType''} d e1"
  shows "externalize_file S owner p d k = Inr (d, k, map seen es)"
proof (cases "\<exists>v c ct'. dget e ''value'' = JStr v \<and> v \<noteq> [] \<and> blob_ref v = None \<and>
    data_uri v = Inr (Some (c, ct'))")
  case True
  then obtain v c ct' where v: "dget e ''value'' = JStr v" "v \<noteq> []" "blob_ref v = None"
    "data_uri v = Inr (Some (c, ct'))" by blast
  with run obtain ct where ct: "content_type e ct' = Inr ct"
    by (auto simp: externalize_file_def errs)
  show ?thesis
  proof (cases "should_externalize S c ct")
    case True
    with run v ct have "e1 = dset ''value'' (JStr (blob_prefix @ new_blob_id S n)) e"
      and es: "\<exists>b. es = [New b] \<and> b_id b = new_blob_id S n \<and> b_path b = p"
      by (auto simp: externalize_file_def store_value_def)
    with same have "dget d ''value'' = JStr (blob_prefix @ new_blob_id S n)"
      by (simp add: same_at_dget)
    from blob_of_stored(2) [OF this] ok es show ?thesis by (auto simp: storage_ok_def)
  next
    case False
    with run v ct have "e1 = e" "es = []" by (auto simp: externalize_file_def store_value_def)
    moreover from same \<open>e1 = e\<close> have "dget d ''value'' = JStr v" "content_type d ct' = Inr ct"
      using v(1) ct by (simp_all add: same_at_def dget_def content_type_def)
    ultimately show ?thesis using v(2-4) False by (simp add: externalize_file_def store_value_def)
  qed
next
  case False
  with run have e1: "e1 = e"
    by (auto simp: externalize_file_def errs split: json.splits if_splits option.splits)
  then have "dget d ''value'' = dget e ''value''"
    using same by (simp add: same_at_dget)
  with False run show ?thesis
    by (cases "dget e ''value''")
      (auto simp: externalize_file_def errs split: if_splits option.splits)
qed

lemma leaf_shape:
  "externalize_blob S owner p e n = Inr (e1, m, es) \<Longrightarrow> e1 = e \<or> (\<exists>v. e1 = dset ''value'' v e)"
  "externalize_file S owner p e n = Inr (e1, m, es) \<Longrightarrow> e1 = e \<or> (\<exists>v. e1 = dset ''value'' v e)"
  unfolding externalize_blob_def externalize_file_def
  by (auto simp: errs store_value_def split: json.splits if_splits option.splits)

lemma leaf_keeps:
  assumes "externalize_leaf S owner p e n = Inr (e1, m, es)"
  shows "(\<forall>k. k \<noteq> ''value'' \<longrightarrow> map_of e1 k = map_of e k) \<and>
    (dget e ''modelType'' \<notin> {JStr ''Blob'', JStr ''File''} \<longrightarrow> e1 = e)"
proof -
  have shape: "e1 = e \<or> (\<exists>v. e1 = dset ''value'' v e)"
  proof -
    consider "externalize_blob S owner p e n = Inr (e1, m, es)"
      | "externalize_file S owner p e n = Inr (e1, m, es)" | "e1 = e"
      using assms unfolding externalize_leaf_def by (auto split: if_splits)
    then show ?thesis by cases (blast dest: leaf_shape)+
  qed
  then have "\<forall>k. k \<noteq> ''value'' \<longrightarrow> map_of e1 k = map_of e k" by auto
  moreover have "e1 = e" if "dget e ''modelType'' \<notin> {JStr ''Blob'', JStr ''File''}"
    using assms that by (simp add: externalize_leaf_def)
  ultimately show ?thesis by blast
qed

lemma leaf_again:
  assumes "storage_ok S" and "externalize_leaf S owner p e n = Inr (e1, m, es)"
    and "same_at {''value'', ''contentType'', ''modelType''} d e1"
  shows "externalize_leaf S owner p d k = Inr (d, k, map seen es)"
proof -
  have "dget d ''modelType'' = dget e ''modelType''"
    using assms(3) leaf_keeps [OF assms(2)] by (simp add: same_at_def dget_def)
  moreover have "same_at {''value'', ''contentType''} d e1" using assms(3) by (simp add: same_at_def)
  moreover note leaf_again_blob [OF assms(1) _ this] leaf_again_file [OF assms(1) _ this]
  ultimately show ?thesis
    using assms(2) by (simp add: externalize_leaf_def retR_def split: if_splits)
qed

subsection \<open>Lists and keys\<close>

lemma mapR_again:
  assumes "\<And>i x. x \<in> set xs \<Longrightarrow> settles (\<lambda>x. f (i, x)) x"
    and "mapR f (enumerate i xs) n = Inr (ys, m, es)"
  shows "mapR f (enumerate i ys) k = Inr (ys, k, map seen es)"
  using assms
proof (induction xs arbitrary: i n ys es k)
  case (Cons x xs)
  from Cons.prems(2) obtain y n' e1 ys' e2 where y: "f (i, x) n = Inr (y, n', e1)"
    and ys': "mapR f (enumerate (Suc i) xs) n' = Inr (ys', m, e2)" and eq: "ys = y # ys'" "es = e1 @ e2"
    by (auto simp: bindR_Inr)
  have "f (i, y) k = Inr (y, k, map seen e1)"
    using settlesD [OF Cons.prems(1) [of x i] y] by simp
  moreover have "mapR f (enumerate (Suc i) ys') k = Inr (ys', k, map seen e2)"
    using Cons.IH [OF _ ys'] Cons.prems(1) by simp
  ultimately show ?case by (simp add: eq bindR_def retR_def)
qed (auto simp: retR_def)

lemma truthy_list_eq: "length ys = length xs \<Longrightarrow> truthy (JList ys) = truthy (JList xs)"
  by auto

lemma mapR_length: "mapR f xs n = Inr (ys, m, es) \<Longrightarrow> length ys = length xs"
  by (induction xs arbitrary: n ys es) (auto simp: bindR_Inr)

lemma settles_in_value:
  assumes "\<And>xs i x. v = JList xs \<Longrightarrow> x \<in> set xs \<Longrightarrow> settles (\<lambda>x. f (i, x)) x"
  shows "settles (in_value f) v"
proof -
  have "in_value f w k = Inr (w, k, map seen es)" if "in_value f v n = Inr (w, m, es)" for n w m es k
  proof (cases "\<exists>xs. v = JList xs \<and> xs \<noteq> []")
    case True
    then obtain xs where xs: "v = JList xs" "xs \<noteq> []" by blast
    from that obtain ys where ys: "mapR f (enumerate 0 xs) n = Inr (ys, m, es)" "w = JList ys"
      by (auto simp: in_value_def xs bindR_Inr)
    have "ys \<noteq> []" using mapR_length [OF ys(1)] xs by auto
    with mapR_again [OF assms [OF xs(1)] ys(1), of k] show ?thesis
      by (simp add: in_value_def ys(2) bindR_def retR_def)
  next
    case False
    with that show ?thesis
      by (cases v) (auto simp: in_value_def retR_def liftR_def split: if_splits)
  qed
  then show ?thesis by (auto simp: settles_def)
qed

lemma settles_in_list:
  assumes "\<And>xs i x. v = JList xs \<Longrightarrow> x \<in> set xs \<Longrightarrow> settles (\<lambda>x. f (i, x)) x"
  shows "settles (in_list f) v"
proof -
  have "in_list f w k = Inr (w, k, map seen es)" if "in_list f v n = Inr (w, m, es)" for n w m es k
  proof (cases "\<exists>xs. v = JList xs")
    case True
    then obtain xs where xs: "v = JList xs" by blast
    from that obtain ys where ys: "mapR f (enumerate 0 xs) n = Inr (ys, m, es)" "w = JList ys"
      by (auto simp: in_list_def xs bindR_Inr)
    from mapR_again [OF assms [OF xs] ys(1), of k] show ?thesis
      by (simp add: in_list_def ys(2) bindR_def retR_def)
  next
    case False
    with that show ?thesis by (cases v) (auto simp: in_list_def retR_def)
  qed
  then show ?thesis by (auto simp: settles_def)
qed

lemma at_key_Inr:
  assumes "at_key k f e e1 n = Inr (e2, m, es)"
  shows "(\<forall>k'. k' \<noteq> k \<longrightarrow> map_of e2 k' = map_of e1 k') \<and> (\<not> dhas e k \<longrightarrow> e2 = e1 \<and> es = [] \<and> m = n) \<and>
    (dhas e k \<longrightarrow> (\<exists>v. f (dget e k) n = Inr (v, m, es) \<and> e2 = dset k v e1))"
  using assms by (auto simp: at_key_def bindR_Inr retR_def split: if_splits)

lemma externalize_frame:
  assumes "externalize_submodel_doc S owner d n = Inr (x, m)" and "k \<noteq> ''submodelElements''"
  shows "dget (ext_doc x) k = dget d k"
proof -
  from assms(1) obtain es where "externalize_elements S owner d n = Inr (ext_doc x, m, es)"
    by (auto simp: externalize_submodel_doc_def errs)
  from at_key_Inr [OF this [unfolded externalize_elements_def]] assms(2) show ?thesis
    by (simp add: dget_def)
qed

lemma at_key_again:
  assumes run: "at_key k f e e1 n = Inr (e2, m, es)" and "map_of e1 k = map_of e k"
    and "map_of d k = map_of e2 k" and "dhas e k \<Longrightarrow> settles f (dget e k)"
  shows "at_key k f d d j = Inr (d, j, map seen es)"
proof (cases "dhas e k")
  case True
  with at_key_Inr [OF run] obtain v where v: "f (dget e k) n = Inr (v, m, es)" "e2 = dset k v e1" by blast
  have "map_of d k = Some v" using assms(3) v(2) by simp
  moreover have "f v j = Inr (v, j, map seen es)" using settlesD [OF assms(4) [OF True] v(1)] .
  ultimately show ?thesis
    by (simp add: at_key_def dicts bindR_def retR_def dset_same)
next
  case False
  with at_key_Inr [OF run] assms(2,3) show ?thesis
    by (simp add: at_key_def dhas_def retR_def)
qed

lemma settles_element_item:
  assumes "\<And>p c. x = JDict c \<Longrightarrow> settles (f p) c"
    and "\<And>p c n c' m es. x = JDict c \<Longrightarrow> f p c n = Inr (c', m, es) \<Longrightarrow> dget c' ''idShort'' = dget c ''idShort''"
  shows "settles (\<lambda>x. element_item f q l (i, x)) x"
proof (cases "\<exists>c. x = JDict c")
  case True
  then obtain c where x: "x = JDict c" by blast
  have "element_item f q l (i, y) k = Inr (y, k, map seen es)"
    if run: "element_item f q l (i, JDict c) n = Inr (y, m, es)" for n y m es k
  proof -
    from run obtain p c' where p: "build_path q (dget c ''idShort'') (if l then Some i else None) = Inr p"
      and c': "f p c n = Inr (c', m, es)" and y: "y = JDict c'"
      by (cases l; cases "build_path q (dget c ''idShort'') (if l then Some i else None)")
        (auto simp: element_item_def bindR_Inr liftR_def)
    from settlesD [OF assms(1) [OF x] c', of k] assms(2) [OF x c'] p show ?thesis
      by (cases l) (simp_all add: element_item_def y bindR_def liftR_def retR_def)
  qed
  then show ?thesis by (auto simp: settles_def x)
next
  case False
  then show ?thesis by (cases x) (auto simp: settles_def element_item_def retR_def)
qed

lemma settles_variable_item:
  assumes "\<And>p var c. x = JDict var \<Longrightarrow> map_of var ''value'' = Some (JDict c) \<Longrightarrow> settles (f p) c"
    and "\<And>p var c n c' m es. x = JDict var \<Longrightarrow> map_of var ''value'' = Some (JDict c) \<Longrightarrow>
      f p c n = Inr (c', m, es) \<Longrightarrow> dget c' ''idShort'' = dget c ''idShort''"
  shows "settles (\<lambda>x. variable_item f q (i, x)) x"
proof (cases "\<exists>var c. x = JDict var \<and> map_of var ''value'' = Some (JDict c)")
  case True
  then obtain var c where x: "x = JDict var" "map_of var ''value'' = Some (JDict c)" by blast
  have s: "settles (\<lambda>y. element_item f p False (0, y)) (JDict c)" for p
    using assms x by (intro settles_element_item) auto
  have shape: "\<exists>c''. y = JDict c''" if "element_item f p False (0, JDict c) n = Inr (y, m, es)" for p n y m es
    using that by (auto simp: element_item_def bindR_Inr)
  have g: "dget var ''value'' = JDict c" using x(2) by (simp add: dget_def)
  have "variable_item f q (i, y) k = Inr (y, k, map seen es)"
    if run: "variable_item f q (i, JDict var) n = Inr (y, m, es)" for n y m es k
  proof -
    from run obtain vp w where vp: "build_path q JNull (Some i) = Inr vp"
      and w: "element_item f vp False (0, JDict c) n = Inr (w, m, es)"
      and y: "y = JDict (dset ''value'' w var)"
      by (auto simp: variable_item_def g bindR_Inr liftR_def split: sum.splits)
    from shape [OF w] obtain c'' where w': "w = JDict c''" by blast
    from settlesD [OF s w, of k] show ?thesis
      by (simp add: variable_item_def y w' bindR_def liftR_def retR_def vp)
  qed
  then show ?thesis by (auto simp: settles_def x(1))
next
  case False
  have "variable_item f q (i, x) = retR x"
    using False by (cases x) (auto simp: variable_item_def dget_def split: json.split option.split)
  then show ?thesis
    by (auto simp: settles_def retR_def)
qed

subsection \<open>Elements and documents\<close>

text \<open>The steps of an element after its own value, as a list of keys with what happens under them.\<close>

fun at_keys :: "(string \<times> (json \<Rightarrow> json run)) list \<Rightarrow> obj \<Rightarrow> obj \<Rightarrow> obj run" where
  "at_keys [] e d = retR d"
| "at_keys (kf # kfs) e d = bindR (at_key (fst kf) (snd kf) e d) (at_keys kfs e)"

definition element_keys :: "storage \<Rightarrow> string \<Rightarrow> string \<Rightarrow> json \<Rightarrow> (string \<times> (json \<Rightarrow> json run)) list" where
  "element_keys S owner path mt =
     (if mt \<in> {JStr ''SubmodelElementCollection'', JStr ''SubmodelElementList''}
      then [(''value'', in_value (element_item (externalize_element S owner) path
              (mt = JStr ''SubmodelElementList'')))] else []) @
     [(''annotations'', in_list (element_item (externalize_element S owner) path False)),
      (''statements'', in_list (element_item (externalize_element S owner) path False)),
      (''inputVariables'', in_list (variable_item (externalize_element S owner) path)),
      (''outputVariables'', in_list (variable_item (externalize_element S owner) path)),
      (''inoutputVariables'', in_list (variable_item (externalize_element S owner) path))]"

lemma bindR_retR_left [simp]: "bindR (retR a) f = f a"
  by (auto simp: bindR_def retR_def fun_eq_iff split: sum.split prod.split)
     (metis bindE.simps sum.exhaust)+

lemma bindR_retR_right [simp]: "bindR m retR = m"
proof
  fix n show "bindR m retR n = m n"
    by (cases "m n") (auto simp: bindR_def retR_def)
qed

lemma at_keys_eta:
  "at_keys [] e = retR"
  "at_keys (kf # kfs) e = (\<lambda>d. bindR (at_key (fst kf) (snd kf) e d) (at_keys kfs e))"
  by (simp_all add: fun_eq_iff)

lemma externalize_element_keys:
  "externalize_element S owner path e =
   bindR (externalize_leaf S owner path e) (at_keys (element_keys S owner path (dget e ''modelType'')) e)"
  by (subst externalize_element.simps) (auto simp: element_keys_def at_keys_eta simp del: at_keys.simps)

lemma at_keys_again:
  assumes "at_keys kfs e d n = Inr (e', m, es)" and "distinct (map fst kfs)"
    and "\<And>kf. kf \<in> set kfs \<Longrightarrow> map_of d (fst kf) = map_of e (fst kf)"
    and "\<And>kf. kf \<in> set kfs \<Longrightarrow> dhas e (fst kf) \<Longrightarrow> settles (snd kf) (dget e (fst kf))"
  shows "(\<forall>j. at_keys kfs e' e' j = Inr (e', j, map seen es)) \<and>
    (\<forall>k. k \<notin> fst ` set kfs \<longrightarrow> map_of e' k = map_of d k)"
  using assms
proof (induction kfs arbitrary: d n es)
  case (Cons kf kfs)
  obtain k f where kf: "kf = (k, f)" by (cases kf)
  from Cons.prems(1) obtain d1 n1 es1 es2 where d1: "at_key k f e d n = Inr (d1, n1, es1)"
    and rest: "at_keys kfs e d1 n1 = Inr (e', m, es2)" and es: "es = es1 @ es2"
    by (auto simp: bindR_Inr kf)
  note frame = at_key_Inr [OF d1, THEN conjunct1]
  have "\<And>kf. kf \<in> set kfs \<Longrightarrow> map_of d1 (fst kf) = map_of e (fst kf)"
    using Cons.prems(2,3) frame kf by (metis distinct.simps(2) fst_conv image_eqI list.set_intros(2) list.set_map list.simps(9))
  from Cons.IH [OF rest _ this] Cons.prems(2,4)
  have IH: "\<forall>j. at_keys kfs e' e' j = Inr (e', j, map seen es2)"
    and keep: "\<forall>k. k \<notin> fst ` set kfs \<longrightarrow> map_of e' k = map_of d1 k" by auto
  have "map_of e' k = map_of d1 k" using keep Cons.prems(2) kf by auto
  then have "at_key k f e' e' j = Inr (e', j, map seen es1)" for j
    using at_key_again [OF d1] Cons.prems(3,4) [of kf] kf by simp
  with IH have "at_keys (kf # kfs) e' e' j = Inr (e', j, map seen es)" for j
    by (simp add: kf bindR_def es)
  moreover have "map_of e' k' = map_of d k'" if "k' \<notin> fst ` set (kf # kfs)" for k'
    using that keep frame kf by simp
  ultimately show ?case by blast
qed (simp add: retR_def)

lemma element_keys_props:
  "distinct (map fst (element_keys S owner p mt))"
  "''idShort'' \<notin> fst ` set (element_keys S owner p mt)"
  "''modelType'' \<notin> fst ` set (element_keys S owner p mt)"
  "''contentType'' \<notin> fst ` set (element_keys S owner p mt)"
  "''value'' \<in> fst ` set (element_keys S owner p mt) \<Longrightarrow> mt \<notin> {JStr ''Blob'', JStr ''File''}"
  by (auto simp: element_keys_def)

lemma element_keys_below:
  assumes kf: "kf \<in> set (element_keys S owner p (dget e ''modelType''))" and has: "dhas e (fst kf)"
    and below: "\<And>q c. size (JDict c) < size (JDict e) \<Longrightarrow> settles (externalize_element S owner q) c \<and>
      (\<forall>n c' m es. externalize_element S owner q c n = Inr (c', m, es) \<longrightarrow> dget c' ''idShort'' = dget c ''idShort'')"
  shows "settles (snd kf) (dget e (fst kf))"
proof -
  have at: "map_of e (fst kf) = Some (dget e (fst kf))" using has by (auto simp: dicts)
  have item: "settles (\<lambda>x. element_item (externalize_element S owner) q l (i, x)) x"
    if "dget e (fst kf) = JList xs" "x \<in> set xs" for q l i xs x
  proof (rule settles_element_item)
    fix c assume "x = JDict c"
    with that size_element_in [of e "fst kf" xs c] at have "size (JDict c) < size (JDict e)" by simp
    then show "\<And>p. settles (externalize_element S owner p) c"
      "\<And>p n c' m es. externalize_element S owner p c n = Inr (c', m, es) \<Longrightarrow>
         dget c' ''idShort'' = dget c ''idShort''" using below by blast+
  qed
  have var: "settles (\<lambda>x. variable_item (externalize_element S owner) q (i, x)) x"
    if "dget e (fst kf) = JList xs" "x \<in> set xs" for q i xs x
  proof (rule settles_variable_item)
    fix v c assume "x = JDict v" "map_of v ''value'' = Some (JDict c)"
    with that size_variable_in [of e "fst kf" xs v c] at have "size (JDict c) < size (JDict e)" by simp
    then show "\<And>p. settles (externalize_element S owner p) c"
      "\<And>p n c' m es. externalize_element S owner p c n = Inr (c', m, es) \<Longrightarrow>
         dget c' ''idShort'' = dget c ''idShort''" using below by blast+
  qed
  from kf show ?thesis
    unfolding element_keys_def
    by (auto split: if_splits intro!: settles_in_list settles_in_value item var)
qed

lemma settles_externalize_element:
  assumes "storage_ok S"
  shows "settles (externalize_element S owner p) e \<and>
    (\<forall>n e' m es. externalize_element S owner p e n = Inr (e', m, es) \<longrightarrow> dget e' ''idShort'' = dget e ''idShort'')"
proof (induction e arbitrary: p rule: measure_induct_rule [where f = "\<lambda>e. size (JDict e)"])
  case (less e)
  let ?K = "element_keys S owner p (dget e ''modelType'')"
  have "(\<forall>k. externalize_element S owner p e' k = Inr (e', k, map seen es)) \<and>
      dget e' ''idShort'' = dget e ''idShort''"
    if run: "externalize_element S owner p e n = Inr (e', m, es)" for n e' m es
  proof -
    from run obtain e1 n1 es1 es2 where e1: "externalize_leaf S owner p e n = Inr (e1, n1, es1)"
      and keys: "at_keys ?K e e1 n1 = Inr (e', m, es2)" and es: "es = es1 @ es2"
      by (auto simp: externalize_element_keys bindR_Inr)
    note leaf = leaf_keeps [OF e1]
    have agree: "map_of e1 (fst kf) = map_of e (fst kf)" if "kf \<in> set ?K" for kf
    proof (cases "fst kf = ''value''")
      case True
      then have "''value'' \<in> fst ` set ?K" using that by force
      from element_keys_props(5) [OF this] leaf show ?thesis by simp
    qed (use leaf in simp)
    have inner: "settles (snd kf) (dget e (fst kf))" if "kf \<in> set ?K" "dhas e (fst kf)" for kf
      using that less.IH by (rule element_keys_below)
    from at_keys_again [OF keys element_keys_props(1) agree inner]
    have again: "\<And>j. at_keys ?K e' e' j = Inr (e', j, map seen es2)"
      and keep: "\<And>k. k \<notin> fst ` set ?K \<Longrightarrow> map_of e' k = map_of e1 k" by blast+
    have mt: "dget e' ''modelType'' = dget e ''modelType''" and sh: "dget e' ''idShort'' = dget e ''idShort''"
      using keep [OF element_keys_props(3)] keep [OF element_keys_props(2)] leaf by (simp_all add: dget_def)
    have "externalize_leaf S owner p e' k = Inr (e', k, map seen es1)" for k
    proof (cases "dget e ''modelType'' \<in> {JStr ''Blob'', JStr ''File''}")
      case True
      then have "same_at {''value'', ''contentType'', ''modelType''} e' e1"
        using keep element_keys_props(3-5) unfolding same_at_def by blast
      from leaf_again [OF assms e1 this] show ?thesis .
    next
      case False
      with e1 mt show ?thesis by (auto simp: externalize_leaf_def retR_def)
    qed
    with again mt have "externalize_element S owner p e' k = Inr (e', k, map seen es)" for k
      by (simp add: externalize_element_keys bindR_def es)
    with sh show ?thesis by blast
  qed
  then show ?case unfolding settles_def by blast
qed


lemma settles_externalize_elements:
  assumes "storage_ok S"
  shows "settles (externalize_elements S owner) d"
proof -
  have item: "settles (in_value (element_item (externalize_element S owner) [] False)) v" for v
    using settles_externalize_element [OF assms]
    by (intro settles_in_value settles_element_item) blast+
  have "externalize_elements S owner d' k = Inr (d', k, map seen es)"
    if run: "externalize_elements S owner d n = Inr (d', m, es)" for n d' m es k
    using at_key_again [OF run [unfolded externalize_elements_def] refl refl item]
    by (simp add: externalize_elements_def)
  then show ?thesis by (auto simp: settles_def)
qed

lemma refs_of_keys: "fst ` set (refs_of es acc) = fst ` set acc \<union> {i. \<exists>p. Ref i p \<in> set es}"
proof (induction es arbitrary: acc)
  case (Cons e es)
  have "fst ` set (AList.update i p acc) = insert i (fst ` set acc)" for i and p :: string
    by (simp add: dom_update dom_map_of_conv_image_fst [symmetric] update_conv')
  with Cons show ?case by (cases e) auto
qed simp

lemma new_of_set: "b \<in> set (new_of es) \<longleftrightarrow> New b \<in> set es"
  by (induction es rule: new_of.induct) auto

lemma new_of_seen [simp]: "new_of (map seen es) = []"
proof (induction es)
  case (Cons e es) then show ?case by (cases e) auto
qed simp

lemma Ref_seen: "Ref i p \<in> set (map seen es) \<longleftrightarrow> Ref i p \<in> set es \<or> (\<exists>b. New b \<in> set es \<and> i = b_id b \<and> p = b_path b)"
proof (induction es)
  case (Cons e es) then show ?case by (cases e) auto
qed simp

text \<open>
  Externalizing is done once: a second run over its own result stores nothing and changes
  nothing, and refers to exactly the blobs that the first run referred to or stored. So a document
  that is read and written back keeps all its blobs.
\<close>

lemma externalize_settles:
  assumes "storage_ok S" and "externalize_submodel_doc S owner d n = Inr (x, m)"
  shows "\<exists>y. externalize_submodel_doc S owner (ext_doc x) k = Inr (y, k) \<and> ext_doc y = ext_doc x \<and>
    new_blobs y = [] \<and>
    fst ` set (referenced y) = fst ` set (referenced x) \<union> b_id ` set (new_blobs x)"
proof -
  from assms(2) obtain es where run: "externalize_elements S owner d n = Inr (ext_doc x, m, es)"
    and x: "new_blobs x = new_of es" "referenced x = refs_of es []"
    by (auto simp: externalize_submodel_doc_def errs)
  from settlesD [OF settles_externalize_elements [OF assms(1)] run]
  have again: "externalize_elements S owner (ext_doc x) k = Inr (ext_doc x, k, map seen es)" .
  have "(\<exists>p. Ref i p \<in> set (map seen es)) \<longleftrightarrow> (\<exists>p. Ref i p \<in> set es) \<or> i \<in> b_id ` set (new_of es)" for i
    unfolding Ref_seen image_iff Bex_def new_of_set by blast
  then have "fst ` set (refs_of (map seen es) []) = fst ` set (refs_of es []) \<union> b_id ` set (new_of es)"
    unfolding refs_of_keys by blast
  with again x show ?thesis
    by (simp add: externalize_submodel_doc_def)
qed

definition sample_storage :: storage where
  "sample_storage = \<lparr>inline_threshold = 2, new_blob_id = (\<lambda>n. ''b'' @ show_nat n)\<rparr>"

definition sample_blob_doc :: obj where
  "sample_blob_doc = [(''id'', JStr ''s''), (''submodelElements'', JList
     [JDict [(''modelType'', JStr ''SubmodelElementList''), (''idShort'', JStr ''L''), (''value'', JList
        [JDict [(''modelType'', JStr ''Blob''), (''value'', JStr ''QUJD'')],
         JDict [(''modelType'', JStr ''Blob''), (''value'', JStr ''QUI='')]])]])]"

lemma externalize_settles_witness:
  "\<exists>x y. externalize_submodel_doc sample_storage ''r'' sample_blob_doc 0 = Inr (x, 1) \<and>
     map b_path (new_blobs x) = [''L[0]''] \<and>
     externalize_submodel_doc sample_storage ''r'' (ext_doc x) 1 = Inr (y, 1) \<and>
     fst ` set (referenced y) = {''b0''}"
proof -
  have ok: "storage_ok sample_storage" by (simp add: storage_ok_def sample_storage_def)
  have "case externalize_submodel_doc sample_storage ''r'' sample_blob_doc 0 of
      Inr (x, m) \<Rightarrow> m = 1 \<and> map b_path (new_blobs x) = [''L[0]''] \<and> map b_id (new_blobs x) = [''b0''] \<and>
        referenced x = []
    | Inl _ \<Rightarrow> False"
    by code_simp
  then obtain x where x: "externalize_submodel_doc sample_storage ''r'' sample_blob_doc 0 = Inr (x, 1)"
    "map b_path (new_blobs x) = [''L[0]'']" "map b_id (new_blobs x) = [''b0'']" "referenced x = []"
    by (auto split: sum.splits)
  then have "b_id ` set (new_blobs x) = {''b0''}" by (metis list.set(1) list.set(2) set_map)
  with externalize_settles [OF ok x(1), of 1] x show ?thesis by fastforce
qed

end
