(* ===== verification/Cache.thy ===== *)
theory Cache
  imports Prelude Ids "HOL-Library.Sublist"
begin

text \<open>
  The cache of documents in Redis (\<open>src/titan/cache/redis.py\<close>, keys in \<open>src/titan/cache/keys.py\<close>). Redis
  is a service outside the repository: a record of the commands the cache uses on a state of any
  type, with their documented behaviour as a predicate. Cached bytes are represented by the JSON
  document they denote.
\<close>

section \<open>Redis as a cache\<close>

text \<open>
  \<open>kv_setex key ttl value\<close>; \<open>kv_scan p\<close> lists the keys that match the pattern \<open>p*\<close>. An entry that
  expires is gone, which may happen between any two commands (\<open>kv_expires\<close>).
\<close>

record 's kv =
  kv_get :: "string \<Rightarrow> 's \<Rightarrow> json option"
  kv_setex :: "string \<Rightarrow> nat \<Rightarrow> json \<Rightarrow> 's \<Rightarrow> 's"
  kv_del :: "string \<Rightarrow> 's \<Rightarrow> 's"
  kv_scan :: "string \<Rightarrow> 's \<Rightarrow> string list"

definition kv_ok :: "'s kv \<Rightarrow> bool" where
  "kv_ok K =
     (\<forall>k s. (\<forall>k' ttl v. kv_get K k (kv_setex K k' ttl v s) = (if k = k' then Some v else kv_get K k s)) \<and>
            (\<forall>k'. kv_get K k (kv_del K k' s) = (if k = k' then None else kv_get K k s)) \<and>
            (\<forall>p. k \<in> set (kv_scan K p s) \<longleftrightarrow> prefix p k \<and> kv_get K k s \<noteq> None))"

definition kv_expires :: "'s kv \<Rightarrow> 's \<Rightarrow> 's \<Rightarrow> bool" where
  "kv_expires K s s' = (\<forall>k. kv_get K k s' = None \<or> kv_get K k s' = kv_get K k s)"

named_theorems kv \<open>the behaviour of the cache as rewrite rules\<close>

lemma kv_rules [kv]:
  assumes "kv_ok K"
  shows "kv_get K k (kv_setex K k' ttl v s) = (if k = k' then Some v else kv_get K k s)"
    and "kv_get K k (kv_del K k' s) = (if k = k' then None else kv_get K k s)"
    and "k \<in> set (kv_scan K p s) \<longleftrightarrow> prefix p k \<and> kv_get K k s \<noteq> None"
  using assms unfolding kv_ok_def by blast+

text \<open>A table that never expires satisfies the predicate.\<close>

definition table_kv :: "(string \<times> json) list kv" where
  "table_kv = \<lparr>kv_get = (\<lambda>k s. map_of s k), kv_setex = (\<lambda>k ttl v s. AList.update k v s),
     kv_del = (\<lambda>k s. AList.delete k s), kv_scan = (\<lambda>p s. filter (prefix p) (map fst s))\<rparr>"

lemma table_kv_ok: "kv_ok table_kv"
proof -
  have "k \<in> set (filter (prefix p) (map fst s)) \<longleftrightarrow> prefix p k \<and> map_of s k \<noteq> None"
    for k p and s :: "(string \<times> json) list"
    by (auto simp: map_of_eq_None_iff)
  then show ?thesis
    by (simp add: kv_ok_def table_kv_def update_conv' delete_conv')
qed

section \<open>Keys\<close>

definition key_of :: "string \<Rightarrow> string \<Rightarrow> string \<Rightarrow> string" where
  "key_of entity b64 variant = ''titan:'' @ entity @ '':'' @ b64 @ '':'' @ variant"

definition aas_bytes :: "string \<Rightarrow> string" where "aas_bytes b64 = key_of ''aas'' b64 ''bytes''"
definition aas_etag :: "string \<Rightarrow> string" where "aas_etag b64 = key_of ''aas'' b64 ''etag''"
definition submodel_bytes :: "string \<Rightarrow> string" where "submodel_bytes b64 = key_of ''sm'' b64 ''bytes''"
definition submodel_etag :: "string \<Rightarrow> string" where "submodel_etag b64 = key_of ''sm'' b64 ''etag''"
definition concept_description_bytes :: "string \<Rightarrow> string" where
  "concept_description_bytes b64 = key_of ''cd'' b64 ''bytes''"
definition concept_description_etag :: "string \<Rightarrow> string" where
  "concept_description_etag b64 = key_of ''cd'' b64 ''etag''"

text \<open>The pattern is the returned text followed by \<open>*\<close>.\<close>

definition invalidation_pattern :: "string \<Rightarrow> string option \<Rightarrow> string" where
  "invalidation_pattern entity b64 =
     (case b64 of
        Some (c # cs) \<Rightarrow> ''titan:'' @ entity @ '':'' @ (c # cs) @ '':''
      | _ \<Rightarrow> ''titan:'' @ entity @ '':'')"

text \<open>An \<open>idShort\<close> path in UTF-8 and Base64URL without padding; an 8-bit string always has one.\<close>

definition encode_component :: "string \<Rightarrow> string" where
  "encode_component v =
     (if v = [] then [] else case encode_id_to_b64url (map of_char v) of Some e \<Rightarrow> e | None \<Rightarrow> [])"

definition submodel_element_value :: "string \<Rightarrow> string \<Rightarrow> string" where
  "submodel_element_value b64 path =
     ''titan:sm:'' @ b64 @ '':elem:'' @ encode_component path @ '':value''"

fun split_colon :: "string \<Rightarrow> string list" where
  "split_colon [] = [[]]"
| "split_colon (c # cs) =
     (if c = CHR '':'' then [] # split_colon cs
      else case split_colon cs of [] \<Rightarrow> [[c]] | w # ws \<Rightarrow> (c # w) # ws)"

record parsed_key =
  pk_prefix :: string
  pk_entity :: string
  pk_b64 :: string
  pk_variant :: string

definition parse_key :: "string \<Rightarrow> parsed_key option" where
  "parse_key k =
     (case split_colon k of
        p # e # b # v # _ \<Rightarrow>
          if p \<noteq> ''titan'' then None
          else Some \<lparr>pk_prefix = p, pk_entity = e, pk_b64 = b, pk_variant = v\<rparr>
      | _ \<Rightarrow> None)"

section \<open>Operations\<close>

definition default_ttl :: nat where "default_ttl = 3600"

fun both_cached :: "json option \<Rightarrow> json option \<Rightarrow> (obj \<times> string) option" where
  "both_cached (Some (JDict d)) (Some (JStr e)) = Some (d, e)"
| "both_cached _ _ = None"

definition get_pair :: "'s kv \<Rightarrow> string \<Rightarrow> string \<Rightarrow> 's \<Rightarrow> (obj \<times> string) option" where
  "get_pair K kb ke s = both_cached (kv_get K kb s) (kv_get K ke s)"

definition set_pair :: "'s kv \<Rightarrow> string \<Rightarrow> string \<Rightarrow> obj \<Rightarrow> string \<Rightarrow> 's \<Rightarrow> 's" where
  "set_pair K kb ke d e s = kv_setex K ke default_ttl (JStr e) (kv_setex K kb default_ttl (JDict d) s)"

definition del_pair :: "'s kv \<Rightarrow> string \<Rightarrow> string \<Rightarrow> 's \<Rightarrow> 's" where
  "del_pair K kb ke s = kv_del K ke (kv_del K kb s)"

definition get_aas :: "'s kv \<Rightarrow> string \<Rightarrow> 's \<Rightarrow> (obj \<times> string) option" where
  "get_aas K b64 = get_pair K (aas_bytes b64) (aas_etag b64)"
definition set_aas :: "'s kv \<Rightarrow> string \<Rightarrow> obj \<Rightarrow> string \<Rightarrow> 's \<Rightarrow> 's" where
  "set_aas K b64 = set_pair K (aas_bytes b64) (aas_etag b64)"
definition delete_aas :: "'s kv \<Rightarrow> string \<Rightarrow> 's \<Rightarrow> 's" where
  "delete_aas K b64 = del_pair K (aas_bytes b64) (aas_etag b64)"

definition get_submodel :: "'s kv \<Rightarrow> string \<Rightarrow> 's \<Rightarrow> (obj \<times> string) option" where
  "get_submodel K b64 = get_pair K (submodel_bytes b64) (submodel_etag b64)"
definition set_submodel :: "'s kv \<Rightarrow> string \<Rightarrow> obj \<Rightarrow> string \<Rightarrow> 's \<Rightarrow> 's" where
  "set_submodel K b64 = set_pair K (submodel_bytes b64) (submodel_etag b64)"
definition delete_submodel :: "'s kv \<Rightarrow> string \<Rightarrow> 's \<Rightarrow> 's" where
  "delete_submodel K b64 = del_pair K (submodel_bytes b64) (submodel_etag b64)"

definition get_concept_description :: "'s kv \<Rightarrow> string \<Rightarrow> 's \<Rightarrow> (obj \<times> string) option" where
  "get_concept_description K b64 = get_pair K (concept_description_bytes b64) (concept_description_etag b64)"
definition set_concept_description :: "'s kv \<Rightarrow> string \<Rightarrow> obj \<Rightarrow> string \<Rightarrow> 's \<Rightarrow> 's" where
  "set_concept_description K b64 = set_pair K (concept_description_bytes b64) (concept_description_etag b64)"
definition delete_concept_description :: "'s kv \<Rightarrow> string \<Rightarrow> 's \<Rightarrow> 's" where
  "delete_concept_description K b64 = del_pair K (concept_description_bytes b64) (concept_description_etag b64)"

definition get_element_value :: "'s kv \<Rightarrow> string \<Rightarrow> string \<Rightarrow> 's \<Rightarrow> json option" where
  "get_element_value K b64 path s = kv_get K (submodel_element_value b64 path) s"
definition set_element_value :: "'s kv \<Rightarrow> string \<Rightarrow> string \<Rightarrow> json \<Rightarrow> 's \<Rightarrow> 's" where
  "set_element_value K b64 path v s = kv_setex K (submodel_element_value b64 path) 300 v s"
definition delete_element_value :: "'s kv \<Rightarrow> string \<Rightarrow> string \<Rightarrow> 's \<Rightarrow> 's" where
  "delete_element_value K b64 path s = kv_del K (submodel_element_value b64 path) s"

definition elements_pattern :: "string \<Rightarrow> string" where
  "elements_pattern b64 = ''titan:sm:'' @ b64 @ '':elem:''"

definition invalidate_submodel_elements :: "'s kv \<Rightarrow> string \<Rightarrow> 's \<Rightarrow> 's" where
  "invalidate_submodel_elements K b64 s = fold (kv_del K) (kv_scan K (elements_pattern b64) s) s"

section \<open>Keys do not collide\<close>

text \<open>A segment of a URL that decodes is made of the Base64URL alphabet, so it has no colon.\<close>

definition colon_free :: "string \<Rightarrow> bool" where
  "colon_free s = (CHR '':'' \<notin> set s)"

lemma alphabet_colon_free: "set s \<subseteq> set b64_alphabet \<Longrightarrow> colon_free s"
  by (auto simp: colon_free_def b64_alphabet_def)

lemma split_colon_nonempty [simp]: "split_colon s \<noteq> []"
  by (cases s) (auto split: list.split)

lemma split_colon_append:
  "colon_free s \<Longrightarrow> split_colon (s @ CHR '':'' # r) = s # split_colon r"
  by (induction s) (auto simp: colon_free_def)

lemma split_colon_last: "colon_free s \<Longrightarrow> split_colon s = [s]"
  by (induction s) (auto simp: colon_free_def)

lemma parse_key_of:
  assumes "colon_free e" and "colon_free b" and "colon_free v"
  shows "parse_key (key_of e b v) = Some \<lparr>pk_prefix = ''titan'', pk_entity = e, pk_b64 = b, pk_variant = v\<rparr>"
proof -
  have "split_colon (key_of e b v) = [''titan'', e, b, v]"
    using split_colon_append [of "''titan''" "e @ '':'' @ b @ '':'' @ v"] assms
    by (simp add: key_of_def colon_free_def split_colon_append split_colon_last)
  then show ?thesis by (simp add: parse_key_def)
qed

lemma key_of_eq:
  assumes "colon_free e" "colon_free b" "colon_free v" "colon_free e'" "colon_free b'" "colon_free v'"
  shows "key_of e b v = key_of e' b' v' \<longleftrightarrow> e = e' \<and> b = b' \<and> v = v'"
proof
  assume "key_of e b v = key_of e' b' v'"
  then have "parse_key (key_of e b v) = parse_key (key_of e' b' v')" by (rule arg_cong)
  then show "e = e' \<and> b = b' \<and> v = v'"
    unfolding parse_key_of [OF assms(1-3)] parse_key_of [OF assms(4-6)] by simp
qed simp

lemma pattern_matches:
  assumes "colon_free e" "colon_free b" "colon_free e'" "colon_free b'" "b \<noteq> []"
  shows "prefix (invalidation_pattern e (Some b)) (key_of e' b' v) \<longleftrightarrow> e = e' \<and> b = b'"
proof -
  have pat: "invalidation_pattern e (Some b) = ''titan:'' @ e @ '':'' @ b @ '':''"
    using assms(5) by (cases b) (simp_all add: invalidation_pattern_def)
  have split: "split_colon ((''titan:'' @ x @ '':'' @ y @ '':'') @ z) = ''titan'' # x # y # split_colon z"
    if "colon_free x" "colon_free y" for x y z
    using that split_colon_append [of "''titan''" "x @ '':'' @ y @ '':'' @ z"]
    by (simp add: colon_free_def split_colon_append)
  show ?thesis
  proof
    assume "prefix (invalidation_pattern e (Some b)) (key_of e' b' v)"
    then obtain z where "key_of e' b' v = (''titan:'' @ e @ '':'' @ b @ '':'') @ z"
      unfolding pat prefix_def by blast
    then have "split_colon ((''titan:'' @ e' @ '':'' @ b' @ '':'') @ v) =
        split_colon ((''titan:'' @ e @ '':'' @ b @ '':'') @ z)"
      by (simp add: key_of_def)
    with assms show "e = e' \<and> b = b'" by (simp only: split) simp
  next
    assume "e = e' \<and> b = b'"
    then have "key_of e' b' v = (''titan:'' @ e @ '':'' @ b @ '':'') @ v" by (simp add: key_of_def)
    then show "prefix (invalidation_pattern e (Some b)) (key_of e' b' v)"
      unfolding pat by (rule prefixI)
  qed
qed

lemma elements_pattern_value:
  assumes "colon_free b" "colon_free b'"
  shows "prefix (elements_pattern b) (submodel_element_value b' path) \<longleftrightarrow> b = b'"
proof -
  have split: "split_colon (''titan:sm:'' @ y @ '':elem:'' @ z) = ''titan'' # ''sm'' # y # ''elem'' # split_colon z"
    if "colon_free y" for y z
    using that split_colon_append [of "''titan''" "''sm:'' @ y @ '':elem:'' @ z"]
      split_colon_append [of "''sm''" "y @ '':elem:'' @ z"] split_colon_append [of "''elem''" z]
    by (simp add: colon_free_def split_colon_append)
  show ?thesis
  proof
    assume "prefix (elements_pattern b) (submodel_element_value b' path)"
    then obtain z where "submodel_element_value b' path = ''titan:sm:'' @ b @ '':elem:'' @ z"
      by (auto simp: elements_pattern_def prefix_def)
    then have "split_colon (''titan:sm:'' @ b' @ '':elem:'' @ encode_component path @ '':value'') =
        split_colon (''titan:sm:'' @ b @ '':elem:'' @ z)"
      by (simp add: submodel_element_value_def)
    with assms show "b = b'" by (simp only: split) simp
  qed (simp add: elements_pattern_def submodel_element_value_def)
qed

section \<open>The cache as two tables\<close>

lemma key_of_same [simp]: "key_of e b v = key_of e b' v \<longleftrightarrow> b = b'"
  by (simp add: key_of_def)

lemma last_append_ne: "x \<noteq> [] \<Longrightarrow> y \<noteq> [] \<Longrightarrow> last x \<noteq> last y \<Longrightarrow> u @ x \<noteq> w @ y"
  by (metis last_appendR)

lemma key_kinds:
  "aas_bytes b \<noteq> aas_etag b'" "submodel_bytes b \<noteq> submodel_etag b'"
  "aas_bytes b \<noteq> submodel_bytes b'" "aas_bytes b \<noteq> submodel_etag b'"
  "aas_etag b \<noteq> submodel_bytes b'" "aas_etag b \<noteq> submodel_etag b'"
  "submodel_element_value b p \<noteq> aas_bytes b'" "submodel_element_value b p \<noteq> aas_etag b'"
proof -
  have "''titan:'' @ x @ '':'' @ b @ '':'' @ ''bytes'' \<noteq> ''titan:'' @ x @ '':'' @ b' @ '':'' @ ''etag''" for x
    using last_append_ne [of "''bytes''" "''etag''" "''titan:'' @ x @ '':'' @ b @ '':''" "''titan:'' @ x @ '':'' @ b' @ '':''"]
    by simp
  then show "aas_bytes b \<noteq> aas_etag b'" "submodel_bytes b \<noteq> submodel_etag b'"
    by (simp_all only: aas_bytes_def aas_etag_def submodel_bytes_def submodel_etag_def key_of_def not_False_eq_True)
qed (simp_all add: aas_bytes_def aas_etag_def submodel_bytes_def submodel_etag_def key_of_def
    submodel_element_value_def)

lemma element_key_kinds:
  "submodel_element_value b p \<noteq> submodel_bytes b'" "submodel_element_value b p \<noteq> submodel_etag b'"
proof -
  have "last (submodel_element_value b p) = CHR ''e''" "last (submodel_bytes b') = CHR ''s''"
    "last (submodel_etag b') = CHR ''g''"
    by (simp_all add: submodel_element_value_def submodel_bytes_def submodel_etag_def key_of_def)
  then show "submodel_element_value b p \<noteq> submodel_bytes b'" "submodel_element_value b p \<noteq> submodel_etag b'"
    by auto
qed

lemmas keys_apart = key_kinds key_kinds [symmetric] element_key_kinds element_key_kinds [symmetric]

lemma same_keys [simp]:
  "aas_bytes b = aas_bytes b' \<longleftrightarrow> b = b'" "aas_etag b = aas_etag b' \<longleftrightarrow> b = b'"
  "submodel_bytes b = submodel_bytes b' \<longleftrightarrow> b = b'" "submodel_etag b = submodel_etag b' \<longleftrightarrow> b = b'"
  by (simp_all add: aas_bytes_def aas_etag_def submodel_bytes_def submodel_etag_def)

lemma kv_get_fold_del:
  "kv_ok K \<Longrightarrow> kv_get K k (fold (kv_del K) ks s) = (if k \<in> set ks then None else kv_get K k s)"
  by (induction ks arbitrary: s) (simp_all add: kv)

lemma elements_pattern_other:
  assumes "colon_free b" "colon_free b'"
  shows "\<not> prefix (elements_pattern b) (submodel_bytes b')" "\<not> prefix (elements_pattern b) (submodel_etag b')"
    "\<not> prefix (elements_pattern b) (aas_bytes b')" "\<not> prefix (elements_pattern b) (aas_etag b')"
proof -
  have split: "split_colon (''titan:sm:'' @ y @ '':elem:'' @ z) = ''titan'' # ''sm'' # y # ''elem'' # split_colon z"
    if "colon_free y" for y z
    using that split_colon_append [of "''titan''" "''sm:'' @ y @ '':elem:'' @ z"]
      split_colon_append [of "''sm''" "y @ '':elem:'' @ z"] split_colon_append [of "''elem''" z]
    by (simp add: colon_free_def split_colon_append)
  have split2: "split_colon (key_of e y v) = [''titan'', e, y, v]"
    if "colon_free e" "colon_free y" "colon_free v" for e y v
    using split_colon_append [of "''titan''" "e @ '':'' @ y @ '':'' @ v"] that
    by (simp add: key_of_def colon_free_def split_colon_append split_colon_last)
  have no: "\<not> prefix (elements_pattern b) (key_of e b' v)"
    if "colon_free e" "colon_free v" "v \<noteq> ''elem''" for e v
  proof
    assume "prefix (elements_pattern b) (key_of e b' v)"
    then obtain z where "key_of e b' v = ''titan:sm:'' @ b @ '':elem:'' @ z"
      by (auto simp: elements_pattern_def prefix_def)
    then have "split_colon (key_of e b' v) = split_colon (''titan:sm:'' @ b @ '':elem:'' @ z)" by simp
    with that show False unfolding split2 [OF that(1) assms(2) that(2)] split [OF assms(1)] by simp
  qed
  show "\<not> prefix (elements_pattern b) (submodel_bytes b')" "\<not> prefix (elements_pattern b) (submodel_etag b')"
    "\<not> prefix (elements_pattern b) (aas_bytes b')" "\<not> prefix (elements_pattern b) (aas_etag b')"
    unfolding submodel_bytes_def submodel_etag_def aas_bytes_def aas_etag_def
    by (intro no; simp add: colon_free_def)+
qed

named_theorems cached \<open>what the cache returns after an operation\<close>

lemma get_submodel_after [cached]:
  assumes K: "kv_ok K"
  shows "get_submodel K b (set_submodel K b' d e s) = (if b = b' then Some (d, e) else get_submodel K b s)"
    and "get_submodel K b (delete_submodel K b' s) = (if b = b' then None else get_submodel K b s)"
    and "get_submodel K b (set_aas K b' d e s) = get_submodel K b s"
    and "get_submodel K b (delete_aas K b' s) = get_submodel K b s"
    and "get_submodel K b (set_element_value K b' p v s) = get_submodel K b s"
    and "colon_free b \<Longrightarrow> colon_free b' \<Longrightarrow>
         get_submodel K b (invalidate_submodel_elements K b' s) = get_submodel K b s"
  using keys_apart
  by (simp_all add: get_submodel_def set_submodel_def delete_submodel_def set_aas_def delete_aas_def
      set_element_value_def get_pair_def set_pair_def del_pair_def kv_rules [OF K]
      invalidate_submodel_elements_def kv_get_fold_del [OF K] elements_pattern_other)

lemma get_aas_after [cached]:
  assumes K: "kv_ok K"
  shows "get_aas K b (set_aas K b' d e s) = (if b = b' then Some (d, e) else get_aas K b s)"
    and "get_aas K b (delete_aas K b' s) = (if b = b' then None else get_aas K b s)"
    and "get_aas K b (set_submodel K b' d e s) = get_aas K b s"
    and "get_aas K b (delete_submodel K b' s) = get_aas K b s"
    and "get_aas K b (set_element_value K b' p v s) = get_aas K b s"
    and "colon_free b \<Longrightarrow> colon_free b' \<Longrightarrow>
         get_aas K b (invalidate_submodel_elements K b' s) = get_aas K b s"
  using keys_apart
  by (simp_all add: get_aas_def set_submodel_def delete_submodel_def set_aas_def delete_aas_def
      set_element_value_def get_pair_def set_pair_def del_pair_def kv_rules [OF K]
      invalidate_submodel_elements_def kv_get_fold_del [OF K] elements_pattern_other)

lemma encode_component_empty [simp]: "encode_component [] = []"
  by (simp add: encode_component_def)

lemma get_element_after [cached]:
  assumes K: "kv_ok K"
  shows "get_element_value K b p (set_submodel K b' d e s) = get_element_value K b p s"
    and "get_element_value K b p (delete_submodel K b' s) = get_element_value K b p s"
    and "get_element_value K b p (set_aas K b' d e s) = get_element_value K b p s"
    and "get_element_value K b p (delete_aas K b' s) = get_element_value K b p s"
    and "colon_free b \<Longrightarrow> colon_free b' \<Longrightarrow> get_element_value K b p (invalidate_submodel_elements K b' s) =
         (if b = b' then None else get_element_value K b p s)"
  using keys_apart
  by (simp_all add: get_element_value_def set_submodel_def delete_submodel_def set_aas_def delete_aas_def
      set_pair_def del_pair_def kv_rules [OF K]
      invalidate_submodel_elements_def kv_get_fold_del [OF K] elements_pattern_value)

lemma encode_component_inj:
  assumes "encode_component p = encode_component q"
  shows "p = q"
proof -
  have some: "\<exists>e. encode_id_to_b64url (map of_char v) = Some e" for v :: string
  proof -
    have "utf8_encode (map of_char v) \<noteq> None" for v :: string
    proof (induction v)
      case (Cons c v)
      have low: "n < 2048 \<Longrightarrow> utf8_char n \<noteq> None" for n by (simp add: utf8_char_def)
      have "(of_char c :: nat) < 256" by simp
      then have "utf8_char (of_char c) \<noteq> None" by (intro low) linarith
      with Cons show ?case by auto
    qed simp
    then show ?thesis by (auto simp: encode_id_to_b64url_def)
  qed
  have dec: "decode_id_from_b64url (encode_component v) = Inr (map of_char v)" if "v \<noteq> []" for v
    using some [of v] that decode_encoded [of "map of_char v"] by (auto simp: encode_component_def)
  have empty: "decode_id_from_b64url (encode_component []) = Inl EmptyValue"
    by (simp add: decode_id_from_b64url_def)
  have "map of_char p = (map of_char q :: nat list)"
  proof (cases "p = []")
    case True
    with empty assms have "decode_id_from_b64url (encode_component q) = Inl EmptyValue" by simp
    with dec [of q] True show ?thesis by (cases "q = []") simp_all
  next
    case False
    with dec [OF this] empty assms have "q \<noteq> []" by (metis Inl_Inr_False)
    with dec [OF False] dec [OF this] assms show ?thesis by simp
  qed
  then show ?thesis by (rule map_injective) (simp add: inj_on_def)
qed

lemma same_value_key:
  assumes "colon_free b" "colon_free b'"
  shows "submodel_element_value b p = submodel_element_value b' p' \<longleftrightarrow> b = b' \<and> p = p'"
proof
  assume eq: "submodel_element_value b p = submodel_element_value b' p'"
  have "prefix (elements_pattern b) (submodel_element_value b' p')"
    unfolding eq [symmetric] by (simp add: elements_pattern_def submodel_element_value_def)
  then have "b = b'" using elements_pattern_value [OF assms] by simp
  with eq have "encode_component p = encode_component p'" by (simp add: submodel_element_value_def)
  then show "b = b' \<and> p = p'" using \<open>b = b'\<close> encode_component_inj by blast
qed simp

lemma get_element_after_set [cached]:
  assumes "kv_ok K" "colon_free b" "colon_free b'"
  shows "get_element_value K b p (set_element_value K b' p' v s) =
    (if b = b' \<and> p = p' then Some v else get_element_value K b p s)"
  using same_value_key [OF assms(2,3)]
  by (simp add: get_element_value_def set_element_value_def kv_rules [OF assms(1)])

end
