(* ===== verification/Store.thy ===== *)
theory Store
  imports Externalize Cache
begin

text \<open>
  The repositories over the database (\<open>src/titan/persistence/repositories.py\<close>,
  \<open>src/titan/persistence/tables.py\<close>): the tables of shells, submodels and blob assets, and the state
  the request handlers share.

  A stored document and its canonical bytes are one JSON document here, an ETag is a function of it.
  PostgreSQL and SQLAlchemy are outside the repository: a query is the filter its SQL says, in the
  order of creation; the flush of the asset rows is a parameter (\<open>flush_assets\<close>) with its documented
  behaviour as a predicate. Object storage is a table from blob ids to contents.
\<close>

section \<open>Tables\<close>

record row =
  row_id :: string
  row_ident :: "nat list"
  row_b64 :: string
  semantic_id :: json
  kind :: json
  row_doc :: obj
  etag :: string
  created_at :: int

record database =
  shells :: "row list"
  submodels :: "row list"
  assets :: "blob list"

text \<open>
  What a request sees: the committed database, its session's view of it (\<open>tx\<close>), the cache, the object
  storage, the events published so far, and the number of identifiers and stored blobs used up.
\<close>

datatype event_kind = CREATED | UPDATED | DELETED

record published =
  ev_shell :: bool
  ev_kind :: event_kind
  ev_id :: "nat list"
  ev_b64 :: string
  ev_doc :: "obj option"
  ev_etag :: "string option"
  ev_semantic :: json

record 's world =
  db :: database
  tx :: database
  cache :: 's
  objects :: "string \<Rightarrow> nat list option"
  bus :: "published list"
  serial :: nat
  blobs_stored :: nat

text \<open>
  \<open>uuid n\<close> and \<open>stamp n\<close> are the row id and the creation time of the \<open>n\<close>-th row; \<open>valid_shell\<close> and
  \<open>valid_submodel\<close> are Pydantic's validation, a document to its dump or an error text.
  \<open>flush_assets\<close> gets the table, the new paths of kept assets, the inserted and the deleted rows; it is
  \<open>None\<close> when a constraint is violated.
\<close>

record 's env =
  redis :: "'s kv"
  storage_of :: storage
  etag_of :: "obj \<Rightarrow> string"
  valid_shell :: "obj \<Rightarrow> string + obj"
  valid_submodel :: "obj \<Rightarrow> string + obj"
  flush_assets :: "blob list \<Rightarrow> (string \<times> string) list \<Rightarrow> blob list \<Rightarrow> string list \<Rightarrow> blob list option"
  uuid_of :: "nat \<Rightarrow> string"
  stamp_of :: "nat \<Rightarrow> int"

datatype repo_error = Python py_exn | IntegrityError

type_synonym ('s, 'a) action = "'s world \<Rightarrow> 's world \<times> (repo_error + 'a)"

section \<open>Fields of a document\<close>

definition code_points :: "string \<Rightarrow> nat list" where
  "code_points s = map of_char s"

text \<open>\<open>model.id\<close>; the id of a validated document is a string.\<close>

definition id_of :: "obj \<Rightarrow> nat list" where
  "id_of d = (case dget d ''id'' of JStr s \<Rightarrow> code_points s | _ \<Rightarrow> [])"

definition b64_of :: "nat list \<Rightarrow> string" where
  "b64_of i = (case encode_id_to_b64url i of Some e \<Rightarrow> e | None \<Rightarrow> [])"

text \<open>\<open>model.semantic_id.keys[-1].value\<close> and \<open>keys[0].value\<close>, when there are keys.\<close>

definition semantic_keys :: "obj \<Rightarrow> json list" where
  "semantic_keys d =
     (case dget d ''semanticId'' of
        JDict r \<Rightarrow> (case dget r ''keys'' of JList ks \<Rightarrow> ks | _ \<Rightarrow> [])
      | _ \<Rightarrow> [])"

definition key_value :: "json \<Rightarrow> json" where
  "key_value k = (case k of JDict d \<Rightarrow> dget d ''value'' | _ \<Rightarrow> JNull)"

definition last_semantic_id :: "obj \<Rightarrow> json" where
  "last_semantic_id d = (if semantic_keys d = [] then JNull else key_value (last (semantic_keys d)))"

definition first_semantic_id :: "obj \<Rightarrow> json" where
  "first_semantic_id d = (if semantic_keys d = [] then JNull else key_value (hd (semantic_keys d)))"

section \<open>Queries\<close>

definition row_by_id :: "nat list \<Rightarrow> row list \<Rightarrow> row option" where
  "row_by_id i rows = find (\<lambda>r. row_ident r = i) rows"

definition row_by_b64 :: "string \<Rightarrow> row list \<Rightarrow> row option" where
  "row_by_b64 b rows = find (\<lambda>r. row_b64 r = b) rows"

definition get_bytes_by_id :: "nat list \<Rightarrow> row list \<Rightarrow> (obj \<times> string) option" where
  "get_bytes_by_id i rows = map_option (\<lambda>r. (row_doc r, etag r)) (row_by_id i rows)"

definition get_bytes :: "string \<Rightarrow> row list \<Rightarrow> (obj \<times> string) option" where
  "get_bytes b rows = map_option (\<lambda>r. (row_doc r, etag r)) (row_by_b64 b rows)"

definition exists_row :: "nat list \<Rightarrow> row list \<Rightarrow> bool" where
  "exists_row i rows = (row_by_id i rows \<noteq> None)"

text \<open>\<open>ORDER BY created_at LIMIT .. OFFSET ..\<close>, with the ETags computed from the documents.\<close>

definition list_rows :: "'s env \<Rightarrow> nat \<Rightarrow> nat \<Rightarrow> row list \<Rightarrow> (obj \<times> string) list" where
  "list_rows E limit offset rows =
     map (\<lambda>r. (row_doc r, etag_of E (row_doc r)))
       (take limit (drop offset (sort_key created_at rows)))"

definition find_by_semantic_id :: "'s env \<Rightarrow> json \<Rightarrow> nat \<Rightarrow> row list \<Rightarrow> (obj \<times> string) list" where
  "find_by_semantic_id E s limit rows =
     map (\<lambda>r. (row_doc r, etag_of E (row_doc r))) (take limit (filter (\<lambda>r. semantic_id r = s) rows))"

definition find_by_kind :: "'s env \<Rightarrow> json \<Rightarrow> nat \<Rightarrow> row list \<Rightarrow> (obj \<times> string) list" where
  "find_by_kind E k limit rows =
     map (\<lambda>r. (row_doc r, etag_of E (row_doc r))) (take limit (filter (\<lambda>r. kind r = k) rows))"

text \<open>
  One page: the rows after the cursor, the cursor of the next page when there are later rows. The
  cursor is the creation time of the last row of the page.
\<close>

definition page_rows :: "nat \<Rightarrow> int option \<Rightarrow> row list \<Rightarrow> row list" where
  "page_rows limit cursor rows =
     take limit (filter (\<lambda>r. case cursor of None \<Rightarrow> True | Some t \<Rightarrow> t < created_at r)
                   (sort_key created_at rows))"

definition next_page :: "row list \<Rightarrow> row list \<Rightarrow> int option" where
  "next_page pg rows =
     (if pg \<noteq> [] \<and> list_ex (\<lambda>r. created_at (last pg) < created_at r) rows
      then Some (created_at (last pg)) else None)"

definition list_paged_zero_copy ::
  "nat \<Rightarrow> int option \<Rightarrow> json option \<Rightarrow> row list \<Rightarrow> obj list \<times> int option" where
  "list_paged_zero_copy limit cursor sem rows =
     (let rows' = (case sem of None \<Rightarrow> rows | Some s \<Rightarrow> filter (\<lambda>r. semantic_id r = s) rows);
          pg = page_rows limit cursor rows'
      in (map row_doc pg, next_page pg rows'))"

text \<open>\<open>list_models\<close> reads one row more than the page to see whether there is a next one.\<close>

definition list_models :: "nat \<Rightarrow> int option \<Rightarrow> row list \<Rightarrow> row list \<times> int option" where
  "list_models limit cursor rows =
     (let found = page_rows (Suc limit) cursor rows;
          more = limit < length found;
          pg = (if more then take limit found else found)
      in (pg, if pg \<noteq> [] \<and> more then Some (created_at (last pg)) else None))"

section \<open>Shells\<close>

definition set_tx :: "(database \<Rightarrow> database) \<Rightarrow> 's world \<Rightarrow> 's world" where
  "set_tx f w = w\<lparr>tx := f (tx w)\<rparr>"

definition new_row :: "'s env \<Rightarrow> nat \<Rightarrow> obj \<Rightarrow> row" where
  "new_row E n d =
     \<lparr>row_id = uuid_of E n, row_ident = id_of d, row_b64 = b64_of (id_of d),
      semantic_id = JNull, kind = JNull, row_doc = d, etag = etag_of E d, created_at = stamp_of E n\<rparr>"

text \<open>The unique constraints on the identifier and its encoding.\<close>

definition clashes :: "row \<Rightarrow> row list \<Rightarrow> bool" where
  "clashes r rows =
     list_ex (\<lambda>q. row_id q \<noteq> row_id r \<and> (row_ident q = row_ident r \<or> row_b64 q = row_b64 r)) rows"

definition aas_create :: "'s env \<Rightarrow> obj \<Rightarrow> ('s, obj \<times> string) action" where
  "aas_create E d w =
     (let r = new_row E (serial w) d; w' = w\<lparr>serial := Suc (serial w)\<rparr> in
      if clashes r (shells (tx w)) then (w', Inl IntegrityError)
      else (set_tx (\<lambda>t. t\<lparr>shells := shells t @ [r]\<rparr>) w', Inr (d, etag_of E d)))"

definition replace_row :: "row \<Rightarrow> row list \<Rightarrow> row list" where
  "replace_row r rows = map (\<lambda>q. if row_id q = row_id r then r else q) rows"

definition remove_row :: "row \<Rightarrow> row list \<Rightarrow> row list" where
  "remove_row r rows = filter (\<lambda>q. row_id q \<noteq> row_id r) rows"

definition changed_row :: "'s env \<Rightarrow> row \<Rightarrow> obj \<Rightarrow> obj \<Rightarrow> row" where
  "changed_row E r m d =
     r\<lparr>row_ident := id_of m, row_b64 := b64_of (id_of m), row_doc := d, etag := etag_of E d\<rparr>"

definition aas_update :: "'s env \<Rightarrow> nat list \<Rightarrow> obj \<Rightarrow> ('s, (obj \<times> string) option) action" where
  "aas_update E i d w =
     (case row_by_id i (shells (tx w)) of
        None \<Rightarrow> (w, Inr None)
      | Some r \<Rightarrow>
          (let r' = changed_row E r d d in
           if clashes r' (shells (tx w)) then (w, Inl IntegrityError)
           else (set_tx (\<lambda>t. t\<lparr>shells := replace_row r' (shells t)\<rparr>) w, Inr (Some (d, etag_of E d)))))"

definition aas_delete :: "nat list \<Rightarrow> ('s, bool) action" where
  "aas_delete i w =
     (case row_by_id i (shells (tx w)) of
        None \<Rightarrow> (w, Inr False)
      | Some r \<Rightarrow> (set_tx (\<lambda>t. t\<lparr>shells := remove_row r (shells t)\<rparr>) w, Inr True))"

section \<open>Submodels\<close>

text \<open>Running the externalization: its blobs are in the object storage from then on, whatever follows.\<close>

definition put_objects :: "blob list \<Rightarrow> 's world \<Rightarrow> 's world" where
  "put_objects bs w = w\<lparr>objects := fold (\<lambda>b o'. o'(b_id b := Some (b_content b))) bs (objects w)\<rparr>"

definition drop_objects :: "blob list \<Rightarrow> 's world \<Rightarrow> 's world" where
  "drop_objects bs w = w\<lparr>objects := fold (\<lambda>b o'. o'(b_id b := None)) bs (objects w)\<rparr>"

definition run_externalize :: "'s env \<Rightarrow> string \<Rightarrow> obj \<Rightarrow> ('s, externalized) action" where
  "run_externalize E owner d w =
     (case externalize_submodel_doc (storage_of E) owner d (blobs_stored w) of
        Inl e \<Rightarrow> (w, Inl (Python e))
      | Inr (x, n) \<Rightarrow> (put_objects (new_blobs x) (w\<lparr>blobs_stored := n\<rparr>), Inr x))"

definition submodel_row :: "'s env \<Rightarrow> row \<Rightarrow> obj \<Rightarrow> obj \<Rightarrow> row" where
  "submodel_row E r m d =
     (changed_row E r m d)\<lparr>semantic_id := last_semantic_id m,
       kind := (if truthy (dget m ''kind'') then dget m ''kind'' else JNull)\<rparr>"

definition submodel_create :: "'s env \<Rightarrow> obj \<Rightarrow> ('s, obj \<times> string) action" where
  "submodel_create E m w =
     (let rid = uuid_of E (serial w) in
      case run_externalize E rid m (w\<lparr>serial := Suc (serial w)\<rparr>) of
        (w1, Inl e) \<Rightarrow> (w1, Inl e)
      | (w1, Inr x) \<Rightarrow>
          if referenced x \<noteq> [] then (w1, Inl (Python ValueError))
          else (let r = submodel_row E (new_row E (serial w) m) m (ext_doc x) in
                if clashes r (submodels (tx w1)) then (w1, Inl IntegrityError)
                else case flush_assets E (assets (tx w1)) [] (new_blobs x) [] of
                  None \<Rightarrow> (w1, Inl IntegrityError)
                | Some as \<Rightarrow>
                    (set_tx (\<lambda>t. t\<lparr>submodels := submodels t @ [r], assets := as\<rparr>) w1,
                     Inr (ext_doc x, etag_of E (ext_doc x)))))"

definition assets_of :: "row \<Rightarrow> database \<Rightarrow> blob list" where
  "assets_of r t = filter (\<lambda>b. b_owner b = row_id r) (assets t)"

definition submodel_update :: "'s env \<Rightarrow> nat list \<Rightarrow> obj \<Rightarrow> ('s, (obj \<times> string) option) action" where
  "submodel_update E i m w =
     (case row_by_id i (submodels (tx w)) of
        None \<Rightarrow> (w, Inr None)
      | Some r \<Rightarrow>
          (case run_externalize E (row_id r) m w of
             (w1, Inl e) \<Rightarrow> (w1, Inl e)
           | (w1, Inr x) \<Rightarrow>
               (let existing = assets_of r (tx w1);
                    keep = map fst (referenced x) in
                if \<not> set keep \<subseteq> b_id ` set existing then (w1, Inl (Python ValueError))
                else
                  (let gone = filter (\<lambda>b. b_id b \<notin> set keep) existing;
                       w2 = drop_objects gone w1;
                       r' = submodel_row E r m (ext_doc x) in
                   if clashes r' (submodels (tx w2)) then (w2, Inl IntegrityError)
                   else case flush_assets E (assets (tx w2)) (referenced x) (new_blobs x) (map b_id gone) of
                     None \<Rightarrow> (w2, Inl IntegrityError)
                   | Some as \<Rightarrow>
                       (set_tx (\<lambda>t. t\<lparr>submodels := replace_row r' (submodels t), assets := as\<rparr>) w2,
                        Inr (Some (ext_doc x, etag_of E (ext_doc x))))))))"

text \<open>Deleting a submodel drops the contents of its blobs; the rows of the assets stay.\<close>

definition submodel_delete :: "nat list \<Rightarrow> ('s, bool) action" where
  "submodel_delete i w =
     (case row_by_id i (submodels (tx w)) of
        None \<Rightarrow> (w, Inr False)
      | Some r \<Rightarrow>
          (set_tx (\<lambda>t. t\<lparr>submodels := remove_row r (submodels t)\<rparr>)
             (drop_objects (assets_of r (tx w)) w), Inr True))"

section \<open>The flush\<close>

text \<open>
  SQLAlchemy's unit of work writes the rows of a table in a fixed order: updates and inserts before
  deletes. With the unique constraint on the owner and the path, an insert whose owner and path are
  those of a row fails, also when that row is to be deleted by the same flush. Without such a clash,
  and with paths that stay as they are, the flush does what it is told.
\<close>

definition place :: "blob \<Rightarrow> string \<times> string" where
  "place b = (b_owner b, b_path b)"

definition moved :: "(string \<times> string) list \<Rightarrow> blob \<Rightarrow> blob" where
  "moved paths b = (case map_of paths (b_id b) of None \<Rightarrow> b | Some p \<Rightarrow> b\<lparr>b_path := p\<rparr>)"

definition flush_ok ::
  "(blob list \<Rightarrow> (string \<times> string) list \<Rightarrow> blob list \<Rightarrow> string list \<Rightarrow> blob list option) \<Rightarrow> bool" where
  "flush_ok F =
     (\<forall>table paths new gone.
        (distinct (map place (map (moved paths) table @ new)) \<and> map (moved paths) table = table \<longrightarrow>
           F table paths new gone = Some (filter (\<lambda>b. b_id b \<notin> set gone) table @ new)) \<and>
        (map (moved paths) table = table \<and> place ` set new \<inter> place ` set table \<noteq> {} \<longrightarrow>
           F table paths new gone = None))"

text \<open>A flush that satisfies it.\<close>

definition insert_first ::
  "blob list \<Rightarrow> (string \<times> string) list \<Rightarrow> blob list \<Rightarrow> string list \<Rightarrow> blob list option" where
  "insert_first table paths new gone =
     (if distinct (map place (map (moved paths) table @ new))
      then Some (filter (\<lambda>b. b_id b \<notin> set gone) (map (moved paths) table) @ new) else None)"

lemma insert_first_ok: "flush_ok insert_first"
proof -
  have "insert_first table paths new gone = Some (filter (\<lambda>b. b_id b \<notin> set gone) table @ new)"
    if "distinct (map place (map (moved paths) table @ new))" "map (moved paths) table = table"
    for table paths new gone
    using that(1) unfolding insert_first_def that(2) by (simp only: if_True)
  moreover have "insert_first table paths new gone = None"
    if "map (moved paths) table = table" "place ` set new \<inter> place ` set table \<noteq> {}"
    for table paths new gone
  proof -
    have "\<not> distinct (map place (table @ new))" using that(2) by auto
    then show ?thesis unfolding insert_first_def that(1) by (simp only: if_False)
  qed
  ultimately show ?thesis unfolding flush_ok_def by blast
qed

section \<open>The tables stay well formed\<close>

text \<open>
  The columns of a row agree with its document, its key was drawn for it, and no two rows have the
  same key or the same identifier.
\<close>

definition row_ok :: "'s env \<Rightarrow> nat \<Rightarrow> row \<Rightarrow> bool" where
  "row_ok E n r =
     (row_ident r = id_of (row_doc r) \<and> row_b64 r = b64_of (row_ident r) \<and>
      etag r = etag_of E (row_doc r) \<and> (\<exists>k<n. row_id r = uuid_of E k))"

definition rows_ok :: "'s env \<Rightarrow> nat \<Rightarrow> row list \<Rightarrow> bool" where
  "rows_ok E n rows =
     ((\<forall>r \<in> set rows. row_ok E n r) \<and> distinct (map row_id rows) \<and> distinct (map row_ident rows))"

lemma row_by_idD: "row_by_id i rows = Some r \<Longrightarrow> r \<in> set rows \<and> row_ident r = i"
  by (auto simp: row_by_id_def find_Some_iff)

lemma row_by_id_None: "row_by_id i rows = None \<longleftrightarrow> i \<notin> row_ident ` set rows"
  by (auto simp: row_by_id_def find_None_iff)

lemma row_by_id_mem: "distinct (map row_ident rows) \<Longrightarrow> r \<in> set rows \<Longrightarrow> row_by_id (row_ident r) rows = Some r"
  by (induction rows) (auto simp: row_by_id_def image_iff)

lemma row_ok_mono: "row_ok E n r \<Longrightarrow> n \<le> m \<Longrightarrow> row_ok E m r"
  unfolding row_ok_def by (meson less_le_trans)

lemma rows_ok_mono: "rows_ok E n rows \<Longrightarrow> n \<le> m \<Longrightarrow> rows_ok E m rows"
  by (auto simp: rows_ok_def intro: row_ok_mono)

text \<open>The three changes of a table.\<close>

lemma rows_ok_append:
  assumes "rows_ok E n rows" and "inj (uuid_of E)" and "\<not> clashes r rows"
    and "row_ok E (Suc n) r" and "row_id r = uuid_of E n"
  shows "rows_ok E (Suc n) (rows @ [r])"
proof -
  have "row_id r \<notin> row_id ` set rows"
    using assms(1,2,5) by (fastforce simp: rows_ok_def row_ok_def inj_eq)
  moreover from this have "row_ident r \<notin> row_ident ` set rows"
    using assms(3) by (simp add: clashes_def list_ex_iff image_iff) metis
  ultimately show ?thesis
    using assms(1,4) by (auto simp: rows_ok_def intro: row_ok_mono [of _ n])
qed

lemma rows_ok_remove: "rows_ok E n rows \<Longrightarrow> rows_ok E n (remove_row r rows)"
  by (auto simp: rows_ok_def remove_row_def distinct_map_filter)

lemma replace_row_ids:
  "row_id r' = row_id r \<Longrightarrow> map row_id (replace_row r' rows) = map row_id rows"
  by (induction rows) (auto simp: replace_row_def)

lemma rows_ok_replace:
  assumes "rows_ok E n rows" and "r \<in> set rows" and "row_id r' = row_id r" and "\<not> clashes r' rows"
    and "row_ok E n r'"
  shows "rows_ok E n (replace_row r' rows)"
proof -
  have "distinct (map row_ident (replace_row r' rows))" if "distinct (map row_id rows)"
    "distinct (map row_ident rows)" "\<not> clashes r' rows" for rows
    using that
  proof (induction rows)
    case (Cons q rows)
    have "row_ident q \<noteq> row_ident r'" if "row_id q \<noteq> row_id r'"
      using Cons.prems(3) that by (auto simp: clashes_def)
    moreover have "row_ident p \<noteq> row_ident r'" if "p \<in> set rows" "row_id p \<noteq> row_id r'" for p
      using Cons.prems(3) that by (auto simp: clashes_def list_ex_iff)
    moreover have "row_id p \<noteq> row_id q" if "p \<in> set rows" for p
      using Cons.prems(1) that by (auto simp: image_iff)
    moreover have "\<not> clashes r' rows" using Cons.prems(3) by (simp add: clashes_def)
    ultimately show ?case
      using Cons by (auto simp: replace_row_def image_iff split: if_splits) metis+
  qed (simp add: replace_row_def)
  with assms show ?thesis
    by (auto simp: rows_ok_def replace_row_ids) (auto simp: replace_row_def)
qed

text \<open>What a query by identifier finds after each.\<close>

lemma get_after_append:
  "i \<notin> row_ident ` set rows \<or> j \<noteq> i \<Longrightarrow> row_ident r = i \<Longrightarrow>
   get_bytes_by_id j (rows @ [r]) = (if j = i then Some (row_doc r, etag r) else get_bytes_by_id j rows)"
  by (induction rows) (auto simp: get_bytes_by_id_def row_by_id_def)

lemma get_after_replace:
  assumes "rows_ok E n rows" and "row_by_id i rows = Some r" and "row_id r' = row_id r" and "row_ident r' = i"
  shows "get_bytes_by_id j (replace_row r' rows) =
    (if j = i then Some (row_doc r', etag r') else get_bytes_by_id j rows)"
proof -
  have "get_bytes_by_id j (replace_row r' rows) =
    (if j = i then Some (row_doc r', etag r') else get_bytes_by_id j rows)"
    if "distinct (map row_id rows)" "distinct (map row_ident rows)" "r \<in> set rows" "row_ident r = i" for rows
    using that
  proof (induction rows)
    case (Cons q rows)
    show ?case
    proof (cases "q = r")
      case True
      have "replace_row r' rows = rows"
        using Cons.prems(1) True assms(3) by (auto simp: replace_row_def image_iff intro!: map_idI)
      with True assms(3,4) Cons.prems(4) show ?thesis
        by (simp add: get_bytes_by_id_def row_by_id_def replace_row_def)
    next
      case False
      with Cons.prems have "r \<in> set rows" "row_id q \<noteq> row_id r" "row_ident q \<noteq> i" by auto
      with Cons assms(3) show ?thesis
        by (auto simp: get_bytes_by_id_def row_by_id_def replace_row_def)
    qed
  qed simp
  with assms(1) row_by_idD [OF assms(2)] show ?thesis by (simp add: rows_ok_def)
qed

lemma get_after_remove:
  assumes "rows_ok E n rows" and "row_by_id i rows = Some r"
  shows "get_bytes_by_id j (remove_row r rows) = (if j = i then None else get_bytes_by_id j rows)"
proof -
  have "get_bytes_by_id j (remove_row r rows) = (if j = i then None else get_bytes_by_id j rows)"
    if "distinct (map row_id rows)" "distinct (map row_ident rows)" "r \<in> set rows" "row_ident r = i" for rows
    using that
  proof (induction rows)
    case (Cons q rows)
    show ?case
    proof (cases "q = r")
      case True
      have "remove_row r rows = rows"
        using Cons.prems(1) True by (auto simp: remove_row_def image_iff intro!: filter_True)
      moreover have "row_by_id i rows = None"
        using Cons.prems(2,4) True by (auto simp: row_by_id_None)
      ultimately show ?thesis
        using True Cons.prems(4) by (auto simp: get_bytes_by_id_def row_by_id_def remove_row_def)
    next
      case False
      with Cons.prems have "r \<in> set rows" "row_id q \<noteq> row_id r" "row_ident q \<noteq> i" by auto
      with Cons show ?thesis
        by (auto simp: get_bytes_by_id_def row_by_id_def remove_row_def)
    qed
  qed simp
  with assms(1) row_by_idD [OF assms(2)] show ?thesis by (simp add: rows_ok_def)
qed

section \<open>What the operations do\<close>

text \<open>An operation of a repository touches neither the committed database nor the cache nor the bus.\<close>

definition quiet :: "'s world \<Rightarrow> 's world \<Rightarrow> bool" where
  "quiet w w' = (db w' = db w \<and> cache w' = cache w \<and> bus w' = bus w \<and> serial w \<le> serial w')"

definition untouched :: "'s world \<Rightarrow> 's world \<Rightarrow> bool" where
  "untouched w w' = (quiet w w' \<and> tx w' = tx w)"

named_theorems worlds \<open>fields of a state after a step\<close>

declare quiet_def [worlds] untouched_def [worlds] put_objects_def [worlds]

lemma drop_objects_fields [simp]:
  "db (drop_objects bs w) = db w" "tx (drop_objects bs w) = tx w" "cache (drop_objects bs w) = cache w"
  "bus (drop_objects bs w) = bus w" "serial (drop_objects bs w) = serial w"
  by (simp_all add: drop_objects_def)

lemma set_tx_fields [simp]:
  "db (set_tx f w) = db w" "tx (set_tx f w) = f (tx w)" "cache (set_tx f w) = cache w"
  "bus (set_tx f w) = bus w" "serial (set_tx f w) = serial w" "objects (set_tx f w) = objects w"
  by (simp_all add: set_tx_def)

lemma run_externalize_untouched: "run_externalize E owner d w = (w', r) \<Longrightarrow> untouched w w' \<and> serial w' = serial w"
  by (auto simp: run_externalize_def worlds split: sum.splits prod.splits)

lemma run_externalize_doc:
  assumes "run_externalize E owner d w = (w', Inr x)"
  shows "id_of (ext_doc x) = id_of d"
proof -
  from assms obtain n where "externalize_submodel_doc (storage_of E) owner d (blobs_stored w) = Inr (x, n)"
    by (auto simp: run_externalize_def split: sum.splits)
  from externalize_frame [OF this, of "''id''"] show ?thesis by (simp add: id_of_def)
qed

text \<open>The row that replaces \<open>r\<close>: the same key and age, the columns of the model \<open>m\<close>, the document \<open>d\<close>.\<close>

definition row_of :: "'s env \<Rightarrow> row \<Rightarrow> obj \<Rightarrow> obj \<Rightarrow> string \<Rightarrow> row \<Rightarrow> bool" where
  "row_of E r m d e r' =
     (row_id r' = row_id r \<and> created_at r' = created_at r \<and> row_ident r' = id_of m \<and>
      row_b64 r' = b64_of (id_of m) \<and> row_doc r' = d \<and> etag r' = e \<and> e = etag_of E d \<and> id_of d = id_of m)"

lemma row_of_submodel: "id_of d = id_of m \<Longrightarrow> row_of E r m d (etag_of E d) (submodel_row E r m d)"
  by (simp add: row_of_def submodel_row_def changed_row_def)

lemma row_of_shell: "row_of E r d d (etag_of E d) (changed_row E r d d)"
  by (simp add: row_of_def changed_row_def)

lemma guardedE:
  assumes "(if A then (w1, Inl e1) else if B then (w2, Inl e2)
            else case F of None \<Rightarrow> (w3, Inl e3) | Some a \<Rightarrow> (f a, Inr x)) = (w', res)"
  obtains (failed) e where "w' \<in> {w1, w2, w3}" "res = Inl e"
    | (written) a where "\<not> A" "\<not> B" "F = Some a" "w' = f a" "res = Inr x"
  using assms by (cases A; cases B; cases F) auto

lemma submodel_create_effect:
  assumes "submodel_create E m w = (w', res)"
  shows "quiet w w'" and "serial w' = Suc (serial w)"
    and "\<And>e. res = Inl e \<Longrightarrow> tx w' = tx w"
    and "\<And>d e. res = Inr (d, e) \<Longrightarrow>
      \<exists>r as. row_of E (new_row E (serial w) m) m d e r \<and> \<not> clashes r (submodels (tx w)) \<and>
        tx w' = (tx w)\<lparr>submodels := submodels (tx w) @ [r], assets := as\<rparr>"
proof -
  obtain w1 y where run: "run_externalize E (uuid_of E (serial w)) m (w\<lparr>serial := Suc (serial w)\<rparr>) = (w1, y)"
    by (cases "run_externalize E (uuid_of E (serial w)) m (w\<lparr>serial := Suc (serial w)\<rparr>)")
  note keep = run_externalize_untouched [OF run]
  have all: "quiet w w' \<and> serial w' = Suc (serial w) \<and> (\<forall>e. res = Inl e \<longrightarrow> tx w' = tx w) \<and>
    (\<forall>d e. res = Inr (d, e) \<longrightarrow>
      (\<exists>r as. row_of E (new_row E (serial w) m) m d e r \<and> \<not> clashes r (submodels (tx w)) \<and>
        tx w' = (tx w)\<lparr>submodels := submodels (tx w) @ [r], assets := as\<rparr>))"
  proof (cases y)
    case (Inl e)
    with assms run keep show ?thesis by (auto simp: submodel_create_def worlds)
  next
    case (Inr x)
    note row = row_of_submodel [OF run_externalize_doc [OF run [unfolded Inr]], of E "new_row E (serial w) m"]
    let ?r = "submodel_row E (new_row E (serial w) m) m (ext_doc x)"
    from assms have "(if referenced x \<noteq> [] then (w1, Inl (Python ValueError))
       else if clashes ?r (submodels (tx w1)) then (w1, Inl IntegrityError)
       else case flush_assets E (assets (tx w1)) [] (new_blobs x) [] of
         None \<Rightarrow> (w1, Inl IntegrityError)
       | Some as \<Rightarrow> (set_tx (\<lambda>t. t\<lparr>submodels := submodels t @ [?r], assets := as\<rparr>) w1,
            Inr (ext_doc x, etag_of E (ext_doc x)))) = (w', res)"
      by (simp only: submodel_create_def Let_def run Inr prod.case sum.case)
    then show ?thesis
    proof (cases rule: guardedE)
      case (failed e)
      with keep show ?thesis by (auto simp: worlds)
    next
      case (written as)
      from keep have "tx w1 = tx w" by (simp add: worlds)
      with written have "\<not> clashes ?r (submodels (tx w))"
        "tx w' = (tx w)\<lparr>submodels := submodels (tx w) @ [?r], assets := as\<rparr>" by simp_all
      with row have "\<exists>r as. row_of E (new_row E (serial w) m) m (ext_doc x) (etag_of E (ext_doc x)) r \<and>
        \<not> clashes r (submodels (tx w)) \<and>
        tx w' = (tx w)\<lparr>submodels := submodels (tx w) @ [r], assets := as\<rparr>" by blast
      with written(4,5) keep show ?thesis by (simp add: worlds)
    qed
  qed
  then show "quiet w w'" "serial w' = Suc (serial w)" "\<And>e. res = Inl e \<Longrightarrow> tx w' = tx w"
    "\<And>d e. res = Inr (d, e) \<Longrightarrow>
      \<exists>r as. row_of E (new_row E (serial w) m) m d e r \<and> \<not> clashes r (submodels (tx w)) \<and>
        tx w' = (tx w)\<lparr>submodels := submodels (tx w) @ [r], assets := as\<rparr>"
    by blast+
qed

lemma submodel_update_effect:
  assumes "submodel_update E i m w = (w', res)"
  shows "quiet w w'" and "serial w' = serial w"
    and "\<And>e. res = Inl e \<Longrightarrow> tx w' = tx w" and "res = Inr None \<Longrightarrow> w' = w \<and> row_by_id i (submodels (tx w)) = None"
    and "\<And>d e. res = Inr (Some (d, e)) \<Longrightarrow>
      \<exists>r r' as. row_by_id i (submodels (tx w)) = Some r \<and> row_of E r m d e r' \<and> \<not> clashes r' (submodels (tx w)) \<and>
        tx w' = (tx w)\<lparr>submodels := replace_row r' (submodels (tx w)), assets := as\<rparr>"
proof -
  have all: "quiet w w' \<and> serial w' = serial w \<and> (\<forall>e. res = Inl e \<longrightarrow> tx w' = tx w) \<and>
    (res = Inr None \<longrightarrow> w' = w \<and> row_by_id i (submodels (tx w)) = None) \<and>
    (\<forall>d e. res = Inr (Some (d, e)) \<longrightarrow>
      (\<exists>r r' as. row_by_id i (submodels (tx w)) = Some r \<and> row_of E r m d e r' \<and> \<not> clashes r' (submodels (tx w)) \<and>
        tx w' = (tx w)\<lparr>submodels := replace_row r' (submodels (tx w)), assets := as\<rparr>))"
  proof (cases "row_by_id i (submodels (tx w))")
    case None
    with assms show ?thesis by (auto simp: submodel_update_def worlds)
  next
    case (Some r)
    obtain w1 y where run: "run_externalize E (row_id r) m w = (w1, y)"
      by (cases "run_externalize E (row_id r) m w")
    note keep = run_externalize_untouched [OF run]
    show ?thesis
    proof (cases y)
      case (Inl e)
      with assms run keep Some show ?thesis by (auto simp: submodel_update_def worlds)
    next
      case (Inr x)
      note row = row_of_submodel [OF run_externalize_doc [OF run [unfolded Inr]], of E r]
      let ?r = "submodel_row E r m (ext_doc x)"
      let ?gone = "filter (\<lambda>b. b_id b \<notin> set (map fst (referenced x))) (assets_of r (tx w1))"
      from assms have "(if \<not> set (map fst (referenced x)) \<subseteq> b_id ` set (assets_of r (tx w1)) then (w1, Inl (Python ValueError))
         else if clashes ?r (submodels (tx (drop_objects ?gone w1))) then (drop_objects ?gone w1, Inl IntegrityError)
         else case flush_assets E (assets (tx (drop_objects ?gone w1))) (referenced x) (new_blobs x) (map b_id ?gone) of
           None \<Rightarrow> (drop_objects ?gone w1, Inl IntegrityError)
         | Some as \<Rightarrow> (set_tx (\<lambda>t. t\<lparr>submodels := replace_row ?r (submodels t), assets := as\<rparr>) (drop_objects ?gone w1),
              Inr (Some (ext_doc x, etag_of E (ext_doc x))))) = (w', res)"
        by (simp only: submodel_update_def Let_def run Inr Some prod.case sum.case option.case)
      then show ?thesis
      proof (cases rule: guardedE)
        case (failed e)
        with keep Some show ?thesis by (auto simp: worlds)
      next
        case (written as)
        from keep have "tx w1 = tx w" by (simp add: worlds)
        with written have "\<not> clashes ?r (submodels (tx w))"
          "tx w' = (tx w)\<lparr>submodels := replace_row ?r (submodels (tx w)), assets := as\<rparr>" by simp_all
        with row Some have "\<exists>r r' as. row_by_id i (submodels (tx w)) = Some r \<and>
          row_of E r m (ext_doc x) (etag_of E (ext_doc x)) r' \<and> \<not> clashes r' (submodels (tx w)) \<and>
          tx w' = (tx w)\<lparr>submodels := replace_row r' (submodels (tx w)), assets := as\<rparr>" by blast
        with written(4,5) keep show ?thesis by (simp add: worlds)
      qed
    qed
  qed
  then show "quiet w w'" "serial w' = serial w" "\<And>e. res = Inl e \<Longrightarrow> tx w' = tx w"
    "res = Inr None \<Longrightarrow> w' = w \<and> row_by_id i (submodels (tx w)) = None"
    "\<And>d e. res = Inr (Some (d, e)) \<Longrightarrow>
      \<exists>r r' as. row_by_id i (submodels (tx w)) = Some r \<and> row_of E r m d e r' \<and> \<not> clashes r' (submodels (tx w)) \<and>
        tx w' = (tx w)\<lparr>submodels := replace_row r' (submodels (tx w)), assets := as\<rparr>"
    by blast+
qed

lemma submodel_delete_effect:
  assumes "submodel_delete i w = (w', res)"
  shows "quiet w w'" and "serial w' = serial w" and "\<And>e. res \<noteq> Inl e"
    and "res = Inr False \<Longrightarrow> w' = w \<and> row_by_id i (submodels (tx w)) = None"
    and "res = Inr True \<Longrightarrow> \<exists>r. row_by_id i (submodels (tx w)) = Some r \<and>
      tx w' = (tx w)\<lparr>submodels := remove_row r (submodels (tx w))\<rparr>"
  using assms by (auto simp: submodel_delete_def worlds split: option.splits)

lemma aas_create_effect:
  assumes "aas_create E d0 w = (w', res)"
  shows "quiet w w'" and "serial w' = Suc (serial w)" and "\<And>e. res = Inl e \<Longrightarrow> tx w' = tx w"
    and "\<And>d e. res = Inr (d, e) \<Longrightarrow>
      row_of E (new_row E (serial w) d0) d0 d e (new_row E (serial w) d0) \<and>
      \<not> clashes (new_row E (serial w) d0) (shells (tx w)) \<and>
      tx w' = (tx w)\<lparr>shells := shells (tx w) @ [new_row E (serial w) d0]\<rparr>"
  using assms by (auto simp: aas_create_def worlds Let_def row_of_def new_row_def split: if_splits)

lemma aas_update_effect:
  assumes "aas_update E i d0 w = (w', res)"
  shows "quiet w w'" and "serial w' = serial w" and "\<And>e. res = Inl e \<Longrightarrow> tx w' = tx w"
    and "res = Inr None \<Longrightarrow> w' = w \<and> row_by_id i (shells (tx w)) = None"
    and "\<And>d e. res = Inr (Some (d, e)) \<Longrightarrow>
      \<exists>r r'. row_by_id i (shells (tx w)) = Some r \<and> row_of E r d0 d e r' \<and> \<not> clashes r' (shells (tx w)) \<and>
        tx w' = (tx w)\<lparr>shells := replace_row r' (shells (tx w))\<rparr>"
  using assms row_of_shell
  by (auto simp: aas_update_def worlds Let_def split: if_splits option.splits) blast+

lemma aas_delete_effect:
  assumes "aas_delete i w = (w', res)"
  shows "quiet w w'" and "serial w' = serial w" and "\<And>e. res \<noteq> Inl e"
    and "res = Inr False \<Longrightarrow> w' = w \<and> row_by_id i (shells (tx w)) = None"
    and "res = Inr True \<Longrightarrow> \<exists>r. row_by_id i (shells (tx w)) = Some r \<and>
      tx w' = (tx w)\<lparr>shells := remove_row r (shells (tx w))\<rparr>"
  using assms by (auto simp: aas_delete_def worlds split: option.splits)

end
