(* ===== verification/IdShortPath.thy ===== *)
theory IdShortPath
  imports Prelude
begin

text \<open>
  idShortPaths (\<open>src/titan/core/projection.py\<close>, \<open>_parse_id_short_path\<close>): the parser that every
  read and write of a nested element starts from, the printer that the \<open>$path\<close> projection
  uses, and the round trip between the two.
\<close>

datatype part = Name string | Index int

text \<open>
  The loop of \<open>_parse_id_short_path\<close>: \<open>current\<close> is the name being read, \<open>parts\<close> the components so
  far, the string what is left of the path. An index runs to the next \<open>]\<close> or to the end of the
  path; \<open>int\<close> raises a ValueError on anything that is no integer.
\<close>

definition flush_name :: "string \<Rightarrow> part list \<Rightarrow> part list" where
  "flush_name current parts = (if current \<noteq> [] then parts @ [Name current] else parts)"

function parse_loop :: "string \<Rightarrow> part list \<Rightarrow> string \<Rightarrow> py_exn + part list" where
  "parse_loop current parts [] = Inr (flush_name current parts)"
| "parse_loop current parts (c # rest) =
     (if c = CHR ''.'' then parse_loop [] (flush_name current parts) rest
      else if c = CHR ''['' then
        (case py_int (takeWhile (\<lambda>x. x \<noteq> CHR '']'') rest) of
           None \<Rightarrow> Inl ValueError
         | Some index \<Rightarrow>
             parse_loop [] (flush_name current parts @ [Index index])
               (drop 1 (dropWhile (\<lambda>x. x \<noteq> CHR '']'') rest)))
      else parse_loop (current @ [c]) parts rest)"
  by pat_completeness auto
termination
  by (relation "measure (\<lambda>(_, _, s). length s)")
     (auto intro!: le_imp_less_Suc le_trans [OF diff_le_self length_dropWhile_le])

definition parse_id_short_path :: "string \<Rightarrow> py_exn + part list" where
  "parse_id_short_path path = parse_loop [] [] path"

text \<open>
  How the code prints paths (\<open>f"{path}.{child_id}"\<close> and \<open>f"{path}[{idx}]"\<close> in \<open>_collect_paths\<close>,
  \<open>f"{path}.{id_short}"\<close> in \<open>insert_element\<close>).
\<close>

definition path_dot :: "string \<Rightarrow> string \<Rightarrow> string" where
  "path_dot path child_id = path @ ''.'' @ child_id"

definition path_index :: "string \<Rightarrow> nat \<Rightarrow> string" where
  "path_index path idx = path @ ''['' @ show_nat idx @ '']''"

text \<open>The characters that keep a name in one piece: a path without \<open>.\<close> and \<open>[\<close>.\<close>

definition id_short_ok :: "string \<Rightarrow> bool" where
  "id_short_ok s = (s \<noteq> [] \<and> CHR ''.'' \<notin> set s \<and> CHR ''['' \<notin> set s)"

section \<open>Parsing what was printed\<close>

lemma parse_loop_name:
  "CHR ''.'' \<notin> set s \<Longrightarrow> CHR ''['' \<notin> set s \<Longrightarrow>
   parse_loop cur ps (s @ rest) = parse_loop (cur @ s) ps rest"
  by (induction s arbitrary: cur) auto

lemma parse_single: "id_short_ok s \<Longrightarrow> parse_id_short_path s = Inr [Name s]"
  using parse_loop_name [of s "[]" "[]" "[]"]
  by (simp add: parse_id_short_path_def id_short_ok_def flush_name_def)

lemma takeWhile_not_bracket:
  "takeWhile (\<lambda>x. x \<noteq> CHR '']'') (show_nat n @ CHR '']'' # rest) = show_nat n"
  using show_nat_digits [of _ n] digit_not_special
  by (subst takeWhile_append2) auto

lemma dropWhile_not_bracket:
  "dropWhile (\<lambda>x. x \<noteq> CHR '']'') (show_nat n @ CHR '']'' # rest) = CHR '']'' # rest"
  using show_nat_digits [of _ n] digit_not_special
  by (subst dropWhile_append2) auto

text \<open>The path that prints a list of components.\<close>

fun part_ok :: "part \<Rightarrow> bool" where
  "part_ok (Name s) = id_short_ok s"
| "part_ok (Index i) = (0 \<le> i)"

fun render_from :: "part list \<Rightarrow> string" where
  "render_from [] = []"
| "render_from (Name s # ps) = ''.'' @ s @ render_from ps"
| "render_from (Index i # ps) = ''['' @ show_nat (nat i) @ '']'' @ render_from ps"

fun render :: "part list \<Rightarrow> string" where
  "render (Name s # ps) = s @ render_from ps"
| "render ps = render_from ps"

lemma render_from_append: "render_from (ps @ qs) = render_from ps @ render_from qs"
  by (induction ps rule: render_from.induct) auto

lemma render_append: "ps \<noteq> [] \<Longrightarrow> render (ps @ qs) = render ps @ render_from qs"
  by (cases ps rule: render.cases) (auto simp: render_from_append)

lemma path_dot_render: "ps \<noteq> [] \<Longrightarrow> path_dot (render ps) s = render (ps @ [Name s])"
  by (simp add: path_dot_def render_append)

lemma path_index_render: "ps \<noteq> [] \<Longrightarrow> path_index (render ps) i = render (ps @ [Index (int i)])"
  by (simp add: path_index_def render_append)

lemma flush_name_Nil [simp]: "flush_name [] acc = acc"
  by (simp add: flush_name_def)

lemma parse_render_from:
  "\<forall>p \<in> set ps. part_ok p \<Longrightarrow>
   parse_loop cur acc (render_from ps) = Inr (flush_name cur acc @ ps)"
proof (induction ps arbitrary: cur acc rule: render_from.induct)
  case (2 s ps)
  then show ?case by (auto simp: id_short_ok_def parse_loop_name flush_name_def)
next
  case (3 i ps)
  then show ?case by (simp add: takeWhile_not_bracket dropWhile_not_bracket)
qed simp

lemma parse_render:
  assumes "\<forall>p \<in> set ps. part_ok p"
  shows "parse_id_short_path (render ps) = Inr ps"
proof (cases ps rule: render.cases)
  case (1 s qs)
  with assms show ?thesis
    by (auto simp: parse_id_short_path_def id_short_ok_def parse_loop_name parse_render_from
        flush_name_def)
qed (use assms parse_render_from [of ps "[]" "[]"] in
      \<open>simp_all add: parse_id_short_path_def\<close>)

text \<open>What the parser returns: no empty name, and no name with a separator in it.\<close>

fun name_ok :: "part \<Rightarrow> bool" where
  "name_ok (Name s) = id_short_ok s"
| "name_ok (Index _) = True"

lemma flush_names:
  "\<forall>p \<in> set acc. name_ok p \<Longrightarrow> cur = [] \<or> id_short_ok cur \<Longrightarrow>
   \<forall>p \<in> set (flush_name cur acc). name_ok p"
  by (auto simp: flush_name_def)

lemma parse_loop_names:
  "parse_loop cur acc s = Inr ps \<Longrightarrow> \<forall>p \<in> set acc. name_ok p \<Longrightarrow> cur = [] \<or> id_short_ok cur \<Longrightarrow>
   \<forall>p \<in> set ps. name_ok p"
proof (induction cur acc s arbitrary: ps rule: parse_loop.induct)
  case (1 cur acc)
  then show ?case using flush_names [of acc cur] by auto
next
  case (2 cur acc c rest)
  have flush: "\<forall>p \<in> set (flush_name cur acc). name_ok p"
    using "2.prems" by (intro flush_names) auto
  consider "c = CHR ''.''" | "c = CHR ''[''" | "c \<noteq> CHR ''.''" "c \<noteq> CHR ''[''" by blast
  then show ?case
  proof cases
    case 1
    with 2 flush show ?thesis by auto
  next
    case c: 2
    with "2.prems" obtain i where i: "py_int (takeWhile (\<lambda>x. x \<noteq> CHR '']'') rest) = Some i"
      and run: "parse_loop [] (flush_name cur acc @ [Index i])
                  (drop 1 (dropWhile (\<lambda>x. x \<noteq> CHR '']'') rest)) = Inr ps"
      by (auto split: option.splits)
    from flush have "\<forall>p \<in> set (flush_name cur acc @ [Index i]). name_ok p"
      by auto
    with "2.IH"(2) c i run show ?thesis by auto
  next
    case 3
    with 2 show ?thesis by (auto simp: id_short_ok_def)
  qed
qed

lemma parse_names:
  "parse_id_short_path s = Inr ps \<Longrightarrow> p \<in> set ps \<Longrightarrow> name_ok p"
  using parse_loop_names [of "[]" "[]" s ps] by (auto simp: parse_id_short_path_def)

text \<open>
  The canonical spelling of a parsed path parses to the same components: parsing, printing
  and parsing again changes nothing, for every path whose indices are not negative.
\<close>

lemma parse_render_parse:
  assumes "parse_id_short_path s = Inr ps" and "\<forall>i. Index i \<in> set ps \<longrightarrow> 0 \<le> i"
  shows "parse_id_short_path (render ps) = Inr ps"
proof (rule parse_render, rule ballI)
  fix p assume "p \<in> set ps"
  moreover from this have "name_ok p" by (rule parse_names [OF assms(1)])
  ultimately show "part_ok p" using assms(2) by (cases p rule: part.exhaust) auto
qed

lemma parse_render_parse_witness:
  "parse_id_short_path ''.A..B[ +0_7 ].C'' = Inr [Name ''A'', Name ''B'', Index 7, Name ''C''] \<and>
   parse_id_short_path (render [Name ''A'', Name ''B'', Index 7, Name ''C'']) =
     Inr [Name ''A'', Name ''B'', Index 7, Name ''C'']"
proof -
  have p: "parse_id_short_path ''.A..B[ +0_7 ].C'' =
           Inr [Name ''A'', Name ''B'', Index 7, Name ''C'']"
    by code_simp
  show ?thesis using p parse_render_parse [OF p] by simp
qed

end
