(* ===== verification/Projection.thy ===== *)
theory Projection
  imports IdShortPath
begin

text \<open>
  The serialization modifiers of \<open>src/titan/core/projection.py\<close>: the content projections
  \<open>$metadata\<close> and \<open>$value\<close>, the level and extent modifiers, navigation by idShortPath, and the
  extraction functions behind \<open>$value\<close>, \<open>$metadata\<close>, \<open>$reference\<close> and \<open>$path\<close>.
\<close>

section \<open>Modifiers\<close>

record modifiers =
  level :: string
  extent :: string
  content :: string

definition or_default :: "string option \<Rightarrow> string \<Rightarrow> string" where
  "or_default s d = (case s of None \<Rightarrow> d | Some s' \<Rightarrow> if s' = [] then d else s')"

definition projection_modifiers ::
  "string option \<Rightarrow> string option \<Rightarrow> string option \<Rightarrow> modifiers" where
  "projection_modifiers l e c =
     \<lparr>level = or_default l ''deep'', extent = or_default e ''withBlobValue'',
      content = or_default c ''normal''\<rparr>"

definition is_core :: "modifiers \<Rightarrow> bool" where
  "is_core m = (level m = ''core'')"

definition include_blob_value :: "modifiers \<Rightarrow> bool" where
  "include_blob_value m = (extent m = ''withBlobValue'')"

section \<open>Content, level and extent\<close>

definition metadata_fields :: "string list" where
  "metadata_fields =
     [''modelType'', ''idShort'', ''semanticId'', ''supplementalSemanticIds'', ''qualifiers'',
      ''category'', ''description'', ''displayName'', ''extensions'',
      ''embeddedDataSpecifications'']"

definition value_fields :: "string list" where
  "value_fields =
     [''modelType'', ''value'', ''valueType'', ''min'', ''max'', ''contentType'', ''first'',
      ''second'', ''entityType'', ''globalAssetId'', ''specificAssetIds'', ''observed'',
      ''direction'', ''state'']"

definition is_coll :: "obj \<Rightarrow> bool" where
  "is_coll d = (dget d ''modelType'' = JStr ''SubmodelElementCollection'' \<or>
                dget d ''modelType'' = JStr ''SubmodelElementList'')"

text \<open>The branch \<open>result[key] = [f(elem) for elem in value]\<close>, taken when \<open>value\<close> is a list.\<close>

definition keep_list :: "(json \<Rightarrow> 'e + json) \<Rightarrow> json list \<Rightarrow> 'e + json option" where
  "keep_list f xs = bindE (mapE f xs) (\<lambda>ys. Inr (Some (JList ys)))"

lemma keep_list_cong [fundef_cong]:
  "xs = ys \<Longrightarrow> (\<And>x. x \<in> set ys \<Longrightarrow> f x = g x) \<Longrightarrow> keep_list f xs = keep_list g ys"
  unfolding keep_list_def by (metis mapE_cong)

lemma size_item_list: "(k, JList xs) \<in> set d \<Longrightarrow> x \<in> set xs \<Longrightarrow> size x < size (JDict d)"
  using size_dict_value [of k "JList xs" d] size_list_item [of x xs] by simp

function project_metadata :: "json \<Rightarrow> py_exn + json" where
  "project_metadata j =
     (case j of
        JDict d \<Rightarrow>
          bindE (itemsE (\<lambda>k v.
              if k \<in> set metadata_fields then Inr (Some v)
              else case v of
                JList xs \<Rightarrow>
                  if k = ''submodelElements'' then keep_list project_metadata xs
                  else if k = ''value'' then
                    (if is_coll d then keep_list project_metadata xs else Inr None)
                  else Inr None
              | _ \<Rightarrow> Inr None) d)
            (\<lambda>r. Inr (JDict r))
      | _ \<Rightarrow> Inl AttributeError)"
  by pat_completeness auto
termination
  by (relation "measure size") (auto dest: size_item_list)

function project_value :: "json \<Rightarrow> py_exn + json" where
  "project_value j =
     (case j of
        JDict d \<Rightarrow>
          bindE (itemsE (\<lambda>k v.
              case v of
                JList xs \<Rightarrow>
                  if k = ''submodelElements'' then keep_list project_value xs
                  else if k = ''value'' then
                    (if is_coll d then keep_list project_value xs else Inr (Some v))
                  else if k \<in> set value_fields then Inr (Some v) else Inr None
              | _ \<Rightarrow> if k \<in> set value_fields then Inr (Some v) else Inr None) d)
            (\<lambda>r. Inr (JDict r))
      | _ \<Rightarrow> Inl AttributeError)"
  by pat_completeness auto
termination
  by (relation "measure size") (auto dest: size_item_list)

declare project_metadata.simps [simp del] project_value.simps [simp del]

definition core_skips :: "string list" where
  "core_skips = [''submodelElements'', ''value'', ''statements'', ''annotations'']"

definition apply_core_level :: "obj \<Rightarrow> obj" where
  "apply_core_level d = filter (\<lambda>(k, _). k \<notin> set core_skips) d"

text \<open>
  \<open>_strip_blob_values\<close> rewrites two entries in place: the elements of \<open>submodelElements\<close>, then
  those of \<open>value\<close>. Both are read from \<open>r0\<close> here, which is the same since the keys differ.
\<close>

definition put_entry :: "string \<Rightarrow> json option \<Rightarrow> obj \<Rightarrow> obj" where
  "put_entry k w d = (case w of None \<Rightarrow> d | Some v \<Rightarrow> dset k v d)"

definition blob_popped :: "obj \<Rightarrow> obj" where
  "blob_popped d = (if dget d ''modelType'' = JStr ''Blob'' then dpop ''value'' d else d)"

lemma map_of_blob_popped: "map_of (blob_popped d) k = Some v \<Longrightarrow> map_of d k = Some v"
  by (auto simp: blob_popped_def split: if_splits)

lemma size_blob_popped:
  "map_of (blob_popped d) k = Some (JList xs) \<Longrightarrow> x \<in> set xs \<Longrightarrow> size x < size (JDict d)"
  by (rule size_item_list [OF map_of_SomeD [OF map_of_blob_popped]])

function strip_blob_values :: "json \<Rightarrow> py_exn + json" where
  "strip_blob_values j =
     (case j of
        JDict d \<Rightarrow>
          bothE
            (case map_of (blob_popped d) ''submodelElements'' of
               Some (JList xs) \<Rightarrow> keep_list strip_blob_values xs
             | _ \<Rightarrow> Inr None)
            (case map_of (blob_popped d) ''value'' of
               Some (JList xs) \<Rightarrow>
                 if is_coll d then keep_list strip_blob_values xs else Inr None
             | _ \<Rightarrow> Inr None)
            (\<lambda>se v. JDict (put_entry ''value'' v
                           (put_entry ''submodelElements'' se (blob_popped d))))
      | _ \<Rightarrow> Inl AttributeError)"
  by pat_completeness auto
termination
  by (relation "measure size")
     (auto dest: size_blob_popped)

declare strip_blob_values.simps [simp del]

definition apply_projection :: "json \<Rightarrow> modifiers option \<Rightarrow> py_exn + json" where
  "apply_projection payload mods =
     (case mods of
        None \<Rightarrow> Inr payload
      | Some m \<Rightarrow>
          bindE (if content m = ''metadata'' then project_metadata payload
                 else if content m = ''value'' then project_value payload
                 else Inr payload) (\<lambda>r1.
          bindE (if is_core m
                 then (case r1 of JDict d \<Rightarrow> Inr (JDict (apply_core_level d))
                       | _ \<Rightarrow> Inl AttributeError)
                 else Inr r1) (\<lambda>r2.
          if \<not> include_blob_value m then strip_blob_values r2 else Inr r2)))"

section \<open>Extraction\<close>

function extract_value :: "obj \<Rightarrow> py_exn + json" where
  "extract_value d =
     (let mt = dget d ''modelType'' in
      if mt \<in> {JStr ''Property'', JStr ''MultiLanguageProperty''}
      then Inr (dget d ''value'')
      else if mt = JStr ''Range''
      then Inr (JDict [(''min'', dget d ''min''), (''max'', dget d ''max'')])
      else if mt \<in> {JStr ''Blob'', JStr ''File'', JStr ''ReferenceElement''}
      then Inr (dget d ''value'')
      else if is_coll d then
        (if truthy (dget_or d ''value'' (JList []))
         then bindE (py_iter (dget_or d ''value'' (JList []))) (\<lambda>nested.
              bindE (mapE (\<lambda>e. case e of JDict c \<Rightarrow> extract_value c | _ \<Rightarrow> Inl AttributeError) nested)
                (\<lambda>ys. Inr (JList ys)))
         else Inr JNull)
      else if mt = JStr ''Entity''
      then Inr (JDict [(''entityType'', dget d ''entityType''),
                       (''globalAssetId'', dget d ''globalAssetId''),
                       (''specificAssetIds'', dget d ''specificAssetIds'')])
      else Inr JNull)"
  by pat_completeness auto
termination
  by (relation "measure (\<lambda>d. size (JDict d))") (auto dest: size_iter_get)

declare extract_value.simps [simp del]

function extract_metadata :: "json \<Rightarrow> py_exn + json" where
  "extract_metadata j =
     (case j of
        JDict d \<Rightarrow>
          bindE (itemsE (\<lambda>k v.
              if k \<in> set metadata_fields then Inr (Some v)
              else case v of
                JList xs \<Rightarrow>
                  if k = ''submodelElements'' then keep_list extract_metadata xs
                  else if k = ''value'' then
                    (if is_coll d then keep_list extract_metadata xs else Inr None)
                  else if k \<in> {''id'', ''administration'', ''kind''} then Inr (Some v)
                  else Inr None
              | _ \<Rightarrow> if k \<in> {''id'', ''administration'', ''kind''} then Inr (Some v) else Inr None) d)
            (\<lambda>r. Inr (JDict r))
      | _ \<Rightarrow> Inl AttributeError)"
  by pat_completeness auto
termination
  by (relation "measure size") (auto dest: size_item_list)

declare extract_metadata.simps [simp del]

section \<open>Laws of the projections\<close>

lemma keep_list_Inr:
  "keep_list f xs = Inr w \<longleftrightarrow> (\<exists>ys. mapE f xs = Inr ys \<and> w = Some (JList ys))"
  by (auto simp: keep_list_def errs)

lemma keep_list_again:
  assumes "keep_list f xs = Inr (Some (JList ys))"
    and "\<And>x y. x \<in> set xs \<Longrightarrow> f x = Inr y \<Longrightarrow> g y = Inr (h y)"
  shows "keep_list g ys = Inr (Some (JList (map h ys)))"
  using assms mapE_compose [of f xs ys g h] by (auto simp: keep_list_def errs)

text \<open>
  The three projections share one shape: a body that decides, per entry, to keep it, to drop it
  or to project the elements of a list. \<open>item_body\<close> names it, with the entries that are kept as
  they are (\<open>fields\<close>) and those kept when they hold no list of elements (\<open>plain\<close>).
\<close>

definition metadata_item :: "string set \<Rightarrow> (json \<Rightarrow> 'e + json) \<Rightarrow> bool \<Rightarrow> string \<Rightarrow> json \<Rightarrow> 'e + json option" where
  "metadata_item plain f coll k v =
     (if k \<in> set metadata_fields then Inr (Some v)
      else case v of
        JList xs \<Rightarrow>
          if k = ''submodelElements'' then keep_list f xs
          else if k = ''value'' then (if coll then keep_list f xs else Inr None)
          else if k \<in> plain then Inr (Some v) else Inr None
      | _ \<Rightarrow> if k \<in> plain then Inr (Some v) else Inr None)"

definition value_item :: "(json \<Rightarrow> 'e + json) \<Rightarrow> bool \<Rightarrow> string \<Rightarrow> json \<Rightarrow> 'e + json option" where
  "value_item f coll k v =
     (case v of
        JList xs \<Rightarrow>
          if k = ''submodelElements'' then keep_list f xs
          else if k = ''value'' then (if coll then keep_list f xs else Inr (Some v))
          else if k \<in> set value_fields then Inr (Some v) else Inr None
      | _ \<Rightarrow> if k \<in> set value_fields then Inr (Some v) else Inr None)"

lemma project_metadata_dict:
  "project_metadata (JDict d) =
   bindE (itemsE (metadata_item {} project_metadata (is_coll d)) d) (\<lambda>r. Inr (JDict r))"
  by (subst project_metadata.simps) (simp add: metadata_item_def [abs_def] cong: if_cong json.case_cong)

lemma extract_metadata_dict:
  "extract_metadata (JDict d) =
   bindE (itemsE (metadata_item {''id'', ''administration'', ''kind''} extract_metadata (is_coll d)) d)
     (\<lambda>r. Inr (JDict r))"
  by (subst extract_metadata.simps) (simp add: metadata_item_def [abs_def] cong: if_cong json.case_cong)

lemma project_value_dict:
  "project_value (JDict d) =
   bindE (itemsE (value_item project_value (is_coll d)) d) (\<lambda>r. Inr (JDict r))"
  by (subst project_value.simps) (simp add: value_item_def [abs_def])

lemma project_no_dict:
  "project_metadata j = Inr r \<Longrightarrow> \<exists>d. j = JDict d"
  "project_value j = Inr r \<Longrightarrow> \<exists>d. j = JDict d"
  "extract_metadata j = Inr r \<Longrightarrow> \<exists>d. j = JDict d"
  by (cases j; simp add: project_metadata.simps project_value.simps extract_metadata.simps)+

lemma is_coll_items:
  assumes "itemsE f d = Inr r" and "distinct (map fst d)"
    and "\<And>v. f ''modelType'' v = Inr (Some v)"
  shows "is_coll r = is_coll d"
  using map_of_itemsE [OF assms(1,2), of "''modelType''"] assms(3)
  by (simp add: is_coll_def dget_def split: option.splits)

lemma metadata_item_modelType [simp]: "metadata_item P f c ''modelType'' v = Inr (Some v)"
  by (simp add: metadata_item_def metadata_fields_def)

lemma value_item_modelType [simp]: "value_item f c ''modelType'' v = Inr (Some v)"
  by (cases v) (simp_all add: value_item_def value_fields_def)

text \<open>
  One law carries the compositions of projections: projecting the result of \<open>f\<close> with \<open>g\<close> is
  projecting with \<open>g\<close>, when that holds for the nested elements and \<open>g\<close> keeps no entry that \<open>f\<close>
  drops.
\<close>

lemma metadata_item_compose:
  assumes "metadata_item P f c k v = Inr (Some w)" and "Q \<subseteq> P"
    and "\<And>xs x y. v = JList xs \<Longrightarrow> x \<in> set xs \<Longrightarrow> f x = Inr y \<Longrightarrow> g y = g x"
    and "P \<inter> {''submodelElements'', ''value''} = {}"
  shows "metadata_item Q g c k w = metadata_item Q g c k v"
proof -
  have step: "keep_list g ys = keep_list g xs" if v: "v = JList xs" and m: "mapE f xs = Inr ys" for xs ys
  proof -
    have "list_all2 (\<lambda>x y. g y = g x) xs ys"
      using m assms(3) [OF v] by (auto simp: mapE_Inr_all2 intro: list.rel_mono_strong)
    then have "mapE g ys = mapE g xs" by induction auto
    then show ?thesis by (simp add: keep_list_def)
  qed
  show ?thesis
    using assms(1,2,4) step
    by (cases v) (auto simp: metadata_item_def keep_list_Inr split: if_splits)
qed

lemma value_item_compose:
  assumes "value_item f c k v = Inr (Some w)"
    and "\<And>xs x y. v = JList xs \<Longrightarrow> x \<in> set xs \<Longrightarrow> f x = Inr y \<Longrightarrow> g y = g x"
  shows "value_item g c k w = value_item g c k v"
proof -
  have step: "keep_list g ys = keep_list g xs" if v: "v = JList xs" and m: "mapE f xs = Inr ys" for xs ys
  proof -
    have "list_all2 (\<lambda>x y. g y = g x) xs ys"
      using m assms(2) [OF v] by (auto simp: mapE_Inr_all2 intro: list.rel_mono_strong)
    then have "mapE g ys = mapE g xs" by induction auto
    then show ?thesis by (simp add: keep_list_def)
  qed
  show ?thesis
    using assms(1) step by (cases v) (auto simp: value_item_def keep_list_Inr split: if_splits)
qed

text \<open>
  The interface of a metadata projection: it keeps the metadata fields and the entries \<open>plain\<close> of
  every element of the tree. A projection with fewer plain entries absorbs one with more; in
  particular each is idempotent.
\<close>

locale metadata_projection =
  fixes plain :: "string set" and proj :: "json \<Rightarrow> py_exn + json"
  assumes proj_dict:
      "proj (JDict d) = bindE (itemsE (metadata_item plain proj (is_coll d)) d) (\<lambda>r. Inr (JDict r))"
    and proj_other: "proj j = Inr r \<Longrightarrow> \<exists>d. j = JDict d"
    and plain_keys: "plain \<inter> {''submodelElements'', ''value''} = {}"
begin

lemma absorbed:
  assumes g: "metadata_projection Q g" and sub: "Q \<subseteq> plain"
  shows "json_ok j \<Longrightarrow> proj j = Inr r \<Longrightarrow> g r = g j"
proof (induction j arbitrary: r rule: measure_induct_rule [where f = size])
  case (less j)
  from proj_other [OF less.prems(2)] obtain d where j: "j = JDict d" by blast
  from less.prems(2) [unfolded j proj_dict] obtain e where
    e: "itemsE (metadata_item plain proj (is_coll d)) d = Inr e" and r: "r = JDict e"
    by (auto simp: errs)
  have coll: "is_coll e = is_coll d"
    by (rule is_coll_items [OF e]) (use less.prems(1) j in simp_all)
  have "itemsE (metadata_item Q g (is_coll d)) e = itemsE (metadata_item Q g (is_coll d)) d"
  proof (rule itemsE_compose [OF e])
    fix k v w assume kv: "(k, v) \<in> set d"
      and w: "metadata_item plain proj (is_coll d) k v = Inr (Some w)"
    show "metadata_item Q g (is_coll d) k w = metadata_item Q g (is_coll d) k v"
    proof (rule metadata_item_compose [OF w sub _ plain_keys])
      fix xs x y assume v: "v = JList xs" and x: "x \<in> set xs" and y: "proj x = Inr y"
      have "json_ok x" using less.prems(1) kv v x j by fastforce
      with y show "g y = g x"
        using size_item_list [of k xs d x] kv v x j by (intro less.IH) simp_all
    qed
  next
    fix k v assume "metadata_item plain proj (is_coll d) k v = Inr None"
    then show "metadata_item Q g (is_coll d) k v = Inr None"
      using sub by (auto simp: metadata_item_def keep_list_Inr split: if_splits json.splits)
  qed
  then show ?case
    by (simp add: r j coll metadata_projection.proj_dict [OF g])
qed

lemma idem: "json_ok j \<Longrightarrow> proj j = Inr r \<Longrightarrow> proj r = Inr r"
  using absorbed [OF metadata_projection_axioms subset_refl] by simp

lemma keys_only:
  assumes "proj j = Inr (JDict r)"
  shows "set (map fst r) \<subseteq> set metadata_fields \<union> plain \<union> {''submodelElements'', ''value''}"
proof -
  from proj_other [OF assms] obtain d where j: "j = JDict d" by blast
  from assms [unfolded j proj_dict]
  have e: "itemsE (metadata_item plain proj (is_coll d)) d = Inr r" by (auto simp: errs)
  show ?thesis
  proof
    fix k assume "k \<in> set (map fst r)"
    then obtain w v where "metadata_item plain proj (is_coll d) k v = Inr (Some w)"
      using itemsE_item [OF e] by fastforce
    then show "k \<in> set metadata_fields \<union> plain \<union> {''submodelElements'', ''value''}"
      by (auto simp: metadata_item_def split: if_splits json.splits)
  qed
qed

end

interpretation metadata: metadata_projection "{}" project_metadata
  by unfold_locales (use project_metadata_dict project_no_dict(1) in auto)

interpretation full_metadata: metadata_projection "{''id'', ''administration'', ''kind''}" extract_metadata
  by unfold_locales (use extract_metadata_dict project_no_dict(3) in auto)

lemma project_value_idem_eq:
  "json_ok j \<Longrightarrow> project_value j = Inr r \<Longrightarrow> project_value r = project_value j"
proof (induction j arbitrary: r rule: measure_induct_rule [where f = size])
  case (less j)
  from project_no_dict(2) [OF less.prems(2)] obtain d where j: "j = JDict d" by blast
  from less.prems(2) [unfolded j project_value_dict] obtain e where
    e: "itemsE (value_item project_value (is_coll d)) d = Inr e" and r: "r = JDict e"
    by (auto simp: errs)
  have coll: "is_coll e = is_coll d"
    by (rule is_coll_items [OF e]) (use less.prems(1) j in simp_all)
  have "itemsE (value_item project_value (is_coll d)) e =
        itemsE (value_item project_value (is_coll d)) d"
  proof (rule itemsE_compose [OF e])
    fix k v w assume kv: "(k, v) \<in> set d"
      and w: "value_item project_value (is_coll d) k v = Inr (Some w)"
    show "value_item project_value (is_coll d) k w = value_item project_value (is_coll d) k v"
    proof (rule value_item_compose [OF w])
      fix xs x y assume v: "v = JList xs" and x: "x \<in> set xs" and y: "project_value x = Inr y"
      have "json_ok x" using less.prems(1) kv v x j by fastforce
      with y show "project_value y = project_value x"
        using size_item_list [of k xs d x] kv v x j by (intro less.IH) simp_all
    qed
  qed
  then show ?case by (simp add: r j project_value_dict coll)
qed

section \<open>Blobs\<close>

text \<open>
  What \<open>extent=withoutBlobValue\<close> removes: \<open>blob_free\<close> says that no Blob keeps its value anywhere
  the recursion goes, that is below \<open>submodelElements\<close> and the \<open>value\<close> of collections and lists.
\<close>

function blob_free :: "json \<Rightarrow> bool" where
  "blob_free j =
     (case j of
        JDict d \<Rightarrow>
          (dget d ''modelType'' = JStr ''Blob'' \<longrightarrow> \<not> dhas d ''value'') \<and>
          (case map_of d ''submodelElements'' of
             Some (JList xs) \<Rightarrow> \<forall>x \<in> set xs. blob_free x | _ \<Rightarrow> True) \<and>
          (is_coll d \<longrightarrow>
             (case map_of d ''value'' of
                Some (JList xs) \<Rightarrow> \<forall>x \<in> set xs. blob_free x | _ \<Rightarrow> True))
      | _ \<Rightarrow> True)"
  by pat_completeness auto
termination
  by (relation "measure size") (auto dest!: map_of_SomeD dest: size_item_list)

declare blob_free.simps [simp del]

lemma map_of_put_entry:
  "map_of (put_entry k w d) k' = (if k' = k \<and> w \<noteq> None then w else map_of d k')"
  by (cases w) (simp_all add: put_entry_def)

lemma strip_dict:
  assumes "strip_blob_values (JDict d) = Inr r"
  obtains e se v where "r = JDict e"
    and "e = put_entry ''value'' v (put_entry ''submodelElements'' se (blob_popped d))"
    and "case map_of (blob_popped d) ''submodelElements'' of
           Some (JList xs) \<Rightarrow> \<exists>ys. mapE strip_blob_values xs = Inr ys \<and> se = Some (JList ys)
         | _ \<Rightarrow> se = None"
    and "case map_of (blob_popped d) ''value'' of
           Some (JList xs) \<Rightarrow>
             if is_coll d then \<exists>ys. mapE strip_blob_values xs = Inr ys \<and> v = Some (JList ys)
             else v = None
         | _ \<Rightarrow> v = None"
  using assms
  by (subst (asm) strip_blob_values.simps)
     (auto simp: errs keep_list_Inr split: option.splits json.splits if_splits)

lemma strip_other: "strip_blob_values j = Inr r \<Longrightarrow> \<exists>d. j = JDict d"
  by (cases j; simp add: strip_blob_values.simps)

lemma mapE_all: "mapE f xs = Inr ys \<Longrightarrow> (\<And>x y. x \<in> set xs \<Longrightarrow> f x = Inr y \<Longrightarrow> P y) \<Longrightarrow> \<forall>y \<in> set ys. P y"
  by (auto dest: mapE_set)

lemma strip_blob_free: "strip_blob_values j = Inr r \<Longrightarrow> blob_free r"
proof (induction j arbitrary: r rule: measure_induct_rule [where f = size])
  case (less j)
  from strip_other [OF less.prems] obtain d where j: "j = JDict d" by blast
  from strip_dict [OF less.prems [unfolded j]] obtain e se v where r: "r = JDict e"
    and e: "e = put_entry ''value'' v (put_entry ''submodelElements'' se (blob_popped d))"
    and se: "case map_of (blob_popped d) ''submodelElements'' of
           Some (JList xs) \<Rightarrow> \<exists>ys. mapE strip_blob_values xs = Inr ys \<and> se = Some (JList ys)
         | _ \<Rightarrow> se = None"
    and v: "case map_of (blob_popped d) ''value'' of
           Some (JList xs) \<Rightarrow>
             if is_coll d then \<exists>ys. mapE strip_blob_values xs = Inr ys \<and> v = Some (JList ys)
             else v = None
         | _ \<Rightarrow> v = None"
    by blast
  have IH: "\<forall>y \<in> set ys. blob_free y"
    if "map_of (blob_popped d) k = Some (JList xs)" and "mapE strip_blob_values xs = Inr ys" for k xs ys
    using mapE_all [OF that(2)] less.IH size_blob_popped [OF that(1)] j by blast
  have mt: "map_of (blob_popped d) ''modelType'' = map_of d ''modelType''"
    by (simp add: blob_popped_def)
  have lk: "map_of e k = (if k = ''value'' \<and> v \<noteq> None then v
       else if k = ''submodelElements'' \<and> se \<noteq> None then se else map_of (blob_popped d) k)" for k
    by (auto simp: e map_of_put_entry)
  have type: "dget e ''modelType'' = dget d ''modelType''" and coll: "is_coll e = is_coll d"
    using lk [of "''modelType''"] mt by (simp_all add: dget_def is_coll_def)
  have "dget d ''modelType'' = JStr ''Blob'' \<Longrightarrow> map_of (blob_popped d) ''value'' = None"
    by (simp add: blob_popped_def)
  with v have 1: "dget e ''modelType'' = JStr ''Blob'' \<Longrightarrow> \<not> dhas e ''value''"
    by (simp add: type dhas_def lk)
  have 2: "case map_of e ''submodelElements'' of Some (JList xs) \<Rightarrow> \<forall>x \<in> set xs. blob_free x | _ \<Rightarrow> True"
    using se IH by (auto simp: lk split: option.splits json.splits)
  have 3: "case map_of e ''value'' of Some (JList xs) \<Rightarrow> \<forall>x \<in> set xs. blob_free x | _ \<Rightarrow> True"
    if "is_coll e"
    using that v IH by (auto simp: lk coll split: option.splits json.splits)
  from 1 2 3 show ?case by (simp add: r blob_free.simps [of "JDict e"])
qed

section \<open>Properties\<close>

text \<open>
  The content projections are stable: projecting a document twice to its metadata, or twice to
  its values, gives what projecting once gives, and the \<open>$metadata\<close> extraction of a document has
  the same metadata projection as the document itself.
\<close>

lemma projections_stable:
  assumes "json_ok j"
  shows "(\<forall>r. project_metadata j = Inr r \<longrightarrow> project_metadata r = Inr r) \<and>
         (\<forall>r. project_value j = Inr r \<longrightarrow> project_value r = Inr r) \<and>
         (\<forall>r. extract_metadata j = Inr r \<longrightarrow>
            extract_metadata r = Inr r \<and> project_metadata r = project_metadata j)"
  using metadata.idem [OF assms] project_value_idem_eq [OF assms] full_metadata.idem [OF assms]
    full_metadata.absorbed [OF metadata.metadata_projection_axioms _ assms] by auto

definition sample_blob_doc :: json where
  "sample_blob_doc =
     JDict [(''id'', JStr ''s''), (''submodelElements'', JList
       [JDict [(''modelType'', JStr ''SubmodelElementCollection''), (''idShort'', JStr ''C''),
          (''value'', JList [JDict [(''modelType'', JStr ''Blob''), (''idShort'', JStr ''B''),
             (''value'', JStr ''AAAA''), (''contentType'', JStr ''x'')]])]])]"

lemma projections_stable_witness:
  "\<exists>r. project_metadata sample_blob_doc = Inr r \<and> r \<noteq> sample_blob_doc \<and> project_metadata r = Inr r"
proof -
  have ok: "json_ok sample_blob_doc" by code_simp
  have run: "project_metadata sample_blob_doc = Inr (JDict [(''submodelElements'', JList
       [JDict [(''modelType'', JStr ''SubmodelElementCollection''), (''idShort'', JStr ''C''),
          (''value'', JList [JDict [(''modelType'', JStr ''Blob''), (''idShort'', JStr ''B'')]])]])])"
    by code_simp
  show ?thesis using run projections_stable [OF ok] by (auto simp: sample_blob_doc_def)
qed

text \<open>
  A read with \<open>extent\<close> other than \<open>withBlobValue\<close> never returns the value of a Blob that lies
  under \<open>submodelElements\<close> or inside collections and lists, whatever the other modifiers are.
\<close>

lemma projection_without_blobs:
  assumes "apply_projection payload (Some m) = Inr r" and "extent m \<noteq> ''withBlobValue''"
  shows "blob_free r"
  using assms strip_blob_free
  by (auto simp: apply_projection_def include_blob_value_def errs)

lemma projection_without_blobs_witness:
  "\<exists>r. apply_projection sample_blob_doc
         (Some (projection_modifiers None (Some ''withoutBlobValue'') None)) = Inr r \<and>
       blob_free r \<and> \<not> blob_free sample_blob_doc"
proof -
  have run: "apply_projection sample_blob_doc
         (Some (projection_modifiers None (Some ''withoutBlobValue'') None)) =
      Inr (JDict [(''id'', JStr ''s''), (''submodelElements'', JList
       [JDict [(''modelType'', JStr ''SubmodelElementCollection''), (''idShort'', JStr ''C''),
          (''value'', JList [JDict [(''modelType'', JStr ''Blob''), (''idShort'', JStr ''B''),
             (''contentType'', JStr ''x'')]])]])])"
    by code_simp
  have "\<not> blob_free sample_blob_doc" by code_simp
  with run projection_without_blobs show ?thesis
    by (fastforce simp: projection_modifiers_def or_default_def)
qed

text \<open>
  The recursion does not enter the statements of an Entity: a Blob there keeps its value.
\<close>

lemma entity_blob_kept:
  "strip_blob_values (JDict [(''modelType'', JStr ''Entity''), (''statements'', JList
      [JDict [(''modelType'', JStr ''Blob''), (''value'', JStr ''AAAA'')]])]) =
   Inr (JDict [(''modelType'', JStr ''Entity''), (''statements'', JList
      [JDict [(''modelType'', JStr ''Blob''), (''value'', JStr ''AAAA'')]])])"
  by code_simp

end
