(* ===== verification/Navigation.thy ===== *)
theory Navigation
  imports Projection
begin

text \<open>
  Reading nested elements (\<open>src/titan/core/projection.py\<close>): navigation by idShortPath, the
  \<open>$reference\<close> and \<open>$path\<close> extractions, and the collectors that list every path and every
  reference of a submodel. The lemmas relate the three: what the collectors print is what the
  navigation finds.
\<close>

section \<open>Navigation by idShortPath\<close>

text \<open>
  The list of nested elements both navigation helpers look at: \<open>submodelElements\<close>, else \<open>value\<close>,
  else \<open>statements\<close>, else \<open>annotations\<close>, the first that is true.
\<close>

definition nested_elements :: "obj \<Rightarrow> json" where
  "nested_elements d =
     (let e1 = dget_or d ''submodelElements'' (JList []) in
      if truthy e1 then e1 else
      let e2 = dget_or d ''value'' (JList []) in
      if truthy e2 then e2 else
      let e3 = dget_or d ''statements'' (JList []) in
      if truthy e3 then e3 else dget_or d ''annotations'' (JList []))"

fun find_by_id_short :: "json list \<Rightarrow> string \<Rightarrow> obj option" where
  "find_by_id_short [] s = None"
| "find_by_id_short (JDict e # xs) s =
     (if dget e ''idShort'' = JStr s then Some e else find_by_id_short xs s)"
| "find_by_id_short (_ # xs) s = find_by_id_short xs s"

definition find_element_by_id_short :: "obj \<Rightarrow> string \<Rightarrow> obj option" where
  "find_element_by_id_short d s =
     (case nested_elements d of JList xs \<Rightarrow> find_by_id_short xs s | _ \<Rightarrow> None)"

definition get_element_at_index :: "obj \<Rightarrow> int \<Rightarrow> obj option" where
  "get_element_at_index d i =
     (case nested_elements d of
        JList xs \<Rightarrow>
          if 0 \<le> i \<and> i < int (length xs)
          then (case xs ! nat i of JDict e \<Rightarrow> Some e | _ \<Rightarrow> None)
          else None
      | _ \<Rightarrow> None)"

fun navigate_part :: "obj \<Rightarrow> part \<Rightarrow> obj option" where
  "navigate_part d (Name s) = find_element_by_id_short d s"
| "navigate_part d (Index i) = get_element_at_index d i"

fun navigate_parts :: "obj \<Rightarrow> part list \<Rightarrow> obj option" where
  "navigate_parts d [] = Some d"
| "navigate_parts d (p # ps) =
     (case navigate_part d p of None \<Rightarrow> None | Some e \<Rightarrow> navigate_parts e ps)"

definition navigate_id_short_path :: "obj \<Rightarrow> string \<Rightarrow> py_exn + obj option" where
  "navigate_id_short_path payload path =
     (if path = [] then Inr (Some payload)
      else bindE (parse_id_short_path path) (\<lambda>parts. Inr (navigate_parts payload parts)))"

lemma navigate_parts_append:
  "navigate_parts d (ps @ qs) =
     (case navigate_parts d ps of None \<Rightarrow> None | Some e \<Rightarrow> navigate_parts e qs)"
  by (induction ps arbitrary: d) (auto split: option.splits)

section \<open>References and paths of one element\<close>

definition ref_key :: "json \<Rightarrow> json \<Rightarrow> json" where
  "ref_key t v = JDict [(''type'', t), (''value'', v)]"

definition model_reference :: "json list \<Rightarrow> json" where
  "model_reference keys = JDict [(''type'', JStr ''ModelReference''), (''keys'', JList keys)]"

definition extract_reference :: "obj \<Rightarrow> json \<Rightarrow> string option \<Rightarrow> json" where
  "extract_reference element submodel_id path =
     (let key1 = ref_key (JStr ''Submodel'') submodel_id in
      case path of
        None \<Rightarrow> model_reference [key1]
      | Some p \<Rightarrow>
          if p = [] then model_reference [key1]
          else model_reference
                 [key1, ref_key (dget_or element ''modelType'' (JStr ''SubmodelElement'')) (JStr p)])"

definition extract_reference_for_aas :: "obj \<Rightarrow> json" where
  "extract_reference_for_aas aas =
     model_reference [ref_key (JStr ''AssetAdministrationShell'') (dget_or aas ''id'' (JStr []))]"

definition extract_reference_for_submodel :: "obj \<Rightarrow> json" where
  "extract_reference_for_submodel submodel =
     model_reference [ref_key (JStr ''Submodel'') (dget_or submodel ''id'' (JStr []))]"

definition extract_path :: "obj \<Rightarrow> string \<Rightarrow> json" where
  "extract_path element path = JDict [(''idShortPath'', JStr path)]"

section \<open>Collecting the paths and references of a document\<close>

text \<open>
  The loops of \<open>_collect_paths\<close> and \<open>_collect_references\<close>: over children that have an \<open>idShort\<close>
  (an element without one is passed over, with what is below it), and over the numbered items of
  a list. An item that is no dictionary has no \<open>get\<close> (AttributeError). Formatting an \<open>idShort\<close>
  that is true and no string would print its Python representation; validated documents have none
  and the model stops there with \<open>NotModelled\<close>.
\<close>

definition children :: "obj \<Rightarrow> string \<Rightarrow> py_exn + json list" where
  "children d k =
     (let v = dget_or d k (JList []) in if truthy v then py_iter v else Inr [])"

lemma size_children: "children d k = Inr xs \<Longrightarrow> JDict e \<in> set xs \<Longrightarrow> size (JDict e) < size (JDict d)"
  by (auto simp: children_def Let_def simp del: json.size split: if_splits dest: size_iter_get)

definition with_id_short :: "(obj \<Rightarrow> string \<Rightarrow> py_exn + 'a list) \<Rightarrow> json \<Rightarrow> py_exn + 'a list" where
  "with_id_short f child =
     (case child of
        JDict c \<Rightarrow>
          (let child_id = dget c ''idShort'' in
           if truthy child_id
           then (case child_id of JStr s \<Rightarrow> f c s | _ \<Rightarrow> Inl NotModelled)
           else Inr [])
      | _ \<Rightarrow> Inl AttributeError)"

lemma with_id_short_cong [fundef_cong]:
  "x = y \<Longrightarrow> (\<And>c s. y = JDict c \<Longrightarrow> f c s = g c s) \<Longrightarrow> with_id_short f x = with_id_short g y"
  by (auto simp: with_id_short_def Let_def split: json.splits)

definition list_item ::
  "(obj \<Rightarrow> string \<Rightarrow> py_exn + 'a list) \<Rightarrow> (obj \<Rightarrow> string \<Rightarrow> 'a) \<Rightarrow> string \<Rightarrow> nat \<times> json \<Rightarrow> py_exn + 'a list" where
  "list_item f g path ic =
     (case snd ic of
        JDict c \<Rightarrow>
          (let item_path = path_index path (fst ic)
           in bindE (f c item_path) (\<lambda>r. Inr (g c item_path # r)))
      | _ \<Rightarrow> Inl AttributeError)"

lemma list_item_cong [fundef_cong]:
  "p = p' \<Longrightarrow> x = y \<Longrightarrow> h = h' \<Longrightarrow> (\<And>c s. snd y = JDict c \<Longrightarrow> f c s = g c s) \<Longrightarrow>
   list_item f h p x = list_item g h' p' y"
  by (auto simp: list_item_def Let_def split: json.splits)

lemma enumerate_snd: "(i, x) \<in> set (enumerate n xs) \<Longrightarrow> x \<in> set xs"
  by (metis in_set_zip enumerate_eq_zip snd_conv nth_mem)

function (sequential) collect_paths :: "obj \<Rightarrow> string \<Rightarrow> py_exn + string list"
  and collect_list_child_paths :: "obj \<Rightarrow> string \<Rightarrow> py_exn + string list" where
  "collect_paths d path =
     bindE
       (let mt = dget d ''modelType'' in
        if mt = JStr ''SubmodelElementCollection'' then
          bindE (children d ''value'')
            (concatE (with_id_short (\<lambda>c s. collect_paths c (path_dot path s))))
        else if mt = JStr ''Entity'' then
          bindE (children d ''statements'')
            (concatE (with_id_short (\<lambda>c s. collect_paths c (path_dot path s))))
        else if mt = JStr ''AnnotatedRelationshipElement'' then
          bindE (children d ''annotations'')
            (concatE (with_id_short (\<lambda>c s. collect_paths c (path_dot path s))))
        else if mt = JStr ''SubmodelElementList'' then
          bindE (children d ''value'') (\<lambda>xs.
            concatE (list_item collect_list_child_paths (\<lambda>_ p. p) path) (enumerate 0 xs))
        else Inr [])
       (\<lambda>r. Inr (path # r))"
| "collect_list_child_paths d path =
     (let mt = dget d ''modelType'' in
        if mt = JStr ''SubmodelElementCollection'' then
          bindE (children d ''value'')
            (concatE (with_id_short (\<lambda>c s. collect_paths c (path_dot path s))))
        else if mt = JStr ''Entity'' then
          bindE (children d ''statements'')
            (concatE (with_id_short (\<lambda>c s. collect_paths c (path_dot path s))))
        else if mt = JStr ''AnnotatedRelationshipElement'' then
          bindE (children d ''annotations'')
            (concatE (with_id_short (\<lambda>c s. collect_paths c (path_dot path s))))
        else if mt = JStr ''SubmodelElementList'' then
          bindE (children d ''value'') (\<lambda>xs.
            concatE (list_item collect_list_child_paths (\<lambda>_ p. p) path) (enumerate 0 xs))
        else Inr [])"
  by pat_completeness auto
termination
  by (relation "measure (\<lambda>x. case x of Inl (d, _) \<Rightarrow> size (JDict d) | Inr (d, _) \<Rightarrow> size (JDict d))")
     (auto simp del: json.size dest: size_children dest!: enumerate_snd)


function (sequential) collect_references :: "obj \<Rightarrow> string \<Rightarrow> json \<Rightarrow> py_exn + json list"
  and collect_list_child_references :: "obj \<Rightarrow> string \<Rightarrow> json \<Rightarrow> py_exn + json list" where
  "collect_references d path sm_id =
     bindE
       (let mt = dget d ''modelType'' in
        if mt = JStr ''SubmodelElementCollection'' then
          bindE (children d ''value'')
            (concatE (with_id_short (\<lambda>c s. collect_references c (path_dot path s) sm_id)))
        else if mt = JStr ''Entity'' then
          bindE (children d ''statements'')
            (concatE (with_id_short (\<lambda>c s. collect_references c (path_dot path s) sm_id)))
        else if mt = JStr ''AnnotatedRelationshipElement'' then
          bindE (children d ''annotations'')
            (concatE (with_id_short (\<lambda>c s. collect_references c (path_dot path s) sm_id)))
        else if mt = JStr ''SubmodelElementList'' then
          bindE (children d ''value'') (\<lambda>xs.
            concatE (list_item (\<lambda>c p. collect_list_child_references c p sm_id)
                       (\<lambda>c p. extract_reference c sm_id (Some p)) path) (enumerate 0 xs))
        else Inr [])
       (\<lambda>r. Inr (extract_reference d sm_id (Some path) # r))"
| "collect_list_child_references d path sm_id =
     (let mt = dget d ''modelType'' in
        if mt = JStr ''SubmodelElementCollection'' then
          bindE (children d ''value'')
            (concatE (with_id_short (\<lambda>c s. collect_references c (path_dot path s) sm_id)))
        else if mt = JStr ''Entity'' then
          bindE (children d ''statements'')
            (concatE (with_id_short (\<lambda>c s. collect_references c (path_dot path s) sm_id)))
        else if mt = JStr ''AnnotatedRelationshipElement'' then
          bindE (children d ''annotations'')
            (concatE (with_id_short (\<lambda>c s. collect_references c (path_dot path s) sm_id)))
        else if mt = JStr ''SubmodelElementList'' then
          bindE (children d ''value'') (\<lambda>xs.
            concatE (list_item (\<lambda>c p. collect_list_child_references c p sm_id)
                       (\<lambda>c p. extract_reference c sm_id (Some p)) path) (enumerate 0 xs))
        else Inr [])"
  by pat_completeness auto
termination
  by (relation "measure (\<lambda>x. case x of Inl (d, _) \<Rightarrow> size (JDict d) | Inr (d, _) \<Rightarrow> size (JDict d))")
     (auto simp del: json.size dest: size_children dest!: enumerate_snd)

declare collect_paths.simps [simp del] collect_list_child_paths.simps [simp del]
  collect_references.simps [simp del] collect_list_child_references.simps [simp del]

text \<open>The entry points: the loop over \<open>submodel.get("submodelElements", [])\<close>.\<close>

definition collect_id_short_paths :: "obj \<Rightarrow> py_exn + string list" where
  "collect_id_short_paths submodel =
     bindE (py_iter (dget_or submodel ''submodelElements'' (JList [])))
       (concatE (with_id_short collect_paths))"

definition collect_element_references :: "obj \<Rightarrow> py_exn + json list" where
  "collect_element_references submodel =
     bindE (py_iter (dget_or submodel ''submodelElements'' (JList [])))
       (concatE (with_id_short (\<lambda>c s.
          collect_references c s (dget_or submodel ''id'' (JStr [])))))"

section \<open>The abstract view: the elements below an element, with their paths\<close>

text \<open>
  What \<open>$path\<close> is meant to list: \<open>kids d\<close> are the direct children of an element under the names
  or indices that address them, \<open>descendants d\<close> every element below it with its components, in
  document order.
\<close>

definition child_key :: "obj \<Rightarrow> string option" where
  "child_key d =
     (let mt = dget d ''modelType'' in
      if mt = JStr ''SubmodelElementCollection'' \<or> mt = JStr ''SubmodelElementList''
      then Some ''value''
      else if mt = JStr ''Entity'' then Some ''statements''
      else if mt = JStr ''AnnotatedRelationshipElement'' then Some ''annotations''
      else None)"

definition is_list :: "obj \<Rightarrow> bool" where
  "is_list d = (dget d ''modelType'' = JStr ''SubmodelElementList'')"

fun items_of :: "json \<Rightarrow> json list" where
  "items_of (JList xs) = xs"
| "items_of _ = []"

definition own_items :: "obj \<Rightarrow> json list" where
  "own_items d = (case child_key d of None \<Rightarrow> [] | Some k \<Rightarrow> items_of (dget d k))"

fun named_kid :: "json \<Rightarrow> (part \<times> obj) list" where
  "named_kid (JDict c) =
     (case dget c ''idShort'' of
        JStr s \<Rightarrow> if s = [] then [] else [(Name s, c)]
      | _ \<Rightarrow> [])"
| "named_kid _ = []"

fun numbered_kid :: "nat \<times> json \<Rightarrow> (part \<times> obj) list" where
  "numbered_kid (i, JDict c) = [(Index (int i), c)]"
| "numbered_kid _ = []"

definition named_kids :: "json list \<Rightarrow> (part \<times> obj) list" where
  "named_kids xs = concat (map named_kid xs)"

definition kids :: "obj \<Rightarrow> (part \<times> obj) list" where
  "kids d = (if is_list d then concat (map numbered_kid (enumerate 0 (own_items d)))
             else named_kids (own_items d))"

lemma named_kid_mem: "(p, c) \<in> set (named_kid j) \<Longrightarrow> j = JDict c"
  by (cases j) (auto split: json.splits if_splits)

lemma numbered_kid_mem: "(p, c) \<in> set (numbered_kid ix) \<Longrightarrow> snd ix = JDict c \<and> p = Index (int (fst ix))"
  by (cases ix rule: numbered_kid.cases) auto

lemma named_kids_mem: "(p, c) \<in> set (named_kids xs) \<Longrightarrow> JDict c \<in> set xs"
  by (auto simp: named_kids_def dest!: named_kid_mem)

lemma kids_mem: "(p, c) \<in> set (kids d) \<Longrightarrow> JDict c \<in> set (own_items d)"
  by (auto simp: kids_def split: if_splits dest!: named_kids_mem numbered_kid_mem)
     (metis enumerate_snd snd_conv)

lemma items_of_mem: "x \<in> set (items_of v) \<Longrightarrow> \<exists>xs. v = JList xs \<and> x \<in> set xs"
  by (cases v) auto

lemma size_own_items:
  assumes "x \<in> set (own_items d)"
  shows "size x < size (JDict d)"
proof -
  from assms obtain k xs where "map_of d k = Some (JList xs)" and "x \<in> set xs"
    by (auto simp: own_items_def dget_def split: option.splits dest!: items_of_mem)
  then show ?thesis by (intro size_item_list [OF map_of_SomeD])
qed

lemma size_kids: "(p, c) \<in> set (kids d) \<Longrightarrow> size (JDict c) < size (JDict d)"
  by (rule size_own_items [OF kids_mem])

definition below :: "(obj \<Rightarrow> (part list \<times> obj) list) \<Rightarrow> part \<times> obj \<Rightarrow> (part list \<times> obj) list" where
  "below f pc = ([fst pc], snd pc) # map (\<lambda>(q, e). (fst pc # q, e)) (f (snd pc))"

lemma below_cong [fundef_cong]: "x = y \<Longrightarrow> f (snd y) = g (snd y) \<Longrightarrow> below f x = below g y"
  by (simp add: below_def)

function descendants :: "obj \<Rightarrow> (part list \<times> obj) list" where
  "descendants d = concat (map (below descendants) (kids d))"
  by pat_completeness auto
termination
  by (relation "measure (\<lambda>d. size (JDict d))") (auto simp del: json.size dest: size_kids)

declare descendants.simps [simp del]

definition top_kids :: "obj \<Rightarrow> (part \<times> obj) list" where
  "top_kids sm = named_kids (items_of (dget sm ''submodelElements''))"

definition all_elements :: "obj \<Rightarrow> (part list \<times> obj) list" where
  "all_elements sm = concat (map (below descendants) (top_kids sm))"

text \<open>
  The shape the collectors need (validated documents have it): the nested elements of a container
  are absent, null or a list of elements, and an \<open>idShort\<close> that is true is a string.
\<close>

fun id_short_typed :: "json \<Rightarrow> bool" where
  "id_short_typed (JStr s) = True"
| "id_short_typed v = (\<not> truthy v)"

fun list_typed :: "json \<Rightarrow> bool" where
  "list_typed (JList xs) = True"
| "list_typed v = (\<not> truthy v)"

function elem_ok :: "json \<Rightarrow> bool" where
  "elem_ok j =
     (case j of
        JDict d \<Rightarrow> id_short_typed (dget d ''idShort'') \<and>
          (case child_key d of None \<Rightarrow> True | Some k \<Rightarrow> list_typed (dget d k)) \<and>
          (\<forall>x \<in> set (own_items d). elem_ok x)
      | _ \<Rightarrow> False)"
  by pat_completeness auto
termination
  by (relation "measure size") (auto simp del: json.size dest: size_own_items)

declare elem_ok.simps [simp del]

lemma elem_okD:
  assumes "elem_ok j"
  obtains d where "j = JDict d" and "id_short_typed (dget d ''idShort'')"
    and "\<And>k. child_key d = Some k \<Longrightarrow> list_typed (dget d k)"
    and "\<And>x. x \<in> set (own_items d) \<Longrightarrow> elem_ok x"
  using assms elem_ok.simps [of j] by (auto split: json.splits option.splits)

lemma elem_ok_own: "elem_ok (JDict d) \<Longrightarrow> x \<in> set (own_items d) \<Longrightarrow> elem_ok x"
  by (auto elim!: elem_okD)

lemma list_typed_iter:
  "list_typed v \<Longrightarrow> (if truthy v then py_iter v else Inr []) = Inr (items_of v)"
  by (cases v) auto

lemma children_own:
  assumes "elem_ok (JDict d)" and "child_key d = Some k"
  shows "children d k = Inr (own_items d)"
proof -
  have "list_typed (dget d k)" using assms by (auto elim!: elem_okD)
  then show ?thesis
    using assms(2) list_typed_iter [of "dget d k"]
    by (auto simp: children_def own_items_def dget_def dget_or_def Let_def split: option.splits)
qed

section \<open>What a collector returns\<close>

lemma with_id_short_loop:
  assumes "\<And>x. x \<in> set xs \<Longrightarrow> elem_ok x"
    and "\<And>c s. JDict c \<in> set xs \<Longrightarrow> f c s = Inr (h c s)"
  shows "concatE (with_id_short f) xs =
         Inr (concat (map (\<lambda>(p, c). case p of Name s \<Rightarrow> h c s | Index _ \<Rightarrow> []) (named_kids xs)))"
  using assms
proof (induction xs)
  case Nil
  then show ?case by (simp add: named_kids_def)
next
  case (Cons x xs)
  from Cons.prems(1) [of x] obtain c where x: "x = JDict c" and "id_short_typed (dget c ''idShort'')"
    by (auto elim: elem_okD)
  then have "with_id_short f x =
     Inr (concat (map (\<lambda>(p, c). case p of Name s \<Rightarrow> h c s | Index _ \<Rightarrow> []) (named_kid x)))"
    using Cons.prems(2) by (cases "dget c ''idShort''") (auto simp: with_id_short_def)
  with Cons show ?case by (simp add: named_kids_def)
qed

lemma list_item_loop:
  assumes "\<And>x. x \<in> set xs \<Longrightarrow> elem_ok x"
    and "\<And>c p. JDict c \<in> set xs \<Longrightarrow> f c p = Inr (h c p)"
  shows "concatE (list_item f g path) (enumerate n xs) =
         Inr (concat (map (\<lambda>(p, c). case p of Name _ \<Rightarrow> []
                | Index i \<Rightarrow> g c (path_index path (nat i)) # h c (path_index path (nat i)))
              (concat (map numbered_kid (enumerate n xs)))))"
  using assms
proof (induction xs arbitrary: n)
  case (Cons x xs)
  from Cons.prems(1) [of x] obtain c where x: "x = JDict c" by (auto elim: elem_okD)
  then have "list_item f g path (n, x) =
     Inr (g c (path_index path n) # h c (path_index path n))"
    using Cons.prems(2) by (simp add: list_item_def Let_def)
  with x Cons show ?case by simp
qed simp

text \<open>
  The interface of a collector: one item per element, and the recursion of the two functions of
  each pair. Whatever the item is, the result is the item of every descendant at its path, in
  document order.
\<close>

lemma numbered_kids_index:
  "(p, c) \<in> set (concat (map numbered_kid (enumerate n xs))) \<Longrightarrow> \<exists>i. p = Index (int i)"
  by (auto dest!: numbered_kid_mem)

lemma named_kids_name: "(p, c) \<in> set (named_kids xs) \<Longrightarrow> \<exists>s. p = Name s \<and> s \<noteq> []"
proof -
  have "(p, c) \<in> set (named_kid x) \<Longrightarrow> \<exists>s. p = Name s \<and> s \<noteq> []" for x
    by (cases x) (auto split: json.splits if_splits)
  then show "(p, c) \<in> set (named_kids xs) \<Longrightarrow> ?thesis" by (auto simp: named_kids_def)
qed

locale tree_collector =
  fixes item :: "obj \<Rightarrow> string \<Rightarrow> 'a"
    and collect :: "obj \<Rightarrow> string \<Rightarrow> py_exn + 'a list"
    and collect_child :: "obj \<Rightarrow> string \<Rightarrow> py_exn + 'a list"
  assumes collect_eq:
      "collect d path = bindE (collect_child d path) (\<lambda>r. Inr (item d path # r))"
    and child_named:
      "\<not> is_list d \<Longrightarrow> child_key d = Some k \<Longrightarrow> collect_child d path =
       bindE (children d k) (concatE (with_id_short (\<lambda>c s. collect c (path_dot path s))))"
    and child_list:
      "is_list d \<Longrightarrow> collect_child d path =
       bindE (children d ''value'') (\<lambda>xs.
         concatE (list_item collect_child item path) (enumerate 0 xs))"
    and child_none: "child_key d = None \<Longrightarrow> collect_child d path = Inr []"
begin

definition found :: "string \<Rightarrow> (part list \<times> obj) list \<Rightarrow> 'a list" where
  "found pre es = map (\<lambda>(q, e). item e (pre @ render_from q)) es"

lemma found_Nil [simp]: "found pre [] = []"
  by (simp add: found_def)

lemma found_append [simp]: "found pre (es @ fs) = found pre es @ found pre fs"
  by (simp add: found_def)

lemma found_below_name:
  "found pre (below f (Name s, c)) =
   item c (path_dot pre s) # found (path_dot pre s) (f c)"
  by (auto simp: found_def below_def path_dot_def)

lemma found_below_index:
  "found pre (below f (Index (int i), c)) =
   item c (path_index pre i) # found (path_index pre i) (f c)"
  by (auto simp: found_def below_def path_index_def)

lemma found_named:
  "\<forall>(p, c) \<in> set ks. \<exists>s. p = Name s \<Longrightarrow>
   found pre (concat (map (below f) ks)) =
   concat (map (\<lambda>(p, c). case p of
       Name s \<Rightarrow> item c (path_dot pre s) # found (path_dot pre s) (f c) | Index _ \<Rightarrow> []) ks)"
  by (induction ks) (auto simp: found_below_name)

lemma found_numbered:
  "\<forall>(p, c) \<in> set ks. \<exists>i. p = Index (int i) \<Longrightarrow>
   found pre (concat (map (below f) ks)) =
   concat (map (\<lambda>(p, c). case p of Name _ \<Rightarrow> []
     | Index i \<Rightarrow> item c (path_index pre (nat i)) # found (path_index pre (nat i)) (f c)) ks)"
  by (induction ks) (auto simp: found_below_index)

lemma collect_child_descendants:
  "elem_ok (JDict d) \<Longrightarrow> collect_child d path = Inr (found path (descendants d))"
proof (induction d arbitrary: path rule: measure_induct_rule [where f = "\<lambda>d. size (JDict d)"])
  case (less d)
  have sub: "collect_child c p = Inr (found p (descendants c))"
    if "JDict c \<in> set (own_items d)" for c p
    using less.IH [OF size_own_items [OF that]] elem_ok_own [OF less.prems that] by blast
  have ok: "\<And>x. x \<in> set (own_items d) \<Longrightarrow> elem_ok x"
    using elem_ok_own [OF less.prems] .
  show ?case
  proof (cases "child_key d")
    case None
    then show ?thesis
      by (auto simp: child_none descendants.simps [of d] kids_def own_items_def named_kids_def)
  next
    case (Some k)
    note own = children_own [OF less.prems Some]
    show ?thesis
    proof (cases "is_list d")
      case True
      then have k: "k = ''value''" using Some by (simp add: is_list_def child_key_def)
      have names: "\<forall>(p, c) \<in> set (concat (map numbered_kid (enumerate 0 (own_items d)))).
                     \<exists>i. p = Index (int i)"
        using numbered_kids_index by blast
      show ?thesis
        using list_item_loop [OF ok sub, where g = item and path = path and n = 0] True own k
        by (simp add: child_list descendants.simps [of d] kids_def found_numbered [OF names])
    next
      case False
      have names: "\<forall>(p, c) \<in> set (named_kids (own_items d)). \<exists>s. p = Name s"
        using named_kids_name by blast
      have "collect c (path_dot path s) =
            Inr (item c (path_dot path s) # found (path_dot path s) (descendants c))"
        if "JDict c \<in> set (own_items d)" for c s
        using sub [OF that] by (simp add: collect_eq)
      from with_id_short_loop [OF ok this] False own Some show ?thesis
        by (simp add: child_named descendants.simps [of d] kids_def found_named [OF names])
    qed
  qed
qed

lemma collect_descendants:
  "elem_ok (JDict d) \<Longrightarrow> collect d path = Inr (item d path # found path (descendants d))"
  by (simp add: collect_eq collect_child_descendants)

end

interpretation paths: tree_collector "\<lambda>_ p. p" collect_paths collect_list_child_paths
proof unfold_locales
  fix d path k
  show "collect_paths d path = bindE (collect_list_child_paths d path) (\<lambda>r. Inr (path # r))"
    by (subst collect_paths.simps, subst collect_list_child_paths.simps) (rule refl)
  show "\<not> is_list d \<Longrightarrow> child_key d = Some k \<Longrightarrow> collect_list_child_paths d path =
        bindE (children d k) (concatE (with_id_short (\<lambda>c s. collect_paths c (path_dot path s))))"
    by (subst collect_list_child_paths.simps) (auto simp: child_key_def is_list_def Let_def split: if_splits)
  show "is_list d \<Longrightarrow> collect_list_child_paths d path =
        bindE (children d ''value'') (\<lambda>xs.
          concatE (list_item collect_list_child_paths (\<lambda>_ p. p) path) (enumerate 0 xs))"
    by (subst collect_list_child_paths.simps) (simp add: is_list_def Let_def)
  show "child_key d = None \<Longrightarrow> collect_list_child_paths d path = Inr []"
    by (subst collect_list_child_paths.simps) (auto simp: child_key_def Let_def split: if_splits)
qed

interpretation refs: tree_collector "\<lambda>c p. extract_reference c sm_id (Some p)"
  "\<lambda>d p. collect_references d p sm_id" "\<lambda>d p. collect_list_child_references d p sm_id" for sm_id
proof unfold_locales
  fix d path k
  show "collect_references d path sm_id = bindE (collect_list_child_references d path sm_id)
          (\<lambda>r. Inr (extract_reference d sm_id (Some path) # r))"
    by (subst collect_references.simps, subst collect_list_child_references.simps) (rule refl)
  show "\<not> is_list d \<Longrightarrow> child_key d = Some k \<Longrightarrow> collect_list_child_references d path sm_id =
        bindE (children d k)
          (concatE (with_id_short (\<lambda>c s. collect_references c (path_dot path s) sm_id)))"
    by (subst collect_list_child_references.simps)
       (auto simp: child_key_def is_list_def Let_def split: if_splits)
  show "is_list d \<Longrightarrow> collect_list_child_references d path sm_id =
        bindE (children d ''value'') (\<lambda>xs.
          concatE (list_item (\<lambda>c p. collect_list_child_references c p sm_id)
            (\<lambda>c p. extract_reference c sm_id (Some p)) path) (enumerate 0 xs))"
    by (subst collect_list_child_references.simps) (simp add: is_list_def Let_def)
  show "child_key d = None \<Longrightarrow> collect_list_child_references d path sm_id = Inr []"
    by (subst collect_list_child_references.simps) (auto simp: child_key_def Let_def split: if_splits)
qed

section \<open>Whole submodels\<close>

definition submodel_ok :: "obj \<Rightarrow> bool" where
  "submodel_ok sm =
     (case dget_or sm ''submodelElements'' (JList []) of
        JList xs \<Rightarrow> \<forall>x \<in> set xs. elem_ok x
      | _ \<Rightarrow> False)"

lemma submodel_okE:
  assumes "submodel_ok sm"
  obtains xs where "dget_or sm ''submodelElements'' (JList []) = JList xs"
    and "\<forall>x \<in> set xs. elem_ok x" and "top_kids sm = named_kids xs"
proof -
  from assms obtain xs where xs: "dget_or sm ''submodelElements'' (JList []) = JList xs"
    and el: "\<forall>x \<in> set xs. elem_ok x"
    by (auto simp: submodel_ok_def split: json.splits)
  from xs have top: "top_kids sm = named_kids xs"
    by (auto simp: top_kids_def dget_def dget_or_def split: option.splits)
  show thesis by (rule that [OF xs el top])
qed

lemma render_cons_name: "render (Name s # q) = s @ render_from q"
  by simp

lemma top_concat:
  assumes "\<forall>(p, c) \<in> set ks. \<exists>s. p = Name s"
  shows "map (\<lambda>(q, e). h e (render q)) (concat (map (below f) ks)) =
         concat (map (\<lambda>(p, c). case p of
            Name s \<Rightarrow> h c s # map (\<lambda>(q, e). h e (s @ render_from q)) (f c) | Index _ \<Rightarrow> []) ks)"
  using assms by (induction ks) (auto simp: below_def)

lemma collect_top:
  assumes ok: "submodel_ok sm"
    and step: "\<And>c s. elem_ok (JDict c) \<Longrightarrow>
      f c s = Inr (h c s # map (\<lambda>(q, e). h e (s @ render_from q)) (descendants c))"
  shows "bindE (py_iter (dget_or sm ''submodelElements'' (JList []))) (concatE (with_id_short f)) =
         Inr (map (\<lambda>(q, e). h e (render q)) (all_elements sm))"
proof -
  from ok obtain xs where xs: "dget_or sm ''submodelElements'' (JList []) = JList xs"
    and el: "\<forall>x \<in> set xs. elem_ok x" and top: "top_kids sm = named_kids xs"
    by (rule submodel_okE)
  have names: "\<forall>(p, c) \<in> set (named_kids xs). \<exists>s. p = Name s"
    using named_kids_name by blast
  show ?thesis
    using with_id_short_loop [of xs f "\<lambda>c s. h c s # map (\<lambda>(q, e). h e (s @ render_from q)) (descendants c)"]
      el step
    by (simp add: xs all_elements_def top top_concat [OF names])
qed

lemma paths_top:
  "submodel_ok sm \<Longrightarrow> collect_id_short_paths sm = Inr (map (\<lambda>(q, _). render q) (all_elements sm))"
  using collect_top [of sm collect_paths "\<lambda>_ p. p"] paths.collect_descendants
  by (simp add: collect_id_short_paths_def paths.found_def)

lemma references_top:
  "submodel_ok sm \<Longrightarrow> collect_element_references sm =
     Inr (map (\<lambda>(q, e). extract_reference e (dget_or sm ''id'' (JStr [])) (Some (render q)))
            (all_elements sm))"
  using collect_top [of sm "\<lambda>c s. collect_references c s (dget_or sm ''id'' (JStr []))"
      "\<lambda>c p. extract_reference c (dget_or sm ''id'' (JStr [])) (Some p)"] refs.collect_descendants
  by (simp add: collect_element_references_def refs.found_def)

section \<open>Navigation finds what the collectors list\<close>

text \<open>
  Addressable elements: the list the navigation looks at is the element's own one, and no two
  children share a name (which AAS metamodel constraint AASd-022 asks for). Names must be free of
  the separators, or a printed path would not parse back.
\<close>

function nav_ok :: "obj \<Rightarrow> bool" where
  "nav_ok d =
     ((own_items d = [] \<or> nested_elements d = JList (own_items d)) \<and>
      distinct (map fst (kids d)) \<and>
      (\<forall>pc \<in> set (kids d). part_ok (fst pc) \<and> nav_ok (snd pc)))"
  by pat_completeness auto
termination
  by (relation "measure (\<lambda>d. size (JDict d))") (auto simp del: json.size dest: size_kids)

declare nav_ok.simps [simp del]

definition submodel_nav_ok :: "obj \<Rightarrow> bool" where
  "submodel_nav_ok sm =
     (distinct (map fst (top_kids sm)) \<and>
      (\<forall>pc \<in> set (top_kids sm). part_ok (fst pc) \<and> nav_ok (snd pc)))"

lemma find_named: "s \<noteq> [] \<Longrightarrow> find_by_id_short xs s = map_of (named_kids xs) (Name s)"
proof (induction xs s rule: find_by_id_short.induct)
  case (2 e xs s)
  then show ?case
    by (cases "dget e ''idShort''") (auto simp: named_kids_def)
qed (auto simp: named_kids_def)

lemma numbered_kids_nth:
  "(Index (int i), c) \<in> set (concat (map numbered_kid (enumerate n xs))) \<Longrightarrow>
   n \<le> i \<and> i < n + length xs \<and> xs ! (i - n) = JDict c"
proof (induction xs arbitrary: n)
  case (Cons x xs)
  then consider "(Index (int i), c) \<in> set (numbered_kid (n, x))"
    | "(Index (int i), c) \<in> set (concat (map numbered_kid (enumerate (Suc n) xs)))"
    by auto
  then show ?case
  proof cases
    case 1
    then show ?thesis by (auto dest!: numbered_kid_mem)
  next
    case 2
    from Cons.IH [OF this] show ?thesis by (auto simp: nth_Cons')
  qed
qed simp

lemma navigate_named:
  assumes "nested_elements d = JList xs" and "distinct (map fst (named_kids xs))"
    and "(p, c) \<in> set (named_kids xs)"
  shows "navigate_part d p = Some c"
proof -
  from named_kids_name [OF assms(3)] obtain s where "p = Name s" and "s \<noteq> []" by blast
  with assms show ?thesis
    by (simp add: find_element_by_id_short_def find_named)
qed

lemma navigate_kid:
  assumes "nav_ok d" and "(p, c) \<in> set (kids d)"
  shows "navigate_part d p = Some c"
proof -
  from assms(2) have "own_items d \<noteq> []" by (auto simp: kids_def named_kids_def split: if_splits)
  with assms(1) have nest: "nested_elements d = JList (own_items d)"
    and dist: "distinct (map fst (kids d))" by (simp_all add: nav_ok.simps [of d])
  show ?thesis
  proof (cases "is_list d")
    case True
    with assms(2) obtain i where p: "p = Index (int i)"
      using numbered_kids_index [of p c 0 "own_items d"] by (auto simp: kids_def)
    with True assms(2) numbered_kids_nth [of i c 0 "own_items d"] show ?thesis
      by (simp add: kids_def get_element_at_index_def nest)
  next
    case False
    with nest dist assms(2) show ?thesis by (intro navigate_named) (simp_all add: kids_def)
  qed
qed

lemma below_mem:
  "(q, e) \<in> set (below f (p, c)) \<longleftrightarrow> (q = [p] \<and> e = c) \<or> (\<exists>q'. q = p # q' \<and> (q', e) \<in> set (f c))"
  by (auto simp: below_def)

lemma navigate_descendant:
  "nav_ok d \<Longrightarrow> (q, e) \<in> set (descendants d) \<Longrightarrow>
   navigate_parts d q = Some e \<and> q \<noteq> [] \<and> (\<forall>p \<in> set q. part_ok p)"
proof (induction d arbitrary: q rule: measure_induct_rule [where f = "\<lambda>d. size (JDict d)"])
  case (less d)
  from less.prems(2) obtain p c where pc: "(p, c) \<in> set (kids d)"
    and q: "(q, e) \<in> set (below descendants (p, c))"
    by (auto simp: descendants.simps [of d])
  note step = navigate_kid [OF less.prems(1) pc]
  from less.prems(1) pc have sub: "part_ok p" "nav_ok c" by (auto simp: nav_ok.simps [of d])
  from q show ?case
    using step sub less.IH [OF size_kids [OF pc] sub(2)] by (auto simp: below_mem)
qed

lemma nested_top:
  "dget_or sm ''submodelElements'' (JList []) = JList xs \<Longrightarrow> xs \<noteq> [] \<Longrightarrow> nested_elements sm = JList xs"
  by (simp add: nested_elements_def)

lemma navigate_all_elements:
  assumes "submodel_ok sm" and "submodel_nav_ok sm" and "(q, e) \<in> set (all_elements sm)"
  shows "navigate_parts sm q = Some e" and "\<forall>p \<in> set q. part_ok p"
    and "\<exists>s q'. q = Name s # q' \<and> s \<noteq> []"
proof -
  from assms(1) obtain xs where xs: "dget_or sm ''submodelElements'' (JList []) = JList xs"
    and top: "top_kids sm = named_kids xs" by (rule submodel_okE)
  from assms(3) obtain p c where pc: "(p, c) \<in> set (named_kids xs)"
    and q: "(q, e) \<in> set (below descendants (p, c))"
    by (auto simp: all_elements_def top)
  from pc have "xs \<noteq> []" by (auto simp: named_kids_def)
  with assms(2) pc top have step: "navigate_part sm p = Some c"
    by (intro navigate_named [of _ xs] nested_top [OF xs]) (simp_all add: submodel_nav_ok_def)
  from assms(2) pc top have sub: "part_ok p" "nav_ok c" by (auto simp: submodel_nav_ok_def)
  from q step sub navigate_descendant [OF sub(2)]
  show "navigate_parts sm q = Some e" and "\<forall>p \<in> set q. part_ok p"
    by (auto simp: below_mem)
  from q named_kids_name [OF pc] show "\<exists>s q'. q = Name s # q' \<and> s \<noteq> []"
    by (auto simp: below_mem)
qed

lemma navigate_rendered:
  assumes "submodel_ok sm" and "submodel_nav_ok sm" and "(q, e) \<in> set (all_elements sm)"
  shows "navigate_id_short_path sm (render q) = Inr (Some e)"
  using navigate_all_elements [OF assms]
  by (auto simp: navigate_id_short_path_def parse_render simp del: render.simps) auto

lemma distinct_below:
  "distinct (map fst ks) \<Longrightarrow>
   (\<And>p c. (p, c) \<in> set ks \<Longrightarrow> distinct (map fst (f c)) \<and> (\<forall>e. ([], e) \<notin> set (f c))) \<Longrightarrow>
   distinct (map fst (concat (map (below f) ks)))"
proof (induction ks)
  case (Cons k ks)
  obtain p c where k: "k = (p, c)" by (cases k)
  have "distinct (map fst (below f (p, c)))"
    using Cons.prems(2) [of p c] k
    by (force simp: below_def distinct_map inj_on_def comp_def split_beta)
  moreover have "set (map fst (below f (p, c))) \<inter> set (map fst (concat (map (below f) ks))) = {}"
    using Cons.prems(1) k by (force simp: below_mem)
  moreover have "distinct (map fst (concat (map (below f) ks)))"
    using Cons.prems by (intro Cons.IH) auto
  ultimately show ?case using k by simp
qed simp

lemma distinct_descendants:
  "nav_ok d \<Longrightarrow> distinct (map fst (descendants d))"
proof (induction d rule: measure_induct_rule [where f = "\<lambda>d. size (JDict d)"])
  case (less d)
  have "distinct (map fst (concat (map (below descendants) (kids d))))"
  proof (rule distinct_below)
    show "distinct (map fst (kids d))" using less.prems by (simp add: nav_ok.simps [of d])
    fix p c assume pc: "(p, c) \<in> set (kids d)"
    then have "nav_ok c" using less.prems by (auto simp: nav_ok.simps [of d])
    with less.IH [OF size_kids [OF pc]] navigate_descendant [of c "[]"]
    show "distinct (map fst (descendants c)) \<and> (\<forall>e. ([], e) \<notin> set (descendants c))" by blast
  qed
  then show ?case by (simp add: descendants.simps [of d])
qed

lemma distinct_all_elements:
  assumes "submodel_nav_ok sm"
  shows "distinct (map fst (all_elements sm))"
  unfolding all_elements_def
proof (rule distinct_below)
  show "distinct (map fst (top_kids sm))" using assms by (simp add: submodel_nav_ok_def)
  fix p c assume "(p, c) \<in> set (top_kids sm)"
  with assms have "nav_ok c" by (auto simp: submodel_nav_ok_def)
  with distinct_descendants navigate_descendant [of c "[]"]
  show "distinct (map fst (descendants c)) \<and> (\<forall>e. ([], e) \<notin> set (descendants c))" by blast
qed

lemma distinct_rendered:
  assumes "submodel_ok sm" and "submodel_nav_ok sm"
  shows "distinct (map (\<lambda>(q, _). render q) (all_elements sm))"
proof -
  have "inj_on render (set (map fst (all_elements sm)))"
  proof (rule inj_onI)
    fix q q' assume "q \<in> set (map fst (all_elements sm))" "q' \<in> set (map fst (all_elements sm))"
      and eq: "render q = render q'"
    then have "\<forall>p \<in> set q. part_ok p" "\<forall>p \<in> set q'. part_ok p"
      using navigate_all_elements(2) [OF assms] by auto
    then have "parse_id_short_path (render q) = Inr q" "parse_id_short_path (render q') = Inr q'"
      by (simp_all only: parse_render)
    with eq show "q = q'" by (metis sum.inject(2))
  qed
  with distinct_all_elements [OF assms(2)] have "distinct (map render (map fst (all_elements sm)))"
    by (simp only: distinct_map)
  then show ?thesis by (simp add: comp_def split_def)
qed

section \<open>Properties\<close>

definition sample_submodel :: obj where
  "sample_submodel =
     [(''id'', JStr ''urn:sm''), (''submodelElements'', JList
        [JDict [(''modelType'', JStr ''SubmodelElementCollection''), (''idShort'', JStr ''Plate''),
           (''value'', JList [JDict [(''modelType'', JStr ''Property''), (''idShort'', JStr ''No''),
                                     (''value'', JStr ''7'')]])],
         JDict [(''modelType'', JStr ''SubmodelElementList''), (''idShort'', JStr ''Runs''),
           (''value'', JList [JDict [(''modelType'', JStr ''Entity''),
              (''statements'', JList [JDict [(''modelType'', JStr ''Property''),
                                             (''idShort'', JStr ''T'')]])]])]])]"



text \<open>
  \<open>collect_element_references\<close> and \<open>collect_id_short_paths\<close> describe the same elements: the
  references are, in the same order, the model references whose second key is the element's type
  with the listed path, under the submodel's id.
\<close>

lemma references_match_paths:
  assumes "submodel_ok sm"
  shows "\<exists>ps rs. collect_id_short_paths sm = Inr ps \<and> collect_element_references sm = Inr rs \<and>
         rs = map2 (\<lambda>p (q, e). model_reference
                [ref_key (JStr ''Submodel'') (dget_or sm ''id'' (JStr [])),
                 ref_key (dget_or e ''modelType'' (JStr ''SubmodelElement'')) (JStr p)])
              ps (all_elements sm)"
proof -
  have ne: "render q \<noteq> []" if "(q, e) \<in> set (all_elements sm)" for q e
    using that named_kids_name [of _ _ "items_of (dget sm ''submodelElements'')"]
    by (fastforce simp: all_elements_def top_kids_def below_def)
  have "map (\<lambda>(q, e). extract_reference e i (Some (render q))) es =
        map2 (\<lambda>p (q, e). model_reference [ref_key (JStr ''Submodel'') i,
                 ref_key (dget_or e ''modelType'' (JStr ''SubmodelElement'')) (JStr p)])
          (map (\<lambda>(q, _). render q) es) es"
    if "\<forall>(q, e) \<in> set es. render q \<noteq> []" for i es
    using that by (induction es) (auto simp: extract_reference_def Let_def)
  from this [of "all_elements sm" "dget_or sm ''id'' (JStr [])"] ne show ?thesis
    using paths_top [OF assms] references_top [OF assms] by (intro exI conjI) auto
qed

lemma references_match_paths_witness:
  "\<exists>rs. collect_element_references sample_submodel = Inr rs \<and> length rs = 5 \<and>
     rs ! 1 = model_reference [ref_key (JStr ''Submodel'') (JStr ''urn:sm''),
                               ref_key (JStr ''Property'') (JStr ''Plate.No'')]"
proof -
  have "submodel_ok sample_submodel" by code_simp
  from references_match_paths [OF this] obtain ps rs where
    ps: "collect_id_short_paths sample_submodel = Inr ps"
    and rs: "collect_element_references sample_submodel = Inr rs"
    and eq: "rs = map2 (\<lambda>p (q, e). model_reference
                [ref_key (JStr ''Submodel'') (dget_or sample_submodel ''id'' (JStr [])),
                 ref_key (dget_or e ''modelType'' (JStr ''SubmodelElement'')) (JStr p)])
              ps (all_elements sample_submodel)"
    by blast
  have c: "collect_id_short_paths sample_submodel =
      Inr [''Plate'', ''Plate.No'', ''Runs'', ''Runs[0]'', ''Runs[0].T'']"
    by code_simp
  have all: "length (all_elements sample_submodel) = 5"
    and nth: "snd (all_elements sample_submodel ! 1) =
      [(''modelType'', JStr ''Property''), (''idShort'', JStr ''No''), (''value'', JStr ''7'')]"
    and sid: "dget_or sample_submodel ''id'' (JStr []) = JStr ''urn:sm''"
    by code_simp+
  show ?thesis using ps c rs eq all nth sid by (auto simp: dget_or_def split_beta)
qed

end
