(* ===== verification/ElementOps.thy ===== *)
theory ElementOps
  imports Navigation
begin

text \<open>
  Writing nested elements (\<open>src/titan/core/element_operations.py\<close>): insertion, replacement, patch,
  value update and deletion of a submodel element inside a submodel document, addressed by
  idShortPath. The code copies the document, walks to the container and changes it in place; the
  model rebuilds the document along the path (\<open>modify_container\<close>).
\<close>

datatype elem_error =
    ElementNotFound string
  | ElementExists string
  | InvalidPath string string
  | Py py_exn

section \<open>Walking to a container\<close>

text \<open>
  The entry whose list the walk follows: \<open>submodelElements\<close> when it is true, else \<open>value\<close>. Unlike
  the read side (\<open>nested_elements\<close>) it knows neither \<open>statements\<close> nor \<open>annotations\<close>.
\<close>

definition walk_key :: "obj \<Rightarrow> string" where
  "walk_key d = (if truthy (dget d ''submodelElements'') then ''submodelElements'' else ''value'')"

definition walk_items :: "obj \<Rightarrow> json" where
  "walk_items d = dget_or d (walk_key d) (JList [])"

text \<open>
  The inner loop: the position of the first dictionary with this \<open>idShort\<close>, or the given position
  if a dictionary is there.
\<close>

fun index_of_name :: "json list \<Rightarrow> string \<Rightarrow> nat option" where
  "index_of_name [] s = None"
| "index_of_name (JDict e # xs) s =
     (if dget e ''idShort'' = JStr s then Some 0 else map_option Suc (index_of_name xs s))"
| "index_of_name (_ # xs) s = map_option Suc (index_of_name xs s)"

fun step_index :: "json list \<Rightarrow> part \<Rightarrow> nat option" where
  "step_index xs (Name s) = index_of_name xs s"
| "step_index xs (Index i) = (if 0 \<le> i \<and> i < int (length xs) then Some (nat i) else None)"

definition step_child :: "obj \<Rightarrow> part \<Rightarrow> (nat \<times> obj) option" where
  "step_child d p =
     (case walk_items d of
        JList xs \<Rightarrow>
          (case step_index xs p of
             None \<Rightarrow> None
           | Some i \<Rightarrow> (case xs ! i of JDict e \<Rightarrow> Some (i, e) | _ \<Rightarrow> None))
      | _ \<Rightarrow> None)"

fun navigate_to_container :: "obj \<Rightarrow> part list \<Rightarrow> obj option" where
  "navigate_to_container d [] = Some d"
| "navigate_to_container d (p # ps) =
     (case step_child d p of None \<Rightarrow> None | Some (_, e) \<Rightarrow> navigate_to_container e ps)"

text \<open>The same walk, with the change \<open>f\<close> made to the container that was reached.\<close>

definition put_child :: "obj \<Rightarrow> nat \<Rightarrow> obj \<Rightarrow> obj" where
  "put_child d i e = dset (walk_key d) (JList ((items_of (walk_items d))[i := JDict e])) d"

fun modify_container :: "obj \<Rightarrow> part list \<Rightarrow> (obj \<Rightarrow> 'e + obj) \<Rightarrow> ('e + obj) option" where
  "modify_container d [] f = Some (f d)"
| "modify_container d (p # ps) f =
     (case step_child d p of
        None \<Rightarrow> None
      | Some (i, e) \<Rightarrow>
          map_option (\<lambda>r. bindE r (\<lambda>e'. Inr (put_child d i e'))) (modify_container e ps f))"

section \<open>The list operations\<close>

text \<open>
  \<open>elements.append(x)\<close>, \<open>elements[i] = x\<close>, \<open>del elements[i]\<close> and \<open>elements[i][key] = value\<close>, where
  \<open>elements\<close> is whatever the document holds there. Assigning to position \<open>i\<close> of a dictionary would
  add an integer key, which no JSON document has (\<open>NotModelled\<close>).
\<close>

fun append_item :: "json \<Rightarrow> json \<Rightarrow> py_exn + json" where
  "append_item (JList xs) v = Inr (JList (xs @ [v]))"
| "append_item _ v = Inl AttributeError"

fun set_item :: "json \<Rightarrow> json \<Rightarrow> nat \<Rightarrow> py_exn + json" where
  "set_item v (JList xs) i = Inr (JList (xs[i := v]))"
| "set_item v (JDict _) i = Inl NotModelled"
| "set_item v _ i = Inl TypeError"

fun del_item :: "json \<Rightarrow> nat \<Rightarrow> py_exn + json" where
  "del_item (JList xs) i = Inr (JList (take i xs @ drop (Suc i) xs))"
| "del_item (JDict _) i = Inl KeyError"
| "del_item _ i = Inl TypeError"

fun set_all :: "obj \<Rightarrow> obj \<Rightarrow> obj" where
  "set_all [] e = e"
| "set_all ((k, v) # ups) e = set_all ups (dset k v e)"

fun patch_item :: "obj \<Rightarrow> json \<Rightarrow> nat \<Rightarrow> py_exn + json" where
  "patch_item ups (JList xs) i =
     (case xs ! i of
        JDict e \<Rightarrow> Inr (JList (xs[i := JDict (set_all ups e)]))
      | _ \<Rightarrow> if ups = [] then Inr (JList xs) else Inl TypeError)"
| "patch_item ups els i = (if ups = [] then Inr els else Inl TypeError)"

text \<open>
  The loops that look for the target. By name, each element before the match is asked for its
  \<open>idShort\<close>, and one that is no dictionary raises.
\<close>

fun find_named :: "string \<Rightarrow> json list \<Rightarrow> py_exn + nat option" where
  "find_named s [] = Inr None"
| "find_named s (JDict e # xs) =
     (if dget e ''idShort'' = JStr s then Inr (Some 0)
      else bindE (find_named s xs) (\<lambda>r. Inr (map_option Suc r)))"
| "find_named s (_ # xs) = Inl AttributeError"

fun find_target :: "part \<Rightarrow> json list \<Rightarrow> py_exn + nat option" where
  "find_target (Name s) xs = find_named s xs"
| "find_target (Index i) xs =
     Inr (if 0 \<le> i \<and> i < int (length xs) then Some (nat i) else None)"

section \<open>The operations\<close>

definition insert_checked :: "string \<Rightarrow> string \<Rightarrow> string \<Rightarrow> obj \<Rightarrow> obj \<Rightarrow> elem_error + obj" where
  \<comment> \<open>\<open>elements = c.setdefault(key, [])\<close>, the uniqueness loop, then \<open>append\<close>\<close>
  "insert_checked key s shown element c =
     (let els = dget_or c key (JList []) in
      bindE (liftE Py (py_iter els)) (\<lambda>items.
      bindE (liftE Py (find_named s items)) (\<lambda>r.
        case r of
          Some _ \<Rightarrow> Inl (ElementExists shown)
        | None \<Rightarrow> bindE (liftE Py (append_item els (JDict element))) (\<lambda>els'. Inr (dset key els' c)))))"

definition insert_unchecked :: "string \<Rightarrow> obj \<Rightarrow> obj \<Rightarrow> elem_error + obj" where
  "insert_unchecked key element c =
     bindE (liftE Py (append_item (dget_or c key (JList [])) (JDict element)))
       (\<lambda>els'. Inr (dset key els' c))"

text \<open>
  The new element's \<open>idShort\<close> where one is required: missing, null or empty is a ValueError; a
  true value that is no string is outside the model (validated elements have none).
\<close>

definition required_id_short :: "obj \<Rightarrow> elem_error + string" where
  "required_id_short element =
     (case dget element ''idShort'' of
        JStr s \<Rightarrow> if s = [] then Inl (Py ValueError) else Inr s
      | v \<Rightarrow> if truthy v then Inl (Py NotModelled) else Inl (Py ValueError))"

definition insert_into :: "string \<Rightarrow> obj \<Rightarrow> obj \<Rightarrow> elem_error + obj" where
  "insert_into path element c =
     (if dget c ''modelType'' = JStr ''SubmodelElementCollection'' then
        bindE (required_id_short element) (\<lambda>s.
          insert_checked ''value'' s (path_dot path s) element c)
      else if dget c ''modelType'' = JStr ''SubmodelElementList'' then
        insert_unchecked ''value'' element c
      else Inl (InvalidPath path ''target is not a container''))"

definition insert_element :: "obj \<Rightarrow> string option \<Rightarrow> obj \<Rightarrow> elem_error + obj" where
  "insert_element doc path element =
     (case path of
        None \<Rightarrow> bindE (required_id_short element) (\<lambda>s.
                  insert_checked ''submodelElements'' s s element doc)
      | Some p \<Rightarrow>
          if p = [] then bindE (required_id_short element) (\<lambda>s.
                  insert_checked ''submodelElements'' s s element doc)
          else
            bindE (liftE Py (parse_id_short_path p)) (\<lambda>parts.
              case modify_container doc parts (insert_into p element) of
                None \<Rightarrow> Inl (InvalidPath p ''parent container not found'')
              | Some r \<Rightarrow> r))"

text \<open>
  The frame that replacement, patch and deletion share: parse, walk to the parent, pick the list
  of its elements, find the target there and change it.
\<close>

definition edit_in ::
  "string \<Rightarrow> string \<Rightarrow> part \<Rightarrow> (json \<Rightarrow> nat \<Rightarrow> py_exn + json) \<Rightarrow> obj \<Rightarrow> elem_error + obj" where
  "edit_in path key target op c =
     (let els = dget_or c key (JList []) in
      bindE (liftE Py (py_iter els)) (\<lambda>items.
      bindE (liftE Py (find_target target items)) (\<lambda>r.
        case r of
          None \<Rightarrow> Inl (ElementNotFound path)
        | Some i \<Rightarrow> bindE (liftE Py (op els i)) (\<lambda>els'. Inr (dset key els' c)))))"

definition edit_target ::
  "obj \<Rightarrow> string \<Rightarrow> (json \<Rightarrow> nat \<Rightarrow> py_exn + json) \<Rightarrow> elem_error + obj" where
  "edit_target doc path op =
     bindE (liftE Py (parse_id_short_path path)) (\<lambda>parts.
       if parts = [] then Inl (InvalidPath path ''empty path'')
       else if length parts = 1 then
         edit_in path ''submodelElements'' (last parts) op doc
       else
         case modify_container doc (butlast parts)
                (\<lambda>c. edit_in path (if is_coll c then ''value'' else ''submodelElements'')
                       (last parts) op c) of
           None \<Rightarrow> Inl (ElementNotFound path)
         | Some r \<Rightarrow> r)"

definition replace_element :: "obj \<Rightarrow> string \<Rightarrow> obj \<Rightarrow> elem_error + obj" where
  "replace_element doc path element = edit_target doc path (set_item (JDict element))"

definition patch_element :: "obj \<Rightarrow> string \<Rightarrow> obj \<Rightarrow> elem_error + obj" where
  "patch_element doc path updates = edit_target doc path (patch_item updates)"

definition update_element_value :: "obj \<Rightarrow> string \<Rightarrow> json \<Rightarrow> elem_error + obj" where
  "update_element_value doc path v = patch_element doc path [(''value'', v)]"

definition delete_element :: "obj \<Rightarrow> string \<Rightarrow> elem_error + obj" where
  "delete_element doc path = edit_target doc path del_item"

section \<open>The walk and the change\<close>

lemma index_of_name_Some:
  "index_of_name xs s = Some i \<Longrightarrow>
   i < length xs \<and> (\<exists>e. xs ! i = JDict e \<and> dget e ''idShort'' = JStr s)"
  by (induction xs s arbitrary: i rule: index_of_name.induct) (auto split: if_splits)

lemma index_of_name_find:
  "find_by_id_short xs s = (case index_of_name xs s of None \<Rightarrow> None
     | Some i \<Rightarrow> (case xs ! i of JDict e \<Rightarrow> Some e | _ \<Rightarrow> None))"
  by (induction xs s rule: index_of_name.induct) (auto split: option.splits)

lemma find_named_index: "find_named s xs = Inr r \<Longrightarrow> index_of_name xs s = r"
  by (induction s xs arbitrary: r rule: find_named.induct) (auto simp: errs split: if_splits)

lemma find_target_index: "find_target t xs = Inr r \<Longrightarrow> step_index xs t = r"
  by (cases t) (auto simp: find_named_index)

lemma step_index_bound: "step_index xs p = Some i \<Longrightarrow> i < length xs"
  by (cases p) (auto dest: index_of_name_Some split: if_splits)

lemma index_of_name_update:
  assumes "dget e' ''idShort'' = dget e ''idShort''" and "i < length xs" and "xs ! i = JDict e"
  shows "index_of_name (xs[i := JDict e']) s = index_of_name xs s"
  using assms
proof (induction xs s arbitrary: i rule: index_of_name.induct)
  case (2 f xs s)
  then show ?case by (cases i) auto
qed (auto split: nat.splits simp: nth_Cons)

lemma step_index_update:
  "dget e' ''idShort'' = dget e ''idShort'' \<Longrightarrow> i < length xs \<Longrightarrow> xs ! i = JDict e \<Longrightarrow>
   step_index (xs[i := JDict e']) p = step_index xs p"
  by (cases p) (simp_all add: index_of_name_update)

lemma step_childD:
  assumes "step_child d p = Some (i, e)"
  obtains xs where "walk_items d = JList xs" and "step_index xs p = Some i" and "i < length xs"
    and "xs ! i = JDict e"
  using assms step_index_bound
  by (fastforce simp: step_child_def split: json.splits option.splits)

lemma walk_key_put:
  assumes "walk_items d = JList xs" and "xs \<noteq> []" and "length ys = length xs"
  shows "walk_key (dset (walk_key d) (JList ys) d) = walk_key d"
    and "walk_items (dset (walk_key d) (JList ys) d) = JList ys"
proof -
  show k: "walk_key (dset (walk_key d) (JList ys) d) = walk_key d"
    using assms by (auto simp: walk_key_def)
  show "walk_items (dset (walk_key d) (JList ys) d) = JList ys"
    by (simp add: walk_items_def k)
qed

lemma step_child_put:
  assumes "step_child d p = Some (i, e)" and "dget e' ''idShort'' = dget e ''idShort''"
  shows "step_child (put_child d i e') p = Some (i, e')"
proof -
  from assms(1) obtain xs where xs: "walk_items d = JList xs" "step_index xs p = Some i"
    "i < length xs" "xs ! i = JDict e" by (rule step_childD)
  then have "walk_items (put_child d i e') = JList (xs[i := JDict e'])"
    unfolding put_child_def by (subst walk_key_put(2)) auto
  with xs assms(2) show ?thesis by (simp add: step_child_def step_index_update)
qed

lemma dget_put_child:
  "k \<notin> {''submodelElements'', ''value''} \<Longrightarrow> dget (put_child d i e) k = dget d k"
  by (auto simp: put_child_def walk_key_def)

text \<open>
  The interface between the walk that reads a container and the walk that changes one: they reach
  the same containers, and a change that keeps the container's name is what a later walk finds.
\<close>

locale container_store =
  fixes get :: "obj \<Rightarrow> part list \<Rightarrow> obj option"
    and change :: "obj \<Rightarrow> part list \<Rightarrow> (obj \<Rightarrow> elem_error + obj) \<Rightarrow> (elem_error + obj) option"
  assumes change_none: "get d ps = None \<Longrightarrow> change d ps f = None"
    and change_error: "get d ps = Some c \<Longrightarrow> f c = Inl er \<Longrightarrow> change d ps f = Some (Inl er)"
    and change_some: "get d ps = Some c \<Longrightarrow> f c = Inr c' \<Longrightarrow> \<exists>d'. change d ps f = Some (Inr d')"
    and get_change: "get d ps = Some c \<Longrightarrow> f c = Inr c' \<Longrightarrow>
        dget c' ''idShort'' = dget c ''idShort'' \<Longrightarrow> change d ps f = Some (Inr d') \<Longrightarrow>
        get d' ps = Some c'"
begin

lemma change_Inr:
  assumes "change d ps f = Some (Inr d')"
  obtains c c' where "get d ps = Some c" and "f c = Inr c'"
proof (cases "get d ps")
  case None
  with change_none assms show thesis by simp
next
  case (Some c)
  with assms change_error [OF Some] that show thesis by (cases "f c") auto
qed

lemma change_then_get:
  assumes "change d ps f = Some (Inr d')"
    and "\<And>c c'. f c = Inr c' \<Longrightarrow> dget c' ''idShort'' = dget c ''idShort''"
  obtains c c' where "get d ps = Some c" and "f c = Inr c'" and "get d' ps = Some c'"
  using assms by (meson change_Inr get_change)

lemma change_outcome:
  "change d ps f =
     (case get d ps of None \<Rightarrow> None
      | Some c \<Rightarrow> (case f c of Inl er \<Rightarrow> Some (Inl er) | Inr c' \<Rightarrow> change d ps f))"
  using change_none change_error by (auto split: option.splits sum.splits)

end

lemma modify_none: "navigate_to_container d ps = None \<Longrightarrow> modify_container d ps f = None"
  by (induction d ps rule: navigate_to_container.induct) (auto split: option.splits)

lemma modify_error:
  "navigate_to_container d ps = Some c \<Longrightarrow> f c = Inl er \<Longrightarrow> modify_container d ps f = Some (Inl er)"
  by (induction d ps rule: navigate_to_container.induct) (auto split: option.splits)

lemma modify_some:
  "navigate_to_container d ps = Some c \<Longrightarrow> f c = Inr c' \<Longrightarrow>
   dget c' ''idShort'' = dget c ''idShort'' \<Longrightarrow>
   \<exists>d'. modify_container d ps f = Some (Inr d') \<and> navigate_to_container d' ps = Some c' \<and>
        (ps \<noteq> [] \<longrightarrow> dget d' ''idShort'' = dget d ''idShort'')"
proof (induction d ps rule: navigate_to_container.induct)
  case (2 d p ps)
  then obtain i e where ie: "step_child d p = Some (i, e)" and nav: "navigate_to_container e ps = Some c"
    by (auto split: option.splits)
  from "2.IH" [OF ie refl nav "2.prems"(2,3)] obtain e' where
    e': "modify_container e ps f = Some (Inr e')" "navigate_to_container e' ps = Some c'"
    and keep: "ps \<noteq> [] \<longrightarrow> dget e' ''idShort'' = dget e ''idShort''"
    by blast
  have "dget e' ''idShort'' = dget e ''idShort''"
  proof (cases ps)
    case Nil
    with nav e' "2.prems"(3) show ?thesis by simp
  qed (use keep in simp)
  with ie e' show ?case by (simp add: step_child_put dget_put_child)
qed simp

lemma modify_total:
  "navigate_to_container d ps = Some c \<Longrightarrow> f c = Inr c' \<Longrightarrow> \<exists>d'. modify_container d ps f = Some (Inr d')"
  by (induction d ps rule: navigate_to_container.induct) (fastforce split: option.splits)+

interpretation walk: container_store navigate_to_container modify_container
proof unfold_locales
  fix d ps f c er c' d'
  show "navigate_to_container d ps = None \<Longrightarrow> modify_container d ps f = None"
    by (rule modify_none)
  show "navigate_to_container d ps = Some c \<Longrightarrow> f c = Inl er \<Longrightarrow>
        modify_container d ps f = Some (Inl er)"
    by (rule modify_error)
  show "navigate_to_container d ps = Some c \<Longrightarrow> f c = Inr c' \<Longrightarrow>
        \<exists>d'. modify_container d ps f = Some (Inr d')"
    by (rule modify_total)
  show "navigate_to_container d ps = Some c \<Longrightarrow> f c = Inr c' \<Longrightarrow>
        dget c' ''idShort'' = dget c ''idShort'' \<Longrightarrow> modify_container d ps f = Some (Inr d') \<Longrightarrow>
        navigate_to_container d' ps = Some c'"
    using modify_some [of d ps c f c'] by auto
qed

section \<open>The read side sees what the walk sees\<close>

lemma dget_or_truthy: "truthy (dget_or d k (JList [])) = truthy (dget d k)"
  by (simp add: dget_def dget_or_def split: option.splits)

lemma walk_items_nested:
  "walk_items d = JList xs \<Longrightarrow> xs \<noteq> [] \<Longrightarrow> nested_elements d = JList xs"
  by (auto simp: walk_items_def walk_key_def nested_elements_def Let_def dget_or_truthy [symmetric]
      split: if_splits)

lemma step_child_navigate:
  assumes "step_child d p = Some (i, e)"
  shows "navigate_part d p = Some e"
proof -
  from assms obtain xs where xs: "walk_items d = JList xs" "step_index xs p = Some i"
    "i < length xs" "xs ! i = JDict e" by (rule step_childD)
  then have "nested_elements d = JList xs" by (intro walk_items_nested) auto
  with xs show ?thesis
    by (cases p)
       (auto simp: find_element_by_id_short_def index_of_name_find get_element_at_index_def
        split: if_splits)
qed

lemma walk_navigate: "navigate_to_container d ps = Some e \<Longrightarrow> navigate_parts d ps = Some e"
  by (induction d ps rule: navigate_to_container.induct)
     (auto split: option.splits dest: step_child_navigate)

lemma navigate_to_container_snoc:
  "navigate_to_container d (ps @ [p]) =
     (case navigate_to_container d ps of None \<Rightarrow> None
      | Some c \<Rightarrow> map_option snd (step_child c p))"
  by (induction d ps rule: navigate_to_container.induct) (auto split: option.splits)

lemma read_back:
  assumes "\<forall>p \<in> set ps. part_ok p" and "ps \<noteq> []" and "render ps \<noteq> []"
    and "navigate_to_container d ps = Some e"
  shows "navigate_id_short_path d (render ps) = Inr (Some e)"
  using assms walk_navigate by (simp add: navigate_id_short_path_def parse_render)

lemma render_nonempty: "ps \<noteq> [] \<Longrightarrow> \<forall>p \<in> set ps. part_ok p \<Longrightarrow> render ps \<noteq> []"
  by (cases ps rule: render.cases) (auto simp: id_short_ok_def)

section \<open>What the list operations do\<close>

lemma find_named_append:
  "find_named s xs = Inr None \<Longrightarrow>
   find_named s (xs @ ys) =
     bindE (find_named s ys) (\<lambda>r. Inr (map_option (\<lambda>n. n + length xs) r))"
proof (induction s xs rule: find_named.induct)
  case (1 s)
  show ?case by (cases "find_named s ys") (auto simp: option.map_ident)
next
  case (2 s e xs)
  then show ?case
    by (cases "find_named s ys") (auto simp: errs option.map_comp comp_def split: if_splits)
qed auto

lemma insert_checkedE:
  assumes "insert_checked key s shown el c = Inr c'"
  obtains xs where "dget_or c key (JList []) = JList xs" and "find_named s xs = Inr None"
    and "c' = dset key (JList (xs @ [JDict el])) c"
  using assms
  by (cases "dget_or c key (JList [])")
     (auto simp: insert_checked_def errs split: option.splits)

lemma edit_inE:
  assumes "edit_in path key t op c = Inr c'"
  obtains els items i els' where "els = dget_or c key (JList [])" and "py_iter els = Inr items"
    and "find_target t items = Inr (Some i)" and "op els i = Inr els'" and "c' = dset key els' c"
  using assms by (auto simp: edit_in_def Let_def errs split: option.splits)

lemma insert_frame:
  "insert_checked key s shown el c = Inr c' \<Longrightarrow> k \<noteq> key \<Longrightarrow> dget c' k = dget c k"
  by (auto elim!: insert_checkedE)

lemma insert_keeps_name:
  "insert_checked key s shown el c = Inr c' \<Longrightarrow> key \<noteq> ''idShort'' \<Longrightarrow>
   dget c' ''idShort'' = dget c ''idShort''"
  by (auto elim!: insert_checkedE)

lemma insert_into_keeps_name:
  "insert_into path el c = Inr c' \<Longrightarrow> dget c' ''idShort'' = dget c ''idShort''"
  by (auto simp: insert_into_def insert_unchecked_def errs split: if_splits dest: insert_keeps_name)

lemma edit_keeps_name:
  "edit_in path key t op c = Inr c' \<Longrightarrow> key \<noteq> ''idShort'' \<Longrightarrow>
   dget c' ''idShort'' = dget c ''idShort''"
  by (auto elim!: edit_inE)

lemma edit_target_key: "(if b then ''value'' else ''submodelElements'') \<noteq> ''idShort''"
  by simp

lemma step_child_at:
  assumes "walk_key c = key" and "dget_or c key (JList []) = JList xs"
    and "step_index xs p = Some i" and "xs ! i = JDict e"
  shows "step_child c p = Some (i, e)"
  using assms by (simp add: step_child_def walk_items_def)

text \<open>When a container's list is the one the walk looks at.\<close>

definition plain_at :: "string \<Rightarrow> obj \<Rightarrow> bool" where
  "plain_at key c = (key = ''value'' \<longrightarrow> \<not> truthy (dget c ''submodelElements''))"

lemma walk_key_dset:
  assumes "plain_at key c" and "key \<in> {''submodelElements'', ''value''}" and "xs \<noteq> []"
  shows "walk_key (dset key (JList xs) c) = key"
  using assms by (auto simp: walk_key_def plain_at_def)

lemma insert_checked_child:
  assumes "insert_checked key s shown el c = Inr c'" and "plain_at key c"
    and "key \<in> {''submodelElements'', ''value''}" and "dget el ''idShort'' = JStr s"
  shows "map_option snd (step_child c' (Name s)) = Some el"
proof -
  from assms(1) obtain xs where xs: "dget_or c key (JList []) = JList xs"
    and none: "find_named s xs = Inr None" and c': "c' = dset key (JList (xs @ [JDict el])) c"
    by (rule insert_checkedE)
  have "find_named s (xs @ [JDict el]) = Inr (Some (length xs))"
    using find_named_append [OF none, of "[JDict el]"] assms(4) by simp
  then have "step_index (xs @ [JDict el]) (Name s) = Some (length xs)"
    using find_named_index by simp
  then show ?thesis
    using walk_key_dset [OF assms(2,3)] c' by (subst step_child_at [of _ key]) auto
qed

lemma insert_unchecked_child:
  assumes "insert_unchecked key el c = Inr c'" and "plain_at key c"
    and "key \<in> {''submodelElements'', ''value''}"
  shows "\<exists>n. map_option snd (step_child c' (Index (int n))) = Some el"
proof -
  from assms(1) obtain xs where c': "c' = dset key (JList (xs @ [JDict el])) c"
    by (cases "dget_or c key (JList [])") (auto simp: insert_unchecked_def errs)
  then have "step_child c' (Index (int (length xs))) = Some (length xs, el)"
    using walk_key_dset [OF assms(2,3)] by (subst step_child_at [of _ key]) auto
  then show ?thesis by (intro exI [of _ "length xs"]) simp
qed

section \<open>Round trip: delete what was inserted\<close>

lemma put_child_put:
  assumes "step_child d p = Some (i, e)"
  shows "put_child (put_child d i e') i e'' = put_child d i e''"
proof -
  from assms obtain xs where xs: "walk_items d = JList xs" "i < length xs"
    by (rule step_childD)
  then have "xs \<noteq> []" by auto
  note put = walk_key_put [OF xs(1) this, of "xs[i := JDict e']", simplified]
  have "walk_key (put_child d i e') = walk_key d"
    and "walk_items (put_child d i e') = JList (xs[i := JDict e'])"
    using put by (simp_all add: put_child_def xs(1))
  then have "put_child (put_child d i e') i e'' =
             dset (walk_key d) (JList (xs[i := JDict e''])) (put_child d i e')"
    by (subst put_child_def) simp
  also have "\<dots> = put_child d i e''"
    by (simp add: put_child_def xs(1))
  finally show ?thesis .
qed

lemma put_child_same:
  assumes "step_child d p = Some (i, e)"
  shows "put_child d i e = d"
proof -
  from assms obtain xs where xs: "walk_items d = JList xs" "i < length xs" "xs ! i = JDict e"
    by (rule step_childD)
  then have "map_of d (walk_key d) = Some (JList xs)"
    by (auto simp: walk_items_def dget_or_def split: option.splits)
  with xs show ?thesis
    using list_update_id [of xs i] by (simp add: put_child_def dset_same)
qed

lemma modify_modify:
  "navigate_to_container d ps = Some c \<Longrightarrow> f c = Inr c' \<Longrightarrow>
   dget c' ''idShort'' = dget c ''idShort'' \<Longrightarrow> g c' = Inr c \<Longrightarrow>
   modify_container d ps f = Some (Inr d') \<Longrightarrow> modify_container d' ps g = Some (Inr d)"
proof (induction d ps arbitrary: d' rule: navigate_to_container.induct)
  case (2 d p ps)
  then obtain i e where ie: "step_child d p = Some (i, e)" and nav: "navigate_to_container e ps = Some c"
    by (auto split: option.splits)
  with "2.prems"(5) obtain e' where e': "modify_container e ps f = Some (Inr e')"
    and d': "d' = put_child d i e'"
    by (auto simp: errs)
  from modify_some [of e ps c f c'] nav "2.prems"(2,3) e'
  have "dget e' ''idShort'' = dget e ''idShort''" by (cases ps) auto
  with ie d' have "step_child d' p = Some (i, e')" by (simp add: step_child_put)
  with "2.IH" [OF ie refl nav "2.prems"(2-4) e'] d' ie show ?case
    by (simp add: put_child_put [OF ie] put_child_same [OF ie])
qed simp

lemma delete_inserted:
  assumes "insert_checked key s shown el c = Inr c'" and "dhas c key"
    and "dget el ''idShort'' = JStr s"
  shows "edit_in path key (Name s) del_item c' = Inr c"
proof -
  from assms(1) obtain xs where xs: "dget_or c key (JList []) = JList xs"
    and none: "find_named s xs = Inr None" and c': "c' = dset key (JList (xs @ [JDict el])) c"
    by (rule insert_checkedE)
  have "find_named s (xs @ [JDict el]) = Inr (Some (length xs))"
    using find_named_append [OF none, of "[JDict el]"] assms(3) by simp
  moreover from xs assms(2) have "map_of c key = Some (JList xs)"
    by (auto simp: dhas_def dget_or_def split: option.splits)
  ultimately show ?thesis
    by (simp add: edit_in_def c' dset_same)
qed

section \<open>Whole documents\<close>

text \<open>
  The container an operation works in, and the entry of it that holds the list: the submodel
  itself for a path of one component, the element at the parent path otherwise.
\<close>

definition parent_of :: "obj \<Rightarrow> part list \<Rightarrow> obj option" where
  "parent_of doc ps = navigate_to_container doc ps"

definition edit_key :: "part list \<Rightarrow> obj \<Rightarrow> string" where
  "edit_key ps c = (if ps \<noteq> [] \<and> is_coll c then ''value'' else ''submodelElements'')"

lemma edit_key_cases: "edit_key ps c \<in> {''submodelElements'', ''value''}"
  by (simp add: edit_key_def)

lemma edit_target_render:
  assumes "\<forall>p \<in> set (ps @ [t]). part_ok p"
  shows "edit_target doc (render (ps @ [t])) op =
    (case modify_container doc ps (\<lambda>c. edit_in (render (ps @ [t])) (edit_key ps c) t op c) of
       None \<Rightarrow> Inl (ElementNotFound (render (ps @ [t]))) | Some r \<Rightarrow> r)"
  using parse_render [OF assms] by (cases "ps = []") (simp_all add: edit_target_def edit_key_def)

lemma edit_targetE:
  assumes "edit_target doc (render (ps @ [t])) op = Inr doc'"
    and "\<forall>p \<in> set (ps @ [t]). part_ok p"
  obtains c c' where "navigate_to_container doc ps = Some c"
    and "edit_in (render (ps @ [t])) (edit_key ps c) t op c = Inr c'"
    and "navigate_to_container doc' ps = Some c'"
    and "modify_container doc ps (\<lambda>c. edit_in (render (ps @ [t])) (edit_key ps c) t op c) = Some (Inr doc')"
proof -
  from assms edit_target_render [OF assms(2)]
  have m: "modify_container doc ps (\<lambda>c. edit_in (render (ps @ [t])) (edit_key ps c) t op c) = Some (Inr doc')"
    by (auto split: option.splits)
  from m show thesis
    by (rule walk.change_then_get) (auto simp: edit_key_def dest: edit_keeps_name intro: that [OF _ _ _ m] split: if_splits)
qed

definition insert_in :: "part list \<Rightarrow> obj \<Rightarrow> string \<Rightarrow> obj \<Rightarrow> elem_error + obj" where
  "insert_in ps el s c =
     insert_checked (if ps = [] then ''submodelElements'' else ''value'') s
       (if ps = [] then s else path_dot (render ps) s) el c"

definition opt_path :: "part list \<Rightarrow> string option" where
  "opt_path ps = (if ps = [] then None else Some (render ps))"

definition takes_named :: "part list \<Rightarrow> obj \<Rightarrow> bool" where
  "takes_named ps c =
     (ps = [] \<or> (dget c ''modelType'' = JStr ''SubmodelElementCollection'' \<and>
                \<not> truthy (dget c ''submodelElements'')))"

lemma insert_elementE:
  assumes "insert_element doc (opt_path ps) el = Inr doc'" and "\<forall>p \<in> set ps. part_ok p"
    and "dget el ''idShort'' = JStr s" and "s \<noteq> []"
    and "navigate_to_container doc ps = Some c" and "takes_named ps c"
  obtains c' where "insert_in ps el s c = Inr c'" and "navigate_to_container doc' ps = Some c'"
    and "\<exists>f :: obj \<Rightarrow> elem_error + obj. f c = Inr c' \<and> modify_container doc ps f = Some (Inr doc')"
proof (cases "ps = []")
  case True
  with assms show thesis
    by (intro that [of doc']) (auto simp: insert_element_def opt_path_def insert_in_def required_id_short_def)
next
  case False
  with assms have m: "modify_container doc ps (insert_into (render ps) el) = Some (Inr doc')"
    using render_nonempty [OF False assms(2)]
    by (auto simp: insert_element_def opt_path_def parse_render split: option.splits)
  from m obtain c'' where c': "insert_into (render ps) el c = Inr c''"
    and nav: "navigate_to_container doc' ps = Some c''"
    by (rule walk.change_then_get) (use assms(5) in \<open>auto dest: insert_into_keeps_name\<close>)
  from c' False assms(3,4,6) have i: "insert_in ps el s c = Inr c''"
    by (simp add: insert_into_def insert_in_def takes_named_def required_id_short_def)
  show thesis by (rule that [OF i nav]) (use c' m in blast)
qed

lemma takes_named_plain:
  "takes_named ps c \<Longrightarrow> plain_at (if ps = [] then ''submodelElements'' else ''value'') c"
  by (auto simp: takes_named_def plain_at_def)

definition sample_doc :: obj where
  "sample_doc = [(''modelType'', JStr ''Submodel''), (''submodelElements'', JList
     [JDict [(''modelType'', JStr ''SubmodelElementCollection''), (''idShort'', JStr ''C''),
        (''value'', JList [JDict [(''modelType'', JStr ''Property''), (''idShort'', JStr ''A''),
                                  (''value'', JStr ''1'')]])]])]"

abbreviation prop_of :: "string \<Rightarrow> string \<Rightarrow> obj" where
  "prop_of name v \<equiv> [(''modelType'', JStr ''Property''), (''idShort'', JStr name), (''value'', JStr v)]"

text \<open>
  After a successful insertion into the submodel (empty path) or into a collection, reading
  the path of the new element returns exactly the inserted element.
\<close>

lemma insert_then_read:
  assumes "insert_element doc (opt_path ps) el = Inr doc'" and "\<forall>p \<in> set ps. part_ok p"
    and "dget el ''idShort'' = JStr s" and "id_short_ok s"
    and "navigate_to_container doc ps = Some c" and "takes_named ps c"
  shows "navigate_id_short_path doc' (render (ps @ [Name s])) = Inr (Some el)"
proof -
  have s: "s \<noteq> []" using assms(4) by (simp add: id_short_ok_def)
  from insert_elementE [OF assms(1,2,3) s assms(5,6)] obtain c' where
    c': "insert_in ps el s c = Inr c'" and nav: "navigate_to_container doc' ps = Some c'" by blast
  from insert_checked_child [OF c' [unfolded insert_in_def] takes_named_plain [OF assms(6)] _ assms(3)]
  have "navigate_to_container doc' (ps @ [Name s]) = Some el"
    by (simp add: navigate_to_container_snoc nav)
  then show ?thesis
    using assms(2,4) by (intro read_back render_nonempty) auto
qed

lemma insert_then_read_witness:
  "\<exists>doc'. insert_element sample_doc (Some ''C'') (prop_of ''B'' ''2'') = Inr doc' \<and>
          navigate_id_short_path doc' ''C.B'' = Inr (Some (prop_of ''B'' ''2''))"
proof -
  have run: "insert_element sample_doc (opt_path [Name ''C'']) (prop_of ''B'' ''2'') =
     Inr [(''modelType'', JStr ''Submodel''), (''submodelElements'', JList
     [JDict [(''modelType'', JStr ''SubmodelElementCollection''), (''idShort'', JStr ''C''),
        (''value'', JList [JDict (prop_of ''A'' ''1''), JDict (prop_of ''B'' ''2'')])]])]"
    by code_simp
  show ?thesis
    using insert_then_read [OF run, of "''B''"] run
    by (simp add: opt_path_def id_short_ok_def dget_def takes_named_def sample_doc_def step_child_def
        walk_items_def walk_key_def dget_or_def)
qed



section \<open>Replacement and patch\<close>

lemma step_index_set:
  assumes "step_index xs t = Some i" and "\<And>s. t = Name s \<Longrightarrow> dget e ''idShort'' = JStr s"
  shows "step_index (xs[i := JDict e]) t = Some i"
proof (cases t)
  case (Name s)
  with assms(1) obtain e0 where "i < length xs" "xs ! i = JDict e0" "dget e0 ''idShort'' = JStr s"
    by (auto dest: index_of_name_Some)
  with Name assms index_of_name_update [of e e0 i xs s] show ?thesis by simp
qed (use assms(1) in auto)

lemma set_child:
  assumes "plain_at key c" and "key \<in> {''submodelElements'', ''value''}"
    and "step_index xs t = Some i" and "\<And>s. t = Name s \<Longrightarrow> dget e ''idShort'' = JStr s"
  shows "step_child (dset key (JList (xs[i := JDict e])) c) t = Some (i, e)"
proof -
  have "i < length xs" by (rule step_index_bound [OF assms(3)])
  moreover from this have "walk_key (dset key (JList (xs[i := JDict e])) c) = key"
    by (intro walk_key_dset [OF assms(1,2)]) auto
  ultimately show ?thesis
    using step_index_set [OF assms(3,4)] by (intro step_child_at [of _ key]) auto
qed

lemma replaced_child:
  assumes "edit_in path key t (set_item (JDict e)) c = Inr c'" and "plain_at key c"
    and "key \<in> {''submodelElements'', ''value''}" and "\<And>s. t = Name s \<Longrightarrow> dget e ''idShort'' = JStr s"
  shows "map_option snd (step_child c' t) = Some e"
proof -
  from assms(1) obtain els items i els' where els: "py_iter els = Inr items"
    "find_target t items = Inr (Some i)" "set_item (JDict e) els i = Inr els'"
    and c': "c' = dset key els' c"
    by (rule edit_inE)
  then obtain xs where "els' = JList (xs[i := JDict e])" and "step_index xs t = Some i"
    by (cases els) (auto dest: find_target_index)
  then show ?thesis using set_child [OF assms(2,3)] assms(4) c' by simp
qed

lemma patched_child:
  assumes "edit_in path key t (patch_item ups) c = Inr c'" and "plain_at key c"
    and "key \<in> {''submodelElements'', ''value''}" and "map_option snd (step_child c t) = Some e"
    and "\<And>s. t = Name s \<Longrightarrow> dget (set_all ups e) ''idShort'' = JStr s"
  shows "map_option snd (step_child c' t) = Some (set_all ups e)"
proof -
  from assms(1) obtain els items i els' where els: "els = dget_or c key (JList [])"
    "py_iter els = Inr items" "find_target t items = Inr (Some i)" "patch_item ups els i = Inr els'"
    and c': "c' = dset key els' c"
    by (rule edit_inE)
  from els(3) have "items \<noteq> []" using find_target_index step_index_bound by fastforce
  with els(2) have "truthy els" by (cases els) auto
  with els(1) assms(2,3) have key: "walk_key c = key"
    by (auto simp: walk_key_def plain_at_def dget_or_truthy)
  from assms(4) obtain j where "step_child c t = Some (j, e)" by auto
  then obtain xs where xs: "walk_items c = JList xs" "step_index xs t = Some j" "xs ! j = JDict e"
    by (rule step_childD)
  with els key have "els = JList xs" "i = j"
    using find_target_index [OF els(3)] by (auto simp: walk_items_def)
  with els(4) xs c' have "c' = dset key (JList (xs[i := JDict (set_all ups e)])) c"
    and "step_index xs t = Some i" by auto
  then show ?thesis using set_child [OF assms(2,3)] assms(5) by simp
qed

text \<open>The parent of the target holds its elements where both walks look.\<close>

definition plain_parent :: "obj \<Rightarrow> part list \<Rightarrow> bool" where
  "plain_parent doc ps =
     (case navigate_to_container doc ps of None \<Rightarrow> True | Some c \<Rightarrow> plain_at (edit_key ps c) c)"

text \<open>
  After a successful replacement, reading the same path returns exactly the new element, when
  the new element keeps the name the path addresses (an index addresses any element).
\<close>

lemma replace_then_read:
  assumes "replace_element doc (render (ps @ [t])) el = Inr doc'"
    and "\<forall>p \<in> set (ps @ [t]). part_ok p" and "plain_parent doc ps"
    and "\<forall>s. t = Name s \<longrightarrow> dget el ''idShort'' = JStr s"
  shows "navigate_id_short_path doc' (render (ps @ [t])) = Inr (Some el)"
proof -
  from assms(1) [unfolded replace_element_def] assms(2) obtain c c' where
    nav: "navigate_to_container doc ps = Some c" "navigate_to_container doc' ps = Some c'"
    and c': "edit_in (render (ps @ [t])) (edit_key ps c) t (set_item (JDict el)) c = Inr c'"
    by (rule edit_targetE)
  from assms(3) nav have "plain_at (edit_key ps c) c" by (simp add: plain_parent_def)
  from replaced_child [OF c' this edit_key_cases] assms(4)
  have "navigate_to_container doc' (ps @ [t]) = Some el"
    by (simp add: navigate_to_container_snoc nav)
  then show ?thesis using assms(2) by (intro read_back render_nonempty) auto
qed

lemma replace_then_read_witness:
  "\<exists>doc'. replace_element sample_doc ''C.A'' (prop_of ''A'' ''9'') = Inr doc' \<and>
          navigate_id_short_path doc' ''C.A'' = Inr (Some (prop_of ''A'' ''9''))"
proof -
  have run: "replace_element sample_doc (render ([Name ''C''] @ [Name ''A''])) (prop_of ''A'' ''9'') =
     Inr [(''modelType'', JStr ''Submodel''), (''submodelElements'', JList
     [JDict [(''modelType'', JStr ''SubmodelElementCollection''), (''idShort'', JStr ''C''),
        (''value'', JList [JDict (prop_of ''A'' ''9'')])]])]"
    by code_simp
  have "plain_parent sample_doc [Name ''C'']" by code_simp
  from replace_then_read [OF run _ this] run show ?thesis
    by (auto simp: id_short_ok_def dget_def)
qed

text \<open>
  A successful patch changes exactly the given fields of the addressed element: reading the
  path afterwards returns the element read before, updated with them.
\<close>

lemma patch_then_read:
  assumes "patch_element doc (render (ps @ [t])) ups = Inr doc'"
    and "\<forall>p \<in> set (ps @ [t]). part_ok p" and "plain_parent doc ps"
    and "navigate_to_container doc (ps @ [t]) = Some e"
    and "\<forall>s. t = Name s \<longrightarrow> dget (set_all ups e) ''idShort'' = JStr s"
  shows "navigate_id_short_path doc (render (ps @ [t])) = Inr (Some e) \<and>
         navigate_id_short_path doc' (render (ps @ [t])) = Inr (Some (set_all ups e))"
proof -
  from assms(1) [unfolded patch_element_def] assms(2) obtain c c' where
    nav: "navigate_to_container doc ps = Some c" "navigate_to_container doc' ps = Some c'"
    and c': "edit_in (render (ps @ [t])) (edit_key ps c) t (patch_item ups) c = Inr c'"
    by (rule edit_targetE)
  from assms(3) nav have "plain_at (edit_key ps c) c" by (simp add: plain_parent_def)
  moreover from assms(4) nav have "map_option snd (step_child c t) = Some e"
    by (simp add: navigate_to_container_snoc)
  ultimately have "map_option snd (step_child c' t) = Some (set_all ups e)"
    using patched_child [OF c' _ edit_key_cases] assms(5) by simp
  then have "navigate_to_container doc' (ps @ [t]) = Some (set_all ups e)"
    by (simp add: navigate_to_container_snoc nav)
  with assms(2,4) show ?thesis
    using read_back [OF assms(2) _ render_nonempty [OF _ assms(2)]] by simp
qed

lemma patch_then_read_witness:
  "\<exists>doc'. update_element_value sample_doc ''C.A'' (JStr ''5'') = Inr doc' \<and>
          navigate_id_short_path doc' ''C.A'' = Inr (Some (prop_of ''A'' ''5''))"
proof -
  have run: "patch_element sample_doc (render ([Name ''C''] @ [Name ''A''])) [(''value'', JStr ''5'')] =
     Inr [(''modelType'', JStr ''Submodel''), (''submodelElements'', JList
     [JDict [(''modelType'', JStr ''SubmodelElementCollection''), (''idShort'', JStr ''C''),
        (''value'', JList [JDict (prop_of ''A'' ''5'')])]])]"
    by code_simp
  have plain: "plain_parent sample_doc [Name ''C'']" by code_simp
  have before: "navigate_to_container sample_doc ([Name ''C''] @ [Name ''A'']) = Some (prop_of ''A'' ''1'')"
    by code_simp
  from patch_then_read [OF run _ plain before] run show ?thesis
    by (auto simp: id_short_ok_def dget_def dset_def update_element_value_def)
qed

section \<open>Missing targets\<close>

text \<open>
  The target is not there: its parent is not, or the parent's list (all dictionaries) has no
  element under that name or index.
\<close>

definition absent :: "obj \<Rightarrow> part list \<Rightarrow> part \<Rightarrow> bool" where
  "absent doc ps t =
     (case navigate_to_container doc ps of
        None \<Rightarrow> True
      | Some c \<Rightarrow>
          (case dget_or c (edit_key ps c) (JList []) of
             JList xs \<Rightarrow> (\<forall>x \<in> set xs. \<exists>e. x = JDict e) \<and> step_index xs t = None
           | _ \<Rightarrow> False))"

lemma find_named_absent:
  "\<forall>x \<in> set xs. \<exists>e. x = JDict e \<Longrightarrow> find_named s xs = Inr (index_of_name xs s)"
  by (induction s xs rule: find_named.induct) auto

lemma find_target_absent:
  "\<forall>x \<in> set xs. \<exists>e. x = JDict e \<Longrightarrow> find_target t xs = Inr (step_index xs t)"
  by (cases t) (auto simp: find_named_absent)

lemma edit_absent:
  assumes "absent doc ps t" and "\<forall>p \<in> set (ps @ [t]). part_ok p"
  shows "edit_target doc (render (ps @ [t])) op = Inl (ElementNotFound (render (ps @ [t])))"
proof (cases "navigate_to_container doc ps")
  case None
  then show ?thesis by (simp add: edit_target_render [OF assms(2)] walk.change_none)
next
  case (Some c)
  with assms(1) have "edit_in (render (ps @ [t])) (edit_key ps c) t op c =
                      Inl (ElementNotFound (render (ps @ [t])))"
    by (auto simp: absent_def edit_in_def Let_def find_target_absent split: json.splits)
  from walk.change_error [where f = "\<lambda>c. edit_in (render (ps @ [t])) (edit_key ps c) t op c",
      OF Some this]
  show ?thesis by (simp add: edit_target_render [OF assms(2)])
qed

text \<open>
  Replacing, patching or deleting an element that is not there changes nothing and reports
  \<open>ElementNotFoundError\<close> for the path.
\<close>

lemma missing_element_reported:
  assumes "absent doc ps t" and "\<forall>p \<in> set (ps @ [t]). part_ok p"
  shows "replace_element doc (render (ps @ [t])) el = Inl (ElementNotFound (render (ps @ [t]))) \<and>
         patch_element doc (render (ps @ [t])) ups = Inl (ElementNotFound (render (ps @ [t]))) \<and>
         delete_element doc (render (ps @ [t])) = Inl (ElementNotFound (render (ps @ [t])))"
  using edit_absent [OF assms]
  by (simp add: replace_element_def patch_element_def delete_element_def)

lemma missing_element_reported_witness:
  "delete_element sample_doc ''C.Z'' = Inl (ElementNotFound ''C.Z'')"
proof -
  have "absent sample_doc [Name ''C''] (Name ''Z'')"
    by (simp add: absent_def sample_doc_def step_child_def walk_items_def walk_key_def dget_or_def
        dget_def edit_key_def is_coll_def)
  from missing_element_reported [OF this] show ?thesis by (simp add: id_short_ok_def)
qed

text \<open>
  The statements of an Entity can be read by path but not written: the walk of the write
  operations does not know \<open>statements\<close>, so replacing, patching or deleting one reports that it
  does not exist.
\<close>

lemma entity_statements_not_writable:
  assumes "navigate_to_container doc ps = Some c" and "ps \<noteq> []"
    and "dget c ''modelType'' = JStr ''Entity''" and "\<not> dhas c ''submodelElements''"
    and "\<forall>p \<in> set (ps @ [Name s]). part_ok p"
  shows "replace_element doc (render (ps @ [Name s])) el = Inl (ElementNotFound (render (ps @ [Name s]))) \<and>
         patch_element doc (render (ps @ [Name s])) ups = Inl (ElementNotFound (render (ps @ [Name s]))) \<and>
         delete_element doc (render (ps @ [Name s])) = Inl (ElementNotFound (render (ps @ [Name s])))"
proof -
  have "edit_key ps c = ''submodelElements''"
    using assms(3) by (simp add: edit_key_def is_coll_def)
  with assms(1,4) have "absent doc ps (Name s)"
    by (auto simp: absent_def dget_or_def dhas_def)
  from edit_absent [OF this assms(5)] show ?thesis
    by (simp add: replace_element_def patch_element_def delete_element_def)
qed

lemma entity_statements_not_writable_witness:
  "\<exists>doc. navigate_id_short_path doc ''E.S'' = Inr (Some (prop_of ''S'' ''1'')) \<and>
         delete_element doc ''E.S'' = Inl (ElementNotFound ''E.S'')"
proof -
  define c where "c = [(''modelType'', JStr ''Entity''), (''idShort'', JStr ''E''),
    (''statements'', JList [JDict (prop_of ''S'' ''1'')])]"
  define doc where "doc = [(''submodelElements'', JList [JDict c])]"
  have read: "navigate_id_short_path doc ''E.S'' = Inr (Some (prop_of ''S'' ''1''))"
    unfolding doc_def c_def by code_simp
  have nav: "navigate_to_container doc [Name ''E''] = Some c"
    unfolding doc_def c_def by code_simp
  have "delete_element doc ''E.S'' = Inl (ElementNotFound ''E.S'')"
    using entity_statements_not_writable [OF nav, of "''S''"]
    by (simp add: c_def dget_def dhas_def id_short_ok_def)
  with read show ?thesis by blast
qed

section \<open>Unique names\<close>

fun name_of :: "json \<Rightarrow> string list" where
  "name_of (JDict e) = (case dget e ''idShort'' of JStr s \<Rightarrow> [s] | _ \<Rightarrow> [])"
| "name_of _ = []"

definition names_of :: "json list \<Rightarrow> string list" where
  "names_of xs = concat (map name_of xs)"

text \<open>
  No two elements of the submodel or of a collection share an \<open>idShort\<close>, at any depth (a
  SubmodelElementList numbers its elements instead).
\<close>

lemma size_walk_items: "JDict e \<in> set (items_of (walk_items d)) \<Longrightarrow> size (JDict e) < size (JDict d)"
  by (auto simp: walk_items_def dget_or_def split: option.splits simp del: json.size
      dest!: items_of_mem intro: size_item_list map_of_SomeD size_item_list [OF map_of_SomeD])

function uniq :: "obj \<Rightarrow> bool" where
  "uniq d =
     ((is_list d \<or> distinct (names_of (items_of (walk_items d)))) \<and>
      (\<forall>x \<in> set (items_of (walk_items d)). case x of JDict e \<Rightarrow> uniq e | _ \<Rightarrow> True))"
  by pat_completeness auto
termination
  by (relation "measure (\<lambda>d. size (JDict d))") (auto simp del: json.size dest: size_walk_items)

declare uniq.simps [simp del]

lemma names_of_update:
  assumes "i < length xs" and "xs ! i = JDict e" and "dget e' ''idShort'' = dget e ''idShort''"
  shows "names_of (xs[i := JDict e']) = names_of xs"
proof -
  have "name_of (JDict e') = name_of (xs ! i)" using assms by simp
  then have "map name_of (xs[i := JDict e']) = map name_of xs"
    by (metis list_update_id map_update)
  then show ?thesis by (simp add: names_of_def)
qed

lemma index_none_names: "index_of_name xs s = None \<longleftrightarrow> s \<notin> set (names_of xs)"
proof (induction xs s rule: index_of_name.induct)
  case (2 e xs s)
  then show ?case by (cases "dget e ''idShort''") (auto simp: names_of_def)
qed (auto simp: names_of_def)

lemma is_list_dset: "k \<noteq> ''modelType'' \<Longrightarrow> is_list (dset k v d) = is_list d"
  by (simp add: is_list_def)

lemma uniq_child: "uniq d \<Longrightarrow> step_child d p = Some (i, e) \<Longrightarrow> uniq e"
  by (erule step_childD) (force simp: uniq.simps [of d] dest: nth_mem)

lemma uniq_put:
  assumes "uniq d" and "step_child d p = Some (i, e)" and "uniq e'"
    and "dget e' ''idShort'' = dget e ''idShort''"
  shows "uniq (put_child d i e')"
proof -
  from assms(2) obtain xs where xs: "walk_items d = JList xs" "i < length xs" "xs ! i = JDict e"
    by (rule step_childD)
  then have "xs \<noteq> []" by auto
  from walk_key_put(2) [OF xs(1) this, of "xs[i := JDict e']"]
  have items: "walk_items (put_child d i e') = JList (xs[i := JDict e'])"
    by (simp add: put_child_def xs(1))
  have lst: "is_list (put_child d i e') = is_list d"
    by (simp add: put_child_def is_list_dset walk_key_def)
  have "\<forall>x \<in> set (xs[i := JDict e']). case x of JDict e \<Rightarrow> uniq e | _ \<Rightarrow> True"
    using assms(1,3) set_update_subset_insert [of xs i "JDict e'"]
    by (auto simp: uniq.simps [of d] xs(1))
  then show ?thesis
    using assms(1) names_of_update [OF xs(2,3) assms(4)]
    by (simp add: uniq.simps [of "put_child d i e'"] uniq.simps [of d] items lst xs(1))
qed

lemma uniq_modify:
  "uniq d \<Longrightarrow> navigate_to_container d ps = Some c \<Longrightarrow> f c = Inr c' \<Longrightarrow> (uniq c \<Longrightarrow> uniq c') \<Longrightarrow>
   dget c' ''idShort'' = dget c ''idShort'' \<Longrightarrow> modify_container d ps f = Some (Inr d') \<Longrightarrow> uniq d'"
proof (induction d ps arbitrary: d' rule: navigate_to_container.induct)
  case (2 d p ps)
  then obtain i e where ie: "step_child d p = Some (i, e)" and nav: "navigate_to_container e ps = Some c"
    by (auto split: option.splits)
  with "2.prems"(6) obtain e' where e': "modify_container e ps f = Some (Inr e')"
    and d': "d' = put_child d i e'"
    by (auto simp: errs)
  from modify_some [of e ps c f c'] nav "2.prems"(3,5) e'
  have "dget e' ''idShort'' = dget e ''idShort''" by (cases ps) auto
  with "2.IH" [OF ie refl uniq_child [OF "2.prems"(1) ie] nav "2.prems"(3-5) e'] show ?case
    using uniq_put [OF "2.prems"(1) ie] d' by simp
qed auto

lemma walk_items_after:
  assumes "dget_or c key (JList []) = JList xs" and "key \<in> {''submodelElements'', ''value''}"
  shows "items_of (walk_items (dset key (JList (xs @ [y])) c)) = items_of (walk_items c) \<or>
         items_of (walk_items (dset key (JList (xs @ [y])) c)) = xs @ [y] \<and>
         (xs = [] \<or> xs = items_of (walk_items c))"
  using assms by (auto simp: walk_items_def walk_key_def dget_or_truthy [symmetric])

lemma uniq_append:
  assumes "uniq c" and "uniq el" and "dget_or c key (JList []) = JList xs"
    and "key \<in> {''submodelElements'', ''value''}"
    and "is_list c \<or> (\<exists>s. dget el ''idShort'' = JStr s \<and> index_of_name xs s = None)"
  shows "uniq (dset key (JList (xs @ [JDict el])) c)" (is "uniq ?c")
proof -
  have lst: "is_list ?c = is_list c" using assms(4) by (auto simp: is_list_dset)
  from walk_items_after [OF assms(3,4), of "JDict el"] show ?thesis
  proof (elim disjE conjE)
    assume "items_of (walk_items ?c) = items_of (walk_items c)"
    with assms(1) show ?thesis by (simp add: uniq.simps [of ?c] uniq.simps [of c] lst)
  next
    assume new: "items_of (walk_items ?c) = xs @ [JDict el]" and "xs = []"
    then show ?thesis using assms(2)
      by (subst uniq.simps) (simp add: names_of_def split: json.splits)
  next
    assume new: "items_of (walk_items ?c) = xs @ [JDict el]" and old: "xs = items_of (walk_items c)"
    have "is_list c \<or> distinct (names_of (xs @ [JDict el]))"
      using assms(1,5) old index_none_names
      by (auto simp: uniq.simps [of c] names_of_def)
    moreover have "\<forall>x \<in> set xs. case x of JDict e \<Rightarrow> uniq e | _ \<Rightarrow> True"
      using assms(1) old by (simp add: uniq.simps [of c])
    ultimately show ?thesis
      using assms(2) by (subst uniq.simps) (simp only: new lst, simp)
  qed
qed

lemma uniq_insert_checked:
  assumes "insert_checked key s shown el c = Inr c'" and "uniq c" and "uniq el"
    and "key \<in> {''submodelElements'', ''value''}" and "dget el ''idShort'' = JStr s"
  shows "uniq c'"
  using assms by (auto elim!: insert_checkedE intro!: uniq_append dest: find_named_index)

lemma required_id_shortD: "required_id_short el = Inr s \<Longrightarrow> dget el ''idShort'' = JStr s"
  by (auto simp: required_id_short_def split: json.splits if_splits)

lemma uniq_insert_into:
  assumes "insert_into path el c = Inr c'" and "uniq c" and "uniq el"
  shows "uniq c'"
proof (cases "dget c ''modelType'' = JStr ''SubmodelElementCollection''")
  case True
  with assms show ?thesis
    by (auto simp: insert_into_def errs dest!: required_id_shortD intro: uniq_insert_checked)
next
  case False
  with assms(1) have lst: "is_list c" and run: "insert_unchecked ''value'' el c = Inr c'"
    by (auto simp: insert_into_def is_list_def split: if_splits)
  from run obtain xs where "dget_or c ''value'' (JList []) = JList xs"
    and "c' = dset ''value'' (JList (xs @ [JDict el])) c"
    by (cases "dget_or c ''value'' (JList [])") (auto simp: insert_unchecked_def errs)
  with uniq_append [OF assms(2,3)] lst show ?thesis by simp
qed

text \<open>
  Insertion keeps names unique: from a document without duplicate names, inserting any element
  that has none inside leaves a document without duplicate names, whatever the path.
\<close>

lemma insert_keeps_unique:
  assumes "insert_element doc path el = Inr doc'" and "uniq doc" and "uniq el"
  shows "uniq doc'"
proof (cases "path = None \<or> path = Some []")
  case True
  with assms show ?thesis
    by (auto simp: insert_element_def errs dest!: required_id_shortD intro: uniq_insert_checked)
next
  case False
  with assms(1) obtain p parts where m: "modify_container doc parts (insert_into p el) = Some (Inr doc')"
    by (auto simp: insert_element_def errs split: option.splits if_splits)
  from m obtain c c' where c: "navigate_to_container doc parts = Some c" "insert_into p el c = Inr c'"
    by (rule walk.change_Inr)
  from uniq_modify [OF assms(2) c _ insert_into_keeps_name [OF c(2)] m]
  show ?thesis using uniq_insert_into [OF c(2) _ assms(3)] by blast
qed

lemma insert_keeps_unique_witness:
  "\<exists>doc'. insert_element sample_doc (Some ''C'') (prop_of ''B'' ''2'') = Inr doc' \<and> uniq doc' \<and>
          insert_element doc' (Some ''C'') (prop_of ''B'' ''3'') = Inl (ElementExists ''C.B'')"
proof -
  define doc' where "doc' = [(''modelType'', JStr ''Submodel''), (''submodelElements'', JList
     [JDict [(''modelType'', JStr ''SubmodelElementCollection''), (''idShort'', JStr ''C''),
        (''value'', JList [JDict (prop_of ''A'' ''1''), JDict (prop_of ''B'' ''2'')])]])]"
  have run: "insert_element sample_doc (Some ''C'') (prop_of ''B'' ''2'') = Inr doc'"
    unfolding doc'_def by code_simp
  have u: "uniq sample_doc" "uniq (prop_of ''B'' ''2'')" by code_simp+
  have again: "insert_element doc' (Some ''C'') (prop_of ''B'' ''3'') = Inl (ElementExists ''C.B'')"
    unfolding doc'_def by code_simp
  show ?thesis using run again insert_keeps_unique [OF run u] by blast
qed

text \<open>
  Replacement does not: replacing an element by one that carries a sibling's name succeeds and
  leaves two siblings with one name, the second of which no path by name reaches.
\<close>

lemma replace_can_duplicate:
  "\<exists>doc path el doc'. uniq doc \<and> uniq el \<and> replace_element doc path el = Inr doc' \<and> \<not> uniq doc'"
proof -
  define doc where "doc = [(''submodelElements'', JList [JDict (prop_of ''A'' ''1''), JDict (prop_of ''B'' ''2'')])]"
  define doc' where "doc' = [(''submodelElements'', JList [JDict (prop_of ''A'' ''1''), JDict (prop_of ''A'' ''3'')])]"
  have "replace_element doc ''B'' (prop_of ''A'' ''3'') = Inr doc'"
    unfolding doc_def doc'_def by code_simp
  moreover have "uniq doc" "uniq (prop_of ''A'' ''3'')" "\<not> uniq doc'"
    unfolding doc_def doc'_def by code_simp+
  ultimately show ?thesis by blast
qed

section \<open>All the operations\<close>

datatype edit = Insert "string option" obj | Replace string obj | Patch string obj | SetValue string json | Remove string

fun apply_edit :: "edit \<Rightarrow> obj \<Rightarrow> elem_error + obj" where
  "apply_edit (Insert path el) d = insert_element d path el"
| "apply_edit (Replace path el) d = replace_element d path el"
| "apply_edit (Patch path ups) d = patch_element d path ups"
| "apply_edit (SetValue path v) d = update_element_value d path v"
| "apply_edit (Remove path) d = ElementOps.delete_element d path"

fun edit_ok :: "edit \<Rightarrow> bool" where
  "edit_ok (Insert path el) = json_ok (JDict el)"
| "edit_ok (Replace path el) = json_ok (JDict el)"
| "edit_ok (Patch path ups) = json_ok (JDict ups)"
| "edit_ok (SetValue path v) = json_ok v"
| "edit_ok (Remove path) = True"

text \<open>
  Whatever an operation does to the container it reaches, it does to one entry of it. So a property
  of documents that such a change keeps (\<open>P\<close>), and that holds of the containers on the way, is kept.
\<close>

lemma modify_keeps:
  assumes "modify_container d ps f = Some (Inr d')" and "P d"
    and "\<And>d p i e. P d \<Longrightarrow> step_child d p = Some (i, e) \<Longrightarrow> P e"
    and "\<And>d p i e e'. P d \<Longrightarrow> step_child d p = Some (i, e) \<Longrightarrow> P e' \<Longrightarrow> P (put_child d i e')"
    and "\<And>c c'. P c \<Longrightarrow> f c = Inr c' \<Longrightarrow> P c'"
  shows "P d'"
  using assms(1,2)
proof (induction d ps arbitrary: d' rule: navigate_to_container.induct)
  case (1 d)
  then show ?case using assms(5) by simp
next
  case (2 d p ps)
  then obtain i e e' where ie: "step_child d p = Some (i, e)"
    and e': "modify_container e ps f = Some (Inr e')" and d': "d' = put_child d i e'"
    by (auto simp: errs split: option.splits)
  from "2.IH" [OF ie refl e' assms(3) [OF "2.prems"(2) ie]] show ?case
    unfolding d' by (rule assms(4) [OF "2.prems"(2) ie])
qed

lemma json_ok_dget: "json_ok (JDict d) \<Longrightarrow> json_ok (dget d k)"
  by (auto simp: dget_def split: option.split dest: json_ok_map_of simp del: json_ok.simps) simp

lemma json_ok_dget_or: "json_ok (JDict d) \<Longrightarrow> json_ok (dget_or d k (JList []))"
  by (auto simp: dget_or_def split: option.split dest: json_ok_map_of simp del: json_ok.simps) simp

lemma json_ok_update: "json_ok (JList xs) \<Longrightarrow> json_ok v \<Longrightarrow> json_ok (JList (xs[i := v]))"
  using set_update_subset_insert [of xs i v] by auto

lemma json_ok_cut: "json_ok (JList xs) \<Longrightarrow> json_ok (JList (take i xs @ drop j xs))"
  unfolding json_ok.simps set_append by (meson UnE in_set_dropD in_set_takeD)

lemma json_ok_modify:
  assumes "modify_container d ps f = Some (Inr d')" and "json_ok (JDict d)"
    and "\<And>c c'. json_ok (JDict c) \<Longrightarrow> f c = Inr c' \<Longrightarrow> json_ok (JDict c')"
  shows "json_ok (JDict d')"
proof (rule modify_keeps [OF assms(1), where P = "\<lambda>d. json_ok (JDict d)"])
  fix d p i e assume d: "json_ok (JDict d)" and "step_child d p = Some (i, e)"
  then obtain xs where xs: "walk_items d = JList xs" "i < length xs" "xs ! i = JDict e" by (auto elim: step_childD)
  have ok: "json_ok (JList xs)" using json_ok_dget_or [OF d, of "walk_key d"] xs by (simp add: walk_items_def)
  with xs show "json_ok (JDict e)" by (metis json_ok.simps(1) nth_mem)
  fix e' assume "json_ok (JDict e')"
  from json_ok_update [OF ok this] have "json_ok (JList (xs[i := JDict e']))" .
  with json_ok_dset [OF d] show "json_ok (JDict (put_child d i e'))"
    unfolding put_child_def xs(1) items_of.simps by blast
qed (use assms in blast)+

lemma json_ok_set_all: "json_ok (JDict ups) \<Longrightarrow> json_ok (JDict e) \<Longrightarrow> json_ok (JDict (set_all ups e))"
proof (induction ups e rule: set_all.induct)
  case (2 k v ups e)
  from "2.prems"(1) have "json_ok (JDict ups)" and v: "json_ok v" by simp_all
  from "2.IH" [OF this(1) json_ok_dset [OF "2.prems"(2) v]] show ?case unfolding set_all.simps .
qed simp

lemma json_ok_insert_checked:
  assumes "insert_checked key s shown el c = Inr c'" and "json_ok (JDict c)" and "json_ok (JDict el)"
  shows "json_ok (JDict c')"
  using assms(1)
proof (rule insert_checkedE)
  fix xs assume "dget_or c key (JList []) = JList xs" and c': "c' = dset key (JList (xs @ [JDict el])) c"
  then have "json_ok (JList (xs @ [JDict el]))"
    using json_ok_dget_or [OF assms(2), of key] assms(3) by (auto simp del: json_ok.simps(2))
  then show ?thesis unfolding c' by (rule json_ok_dset [OF assms(2)])
qed

lemma json_ok_insert_unchecked:
  assumes "insert_unchecked key el c = Inr c'" and "json_ok (JDict c)" and "json_ok (JDict el)"
  shows "json_ok (JDict c')"
proof -
  from assms(1) obtain xs where "dget_or c key (JList []) = JList xs" and c': "c' = dset key (JList (xs @ [JDict el])) c"
    by (cases "dget_or c key (JList [])") (auto simp: insert_unchecked_def errs)
  then have "json_ok (JList (xs @ [JDict el]))"
    using json_ok_dget_or [OF assms(2), of key] assms(3) by (auto simp del: json_ok.simps(2))
  then show ?thesis unfolding c' by (rule json_ok_dset [OF assms(2)])
qed

lemma json_ok_edit:
  assumes "edit_target doc path op = Inr doc'" and "json_ok (JDict doc)"
    and "\<And>els i els'. json_ok els \<Longrightarrow> op els i = Inr els' \<Longrightarrow> json_ok els'"
  shows "json_ok (JDict doc')"
proof -
  have at: "json_ok (JDict c')" if "edit_in path key t op c = Inr c'" "json_ok (JDict c)" for key t c c'
    using that(1) by (rule edit_inE) (use json_ok_dset [OF that(2)] assms(3) json_ok_dget_or [OF that(2)] in blast)
  from assms(1) consider key t where "edit_in path key t op doc = Inr doc'"
    | parts t where "modify_container doc parts (\<lambda>c. edit_in path (if is_coll c then ''value'' else ''submodelElements'') t op c)
        = Some (Inr doc')"
    by (auto simp: edit_target_def errs split: if_splits option.splits)
  then show ?thesis
  proof cases
    case 1
    with at assms(2) show ?thesis by blast
  next
    case 2
    from json_ok_modify [OF this assms(2)] at show ?thesis by blast
  qed
qed

lemma patched_json_ok:
  assumes "json_ok (JDict ups)" and "json_ok els" and "patch_item ups els i = Inr els'"
  shows "json_ok els'"
proof (cases "\<exists>xs e. els = JList xs \<and> xs ! i = JDict e \<and> i < length xs")
  case True
  then obtain xs e where xs: "els = JList xs" "xs ! i = JDict e" "i < length xs" by blast
  with assms(2) have "json_ok (JDict e)" by (metis json_ok.simps(1) nth_mem)
  from json_ok_update [OF _ json_ok_set_all [OF assms(1) this], of xs i] assms(2,3) xs show ?thesis
    by (simp del: json_ok.simps)
next
  case False
  with assms(2,3) show ?thesis
    by (cases els) (auto simp: list_update_beyond not_less split: json.splits if_splits)
qed



text \<open>An edit reaches the top of a submodel only in its elements: every other field stays.\<close>

lemma edit_frame:
  assumes "apply_edit ed doc = Inr doc'" and "k \<notin> {''submodelElements'', ''value''}"
  shows "dget doc' k = dget doc k"
proof -
  have walk: "dget d' k = dget d k"
    if "modify_container d ps f = Some (Inr d')" "\<And>c c'. f c = Inr c' \<Longrightarrow> dget c' k = dget c k" for d d' ps f
    using that assms(2) by (cases ps) (auto simp: errs dget_put_child split: option.splits)
  have edit: "dget doc' k = dget doc k" if "edit_target doc path op = Inr doc'" for path op
    using that assms(2)
    by (auto simp: edit_target_def errs split: if_splits option.splits elim!: edit_inE dest!: walk)
  have into: "dget c' k = dget c k" if "insert_into p el c = Inr c'" for p el c c'
    using that assms(2)
    by (auto simp: insert_into_def insert_unchecked_def errs split: if_splits dest: insert_frame)
  show ?thesis
  proof (cases ed)
    case (Insert path el)
    from assms(1) [unfolded Insert apply_edit.simps]
    consider s where "insert_checked ''submodelElements'' s s el doc = Inr doc'"
      | p parts where "modify_container doc parts (insert_into p el) = Some (Inr doc')"
      by (auto simp: insert_element_def errs split: option.splits if_splits)
    then show ?thesis
    proof cases
      case 1
      with assms(2) show ?thesis by (auto dest: insert_frame)
    next
      case 2
      from walk [OF this into] show ?thesis .
    qed
  qed (use assms(1) edit in \<open>auto simp: replace_element_def patch_element_def update_element_value_def
      delete_element_def\<close>)
qed

end
