(* ===== verification/Api.thy ===== *)
theory Api
  imports Store ElementOps
begin

text \<open>
  What the request handlers share: failures and responses (\<open>src/titan/api/errors.py\<close>), the helpers of
  \<open>src/titan/api/deps.py\<close>, the fast path (\<open>src/titan/api/routing.py\<close>), partial updates of a submodel
  (\<open>src/titan/api/submodel_update_utils.py\<close>) and attachments (\<open>src/titan/api/attachment_utils.py\<close>).

  A handler is a function on the state all requests share; a failure keeps what was done to the state
  before it. The texts of the error messages are left out, and exceptions of Redis, of the event bus
  and of the connection to the database.
\<close>

section \<open>Failures and responses\<close>

datatype failure =
    NotFound string "nat list"
  | Conflict string "nat list"
  | BadRequest
  | InvalidBase64
  | PreconditionFailed
  | Unhandled repo_error

fun status_code :: "failure \<Rightarrow> nat" where
  "status_code (NotFound r i) = 404"
| "status_code (Conflict r i) = 409"
| "status_code BadRequest = 400"
| "status_code InvalidBase64 = 400"
| "status_code PreconditionFailed = 412"
| "status_code (Unhandled e) = 500"

datatype http_body = Empty | Json json | Bytes "nat list" string

record response =
  http_status :: nat
  http_body :: http_body
  http_etag :: "string option"
  http_location :: "string option"

definition json_response :: "json \<Rightarrow> response" where
  "json_response j = \<lparr>http_status = 200, http_body = Json j, http_etag = None, http_location = None\<rparr>"

section \<open>Handlers\<close>

text \<open>Over a state \<open>'w\<close>; \<open>handler\<close> is the one over the state of shells and submodels.\<close>

type_synonym ('w, 'a) act = "'w \<Rightarrow> 'w \<times> (failure + 'a)"

type_synonym ('s, 'a) handler = "('s world, 'a) act"

definition retH :: "'a \<Rightarrow> ('w, 'a) act" where
  "retH a w = (w, Inr a)"

definition failH :: "failure \<Rightarrow> ('w, 'a) act" where
  "failH f w = (w, Inl f)"

definition bindH :: "('w, 'a) act \<Rightarrow> ('a \<Rightarrow> ('w, 'b) act) \<Rightarrow> ('w, 'b) act" where
  "bindH m f w = (case m w of (w', Inl e) \<Rightarrow> (w', Inl e) | (w', Inr a) \<Rightarrow> f a w')"

text \<open>Reading the session's view of the database, and changing the rest of the state.\<close>

definition readH :: "(database \<Rightarrow> 'a) \<Rightarrow> ('s, 'a) handler" where
  "readH f w = (w, Inr (f (tx w)))"

definition cacheH :: "('s \<Rightarrow> 'a) \<Rightarrow> ('s, 'a) handler" where
  "cacheH f w = (w, Inr (f (cache w)))"

definition set_cache :: "('s \<Rightarrow> 's) \<Rightarrow> ('s, unit) handler" where
  "set_cache f w = (w\<lparr>cache := f (cache w)\<rparr>, Inr ())"

definition publish :: "published \<Rightarrow> ('s, unit) handler" where
  "publish e w = (w\<lparr>bus := bus w @ [e]\<rparr>, Inr ())"

definition commit :: "('s, unit) handler" where
  "commit w = (w\<lparr>db := tx w\<rparr>, Inr ())"

text \<open>An exception of the repository that the handler does not catch, or catches as a ValueError.\<close>

definition repoH :: "('s, 'a) action \<Rightarrow> ('s, 'a) handler" where
  "repoH m w = (case m w of (w', Inl e) \<Rightarrow> (w', Inl (Unhandled e)) | (w', Inr a) \<Rightarrow> (w', Inr a))"

fun as_bad_request :: "repo_error \<Rightarrow> failure" where
  "as_bad_request (Python ValueError) = BadRequest"
| "as_bad_request e = Unhandled e"

definition catchH :: "('s, 'a) action \<Rightarrow> ('s, 'a) handler" where
  "catchH m w = (case m w of (w', Inl e) \<Rightarrow> (w', Inl (as_bad_request e)) | (w', Inr a) \<Rightarrow> (w', Inr a))"

text \<open>A computation that does not touch the state.\<close>

definition pureH :: "py_exn + 'a \<Rightarrow> ('w, 'a) act" where
  "pureH m w = (w, liftE (\<lambda>e. Unhandled (Python e)) m)"

text \<open>
  A request: its session sees the committed database; what it has not committed is rolled back when
  the session closes.
\<close>

definition run_request :: "('s, 'a) handler \<Rightarrow> 's world \<Rightarrow> 's world \<times> (failure + 'a)" where
  "run_request h w = (case h (w\<lparr>tx := db w\<rparr>) of (w', r) \<Rightarrow> (w'\<lparr>tx := db w'\<rparr>, r))"

named_theorems handlers \<open>running a handler\<close>

declare retH_def [handlers] failH_def [handlers] bindH_def [handlers] readH_def [handlers]
  cacheH_def [handlers] set_cache_def [handlers] publish_def [handlers] commit_def [handlers]
  repoH_def [handlers] catchH_def [handlers] pureH_def [handlers]

section \<open>Identifiers and entity tags\<close>

definition decode_identifier :: "string \<Rightarrow> ('w, nat list) act" where
  "decode_identifier raw = (case decode_id_from_b64url raw of Inl _ \<Rightarrow> failH InvalidBase64 | Inr i \<Rightarrow> retH i)"

definition quote :: char where "quote = CHR 0x22"

definition strip_quotes :: "string \<Rightarrow> string" where
  "strip_quotes s = rev (dropWhile (\<lambda>c. c = quote) (rev (dropWhile (\<lambda>c. c = quote) s)))"

definition quoted :: "string \<Rightarrow> string" where
  "quoted e = quote # e @ [quote]"

text \<open>A header that is present and not empty, compared without its quotes.\<close>

definition not_modified :: "string option \<Rightarrow> string \<Rightarrow> bool" where
  "not_modified if_none_match e =
     (case if_none_match of None \<Rightarrow> False | Some h \<Rightarrow> h \<noteq> [] \<and> strip_quotes h = e)"

definition response_304 :: response where
  "response_304 = \<lparr>http_status = 304, http_body = Empty, http_etag = None, http_location = None\<rparr>"

definition check_precondition :: "string option \<Rightarrow> string \<Rightarrow> ('w, unit) act" where
  "check_precondition if_match e =
     (case if_match of
        None \<Rightarrow> retH ()
      | Some h \<Rightarrow> if h \<noteq> [] \<and> strip_quotes h \<noteq> e then failH PreconditionFailed else retH ())"

definition json_response_with_etag :: "json \<Rightarrow> string \<Rightarrow> nat \<Rightarrow> string option \<Rightarrow> response" where
  "json_response_with_etag j e st loc =
     \<lparr>http_status = st, http_body = Json j, http_etag = Some (quoted e),
      http_location = (if loc = Some [] then None else loc)\<rparr>"

definition no_content_response :: "string \<Rightarrow> response" where
  "no_content_response e =
     \<lparr>http_status = 204, http_body = Empty, http_etag = Some (quoted e), http_location = None\<rparr>"

definition response_204 :: response where
  "response_204 = \<lparr>http_status = 204, http_body = Empty, http_etag = None, http_location = None\<rparr>"

section \<open>The fast path\<close>

record http_query =
  q_path :: string
  q_level :: "string option"
  q_extent :: "string option"
  q_content :: "string option"

definition slow_suffixes :: "string list" where
  "slow_suffixes = [''/$value'', ''/$metadata'', ''/$reference'', ''/$path'']"

definition is_fast_path :: "http_query \<Rightarrow> bool" where
  "is_fast_path q =
     (q_level q = None \<and> q_extent q = None \<and> q_content q = None \<and>
      \<not> list_ex (\<lambda>s. suffix s (q_path q)) slow_suffixes)"

definition modifiers_of :: "http_query \<Rightarrow> modifiers option" where
  "modifiers_of q = Some (projection_modifiers (q_level q) (q_extent q) (q_content q))"

section \<open>Partial updates of a submodel\<close>

definition submodel_metadata_fields :: "string list" where
  "submodel_metadata_fields =
     [''idShort'', ''description'', ''displayName'', ''category'', ''administration'', ''kind'',
      ''semanticId'', ''supplementalSemanticIds'', ''qualifiers'', ''extensions'',
      ''embeddedDataSpecifications'']"

fun set_or_pop :: "obj \<Rightarrow> obj \<Rightarrow> obj" where
  "set_or_pop [] d = d"
| "set_or_pop ((k, v) # ups) d = set_or_pop ups (if v = JNull then dpop k d else dset k v d)"

definition apply_submodel_metadata_patch :: "obj \<Rightarrow> json \<Rightarrow> failure + obj" where
  "apply_submodel_metadata_patch doc updates =
     (case updates of
        JDict ups \<Rightarrow>
          if \<not> set (map fst ups) \<subseteq> set submodel_metadata_fields then Inl BadRequest
          else Inr (set_or_pop ups doc)
      | _ \<Rightarrow> Inl BadRequest)"

text \<open>
  Errors of the element operations as the handlers translate them. \<open>catches\<close>: also a ValueError, such
  as that of a path that does not parse.
\<close>

fun element_failure :: "bool \<Rightarrow> string \<Rightarrow> elem_error \<Rightarrow> failure" where
  "element_failure catches path (ElementNotFound _) = NotFound ''SubmodelElement'' (code_points path)"
| "element_failure catches path (ElementExists p) = Conflict ''SubmodelElement'' (code_points p)"
| "element_failure catches path (InvalidPath _ _) = BadRequest"
| "element_failure catches path (Py e) =
     (if catches \<and> e = ValueError then BadRequest else Unhandled (Python e))"

fun value_patch :: "obj \<Rightarrow> obj \<Rightarrow> failure + obj" where
  "value_patch doc [] = Inr doc"
| "value_patch doc ((path, v) # ups) =
     bindE (liftE (element_failure False path) (update_element_value doc path v))
       (\<lambda>doc'. value_patch doc' ups)"

definition apply_submodel_value_patch :: "obj \<Rightarrow> json \<Rightarrow> failure + obj" where
  "apply_submodel_value_patch doc vals =
     (case vals of JDict ups \<Rightarrow> value_patch doc ups | _ \<Rightarrow> Inl BadRequest)"

section \<open>Attachments\<close>

text \<open>
  The element that navigation finds is changed inside the document; \<open>f\<close> is the change. \<open>None\<close>: there
  is no such element.
\<close>

definition nested_key :: "obj \<Rightarrow> string" where
  "nested_key d =
     (if truthy (dget d ''submodelElements'') then ''submodelElements''
      else if truthy (dget d ''value'') then ''value''
      else if truthy (dget d ''statements'') then ''statements'' else ''annotations'')"

definition nested_index :: "obj \<Rightarrow> part \<Rightarrow> (nat \<times> obj) option" where
  "nested_index d p =
     (case nested_elements d of
        JList xs \<Rightarrow>
          (case step_index xs p of
             None \<Rightarrow> None
           | Some i \<Rightarrow> (case xs ! i of JDict e \<Rightarrow> Some (i, e) | _ \<Rightarrow> None))
      | _ \<Rightarrow> None)"

fun change_at :: "obj \<Rightarrow> part list \<Rightarrow> (obj \<Rightarrow> 'e + obj) \<Rightarrow> ('e + obj) option" where
  "change_at d [] f = Some (f d)"
| "change_at d (p # ps) f =
     (case nested_index d p of
        None \<Rightarrow> None
      | Some (i, e) \<Rightarrow>
          map_option (\<lambda>r. bindE r (\<lambda>e'.
             Inr (dset (nested_key d) (JList ((items_of (nested_elements d))[i := JDict e'])) d)))
            (change_at e ps f))"

definition change_element :: "obj \<Rightarrow> string \<Rightarrow> (obj \<Rightarrow> failure + obj) \<Rightarrow> failure + obj" where
  "change_element doc path f =
     (if path = [] then f doc
      else bindE (liftE (\<lambda>e. Unhandled (Python e)) (parse_id_short_path path)) (\<lambda>parts.
        case change_at doc parts f of
          None \<Rightarrow> Inl (NotFound ''SubmodelElement'' (code_points path))
        | Some r \<Rightarrow> r))"

definition is_attachment :: "obj \<Rightarrow> bool" where
  "is_attachment e = (dget e ''modelType'' \<in> {JStr ''Blob'', JStr ''File''})"

text \<open>\<open>base64.b64encode(content)\<close>.\<close>

definition b64encode :: "nat list \<Rightarrow> string" where
  "b64encode bs =
     (let ss = sextets bs in map (\<lambda>n. std_alphabet ! n) ss @ replicate ((4 - length ss mod 4) mod 4) (CHR ''=''))"

text \<open>\<open>content_type or element.get("contentType") or default\<close>; a true value of the element is a string.\<close>

definition resolved_type :: "obj \<Rightarrow> string option \<Rightarrow> failure + string" where
  "resolved_type e ct =
     (case ct of
        Some (c # cs) \<Rightarrow> Inr (c # cs)
      | _ \<Rightarrow> liftE (\<lambda>x. Unhandled (Python x)) (content_type e default_type))"

definition apply_attachment_payload :: "nat list \<Rightarrow> string option \<Rightarrow> obj \<Rightarrow> failure + obj" where
  "apply_attachment_payload bs ct e =
     (if bs = [] then Inl BadRequest
      else bindE (resolved_type e ct) (\<lambda>t.
        if dget e ''modelType'' = JStr ''Blob'' then
          Inr (dset ''value'' (JStr (b64encode bs)) (dset ''contentType'' (JStr t) e))
        else if dget e ''modelType'' = JStr ''File'' then
          Inr (dset ''value'' (JStr (''data:'' @ t @ '';base64,'' @ b64encode bs)) (dset ''contentType'' (JStr t) e))
        else Inl BadRequest))"

definition clear_attachment_payload :: "obj \<Rightarrow> failure + obj" where
  "clear_attachment_payload e =
     (if \<not> is_attachment e then Inl BadRequest else Inr (dset ''value'' JNull e))"

definition bytes_response :: "nat list \<Rightarrow> string \<Rightarrow> response" where
  "bytes_response bs ct = \<lparr>http_status = 200, http_body = Bytes bs ct, http_etag = None, http_location = None\<rparr>"

text \<open>
  The body of a stored blob is streamed after the handler has returned; a blob whose content is gone
  from the storage has no body. The name of the file is left out.
\<close>

definition stream_blob_by_id :: "string \<Rightarrow> ('s, response) handler" where
  "stream_blob_by_id i w =
     (case find (\<lambda>b. b_id b = i) (assets (tx w)) of
        None \<Rightarrow> (w, Inl (NotFound ''Blob'' (code_points i)))
      | Some b \<Rightarrow>
          (w, Inr (case objects w i of
             Some bs \<Rightarrow> bytes_response bs (b_type b)
           | None \<Rightarrow> \<lparr>http_status = 200, http_body = Empty, http_etag = None, http_location = None\<rparr>)))"

definition build_attachment_response :: "string \<Rightarrow> string \<Rightarrow> ('s, response) handler" where
  "build_attachment_response v ct =
     (if prefix blob_prefix v then stream_blob_by_id (drop (length blob_prefix) v)
      else case data_uri v of
        Inl e \<Rightarrow> failH (Unhandled (Python e))
      | Inr (Some (bs, inferred)) \<Rightarrow> retH (bytes_response bs (if ct = [] then inferred else ct))
      | Inr None \<Rightarrow>
          if prefix ''http://'' v \<or> prefix ''https://'' v then
            retH \<lparr>http_status = 302, http_body = Empty, http_etag = None, http_location = Some v\<rparr>
          else (case b64decode v of
             None \<Rightarrow> failH BadRequest
           | Some bs \<Rightarrow> retH (bytes_response bs (if ct = [] then default_type else ct))))"

section \<open>Reasoning about handlers\<close>

text \<open>
  \<open>triple P h Q R\<close>: from a state with \<open>P\<close> the handler returns in a state with \<open>Q\<close> of its result, or
  fails in a state with \<open>R\<close> of the failure.
\<close>

definition triple ::
  "('w \<Rightarrow> bool) \<Rightarrow> ('w, 'a) act \<Rightarrow> ('a \<Rightarrow> 'w \<Rightarrow> bool) \<Rightarrow> (failure \<Rightarrow> 'w \<Rightarrow> bool) \<Rightarrow> bool" where
  "triple P h Q R = (\<forall>w. P w \<longrightarrow> (case h w of (w', Inl e) \<Rightarrow> R e w' | (w', Inr a) \<Rightarrow> Q a w'))"

named_theorems triples \<open>triples of the steps of the handlers\<close>

lemma tripleI:
  assumes "\<And>w w' a. P w \<Longrightarrow> h w = (w', Inr a) \<Longrightarrow> Q a w'"
    and "\<And>w w' e. P w \<Longrightarrow> h w = (w', Inl e) \<Longrightarrow> R e w'"
  shows "triple P h Q R"
  using assms by (auto simp: triple_def split: sum.split)

lemma triple_Inr: "triple P h Q R \<Longrightarrow> P w \<Longrightarrow> h w = (w', Inr a) \<Longrightarrow> Q a w'"
  by (fastforce simp: triple_def)

lemma triple_Inl: "triple P h Q R \<Longrightarrow> P w \<Longrightarrow> h w = (w', Inl e) \<Longrightarrow> R e w'"
  by (fastforce simp: triple_def)

lemma triple_weaken:
  assumes "triple P h Q R" and "\<And>w. P' w \<Longrightarrow> P w" and "\<And>a w. Q a w \<Longrightarrow> Q' a w" and "\<And>e w. R e w \<Longrightarrow> R' e w"
  shows "triple P' h Q' R'"
  using assms by (fastforce simp: triple_def split: sum.splits)

lemma triple_bind:
  assumes "triple P m Q' R" and "\<And>a. triple (Q' a) (f a) Q R"
  shows "triple P (bindH m f) Q R"
  using assms by (fastforce simp: triple_def bindH_def split: sum.splits prod.splits)

lemma triple_ret: "(\<And>w. P w \<Longrightarrow> Q a w) \<Longrightarrow> triple P (retH a) Q R"
  by (simp add: triple_def retH_def)

lemma triple_fail: "(\<And>w. P w \<Longrightarrow> R f w) \<Longrightarrow> triple P (failH f) Q R"
  by (simp add: triple_def failH_def)

lemma triple_pure:
  "(\<And>w a. m = Inr a \<Longrightarrow> P w \<Longrightarrow> Q a w) \<Longrightarrow> (\<And>w e. P w \<Longrightarrow> R (Unhandled (Python e)) w) \<Longrightarrow>
   triple P (pureH m) Q R"
  by (cases m) (simp_all add: triple_def pureH_def)

lemma triple_read: "triple P (readH f) (\<lambda>a w. P w \<and> a = f (tx w)) R"
  by (simp add: triple_def readH_def)

lemma triple_cache: "triple P (cacheH f) (\<lambda>a w. P w \<and> a = f (cache w)) R"
  by (simp add: triple_def cacheH_def)

lemma triple_decode:
  "(\<And>w. P w \<Longrightarrow> R InvalidBase64 w) \<Longrightarrow>
   triple P (decode_identifier raw) (\<lambda>i w. P w \<and> decode_id_from_b64url raw = Inr i) R"
  by (auto simp: triple_def decode_identifier_def retH_def failH_def split: sum.split)

lemma triple_precondition:
  "(\<And>w. P w \<Longrightarrow> R PreconditionFailed w) \<Longrightarrow> triple P (check_precondition h e) (\<lambda>_. P) R"
  by (auto simp: triple_def check_precondition_def retH_def failH_def split: option.split)

text \<open>A handler that keeps an invariant of the state \<open>I\<close> does so as a request.\<close>

lemma run_request_fst: "fst (run_request h w) = (fst (h (w\<lparr>tx := db w\<rparr>)))\<lparr>tx := db (fst (h (w\<lparr>tx := db w\<rparr>)))\<rparr>"
  by (simp add: run_request_def split: prod.split)

lemma run_request_snd: "snd (run_request h w) = snd (h (w\<lparr>tx := db w\<rparr>))"
  by (simp add: run_request_def split: prod.split)

text \<open>Case distinctions of a handler.\<close>

lemma triple_option:
  assumes "x = None \<Longrightarrow> triple P f Q R" and "\<And>y. x = Some y \<Longrightarrow> triple P (g y) Q R"
  shows "triple P (case x of None \<Rightarrow> f | Some y \<Rightarrow> g y) Q R"
  using assms by (cases x) auto

lemma triple_sum:
  assumes "\<And>y. x = Inl y \<Longrightarrow> triple P (f y) Q R" and "\<And>y. x = Inr y \<Longrightarrow> triple P (g y) Q R"
  shows "triple P (case x of Inl y \<Rightarrow> f y | Inr y \<Rightarrow> g y) Q R"
  using assms by (cases x) auto

lemma triple_prod: "(\<And>a b. x = (a, b) \<Longrightarrow> triple P (f a b) Q R) \<Longrightarrow> triple P (case x of (a, b) \<Rightarrow> f a b) Q R"
  by (cases x) auto

lemma triple_if: "(c \<Longrightarrow> triple P f Q R) \<Longrightarrow> (\<not> c \<Longrightarrow> triple P g Q R) \<Longrightarrow> triple P (if c then f else g) Q R"
  by simp

text \<open>A fact of the precondition, for the cases of a handler that depend on it.\<close>

lemma triple_assume: "(\<And>w. P w \<Longrightarrow> F) \<Longrightarrow> (F \<Longrightarrow> triple P h Q R) \<Longrightarrow> triple P h Q R"
  by (auto simp: triple_def)

lemma triple_option_pre:
  assumes "triple P f Q R" and "\<And>y. triple (P' y) (g y) Q R"
  shows "triple (\<lambda>w. case x of None \<Rightarrow> P w | Some y \<Rightarrow> P' y w) (case x of None \<Rightarrow> f | Some y \<Rightarrow> g y) Q R"
  using assms by (cases x) auto

lemma triple_prod_pre:
  assumes "\<And>a b. triple (P (a, b)) (f a b) Q R"
  shows "triple (P x) (case x of (a, b) \<Rightarrow> f a b) Q R"
  using assms by (cases x) auto

lemma triple_conj: "(F \<Longrightarrow> triple P h Q R) \<Longrightarrow> triple (\<lambda>w. P w \<and> F) h Q R"
  by (auto simp: triple_def)

lemma triple_fails: "(\<And>f w. P w \<Longrightarrow> R f w) \<Longrightarrow> triple P (failH f) Q R"
  by (simp add: triple_def failH_def)

section \<open>Tables and caches that agree\<close>

text \<open>
  \<open>canonical seg i\<close>: the segment is the encoding of the identifier it names. What the cache holds
  under such a segment is what the database holds: the document with its ETag, and the values of
  elements.
\<close>

definition canonical :: "string \<Rightarrow> nat list \<Rightarrow> bool" where
  "canonical seg i = (decode_id_from_b64url seg = Inr i \<and> b64_of i = seg)"

definition shells_fresh :: "'s env \<Rightarrow> database \<Rightarrow> 's \<Rightarrow> bool" where
  "shells_fresh E t s =
     (\<forall>seg i p. canonical seg i \<longrightarrow> get_aas (redis E) seg s = Some p \<longrightarrow> get_bytes_by_id i (shells t) = Some p)"

definition submodels_fresh :: "'s env \<Rightarrow> database \<Rightarrow> 's \<Rightarrow> bool" where
  "submodels_fresh E t s =
     (\<forall>seg i p. canonical seg i \<longrightarrow> get_submodel (redis E) seg s = Some p \<longrightarrow>
        get_bytes_by_id i (submodels t) = Some p)"

definition value_of :: "database \<Rightarrow> nat list \<Rightarrow> string \<Rightarrow> json \<Rightarrow> bool" where
  "value_of t i path v =
     (\<exists>d e x. get_bytes_by_id i (submodels t) = Some (d, e) \<and> navigate_id_short_path d path = Inr (Some x) \<and>
        extract_value x = Inr v)"

definition values_fresh :: "'s env \<Rightarrow> database \<Rightarrow> 's \<Rightarrow> bool" where
  "values_fresh E t s =
     (\<forall>seg i path v. canonical seg i \<longrightarrow> Cache.get_element_value (redis E) seg path s = Some v \<longrightarrow> value_of t i path v)"

definition tables_ok :: "'s env \<Rightarrow> nat \<Rightarrow> database \<Rightarrow> bool" where
  "tables_ok E n t = (rows_ok E n (shells t) \<and> rows_ok E n (submodels t))"

text \<open>
  The published events, replayed in order, say what the database holds: \<open>content_of\<close> is what an event
  says is stored under its identifier.
\<close>

definition content_of :: "published \<Rightarrow> (obj \<times> string) option" where
  "content_of ev = (case (ev_doc ev, ev_etag ev) of (Some d, Some e) \<Rightarrow> Some (d, e) | _ \<Rightarrow> None)"

definition replay :: "bool \<Rightarrow> nat list \<Rightarrow> published list \<Rightarrow> (obj \<times> string) option" where
  "replay sh i evs = fold (\<lambda>ev p. if ev_shell ev = sh \<and> ev_id ev = i then content_of ev else p) evs None"

definition logged :: "database \<Rightarrow> published list \<Rightarrow> bool" where
  "logged D B =
     (\<forall>i. replay False i B = get_bytes_by_id i (submodels D) \<and> replay True i B = get_bytes_by_id i (shells D))"

lemma replay_append: "replay sh i (B @ [ev]) = (if ev_shell ev = sh \<and> ev_id ev = i then content_of ev else replay sh i B)"
  by (simp add: replay_def)

lemma logged_submodel:
  assumes "logged D B" and "\<not> ev_shell ev" and "shells D' = shells D"
    and "\<And>j. get_bytes_by_id j (submodels D') = (if j = ev_id ev then content_of ev else get_bytes_by_id j (submodels D))"
  shows "logged D' (B @ [ev])"
  using assms by (simp add: logged_def replay_append)

lemma logged_shell:
  assumes "logged D B" and "ev_shell ev" and "submodels D' = submodels D"
    and "\<And>j. get_bytes_by_id j (shells D') = (if j = ev_id ev then content_of ev else get_bytes_by_id j (shells D))"
  shows "logged D' (B @ [ev])"
  using assms by (simp add: logged_def replay_append)

definition store_ok :: "'s env \<Rightarrow> 's world \<Rightarrow> bool" where
  "store_ok E w =
     (tables_ok E (serial w) (db w) \<and> logged (db w) (bus w) \<and> shells_fresh E (db w) (cache w) \<and>
      submodels_fresh E (db w) (cache w) \<and> values_fresh E (db w) (cache w))"

text \<open>The state a request starts in.\<close>

definition session :: "'s env \<Rightarrow> 's world \<Rightarrow> bool" where
  "session E w = (store_ok E w \<and> tx w = db w)"

text \<open>
  What the model needs of the code it does not contain: Redis keeps what it is told, fresh row keys
  differ, and validation keeps the identifier of a document.
\<close>

definition env_ok :: "'s env \<Rightarrow> bool" where
  "env_ok E =
     (kv_ok (redis E) \<and> inj (uuid_of E) \<and>
      (\<forall>d m. valid_submodel E d = Inr m \<longrightarrow> id_of m = id_of d) \<and>
      (\<forall>d m. valid_shell E d = Inr m \<longrightarrow> id_of m = id_of d))"

lemma decode_b64_of: "decode_id_from_b64url (b64_of i) = Inr j \<Longrightarrow> j = i"
proof -
  assume dec: "decode_id_from_b64url (b64_of i) = Inr j"
  then have "b64_of i \<noteq> []" by (auto simp: decode_id_from_b64url_def)
  then obtain v where v: "encode_id_to_b64url i = Some v" "b64_of i = v"
    by (auto simp: b64_of_def split: option.splits)
  with \<open>b64_of i \<noteq> []\<close> have "i \<noteq> []" by (auto simp: encode_id_to_b64url_def)
  from decode_encoded [OF v(1) this] dec v(2) show "j = i" by simp
qed

lemma canonical_colon_free: "canonical seg i \<Longrightarrow> colon_free seg"
  unfolding canonical_def using alphabet_colon_free decoded_alphabet by metis

lemma canonical_eq: "canonical seg i \<Longrightarrow> canonical seg' j \<Longrightarrow> seg = seg' \<longleftrightarrow> i = j"
  unfolding canonical_def by (metis sum.inject(2))

lemma canonical_b64_of: "canonical seg i \<Longrightarrow> seg = b64_of j \<longleftrightarrow> i = j"
  unfolding canonical_def by (metis decode_b64_of)

lemma session_store: "session E w \<Longrightarrow> store_ok E w"
  by (simp add: session_def)

lemma triple_repo:
  assumes "\<And>w w' a. P w \<Longrightarrow> m w = (w', Inr a) \<Longrightarrow> Q a w'"
    and "\<And>w w' e f. P w \<Longrightarrow> m w = (w', Inl e) \<Longrightarrow> R f w'"
  shows "triple P (repoH m) Q R" and "triple P (catchH m) Q R"
  using assms by (auto simp: triple_def repoH_def catchH_def split: prod.split sum.split)

lemma store_ok_quiet: "store_ok E w \<Longrightarrow> quiet w w' \<Longrightarrow> store_ok E w'"
  by (auto simp: store_ok_def tables_ok_def quiet_def intro: rows_ok_mono)

text \<open>
  Between the flush and the commit: the session's view differs from the database in one submodel (or
  one shell), which is \<open>p\<close> there.
\<close>

definition changed_submodel :: "'s env \<Rightarrow> nat list \<Rightarrow> (obj \<times> string) option \<Rightarrow> 's world \<Rightarrow> bool" where
  "changed_submodel E i p w =
     (store_ok E w \<and> tables_ok E (serial w) (tx w) \<and> shells (tx w) = shells (db w) \<and>
      (\<forall>j. get_bytes_by_id j (submodels (tx w)) =
           (if j = i then p else get_bytes_by_id j (submodels (db w)))))"

definition changed_shell :: "'s env \<Rightarrow> nat list \<Rightarrow> (obj \<times> string) option \<Rightarrow> 's world \<Rightarrow> bool" where
  "changed_shell E i p w =
     (store_ok E w \<and> tables_ok E (serial w) (tx w) \<and> submodels (tx w) = submodels (db w) \<and>
      (\<forall>j. get_bytes_by_id j (shells (tx w)) =
           (if j = i then p else get_bytes_by_id j (shells (db w)))))"

text \<open>A row that an operation has written is well formed.\<close>

lemma row_of_ok: "row_of E r m d e r' \<Longrightarrow> \<exists>k<n. row_id r = uuid_of E k \<Longrightarrow> row_ok E n r'"
  by (auto simp: row_of_def row_ok_def)

lemma new_row_id: "\<exists>k<Suc n. row_id (new_row E n m) = uuid_of E k"
  by (auto simp: new_row_def)

lemma update_rows:
  assumes "rows_ok E n rows" and "row_by_id i rows = Some r" and "row_of E r m d e r'" and "\<not> clashes r' rows"
    and "id_of m = i"
  shows "rows_ok E n (replace_row r' rows)"
    and "get_bytes_by_id j (replace_row r' rows) = (if j = i then Some (d, e) else get_bytes_by_id j rows)"
proof -
  from assms have "r \<in> set rows" "row_ok E n r" using row_by_idD [OF assms(2)] by (auto simp: rows_ok_def)
  then have "row_ok E n r'" using row_of_ok [OF assms(3)] by (auto simp: row_ok_def)
  with assms \<open>r \<in> set rows\<close> show "rows_ok E n (replace_row r' rows)"
    by (intro rows_ok_replace [of _ _ _ r]) (auto simp: row_of_def)
  show "get_bytes_by_id j (replace_row r' rows) = (if j = i then Some (d, e) else get_bytes_by_id j rows)"
    using get_after_replace [OF assms(1,2), of r' j] assms(3,5) by (auto simp: row_of_def)
qed

lemma create_rows:
  assumes "rows_ok E n rows" and "inj (uuid_of E)" and "row_of E (new_row E n m) m d e r" and "\<not> clashes r rows"
    and "id_of m = i"
  shows "rows_ok E (Suc n) (rows @ [r])"
    and "get_bytes_by_id j (rows @ [r]) = (if j = i then Some (d, e) else get_bytes_by_id j rows)"
proof -
  have id: "row_id r = uuid_of E n" using assms(3) by (simp add: row_of_def new_row_def)
  show ok: "rows_ok E (Suc n) (rows @ [r])"
    by (rule rows_ok_append [OF assms(1,2,4) row_of_ok [OF assms(3) new_row_id] id])
  then have "i \<notin> row_ident ` set rows" using assms(3,5) by (auto simp: rows_ok_def row_of_def)
  then show "get_bytes_by_id j (rows @ [r]) = (if j = i then Some (d, e) else get_bytes_by_id j rows)"
    using get_after_append [of i rows j r] assms(3,5) by (simp add: row_of_def)
qed

lemma submodel_update_changes:
  assumes "session E w" and "id_of m = i" and "submodel_update E i m w = (w', Inr (Some (d, e)))"
  shows "changed_submodel E i (Some (d, e)) w'"
proof -
  from submodel_update_effect(5) [OF assms(3) refl] obtain r r' as where
    r: "row_by_id i (submodels (tx w)) = Some r" "row_of E r m d e r'" "\<not> clashes r' (submodels (tx w))"
    and tx': "tx w' = (tx w)\<lparr>submodels := replace_row r' (submodels (tx w)), assets := as\<rparr>" by blast
  have ok: "tables_ok E (serial w) (db w)" "tx w = db w" using assms(1) by (simp_all add: session_def store_ok_def)
  then have rows: "rows_ok E (serial w) (submodels (tx w))" by (simp add: tables_ok_def)
  note new = update_rows [OF rows r assms(2)]
  show ?thesis
    using new ok tx' submodel_update_effect(1,2) [OF assms(3)] store_ok_quiet [OF session_store [OF assms(1)]]
    by (simp add: changed_submodel_def tables_ok_def quiet_def)
qed

lemma submodel_create_changes:
  assumes "session E w" and "env_ok E" and "id_of m = i" and "submodel_create E m w = (w', Inr (d, e))"
  shows "changed_submodel E i (Some (d, e)) w'"
proof -
  from submodel_create_effect(4) [OF assms(4) refl] obtain r as where
    r: "row_of E (new_row E (serial w) m) m d e r" "\<not> clashes r (submodels (tx w))"
    and tx': "tx w' = (tx w)\<lparr>submodels := submodels (tx w) @ [r], assets := as\<rparr>" by blast
  have ok: "tables_ok E (serial w) (db w)" "tx w = db w" using assms(1) by (simp_all add: session_def store_ok_def)
  then have rows: "rows_ok E (serial w) (submodels (tx w))" by (simp add: tables_ok_def)
  have inj: "inj (uuid_of E)" using assms(2) by (simp add: env_ok_def)
  note new = create_rows [OF rows inj r assms(3)]
  have sh: "rows_ok E (Suc (serial w)) (shells (db w))" using ok by (auto simp: tables_ok_def intro: rows_ok_mono)
  show ?thesis
    using new ok sh tx' submodel_create_effect(1,2) [OF assms(4)] store_ok_quiet [OF session_store [OF assms(1)]]
    by (simp add: changed_submodel_def tables_ok_def quiet_def)
qed

lemma submodel_delete_changes:
  assumes "session E w" and "submodel_delete i w = (w', Inr True)"
  shows "changed_submodel E i None w'"
proof -
  from submodel_delete_effect(5) [OF assms(2) refl] obtain r where
    r: "row_by_id i (submodels (tx w)) = Some r"
    and tx': "tx w' = (tx w)\<lparr>submodels := remove_row r (submodels (tx w))\<rparr>" by blast
  have ok: "tables_ok E (serial w) (db w)" "tx w = db w" using assms(1) by (simp_all add: session_def store_ok_def)
  then have rows: "rows_ok E (serial w) (submodels (tx w))" by (simp add: tables_ok_def)
  show ?thesis
    using rows_ok_remove [OF rows] get_after_remove [OF rows r] ok tx' submodel_delete_effect(1,2) [OF assms(2)]
      store_ok_quiet [OF session_store [OF assms(1)]]
    by (simp add: changed_submodel_def tables_ok_def quiet_def)
qed

text \<open>The caches after the write.\<close>

lemma submodel_cached:
  assumes E: "env_ok E" and seg: "canonical seg i"
    and fresh: "shells_fresh E t s" "submodels_fresh E t s" "values_fresh E t s"
    and same: "shells t' = shells t"
    and get: "\<And>j. get_bytes_by_id j (submodels t') = (if j = i then p else get_bytes_by_id j (submodels t))"
    and s1: "s1 = (case p of None \<Rightarrow> delete_submodel (redis E) seg s | Some (d, e) \<Rightarrow> set_submodel (redis E) seg d e s)"
  shows "shells_fresh E t' (invalidate_submodel_elements (redis E) seg s1)"
    and "submodels_fresh E t' (invalidate_submodel_elements (redis E) seg s1)"
    and "values_fresh E t' (invalidate_submodel_elements (redis E) seg s1)"
proof -
  have K: "kv_ok (redis E)" using E by (simp add: env_ok_def)
  note cf = canonical_colon_free
  have sm: "get_submodel (redis E) seg' (invalidate_submodel_elements (redis E) seg s1) =
    (if seg' = seg then p else get_submodel (redis E) seg' s)" if "canonical seg' j" for seg' j
    using get_submodel_after(6) [OF K cf [OF that] cf [OF seg]] by (cases p) (auto simp: s1 cached [OF K])
  have sh: "get_aas (redis E) seg' (invalidate_submodel_elements (redis E) seg s1) = get_aas (redis E) seg' s"
    if "canonical seg' j" for seg' j
    using get_aas_after(6) [OF K cf [OF that] cf [OF seg]] by (cases p) (auto simp: s1 cached [OF K])
  have val: "Cache.get_element_value (redis E) seg' path (invalidate_submodel_elements (redis E) seg s1) =
    (if seg' = seg then None else Cache.get_element_value (redis E) seg' path s)" if "canonical seg' j" for seg' j path
    using get_element_after(5) [OF K cf [OF that] cf [OF seg]] by (cases p) (auto simp: s1 cached [OF K])
  show "shells_fresh E t' (invalidate_submodel_elements (redis E) seg s1)"
    using fresh(1) sh same by (simp add: shells_fresh_def)
  show "submodels_fresh E t' (invalidate_submodel_elements (redis E) seg s1)"
    using fresh(2) sm get seg canonical_eq [OF _ seg] unfolding submodels_fresh_def by (simp split: if_splits)
  show "values_fresh E t' (invalidate_submodel_elements (redis E) seg s1)"
    using fresh(3) val get seg canonical_eq [OF _ seg] unfolding values_fresh_def value_of_def
    by (simp split: if_splits)
qed

end
