(* ===== verification/SubmodelApi.thy ===== *)
theory SubmodelApi
  imports Api
begin

text \<open>
  The submodel repository over HTTP (\<open>src/titan/api/routers/submodel_repository.py\<close>): its routes and
  one definition per request handler, from the path segment and the validated body to the response
  and the changed state. Operations and templates are left out.

  A handler runs after the permission check of its route (theory AccessControl). A request body that
  is a submodel is the dump of the validated model.
\<close>

section \<open>Steps the handlers share\<close>

text \<open>The document from the cache, or from the repository and then into the cache.\<close>

definition load_submodel :: "'s env \<Rightarrow> string \<Rightarrow> nat list \<Rightarrow> ('s, obj) handler" where
  "load_submodel E seg i =
     bindH (cacheH (get_submodel (redis E) seg)) (\<lambda>cached.
       case cached of
         Some (d, e) \<Rightarrow> retH d
       | None \<Rightarrow>
           bindH (readH (\<lambda>t. get_bytes_by_id i (submodels t))) (\<lambda>r.
             case r of
               None \<Rightarrow> failH (NotFound ''Submodel'' i)
             | Some (d, e) \<Rightarrow>
                 bindH (set_cache (set_submodel (redis E) seg d e)) (\<lambda>_. retH d)))"

definition current_submodel :: "nat list \<Rightarrow> ('s, obj \<times> string) handler" where
  "current_submodel i =
     bindH (readH (\<lambda>t. get_bytes_by_id i (submodels t))) (\<lambda>r.
       case r of None \<Rightarrow> failH (NotFound ''Submodel'' i) | Some de \<Rightarrow> retH de)"

text \<open>\<open>Submodel.model_validate(updated_doc)\<close>, with the ValidationError as a bad request.\<close>

definition validate_submodel :: "'s env \<Rightarrow> obj \<Rightarrow> ('s, obj) handler" where
  "validate_submodel E d = (case valid_submodel E d of Inl _ \<Rightarrow> failH BadRequest | Inr m \<Rightarrow> retH m)"

definition submodel_event :: "event_kind \<Rightarrow> nat list \<Rightarrow> string \<Rightarrow> obj \<Rightarrow> string \<Rightarrow> obj \<Rightarrow> published" where
  "submodel_event k i seg d e m =
     \<lparr>ev_shell = False, ev_kind = k, ev_id = i, ev_b64 = seg, ev_doc = Some d, ev_etag = Some e,
      ev_semantic = first_semantic_id m\<rparr>"

definition submodel_deleted :: "nat list \<Rightarrow> string \<Rightarrow> published" where
  "submodel_deleted i seg =
     \<lparr>ev_shell = False, ev_kind = DELETED, ev_id = i, ev_b64 = seg, ev_doc = None, ev_etag = None,
      ev_semantic = JNull\<rparr>"

text \<open>After a change has been flushed: commit, the two caches, the event.\<close>

definition submodel_written :: "'s env \<Rightarrow> event_kind \<Rightarrow> nat list \<Rightarrow> string \<Rightarrow> obj \<Rightarrow> string \<Rightarrow> obj \<Rightarrow> ('s, unit) handler" where
  "submodel_written E k i seg d e m =
     bindH commit (\<lambda>_.
     bindH (set_cache (set_submodel (redis E) seg d e)) (\<lambda>_.
     bindH (set_cache (invalidate_submodel_elements (redis E) seg)) (\<lambda>_.
       publish (submodel_event k i seg d e m))))"

definition persist_submodel_doc_update ::
  "'s env \<Rightarrow> nat list \<Rightarrow> string \<Rightarrow> obj \<Rightarrow> ('s, obj \<times> string) handler" where
  "persist_submodel_doc_update E i seg updated =
     bindH (validate_submodel E updated) (\<lambda>m.
     bindH (repoH (submodel_update E i m)) (\<lambda>r.
       case r of
         None \<Rightarrow> failH (NotFound ''Submodel'' i)
       | Some (d, e) \<Rightarrow> bindH (submodel_written E UPDATED i seg d e m) (\<lambda>_. retH (d, e))))"

definition items_response :: "json \<Rightarrow> json \<Rightarrow> response" where
  "items_response items paging = json_response (JDict [(''result'', items), (''paging_metadata'', paging)])"

definition no_cursor :: json where
  "no_cursor = JDict [(''cursor'', JNull)]"

section \<open>Lists of submodels\<close>

record list_query =
  l_limit :: nat
  l_cursor :: "int option"
  l_semantic :: "string option"
  l_id_short :: "string option"
  l_kind :: "string option"

definition given :: "string option \<Rightarrow> bool" where
  "given s = (s \<noteq> None \<and> s \<noteq> Some [])"

definition cursor_json :: "int option \<Rightarrow> json" where
  "cursor_json c = (case c of None \<Rightarrow> JNull | Some t \<Rightarrow> JDict [(''cursor'', JInt t)])"

text \<open>The branch that takes neither the cursor nor a page into account.\<close>

definition select_submodels :: "'s env \<Rightarrow> list_query \<Rightarrow> row list \<Rightarrow> (obj \<times> string) list" where
  "select_submodels E q rows =
     (if given (l_kind q) \<and> l_id_short q = None \<and> \<not> given (l_semantic q) then
        find_by_kind E (JStr (the (l_kind q))) (l_limit q) rows
      else if given (l_semantic q) \<and> l_id_short q = None \<and> \<not> given (l_kind q) then
        find_by_semantic_id E (JStr (the (l_semantic q))) (l_limit q) rows
      else list_rows E (l_limit q) 0 rows)"

definition doc_semantic_id :: "obj \<Rightarrow> py_exn + json" where
  "doc_semantic_id d =
     (case dget d ''semanticId'' of
        JDict r \<Rightarrow>
          (if r = [] then Inr JNull
           else case dget_or r ''keys'' (JList []) of
             JList ks \<Rightarrow>
               (if ks = [] then Inr JNull
                else case last ks of JDict k \<Rightarrow> Inr (dget k ''value'') | _ \<Rightarrow> Inl AttributeError)
           | _ \<Rightarrow> Inr JNull)
      | _ \<Rightarrow> Inr JNull)"

definition passes :: "list_query \<Rightarrow> obj \<Rightarrow> py_exn + bool" where
  "passes q d =
     (if given (l_id_short q) \<and> dget d ''idShort'' \<noteq> JStr (the (l_id_short q)) then Inr False
      else if given (l_kind q) \<and> dget d ''kind'' \<noteq> JStr (the (l_kind q)) then Inr False
      else if given (l_semantic q) \<and> l_id_short q \<noteq> None then
        bindE (doc_semantic_id d) (\<lambda>s. Inr (s = JStr (the (l_semantic q))))
      else Inr True)"

definition kept :: "list_query \<Rightarrow> (obj \<Rightarrow> py_exn + 'a) \<Rightarrow> obj \<Rightarrow> py_exn + 'a list" where
  "kept q f d = bindE (passes q d) (\<lambda>b. if b then bindE (f d) (\<lambda>x. Inr [x]) else Inr [])"

definition zero_copy :: "list_query \<Rightarrow> row list \<Rightarrow> json \<times> json" where
  "zero_copy q rows =
     (case list_paged_zero_copy (l_limit q) (l_cursor q) (map_option JStr (l_semantic q)) rows of
        (ds, c) \<Rightarrow> (JList (map JDict ds), cursor_json c))"

definition query_submodels :: "'s env \<Rightarrow> http_query \<Rightarrow> list_query \<Rightarrow> ('s, obj list \<times> json) handler" where
  "query_submodels E h q =
     (if is_fast_path h \<and> l_id_short q = None \<and> l_kind q = None then
        readH (\<lambda>t. case list_paged_zero_copy (l_limit q) (l_cursor q) (map_option JStr (l_semantic q)) (submodels t) of
           (ds, c) \<Rightarrow> (ds, if c = None then no_cursor else cursor_json c))
      else
        bindH (readH (\<lambda>t. map fst (select_submodels E q (submodels t)))) (\<lambda>ds.
        bindH (pureH (concatE (kept q Inr) ds)) (\<lambda>items. retH (items, no_cursor))))"

definition get_all_submodels :: "'s env \<Rightarrow> http_query \<Rightarrow> list_query \<Rightarrow> ('s, response) handler" where
  "get_all_submodels E h q =
     (if is_fast_path h \<and> l_id_short q = None \<and> l_kind q = None then
        bindH (readH (\<lambda>t. zero_copy q (submodels t))) (\<lambda>(items, paging). retH (items_response items paging))
      else
        bindH (readH (\<lambda>t. map fst (select_submodels E q (submodels t)))) (\<lambda>ds.
        bindH (pureH (concatE (kept q (\<lambda>d.
            if is_fast_path h then Inr (JDict d) else apply_projection (JDict d) (modifiers_of h))) ds))
          (\<lambda>items. retH (items_response (JList items) no_cursor))))"

text \<open>The dictionary of the values of the elements that have an \<open>idShort\<close>.\<close>

definition element_value_entry :: "json \<Rightarrow> obj \<Rightarrow> py_exn + obj" where
  "element_value_entry x acc =
     (case x of
        JDict e \<Rightarrow>
          (let s = dget e ''idShort'' in
           if \<not> truthy s then Inr acc
           else case s of
             JStr k \<Rightarrow> bindE (extract_value e) (\<lambda>v. Inr (dset k v acc))
           | _ \<Rightarrow> Inl NotModelled)
      | _ \<Rightarrow> Inl AttributeError)"

fun element_values :: "json list \<Rightarrow> obj \<Rightarrow> py_exn + obj" where
  "element_values [] acc = Inr acc"
| "element_values (x # xs) acc = bindE (element_value_entry x acc) (element_values xs)"

definition extract_submodel_values :: "obj \<Rightarrow> py_exn + json" where
  "extract_submodel_values d =
     bindE (py_iter (dget_or d ''submodelElements'' (JList []))) (\<lambda>xs.
     bindE (element_values xs []) (\<lambda>v. Inr (JDict v)))"

definition get_all_submodels_metadata :: "'s env \<Rightarrow> http_query \<Rightarrow> list_query \<Rightarrow> ('s, response) handler" where
  "get_all_submodels_metadata E h q =
     bindH (query_submodels E h q) (\<lambda>(ds, paging).
     bindH (pureH (mapE (\<lambda>d. extract_metadata (JDict d)) ds)) (\<lambda>xs. retH (items_response (JList xs) paging)))"

definition get_all_submodels_reference :: "'s env \<Rightarrow> http_query \<Rightarrow> list_query \<Rightarrow> ('s, response) handler" where
  "get_all_submodels_reference E h q =
     bindH (query_submodels E h q) (\<lambda>(ds, paging).
       retH (items_response (JList (map extract_reference_for_submodel ds)) paging))"

definition get_all_submodels_path :: "'s env \<Rightarrow> http_query \<Rightarrow> list_query \<Rightarrow> ('s, response) handler" where
  "get_all_submodels_path E h q =
     bindH (query_submodels E h q) (\<lambda>(ds, paging).
       retH (items_response (JList (filter truthy (map (\<lambda>d. dget d ''idShort'') ds))) paging))"

definition get_all_submodels_value :: "'s env \<Rightarrow> http_query \<Rightarrow> list_query \<Rightarrow> ('s, response) handler" where
  "get_all_submodels_value E h q =
     bindH (query_submodels E h q) (\<lambda>(ds, paging).
     bindH (pureH (mapE extract_submodel_values ds)) (\<lambda>xs. retH (items_response (JList xs) paging)))"

section \<open>One submodel\<close>

definition post_submodel :: "'s env \<Rightarrow> obj \<Rightarrow> ('s, response) handler" where
  "post_submodel E m =
     bindH (readH (\<lambda>t. exists_row (id_of m) (submodels t))) (\<lambda>there.
       if there then failH (Conflict ''Submodel'' (id_of m))
       else
         bindH (catchH (submodel_create E m)) (\<lambda>(d, e).
         bindH commit (\<lambda>_.
         bindH (set_cache (set_submodel (redis E) (b64_of (id_of m)) d e)) (\<lambda>_.
         bindH (publish (submodel_event CREATED (id_of m) (b64_of (id_of m)) d e m)) (\<lambda>_.
           retH (json_response_with_etag (JDict d) e 201 (Some (''/submodels/'' @ b64_of (id_of m)))))))))"

definition get_submodel_by_id ::
  "'s env \<Rightarrow> string \<Rightarrow> http_query \<Rightarrow> string option \<Rightarrow> ('s, response) handler" where
  "get_submodel_by_id E seg h if_none_match =
     bindH (decode_identifier seg) (\<lambda>i.
     bindH (cacheH (get_submodel (redis E) seg)) (\<lambda>cached.
       case (if is_fast_path h then cached else None) of
         Some (d, e) \<Rightarrow>
           retH (if not_modified if_none_match e then response_304 else json_response_with_etag (JDict d) e 200 None)
       | None \<Rightarrow>
           bindH (current_submodel i) (\<lambda>(d, e).
           bindH (set_cache (set_submodel (redis E) seg d e)) (\<lambda>_.
             if not_modified if_none_match e then retH response_304
             else if is_fast_path h then retH (json_response_with_etag (JDict d) e 200 None)
             else bindH (pureH (apply_projection (JDict d) (modifiers_of h))) (\<lambda>j.
               retH (json_response_with_etag j e 200 None))))))"

definition put_submodel_by_id ::
  "'s env \<Rightarrow> string \<Rightarrow> obj \<Rightarrow> string option \<Rightarrow> ('s, response) handler" where
  "put_submodel_by_id E seg m if_match =
     bindH (decode_identifier seg) (\<lambda>i.
       if i \<noteq> id_of m then failH BadRequest
       else bindH (readH (\<lambda>t. get_bytes_by_id i (submodels t))) (\<lambda>current.
         case current of
           None \<Rightarrow>
             bindH (catchH (submodel_create E m)) (\<lambda>(d, e).
             bindH (submodel_written E CREATED i seg d e m) (\<lambda>_.
               retH (json_response_with_etag (JDict d) e 201 (Some (''/submodels/'' @ seg)))))
         | Some (_, etag0) \<Rightarrow>
             bindH (check_precondition if_match etag0) (\<lambda>_.
             bindH (catchH (submodel_update E i m)) (\<lambda>r.
               case r of
                 None \<Rightarrow> failH (Unhandled (Python TypeError))
               | Some (d, e) \<Rightarrow>
                   bindH (submodel_written E UPDATED i seg d e m) (\<lambda>_. retH (no_content_response e))))))"

definition delete_submodel_by_id :: "'s env \<Rightarrow> string \<Rightarrow> ('s, response) handler" where
  "delete_submodel_by_id E seg =
     bindH (decode_identifier seg) (\<lambda>i.
     bindH (repoH (submodel_delete i)) (\<lambda>deleted.
       if \<not> deleted then failH (NotFound ''Submodel'' i)
       else
         bindH commit (\<lambda>_.
         bindH (set_cache (delete_submodel (redis E) seg)) (\<lambda>_.
         bindH (set_cache (invalidate_submodel_elements (redis E) seg)) (\<lambda>_.
         bindH (publish (submodel_deleted i seg)) (\<lambda>_. retH response_204))))))"

text \<open>Reading a whole submodel in another representation.\<close>

definition of_submodel :: "'s env \<Rightarrow> string \<Rightarrow> (obj \<Rightarrow> py_exn + json) \<Rightarrow> ('s, response) handler" where
  "of_submodel E seg f =
     bindH (decode_identifier seg) (\<lambda>i.
     bindH (load_submodel E seg i) (\<lambda>d.
     bindH (pureH (f d)) (\<lambda>j. retH (json_response j))))"

definition get_submodel_value :: "'s env \<Rightarrow> string \<Rightarrow> ('s, response) handler" where
  "get_submodel_value E seg = of_submodel E seg extract_submodel_values"

definition get_submodel_metadata :: "'s env \<Rightarrow> string \<Rightarrow> ('s, response) handler" where
  "get_submodel_metadata E seg = of_submodel E seg (\<lambda>d. extract_metadata (JDict d))"

definition get_submodel_reference :: "'s env \<Rightarrow> string \<Rightarrow> ('s, response) handler" where
  "get_submodel_reference E seg = of_submodel E seg (\<lambda>d. Inr (extract_reference_for_submodel d))"

definition get_submodel_path :: "'s env \<Rightarrow> string \<Rightarrow> ('s, response) handler" where
  "get_submodel_path E seg =
     of_submodel E seg (\<lambda>d. bindE (collect_id_short_paths d) (\<lambda>ps. Inr (JList (map JStr ps))))"

text \<open>Partial updates.\<close>

definition patched_submodel ::
  "'s env \<Rightarrow> string \<Rightarrow> string option \<Rightarrow> (obj \<Rightarrow> failure + obj) \<Rightarrow> ('s, response) handler" where
  "patched_submodel E seg if_match f =
     bindH (decode_identifier seg) (\<lambda>i.
     bindH (current_submodel i) (\<lambda>(d, etag0).
     bindH (check_precondition if_match etag0) (\<lambda>_.
       case f d of
         Inl e \<Rightarrow> failH e
       | Inr d' \<Rightarrow> bindH (persist_submodel_doc_update E i seg d') (\<lambda>(_, e). retH (no_content_response e)))))"

definition patch_submodel_value ::
  "'s env \<Rightarrow> string \<Rightarrow> json \<Rightarrow> string option \<Rightarrow> ('s, response) handler" where
  "patch_submodel_value E seg payload if_match =
     patched_submodel E seg if_match (\<lambda>d.
       apply_submodel_value_patch d (case payload of JDict p \<Rightarrow> dget p ''values'' | _ \<Rightarrow> payload))"

definition patch_submodel_metadata ::
  "'s env \<Rightarrow> string \<Rightarrow> obj \<Rightarrow> string option \<Rightarrow> ('s, response) handler" where
  "patch_submodel_metadata E seg updates if_match =
     patched_submodel E seg if_match (\<lambda>d. apply_submodel_metadata_patch d (JDict updates))"

section \<open>Reading elements\<close>

definition element_items :: "obj \<Rightarrow> json" where
  "element_items d = dget_or d ''submodelElements'' (JList [])"

definition get_submodel_elements :: "'s env \<Rightarrow> string \<Rightarrow> http_query \<Rightarrow> ('s, response) handler" where
  "get_submodel_elements E seg h =
     bindH (decode_identifier seg) (\<lambda>i.
     bindH (load_submodel E seg i) (\<lambda>d.
     bindH (pureH
       (if q_content h = Some ''reference'' then bindE (collect_element_references d) (\<lambda>rs. Inr (JList rs))
        else if q_content h = Some ''path'' then
          bindE (collect_id_short_paths d) (\<lambda>ps. Inr (JList (map JStr ps)))
        else if \<not> is_fast_path h then
          bindE (py_iter (element_items d)) (\<lambda>xs.
          bindE (mapE (\<lambda>x. apply_projection x (modifiers_of h)) xs) (\<lambda>ys. Inr (JList ys)))
        else Inr (element_items d)))
       (\<lambda>items. retH (items_response items no_cursor))))"

definition of_elements :: "'s env \<Rightarrow> string \<Rightarrow> (obj \<Rightarrow> py_exn + json) \<Rightarrow> ('s, response) handler" where
  "of_elements E seg f =
     bindH (decode_identifier seg) (\<lambda>i.
     bindH (load_submodel E seg i) (\<lambda>d.
     bindH (pureH (f d)) (\<lambda>items. retH (items_response items no_cursor))))"

definition get_all_submodel_elements_metadata :: "'s env \<Rightarrow> string \<Rightarrow> ('s, response) handler" where
  "get_all_submodel_elements_metadata E seg =
     of_elements E seg (\<lambda>d. bindE (py_iter (element_items d)) (\<lambda>xs.
       bindE (mapE extract_metadata xs) (\<lambda>ys. Inr (JList ys))))"

definition get_all_submodel_elements_value :: "'s env \<Rightarrow> string \<Rightarrow> ('s, response) handler" where
  "get_all_submodel_elements_value E seg = of_elements E seg extract_submodel_values"

definition get_all_submodel_elements_reference :: "'s env \<Rightarrow> string \<Rightarrow> ('s, response) handler" where
  "get_all_submodel_elements_reference E seg =
     of_elements E seg (\<lambda>d. bindE (collect_element_references d) (\<lambda>rs. Inr (JList rs)))"

definition get_all_submodel_elements_path :: "'s env \<Rightarrow> string \<Rightarrow> ('s, response) handler" where
  "get_all_submodel_elements_path E seg =
     of_elements E seg (\<lambda>d. bindE (collect_id_short_paths d) (\<lambda>ps. Inr (JList (map JStr ps))))"

text \<open>One element: navigate, then show it.\<close>

definition load_element :: "'s env \<Rightarrow> string \<Rightarrow> nat list \<Rightarrow> string \<Rightarrow> ('s, obj \<times> obj) handler" where
  "load_element E seg i path =
     bindH (load_submodel E seg i) (\<lambda>d.
     bindH (pureH (navigate_id_short_path d path)) (\<lambda>r.
       case r of
         None \<Rightarrow> failH (NotFound ''SubmodelElement'' (code_points path))
       | Some x \<Rightarrow> retH (d, x)))"

definition get_submodel_element_by_path ::
  "'s env \<Rightarrow> string \<Rightarrow> string \<Rightarrow> http_query \<Rightarrow> ('s, response) handler" where
  "get_submodel_element_by_path E seg path h =
     bindH (decode_identifier seg) (\<lambda>i.
     bindH (load_element E seg i path) (\<lambda>(d, x).
     bindH (pureH
       (if q_content h = Some ''reference'' then
          Inr (extract_reference x (dget_or d ''id'' (JStr [])) (Some path))
        else if q_content h = Some ''path'' then Inr (extract_path x path)
        else if \<not> is_fast_path h then apply_projection (JDict x) (modifiers_of h)
        else Inr (JDict x)))
       (\<lambda>j. retH (json_response j))))"

definition get_element_value :: "'s env \<Rightarrow> string \<Rightarrow> string \<Rightarrow> ('s, response) handler" where
  "get_element_value E seg path =
     bindH (decode_identifier seg) (\<lambda>i.
     bindH (cacheH (Cache.get_element_value (redis E) seg path)) (\<lambda>cached.
       case cached of
         Some j \<Rightarrow> retH (json_response j)
       | None \<Rightarrow>
           bindH (load_element E seg i path) (\<lambda>(d, x).
           bindH (pureH (extract_value x)) (\<lambda>v.
           bindH (set_cache (set_element_value (redis E) seg path v)) (\<lambda>_. retH (json_response v))))))"

definition of_element ::
  "'s env \<Rightarrow> string \<Rightarrow> string \<Rightarrow> (obj \<Rightarrow> obj \<Rightarrow> py_exn + json) \<Rightarrow> ('s, response) handler" where
  "of_element E seg path f =
     bindH (decode_identifier seg) (\<lambda>i.
     bindH (load_element E seg i path) (\<lambda>(d, x).
     bindH (pureH (f d x)) (\<lambda>j. retH (json_response j))))"

definition get_element_metadata :: "'s env \<Rightarrow> string \<Rightarrow> string \<Rightarrow> ('s, response) handler" where
  "get_element_metadata E seg path = of_element E seg path (\<lambda>d x. extract_metadata (JDict x))"

definition get_element_reference :: "'s env \<Rightarrow> string \<Rightarrow> string \<Rightarrow> ('s, response) handler" where
  "get_element_reference E seg path =
     of_element E seg path (\<lambda>d x. Inr (extract_reference x (dget_or d ''id'' (JStr [])) (Some path)))"

definition get_element_path :: "'s env \<Rightarrow> string \<Rightarrow> string \<Rightarrow> ('s, response) handler" where
  "get_element_path E seg path = of_element E seg path (\<lambda>d x. Inr (extract_path x path))"

text \<open>A value that is true and no string has no \<open>startswith\<close>.\<close>

definition get_element_attachment :: "'s env \<Rightarrow> string \<Rightarrow> string \<Rightarrow> ('s, response) handler" where
  "get_element_attachment E seg path =
     bindH (decode_identifier seg) (\<lambda>i.
     bindH (load_element E seg i path) (\<lambda>(d, x).
       if \<not> is_attachment x then failH BadRequest
       else if \<not> truthy (dget x ''value'') then failH (NotFound ''Attachment'' (code_points path))
       else bindH (pureH (content_type x default_type)) (\<lambda>ct.
         case dget x ''value'' of
           JStr v \<Rightarrow> build_attachment_response v ct
         | _ \<Rightarrow> failH (Unhandled (Python AttributeError)))))"

section \<open>Writing elements\<close>

definition put_element_attachment ::
  "'s env \<Rightarrow> string \<Rightarrow> string \<Rightarrow> nat list \<Rightarrow> string option \<Rightarrow> string option \<Rightarrow> ('s, response) handler" where
  "put_element_attachment E seg path bs ct if_match =
     patched_submodel E seg if_match (\<lambda>d. change_element d path (apply_attachment_payload bs ct))"

definition delete_element_attachment ::
  "'s env \<Rightarrow> string \<Rightarrow> string \<Rightarrow> string option \<Rightarrow> ('s, response) handler" where
  "delete_element_attachment E seg path if_match =
     patched_submodel E seg if_match (\<lambda>d. change_element d path (\<lambda>x.
       if \<not> truthy (dget x ''value'') then Inl (NotFound ''Attachment'' (code_points path))
       else clear_attachment_payload x))"

text \<open>The frame of the handlers that write elements: the changed document with what the response needs.\<close>

definition write_element ::
  "'s env \<Rightarrow> string \<Rightarrow> string option \<Rightarrow> (obj \<Rightarrow> failure + obj) \<Rightarrow> (obj \<Rightarrow> string \<Rightarrow> py_exn + response) \<Rightarrow>
   ('s, response) handler" where
  "write_element E seg if_match f respond =
     bindH (decode_identifier seg) (\<lambda>i.
     bindH (current_submodel i) (\<lambda>(d, etag0).
     bindH (check_precondition if_match etag0) (\<lambda>_.
       case f d of
         Inl e \<Rightarrow> failH e
       | Inr d' \<Rightarrow>
           bindH (persist_submodel_doc_update E i seg d') (\<lambda>(_, e). pureH (respond d' e)))))"

definition created_response :: "obj \<Rightarrow> string \<Rightarrow> string \<Rightarrow> response" where
  "created_response element seg path =
     \<lparr>http_status = 201, http_body = Json (JDict element), http_etag = None,
      http_location = Some (''/submodels/'' @ seg @ ''/submodel-elements/'' @ path)\<rparr>"

definition shown_id_short :: "obj \<Rightarrow> py_exn + string" where
  "shown_id_short element =
     (case dget_or element ''idShort'' (JStr []) of JStr s \<Rightarrow> Inr s | _ \<Rightarrow> Inl NotModelled)"

definition post_submodel_element :: "'s env \<Rightarrow> string \<Rightarrow> obj \<Rightarrow> ('s, response) handler" where
  "post_submodel_element E seg element =
     write_element E seg None
       (\<lambda>d. liftE (element_failure True []) (insert_element d None element))
       (\<lambda>d' e. bindE (shown_id_short element) (\<lambda>s. Inr (created_response element seg s)))"

text \<open>A parent that is missing or no container is \<open>not found\<close> here.\<close>

fun nested_failure :: "string \<Rightarrow> elem_error \<Rightarrow> failure" where
  "nested_failure path (InvalidPath _ _) = NotFound ''SubmodelElement'' (code_points path)"
| "nested_failure path e = element_failure True path e"

text \<open>\<open>len(elements) - 1 if elements else 0\<close>.\<close>

fun new_index :: "json \<Rightarrow> py_exn + nat" where
  "new_index (JList xs) = Inr (length xs - 1)"
| "new_index (JStr s) = Inr (length s - 1)"
| "new_index (JDict d) = Inr (length d - 1)"
| "new_index v = (if truthy v then Inl TypeError else Inr 0)"

definition new_path :: "obj \<Rightarrow> string \<Rightarrow> obj \<Rightarrow> py_exn + string" where
  "new_path d' path element =
     bindE (navigate_id_short_path d' path) (\<lambda>container.
       case container of
         Some c \<Rightarrow>
           if dget c ''modelType'' = JStr ''SubmodelElementList'' then
             bindE (new_index (dget_or c ''value'' (JList []))) (\<lambda>n. Inr (path @ ''['' @ show_nat n @ '']''))
           else bindE (shown_id_short element) (\<lambda>s. Inr (path @ ''.'' @ s))
       | None \<Rightarrow> bindE (shown_id_short element) (\<lambda>s. Inr (path @ ''.'' @ s)))"

definition post_nested_submodel_element :: "'s env \<Rightarrow> string \<Rightarrow> string \<Rightarrow> obj \<Rightarrow> ('s, response) handler" where
  "post_nested_submodel_element E seg path element =
     write_element E seg None
       (\<lambda>d. liftE (nested_failure path) (insert_element d (Some path) element))
       (\<lambda>d' e. bindE (new_path d' path element) (\<lambda>p. Inr (created_response element seg p)))"

definition put_submodel_element ::
  "'s env \<Rightarrow> string \<Rightarrow> string \<Rightarrow> obj \<Rightarrow> string option \<Rightarrow> ('s, response) handler" where
  "put_submodel_element E seg path element if_match =
     write_element E seg if_match
       (\<lambda>d. liftE (element_failure False path) (replace_element d path element))
       (\<lambda>d' e. Inr (no_content_response e))"

definition payload_value :: "json \<Rightarrow> json" where
  "payload_value payload =
     (case payload of JDict p \<Rightarrow> if dhas p ''value'' then dget p ''value'' else payload | _ \<Rightarrow> payload)"

definition patch_element_value ::
  "'s env \<Rightarrow> string \<Rightarrow> string \<Rightarrow> json \<Rightarrow> string option \<Rightarrow> ('s, response) handler" where
  "patch_element_value E seg path payload if_match =
     write_element E seg if_match
       (\<lambda>d. liftE (element_failure False path) (update_element_value d path (payload_value payload)))
       (\<lambda>d' e. Inr (json_response_with_etag (payload_value payload) e 200 None))"

definition patch_submodel_element ::
  "'s env \<Rightarrow> string \<Rightarrow> string \<Rightarrow> obj \<Rightarrow> string option \<Rightarrow> ('s, response) handler" where
  "patch_submodel_element E seg path updates if_match =
     write_element E seg if_match
       (\<lambda>d. liftE (element_failure False path) (patch_element d path updates))
       (\<lambda>d' e. bindE (navigate_id_short_path d' path) (\<lambda>x.
          Inr (json_response_with_etag (case x of None \<Rightarrow> JNull | Some y \<Rightarrow> JDict y) e 200 None)))"

definition delete_submodel_element :: "'s env \<Rightarrow> string \<Rightarrow> string \<Rightarrow> ('s, response) handler" where
  "delete_submodel_element E seg path =
     write_element E seg None
       (\<lambda>d. liftE (element_failure False path) (ElementOps.delete_element d path))
       (\<lambda>d' e. Inr response_204)"

section \<open>Requests\<close>

datatype submodel_request =
    GetAllSubmodels http_query list_query
  | GetAllSubmodelsMetadata http_query list_query
  | GetAllSubmodelsReference http_query list_query
  | GetAllSubmodelsPath http_query list_query
  | GetAllSubmodelsValue http_query list_query
  | PostSubmodel obj
  | GetSubmodel string http_query "string option"
  | PutSubmodel string obj "string option"
  | DeleteSubmodel string
  | GetSubmodelValue string
  | PatchSubmodelValue string json "string option"
  | GetSubmodelMetadata string
  | PatchSubmodelMetadata string obj "string option"
  | GetSubmodelReference string
  | GetSubmodelPath string
  | GetElements string http_query
  | GetElementsMetadata string
  | GetElementsValue string
  | GetElementsReference string
  | GetElementsPath string
  | GetElement string string http_query
  | GetElementValue string string
  | GetElementMetadata string string
  | GetElementReference string string
  | GetElementPath string string
  | GetAttachment string string
  | PutAttachment string string "nat list" "string option" "string option"
  | DeleteAttachment string string "string option"
  | PostElement string obj
  | PostNestedElement string string obj
  | PutElement string string obj "string option"
  | PatchElementValue string string json "string option"
  | PatchElement string string obj "string option"
  | DeleteElement string string

fun serve_submodel :: "'s env \<Rightarrow> submodel_request \<Rightarrow> ('s, response) handler" where
  "serve_submodel E (GetAllSubmodels h q) = get_all_submodels E h q"
| "serve_submodel E (GetAllSubmodelsMetadata h q) = get_all_submodels_metadata E h q"
| "serve_submodel E (GetAllSubmodelsReference h q) = get_all_submodels_reference E h q"
| "serve_submodel E (GetAllSubmodelsPath h q) = get_all_submodels_path E h q"
| "serve_submodel E (GetAllSubmodelsValue h q) = get_all_submodels_value E h q"
| "serve_submodel E (PostSubmodel m) = post_submodel E m"
| "serve_submodel E (GetSubmodel seg h m) = get_submodel_by_id E seg h m"
| "serve_submodel E (PutSubmodel seg d m) = put_submodel_by_id E seg d m"
| "serve_submodel E (DeleteSubmodel seg) = delete_submodel_by_id E seg"
| "serve_submodel E (GetSubmodelValue seg) = get_submodel_value E seg"
| "serve_submodel E (PatchSubmodelValue seg p m) = patch_submodel_value E seg p m"
| "serve_submodel E (GetSubmodelMetadata seg) = get_submodel_metadata E seg"
| "serve_submodel E (PatchSubmodelMetadata seg u m) = patch_submodel_metadata E seg u m"
| "serve_submodel E (GetSubmodelReference seg) = get_submodel_reference E seg"
| "serve_submodel E (GetSubmodelPath seg) = get_submodel_path E seg"
| "serve_submodel E (GetElements seg h) = get_submodel_elements E seg h"
| "serve_submodel E (GetElementsMetadata seg) = get_all_submodel_elements_metadata E seg"
| "serve_submodel E (GetElementsValue seg) = get_all_submodel_elements_value E seg"
| "serve_submodel E (GetElementsReference seg) = get_all_submodel_elements_reference E seg"
| "serve_submodel E (GetElementsPath seg) = get_all_submodel_elements_path E seg"
| "serve_submodel E (GetElement seg p h) = get_submodel_element_by_path E seg p h"
| "serve_submodel E (GetElementValue seg p) = get_element_value E seg p"
| "serve_submodel E (GetElementMetadata seg p) = get_element_metadata E seg p"
| "serve_submodel E (GetElementReference seg p) = get_element_reference E seg p"
| "serve_submodel E (GetElementPath seg p) = get_element_path E seg p"
| "serve_submodel E (GetAttachment seg p) = get_element_attachment E seg p"
| "serve_submodel E (PutAttachment seg p bs ct m) = put_element_attachment E seg p bs ct m"
| "serve_submodel E (DeleteAttachment seg p m) = delete_element_attachment E seg p m"
| "serve_submodel E (PostElement seg el) = post_submodel_element E seg el"
| "serve_submodel E (PostNestedElement seg p el) = post_nested_submodel_element E seg p el"
| "serve_submodel E (PutElement seg p el m) = put_submodel_element E seg p el m"
| "serve_submodel E (PatchElementValue seg p v m) = patch_element_value E seg p v m"
| "serve_submodel E (PatchElement seg p u m) = patch_submodel_element E seg p u m"
| "serve_submodel E (DeleteElement seg p) = delete_submodel_element E seg p"

text \<open>The segment of the path that names the submodel.\<close>

fun submodel_segment :: "submodel_request \<Rightarrow> string option" where
  "submodel_segment (GetAllSubmodels h q) = None"
| "submodel_segment (GetAllSubmodelsMetadata h q) = None"
| "submodel_segment (GetAllSubmodelsReference h q) = None"
| "submodel_segment (GetAllSubmodelsPath h q) = None"
| "submodel_segment (GetAllSubmodelsValue h q) = None"
| "submodel_segment (PostSubmodel m) = None"
| "submodel_segment (GetSubmodel seg h m) = Some seg"
| "submodel_segment (PutSubmodel seg d m) = Some seg"
| "submodel_segment (DeleteSubmodel seg) = Some seg"
| "submodel_segment (GetSubmodelValue seg) = Some seg"
| "submodel_segment (PatchSubmodelValue seg p m) = Some seg"
| "submodel_segment (GetSubmodelMetadata seg) = Some seg"
| "submodel_segment (PatchSubmodelMetadata seg u m) = Some seg"
| "submodel_segment (GetSubmodelReference seg) = Some seg"
| "submodel_segment (GetSubmodelPath seg) = Some seg"
| "submodel_segment (GetElements seg h) = Some seg"
| "submodel_segment (GetElementsMetadata seg) = Some seg"
| "submodel_segment (GetElementsValue seg) = Some seg"
| "submodel_segment (GetElementsReference seg) = Some seg"
| "submodel_segment (GetElementsPath seg) = Some seg"
| "submodel_segment (GetElement seg p h) = Some seg"
| "submodel_segment (GetElementValue seg p) = Some seg"
| "submodel_segment (GetElementMetadata seg p) = Some seg"
| "submodel_segment (GetElementReference seg p) = Some seg"
| "submodel_segment (GetElementPath seg p) = Some seg"
| "submodel_segment (GetAttachment seg p) = Some seg"
| "submodel_segment (PutAttachment seg p bs ct m) = Some seg"
| "submodel_segment (DeleteAttachment seg p m) = Some seg"
| "submodel_segment (PostElement seg el) = Some seg"
| "submodel_segment (PostNestedElement seg p el) = Some seg"
| "submodel_segment (PutElement seg p el m) = Some seg"
| "submodel_segment (PatchElementValue seg p v m) = Some seg"
| "submodel_segment (PatchElement seg p u m) = Some seg"
| "submodel_segment (DeleteElement seg p) = Some seg"

definition canonical_segment :: "string \<Rightarrow> bool" where
  "canonical_segment seg = (\<forall>i. decode_id_from_b64url seg = Inr i \<longrightarrow> canonical seg i)"

definition canonical_submodel :: "submodel_request \<Rightarrow> bool" where
  "canonical_submodel rq = (case submodel_segment rq of None \<Rightarrow> True | Some seg \<Rightarrow> canonical_segment seg)"

end
