(* ===== verification/SubmodelState.thy ===== *)
theory SubmodelState
  imports SubmodelApi
begin

text \<open>
  The submodel repository keeps its tables well formed and its caches in agreement with them: the
  triples of the handlers (theory Api) put together.
\<close>

section \<open>Caches and tables stay in agreement\<close>

lemma triple_load:
  assumes "env_ok E" and "canonical seg i"
  shows "triple (session E) (load_submodel E seg i)
    (\<lambda>d w. session E w \<and> (\<exists>e. get_bytes_by_id i (submodels (db w)) = Some (d, e))) (\<lambda>_. store_ok E)"
proof (rule tripleI)
  have K: "kv_ok (redis E)" using assms(1) by (simp add: env_ok_def)
  fix w w' d assume w: "session E w" and run: "load_submodel E seg i w = (w', Inr d)"
  then have fresh: "submodels_fresh E (db w) (cache w)" by (simp add: session_def store_ok_def)
  show "session E w' \<and> (\<exists>e. get_bytes_by_id i (submodels (db w')) = Some (d, e))"
  proof (cases "get_submodel (redis E) seg (cache w)")
    case None
    with run w obtain e where e: "get_bytes_by_id i (submodels (db w)) = Some (d, e)"
      "w' = w\<lparr>cache := set_submodel (redis E) seg d e (cache w)\<rparr>"
      by (auto simp: load_submodel_def handlers session_def split: option.splits)
    have "submodels_fresh E (db w) (cache w')"
      using fresh e canonical_eq [OF _ assms(2)] by (auto simp: submodels_fresh_def cached [OF K])
    with w e show ?thesis
      by (auto simp: session_def store_ok_def shells_fresh_def values_fresh_def cached [OF K])
  next
    case (Some p)
    with run have "w' = w" "fst p = d" by (auto simp: load_submodel_def handlers split: prod.splits)
    moreover have "get_bytes_by_id i (submodels (db w)) = Some p"
      using fresh assms(2) Some unfolding submodels_fresh_def by blast
    ultimately show ?thesis using w by (cases p) auto
  qed
next
  fix w w' e assume "session E w" and "load_submodel E seg i w = (w', Inl e)"
  then show "store_ok E w'"
    by (auto simp: load_submodel_def handlers session_def split: option.splits)
qed

lemma triple_current:
  "triple (session E) (current_submodel i)
     (\<lambda>(d, e) w. session E w \<and> get_bytes_by_id i (submodels (db w)) = Some (d, e)) (\<lambda>_. store_ok E)"
  by (auto simp: triple_def current_submodel_def handlers session_def split: option.split)

lemma triple_written:
  assumes "env_ok E" and "canonical seg i"
  shows "triple (changed_submodel E i (Some (d, e))) (submodel_written E k i seg d e m) (\<lambda>_. session E) R"
proof -
  have "session E (w\<lparr>db := tx w, cache := invalidate_submodel_elements (redis E) seg
      (set_submodel (redis E) seg d e (cache w)), bus := bus w @ [submodel_event k i seg d e m]\<rparr>)"
    if "changed_submodel E i (Some (d, e)) w" for w
    using that submodel_cached [OF assms, of "db w" "cache w" "tx w" "Some (d, e)", OF _ _ _ _ _ refl]
      logged_submodel [of "db w" "bus w" "submodel_event k i seg d e m" "tx w"]
    by (simp add: changed_submodel_def session_def store_ok_def submodel_event_def content_of_def)
  then show ?thesis by (auto simp: triple_def submodel_written_def handlers)
qed

lemma update_triples:
  assumes "id_of m = i"
  shows "triple (session E) (repoH (submodel_update E i m))
      (\<lambda>r w. case r of None \<Rightarrow> session E w | Some p \<Rightarrow> changed_submodel E i (Some p) w) (\<lambda>_. store_ok E)"
    and "triple (session E) (catchH (submodel_update E i m))
      (\<lambda>r w. case r of None \<Rightarrow> session E w | Some p \<Rightarrow> changed_submodel E i (Some p) w) (\<lambda>_. store_ok E)"
proof -
  have good: "case r of None \<Rightarrow> session E w' | Some p \<Rightarrow> changed_submodel E i (Some p) w'"
    if "session E w" "submodel_update E i m w = (w', Inr r)" for w w' r
    using submodel_update_changes [OF that(1) assms] submodel_update_effect(4) [OF that(2)] that
    by (cases r) auto
  have bad: "store_ok E w'" if "session E w" "submodel_update E i m w = (w', Inl e)" for w w' e
    using store_ok_quiet [OF session_store [OF that(1)] submodel_update_effect(1) [OF that(2)]] .
  show "triple (session E) (repoH (submodel_update E i m))
      (\<lambda>r w. case r of None \<Rightarrow> session E w | Some p \<Rightarrow> changed_submodel E i (Some p) w) (\<lambda>_. store_ok E)"
    and "triple (session E) (catchH (submodel_update E i m))
      (\<lambda>r w. case r of None \<Rightarrow> session E w | Some p \<Rightarrow> changed_submodel E i (Some p) w) (\<lambda>_. store_ok E)"
    by (rule triple_repo, erule (1) good, erule (1) bad)+
qed

lemma create_triple:
  assumes "env_ok E" and "id_of m = i"
  shows "triple (session E) (catchH (submodel_create E m)) (\<lambda>p. changed_submodel E i (Some p)) (\<lambda>_. store_ok E)"
proof (rule triple_repo)
  fix w w' p assume "session E w" and "submodel_create E m w = (w', Inr p)"
  then show "changed_submodel E i (Some p) w'" using submodel_create_changes [OF _ assms] by (cases p) simp
next
  fix w w' e assume "session E w" and "submodel_create E m w = (w', Inl e)"
  then show "store_ok E w'" using store_ok_quiet session_store submodel_create_effect(1) by blast
qed

lemma triple_persist:
  assumes "env_ok E" and "canonical seg i" and "id_of d = i"
  shows "triple (session E) (persist_submodel_doc_update E i seg d) (\<lambda>_. session E) (\<lambda>_. store_ok E)"
proof -
  have keep: "id_of m = i" if "valid_submodel E d = Inr m" for m
    using assms(1,3) that by (simp add: env_ok_def)
  have validated: "triple (session E) (validate_submodel E d) (\<lambda>m w. session E w \<and> id_of m = i) (\<lambda>_. store_ok E)"
    unfolding validate_submodel_def by (intro triple_sum triple_fail triple_ret) (auto intro: session_store keep)
  show ?thesis
    unfolding persist_submodel_doc_update_def
  proof (rule triple_bind [OF validated], rule triple_conj)
    fix m assume m: "id_of m = i"
    show "triple (session E) (bindH (repoH (submodel_update E i m)) (\<lambda>r.
        case r of None \<Rightarrow> failH (NotFound ''Submodel'' i)
        | Some (d, e) \<Rightarrow> bindH (submodel_written E UPDATED i seg d e m) (\<lambda>_. retH (d, e))))
      (\<lambda>_. session E) (\<lambda>_. store_ok E)"
      by (rule triple_bind [OF update_triples(1) [OF m]],
          intro triple_option_pre triple_prod_pre triple_fail triple_bind [OF triple_written [OF assms(1,2)]] triple_ret)
        (simp_all add: session_store)
  qed
qed

text \<open>The changes to a document keep its identifier.\<close>

lemma id_of_dget: "dget d' ''id'' = dget d ''id'' \<Longrightarrow> id_of d' = id_of d"
  by (simp add: id_of_def)

lemma edit_id: "apply_edit ed d = Inr d' \<Longrightarrow> id_of d' = id_of d"
  by (rule id_of_dget) (simp add: edit_frame)

lemma edit_ids:
  "liftE h (insert_element d p el) = Inr d' \<Longrightarrow> id_of d' = id_of d"
  "liftE h (replace_element d q el) = Inr d' \<Longrightarrow> id_of d' = id_of d"
  "liftE h (patch_element d q el) = Inr d' \<Longrightarrow> id_of d' = id_of d"
  "liftE h (update_element_value d q v) = Inr d' \<Longrightarrow> id_of d' = id_of d"
  "liftE h (ElementOps.delete_element d q) = Inr d' \<Longrightarrow> id_of d' = id_of d"
  using edit_id [of "Insert p el"] edit_id [of "Replace q el"] edit_id [of "Patch q el"]
    edit_id [of "SetValue q v"] edit_id [of "Remove q"]
  by (simp_all add: liftE_eq_Inr)

lemma value_patch_id: "value_patch d ups = Inr d' \<Longrightarrow> id_of d' = id_of d"
proof (induction d ups rule: value_patch.induct)
  case (2 doc path v ups)
  then obtain doc1 where one: "update_element_value doc path v = Inr doc1" and "value_patch doc1 ups = Inr d'"
    by (auto simp: errs)
  with "2.IH" have "id_of d' = id_of doc1" by simp
  with edit_id [of "SetValue path v" doc doc1] one show ?case by simp
qed simp

lemma values_patch_id: "apply_submodel_value_patch d j = Inr d' \<Longrightarrow> id_of d' = id_of d"
  by (auto simp: apply_submodel_value_patch_def dest: value_patch_id split: json.splits)

lemma metadata_patch_id:
  assumes "apply_submodel_metadata_patch d j = Inr d'"
  shows "id_of d' = id_of d"
proof -
  have keep: "dget (set_or_pop ups d) ''id'' = dget d ''id''" if "''id'' \<notin> set (map fst ups)" for ups d
    using that by (induction ups d rule: set_or_pop.induct) auto
  from assms obtain ups where "set (map fst ups) \<subseteq> set submodel_metadata_fields" "d' = set_or_pop ups d"
    by (auto simp: apply_submodel_metadata_patch_def split: json.splits if_splits)
  moreover from this have "''id'' \<notin> set (map fst ups)" by (auto simp: submodel_metadata_fields_def)
  ultimately show ?thesis using keep by (intro id_of_dget) simp
qed

lemma change_element_id:
  assumes "change_element d path f = Inr d'" and "\<And>c c'. f c = Inr c' \<Longrightarrow> dget c' ''id'' = dget c ''id''"
  shows "id_of d' = id_of d"
proof -
  have walk: "dget d' ''id'' = dget d ''id''" if "change_at d ps f = Some (Inr d')" for ps d d'
    using that assms(2) by (cases ps) (auto simp: errs nested_key_def split: option.splits)
  from assms(1) show ?thesis
    by (intro id_of_dget) (auto simp: change_element_def errs intro: assms(2) walk split: if_splits option.splits)
qed

lemma attachment_id:
  "apply_attachment_payload bs ct e = Inr e' \<Longrightarrow> dget e' ''id'' = dget e ''id''"
  "clear_attachment_payload e = Inr e' \<Longrightarrow> dget e' ''id'' = dget e ''id''"
  by (auto simp: apply_attachment_payload_def clear_attachment_payload_def errs split: if_splits)

lemma attachment_ids:
  "change_element d p (apply_attachment_payload bs ct) = Inr d' \<Longrightarrow> id_of d' = id_of d"
  "change_element d p (\<lambda>x. if \<not> truthy (dget x ''value'') then Inl f else clear_attachment_payload x) = Inr d' \<Longrightarrow>
   id_of d' = id_of d"
  by (erule change_element_id, auto split: if_splits intro: attachment_id)+

text \<open>
  The requests that write a changed document: what they do is one of the two frames, with a change
  that keeps the identifier.
\<close>

fun edits :: "submodel_request \<Rightarrow> bool" where
  "edits (PatchSubmodelValue seg p m) = True"
| "edits (PatchSubmodelMetadata seg u m) = True"
| "edits (PutAttachment seg p bs ct m) = True"
| "edits (DeleteAttachment seg p m) = True"
| "edits (PostElement seg el) = True"
| "edits (PostNestedElement seg p el) = True"
| "edits (PutElement seg p el m) = True"
| "edits (PatchElementValue seg p v m) = True"
| "edits (PatchElement seg p u m) = True"
| "edits (DeleteElement seg p) = True"
| "edits _ = False"

definition edit_frame_of :: "'s env \<Rightarrow> submodel_request \<Rightarrow> string \<Rightarrow> bool" where
  "edit_frame_of E rq seg =
     (submodel_segment rq = Some seg \<and>
      (\<exists>h f. (\<forall>d d'. f d = Inr d' \<longrightarrow> id_of d' = id_of d) \<and>
         (serve_submodel E rq = patched_submodel E seg h f \<or>
          (\<exists>respond. serve_submodel E rq = write_element E seg h f respond))))"

lemma edit_frame_ofI:
  "serve_submodel E rq = patched_submodel E seg h f \<Longrightarrow> submodel_segment rq = Some seg \<Longrightarrow>
   (\<And>d d'. f d = Inr d' \<Longrightarrow> id_of d' = id_of d) \<Longrightarrow> edit_frame_of E rq seg"
  "serve_submodel E rq = write_element E seg h f respond \<Longrightarrow> submodel_segment rq = Some seg \<Longrightarrow>
   (\<And>d d'. f d = Inr d' \<Longrightarrow> id_of d' = id_of d) \<Longrightarrow> edit_frame_of E rq seg"
  unfolding edit_frame_of_def by blast+

lemma edits_frame:
  assumes "edits rq"
  shows "\<exists>seg. edit_frame_of E rq seg"
proof (cases rq)
  case (PatchSubmodelValue s p m)
  show ?thesis unfolding PatchSubmodelValue
    by (rule exI, rule edit_frame_ofI(1) [OF trans [OF serve_submodel.simps(11) patch_submodel_value_def]], simp, erule values_patch_id)
next
  case (PatchSubmodelMetadata s u m)
  show ?thesis unfolding PatchSubmodelMetadata
    by (rule exI, rule edit_frame_ofI(1) [OF trans [OF serve_submodel.simps(13) patch_submodel_metadata_def]], simp, erule metadata_patch_id)
next
  case (PutAttachment s p bs ct m)
  show ?thesis unfolding PutAttachment
    by (rule exI, rule edit_frame_ofI(1) [OF trans [OF serve_submodel.simps(27) put_element_attachment_def]], simp, erule attachment_ids(1))
next
  case (DeleteAttachment s p m)
  show ?thesis unfolding DeleteAttachment
    by (rule exI, rule edit_frame_ofI(1) [OF trans [OF serve_submodel.simps(28) delete_element_attachment_def]], simp, erule attachment_ids(2))
next
  case (PostElement s el)
  show ?thesis unfolding PostElement
    by (rule exI, rule edit_frame_ofI(2) [OF trans [OF serve_submodel.simps(29) post_submodel_element_def]], simp, erule edit_ids(1))
next
  case (PostNestedElement s p el)
  show ?thesis unfolding PostNestedElement
    by (rule exI, rule edit_frame_ofI(2) [OF trans [OF serve_submodel.simps(30) post_nested_submodel_element_def]], simp, erule edit_ids(1))
next
  case (PutElement s p el m)
  show ?thesis unfolding PutElement
    by (rule exI, rule edit_frame_ofI(2) [OF trans [OF serve_submodel.simps(31) put_submodel_element_def]], simp, erule edit_ids(2))
next
  case (PatchElementValue s p v m)
  show ?thesis unfolding PatchElementValue
    by (rule exI, rule edit_frame_ofI(2) [OF trans [OF serve_submodel.simps(32) patch_element_value_def]], simp, erule edit_ids(4))
next
  case (PatchElement s p u m)
  show ?thesis unfolding PatchElement
    by (rule exI, rule edit_frame_ofI(2) [OF trans [OF serve_submodel.simps(33) patch_submodel_element_def]], simp, erule edit_ids(3))
next
  case (DeleteElement s p)
  show ?thesis unfolding DeleteElement
    by (rule exI, rule edit_frame_ofI(2) [OF trans [OF serve_submodel.simps(34) delete_submodel_element_def]], simp, erule edit_ids(5))
qed (use assms in simp_all)

text \<open>The frames of the handlers.\<close>

abbreviation keeps :: "'s env \<Rightarrow> ('s, 'a) handler \<Rightarrow> bool" where
  "keeps E h \<equiv> triple (session E) h (\<lambda>_. session E) (\<lambda>_. store_ok E)"

lemma keeps_decode:
  assumes "canonical_segment seg" and "\<And>i. canonical seg i \<Longrightarrow> keeps E (f i)"
  shows "keeps E (bindH (decode_identifier seg) f)"
  using assms
  by (intro triple_bind [OF triple_decode] triple_conj) (auto simp: canonical_segment_def session_store)

lemma keeps_pure: "keeps E (pureH m)"
  by (rule triple_pure) (auto simp: session_store)

lemma keeps_ret: "keeps E (retH a)"
  by (rule triple_ret)

lemma keeps_fail: "keeps E (failH f)"
  by (rule triple_fail) (rule session_store)

lemma keeps_read: "keeps E (readH f)"
  by (rule triple_weaken [OF triple_read]) auto

lemma keeps_cache: "keeps E (cacheH f)"
  by (rule triple_weaken [OF triple_cache]) auto

lemma keeps_then: "keeps E m \<Longrightarrow> (\<And>a. keeps E (f a)) \<Longrightarrow> keeps E (bindH m f)"
  by (rule triple_bind)

lemma keeps_precondition: "keeps E (check_precondition h e)"
  by (rule triple_precondition) (rule session_store)

lemma keeps_load:
  assumes "env_ok E" and "canonical seg i"
  shows "keeps E (load_submodel E seg i)"
  by (rule triple_weaken [OF triple_load [OF assms]]) auto

named_theorems kept_steps \<open>steps that keep the tables and caches in agreement\<close>

declare keeps_pure [kept_steps] keeps_ret [kept_steps] keeps_fail [kept_steps]
  keeps_read [kept_steps] keeps_then [kept_steps] keeps_precondition [kept_steps] keeps_load [kept_steps]
  triple_option [kept_steps] triple_sum [kept_steps] triple_prod [kept_steps] triple_if [kept_steps]

lemma keeps_load_element [kept_steps]:
  assumes "env_ok E" and "canonical seg i"
  shows "keeps E (load_element E seg i path)"
  unfolding load_element_def by (intro kept_steps assms)

lemma keeps_of_submodel [kept_steps]:
  assumes "env_ok E" and "canonical_segment seg"
  shows "keeps E (of_submodel E seg f)" and "keeps E (of_elements E seg f)" and "keeps E (of_element E seg path g)"
  unfolding of_submodel_def of_elements_def of_element_def
  by (rule keeps_decode [OF assms(2)], intro kept_steps assms(1), assumption)+

text \<open>The current document has the identifier it was asked for.\<close>

lemma session_id:
  assumes "session E w" and "get_bytes_by_id i (submodels (db w)) = Some (d, e)"
  shows "id_of d = i"
proof -
  from assms(2) obtain r where r: "row_by_id i (submodels (db w)) = Some r" "row_doc r = d"
    by (auto simp: get_bytes_by_id_def)
  from row_by_idD [OF r(1)] assms(1) r(2) show ?thesis
    by (auto simp: session_def store_ok_def tables_ok_def rows_ok_def row_ok_def)
qed

lemma keeps_current:
  assumes "\<And>d e. id_of d = i \<Longrightarrow> keeps E (f (d, e))"
  shows "keeps E (bindH (current_submodel i) f)"
proof (rule triple_bind [OF triple_current])
  fix p :: "obj \<times> string"
  obtain d e where p: "p = (d, e)" by (cases p)
  have "keeps E (f (d, e))" if "id_of d = i" using assms that .
  moreover have "id_of d = i" if "session E w \<and> get_bytes_by_id i (submodels (db w)) = Some (d, e)" for w
    using that session_id by blast
  ultimately have "triple (\<lambda>w. session E w \<and> get_bytes_by_id i (submodels (db w)) = Some (d, e))
    (f (d, e)) (\<lambda>_. session E) (\<lambda>_. store_ok E)"
    unfolding triple_def by metis
  then show "triple (case p of (d, e) \<Rightarrow> \<lambda>w. session E w \<and> get_bytes_by_id i (submodels (db w)) = Some (d, e))
    (f p) (\<lambda>_. session E) (\<lambda>_. store_ok E)" by (simp add: p)
qed

lemma keeps_patched:
  assumes "env_ok E" and "canonical_segment seg" and "\<And>d d'. f d = Inr d' \<Longrightarrow> id_of d' = id_of d"
  shows "keeps E (patched_submodel E seg h f)" and "keeps E (write_element E seg h f respond)"
  unfolding patched_submodel_def write_element_def
  by (rule keeps_decode [OF assms(2)], rule keeps_current,
      intro kept_steps triple_persist [OF assms(1)]; simp add: assms(3))+

section \<open>Every request keeps tables and caches in agreement\<close>

lemma keeps_query [kept_steps]: "keeps E (query_submodels E h q)"
  unfolding query_submodels_def by (intro kept_steps)

lemma keeps_lists:
  "keeps E (get_all_submodels E h q)" "keeps E (get_all_submodels_metadata E h q)"
  "keeps E (get_all_submodels_reference E h q)" "keeps E (get_all_submodels_path E h q)"
  "keeps E (get_all_submodels_value E h q)"
  unfolding get_all_submodels_def get_all_submodels_metadata_def get_all_submodels_reference_def
    get_all_submodels_path_def get_all_submodels_value_def
  by (intro kept_steps)+

lemma keeps_element:
  assumes "env_ok E" and "canonical_segment seg"
  shows "keeps E (get_submodel_elements E seg h)" and "keeps E (get_submodel_element_by_path E seg p h)"
  unfolding get_submodel_elements_def get_submodel_element_by_path_def
  by (rule keeps_decode [OF assms(2)], intro kept_steps assms(1), assumption)+

lemma keeps_attachment:
  assumes "env_ok E" and "canonical_segment seg"
  shows "keeps E (get_element_attachment E seg p)"
proof -
  have stream: "keeps E (stream_blob_by_id b)" for b
    by (auto simp: triple_def stream_blob_by_id_def session_store split: option.split)
  show ?thesis
    unfolding get_element_attachment_def build_attachment_response_def
    by (rule keeps_decode [OF assms(2)], intro kept_steps assms(1) stream) (auto intro!: kept_steps stream split: json.split)
qed

lemma keeps_get:
  assumes "env_ok E" and "canonical_segment seg"
  shows "keeps E (get_submodel_by_id E seg h m)"
proof -
  have K: "kv_ok (redis E)" using assms(1) by (simp add: env_ok_def)
  have stored: "triple (\<lambda>w. session E w \<and> get_bytes_by_id i (submodels (db w)) = Some (d, e))
      (set_cache (set_submodel (redis E) seg d e)) (\<lambda>_. session E) (\<lambda>_. store_ok E)" if "canonical seg i" for i d e
  proof (rule tripleI)
    fix w w' :: "'a world" and a
    assume w: "session E w \<and> get_bytes_by_id i (submodels (db w)) = Some (d, e)"
      and run: "set_cache (set_submodel (redis E) seg d e) w = (w', Inr a)"
    then have "submodels_fresh E (db w) (cache w')"
      using canonical_eq [OF _ that]
      by (auto simp: session_def store_ok_def submodels_fresh_def handlers cached [OF K] split: if_splits)
    with w run show "session E w'"
      by (auto simp: session_def store_ok_def shells_fresh_def values_fresh_def handlers cached [OF K])
  qed (simp add: set_cache_def)
  show ?thesis
    unfolding get_submodel_by_id_def
  proof (rule keeps_decode [OF assms(2)], rule keeps_then [OF keeps_cache])
    fix i cached assume i: "canonical seg i"
    show "keeps E (case if is_fast_path h then cached else None of
        None \<Rightarrow> bindH (current_submodel i) (\<lambda>(d, e).
          bindH (set_cache (set_submodel (redis E) seg d e)) (\<lambda>_.
            if not_modified m e then retH response_304
            else if is_fast_path h then retH (json_response_with_etag (JDict d) e 200 None)
            else bindH (pureH (apply_projection (JDict d) (modifiers_of h))) (\<lambda>j.
              retH (json_response_with_etag j e 200 None))))
      | Some (d, e) \<Rightarrow>
          retH (if not_modified m e then response_304 else json_response_with_etag (JDict d) e 200 None))"
    proof (rule triple_option)
      show "keeps E (bindH (current_submodel i) (\<lambda>(d, e).
          bindH (set_cache (set_submodel (redis E) seg d e)) (\<lambda>_.
            if not_modified m e then retH response_304
            else if is_fast_path h then retH (json_response_with_etag (JDict d) e 200 None)
            else bindH (pureH (apply_projection (JDict d) (modifiers_of h))) (\<lambda>j.
              retH (json_response_with_etag j e 200 None)))))"
      proof (rule triple_bind [OF triple_current])
        fix p :: "obj \<times> string"
        obtain d e where p: "p = (d, e)" by (cases p)
        have "triple (\<lambda>w. session E w \<and> get_bytes_by_id i (submodels (db w)) = Some (d, e))
            (bindH (set_cache (set_submodel (redis E) seg d e)) (\<lambda>_.
              if not_modified m e then retH response_304
              else if is_fast_path h then retH (json_response_with_etag (JDict d) e 200 None)
              else bindH (pureH (apply_projection (JDict d) (modifiers_of h))) (\<lambda>j.
                retH (json_response_with_etag j e 200 None)))) (\<lambda>_. session E) (\<lambda>_. store_ok E)"
          by (rule triple_bind [OF stored [OF i]]) (intro kept_steps)
        then show "triple (case p of (d, e) \<Rightarrow> \<lambda>w. session E w \<and> get_bytes_by_id i (submodels (db w)) = Some (d, e))
            (case p of (d, e) \<Rightarrow> bindH (set_cache (set_submodel (redis E) seg d e)) (\<lambda>_.
              if not_modified m e then retH response_304
              else if is_fast_path h then retH (json_response_with_etag (JDict d) e 200 None)
              else bindH (pureH (apply_projection (JDict d) (modifiers_of h))) (\<lambda>j.
                retH (json_response_with_etag j e 200 None)))) (\<lambda>_. session E) (\<lambda>_. store_ok E)"
          by (simp add: p)
      qed
    qed (intro kept_steps)
  qed
qed

lemma changed_session:
  assumes E: "env_ok E" and seg: "canonical seg i" and w: "changed_submodel E i p w"
    and s1: "s1 = (case p of None \<Rightarrow> delete_submodel (redis E) seg (cache w)
                  | Some (d, e) \<Rightarrow> set_submodel (redis E) seg d e (cache w))"
    and ev: "\<not> ev_shell ev" "ev_id ev = i" "content_of ev = p"
  shows "session E (w\<lparr>db := tx w, cache := invalidate_submodel_elements (redis E) seg s1, bus := bus w @ [ev]\<rparr>)"
proof -
  have sh: "shells (tx w) = shells (db w)"
    and get: "\<And>j. get_bytes_by_id j (submodels (tx w)) = (if j = i then p else get_bytes_by_id j (submodels (db w)))"
    and fresh: "shells_fresh E (db w) (cache w)" "submodels_fresh E (db w) (cache w)" "values_fresh E (db w) (cache w)"
    using w by (simp_all add: changed_submodel_def store_ok_def)
  have "logged (tx w) (bus w @ [ev])"
    using w ev get by (intro logged_submodel [OF _ _ sh]) (simp_all add: changed_submodel_def store_ok_def)
  with submodel_cached [OF E seg fresh sh get s1] w show ?thesis
    by (simp add: session_def store_ok_def changed_submodel_def)
qed

lemma keeps_delete:
  assumes "env_ok E" and "canonical_segment seg"
  shows "keeps E (delete_submodel_by_id E seg)"
  unfolding delete_submodel_by_id_def
proof (rule keeps_decode [OF assms(2)])
  fix i assume i: "canonical seg i"
  have del: "triple (session E) (repoH (submodel_delete i))
      (\<lambda>b w. if b then changed_submodel E i None w else session E w) (\<lambda>_. store_ok E)"
  proof (rule triple_repo)
    fix w w' b assume "session E w" and run: "submodel_delete i w = (w', Inr b)"
    with submodel_delete_changes [of E w i w'] submodel_delete_effect(4) [OF run]
    show "if b then changed_submodel E i None w' else session E w'" by (cases b) auto
  qed (use submodel_delete_effect(3) in blast)
  have tail: "triple (changed_submodel E i None)
      (bindH commit (\<lambda>_. bindH (set_cache (delete_submodel (redis E) seg)) (\<lambda>_.
       bindH (set_cache (invalidate_submodel_elements (redis E) seg)) (\<lambda>_.
       bindH (publish (submodel_deleted i seg)) (\<lambda>_. retH response_204)))))
      (\<lambda>_. session E) (\<lambda>_. store_ok E)"
    using changed_session [OF assms(1) i, of None _ _ "submodel_deleted i seg", OF _ refl]
    by (auto simp: triple_def handlers submodel_deleted_def content_of_def)
  show "keeps E (bindH (repoH (submodel_delete i)) (\<lambda>deleted.
      if \<not> deleted then failH (NotFound ''Submodel'' i)
      else bindH commit (\<lambda>_. bindH (set_cache (delete_submodel (redis E) seg)) (\<lambda>_.
       bindH (set_cache (invalidate_submodel_elements (redis E) seg)) (\<lambda>_.
       bindH (publish (submodel_deleted i seg)) (\<lambda>_. retH response_204))))))"
  proof (rule triple_bind [OF del])
    fix b :: bool
    show "triple (\<lambda>w. if b then changed_submodel E i None w else session E w)
        (if \<not> b then failH (NotFound ''Submodel'' i)
         else bindH commit (\<lambda>_. bindH (set_cache (delete_submodel (redis E) seg)) (\<lambda>_.
           bindH (set_cache (invalidate_submodel_elements (redis E) seg)) (\<lambda>_.
           bindH (publish (submodel_deleted i seg)) (\<lambda>_. retH response_204)))))
        (\<lambda>_. session E) (\<lambda>_. store_ok E)"
      by (cases b) (simp_all add: tail keeps_fail)
  qed
qed

lemma keeps_put:
  assumes "env_ok E" and "canonical_segment seg"
  shows "keeps E (put_submodel_by_id E seg m h)"
  unfolding put_submodel_by_id_def
proof (rule keeps_decode [OF assms(2)], rule triple_if)
  fix i assume i: "canonical seg i" and "\<not> i \<noteq> id_of m"
  then have m: "id_of m = i" by simp
  show "keeps E (bindH (readH (\<lambda>t. get_bytes_by_id i (submodels t))) (\<lambda>current.
         case current of
           None \<Rightarrow>
             bindH (catchH (submodel_create E m)) (\<lambda>(d, e).
             bindH (submodel_written E CREATED i seg d e m) (\<lambda>_.
               retH (json_response_with_etag (JDict d) e 201 (Some (''/submodels/'' @ seg)))))
         | Some (_, etag0) \<Rightarrow>
             bindH (check_precondition h etag0) (\<lambda>_.
             bindH (catchH (submodel_update E i m)) (\<lambda>r.
               case r of
                 None \<Rightarrow> failH (Unhandled (Python TypeError))
               | Some (d, e) \<Rightarrow>
                   bindH (submodel_written E UPDATED i seg d e m) (\<lambda>_. retH (no_content_response e))))))"
    by (rule keeps_then [OF keeps_read], rule triple_option, rule triple_bind [OF create_triple [OF assms(1) m]],
        rule triple_prod_pre, rule triple_bind [OF triple_written [OF assms(1) i]], rule triple_ret, assumption,
        rule triple_prod, rule keeps_then [OF keeps_precondition], rule triple_bind [OF update_triples(2) [OF m]],
        rule triple_option_pre, rule keeps_fail, rule triple_prod_pre,
        rule triple_bind [OF triple_written [OF assms(1) i]], rule triple_ret, assumption)
qed (rule keeps_fail)

lemma keeps_post:
  assumes "env_ok E"
  shows "keeps E (post_submodel E m)"
proof -
  have K: "kv_ok (redis E)" using assms by (simp add: env_ok_def)
  let ?i = "id_of m" let ?seg = "b64_of ?i"
  have posted: "session E (w\<lparr>db := tx w, cache := set_submodel (redis E) ?seg d e (cache w),
      bus := bus w @ [submodel_event CREATED ?i ?seg d e m]\<rparr>)"
    if w: "changed_submodel E ?i (Some (d, e)) w" and new: "get_bytes_by_id ?i (submodels (db w)) = None" for w d e
  proof -
    have sh: "shells (tx w) = shells (db w)"
      and get: "\<And>j. get_bytes_by_id j (submodels (tx w)) =
        (if j = ?i then Some (d, e) else get_bytes_by_id j (submodels (db w)))"
      and fresh: "shells_fresh E (db w) (cache w)" "submodels_fresh E (db w) (cache w)" "values_fresh E (db w) (cache w)"
      using w by (simp_all add: changed_submodel_def store_ok_def)
    have "submodels_fresh E (tx w) (set_submodel (redis E) ?seg d e (cache w))"
      using fresh(2) get canonical_b64_of
      by (auto simp: submodels_fresh_def cached [OF K] split: if_splits)
    moreover have "shells_fresh E (tx w) (set_submodel (redis E) ?seg d e (cache w))"
      using fresh(1) sh by (simp add: shells_fresh_def cached [OF K])
    moreover have "value_of (tx w) j path v" if "value_of (db w) j path v" for j path v
      using that new get by (auto simp: value_of_def)
    with fresh(3) have "values_fresh E (tx w) (set_submodel (redis E) ?seg d e (cache w))"
      by (simp add: values_fresh_def cached [OF K])
    moreover have "logged (tx w) (bus w @ [submodel_event CREATED ?i ?seg d e m])"
      using w get by (intro logged_submodel [OF _ _ sh])
        (simp_all add: changed_submodel_def store_ok_def submodel_event_def content_of_def)
    ultimately show ?thesis using w by (simp add: session_def store_ok_def changed_submodel_def)
  qed
  show ?thesis
  proof (rule tripleI)
    fix w w' a assume w: "session E w" and run: "post_submodel E m w = (w', Inr a)"
    then have new: "get_bytes_by_id ?i (submodels (db w)) = None"
      by (auto simp: post_submodel_def handlers exists_row_def get_bytes_by_id_def session_def split: if_splits)
    from run obtain w1 d e where create: "submodel_create E m w = (w1, Inr (d, e))"
      and w': "w' = w1\<lparr>db := tx w1, cache := set_submodel (redis E) ?seg d e (cache w1),
        bus := bus w1 @ [submodel_event CREATED ?i ?seg d e m]\<rparr>"
      by (auto simp: post_submodel_def handlers split: if_splits prod.splits sum.splits)
    from submodel_create_effect(1) [OF create] new have "get_bytes_by_id ?i (submodels (db w1)) = None"
      by (simp add: quiet_def)
    with posted [OF submodel_create_changes [OF w assms refl create]] show "session E w'"
      unfolding w' by blast
  next
    fix w w' e assume w: "session E w" and run: "post_submodel E m w = (w', Inl e)"
    then consider "w' = w" | e' where "submodel_create E m w = (w', Inl e')"
      by (auto simp: post_submodel_def handlers split: if_splits prod.splits sum.splits)
    then show "store_ok E w'"
      using store_ok_quiet [OF session_store [OF w]] submodel_create_effect(1) session_store [OF w] by cases blast+
  qed
qed

lemma keeps_value:
  assumes "env_ok E" and "canonical_segment seg"
  shows "keeps E (get_element_value E seg path)"
proof -
  have K: "kv_ok (redis E)" using assms(1) by (simp add: env_ok_def)
  show ?thesis
    unfolding get_element_value_def
  proof (rule keeps_decode [OF assms(2)], rule keeps_then [OF keeps_cache], rule triple_option)
    fix i assume i: "canonical seg i"
    have loaded: "triple (session E) (load_element E seg i path)
      (\<lambda>(d, x) w. session E w \<and> (\<exists>e. get_bytes_by_id i (submodels (db w)) = Some (d, e)) \<and>
         navigate_id_short_path d path = Inr (Some x)) (\<lambda>_. store_ok E)"
      unfolding load_element_def
      by (rule triple_bind [OF triple_load [OF assms(1) i]])
        (auto simp: triple_def handlers session_store liftE_eq_Inr split: sum.splits option.split)
    have stored: "triple (\<lambda>w. session E w \<and> value_of (db w) i path v)
      (set_cache (set_element_value (redis E) seg path v)) (\<lambda>_. session E) (\<lambda>_. store_ok E)" for v
    proof (rule tripleI)
      fix w w' :: "'a world" and a
      assume w: "session E w \<and> value_of (db w) i path v"
        and run: "set_cache (set_element_value (redis E) seg path v) w = (w', Inr a)"
      have "values_fresh E (db w) (cache w')"
        using w run canonical_colon_free canonical_colon_free [OF i] canonical_eq [OF _ i]
        by (auto simp: session_def store_ok_def values_fresh_def handlers cached [OF K] split: if_splits)
      with w run show "session E w'"
        by (auto simp: session_def store_ok_def shells_fresh_def submodels_fresh_def handlers cached [OF K])
    qed (simp add: set_cache_def)
    show "keeps E (bindH (load_element E seg i path) (\<lambda>(d, x).
           bindH (pureH (extract_value x)) (\<lambda>v.
           bindH (set_cache (set_element_value (redis E) seg path v)) (\<lambda>_. retH (json_response v)))))"
    proof (rule triple_bind [OF loaded], rule triple_prod_pre)
      fix d x
      show "triple (case (d, x) of (d, x) \<Rightarrow> \<lambda>w. session E w \<and> (\<exists>e. get_bytes_by_id i (submodels (db w)) = Some (d, e)) \<and>
          navigate_id_short_path d path = Inr (Some x))
        (bindH (pureH (extract_value x)) (\<lambda>v.
         bindH (set_cache (set_element_value (redis E) seg path v)) (\<lambda>_. retH (json_response v))))
        (\<lambda>_. session E) (\<lambda>_. store_ok E)"
      proof (rule triple_bind [where Q' = "\<lambda>v w. session E w \<and> value_of (db w) i path v"])
        show "triple (case (d, x) of (d, x) \<Rightarrow> \<lambda>w. session E w \<and> (\<exists>e. get_bytes_by_id i (submodels (db w)) = Some (d, e)) \<and>
            navigate_id_short_path d path = Inr (Some x)) (pureH (extract_value x))
          (\<lambda>v w. session E w \<and> value_of (db w) i path v) (\<lambda>_. store_ok E)"
          by (rule triple_pure) (auto simp: value_of_def session_store)
      qed (rule triple_bind [OF stored], rule keeps_ret)
    qed
  qed (rule keeps_ret)
qed

lemma keeps_edits:
  assumes "env_ok E" and "canonical_submodel rq" and "edits rq"
  shows "keeps E (serve_submodel E rq)"
proof -
  from edits_frame [OF assms(3)] obtain seg where frame: "edit_frame_of E rq seg" by blast
  then have "canonical_segment seg" using assms(2) by (simp add: edit_frame_of_def canonical_submodel_def)
  with frame keeps_patched [OF assms(1)] show ?thesis unfolding edit_frame_of_def by metis
qed

lemma keeps_serve:
  assumes "env_ok E" and "canonical_submodel rq"
  shows "keeps E (serve_submodel E rq)"
proof (cases "edits rq")
  case False
  with assms show ?thesis
    by (cases rq) (simp_all add: canonical_submodel_def keeps_lists keeps_post keeps_get keeps_put keeps_delete keeps_value
      keeps_element keeps_attachment keeps_of_submodel get_submodel_value_def get_submodel_metadata_def
      get_submodel_reference_def get_submodel_path_def get_all_submodel_elements_metadata_def
      get_all_submodel_elements_value_def get_all_submodel_elements_reference_def
      get_all_submodel_elements_path_def get_element_metadata_def get_element_reference_def get_element_path_def)
qed (rule keeps_edits [OF assms])

end
