(* ===== verification/ShellApi.thy ===== *)
theory ShellApi
  imports SubmodelApi
begin

text \<open>
  The repository of shells over HTTP (\<open>src/titan/api/routers/aas_repository.py\<close>): shells, their asset
  information with the thumbnail, their references to submodels, and the submodels as seen through a
  shell that references them. The invocation of operations is left out.

  The handlers below a shell repeat those of the submodel repository with another way to the document:
  the shell is loaded, the reference checked, and the submodel taken from the cache when it is there,
  for writes too.
\<close>

section \<open>Paths and content types\<close>

text \<open>
  \<open>PathType\<close> of \<open>core/model/identifiers.py\<close>: at most 2048 characters, and the pattern, whose last
  alternative is any text without white space.
\<close>

definition white_space :: "char \<Rightarrow> bool" where
  "white_space c =
     (let n = (of_char c :: nat) in n \<in> {9..13} \<or> n = 32 \<or> n = 133 \<or> n = 160)"

definition path_type :: "string \<Rightarrow> bool" where
  "path_type s = (s \<noteq> [] \<and> length s \<le> 2048 \<and> \<not> list_ex white_space s)"

text \<open>
  \<open>ContentType\<close>: at most 128 characters, \<open>type/subtype\<close> with parameters. A quoted text escapes with two
  backslashes (the pattern doubles them in a raw string).
\<close>

definition token_char :: "char \<Rightarrow> bool" where
  "token_char c =
     (c \<in> set ''!#$%&*+-.^_`|~'' \<or> c = CHR 0x27 \<or> (let n = (of_char c :: nat) in
        n \<in> {48..57} \<or> n \<in> {65..90} \<or> n \<in> {97..122}))"

definition plain_quoted :: "char \<Rightarrow> bool" where
  "plain_quoted c =
     (let n = (of_char c :: nat) in n = 9 \<or> n = 32 \<or> n = 33 \<or> n \<in> {35..91} \<or> n \<in> {93..126} \<or> 128 \<le> n)"

definition escaped_quoted :: "char \<Rightarrow> bool" where
  "escaped_quoted c = (let n = (of_char c :: nat) in n = 9 \<or> n \<in> {32..126} \<or> 128 \<le> n)"

definition backslash :: char where "backslash = CHR 0x5C"

text \<open>The rest after the closing quote.\<close>

fun after_quoted :: "string \<Rightarrow> string option" where
  "after_quoted [] = None"
| "after_quoted (c # s) =
     (if c = quote then Some s
      else if plain_quoted c then after_quoted s
      else if c = backslash then
        (case s of
           d # e # s' \<Rightarrow> if d = backslash \<and> escaped_quoted e then after_quoted s' else None
         | _ \<Rightarrow> None)
      else None)"

text \<open>The rest after one or more token characters.\<close>

definition after_token :: "string \<Rightarrow> string option" where
  "after_token s = (case s of [] \<Rightarrow> None | c # _ \<Rightarrow> if token_char c then Some (dropWhile token_char s) else None)"

definition after_char :: "char \<Rightarrow> string \<Rightarrow> string option" where
  "after_char c s = (case s of d # s' \<Rightarrow> if c = d then Some s' else None | [] \<Rightarrow> None)"

definition skip_blanks :: "string \<Rightarrow> string" where
  "skip_blanks s = dropWhile (\<lambda>c. c = CHR 0x20 \<or> c = CHR 0x09) s"

definition after_parameter :: "string \<Rightarrow> string option" where
  "after_parameter s =
     Option.bind (after_char (CHR '';'') (skip_blanks s)) (\<lambda>s.
     Option.bind (after_token (skip_blanks s)) (\<lambda>s.
     Option.bind (after_char (CHR ''='') s) (\<lambda>s.
       case s of
         c # s' \<Rightarrow> if c = quote then after_quoted s' else after_token s
       | [] \<Rightarrow> None)))"

text \<open>A parameter takes at least one character, so the length bounds their number.\<close>

fun parameters :: "nat \<Rightarrow> string \<Rightarrow> bool" where
  "parameters 0 s = (s = [])"
| "parameters (Suc n) s = (s = [] \<or> (case after_parameter s of None \<Rightarrow> False | Some s' \<Rightarrow> parameters n s'))"

definition content_type_ok :: "string \<Rightarrow> bool" where
  "content_type_ok s =
     (length s \<le> 128 \<and>
      (case Option.bind (after_token s) (\<lambda>s. Option.bind (after_char (CHR ''/'') s) after_token) of
         None \<Rightarrow> False
       | Some s' \<Rightarrow> parameters (length s') s'))"

section \<open>References to submodels\<close>

definition submodel_key_value :: "json \<Rightarrow> json option" where
  "submodel_key_value k =
     (case k of
        JDict d \<Rightarrow>
          if dget d ''type'' = JStr ''Submodel'' \<and> truthy (dget d ''value'') then Some (dget d ''value'') else None
      | _ \<Rightarrow> None)"

text \<open>The value of the first key that has one.\<close>

definition extract_submodel_id_from_reference :: "obj \<Rightarrow> json option" where
  "extract_submodel_id_from_reference r =
     (case dget r ''keys'' of
        JList ks \<Rightarrow> (case List.map_filter submodel_key_value ks of [] \<Rightarrow> None | v # _ \<Rightarrow> Some v)
      | _ \<Rightarrow> None)"

definition reference_target :: "json \<Rightarrow> json option" where
  "reference_target r = (case r of JDict d \<Rightarrow> extract_submodel_id_from_reference d | _ \<Rightarrow> None)"

definition extract_submodel_ids :: "json list \<Rightarrow> json list" where
  "extract_submodel_ids rs = List.map_filter reference_target rs"

definition is_id :: "json \<Rightarrow> nat list \<Rightarrow> bool" where
  "is_id j i = (case j of JStr s \<Rightarrow> code_points s = i | _ \<Rightarrow> False)"

fun find_submodel_reference :: "json list \<Rightarrow> nat list \<Rightarrow> nat option" where
  "find_submodel_reference [] i = None"
| "find_submodel_reference (r # rs) i =
     (case reference_target r of
        Some j \<Rightarrow> if is_id j i then Some 0 else map_option Suc (find_submodel_reference rs i)
      | None \<Rightarrow> map_option Suc (find_submodel_reference rs i))"

text \<open>\<open>aas_doc.get("submodels") or []\<close>, and \<open>[]\<close> when it is no list.\<close>

definition shell_references :: "obj \<Rightarrow> json list" where
  "shell_references d = (case dget d ''submodels'' of JList rs \<Rightarrow> rs | _ \<Rightarrow> [])"

definition references_submodel :: "obj \<Rightarrow> nat list \<Rightarrow> bool" where
  "references_submodel d i = list_ex (\<lambda>j. is_id j i) (extract_submodel_ids (shell_references d))"

definition ensure_submodel_reference :: "obj \<Rightarrow> nat list \<Rightarrow> ('s, unit) handler" where
  "ensure_submodel_reference d i = (if references_submodel d i then retH () else failH (NotFound ''Submodel'' i))"

definition add_reference :: "json \<Rightarrow> obj \<Rightarrow> obj" where
  "add_reference r d = dset ''submodels'' (JList (shell_references d @ [r])) d"

definition remove_reference :: "nat \<Rightarrow> obj \<Rightarrow> obj" where
  "remove_reference n d =
     (let rs = take n (shell_references d) @ drop (Suc n) (shell_references d) in
      dset ''submodels'' (if rs = [] then JNull else JList rs) d)"

section \<open>Steps the handlers share\<close>

definition shell_event :: "event_kind \<Rightarrow> nat list \<Rightarrow> string \<Rightarrow> obj \<Rightarrow> string \<Rightarrow> published" where
  "shell_event k i seg d e =
     \<lparr>ev_shell = True, ev_kind = k, ev_id = i, ev_b64 = seg, ev_doc = Some d, ev_etag = Some e,
      ev_semantic = JNull\<rparr>"

definition shell_deleted :: "nat list \<Rightarrow> string \<Rightarrow> published" where
  "shell_deleted i seg =
     \<lparr>ev_shell = True, ev_kind = DELETED, ev_id = i, ev_b64 = seg, ev_doc = None, ev_etag = None,
      ev_semantic = JNull\<rparr>"

definition shell_missing :: "nat list \<Rightarrow> failure" where
  "shell_missing i = NotFound ''AssetAdministrationShell'' i"

definition current_shell :: "nat list \<Rightarrow> ('s, obj \<times> string) handler" where
  "current_shell i =
     bindH (readH (\<lambda>t. get_bytes_by_id i (shells t))) (\<lambda>r.
       case r of None \<Rightarrow> failH (shell_missing i) | Some de \<Rightarrow> retH de)"

definition load_aas_doc :: "'s env \<Rightarrow> string \<Rightarrow> nat list \<Rightarrow> ('s, obj) handler" where
  "load_aas_doc E seg i =
     bindH (cacheH (get_aas (redis E) seg)) (\<lambda>cached.
       case cached of
         Some (d, e) \<Rightarrow> retH d
       | None \<Rightarrow>
           bindH (current_shell i) (\<lambda>(d, e).
           bindH (set_cache (set_aas (redis E) seg d e)) (\<lambda>_. retH d)))"

definition validate_shell :: "'s env \<Rightarrow> obj \<Rightarrow> ('s, obj) handler" where
  "validate_shell E d = (case valid_shell E d of Inl _ \<Rightarrow> failH BadRequest | Inr m \<Rightarrow> retH m)"

definition shell_written :: "'s env \<Rightarrow> event_kind \<Rightarrow> nat list \<Rightarrow> string \<Rightarrow> obj \<Rightarrow> string \<Rightarrow> ('s, unit) handler" where
  "shell_written E k i seg d e =
     bindH commit (\<lambda>_.
     bindH (set_cache (set_aas (redis E) seg d e)) (\<lambda>_.
       publish (shell_event k i seg d e)))"

text \<open>\<open>missing\<close> is what happens when the row is gone: unpacking \<open>None\<close> raises, where it is not checked.\<close>

definition update_shell :: "'s env \<Rightarrow> failure \<Rightarrow> nat list \<Rightarrow> string \<Rightarrow> obj \<Rightarrow> ('s, string) handler" where
  "update_shell E missing i seg m =
     bindH (repoH (aas_update E i m)) (\<lambda>r.
       case r of
         None \<Rightarrow> failH missing
       | Some (d, e) \<Rightarrow> bindH (shell_written E UPDATED i seg d e) (\<lambda>_. retH e))"

definition persist_aas_update :: "'s env \<Rightarrow> nat list \<Rightarrow> string \<Rightarrow> obj \<Rightarrow> ('s, string) handler" where
  "persist_aas_update E i seg updated =
     bindH (validate_shell E updated) (\<lambda>m. update_shell E (shell_missing i) i seg m)"

definition rewrite_shell :: "'s env \<Rightarrow> nat list \<Rightarrow> string \<Rightarrow> obj \<Rightarrow> ('s, string) handler" where
  "rewrite_shell E i seg updated =
     bindH (validate_shell E updated) (\<lambda>m. update_shell E (Unhandled (Python TypeError)) i seg m)"

definition load_submodel_bytes :: "'s env \<Rightarrow> string \<Rightarrow> nat list \<Rightarrow> ('s, obj \<times> string) handler" where
  "load_submodel_bytes E seg i =
     bindH (cacheH (get_submodel (redis E) seg)) (\<lambda>cached.
       case cached of
         Some p \<Rightarrow> retH p
       | None \<Rightarrow>
           bindH (current_submodel i) (\<lambda>(d, e).
           bindH (set_cache (set_submodel (redis E) seg d e)) (\<lambda>_. retH (d, e))))"

definition load_submodel_for_shell ::
  "'s env \<Rightarrow> string \<Rightarrow> nat list \<Rightarrow> string \<Rightarrow> nat list \<Rightarrow> ('s, obj \<times> string) handler" where
  "load_submodel_for_shell E aseg i seg j =
     bindH (load_aas_doc E aseg i) (\<lambda>a.
     bindH (ensure_submodel_reference a j) (\<lambda>_. load_submodel_bytes E seg j))"

definition persist_submodel_update :: "'s env \<Rightarrow> nat list \<Rightarrow> string \<Rightarrow> obj \<Rightarrow> ('s, obj \<times> string) handler" where
  "persist_submodel_update E j seg updated =
     bindH (validate_submodel E updated) (\<lambda>m.
     bindH (repoH (submodel_update E j m)) (\<lambda>r.
       case r of
         None \<Rightarrow> failH (NotFound ''Submodel'' j)
       | Some (d, e) \<Rightarrow> bindH (submodel_written E UPDATED j seg d e m) (\<lambda>_. retH (d, e))))"

section \<open>Lists of shells\<close>

record shell_query =
  s_limit :: nat
  s_cursor :: "int option"
  s_id_short :: "string option"
  s_asset_ids :: "string list option"

definition matching_asset_id :: "string list \<Rightarrow> json \<Rightarrow> bool" where
  "matching_asset_id ids v = (truthy v \<and> v \<in> JStr ` set ids)"

definition specific_match :: "string list \<Rightarrow> json \<Rightarrow> bool" where
  "specific_match ids x = (case x of JDict s \<Rightarrow> matching_asset_id ids (dget s ''value'') | _ \<Rightarrow> False)"

definition match_asset_ids :: "obj \<Rightarrow> string list \<Rightarrow> py_exn + bool" where
  "match_asset_ids d ids =
     (case dget_or d ''assetInformation'' (JDict []) of
        JDict info \<Rightarrow>
          if matching_asset_id ids (dget info ''globalAssetId'') then Inr True
          else bindE (py_iter (dget_or info ''specificAssetIds'' (JList []))) (\<lambda>xs.
            Inr (list_ex (specific_match ids) xs))
      | _ \<Rightarrow> Inl AttributeError)"

definition shell_passes :: "shell_query \<Rightarrow> obj \<Rightarrow> py_exn + bool" where
  "shell_passes q d =
     (if given (s_id_short q) \<and> dget d ''idShort'' \<noteq> JStr (the (s_id_short q)) then Inr False
      else case s_asset_ids q of
        Some (a # as) \<Rightarrow> match_asset_ids d (a # as)
      | _ \<Rightarrow> Inr True)"

definition kept_shell :: "shell_query \<Rightarrow> (obj \<Rightarrow> py_exn + 'a) \<Rightarrow> obj \<Rightarrow> py_exn + 'a list" where
  "kept_shell q f d = bindE (shell_passes q d) (\<lambda>b. if b then bindE (f d) (\<lambda>x. Inr [x]) else Inr [])"

definition unfiltered :: "http_query \<Rightarrow> shell_query \<Rightarrow> bool" where
  "unfiltered h q = (is_fast_path h \<and> s_id_short q = None \<and> s_asset_ids q = None)"

text \<open>The page of the database, or the first rows with the filter applied to them.\<close>

definition list_shells ::
  "'s env \<Rightarrow> http_query \<Rightarrow> shell_query \<Rightarrow> json \<Rightarrow> (obj \<Rightarrow> py_exn + json) \<Rightarrow> (obj \<Rightarrow> py_exn + json) \<Rightarrow>
   ('s, response) handler" where
  "list_shells E h q no_page f g =
     (if unfiltered h q then
        bindH (readH (\<lambda>t. list_paged_zero_copy (s_limit q) (s_cursor q) None (shells t))) (\<lambda>(ds, c).
        bindH (pureH (mapE f ds)) (\<lambda>xs.
          retH (items_response (JList xs) (if c = None then no_page else cursor_json c))))
      else
        bindH (readH (\<lambda>t. map fst (list_rows E (s_limit q) 0 (shells t)))) (\<lambda>ds.
        bindH (pureH (concatE (kept_shell q g) ds)) (\<lambda>xs. retH (items_response (JList xs) no_cursor))))"

definition aas_metadata_fields :: "string list" where
  "aas_metadata_fields =
     [''modelType'', ''id'', ''idShort'', ''category'', ''description'', ''displayName'',
      ''administration'', ''extensions'', ''embeddedDataSpecifications'', ''derivedFrom'']"

definition extract_aas_metadata :: "obj \<Rightarrow> obj" where
  "extract_aas_metadata d = filter (\<lambda>(k, v). k \<in> set aas_metadata_fields) d"

definition get_all_shells :: "'s env \<Rightarrow> http_query \<Rightarrow> shell_query \<Rightarrow> ('s, response) handler" where
  "get_all_shells E h q =
     list_shells E h q JNull (\<lambda>d. Inr (JDict d))
       (\<lambda>d. if is_fast_path h then Inr (JDict d) else apply_projection (JDict d) (modifiers_of h))"

definition get_all_shells_metadata :: "'s env \<Rightarrow> http_query \<Rightarrow> shell_query \<Rightarrow> ('s, response) handler" where
  "get_all_shells_metadata E h q =
     list_shells E h q no_cursor (\<lambda>d. Inr (JDict (extract_aas_metadata d))) (\<lambda>d. Inr (JDict (extract_aas_metadata d)))"

definition get_all_shell_references :: "'s env \<Rightarrow> http_query \<Rightarrow> shell_query \<Rightarrow> ('s, response) handler" where
  "get_all_shell_references E h q =
     list_shells E h q no_cursor (\<lambda>d. Inr (extract_reference_for_aas d)) (\<lambda>d. Inr (extract_reference_for_aas d))"

section \<open>One shell\<close>

definition post_shell :: "'s env \<Rightarrow> obj \<Rightarrow> ('s, response) handler" where
  "post_shell E m =
     bindH (readH (\<lambda>t. exists_row (id_of m) (shells t))) (\<lambda>there.
       if there then failH (Conflict ''AssetAdministrationShell'' (id_of m))
       else
         bindH (repoH (aas_create E m)) (\<lambda>(d, e).
         bindH (shell_written E CREATED (id_of m) (b64_of (id_of m)) d e) (\<lambda>_.
           retH (json_response_with_etag (JDict d) e 201 (Some (''/shells/'' @ b64_of (id_of m)))))))"

definition get_shell_by_id :: "'s env \<Rightarrow> string \<Rightarrow> http_query \<Rightarrow> string option \<Rightarrow> ('s, response) handler" where
  "get_shell_by_id E seg h if_none_match =
     bindH (decode_identifier seg) (\<lambda>i.
     bindH (cacheH (get_aas (redis E) seg)) (\<lambda>cached.
       case (if is_fast_path h then cached else None) of
         Some (d, e) \<Rightarrow>
           retH (if not_modified if_none_match e then response_304 else json_response_with_etag (JDict d) e 200 None)
       | None \<Rightarrow>
           bindH (current_shell i) (\<lambda>(d, e).
           bindH (set_cache (set_aas (redis E) seg d e)) (\<lambda>_.
             if not_modified if_none_match e then retH response_304
             else if is_fast_path h then retH (json_response_with_etag (JDict d) e 200 None)
             else bindH (pureH (apply_projection (JDict d) (modifiers_of h))) (\<lambda>j.
               retH (json_response_with_etag j e 200 None))))))"

definition put_shell_by_id :: "'s env \<Rightarrow> string \<Rightarrow> obj \<Rightarrow> string option \<Rightarrow> ('s, response) handler" where
  "put_shell_by_id E seg m if_match =
     bindH (decode_identifier seg) (\<lambda>i.
       if i \<noteq> id_of m then failH BadRequest
       else bindH (readH (\<lambda>t. get_bytes_by_id i (shells t))) (\<lambda>current.
         case current of
           None \<Rightarrow>
             bindH (repoH (aas_create E m)) (\<lambda>(d, e).
             bindH (shell_written E CREATED i seg d e) (\<lambda>_.
               retH (json_response_with_etag (JDict d) e 201 (Some (''/shells/'' @ seg)))))
         | Some (_, etag0) \<Rightarrow>
             bindH (check_precondition if_match etag0) (\<lambda>_.
             bindH (update_shell E (Unhandled (Python TypeError)) i seg m) (\<lambda>e. retH (no_content_response e)))))"

definition delete_shell_by_id :: "'s env \<Rightarrow> string \<Rightarrow> ('s, response) handler" where
  "delete_shell_by_id E seg =
     bindH (decode_identifier seg) (\<lambda>i.
     bindH (repoH (aas_delete i)) (\<lambda>deleted.
       if \<not> deleted then failH (shell_missing i)
       else
         bindH commit (\<lambda>_.
         bindH (set_cache (delete_aas (redis E) seg)) (\<lambda>_.
         bindH (publish (shell_deleted i seg)) (\<lambda>_. retH response_204)))))"

definition of_shell :: "'s env \<Rightarrow> string \<Rightarrow> (nat list \<Rightarrow> obj \<Rightarrow> ('s, response) handler) \<Rightarrow> ('s, response) handler" where
  "of_shell E seg f =
     bindH (decode_identifier seg) (\<lambda>i.
     bindH (load_aas_doc E seg i) (\<lambda>d. f i d))"

definition get_shell_metadata :: "'s env \<Rightarrow> string \<Rightarrow> ('s, response) handler" where
  "get_shell_metadata E seg = of_shell E seg (\<lambda>i d. retH (json_response (JDict (extract_aas_metadata d))))"

definition get_shell_reference :: "'s env \<Rightarrow> string \<Rightarrow> ('s, response) handler" where
  "get_shell_reference E seg = of_shell E seg (\<lambda>i d. retH (json_response (extract_reference_for_aas d)))"

section \<open>Asset information\<close>

definition get_asset_information :: "'s env \<Rightarrow> string \<Rightarrow> ('s, response) handler" where
  "get_asset_information E seg =
     of_shell E seg (\<lambda>i d.
       if \<not> truthy (dget d ''assetInformation'') then failH (NotFound ''AssetInformation'' i)
       else retH (json_response (dget d ''assetInformation'')))"

text \<open>A change of the shell: the database's document, the precondition, the new document.\<close>

definition patched_shell ::
  "'s env \<Rightarrow> string \<Rightarrow> string option \<Rightarrow> (nat list \<Rightarrow> obj \<Rightarrow> failure + obj) \<Rightarrow> ('s, response) handler" where
  "patched_shell E seg if_match f =
     bindH (decode_identifier seg) (\<lambda>i.
     bindH (current_shell i) (\<lambda>(d, etag0).
     bindH (check_precondition if_match etag0) (\<lambda>_.
       case f i d of
         Inl e \<Rightarrow> failH e
       | Inr d' \<Rightarrow> bindH (persist_aas_update E i seg d') (\<lambda>e. retH (no_content_response e)))))"

definition put_asset_information :: "'s env \<Rightarrow> string \<Rightarrow> obj \<Rightarrow> string option \<Rightarrow> ('s, response) handler" where
  "put_asset_information E seg info if_match =
     patched_shell E seg if_match (\<lambda>i d. Inr (dset ''assetInformation'' (JDict info) d))"

text \<open>\<open>value or {}\<close>, of which \<open>get\<close> is called next.\<close>

definition dict_or_empty :: "json \<Rightarrow> py_exn + obj" where
  "dict_or_empty v = (if \<not> truthy v then Inr [] else case v of JDict d \<Rightarrow> Inr d | _ \<Rightarrow> Inl AttributeError)"

definition get_asset_information_thumbnail :: "'s env \<Rightarrow> string \<Rightarrow> ('s, response) handler" where
  "get_asset_information_thumbnail E seg =
     of_shell E seg (\<lambda>i d.
       bindH (pureH (bindE (dict_or_empty (dget d ''assetInformation'')) (\<lambda>info.
                dict_or_empty (dget info ''defaultThumbnail'')))) (\<lambda>thumbnail.
         if \<not> truthy (dget thumbnail ''path'') then failH (NotFound ''Thumbnail'' i)
         else bindH (pureH (content_type thumbnail default_type)) (\<lambda>ct.
           case dget thumbnail ''path'' of
             JStr v \<Rightarrow> build_attachment_response v ct
           | _ \<Rightarrow> failH (Unhandled (Python AttributeError)))))"

text \<open>
  \<open>Resource(path=.., content_type=..)\<close> validates; its ValidationError is a ValueError that nobody
  catches.
\<close>

definition thumbnail_resource :: "string \<Rightarrow> nat list \<Rightarrow> failure + obj" where
  "thumbnail_resource ct bs =
     (let path = ''data:'' @ ct @ '';base64,'' @ b64encode bs in
      if path_type path \<and> content_type_ok ct then Inr [(''path'', JStr path), (''contentType'', JStr ct)]
      else Inl (Unhandled (Python ValueError)))"

definition set_thumbnail :: "nat list \<Rightarrow> string option \<Rightarrow> nat list \<Rightarrow> obj \<Rightarrow> failure + obj" where
  "set_thumbnail bs ct i d =
     (let info = dget d ''assetInformation'';
          t = (case ct of Some (c # cs) \<Rightarrow> c # cs | _ \<Rightarrow> default_type) in
      if \<not> truthy info then Inl (NotFound ''AssetInformation'' i)
      else if bs = [] then Inl BadRequest
      else bindE (thumbnail_resource t bs) (\<lambda>r.
        case info of
          JDict a \<Rightarrow> Inr (dset ''assetInformation'' (JDict (dset ''defaultThumbnail'' (JDict r) a)) d)
        | _ \<Rightarrow> Inl (Unhandled (Python TypeError))))"

definition put_asset_information_thumbnail ::
  "'s env \<Rightarrow> string \<Rightarrow> nat list \<Rightarrow> string option \<Rightarrow> string option \<Rightarrow> ('s, response) handler" where
  "put_asset_information_thumbnail E seg bs ct if_match = patched_shell E seg if_match (set_thumbnail bs ct)"

definition drop_thumbnail :: "nat list \<Rightarrow> obj \<Rightarrow> failure + obj" where
  "drop_thumbnail i d =
     (let info = dget d ''assetInformation'' in
      if \<not> truthy info then Inl (NotFound ''Thumbnail'' i)
      else case info of
        JDict a \<Rightarrow>
          if \<not> truthy (dget a ''defaultThumbnail'') then Inl (NotFound ''Thumbnail'' i)
          else Inr (dset ''assetInformation'' (JDict (dpop ''defaultThumbnail'' a)) d)
      | _ \<Rightarrow> Inl (Unhandled (Python AttributeError)))"

definition delete_asset_information_thumbnail ::
  "'s env \<Rightarrow> string \<Rightarrow> string option \<Rightarrow> ('s, response) handler" where
  "delete_asset_information_thumbnail E seg if_match = patched_shell E seg if_match drop_thumbnail"

section \<open>References of a shell\<close>

definition get_submodel_references :: "'s env \<Rightarrow> string \<Rightarrow> nat \<Rightarrow> ('s, response) handler" where
  "get_submodel_references E seg limit =
     of_shell E seg (\<lambda>i d. retH (items_response (JList (take limit (shell_references d))) no_cursor))"

text \<open>The body is a validated reference; the value of its key is a string.\<close>

definition post_submodel_reference :: "'s env \<Rightarrow> string \<Rightarrow> obj \<Rightarrow> ('s, response) handler" where
  "post_submodel_reference E seg r =
     of_shell E seg (\<lambda>i d.
       case extract_submodel_id_from_reference r of
         None \<Rightarrow> failH BadRequest
       | Some (JStr s) \<Rightarrow>
           bindH (readH (\<lambda>t. exists_row (code_points s) (submodels t))) (\<lambda>there.
             if \<not> there then failH (NotFound ''Submodel'' (code_points s))
             else if JStr s \<in> set (extract_submodel_ids (shell_references d)) then
               failH (Conflict ''Submodel'' (code_points s))
             else
               bindH (rewrite_shell E i seg (add_reference (JDict r) d)) (\<lambda>e.
                 retH \<lparr>http_status = 201, http_body = Json (JDict r), http_etag = None,
                   http_location = Some (''/shells/'' @ seg @ ''/submodel-refs/'' @ b64_of (code_points s))\<rparr>))
       | Some _ \<Rightarrow> failH (Unhandled (Python NotModelled)))"

definition delete_submodel_reference :: "'s env \<Rightarrow> string \<Rightarrow> string \<Rightarrow> ('s, response) handler" where
  "delete_submodel_reference E aseg seg =
     bindH (decode_identifier aseg) (\<lambda>i.
     bindH (decode_identifier seg) (\<lambda>j.
     bindH (load_aas_doc E aseg i) (\<lambda>d.
       case find_submodel_reference (shell_references d) j of
         None \<Rightarrow> failH (NotFound ''Submodel'' j)
       | Some n \<Rightarrow> bindH (rewrite_shell E i aseg (remove_reference n d)) (\<lambda>e. retH response_204))))"

end
