(* ===== verification/ShellSubmodelApi.thy ===== *)
theory ShellSubmodelApi
  imports ShellApi
begin

text \<open>
  The second half of \<open>src/titan/api/routers/aas_repository.py\<close>: submodels and their elements as seen
  through a shell that references them, and the requests of the whole router.
\<close>

section \<open>Submodels of a shell\<close>

text \<open>The submodels in the order of the references; one that cannot be loaded fails the request.\<close>

definition load_referenced :: "'s env \<Rightarrow> json \<Rightarrow> ('s, obj) handler" where
  "load_referenced E v =
     (case v of
        JStr s \<Rightarrow>
          bindH (load_submodel_bytes E (b64_of (code_points s)) (code_points s)) (\<lambda>(d, e). retH d)
      | _ \<Rightarrow> failH (Unhandled (Python AttributeError)))"

fun load_all_referenced :: "'s env \<Rightarrow> (obj \<Rightarrow> py_exn + json) \<Rightarrow> json list \<Rightarrow> ('s, json list) handler" where
  "load_all_referenced E f [] = retH []"
| "load_all_referenced E f (v # vs) =
     bindH (load_referenced E v) (\<lambda>d.
     bindH (pureH (f d)) (\<lambda>x.
     bindH (load_all_referenced E f vs) (\<lambda>xs. retH (x # xs))))"

definition get_submodels_for_shell :: "'s env \<Rightarrow> string \<Rightarrow> nat \<Rightarrow> http_query \<Rightarrow> ('s, response) handler" where
  "get_submodels_for_shell E aseg limit h =
     of_shell E aseg (\<lambda>i a.
       bindH (load_all_referenced E
           (\<lambda>d. if is_fast_path h then Inr (JDict d) else apply_projection (JDict d) (modifiers_of h))
           (take limit (extract_submodel_ids (shell_references a)))) (\<lambda>items.
         retH (items_response (JList items) no_cursor)))"

text \<open>The frame of the handlers below a shell: both identifiers, the reference, the submodel.\<close>

definition scoped ::
  "'s env \<Rightarrow> string \<Rightarrow> string \<Rightarrow> (nat list \<Rightarrow> obj \<Rightarrow> string \<Rightarrow> ('s, response) handler) \<Rightarrow> ('s, response) handler" where
  "scoped E aseg seg f =
     bindH (decode_identifier aseg) (\<lambda>i.
     bindH (decode_identifier seg) (\<lambda>j.
     bindH (load_submodel_for_shell E aseg i seg j) (\<lambda>(d, e). f j d e)))"

definition get_submodel_by_id_for_shell ::
  "'s env \<Rightarrow> string \<Rightarrow> string \<Rightarrow> http_query \<Rightarrow> string option \<Rightarrow> ('s, response) handler" where
  "get_submodel_by_id_for_shell E aseg seg h if_none_match =
     scoped E aseg seg (\<lambda>j d e.
       if not_modified if_none_match e then retH response_304
       else if is_fast_path h then retH (json_response_with_etag (JDict d) e 200 None)
       else bindH (pureH (apply_projection (JDict d) (modifiers_of h))) (\<lambda>x.
         retH (json_response_with_etag x e 200 None)))"

text \<open>The reference that \<open>PUT\<close> adds to the shell.\<close>

definition reference_to :: "obj \<Rightarrow> json" where
  "reference_to m =
     JDict [(''type'', JStr ''ModelReference''),
            (''keys'', JList [JDict [(''type'', JStr ''Submodel''), (''value'', dget m ''id'')]])]"

definition reference_shell :: "'s env \<Rightarrow> string \<Rightarrow> nat list \<Rightarrow> obj \<Rightarrow> nat list \<Rightarrow> obj \<Rightarrow> ('s, unit) handler" where
  "reference_shell E aseg i a j m =
     (if references_submodel a j then retH ()
      else bindH (rewrite_shell E i aseg (add_reference (reference_to m) a)) (\<lambda>_. retH ()))"

definition put_submodel_by_id_for_shell ::
  "'s env \<Rightarrow> string \<Rightarrow> string \<Rightarrow> obj \<Rightarrow> string option \<Rightarrow> ('s, response) handler" where
  "put_submodel_by_id_for_shell E aseg seg m if_match =
     bindH (decode_identifier aseg) (\<lambda>i.
     bindH (decode_identifier seg) (\<lambda>j.
       if j \<noteq> id_of m then failH BadRequest
       else
         bindH (load_aas_doc E aseg i) (\<lambda>a.
         bindH (readH (\<lambda>t. get_bytes_by_id j (submodels t))) (\<lambda>current.
           case current of
             None \<Rightarrow>
               bindH (repoH (submodel_create E m)) (\<lambda>(d, e).
               bindH (submodel_written E CREATED j seg d e m) (\<lambda>_.
               bindH (reference_shell E aseg i a j m) (\<lambda>_.
                 retH (json_response_with_etag (JDict d) e 201
                   (Some (''/shells/'' @ aseg @ ''/submodels/'' @ seg))))))
           | Some (_, etag0) \<Rightarrow>
               bindH (check_precondition if_match etag0) (\<lambda>_.
               bindH (repoH (submodel_update E j m)) (\<lambda>r.
                 case r of
                   None \<Rightarrow> failH (Unhandled (Python TypeError))
                 | Some (d, e) \<Rightarrow>
                     bindH (submodel_written E UPDATED j seg d e m) (\<lambda>_.
                     bindH (reference_shell E aseg i a j m) (\<lambda>_. retH (no_content_response e)))))))))"

text \<open>\<open>{**doc, **updates}\<close>.\<close>

definition merge_docs :: "obj \<Rightarrow> obj \<Rightarrow> obj" where
  "merge_docs d ups = fold (\<lambda>k d. dset k (dget ups k) d) (map fst ups) d"

definition core_patch :: "nat list \<Rightarrow> obj \<Rightarrow> obj \<Rightarrow> failure + obj" where
  "core_patch j ups d =
     (if dhas ups ''submodelElements'' then Inl BadRequest
      else if dhas ups ''id'' \<and> \<not> is_id (dget ups ''id'') j then Inl BadRequest
      else (let d' = merge_docs d ups in
            Inr (if dhas d ''submodelElements''
                 then dset ''submodelElements'' (dget d ''submodelElements'') d' else d')))"

text \<open>The frame of the handlers that write; \<open>f\<close> makes the new document.\<close>

definition scoped_edit ::
  "'s env \<Rightarrow> string \<Rightarrow> string \<Rightarrow> string option \<Rightarrow> (nat list \<Rightarrow> obj \<Rightarrow> failure + obj) \<Rightarrow>
   (obj \<Rightarrow> string \<Rightarrow> py_exn + response) \<Rightarrow> ('s, response) handler" where
  "scoped_edit E aseg seg if_match f respond =
     scoped E aseg seg (\<lambda>j d etag0.
       bindH (check_precondition if_match etag0) (\<lambda>_.
         case f j d of
           Inl e \<Rightarrow> failH e
         | Inr d' \<Rightarrow> bindH (persist_submodel_update E j seg d') (\<lambda>(_, e). pureH (respond d' e))))"

abbreviation no_content :: "obj \<Rightarrow> string \<Rightarrow> py_exn + response" where
  "no_content d e \<equiv> Inr (no_content_response e)"

definition patch_submodel_by_id_for_shell ::
  "'s env \<Rightarrow> string \<Rightarrow> string \<Rightarrow> obj \<Rightarrow> string option \<Rightarrow> string option \<Rightarrow> ('s, response) handler" where
  "patch_submodel_by_id_for_shell E aseg seg ups lv if_match =
     (if given lv \<and> lv \<noteq> Some ''core'' then failH BadRequest
      else scoped_edit E aseg seg if_match (\<lambda>j. core_patch j ups) no_content)"

text \<open>
  The submodel is deleted and the shell rewritten in one transaction; the contents of its blobs are
  gone before the commit.
\<close>

definition delete_submodel_by_id_for_shell :: "'s env \<Rightarrow> string \<Rightarrow> string \<Rightarrow> ('s, response) handler" where
  "delete_submodel_by_id_for_shell E aseg seg =
     bindH (decode_identifier aseg) (\<lambda>i.
     bindH (decode_identifier seg) (\<lambda>j.
     bindH (load_aas_doc E aseg i) (\<lambda>a.
       case find_submodel_reference (shell_references a) j of
         None \<Rightarrow> failH (NotFound ''Submodel'' j)
       | Some n \<Rightarrow>
           bindH (repoH (submodel_delete j)) (\<lambda>deleted.
             if \<not> deleted then failH (NotFound ''Submodel'' j)
             else
               bindH (validate_shell E (remove_reference n a)) (\<lambda>m.
               bindH (repoH (aas_update E i m)) (\<lambda>r.
                 case r of
                   None \<Rightarrow> failH (Unhandled (Python TypeError))
                 | Some (d, e) \<Rightarrow>
                     bindH commit (\<lambda>_.
                     bindH (set_cache (delete_submodel (redis E) seg)) (\<lambda>_.
                     bindH (set_cache (invalidate_submodel_elements (redis E) seg)) (\<lambda>_.
                     bindH (set_cache (set_aas (redis E) aseg d e)) (\<lambda>_.
                     bindH (publish (submodel_deleted j seg)) (\<lambda>_.
                     bindH (publish (shell_event UPDATED i aseg d e)) (\<lambda>_. retH response_204))))))))))))"

section \<open>Representations\<close>

definition scoped_read ::
  "'s env \<Rightarrow> string \<Rightarrow> string \<Rightarrow> (nat list \<Rightarrow> obj \<Rightarrow> py_exn + response) \<Rightarrow> ('s, response) handler" where
  "scoped_read E aseg seg f = scoped E aseg seg (\<lambda>j d e. pureH (f j d))"

definition as_json :: "py_exn + json \<Rightarrow> py_exn + response" where
  "as_json x = bindE x (\<lambda>j. Inr (json_response j))"

definition as_items :: "py_exn + json \<Rightarrow> py_exn + response" where
  "as_items x = bindE x (\<lambda>items. Inr (items_response items no_cursor))"

definition get_submodel_metadata_for_shell :: "'s env \<Rightarrow> string \<Rightarrow> string \<Rightarrow> ('s, response) handler" where
  "get_submodel_metadata_for_shell E aseg seg =
     scoped_read E aseg seg (\<lambda>j d. as_json (extract_metadata (JDict d)))"

definition patch_submodel_metadata_for_shell ::
  "'s env \<Rightarrow> string \<Rightarrow> string \<Rightarrow> obj \<Rightarrow> string option \<Rightarrow> ('s, response) handler" where
  "patch_submodel_metadata_for_shell E aseg seg ups if_match =
     scoped_edit E aseg seg if_match (\<lambda>j d. apply_submodel_metadata_patch d (JDict ups)) no_content"

definition get_submodel_value_for_shell :: "'s env \<Rightarrow> string \<Rightarrow> string \<Rightarrow> ('s, response) handler" where
  "get_submodel_value_for_shell E aseg seg = scoped_read E aseg seg (\<lambda>j d. as_json (extract_submodel_values d))"

definition patch_submodel_value_for_shell ::
  "'s env \<Rightarrow> string \<Rightarrow> string \<Rightarrow> json \<Rightarrow> string option \<Rightarrow> ('s, response) handler" where
  "patch_submodel_value_for_shell E aseg seg payload if_match =
     scoped_edit E aseg seg if_match
       (\<lambda>j d. apply_submodel_value_patch d (case payload of JDict p \<Rightarrow> dget p ''values'' | _ \<Rightarrow> payload)) no_content"

definition get_submodel_reference_for_shell :: "'s env \<Rightarrow> string \<Rightarrow> string \<Rightarrow> ('s, response) handler" where
  "get_submodel_reference_for_shell E aseg seg =
     scoped_read E aseg seg (\<lambda>j d. as_json (Inr (extract_reference_for_submodel d)))"

definition get_submodel_path_for_shell :: "'s env \<Rightarrow> string \<Rightarrow> string \<Rightarrow> ('s, response) handler" where
  "get_submodel_path_for_shell E aseg seg =
     scoped_read E aseg seg (\<lambda>j d.
       as_json (bindE (collect_id_short_paths d) (\<lambda>ps. Inr (JList (map JStr ps)))))"

section \<open>Elements\<close>

definition get_submodel_elements_for_shell ::
  "'s env \<Rightarrow> string \<Rightarrow> string \<Rightarrow> http_query \<Rightarrow> ('s, response) handler" where
  "get_submodel_elements_for_shell E aseg seg h =
     scoped_read E aseg seg (\<lambda>j d. as_items
       (if q_content h = Some ''reference'' then bindE (collect_element_references d) (\<lambda>rs. Inr (JList rs))
        else if q_content h = Some ''path'' then
          bindE (collect_id_short_paths d) (\<lambda>ps. Inr (JList (map JStr ps)))
        else if \<not> is_fast_path h then
          bindE (py_iter (element_items d)) (\<lambda>xs.
          bindE (mapE (\<lambda>x. apply_projection x (modifiers_of h)) xs) (\<lambda>ys. Inr (JList ys)))
        else Inr (element_items d)))"

definition get_all_submodel_elements_metadata_for_shell :: "'s env \<Rightarrow> string \<Rightarrow> string \<Rightarrow> ('s, response) handler" where
  "get_all_submodel_elements_metadata_for_shell E aseg seg =
     scoped_read E aseg seg (\<lambda>j d. as_items (bindE (py_iter (element_items d)) (\<lambda>xs.
       bindE (mapE extract_metadata xs) (\<lambda>ys. Inr (JList ys)))))"

definition get_all_submodel_elements_value_for_shell :: "'s env \<Rightarrow> string \<Rightarrow> string \<Rightarrow> ('s, response) handler" where
  "get_all_submodel_elements_value_for_shell E aseg seg =
     scoped_read E aseg seg (\<lambda>j d. as_items (extract_submodel_values d))"

definition get_all_submodel_elements_reference_for_shell :: "'s env \<Rightarrow> string \<Rightarrow> string \<Rightarrow> ('s, response) handler" where
  "get_all_submodel_elements_reference_for_shell E aseg seg =
     scoped_read E aseg seg (\<lambda>j d. as_items (bindE (collect_element_references d) (\<lambda>rs. Inr (JList rs))))"

definition get_all_submodel_elements_path_for_shell :: "'s env \<Rightarrow> string \<Rightarrow> string \<Rightarrow> ('s, response) handler" where
  "get_all_submodel_elements_path_for_shell E aseg seg =
     scoped_read E aseg seg (\<lambda>j d.
       as_items (bindE (collect_id_short_paths d) (\<lambda>ps. Inr (JList (map JStr ps)))))"

text \<open>One element: \<open>f\<close> gets the identifier of the submodel, as a string, and the element.\<close>

definition scoped_element ::
  "'s env \<Rightarrow> string \<Rightarrow> string \<Rightarrow> string \<Rightarrow> (string \<Rightarrow> obj \<Rightarrow> ('s, response) handler) \<Rightarrow> ('s, response) handler" where
  "scoped_element E aseg seg path f =
     scoped E aseg seg (\<lambda>j d e.
       bindH (pureH (navigate_id_short_path d path)) (\<lambda>r.
         case r of
           None \<Rightarrow> failH (NotFound ''SubmodelElement'' (code_points path))
         | Some x \<Rightarrow> f (map char_of j) x))"

definition get_submodel_element_by_path_for_shell ::
  "'s env \<Rightarrow> string \<Rightarrow> string \<Rightarrow> string \<Rightarrow> http_query \<Rightarrow> ('s, response) handler" where
  "get_submodel_element_by_path_for_shell E aseg seg path h =
     scoped_element E aseg seg path (\<lambda>s x. pureH (as_json
       (if q_content h = Some ''reference'' then Inr (extract_reference x (JStr s) (Some path))
        else if q_content h = Some ''path'' then Inr (extract_path x path)
        else if \<not> is_fast_path h then apply_projection (JDict x) (modifiers_of h)
        else Inr (JDict x))))"

definition get_submodel_element_metadata_for_shell :: "'s env \<Rightarrow> string \<Rightarrow> string \<Rightarrow> string \<Rightarrow> ('s, response) handler" where
  "get_submodel_element_metadata_for_shell E aseg seg path =
     scoped_element E aseg seg path (\<lambda>s x. pureH (as_json (extract_metadata (JDict x))))"

definition get_submodel_element_value_for_shell :: "'s env \<Rightarrow> string \<Rightarrow> string \<Rightarrow> string \<Rightarrow> ('s, response) handler" where
  "get_submodel_element_value_for_shell E aseg seg path =
     scoped_element E aseg seg path (\<lambda>s x. pureH (as_json (extract_value x)))"

definition get_submodel_element_reference_for_shell :: "'s env \<Rightarrow> string \<Rightarrow> string \<Rightarrow> string \<Rightarrow> ('s, response) handler" where
  "get_submodel_element_reference_for_shell E aseg seg path =
     scoped_element E aseg seg path (\<lambda>s x. pureH (as_json (Inr (extract_reference x (JStr s) (Some path)))))"

definition get_submodel_element_path_for_shell :: "'s env \<Rightarrow> string \<Rightarrow> string \<Rightarrow> string \<Rightarrow> ('s, response) handler" where
  "get_submodel_element_path_for_shell E aseg seg path =
     scoped_element E aseg seg path (\<lambda>s x. pureH (as_json (Inr (extract_path x path))))"

definition get_element_attachment_for_shell :: "'s env \<Rightarrow> string \<Rightarrow> string \<Rightarrow> string \<Rightarrow> ('s, response) handler" where
  "get_element_attachment_for_shell E aseg seg path =
     scoped_element E aseg seg path (\<lambda>s x.
       if \<not> is_attachment x then failH BadRequest
       else if \<not> truthy (dget x ''value'') then failH (NotFound ''Attachment'' (code_points path))
       else bindH (pureH (content_type x default_type)) (\<lambda>ct.
         case dget x ''value'' of
           JStr v \<Rightarrow> build_attachment_response v ct
         | _ \<Rightarrow> failH (Unhandled (Python AttributeError))))"

definition put_element_attachment_for_shell ::
  "'s env \<Rightarrow> string \<Rightarrow> string \<Rightarrow> string \<Rightarrow> nat list \<Rightarrow> string option \<Rightarrow> string option \<Rightarrow> ('s, response) handler" where
  "put_element_attachment_for_shell E aseg seg path bs ct if_match =
     scoped_edit E aseg seg if_match (\<lambda>j d. change_element d path (apply_attachment_payload bs ct)) no_content"

definition delete_element_attachment_for_shell ::
  "'s env \<Rightarrow> string \<Rightarrow> string \<Rightarrow> string \<Rightarrow> string option \<Rightarrow> ('s, response) handler" where
  "delete_element_attachment_for_shell E aseg seg path if_match =
     scoped_edit E aseg seg if_match (\<lambda>j d. change_element d path (\<lambda>x.
       if \<not> truthy (dget x ''value'') then Inl (NotFound ''Attachment'' (code_points path))
       else clear_attachment_payload x)) no_content"

definition created_for_shell :: "string \<Rightarrow> obj \<Rightarrow> string \<Rightarrow> string \<Rightarrow> response" where
  "created_for_shell aseg element seg path =
     (created_response element seg path)\<lparr>http_location :=
        Some (''/shells/'' @ aseg @ ''/submodels/'' @ seg @ ''/submodel-elements/'' @ path)\<rparr>"

definition post_submodel_element_for_shell :: "'s env \<Rightarrow> string \<Rightarrow> string \<Rightarrow> obj \<Rightarrow> ('s, response) handler" where
  "post_submodel_element_for_shell E aseg seg element =
     scoped_edit E aseg seg None
       (\<lambda>j d. liftE (element_failure True []) (insert_element d None element))
       (\<lambda>d' e. bindE (shown_id_short element) (\<lambda>s. Inr (created_for_shell aseg element seg s)))"

definition post_nested_submodel_element_for_shell ::
  "'s env \<Rightarrow> string \<Rightarrow> string \<Rightarrow> string \<Rightarrow> obj \<Rightarrow> ('s, response) handler" where
  "post_nested_submodel_element_for_shell E aseg seg path element =
     scoped_edit E aseg seg None
       (\<lambda>j d. liftE (nested_failure path) (insert_element d (Some path) element))
       (\<lambda>d' e. bindE (new_path d' path element) (\<lambda>p. Inr (created_for_shell aseg element seg p)))"

definition put_submodel_element_for_shell ::
  "'s env \<Rightarrow> string \<Rightarrow> string \<Rightarrow> string \<Rightarrow> obj \<Rightarrow> string option \<Rightarrow> ('s, response) handler" where
  "put_submodel_element_for_shell E aseg seg path element if_match =
     scoped_edit E aseg seg if_match
       (\<lambda>j d. liftE (element_failure False path) (replace_element d path element)) no_content"

definition patch_submodel_element_value_for_shell ::
  "'s env \<Rightarrow> string \<Rightarrow> string \<Rightarrow> string \<Rightarrow> json \<Rightarrow> string option \<Rightarrow> ('s, response) handler" where
  "patch_submodel_element_value_for_shell E aseg seg path payload if_match =
     scoped_edit E aseg seg if_match
       (\<lambda>j d. liftE (element_failure False path) (update_element_value d path (payload_value payload)))
       (\<lambda>d' e. Inr (json_response_with_etag (payload_value payload) e 200 None))"

definition patch_submodel_element_for_shell ::
  "'s env \<Rightarrow> string \<Rightarrow> string \<Rightarrow> string \<Rightarrow> obj \<Rightarrow> string option \<Rightarrow> ('s, response) handler" where
  "patch_submodel_element_for_shell E aseg seg path ups if_match =
     scoped_edit E aseg seg if_match
       (\<lambda>j d. liftE (element_failure False path) (patch_element d path ups))
       (\<lambda>d' e. bindE (navigate_id_short_path d' path) (\<lambda>x.
          Inr (json_response_with_etag (case x of None \<Rightarrow> JNull | Some y \<Rightarrow> JDict y) e 200 None)))"

definition delete_submodel_element_for_shell :: "'s env \<Rightarrow> string \<Rightarrow> string \<Rightarrow> string \<Rightarrow> ('s, response) handler" where
  "delete_submodel_element_for_shell E aseg seg path =
     scoped_edit E aseg seg None
       (\<lambda>j d. liftE (element_failure False path) (ElementOps.delete_element d path)) no_content"

section \<open>Requests\<close>

datatype shell_request =
    GetAllShells http_query shell_query
  | GetAllShellsMetadata http_query shell_query
  | GetAllShellReferences http_query shell_query
  | PostShell obj
  | GetShell string http_query "string option"
  | PutShell string obj "string option"
  | DeleteShell string
  | GetShellMetadata string
  | GetShellReference string
  | GetAssetInformation string
  | PutAssetInformation string obj "string option"
  | GetThumbnail string
  | PutThumbnail string "nat list" "string option" "string option"
  | DeleteThumbnail string "string option"
  | GetSubmodelReferences string nat
  | PostSubmodelReference string obj
  | DeleteSubmodelReference string string
  | GetSubmodelsForShell string nat http_query
  | PatchSubmodelCore string string obj "string option" "string option"

fun serve_shell :: "'s env \<Rightarrow> shell_request \<Rightarrow> ('s, response) handler" where
  "serve_shell E (GetAllShells h q) = get_all_shells E h q"
| "serve_shell E (GetAllShellsMetadata h q) = get_all_shells_metadata E h q"
| "serve_shell E (GetAllShellReferences h q) = get_all_shell_references E h q"
| "serve_shell E (PostShell m) = post_shell E m"
| "serve_shell E (GetShell seg h m) = get_shell_by_id E seg h m"
| "serve_shell E (PutShell seg d m) = put_shell_by_id E seg d m"
| "serve_shell E (DeleteShell seg) = delete_shell_by_id E seg"
| "serve_shell E (GetShellMetadata seg) = get_shell_metadata E seg"
| "serve_shell E (GetShellReference seg) = get_shell_reference E seg"
| "serve_shell E (GetAssetInformation seg) = get_asset_information E seg"
| "serve_shell E (PutAssetInformation seg info m) = put_asset_information E seg info m"
| "serve_shell E (GetThumbnail seg) = get_asset_information_thumbnail E seg"
| "serve_shell E (PutThumbnail seg bs ct m) = put_asset_information_thumbnail E seg bs ct m"
| "serve_shell E (DeleteThumbnail seg m) = delete_asset_information_thumbnail E seg m"
| "serve_shell E (GetSubmodelReferences seg n) = get_submodel_references E seg n"
| "serve_shell E (PostSubmodelReference seg r) = post_submodel_reference E seg r"
| "serve_shell E (DeleteSubmodelReference aseg seg) = delete_submodel_reference E aseg seg"
| "serve_shell E (GetSubmodelsForShell aseg n h) = get_submodels_for_shell E aseg n h"
| "serve_shell E (PatchSubmodelCore aseg seg ups lv m) = patch_submodel_by_id_for_shell E aseg seg ups lv m"

text \<open>
  A request to a submodel through the shell \<open>aseg\<close>. The requests to all submodels have no such form.
\<close>

fun serve_below :: "'s env \<Rightarrow> string \<Rightarrow> submodel_request \<Rightarrow> ('s, response) handler option" where
  "serve_below E a (GetSubmodel seg h m) = Some (get_submodel_by_id_for_shell E a seg h m)"
| "serve_below E a (PutSubmodel seg d m) = Some (put_submodel_by_id_for_shell E a seg d m)"
| "serve_below E a (DeleteSubmodel seg) = Some (delete_submodel_by_id_for_shell E a seg)"
| "serve_below E a (GetSubmodelValue seg) = Some (get_submodel_value_for_shell E a seg)"
| "serve_below E a (PatchSubmodelValue seg p m) = Some (patch_submodel_value_for_shell E a seg p m)"
| "serve_below E a (GetSubmodelMetadata seg) = Some (get_submodel_metadata_for_shell E a seg)"
| "serve_below E a (PatchSubmodelMetadata seg u m) = Some (patch_submodel_metadata_for_shell E a seg u m)"
| "serve_below E a (GetSubmodelReference seg) = Some (get_submodel_reference_for_shell E a seg)"
| "serve_below E a (GetSubmodelPath seg) = Some (get_submodel_path_for_shell E a seg)"
| "serve_below E a (GetElements seg h) = Some (get_submodel_elements_for_shell E a seg h)"
| "serve_below E a (GetElementsMetadata seg) = Some (get_all_submodel_elements_metadata_for_shell E a seg)"
| "serve_below E a (GetElementsValue seg) = Some (get_all_submodel_elements_value_for_shell E a seg)"
| "serve_below E a (GetElementsReference seg) = Some (get_all_submodel_elements_reference_for_shell E a seg)"
| "serve_below E a (GetElementsPath seg) = Some (get_all_submodel_elements_path_for_shell E a seg)"
| "serve_below E a (GetElement seg p h) = Some (get_submodel_element_by_path_for_shell E a seg p h)"
| "serve_below E a (GetElementValue seg p) = Some (get_submodel_element_value_for_shell E a seg p)"
| "serve_below E a (GetElementMetadata seg p) = Some (get_submodel_element_metadata_for_shell E a seg p)"
| "serve_below E a (GetElementReference seg p) = Some (get_submodel_element_reference_for_shell E a seg p)"
| "serve_below E a (GetElementPath seg p) = Some (get_submodel_element_path_for_shell E a seg p)"
| "serve_below E a (GetAttachment seg p) = Some (get_element_attachment_for_shell E a seg p)"
| "serve_below E a (PutAttachment seg p bs ct m) = Some (put_element_attachment_for_shell E a seg p bs ct m)"
| "serve_below E a (DeleteAttachment seg p m) = Some (delete_element_attachment_for_shell E a seg p m)"
| "serve_below E a (PostElement seg el) = Some (post_submodel_element_for_shell E a seg el)"
| "serve_below E a (PostNestedElement seg p el) = Some (post_nested_submodel_element_for_shell E a seg p el)"
| "serve_below E a (PutElement seg p el m) = Some (put_submodel_element_for_shell E a seg p el m)"
| "serve_below E a (PatchElementValue seg p v m) = Some (patch_submodel_element_value_for_shell E a seg p v m)"
| "serve_below E a (PatchElement seg p u m) = Some (patch_submodel_element_for_shell E a seg p u m)"
| "serve_below E a (DeleteElement seg p) = Some (delete_submodel_element_for_shell E a seg p)"
| "serve_below E a _ = None"

text \<open>The requests of both routers; \<open>None\<close>: there is no such request.\<close>

datatype api_request = OnSubmodels submodel_request | OnShells shell_request | Below string submodel_request

fun serve_api :: "'s env \<Rightarrow> api_request \<Rightarrow> ('s, response) handler option" where
  "serve_api E (OnSubmodels rq) = Some (serve_submodel E rq)"
| "serve_api E (OnShells rq) = Some (serve_shell E rq)"
| "serve_api E (Below a rq) = serve_below E a rq"

text \<open>The segments of the path that are identifiers.\<close>

fun shell_segments :: "shell_request \<Rightarrow> string list" where
  "shell_segments (GetAllShells h q) = []"
| "shell_segments (GetAllShellsMetadata h q) = []"
| "shell_segments (GetAllShellReferences h q) = []"
| "shell_segments (PostShell m) = []"
| "shell_segments (GetShell seg h m) = [seg]"
| "shell_segments (PutShell seg d m) = [seg]"
| "shell_segments (DeleteShell seg) = [seg]"
| "shell_segments (GetShellMetadata seg) = [seg]"
| "shell_segments (GetShellReference seg) = [seg]"
| "shell_segments (GetAssetInformation seg) = [seg]"
| "shell_segments (PutAssetInformation seg info m) = [seg]"
| "shell_segments (GetThumbnail seg) = [seg]"
| "shell_segments (PutThumbnail seg bs ct m) = [seg]"
| "shell_segments (DeleteThumbnail seg m) = [seg]"
| "shell_segments (GetSubmodelReferences seg n) = [seg]"
| "shell_segments (PostSubmodelReference seg r) = [seg]"
| "shell_segments (DeleteSubmodelReference aseg seg) = [aseg, seg]"
| "shell_segments (GetSubmodelsForShell aseg n h) = [aseg]"
| "shell_segments (PatchSubmodelCore aseg seg ups lv m) = [aseg, seg]"

fun api_segments :: "api_request \<Rightarrow> string list" where
  "api_segments (OnSubmodels rq) = (case submodel_segment rq of None \<Rightarrow> [] | Some seg \<Rightarrow> [seg])"
| "api_segments (OnShells rq) = shell_segments rq"
| "api_segments (Below a rq) = a # (case submodel_segment rq of None \<Rightarrow> [] | Some seg \<Rightarrow> [seg])"

definition canonical_request :: "api_request \<Rightarrow> bool" where
  "canonical_request rq = (\<forall>seg \<in> set (api_segments rq). canonical_segment seg)"

end
