(* ===== verification/ShellState.thy ===== *)
theory ShellState
  imports SubmodelState ShellSubmodelApi
begin

text \<open>
  The repository of shells keeps tables and caches in agreement, too; the server with both
  repositories as a step relation.
\<close>

section \<open>Writing a shell\<close>

lemma shell_rows:
  assumes "session E w"
  shows "rows_ok E (serial w) (shells (tx w))" and "tx w = db w" and "tables_ok E (serial w) (db w)"
    and "store_ok E w"
  using assms by (simp_all add: session_def store_ok_def tables_ok_def)

lemma aas_update_changes:
  assumes "session E w" and "id_of m = i" and "aas_update E i m w = (w', Inr (Some (d, e)))"
  shows "changed_shell E i (Some (d, e)) w'"
proof -
  note ok = shell_rows [OF assms(1)]
  from aas_update_effect(5) [OF assms(3) refl] obtain r r' where
    r: "row_by_id i (shells (tx w)) = Some r" "row_of E r m d e r'" "\<not> clashes r' (shells (tx w))"
    and tx': "tx w' = (tx w)\<lparr>shells := replace_row r' (shells (tx w))\<rparr>" by blast
  note new = update_rows [OF ok(1) r assms(2)]
  show ?thesis
    using new ok tx' aas_update_effect(1,2) [OF assms(3)] store_ok_quiet [OF ok(4)]
    by (simp add: changed_shell_def tables_ok_def quiet_def)
qed

lemma aas_create_changes:
  assumes "session E w" and "env_ok E" and "id_of m = i" and "aas_create E m w = (w', Inr (d, e))"
  shows "changed_shell E i (Some (d, e)) w'"
proof -
  note ok = shell_rows [OF assms(1)]
  from aas_create_effect(4) [OF assms(4) refl] obtain r where
    r: "row_of E (new_row E (serial w) m) m d e r" "\<not> clashes r (shells (tx w))"
    and tx': "tx w' = (tx w)\<lparr>shells := shells (tx w) @ [r]\<rparr>" by blast
  have inj: "inj (uuid_of E)" using assms(2) by (simp add: env_ok_def)
  note new = create_rows [OF ok(1) inj r assms(3)]
  have sm: "rows_ok E (Suc (serial w)) (submodels (db w))" using ok by (auto simp: tables_ok_def intro: rows_ok_mono)
  show ?thesis
    using new ok sm tx' aas_create_effect(1,2) [OF assms(4)] store_ok_quiet [OF ok(4)]
    by (simp add: changed_shell_def tables_ok_def quiet_def)
qed

lemma aas_delete_changes:
  assumes "session E w" and "aas_delete i w = (w', Inr True)"
  shows "changed_shell E i None w'"
proof -
  note ok = shell_rows [OF assms(1)]
  from aas_delete_effect(5) [OF assms(2) refl] obtain r where
    r: "row_by_id i (shells (tx w)) = Some r"
    and tx': "tx w' = (tx w)\<lparr>shells := remove_row r (shells (tx w))\<rparr>" by blast
  show ?thesis
    using rows_ok_remove [OF ok(1)] get_after_remove [OF ok(1) r] ok tx' aas_delete_effect(1,2) [OF assms(2)]
      store_ok_quiet [OF ok(4)]
    by (simp add: changed_shell_def tables_ok_def quiet_def)
qed

text \<open>The caches after the write.\<close>

definition shell_cache :: "'s env \<Rightarrow> string \<Rightarrow> (obj \<times> string) option \<Rightarrow> 's \<Rightarrow> 's" where
  "shell_cache E seg p s = (case p of None \<Rightarrow> delete_aas (redis E) seg s | Some (d, e) \<Rightarrow> set_aas (redis E) seg d e s)"

lemma shell_cache_get:
  assumes "env_ok E"
  shows "get_aas (redis E) seg' (shell_cache E seg p s) = (if seg' = seg then p else get_aas (redis E) seg' s)"
    and "get_submodel (redis E) seg' (shell_cache E seg p s) = get_submodel (redis E) seg' s"
    and "Cache.get_element_value (redis E) seg' path (shell_cache E seg p s) =
      Cache.get_element_value (redis E) seg' path s"
proof -
  have K: "kv_ok (redis E)" using assms by (simp add: env_ok_def)
  show "get_aas (redis E) seg' (shell_cache E seg p s) = (if seg' = seg then p else get_aas (redis E) seg' s)"
    "get_submodel (redis E) seg' (shell_cache E seg p s) = get_submodel (redis E) seg' s"
    "Cache.get_element_value (redis E) seg' path (shell_cache E seg p s) = Cache.get_element_value (redis E) seg' path s"
    by (cases p; force simp: shell_cache_def cached [OF K])+
qed

lemma shell_cached:
  assumes E: "env_ok E" and seg: "canonical seg i"
    and fresh: "shells_fresh E t s" "submodels_fresh E t s" "values_fresh E t s"
    and same: "submodels t' = submodels t"
    and get: "\<And>j. get_bytes_by_id j (shells t') = (if j = i then p else get_bytes_by_id j (shells t))"
  shows "shells_fresh E t' (shell_cache E seg p s)" and "submodels_fresh E t' (shell_cache E seg p s)"
    and "values_fresh E t' (shell_cache E seg p s)"
proof -
  show "shells_fresh E t' (shell_cache E seg p s)"
    using fresh(1) get seg canonical_eq [OF _ seg] unfolding shells_fresh_def shell_cache_get [OF E]
    by (simp split: if_splits)
  show "submodels_fresh E t' (shell_cache E seg p s)" "values_fresh E t' (shell_cache E seg p s)"
    using fresh(2,3) same unfolding submodels_fresh_def values_fresh_def value_of_def shell_cache_get [OF E] by simp_all
qed

lemma changed_shell_session:
  assumes "env_ok E" and "canonical seg i" and "changed_shell E i p w"
    and "ev_shell ev" and "ev_id ev = i" and "content_of ev = p"
  shows "session E (w\<lparr>db := tx w, cache := shell_cache E seg p (cache w), bus := bus w @ [ev]\<rparr>)"
  using shell_cached [OF assms(1,2), of "db w" "cache w" "tx w" p] assms(3-6)
    logged_shell [of "db w" "bus w" ev "tx w"]
  by (simp add: changed_shell_def session_def store_ok_def)

lemma triple_shell_written:
  assumes "env_ok E" and "canonical seg i"
  shows "triple (changed_shell E i (Some (d, e))) (shell_written E k i seg d e) (\<lambda>_. session E) R"
  using changed_shell_session [OF assms, of "Some (d, e)" _ "shell_event k i seg d e"]
  by (auto simp: triple_def shell_written_def handlers shell_cache_def shell_event_def content_of_def)

lemma shell_update_triple:
  assumes "id_of m = i"
  shows "triple (session E) (repoH (aas_update E i m))
      (\<lambda>r w. case r of None \<Rightarrow> session E w | Some p \<Rightarrow> changed_shell E i (Some p) w) (\<lambda>_. store_ok E)"
proof (rule triple_repo)
  fix w w' :: "'a world" and r assume w: "session E w" and run: "aas_update E i m w = (w', Inr r)"
  show "case r of None \<Rightarrow> session E w' | Some p \<Rightarrow> changed_shell E i (Some p) w'"
    using aas_update_changes [OF w assms] aas_update_effect(4) [OF run] run w by (cases r) auto
next
  fix w w' :: "'a world" and e assume "session E w" and "aas_update E i m w = (w', Inl e)"
  then show "store_ok E w'" using store_ok_quiet session_store aas_update_effect(1) by blast
qed

lemma keeps_update_shell:
  assumes "env_ok E" and "canonical seg i" and "id_of m = i"
  shows "keeps E (update_shell E missing i seg m)"
  unfolding update_shell_def
  by (rule triple_bind [OF shell_update_triple [OF assms(3)]],
      intro triple_option_pre triple_prod_pre triple_fail triple_bind [OF triple_shell_written [OF assms(1,2)]] triple_ret)
    (simp_all add: session_store)

lemma keeps_rewrite:
  assumes "env_ok E" and "canonical seg i" and "id_of d = i"
  shows "keeps E (rewrite_shell E i seg d)" and "keeps E (persist_aas_update E i seg d)"
proof -
  have validated: "triple (session E) (validate_shell E d) (\<lambda>m w. session E w \<and> id_of m = i) (\<lambda>_. store_ok E)"
    using assms(1,3) unfolding validate_shell_def
    by (intro triple_sum triple_fail triple_ret) (auto intro: session_store simp: env_ok_def)
  show "keeps E (rewrite_shell E i seg d)" "keeps E (persist_aas_update E i seg d)"
    unfolding rewrite_shell_def persist_aas_update_def
    by (rule triple_bind [OF validated], rule triple_conj, rule keeps_update_shell [OF assms(1,2)], assumption)+
qed

section \<open>Reading through the cache\<close>

lemma shell_id:
  assumes "session E w" and "get_bytes_by_id i (shells (db w)) = Some (d, e)"
  shows "id_of d = i"
proof -
  from assms(2) obtain r where r: "row_by_id i (shells (db w)) = Some r" "row_doc r = d"
    by (auto simp: get_bytes_by_id_def)
  from row_by_idD [OF r(1)] assms(1) r(2) show ?thesis
    by (auto simp: session_def store_ok_def tables_ok_def rows_ok_def row_ok_def)
qed

lemma triple_current_shell:
  "triple (session E) (current_shell i)
     (\<lambda>(d, e) w. session E w \<and> get_bytes_by_id i (shells (db w)) = Some (d, e)) (\<lambda>_. store_ok E)"
  by (auto simp: triple_def current_shell_def handlers session_def split: option.split)

text \<open>Writing the database's document into the cache.\<close>

lemma triple_cache_shell:
  assumes "env_ok E" and "canonical seg i"
  shows "triple (\<lambda>w. session E w \<and> get_bytes_by_id i (shells (db w)) = Some (d, e))
    (set_cache (set_aas (redis E) seg d e)) (\<lambda>_ w. session E w \<and> get_bytes_by_id i (shells (db w)) = Some (d, e)) R"
proof -
  have "session E (w\<lparr>cache := set_aas (redis E) seg d e (cache w)\<rparr>)"
    if "session E w" "get_bytes_by_id i (shells (db w)) = Some (d, e)" for w
    using that shell_cached [OF assms, of "db w" "cache w" "db w" "Some (d, e)"]
    by (simp add: session_def store_ok_def shell_cache_def)
  then show ?thesis by (simp add: triple_def handlers)
qed

lemma triple_cache_submodel:
  assumes "env_ok E" and "canonical seg i"
  shows "triple (\<lambda>w. session E w \<and> get_bytes_by_id i (submodels (db w)) = Some (d, e))
    (set_cache (set_submodel (redis E) seg d e))
    (\<lambda>_ w. session E w \<and> get_bytes_by_id i (submodels (db w)) = Some (d, e)) R"
proof -
  have K: "kv_ok (redis E)" using assms(1) by (simp add: env_ok_def)
  have "session E (w\<lparr>cache := set_submodel (redis E) seg d e (cache w)\<rparr>)"
    if w: "session E w" "get_bytes_by_id i (submodels (db w)) = Some (d, e)" for w
  proof -
    have "submodels_fresh E (db w) (set_submodel (redis E) seg d e (cache w))"
      using w canonical_eq [OF _ assms(2)]
      by (auto simp: session_def store_ok_def submodels_fresh_def cached [OF K] split: if_splits)
    with w show ?thesis by (auto simp: session_def store_ok_def shells_fresh_def values_fresh_def cached [OF K])
  qed
  then show ?thesis by (simp add: triple_def handlers)
qed

text \<open>The three loaders, with what the database holds as the result.\<close>

lemma triple_load_aas:
  assumes "env_ok E" and "canonical seg i"
  shows "triple (session E) (load_aas_doc E seg i)
    (\<lambda>d w. session E w \<and> (\<exists>e. get_bytes_by_id i (shells (db w)) = Some (d, e))) (\<lambda>_. store_ok E)"
  unfolding load_aas_doc_def
proof (rule triple_bind [where Q' = "\<lambda>c w. session E w \<and> c = get_aas (redis E) seg (cache w)"])
  show "triple (session E) (cacheH (get_aas (redis E) seg))
    (\<lambda>c w. session E w \<and> c = get_aas (redis E) seg (cache w)) (\<lambda>_. store_ok E)"
    by (rule triple_cache)
  fix c :: "(obj \<times> string) option"
  show "triple (\<lambda>w. session E w \<and> c = get_aas (redis E) seg (cache w))
    (case c of
       None \<Rightarrow> bindH (current_shell i) (\<lambda>(d, e). bindH (set_cache (set_aas (redis E) seg d e)) (\<lambda>_. retH d))
     | Some (d, e) \<Rightarrow> retH d)
    (\<lambda>d w. session E w \<and> (\<exists>e. get_bytes_by_id i (shells (db w)) = Some (d, e))) (\<lambda>_. store_ok E)"
  proof (cases c)
    case None
    have "triple (session E) (bindH (current_shell i) (\<lambda>(d, e). bindH (set_cache (set_aas (redis E) seg d e)) (\<lambda>_. retH d)))
      (\<lambda>d w. session E w \<and> (\<exists>e. get_bytes_by_id i (shells (db w)) = Some (d, e))) (\<lambda>_. store_ok E)"
      by (rule triple_bind [OF triple_current_shell], rule triple_prod_pre, simp,
          rule triple_bind [OF triple_cache_shell [OF assms]], rule triple_ret) blast
    then show ?thesis unfolding None option.case by (rule triple_weaken) auto
  next
    case (Some p)
    have row: "get_bytes_by_id i (shells (db w)) = Some p"
      if "session E w" "Some p = get_aas (redis E) seg (cache w)" for w
      using that assms(2) unfolding session_def store_ok_def shells_fresh_def by metis
    obtain d e where p: "p = (d, e)" by (cases p)
    show ?thesis unfolding Some p option.case prod.case
      by (rule triple_ret) (use row p in blast)
  qed
qed

lemma triple_load_bytes:
  assumes "env_ok E" and "canonical seg i"
  shows "triple (session E) (load_submodel_bytes E seg i)
    (\<lambda>p w. session E w \<and> get_bytes_by_id i (submodels (db w)) = Some p) (\<lambda>_. store_ok E)"
  unfolding load_submodel_bytes_def
proof (rule triple_bind [where Q' = "\<lambda>c w. session E w \<and> c = get_submodel (redis E) seg (cache w)"])
  show "triple (session E) (cacheH (get_submodel (redis E) seg))
    (\<lambda>c w. session E w \<and> c = get_submodel (redis E) seg (cache w)) (\<lambda>_. store_ok E)"
    by (rule triple_cache)
  fix c :: "(obj \<times> string) option"
  show "triple (\<lambda>w. session E w \<and> c = get_submodel (redis E) seg (cache w))
    (case c of
       None \<Rightarrow> bindH (current_submodel i) (\<lambda>(d, e). bindH (set_cache (set_submodel (redis E) seg d e)) (\<lambda>_. retH (d, e)))
     | Some p \<Rightarrow> retH p)
    (\<lambda>p w. session E w \<and> get_bytes_by_id i (submodels (db w)) = Some p) (\<lambda>_. store_ok E)"
  proof (cases c)
    case None
    have "triple (session E)
      (bindH (current_submodel i) (\<lambda>(d, e). bindH (set_cache (set_submodel (redis E) seg d e)) (\<lambda>_. retH (d, e))))
      (\<lambda>p w. session E w \<and> get_bytes_by_id i (submodels (db w)) = Some p) (\<lambda>_. store_ok E)"
      by (rule triple_bind [OF triple_current], rule triple_prod_pre, simp,
          rule triple_bind [OF triple_cache_submodel [OF assms]], rule triple_ret) blast
    then show ?thesis unfolding None option.case by (rule triple_weaken) auto
  next
    case (Some p)
    have row: "get_bytes_by_id i (submodels (db w)) = Some p"
      if "session E w" "Some p = get_submodel (redis E) seg (cache w)" for w
      using that assms(2) unfolding session_def store_ok_def submodels_fresh_def by metis
    show ?thesis unfolding Some option.case by (rule triple_ret) (use row in blast)
  qed
qed

section \<open>The frames of the handlers\<close>

text \<open>A fact about the result of a step, for the rest of the handler.\<close>

lemma keeps_fact:
  assumes "triple (session E) m Q (\<lambda>_. store_ok E)"
    and "\<And>a w. Q a w \<Longrightarrow> session E w \<and> F a" and "\<And>a. F a \<Longrightarrow> keeps E (f a)"
  shows "keeps E (bindH m f)"
proof (rule triple_bind [OF assms(1)])
  fix a
  show "triple (Q a) (f a) (\<lambda>_. session E) (\<lambda>_. store_ok E)"
  proof (cases "F a")
    case True
    then show ?thesis using assms(2,3) by (blast intro: triple_weaken)
  next
    case False
    with assms(2) show ?thesis unfolding triple_def by blast
  qed
qed

lemma keeps_load_aas:
  assumes "env_ok E" and "canonical seg i" and "\<And>d. id_of d = i \<Longrightarrow> keeps E (f d)"
  shows "keeps E (bindH (load_aas_doc E seg i) f)"
  by (rule keeps_fact [OF triple_load_aas [OF assms(1,2)], where F = "\<lambda>d. id_of d = i"]) (auto intro: shell_id assms(3))

lemma keeps_load_bytes:
  assumes "env_ok E" and "canonical seg i" and "\<And>d e. id_of d = i \<Longrightarrow> keeps E (f (d, e))"
  shows "keeps E (bindH (load_submodel_bytes E seg i) f)"
  by (rule keeps_fact [OF triple_load_bytes [OF assms(1,2)], where F = "\<lambda>p. id_of (fst p) = i"])
    (use session_id assms(3) in \<open>force+\<close>)

lemma keeps_current_shell:
  assumes "\<And>d e. id_of d = i \<Longrightarrow> keeps E (f (d, e))"
  shows "keeps E (bindH (current_shell i) f)"
  by (rule keeps_fact [OF triple_current_shell, where F = "\<lambda>p. id_of (fst p) = i"])
    (use shell_id assms in \<open>force+\<close>)

lemma keeps_of_shell:
  assumes "env_ok E" and "canonical_segment seg" and "\<And>i d. canonical seg i \<Longrightarrow> id_of d = i \<Longrightarrow> keeps E (f i d)"
  shows "keeps E (of_shell E seg f)"
  unfolding of_shell_def by (rule keeps_decode [OF assms(2)], rule keeps_load_aas [OF assms(1)], assumption, rule assms(3))

lemma keeps_ensure: "keeps E (ensure_submodel_reference d i)"
  unfolding ensure_submodel_reference_def by (intro kept_steps)

lemma keeps_patched_shell:
  assumes "env_ok E" and "canonical_segment seg" and "\<And>i d d'. f i d = Inr d' \<Longrightarrow> id_of d' = id_of d"
  shows "keeps E (patched_shell E seg h f)"
  unfolding patched_shell_def
  by (rule keeps_decode [OF assms(2)], rule keeps_current_shell, unfold prod.case,
      intro kept_steps keeps_rewrite(2) [OF assms(1)]; simp add: assms(3))

lemma keeps_scoped:
  assumes "env_ok E" and "canonical_segment aseg" and "canonical_segment seg"
    and "\<And>j d e. canonical seg j \<Longrightarrow> id_of d = j \<Longrightarrow> keeps E (f j d e)"
  shows "keeps E (scoped E aseg seg f)"
  unfolding scoped_def
proof (rule keeps_decode [OF assms(2)], rule keeps_decode [OF assms(3)])
  fix i j assume ij: "canonical aseg i" "canonical seg j"
  have "triple (session E) (load_submodel_for_shell E aseg i seg j)
    (\<lambda>p w. session E w \<and> get_bytes_by_id j (submodels (db w)) = Some p) (\<lambda>_. store_ok E)"
    unfolding load_submodel_for_shell_def
    by (rule triple_bind [OF triple_weaken [OF triple_load_aas [OF assms(1) ij(1)], where Q' = "\<lambda>_. session E"]],
        assumption, erule conjunct1, assumption,
        rule triple_bind [OF keeps_ensure], rule triple_load_bytes [OF assms(1) ij(2)])
  then show "keeps E (bindH (load_submodel_for_shell E aseg i seg j) (\<lambda>(d, e). f j d e))"
    by (rule keeps_fact [where F = "\<lambda>p. id_of (fst p) = j"])
      (use session_id assms(4) [OF ij(2)] in \<open>force+\<close>)
qed

lemma persist_submodel_update_same: "persist_submodel_update = persist_submodel_doc_update"
  by (intro ext) (simp add: persist_submodel_update_def persist_submodel_doc_update_def)

lemma keeps_scoped_edit:
  assumes "env_ok E" and "canonical_segment aseg" and "canonical_segment seg"
    and "\<And>j d d'. id_of d = j \<Longrightarrow> f j d = Inr d' \<Longrightarrow> id_of d' = j"
  shows "keeps E (scoped_edit E aseg seg h f respond)"
  unfolding scoped_edit_def persist_submodel_update_same
proof (rule keeps_scoped [OF assms(1-3)], rule keeps_then [OF keeps_precondition], rule triple_sum)
  fix j d d' assume "canonical seg j" and "id_of d = j" and "f j d = Inr d'"
  then have "canonical seg j" "id_of d' = j" using assms(4) by blast+
  from triple_persist [OF assms(1) this] show "keeps E
    (bindH (persist_submodel_doc_update E j seg d') (\<lambda>(_, e). pureH (respond d' e)))"
    by (rule keeps_then) (intro kept_steps)
qed (rule keeps_fail)

section \<open>Every request keeps tables and caches in agreement\<close>

lemma keeps_list_shells: "keeps E (list_shells E h q np f g)"
  unfolding list_shells_def by (intro kept_steps)

lemma keeps_decode_any: "keeps E (decode_identifier s)"
  by (auto simp: triple_def decode_identifier_def handlers session_store split: sum.split)

lemma keeps_stream: "keeps E (stream_blob_by_id b)"
  by (auto simp: triple_def stream_blob_by_id_def session_store split: option.split)

lemma keeps_attachment_response: "keeps E (build_attachment_response v ct)"
  unfolding build_attachment_response_def by (intro kept_steps keeps_stream)

lemma keeps_str: "(\<And>s. keeps E (f s)) \<Longrightarrow> keeps E (case j of JStr s \<Rightarrow> f s | _ \<Rightarrow> failH e)"
  by (cases j) (simp_all add: keeps_fail)

lemma create_shell_triple:
  assumes "env_ok E" and "id_of m = i"
  shows "triple (session E) (repoH (aas_create E m)) (\<lambda>p. changed_shell E i (Some p)) (\<lambda>_. store_ok E)"
proof (rule triple_repo)
  fix w w' :: "'a world" and p assume "session E w" and "aas_create E m w = (w', Inr p)"
  then show "changed_shell E i (Some p) w'" using aas_create_changes [OF _ assms] by (cases p) simp
next
  fix w w' :: "'a world" and e assume "session E w" and "aas_create E m w = (w', Inl e)"
  then show "store_ok E w'" using store_ok_quiet session_store aas_create_effect(1) by blast
qed

text \<open>Creating a shell under a segment that is canonical for it.\<close>

lemma keeps_create_shell:
  assumes "env_ok E" and "id_of m = i" and "canonical seg i"
  shows "keeps E (bindH (repoH (aas_create E m)) (\<lambda>(d, e).
    bindH (shell_written E k i seg d e) (\<lambda>_. retH (f d e))))"
  by (rule triple_bind [OF create_shell_triple [OF assms(1,2)]], rule triple_prod_pre,
      rule triple_bind [OF triple_shell_written [OF assms(1,3)]], rule keeps_ret)

lemma keeps_put_shell:
  assumes "env_ok E" and "canonical_segment seg"
  shows "keeps E (put_shell_by_id E seg m h)"
  unfolding put_shell_by_id_def
proof (rule keeps_decode [OF assms(2)], rule triple_if)
  fix i assume i: "canonical seg i" and "\<not> i \<noteq> id_of m"
  then have m: "id_of m = i" by simp
  show "keeps E (bindH (readH (\<lambda>t. get_bytes_by_id i (shells t))) (\<lambda>current.
         case current of
           None \<Rightarrow>
             bindH (repoH (aas_create E m)) (\<lambda>(d, e).
             bindH (shell_written E CREATED i seg d e) (\<lambda>_.
               retH (json_response_with_etag (JDict d) e 201 (Some (''/shells/'' @ seg)))))
         | Some (_, etag0) \<Rightarrow>
             bindH (check_precondition h etag0) (\<lambda>_.
             bindH (update_shell E (Unhandled (Python TypeError)) i seg m) (\<lambda>e. retH (no_content_response e)))))"
    by (rule keeps_then [OF keeps_read], rule triple_option, rule keeps_create_shell [OF assms(1) m i],
        intro kept_steps keeps_update_shell [OF assms(1) i m])
qed (rule keeps_fail)

lemma keeps_delete_shell:
  assumes "env_ok E" and "canonical_segment seg"
  shows "keeps E (delete_shell_by_id E seg)"
  unfolding delete_shell_by_id_def
proof (rule keeps_decode [OF assms(2)])
  fix i assume i: "canonical seg i"
  have del: "triple (session E) (repoH (aas_delete i))
      (\<lambda>b w. if b then changed_shell E i None w else session E w) (\<lambda>_. store_ok E)"
  proof (rule triple_repo)
    fix w w' :: "'a world" and b assume "session E w" and run: "aas_delete i w = (w', Inr b)"
    with aas_delete_changes [of E w i w'] aas_delete_effect(4) [OF run]
    show "if b then changed_shell E i None w' else session E w'" by (cases b) auto
  qed (use aas_delete_effect(3) in blast)
  show "keeps E (bindH (repoH (aas_delete i)) (\<lambda>deleted.
      if \<not> deleted then failH (shell_missing i)
      else bindH commit (\<lambda>_. bindH (set_cache (delete_aas (redis E) seg)) (\<lambda>_.
        bindH (publish (shell_deleted i seg)) (\<lambda>_. retH response_204)))))"
  proof (rule triple_bind [OF del])
    fix b
    show "triple (\<lambda>w. if b then changed_shell E i None w else session E w)
        (if \<not> b then failH (shell_missing i)
         else bindH commit (\<lambda>_. bindH (set_cache (delete_aas (redis E) seg)) (\<lambda>_.
           bindH (publish (shell_deleted i seg)) (\<lambda>_. retH response_204))))
        (\<lambda>_. session E) (\<lambda>_. store_ok E)"
      using changed_shell_session [OF assms(1) i, of None _ "shell_deleted i seg"]
      by (cases b) (auto simp: triple_def handlers shell_cache_def session_store shell_deleted_def content_of_def)
  qed
qed

lemma keeps_get_shell:
  assumes "env_ok E" and "canonical_segment seg"
  shows "keeps E (get_shell_by_id E seg h m)"
proof -
  have fresh: "keeps E (bindH (current_shell i) (\<lambda>(d, e). bindH (set_cache (set_aas (redis E) seg d e)) (\<lambda>_. f d e)))"
    if "canonical seg i" "\<And>d e. keeps E (f d e)" for i f
  proof (rule triple_bind [OF triple_current_shell], rule triple_prod_pre, simp)
    fix d e
    have "triple (\<lambda>w. session E w \<and> get_bytes_by_id i (shells (db w)) = Some (d, e)) (f d e)
      (\<lambda>_. session E) (\<lambda>_. store_ok E)"
      by (rule triple_weaken [OF that(2)]) auto
    then show "triple (\<lambda>w. session E w \<and> get_bytes_by_id i (shells (db w)) = Some (d, e))
      (bindH (set_cache (set_aas (redis E) seg d e)) (\<lambda>_. f d e)) (\<lambda>_. session E) (\<lambda>_. store_ok E)"
      by (rule triple_bind [OF triple_cache_shell [OF assms(1) that(1)]])
  qed
  show ?thesis
    unfolding get_shell_by_id_def
    by (rule keeps_decode [OF assms(2)], rule keeps_then [OF keeps_cache], rule triple_option, erule fresh,
        (intro kept_steps)+)
qed

lemma keeps_post_shell:
  assumes "env_ok E"
  shows "keeps E (post_shell E m)"
proof -
  let ?i = "id_of m" let ?seg = "b64_of ?i"
  have written: "triple (changed_shell E ?i (Some (d, e))) (shell_written E CREATED ?i ?seg d e) (\<lambda>_. session E) R"
    for d e and R :: "failure \<Rightarrow> 'a world \<Rightarrow> bool"
  proof -
    have "session E (w\<lparr>db := tx w, cache := set_aas (redis E) ?seg d e (cache w),
        bus := bus w @ [shell_event CREATED ?i ?seg d e]\<rparr>)"
      if w: "changed_shell E ?i (Some (d, e)) w" for w
    proof -
      have K: "kv_ok (redis E)" using assms by (simp add: env_ok_def)
      have "shells_fresh E (tx w) (set_aas (redis E) ?seg d e (cache w))"
        using w canonical_b64_of
        by (auto simp: changed_shell_def store_ok_def shells_fresh_def cached [OF K] split: if_splits)
      moreover have "logged (tx w) (bus w @ [shell_event CREATED ?i ?seg d e])"
        using w by (intro logged_shell [of "db w"])
          (simp_all add: changed_shell_def store_ok_def shell_event_def content_of_def)
      ultimately show ?thesis using w
        by (auto simp: changed_shell_def session_def store_ok_def submodels_fresh_def values_fresh_def value_of_def
            cached [OF K])
    qed
    then show ?thesis by (auto simp: triple_def shell_written_def handlers)
  qed
  show ?thesis
    unfolding post_shell_def
    by (rule keeps_then [OF keeps_read], rule triple_if, rule keeps_fail,
        rule triple_bind [OF create_shell_triple [OF assms refl]], rule triple_prod_pre,
        rule triple_bind [OF written], rule keeps_ret)
qed

lemma id_after_dset: "id_of (dset k v d) = (if k = ''id'' then (case v of JStr s \<Rightarrow> code_points s | _ \<Rightarrow> []) else id_of d)"
  by (simp add: id_of_def)

lemma keeps_references:
  assumes "env_ok E" and "canonical_segment seg"
  shows "keeps E (post_submodel_reference E seg r)" and "keeps E (delete_submodel_reference E seg seg')"
proof -
  have step: "keeps E (rewrite_shell E i seg (add_reference x d))" "keeps E (rewrite_shell E i seg (remove_reference n d))"
    if "canonical seg i" "id_of d = i" for i d x n
    using keeps_rewrite(1) [OF assms(1) that(1)] that(2)
    by (simp_all add: add_reference_def remove_reference_def Let_def id_after_dset)
  show "keeps E (post_submodel_reference E seg r)"
    unfolding post_submodel_reference_def
    by (rule keeps_of_shell [OF assms], rule triple_option, rule keeps_fail, rule keeps_str, intro kept_steps step)
  show "keeps E (delete_submodel_reference E seg seg')"
    unfolding delete_submodel_reference_def
  proof (rule keeps_decode [OF assms(2)], rule keeps_then [OF keeps_decode_any])
    fix i j assume "canonical seg i"
    then show "keeps E (bindH (load_aas_doc E seg i) (\<lambda>d.
        case find_submodel_reference (shell_references d) j of
          None \<Rightarrow> failH (NotFound ''Submodel'' j)
        | Some n \<Rightarrow> bindH (rewrite_shell E i seg (remove_reference n d)) (\<lambda>e. retH response_204)))"
      by (rule keeps_load_aas [OF assms(1)], intro kept_steps step)
  qed
qed

text \<open>Asset information: the shell keeps its identifier.\<close>

lemma thumbnail_id:
  "set_thumbnail bs ct i d = Inr d' \<Longrightarrow> id_of d' = id_of d"
  "drop_thumbnail i d = Inr d' \<Longrightarrow> id_of d' = id_of d"
  by (cases "dget d ''assetInformation''";
      auto simp: set_thumbnail_def drop_thumbnail_def Let_def id_after_dset errs split: if_splits)+

lemma keeps_asset_information:
  assumes "env_ok E" and "canonical_segment seg"
  shows "keeps E (get_asset_information E seg)" and "keeps E (put_asset_information E seg info h)"
    and "keeps E (get_asset_information_thumbnail E seg)"
    and "keeps E (put_asset_information_thumbnail E seg bs ct h)"
    and "keeps E (delete_asset_information_thumbnail E seg h)"
proof -
  show "keeps E (get_asset_information E seg)" "keeps E (get_asset_information_thumbnail E seg)"
    unfolding get_asset_information_def get_asset_information_thumbnail_def
    by (rule keeps_of_shell [OF assms], intro kept_steps keeps_str keeps_attachment_response)+
  show "keeps E (put_asset_information E seg info h)" "keeps E (put_asset_information_thumbnail E seg bs ct h)"
    "keeps E (delete_asset_information_thumbnail E seg h)"
    unfolding put_asset_information_def put_asset_information_thumbnail_def delete_asset_information_thumbnail_def
    by (rule keeps_patched_shell [OF assms]; auto simp: id_after_dset thumbnail_id)+
qed

text \<open>Submodels through a shell.\<close>

lemma keeps_load_all:
  assumes "env_ok E" and "list_all (\<lambda>v. \<forall>s. v = JStr s \<longrightarrow> canonical (b64_of (code_points s)) (code_points s)) vs"
  shows "keeps E (load_all_referenced E f vs)"
  using assms(2)
proof (induction vs)
  case (Cons v vs)
  have "keeps E (load_referenced E v)"
  proof (cases v)
    case (JStr s)
    with Cons.prems have "canonical (b64_of (code_points s)) (code_points s)" by simp
    then show ?thesis unfolding load_referenced_def JStr json.case
      by (rule keeps_load_bytes [OF assms(1)]) (intro kept_steps)
  qed (simp_all add: load_referenced_def keeps_fail)
  moreover have "keeps E (load_all_referenced E f vs)" using Cons by simp
  ultimately show ?case by (auto intro!: kept_steps)
qed (simp add: keeps_ret)

text \<open>The encoding of a string that is not empty is canonical for it.\<close>

lemma canonical_encoded: "s \<noteq> [] \<Longrightarrow> canonical (b64_of (code_points s)) (code_points s)"
proof -
  assume s: "s \<noteq> []"
  have ok: "encode_component s = b64_of (code_points s)"
    using s by (simp add: encode_component_def b64_of_def code_points_def)
  have "encode_component s \<noteq> []" using encode_component_inj [of s "[]"] s by auto
  then obtain e where e: "encode_id_to_b64url (code_points s) = Some e"
    using ok by (auto simp: b64_of_def split: option.splits)
  with s have "decode_id_from_b64url e = Inr (code_points s)"
    using decode_encoded [OF e] by (simp add: code_points_def)
  with e show ?thesis by (simp add: canonical_def b64_of_def)
qed

lemma submodel_ids_truthy: "v \<in> set (extract_submodel_ids rs) \<Longrightarrow> truthy v"
proof -
  have key: "truthy v" if "submodel_key_value k = Some v" for k v
    using that by (auto simp: submodel_key_value_def split: json.splits if_splits)
  have ref: "truthy v" if "extract_submodel_id_from_reference r = Some v" for r v
  proof -
    from that obtain ks vs where "List.map_filter submodel_key_value ks = v # vs"
      by (auto simp: extract_submodel_id_from_reference_def split: json.splits list.splits)
    then have "v \<in> set (List.map_filter submodel_key_value ks)" by simp
    then show ?thesis using key by (auto simp: map_filter_def)
  qed
  assume "v \<in> set (extract_submodel_ids rs)"
  then obtain r where "reference_target r = Some v" by (auto simp: extract_submodel_ids_def map_filter_def)
  then show ?thesis using ref by (auto simp: reference_target_def split: json.splits)
qed

lemma keeps_list_submodels:
  assumes "env_ok E" and "canonical_segment aseg"
  shows "keeps E (get_submodels_for_shell E aseg limit h)"
proof -
  have "list_all (\<lambda>v. \<forall>s. v = JStr s \<longrightarrow> canonical (b64_of (code_points s)) (code_points s))
    (take limit (extract_submodel_ids rs))" for rs
    using submodel_ids_truthy canonical_encoded by (fastforce simp: list_all_iff dest!: in_set_takeD)
  then show ?thesis
    unfolding get_submodels_for_shell_def
    by (intro keeps_of_shell [OF assms] keeps_then [OF keeps_load_all [OF assms(1)]] keeps_ret)
qed

lemma keeps_reference_shell:
  assumes "env_ok E" and "canonical aseg i" and "id_of a = i"
  shows "keeps E (reference_shell E aseg i a j m)"
  unfolding reference_shell_def
  using keeps_rewrite(1) [OF assms(1,2)] assms(3)
  by (intro kept_steps) (simp_all add: add_reference_def id_after_dset)

text \<open>\<open>PUT\<close>: the submodel is committed before the shell is written.\<close>

lemma keeps_put_for_shell:
  assumes "env_ok E" and "canonical_segment aseg" and "canonical_segment seg"
  shows "keeps E (put_submodel_by_id_for_shell E aseg seg m h)"
proof -
  have create: "triple (session E) (repoH (submodel_create E m)) (\<lambda>p. changed_submodel E j (Some p)) (\<lambda>_. store_ok E)"
    if "id_of m = j" for j
  proof (rule triple_repo)
    fix w w' :: "'a world" and p assume "session E w" and "submodel_create E m w = (w', Inr p)"
    then show "changed_submodel E j (Some p) w'" using submodel_create_changes [OF _ assms(1) that] by (cases p) simp
  next
    fix w w' :: "'a world" and e assume "session E w" and "submodel_create E m w = (w', Inl e)"
    then show "store_ok E w'" using store_ok_quiet session_store submodel_create_effect(1) by blast
  qed
  have body: "keeps E (bindH (readH (\<lambda>t. get_bytes_by_id j (submodels t))) (\<lambda>current.
      case current of
        None \<Rightarrow>
          bindH (repoH (submodel_create E m)) (\<lambda>(d, e).
          bindH (submodel_written E CREATED j seg d e m) (\<lambda>_.
          bindH (reference_shell E aseg i a j m) (\<lambda>_. retH (r1 d e))))
      | Some (_, etag0) \<Rightarrow>
          bindH (check_precondition h etag0) (\<lambda>_.
          bindH (repoH (submodel_update E j m)) (\<lambda>r.
            case r of
              None \<Rightarrow> failH (Unhandled (Python TypeError))
            | Some (d, e) \<Rightarrow>
                bindH (submodel_written E UPDATED j seg d e m) (\<lambda>_.
                bindH (reference_shell E aseg i a j m) (\<lambda>_. retH (r2 e)))))))"
    if "canonical aseg i" "canonical seg j" "id_of a = i" "id_of m = j" for i j a r1 r2
    by (rule keeps_then [OF keeps_read], rule triple_option, rule triple_bind [OF create [OF that(4)]],
        rule triple_prod_pre, rule triple_bind [OF triple_written [OF assms(1) that(2)]],
        rule keeps_then [OF keeps_reference_shell [OF assms(1) that(1,3)]], rule keeps_ret,
        rule triple_prod, rule keeps_then [OF keeps_precondition], rule triple_bind [OF update_triples(1) [OF that(4)]],
        rule triple_option_pre, rule keeps_fail, rule triple_prod_pre,
        rule triple_bind [OF triple_written [OF assms(1) that(2)]],
        rule keeps_then [OF keeps_reference_shell [OF assms(1) that(1,3)]], rule keeps_ret)
  show ?thesis
    unfolding put_submodel_by_id_for_shell_def
    by (rule keeps_decode [OF assms(2)], rule keeps_decode [OF assms(3)], rule triple_if, rule keeps_fail,
        rule keeps_load_aas [OF assms(1)], assumption, rule body; simp)
qed

text \<open>\<open>DELETE\<close>: one transaction changes both tables.\<close>

definition changed_both :: "'s env \<Rightarrow> nat list \<Rightarrow> obj \<times> string \<Rightarrow> nat list \<Rightarrow> 's world \<Rightarrow> bool" where
  "changed_both E i p j w =
     (store_ok E w \<and> tables_ok E (serial w) (tx w) \<and>
      (\<forall>k. get_bytes_by_id k (shells (tx w)) = (if k = i then Some p else get_bytes_by_id k (shells (db w)))) \<and>
      (\<forall>k. get_bytes_by_id k (submodels (tx w)) = (if k = j then None else get_bytes_by_id k (submodels (db w)))))"

lemma aas_update_after_delete:
  assumes "changed_submodel E j None w" and "id_of m = i" and "aas_update E i m w = (w', Inr (Some (d, e)))"
  shows "changed_both E i (d, e) j w'"
proof -
  from aas_update_effect(5) [OF assms(3) refl] obtain r r' where
    r: "row_by_id i (shells (tx w)) = Some r" "row_of E r m d e r'" "\<not> clashes r' (shells (tx w))"
    and tx': "tx w' = (tx w)\<lparr>shells := replace_row r' (shells (tx w))\<rparr>" by blast
  have ok: "store_ok E w" "tables_ok E (serial w) (tx w)" "shells (tx w) = shells (db w)"
    using assms(1) by (simp_all add: changed_submodel_def)
  then have rows: "rows_ok E (serial w) (shells (tx w))" by (simp add: tables_ok_def)
  note new = update_rows [OF rows r assms(2)]
  show ?thesis
    using new ok tx' assms(1) aas_update_effect(1,2) [OF assms(3)] store_ok_quiet [OF ok(1)]
    by (simp add: changed_both_def changed_submodel_def tables_ok_def quiet_def)
qed

lemma changed_both_session:
  assumes E: "env_ok E" and seg: "canonical aseg i" "canonical seg j" and w: "changed_both E i (d, e) j w"
  shows "session E (w\<lparr>db := tx w, cache := set_aas (redis E) aseg d e
    (invalidate_submodel_elements (redis E) seg (delete_submodel (redis E) seg (cache w))),
    bus := bus w @ [submodel_deleted j seg, shell_event k i aseg d e]\<rparr>)"
proof -
  let ?t = "(tx w)\<lparr>shells := shells (db w)\<rparr>"
  let ?s = "invalidate_submodel_elements (redis E) seg (delete_submodel (redis E) seg (cache w))"
  have "shells_fresh E ?t ?s" "submodels_fresh E ?t ?s" "values_fresh E ?t ?s"
    using submodel_cached [OF E seg(2), of "db w" "cache w" ?t None _] w
    by (simp_all add: changed_both_def store_ok_def)
  note fresh = shell_cached [OF E seg(1) this, of "tx w" "Some (d, e)"]
  have "logged ?t (bus w @ [submodel_deleted j seg])"
    using w by (intro logged_submodel [of "db w"])
      (simp_all add: changed_both_def store_ok_def submodel_deleted_def content_of_def)
  from logged_shell [OF this, of "shell_event k i aseg d e" "tx w"]
  have "logged (tx w) (bus w @ [submodel_deleted j seg, shell_event k i aseg d e])"
    using w by (simp add: changed_both_def shell_event_def content_of_def)
  with fresh w show ?thesis
    by (simp add: changed_both_def session_def store_ok_def shell_cache_def)
qed

lemma keeps_delete_for_shell:
  assumes "env_ok E" and "canonical_segment aseg" and "canonical_segment seg"
  shows "keeps E (delete_submodel_by_id_for_shell E aseg seg)"
proof -
  have del: "triple (session E) (repoH (submodel_delete j))
      (\<lambda>b w. if b then changed_submodel E j None w else session E w) (\<lambda>_. store_ok E)" for j
  proof (rule triple_repo)
    fix w w' :: "'a world" and b assume "session E w" and run: "submodel_delete j w = (w', Inr b)"
    with submodel_delete_changes [of E w j w'] submodel_delete_effect(4) [OF run]
    show "if b then changed_submodel E j None w' else session E w'" by (cases b) auto
  qed (use submodel_delete_effect(3) in blast)
  have valid: "triple (changed_submodel E j None) (validate_shell E d) (\<lambda>m w. changed_submodel E j None w \<and> id_of m = i)
      (\<lambda>_. store_ok E)" if "id_of d = i" for j d i
    using assms(1) that unfolding validate_shell_def
    by (intro triple_sum triple_fail triple_ret) (auto simp: changed_submodel_def env_ok_def)
  have upd: "triple (changed_submodel E j None) (repoH (aas_update E i m))
      (\<lambda>r w. case r of None \<Rightarrow> store_ok E w | Some p \<Rightarrow> changed_both E i p j w) (\<lambda>_. store_ok E)" if "id_of m = i" for i j m
  proof (rule triple_repo)
    fix w w' :: "'a world" and r
    assume w: "changed_submodel E j None w" and run: "aas_update E i m w = (w', Inr r)"
    show "case r of None \<Rightarrow> store_ok E w' | Some p \<Rightarrow> changed_both E i p j w'"
      using aas_update_after_delete [OF w that] aas_update_effect(4) [OF run] run w
      by (cases r) (auto simp: changed_submodel_def)
  next
    fix w w' :: "'a world" and e assume "changed_submodel E j None w" and run: "aas_update E i m w = (w', Inl e)"
    then show "store_ok E w'" using store_ok_quiet [OF _ aas_update_effect(1) [OF run]] by (simp add: changed_submodel_def)
  qed
  have tail: "triple (changed_both E i (d, e) j)
      (bindH commit (\<lambda>_. bindH (set_cache (delete_submodel (redis E) seg)) (\<lambda>_.
       bindH (set_cache (invalidate_submodel_elements (redis E) seg)) (\<lambda>_.
       bindH (set_cache (set_aas (redis E) aseg d e)) (\<lambda>_.
       bindH (publish (submodel_deleted j seg)) (\<lambda>_.
       bindH (publish (shell_event UPDATED i aseg d e)) (\<lambda>_. retH response_204)))))))
      (\<lambda>_. session E) (\<lambda>_. store_ok E)" if "canonical aseg i" "canonical seg j" for i j d e
    using changed_both_session [OF assms(1) that] by (auto simp: triple_def handlers)
  have writing: "triple (changed_submodel E j None) (bindH (validate_shell E a') (\<lambda>m. bindH (repoH (aas_update E i m)) (\<lambda>r.
      case r of
        None \<Rightarrow> failH (Unhandled (Python TypeError))
      | Some (d, e) \<Rightarrow>
         bindH commit (\<lambda>_. bindH (set_cache (delete_submodel (redis E) seg)) (\<lambda>_.
         bindH (set_cache (invalidate_submodel_elements (redis E) seg)) (\<lambda>_.
         bindH (set_cache (set_aas (redis E) aseg d e)) (\<lambda>_.
         bindH (publish (submodel_deleted j seg)) (\<lambda>_.
         bindH (publish (shell_event UPDATED i aseg d e)) (\<lambda>_. retH response_204)))))))))
      (\<lambda>_. session E) (\<lambda>_. store_ok E)"
    if "canonical aseg i" "canonical seg j" "id_of a' = i" for i j a'
    by (rule triple_bind [OF valid [OF that(3)]], rule triple_conj, rule triple_bind [OF upd], assumption,
        rule triple_option_pre, rule triple_fail, assumption, rule triple_prod_pre, rule tail [OF that(1,2)])
  show ?thesis
    unfolding delete_submodel_by_id_for_shell_def
  proof (rule keeps_decode [OF assms(2)], rule keeps_decode [OF assms(3)], rule keeps_load_aas [OF assms(1)], assumption,
      rule triple_option, rule keeps_fail, rule triple_bind [OF del])
    fix i j a n b
    assume ij: "canonical aseg i" "canonical seg j" and a: "id_of a = i"
    have a': "id_of (remove_reference n a) = i" using a by (simp add: remove_reference_def Let_def id_after_dset)
    show "triple (\<lambda>w. if b then changed_submodel E j None w else session E w)
      (if \<not> b then failH (NotFound ''Submodel'' j)
       else bindH (validate_shell E (remove_reference n a)) (\<lambda>m. bindH (repoH (aas_update E i m)) (\<lambda>r.
         case r of
           None \<Rightarrow> failH (Unhandled (Python TypeError))
         | Some (d, e) \<Rightarrow>
            bindH commit (\<lambda>_. bindH (set_cache (delete_submodel (redis E) seg)) (\<lambda>_.
            bindH (set_cache (invalidate_submodel_elements (redis E) seg)) (\<lambda>_.
            bindH (set_cache (set_aas (redis E) aseg d e)) (\<lambda>_.
            bindH (publish (submodel_deleted j seg)) (\<lambda>_.
            bindH (publish (shell_event UPDATED i aseg d e)) (\<lambda>_. retH response_204)))))))))
      (\<lambda>_. session E) (\<lambda>_. store_ok E)"
      by (cases b) (simp_all add: keeps_fail writing [OF ij a'])
  qed
qed

text \<open>The changes of a document below a shell keep its identifier.\<close>

lemma dget_merge: "dget (merge_docs d ups) k = (if dhas ups k then dget ups k else dget d k)"
proof -
  have "dget (fold (\<lambda>k d. dset k (dget ups k) d) ks d) k = (if k \<in> set ks then dget ups k else dget d k)" for ks
    by (induction ks arbitrary: d) auto
  moreover have "dhas ups k \<longleftrightarrow> k \<in> set (map fst ups)" by (simp add: dhas_def map_of_eq_None_iff)
  ultimately show ?thesis by (simp only: merge_docs_def)
qed

lemma core_patch_id:
  assumes "core_patch j ups d = Inr d'" and "id_of d = j"
  shows "id_of d' = j"
proof -
  from assms(1) have id: "dhas ups ''id'' \<Longrightarrow> is_id (dget ups ''id'') j"
    and d': "d' = (if dhas d ''submodelElements'' then dset ''submodelElements'' (dget d ''submodelElements'') (merge_docs d ups)
              else merge_docs d ups)"
    by (auto simp: core_patch_def Let_def split: if_splits)
  have "id_of (merge_docs d ups) = j"
    using id assms(2) by (cases "dhas ups ''id''") (auto simp: id_of_def dget_merge is_id_def split: json.splits)
  then show ?thesis by (simp add: d' id_after_dset)
qed

lemma keeps_below:
  assumes "env_ok E" and "canonical_segment aseg" and "canonical_submodel rq" and "serve_below E aseg rq = Some h"
  shows "keeps E h"
proof -
  have read: "keeps E (scoped_read E aseg seg f)" "keeps E (scoped_element E aseg seg p g)"
    if "canonical_segment seg" "\<And>s x. keeps E (g s x)" for seg f p g
    unfolding scoped_read_def scoped_element_def
    by (rule keeps_scoped [OF assms(1,2) that(1)], intro kept_steps that(2))+
  have get: "keeps E (get_submodel_by_id_for_shell E aseg seg q m)" if "canonical_segment seg" for seg q m
    unfolding get_submodel_by_id_for_shell_def by (rule keeps_scoped [OF assms(1,2) that], intro kept_steps)
  have attachment: "keeps E (get_element_attachment_for_shell E aseg seg p)" if "canonical_segment seg" for seg p
    unfolding get_element_attachment_for_shell_def
    by (rule read(2) [OF that], intro kept_steps keeps_str keeps_attachment_response)
  note edit = keeps_scoped_edit [OF assms(1,2)]
  show ?thesis
    using assms(3,4)
    by (cases rq)
      (auto simp: canonical_submodel_def keeps_put_for_shell keeps_delete_for_shell assms(1,2) get attachment
        get_submodel_metadata_for_shell_def patch_submodel_metadata_for_shell_def get_submodel_value_for_shell_def
        patch_submodel_value_for_shell_def get_submodel_reference_for_shell_def get_submodel_path_for_shell_def
        get_submodel_elements_for_shell_def get_all_submodel_elements_metadata_for_shell_def
        get_all_submodel_elements_value_for_shell_def get_all_submodel_elements_reference_for_shell_def
        get_all_submodel_elements_path_for_shell_def get_submodel_element_by_path_for_shell_def
        get_submodel_element_metadata_for_shell_def get_submodel_element_value_for_shell_def
        get_submodel_element_reference_for_shell_def get_submodel_element_path_for_shell_def
        put_element_attachment_for_shell_def delete_element_attachment_for_shell_def
        post_submodel_element_for_shell_def post_nested_submodel_element_for_shell_def
        put_submodel_element_for_shell_def patch_submodel_element_value_for_shell_def
        patch_submodel_element_for_shell_def delete_submodel_element_for_shell_def
        intro!: read edit keeps_pure dest: metadata_patch_id values_patch_id attachment_ids edit_ids)
qed

lemma keeps_serve_shell:
  assumes "env_ok E" and "\<forall>seg \<in> set (shell_segments rq). canonical_segment seg"
  shows "keeps E (serve_shell E rq)"
proof -
  have read: "keeps E (of_shell E seg (\<lambda>i d. retH (f i d)))" if "canonical_segment seg" for seg f
    by (rule keeps_of_shell [OF assms(1) that], rule keeps_ret)
  have core: "keeps E (patch_submodel_by_id_for_shell E aseg seg ups lv m)"
    if "canonical_segment aseg" "canonical_segment seg" for aseg seg ups lv m
    unfolding patch_submodel_by_id_for_shell_def
    by (rule triple_if, rule keeps_fail, rule keeps_scoped_edit [OF assms(1) that]) (rule core_patch_id)
  show ?thesis
    using assms(2)
    by (cases rq) (simp_all add: get_all_shells_def get_all_shells_metadata_def get_all_shell_references_def
      keeps_list_shells keeps_post_shell keeps_get_shell keeps_put_shell keeps_delete_shell keeps_asset_information
      keeps_references keeps_list_submodels core assms(1) get_shell_metadata_def get_shell_reference_def
      get_submodel_references_def read)
qed

lemma keeps_api:
  assumes "env_ok E" and "canonical_request rq" and "serve_api E rq = Some h"
  shows "keeps E h"
proof (cases rq)
  case (OnSubmodels r)
  with assms keeps_serve [OF assms(1), of r] show ?thesis
    by (cases "submodel_segment r") (auto simp: canonical_request_def canonical_submodel_def)
next
  case (OnShells r)
  with assms keeps_serve_shell [OF assms(1), of r] show ?thesis by (auto simp: canonical_request_def)
next
  case (Below a r)
  with assms keeps_below [OF assms(1), of a r h] show ?thesis
    by (cases "submodel_segment r") (auto simp: canonical_request_def canonical_submodel_def)
qed

section \<open>What a client can rely on\<close>

text \<open>
  The server at work: a request of either router whose identifiers are canonical, or entries of the
  cache expire.
\<close>

inductive server_step :: "'s env \<Rightarrow> 's world \<Rightarrow> 's world \<Rightarrow> bool" for E where
  request: "serve_api E rq = Some h \<Longrightarrow> canonical_request rq \<Longrightarrow> server_step E w (fst (run_request h w))"
| expire: "kv_expires (redis E) (cache w) s \<Longrightarrow> server_step E w (w\<lparr>cache := s\<rparr>)"

text \<open>An empty database, an empty cache, nothing published.\<close>

definition fresh_start :: "'s env \<Rightarrow> 's world \<Rightarrow> bool" where
  "fresh_start E w =
     (shells (db w) = [] \<and> submodels (db w) = [] \<and> assets (db w) = [] \<and> bus w = [] \<and> (\<forall>k. kv_get (redis E) k (cache w) = None))"

lemma keeps_request:
  assumes "keeps E h" and "store_ok E w"
  shows "store_ok E (fst (run_request h w))"
proof -
  have s: "session E (w\<lparr>tx := db w\<rparr>)" using assms(2) by (simp add: session_def store_ok_def)
  obtain w' r where run: "h (w\<lparr>tx := db w\<rparr>) = (w', r)" by (cases "h (w\<lparr>tx := db w\<rparr>)")
  have "store_ok E w'"
  proof (cases r)
    case (Inl e)
    with triple_Inl [OF assms(1) s] run show ?thesis by blast
  next
    case (Inr a)
    with triple_Inr [OF assms(1) s] run session_store show ?thesis by blast
  qed
  then show ?thesis by (simp add: run_request_def run store_ok_def)
qed

lemma expired_pair:
  "kv_expires K s s' \<Longrightarrow> get_pair K kb ke s' = Some p \<Longrightarrow> get_pair K kb ke s = Some p"
proof -
  have some: "both_cached x y = Some p \<longleftrightarrow> x = Some (JDict (fst p)) \<and> y = Some (JStr (snd p))" for x y
    by (cases "(x, y)" rule: both_cached.cases) auto
  assume "kv_expires K s s'" and "get_pair K kb ke s' = Some p"
  then show ?thesis unfolding kv_expires_def get_pair_def some by (metis option.distinct(1))
qed

lemma store_ok_expire:
  assumes "store_ok E w" and "kv_expires (redis E) (cache w) s"
  shows "store_ok E (w\<lparr>cache := s\<rparr>)"
proof -
  have "get_submodel (redis E) seg s = Some p \<Longrightarrow> get_submodel (redis E) seg (cache w) = Some p" for seg p
    using expired_pair [OF assms(2)] by (simp add: get_submodel_def)
  moreover have "get_aas (redis E) seg s = Some p \<Longrightarrow> get_aas (redis E) seg (cache w) = Some p" for seg p
    using expired_pair [OF assms(2)] by (simp add: get_aas_def)
  moreover have "Cache.get_element_value (redis E) seg path s = Some v \<Longrightarrow>
      Cache.get_element_value (redis E) seg path (cache w) = Some v" for seg path v
    using assms(2) unfolding Cache.get_element_value_def kv_expires_def by (metis option.distinct(1))
  ultimately show ?thesis
    using assms(1) unfolding store_ok_def shells_fresh_def submodels_fresh_def values_fresh_def by simp
qed

lemma store_ok_start: "fresh_start E w \<Longrightarrow> store_ok E w"
  by (simp add: fresh_start_def store_ok_def logged_def replay_def get_bytes_by_id_def row_by_id_def tables_ok_def rows_ok_def shells_fresh_def submodels_fresh_def
      values_fresh_def get_aas_def get_submodel_def get_pair_def Cache.get_element_value_def)

interpretation server: inductive_invariant
  "\<lambda>w. env_ok E \<and> fresh_start E w" "\<lambda>w w'. env_ok E \<and> server_step E w w'" "store_ok E" for E :: "'s env"
proof unfold_locales
  fix w :: "'s world" assume "env_ok E \<and> fresh_start E w"
  then show "store_ok E w" using store_ok_start by blast
next
  fix w w' :: "'s world" assume "env_ok E \<and> server_step E w w'" and w: "store_ok E w"
  then have E: "env_ok E" and "server_step E w w'" by simp_all
  from this(2) show "store_ok E w'"
  proof cases
    case (request rq h)
    with keeps_request [OF keeps_api [OF E] w] show ?thesis by blast
  next
    case (expire s)
    with store_ok_expire [OF w] show ?thesis by blast
  qed
qed

lemma reachable_store:
  assumes "env_ok E" and "fresh_start E w0" and "(server_step E)\<^sup>*\<^sup>* w0 w"
  shows "store_ok E w"
proof -
  have "(\<lambda>w w'. env_ok E \<and> server_step E w w')\<^sup>*\<^sup>* w0 w"
    using assms(1,3) by (metis (mono_tags, lifting) mono_rtranclp)
  from server.reachable_inv [OF _ this] assms(1,2) show ?thesis by blast
qed

end
