(* ===== verification/SubmodelSpec.thy ===== *)
theory SubmodelSpec
  imports ShellState
begin

text \<open>
  What the submodel repository promises its clients, request by request: reads show the database,
  a request changes at most one submodel and announces it, preconditions are respected; and where the
  code does not keep such a promise.
\<close>

section \<open>Requests that change one submodel\<close>

text \<open>One submodel has become what the one new event says, the others are as they were.\<close>

definition announced :: "database \<Rightarrow> published list \<Rightarrow> 's world \<Rightarrow> bool" where
  "announced D B w =
     (\<exists>ev. bus w = B @ [ev] \<and> \<not> ev_shell ev \<and> shells (db w) = shells D \<and>
        (\<forall>j. get_bytes_by_id j (submodels (db w)) =
             (if j = ev_id ev then content_of ev else get_bytes_by_id j (submodels D))))"

definition unchanged :: "database \<Rightarrow> published list \<Rightarrow> 's world \<Rightarrow> bool" where
  "unchanged D B w = (db w = D \<and> bus w = B)"

text \<open>Steps that change neither the database nor the bus.\<close>

abbreviation still :: "('s, 'a) handler \<Rightarrow> bool" where
  "still h \<equiv> \<forall>D B. triple (unchanged D B) h (\<lambda>_. unchanged D B) (\<lambda>_. unchanged D B)"

lemma still_basic:
  "still (retH a)" "still (failH f)" "still (readH g)" "still (cacheH c)" "still (set_cache k)"
  "still (pureH m)" "still (decode_identifier s)" "still (check_precondition h e)"
  "still (validate_submodel E d)" "still (current_submodel i)" "still (stream_blob_by_id b)"
  by (auto simp: triple_def unchanged_def handlers decode_identifier_def check_precondition_def
      validate_submodel_def current_submodel_def stream_blob_by_id_def split: sum.splits option.splits)

lemma still_bind: "still m \<Longrightarrow> (\<And>a. still (f a)) \<Longrightarrow> still (bindH m f)"
  by (blast intro: triple_bind)

lemma still_cases:
  "(x = None \<Longrightarrow> still f) \<Longrightarrow> (\<And>y. x = Some y \<Longrightarrow> still (g y)) \<Longrightarrow> still (case x of None \<Rightarrow> f | Some y \<Rightarrow> g y)"
  "(\<And>a b. p = (a, b) \<Longrightarrow> still (k a b)) \<Longrightarrow> still (case p of (a, b) \<Rightarrow> k a b)"
  "(c \<Longrightarrow> still u) \<Longrightarrow> (\<not> c \<Longrightarrow> still v) \<Longrightarrow> still (if c then u else v)"
  "(\<And>y. z = Inl y \<Longrightarrow> still (l y)) \<Longrightarrow> (\<And>y. z = Inr y \<Longrightarrow> still (r y)) \<Longrightarrow> still (case z of Inl y \<Rightarrow> l y | Inr y \<Rightarrow> r y)"
  by (simp_all split: option.split prod.split sum.split)

lemma still_load: "still (load_submodel E seg i)"
  unfolding load_submodel_def by (intro still_basic still_bind still_cases)

lemma still_load_element: "still (load_element E seg i p)"
  unfolding load_element_def by (intro still_basic still_bind still_cases still_load)

lemma still_query: "still (query_submodels E h q)"
  unfolding query_submodels_def by (intro still_basic still_bind still_cases)

lemmas still = still_basic still_bind still_cases still_load still_load_element still_query

lemma still_readers:
  "still (get_all_submodels E h q)" "still (get_all_submodels_metadata E h q)"
  "still (get_all_submodels_reference E h q)" "still (get_all_submodels_path E h q)"
  "still (get_all_submodels_value E h q)" "still (get_submodel_by_id E seg h m)"
  "still (of_submodel E seg f)" "still (of_elements E seg f)" "still (of_element E seg p g)"
  "still (get_submodel_elements E seg h)" "still (get_submodel_element_by_path E seg p h)"
  "still (get_element_value E seg p)"
  unfolding get_all_submodels_def get_all_submodels_metadata_def get_all_submodels_reference_def
    get_all_submodels_path_def get_all_submodels_value_def get_submodel_by_id_def of_submodel_def
    of_elements_def of_element_def get_submodel_elements_def get_submodel_element_by_path_def
    get_element_value_def
  by (intro still)+

lemma still_attachment: "still (get_element_attachment E seg p)"
proof -
  have "still (build_attachment_response v ct)" for v ct
    unfolding build_attachment_response_def by (intro still)
  then have "still (case j of JStr v \<Rightarrow> build_attachment_response v ct | _ \<Rightarrow> failH f)" for j ct f
    by (cases j) (simp_all add: still_basic(2))
  then show ?thesis unfolding get_element_attachment_def by (intro still)
qed

lemma triple_both:
  "triple P h Q R \<Longrightarrow> triple P' h Q' R' \<Longrightarrow>
   triple (\<lambda>w. P w \<and> P' w) h (\<lambda>a w. Q a w \<and> Q' a w) (\<lambda>f w. R f w \<and> R' f w)"
  by (auto simp: triple_def split: sum.splits)

definition starts :: "'s env \<Rightarrow> database \<Rightarrow> published list \<Rightarrow> 's world \<Rightarrow> bool" where
  "starts E D B w = (session E w \<and> unchanged D B w)"

text \<open>
  A request that succeeds has changed nothing, or one submodel with its event; one that fails has
  changed nothing, unless it is an internal error after the commit.
\<close>

abbreviation writes :: "'s env \<Rightarrow> ('s, 'a) handler \<Rightarrow> bool" where
  "writes E h \<equiv> \<forall>D B. triple (starts E D B) h (\<lambda>_ w. unchanged D B w \<or> announced D B w)
     (\<lambda>f w. unchanged D B w \<or> status_code f = 500 \<and> announced D B w)"

lemma writes_still: "still h \<Longrightarrow> writes E h"
  by (fastforce simp: triple_def starts_def split: sum.splits)

text \<open>Steps before the write keep the start of the session.\<close>

lemma starts_basic:
  "triple (starts E D B) (failH f) Q (\<lambda>_. unchanged D B)"
  "triple (starts E D B) (decode_identifier seg) (\<lambda>_. starts E D B) (\<lambda>_. unchanged D B)"
  "triple (starts E D B) (check_precondition h e) (\<lambda>_. starts E D B) (\<lambda>_. unchanged D B)"
  "triple (starts E D B) (readH g) (\<lambda>_. starts E D B) (\<lambda>_. unchanged D B)"
  by (auto simp: triple_def starts_def unchanged_def handlers decode_identifier_def check_precondition_def
      session_def split: sum.splits option.splits prod.splits)

lemma starts_current:
  "triple (starts E D B) (current_submodel i) (\<lambda>p w. starts E D B w \<and> id_of (fst p) = i) (\<lambda>_. unchanged D B)"
proof (rule tripleI)
  fix w w' :: "'a world" and p
  assume w: "starts E D B w" and run: "current_submodel i w = (w', Inr p)"
  then have "w' = w" and "get_bytes_by_id i (submodels (db w)) = Some (fst p, snd p)"
    by (auto simp: current_submodel_def handlers starts_def session_def split: option.splits)
  with w session_id [of E w i "fst p" "snd p"] show "starts E D B w' \<and> id_of (fst p) = i"
    by (simp add: starts_def)
qed (auto simp: current_submodel_def handlers starts_def split: option.splits)

lemma starts_weaken:
  "triple P h Q (\<lambda>_. unchanged D B) \<Longrightarrow>
   triple P h Q (\<lambda>f w. unchanged D B w \<or> status_code f = 500 \<and> announced D B w)"
  by (erule triple_weaken) auto

lemma writes_bind:
  assumes "\<And>D B. triple (starts E D B) m (\<lambda>a w. starts E D B w \<and> F a) (\<lambda>_. unchanged D B)"
    and "\<And>a. F a \<Longrightarrow> writes E (f a)"
  shows "writes E (bindH m f)"
  using assms by (intro allI triple_bind [OF starts_weaken [OF assms(1)]] triple_conj) blast

lemma quiet_unchanged: "quiet w w' \<Longrightarrow> unchanged D B w \<Longrightarrow> unchanged D B w'"
  by (simp add: quiet_def unchanged_def)

definition updated :: "'s env \<Rightarrow> database \<Rightarrow> published list \<Rightarrow> nat list \<Rightarrow> (obj \<times> string) option \<Rightarrow> 's world \<Rightarrow> bool" where
  "updated E D B i p w = (changed_submodel E i p w \<and> unchanged D B w)"

lemma update_starts:
  assumes "id_of m = i"
  shows "triple (starts E D B) (repoH (submodel_update E i m))
      (\<lambda>r w. case r of None \<Rightarrow> unchanged D B w | Some p \<Rightarrow> updated E D B i (Some p) w) (\<lambda>_. unchanged D B)"
    and "triple (starts E D B) (catchH (submodel_update E i m))
      (\<lambda>r w. case r of None \<Rightarrow> unchanged D B w | Some p \<Rightarrow> updated E D B i (Some p) w) (\<lambda>_. unchanged D B)"
proof -
  have good: "case r of None \<Rightarrow> unchanged D B w' | Some p \<Rightarrow> updated E D B i (Some p) w'"
    if "starts E D B w" "submodel_update E i m w = (w', Inr r)" for w w' r
    using that submodel_update_changes [of E w m i w', OF _ assms] quiet_unchanged [OF submodel_update_effect(1) [OF that(2)]]
    by (cases r) (auto simp: starts_def updated_def)
  have bad: "unchanged D B w'" if "starts E D B w" "submodel_update E i m w = (w', Inl e)" for w w' e
    using that quiet_unchanged [OF submodel_update_effect(1) [OF that(2)]] by (simp add: starts_def)
  show "triple (starts E D B) (repoH (submodel_update E i m))
      (\<lambda>r w. case r of None \<Rightarrow> unchanged D B w | Some p \<Rightarrow> updated E D B i (Some p) w) (\<lambda>_. unchanged D B)"
    and "triple (starts E D B) (catchH (submodel_update E i m))
      (\<lambda>r w. case r of None \<Rightarrow> unchanged D B w | Some p \<Rightarrow> updated E D B i (Some p) w) (\<lambda>_. unchanged D B)"
    by (rule triple_repo, erule (1) good, erule (1) bad)+
qed

lemma create_starts:
  assumes "env_ok E" and "id_of m = i"
  shows "triple (starts E D B) (catchH (submodel_create E m)) (\<lambda>p. updated E D B i (Some p)) (\<lambda>_. unchanged D B)"
proof (rule triple_repo)
  fix w w' p assume w: "starts E D B w" and run: "submodel_create E m w = (w', Inr p)"
  with submodel_create_changes [OF _ assms, of w w' "fst p" "snd p"]
  have "changed_submodel E i (Some p) w'" by (simp add: starts_def)
  with w quiet_unchanged [OF submodel_create_effect(1) [OF run]]
  show "updated E D B i (Some p) w'" by (simp add: starts_def updated_def)
next
  fix w w' e assume "starts E D B w" and run: "submodel_create E m w = (w', Inl e)"
  with quiet_unchanged [OF submodel_create_effect(1) [OF run]] show "unchanged D B w'" by (simp add: starts_def)
qed

lemma updated_announced:
  assumes "updated E D B i p w" and "ev_id ev = i" and "content_of ev = p" and "\<not> ev_shell ev"
  shows "announced D B (w\<lparr>db := tx w, cache := s, bus := bus w @ [ev]\<rparr>)"
  unfolding announced_def using assms
  by (intro exI [of _ ev]) (auto simp: updated_def changed_submodel_def unchanged_def)

lemma written_announced:
  "triple (updated E D B i (Some (d, e))) (submodel_written E k i seg d e m) (\<lambda>_. announced D B) R"
  using updated_announced [of E D B i "Some (d, e)" _ "submodel_event k i seg d e m"]
  by (auto simp: triple_def submodel_written_def handlers submodel_event_def content_of_def)

lemma writes_ret: "triple (announced D B) (retH a) (\<lambda>_ w. unchanged D B w \<or> announced D B w) R"
  by (simp add: triple_def retH_def)

lemma persist_starts:
  assumes "env_ok E" and "id_of d = i"
  shows "triple (starts E D B) (persist_submodel_doc_update E i seg d) (\<lambda>_. announced D B) (\<lambda>_. unchanged D B)"
  unfolding persist_submodel_doc_update_def
proof (rule triple_bind)
  show "triple (starts E D B) (validate_submodel E d) (\<lambda>m w. starts E D B w \<and> id_of m = i) (\<lambda>_. unchanged D B)"
    using assms by (auto simp: triple_def validate_submodel_def handlers starts_def env_ok_def split: sum.split)
next
  fix m
  show "triple (\<lambda>w. starts E D B w \<and> id_of m = i) (bindH (repoH (submodel_update E i m)) (\<lambda>r.
        case r of None \<Rightarrow> failH (NotFound ''Submodel'' i)
        | Some (d, e) \<Rightarrow> bindH (submodel_written E UPDATED i seg d e m) (\<lambda>_. retH (d, e))))
      (\<lambda>_. announced D B) (\<lambda>_. unchanged D B)"
    by (rule triple_conj, erule triple_bind [OF update_starts(1)], rule triple_option_pre,
        rule triple_fail, assumption, rule triple_prod_pre, rule triple_bind [OF written_announced],
        rule triple_ret)
qed

lemma writes_patched:
  assumes "env_ok E" and "\<And>d d'. f d = Inr d' \<Longrightarrow> id_of d' = id_of d"
  shows "writes E (patched_submodel E seg h f)" and "writes E (write_element E seg h f respond)"
proof -
  have frame: "writes E (bindH (decode_identifier seg) (\<lambda>i.
     bindH (current_submodel i) (\<lambda>(d, etag0).
     bindH (check_precondition h etag0) (\<lambda>_.
       case f d of Inl e \<Rightarrow> failH e | Inr d' \<Rightarrow> bindH (persist_submodel_doc_update E i seg d') (g d')))))"
    if g: "\<And>d' p D B. triple (announced D B) (g d' p) (\<lambda>_ w. unchanged D B w \<or> announced D B w)
        (\<lambda>f w. unchanged D B w \<or> status_code f = 500 \<and> announced D B w)" for g
  proof (rule writes_bind [where F = "\<lambda>_. True", simplified, OF starts_basic(2)], rule writes_bind [OF starts_current])
    fix i and p :: "obj \<times> string" assume i: "id_of (fst p) = i"
    obtain d e where p: "p = (d, e)" by (cases p)
    have tail: "writes E (case f d of Inl e \<Rightarrow> failH e | Inr d' \<Rightarrow> bindH (persist_submodel_doc_update E i seg d') (g d'))"
    proof (cases "f d")
      case (Inl e)
      then show ?thesis by (simp add: writes_still still_basic)
    next
      case (Inr d')
      with assms(2) i p have "id_of d' = i" by simp
      from triple_bind [OF starts_weaken [OF persist_starts [OF assms(1) this]] g] Inr show ?thesis by simp
    qed
    show "writes E (case p of (d, etag0) \<Rightarrow> bindH (check_precondition h etag0) (\<lambda>_.
       case f d of Inl e \<Rightarrow> failH e | Inr d' \<Rightarrow> bindH (persist_submodel_doc_update E i seg d') (g d')))"
      unfolding p prod.case
      by (rule writes_bind [where F = "\<lambda>_. True", simplified, OF starts_basic(3) tail])
  qed
  show "writes E (patched_submodel E seg h f)"
    unfolding patched_submodel_def by (rule frame) (auto simp: triple_def handlers split: prod.split)
  show "writes E (write_element E seg h f respond)"
    unfolding write_element_def
    by (rule frame) (auto simp: triple_def handlers liftE_eq_Inl split: prod.split sum.split)
qed

lemma writes_post: "env_ok E \<Longrightarrow> writes E (post_submodel E m)"
proof (intro allI)
  fix D B assume E: "env_ok E"
  show "triple (starts E D B) (post_submodel E m) (\<lambda>_ w. unchanged D B w \<or> announced D B w)
     (\<lambda>f w. unchanged D B w \<or> status_code f = 500 \<and> announced D B w)"
    unfolding post_submodel_def
  proof (rule triple_bind [OF starts_weaken [OF starts_basic(4)]], rule triple_if)
    show "triple (starts E D B) (bindH (catchH (submodel_create E m)) (\<lambda>(d, e).
         bindH commit (\<lambda>_.
         bindH (set_cache (set_submodel (redis E) (b64_of (id_of m)) d e)) (\<lambda>_.
         bindH (publish (submodel_event CREATED (id_of m) (b64_of (id_of m)) d e m)) (\<lambda>_.
           retH (json_response_with_etag (JDict d) e 201 (Some (''/submodels/'' @ b64_of (id_of m)))))))))
      (\<lambda>_ w. unchanged D B w \<or> announced D B w) (\<lambda>f w. unchanged D B w \<or> status_code f = 500 \<and> announced D B w)"
    proof (rule triple_bind [OF starts_weaken [OF create_starts [OF E refl]]], rule triple_prod_pre)
      fix d e
      show "triple (updated E D B (id_of m) (Some (d, e))) (bindH commit (\<lambda>_.
         bindH (set_cache (set_submodel (redis E) (b64_of (id_of m)) d e)) (\<lambda>_.
         bindH (publish (submodel_event CREATED (id_of m) (b64_of (id_of m)) d e m)) (\<lambda>_.
           retH (json_response_with_etag (JDict d) e 201 (Some (''/submodels/'' @ b64_of (id_of m))))))))
        (\<lambda>_ w. unchanged D B w \<or> announced D B w) (\<lambda>f w. unchanged D B w \<or> status_code f = 500 \<and> announced D B w)"
        using updated_announced [of E D B "id_of m" "Some (d, e)" _ "submodel_event CREATED (id_of m) (b64_of (id_of m)) d e m"]
        by (auto simp: triple_def handlers submodel_event_def content_of_def)
    qed
  qed (rule starts_weaken [OF starts_basic(1)])
qed

lemma writes_delete: "writes E (delete_submodel_by_id E seg)"
  unfolding delete_submodel_by_id_def
proof (rule writes_bind [where F = "\<lambda>_. True", simplified, OF starts_basic(2)], intro allI)
  fix i D B
  have del: "triple (starts E D B) (repoH (submodel_delete i))
      (\<lambda>b w. if b then updated E D B i None w else unchanged D B w) (\<lambda>_. unchanged D B)"
  proof (rule triple_repo)
    fix w w' b assume w: "starts E D B w" and run: "submodel_delete i w = (w', Inr b)"
    with submodel_delete_changes [of E w i w'] quiet_unchanged [OF submodel_delete_effect(1) [OF run]]
    show "if b then updated E D B i None w' else unchanged D B w'" by (cases b) (auto simp: starts_def updated_def)
  qed (use submodel_delete_effect(3) in blast)
  have tail: "triple (updated E D B i None)
      (bindH commit (\<lambda>_. bindH (set_cache (delete_submodel (redis E) seg)) (\<lambda>_.
       bindH (set_cache (invalidate_submodel_elements (redis E) seg)) (\<lambda>_.
       bindH (publish (submodel_deleted i seg)) (\<lambda>_. retH response_204)))))
      (\<lambda>_ w. unchanged D B w \<or> announced D B w) (\<lambda>f w. unchanged D B w \<or> status_code f = 500 \<and> announced D B w)"
    using updated_announced [of E D B i None _ "submodel_deleted i seg"]
    by (auto simp: triple_def handlers submodel_deleted_def content_of_def)
  show "triple (starts E D B) (bindH (repoH (submodel_delete i)) (\<lambda>deleted.
       if \<not> deleted then failH (NotFound ''Submodel'' i)
       else bindH commit (\<lambda>_. bindH (set_cache (delete_submodel (redis E) seg)) (\<lambda>_.
         bindH (set_cache (invalidate_submodel_elements (redis E) seg)) (\<lambda>_.
         bindH (publish (submodel_deleted i seg)) (\<lambda>_. retH response_204))))))
      (\<lambda>_ w. unchanged D B w \<or> announced D B w) (\<lambda>f w. unchanged D B w \<or> status_code f = 500 \<and> announced D B w)"
  proof (rule triple_bind [OF starts_weaken [OF del]])
    fix b :: bool
    show "triple (\<lambda>w. if b then updated E D B i None w else unchanged D B w)
       (if \<not> b then failH (NotFound ''Submodel'' i)
        else bindH commit (\<lambda>_. bindH (set_cache (delete_submodel (redis E) seg)) (\<lambda>_.
         bindH (set_cache (invalidate_submodel_elements (redis E) seg)) (\<lambda>_.
         bindH (publish (submodel_deleted i seg)) (\<lambda>_. retH response_204)))))
      (\<lambda>_ w. unchanged D B w \<or> announced D B w) (\<lambda>f w. unchanged D B w \<or> status_code f = 500 \<and> announced D B w)"
      by (cases b) (simp_all add: tail, simp add: triple_def failH_def)
  qed
qed

lemma writes_put: "env_ok E \<Longrightarrow> writes E (put_submodel_by_id E seg m h)"
  unfolding put_submodel_by_id_def
proof (rule writes_bind [where F = "\<lambda>_. True", simplified, OF starts_basic(2)], intro allI, rule triple_if)
  fix i D B assume E: "env_ok E" and "\<not> i \<noteq> id_of m"
  then have m: "id_of m = i" by simp
  show "triple (starts E D B) (bindH (readH (\<lambda>t. get_bytes_by_id i (submodels t))) (\<lambda>current.
         case current of
           None \<Rightarrow>
             bindH (catchH (submodel_create E m)) (\<lambda>(d, e).
             bindH (submodel_written E CREATED i seg d e m) (\<lambda>_.
               retH (json_response_with_etag (JDict d) e 201 (Some (''/submodels/'' @ seg)))))
         | Some (_, etag0) \<Rightarrow>
             bindH (check_precondition h etag0) (\<lambda>_.
             bindH (catchH (submodel_update E i m)) (\<lambda>r.
               case r of
                 None \<Rightarrow> failH (Unhandled (Python TypeError))
               | Some (d, e) \<Rightarrow>
                   bindH (submodel_written E UPDATED i seg d e m) (\<lambda>_. retH (no_content_response e))))))
    (\<lambda>_ w. unchanged D B w \<or> announced D B w) (\<lambda>f w. unchanged D B w \<or> status_code f = 500 \<and> announced D B w)"
    by (rule triple_bind [OF starts_weaken [OF starts_basic(4)]], rule triple_option,
        rule triple_bind [OF starts_weaken [OF create_starts [OF E m]]], rule triple_prod_pre,
        rule triple_bind [OF written_announced], rule writes_ret,
        rule triple_prod, rule triple_bind [OF starts_weaken [OF starts_basic(3)]],
        rule triple_bind [OF starts_weaken [OF update_starts(2) [OF m]]], rule triple_option_pre,
        rule triple_fail, simp, rule triple_prod_pre, rule triple_bind [OF written_announced], rule writes_ret)
qed (rule starts_weaken [OF starts_basic(1)])

lemma writes_serve:
  assumes "env_ok E"
  shows "writes E (serve_submodel E rq)"
proof (cases "edits rq")
  case True
  from edits_frame [OF this] obtain seg where "edit_frame_of E rq seg" by blast
  then obtain h f where f: "\<And>d d'. f d = Inr d' \<Longrightarrow> id_of d' = id_of d"
    and served: "serve_submodel E rq = patched_submodel E seg h f \<or>
      (\<exists>respond. serve_submodel E rq = write_element E seg h f respond)"
    unfolding edit_frame_of_def by blast
  from served show ?thesis
  proof (elim disjE exE)
    assume "serve_submodel E rq = patched_submodel E seg h f"
    with writes_patched(1) [OF assms f, of f seg h] show ?thesis by simp
  next
    fix respond assume "serve_submodel E rq = write_element E seg h f respond"
    with writes_patched(2) [OF assms f, of f seg h respond] show ?thesis by simp
  qed
next
  case False
  then show ?thesis
    by (cases rq)
      (simp_all add: writes_post writes_put writes_delete assms writes_still still_readers still_attachment
        get_submodel_value_def get_submodel_metadata_def get_submodel_reference_def get_submodel_path_def
        get_all_submodel_elements_metadata_def get_all_submodel_elements_value_def
        get_all_submodel_elements_reference_def get_all_submodel_elements_path_def get_element_metadata_def
        get_element_reference_def get_element_path_def)
qed

section \<open>An instance\<close>

text \<open>
  An environment for the witnesses: a table as the cache, documents validated as they are, the
  \<open>idShort\<close> of a document as its ETag.
\<close>

definition sample_env :: "(string \<times> json) list env" where
  "sample_env =
     \<lparr>redis = table_kv, storage_of = \<lparr>inline_threshold = 3, new_blob_id = (\<lambda>n. ''blob'' @ show_nat n)\<rparr>,
      etag_of = (\<lambda>d. case dget d ''idShort'' of JStr s \<Rightarrow> s | _ \<Rightarrow> []),
      valid_shell = Inr, valid_submodel = Inr, flush_assets = insert_first,
      uuid_of = show_nat, stamp_of = int\<rparr>"

definition empty_world :: "(string \<times> json) list world" where
  "empty_world =
     \<lparr>db = \<lparr>shells = [], submodels = [], assets = []\<rparr>, tx = \<lparr>shells = [], submodels = [], assets = []\<rparr>,
      cache = [], objects = (\<lambda>_. None), bus = [], serial = 0, blobs_stored = 0\<rparr>"

lemma sample_env_ok: "env_ok sample_env"
  by (simp add: env_ok_def sample_env_def table_kv_ok inj_def show_nat_inj)

lemma empty_world_fresh: "fresh_start sample_env empty_world"
  by (simp add: fresh_start_def empty_world_def sample_env_def table_kv_def)

definition model :: "string \<Rightarrow> obj" where
  "model s = [(''id'', JStr ''M''), (''idShort'', JStr s)]"

definition plain_query :: http_query where
  "plain_query = \<lparr>q_path = ''/submodels/TQ'', q_level = None, q_extent = None, q_content = None\<rparr>"

text \<open>Requests one after the other.\<close>

definition serve_all :: "'s env \<Rightarrow> api_request list \<Rightarrow> 's world \<Rightarrow> 's world" where
  "serve_all E rqs w =
     fold (\<lambda>rq w. case serve_api E rq of None \<Rightarrow> w | Some h \<Rightarrow> fst (run_request h w)) rqs w"

lemma serve_all_steps: "\<forall>rq \<in> set rqs. canonical_request rq \<Longrightarrow> (server_step E)\<^sup>*\<^sup>* w (serve_all E rqs w)"
proof (induction rqs arbitrary: w)
  case (Cons rq rqs)
  then have "(server_step E)\<^sup>*\<^sup>* w (case serve_api E rq of None \<Rightarrow> w | Some h \<Rightarrow> fst (run_request h w))"
    by (auto split: option.split intro: server_step.request)
  with Cons show ?case by (auto simp: serve_all_def intro: rtranclp_trans)
qed (simp add: serve_all_def)

definition posted :: "(string \<times> json) list world" where
  "posted = serve_all sample_env [OnSubmodels (PostSubmodel (model ''v1''))] empty_world"

lemma posted_steps: "(server_step sample_env)\<^sup>*\<^sup>* empty_world posted"
  unfolding posted_def by (rule serve_all_steps) (simp add: canonical_request_def)

lemma canonical_TQ: "canonical ''TQ'' [77]"
  by code_simp

lemma plain_fast: "is_fast_path plain_query"
  by code_simp

lemma posted_row: "get_bytes_by_id [77] (submodels (db posted)) = Some (model ''v1'', ''v1'')"
  by code_simp

section \<open>Reads show the database\<close>

lemma run_load:
  assumes "env_ok E" and "canonical seg i" and "session E w"
  shows "snd (load_submodel E seg i w) =
    (case get_bytes_by_id i (submodels (db w)) of None \<Rightarrow> Inl (NotFound ''Submodel'' i) | Some (d, e) \<Rightarrow> Inr d)"
proof (cases "get_submodel (redis E) seg (cache w)")
  case None
  with assms(3) show ?thesis
    by (auto simp: load_submodel_def handlers session_def split: option.split)
next
  case (Some p)
  with assms(2,3) have "get_bytes_by_id i (submodels (db w)) = Some p"
    unfolding session_def store_ok_def submodels_fresh_def by blast
  with Some show ?thesis by (auto simp: load_submodel_def handlers split: prod.split)
qed

text \<open>
  C2. Whatever requests on canonical segments have been served, and whatever the cache has forgotten,
  \<open>GET\<close> of a submodel answers with the document and the ETag the database holds at that moment, or
  with 404 when it holds none: the cache never shows.
\<close>

theorem reads_show_database:
  assumes "env_ok E" and "fresh_start E w0" and "(server_step E)\<^sup>*\<^sup>* w0 w"
    and "canonical seg i" and "is_fast_path h"
  shows "snd (run_request (serve_submodel E (GetSubmodel seg h None)) w) =
    (case get_bytes_by_id i (submodels (db w)) of
       None \<Rightarrow> Inl (NotFound ''Submodel'' i)
     | Some (d, e) \<Rightarrow> Inr (json_response_with_etag (JDict d) e 200 None))"
proof -
  have ok: "store_ok E w" by (rule reachable_store [OF assms(1-3)])
  have dec: "decode_id_from_b64url seg = Inr i" using assms(4) by (simp add: canonical_def)
  show ?thesis
  proof (cases "get_submodel (redis E) seg (cache w)")
    case None
    with dec assms(5) show ?thesis
      by (auto simp: run_request_snd get_submodel_by_id_def handlers decode_identifier_def current_submodel_def
          not_modified_def split: option.split)
  next
    case (Some p)
    with ok assms(4) have "get_bytes_by_id i (submodels (db w)) = Some p"
      unfolding store_ok_def submodels_fresh_def by blast
    with Some dec assms(5) show ?thesis
      by (auto simp: run_request_snd get_submodel_by_id_def handlers decode_identifier_def not_modified_def
          split: prod.split)
  qed
qed

theorem reads_show_database_witness:
  "snd (run_request (serve_submodel sample_env (GetSubmodel ''TQ'' plain_query None)) posted) =
   Inr (json_response_with_etag (JDict (model ''v1'')) ''v1'' 200 None)"
  using reads_show_database [OF sample_env_ok empty_world_fresh posted_steps canonical_TQ plain_fast]
  by (simp add: posted_row)





section \<open>Preconditions\<close>

fun if_match_of :: "submodel_request \<Rightarrow> string option" where
  "if_match_of (PutSubmodel seg d m) = m"
| "if_match_of (PatchSubmodelValue seg p m) = m"
| "if_match_of (PatchSubmodelMetadata seg u m) = m"
| "if_match_of (PutAttachment seg p bs ct m) = m"
| "if_match_of (DeleteAttachment seg p m) = m"
| "if_match_of (PutElement seg p el m) = m"
| "if_match_of (PatchElementValue seg p v m) = m"
| "if_match_of (PatchElement seg p u m) = m"
| "if_match_of _ = None"

text \<open>The submodel in the body of a \<open>PUT\<close> is the one of the path.\<close>

fun body_matches :: "submodel_request \<Rightarrow> nat list \<Rightarrow> bool" where
  "body_matches (PutSubmodel seg d m) i = (id_of d = i)"
| "body_matches _ i = True"



text \<open>
  The other side of the check: \<open>If-Match: *\<close> is compared like an ETag, so it is refused where any
  resource satisfies it; \<open>PUT\<close> of a submodel that does not exist ignores the header and creates it.
\<close>

lemma if_match_star_refused:
  "snd (run_request (serve_submodel sample_env (PutSubmodel ''TQ'' (model ''v2'') (Some ''*''))) posted) =
   Inl PreconditionFailed"
  by code_simp

lemma if_match_missing_created:
  "case snd (run_request (serve_submodel sample_env (PutSubmodel ''TQ'' (model ''v2'') (Some ''v1''))) empty_world) of
     Inr r \<Rightarrow> http_status r = 201 | Inl _ \<Rightarrow> False"
  by code_simp

section \<open>Spellings of an identifier\<close>

text \<open>
  The cache goes by the segment of the path as it was sent, the database by the identifier. When a
  segment names the same submodel as another one (the decoder ignores unused bits of the last
  character), a write through one leaves the cache entry of the other as it was, and \<open>GET\<close> through
  the other answers with the old document and the old ETag.
\<close>

lemma other_spelling_stale:
  assumes "env_ok E" and "decode_id_from_b64url seg = Inr i" and "decode_id_from_b64url seg' = Inr i" and "seg \<noteq> seg'"
    and "get_submodel (redis E) seg' (cache w) = Some (d0, e0)"
    and "run_request (serve_submodel E (PutSubmodel seg m if_match)) w = (w', Inr r)" and "is_fast_path h"
  shows "snd (run_request (serve_submodel E (GetSubmodel seg' h None)) w') =
    Inr (json_response_with_etag (JDict d0) e0 200 None)"
proof -
  have K: "kv_ok (redis E)" using assms(1) by (simp add: env_ok_def)
  have cf: "colon_free seg" "colon_free seg'"
    using assms(2,3) alphabet_colon_free decoded_alphabet by metis+
  have written: "get_submodel (redis E) seg' (cache w1) = get_submodel (redis E) seg' (cache w0)"
    if "submodel_written E k j seg d e m w0 = (w1, z)" for k j d e w0 w1 and z :: "failure + unit"
    using that assms(4) get_submodel_after [OF K] get_submodel_after(6) [OF K cf(2,1)]
    by (auto simp: submodel_written_def handlers)
  obtain w1 where run: "put_submodel_by_id E seg m if_match (w\<lparr>tx := db w\<rparr>) = (w1, Inr r)" and w': "w' = w1\<lparr>tx := db w1\<rparr>"
    using assms(6) by (auto simp: run_request_def split: prod.splits)
  have "get_submodel (redis E) seg' (cache w1) = get_submodel (redis E) seg' (cache w)"
  proof (cases "get_bytes_by_id i (submodels (db w))")
    case None
    with run assms(2) obtain w0 d e z where "submodel_create E m (w\<lparr>tx := db w\<rparr>) = (w0, Inr (d, e))"
      "submodel_written E CREATED i seg d e m w0 = (w1, z)"
      by (auto simp: put_submodel_by_id_def handlers decode_identifier_def split: if_splits prod.splits sum.splits)
    with written submodel_create_effect(1) show ?thesis by (fastforce simp: quiet_def)
  next
    case (Some p)
    with run assms(2) obtain w0 d e z where "submodel_update E i m (w\<lparr>tx := db w\<rparr>) = (w0, Inr (Some (d, e)))"
      "submodel_written E UPDATED i seg d e m w0 = (w1, z)"
      by (auto simp: put_submodel_by_id_def handlers decode_identifier_def check_precondition_def
          split: if_splits prod.splits sum.splits option.splits)
    with written submodel_update_effect(1) show ?thesis by (fastforce simp: quiet_def)
  qed
  with assms(3,5,7) show ?thesis
    by (simp add: w' run_request_snd get_submodel_by_id_def handlers decode_identifier_def not_modified_def)
qed

definition twice_read :: "(string \<times> json) list world" where
  "twice_read = serve_all sample_env
     [OnSubmodels (PostSubmodel (model ''v1'')), OnSubmodels (GetSubmodel ''TR'' plain_query None)] empty_world"

lemma other_spelling_stale_witness:
  "let w' = fst (run_request (serve_submodel sample_env (PutSubmodel ''TQ'' (model ''v2'') None)) twice_read)
   in get_bytes_by_id [77] (submodels (db w')) = Some (model ''v2'', ''v2'') \<and>
      snd (run_request (serve_submodel sample_env (GetSubmodel ''TR'' plain_query None)) w') =
        Inr (json_response_with_etag (JDict (model ''v1'')) ''v1'' 200 None)"
proof -
  let ?run = "run_request (serve_submodel sample_env (PutSubmodel ''TQ'' (model ''v2'') None)) twice_read"
  have ids: "decode_id_from_b64url ''TQ'' = Inr [77]" "decode_id_from_b64url ''TR'' = Inr [77]"
    "''TQ'' \<noteq> ''TR''" by code_simp+
  have cached: "get_submodel (redis sample_env) ''TR'' (cache twice_read) = Some (model ''v1'', ''v1'')"
    by code_simp
  have ok: "case snd ?run of Inl f \<Rightarrow> False | Inr r \<Rightarrow> True" by code_simp
  have row: "get_bytes_by_id [77] (submodels (db (fst ?run))) = Some (model ''v2'', ''v2'')" by code_simp
  from ok obtain r where "?run = (fst ?run, Inr r)"
    by (cases ?run) (auto split: sum.splits)
  from other_spelling_stale [OF sample_env_ok ids cached this plain_fast] row show ?thesis
    by (simp add: Let_def)
qed

end
