(* ===== verification/ShellSpec.thy ===== *)
theory ShellSpec
  imports SubmodelSpec
begin

text \<open>
  What the two repositories promise together: the published events replay the database, a shell shows
  what the database holds, a submodel read through a shell is the submodel, and a shell gives access to
  what it references only; and what becomes of references whose submodel is deleted.
\<close>

section \<open>The event log\<close>

text \<open>
  C3. The published events are a complete log: at any moment, whatever requests were served by either
  router, replaying them in order gives the document and the ETag the database holds under each
  identifier, for submodels and for shells; what no event left there is not in the database.
\<close>

theorem events_replay_database:
  assumes "env_ok E" and "fresh_start E w0" and "(server_step E)\<^sup>*\<^sup>* w0 w"
  shows "replay False i (bus w) = get_bytes_by_id i (submodels (db w)) \<and>
    replay True i (bus w) = get_bytes_by_id i (shells (db w))"
  using reachable_store [OF assms] by (simp add: store_ok_def logged_def)

theorem events_replay_database_witness:
  "replay False [77] (bus posted) = Some (model ''v1'', ''v1'') \<and> replay True [77] (bus posted) = None"
proof -
  have "get_bytes_by_id [77] (shells (db posted)) = None" by code_simp
  with events_replay_database [OF sample_env_ok empty_world_fresh posted_steps, of "[77]"] posted_row
  show ?thesis by simp
qed

section \<open>Loading through the caches\<close>

lemma same_cache: "\<exists>s. w = w\<lparr>cache := s\<rparr>"
  by (rule exI [of _ "cache w"]) simp

lemma run_load_bytes:
  assumes "env_ok E" and "canonical seg j" and "session E w"
  shows "\<exists>s. load_submodel_bytes E seg j w = (w\<lparr>cache := s\<rparr>,
    case get_bytes_by_id j (submodels (db w)) of None \<Rightarrow> Inl (NotFound ''Submodel'' j) | Some p \<Rightarrow> Inr p)"
proof (cases "get_submodel (redis E) seg (cache w)")
  case None
  with assms(3) show ?thesis
    by (auto intro: same_cache simp: load_submodel_bytes_def current_submodel_def handlers session_def split: option.split)
next
  case (Some p)
  with assms(2,3) have row: "get_bytes_by_id j (submodels (db w)) = Some p"
    unfolding session_def store_ok_def submodels_fresh_def by blast
  with Some show ?thesis by (auto intro: same_cache simp: load_submodel_bytes_def handlers)
qed

lemma run_load_aas:
  assumes "env_ok E" and "canonical seg i" and "session E w"
  shows "\<exists>s. load_aas_doc E seg i w = (w\<lparr>cache := s\<rparr>,
    case get_bytes_by_id i (shells (db w)) of None \<Rightarrow> Inl (shell_missing i) | Some (d, e) \<Rightarrow> Inr d)"
proof (cases "get_aas (redis E) seg (cache w)")
  case None
  with assms(3) show ?thesis
    by (auto intro: same_cache simp: load_aas_doc_def current_shell_def handlers session_def split: option.split)
next
  case (Some p)
  with assms(2,3) have row: "get_bytes_by_id i (shells (db w)) = Some p"
    unfolding session_def store_ok_def shells_fresh_def by blast
  with Some show ?thesis by (auto intro: same_cache simp: load_aas_doc_def handlers split: prod.split)
qed

lemma load_submodel_bytes_fst:
  "load_submodel E seg i = bindH (load_submodel_bytes E seg i) (\<lambda>(d, e). retH d)"
  by (auto simp: load_submodel_def load_submodel_bytes_def current_submodel_def handlers fun_eq_iff
      split: option.split prod.split)

lemma session_loaded:
  assumes "env_ok E" and "canonical seg i" and "session E w" and "load_aas_doc E seg i w = (w', r)" and "r = Inr d"
  shows "session E w'"
  using triple_Inr [OF triple_load_aas [OF assms(1,2)] assms(3)] assms(4,5) by blast

lemma run_load_scoped:
  assumes "env_ok E" and "canonical aseg i" and "canonical seg j" and "session E w"
    and "get_bytes_by_id i (shells (db w)) = Some (a, ea)"
  shows "\<exists>s. load_submodel_for_shell E aseg i seg j w = (w\<lparr>cache := s\<rparr>,
    if references_submodel a j
    then (case get_bytes_by_id j (submodels (db w)) of None \<Rightarrow> Inl (NotFound ''Submodel'' j) | Some p \<Rightarrow> Inr p)
    else Inl (NotFound ''Submodel'' j))"
proof -
  from run_load_aas [OF assms(1,2,4)] assms(5) obtain s where
    aas: "load_aas_doc E aseg i w = (w\<lparr>cache := s\<rparr>, Inr a)" by auto
  from session_loaded [OF assms(1,2,4) aas refl] have "session E (w\<lparr>cache := s\<rparr>)" .
  from run_load_bytes [OF assms(1,3) this] obtain s' where
    "load_submodel_bytes E seg j (w\<lparr>cache := s\<rparr>) = (w\<lparr>cache := s'\<rparr>,
      case get_bytes_by_id j (submodels (db w)) of None \<Rightarrow> Inl (NotFound ''Submodel'' j) | Some p \<Rightarrow> Inr p)" by auto
  with aas show ?thesis
    by (auto simp: load_submodel_for_shell_def ensure_submodel_reference_def handlers)
qed

section \<open>A shell gives access to what it references\<close>

fun reads :: "submodel_request \<Rightarrow> bool" where
  "reads (PutSubmodel seg m h) = False"
| "reads (DeleteSubmodel seg) = False"
| "reads rq = (\<not> edits rq)"

lemma snd_pure:
  "snd (pureH m w) = liftE (\<lambda>e. Unhandled (Python e)) m"
  "snd (bindH (pureH m) (\<lambda>j. retH (f j)) w) = liftE (\<lambda>e. Unhandled (Python e)) (bindE m (\<lambda>j. Inr (f j)))"
  "snd (bindH (pureH m) (\<lambda>j. bindH (set_cache (k j)) (\<lambda>_. retH (f j))) w) =
     liftE (\<lambda>e. Unhandled (Python e)) (bindE m (\<lambda>j. Inr (f j)))"
  by (cases m; simp add: handlers)+

lemma snd_attachment:
  "snd (build_attachment_response v ct (w\<lparr>cache := s\<rparr>)) = snd (build_attachment_response v ct w)"
  by (auto simp: build_attachment_response_def stream_blob_by_id_def handlers split: sum.split option.split)

lemma snd_attachment_body:
  "snd (bindH (pureH (content_type x default_type)) (\<lambda>ct.
       case dget x ''value'' of
         JStr v \<Rightarrow> build_attachment_response v ct
       | _ \<Rightarrow> failH (Unhandled (Python AttributeError))) (w\<lparr>cache := s\<rparr>)) =
   snd (bindH (pureH (content_type x default_type)) (\<lambda>ct.
       case dget x ''value'' of
         JStr v \<Rightarrow> build_attachment_response v ct
       | _ \<Rightarrow> failH (Unhandled (Python AttributeError))) w)"
  by (cases "content_type x default_type"; cases "dget x ''value''") (simp_all add: handlers snd_attachment)

lemma id_string: "id_of d = j \<Longrightarrow> j \<noteq> [] \<Longrightarrow> dget_or d ''id'' (JStr []) = JStr (map char_of j)"
  by (auto simp: id_of_def code_points_def dget_def dget_or_def comp_def split: json.splits option.splits)

lemma canonical_nonempty: "canonical seg j \<Longrightarrow> j \<noteq> []"
proof
  assume c: "canonical seg j" and "j = []"
  then have "b64_of [] = seg" by (simp add: canonical_def)
  then have "seg = []" by (simp add: b64_of_def encode_id_to_b64url_def)
  with c show False by (simp add: canonical_def decode_id_from_b64url_def)
qed

section \<open>Reads below a shell\<close>

text \<open>
  What the two ways to a submodel find in a session: through the shell, leaving the cache \<open>s1\<close>, and
  directly, leaving \<open>s2\<close>. Handlers that go the two ways then see the same document or the same failure.
\<close>

definition found_doc :: "'s world \<Rightarrow> nat list \<Rightarrow> failure + obj \<times> string" where
  "found_doc w j = (case get_bytes_by_id j (submodels (db w)) of None \<Rightarrow> Inl (NotFound ''Submodel'' j) | Some p \<Rightarrow> Inr p)"

definition loads_alike :: "'s env \<Rightarrow> string \<Rightarrow> nat list \<Rightarrow> string \<Rightarrow> nat list \<Rightarrow> 's world \<Rightarrow> 's \<Rightarrow> 's \<Rightarrow> bool" where
  "loads_alike E aseg i seg j w s1 s2 =
     (decode_id_from_b64url aseg = Inr i \<and> decode_id_from_b64url seg = Inr j \<and>
      load_submodel_for_shell E aseg i seg j w = (w\<lparr>cache := s1\<rparr>, found_doc w j) \<and>
      load_submodel_bytes E seg j w = (w\<lparr>cache := s2\<rparr>, found_doc w j))"

lemma loads_alike_exists:
  assumes "env_ok E" and "canonical aseg i" and "canonical seg j" and "session E w"
    and "get_bytes_by_id i (shells (db w)) = Some (a, ea)" and "references_submodel a j"
  shows "\<exists>s1 s2. loads_alike E aseg i seg j w s1 s2"
  using run_load_scoped [OF assms(1-4), of a ea] run_load_bytes [OF assms(1,3,4)] assms(2,3,5,6)
  by (auto simp: loads_alike_def found_doc_def canonical_def)

lemma via_shell:
  assumes "loads_alike E aseg i seg j w s1 s2"
  shows "snd (scoped E aseg seg f w) =
    (case found_doc w j of Inl e \<Rightarrow> Inl e | Inr (d, e) \<Rightarrow> snd (f j d e (w\<lparr>cache := s1\<rparr>)))"
  using assms by (auto simp: loads_alike_def scoped_def handlers decode_identifier_def split: sum.split prod.split)

lemma load_alike:
  assumes "loads_alike E aseg i seg j w s1 s2"
  shows "load_submodel E seg j w = (w\<lparr>cache := s2\<rparr>, map_sum id fst (found_doc w j))"
  using assms by (auto simp: loads_alike_def load_submodel_bytes_fst handlers split: sum.split)

lemma directly:
  assumes "loads_alike E aseg i seg j w s1 s2"
  shows "snd (bindH (decode_identifier seg) (\<lambda>i. bindH (load_submodel E seg i) (g i)) w) =
    (case found_doc w j of Inl e \<Rightarrow> Inl e | Inr (d, e) \<Rightarrow> snd (g j d (w\<lparr>cache := s2\<rparr>)))"
  using assms load_alike [OF assms]
  by (auto simp: loads_alike_def handlers decode_identifier_def split: sum.split)

definition found_element :: "'s world \<Rightarrow> nat list \<Rightarrow> string \<Rightarrow> (obj \<Rightarrow> obj \<Rightarrow> failure + 'a) \<Rightarrow> failure + 'a" where
  "found_element w j path k =
     (case found_doc w j of
        Inl e \<Rightarrow> Inl e
      | Inr (d, e) \<Rightarrow>
          (case navigate_id_short_path d path of
             Inl e \<Rightarrow> Inl (Unhandled (Python e))
           | Inr None \<Rightarrow> Inl (NotFound ''SubmodelElement'' (code_points path))
           | Inr (Some x) \<Rightarrow> k d x))"

lemma element_via_shell:
  assumes "loads_alike E aseg i seg j w s1 s2"
  shows "snd (scoped_element E aseg seg path f w) =
    found_element w j path (\<lambda>d x. snd (f (map char_of j) x (w\<lparr>cache := s1\<rparr>)))"
  by (auto simp: scoped_element_def via_shell [OF assms] found_element_def handlers split: option.split sum.split)

lemma element_directly:
  assumes "loads_alike E aseg i seg j w s1 s2"
  shows "snd (bindH (decode_identifier seg) (\<lambda>i. bindH (load_element E seg i path) g) w) =
    found_element w j path (\<lambda>d x. snd (g (d, x) (w\<lparr>cache := s2\<rparr>)))"
  using assms load_alike [OF assms]
  by (auto simp: loads_alike_def handlers decode_identifier_def load_element_def found_element_def split: option.split sum.split)

lemmas read_handlers =
  get_submodel_value_for_shell_def get_submodel_value_def
  get_submodel_metadata_for_shell_def get_submodel_metadata_def
  get_submodel_reference_for_shell_def get_submodel_reference_def
  get_submodel_path_for_shell_def get_submodel_path_def
  get_submodel_elements_for_shell_def get_submodel_elements_def
  get_all_submodel_elements_metadata_for_shell_def get_all_submodel_elements_metadata_def
  get_all_submodel_elements_value_for_shell_def get_all_submodel_elements_value_def
  get_all_submodel_elements_reference_for_shell_def get_all_submodel_elements_reference_def
  get_all_submodel_elements_path_for_shell_def get_all_submodel_elements_path_def
  get_submodel_element_by_path_for_shell_def get_submodel_element_by_path_def
  get_submodel_element_metadata_for_shell_def get_element_metadata_def
  get_submodel_element_reference_for_shell_def get_element_reference_def
  get_submodel_element_path_for_shell_def get_element_path_def
  get_element_attachment_for_shell_def get_element_attachment_def
  scoped_read_def of_submodel_def of_elements_def of_element_def as_json_def as_items_def

lemma submodel_alike:
  assumes "loads_alike E aseg i seg j w s1 s2" and "session E w" and "canonical seg j"
  shows "snd (get_submodel_by_id_for_shell E aseg seg q m w) = snd (get_submodel_by_id E seg q m w)"
proof -
  have "get_bytes_by_id j (submodels (db w)) = Some p" if "get_submodel (redis E) seg (cache w) = Some p" for p
    using assms(2,3) that unfolding session_def store_ok_def submodels_fresh_def by blast
  with assms(1,2) show ?thesis
    by (cases "get_submodel (redis E) seg (cache w)"; cases "get_bytes_by_id j (submodels (db w))")
      (auto simp: via_shell [OF assms(1)] found_doc_def loads_alike_def get_submodel_by_id_for_shell_def
        get_submodel_by_id_def handlers decode_identifier_def current_submodel_def session_def split: sum.split)
qed

lemma value_alike:
  assumes "loads_alike E aseg i seg j w s1 s2" and "session E w" and "canonical seg j"
  shows "snd (get_submodel_element_value_for_shell E aseg seg path w) = snd (SubmodelApi.get_element_value E seg path w)"
proof (cases "Cache.get_element_value (redis E) seg path (cache w)")
  case None
  have "snd (SubmodelApi.get_element_value E seg path w) =
    snd (bindH (decode_identifier seg) (\<lambda>i. bindH (load_element E seg i path) (\<lambda>(d, x).
      bindH (pureH (extract_value x)) (\<lambda>v.
      bindH (set_cache (set_element_value (redis E) seg path v)) (\<lambda>_. retH (json_response v))))) w)"
    using None assms(1) by (simp add: SubmodelApi.get_element_value_def handlers decode_identifier_def loads_alike_def)
  then show ?thesis
    by (simp add: element_via_shell [OF assms(1)] element_directly [OF assms(1)] found_element_def as_json_def snd_pure
      get_submodel_element_value_for_shell_def)
next
  case (Some v)
  then have "value_of (db w) j path v"
    using assms(2,3) unfolding session_def store_ok_def values_fresh_def by blast
  with Some assms(1) show ?thesis
    by (auto simp: value_of_def found_doc_def element_via_shell [OF assms(1)] found_element_def loads_alike_def as_json_def
      handlers decode_identifier_def SubmodelApi.get_element_value_def get_submodel_element_value_for_shell_def)
qed

lemma reads_alike:
  assumes "loads_alike E aseg i seg j w s1 s2" and "session E w" and "canonical seg j"
    and "submodel_segment rq = Some seg" and "reads rq" and "serve_below E aseg rq = Some h"
  shows "snd (h w) = snd (serve_submodel E rq w)"
proof -
  have id: "dget_or d ''id'' (JStr []) = JStr (map char_of j)" if "found_doc w j = Inr (d, e)" for d e
    using session_id [OF assms(2), of j d e] that id_string canonical_nonempty [OF assms(3)]
    by (auto simp: found_doc_def split: option.splits)
  note ways = via_shell [OF assms(1)] directly [OF assms(1)] element_via_shell [OF assms(1)] element_directly [OF assms(1)]
  show ?thesis
    using assms(4-6)
    by (cases rq)
      (auto simp: submodel_alike [OF assms(1-3)] value_alike [OF assms(1-3)] ways read_handlers snd_pure snd_attachment_body
        failH_def found_element_def id split: option.split sum.split)
qed


text \<open>A shell with a submodel below it, made by two requests.\<close>

definition shell_model :: "string \<Rightarrow> obj" where
  "shell_model s = [(''id'', JStr ''A''), (''idShort'', JStr s)]"

definition shelled :: "(string \<times> json) list world" where
  "shelled = serve_all sample_env
     [OnShells (PostShell (shell_model ''a1'')), Below ''QQ'' (PutSubmodel ''TQ'' (model ''v1'') None)] empty_world"

definition shelled_doc :: obj where
  "shelled_doc = add_reference (reference_to (model ''v1'')) (shell_model ''a1'')"

lemma canonical_QQ: "canonical ''QQ'' [65]"
  by code_simp

lemma canonical_segment_of: "canonical seg i \<Longrightarrow> canonical_segment seg"
  by (auto simp: canonical_segment_def canonical_def)

lemma shelled_steps: "(server_step sample_env)\<^sup>*\<^sup>* empty_world shelled"
  unfolding shelled_def
  by (rule serve_all_steps)
    (simp add: canonical_request_def canonical_segment_of [OF canonical_QQ] canonical_segment_of [OF canonical_TQ])

lemma shelled_row:
  "get_bytes_by_id [65] (shells (db shelled)) = Some (shelled_doc, ''a1'')"
  "get_bytes_by_id [77] (submodels (db shelled)) = Some (model ''v1'', ''v1'')"
  "references_submodel shelled_doc [77]"
  by code_simp+



definition unreferenced :: "(string \<times> json) list world" where
  "unreferenced = serve_all sample_env
     [OnShells (PostShell (shell_model ''a1'')), OnSubmodels (PostSubmodel (model ''v1''))] empty_world"


section \<open>Dangling references\<close>

lemma run_load_all_missing:
  assumes "env_ok E" and "session E w"
    and "\<forall>v \<in> set vs. \<exists>s. v = JStr s \<and> s \<noteq> []"
    and "\<exists>v \<in> set vs. is_id v j" and "get_bytes_by_id j (submodels (db w)) = None"
  shows "\<exists>k. snd (load_all_referenced E (\<lambda>d. Inr (JDict d)) vs w) = Inl (NotFound ''Submodel'' k) \<and>
    get_bytes_by_id k (submodels (db w)) = None"
  using assms(2-5)
proof (induction vs arbitrary: w)
  case (Cons v vs)
  then obtain s where v: "v = JStr s" "s \<noteq> []" by auto
  let ?k = "code_points s"
  have can: "canonical (b64_of ?k) ?k" by (rule canonical_encoded [OF v(2)])
  from run_load_bytes [OF assms(1) can Cons.prems(1)] obtain c where
    load: "load_submodel_bytes E (b64_of ?k) ?k w = (w\<lparr>cache := c\<rparr>,
      case get_bytes_by_id ?k (submodels (db w)) of None \<Rightarrow> Inl (NotFound ''Submodel'' ?k) | Some p \<Rightarrow> Inr p)" by blast
  show ?case
  proof (cases "get_bytes_by_id ?k (submodels (db w))")
    case None
    with load v show ?thesis by (auto simp: load_referenced_def handlers)
  next
    case (Some p)
    with load triple_Inr [OF triple_load_bytes [OF assms(1) can] Cons.prems(1), of "w\<lparr>cache := c\<rparr>" p]
    have next_session: "session E (w\<lparr>cache := c\<rparr>)" by simp
    from Some Cons.prems(3,4) v have "\<exists>v \<in> set vs. is_id v j" by (auto simp: is_id_def)
    with Cons.IH [OF next_session] Cons.prems obtain k where
      "snd (load_all_referenced E (\<lambda>d. Inr (JDict d)) vs (w\<lparr>cache := c\<rparr>)) = Inl (NotFound ''Submodel'' k)"
      "get_bytes_by_id k (submodels (db w)) = None" by auto
    with load v Some show ?thesis
      by (auto simp: load_referenced_def handlers split: prod.splits sum.splits)
  qed
qed simp

lemma delete_effect:
  assumes "env_ok E" and "store_ok E w" and "canonical seg j"
    and "run_request (delete_submodel_by_id E seg) w = (w', Inr r)"
  shows "shells (db w') = shells (db w)" and "get_bytes_by_id j (submodels (db w')) = None"
proof -
  have s: "session E (w\<lparr>tx := db w\<rparr>)" using assms(2) by (simp add: session_def store_ok_def)
  from assms(3,4) obtain w1 where del: "submodel_delete j (w\<lparr>tx := db w\<rparr>) = (w1, Inr True)" and "db w' = tx w1"
    by (auto simp: canonical_def run_request_def delete_submodel_by_id_def handlers decode_identifier_def
        split: prod.splits sum.splits if_splits)
  with submodel_delete_changes [OF s del] submodel_delete_effect(1) [OF del]
  show "shells (db w') = shells (db w)" "get_bytes_by_id j (submodels (db w')) = None"
    by (simp_all add: changed_submodel_def quiet_def)
qed



end
