(* ===== verification/Registry.thy ===== *)
theory Registry
  imports Api
begin

text \<open>
  The registry of descriptors: the repositories of \<open>src/titan/persistence/registry.py\<close>, the routers
  \<open>src/titan/api/routers/registry.py\<close> and \<open>src/titan/api/routers/discovery.py\<close>, and the checks of a
  shell descriptor that \<open>src/titan/core/model/registry.py\<close> and \<open>src/titan/core/model/aas.py\<close> write out.

  The registry has no cache and publishes no events; its state is two tables. A row keeps the document
  twice, as JSONB and as bytes. PostgreSQL does not keep the order of the keys in JSONB, so the
  document that is read back (\<open>jsonb\<close>) may have other bytes, and another ETag, than the one written.
  The code of the two repositories differs only in the column that is searched, and so do the handlers
  of the two collections: they are written once here, for a \<open>side\<close>.
\<close>

section \<open>Tables\<close>

datatype side = ShellSide | SubmodelSide

text \<open>\<open>entry_key\<close> is \<open>global_asset_id\<close> of a shell descriptor, \<open>semantic_id\<close> of a submodel descriptor.\<close>

record entry =
  entry_id :: string
  entry_ident :: "nat list"
  entry_b64 :: string
  entry_key :: json
  entry_doc :: obj
  entry_bytes :: obj
  entry_etag :: string
  entry_created :: int

record descriptors =
  shell_descriptors :: "entry list"
  submodel_descriptors :: "entry list"

record registry_state =
  reg_db :: descriptors
  reg_tx :: descriptors
  reg_serial :: nat

text \<open>
  Outside the repository: the ETag (a hash of the bytes), the order of keys in JSONB, the rest of
  Pydantic's validation (a document to its dump or an error), row ids and times, the order in which a
  query without \<open>ORDER BY\<close> gives its rows, and the JSON parser.
\<close>

record registry_env =
  r_etag :: "obj \<Rightarrow> string"
  jsonb :: "obj \<Rightarrow> obj"
  dump_descriptor :: "obj \<Rightarrow> string + obj"
  r_uuid :: "nat \<Rightarrow> string"
  r_stamp :: "nat \<Rightarrow> int"
  r_scan :: "entry list \<Rightarrow> entry list"
  json_loads :: "nat list \<Rightarrow> json option"

fun table_of :: "side \<Rightarrow> descriptors \<Rightarrow> entry list" where
  "table_of ShellSide t = shell_descriptors t"
| "table_of SubmodelSide t = submodel_descriptors t"

fun set_table :: "side \<Rightarrow> entry list \<Rightarrow> descriptors \<Rightarrow> descriptors" where
  "set_table ShellSide es t = t\<lparr>shell_descriptors := es\<rparr>"
| "set_table SubmodelSide es t = t\<lparr>submodel_descriptors := es\<rparr>"

fun index_key :: "side \<Rightarrow> obj \<Rightarrow> json" where
  "index_key ShellSide d = dget d ''globalAssetId''"
| "index_key SubmodelSide d = last_semantic_id d"

fun resource_name :: "side \<Rightarrow> string" where
  "resource_name ShellSide = ''AssetAdministrationShellDescriptor''"
| "resource_name SubmodelSide = ''SubmodelDescriptor''"

section \<open>The repositories\<close>

type_synonym 'a reg = "(registry_state, 'a) act"

definition doc_and_etag :: "registry_env \<Rightarrow> obj \<Rightarrow> obj \<times> string" where
  "doc_and_etag E d = (d, r_etag E d)"

definition entry_by_id :: "nat list \<Rightarrow> entry list \<Rightarrow> entry option" where
  "entry_by_id i es = find (\<lambda>r. entry_ident r = i) es"

definition replace_entry :: "entry \<Rightarrow> entry list \<Rightarrow> entry list" where
  "replace_entry r es = map (\<lambda>q. if entry_id q = entry_id r then r else q) es"

definition entry_clashes :: "entry \<Rightarrow> entry list \<Rightarrow> bool" where
  "entry_clashes r es =
     list_ex (\<lambda>q. entry_id q \<noteq> entry_id r \<and> (entry_ident q = entry_ident r \<or> entry_b64 q = entry_b64 r)) es"

definition put_entries :: "side \<Rightarrow> entry list \<Rightarrow> unit reg" where
  "put_entries sd es w = (w\<lparr>reg_tx := set_table sd es (reg_tx w)\<rparr>, Inr ())"

definition entries :: "side \<Rightarrow> entry list reg" where
  "entries sd w = (w, Inr (table_of sd (reg_tx w)))"

definition refreshed :: "registry_env \<Rightarrow> entry \<Rightarrow> entry" where
  "refreshed E r = r\<lparr>entry_bytes := entry_doc r, entry_etag := r_etag E (entry_doc r)\<rparr>"

text \<open>\<open>get_bytes_by_id\<close>: the bytes are computed from the JSONB, and written to the row when they differ.\<close>

definition get_descriptor :: "registry_env \<Rightarrow> side \<Rightarrow> nat list \<Rightarrow> (obj \<times> string) option reg" where
  "get_descriptor E sd i =
     bindH (entries sd) (\<lambda>es.
       case entry_by_id i es of
         None \<Rightarrow> retH None
       | Some r \<Rightarrow>
           bindH (put_entries sd (if refreshed E r = r then es else replace_entry (refreshed E r) es)) (\<lambda>_.
             retH (Some (doc_and_etag E (entry_doc r)))))"

definition entry_for :: "registry_env \<Rightarrow> side \<Rightarrow> nat \<Rightarrow> obj \<Rightarrow> entry" where
  "entry_for E sd n m =
     \<lparr>entry_id = r_uuid E n, entry_ident = id_of m, entry_b64 = b64_of (id_of m),
      entry_key = index_key sd m, entry_doc = jsonb E m, entry_bytes = m, entry_etag = r_etag E m,
      entry_created = r_stamp E n\<rparr>"

definition create_descriptor :: "registry_env \<Rightarrow> side \<Rightarrow> obj \<Rightarrow> (obj \<times> string) reg" where
  "create_descriptor E sd m w =
     (let es = table_of sd (reg_tx w); r = entry_for E sd (reg_serial w) m;
          w' = w\<lparr>reg_serial := Suc (reg_serial w)\<rparr> in
      if entry_clashes r es then (w', Inl (Unhandled IntegrityError))
      else (w'\<lparr>reg_tx := set_table sd (es @ [r]) (reg_tx w)\<rparr>, Inr (m, r_etag E m)))"

definition changed_entry :: "registry_env \<Rightarrow> side \<Rightarrow> entry \<Rightarrow> obj \<Rightarrow> entry" where
  "changed_entry E sd r m =
     r\<lparr>entry_ident := id_of m, entry_b64 := b64_of (id_of m), entry_key := index_key sd m,
       entry_doc := jsonb E m, entry_bytes := m, entry_etag := r_etag E m\<rparr>"

definition update_descriptor :: "registry_env \<Rightarrow> side \<Rightarrow> nat list \<Rightarrow> obj \<Rightarrow> (obj \<times> string) option reg" where
  "update_descriptor E sd i m =
     bindH (entries sd) (\<lambda>es.
       case entry_by_id i es of
         None \<Rightarrow> retH None
       | Some r \<Rightarrow>
           if entry_clashes (changed_entry E sd r m) es then failH (Unhandled IntegrityError)
           else bindH (put_entries sd (replace_entry (changed_entry E sd r m) es)) (\<lambda>_.
             retH (Some (m, r_etag E m))))"

definition delete_descriptor :: "side \<Rightarrow> nat list \<Rightarrow> bool reg" where
  "delete_descriptor sd i =
     bindH (entries sd) (\<lambda>es.
       case entry_by_id i es of
         None \<Rightarrow> retH False
       | Some r \<Rightarrow>
           bindH (put_entries sd (filter (\<lambda>q. entry_id q \<noteq> entry_id r) es)) (\<lambda>_. retH True))"

definition descriptor_exists :: "side \<Rightarrow> nat list \<Rightarrow> bool reg" where
  "descriptor_exists sd i = bindH (entries sd) (\<lambda>es. retH (entry_by_id i es \<noteq> None))"

definition first_entries :: "nat \<Rightarrow> entry list \<Rightarrow> entry list" where
  "first_entries limit es = take limit (sort_key entry_created es)"

definition list_descriptors :: "registry_env \<Rightarrow> side \<Rightarrow> nat \<Rightarrow> (obj \<times> string) list reg" where
  "list_descriptors E sd limit =
     bindH (entries sd) (\<lambda>es. retH (map (\<lambda>r. doc_and_etag E (entry_doc r)) (first_entries limit es)))"

text \<open>The searches have no order: the rows come as the database gives them.\<close>

definition select_descriptors :: "registry_env \<Rightarrow> side \<Rightarrow> (entry \<Rightarrow> bool) \<Rightarrow> nat \<Rightarrow> (obj \<times> string) list reg" where
  "select_descriptors E sd P limit =
     bindH (entries sd) (\<lambda>es.
       retH (map (\<lambda>r. doc_and_etag E (entry_doc r)) (take limit (r_scan E (filter P es)))))"

definition find_by_global_asset_id :: "registry_env \<Rightarrow> json \<Rightarrow> nat \<Rightarrow> (obj \<times> string) list reg" where
  "find_by_global_asset_id E g limit = select_descriptors E ShellSide (\<lambda>r. entry_key r = g) limit"

text \<open>\<open>doc["specificAssetIds"].contains([{"name": name, "value": value}])\<close> (containment of JSONB).\<close>

definition names_pair :: "json \<Rightarrow> json \<Rightarrow> json \<Rightarrow> bool" where
  "names_pair n v x = (case x of JDict s \<Rightarrow> dget s ''name'' = n \<and> dget s ''value'' = v | _ \<Rightarrow> False)"

definition contains_pair :: "json \<Rightarrow> json \<Rightarrow> obj \<Rightarrow> bool" where
  "contains_pair n v d =
     (case dget d ''specificAssetIds'' of JList xs \<Rightarrow> list_ex (names_pair n v) xs | _ \<Rightarrow> False)"

definition find_by_specific_asset_id :: "registry_env \<Rightarrow> json \<Rightarrow> json \<Rightarrow> nat \<Rightarrow> (obj \<times> string) list reg" where
  "find_by_specific_asset_id E n v limit = select_descriptors E ShellSide (\<lambda>r. contains_pair n v (entry_doc r)) limit"

definition find_by_semantic_id_in :: "registry_env \<Rightarrow> nat list \<Rightarrow> nat \<Rightarrow> (obj \<times> string) list reg" where
  "find_by_semantic_id_in E s limit =
     select_descriptors E SubmodelSide
       (\<lambda>r. case entry_key r of JStr k \<Rightarrow> code_points k = s | _ \<Rightarrow> False) limit"

section \<open>Requests\<close>

definition reg_commit :: "unit reg" where
  "reg_commit w = (w\<lparr>reg_db := reg_tx w\<rparr>, Inr ())"

definition run_registry :: "'a reg \<Rightarrow> registry_state \<Rightarrow> registry_state \<times> (failure + 'a)" where
  "run_registry h w = (case h (w\<lparr>reg_tx := reg_db w\<rparr>) of (w', r) \<Rightarrow> (w'\<lparr>reg_tx := reg_db w'\<rparr>, r))"

definition paged :: "json list \<Rightarrow> response" where
  "paged xs =
     json_response (JDict [(''result'', JList xs), (''paging_metadata'', JDict [(''cursor'', JNull)])])"

definition tagged :: "nat \<Rightarrow> obj \<Rightarrow> string \<Rightarrow> response" where
  "tagged st d e =
     \<lparr>http_status = st, http_body = Json (JDict d), http_etag = Some (quoted e), http_location = None\<rparr>"

definition missing :: "side \<Rightarrow> nat list \<Rightarrow> failure" where
  "missing sd i = NotFound (resource_name sd) i"

definition the_descriptor :: "registry_env \<Rightarrow> side \<Rightarrow> nat list \<Rightarrow> (obj \<times> string) reg" where
  "the_descriptor E sd i =
     bindH (get_descriptor E sd i) (\<lambda>r. case r of None \<Rightarrow> failH (missing sd i) | Some de \<Rightarrow> retH de)"

section \<open>Collections of descriptors\<close>

definition named :: "string option \<Rightarrow> obj \<Rightarrow> bool" where
  "named id_short d =
     (case id_short of None \<Rightarrow> True | Some s \<Rightarrow> s = [] \<or> dget d ''idShort'' = JStr s)"

definition field_ok :: "string option \<Rightarrow> json \<Rightarrow> bool" where
  "field_ok q v = (case q of None \<Rightarrow> True | Some s \<Rightarrow> s = [] \<or> v = JStr s)"

definition info_or_empty :: "obj \<Rightarrow> obj" where
  "info_or_empty d = (case dget d ''assetInformation'' of JDict a \<Rightarrow> a | _ \<Rightarrow> [])"

definition get_all_shell_descriptors ::
  "registry_env \<Rightarrow> nat \<Rightarrow> string option \<Rightarrow> string option \<Rightarrow> string option \<Rightarrow> response reg" where
  "get_all_shell_descriptors E limit asset_kind asset_type id_short =
     bindH (list_descriptors E ShellSide limit) (\<lambda>ds.
       retH (paged (map JDict (filter (\<lambda>d.
         named id_short d \<and>
         field_ok asset_kind (dget_or (info_or_empty d) ''assetKind'' (dget d ''assetKind'')) \<and>
         field_ok asset_type (dget_or (info_or_empty d) ''assetType'' (dget d ''assetType''))) (map fst ds)))))"

definition get_all_submodel_descriptors ::
  "registry_env \<Rightarrow> nat \<Rightarrow> string option \<Rightarrow> string option \<Rightarrow> response reg" where
  "get_all_submodel_descriptors E limit sem id_short =
     bindH (case sem of
         Some (c # cs) \<Rightarrow> find_by_semantic_id_in E (code_points (c # cs)) limit
       | _ \<Rightarrow> list_descriptors E SubmodelSide limit) (\<lambda>ds.
       retH (paged (map JDict (filter (named id_short) (map fst ds)))))"

definition post_descriptor :: "registry_env \<Rightarrow> side \<Rightarrow> obj \<Rightarrow> response reg" where
  "post_descriptor E sd m =
     bindH (descriptor_exists sd (id_of m)) (\<lambda>there.
       if there then failH (Conflict (resource_name sd) (id_of m))
       else
         bindH (create_descriptor E sd m) (\<lambda>(d, e).
         bindH reg_commit (\<lambda>_. retH (tagged 201 d e))))"

definition get_descriptor_by_id ::
  "registry_env \<Rightarrow> side \<Rightarrow> string \<Rightarrow> string option \<Rightarrow> response reg" where
  "get_descriptor_by_id E sd seg if_none_match =
     bindH (decode_identifier seg) (\<lambda>i.
     bindH (the_descriptor E sd i) (\<lambda>(d, e).
       retH (if not_modified if_none_match e then response_304 else tagged 200 d e)))"

text \<open>The body may carry another identifier than the path.\<close>

definition put_descriptor_by_id ::
  "registry_env \<Rightarrow> side \<Rightarrow> string \<Rightarrow> obj \<Rightarrow> string option \<Rightarrow> response reg" where
  "put_descriptor_by_id E sd seg m if_match =
     bindH (decode_identifier seg) (\<lambda>i.
     bindH (case if_match of
         Some (c # cs) \<Rightarrow>
           bindH (get_descriptor E sd i) (\<lambda>current.
             case current of
               None \<Rightarrow> retH ()
             | Some (d, e) \<Rightarrow> if strip_quotes (c # cs) \<noteq> e then failH PreconditionFailed else retH ())
       | _ \<Rightarrow> retH ()) (\<lambda>_.
     bindH (update_descriptor E sd i m) (\<lambda>r.
       case r of
         None \<Rightarrow> failH (missing sd i)
       | Some (d, e) \<Rightarrow> bindH reg_commit (\<lambda>_. retH (tagged 200 d e)))))"

definition delete_descriptor_by_id :: "side \<Rightarrow> string \<Rightarrow> response reg" where
  "delete_descriptor_by_id sd seg =
     bindH (decode_identifier seg) (\<lambda>i.
     bindH (delete_descriptor sd i) (\<lambda>deleted.
       if \<not> deleted then failH (missing sd i)
       else bindH reg_commit (\<lambda>_. retH response_204)))"

text \<open>Several descriptors in one transaction; the result counts what was created and what updated.\<close>

fun bulk_create :: "registry_env \<Rightarrow> side \<Rightarrow> obj list \<Rightarrow> nat \<times> nat \<Rightarrow> (nat \<times> nat) reg" where
  "bulk_create E sd [] n = retH n"
| "bulk_create E sd (m # ms) (created, updated) =
     bindH (descriptor_exists sd (id_of m)) (\<lambda>there.
       if there then
         bindH (update_descriptor E sd (id_of m) m) (\<lambda>_. bulk_create E sd ms (created, Suc updated))
       else bindH (create_descriptor E sd m) (\<lambda>_. bulk_create E sd ms (Suc created, updated)))"

definition bulk_create_descriptors :: "registry_env \<Rightarrow> side \<Rightarrow> obj list \<Rightarrow> response reg" where
  "bulk_create_descriptors E sd ms =
     bindH (bulk_create E sd ms (0, 0)) (\<lambda>(created, updated).
     bindH reg_commit (\<lambda>_.
       retH ((json_response (JDict
         [(''created'', JInt (int created)), (''updated'', JInt (int updated)),
          (''total'', JInt (int (length ms)))]))\<lparr>http_status := 201\<rparr>)))"

fun bulk_delete :: "side \<Rightarrow> nat list list \<Rightarrow> nat \<times> nat \<Rightarrow> (nat \<times> nat) reg" where
  "bulk_delete sd [] n = retH n"
| "bulk_delete sd (i # ids) (deleted, not_found) =
     bindH (delete_descriptor sd i) (\<lambda>there.
       bulk_delete sd ids (if there then (Suc deleted, not_found) else (deleted, Suc not_found)))"

definition bulk_delete_descriptors :: "side \<Rightarrow> nat list list \<Rightarrow> response reg" where
  "bulk_delete_descriptors sd ids =
     bindH (bulk_delete sd ids (0, 0)) (\<lambda>(deleted, not_found).
     bindH reg_commit (\<lambda>_.
       retH (json_response (JDict
         [(''deleted'', JInt (int deleted)), (''notFound'', JInt (int not_found)),
          (''total'', JInt (int (length ids)))]))))"

section \<open>Validation of shell descriptors\<close>

text \<open>\<open>_normalize_asset_information\<close>: what the top level lacks is copied from \<open>assetInformation\<close>.\<close>

definition copied_fields :: "string list" where
  "copied_fields = [''assetKind'', ''assetType'', ''globalAssetId'', ''specificAssetIds'']"

definition copy_field :: "obj \<Rightarrow> string \<Rightarrow> obj \<Rightarrow> obj" where
  "copy_field a k d = (if \<not> dhas d k \<and> dhas a k then dset k (dget a k) d else d)"

definition normalize_asset_information :: "obj \<Rightarrow> obj" where
  "normalize_asset_information d =
     (case dget d ''assetInformation'' of
        JDict a \<Rightarrow> fold (copy_field a) copied_fields d
      | _ \<Rightarrow> d)"

text \<open>What \<open>AssetInformation\<close> asks of its own fields.\<close>

definition asset_kinds :: "string list" where
  "asset_kinds = [''Instance'', ''NotApplicable'', ''Type'']"

definition asset_information_ok :: "obj \<Rightarrow> bool" where
  "asset_information_ok a =
     (dget a ''assetKind'' \<in> JStr ` set asset_kinds \<and>
      (case dget a ''globalAssetId'' of
         JNull \<Rightarrow> True | JStr s \<Rightarrow> s \<noteq> [] \<and> length s \<le> 2048 | _ \<Rightarrow> False) \<and>
      (case dget a ''specificAssetIds'' of JNull \<Rightarrow> True | JList xs \<Rightarrow> xs \<noteq> [] | _ \<Rightarrow> False) \<and>
      (truthy (dget a ''globalAssetId'') \<or> truthy (dget a ''specificAssetIds'')))"

definition valid_descriptor :: "registry_env \<Rightarrow> obj \<Rightarrow> string + obj" where
  "valid_descriptor E d =
     (let n = normalize_asset_information d in
      case dget n ''assetInformation'' of
        JNull \<Rightarrow> dump_descriptor E n
      | JDict a \<Rightarrow> if asset_information_ok a then dump_descriptor E n else Inl ''assetInformation''
      | _ \<Rightarrow> Inl ''assetInformation'')"

text \<open>A ValidationError is a ValueError; inside a handler nobody catches it.\<close>

definition model_validate :: "registry_env \<Rightarrow> obj \<Rightarrow> obj reg" where
  "model_validate E d =
     (case valid_descriptor E d of Inl _ \<Rightarrow> failH (Unhandled (Python ValueError)) | Inr m \<Rightarrow> retH m)"

section \<open>Submodel descriptors inside a shell descriptor\<close>

text \<open>\<open>doc.get("submodelDescriptors", []) or []\<close>; validation leaves a list of objects there.\<close>

definition nested_descriptors :: "obj \<Rightarrow> py_exn + json list" where
  "nested_descriptors d =
     (if \<not> truthy (dget d ''submodelDescriptors'') then Inr [] else
      case dget d ''submodelDescriptors'' of JList xs \<Rightarrow> Inr xs | _ \<Rightarrow> Inl NotModelled)"

definition has_id :: "nat list \<Rightarrow> json \<Rightarrow> py_exn + bool" where
  "has_id i x =
     (case x of
        JDict d \<Rightarrow> Inr (case dget d ''id'' of JStr s \<Rightarrow> code_points s = i | _ \<Rightarrow> False)
      | _ \<Rightarrow> Inl AttributeError)"

fun find_nested :: "nat list \<Rightarrow> json list \<Rightarrow> py_exn + nat option" where
  "find_nested i [] = Inr None"
| "find_nested i (x # xs) =
     bindE (has_id i x) (\<lambda>b.
       if b then Inr (Some 0) else bindE (find_nested i xs) (\<lambda>r. Inr (map_option Suc r)))"

definition without_nested :: "nat list \<Rightarrow> json list \<Rightarrow> py_exn + json list" where
  "without_nested i xs = concatE (\<lambda>x. bindE (has_id i x) (\<lambda>b. Inr (if b then [] else [x]))) xs"

definition set_nested :: "json list \<Rightarrow> obj \<Rightarrow> obj" where
  "set_nested xs d = dset ''submodelDescriptors'' (JList xs) d"

definition rewrite_descriptor :: "registry_env \<Rightarrow> nat list \<Rightarrow> obj \<Rightarrow> string reg" where
  "rewrite_descriptor E i d =
     bindH (model_validate E d) (\<lambda>m.
     bindH (update_descriptor E ShellSide i m) (\<lambda>r.
       case r of
         None \<Rightarrow> failH (missing ShellSide i)
       | Some (_, e) \<Rightarrow> bindH reg_commit (\<lambda>_. retH e)))"

definition get_nested_submodel_descriptors :: "registry_env \<Rightarrow> string \<Rightarrow> nat \<Rightarrow> response reg" where
  "get_nested_submodel_descriptors E seg limit =
     bindH (decode_identifier seg) (\<lambda>i.
     bindH (the_descriptor E ShellSide i) (\<lambda>(d, e).
     bindH (pureH (nested_descriptors d)) (\<lambda>xs.
       retH (paged (if limit \<noteq> 0 then take limit xs else xs)))))"

definition post_nested_submodel_descriptor :: "registry_env \<Rightarrow> string \<Rightarrow> obj \<Rightarrow> response reg" where
  "post_nested_submodel_descriptor E seg m =
     bindH (decode_identifier seg) (\<lambda>i.
     bindH (the_descriptor E ShellSide i) (\<lambda>(d, _).
     bindH (pureH (nested_descriptors d)) (\<lambda>xs.
     bindH (pureH (find_nested (id_of m) xs)) (\<lambda>found.
       if found \<noteq> None then failH (Conflict ''SubmodelDescriptor'' (id_of m))
       else bindH (rewrite_descriptor E i (set_nested (xs @ [JDict m]) d)) (\<lambda>e. retH (tagged 201 m e))))))"

text \<open>One of them: the position in the list.\<close>

definition nested_at ::
  "registry_env \<Rightarrow> string \<Rightarrow> string \<Rightarrow> string option \<Rightarrow>
   (nat list \<Rightarrow> obj \<Rightarrow> string \<Rightarrow> json list \<Rightarrow> nat \<Rightarrow> response reg) \<Rightarrow> response reg" where
  "nested_at E aseg seg if_match f =
     bindH (decode_identifier aseg) (\<lambda>i.
     bindH (decode_identifier seg) (\<lambda>j.
     bindH (the_descriptor E ShellSide i) (\<lambda>(d, e).
     bindH (check_precondition if_match e) (\<lambda>_.
     bindH (pureH (nested_descriptors d)) (\<lambda>xs.
     bindH (pureH (find_nested j xs)) (\<lambda>found.
       case found of None \<Rightarrow> failH (missing SubmodelSide j) | Some n \<Rightarrow> f i d e xs n))))))"

definition get_nested_submodel_descriptor_by_id ::
  "registry_env \<Rightarrow> string \<Rightarrow> string \<Rightarrow> string option \<Rightarrow> response reg" where
  "get_nested_submodel_descriptor_by_id E aseg seg if_none_match =
     nested_at E aseg seg None (\<lambda>i d e xs n.
       retH (if not_modified if_none_match e then response_304
             else (json_response (xs ! n))\<lparr>http_etag := Some (quoted e)\<rparr>))"

definition put_nested_submodel_descriptor ::
  "registry_env \<Rightarrow> string \<Rightarrow> string \<Rightarrow> obj \<Rightarrow> string option \<Rightarrow> response reg" where
  "put_nested_submodel_descriptor E aseg seg m if_match =
     nested_at E aseg seg if_match (\<lambda>i d e xs n.
       bindH (rewrite_descriptor E i (set_nested (xs[n := JDict m]) d)) (\<lambda>e'. retH (tagged 200 m e')))"

text \<open>Here the result of the update is not looked at.\<close>

definition rewrite_unchecked :: "registry_env \<Rightarrow> nat list \<Rightarrow> obj \<Rightarrow> unit reg" where
  "rewrite_unchecked E i d =
     bindH (model_validate E d) (\<lambda>m.
     bindH (update_descriptor E ShellSide i m) (\<lambda>_. reg_commit))"

definition delete_nested_submodel_descriptor :: "registry_env \<Rightarrow> string \<Rightarrow> string \<Rightarrow> response reg" where
  "delete_nested_submodel_descriptor E aseg seg =
     bindH (decode_identifier aseg) (\<lambda>i.
     bindH (decode_identifier seg) (\<lambda>j.
     bindH (the_descriptor E ShellSide i) (\<lambda>(d, _).
     bindH (pureH (nested_descriptors d)) (\<lambda>xs.
     bindH (pureH (without_nested j xs)) (\<lambda>ys.
       if length ys = length xs then failH (missing SubmodelSide j)
       else bindH (rewrite_unchecked E i (set_nested ys d)) (\<lambda>_. retH response_204))))))"

end
