(* ===== verification/Discovery.thy ===== *)
theory Discovery
  imports Registry
begin

text \<open>
  Discovery (\<open>src/titan/api/routers/discovery.py\<close>): the search for shells by the identifiers of their
  assets and for submodels by semantic id, and the links of one shell.
\<close>

section \<open>The lenient Base64 of the queries\<close>

text \<open>
  \<open>base64.urlsafe_b64decode\<close> of the padded text: characters outside the alphabet are skipped, a pad
  counts from the third position of a group and ends the input when the group is full. \<open>q\<close> is the
  position in the group, \<open>p\<close> the number of pads. \<open>None\<close> is binascii.Error or UnicodeEncodeError.
\<close>

definition url_to_std :: "char \<Rightarrow> char" where
  "url_to_std c = (if c = CHR ''-'' then CHR ''+'' else if c = CHR ''_'' then CHR ''/'' else c)"

fun lenient_sextets :: "nat \<Rightarrow> nat \<Rightarrow> string \<Rightarrow> nat list option" where
  "lenient_sextets q p [] = (if q = 0 then Some [] else None)"
| "lenient_sextets q p (c # s) =
     (if c = CHR ''='' then
        (if 2 \<le> q then (if 4 \<le> q + Suc p then Some [] else lenient_sextets q (Suc p) s)
         else lenient_sextets q p s)
      else if c \<in> set std_alphabet then
        map_option ((#) (std_value c)) (lenient_sextets (Suc q mod 4) 0 s)
      else lenient_sextets q p s)"

definition ascii :: "string \<Rightarrow> bool" where
  "ascii s = list_all (\<lambda>c. (of_char c :: nat) < 128) s"

definition urlsafe_b64decode :: "string \<Rightarrow> nat list option" where
  "urlsafe_b64decode s =
     (let padded = s @ replicate ((4 - length s mod 4) mod 4) (CHR ''='') in
      if ascii s then Option.bind (lenient_sextets 0 0 (map url_to_std padded)) octets else None)"

section \<open>Searches\<close>

text \<open>Shells in the order in which they are found, each once.\<close>

definition add_found :: "(obj \<times> string) list \<Rightarrow> nat list list \<Rightarrow> nat list list" where
  "add_found ds acc =
     fold (\<lambda>(d, _) s. if id_of d \<noteq> [] \<and> id_of d \<notin> set s then s @ [id_of d] else s) ds acc"

definition found_ids :: "nat list list \<Rightarrow> response" where
  "found_ids is' = paged (map (\<lambda>i. JStr (b64_of i)) is')"

definition all_identifiers :: "side \<Rightarrow> nat \<Rightarrow> response reg" where
  "all_identifiers sd limit =
     bindH (entries sd) (\<lambda>es. retH (found_ids (map entry_ident (first_entries limit es))))"

text \<open>\<open>k in v\<close> for a value out of \<open>orjson.loads\<close>.\<close>

definition json_in :: "string \<Rightarrow> json \<Rightarrow> py_exn + bool" where
  "json_in k v =
     (case v of
        JDict d \<Rightarrow> Inr (dhas d k)
      | JList xs \<Rightarrow> Inr (JStr k \<in> set xs)
      | JStr s \<Rightarrow> Inr (sublist k s)
      | _ \<Rightarrow> Inl TypeError)"

definition py_item :: "string \<Rightarrow> json \<Rightarrow> py_exn + json" where
  "py_item k v = (case v of JDict d \<Rightarrow> Inr (dget d k) | _ \<Rightarrow> Inl TypeError)"

definition pair_of :: "json \<Rightarrow> py_exn + json \<times> json" where
  "pair_of x =
     (case x of JDict s \<Rightarrow> Inr (dget s ''name'', dget s ''value'') | _ \<Rightarrow> Inl AttributeError)"

fun search_pairs :: "registry_env \<Rightarrow> nat \<Rightarrow> json list \<Rightarrow> nat list list \<Rightarrow> nat list list reg" where
  "search_pairs E limit [] acc = retH acc"
| "search_pairs E limit (x # xs) acc =
     bindH (pureH (pair_of x)) (\<lambda>(n, v).
       if truthy n \<and> truthy v then
         bindH (find_by_specific_asset_id E n v limit) (\<lambda>ds. search_pairs E limit xs (add_found ds acc))
       else search_pairs E limit xs acc)"

text \<open>The driver takes a string or \<open>None\<close> for the column; anything else is an error of the driver.\<close>

definition search_global :: "registry_env \<Rightarrow> nat \<Rightarrow> json \<Rightarrow> nat list list \<Rightarrow> nat list list reg" where
  "search_global E limit g acc =
     (case g of
        JStr _ \<Rightarrow> bindH (find_by_global_asset_id E g limit) (\<lambda>ds. retH (add_found ds acc))
      | JNull \<Rightarrow> bindH (find_by_global_asset_id E g limit) (\<lambda>ds. retH (add_found ds acc))
      | _ \<Rightarrow> failH (Unhandled (Python NotModelled)))"

definition search_object :: "registry_env \<Rightarrow> nat \<Rightarrow> json \<Rightarrow> nat list list \<Rightarrow> nat list list reg" where
  "search_object E limit v acc =
     bindH (pureH (json_in ''globalAssetId'' v)) (\<lambda>b.
     bindH (if b then bindH (pureH (py_item ''globalAssetId'' v)) (\<lambda>g. search_global E limit g acc)
            else retH acc) (\<lambda>seen2.
     bindH (pureH (json_in ''specificAssetIds'' v)) (\<lambda>b'.
       if b' then
         bindH (pureH (bindE (py_item ''specificAssetIds'' v) py_iter)) (\<lambda>xs. search_pairs E limit xs seen2)
       else retH seen2)))"

text \<open>An asset id that cannot be decoded or parsed is skipped.\<close>

fun search_asset_ids :: "registry_env \<Rightarrow> nat \<Rightarrow> string list \<Rightarrow> nat list list \<Rightarrow> nat list list reg" where
  "search_asset_ids E limit [] acc = retH acc"
| "search_asset_ids E limit (a # as) acc =
     (case Option.bind (urlsafe_b64decode a) (json_loads E) of
        None \<Rightarrow> search_asset_ids E limit as acc
      | Some v \<Rightarrow> bindH (search_object E limit v acc) (search_asset_ids E limit as))"

definition lookup_shells :: "registry_env \<Rightarrow> nat \<Rightarrow> string list option \<Rightarrow> response reg" where
  "lookup_shells E limit asset_ids =
     (case asset_ids of
        Some (a # as) \<Rightarrow> bindH (search_asset_ids E limit (a # as) []) (\<lambda>is'. retH (found_ids is'))
      | _ \<Rightarrow> all_identifiers ShellSide limit)"

text \<open>A semantic id that does not decode is taken as it is.\<close>

definition decoded_semantic_id :: "string \<Rightarrow> nat list" where
  "decoded_semantic_id s =
     (case Option.bind (urlsafe_b64decode s) utf8_decode of None \<Rightarrow> code_points s | Some cs \<Rightarrow> cs)"

definition lookup_submodels :: "registry_env \<Rightarrow> nat \<Rightarrow> string option \<Rightarrow> response reg" where
  "lookup_submodels E limit sem =
     (case sem of
        Some (c # cs) \<Rightarrow>
          bindH (find_by_semantic_id_in E (decoded_semantic_id (c # cs)) limit) (\<lambda>ds.
            retH (found_ids (filter (\<lambda>i. i \<noteq> []) (map (\<lambda>(d, _). id_of d) ds))))
      | _ \<Rightarrow> all_identifiers SubmodelSide limit)"

section \<open>Links\<close>

record asset_link =
  link_name :: string
  link_value :: string

definition global_name :: string where
  "global_name = ''globalAssetId''"

fun search_links :: "registry_env \<Rightarrow> nat \<Rightarrow> asset_link list \<Rightarrow> nat list list \<Rightarrow> nat list list reg" where
  "search_links E limit [] acc = retH acc"
| "search_links E limit (l # ls) acc =
     bindH (if link_name l = global_name
            then find_by_global_asset_id E (JStr (link_value l)) limit
            else find_by_specific_asset_id E (JStr (link_name l)) (JStr (link_value l)) limit)
       (\<lambda>ds. search_links E limit ls (add_found ds acc))"

definition search_shells_by_asset_link :: "registry_env \<Rightarrow> asset_link list \<Rightarrow> nat \<Rightarrow> response reg" where
  "search_shells_by_asset_link E ls limit =
     bindH (search_links E limit ls []) (\<lambda>is'. retH (found_ids is'))"

definition link_json :: "json \<Rightarrow> json \<Rightarrow> json" where
  "link_json n v = JDict [(''name'', n), (''value'', v)]"

definition or_else :: "json \<Rightarrow> json \<Rightarrow> json" where
  "or_else a b = (if truthy a then a else b)"

definition pair_link :: "json \<Rightarrow> py_exn + json list" where
  "pair_link x =
     bindE (pair_of x) (\<lambda>(n, v). Inr (if truthy n \<and> truthy v then [link_json n v] else []))"

definition links_of :: "obj \<Rightarrow> py_exn + json list" where
  "links_of d =
     (let a = info_or_empty d;
          g = or_else (dget a ''globalAssetId'') (dget d ''globalAssetId'');
          sp = or_else (or_else (dget a ''specificAssetIds'') (dget d ''specificAssetIds'')) (JList [])
      in bindE (py_iter sp) (\<lambda>xs. bindE (concatE pair_link xs) (\<lambda>ls.
           Inr ((if truthy g then [link_json (JStr global_name) g] else []) @ ls))))"

text \<open>The 400 and 404 of \<open>HTTPException\<close>.\<close>

definition link_target :: "registry_env \<Rightarrow> string \<Rightarrow> (nat list \<times> obj) reg" where
  "link_target E seg =
     bindH (decode_identifier seg) (\<lambda>i.
     bindH (the_descriptor E ShellSide i) (\<lambda>(d, _). retH (i, d)))"

definition get_asset_links_by_id :: "registry_env \<Rightarrow> string \<Rightarrow> response reg" where
  "get_asset_links_by_id E seg =
     bindH (link_target E seg) (\<lambda>(i, d). bindH (pureH (links_of d)) (\<lambda>ls. retH (json_response (JList ls))))"

definition link_to_json :: "asset_link \<Rightarrow> json" where
  "link_to_json l = link_json (JStr (link_name l)) (JStr (link_value l))"

definition specific_links :: "asset_link list \<Rightarrow> json list" where
  "specific_links ls = map link_to_json (filter (\<lambda>l. link_name l \<noteq> global_name) ls)"

text \<open>The last of several global asset ids wins.\<close>

definition global_link :: "asset_link list \<Rightarrow> json" where
  "global_link ls =
     (case filter (\<lambda>l. link_name l = global_name) ls of [] \<Rightarrow> JNull | gs \<Rightarrow> JStr (link_value (last gs)))"

definition set_links :: "asset_link list \<Rightarrow> obj \<Rightarrow> obj" where
  "set_links ls d =
     (let both = \<lambda>x. dset ''specificAssetIds'' (JList (specific_links ls)) (dset ''globalAssetId'' (global_link ls) x);
          d' = (if dhas d ''assetInformation'' then d else dset ''assetInformation'' (JDict []) d)
      in dset ''assetInformation'' (JDict (both (info_or_empty d'))) (both d'))"

definition post_asset_links_by_id :: "registry_env \<Rightarrow> string \<Rightarrow> asset_link list \<Rightarrow> response reg" where
  "post_asset_links_by_id E seg ls =
     bindH (link_target E seg) (\<lambda>(i, d).
     bindH (rewrite_unchecked E i (set_links ls d)) (\<lambda>_.
       retH ((json_response (JList (map link_to_json ls)))\<lparr>http_status := 201\<rparr>)))"

definition drop_links :: "obj \<Rightarrow> obj" where
  "drop_links d =
     (let d1 = dset ''specificAssetIds'' (JList []) (dset ''globalAssetId'' JNull d);
          d2 = (case dget d ''assetInformation'' of
                  JDict a \<Rightarrow> copy_field a ''assetType'' (copy_field a ''assetKind'' d1)
                | _ \<Rightarrow> d1)
      in dpop ''assetInformation'' d2)"

definition delete_asset_links_by_id :: "registry_env \<Rightarrow> string \<Rightarrow> response reg" where
  "delete_asset_links_by_id E seg =
     bindH (link_target E seg) (\<lambda>(i, d).
     bindH (rewrite_unchecked E i (drop_links d)) (\<lambda>_. retH response_204))"

section \<open>Requests\<close>

datatype registry_request =
    GetShellDescriptors nat "string option" "string option" "string option"
  | GetSubmodelDescriptors nat "string option" "string option"
  | PostDescriptor side obj
  | GetDescriptor side string "string option"
  | PutDescriptor side string obj "string option"
  | DeleteDescriptor side string
  | BulkCreate side "obj list"
  | BulkDelete side "nat list list"
  | GetNested string nat
  | PostNested string obj
  | GetNestedById string string "string option"
  | PutNested string string obj "string option"
  | DeleteNested string string
  | LookupShells nat "string list option"
  | LookupSubmodels nat "string option"
  | SearchByLink "asset_link list" nat
  | GetLinks string
  | PostLinks string "asset_link list"
  | DeleteLinks string

fun serve_registry :: "registry_env \<Rightarrow> registry_request \<Rightarrow> response reg" where
  "serve_registry E (GetShellDescriptors n k t s) = get_all_shell_descriptors E n k t s"
| "serve_registry E (GetSubmodelDescriptors n sem s) = get_all_submodel_descriptors E n sem s"
| "serve_registry E (PostDescriptor sd m) = post_descriptor E sd m"
| "serve_registry E (GetDescriptor sd seg h) = get_descriptor_by_id E sd seg h"
| "serve_registry E (PutDescriptor sd seg m h) = put_descriptor_by_id E sd seg m h"
| "serve_registry E (DeleteDescriptor sd seg) = delete_descriptor_by_id sd seg"
| "serve_registry E (BulkCreate sd ms) = bulk_create_descriptors E sd ms"
| "serve_registry E (BulkDelete sd is') = bulk_delete_descriptors sd is'"
| "serve_registry E (GetNested seg n) = get_nested_submodel_descriptors E seg n"
| "serve_registry E (PostNested seg m) = post_nested_submodel_descriptor E seg m"
| "serve_registry E (GetNestedById a seg h) = get_nested_submodel_descriptor_by_id E a seg h"
| "serve_registry E (PutNested a seg m h) = put_nested_submodel_descriptor E a seg m h"
| "serve_registry E (DeleteNested a seg) = delete_nested_submodel_descriptor E a seg"
| "serve_registry E (LookupShells n as) = lookup_shells E n as"
| "serve_registry E (LookupSubmodels n sem) = lookup_submodels E n sem"
| "serve_registry E (SearchByLink ls n) = search_shells_by_asset_link E ls n"
| "serve_registry E (GetLinks seg) = get_asset_links_by_id E seg"
| "serve_registry E (PostLinks seg ls) = post_asset_links_by_id E seg ls"
| "serve_registry E (DeleteLinks seg) = delete_asset_links_by_id E seg"

end
