(* ===== verification/RegistryState.thy ===== *)
theory RegistryState
  imports Discovery "HOL-Library.Multiset"
begin

text \<open>
  The state of the registry: what the model needs of the code it does not contain, the invariant that
  the search columns agree with the documents, which every request keeps, and the operations of the
  repositories as changes of a map from identifiers to documents.
\<close>

section \<open>Documents that differ in the order of their keys\<close>

inductive same_json :: "json \<Rightarrow> json \<Rightarrow> bool" where
  same_null: "same_json JNull JNull"
| same_bool: "same_json (JBool b) (JBool b)"
| same_int: "same_json (JInt n) (JInt n)"
| same_dec: "same_json (JDec m e) (JDec m e)"
| same_str: "same_json (JStr s) (JStr s)"
| same_list: "list_all2 same_json xs ys \<Longrightarrow> same_json (JList xs) (JList ys)"
| same_dict: "(\<And>k. dhas d k = dhas d' k) \<Longrightarrow> (\<And>k. same_json (dget d k) (dget d' k)) \<Longrightarrow> same_json (JDict d) (JDict d')"

inductive_cases same_nullE [elim!]: "same_json JNull x"
inductive_cases same_strE [elim!]: "same_json (JStr s) x"
inductive_cases same_listE [elim!]: "same_json (JList xs) x"
inductive_cases same_dictE: "same_json (JDict d) x"

lemma same_json_refl: "same_json x x"
proof (induction x rule: measure_induct_rule [of size])
  case (less x)
  show ?case
  proof (cases x)
    case (JList xs)
    with less size_list_item show ?thesis by (auto intro!: same_list list_all2I simp: zip_same)
  next
    case (JDict d)
    have "same_json (dget d k) (dget d k)" for k
      using less JDict size_dget by (auto simp: dget_def intro: same_null split: option.split)
    with JDict show ?thesis by (auto intro: same_dict)
  qed (auto intro: same_json.intros)
qed

lemma same_dget: "same_json (JDict d) (JDict d') \<Longrightarrow> same_json (dget d k) (dget d' k)"
  by (auto elim: same_dictE)

lemma same_dict_is: "same_json (JDict d) x \<Longrightarrow> \<exists>d'. x = JDict d' \<and> same_json (JDict d) (JDict d')"
  by (auto elim: same_dictE)

lemma same_dget_dict:
  "same_json (JDict d) (JDict d') \<Longrightarrow> dget d k = JDict a \<Longrightarrow>
   \<exists>a'. dget d' k = JDict a' \<and> same_json (JDict a) (JDict a')"
  using same_dget [of d d' k] same_dict_is by metis

lemma same_dget_str: "same_json (JDict d) (JDict d') \<Longrightarrow> dget d k = JStr s \<Longrightarrow> dget d' k = JStr s"
  using same_dget [of d d' k] by auto

lemma same_dget_null: "same_json (JDict d) (JDict d') \<Longrightarrow> dget d k = JNull \<Longrightarrow> dget d' k = JNull"
  using same_dget [of d d' k] by auto

section \<open>What the model needs of the code it does not contain\<close>

text \<open>
  A validated descriptor: its id is a string and not empty, the columns that are searched get a string
  or nothing.
\<close>

definition text_or_null :: "json \<Rightarrow> bool" where
  "text_or_null v = (case v of JNull \<Rightarrow> True | JStr _ \<Rightarrow> True | _ \<Rightarrow> False)"

definition body_ok :: "obj \<Rightarrow> bool" where
  "body_ok m =
     ((case dget m ''id'' of JStr s \<Rightarrow> s \<noteq> [] | _ \<Rightarrow> False) \<and> text_or_null (dget m ''globalAssetId'') \<and>
      text_or_null (last_semantic_id m))"

lemma text_or_null_iff: "text_or_null v \<longleftrightarrow> v = JNull \<or> (\<exists>s. v = JStr s)"
  by (cases v) (simp_all add: text_or_null_def)

lemma body_ok_iff:
  "body_ok m \<longleftrightarrow>
   (\<exists>s. dget m ''id'' = JStr s \<and> s \<noteq> []) \<and> text_or_null (dget m ''globalAssetId'') \<and> text_or_null (last_semantic_id m)"
  by (auto simp: body_ok_def split: json.splits)

text \<open>
  Validation keeps the fields below: the id, the global asset id, and specific asset ids that are
  just names and values; it adds no asset information.
\<close>

definition keeps_links :: "obj \<Rightarrow> obj \<Rightarrow> bool" where
  "keeps_links d m =
     (dget m ''globalAssetId'' = dget d ''globalAssetId'' \<and>
      (\<forall>ls. dget d ''specificAssetIds'' = JList (map link_to_json ls) \<longrightarrow>
         dget m ''specificAssetIds'' = JList (map link_to_json ls)))"

definition dump_ok :: "(obj \<Rightarrow> string + obj) \<Rightarrow> bool" where
  "dump_ok dump =
     (\<forall>d m. dump d = Inr m \<longrightarrow>
        body_ok m \<and> id_of m = id_of d \<and> keeps_links d m \<and>
        (dget d ''assetInformation'' = JNull \<longrightarrow> dget m ''assetInformation'' = JNull) \<and>
        (\<forall>a. dget d ''assetInformation'' = JDict a \<longrightarrow>
           (\<exists>a'. dget m ''assetInformation'' = JDict a' \<and> keeps_links a a')))"

definition registry_ok :: "registry_env \<Rightarrow> bool" where
  "registry_ok E =
     (inj (r_uuid E) \<and> (\<forall>d. same_json (JDict d) (JDict (jsonb E d))) \<and>
      (\<forall>es. mset (r_scan E es) = mset es) \<and> dump_ok (dump_descriptor E))"

lemma jsonb_same: "registry_ok E \<Longrightarrow> same_json (JDict d) (JDict (jsonb E d))"
  by (simp add: registry_ok_def)

lemma set_scan [simp]: "registry_ok E \<Longrightarrow> set (r_scan E es) = set es"
  unfolding registry_ok_def by (metis set_mset_mset)

lemma length_scan [simp]: "registry_ok E \<Longrightarrow> length (r_scan E es) = length es"
  unfolding registry_ok_def by (metis size_mset)

section \<open>Columns and documents\<close>

lemma key_value_same: "same_json x y \<Longrightarrow> same_json (key_value x) (key_value y)"
  by (induction rule: same_json.induct) (simp_all add: key_value_def same_null)

lemma last_semantic_same:
  assumes "same_json (JDict d) (JDict d')" and "text_or_null (last_semantic_id d)"
  shows "last_semantic_id d' = last_semantic_id d"
proof -
  have keys: "list_all2 same_json (semantic_keys d) (semantic_keys d')"
  proof (cases "dget d ''semanticId''")
    case (JDict r)
    with same_dget [OF assms(1), of "''semanticId''"] same_dict_is obtain r' where
      r': "dget d' ''semanticId'' = JDict r'" "same_json (JDict r) (JDict r')" by metis
    with JDict same_dget [OF r'(2), of "''keys''"] show ?thesis
      by (auto simp: semantic_keys_def elim: same_json.cases split: json.splits)
  next
    case (JList xs)
    with same_dget [OF assms(1), of "''semanticId''"] show ?thesis by (auto simp: semantic_keys_def)
  qed (use same_dget [OF assms(1), of "''semanticId''"] in
       \<open>auto simp: semantic_keys_def elim: same_json.cases split: json.splits\<close>)
  show ?thesis
  proof (cases "semantic_keys d = []")
    case True
    with keys show ?thesis by (simp add: last_semantic_id_def)
  next
    case False
    with keys have ne: "semantic_keys d' \<noteq> []" by auto
    with False keys have last: "same_json (last (semantic_keys d)) (last (semantic_keys d'))" "semantic_keys d' \<noteq> []"
      by (auto simp: list_all2_conv_all_nth last_conv_nth)
    then have "same_json (key_value (last (semantic_keys d))) (key_value (last (semantic_keys d')))"
      by (intro key_value_same)
    with assms(2) False last(2) show ?thesis
      by (auto simp: last_semantic_id_def text_or_null_iff)
  qed
qed

lemma id_of_same:
  assumes "same_json (JDict d) (JDict d')"
  shows "id_of d' = id_of d"
  using same_dget [OF assms, of "''id''"] by (auto simp: id_of_def elim: same_json.cases)

lemma index_key_jsonb: "registry_ok E \<Longrightarrow> body_ok m \<Longrightarrow> index_key sd (jsonb E m) = index_key sd m"
  using same_dget [OF jsonb_same [of E m], of "''globalAssetId''"] last_semantic_same [OF jsonb_same [of E m]]
  by (cases sd) (auto simp: body_ok_iff text_or_null_iff)

lemma id_of_jsonb: "registry_ok E \<Longrightarrow> id_of (jsonb E m) = id_of m"
  using jsonb_same id_of_same by blast

lemma body_ok_id: "body_ok m \<Longrightarrow> id_of m \<noteq> []"
  by (auto simp: body_ok_iff id_of_def code_points_def)

definition entry_ok :: "registry_env \<Rightarrow> side \<Rightarrow> nat \<Rightarrow> entry \<Rightarrow> bool" where
  "entry_ok E sd n r =
     ((\<exists>k<n. entry_id r = r_uuid E k) \<and> entry_ident r = id_of (entry_doc r) \<and> entry_ident r \<noteq> [] \<and>
      entry_b64 r = b64_of (entry_ident r) \<and> entry_key r = index_key sd (entry_doc r))"

definition table_ok :: "registry_env \<Rightarrow> side \<Rightarrow> nat \<Rightarrow> entry list \<Rightarrow> bool" where
  "table_ok E sd n es =
     ((\<forall>r \<in> set es. entry_ok E sd n r) \<and> distinct (map entry_id es) \<and> distinct (map entry_ident es))"

definition tables_agree :: "registry_env \<Rightarrow> nat \<Rightarrow> descriptors \<Rightarrow> bool" where
  "tables_agree E n t = (\<forall>sd. table_ok E sd n (table_of sd t))"

definition registry_inv :: "registry_env \<Rightarrow> registry_state \<Rightarrow> bool" where
  "registry_inv E w = (tables_agree E (reg_serial w) (reg_db w) \<and> tables_agree E (reg_serial w) (reg_tx w))"

lemma table_of_set [simp]: "table_of sd (set_table sd' es t) = (if sd = sd' then es else table_of sd t)"
  by (cases sd; cases sd') simp_all

lemma entry_ok_mono: "entry_ok E sd n r \<Longrightarrow> n \<le> m \<Longrightarrow> entry_ok E sd m r"
  unfolding entry_ok_def using less_le_trans by blast

lemma table_ok_mono: "table_ok E sd n es \<Longrightarrow> n \<le> m \<Longrightarrow> table_ok E sd m es"
  by (auto simp: table_ok_def intro: entry_ok_mono)

lemma tables_agree_mono: "tables_agree E n t \<Longrightarrow> n \<le> m \<Longrightarrow> tables_agree E m t"
  by (auto simp: tables_agree_def intro: table_ok_mono)

lemma entry_by_idD: "entry_by_id i es = Some r \<Longrightarrow> r \<in> set es \<and> entry_ident r = i"
  unfolding entry_by_id_def by (auto simp: find_Some_iff)

lemma entry_by_id_None: "entry_by_id i es = None \<longleftrightarrow> i \<notin> entry_ident ` set es"
  unfolding entry_by_id_def by (auto simp: find_None_iff)

lemma entry_by_id_mem:
  assumes "table_ok E sd n es" and "r \<in> set es"
  shows "entry_by_id (entry_ident r) es = Some r"
proof (cases "entry_by_id (entry_ident r) es")
  case None
  with assms(2) show ?thesis by (auto simp: entry_by_id_None)
next
  case (Some q)
  with entry_by_idD [OF Some] assms show ?thesis
    by (auto simp: table_ok_def distinct_map inj_on_def)
qed

lemma entry_for_ok:
  "registry_ok E \<Longrightarrow> body_ok m \<Longrightarrow> entry_ok E sd (Suc n) (entry_for E sd n m)"
  by (auto simp: entry_ok_def entry_for_def id_of_jsonb index_key_jsonb body_ok_id)

lemma changed_entry_ok:
  "registry_ok E \<Longrightarrow> body_ok m \<Longrightarrow> entry_ok E sd n r \<Longrightarrow> entry_ok E sd n (changed_entry E sd r m)"
  by (auto simp: entry_ok_def changed_entry_def id_of_jsonb index_key_jsonb body_ok_id)

lemma table_ok_append:
  assumes "registry_ok E" and "body_ok m" and "table_ok E sd n es"
    and "\<not> entry_clashes (entry_for E sd n m) es"
  shows "table_ok E sd (Suc n) (es @ [entry_for E sd n m])"
proof -
  have fresh: "entry_id r \<noteq> r_uuid E n" if "r \<in> set es" for r
    using that assms(1,3) by (fastforce simp: table_ok_def entry_ok_def registry_ok_def dest: injD)
  with assms(4) have "entry_ident r \<noteq> id_of m" if "r \<in> set es" for r
    using that by (auto simp: entry_clashes_def list_ex_iff entry_for_def)
  then have idents: "id_of m \<notin> entry_ident ` set es" by force
  from fresh have ids: "r_uuid E n \<notin> entry_id ` set es" by force
  have new: "entry_id (entry_for E sd n m) = r_uuid E n" "entry_ident (entry_for E sd n m) = id_of m"
    by (simp_all add: entry_for_def)
  from table_ok_mono [OF assms(3), of "Suc n"] entry_for_ok [OF assms(1,2)] idents ids show ?thesis
    by (simp add: table_ok_def new ball_Un)
qed

lemma replace_entry_id: "entry_id r' = entry_id r \<Longrightarrow> map entry_id (replace_entry r' es) = map entry_id es"
  by (induction es) (auto simp: replace_entry_def)

lemma table_ok_replace:
  assumes "table_ok E sd n es" and "entry_ok E sd n r"
    and other: "\<And>q. q \<in> set es \<Longrightarrow> entry_id q \<noteq> entry_id r \<Longrightarrow> entry_ident q \<noteq> entry_ident r"
  shows "table_ok E sd n (replace_entry r es)"
proof -
  have ids: "map entry_id (replace_entry r es) = map entry_id es"
    by (simp add: replace_entry_def)
  have inj: "inj_on entry_ident (set es)" using assms(1) by (simp add: table_ok_def distinct_map)
  have member: "q = r \<or> q \<in> set es \<and> entry_id q \<noteq> entry_id r" if "q \<in> set (replace_entry r es)" for q
    using that by (auto simp: replace_entry_def split: if_splits)
  have "inj_on entry_ident (set (replace_entry r es))"
  proof (rule inj_onI)
    fix p q
    assume "p \<in> set (replace_entry r es)" "q \<in> set (replace_entry r es)" "entry_ident p = entry_ident q"
    with member [of p] member [of q] other [of p] other [of q] inj show "p = q"
      by (metis inj_onD)
  qed
  moreover have "distinct (replace_entry r es)"
    using assms(1) ids by (metis distinct_map table_ok_def)
  ultimately have "distinct (map entry_ident (replace_entry r es))" by (simp add: distinct_map)
  moreover have "\<forall>q \<in> set (replace_entry r es). entry_ok E sd n q"
    using assms(1,2) by (auto simp: replace_entry_def table_ok_def)
  ultimately show ?thesis using assms(1) ids by (simp add: table_ok_def)
qed

lemma table_ok_filter: "table_ok E sd n es \<Longrightarrow> table_ok E sd n (filter P es)"
  by (auto simp: table_ok_def distinct_map_filter)

lemma not_clashesD:
  "\<not> entry_clashes r es \<Longrightarrow> q \<in> set es \<Longrightarrow> entry_id q \<noteq> entry_id r \<Longrightarrow> entry_ident q \<noteq> entry_ident r"
  by (auto simp: entry_clashes_def list_ex_iff)

section \<open>Every request keeps the invariant\<close>

definition keeping :: "registry_env \<Rightarrow> 'a reg \<Rightarrow> bool" where
  "keeping E h = triple (registry_inv E) h (\<lambda>_. registry_inv E) (\<lambda>_. registry_inv E)"

named_theorems keep \<open>steps that keep the invariant of the registry\<close>

lemma keep_ret [keep]: "keeping E (retH a)"
  by (simp add: keeping_def triple_ret)

lemma keep_fail [keep]: "keeping E (failH f)"
  by (simp add: keeping_def triple_fail)

lemma keep_pure [keep]: "keeping E (pureH m)"
  by (simp add: keeping_def triple_pure)

lemma keep_bind [keep]: "keeping E m \<Longrightarrow> (\<And>a. keeping E (f a)) \<Longrightarrow> keeping E (bindH m f)"
  unfolding keeping_def by (rule triple_bind)

lemma keep_decode [keep]: "keeping E (decode_identifier seg)"
  by (auto simp: keeping_def triple_def decode_identifier_def handlers split: sum.split)

lemma keep_precondition [keep]: "keeping E (check_precondition h e)"
  unfolding keeping_def by (rule triple_precondition)

lemma keep_if [keep]: "keeping E f \<Longrightarrow> keeping E g \<Longrightarrow> keeping E (if c then f else g)"
  by simp

lemma keep_option [keep]: "keeping E f \<Longrightarrow> (\<And>y. keeping E (g y)) \<Longrightarrow> keeping E (case x of None \<Rightarrow> f | Some y \<Rightarrow> g y)"
  by (cases x) simp_all

lemma keep_sum [keep]:
  "(\<And>y. keeping E (f y)) \<Longrightarrow> (\<And>y. keeping E (g y)) \<Longrightarrow> keeping E (case x of Inl y \<Rightarrow> f y | Inr y \<Rightarrow> g y)"
  by (cases x) simp_all

lemma keep_list [keep]:
  "keeping E f \<Longrightarrow> (\<And>y ys. keeping E (g y ys)) \<Longrightarrow> keeping E (case xs of [] \<Rightarrow> f | y # ys \<Rightarrow> g y ys)"
  by (cases xs) simp_all

lemma keep_prod [keep]: "(\<And>a b. keeping E (f a b)) \<Longrightarrow> keeping E (case x of (a, b) \<Rightarrow> f a b)"
  by (cases x) simp

lemma keeping_fst: "keeping E h \<Longrightarrow> registry_inv E w \<Longrightarrow> registry_inv E (fst (h w))"
  by (cases "h w"; cases "snd (h w)") (auto simp: keeping_def triple_def)

lemma keepingI: "(\<And>w. registry_inv E w \<Longrightarrow> registry_inv E (fst (h w))) \<Longrightarrow> keeping E h"
  unfolding keeping_def triple_def by (metis (mono_tags, lifting) case_prod_beta sum.case_eq_if)

lemma keep_entries [keep]: "keeping E (entries sd)"
  by (simp add: keeping_def triple_def entries_def)

lemma keep_commit [keep]: "keeping E reg_commit"
  by (simp add: keeping_def triple_def reg_commit_def registry_inv_def)

lemma put_entries_inv:
  "registry_inv E w \<Longrightarrow> table_ok E sd (reg_serial w) es \<Longrightarrow>
   registry_inv E (w\<lparr>reg_tx := set_table sd es (reg_tx w)\<rparr>)"
  by (auto simp: registry_inv_def tables_agree_def)

text \<open>The steps that write, each on the table of the transaction.\<close>

lemma inv_table: "registry_inv E w \<Longrightarrow> table_ok E sd (reg_serial w) (table_of sd (reg_tx w))"
  by (simp add: registry_inv_def tables_agree_def)

lemma keep_get [keep]: "keeping E (get_descriptor E sd i)"
  unfolding keeping_def
proof (rule tripleI)
  fix w w' a
  assume inv: "registry_inv E w" and run: "get_descriptor E sd i w = (w', Inr a)"
  show "registry_inv E w'"
  proof (cases "entry_by_id i (table_of sd (reg_tx w))")
    case None
    with inv run show ?thesis by (simp add: get_descriptor_def handlers entries_def)
  next
    case (Some r)
    let ?es = "table_of sd (reg_tx w)"
    have table: "table_ok E sd (reg_serial w) ?es" by (rule inv_table [OF inv])
    have mem: "r \<in> set ?es" using entry_by_idD [OF Some] by blast
    with table have r: "entry_ok E sd (reg_serial w) (refreshed E r)"
      by (auto simp: table_ok_def entry_ok_def refreshed_def)
    have other: "entry_ident q \<noteq> entry_ident r" if "q \<in> set ?es" "entry_id q \<noteq> entry_id r" for q
      using that mem table by (auto simp: table_ok_def distinct_map inj_on_def)
    have "table_ok E sd (reg_serial w) (replace_entry (refreshed E r) ?es)"
      by (rule table_ok_replace [OF table r]) (use other in \<open>simp add: refreshed_def\<close>)
    with table have "table_ok E sd (reg_serial w) (if refreshed E r = r then ?es else replace_entry (refreshed E r) ?es)"
      by simp
    with Some run put_entries_inv [OF inv] show ?thesis
      by (auto simp: get_descriptor_def handlers entries_def put_entries_def)
  qed
next
  fix w w' e
  assume "registry_inv E w" and "get_descriptor E sd i w = (w', Inl e)"
  then show "registry_inv E w'"
    by (simp add: get_descriptor_def handlers entries_def put_entries_def split: option.splits)
qed

lemma keep_create [keep]:
  assumes "registry_ok E" and "body_ok m"
  shows "keeping E (create_descriptor E sd m)"
proof -
  have "registry_inv E (fst (create_descriptor E sd m w))" if inv: "registry_inv E w" for w
  proof -
    let ?n = "reg_serial w"
    have later: "registry_inv E (w\<lparr>reg_serial := Suc ?n\<rparr>)"
      using inv by (auto simp: registry_inv_def intro: tables_agree_mono)
    show ?thesis
    proof (cases "entry_clashes (entry_for E sd ?n m) (table_of sd (reg_tx w))")
      case True
      with later show ?thesis by (simp add: create_descriptor_def Let_def)
    next
      case False
      from put_entries_inv [OF later, of sd] table_ok_append [OF assms inv_table [OF inv] False] False
      show ?thesis by (simp add: create_descriptor_def Let_def)
    qed
  qed
  then show ?thesis by (rule keepingI)
qed

lemma keep_update [keep]:
  assumes "registry_ok E" and "body_ok m"
  shows "keeping E (update_descriptor E sd i m)"
proof -
  have "registry_inv E (fst (update_descriptor E sd i m w))" if inv: "registry_inv E w" for w
  proof (cases "entry_by_id i (table_of sd (reg_tx w))")
    case None
    with inv show ?thesis by (simp add: update_descriptor_def handlers entries_def)
  next
    case (Some r)
    have table: "table_ok E sd (reg_serial w) (table_of sd (reg_tx w))" by (rule inv_table [OF inv])
    with entry_by_idD [OF Some] have "entry_ok E sd (reg_serial w) r" by (auto simp: table_ok_def)
    from table_ok_replace [OF table changed_entry_ok [OF assms this] not_clashesD] Some put_entries_inv [OF inv, of sd] inv
    show ?thesis by (auto simp: update_descriptor_def handlers entries_def put_entries_def)
  qed
  then show ?thesis by (rule keepingI)
qed

lemma keep_delete [keep]: "keeping E (delete_descriptor sd i)"
proof -
  have "registry_inv E (fst (delete_descriptor sd i w))" if inv: "registry_inv E w" for w
    using table_ok_filter [OF inv_table [OF inv]] put_entries_inv [OF inv, of sd] inv
    by (auto simp: delete_descriptor_def handlers entries_def put_entries_def split: option.split)
  then show ?thesis by (rule keepingI)
qed

lemma valid_descriptor_ok:
  assumes "registry_ok E" and "valid_descriptor E d = Inr m"
  shows "dump_descriptor E (normalize_asset_information d) = Inr m"
    and "body_ok m"
proof -
  from assms(2) show dump: "dump_descriptor E (normalize_asset_information d) = Inr m"
    by (auto simp: valid_descriptor_def Let_def split: json.splits if_splits)
  with assms(1) show "body_ok m" by (simp add: registry_ok_def dump_ok_def)
qed

lemma keep_validated:
  "registry_ok E \<Longrightarrow> (\<And>m. body_ok m \<Longrightarrow> keeping E (f m)) \<Longrightarrow> keeping E (bindH (model_validate E d) f)"
  using valid_descriptor_ok(2) [of E d]
  by (auto simp: model_validate_def keeping_def triple_def handlers split: sum.splits)

lemma keep_rewrite [keep]: "registry_ok E \<Longrightarrow> keeping E (rewrite_descriptor E i d)"
  unfolding rewrite_descriptor_def by (rule keep_validated) (auto intro!: keep)

lemma keep_unchecked [keep]: "registry_ok E \<Longrightarrow> keeping E (rewrite_unchecked E i d)"
  unfolding rewrite_unchecked_def by (rule keep_validated) (auto intro!: keep)

lemma keep_bulk_create [keep]:
  "registry_ok E \<Longrightarrow> \<forall>m \<in> set ms. body_ok m \<Longrightarrow> keeping E (bulk_create E sd ms n)"
  by (induction E sd ms n rule: bulk_create.induct)
    (auto simp: descriptor_exists_def intro!: keep)

lemma keep_bulk_delete [keep]: "keeping E (bulk_delete sd ids n)"
  by (induction sd ids n rule: bulk_delete.induct) (auto intro!: keep)

lemma keep_search_pairs [keep]: "keeping E (search_pairs E n xs acc)"
  by (induction xs arbitrary: acc)
    (auto simp: find_by_specific_asset_id_def select_descriptors_def intro!: keep)

lemma keep_search_object [keep]: "keeping E (search_object E n v acc)"
  by (auto simp: search_object_def search_global_def find_by_global_asset_id_def select_descriptors_def
      intro!: keep split: json.split)

lemma keep_search_asset_ids [keep]: "keeping E (search_asset_ids E n as acc)"
  by (induction as arbitrary: acc) (auto intro!: keep)

lemma keep_search_links [keep]: "keeping E (search_links E n ls acc)"
  by (induction ls arbitrary: acc)
    (auto simp: find_by_global_asset_id_def find_by_specific_asset_id_def select_descriptors_def intro!: keep)

lemmas registry_steps =
  list_descriptors_def select_descriptors_def find_by_semantic_id_in_def descriptor_exists_def the_descriptor_def
  all_identifiers_def link_target_def nested_at_def

text \<open>The bodies that FastAPI has validated.\<close>

fun request_ok :: "registry_request \<Rightarrow> bool" where
  "request_ok (PostDescriptor sd m) = body_ok m"
| "request_ok (PutDescriptor sd seg m h) = body_ok m"
| "request_ok (BulkCreate sd ms) = (\<forall>m \<in> set ms. body_ok m)"
| "request_ok _ = True"

lemma keep_serve:
  assumes "registry_ok E" and "request_ok rq"
  shows "keeping E (serve_registry E rq)"
  using assms
  by (cases rq)
    (auto simp: registry_steps get_all_shell_descriptors_def get_all_submodel_descriptors_def post_descriptor_def
      get_descriptor_by_id_def put_descriptor_by_id_def delete_descriptor_by_id_def bulk_create_descriptors_def
      bulk_delete_descriptors_def get_nested_submodel_descriptors_def post_nested_submodel_descriptor_def
      get_nested_submodel_descriptor_by_id_def put_nested_submodel_descriptor_def
      delete_nested_submodel_descriptor_def lookup_shells_def lookup_submodels_def
      search_shells_by_asset_link_def get_asset_links_by_id_def post_asset_links_by_id_def
      delete_asset_links_by_id_def intro!: keep)

inductive registry_step :: "registry_env \<Rightarrow> registry_state \<Rightarrow> registry_state \<Rightarrow> bool" for E where
  "request_ok rq \<Longrightarrow> run_registry (serve_registry E rq) w = (w', r) \<Longrightarrow> registry_step E w w'"

definition empty_registry :: registry_state where
  "empty_registry =
     \<lparr>reg_db = \<lparr>shell_descriptors = [], submodel_descriptors = []\<rparr>,
      reg_tx = \<lparr>shell_descriptors = [], submodel_descriptors = []\<rparr>, reg_serial = 0\<rparr>"

lemma run_registry_inv:
  assumes "keeping E h" and "registry_inv E w" and "run_registry h w = (w', r)"
  shows "registry_inv E w'"
proof -
  let ?w = "w\<lparr>reg_tx := reg_db w\<rparr>"
  from assms(2) have "registry_inv E ?w" by (simp add: registry_inv_def)
  from keeping_fst [OF assms(1) this] have "registry_inv E (fst (h ?w))" .
  with assms(3) show ?thesis by (auto simp: run_registry_def registry_inv_def split: prod.splits)
qed

lemma empty_registry_inv: "registry_inv E empty_registry"
  unfolding registry_inv_def tables_agree_def
proof (intro conjI allI)
  fix sd show "table_ok E sd (reg_serial empty_registry) (table_of sd (reg_db empty_registry))"
    by (cases sd) (simp_all add: empty_registry_def table_ok_def)
next
  fix sd show "table_ok E sd (reg_serial empty_registry) (table_of sd (reg_tx empty_registry))"
    by (cases sd) (simp_all add: empty_registry_def table_ok_def)
qed

interpretation registry: inductive_invariant
  "\<lambda>w. w = empty_registry" "registry_step E" "\<lambda>w. registry_ok E \<longrightarrow> registry_inv E w" for E
proof unfold_locales
  show "registry_ok E \<longrightarrow> registry_inv E s" if "s = empty_registry" for s using that empty_registry_inv by simp
  show "registry_ok E \<longrightarrow> registry_inv E s'" if "registry_step E s s'" "registry_ok E \<longrightarrow> registry_inv E s" for s s'
    using that run_registry_inv [OF keep_serve] by (auto elim: registry_step.cases)
qed

lemma reachable_registry: "registry_ok E \<Longrightarrow> (registry_step E)\<^sup>*\<^sup>* empty_registry w \<Longrightarrow> registry_inv E w"
  using registry.reachable_inv by blast

section \<open>The tables as maps from identifiers to documents\<close>

definition stored :: "side \<Rightarrow> descriptors \<Rightarrow> nat list \<Rightarrow> obj option" where
  "stored sd t i = map_option entry_doc (entry_by_id i (table_of sd t))"

lemma stored_iff:
  "table_ok E sd n (table_of sd t) \<Longrightarrow>
   stored sd t i = Some d \<longleftrightarrow> (\<exists>r \<in> set (table_of sd t). entry_ident r = i \<and> entry_doc r = d)"
  unfolding stored_def using entry_by_id_mem entry_by_idD by fastforce

lemma stored_other [simp]: "sd' \<noteq> sd \<Longrightarrow> stored sd' (set_table sd es t) = stored sd' t"
  by (simp add: stored_def fun_eq_iff)

lemma option_eqI: "(\<And>d. x = Some d \<longleftrightarrow> y = Some d) \<Longrightarrow> x = y"
  by (cases x; cases y) auto

lemma mem_replace_entry:
  assumes "table_ok E sd n es" and "r \<in> set es" and "entry_id r' = entry_id r"
  shows "q \<in> set (replace_entry r' es) \<longleftrightarrow> q = r' \<or> q \<in> set es \<and> q \<noteq> r"
proof -
  have "entry_id q = entry_id r \<longleftrightarrow> q = r" if "q \<in> set es" for q
    using that assms(1,2) by (auto simp: table_ok_def distinct_map inj_on_def)
  with assms(2,3) show ?thesis by (auto simp: replace_entry_def image_iff)
qed

lemma stored_replace:
  assumes es: "table_ok E sd n (table_of sd t)" and r: "entry_by_id i (table_of sd t) = Some r"
    and r': "entry_id r' = entry_id r" and ok: "table_ok E sd n' (replace_entry r' (table_of sd t))"
  shows "stored sd (set_table sd (replace_entry r' (table_of sd t)) t) =
    (stored sd t)(i := None, entry_ident r' \<mapsto> entry_doc r')"
proof (rule ext, rule option_eqI)
  fix j d
  let ?t = "set_table sd (replace_entry r' (table_of sd t)) t"
  note mem = mem_replace_entry [OF es conjunct1 [OF entry_by_idD [OF r]] r']
  have inj: "inj_on entry_ident (set (replace_entry r' (table_of sd t)))" "inj_on entry_ident (set (table_of sd t))"
    using ok es by (simp_all add: table_ok_def distinct_map)
  have own: "q = r" if "q \<in> set (table_of sd t)" "entry_ident q = i" for q
    using that inj(2) entry_by_idD [OF r] by (auto dest: inj_onD)
  have new: "q = r'" if "q \<in> set (replace_entry r' (table_of sd t))" "entry_ident q = entry_ident r'" for q
    using that inj(1) mem by (auto dest: inj_onD)
  have "stored sd ?t j = Some d \<longleftrightarrow> (\<exists>q. (q = r' \<or> q \<in> set (table_of sd t) \<and> q \<noteq> r) \<and> entry_ident q = j \<and> entry_doc q = d)"
    using stored_iff [of E sd n' ?t j d] ok mem by auto
  also have "\<dots> \<longleftrightarrow> ((stored sd t)(i := None, entry_ident r' \<mapsto> entry_doc r')) j = Some d"
    using stored_iff [OF es, of j d] own new mem entry_by_idD [OF r] by auto
  finally show "stored sd ?t j = Some d \<longleftrightarrow> ((stored sd t)(i := None, entry_ident r' \<mapsto> entry_doc r')) j = Some d" .
qed

lemma stored_append:
  assumes es: "table_ok E sd n (table_of sd t)" and ok: "table_ok E sd n' (table_of sd t @ [r])"
  shows "stored sd (set_table sd (table_of sd t @ [r]) t) = (stored sd t)(entry_ident r \<mapsto> entry_doc r)"
proof (rule ext, rule option_eqI)
  fix j d
  have "entry_ident r \<notin> entry_ident ` set (table_of sd t)" using ok by (simp add: table_ok_def)
  then have fresh: "entry_ident q \<noteq> entry_ident r" if "q \<in> set (table_of sd t)" for q
    using that by (metis imageI)
  have "stored sd (set_table sd (table_of sd t @ [r]) t) j = Some d \<longleftrightarrow>
      (\<exists>q \<in> set (table_of sd t @ [r]). entry_ident q = j \<and> entry_doc q = d)"
    using stored_iff [of E sd n' "set_table sd (table_of sd t @ [r]) t" j d] ok by simp
  also have "\<dots> \<longleftrightarrow> ((stored sd t)(entry_ident r \<mapsto> entry_doc r)) j = Some d"
    using fresh stored_iff [OF es, of j d] by auto
  finally show "stored sd (set_table sd (table_of sd t @ [r]) t) j = Some d \<longleftrightarrow>
    ((stored sd t)(entry_ident r \<mapsto> entry_doc r)) j = Some d" .
qed

lemma stored_filter:
  assumes es: "table_ok E sd n (table_of sd t)" and r: "entry_by_id i (table_of sd t) = Some r"
  shows "stored sd (set_table sd (filter (\<lambda>q. entry_id q \<noteq> entry_id r) (table_of sd t)) t) = (stored sd t)(i := None)"
proof (rule ext, rule option_eqI)
  fix j d
  let ?es = "filter (\<lambda>q. entry_id q \<noteq> entry_id r) (table_of sd t)"
  have "entry_id q = entry_id r \<longleftrightarrow> q = r" if "q \<in> set (table_of sd t)" for q
    using that es entry_by_idD [OF r] by (auto simp: table_ok_def distinct_map inj_on_def)
  moreover have "entry_ident q = i \<longleftrightarrow> q = r" if "q \<in> set (table_of sd t)" for q
    using that es entry_by_idD [OF r] by (auto simp: table_ok_def distinct_map inj_on_def)
  ultimately show "stored sd (set_table sd ?es t) j = Some d \<longleftrightarrow> ((stored sd t)(i := None)) j = Some d"
    using stored_iff [of E sd n "set_table sd ?es t" j d] table_ok_filter [OF es] stored_iff [OF es, of j d] by auto
qed

text \<open>The operations as changes of these maps.\<close>

lemma create_stored:
  assumes "registry_ok E" and "body_ok m" and inv: "registry_inv E w"
    and run: "create_descriptor E sd m w = (w', Inr de)"
  shows "stored sd (reg_tx w') = (stored sd (reg_tx w))(id_of m \<mapsto> jsonb E m) \<and> reg_db w' = reg_db w \<and>
    de = (m, r_etag E m) \<and> (\<forall>sd'. sd' \<noteq> sd \<longrightarrow> stored sd' (reg_tx w') = stored sd' (reg_tx w))"
proof -
  let ?r = "entry_for E sd (reg_serial w) m"
  from run have free: "\<not> entry_clashes ?r (table_of sd (reg_tx w))"
    and w': "reg_tx w' = set_table sd (table_of sd (reg_tx w) @ [?r]) (reg_tx w)" "reg_db w' = reg_db w" "de = (m, r_etag E m)"
    by (auto simp: create_descriptor_def Let_def split: if_splits)
  from stored_append [OF inv_table [OF inv] table_ok_append [OF assms(1,2) inv_table [OF inv] free]] w' show ?thesis
    by (simp add: entry_for_def)
qed

lemma update_stored:
  assumes "registry_ok E" and "body_ok m" and inv: "registry_inv E w"
    and run: "update_descriptor E sd i m w = (w', Inr (Some de))"
  shows "stored sd (reg_tx w') = (stored sd (reg_tx w))(i := None, id_of m \<mapsto> jsonb E m) \<and> reg_db w' = reg_db w \<and>
    de = (m, r_etag E m) \<and> (\<forall>sd'. sd' \<noteq> sd \<longrightarrow> stored sd' (reg_tx w') = stored sd' (reg_tx w))"
proof -
  from run obtain r where r: "entry_by_id i (table_of sd (reg_tx w)) = Some r"
    and free: "\<not> entry_clashes (changed_entry E sd r m) (table_of sd (reg_tx w))"
    and w': "reg_tx w' = set_table sd (replace_entry (changed_entry E sd r m) (table_of sd (reg_tx w))) (reg_tx w)"
      "reg_db w' = reg_db w" "de = (m, r_etag E m)"
    by (auto simp: update_descriptor_def handlers entries_def put_entries_def split: option.splits if_splits)
  have "entry_ok E sd (reg_serial w) r"
    using entry_by_idD [OF r] inv_table [OF inv, of sd] by (auto simp: table_ok_def)
  from table_ok_replace [OF inv_table [OF inv] changed_entry_ok [OF assms(1,2) this] not_clashesD [OF free]]
  have ok: "table_ok E sd (reg_serial w) (replace_entry (changed_entry E sd r m) (table_of sd (reg_tx w)))" .
  from stored_replace [OF inv_table [OF inv] r _ ok] w' show ?thesis
    by (simp add: changed_entry_def)
qed

lemma delete_stored:
  assumes inv: "registry_inv E w" and run: "delete_descriptor sd i w = (w', Inr b)"
  shows "stored sd (reg_tx w') = (stored sd (reg_tx w))(i := None) \<and> reg_db w' = reg_db w \<and>
    (b \<longleftrightarrow> stored sd (reg_tx w) i \<noteq> None) \<and> (\<forall>sd'. sd' \<noteq> sd \<longrightarrow> stored sd' (reg_tx w') = stored sd' (reg_tx w))"
proof (cases "entry_by_id i (table_of sd (reg_tx w))")
  case None
  then have "stored sd (reg_tx w) i = None" by (simp add: stored_def)
  with run None show ?thesis by (auto simp: delete_descriptor_def handlers entries_def)
next
  case (Some r)
  with run have "reg_tx w' = set_table sd (filter (\<lambda>q. entry_id q \<noteq> entry_id r) (table_of sd (reg_tx w))) (reg_tx w)"
      "reg_db w' = reg_db w" b
    by (auto simp: delete_descriptor_def handlers entries_def put_entries_def)
  with stored_filter [OF inv_table [OF inv] Some] Some show ?thesis by (simp add: stored_def)
qed

lemma get_stored:
  assumes "registry_ok E" and inv: "registry_inv E w"
  shows "\<exists>w'. get_descriptor E sd i w = (w', Inr (map_option (doc_and_etag E) (stored sd (reg_tx w) i))) \<and>
    reg_db w' = reg_db w \<and> registry_inv E w' \<and> (\<forall>sd'. stored sd' (reg_tx w') = stored sd' (reg_tx w)) \<and>
    (\<forall>sd'. map entry_ident (table_of sd' (reg_tx w')) = map entry_ident (table_of sd' (reg_tx w)))"
proof (cases "entry_by_id i (table_of sd (reg_tx w))")
  case None
  with inv show ?thesis by (simp add: get_descriptor_def handlers entries_def stored_def)
next
  case (Some r)
  let ?es = "table_of sd (reg_tx w)" and ?r = "refreshed E r"
  let ?es' = "if ?r = r then ?es else replace_entry ?r ?es"
  let ?w = "w\<lparr>reg_tx := set_table sd ?es' (reg_tx w)\<rparr>"
  have run: "get_descriptor E sd i w = (?w, Inr (Some (doc_and_etag E (entry_doc r))))"
    using Some by (simp add: get_descriptor_def handlers entries_def put_entries_def)
  have inv': "registry_inv E ?w" using keeping_fst [OF keep_get inv] run by (metis fst_conv)
  have own: "q = r" if "q \<in> set ?es" "entry_id q = entry_id r" for q
    using that inv_table [OF inv, of sd] entry_by_idD [OF Some] by (auto simp: table_ok_def distinct_map inj_on_def)
  have "map entry_ident ?es' = map entry_ident ?es"
    using own by (auto simp: replace_entry_def refreshed_def)
  moreover have "stored sd (set_table sd ?es' (reg_tx w)) = stored sd (reg_tx w)"
  proof (cases "?r = r")
    case True
    then show ?thesis by (simp add: stored_def fun_eq_iff)
  next
    case False
    with inv_table [OF inv', of sd] have "table_ok E sd (reg_serial w) (replace_entry ?r ?es)" by simp
    from stored_replace [OF inv_table [OF inv] Some _ this] False entry_by_idD [OF Some] Some show ?thesis
      by (auto simp: refreshed_def stored_def fun_eq_iff)
  qed
  ultimately show ?thesis using run inv' Some
    by (intro exI [of _ ?w]) (auto simp: stored_def fun_eq_iff)
qed

section \<open>An instance\<close>

text \<open>
  Keys in JSONB are ordered by their length, as PostgreSQL orders them; the ETag is made of the keys,
  so that it depends on their order, and searches return the latest row first.
\<close>

definition sample_registry :: registry_env where
  "sample_registry =
     \<lparr>r_etag = \<lambda>d. filter (\<lambda>c. c \<noteq> quote) (concat (map fst d)),
      jsonb = sort_key (\<lambda>kv. length (fst kv)),
      dump_descriptor = \<lambda>d. if body_ok d then Inr d else Inl [],
      r_uuid = \<lambda>n. replicate n (CHR ''u''), r_stamp = int, r_scan = rev, json_loads = \<lambda>_. None\<rparr>"

lemma filter_same_key: "filter (\<lambda>kv. fst kv = k) xs = filter (\<lambda>kv. fst kv = k) (filter (\<lambda>kv. f (fst kv) = f k) xs)"
  by (induction xs) auto

lemma map_of_filter_key: "map_of (filter (\<lambda>kv. fst kv = k) xs) k = map_of xs k"
  by (induction xs) auto

lemma map_of_sort: "map_of (sort_key (\<lambda>kv. f (fst kv)) d) k = map_of d k"
proof -
  have "filter (\<lambda>kv. fst kv = k) (sort_key (\<lambda>kv. f (fst kv)) d) = filter (\<lambda>kv. fst kv = k) d"
    by (subst (1 2) filter_same_key [of _ _ f]) (simp only: sort_key_stable)
  then show ?thesis by (metis map_of_filter_key)
qed

lemma sample_registry_ok: "registry_ok sample_registry"
  unfolding registry_ok_def
proof (intro conjI allI)
  show "inj (r_uuid sample_registry)"
    by (auto simp: sample_registry_def inj_on_def)
  show "same_json (JDict d) (JDict (jsonb sample_registry d))" for d
    by (rule same_dict) (simp_all add: sample_registry_def dhas_def dget_def map_of_sort same_json_refl)
  show "mset (r_scan sample_registry es) = mset es" for es by (simp add: sample_registry_def)
  show "dump_ok (dump_descriptor sample_registry)"
    by (auto simp: dump_ok_def sample_registry_def keeps_links_def split: if_splits)
qed

text \<open>Runs from the empty registry: a shell of an asset, then its links replaced.\<close>

definition serve_each :: "registry_env \<Rightarrow> registry_request list \<Rightarrow> registry_state \<Rightarrow> registry_state" where
  "serve_each E rqs w = fold (\<lambda>rq w. fst (run_registry (serve_registry E rq) w)) rqs w"

lemma serve_each_steps: "list_all request_ok rqs \<Longrightarrow> (registry_step E)\<^sup>*\<^sup>* w (serve_each E rqs w)"
proof (induction rqs arbitrary: w)
  case (Cons rq rqs)
  obtain w' r where run: "run_registry (serve_registry E rq) w = (w', r)" by (cases "run_registry (serve_registry E rq) w")
  with Cons.prems have "registry_step E w w'" by (auto intro: registry_step.intros)
  moreover have "(registry_step E)\<^sup>*\<^sup>* w' (serve_each E rqs w')" using Cons by simp
  ultimately show ?case using run by (simp add: serve_each_def)
qed (simp add: serve_each_def)

definition asset_shell :: obj where
  "asset_shell =
     [(''id'', JStr ''A''),
      (''assetInformation'', JDict [(''assetKind'', JStr ''Instance''), (''globalAssetId'', JStr ''g'')]),
      (''assetKind'', JStr ''Instance''), (''globalAssetId'', JStr ''g'')]"

definition sample_links :: "asset_link list" where
  "sample_links =
     [\<lparr>link_name = ''globalAssetId'', link_value = ''g2''\<rparr>, \<lparr>link_name = ''serial'', link_value = ''1''\<rparr>]"

definition one_shell :: registry_state where
  "one_shell = serve_each sample_registry [PostDescriptor ShellSide asset_shell] empty_registry"

definition linked_shell :: registry_state where
  "linked_shell = serve_each sample_registry
     [PostDescriptor ShellSide asset_shell, PostLinks ''QQ'' sample_links] empty_registry"

lemma asset_shell_ok: "body_ok asset_shell"
  by code_simp

lemma one_shell_steps: "(registry_step sample_registry)\<^sup>*\<^sup>* empty_registry one_shell"
  unfolding one_shell_def by (rule serve_each_steps) (simp add: asset_shell_ok)

lemma linked_shell_steps: "(registry_step sample_registry)\<^sup>*\<^sup>* empty_registry linked_shell"
  unfolding linked_shell_def by (rule serve_each_steps) (simp add: asset_shell_ok)

lemma decode_QQ: "decode_id_from_b64url ''QQ'' = Inr [65]"
  by code_simp

end
