(* ===== verification/RegistrySpec.thy ===== *)
theory RegistrySpec
  imports RegistryState
begin

text \<open>
  What holds of the registry for its clients: searches are exact, links that were posted are found,
  links that were deleted are not, several descriptors are written all or none, and the ETag that a
  client gets from writing is not the one the server compares with.
\<close>

section \<open>Searches\<close>

definition doc_linked :: "asset_link \<Rightarrow> obj \<Rightarrow> bool" where
  "doc_linked l d =
     (if link_name l = global_name then dget d ''globalAssetId'' = JStr (link_value l)
      else contains_pair (JStr (link_name l)) (JStr (link_value l)) d)"

lemma add_found_simps [simp]:
  "add_found [] acc = acc"
  "add_found (p # ds) acc =
     add_found ds (if id_of (fst p) \<noteq> [] \<and> id_of (fst p) \<notin> set acc then acc @ [id_of (fst p)] else acc)"
  by (simp_all add: add_found_def case_prod_beta)

lemma add_found_set: "set (add_found ds acc) = set acc \<union> ((id_of \<circ> fst) ` set ds - {[]})"
proof (induction ds arbitrary: acc)
  case (Cons p ds)
  show ?case
    by (cases "id_of (fst p) \<noteq> [] \<and> id_of (fst p) \<notin> set acc") (auto simp only: add_found_simps Cons.IH if_True if_False
      set_append list.set image_insert comp_apply simp_thms)
qed simp

lemma add_found_distinct: "distinct acc \<Longrightarrow> distinct (add_found ds acc)"
  by (induction ds arbitrary: acc) simp_all

lemma select_all:
  assumes "registry_ok E" and "length (table_of sd (reg_tx w)) \<le> limit"
  shows "\<exists>ds. select_descriptors E sd P limit w = (w, Inr ds) \<and> fst ` set ds = entry_doc ` {r \<in> set (table_of sd (reg_tx w)). P r}"
proof -
  let ?sel = "r_scan E (filter P (table_of sd (reg_tx w)))"
  have "length ?sel \<le> limit"
    using assms le_trans [OF length_filter_le [of P "table_of sd (reg_tx w)"]] by simp
  with assms(1) show ?thesis
    by (auto simp: select_descriptors_def handlers entries_def doc_and_etag_def image_image)
qed

lemma search_links_run:
  assumes "registry_ok E" and inv: "registry_inv E w" and "length (shell_descriptors (reg_tx w)) \<le> limit"
  shows "\<exists>ids. search_links E limit ls acc w = (w, Inr ids) \<and> (distinct acc \<longrightarrow> distinct ids) \<and>
    set ids = set acc \<union> {i. \<exists>d. stored ShellSide (reg_tx w) i = Some d \<and> (\<exists>l \<in> set ls. doc_linked l d)}"
proof (induction ls arbitrary: acc)
  case (Cons l ls)
  let ?es = "shell_descriptors (reg_tx w)"
  let ?P = "\<lambda>r. if link_name l = global_name then entry_key r = JStr (link_value l)
             else contains_pair (JStr (link_name l)) (JStr (link_value l)) (entry_doc r)"
  have table: "table_ok E ShellSide (reg_serial w) (table_of ShellSide (reg_tx w))" by (rule inv_table [OF inv])
  from select_all [OF assms(1), of ShellSide w limit ?P] assms(3) obtain ds where
    ds: "select_descriptors E ShellSide ?P limit w = (w, Inr ds)" "fst ` set ds = entry_doc ` {r \<in> set ?es. ?P r}"
    by auto
  have found: "(id_of \<circ> fst) ` set ds - {[]} = {i. \<exists>d. stored ShellSide (reg_tx w) i = Some d \<and> doc_linked l d}"
  proof -
    have row: "?P r = doc_linked l (entry_doc r) \<and> id_of (entry_doc r) = entry_ident r" if "r \<in> set ?es" for r
    proof -
      from that table have "entry_ok E ShellSide (reg_serial w) r" by (simp add: table_ok_def)
      then have "entry_key r = dget (entry_doc r) ''globalAssetId''" "id_of (entry_doc r) = entry_ident r"
        by (simp_all add: entry_ok_def)
      then show ?thesis by (simp add: doc_linked_def)
    qed
    have "(id_of \<circ> fst) ` set ds = (id_of \<circ> entry_doc) ` {r \<in> set ?es. ?P r}"
      by (simp only: image_comp [symmetric] ds(2))
    also have "\<dots> = entry_ident ` {r \<in> set ?es. doc_linked l (entry_doc r)}"
    proof (rule image_cong)
      show "{r \<in> set ?es. ?P r} = {r \<in> set ?es. doc_linked l (entry_doc r)}"
        by (rule Collect_cong) (metis row)
    qed (simp add: row)
    also have "\<dots> = {i. \<exists>d. stored ShellSide (reg_tx w) i = Some d \<and> doc_linked l d}"
      unfolding stored_iff [OF table] by auto
    finally have all: "(id_of \<circ> fst) ` set ds = {i. \<exists>d. stored ShellSide (reg_tx w) i = Some d \<and> doc_linked l d}" .
    have "stored ShellSide (reg_tx w) [] = None"
    proof (rule ccontr)
      assume "stored ShellSide (reg_tx w) [] \<noteq> None"
      with stored_iff [OF table, of "[]"] obtain r where "r \<in> set ?es" "entry_ident r = []" by auto
      with table show False by (auto simp: table_ok_def entry_ok_def)
    qed
    with all show ?thesis by auto
  qed
  have run: "search_links E limit (l # ls) acc w = search_links E limit ls (add_found ds acc) w"
    using ds(1) by (cases "link_name l = global_name")
      (simp_all add: handlers find_by_global_asset_id_def find_by_specific_asset_id_def)
  from Cons.IH [of "add_found ds acc"] obtain ids where
    ids: "search_links E limit ls (add_found ds acc) w = (w, Inr ids)" "distinct (add_found ds acc) \<longrightarrow> distinct ids"
      "set ids = set (add_found ds acc) \<union>
        {i. \<exists>d. stored ShellSide (reg_tx w) i = Some d \<and> (\<exists>l \<in> set ls. doc_linked l d)}" by blast
  have "set ids = set acc \<union> {i. \<exists>d. stored ShellSide (reg_tx w) i = Some d \<and> (\<exists>l \<in> set (l # ls). doc_linked l d)}"
    unfolding ids(3) add_found_set found by auto
  with run ids(1,2) add_found_distinct [of acc ds] show ?case by auto
qed (simp add: handlers)

lemma run_search:
  assumes "registry_ok E" and "registry_inv E w" and "length (shell_descriptors (reg_db w)) \<le> limit"
  shows "\<exists>ids. snd (run_registry (serve_registry E (SearchByLink ls limit)) w) = Inr (found_ids ids) \<and> distinct ids \<and>
    set ids = {i. \<exists>d. stored ShellSide (reg_db w) i = Some d \<and> (\<exists>l \<in> set ls. doc_linked l d)}"
proof -
  let ?w = "w\<lparr>reg_tx := reg_db w\<rparr>"
  have "registry_inv E ?w" using assms(2) by (simp add: registry_inv_def)
  from search_links_run [OF assms(1) this, of limit ls "[]"] assms(3) obtain ids where
    "search_links E limit ls [] ?w = (?w, Inr ids)" "distinct ids"
    "set ids = {i. \<exists>d. stored ShellSide (reg_db w) i = Some d \<and> (\<exists>l \<in> set ls. doc_linked l d)}" by auto
  then show ?thesis by (auto simp: run_registry_def search_shells_by_asset_link_def handlers)
qed

text \<open>
  C13. A search by asset links is exact: in every state the registry can reach, and whatever the order
  in which the database returns its rows, a search whose limit does not cut it off returns the
  identifiers of just those shell descriptors whose document carries one of the links, each once.
\<close>

theorem search_exact:
  assumes "registry_ok E" and "(registry_step E)\<^sup>*\<^sup>* empty_registry w"
    and "length (shell_descriptors (reg_db w)) \<le> limit"
  shows "\<exists>ids. snd (run_registry (serve_registry E (SearchByLink ls limit)) w) = Inr (found_ids ids) \<and> distinct ids \<and>
    set ids = {i. \<exists>d. stored ShellSide (reg_db w) i = Some d \<and> (\<exists>l \<in> set ls. doc_linked l d)}"
  by (rule run_search [OF assms(1) reachable_registry [OF assms(1,2)] assms(3)])

theorem search_exact_witness:
  "\<exists>ids. snd (run_registry (serve_registry sample_registry (SearchByLink sample_links 5)) linked_shell) = Inr (found_ids ids) \<and>
    distinct ids \<and> set ids = {i. \<exists>d. stored ShellSide (reg_db linked_shell) i = Some d \<and> (\<exists>l \<in> set sample_links. doc_linked l d)}"
proof -
  have "length (shell_descriptors (reg_db linked_shell)) \<le> 5" by code_simp
  from search_exact [OF sample_registry_ok linked_shell_steps this] show ?thesis .
qed

section \<open>The links of a shell\<close>

text \<open>What is left of a list of links: the last global one first, then the others.\<close>

definition kept_links :: "asset_link list \<Rightarrow> asset_link list" where
  "kept_links ls =
     (case filter (\<lambda>l. link_name l = global_name) ls of [] \<Rightarrow> [] | g # gs \<Rightarrow> [last (g # gs)]) @
     filter (\<lambda>l. link_name l \<noteq> global_name) ls"

definition link_ok :: "asset_link \<Rightarrow> bool" where
  "link_ok l = (link_name l \<noteq> [] \<and> link_value l \<noteq> [])"

text \<open>A stored document that carries these links, at the top and in its asset information if it has one.\<close>

definition carries :: "asset_link list \<Rightarrow> obj \<Rightarrow> bool" where
  "carries ls d =
     (dget d ''globalAssetId'' = global_link ls \<and> dget d ''specificAssetIds'' = JList (specific_links ls))"

lemma copy_field_get [simp]: "dhas d k' \<Longrightarrow> dget (copy_field a k d) k' = dget d k' \<and> dhas (copy_field a k d) k'"
  by (auto simp: copy_field_def)

lemma copy_field_other [simp]: "k' \<noteq> k \<Longrightarrow> dget (copy_field a k d) k' = dget d k'"
  by (auto simp: copy_field_def)

lemma fold_copy_other: "k' \<notin> set ks \<Longrightarrow> dget (fold (copy_field a) ks d) k' = dget d k'"
  by (induction ks arbitrary: d) simp_all

lemma fold_copy_has: "dhas d k' \<Longrightarrow> dget (fold (copy_field a) ks d) k' = dget d k'"
  by (induction ks arbitrary: d) simp_all

lemma normalize_keeps:
  "dhas d k \<or> k \<notin> set copied_fields \<Longrightarrow> dget (normalize_asset_information d) k = dget d k"
  by (auto simp: normalize_asset_information_def fold_copy_other fold_copy_has split: json.split)

lemma normalize_info: "dget (normalize_asset_information d) ''assetInformation'' = dget d ''assetInformation''"
  by (rule normalize_keeps) (simp add: copied_fields_def)

lemma id_of_normalize: "id_of (normalize_asset_information d) = id_of d"
  by (simp add: id_of_def normalize_keeps copied_fields_def)

lemma carries_dump:
  assumes "keeps_links d m" and "carries ls d"
  shows "carries ls m"
  using assms unfolding keeps_links_def carries_def specific_links_def by metis

text \<open>The keys of the JSON of a link come back in any order.\<close>

definition reads_as :: "asset_link list \<Rightarrow> obj \<Rightarrow> bool" where
  "reads_as ls d =
     (dget d ''globalAssetId'' = global_link ls \<and>
      (\<exists>xs. dget d ''specificAssetIds'' = JList xs \<and> list_all2 same_json (specific_links ls) xs))"

lemma carries_jsonb:
  assumes "same_json (JDict d) (JDict d')" and "carries ls d"
  shows "reads_as ls d'"
proof -
  have "same_json (global_link ls) (dget d' ''globalAssetId'')"
    "same_json (JList (specific_links ls)) (dget d' ''specificAssetIds'')"
    using same_dget [OF assms(1)] assms(2) by (metis carries_def)+
  then show ?thesis by (auto simp: reads_as_def global_link_def split: list.splits)
qed

lemma same_link:
  assumes "same_json (link_json (JStr n) (JStr v)) x"
  obtains s where "x = JDict s" and "dget s ''name'' = JStr n" and "dget s ''value'' = JStr v"
proof -
  let ?d = "[(''name'', JStr n), (''value'', JStr v)]"
  from assms same_dict_is obtain s where s: "x = JDict s" "same_json (JDict ?d) (JDict s)"
    unfolding link_json_def by blast
  from same_dget_str [OF s(2), of "''name''" n] same_dget_str [OF s(2), of "''value''" v] that [OF s(1)]
  show ?thesis by (simp add: dget_def)
qed

lemma pair_links:
  assumes "list_all2 same_json (map link_to_json ls) xs" and "\<forall>l \<in> set ls. link_ok l"
  shows "concatE pair_link xs = Inr (map link_to_json ls)"
  using assms
proof (induction ls arbitrary: xs)
  case (Cons l ls)
  then obtain x xs' where xs: "xs = x # xs'" "same_json (link_to_json l) x" "list_all2 same_json (map link_to_json ls) xs'"
    by (auto simp: list_all2_Cons1)
  from xs(2) obtain s where "x = JDict s" "dget s ''name'' = JStr (link_name l)" "dget s ''value'' = JStr (link_value l)"
    unfolding link_to_json_def by (rule same_link)
  with xs(1) Cons.IH [OF xs(3)] Cons.prems(2) show ?case
    by (simp add: pair_link_def pair_of_def link_ok_def link_to_json_def)
qed simp

lemma contains_link:
  assumes "list_all2 same_json (map link_to_json ls) xs" and "l \<in> set ls"
  shows "list_ex (names_pair (JStr (link_name l)) (JStr (link_value l))) xs"
  using assms
proof (induction ls arbitrary: xs)
  case (Cons k ls)
  then obtain x xs' where xs: "xs = x # xs'" "same_json (link_to_json k) x" "list_all2 same_json (map link_to_json ls) xs'"
    by (auto simp: list_all2_Cons1)
  from xs(2) obtain s where "x = JDict s" "dget s ''name'' = JStr (link_name k)" "dget s ''value'' = JStr (link_value k)"
    unfolding link_to_json_def by (rule same_link)
  with xs(1) Cons.IH [OF xs(3)] Cons.prems(2) show ?case by (auto simp: names_pair_def)
qed simp

lemma reads_as_links:
  assumes "reads_as ls d" and "reads_as ls (info_or_empty d)" and "\<forall>l \<in> set ls. link_ok l"
  shows "links_of d = Inr (map link_to_json (kept_links ls))"
proof -
  let ?sp = "filter (\<lambda>l. link_name l \<noteq> global_name) ls"
  from assms(1,2) obtain xs ys where xs: "dget d ''specificAssetIds'' = JList xs"
      "list_all2 same_json (map link_to_json ?sp) xs"
    and ys: "dget (info_or_empty d) ''specificAssetIds'' = JList ys" "list_all2 same_json (map link_to_json ?sp) ys"
    by (auto simp: reads_as_def specific_links_def)
  have links: "concatE pair_link xs = Inr (map link_to_json ?sp)" "concatE pair_link ys = Inr (map link_to_json ?sp)"
    using pair_links [OF xs(2)] pair_links [OF ys(2)] assms(3) by simp_all
  have len: "length xs = length ?sp" "length ys = length ?sp"
    using xs(2) ys(2) by (simp_all add: list_all2_lengthD [symmetric])
  have empty: "ys = [] \<longleftrightarrow> xs = []" "xs = [] \<longleftrightarrow> ?sp = []" using len by (metis length_0_conv)+
  have specific: "bindE (py_iter (or_else (or_else (JList ys) (JList xs)) (JList []))) (concatE pair_link) =
      Inr (map link_to_json ?sp)"
    using links empty by (auto simp: or_else_def)
  have global: "(if truthy (or_else (global_link ls) (global_link ls))
      then [link_json (JStr global_name) (or_else (global_link ls) (global_link ls))] else []) =
      map link_to_json (case filter (\<lambda>l. link_name l = global_name) ls of [] \<Rightarrow> [] | g # gs \<Rightarrow> [last (g # gs)])"
  proof (cases "filter (\<lambda>l. link_name l = global_name) ls")
    case Nil
    then show ?thesis by (simp add: global_link_def or_else_def)
  next
    case (Cons g gs)
    have "last (g # gs) \<in> set (g # gs)" by (rule last_in_set) simp
    then have "link_name (last (g # gs)) = global_name" "link_ok (last (g # gs))"
      unfolding Cons [symmetric] using assms(3) by auto
    with Cons show ?thesis by (simp add: global_link_def or_else_def link_ok_def link_to_json_def)
  qed
  from assms(1,2) have g: "dget d ''globalAssetId'' = global_link ls" "dget (info_or_empty d) ''globalAssetId'' = global_link ls"
    by (simp_all add: reads_as_def)
  show ?thesis
    unfolding links_of_def Let_def g xs(1) ys(1)
    using specific global by (auto simp: kept_links_def errs)
qed

lemma stored_id:
  assumes "registry_inv E w" and "stored sd (reg_tx w) i = Some d"
  shows "id_of d = i"
  using stored_iff [OF inv_table [OF assms(1), of sd], of i d] assms(2) inv_table [OF assms(1), of sd]
  by (auto simp: table_ok_def entry_ok_def)

text \<open>Changing the stored document of a shell descriptor by a function \<open>f\<close>.\<close>

definition rewriting :: "registry_env \<Rightarrow> string \<Rightarrow> (obj \<Rightarrow> obj) \<Rightarrow> response \<Rightarrow> response reg" where
  "rewriting E seg f r = bindH (link_target E seg) (\<lambda>(i, d). bindH (rewrite_unchecked E i (f d)) (\<lambda>_. retH r))"

lemma run_link_target:
  assumes "registry_ok E" and "registry_inv E w" and "decode_id_from_b64url seg = Inr i"
  shows "\<exists>w1. link_target E seg w =
      (w1, case stored ShellSide (reg_tx w) i of None \<Rightarrow> Inl (missing ShellSide i) | Some d \<Rightarrow> Inr (i, d)) \<and>
    reg_db w1 = reg_db w \<and> registry_inv E w1 \<and> (\<forall>sd'. stored sd' (reg_tx w1) = stored sd' (reg_tx w))"
proof -
  from get_stored [OF assms(1,2), of ShellSide i] obtain w1 where
    get: "get_descriptor E ShellSide i w = (w1, Inr (map_option (doc_and_etag E) (stored ShellSide (reg_tx w) i)))"
      "reg_db w1 = reg_db w" "registry_inv E w1" "\<forall>sd'. stored sd' (reg_tx w1) = stored sd' (reg_tx w)" by blast
  from get(1) assms(3) have "link_target E seg w =
      (w1, case stored ShellSide (reg_tx w) i of None \<Rightarrow> Inl (missing ShellSide i) | Some d \<Rightarrow> Inr (i, d))"
    by (cases "stored ShellSide (reg_tx w) i")
      (simp_all add: link_target_def the_descriptor_def decode_identifier_def handlers doc_and_etag_def)
  with get(2-4) show ?thesis by blast
qed

lemma run_rewriting:
  assumes E: "registry_ok E" and "registry_inv E w" and i: "decode_id_from_b64url seg = Inr i"
    and run: "run_registry (rewriting E seg f r0) w = (w', r)"
  shows "case stored ShellSide (reg_db w) i of
      None \<Rightarrow> r = Inl (missing ShellSide i) \<and> reg_db w' = reg_db w
    | Some d \<Rightarrow> (case valid_descriptor E (f d) of
        Inl _ \<Rightarrow> r = Inl (Unhandled (Python ValueError)) \<and> reg_db w' = reg_db w
      | Inr m \<Rightarrow> r = Inr r0 \<longrightarrow> stored ShellSide (reg_db w') =
          (stored ShellSide (reg_db w))(i := None, id_of m \<mapsto> jsonb E m))"
proof -
  let ?w = "w\<lparr>reg_tx := reg_db w\<rparr>"
  have inv: "registry_inv E ?w" using assms(2) by (simp add: registry_inv_def)
  from run_link_target [OF E inv i] obtain w1 where
    w1: "link_target E seg ?w =
      (w1, case stored ShellSide (reg_db w) i of None \<Rightarrow> Inl (missing ShellSide i) | Some d \<Rightarrow> Inr (i, d))"
    "reg_db w1 = reg_db w" "registry_inv E w1" "\<forall>sd'. stored sd' (reg_tx w1) = stored sd' (reg_db w)"
    by auto
  show ?thesis
  proof (cases "stored ShellSide (reg_db w) i")
    case None
    with w1 run show ?thesis by (auto simp: run_registry_def rewriting_def handlers)
  next
    case (Some d)
    show ?thesis
    proof (cases "valid_descriptor E (f d)")
      case (Inl e)
      with Some w1 run show ?thesis
        by (auto simp: run_registry_def rewriting_def rewrite_unchecked_def model_validate_def handlers)
    next
      case (Inr m)
      have m: "body_ok m" by (rule valid_descriptor_ok [OF E Inr])
      show ?thesis
      proof (cases "update_descriptor E ShellSide i m w1")
        case (Pair w2 u)
        show ?thesis
        proof (cases u)
          case (Inl e)
          with Pair Inr Some w1 run show ?thesis
            by (auto simp: run_registry_def rewriting_def rewrite_unchecked_def model_validate_def handlers)
        next
          case u: (Inr o')
          have "o' \<noteq> None"
          proof
            assume "o' = None"
            with Pair u have "entry_by_id i (table_of ShellSide (reg_tx w1)) = None"
              by (auto simp: update_descriptor_def handlers entries_def put_entries_def split: option.splits if_splits)
            moreover from w1(4) Some have "stored ShellSide (reg_tx w1) i = Some d" by simp
            ultimately show False by (simp add: stored_def)
          qed
          with u Pair obtain de where upd: "update_descriptor E ShellSide i m w1 = (w2, Inr (Some de))" by auto
          from update_stored [OF E m w1(3) upd] w1 Some Inr upd run show ?thesis
            by (auto simp: run_registry_def rewriting_def rewrite_unchecked_def model_validate_def reg_commit_def handlers)
        qed
      qed
    qed
  qed
qed

lemma post_links_rewriting:
  "post_asset_links_by_id E seg ls =
   rewriting E seg (set_links ls) ((json_response (JList (map link_to_json ls)))\<lparr>http_status := 201\<rparr>)"
  by (simp add: post_asset_links_by_id_def rewriting_def)

lemma delete_links_rewriting: "delete_asset_links_by_id E seg = rewriting E seg drop_links response_204"
  by (simp add: delete_asset_links_by_id_def rewriting_def)

lemma dumpD:
  assumes "registry_ok E" and "dump_descriptor E d = Inr m"
  shows "id_of m = id_of d" and "keeps_links d m"
    and "dget d ''assetInformation'' = JNull \<Longrightarrow> dget m ''assetInformation'' = JNull"
    and "dget d ''assetInformation'' = JDict a \<Longrightarrow> \<exists>a'. dget m ''assetInformation'' = JDict a' \<and> keeps_links a a'"
  using assms unfolding registry_ok_def dump_ok_def by blast+

text \<open>The documents that the two requests leave.\<close>

lemma set_links_doc:
  assumes "registry_ok E" and "valid_descriptor E (set_links ls d) = Inr m"
  shows "id_of m = id_of d \<and> reads_as ls (jsonb E m) \<and> reads_as ls (info_or_empty (jsonb E m)) \<and>
    asset_information_ok (dset ''specificAssetIds'' (JList (specific_links ls))
      (dset ''globalAssetId'' (global_link ls) (info_or_empty d)))"
proof -
  let ?d = "set_links ls d" and ?n = "normalize_asset_information (set_links ls d)"
  let ?a = "dset ''specificAssetIds'' (JList (specific_links ls)) (dset ''globalAssetId'' (global_link ls) (info_or_empty d))"
  have info: "dget ?d ''assetInformation'' = JDict ?a"
  proof -
    have empty: "info_or_empty (dset ''assetInformation'' (JDict []) d) = info_or_empty d" if "\<not> dhas d ''assetInformation''"
      using that by (simp add: info_or_empty_def dhas_def dget_def)
    then show ?thesis by (simp add: set_links_def Let_def)
  qed
  have other: "dget ?d k = (if k = ''globalAssetId'' then global_link ls
      else if k = ''specificAssetIds'' then JList (specific_links ls) else dget d k)" if "k \<noteq> ''assetInformation''" for k
    using that by (simp add: set_links_def Let_def)
  have has: "dhas ?d ''globalAssetId''" "dhas ?d ''specificAssetIds''" by (simp_all add: set_links_def Let_def)
  note dump = valid_descriptor_ok(1) [OF assms]
  have "carries ls ?n" using has normalize_keeps [of ?d] by (simp add: carries_def other)
  moreover have "dget ?n ''assetInformation'' = JDict ?a" by (simp only: normalize_info info)
  moreover from dumpD(4) [OF assms(1) dump this] obtain a' where
    "dget m ''assetInformation'' = JDict a'" "keeps_links ?a a'" by blast
  ultimately have m: "id_of m = id_of ?n" "keeps_links ?n m" "carries ls ?n"
      "dget m ''assetInformation'' = JDict a'" "keeps_links ?a a'"
    using dumpD(1,2) [OF assms(1) dump] by blast+
  have "carries ls ?a" by (simp add: carries_def)
  from carries_dump [OF m(5) this] have a': "carries ls a'" .
  from same_dget_dict [OF jsonb_same [OF assms(1)] m(4)] obtain a'' where
    a'': "dget (jsonb E m) ''assetInformation'' = JDict a''" "same_json (JDict a') (JDict a'')" by blast
  have "asset_information_ok ?a"
    using assms(2) by (auto simp: valid_descriptor_def Let_def normalize_info info split: if_splits)
  moreover have "id_of ?n = id_of d" by (simp add: id_of_normalize) (simp add: id_of_def other)
  ultimately show ?thesis
    using m(1) carries_jsonb [OF jsonb_same [OF assms(1)] carries_dump [OF m(2,3)]] carries_jsonb [OF a''(2) a'] a''(1)
    by (simp add: info_or_empty_def)
qed

lemma drop_links_doc:
  assumes "registry_ok E" and "valid_descriptor E (drop_links d) = Inr m"
  shows "id_of m = id_of d \<and> links_of (jsonb E m) = Inr [] \<and> (\<forall>l. \<not> doc_linked l (jsonb E m))"
proof -
  let ?d = "drop_links d"
  have info: "dget ?d ''assetInformation'' = JNull" by (simp add: drop_links_def Let_def)
  have norm: "normalize_asset_information ?d = ?d" by (simp add: normalize_asset_information_def info)
  have copies: "dget (copy_field a k d') k' = dget d' k'" if "dhas d' k'" for a k d' k'
    using that by simp
  have fields: "dget ?d ''globalAssetId'' = JNull" "dget ?d ''specificAssetIds'' = JList []" "id_of ?d = id_of d"
    by (auto simp: drop_links_def Let_def id_of_def split: json.split)
  note dump = valid_descriptor_ok(1) [OF assms, unfolded norm]
  have "dget m ''globalAssetId'' = JNull" "dget m ''specificAssetIds'' = JList []"
    using dumpD(2) [OF assms(1) dump] fields unfolding keeps_links_def by auto
  with dumpD(3) [OF assms(1) dump info] have
    "dget (jsonb E m) ''globalAssetId'' = JNull" "dget (jsonb E m) ''assetInformation'' = JNull"
    "dget (jsonb E m) ''specificAssetIds'' = JList []"
    using same_dget [OF jsonb_same [OF assms(1), of m], of "''specificAssetIds''"]
      same_dget_null [OF jsonb_same [OF assms(1)]] by auto
  then show ?thesis
    using dumpD(1) [OF assms(1) dump] fields(3)
    by (simp add: links_of_def Let_def info_or_empty_def or_else_def doc_linked_def contains_pair_def dget_def)
qed

lemma reads_as_linked:
  assumes "reads_as ls d" and "l \<in> set (kept_links ls)"
  shows "doc_linked l d"
proof (cases "link_name l = global_name")
  case True
  then have "l \<notin> set (filter (\<lambda>l. link_name l \<noteq> global_name) ls)" by simp
  with assms(2) have "global_link ls = JStr (link_value l)"
    by (auto simp: kept_links_def global_link_def split: list.splits)
  with assms(1) True show ?thesis by (simp add: doc_linked_def reads_as_def)
next
  case False
  have "link_name (last (g # gs)) = global_name" if "filter (\<lambda>l. link_name l = global_name) ls = g # gs" for g gs
  proof -
    have "last (g # gs) \<in> set (g # gs)" by (rule last_in_set) simp
    then show ?thesis unfolding that [symmetric] by simp
  qed
  with assms(2) False have "l \<in> set (filter (\<lambda>l. link_name l \<noteq> global_name) ls)"
    by (auto simp: kept_links_def split: list.splits)
  with assms(1) False contains_link show ?thesis
    by (auto simp: doc_linked_def reads_as_def specific_links_def contains_pair_def)
qed

lemma run_get_links:
  assumes "registry_ok E" and "registry_inv E w" and "decode_id_from_b64url seg = Inr i"
    and "stored ShellSide (reg_db w) i = Some d" and "links_of d = Inr ls"
  shows "snd (run_registry (serve_registry E (GetLinks seg)) w) = Inr (json_response (JList ls))"
proof -
  have "registry_inv E (w\<lparr>reg_tx := reg_db w\<rparr>)" using assms(2) by (simp add: registry_inv_def)
  from run_link_target [OF assms(1) this assms(3)] assms(4,5) show ?thesis
    by (auto simp: run_registry_def get_asset_links_by_id_def handlers)
qed

text \<open>
  Links that were posted are found: after the links of a shell were replaced, reading them returns
  them, the last global asset id first, and a search by any one of them finds the shell.
\<close>

lemma posted_links_found:
  assumes "registry_ok E" and "(registry_step E)\<^sup>*\<^sup>* empty_registry w"
    and "decode_id_from_b64url seg = Inr i" and "\<forall>l \<in> set ls. link_ok l"
    and "run_registry (serve_registry E (PostLinks seg ls)) w = (w', Inr r)"
  shows "snd (run_registry (serve_registry E (GetLinks seg)) w') =
      Inr (json_response (JList (map link_to_json (kept_links ls)))) \<and>
    (\<forall>l \<in> set (kept_links ls). \<forall>limit \<ge> length (shell_descriptors (reg_db w')).
      \<exists>ids. snd (run_registry (serve_registry E (SearchByLink [l] limit)) w') = Inr (found_ids ids) \<and> i \<in> set ids)"
proof -
  have inv: "registry_inv E w" by (rule reachable_registry [OF assms(1,2)])
  have inv': "registry_inv E w'" by (rule run_registry_inv [OF keep_serve inv assms(5)]) (use assms(1) in simp_all)
  have run: "run_registry (rewriting E seg (set_links ls) ((json_response (JList (map link_to_json ls)))\<lparr>http_status := 201\<rparr>)) w = (w', Inr r)"
    using assms(5) by (simp add: post_links_rewriting)
  have r: "r = (json_response (JList (map link_to_json ls)))\<lparr>http_status := 201\<rparr>"
    using run by (auto simp: run_registry_def rewriting_def handlers split: prod.splits sum.splits)
  from run_rewriting [OF assms(1) inv assms(3) run] obtain d m where
    d: "stored ShellSide (reg_db w) i = Some d" and m: "valid_descriptor E (set_links ls d) = Inr m"
    and new: "stored ShellSide (reg_db w') = (stored ShellSide (reg_db w))(i := None, id_of m \<mapsto> jsonb E m)"
    using r by (auto split: option.splits sum.splits)
  note doc = set_links_doc [OF assms(1) m]
  have "id_of m = i" using doc stored_id [of E "w\<lparr>reg_tx := reg_db w\<rparr>" ShellSide i d] inv d by (simp add: registry_inv_def)
  with new have stored: "stored ShellSide (reg_db w') i = Some (jsonb E m)" by simp
  from doc assms(4) have links: "links_of (jsonb E m) = Inr (map link_to_json (kept_links ls))"
    by (blast intro: reads_as_links)
  show ?thesis
  proof (intro conjI ballI allI impI)
    show "snd (run_registry (serve_registry E (GetLinks seg)) w') = Inr (json_response (JList (map link_to_json (kept_links ls))))"
      by (rule run_get_links [OF assms(1) inv' assms(3) stored links])
  next
    fix l limit
    assume l: "l \<in> set (kept_links ls)" and "length (shell_descriptors (reg_db w')) \<le> limit"
    from run_search [OF assms(1) inv' this(2), of "[l]"] stored reads_as_linked [OF _ l] doc
    show "\<exists>ids. snd (run_registry (serve_registry E (SearchByLink [l] limit)) w') = Inr (found_ids ids) \<and> i \<in> set ids"
      by auto
  qed
qed

lemma posted_links_found_witness:
  "snd (run_registry (serve_registry sample_registry (GetLinks ''QQ''))
     (fst (run_registry (serve_registry sample_registry (PostLinks ''QQ'' sample_links)) one_shell))) =
   Inr (json_response (JList (map link_to_json sample_links)))"
proof -
  let ?run = "run_registry (serve_registry sample_registry (PostLinks ''QQ'' sample_links)) one_shell"
  have ok: "\<forall>l \<in> set sample_links. link_ok l" by code_simp
  have kept: "kept_links sample_links = sample_links" by code_simp
  have "case snd ?run of Inl f \<Rightarrow> False | Inr r \<Rightarrow> True" by code_simp
  then obtain r where "?run = (fst ?run, Inr r)" by (cases ?run) (auto split: sum.splits)
  from posted_links_found [OF sample_registry_ok one_shell_steps decode_QQ ok this] kept show ?thesis by simp
qed

text \<open>
  Deleted links are gone: after the links of a shell were deleted, reading them returns nothing and no
  search by asset links finds the shell.
\<close>

lemma deleted_links_gone:
  assumes "registry_ok E" and "(registry_step E)\<^sup>*\<^sup>* empty_registry w"
    and "decode_id_from_b64url seg = Inr i"
    and "run_registry (serve_registry E (DeleteLinks seg)) w = (w', Inr r)"
    and "length (shell_descriptors (reg_db w')) \<le> limit"
  shows "snd (run_registry (serve_registry E (GetLinks seg)) w') = Inr (json_response (JList [])) \<and>
    (\<exists>ids. snd (run_registry (serve_registry E (SearchByLink ls limit)) w') = Inr (found_ids ids) \<and> i \<notin> set ids)"
proof -
  have inv: "registry_inv E w" by (rule reachable_registry [OF assms(1,2)])
  have inv': "registry_inv E w'" by (rule run_registry_inv [OF keep_serve inv assms(4)]) (use assms(1) in simp_all)
  have run: "run_registry (rewriting E seg drop_links response_204) w = (w', Inr r)"
    using assms(4) by (simp add: delete_links_rewriting)
  have r: "r = response_204"
    using run by (auto simp: run_registry_def rewriting_def handlers split: prod.splits sum.splits)
  from run_rewriting [OF assms(1) inv assms(3) run] obtain d m where
    d: "stored ShellSide (reg_db w) i = Some d" and m: "valid_descriptor E (drop_links d) = Inr m"
    and new: "stored ShellSide (reg_db w') = (stored ShellSide (reg_db w))(i := None, id_of m \<mapsto> jsonb E m)"
    using r by (auto split: option.splits sum.splits)
  note doc = drop_links_doc [OF assms(1) m]
  have "id_of m = i" using doc stored_id [of E "w\<lparr>reg_tx := reg_db w\<rparr>" ShellSide i d] inv d by (simp add: registry_inv_def)
  with new have stored: "stored ShellSide (reg_db w') i = Some (jsonb E m)" by simp
  from run_get_links [OF assms(1) inv' assms(3) stored, of "[]"] run_search [OF assms(1) inv' assms(5), of ls] stored doc
  show ?thesis by auto
qed

lemma deleted_links_gone_witness:
  "snd (run_registry (serve_registry sample_registry (GetLinks ''QQ''))
     (fst (run_registry (serve_registry sample_registry (DeleteLinks ''QQ'')) linked_shell))) =
   Inr (json_response (JList []))"
proof -
  let ?run = "run_registry (serve_registry sample_registry (DeleteLinks ''QQ'')) linked_shell"
  have "case snd ?run of Inl f \<Rightarrow> False | Inr r \<Rightarrow> True" by code_simp
  then obtain r where run: "?run = (fst ?run, Inr r)" by (cases ?run) (auto split: sum.splits)
  have "length (shell_descriptors (reg_db (fst ?run))) \<le> 5" by code_simp
  from deleted_links_gone [OF sample_registry_ok linked_shell_steps decode_QQ run this] show ?thesis by simp
qed

text \<open>
  Posting links is refused, with an internal server error and nothing changed, when the descriptor has
  no asset information of a valid kind, or when the new links are global asset ids only: the handler
  writes an \<open>assetInformation\<close> without \<open>assetKind\<close>, respectively with an empty list of specific asset
  ids, which its own validation rejects.
\<close>

lemma links_need_asset_information:
  assumes "registry_ok E" and "(registry_step E)\<^sup>*\<^sup>* empty_registry w"
    and "decode_id_from_b64url seg = Inr i" and "stored ShellSide (reg_db w) i = Some d"
    and "dget (info_or_empty d) ''assetKind'' \<notin> JStr ` set asset_kinds \<or> (\<forall>l \<in> set ls. link_name l = global_name)"
    and "run_registry (serve_registry E (PostLinks seg ls)) w = (w', r)"
  shows "r = Inl (Unhandled (Python ValueError)) \<and> reg_db w' = reg_db w"
proof -
  have inv: "registry_inv E w" by (rule reachable_registry [OF assms(1,2)])
  have "valid_descriptor E (set_links ls d) \<noteq> Inr m" for m
  proof
    assume m: "valid_descriptor E (set_links ls d) = Inr m"
    have "asset_information_ok (dset ''specificAssetIds'' (JList (specific_links ls))
      (dset ''globalAssetId'' (global_link ls) (info_or_empty d)))"
      using set_links_doc [OF assms(1) m] by blast
    then have "dget (info_or_empty d) ''assetKind'' \<in> JStr ` set asset_kinds" "specific_links ls \<noteq> []"
      by (simp_all add: asset_information_ok_def)
    moreover have "specific_links ls = []" if "\<forall>l \<in> set ls. link_name l = global_name"
      using that by (simp add: specific_links_def)
    ultimately show False using assms(5) by blast
  qed
  then obtain e where "valid_descriptor E (set_links ls d) = Inl e" by (cases "valid_descriptor E (set_links ls d)") auto
  with run_rewriting [OF assms(1) inv assms(3), of "set_links ls"] assms(4,6) show ?thesis
    by (auto simp: post_links_rewriting)
qed

lemma links_need_asset_information_witness:
  "snd (run_registry (serve_registry sample_registry (PostLinks ''QQ'' [hd sample_links])) one_shell) =
   Inl (Unhandled (Python ValueError))"
proof -
  have "case stored ShellSide (reg_db one_shell) [65] of None \<Rightarrow> False | Some d \<Rightarrow> True" by code_simp
  then obtain d where d: "stored ShellSide (reg_db one_shell) [65] = Some d" by (auto split: option.splits)
  have "\<forall>l \<in> set [hd sample_links]. link_name l = global_name" by code_simp
  from links_need_asset_information [OF sample_registry_ok one_shell_steps decode_QQ d disjI2 [OF this]
      prod.collapse [symmetric]]
  show ?thesis by simp
qed

section \<open>Entity tags\<close>

lemma strip_quoted: "quote \<notin> set e \<Longrightarrow> strip_quotes (quoted e) = e"
proof -
  assume e: "quote \<notin> set e"
  have drop: "dropWhile (\<lambda>c. c = quote) xs = xs" if "quote \<notin> set xs" for xs
    using that by (cases xs) auto
  from e have front: "dropWhile (\<lambda>c. c = quote) (e @ [quote]) = (if e = [] then [] else e @ [quote])"
    by (cases e) auto
  show ?thesis
    using drop [of "rev e"] e by (simp add: strip_quotes_def quoted_def front)
qed

lemma run_get_by_id:
  assumes "registry_ok E" and "registry_inv E w" and "decode_id_from_b64url seg = Inr i"
    and "stored sd (reg_db w) i = Some d"
  shows "snd (run_registry (get_descriptor_by_id E sd seg h) w) =
    Inr (if not_modified h (r_etag E d) then response_304 else tagged 200 d (r_etag E d))"
proof -
  have "registry_inv E (w\<lparr>reg_tx := reg_db w\<rparr>)" using assms(2) by (simp add: registry_inv_def)
  from get_stored [OF assms(1) this, of sd i] assms(3,4) show ?thesis
    by (auto simp: run_registry_def get_descriptor_by_id_def the_descriptor_def decode_identifier_def handlers doc_and_etag_def)
qed

text \<open>
  The ETag that a client gets for its POST is of no use: it is made from the bytes that were sent,
  while every later request compares with that of the document as it comes back from JSONB, with its
  keys in another order. If the order makes a difference, a conditional PUT with the ETag just received
  is refused with 412, and a conditional GET sends the unchanged document again.
\<close>

lemma posted_etag_refused:
  assumes "registry_ok E" and "(registry_step E)\<^sup>*\<^sup>* empty_registry w" and "\<And>d. quote \<notin> set (r_etag E d)"
    and "body_ok m" and "decode_id_from_b64url seg = Inr (id_of m)"
    and "run_registry (serve_registry E (PostDescriptor sd m)) w = (w', Inr r)"
    and "r_etag E (jsonb E m) \<noteq> r_etag E m"
  shows "http_etag r = Some (quoted (r_etag E m)) \<and>
    snd (run_registry (serve_registry E (PutDescriptor sd seg m' (http_etag r))) w') = Inl PreconditionFailed \<and>
    snd (run_registry (serve_registry E (GetDescriptor sd seg (http_etag r))) w') =
      Inr (tagged 200 (jsonb E m) (r_etag E (jsonb E m)))"
proof -
  let ?w = "w\<lparr>reg_tx := reg_db w\<rparr>"
  have "registry_inv E w" by (rule reachable_registry [OF assms(1,2)])
  then have inv: "registry_inv E ?w" by (simp add: registry_inv_def)
  have inv': "registry_inv E w'"
    by (rule run_registry_inv [OF keep_serve \<open>registry_inv E w\<close> assms(6)]) (use assms(1,4) in simp_all)
  from assms(6) obtain w1 d e where create: "create_descriptor E sd m ?w = (w1, Inr (d, e))"
    and w': "reg_db w' = reg_tx w1" and r: "r = tagged 201 d e"
    by (auto simp: run_registry_def post_descriptor_def descriptor_exists_def entries_def reg_commit_def handlers
        split: prod.splits sum.splits if_splits)
  from create_stored [OF assms(1,4) inv create] w' have
    stored: "stored sd (reg_db w') (id_of m) = Some (jsonb E m)" and etag: "http_etag r = Some (quoted (r_etag E m))"
    by (simp_all add: r tagged_def)
  have strip: "strip_quotes (quoted (r_etag E m)) = r_etag E m" by (rule strip_quoted [OF assms(3)])
  have "registry_inv E (w'\<lparr>reg_tx := reg_db w'\<rparr>)" using inv' by (simp add: registry_inv_def)
  from get_stored [OF assms(1) this, of sd "id_of m"] stored strip assms(5,7) etag
  have put: "snd (run_registry (serve_registry E (PutDescriptor sd seg m' (http_etag r))) w') = Inl PreconditionFailed"
    by (auto simp: run_registry_def put_descriptor_by_id_def decode_identifier_def handlers doc_and_etag_def quoted_def)
  have "not_modified (http_etag r) (r_etag E (jsonb E m)) = False"
    using etag strip assms(7) by (simp add: not_modified_def)
  with run_get_by_id [OF assms(1) inv' assms(5) stored, of "http_etag r"] etag put show ?thesis by simp
qed

lemma posted_etag_refused_witness:
  "snd (run_registry (serve_registry sample_registry (PutDescriptor ShellSide ''QQ'' asset_shell
      (Some (quoted (r_etag sample_registry asset_shell))))) one_shell) = Inl PreconditionFailed"
proof -
  let ?run = "run_registry (serve_registry sample_registry (PostDescriptor ShellSide asset_shell)) empty_registry"
  have "case snd ?run of Inl f \<Rightarrow> False | Inr r \<Rightarrow> True" by code_simp
  then obtain r where run: "?run = (fst ?run, Inr r)" by (cases ?run) (auto split: sum.splits)
  have id: "decode_id_from_b64url ''QQ'' = Inr (id_of asset_shell)" by code_simp
  have order: "r_etag sample_registry (jsonb sample_registry asset_shell) \<noteq> r_etag sample_registry asset_shell" by code_simp
  have hex: "quote \<notin> set (r_etag sample_registry d)" for d by (simp add: sample_registry_def)
  have "one_shell = fst ?run" by (simp add: one_shell_def serve_each_def)
  with posted_etag_refused [OF sample_registry_ok rtranclp.rtrancl_refl hex asset_shell_ok id run order, of asset_shell]
  show ?thesis by auto
qed

section \<open>Several descriptors at once\<close>

lemma b64_of_id_inj:
  assumes "id_of a \<noteq> []" and "id_of b \<noteq> []" and "b64_of (id_of a) = b64_of (id_of b)"
  shows "id_of a = id_of b"
proof -
  have some: "\<exists>s. id_of d = code_points s \<and> s \<noteq> []" if "id_of d \<noteq> []" for d
    using that by (cases "dget d ''id''") (auto simp: id_of_def code_points_def)
  from some [OF assms(1)] some [OF assms(2)] obtain s t where
    st: "id_of a = code_points s" "s \<noteq> []" "id_of b = code_points t" "t \<noteq> []" by blast
  have enc: "encode_component s = b64_of (code_points s)" if "s \<noteq> []" for s
    using that by (simp add: encode_component_def b64_of_def code_points_def)
  from assms(3) have "encode_component s = encode_component t" by (simp only: enc st not_False_eq_True)
  then have "s = t" by (rule encode_component_inj)
  with st show ?thesis by simp
qed

lemma no_clash:
  assumes "\<forall>q \<in> set es. entry_ok E sd n q" and "entry_ident r = id_of m" and "entry_b64 r = b64_of (id_of m)"
    and "id_of m \<noteq> []" and "\<And>q. q \<in> set es \<Longrightarrow> entry_id q \<noteq> entry_id r \<Longrightarrow> entry_ident q \<noteq> id_of m"
  shows "\<not> entry_clashes r es"
proof
  assume "entry_clashes r es"
  then obtain q where q: "q \<in> set es" "entry_id q \<noteq> entry_id r" "entry_ident q = id_of m \<or> entry_b64 q = b64_of (id_of m)"
    using assms(2,3) by (auto simp: entry_clashes_def list_ex_iff)
  with assms(1) have "entry_ident q = id_of (entry_doc q)" "entry_ident q \<noteq> []" "entry_b64 q = b64_of (entry_ident q)"
    by (auto simp: entry_ok_def)
  with q(3) b64_of_id_inj [of "entry_doc q" m] assms(4) have "entry_ident q = id_of m" by auto
  with assms(5) q(1,2) show False by blast
qed

lemma create_succeeds:
  assumes "registry_inv E w" and "body_ok m" and "stored sd (reg_tx w) (id_of m) = None"
  shows "\<exists>w' de. create_descriptor E sd m w = (w', Inr de)"
proof -
  have "entry_by_id (id_of m) (table_of sd (reg_tx w)) = None" using assms(3) by (simp add: stored_def)
  then have "entry_ident q \<noteq> id_of m" if "q \<in> set (table_of sd (reg_tx w))" for q
    using that by (metis entry_by_id_None imageI)
  with inv_table [OF assms(1), of sd] have "\<not> entry_clashes (entry_for E sd (reg_serial w) m) (table_of sd (reg_tx w))"
    by (intro no_clash [where m = m]) (auto simp: table_ok_def entry_for_def body_ok_id [OF assms(2)])
  then show ?thesis by (simp add: create_descriptor_def Let_def)
qed

lemma update_succeeds:
  assumes "registry_inv E w" and "body_ok m" and "stored sd (reg_tx w) (id_of m) \<noteq> None"
  shows "\<exists>w' de. update_descriptor E sd (id_of m) m w = (w', Inr (Some de))"
proof -
  from assms(3) obtain r where r: "entry_by_id (id_of m) (table_of sd (reg_tx w)) = Some r" by (auto simp: stored_def)
  have table: "table_ok E sd (reg_serial w) (table_of sd (reg_tx w))" by (rule inv_table [OF assms(1)])
  have "q = r" if "q \<in> set (table_of sd (reg_tx w))" "entry_ident q = id_of m" for q
    using that table entry_by_idD [OF r] by (auto simp: table_ok_def distinct_map inj_on_def)
  with table have "\<not> entry_clashes (changed_entry E sd r m) (table_of sd (reg_tx w))"
    by (intro no_clash [where m = m]) (auto simp: table_ok_def changed_entry_def body_ok_id [OF assms(2)])
  with r show ?thesis by (simp add: update_descriptor_def handlers entries_def put_entries_def)
qed

text \<open>What the map of documents is after the bodies, one after the other.\<close>

definition written :: "registry_env \<Rightarrow> obj list \<Rightarrow> (nat list \<Rightarrow> obj option) \<Rightarrow> nat list \<Rightarrow> obj option" where
  "written E ms t = fold (\<lambda>m t. t(id_of m \<mapsto> jsonb E m)) ms t"

lemma bulk_create_run:
  assumes "registry_ok E" and "registry_inv E w" and "\<forall>m \<in> set ms. body_ok m"
  shows "\<exists>w' c u. bulk_create E sd ms (c0, u0) w = (w', Inr (c0 + c, u0 + u)) \<and> c + u = length ms \<and>
    stored sd (reg_tx w') = written E ms (stored sd (reg_tx w))"
  using assms(2,3)
proof (induction ms arbitrary: w c0 u0)
  case Nil
  have "bulk_create E sd [] (c0, u0) w = (w, Inr (c0 + 0, u0 + 0))" by (simp add: handlers)
  then show ?case by (intro exI [of _ w] exI [of _ 0]) (simp add: written_def)
next
  case (Cons m ms)
  from Cons.prems have m: "body_ok m" by simp
  show ?case
  proof (cases "stored sd (reg_tx w) (id_of m) = None")
    case True
    from create_succeeds [OF Cons.prems(1) m True] obtain w1 de where
      run: "create_descriptor E sd m w = (w1, Inr de)" by blast
    have inv: "registry_inv E w1" using keeping_fst [OF keep_create [OF assms(1) m] Cons.prems(1)] run by (metis fst_conv)
    from create_stored [OF assms(1) m Cons.prems(1) run] have
      new: "stored sd (reg_tx w1) = (stored sd (reg_tx w))(id_of m \<mapsto> jsonb E m)" by blast
    from Cons.IH [OF inv, of "Suc c0" u0] Cons.prems(2) obtain w' c u where
      "bulk_create E sd ms (Suc c0, u0) w1 = (w', Inr (Suc c0 + c, u0 + u))" "c + u = length ms"
      "stored sd (reg_tx w') = written E ms (stored sd (reg_tx w1))" by auto
    moreover from this(1) True run have "bulk_create E sd (m # ms) (c0, u0) w = (w', Inr (c0 + Suc c, u0 + u))"
      by (auto simp: handlers descriptor_exists_def entries_def stored_def)
    ultimately show ?thesis
      by (intro exI [of _ w'] exI [of _ "Suc c"] exI [of _ u]) (simp add: written_def new)
  next
    case False
    from update_succeeds [OF Cons.prems(1) m False] obtain w1 de where
      run: "update_descriptor E sd (id_of m) m w = (w1, Inr (Some de))" by blast
    have inv: "registry_inv E w1" using keeping_fst [OF keep_update [OF assms(1) m] Cons.prems(1)] run by (metis fst_conv)
    from update_stored [OF assms(1) m Cons.prems(1) run] have
      new: "stored sd (reg_tx w1) = (stored sd (reg_tx w))(id_of m \<mapsto> jsonb E m)" by simp
    from Cons.IH [OF inv, of c0 "Suc u0"] Cons.prems(2) obtain w' c u where
      "bulk_create E sd ms (c0, Suc u0) w1 = (w', Inr (c0 + c, Suc u0 + u))" "c + u = length ms"
      "stored sd (reg_tx w') = written E ms (stored sd (reg_tx w1))" by auto
    moreover from this(1) False run have "bulk_create E sd (m # ms) (c0, u0) w = (w', Inr (c0 + c, u0 + Suc u))"
      by (auto simp: handlers descriptor_exists_def entries_def stored_def)
    ultimately show ?thesis
      by (intro exI [of _ w'] exI [of _ c] exI [of _ "Suc u"]) (simp add: written_def new)
  qed
qed

text \<open>
  A bulk request writes all its descriptors: it never fails, for one identifier the last body wins,
  descriptors it does not name stay, and the numbers of created and updated descriptors in the answer
  add up to the number of bodies.
\<close>

lemma bulk_writes_all:
  assumes "registry_ok E" and "(registry_step E)\<^sup>*\<^sup>* empty_registry w" and "\<forall>m \<in> set ms. body_ok m"
  shows "\<exists>w' c u. run_registry (serve_registry E (BulkCreate sd ms)) w =
      (w', Inr ((json_response (JDict [(''created'', JInt (int c)), (''updated'', JInt (int u)),
        (''total'', JInt (int (length ms)))]))\<lparr>http_status := 201\<rparr>)) \<and>
    c + u = length ms \<and> stored sd (reg_db w') = written E ms (stored sd (reg_db w))"
proof -
  let ?w = "w\<lparr>reg_tx := reg_db w\<rparr>"
  have "registry_inv E ?w" using reachable_registry [OF assms(1,2)] by (simp add: registry_inv_def)
  from bulk_create_run [OF assms(1) this assms(3), of sd 0 0] obtain w1 c u where
    "bulk_create E sd ms (0, 0) ?w = (w1, Inr (c, u))" "c + u = length ms"
    "stored sd (reg_tx w1) = written E ms (stored sd (reg_db w))" by auto
  then show ?thesis
    by (intro exI [of _ "w1\<lparr>reg_db := reg_tx w1\<rparr>"] exI [of _ c] exI [of _ u])
      (simp add: run_registry_def bulk_create_descriptors_def reg_commit_def handlers)
qed

lemma bulk_writes_all_witness:
  "\<exists>w' c u. run_registry (serve_registry sample_registry (BulkCreate ShellSide [asset_shell, asset_shell])) one_shell =
      (w', Inr ((json_response (JDict [(''created'', JInt (int c)), (''updated'', JInt (int u)),
        (''total'', JInt (int 2))]))\<lparr>http_status := 201\<rparr>)) \<and> c + u = 2"
proof -
  have "\<forall>m \<in> set [asset_shell, asset_shell]. body_ok m" using asset_shell_ok by simp
  from bulk_writes_all [OF sample_registry_ok one_shell_steps this, of ShellSide] show ?thesis
    by (simp add: numeral_2_eq_2) blast
qed

end
