(* ===== verification/Templates.thy ===== *)
theory Templates
  imports ShellState
begin

text \<open>
  Instances of submodel templates (\<open>src/titan/core/templates.py\<close> and the handler at the end of
  \<open>src/titan/api/routers/submodel_repository.py\<close>). The values to override are addressed by paths with a
  parser of their own, not the one of \<open>core/projection.py\<close>. The code changes a deep copy in place; here
  a change returns the new value. The header \<open>X-Template-Id\<close> of the response is left out.
\<close>

section \<open>Paths\<close>

text \<open>\<open>path.replace("[", ".[").split(".")\<close>.\<close>

definition path_pieces :: "string \<Rightarrow> string list" where
  "path_pieces p = split_char (CHR ''.'') (concat (map (\<lambda>c. if c = CHR ''['' then ''.['' else [c]) p))"

definition is_bracketed :: "string \<Rightarrow> bool" where
  "is_bracketed s = (s \<noteq> [] \<and> hd s = CHR ''['' \<and> last s = CHR '']'')"

type_synonym steps = "(string \<times> int option) list"

definition named_step :: "string option \<Rightarrow> steps" where
  "named_step n = (case n of None \<Rightarrow> [] | Some s \<Rightarrow> [(s, None)])"

text \<open>
  \<open>n\<close> is the name that waits for its index; an index without a name is dropped. \<open>None\<close>: an index that is
  no integer, for which the code returns an empty list.
\<close>

fun collect_steps :: "string list \<Rightarrow> string option \<Rightarrow> steps option" where
  "collect_steps [] n = Some (named_step n)"
| "collect_steps (p # ps) n =
     (if p = [] then collect_steps ps n
      else if is_bracketed p then
        (case py_int (butlast (tl p)) of
           None \<Rightarrow> None
         | Some i \<Rightarrow>
             (case n of
                None \<Rightarrow> collect_steps ps None
              | Some s \<Rightarrow> map_option ((#) (s, Some i)) (collect_steps ps None)))
      else map_option ((@) (named_step n)) (collect_steps ps (Some p)))"

definition parse_path :: "string \<Rightarrow> steps" where
  "parse_path p =
     (if p = [] then [] else case collect_steps (path_pieces p) None of None \<Rightarrow> [] | Some ss \<Rightarrow> ss)"

section \<open>Overrides\<close>

fun named_element :: "string \<Rightarrow> json list \<Rightarrow> py_exn + (nat \<times> obj) option" where
  "named_element s [] = Inr None"
| "named_element s (x # xs) =
     (case x of
        JDict d \<Rightarrow>
          if dget d ''idShort'' = JStr s then Inr (Some (0, d))
          else bindE (named_element s xs) (\<lambda>r. Inr (map_option (\<lambda>(n, e). (Suc n, e)) r))
      | _ \<Rightarrow> Inl AttributeError)"

definition put_value :: "json \<Rightarrow> obj \<Rightarrow> json" where
  "put_value v d = JDict (dset ''value'' v d)"

text \<open>
  The elements with the value set; \<open>Inr None\<close>: the path leads nowhere. \<open>NotModelled\<close>: a list whose
  \<open>value\<close> is no list, which validation does not let into a document.
\<close>

fun set_value_at_path :: "json list \<Rightarrow> steps \<Rightarrow> json \<Rightarrow> py_exn + json list option" where
  "set_value_at_path xs [] v = Inr None"
| "set_value_at_path xs ((s, index) # ps) v =
     bindE (named_element s xs) (\<lambda>r.
       case r of
         None \<Rightarrow> Inr None
       | Some (n, d) \<Rightarrow>
           bindE
             (case index of
                Some i \<Rightarrow>
                  if dget d ''modelType'' \<noteq> JStr ''SubmodelElementList'' then Inr None
                  else (case dget_or d ''value'' (JList []) of
                    JList ys \<Rightarrow>
                      if \<not> (0 \<le> i \<and> i < int (length ys)) then Inr None
                      else (case ys ! nat i of
                        JDict e \<Rightarrow>
                          if ps = [] then Inr (Some (put_value (JList (ys[nat i := put_value v e])) d))
                          else (case dget e ''value'' of
                            JList zs \<Rightarrow>
                              bindE (set_value_at_path zs ps v) (\<lambda>r.
                                Inr (map_option (\<lambda>zs'. put_value (JList (ys[nat i := put_value (JList zs') e])) d) r))
                          | _ \<Rightarrow> Inr None)
                      | _ \<Rightarrow> Inl TypeError)
                  | _ \<Rightarrow> Inl NotModelled)
              | None \<Rightarrow>
                  if ps = [] then Inr (Some (put_value v d))
                  else if dget d ''modelType'' \<in> {JStr ''SubmodelElementCollection'', JStr ''SubmodelElementList''} then
                    (case dget_or d ''value'' (JList []) of
                       JList zs \<Rightarrow>
                         bindE (set_value_at_path zs ps v) (\<lambda>r.
                           Inr (map_option (\<lambda>zs'. put_value (JList zs') d) r))
                     | _ \<Rightarrow> Inl TypeError)
                  else Inr None)
             (\<lambda>r. Inr (map_option (\<lambda>x. xs[n := x]) r)))"

text \<open>What \<open>_set_value_at_path\<close> returns is not looked at.\<close>

fun override_values :: "obj \<Rightarrow> json list \<Rightarrow> py_exn + json list" where
  "override_values [] xs = Inr xs"
| "override_values ((p, v) # vs) xs =
     bindE (set_value_at_path xs (parse_path p) v) (\<lambda>r.
       override_values vs (case r of None \<Rightarrow> xs | Some ys \<Rightarrow> ys))"

definition apply_value_overrides :: "obj \<Rightarrow> obj \<Rightarrow> py_exn + obj" where
  "apply_value_overrides overrides d =
     (case dget_or d ''submodelElements'' (JList []) of
        JList xs \<Rightarrow>
          if xs = [] then Inr d
          else bindE (override_values overrides xs) (\<lambda>ys. Inr (dset ''submodelElements'' (JList ys) d))
      | v \<Rightarrow> if truthy v then Inl NotModelled else Inr d)"

section \<open>Instances\<close>

record instantiation_request =
  new_id :: string
  new_id_short :: "string option"
  value_overrides :: obj
  copy_semantic_id :: bool

definition clear_template_id :: "obj \<Rightarrow> py_exn + obj" where
  "clear_template_id d =
     (if \<not> truthy (dget d ''administration'') then Inr d
      else case dget d ''administration'' of
        JDict a \<Rightarrow> Inr (dset ''administration'' (JDict (dpop ''templateId'' a)) d)
      | _ \<Rightarrow> Inl AttributeError)"

text \<open>\<open>Inr None\<close>: the source is no template.\<close>

definition instantiate_template :: "obj \<Rightarrow> instantiation_request \<Rightarrow> py_exn + obj option" where
  "instantiate_template t rq =
     (if dget t ''kind'' \<noteq> JStr ''Template'' then Inr None
      else
        (let d1 = dset ''kind'' (JStr ''Instance'') (dset ''id'' (JStr (new_id rq)) t);
             d2 = (case new_id_short rq of
                     Some (c # cs) \<Rightarrow> dset ''idShort'' (JStr (c # cs)) d1
                   | _ \<Rightarrow> d1);
             d3 = (if copy_semantic_id rq then d2 else dpop ''semanticId'' d2)
         in bindE (if value_overrides rq = [] then Inr d3 else apply_value_overrides (value_overrides rq) d3) (\<lambda>d4.
            bindE (clear_template_id d4) (\<lambda>d5. Inr (Some d5)))))"

definition instantiate_template_endpoint ::
  "'s env \<Rightarrow> string \<Rightarrow> instantiation_request \<Rightarrow> ('s, response) handler" where
  "instantiate_template_endpoint E seg rq =
     bindH (decode_identifier seg) (\<lambda>i.
     bindH (current_submodel i) (\<lambda>(t, _).
     bindH (readH (\<lambda>x. exists_row (code_points (new_id rq)) (submodels x))) (\<lambda>there.
       if there then failH (Conflict ''Submodel'' (code_points (new_id rq)))
       else
         bindH (pureH (instantiate_template t rq)) (\<lambda>r.
           case r of
             None \<Rightarrow> failH BadRequest
           | Some d \<Rightarrow>
               bindH (validate_submodel E d) (\<lambda>m.
               bindH (catchH (submodel_create E m)) (\<lambda>(d', e).
               bindH commit (\<lambda>_.
               bindH (set_cache (set_submodel (redis E) (b64_of (code_points (new_id rq))) d' e)) (\<lambda>_.
               bindH (publish (submodel_event CREATED (code_points (new_id rq)) (b64_of (code_points (new_id rq))) d' e m)) (\<lambda>_.
                 retH (json_response_with_etag (JDict d') e 201
                   (Some (''/submodels/'' @ b64_of (code_points (new_id rq))))))))))))))"

section \<open>An instance is posted like any other submodel\<close>

lemma built_instance:
  assumes "instantiate_template t rq = Inr (Some d)"
  shows "dget t ''kind'' = JStr ''Template''" and "dget d ''id'' = JStr (new_id rq)"
    and "dget d ''kind'' = JStr ''Instance''"
proof -
  have over: "dget d' k = dget d0 k" if "apply_value_overrides vs d0 = Inr d'" "k \<noteq> ''submodelElements''" for vs d0 d' k
    using that by (auto simp: apply_value_overrides_def errs split: json.splits if_splits)
  have clear: "dget d' k = dget d0 k" if "clear_template_id d0 = Inr d'" "k \<noteq> ''administration''" for d0 d' k
    using that by (auto simp: clear_template_id_def split: json.splits if_splits)
  let ?d1 = "dset ''kind'' (JStr ''Instance'') (dset ''id'' (JStr (new_id rq)) t)"
  let ?d2 = "case new_id_short rq of Some (c # cs) \<Rightarrow> dset ''idShort'' (JStr (c # cs)) ?d1 | _ \<Rightarrow> ?d1"
  let ?d3 = "if copy_semantic_id rq then ?d2 else dpop ''semanticId'' ?d2"
  from assms obtain d4 where kind: "dget t ''kind'' = JStr ''Template''"
    and d4: "(if value_overrides rq = [] then Inr ?d3 else apply_value_overrides (value_overrides rq) ?d3) = Inr d4"
    and d: "clear_template_id d4 = Inr d"
    by (auto simp: instantiate_template_def Let_def errs split: if_splits)
  show "dget t ''kind'' = JStr ''Template''" by (rule kind)
  have "dget ?d3 ''id'' = JStr (new_id rq)" "dget ?d3 ''kind'' = JStr ''Instance''"
    by (auto split: option.split list.split)
  with d4 over have "dget d4 ''id'' = JStr (new_id rq)" "dget d4 ''kind'' = JStr ''Instance''"
    by (auto split: if_splits)
  with clear [OF d] show "dget d ''id'' = JStr (new_id rq)" "dget d ''kind'' = JStr ''Instance''" by simp_all
qed

lemma built_elements:
  assumes "instantiate_template t rq = Inr (Some d)" and "value_overrides rq = []"
  shows "dget d ''submodelElements'' = dget t ''submodelElements''"
proof -
  have clear: "dget d' k = dget d0 k" if "clear_template_id d0 = Inr d'" "k \<noteq> ''administration''" for d0 d' k
    using that by (auto simp: clear_template_id_def split: json.splits if_splits)
  from assms show ?thesis
    by (auto simp: instantiate_template_def Let_def errs clear split: if_splits option.splits list.splits)
qed

end
