(* ===== verification/TemplateSpec.thy ===== *)
theory TemplateSpec
  imports Templates SubmodelSpec
begin

text \<open>
  What instantiating a template does: the instance is posted like a submodel that a client sends, so
  all that holds of posted submodels holds of instances; and which templates can never be instantiated.
\<close>

section \<open>Instances are posted\<close>

lemma instantiated:
  assumes "env_ok E"
  shows "instantiate_template_endpoint E seg rq w =
    (case decode_id_from_b64url seg of
       Inl e \<Rightarrow> (w, Inl InvalidBase64)
     | Inr i \<Rightarrow>
         (case get_bytes_by_id i (submodels (tx w)) of
            None \<Rightarrow> (w, Inl (NotFound ''Submodel'' i))
          | Some (t, _) \<Rightarrow>
              if exists_row (code_points (new_id rq)) (submodels (tx w))
              then (w, Inl (Conflict ''Submodel'' (code_points (new_id rq))))
              else (case instantiate_template t rq of
                  Inl e \<Rightarrow> (w, Inl (Unhandled (Python e)))
                | Inr None \<Rightarrow> (w, Inl BadRequest)
                | Inr (Some d) \<Rightarrow>
                    (case valid_submodel E d of
                       Inl _ \<Rightarrow> (w, Inl BadRequest)
                     | Inr m \<Rightarrow> post_submodel E m w))))"
proof -
  have "bindH (readH (\<lambda>x. exists_row (code_points (new_id rq)) (submodels x))) (\<lambda>there.
       if there then failH (Conflict ''Submodel'' (code_points (new_id rq)))
       else bindH (pureH (instantiate_template t rq)) (\<lambda>r.
           case r of
             None \<Rightarrow> failH BadRequest
           | Some d \<Rightarrow>
               bindH (validate_submodel E d) (\<lambda>m.
               bindH (catchH (submodel_create E m)) (\<lambda>(d', e).
               bindH commit (\<lambda>_.
               bindH (set_cache (set_submodel (redis E) (b64_of (code_points (new_id rq))) d' e)) (\<lambda>_.
               bindH (publish (submodel_event CREATED (code_points (new_id rq)) (b64_of (code_points (new_id rq))) d' e m)) (\<lambda>_.
                 retH (json_response_with_etag (JDict d') e 201
                   (Some (''/submodels/'' @ b64_of (code_points (new_id rq)))))))))))) w =
    (if exists_row (code_points (new_id rq)) (submodels (tx w))
     then (w, Inl (Conflict ''Submodel'' (code_points (new_id rq))))
     else (case instantiate_template t rq of
         Inl e \<Rightarrow> (w, Inl (Unhandled (Python e)))
       | Inr None \<Rightarrow> (w, Inl BadRequest)
       | Inr (Some d) \<Rightarrow>
           (case valid_submodel E d of Inl _ \<Rightarrow> (w, Inl BadRequest) | Inr m \<Rightarrow> post_submodel E m w)))" for t
  proof (cases "instantiate_template t rq")
    case (Inr r)
    show ?thesis
    proof (cases r)
      case (Some d)
      show ?thesis
      proof (cases "valid_submodel E d")
        case valid: (Inr m)
        have "id_of m = id_of d" using assms valid by (simp add: env_ok_def)
        also have "\<dots> = code_points (new_id rq)"
          using built_instance(2) [of t rq d] Inr Some by (simp add: id_of_def)
        finally have "code_points (new_id rq) = id_of m" ..
        then show ?thesis
          using Inr Some valid by (simp add: post_submodel_def validate_submodel_def handlers)
      qed (use Inr Some in \<open>simp add: validate_submodel_def handlers\<close>)
    qed (use Inr in \<open>simp add: handlers\<close>)
  qed (simp add: handlers)
  then show ?thesis
    by (simp add: instantiate_template_endpoint_def decode_identifier_def current_submodel_def bindH_def [of _ _ w]
        readH_def retH_def failH_def split: sum.split option.split prod.split)
qed

text \<open>
  Instantiating is posting: when the template is stored, its instance is built and no submodel has
  the new id, the request does exactly what \<open>POST /submodels\<close> does with the validated instance --- the
  same row, event, cache entry and response ---, and the posted document has the new id. In every
  other case nothing is written.
\<close>

lemma instance_is_posted:
  assumes "env_ok E"
  shows "instantiate_template_endpoint E seg rq w =
    (case decode_id_from_b64url seg of
       Inl e \<Rightarrow> (w, Inl InvalidBase64)
     | Inr i \<Rightarrow>
         (case get_bytes_by_id i (submodels (tx w)) of
            None \<Rightarrow> (w, Inl (NotFound ''Submodel'' i))
          | Some (t, _) \<Rightarrow>
              if exists_row (code_points (new_id rq)) (submodels (tx w))
              then (w, Inl (Conflict ''Submodel'' (code_points (new_id rq))))
              else (case instantiate_template t rq of
                  Inl e \<Rightarrow> (w, Inl (Unhandled (Python e)))
                | Inr None \<Rightarrow> (w, Inl BadRequest)
                | Inr (Some d) \<Rightarrow>
                    (case valid_submodel E d of
                       Inl _ \<Rightarrow> (w, Inl BadRequest)
                     | Inr m \<Rightarrow> post_submodel E m w))))"
  by (rule instantiated [OF assms])

definition pump :: obj where
  "pump =
     [(''id'', JStr ''T''), (''idShort'', JStr ''t''), (''kind'', JStr ''Template''),
      (''submodelElements'', JList [JDict [(''modelType'', JStr ''Property''), (''idShort'', JStr ''P''), (''value'', JStr ''0'')]])]"

definition order :: instantiation_request where
  "order = \<lparr>new_id = ''M'', new_id_short = Some ''n'', value_overrides = [(''P'', JStr ''1''), (''Q'', JStr ''2'')],
     copy_semantic_id = True\<rparr>"

definition pump_stored :: "(string \<times> json) list world" where
  "pump_stored = serve_all sample_env [OnSubmodels (PostSubmodel pump)] empty_world"

definition pump_instance :: obj where
  "pump_instance =
     [(''id'', JStr ''M''), (''idShort'', JStr ''n''), (''kind'', JStr ''Instance''),
      (''submodelElements'', JList [JDict [(''modelType'', JStr ''Property''), (''idShort'', JStr ''P''), (''value'', JStr ''1'')]])]"

lemma instance_is_posted_witness:
  "instantiate_template_endpoint sample_env ''VA'' order (pump_stored\<lparr>tx := db pump_stored\<rparr>) =
   post_submodel sample_env pump_instance (pump_stored\<lparr>tx := db pump_stored\<rparr>)"
proof -
  let ?w = "pump_stored\<lparr>tx := db pump_stored\<rparr>"
  have "decode_id_from_b64url ''VA'' = Inr [84]" by code_simp
  moreover have "get_bytes_by_id [84] (submodels (tx ?w)) = Some (pump, ''t'')" by code_simp
  moreover have "exists_row (code_points (new_id order)) (submodels (tx ?w)) = False" by code_simp
  moreover have "instantiate_template pump order = Inr (Some pump_instance)" by code_simp
  moreover have "valid_submodel sample_env pump_instance = Inr pump_instance" by (simp add: sample_env_def)
  ultimately show ?thesis by (simp add: instance_is_posted [OF sample_env_ok])
qed

section \<open>Templates with stored attachments\<close>

lemma in_list_event:
  assumes "mapR f xs n = Inr (ys, k, es)" and "x \<in> set xs"
    and "\<And>n y k es. f x n = Inr (y, k, es) \<Longrightarrow> e \<in> set es"
  shows "e \<in> set es"
  using assms
proof (induction xs arbitrary: n ys k es)
  case (Cons z zs)
  from Cons.prems(1) obtain y n1 es1 zs' es2
    where z: "f z n = Inr (y, n1, es1)" and zs: "mapR f zs n1 = Inr (zs', k, es2)" and es: "es = es1 @ es2"
    by (auto simp: bindR_Inr)
  from Cons.prems(2) show ?case
  proof (cases "x = z")
    case True
    with z Cons.prems(3) es show ?thesis by auto
  next
    case False
    with Cons.prems(2) have "x \<in> set zs" by simp
    with Cons.IH [OF zs _ Cons.prems(3)] es show ?thesis by auto
  qed
qed simp

definition stored_blob :: "obj \<Rightarrow> string \<Rightarrow> bool" where
  "stored_blob c i =
     (dget c ''modelType'' \<in> {JStr ''Blob'', JStr ''File''} \<and> dget c ''value'' = JStr (blob_prefix @ i) \<and> i \<noteq> [])"

lemma stored_blob_event:
  assumes "stored_blob c i" and "externalize_element S owner path c n = Inr (c', k, es)"
  shows "Ref i path \<in> set es"
proof -
  have "externalize_leaf S owner path c m = Inr (c, m, [Ref i path])" for m
    using assms(1) by (auto simp: stored_blob_def externalize_leaf_def externalize_blob_def externalize_file_def)
  with assms(2) show ?thesis
    by (subst (asm) externalize_element.simps) (fastforce simp: bindR_Inr)
qed

lemma stored_blob_referenced:
  assumes "dget d ''submodelElements'' = JList xs" and "JDict c \<in> set xs" and "stored_blob c i"
    and "externalize_submodel_doc S owner d n = Inr (x, m)"
  shows "referenced x \<noteq> []"
proof -
  from assms(1) have has: "dhas d ''submodelElements''"
    by (auto simp: dget_def dhas_def split: option.splits)
  from assms(4) obtain es where run: "externalize_elements S owner d n = Inr (ext_doc x, m, es)"
    and x: "referenced x = refs_of es []"
    by (auto simp: externalize_submodel_doc_def errs)
  from assms(2) have "truthy (JList xs)" by auto
  with run assms(1) has obtain ys k es' where
    all: "mapR (element_item (externalize_element S owner) [] False) (enumerate 0 xs) n = Inr (ys, k, es')"
    and es: "set es' \<subseteq> set es"
    by (auto simp: externalize_elements_def at_key_def in_value_def bindR_Inr)
  from assms(2) obtain j where "j < length xs" "xs ! j = JDict c" by (auto simp: in_set_conv_nth)
  then have "(j, JDict c) \<in> set (enumerate 0 xs)" by (simp add: in_set_enumerate_eq)
  note event = in_list_event [OF all this]
  obtain p where "build_path [] (dget c ''idShort'') None = Inr p \<or> (\<exists>e. build_path [] (dget c ''idShort'') None = Inl e)"
    by (cases "build_path [] (dget c ''idShort'') None") auto
  then have "Ref i p \<in> set es'"
    by (intro event)
      (auto simp: element_item_def bindR_Inr liftR_def dest!: stored_blob_event [OF assms(3)])
  with es have "i \<in> fst ` set (refs_of es [])" unfolding refs_of_keys by auto
  with x show ?thesis by auto
qed

lemma blob_never_created:
  assumes "dget m ''submodelElements'' = JList xs" and "JDict c \<in> set xs" and "stored_blob c i"
  shows "\<exists>e. snd (submodel_create E m w) = Inl e"
proof -
  obtain w1 y where run: "run_externalize E (uuid_of E (serial w)) m (w\<lparr>serial := Suc (serial w)\<rparr>) = (w1, y)"
    by (cases "run_externalize E (uuid_of E (serial w)) m (w\<lparr>serial := Suc (serial w)\<rparr>)")
  show ?thesis
  proof (cases y)
    case (Inr x)
    with run have "referenced x \<noteq> []"
      by (auto simp: run_externalize_def split: sum.splits dest: stored_blob_referenced [OF assms])
    with run Inr show ?thesis by (simp add: submodel_create_def)
  qed (use run in \<open>simp add: submodel_create_def\<close>)
qed

text \<open>
  A template with an attachment that has been moved to the object storage is never instantiated:
  the instance carries the template's reference to the stored blob, a new submodel may not refer to
  stored blobs, and the request is refused whatever the new id is; the database stays.
\<close>

lemma template_with_attachment_refused:
  assumes "env_ok E" and "valid_submodel E = Inr"
    and "decode_id_from_b64url seg = Inr i" and "get_bytes_by_id i (submodels (tx w)) = Some (t, e)"
    and "dget t ''submodelElements'' = JList xs" and "JDict c \<in> set xs" and "stored_blob c b"
    and "value_overrides rq = []"
    and "instantiate_template_endpoint E seg rq w = (w', r)"
  shows "(\<exists>f. r = Inl f) \<and> db w' = db w \<and> tx w' = tx w \<and> bus w' = bus w"
proof -
  let ?there = "exists_row (code_points (new_id rq)) (submodels (tx w))"
  consider "w' = w" "\<exists>f. r = Inl f"
    | d where "instantiate_template t rq = Inr (Some d)" "post_submodel E d w = (w', r)"
    using assms(9) by (cases ?there; cases "instantiate_template t rq")
      (auto simp: instantiated [OF assms(1)] assms(2-4) split: option.splits)
  then show ?thesis
  proof cases
    case (2 d)
    from built_elements [OF 2(1) assms(8)] have "dget d ''submodelElements'' = JList xs" using assms(5) by simp
    then obtain w1 f where run: "submodel_create E d w = (w1, Inl f)"
      using blob_never_created [OF _ assms(6,7), of d E w] by (cases "submodel_create E d w") auto
    have "w' = w \<or> w' = w1" and "\<exists>f. r = Inl f"
      using 2(2) by (auto simp: post_submodel_def handlers run split: if_splits)
    moreover have "quiet w w1" and "tx w1 = tx w"
      using submodel_create_effect(1,3) [OF run] by blast+
    ultimately show ?thesis by (auto simp: quiet_def)
  qed simp
qed

definition manual :: obj where
  "manual =
     [(''id'', JStr ''T''), (''idShort'', JStr ''t''), (''kind'', JStr ''Template''),
      (''submodelElements'',
       JList [JDict [(''modelType'', JStr ''Blob''), (''idShort'', JStr ''B''), (''value'', JStr ''AAAAAAAA'')]])]"

definition manual_stored :: "(string \<times> json) list world" where
  "manual_stored =
     (let w = serve_all sample_env [OnSubmodels (PostSubmodel manual)] empty_world in w\<lparr>tx := db w\<rparr>)"

lemma template_with_attachment_refused_witness:
  "\<exists>f. snd (instantiate_template_endpoint sample_env ''VA'' (order\<lparr>value_overrides := []\<rparr>) manual_stored) = Inl f"
proof -
  let ?c = "[(''modelType'', JStr ''Blob''), (''idShort'', JStr ''B''), (''value'', JStr ''/blobs/blob0'')]"
  let ?t = "dset ''submodelElements'' (JList [JDict ?c]) manual"
  have "decode_id_from_b64url ''VA'' = Inr [84]" by code_simp
  moreover have "get_bytes_by_id [84] (submodels (tx manual_stored)) = Some (?t, ''t'')" by code_simp
  moreover have "dget ?t ''submodelElements'' = JList [JDict ?c]" by simp
  moreover have "stored_blob ?c ''blob0''" by code_simp
  ultimately show ?thesis
    using template_with_attachment_refused [OF sample_env_ok _ _ _ _ _ _ _ prod.collapse [symmetric],
        of "''VA''" "[84]" manual_stored ?t "''t''" "[JDict ?c]" ?c "''blob0''" "order\<lparr>value_overrides := []\<rparr>"]
    by (simp add: sample_env_def)
qed

section \<open>Paths of overrides\<close>

text \<open>The second index of a path is dropped: the value goes to the outer list.\<close>

lemma second_index_dropped:
  "parse_path ''L[0][1]'' = parse_path ''L[0]''" "parse_path ''L[0]'' = [(''L'', Some 0)]"
  by code_simp+

end
