(* ===== verification/Operations.thy ===== *)
theory Operations
  imports ShellState AccessControl
begin

text \<open>
  The invocation of operations (\<open>src/titan/core/operation_executor.py\<close>,
  \<open>src/titan/api/operation_utils.py\<close>, \<open>OperationInvocationRepository\<close> of
  \<open>src/titan/persistence/repositories.py\<close>, the handlers of both routers and \<open>publish_operation_invoked\<close> of
  \<open>src/titan/events/publisher.py\<close>). An invocation is checked, published on the event bus for the connectors
  and recorded in a table; a client polls the record by its handle. The state is that of the server with
  the table and the events; the times of a record are left out. The bus and the database can fail at each
  of their steps.
\<close>

section \<open>State\<close>

text \<open>The values of \<open>OperationExecutionState\<close>; the column holds any text.\<close>

datatype execution_state = PENDING | RUNNING | COMPLETED | FAILED | TIMEOUT | CANCELLED

fun state_value :: "execution_state \<Rightarrow> string" where
  "state_value PENDING = ''pending''"
| "state_value RUNNING = ''running''"
| "state_value COMPLETED = ''completed''"
| "state_value FAILED = ''failed''"
| "state_value TIMEOUT = ''timeout''"
| "state_value CANCELLED = ''cancelled''"

record invocation =
  in_id :: string
  in_submodel :: "nat list"
  in_b64 :: string
  in_path :: string
  in_state :: string
  in_input :: json
  in_output :: json
  in_inout :: json
  in_message :: "string option"
  in_code :: "string option"
  in_timeout :: "int option"
  in_by :: "string option"

datatype invocation_event_kind = INVOKED | OP_COMPLETED | OP_FAILED

record invocation_event =
  oe_kind :: invocation_event_kind
  oe_id :: string
  oe_submodel :: "nat list"
  oe_b64 :: string
  oe_path :: string
  oe_state :: execution_state
  oe_input :: json
  oe_inout :: json
  oe_timeout :: "int option"
  oe_by :: "string option"

text \<open>\<open>inv_tx\<close>: the session's view of the table. \<open>handles\<close> numbers the ids that were drawn.\<close>

record 's ops =
  srv :: "'s world"
  inv_db :: "invocation list"
  inv_tx :: "invocation list"
  op_bus :: "invocation_event list"
  handles :: nat

text \<open>
  \<open>handle_of\<close> draws ids (\<open>uuid4\<close>), \<open>valid_operation\<close> is Pydantic's validation of the element,
  \<open>lax_int\<close> its reading of a JSON value as an integer, \<open>uuid_text\<close> PostgreSQL's reading of a text as a UUID.
\<close>

record 's op_env =
  base_env :: "'s env"
  handle_of :: "nat \<Rightarrow> string"
  valid_operation :: "obj \<Rightarrow> string + obj"
  lax_int :: "json \<Rightarrow> int option"
  uuid_text :: "string \<Rightarrow> string option"

type_synonym ('s, 'a) op_handler = "('s ops, 'a) act"

definition serverH :: "('s, 'a) handler \<Rightarrow> ('s, 'a) op_handler" where
  "serverH h w = (case h (srv w) of (s, r) \<Rightarrow> (w\<lparr>srv := s\<rparr>, r))"

text \<open>
  What happens to an invocation on its way: nothing, or the bus, the insertion or the commit raises. An
  exception of a library is \<open>outage\<close>.
\<close>

datatype trouble = NoTrouble | PublishFails | CreateFails | CommitFails

definition outage :: failure where
  "outage = Unhandled (Python NotModelled)"

definition op_commit :: "trouble \<Rightarrow> ('s, unit) op_handler" where
  "op_commit tr w =
     (if tr = CommitFails then (w, Inl outage)
      else (w\<lparr>srv := fst (commit (srv w)), inv_db := inv_tx w\<rparr>, Inr ()))"

text \<open>A request of its own session; what was not committed is rolled back.\<close>

definition run_op :: "('s, 'a) op_handler \<Rightarrow> 's ops \<Rightarrow> 's ops \<times> (failure + 'a)" where
  "run_op h w =
     (case h (w\<lparr>srv := (srv w)\<lparr>tx := db (srv w)\<rparr>, inv_tx := inv_db w\<rparr>) of
        (w', r) \<Rightarrow> (w'\<lparr>srv := (srv w')\<lparr>tx := db (srv w')\<rparr>, inv_tx := inv_db w'\<rparr>, r))"

section \<open>Arguments\<close>

record argument =
  arg_name :: string
  arg_value :: json
  arg_type :: "string option"

record invoke_request =
  rq_input :: "argument list option"
  rq_inout :: "argument list option"
  rq_timeout :: "int option"

text \<open>\<open>arg.model_dump(by_alias=True)\<close>.\<close>

definition text_json :: "string option \<Rightarrow> json" where
  "text_json t = (case t of None \<Rightarrow> JNull | Some s \<Rightarrow> JStr s)"

definition dump_argument :: "argument \<Rightarrow> json" where
  "dump_argument a =
     JDict [(''idShort'', JStr (arg_name a)), (''value'', arg_value a), (''valueType'', text_json (arg_type a))]"

text \<open>\<open>[...] if arguments else None\<close>.\<close>

definition dump_arguments :: "argument list option \<Rightarrow> json" where
  "dump_arguments m = (case m of None \<Rightarrow> JNull | Some as \<Rightarrow> if as = [] then JNull else JList (map dump_argument as))"

text \<open>\<open>InvokeOperationRequest.model_validate\<close>; \<open>None\<close> is its ValidationError.\<close>

definition parse_argument :: "json \<Rightarrow> argument option" where
  "parse_argument j =
     (case j of
        JDict d \<Rightarrow>
          (case (dget d ''idShort'', dget d ''valueType'') of
             (JStr s, JNull) \<Rightarrow>
               if dhas d ''value'' then Some \<lparr>arg_name = s, arg_value = dget d ''value'', arg_type = None\<rparr> else None
           | (JStr s, JStr t) \<Rightarrow>
               if dhas d ''value'' then Some \<lparr>arg_name = s, arg_value = dget d ''value'', arg_type = Some t\<rparr> else None
           | _ \<Rightarrow> None)
      | _ \<Rightarrow> None)"

definition parse_arguments :: "json list option \<Rightarrow> argument list option option" where
  "parse_arguments m =
     (case m of
        None \<Rightarrow> Some None
      | Some js \<Rightarrow>
          if list_all (\<lambda>j. parse_argument j \<noteq> None) js then Some (Some (map (the \<circ> parse_argument) js)) else None)"

definition parse_timeout :: "'s op_env \<Rightarrow> json \<Rightarrow> int option option" where
  "parse_timeout E j =
     (if j = JNull then Some None
      else case lax_int E j of
        None \<Rightarrow> None
      | Some n \<Rightarrow> if 0 \<le> n \<and> n \<le> 3600000 then Some (Some n) else None)"

definition parse_request :: "'s op_env \<Rightarrow> json list option \<Rightarrow> json list option \<Rightarrow> json \<Rightarrow> invoke_request option" where
  "parse_request E input inout timeout =
     (case (parse_arguments input, parse_arguments inout, parse_timeout E timeout) of
        (Some i, Some o', Some t) \<Rightarrow> Some \<lparr>rq_input = i, rq_inout = o', rq_timeout = t\<rparr>
      | _ \<Rightarrow> None)"

text \<open>The value-only representation and back.\<close>

definition coerce_value_only_arguments :: "json \<Rightarrow> failure + json list option" where
  "coerce_value_only_arguments v =
     (case v of
        JNull \<Rightarrow> Inr None
      | JList js \<Rightarrow> Inr (Some js)
      | JDict d \<Rightarrow> Inr (Some (map (\<lambda>(k, x). JDict [(''idShort'', JStr k), (''value'', x)]) d))
      | _ \<Rightarrow> Inl BadRequest)"

definition add_value :: "json \<Rightarrow> obj \<Rightarrow> obj" where
  "add_value j result =
     (case j of
        JDict a \<Rightarrow>
          (case dget a ''idShort'' of
             JStr s \<Rightarrow> if s \<noteq> [] then dset s (dget a ''value'') result else result
           | _ \<Rightarrow> result)
      | _ \<Rightarrow> result)"

definition arguments_to_value_map :: "json \<Rightarrow> json" where
  "arguments_to_value_map v =
     (if \<not> truthy v then JNull
      else case v of
        JDict d \<Rightarrow> JDict d
      | JList js \<Rightarrow> JDict (fold add_value js [])
      | _ \<Rightarrow> JNull)"

section \<open>The executor\<close>

text \<open>The names of the declared variables: elements with a non-empty \<open>idShort\<close>.\<close>

definition variable_name :: "json \<Rightarrow> string option" where
  "variable_name v =
     (case v of
        JDict var \<Rightarrow>
          (case dget var ''value'' of
             JDict e \<Rightarrow> (case dget e ''idShort'' of JStr s \<Rightarrow> if s \<noteq> [] then Some s else None | _ \<Rightarrow> None)
           | _ \<Rightarrow> None)
      | _ \<Rightarrow> None)"

definition declared :: "obj \<Rightarrow> string \<Rightarrow> json list" where
  "declared op k = (case dget op k of JList vs \<Rightarrow> vs | _ \<Rightarrow> [])"

definition build_variable_map :: "json list \<Rightarrow> string list" where
  "build_variable_map vs = List.map_filter variable_name vs"

definition validate_arguments :: "json list \<Rightarrow> argument list option \<Rightarrow> bool" where
  "validate_arguments vs m =
     (case m of
        None \<Rightarrow> True
      | Some as \<Rightarrow> as = [] \<or> (vs \<noteq> [] \<and> list_all (\<lambda>a. arg_name a \<in> set (build_variable_map vs)) as))"

text \<open>\<open>_validate_input_arguments\<close> and \<open>_validate_inoutput_arguments\<close>.\<close>

definition arguments_ok :: "obj \<Rightarrow> invoke_request \<Rightarrow> bool" where
  "arguments_ok op rq =
     (validate_arguments (declared op ''inputVariables'') (rq_input rq) \<and>
      validate_arguments (declared op ''inoutputVariables'') (rq_inout rq))"

definition invoked_event :: "string \<Rightarrow> nat list \<Rightarrow> string \<Rightarrow> invoke_request \<Rightarrow> string option \<Rightarrow> invocation_event" where
  "invoked_event h i path rq by =
     \<lparr>oe_kind = INVOKED, oe_id = h, oe_submodel = i, oe_b64 = b64_of i, oe_path = path, oe_state = PENDING,
      oe_input = dump_arguments (rq_input rq), oe_inout = dump_arguments (rq_inout rq),
      oe_timeout = rq_timeout rq, oe_by = by\<rparr>"

text \<open>The id of the invocation; the state of the result is always pending and the rest is empty.\<close>

definition invoke ::
  "'s op_env \<Rightarrow> trouble \<Rightarrow> nat list \<Rightarrow> string \<Rightarrow> obj \<Rightarrow> invoke_request \<Rightarrow> string option \<Rightarrow> ('s, string) op_handler" where
  "invoke E tr i path op rq by w =
     (if \<not> arguments_ok op rq then (w, Inl BadRequest)
      else (let h = handle_of E (handles w); w1 = w\<lparr>handles := Suc (handles w)\<rparr> in
            if tr = PublishFails then (w1, Inl outage)
            else (w1\<lparr>op_bus := op_bus w1 @ [invoked_event h i path rq by]\<rparr>, Inr h)))"

section \<open>The repository of invocations\<close>

definition new_invocation ::
  "string \<Rightarrow> nat list \<Rightarrow> string \<Rightarrow> string \<Rightarrow> invoke_request \<Rightarrow> string option \<Rightarrow> invocation" where
  "new_invocation h i seg path rq by =
     \<lparr>in_id = h, in_submodel = i, in_b64 = seg, in_path = path, in_state = state_value PENDING,
      in_input = dump_arguments (rq_input rq), in_output = JNull, in_inout = dump_arguments (rq_inout rq),
      in_message = None, in_code = None, in_timeout = rq_timeout rq, in_by = by\<rparr>"

text \<open>The primary key is unique.\<close>

definition create_invocation :: "trouble \<Rightarrow> invocation \<Rightarrow> ('s, unit) op_handler" where
  "create_invocation tr r w =
     (if tr = CreateFails then (w, Inl outage)
      else if in_id r \<in> in_id ` set (inv_tx w) then (w, Inl (Unhandled IntegrityError))
      else (w\<lparr>inv_tx := inv_tx w @ [r]\<rparr>, Inr ()))"

definition row_with_id :: "string \<Rightarrow> invocation list \<Rightarrow> invocation option" where
  "row_with_id h rows = find (\<lambda>r. in_id r = h) rows"

text \<open>A text that is no UUID is an error of the database.\<close>

definition get_invocation :: "'s op_env \<Rightarrow> string \<Rightarrow> ('s, invocation option) op_handler" where
  "get_invocation E h w =
     (case uuid_text E h of
        None \<Rightarrow> (w, Inl outage)
      | Some u \<Rightarrow> (w, Inr (row_with_id u (inv_tx w))))"

definition given_text :: "'a option \<Rightarrow> 'a option \<Rightarrow> 'a option" where
  "given_text new old = (case new of None \<Rightarrow> old | Some x \<Rightarrow> Some x)"

definition given_json :: "json option \<Rightarrow> json \<Rightarrow> json" where
  "given_json new old = (case new of None \<Rightarrow> old | Some x \<Rightarrow> x)"

definition updated_invocation ::
  "string \<Rightarrow> json option \<Rightarrow> json option \<Rightarrow> string option \<Rightarrow> string option \<Rightarrow> invocation \<Rightarrow> invocation" where
  "updated_invocation st output inout msg code r =
     r\<lparr>in_state := st, in_output := given_json output (in_output r), in_inout := given_json inout (in_inout r),
       in_message := given_text msg (in_message r), in_code := given_text code (in_code r)\<rparr>"

text \<open>No code of the repository calls this one.\<close>

definition update_state ::
  "'s op_env \<Rightarrow> string \<Rightarrow> string \<Rightarrow> json option \<Rightarrow> json option \<Rightarrow> string option \<Rightarrow> string option \<Rightarrow>
   ('s, invocation option) op_handler" where
  "update_state E h st output inout msg code =
     bindH (get_invocation E h) (\<lambda>m.
       case m of
         None \<Rightarrow> retH None
       | Some r \<Rightarrow>
           (\<lambda>w. (w\<lparr>inv_tx := map (\<lambda>q. if in_id q = in_id r then updated_invocation st output inout msg code q else q)
                                  (inv_tx w)\<rparr>,
                  Inr (Some (updated_invocation st output inout msg code r)))))"

text \<open>In the order of creation, which is that of the table; \<open>list_by_submodel\<close> has the newest first.\<close>

definition list_by_submodel :: "nat list \<Rightarrow> string option \<Rightarrow> nat \<Rightarrow> invocation list \<Rightarrow> invocation list" where
  "list_by_submodel i path limit rows =
     take limit (filter (\<lambda>r. in_submodel r = i \<and> (case path of Some (c # cs) \<Rightarrow> in_path r = c # cs | _ \<Rightarrow> True)) (rev rows))"

definition list_pending :: "nat \<Rightarrow> invocation list \<Rightarrow> invocation list" where
  "list_pending limit rows = take limit (filter (\<lambda>r. in_state r \<in> {''pending'', ''running''}) rows)"

section \<open>Invoking\<close>

text \<open>The element at the path, if it is an operation.\<close>

definition the_operation :: "'s op_env \<Rightarrow> obj \<Rightarrow> string \<Rightarrow> ('w, obj) act" where
  "the_operation E d path =
     bindH (pureH (navigate_id_short_path d path)) (\<lambda>r.
       case r of
         None \<Rightarrow> failH (NotFound ''SubmodelElement'' (code_points path))
       | Some x \<Rightarrow>
           if dget x ''modelType'' \<noteq> JStr ''Operation'' then failH BadRequest
           else (case valid_operation E x of Inl _ \<Rightarrow> failH BadRequest | Inr op \<Rightarrow> retH op))"

text \<open>
  \<open>user.subject if user else None\<close>: a \<open>User\<close> has a \<open>sub\<close> and no attribute \<open>subject\<close>, so that reading it of
  any user is an AttributeError, which nothing catches.
\<close>

definition requested_by :: "user option \<Rightarrow> failure + string option" where
  "requested_by u =
     (case u of
        None \<Rightarrow> Inr None
      | Some _ \<Rightarrow> Inl (Unhandled (Python AttributeError)))"

definition invoke_and_record ::
  "'s op_env \<Rightarrow> trouble \<Rightarrow> nat list \<Rightarrow> string \<Rightarrow> obj \<Rightarrow> string \<Rightarrow> invoke_request \<Rightarrow> user option \<Rightarrow>
   ('s, string) op_handler" where
  "invoke_and_record E tr i seg d path rq u =
     bindH (the_operation E d path) (\<lambda>op.
     bindH (\<lambda>w. (w, requested_by u)) (\<lambda>by.
     bindH (invoke E tr i path op rq by) (\<lambda>h.
     bindH (create_invocation tr (new_invocation h i seg path rq by)) (\<lambda>_.
     bindH (op_commit tr) (\<lambda>_. retH h)))))"

definition invoke_operation ::
  "'s op_env \<Rightarrow> trouble \<Rightarrow> string \<Rightarrow> string \<Rightarrow> invoke_request \<Rightarrow> user option \<Rightarrow> ('s, string) op_handler" where
  "invoke_operation E tr seg path rq u =
     bindH (decode_identifier seg) (\<lambda>i.
     bindH (serverH (current_submodel i)) (\<lambda>(d, _). invoke_and_record E tr i seg d path rq u))"

definition invoke_operation_for_shell ::
  "'s op_env \<Rightarrow> trouble \<Rightarrow> string \<Rightarrow> string \<Rightarrow> string \<Rightarrow> invoke_request \<Rightarrow> user option \<Rightarrow> ('s, string) op_handler" where
  "invoke_operation_for_shell E tr aseg seg path rq u =
     bindH (decode_identifier aseg) (\<lambda>i.
     bindH (decode_identifier seg) (\<lambda>j.
     bindH (serverH (load_submodel_for_shell (base_env E) aseg i seg j)) (\<lambda>(d, _).
       invoke_and_record E tr j seg d path rq u)))"

text \<open>A response with the header \<open>X-Invocation-Id\<close>.\<close>

type_synonym op_response = "response \<times> string option"

definition sync_response :: "string \<Rightarrow> op_response" where
  "sync_response h =
     (json_response (JDict [(''executionState'', JStr (state_value PENDING)), (''outputArguments'', JNull),
        (''inoutputArguments'', JNull)]), Some h)"

definition sync_value_response :: "string \<Rightarrow> op_response" where
  "sync_value_response h =
     (json_response (JDict [(''executionState'', JStr (state_value PENDING)),
        (''outputArguments'', arguments_to_value_map JNull), (''inoutputArguments'', arguments_to_value_map JNull)]), Some h)"

definition async_response :: "string \<Rightarrow> op_response" where
  "async_response h =
     (json_response (JDict [(''handleId'', JStr h), (''executionState'', JStr (state_value PENDING))]), None)"

text \<open>The body of a value-only request; what fails in Pydantic is not caught.\<close>

definition value_only_request :: "'s op_env \<Rightarrow> obj \<Rightarrow> ('w, invoke_request) act" where
  "value_only_request E p =
     (case coerce_value_only_arguments (dget p ''inputArguments'') of
        Inl f \<Rightarrow> failH f
      | Inr input \<Rightarrow>
          (case coerce_value_only_arguments (dget p ''inoutputArguments'') of
             Inl f \<Rightarrow> failH f
           | Inr inout \<Rightarrow>
               (case parse_request E input inout (dget p ''timeout'') of
                  None \<Rightarrow> failH (Unhandled (Python ValueError))
                | Some rq \<Rightarrow> retH rq)))"

definition invoke_operation_sync ::
  "'s op_env \<Rightarrow> trouble \<Rightarrow> string \<Rightarrow> string \<Rightarrow> invoke_request \<Rightarrow> user option \<Rightarrow> ('s, op_response) op_handler" where
  "invoke_operation_sync E tr seg path rq u = bindH (invoke_operation E tr seg path rq u) (\<lambda>h. retH (sync_response h))"

definition invoke_operation_sync_value_only ::
  "'s op_env \<Rightarrow> trouble \<Rightarrow> string \<Rightarrow> string \<Rightarrow> obj \<Rightarrow> user option \<Rightarrow> ('s, op_response) op_handler" where
  "invoke_operation_sync_value_only E tr seg path p u =
     bindH (value_only_request E p) (\<lambda>rq.
     bindH (invoke_operation E tr seg path rq u) (\<lambda>h. retH (sync_value_response h)))"

definition invoke_operation_async ::
  "'s op_env \<Rightarrow> trouble \<Rightarrow> string \<Rightarrow> string \<Rightarrow> invoke_request \<Rightarrow> user option \<Rightarrow> ('s, op_response) op_handler" where
  "invoke_operation_async E tr seg path rq u = bindH (invoke_operation E tr seg path rq u) (\<lambda>h. retH (async_response h))"

definition invoke_operation_async_value_only ::
  "'s op_env \<Rightarrow> trouble \<Rightarrow> string \<Rightarrow> string \<Rightarrow> obj \<Rightarrow> user option \<Rightarrow> ('s, op_response) op_handler" where
  "invoke_operation_async_value_only E tr seg path p u =
     bindH (value_only_request E p) (\<lambda>rq.
     bindH (invoke_operation E tr seg path rq u) (\<lambda>h. retH (async_response h)))"

definition invoke_operation_sync_for_shell ::
  "'s op_env \<Rightarrow> trouble \<Rightarrow> string \<Rightarrow> string \<Rightarrow> string \<Rightarrow> invoke_request \<Rightarrow> user option \<Rightarrow> ('s, op_response) op_handler" where
  "invoke_operation_sync_for_shell E tr aseg seg path rq u =
     bindH (invoke_operation_for_shell E tr aseg seg path rq u) (\<lambda>h. retH (sync_response h))"

definition invoke_operation_sync_value_only_for_shell ::
  "'s op_env \<Rightarrow> trouble \<Rightarrow> string \<Rightarrow> string \<Rightarrow> string \<Rightarrow> obj \<Rightarrow> user option \<Rightarrow> ('s, op_response) op_handler" where
  "invoke_operation_sync_value_only_for_shell E tr aseg seg path p u =
     bindH (value_only_request E p) (\<lambda>rq.
     bindH (invoke_operation_for_shell E tr aseg seg path rq u) (\<lambda>h. retH (sync_value_response h)))"

definition invoke_operation_async_for_shell ::
  "'s op_env \<Rightarrow> trouble \<Rightarrow> string \<Rightarrow> string \<Rightarrow> string \<Rightarrow> invoke_request \<Rightarrow> user option \<Rightarrow> ('s, op_response) op_handler" where
  "invoke_operation_async_for_shell E tr aseg seg path rq u =
     bindH (invoke_operation_for_shell E tr aseg seg path rq u) (\<lambda>h. retH (async_response h))"

definition invoke_operation_async_value_only_for_shell ::
  "'s op_env \<Rightarrow> trouble \<Rightarrow> string \<Rightarrow> string \<Rightarrow> string \<Rightarrow> obj \<Rightarrow> user option \<Rightarrow> ('s, op_response) op_handler" where
  "invoke_operation_async_value_only_for_shell E tr aseg seg path p u =
     bindH (value_only_request E p) (\<lambda>rq.
     bindH (invoke_operation_for_shell E tr aseg seg path rq u) (\<lambda>h. retH (async_response h)))"

section \<open>Polling\<close>

definition matching_invocation :: "'s op_env \<Rightarrow> nat list \<Rightarrow> string \<Rightarrow> string \<Rightarrow> ('s, invocation) op_handler" where
  "matching_invocation E i path h =
     bindH (get_invocation E h) (\<lambda>m.
       case m of
         None \<Rightarrow> failH (NotFound ''OperationResult'' (code_points h))
       | Some r \<Rightarrow>
           if in_path r \<noteq> path \<or> in_submodel r \<noteq> i then failH (NotFound ''OperationResult'' (code_points h))
           else retH r)"

definition failure_fields :: "invocation \<Rightarrow> obj" where
  "failure_fields r =
     (''message'', text_json (in_message r)) #
     (case in_code r of Some (c # cs) \<Rightarrow> [(''messageType'', JStr (c # cs))] | _ \<Rightarrow> [])"

definition status_fields :: "invocation \<Rightarrow> obj" where
  "status_fields r =
     (''executionState'', JStr (in_state r)) #
     (if in_state r = state_value FAILED then failure_fields r else [])"

definition result_fields :: "(json \<Rightarrow> json) \<Rightarrow> invocation \<Rightarrow> obj" where
  "result_fields f r =
     (''executionState'', JStr (in_state r)) #
     (if in_state r = state_value COMPLETED then
        [(''outputArguments'', f (in_output r)), (''inoutputArguments'', f (in_inout r))]
      else if in_state r = state_value FAILED then failure_fields r
      else [])"

definition polled :: "'s op_env \<Rightarrow> string \<Rightarrow> string \<Rightarrow> string \<Rightarrow> (invocation \<Rightarrow> obj) \<Rightarrow> ('s, response) op_handler" where
  "polled E seg path h shown =
     bindH (decode_identifier seg) (\<lambda>i.
     bindH (matching_invocation E i path h) (\<lambda>r. retH (json_response (JDict (shown r)))))"

definition polled_for_shell ::
  "'s op_env \<Rightarrow> string \<Rightarrow> string \<Rightarrow> string \<Rightarrow> string \<Rightarrow> (invocation \<Rightarrow> obj) \<Rightarrow> ('s, response) op_handler" where
  "polled_for_shell E aseg seg path h shown =
     bindH (decode_identifier aseg) (\<lambda>i.
     bindH (decode_identifier seg) (\<lambda>j.
     bindH (serverH (load_aas_doc (base_env E) aseg i)) (\<lambda>a.
     bindH (serverH (ensure_submodel_reference a j)) (\<lambda>_.
     bindH (matching_invocation E j path h) (\<lambda>r. retH (json_response (JDict (shown r))))))))"

definition get_operation_result :: "'s op_env \<Rightarrow> string \<Rightarrow> string \<Rightarrow> string \<Rightarrow> ('s, response) op_handler" where
  "get_operation_result E seg path h = polled E seg path h (result_fields (\<lambda>v. v))"

definition get_operation_status :: "'s op_env \<Rightarrow> string \<Rightarrow> string \<Rightarrow> string \<Rightarrow> ('s, response) op_handler" where
  "get_operation_status E seg path h = polled E seg path h status_fields"

definition get_operation_result_value_only :: "'s op_env \<Rightarrow> string \<Rightarrow> string \<Rightarrow> string \<Rightarrow> ('s, response) op_handler" where
  "get_operation_result_value_only E seg path h = polled E seg path h (result_fields arguments_to_value_map)"

definition get_operation_result_for_shell ::
  "'s op_env \<Rightarrow> string \<Rightarrow> string \<Rightarrow> string \<Rightarrow> string \<Rightarrow> ('s, response) op_handler" where
  "get_operation_result_for_shell E aseg seg path h = polled_for_shell E aseg seg path h (result_fields (\<lambda>v. v))"

definition get_operation_status_for_shell ::
  "'s op_env \<Rightarrow> string \<Rightarrow> string \<Rightarrow> string \<Rightarrow> string \<Rightarrow> ('s, response) op_handler" where
  "get_operation_status_for_shell E aseg seg path h = polled_for_shell E aseg seg path h status_fields"

definition get_operation_result_value_only_for_shell ::
  "'s op_env \<Rightarrow> string \<Rightarrow> string \<Rightarrow> string \<Rightarrow> string \<Rightarrow> ('s, response) op_handler" where
  "get_operation_result_value_only_for_shell E aseg seg path h =
     polled_for_shell E aseg seg path h (result_fields arguments_to_value_map)"

end
