(* ===== verification/OperationSpec.thy ===== *)
theory OperationSpec
  imports Operations SubmodelSpec
begin

text \<open>
  The server with its operations as a step relation: requests that invoke or poll, with whatever
  trouble of the bus or the database, and everything else the server does. Every record has its event, an
  event has no record only if creating or committing it failed, and since no code takes up what
  connectors report, every record stays pending.
\<close>

section \<open>Requests\<close>

datatype op_request =
    InvokeSync string string invoke_request "user option"
  | InvokeSyncValue string string obj "user option"
  | InvokeAsync string string invoke_request "user option"
  | InvokeAsyncValue string string obj "user option"
  | Result string string string
  | Status string string string
  | ResultValue string string string
  | InvokeSyncBelow string string string invoke_request "user option"
  | InvokeSyncValueBelow string string string obj "user option"
  | InvokeAsyncBelow string string string invoke_request "user option"
  | InvokeAsyncValueBelow string string string obj "user option"
  | ResultBelow string string string string
  | StatusBelow string string string string
  | ResultValueBelow string string string string

text \<open>An invocation carries the authenticated user, if there is one.\<close>

definition plain :: "('s, response) op_handler \<Rightarrow> ('s, op_response) op_handler" where
  "plain h = bindH h (\<lambda>r. retH (r, None))"

fun serve_op :: "'s op_env \<Rightarrow> trouble \<Rightarrow> op_request \<Rightarrow> ('s, op_response) op_handler" where
  "serve_op E tr (InvokeSync seg path rq u) = invoke_operation_sync E tr seg path rq u"
| "serve_op E tr (InvokeSyncValue seg path p u) = invoke_operation_sync_value_only E tr seg path p u"
| "serve_op E tr (InvokeAsync seg path rq u) = invoke_operation_async E tr seg path rq u"
| "serve_op E tr (InvokeAsyncValue seg path p u) = invoke_operation_async_value_only E tr seg path p u"
| "serve_op E tr (Result seg path h) = plain (get_operation_result E seg path h)"
| "serve_op E tr (Status seg path h) = plain (get_operation_status E seg path h)"
| "serve_op E tr (ResultValue seg path h) = plain (get_operation_result_value_only E seg path h)"
| "serve_op E tr (InvokeSyncBelow a seg path rq u) = invoke_operation_sync_for_shell E tr a seg path rq u"
| "serve_op E tr (InvokeSyncValueBelow a seg path p u) = invoke_operation_sync_value_only_for_shell E tr a seg path p u"
| "serve_op E tr (InvokeAsyncBelow a seg path rq u) = invoke_operation_async_for_shell E tr a seg path rq u"
| "serve_op E tr (InvokeAsyncValueBelow a seg path p u) = invoke_operation_async_value_only_for_shell E tr a seg path p u"
| "serve_op E tr (ResultBelow a seg path h) = plain (get_operation_result_for_shell E a seg path h)"
| "serve_op E tr (StatusBelow a seg path h) = plain (get_operation_status_for_shell E a seg path h)"
| "serve_op E tr (ResultValueBelow a seg path h) = plain (get_operation_result_value_only_for_shell E a seg path h)"

inductive op_step :: "'s op_env \<Rightarrow> 's ops \<Rightarrow> 's ops \<Rightarrow> bool" for E where
  operation: "op_step E w (fst (run_op (serve_op E tr rq) w))"
| elsewhere: "server_step (base_env E) (srv w) s \<Longrightarrow> op_step E w (w\<lparr>srv := s\<rparr>)"

definition op_start :: "'s op_env \<Rightarrow> 's ops \<Rightarrow> bool" where
  "op_start E w = (fresh_start (base_env E) (srv w) \<and> inv_db w = [] \<and> op_bus w = [] \<and> handles w = 0)"

text \<open>Drawn ids are different UUIDs in their normal form.\<close>

definition op_env_ok :: "'s op_env \<Rightarrow> bool" where
  "op_env_ok E = (inj (handle_of E) \<and> (\<forall>n. uuid_text E (handle_of E n) = Some (handle_of E n)))"

section \<open>Records and events\<close>

definition recorded :: "invocation \<Rightarrow> invocation_event \<Rightarrow> bool" where
  "recorded r ev =
     (oe_kind ev = INVOKED \<and> in_id r = oe_id ev \<and> in_submodel r = oe_submodel ev \<and> in_path r = oe_path ev \<and>
      in_input r = oe_input ev \<and> in_inout r = oe_inout ev \<and> in_timeout r = oe_timeout ev \<and> in_by r = oe_by ev \<and>
      in_state r = state_value PENDING \<and> in_output r = JNull)"

text \<open>
  What a request does to records and events: nothing; a record with its event, and it answers; or an event
  alone, and it fails. New events carry the next handles that were drawn.
\<close>

definition op_effect ::
  "'s op_env \<Rightarrow> trouble \<Rightarrow> bool \<Rightarrow> invocation list \<Rightarrow> invocation_event list \<Rightarrow> nat \<Rightarrow> 's ops \<Rightarrow> bool" where
  "op_effect E tr answered rows evs n w =
     (n \<le> handles w \<and>
      (inv_db w = rows \<and> op_bus w = evs \<or>
       (\<exists>ev. oe_by ev = None \<and> oe_id ev = handle_of E n \<and> n < handles w \<and> op_bus w = evs @ [ev] \<and>
          (if answered then \<exists>r. recorded r ev \<and> inv_db w = rows @ [r]
           else inv_db w = rows \<and> tr \<in> {CreateFails, CommitFails}))))"

definition records_ok :: "'s op_env \<Rightarrow> 's ops \<Rightarrow> bool" where
  "records_ok E w =
     (list_all2 recorded (inv_db w) (filter (\<lambda>ev. oe_id ev \<in> in_id ` set (inv_db w)) (op_bus w)) \<and>
      distinct (map oe_id (op_bus w)) \<and> oe_id ` set (op_bus w) \<subseteq> handle_of E ` {..<handles w} \<and>
      (\<forall>ev \<in> set (op_bus w). oe_by ev = None))"

text \<open>The session at a request's start, and as long as it has done nothing to records and events.\<close>

definition op_idle :: "'s op_env \<Rightarrow> invocation list \<Rightarrow> invocation_event list \<Rightarrow> nat \<Rightarrow> 's ops \<Rightarrow> bool" where
  "op_idle E rows evs n w =
     (inv_db w = rows \<and> inv_tx w = rows \<and> op_bus w = evs \<and> handles w = n \<and>
      in_id ` set rows \<subseteq> handle_of E ` {..<n})"

abbreviation op_quiet :: "'s op_env \<Rightarrow> invocation list \<Rightarrow> invocation_event list \<Rightarrow> nat \<Rightarrow> ('s, 'a) op_handler \<Rightarrow> bool" where
  "op_quiet E rows evs n h \<equiv> triple (op_idle E rows evs n) h (\<lambda>_. op_idle E rows evs n) (\<lambda>_. op_idle E rows evs n)"

abbreviation op_acts ::
  "'s op_env \<Rightarrow> trouble \<Rightarrow> invocation list \<Rightarrow> invocation_event list \<Rightarrow> nat \<Rightarrow> ('s, 'a) op_handler \<Rightarrow> bool" where
  "op_acts E tr rows evs n h \<equiv>
     triple (op_idle E rows evs n) h (\<lambda>_. op_effect E tr True rows evs n) (\<lambda>_. op_effect E tr False rows evs n)"

lemma idle_effect: "op_idle E rows evs n w \<Longrightarrow> op_effect E tr b rows evs n w"
  by (simp add: op_idle_def op_effect_def)

lemma quiet_acts: "op_quiet E rows evs n h \<Longrightarrow> op_acts E tr rows evs n h"
  by (auto simp: triple_def intro: idle_effect split: prod.splits sum.splits)

lemma quiet_server: "op_quiet E rows evs n (serverH h)"
  by (auto simp: triple_def serverH_def op_idle_def split: prod.split sum.split)

lemma quiet_get: "op_quiet E rows evs n (get_invocation E h)"
  by (auto simp: triple_def get_invocation_def split: option.split)

lemma quiet_then:
  "op_quiet E rows evs n m \<Longrightarrow> (\<And>a. op_quiet E rows evs n (f a)) \<Longrightarrow> op_quiet E rows evs n (bindH m f)"
  by (rule triple_bind)

lemma quiet_to_effect:
  "op_quiet E rows evs n m \<Longrightarrow>
   triple (op_idle E rows evs n) m (\<lambda>_. op_idle E rows evs n) (\<lambda>_. op_effect E tr False rows evs n)"
  by (auto simp: triple_def intro: idle_effect split: prod.splits sum.splits)

lemma acts_then:
  "op_quiet E rows evs n m \<Longrightarrow> (\<And>a. op_acts E tr rows evs n (f a)) \<Longrightarrow> op_acts E tr rows evs n (bindH m f)"
  by (rule triple_bind [OF quiet_to_effect])

lemma acts_return:
  assumes "op_acts E tr rows evs n m"
  shows "op_acts E tr rows evs n (bindH m (\<lambda>a. retH (f a)))"
  by (rule triple_bind [OF assms]) (simp add: triple_def retH_def)

lemma quiet_decoded: "op_quiet E rows evs n (decode_identifier s)"
  by (auto simp: triple_def decode_identifier_def retH_def failH_def split: sum.split)

lemma quiet_pure: "op_quiet E rows evs n (pureH m)"
  by (rule triple_pure) auto

lemma quiet_operation: "op_quiet E rows evs n (the_operation E d path)"
  unfolding the_operation_def
  by (intro quiet_then quiet_pure) (auto simp: triple_def retH_def failH_def split: option.split sum.split)

lemma quiet_value_request: "op_quiet E rows evs n (value_only_request E p)"
  by (auto simp: triple_def value_only_request_def retH_def failH_def split: option.split sum.split)

lemma new_handle: fixes f :: "nat \<Rightarrow> 'b" shows "inj f \<Longrightarrow> A \<subseteq> f ` {..<n} \<Longrightarrow> f n \<notin> A"
proof (rule notI)
  assume f: "inj f" "A \<subseteq> f ` {..<n}" "f n \<in> A"
  then have "f n \<in> f ` {..<n}" by blast
  then obtain k where "k < n" "f n = f k" by auto
  with injD [OF f(1), of n k] show False by simp
qed

lemma acts_invoke:
  assumes "op_env_ok E"
  shows "op_acts E tr rows evs n (bindH (\<lambda>w. (w, requested_by u)) (\<lambda>by. bindH (invoke E tr i path op rq by) (\<lambda>h.
    bindH (create_invocation tr (new_invocation h i seg path rq by)) (\<lambda>_. bindH (op_commit tr) (\<lambda>_. retH h)))))"
  using assms new_handle [of "handle_of E" "in_id ` set rows" n]
  by (cases u; cases tr)
    (auto simp: triple_def bindH_def invoke_def create_invocation_def op_commit_def retH_def op_idle_def op_effect_def
      new_invocation_def invoked_event_def recorded_def op_env_ok_def requested_by_def Let_def
      split: prod.split sum.split if_splits)

lemma acts_record:
  assumes "op_env_ok E"
  shows "op_acts E tr rows evs n (invoke_and_record E tr i seg d path rq u)"
  unfolding invoke_and_record_def by (rule acts_then [OF quiet_operation acts_invoke [OF assms]])

lemma acts_case: "(\<And>a b. op_acts E tr rows evs n (f a b)) \<Longrightarrow> op_acts E tr rows evs n (case x of (a, b) \<Rightarrow> f a b)"
  by (cases x) simp

lemma quiet_return: "op_quiet E rows evs n (retH a)" "op_quiet E rows evs n (failH f)"
  by (simp_all add: triple_def retH_def failH_def)

lemma quiet_matching: "op_quiet E rows evs n (matching_invocation E i path h)"
  unfolding matching_invocation_def
  by (intro quiet_then quiet_get) (auto simp: triple_def retH_def failH_def split: option.split)

lemma acts_invocations:
  assumes "op_env_ok E"
  shows "op_acts E tr rows evs n (invoke_operation E tr seg path rq u)"
    and "op_acts E tr rows evs n (invoke_operation_for_shell E tr aseg seg path rq u)"
  unfolding invoke_operation_def invoke_operation_for_shell_def
  by (intro acts_then quiet_decoded quiet_server acts_case acts_record assms)+

lemma quiet_polled:
  "op_quiet E rows evs n (polled E seg path h f)" "op_quiet E rows evs n (polled_for_shell E aseg seg path h f)"
  unfolding polled_def polled_for_shell_def
  by (intro quiet_then quiet_decoded quiet_server quiet_matching quiet_return)+

lemma acts_serve_op:
  assumes "op_env_ok E"
  shows "op_acts E tr rows evs n (serve_op E tr rq)"
  by (cases rq)
    (simp_all add: plain_def invoke_operation_sync_def invoke_operation_sync_value_only_def invoke_operation_async_def
      invoke_operation_async_value_only_def invoke_operation_sync_for_shell_def
      invoke_operation_sync_value_only_for_shell_def invoke_operation_async_for_shell_def
      invoke_operation_async_value_only_for_shell_def get_operation_result_def get_operation_status_def
      get_operation_result_value_only_def get_operation_result_for_shell_def get_operation_status_for_shell_def
      get_operation_result_value_only_for_shell_def acts_then acts_return quiet_value_request acts_invocations assms
      quiet_acts quiet_polled)

text \<open>The ids of records are those of events.\<close>

lemma recorded_ids: "list_all2 recorded rows evs \<Longrightarrow> map in_id rows = map oe_id evs"
  by (induction rule: list_all2_induct) (simp_all add: recorded_def)

lemma recorded_pending: "list_all2 recorded rows evs \<Longrightarrow> r \<in> set rows \<Longrightarrow> in_state r = state_value PENDING"
  by (induction rule: list_all2_induct) (auto simp: recorded_def)

lemma record_ids:
  assumes "records_ok E w"
  shows "in_id ` set (inv_db w) \<subseteq> oe_id ` set (op_bus w)" and "distinct (map in_id (inv_db w))"
proof -
  have ids: "map in_id (inv_db w) = map oe_id (filter (\<lambda>ev. oe_id ev \<in> in_id ` set (inv_db w)) (op_bus w))"
    using assms recorded_ids by (auto simp: records_ok_def)
  have "in_id ` set (inv_db w) = set (map in_id (inv_db w))" by simp
  also have "\<dots> \<subseteq> oe_id ` set (op_bus w)" unfolding ids by auto
  finally show "in_id ` set (inv_db w) \<subseteq> oe_id ` set (op_bus w)" .
  show "distinct (map in_id (inv_db w))"
    unfolding ids using assms by (auto simp: records_ok_def distinct_map_filter)
qed

lemma next_handle:
  assumes "op_env_ok E" and "records_ok E w"
  shows "handle_of E (handles w) \<notin> oe_id ` set (op_bus w)" and "handle_of E (handles w) \<notin> in_id ` set (inv_db w)"
proof -
  show new: "handle_of E (handles w) \<notin> oe_id ` set (op_bus w)"
    using assms by (intro new_handle) (simp_all add: op_env_ok_def records_ok_def)
  then show "handle_of E (handles w) \<notin> in_id ` set (inv_db w)" using record_ids(1) [OF assms(2)] by (rule contra_subsetD [rotated])
qed

lemma run_op_effect:
  assumes "op_env_ok E" and "records_ok E w" and "run_op (serve_op E tr rq) w = (w', r)"
  shows "op_effect E tr (\<not> isl r) (inv_db w) (op_bus w) (handles w) w'"
proof -
  let ?w = "w\<lparr>srv := (srv w)\<lparr>tx := db (srv w)\<rparr>, inv_tx := inv_db w\<rparr>"
  have idle: "op_idle E (inv_db w) (op_bus w) (handles w) ?w"
    using order_trans [OF record_ids(1) [OF assms(2)]] assms(2) by (simp add: op_idle_def records_ok_def)
  obtain v where v: "serve_op E tr rq ?w = (v, r)" "w' = v\<lparr>srv := (srv v)\<lparr>tx := db (srv v)\<rparr>, inv_tx := inv_db v\<rparr>"
    using assms(3) by (auto simp: run_op_def split: prod.splits)
  note acts = acts_serve_op [OF assms(1), where tr = tr and rows = "inv_db w" and evs = "op_bus w" and n = "handles w" and rq = rq]
  have "op_effect E tr (\<not> isl r) (inv_db w) (op_bus w) (handles w) v"
  proof (cases r)
    case (Inl f)
    with triple_Inl [OF acts idle] v(1) show ?thesis by simp
  next
    case (Inr a)
    with triple_Inr [OF acts idle] v(1) show ?thesis by simp
  qed
  moreover have "handles w' = handles v" "inv_db w' = inv_db v" "op_bus w' = op_bus v" by (simp_all add: v(2))
  ultimately show ?thesis unfolding op_effect_def by (simp only:)
qed

lemma effect_records:
  assumes E: "op_env_ok E" and w: "records_ok E w"
    and eff: "op_effect E tr b (inv_db w) (op_bus w) (handles w) w'"
  shows "records_ok E w'"
proof -
  let ?rows = "inv_db w" and ?evs = "op_bus w"
  have le: "handles w \<le> handles w'" using eff by (simp add: op_effect_def)
  then have grow: "handle_of E ` {..<handles w} \<subseteq> handle_of E ` {..<handles w'}" by auto
  from eff consider "inv_db w' = ?rows" "op_bus w' = ?evs"
    | ev where "oe_by ev = None" "oe_id ev = handle_of E (handles w)" "handles w < handles w'"
      "op_bus w' = ?evs @ [ev]" "(\<exists>r. recorded r ev \<and> inv_db w' = ?rows @ [r]) \<or> inv_db w' = ?rows"
    unfolding op_effect_def by (metis (full_types))
  then show ?thesis
  proof cases
    case 1
    have "oe_id ` set (op_bus w) \<subseteq> handle_of E ` {..<handles w'}"
      using w order_trans [OF _ grow] by (simp add: records_ok_def)
    with 1 w show ?thesis by (simp add: records_ok_def)
  next
    case (2 ev)
    have new: "oe_id ev \<notin> oe_id ` set ?evs"
      using next_handle(1) [OF E w] 2(2) by simp
    then have out: "oe_id ev \<notin> in_id ` set ?rows" using record_ids(1) [OF w] by blast
    have id: "recorded r ev \<Longrightarrow> in_id r = oe_id ev" for r by (simp add: recorded_def)
    have old: "filter (\<lambda>x. oe_id x = oe_id ev \<or> oe_id x \<in> in_id ` set ?rows) ?evs =
        filter (\<lambda>x. oe_id x \<in> in_id ` set ?rows) ?evs"
      using new by (intro filter_cong) (auto intro: rev_image_eqI)
    have "oe_id ` set (op_bus w') \<subseteq> handle_of E ` {..<handles w'}"
      using order_trans [OF _ grow, of "oe_id ` set ?evs"] w 2(2-4) by (simp add: records_ok_def)
    moreover have "list_all2 recorded (inv_db w') (filter (\<lambda>ev. oe_id ev \<in> in_id ` set (inv_db w')) (op_bus w'))"
      using 2(5)
    proof (elim disjE exE conjE)
      fix r assume r: "recorded r ev" "inv_db w' = ?rows @ [r]"
      have "filter (\<lambda>ev. oe_id ev \<in> in_id ` set (inv_db w')) (op_bus w') =
          filter (\<lambda>x. oe_id x \<in> in_id ` set ?rows) ?evs @ [ev]"
        by (simp add: r(2) 2(4) id [OF r(1)] old)
      then show ?thesis
        using w r by (simp only: records_ok_def list_all2_appendI list.rel_inject list.rel_intros)
    next
      assume same: "inv_db w' = ?rows"
      have "filter (\<lambda>ev. oe_id ev \<in> in_id ` set (inv_db w')) (op_bus w') =
          filter (\<lambda>x. oe_id x \<in> in_id ` set ?rows) ?evs"
        using out by (simp add: same 2(4))
      then show ?thesis using w by (simp only: records_ok_def same)
    qed
    moreover have "distinct (map oe_id (op_bus w'))" "\<forall>ev \<in> set (op_bus w'). oe_by ev = None"
      using w new 2(1) unfolding 2(4) records_ok_def by auto
    ultimately show ?thesis unfolding records_ok_def by blast
  qed
qed

interpretation operations: inductive_invariant
  "\<lambda>w. op_env_ok E \<and> op_start E w" "\<lambda>w w'. op_env_ok E \<and> op_step E w w'" "records_ok E" for E :: "'s op_env"
proof unfold_locales
  fix w :: "'s ops" assume "op_env_ok E \<and> op_start E w"
  then show "records_ok E w" by (simp add: op_start_def records_ok_def)
next
  fix w w' :: "'s ops" assume "op_env_ok E \<and> op_step E w w'" and w: "records_ok E w"
  then have E: "op_env_ok E" and "op_step E w w'" by simp_all
  from this(2) show "records_ok E w'"
  proof cases
    case (operation tr rq)
    obtain v r where run: "run_op (serve_op E tr rq) w = (v, r)" by fastforce
    from effect_records [OF E w run_op_effect [OF E w run]] operation run show ?thesis by simp
  next
    case (elsewhere s)
    with w show ?thesis by (simp add: records_ok_def)
  qed
qed

lemma reachable_records:
  assumes "op_env_ok E" and "op_start E w0" and "(op_step E)\<^sup>*\<^sup>* w0 w"
  shows "records_ok E w"
proof -
  have "(\<lambda>w w'. op_env_ok E \<and> op_step E w w')\<^sup>*\<^sup>* w0 w"
    using assms(1,3) by (metis (mono_tags, lifting) mono_rtranclp)
  from operations.reachable_inv [OF _ this] assms(1,2) show ?thesis by blast
qed

section \<open>What clients see\<close>


text \<open>The event alone is real: the commit fails, and a connector has the event of an invocation nobody can poll.\<close>

lemma commit_fails_event_stays:
  assumes "op_env_ok E" and "op_start E w0" and "(op_step E)\<^sup>*\<^sup>* w0 w"
    and "decode_id_from_b64url seg = Inr i" and "get_bytes_by_id i (submodels (db (srv w))) = Some (d, e)"
    and "navigate_id_short_path d path = Inr (Some x)" and "dget x ''modelType'' = JStr ''Operation''"
    and "valid_operation E x = Inr op" and "arguments_ok op rq"
  shows "inv_db (fst (run_op (invoke_operation_sync E CommitFails seg path rq None) w)) = inv_db w \<and>
    op_bus (fst (run_op (invoke_operation_sync E CommitFails seg path rq None) w)) =
      op_bus w @ [invoked_event (handle_of E (handles w)) i path rq None]"
proof -
  have ok: "records_ok E w" by (rule reachable_records [OF assms(1-3)])
  note next_handle(2) [OF assms(1) ok]
  with assms(4-9) show ?thesis
    by (simp add: run_op_def invoke_operation_sync_def invoke_operation_def invoke_and_record_def the_operation_def
        serverH_def current_submodel_def decode_identifier_def handlers invoke_def create_invocation_def op_commit_def
        new_invocation_def Let_def requested_by_def)
qed

lemma row_with_id_iff:
  assumes "distinct (map in_id rows)"
  shows "row_with_id u rows = Some r \<longleftrightarrow> r \<in> set rows \<and> in_id r = u"
  using assms by (induction rows) (auto simp: row_with_id_def)

lemma row_with_id_None: "row_with_id u rows = None \<longleftrightarrow> u \<notin> in_id ` set rows"
  by (auto simp: row_with_id_def find_None_iff)

text \<open>
  C17. Polling is exact and never ends: the handler of the result of a handle answers only at the operation the handle was
  given for --- another path, another submodel or an unknown handle is 404, and a text that is no UUID is an
  exception of the database, 500 ---, and the answer is \<open>pending\<close> in every state the server can reach, however
  long ago the operation was invoked. (This is what the handler does; routing lets no request reach it, see
  \<open>unreached_exact\<close>.)
\<close>

theorem polling_never_ends:
  assumes "op_env_ok E" and "op_start E w0" and "(op_step E)\<^sup>*\<^sup>* w0 w"
    and "decode_id_from_b64url seg = Inr i"
  shows "snd (run_op (get_operation_result E seg path h) w) =
    (case uuid_text E h of
       None \<Rightarrow> Inl outage
     | Some u \<Rightarrow>
         if \<exists>r \<in> set (inv_db w). in_id r = u \<and> in_submodel r = i \<and> in_path r = path
         then Inr (json_response (JDict [(''executionState'', JStr ''pending'')]))
         else Inl (NotFound ''OperationResult'' (code_points h)))"
proof (cases "uuid_text E h")
  case None
  with assms(4) show ?thesis
    by (simp add: run_op_def get_operation_result_def polled_def matching_invocation_def get_invocation_def
        decode_identifier_def bindH_def retH_def)
next
  case (Some u)
  let ?w = "w\<lparr>srv := (srv w)\<lparr>tx := db (srv w)\<rparr>, inv_tx := inv_db w\<rparr>"
  have ok: "records_ok E w" by (rule reachable_records [OF assms(1-3)])
  have distinct: "distinct (map in_id (inv_db w))"
    by (rule record_ids(2) [OF ok])
  have pending: "in_state r = state_value PENDING" if "r \<in> set (inv_db w)" for r
    using ok that recorded_pending unfolding records_ok_def by blast
  have "snd (run_op (get_operation_result E seg path h) w) = snd (get_operation_result E seg path h ?w)"
    by (simp add: run_op_def split: prod.split)
  also have "\<dots> = (case row_with_id u (inv_db w) of
      None \<Rightarrow> Inl (NotFound ''OperationResult'' (code_points h))
    | Some r \<Rightarrow> if in_path r \<noteq> path \<or> in_submodel r \<noteq> i then Inl (NotFound ''OperationResult'' (code_points h))
                 else Inr (json_response (JDict (result_fields (\<lambda>v. v) r))))"
    using assms(4) Some by (auto simp: get_operation_result_def polled_def matching_invocation_def get_invocation_def
        decode_identifier_def bindH_def retH_def failH_def split: option.split)
  also have "\<dots> = (if \<exists>r \<in> set (inv_db w). in_id r = u \<and> in_submodel r = i \<and> in_path r = path
     then Inr (json_response (JDict [(''executionState'', JStr ''pending'')]))
     else Inl (NotFound ''OperationResult'' (code_points h)))"
  proof (cases "row_with_id u (inv_db w)")
    case None
    then have "u \<notin> in_id ` set (inv_db w)" by (simp add: row_with_id_None)
    with None show ?thesis by auto
  next
    case (Some r)
    then have r: "r \<in> set (inv_db w)" "in_id r = u" by (simp_all add: row_with_id_iff [OF distinct])
    have "r' = r" if "r' \<in> set (inv_db w)" "in_id r' = u" for r'
      using that Some row_with_id_iff [OF distinct, of u r'] by simp
    with r have "(\<exists>r \<in> set (inv_db w). in_id r = u \<and> in_submodel r = i \<and> in_path r = path) \<longleftrightarrow>
      in_submodel r = i \<and> in_path r = path" by blast
    with Some pending [OF r(1)] show ?thesis by (simp add: result_fields_def)
  qed
  finally show ?thesis using Some by simp
qed

text \<open>
  C14. An invocation is exact, and only anonymous ones succeed: of an operation that is stored and valid, by
  a request without a user (authentication is not configured), with arguments that it declares and the bus and
  the database working, the handler draws one handle, publishes one event, records one invocation without a
  requester, and answers pending with the handle; with any other argument it answers 400, and nothing is
  published or recorded. For a request with an authenticated user it always fails with an AttributeError
  (500): it reads \<open>user.subject\<close>, and \<open>User\<close> has only \<open>sub\<close>; nothing is published or recorded.
\<close>

theorem invoke_exact:
  assumes "op_env_ok E" and "op_start E w0" and "(op_step E)\<^sup>*\<^sup>* w0 w"
    and "decode_id_from_b64url seg = Inr i" and "get_bytes_by_id i (submodels (db (srv w))) = Some (d, e)"
    and "navigate_id_short_path d path = Inr (Some x)" and "dget x ''modelType'' = JStr ''Operation''"
    and "valid_operation E x = Inr op"
  shows "run_op (invoke_operation_sync E NoTrouble seg path rq user) w =
    (let h = handle_of E (handles w); w' = w\<lparr>srv := (srv w)\<lparr>tx := db (srv w)\<rparr>, inv_tx := inv_db w\<rparr> in
     if user \<noteq> None then (w', Inl (Unhandled (Python AttributeError)))
     else if arguments_ok op rq
     then (w'\<lparr>handles := Suc (handles w), op_bus := op_bus w @ [invoked_event h i path rq None],
              inv_db := inv_db w @ [new_invocation h i seg path rq None],
              inv_tx := inv_db w @ [new_invocation h i seg path rq None]\<rparr>, Inr (sync_response h))
     else (w', Inl BadRequest))"
proof -
  have ok: "records_ok E w" by (rule reachable_records [OF assms(1-3)])
  note next_handle(2) [OF assms(1) ok]
  with assms(4-8) show ?thesis
    by (cases user)
      (simp_all add: run_op_def invoke_operation_sync_def invoke_operation_def invoke_and_record_def the_operation_def
        serverH_def current_submodel_def decode_identifier_def handlers invoke_def create_invocation_def op_commit_def
        new_invocation_def Let_def requested_by_def)
qed

section \<open>An instance\<close>

definition sample_ops :: "(string \<times> json) list op_env" where
  "sample_ops =
     \<lparr>base_env = sample_env, handle_of = show_nat, valid_operation = Inr, lax_int = (\<lambda>_. None), uuid_text = Some\<rparr>"

lemma sample_ops_ok: "op_env_ok sample_ops"
  by (simp add: op_env_ok_def sample_ops_def inj_def show_nat_inj)

definition idle :: "(string \<times> json) list ops" where
  "idle = \<lparr>srv = empty_world, inv_db = [], inv_tx = [], op_bus = [], handles = 0\<rparr>"

lemma idle_start: "op_start sample_ops idle"
  using empty_world_fresh by (simp add: op_start_def idle_def sample_ops_def)

definition start_pump :: obj where
  "start_pump =
     [(''modelType'', JStr ''Operation''), (''idShort'', JStr ''S''),
      (''inputVariables'', JList [JDict [(''value'', JDict [(''modelType'', JStr ''Property''), (''idShort'', JStr ''v'')])]])]"

definition machine :: obj where
  "machine = [(''id'', JStr ''M''), (''idShort'', JStr ''v1''), (''submodelElements'', JList [JDict start_pump])]"

definition faster :: invoke_request where
  "faster = \<lparr>rq_input = Some [\<lparr>arg_name = ''v'', arg_value = JInt 3, arg_type = None\<rparr>], rq_inout = None, rq_timeout = None\<rparr>"

text \<open>The server with the submodel, and after one invocation.\<close>

definition ready :: "(string \<times> json) list ops" where
  "ready = idle\<lparr>srv := serve_all sample_env [OnSubmodels (PostSubmodel machine)] empty_world\<rparr>"

definition running :: "(string \<times> json) list ops" where
  "running = fst (run_op (serve_op sample_ops NoTrouble (InvokeSync ''TQ'' ''S'' faster None)) ready)"

lemma lifted_steps: "(server_step (base_env E))\<^sup>*\<^sup>* s s' \<Longrightarrow> (op_step E)\<^sup>*\<^sup>* (w\<lparr>srv := s\<rparr>) (w\<lparr>srv := s'\<rparr>)"
proof (induction rule: rtranclp_induct)
  case (step y z)
  from op_step.elsewhere [of E "w\<lparr>srv := y\<rparr>" z] step(2) have "op_step E (w\<lparr>srv := y\<rparr>) (w\<lparr>srv := z\<rparr>)" by simp
  with step(3) show ?case by simp
qed simp

lemma ready_steps: "(op_step sample_ops)\<^sup>*\<^sup>* idle ready"
proof -
  have base: "base_env sample_ops = sample_env" by (simp add: sample_ops_def)
  have "(server_step (base_env sample_ops))\<^sup>*\<^sup>* empty_world
    (serve_all sample_env [OnSubmodels (PostSubmodel machine)] empty_world)"
    unfolding base by (rule serve_all_steps) (simp add: canonical_request_def)
  from lifted_steps [OF this, of idle] show ?thesis by (simp add: ready_def idle_def)
qed

lemma running_steps: "(op_step sample_ops)\<^sup>*\<^sup>* idle running"
  unfolding running_def by (rule rtranclp.rtrancl_into_rtrancl [OF ready_steps op_step.operation])


theorem polling_never_ends_witness:
  "snd (run_op (get_operation_result sample_ops ''TQ'' ''S'' ''0'') running) =
   Inr (json_response (JDict [(''executionState'', JStr ''pending'')]))"
proof -
  have "decode_id_from_b64url ''TQ'' = Inr [77]" by code_simp
  moreover have "uuid_text sample_ops ''0'' = Some ''0''" by (simp add: sample_ops_def)
  moreover have "\<exists>r \<in> set (inv_db running). in_id r = ''0'' \<and> in_submodel r = [77] \<and> in_path r = ''S''" by code_simp
  ultimately show ?thesis
    using polling_never_ends [OF sample_ops_ok idle_start running_steps, of "''TQ''" "[77]" "''S''" "''0''"] by simp
qed

theorem invoke_exact_witness:
  "snd (run_op (invoke_operation_sync sample_ops NoTrouble ''TQ'' ''S'' faster None) ready) = Inr (sync_response ''0'')"
proof -
  have "decode_id_from_b64url ''TQ'' = Inr [77]" by code_simp
  moreover have "get_bytes_by_id [77] (submodels (db (srv ready))) = Some (machine, ''v1'')" by code_simp
  moreover have "navigate_id_short_path machine ''S'' = Inr (Some start_pump)" by code_simp
  moreover have "dget start_pump ''modelType'' = JStr ''Operation''" by code_simp
  moreover have "valid_operation sample_ops start_pump = Inr start_pump" by (simp add: sample_ops_def)
  moreover have "arguments_ok start_pump faster" by code_simp
  moreover have "handle_of sample_ops (handles ready) = ''0''" by code_simp
  ultimately show ?thesis
    using invoke_exact [OF sample_ops_ok idle_start ready_steps, of "''TQ''" "[77]" machine "''v1''" "''S''" start_pump start_pump faster None]
    by (simp add: Let_def)
qed

end
