(* ===== verification/Routes.thy ===== *)
theory Routes
  imports AccessControl
begin

text \<open>
  The routes of the HTTP application (the decorators in \<open>src/titan/api/routers/\<close>, in the order the routers
  are included in \<open>src/titan/api/app.py\<close>): which handler a request reaches, and what guards it. The
  framework takes the first route whose template and method fit. A template is matched against a path
  without line breaks; health checks, metrics, the dashboard and the web sockets have paths of their
  own and are left out.
\<close>

section \<open>Templates\<close>

text \<open>
  The segments of a template: fixed text, \<open>{name}\<close> (one segment that is not empty) and \<open>{name:path}\<close>
  (any text, so one or more segments). A path is cut at its slashes after the first.
\<close>

datatype piece = Lit string | Seg string | Rest string

definition path_segments :: "string \<Rightarrow> string list" where
  "path_segments p = (case p of [] \<Rightarrow> [] | c # s \<Rightarrow> split_char CHR ''/'' s)"

fun matches :: "piece list \<Rightarrow> string list \<Rightarrow> bool" where
  "matches [] xs = (xs = [])"
| "matches (Lit l # ps) xs = (case xs of [] \<Rightarrow> False | x # xs' \<Rightarrow> x = l \<and> matches ps xs')"
| "matches (Seg n # ps) xs = (case xs of [] \<Rightarrow> False | x # xs' \<Rightarrow> x \<noteq> [] \<and> matches ps xs')"
| "matches (Rest n # ps) xs = list_ex (\<lambda>k. matches ps (drop k xs)) [1..<Suc (length xs)]"

record guard =
  g_permission :: permission
  g_type :: "resource_type option"
  g_params :: "string list option"

definition needs :: "permission \<Rightarrow> resource_type option \<Rightarrow> string list option \<Rightarrow> guard option" where
  "needs p t ids = Some \<lparr>g_permission = p, g_type = t, g_params = ids\<rparr>"

record route =
  r_method :: string
  r_template :: "piece list"
  r_guard :: "guard option"
  r_handler :: string

definition route :: "string \<Rightarrow> piece list \<Rightarrow> guard option \<Rightarrow> string \<Rightarrow> route" where
  "route m t g h = \<lparr>r_method = m, r_template = t, r_guard = g, r_handler = h\<rparr>"

definition dispatch :: "route list \<Rightarrow> string \<Rightarrow> string \<Rightarrow> route option" where
  "dispatch rs m p = find (\<lambda>r. r_method r = m \<and> matches (r_template r) (path_segments p)) rs"

section \<open>The routes\<close>

subsection \<open>\<open>api/routers/aas_repository.py\<close>\<close>

definition route_get_all_shells :: route where
  "route_get_all_shells =
     route ''GET'' [Lit ''shells'']
       (needs READ_AAS None None) ''get_all_shells''"

definition route_get_all_shells_metadata :: route where
  "route_get_all_shells_metadata =
     route ''GET'' [Lit ''shells'', Lit ''$metadata'']
       (needs READ_AAS None None) ''get_all_shells_metadata''"

definition route_get_all_shell_references :: route where
  "route_get_all_shell_references =
     route ''GET'' [Lit ''shells'', Lit ''$reference'']
       (needs READ_AAS None None) ''get_all_shell_references''"

definition route_post_shell :: route where
  "route_post_shell =
     route ''POST'' [Lit ''shells'']
       (needs CREATE_AAS None None) ''post_shell''"

definition route_get_shell_by_id :: route where
  "route_get_shell_by_id =
     route ''GET'' [Lit ''shells'', Seg ''aas_identifier'']
       (needs READ_AAS None (Some [''aas_identifier''])) ''get_shell_by_id''"

definition route_put_shell_by_id :: route where
  "route_put_shell_by_id =
     route ''PUT'' [Lit ''shells'', Seg ''aas_identifier'']
       (needs UPDATE_AAS None (Some [''aas_identifier''])) ''put_shell_by_id''"

definition route_delete_shell_by_id :: route where
  "route_delete_shell_by_id =
     route ''DELETE'' [Lit ''shells'', Seg ''aas_identifier'']
       (needs DELETE_AAS None (Some [''aas_identifier''])) ''delete_shell_by_id''"

definition route_get_shell_metadata :: route where
  "route_get_shell_metadata =
     route ''GET'' [Lit ''shells'', Seg ''aas_identifier'', Lit ''$metadata'']
       (needs READ_AAS None (Some [''aas_identifier''])) ''get_shell_metadata''"

definition route_get_shell_reference :: route where
  "route_get_shell_reference =
     route ''GET'' [Lit ''shells'', Seg ''aas_identifier'', Lit ''$reference'']
       (needs READ_AAS None (Some [''aas_identifier''])) ''get_shell_reference''"

definition route_get_asset_information :: route where
  "route_get_asset_information =
     route ''GET'' [Lit ''shells'', Seg ''aas_identifier'', Lit ''asset-information'']
       (needs READ_AAS None (Some [''aas_identifier''])) ''get_asset_information''"

definition route_put_asset_information :: route where
  "route_put_asset_information =
     route ''PUT'' [Lit ''shells'', Seg ''aas_identifier'', Lit ''asset-information'']
       (needs UPDATE_AAS None (Some [''aas_identifier''])) ''put_asset_information''"

definition route_get_asset_information_thumbnail :: route where
  "route_get_asset_information_thumbnail =
     route ''GET'' [Lit ''shells'', Seg ''aas_identifier'', Lit ''asset-information'', Lit ''thumbnail'']
       (needs READ_AAS None (Some [''aas_identifier''])) ''get_asset_information_thumbnail''"

definition route_put_asset_information_thumbnail :: route where
  "route_put_asset_information_thumbnail =
     route ''PUT'' [Lit ''shells'', Seg ''aas_identifier'', Lit ''asset-information'', Lit ''thumbnail'']
       (needs UPDATE_AAS None (Some [''aas_identifier''])) ''put_asset_information_thumbnail''"

definition route_delete_asset_information_thumbnail :: route where
  "route_delete_asset_information_thumbnail =
     route ''DELETE'' [Lit ''shells'', Seg ''aas_identifier'', Lit ''asset-information'', Lit ''thumbnail'']
       (needs UPDATE_AAS None (Some [''aas_identifier''])) ''delete_asset_information_thumbnail''"

definition route_get_submodel_references :: route where
  "route_get_submodel_references =
     route ''GET'' [Lit ''shells'', Seg ''aas_identifier'', Lit ''submodel-refs'']
       (needs READ_AAS None (Some [''aas_identifier''])) ''get_submodel_references''"

definition route_post_submodel_reference :: route where
  "route_post_submodel_reference =
     route ''POST'' [Lit ''shells'', Seg ''aas_identifier'', Lit ''submodel-refs'']
       (needs UPDATE_AAS None (Some [''aas_identifier''])) ''post_submodel_reference''"

definition route_delete_submodel_reference :: route where
  "route_delete_submodel_reference =
     route ''DELETE'' [Lit ''shells'', Seg ''aas_identifier'', Lit ''submodel-refs'', Seg ''submodel_identifier'']
       (needs UPDATE_AAS None (Some [''aas_identifier''])) ''delete_submodel_reference''"

definition route_get_submodels_for_shell :: route where
  "route_get_submodels_for_shell =
     route ''GET'' [Lit ''shells'', Seg ''aas_identifier'', Lit ''submodels'']
       (needs READ_SUBMODEL None None) ''get_submodels_for_shell''"

definition route_get_submodel_by_id_for_shell :: route where
  "route_get_submodel_by_id_for_shell =
     route ''GET'' [Lit ''shells'', Seg ''aas_identifier'', Lit ''submodels'', Seg ''submodel_identifier'']
       (needs READ_SUBMODEL None (Some [''submodel_identifier''])) ''get_submodel_by_id_for_shell''"

definition route_put_submodel_by_id_for_shell :: route where
  "route_put_submodel_by_id_for_shell =
     route ''PUT'' [Lit ''shells'', Seg ''aas_identifier'', Lit ''submodels'', Seg ''submodel_identifier'']
       (needs UPDATE_SUBMODEL None (Some [''submodel_identifier''])) ''put_submodel_by_id_for_shell''"

definition route_patch_submodel_by_id_for_shell :: route where
  "route_patch_submodel_by_id_for_shell =
     route ''PATCH'' [Lit ''shells'', Seg ''aas_identifier'', Lit ''submodels'', Seg ''submodel_identifier'']
       (needs UPDATE_SUBMODEL None (Some [''submodel_identifier''])) ''patch_submodel_by_id_for_shell''"

definition route_delete_submodel_by_id_for_shell :: route where
  "route_delete_submodel_by_id_for_shell =
     route ''DELETE'' [Lit ''shells'', Seg ''aas_identifier'', Lit ''submodels'', Seg ''submodel_identifier'']
       (needs DELETE_SUBMODEL None (Some [''submodel_identifier''])) ''delete_submodel_by_id_for_shell''"

definition route_get_submodel_metadata_for_shell :: route where
  "route_get_submodel_metadata_for_shell =
     route ''GET'' [Lit ''shells'', Seg ''aas_identifier'', Lit ''submodels'', Seg ''submodel_identifier'', Lit ''$metadata'']
       (needs READ_SUBMODEL None (Some [''submodel_identifier''])) ''get_submodel_metadata_for_shell''"

definition route_patch_submodel_metadata_for_shell :: route where
  "route_patch_submodel_metadata_for_shell =
     route ''PATCH'' [Lit ''shells'', Seg ''aas_identifier'', Lit ''submodels'', Seg ''submodel_identifier'', Lit ''$metadata'']
       (needs UPDATE_SUBMODEL None (Some [''submodel_identifier''])) ''patch_submodel_metadata_for_shell''"

definition route_get_submodel_value_for_shell :: route where
  "route_get_submodel_value_for_shell =
     route ''GET'' [Lit ''shells'', Seg ''aas_identifier'', Lit ''submodels'', Seg ''submodel_identifier'', Lit ''$value'']
       (needs READ_SUBMODEL None (Some [''submodel_identifier''])) ''get_submodel_value_for_shell''"

definition route_patch_submodel_value_for_shell :: route where
  "route_patch_submodel_value_for_shell =
     route ''PATCH'' [Lit ''shells'', Seg ''aas_identifier'', Lit ''submodels'', Seg ''submodel_identifier'', Lit ''$value'']
       (needs UPDATE_SUBMODEL None (Some [''submodel_identifier''])) ''patch_submodel_value_for_shell''"

definition route_get_submodel_reference_for_shell :: route where
  "route_get_submodel_reference_for_shell =
     route ''GET'' [Lit ''shells'', Seg ''aas_identifier'', Lit ''submodels'', Seg ''submodel_identifier'', Lit ''$reference'']
       (needs READ_SUBMODEL None (Some [''submodel_identifier''])) ''get_submodel_reference_for_shell''"

definition route_get_submodel_path_for_shell :: route where
  "route_get_submodel_path_for_shell =
     route ''GET'' [Lit ''shells'', Seg ''aas_identifier'', Lit ''submodels'', Seg ''submodel_identifier'', Lit ''$path'']
       (needs READ_SUBMODEL None (Some [''submodel_identifier''])) ''get_submodel_path_for_shell''"

definition route_get_submodel_elements_for_shell :: route where
  "route_get_submodel_elements_for_shell =
     route ''GET'' [Lit ''shells'', Seg ''aas_identifier'', Lit ''submodels'', Seg ''submodel_identifier'', Lit ''submodel-elements'']
       (needs READ_SUBMODEL None (Some [''submodel_identifier''])) ''get_submodel_elements_for_shell''"

definition route_get_all_submodel_elements_metadata_for_shell :: route where
  "route_get_all_submodel_elements_metadata_for_shell =
     route ''GET'' [Lit ''shells'', Seg ''aas_identifier'', Lit ''submodels'', Seg ''submodel_identifier'', Lit ''submodel-elements'', Lit ''$metadata'']
       (needs READ_SUBMODEL None (Some [''submodel_identifier''])) ''get_all_submodel_elements_metadata_for_shell''"

definition route_get_all_submodel_elements_value_for_shell :: route where
  "route_get_all_submodel_elements_value_for_shell =
     route ''GET'' [Lit ''shells'', Seg ''aas_identifier'', Lit ''submodels'', Seg ''submodel_identifier'', Lit ''submodel-elements'', Lit ''$value'']
       (needs READ_SUBMODEL None (Some [''submodel_identifier''])) ''get_all_submodel_elements_value_for_shell''"

definition route_get_all_submodel_elements_reference_for_shell :: route where
  "route_get_all_submodel_elements_reference_for_shell =
     route ''GET'' [Lit ''shells'', Seg ''aas_identifier'', Lit ''submodels'', Seg ''submodel_identifier'', Lit ''submodel-elements'', Lit ''$reference'']
       (needs READ_SUBMODEL None (Some [''submodel_identifier''])) ''get_all_submodel_elements_reference_for_shell''"

definition route_get_all_submodel_elements_path_for_shell :: route where
  "route_get_all_submodel_elements_path_for_shell =
     route ''GET'' [Lit ''shells'', Seg ''aas_identifier'', Lit ''submodels'', Seg ''submodel_identifier'', Lit ''submodel-elements'', Lit ''$path'']
       (needs READ_SUBMODEL None (Some [''submodel_identifier''])) ''get_all_submodel_elements_path_for_shell''"

definition route_get_submodel_element_by_path_for_shell :: route where
  "route_get_submodel_element_by_path_for_shell =
     route ''GET'' [Lit ''shells'', Seg ''aas_identifier'', Lit ''submodels'', Seg ''submodel_identifier'', Lit ''submodel-elements'', Rest ''id_short_path'']
       (needs READ_SUBMODEL (Some SubmodelElement) (Some [''submodel_identifier'', ''id_short_path''])) ''get_submodel_element_by_path_for_shell''"

definition route_get_submodel_element_metadata_for_shell :: route where
  "route_get_submodel_element_metadata_for_shell =
     route ''GET'' [Lit ''shells'', Seg ''aas_identifier'', Lit ''submodels'', Seg ''submodel_identifier'', Lit ''submodel-elements'', Rest ''id_short_path'', Lit ''$metadata'']
       (needs READ_SUBMODEL (Some SubmodelElement) (Some [''submodel_identifier'', ''id_short_path''])) ''get_submodel_element_metadata_for_shell''"

definition route_get_submodel_element_value_for_shell :: route where
  "route_get_submodel_element_value_for_shell =
     route ''GET'' [Lit ''shells'', Seg ''aas_identifier'', Lit ''submodels'', Seg ''submodel_identifier'', Lit ''submodel-elements'', Rest ''id_short_path'', Lit ''$value'']
       (needs READ_SUBMODEL (Some SubmodelElement) (Some [''submodel_identifier'', ''id_short_path''])) ''get_submodel_element_value_for_shell''"

definition route_get_submodel_element_reference_for_shell :: route where
  "route_get_submodel_element_reference_for_shell =
     route ''GET'' [Lit ''shells'', Seg ''aas_identifier'', Lit ''submodels'', Seg ''submodel_identifier'', Lit ''submodel-elements'', Rest ''id_short_path'', Lit ''$reference'']
       (needs READ_SUBMODEL (Some SubmodelElement) (Some [''submodel_identifier'', ''id_short_path''])) ''get_submodel_element_reference_for_shell''"

definition route_get_submodel_element_path_for_shell :: route where
  "route_get_submodel_element_path_for_shell =
     route ''GET'' [Lit ''shells'', Seg ''aas_identifier'', Lit ''submodels'', Seg ''submodel_identifier'', Lit ''submodel-elements'', Rest ''id_short_path'', Lit ''$path'']
       (needs READ_SUBMODEL (Some SubmodelElement) (Some [''submodel_identifier'', ''id_short_path''])) ''get_submodel_element_path_for_shell''"

definition route_get_element_attachment_for_shell :: route where
  "route_get_element_attachment_for_shell =
     route ''GET'' [Lit ''shells'', Seg ''aas_identifier'', Lit ''submodels'', Seg ''submodel_identifier'', Lit ''submodel-elements'', Rest ''id_short_path'', Lit ''attachment'']
       (needs READ_SUBMODEL (Some SubmodelElement) (Some [''submodel_identifier'', ''id_short_path''])) ''get_element_attachment_for_shell''"

definition route_put_element_attachment_for_shell :: route where
  "route_put_element_attachment_for_shell =
     route ''PUT'' [Lit ''shells'', Seg ''aas_identifier'', Lit ''submodels'', Seg ''submodel_identifier'', Lit ''submodel-elements'', Rest ''id_short_path'', Lit ''attachment'']
       (needs UPDATE_SUBMODEL (Some SubmodelElement) (Some [''submodel_identifier'', ''id_short_path''])) ''put_element_attachment_for_shell''"

definition route_delete_element_attachment_for_shell :: route where
  "route_delete_element_attachment_for_shell =
     route ''DELETE'' [Lit ''shells'', Seg ''aas_identifier'', Lit ''submodels'', Seg ''submodel_identifier'', Lit ''submodel-elements'', Rest ''id_short_path'', Lit ''attachment'']
       (needs UPDATE_SUBMODEL (Some SubmodelElement) (Some [''submodel_identifier'', ''id_short_path''])) ''delete_element_attachment_for_shell''"

definition route_invoke_operation_sync_for_shell :: route where
  "route_invoke_operation_sync_for_shell =
     route ''POST'' [Lit ''shells'', Seg ''aas_identifier'', Lit ''submodels'', Seg ''submodel_identifier'', Lit ''submodel-elements'', Rest ''id_short_path'', Lit ''invoke'']
       (needs INVOKE_OPERATION (Some SubmodelElement) (Some [''submodel_identifier'', ''id_short_path''])) ''invoke_operation_sync_for_shell''"

definition route_invoke_operation_sync_value_only_for_shell :: route where
  "route_invoke_operation_sync_value_only_for_shell =
     route ''POST'' [Lit ''shells'', Seg ''aas_identifier'', Lit ''submodels'', Seg ''submodel_identifier'', Lit ''submodel-elements'', Rest ''id_short_path'', Lit ''invoke'', Lit ''$value'']
       (needs INVOKE_OPERATION (Some SubmodelElement) (Some [''submodel_identifier'', ''id_short_path''])) ''invoke_operation_sync_value_only_for_shell''"

definition route_invoke_operation_async_for_shell :: route where
  "route_invoke_operation_async_for_shell =
     route ''POST'' [Lit ''shells'', Seg ''aas_identifier'', Lit ''submodels'', Seg ''submodel_identifier'', Lit ''submodel-elements'', Rest ''id_short_path'', Lit ''invoke-async'']
       (needs INVOKE_OPERATION (Some SubmodelElement) (Some [''submodel_identifier'', ''id_short_path''])) ''invoke_operation_async_for_shell''"

definition route_invoke_operation_async_value_only_for_shell :: route where
  "route_invoke_operation_async_value_only_for_shell =
     route ''POST'' [Lit ''shells'', Seg ''aas_identifier'', Lit ''submodels'', Seg ''submodel_identifier'', Lit ''submodel-elements'', Rest ''id_short_path'', Lit ''invoke-async'', Lit ''$value'']
       (needs INVOKE_OPERATION (Some SubmodelElement) (Some [''submodel_identifier'', ''id_short_path''])) ''invoke_operation_async_value_only_for_shell''"

definition route_get_operation_status_for_shell :: route where
  "route_get_operation_status_for_shell =
     route ''GET'' [Lit ''shells'', Seg ''aas_identifier'', Lit ''submodels'', Seg ''submodel_identifier'', Lit ''submodel-elements'', Rest ''id_short_path'', Lit ''operation-status'', Seg ''handle_id'']
       (needs READ_SUBMODEL (Some SubmodelElement) (Some [''submodel_identifier'', ''id_short_path''])) ''get_operation_status_for_shell''"

definition route_get_operation_result_for_shell :: route where
  "route_get_operation_result_for_shell =
     route ''GET'' [Lit ''shells'', Seg ''aas_identifier'', Lit ''submodels'', Seg ''submodel_identifier'', Lit ''submodel-elements'', Rest ''id_short_path'', Lit ''operation-results'', Seg ''handle_id'']
       (needs READ_SUBMODEL (Some SubmodelElement) (Some [''submodel_identifier'', ''id_short_path''])) ''get_operation_result_for_shell''"

definition route_get_operation_result_value_only_for_shell :: route where
  "route_get_operation_result_value_only_for_shell =
     route ''GET'' [Lit ''shells'', Seg ''aas_identifier'', Lit ''submodels'', Seg ''submodel_identifier'', Lit ''submodel-elements'', Rest ''id_short_path'', Lit ''operation-results'', Seg ''handle_id'', Lit ''$value'']
       (needs READ_SUBMODEL (Some SubmodelElement) (Some [''submodel_identifier'', ''id_short_path''])) ''get_operation_result_value_only_for_shell''"

definition route_post_submodel_element_for_shell :: route where
  "route_post_submodel_element_for_shell =
     route ''POST'' [Lit ''shells'', Seg ''aas_identifier'', Lit ''submodels'', Seg ''submodel_identifier'', Lit ''submodel-elements'']
       (needs UPDATE_SUBMODEL (Some SubmodelElement) (Some [''submodel_identifier''])) ''post_submodel_element_for_shell''"

definition route_post_nested_submodel_element_for_shell :: route where
  "route_post_nested_submodel_element_for_shell =
     route ''POST'' [Lit ''shells'', Seg ''aas_identifier'', Lit ''submodels'', Seg ''submodel_identifier'', Lit ''submodel-elements'', Rest ''id_short_path'']
       (needs UPDATE_SUBMODEL (Some SubmodelElement) (Some [''submodel_identifier'', ''id_short_path''])) ''post_nested_submodel_element_for_shell''"

definition route_put_submodel_element_for_shell :: route where
  "route_put_submodel_element_for_shell =
     route ''PUT'' [Lit ''shells'', Seg ''aas_identifier'', Lit ''submodels'', Seg ''submodel_identifier'', Lit ''submodel-elements'', Rest ''id_short_path'']
       (needs UPDATE_SUBMODEL (Some SubmodelElement) (Some [''submodel_identifier'', ''id_short_path''])) ''put_submodel_element_for_shell''"

definition route_patch_submodel_element_value_for_shell :: route where
  "route_patch_submodel_element_value_for_shell =
     route ''PATCH'' [Lit ''shells'', Seg ''aas_identifier'', Lit ''submodels'', Seg ''submodel_identifier'', Lit ''submodel-elements'', Rest ''id_short_path'', Lit ''$value'']
       (needs UPDATE_SUBMODEL (Some SubmodelElement) (Some [''submodel_identifier'', ''id_short_path''])) ''patch_submodel_element_value_for_shell''"

definition route_patch_submodel_element_for_shell :: route where
  "route_patch_submodel_element_for_shell =
     route ''PATCH'' [Lit ''shells'', Seg ''aas_identifier'', Lit ''submodels'', Seg ''submodel_identifier'', Lit ''submodel-elements'', Rest ''id_short_path'']
       (needs UPDATE_SUBMODEL (Some SubmodelElement) (Some [''submodel_identifier'', ''id_short_path''])) ''patch_submodel_element_for_shell''"

definition route_delete_submodel_element_for_shell :: route where
  "route_delete_submodel_element_for_shell =
     route ''DELETE'' [Lit ''shells'', Seg ''aas_identifier'', Lit ''submodels'', Seg ''submodel_identifier'', Lit ''submodel-elements'', Rest ''id_short_path'']
       (needs UPDATE_SUBMODEL (Some SubmodelElement) (Some [''submodel_identifier'', ''id_short_path''])) ''delete_submodel_element_for_shell''"

definition shell_routes :: "route list" where
  "shell_routes =
    [route_get_all_shells, route_get_all_shells_metadata, route_get_all_shell_references, route_post_shell,
     route_get_shell_by_id, route_put_shell_by_id, route_delete_shell_by_id, route_get_shell_metadata,
     route_get_shell_reference, route_get_asset_information, route_put_asset_information,
     route_get_asset_information_thumbnail, route_put_asset_information_thumbnail,
     route_delete_asset_information_thumbnail, route_get_submodel_references, route_post_submodel_reference,
     route_delete_submodel_reference, route_get_submodels_for_shell, route_get_submodel_by_id_for_shell,
     route_put_submodel_by_id_for_shell, route_patch_submodel_by_id_for_shell,
     route_delete_submodel_by_id_for_shell, route_get_submodel_metadata_for_shell,
     route_patch_submodel_metadata_for_shell, route_get_submodel_value_for_shell,
     route_patch_submodel_value_for_shell, route_get_submodel_reference_for_shell,
     route_get_submodel_path_for_shell, route_get_submodel_elements_for_shell,
     route_get_all_submodel_elements_metadata_for_shell, route_get_all_submodel_elements_value_for_shell,
     route_get_all_submodel_elements_reference_for_shell, route_get_all_submodel_elements_path_for_shell,
     route_get_submodel_element_by_path_for_shell, route_get_submodel_element_metadata_for_shell,
     route_get_submodel_element_value_for_shell, route_get_submodel_element_reference_for_shell,
     route_get_submodel_element_path_for_shell, route_get_element_attachment_for_shell,
     route_put_element_attachment_for_shell, route_delete_element_attachment_for_shell,
     route_invoke_operation_sync_for_shell, route_invoke_operation_sync_value_only_for_shell,
     route_invoke_operation_async_for_shell, route_invoke_operation_async_value_only_for_shell,
     route_get_operation_status_for_shell, route_get_operation_result_for_shell,
     route_get_operation_result_value_only_for_shell, route_post_submodel_element_for_shell,
     route_post_nested_submodel_element_for_shell, route_put_submodel_element_for_shell,
     route_patch_submodel_element_value_for_shell, route_patch_submodel_element_for_shell,
     route_delete_submodel_element_for_shell]"

subsection \<open>\<open>api/routers/submodel_repository.py\<close>\<close>

definition route_get_all_submodels :: route where
  "route_get_all_submodels =
     route ''GET'' [Lit ''submodels'']
       (needs READ_SUBMODEL None None) ''get_all_submodels''"

definition route_get_all_submodels_metadata :: route where
  "route_get_all_submodels_metadata =
     route ''GET'' [Lit ''submodels'', Lit ''$metadata'']
       (needs READ_SUBMODEL None None) ''get_all_submodels_metadata''"

definition route_get_all_submodels_reference :: route where
  "route_get_all_submodels_reference =
     route ''GET'' [Lit ''submodels'', Lit ''$reference'']
       (needs READ_SUBMODEL None None) ''get_all_submodels_reference''"

definition route_get_all_submodels_path :: route where
  "route_get_all_submodels_path =
     route ''GET'' [Lit ''submodels'', Lit ''$path'']
       (needs READ_SUBMODEL None None) ''get_all_submodels_path''"

definition route_get_all_submodels_value :: route where
  "route_get_all_submodels_value =
     route ''GET'' [Lit ''submodels'', Lit ''$value'']
       (needs READ_SUBMODEL None None) ''get_all_submodels_value''"

definition route_post_submodel :: route where
  "route_post_submodel =
     route ''POST'' [Lit ''submodels'']
       (needs CREATE_SUBMODEL None None) ''post_submodel''"

definition route_get_submodel_by_id :: route where
  "route_get_submodel_by_id =
     route ''GET'' [Lit ''submodels'', Seg ''submodel_identifier'']
       (needs READ_SUBMODEL None (Some [''submodel_identifier''])) ''get_submodel_by_id''"

definition route_put_submodel_by_id :: route where
  "route_put_submodel_by_id =
     route ''PUT'' [Lit ''submodels'', Seg ''submodel_identifier'']
       (needs UPDATE_SUBMODEL None (Some [''submodel_identifier''])) ''put_submodel_by_id''"

definition route_delete_submodel_by_id :: route where
  "route_delete_submodel_by_id =
     route ''DELETE'' [Lit ''submodels'', Seg ''submodel_identifier'']
       (needs DELETE_SUBMODEL None (Some [''submodel_identifier''])) ''delete_submodel_by_id''"

definition route_get_submodel_elements :: route where
  "route_get_submodel_elements =
     route ''GET'' [Lit ''submodels'', Seg ''submodel_identifier'', Lit ''submodel-elements'']
       (needs READ_SUBMODEL None (Some [''submodel_identifier''])) ''get_submodel_elements''"

definition route_get_all_submodel_elements_metadata :: route where
  "route_get_all_submodel_elements_metadata =
     route ''GET'' [Lit ''submodels'', Seg ''submodel_identifier'', Lit ''submodel-elements'', Lit ''$metadata'']
       (needs READ_SUBMODEL None (Some [''submodel_identifier''])) ''get_all_submodel_elements_metadata''"

definition route_get_all_submodel_elements_value :: route where
  "route_get_all_submodel_elements_value =
     route ''GET'' [Lit ''submodels'', Seg ''submodel_identifier'', Lit ''submodel-elements'', Lit ''$value'']
       (needs READ_SUBMODEL None (Some [''submodel_identifier''])) ''get_all_submodel_elements_value''"

definition route_get_all_submodel_elements_reference :: route where
  "route_get_all_submodel_elements_reference =
     route ''GET'' [Lit ''submodels'', Seg ''submodel_identifier'', Lit ''submodel-elements'', Lit ''$reference'']
       (needs READ_SUBMODEL None (Some [''submodel_identifier''])) ''get_all_submodel_elements_reference''"

definition route_get_all_submodel_elements_path :: route where
  "route_get_all_submodel_elements_path =
     route ''GET'' [Lit ''submodels'', Seg ''submodel_identifier'', Lit ''submodel-elements'', Lit ''$path'']
       (needs READ_SUBMODEL None (Some [''submodel_identifier''])) ''get_all_submodel_elements_path''"

definition route_get_submodel_element_by_path :: route where
  "route_get_submodel_element_by_path =
     route ''GET'' [Lit ''submodels'', Seg ''submodel_identifier'', Lit ''submodel-elements'', Rest ''id_short_path'']
       (needs READ_SUBMODEL (Some SubmodelElement) (Some [''submodel_identifier'', ''id_short_path''])) ''get_submodel_element_by_path''"

definition route_get_submodel_value :: route where
  "route_get_submodel_value =
     route ''GET'' [Lit ''submodels'', Seg ''submodel_identifier'', Lit ''$value'']
       (needs READ_SUBMODEL None (Some [''submodel_identifier''])) ''get_submodel_value''"

definition route_patch_submodel_value :: route where
  "route_patch_submodel_value =
     route ''PATCH'' [Lit ''submodels'', Seg ''submodel_identifier'', Lit ''$value'']
       (needs UPDATE_SUBMODEL None (Some [''submodel_identifier''])) ''patch_submodel_value''"

definition route_get_element_value :: route where
  "route_get_element_value =
     route ''GET'' [Lit ''submodels'', Seg ''submodel_identifier'', Lit ''submodel-elements'', Rest ''id_short_path'', Lit ''$value'']
       (needs READ_SUBMODEL (Some SubmodelElement) (Some [''submodel_identifier'', ''id_short_path''])) ''get_element_value''"

definition route_get_submodel_metadata :: route where
  "route_get_submodel_metadata =
     route ''GET'' [Lit ''submodels'', Seg ''submodel_identifier'', Lit ''$metadata'']
       (needs READ_SUBMODEL None (Some [''submodel_identifier''])) ''get_submodel_metadata''"

definition route_patch_submodel_metadata :: route where
  "route_patch_submodel_metadata =
     route ''PATCH'' [Lit ''submodels'', Seg ''submodel_identifier'', Lit ''$metadata'']
       (needs UPDATE_SUBMODEL None (Some [''submodel_identifier''])) ''patch_submodel_metadata''"

definition route_get_submodel_reference :: route where
  "route_get_submodel_reference =
     route ''GET'' [Lit ''submodels'', Seg ''submodel_identifier'', Lit ''$reference'']
       (needs READ_SUBMODEL None (Some [''submodel_identifier''])) ''get_submodel_reference''"

definition route_get_submodel_path :: route where
  "route_get_submodel_path =
     route ''GET'' [Lit ''submodels'', Seg ''submodel_identifier'', Lit ''$path'']
       (needs READ_SUBMODEL None (Some [''submodel_identifier''])) ''get_submodel_path''"

definition route_get_element_metadata :: route where
  "route_get_element_metadata =
     route ''GET'' [Lit ''submodels'', Seg ''submodel_identifier'', Lit ''submodel-elements'', Rest ''id_short_path'', Lit ''$metadata'']
       (needs READ_SUBMODEL (Some SubmodelElement) (Some [''submodel_identifier'', ''id_short_path''])) ''get_element_metadata''"

definition route_get_element_reference :: route where
  "route_get_element_reference =
     route ''GET'' [Lit ''submodels'', Seg ''submodel_identifier'', Lit ''submodel-elements'', Rest ''id_short_path'', Lit ''$reference'']
       (needs READ_SUBMODEL (Some SubmodelElement) (Some [''submodel_identifier'', ''id_short_path''])) ''get_element_reference''"

definition route_get_element_path :: route where
  "route_get_element_path =
     route ''GET'' [Lit ''submodels'', Seg ''submodel_identifier'', Lit ''submodel-elements'', Rest ''id_short_path'', Lit ''$path'']
       (needs READ_SUBMODEL (Some SubmodelElement) (Some [''submodel_identifier'', ''id_short_path''])) ''get_element_path''"

definition route_get_element_attachment :: route where
  "route_get_element_attachment =
     route ''GET'' [Lit ''submodels'', Seg ''submodel_identifier'', Lit ''submodel-elements'', Rest ''id_short_path'', Lit ''attachment'']
       (needs READ_SUBMODEL (Some SubmodelElement) (Some [''submodel_identifier'', ''id_short_path''])) ''get_element_attachment''"

definition route_put_element_attachment :: route where
  "route_put_element_attachment =
     route ''PUT'' [Lit ''submodels'', Seg ''submodel_identifier'', Lit ''submodel-elements'', Rest ''id_short_path'', Lit ''attachment'']
       (needs UPDATE_SUBMODEL (Some SubmodelElement) (Some [''submodel_identifier'', ''id_short_path''])) ''put_element_attachment''"

definition route_delete_element_attachment :: route where
  "route_delete_element_attachment =
     route ''DELETE'' [Lit ''submodels'', Seg ''submodel_identifier'', Lit ''submodel-elements'', Rest ''id_short_path'', Lit ''attachment'']
       (needs UPDATE_SUBMODEL (Some SubmodelElement) (Some [''submodel_identifier'', ''id_short_path''])) ''delete_element_attachment''"

definition route_post_submodel_element :: route where
  "route_post_submodel_element =
     route ''POST'' [Lit ''submodels'', Seg ''submodel_identifier'', Lit ''submodel-elements'']
       (needs UPDATE_SUBMODEL (Some SubmodelElement) (Some [''submodel_identifier''])) ''post_submodel_element''"

definition route_post_nested_submodel_element :: route where
  "route_post_nested_submodel_element =
     route ''POST'' [Lit ''submodels'', Seg ''submodel_identifier'', Lit ''submodel-elements'', Rest ''id_short_path'']
       (needs UPDATE_SUBMODEL (Some SubmodelElement) (Some [''submodel_identifier'', ''id_short_path''])) ''post_nested_submodel_element''"

definition route_put_submodel_element :: route where
  "route_put_submodel_element =
     route ''PUT'' [Lit ''submodels'', Seg ''submodel_identifier'', Lit ''submodel-elements'', Rest ''id_short_path'']
       (needs UPDATE_SUBMODEL (Some SubmodelElement) (Some [''submodel_identifier'', ''id_short_path''])) ''put_submodel_element''"

definition route_patch_element_value :: route where
  "route_patch_element_value =
     route ''PATCH'' [Lit ''submodels'', Seg ''submodel_identifier'', Lit ''submodel-elements'', Rest ''id_short_path'', Lit ''$value'']
       (needs UPDATE_SUBMODEL (Some SubmodelElement) (Some [''submodel_identifier'', ''id_short_path''])) ''patch_element_value''"

definition route_patch_submodel_element :: route where
  "route_patch_submodel_element =
     route ''PATCH'' [Lit ''submodels'', Seg ''submodel_identifier'', Lit ''submodel-elements'', Rest ''id_short_path'']
       (needs UPDATE_SUBMODEL (Some SubmodelElement) (Some [''submodel_identifier'', ''id_short_path''])) ''patch_submodel_element''"

definition route_delete_submodel_element :: route where
  "route_delete_submodel_element =
     route ''DELETE'' [Lit ''submodels'', Seg ''submodel_identifier'', Lit ''submodel-elements'', Rest ''id_short_path'']
       (needs UPDATE_SUBMODEL (Some SubmodelElement) (Some [''submodel_identifier'', ''id_short_path''])) ''delete_submodel_element''"

definition route_invoke_operation_sync :: route where
  "route_invoke_operation_sync =
     route ''POST'' [Lit ''submodels'', Seg ''submodel_identifier'', Lit ''submodel-elements'', Rest ''id_short_path'', Lit ''invoke'']
       (needs INVOKE_OPERATION (Some SubmodelElement) (Some [''submodel_identifier'', ''id_short_path''])) ''invoke_operation_sync''"

definition route_invoke_operation_sync_value_only :: route where
  "route_invoke_operation_sync_value_only =
     route ''POST'' [Lit ''submodels'', Seg ''submodel_identifier'', Lit ''submodel-elements'', Rest ''id_short_path'', Lit ''invoke'', Lit ''$value'']
       (needs INVOKE_OPERATION (Some SubmodelElement) (Some [''submodel_identifier'', ''id_short_path''])) ''invoke_operation_sync_value_only''"

definition route_invoke_operation_async :: route where
  "route_invoke_operation_async =
     route ''POST'' [Lit ''submodels'', Seg ''submodel_identifier'', Lit ''submodel-elements'', Rest ''id_short_path'', Lit ''invoke-async'']
       (needs INVOKE_OPERATION (Some SubmodelElement) (Some [''submodel_identifier'', ''id_short_path''])) ''invoke_operation_async''"

definition route_invoke_operation_async_value_only :: route where
  "route_invoke_operation_async_value_only =
     route ''POST'' [Lit ''submodels'', Seg ''submodel_identifier'', Lit ''submodel-elements'', Rest ''id_short_path'', Lit ''invoke-async'', Lit ''$value'']
       (needs INVOKE_OPERATION (Some SubmodelElement) (Some [''submodel_identifier'', ''id_short_path''])) ''invoke_operation_async_value_only''"

definition route_get_operation_result :: route where
  "route_get_operation_result =
     route ''GET'' [Lit ''submodels'', Seg ''submodel_identifier'', Lit ''submodel-elements'', Rest ''id_short_path'', Lit ''operation-results'', Seg ''handle_id'']
       (needs READ_SUBMODEL (Some SubmodelElement) (Some [''submodel_identifier'', ''id_short_path''])) ''get_operation_result''"

definition route_get_operation_status :: route where
  "route_get_operation_status =
     route ''GET'' [Lit ''submodels'', Seg ''submodel_identifier'', Lit ''submodel-elements'', Rest ''id_short_path'', Lit ''operation-status'', Seg ''handle_id'']
       (needs READ_SUBMODEL (Some SubmodelElement) (Some [''submodel_identifier'', ''id_short_path''])) ''get_operation_status''"

definition route_get_operation_result_value_only :: route where
  "route_get_operation_result_value_only =
     route ''GET'' [Lit ''submodels'', Seg ''submodel_identifier'', Lit ''submodel-elements'', Rest ''id_short_path'', Lit ''operation-results'', Seg ''handle_id'', Lit ''$value'']
       (needs READ_SUBMODEL (Some SubmodelElement) (Some [''submodel_identifier'', ''id_short_path''])) ''get_operation_result_value_only''"

definition route_instantiate_template_endpoint :: route where
  "route_instantiate_template_endpoint =
     route ''POST'' [Lit ''submodels'', Seg ''submodel_identifier'', Lit ''instantiate'']
       (needs CREATE_SUBMODEL None None) ''instantiate_template_endpoint''"

definition submodel_routes :: "route list" where
  "submodel_routes =
    [route_get_all_submodels, route_get_all_submodels_metadata, route_get_all_submodels_reference,
     route_get_all_submodels_path, route_get_all_submodels_value, route_post_submodel,
     route_get_submodel_by_id, route_put_submodel_by_id, route_delete_submodel_by_id,
     route_get_submodel_elements, route_get_all_submodel_elements_metadata,
     route_get_all_submodel_elements_value, route_get_all_submodel_elements_reference,
     route_get_all_submodel_elements_path, route_get_submodel_element_by_path, route_get_submodel_value,
     route_patch_submodel_value, route_get_element_value, route_get_submodel_metadata,
     route_patch_submodel_metadata, route_get_submodel_reference, route_get_submodel_path,
     route_get_element_metadata, route_get_element_reference, route_get_element_path,
     route_get_element_attachment, route_put_element_attachment, route_delete_element_attachment,
     route_post_submodel_element, route_post_nested_submodel_element, route_put_submodel_element,
     route_patch_element_value, route_patch_submodel_element, route_delete_submodel_element,
     route_invoke_operation_sync, route_invoke_operation_sync_value_only, route_invoke_operation_async,
     route_invoke_operation_async_value_only, route_get_operation_result, route_get_operation_status,
     route_get_operation_result_value_only, route_instantiate_template_endpoint]"

subsection \<open>\<open>api/routers/blobs.py\<close>\<close>

definition route_get_blob :: route where
  "route_get_blob =
     route ''GET'' [Lit ''blobs'', Seg ''blob_id'']
       (needs READ_SUBMODEL None None) ''get_blob''"

definition blob_routes :: "route list" where
  "blob_routes =
    [route_get_blob]"

subsection \<open>\<open>api/routers/concept_description_repository.py\<close>\<close>

definition route_get_all_concept_descriptions :: route where
  "route_get_all_concept_descriptions =
     route ''GET'' [Lit ''concept-descriptions'']
       (needs READ_CONCEPT_DESCRIPTION None None) ''get_all_concept_descriptions''"

definition route_post_concept_description :: route where
  "route_post_concept_description =
     route ''POST'' [Lit ''concept-descriptions'']
       (needs CREATE_CONCEPT_DESCRIPTION None None) ''post_concept_description''"

definition route_get_concept_description_by_id :: route where
  "route_get_concept_description_by_id =
     route ''GET'' [Lit ''concept-descriptions'', Seg ''cd_identifier'']
       (needs READ_CONCEPT_DESCRIPTION None (Some [''cd_identifier''])) ''get_concept_description_by_id''"

definition route_put_concept_description_by_id :: route where
  "route_put_concept_description_by_id =
     route ''PUT'' [Lit ''concept-descriptions'', Seg ''cd_identifier'']
       (needs UPDATE_CONCEPT_DESCRIPTION None (Some [''cd_identifier''])) ''put_concept_description_by_id''"

definition route_delete_concept_description_by_id :: route where
  "route_delete_concept_description_by_id =
     route ''DELETE'' [Lit ''concept-descriptions'', Seg ''cd_identifier'']
       (needs DELETE_CONCEPT_DESCRIPTION None (Some [''cd_identifier''])) ''delete_concept_description_by_id''"

definition concept_routes :: "route list" where
  "concept_routes =
    [route_get_all_concept_descriptions, route_post_concept_description, route_get_concept_description_by_id,
     route_put_concept_description_by_id, route_delete_concept_description_by_id]"

subsection \<open>\<open>api/routers/registry.py\<close>\<close>

definition route_get_all_shell_descriptors :: route where
  "route_get_all_shell_descriptors =
     route ''GET'' [Lit ''shell-descriptors'']
       (needs READ_DESCRIPTOR None None) ''get_all_shell_descriptors''"

definition route_post_shell_descriptor :: route where
  "route_post_shell_descriptor =
     route ''POST'' [Lit ''shell-descriptors'']
       (needs CREATE_DESCRIPTOR None None) ''post_shell_descriptor''"

definition route_get_shell_descriptor_by_id :: route where
  "route_get_shell_descriptor_by_id =
     route ''GET'' [Lit ''shell-descriptors'', Seg ''aas_identifier'']
       (needs READ_DESCRIPTOR None (Some [''aas_identifier''])) ''get_shell_descriptor_by_id''"

definition route_put_shell_descriptor_by_id :: route where
  "route_put_shell_descriptor_by_id =
     route ''PUT'' [Lit ''shell-descriptors'', Seg ''aas_identifier'']
       (needs UPDATE_DESCRIPTOR None (Some [''aas_identifier''])) ''put_shell_descriptor_by_id''"

definition route_delete_shell_descriptor_by_id :: route where
  "route_delete_shell_descriptor_by_id =
     route ''DELETE'' [Lit ''shell-descriptors'', Seg ''aas_identifier'']
       (needs DELETE_DESCRIPTOR None (Some [''aas_identifier''])) ''delete_shell_descriptor_by_id''"

definition route_get_nested_submodel_descriptors :: route where
  "route_get_nested_submodel_descriptors =
     route ''GET'' [Lit ''shell-descriptors'', Seg ''aas_identifier'', Lit ''submodel-descriptors'']
       (needs READ_DESCRIPTOR None (Some [''aas_identifier''])) ''get_nested_submodel_descriptors''"

definition route_post_nested_submodel_descriptor :: route where
  "route_post_nested_submodel_descriptor =
     route ''POST'' [Lit ''shell-descriptors'', Seg ''aas_identifier'', Lit ''submodel-descriptors'']
       (needs UPDATE_DESCRIPTOR None (Some [''aas_identifier''])) ''post_nested_submodel_descriptor''"

definition route_get_nested_submodel_descriptor_by_id :: route where
  "route_get_nested_submodel_descriptor_by_id =
     route ''GET'' [Lit ''shell-descriptors'', Seg ''aas_identifier'', Lit ''submodel-descriptors'', Seg ''submodel_identifier'']
       (needs READ_DESCRIPTOR None (Some [''aas_identifier'', ''submodel_identifier''])) ''get_nested_submodel_descriptor_by_id''"

definition route_put_nested_submodel_descriptor :: route where
  "route_put_nested_submodel_descriptor =
     route ''PUT'' [Lit ''shell-descriptors'', Seg ''aas_identifier'', Lit ''submodel-descriptors'', Seg ''submodel_identifier'']
       (needs UPDATE_DESCRIPTOR None (Some [''aas_identifier'', ''submodel_identifier''])) ''put_nested_submodel_descriptor''"

definition route_delete_nested_submodel_descriptor :: route where
  "route_delete_nested_submodel_descriptor =
     route ''DELETE'' [Lit ''shell-descriptors'', Seg ''aas_identifier'', Lit ''submodel-descriptors'', Seg ''submodel_identifier'']
       (needs UPDATE_DESCRIPTOR None (Some [''aas_identifier'', ''submodel_identifier''])) ''delete_nested_submodel_descriptor''"

definition route_bulk_create_shell_descriptors :: route where
  "route_bulk_create_shell_descriptors =
     route ''POST'' [Lit ''shell-descriptors'', Lit ''$bulk'']
       None ''bulk_create_shell_descriptors''"

definition route_bulk_delete_shell_descriptors :: route where
  "route_bulk_delete_shell_descriptors =
     route ''DELETE'' [Lit ''shell-descriptors'', Lit ''$bulk'']
       None ''bulk_delete_shell_descriptors''"

definition route_get_all_submodel_descriptors :: route where
  "route_get_all_submodel_descriptors =
     route ''GET'' [Lit ''submodel-descriptors'']
       (needs READ_DESCRIPTOR None None) ''get_all_submodel_descriptors''"

definition route_post_submodel_descriptor :: route where
  "route_post_submodel_descriptor =
     route ''POST'' [Lit ''submodel-descriptors'']
       (needs CREATE_DESCRIPTOR None None) ''post_submodel_descriptor''"

definition route_get_submodel_descriptor_by_id :: route where
  "route_get_submodel_descriptor_by_id =
     route ''GET'' [Lit ''submodel-descriptors'', Seg ''submodel_identifier'']
       (needs READ_DESCRIPTOR None (Some [''submodel_identifier''])) ''get_submodel_descriptor_by_id''"

definition route_put_submodel_descriptor_by_id :: route where
  "route_put_submodel_descriptor_by_id =
     route ''PUT'' [Lit ''submodel-descriptors'', Seg ''submodel_identifier'']
       (needs UPDATE_DESCRIPTOR None (Some [''submodel_identifier''])) ''put_submodel_descriptor_by_id''"

definition route_delete_submodel_descriptor_by_id :: route where
  "route_delete_submodel_descriptor_by_id =
     route ''DELETE'' [Lit ''submodel-descriptors'', Seg ''submodel_identifier'']
       (needs DELETE_DESCRIPTOR None (Some [''submodel_identifier''])) ''delete_submodel_descriptor_by_id''"

definition route_bulk_create_submodel_descriptors :: route where
  "route_bulk_create_submodel_descriptors =
     route ''POST'' [Lit ''submodel-descriptors'', Lit ''$bulk'']
       None ''bulk_create_submodel_descriptors''"

definition route_bulk_delete_submodel_descriptors :: route where
  "route_bulk_delete_submodel_descriptors =
     route ''DELETE'' [Lit ''submodel-descriptors'', Lit ''$bulk'']
       None ''bulk_delete_submodel_descriptors''"

definition registry_routes :: "route list" where
  "registry_routes =
    [route_get_all_shell_descriptors, route_post_shell_descriptor, route_get_shell_descriptor_by_id,
     route_put_shell_descriptor_by_id, route_delete_shell_descriptor_by_id,
     route_get_nested_submodel_descriptors, route_post_nested_submodel_descriptor,
     route_get_nested_submodel_descriptor_by_id, route_put_nested_submodel_descriptor,
     route_delete_nested_submodel_descriptor, route_bulk_create_shell_descriptors,
     route_bulk_delete_shell_descriptors, route_get_all_submodel_descriptors, route_post_submodel_descriptor,
     route_get_submodel_descriptor_by_id, route_put_submodel_descriptor_by_id,
     route_delete_submodel_descriptor_by_id, route_bulk_create_submodel_descriptors,
     route_bulk_delete_submodel_descriptors]"

subsection \<open>\<open>api/routers/discovery.py\<close>\<close>

definition route_lookup_shells :: route where
  "route_lookup_shells =
     route ''GET'' [Lit ''lookup'', Lit ''shells'']
       (needs READ_DESCRIPTOR None None) ''lookup_shells''"

definition route_lookup_submodels :: route where
  "route_lookup_submodels =
     route ''GET'' [Lit ''lookup'', Lit ''submodels'']
       None ''lookup_submodels''"

definition route_search_shells_by_asset_link :: route where
  "route_search_shells_by_asset_link =
     route ''POST'' [Lit ''lookup'', Lit ''shellsByAssetLink'']
       (needs READ_DESCRIPTOR None None) ''search_shells_by_asset_link''"

definition route_get_asset_links_by_id :: route where
  "route_get_asset_links_by_id =
     route ''GET'' [Lit ''lookup'', Lit ''shells'', Seg ''aas_identifier'']
       (needs READ_DESCRIPTOR None None) ''get_asset_links_by_id''"

definition route_post_asset_links_by_id :: route where
  "route_post_asset_links_by_id =
     route ''POST'' [Lit ''lookup'', Lit ''shells'', Seg ''aas_identifier'']
       (needs UPDATE_DESCRIPTOR None None) ''post_asset_links_by_id''"

definition route_delete_asset_links_by_id :: route where
  "route_delete_asset_links_by_id =
     route ''DELETE'' [Lit ''lookup'', Lit ''shells'', Seg ''aas_identifier'']
       (needs DELETE_DESCRIPTOR None None) ''delete_asset_links_by_id''"

definition discovery_routes :: "route list" where
  "discovery_routes =
    [route_lookup_shells, route_lookup_submodels, route_search_shells_by_asset_link,
     route_get_asset_links_by_id, route_post_asset_links_by_id, route_delete_asset_links_by_id]"

subsection \<open>\<open>api/routers/serialization.py\<close>\<close>

definition route_get_serialization :: route where
  "route_get_serialization =
     route ''GET'' [Lit ''serialization'']
       (needs READ_AAS None None) ''get_serialization''"

definition route_post_serialization :: route where
  "route_post_serialization =
     route ''POST'' [Lit ''serialization'']
       None ''post_serialization''"

definition serialization_routes :: "route list" where
  "serialization_routes =
    [route_get_serialization, route_post_serialization]"

subsection \<open>\<open>api/routers/aasx.py\<close>\<close>

definition route_get_all_packages :: route where
  "route_get_all_packages =
     route ''GET'' [Lit ''packages'']
       (needs READ_AAS None None) ''get_all_packages''"

definition route_upload_package :: route where
  "route_upload_package =
     route ''POST'' [Lit ''packages'']
       (needs CREATE_AAS None None) ''upload_package''"

definition route_download_package :: route where
  "route_download_package =
     route ''GET'' [Lit ''packages'', Seg ''package_id'']
       (needs READ_AAS None None) ''download_package''"

definition route_update_package :: route where
  "route_update_package =
     route ''PUT'' [Lit ''packages'', Seg ''package_id'']
       (needs UPDATE_AAS None None) ''update_package''"

definition route_delete_package :: route where
  "route_delete_package =
     route ''DELETE'' [Lit ''packages'', Seg ''package_id'']
       (needs DELETE_AAS None None) ''delete_package''"

definition route_create_package_version :: route where
  "route_create_package_version =
     route ''POST'' [Lit ''packages'', Seg ''package_id'', Lit ''versions'']
       (needs UPDATE_AAS None None) ''create_package_version''"

definition route_list_package_versions :: route where
  "route_list_package_versions =
     route ''GET'' [Lit ''packages'', Seg ''package_id'', Lit ''versions'']
       (needs READ_AAS None None) ''list_package_versions''"

definition route_get_package_version :: route where
  "route_get_package_version =
     route ''GET'' [Lit ''packages'', Seg ''package_id'', Lit ''versions'', Seg ''version'']
       (needs READ_AAS None None) ''get_package_version''"

definition route_rollback_package_version :: route where
  "route_rollback_package_version =
     route ''POST'' [Lit ''packages'', Seg ''package_id'', Lit ''versions'', Seg ''version'', Lit ''rollback'']
       (needs UPDATE_AAS None None) ''rollback_package_version''"

definition route_compare_package_versions :: route where
  "route_compare_package_versions =
     route ''GET'' [Lit ''packages'', Seg ''package_id'', Lit ''versions'', Seg ''v1'', Lit ''compare'', Seg ''v2'']
       (needs READ_AAS None None) ''compare_package_versions''"

definition route_diff_package_versions :: route where
  "route_diff_package_versions =
     route ''GET'' [Lit ''packages'', Seg ''package_id'', Lit ''versions'', Seg ''v1'', Lit ''diff'', Seg ''v2'']
       (needs READ_AAS None None) ''diff_package_versions''"

definition route_tag_package_version :: route where
  "route_tag_package_version =
     route ''POST'' [Lit ''packages'', Seg ''package_id'', Lit ''versions'', Seg ''version'', Lit ''tags'']
       (needs UPDATE_AAS None None) ''tag_package_version''"

definition route_get_version_by_tag :: route where
  "route_get_version_by_tag =
     route ''GET'' [Lit ''packages'', Seg ''package_id'', Lit ''versions'', Lit ''tags'', Seg ''tag'']
       (needs READ_AAS None None) ''get_version_by_tag''"

definition route_get_package_shells :: route where
  "route_get_package_shells =
     route ''GET'' [Lit ''packages'', Seg ''package_id'', Lit ''shells'']
       (needs READ_AAS None None) ''get_package_shells''"

definition route_get_package_submodels :: route where
  "route_get_package_submodels =
     route ''GET'' [Lit ''packages'', Seg ''package_id'', Lit ''submodels'']
       (needs READ_SUBMODEL None None) ''get_package_submodels''"

definition route_get_package_shell_by_id_short :: route where
  "route_get_package_shell_by_id_short =
     route ''GET'' [Lit ''packages'', Seg ''package_id'', Lit ''shells'', Seg ''aas_id_short'']
       (needs READ_AAS None None) ''get_package_shell_by_id_short''"

definition route_get_package_submodel_by_id_short :: route where
  "route_get_package_submodel_by_id_short =
     route ''GET'' [Lit ''packages'', Seg ''package_id'', Lit ''submodels'', Seg ''submodel_id_short'']
       (needs READ_SUBMODEL None None) ''get_package_submodel_by_id_short''"

definition route_get_package_concept_descriptions :: route where
  "route_get_package_concept_descriptions =
     route ''GET'' [Lit ''packages'', Seg ''package_id'', Lit ''concept-descriptions'']
       (needs READ_CONCEPT_DESCRIPTION None None) ''get_package_concept_descriptions''"

definition route_get_package_concept_description_by_id_short :: route where
  "route_get_package_concept_description_by_id_short =
     route ''GET'' [Lit ''packages'', Seg ''package_id'', Lit ''concept-descriptions'', Seg ''cd_id_short'']
       (needs READ_CONCEPT_DESCRIPTION None None) ''get_package_concept_description_by_id_short''"

definition route_validate_package :: route where
  "route_validate_package =
     route ''POST'' [Lit ''packages'', Seg ''package_id'', Lit ''validate'']
       (needs READ_AAS None None) ''validate_package''"

definition route_preview_package_import :: route where
  "route_preview_package_import =
     route ''POST'' [Lit ''packages'', Seg ''package_id'', Lit ''preview'']
       (needs READ_AAS None None) ''preview_package_import''"

definition route_import_package_contents :: route where
  "route_import_package_contents =
     route ''POST'' [Lit ''packages'', Seg ''package_id'', Lit ''import'']
       (needs UPDATE_AAS None None) ''import_package_contents''"

definition route_export_xml :: route where
  "route_export_xml =
     route ''POST'' [Lit ''packages'', Lit ''export-xml'']
       (needs READ_AAS None None) ''export_xml''"

definition package_routes :: "route list" where
  "package_routes =
    [route_get_all_packages, route_upload_package, route_download_package, route_update_package,
     route_delete_package, route_create_package_version, route_list_package_versions,
     route_get_package_version, route_rollback_package_version, route_compare_package_versions,
     route_diff_package_versions, route_tag_package_version, route_get_version_by_tag,
     route_get_package_shells, route_get_package_submodels, route_get_package_shell_by_id_short,
     route_get_package_submodel_by_id_short, route_get_package_concept_descriptions,
     route_get_package_concept_description_by_id_short, route_validate_package, route_preview_package_import,
     route_import_package_contents, route_export_xml]"

subsection \<open>\<open>api/routers/admin.py\<close>\<close>

definition route_get_dashboard_stats :: route where
  "route_get_dashboard_stats =
     route ''GET'' [Lit ''admin'', Lit ''stats'']
       (needs ADMIN None None) ''get_dashboard_stats''"

definition route_get_recent_activity :: route where
  "route_get_recent_activity =
     route ''GET'' [Lit ''admin'', Lit ''activity'']
       (needs ADMIN None None) ''get_recent_activity''"

definition route_get_admin_health :: route where
  "route_get_admin_health =
     route ''GET'' [Lit ''admin'', Lit ''health'']
       (needs ADMIN None None) ''get_admin_health''"

definition route_get_semantic_ids :: route where
  "route_get_semantic_ids =
     route ''GET'' [Lit ''admin'', Lit ''semantic-ids'']
       (needs ADMIN None None) ''get_semantic_ids''"

definition route_get_global_asset_ids :: route where
  "route_get_global_asset_ids =
     route ''GET'' [Lit ''admin'', Lit ''asset-ids'']
       (needs ADMIN None None) ''get_global_asset_ids''"

definition admin_routes :: "route list" where
  "admin_routes =
    [route_get_dashboard_stats, route_get_recent_activity, route_get_admin_health, route_get_semantic_ids,
     route_get_global_asset_ids]"

subsection \<open>\<open>api/routers/federation.py\<close>\<close>

definition route_list_peers :: route where
  "route_list_peers =
     route ''GET'' [Lit ''federation'', Lit ''peers'']
       (needs ADMIN None None) ''list_peers''"

definition route_register_peer :: route where
  "route_register_peer =
     route ''POST'' [Lit ''federation'', Lit ''peers'']
       (needs ADMIN None None) ''register_peer''"

definition route_get_peer :: route where
  "route_get_peer =
     route ''GET'' [Lit ''federation'', Lit ''peers'', Seg ''peer_id'']
       (needs ADMIN None None) ''get_peer''"

definition route_unregister_peer :: route where
  "route_unregister_peer =
     route ''DELETE'' [Lit ''federation'', Lit ''peers'', Seg ''peer_id'']
       (needs ADMIN None None) ''unregister_peer''"

definition route_check_peer_health :: route where
  "route_check_peer_health =
     route ''POST'' [Lit ''federation'', Lit ''peers'', Seg ''peer_id'', Lit ''health'']
       (needs ADMIN None None) ''check_peer_health''"

definition route_get_sync_status :: route where
  "route_get_sync_status =
     route ''GET'' [Lit ''federation'', Lit ''sync'', Lit ''status'']
       (needs ADMIN None None) ''get_sync_status''"

definition route_trigger_sync :: route where
  "route_trigger_sync =
     route ''POST'' [Lit ''federation'', Lit ''sync'', Lit ''now'']
       (needs ADMIN None None) ''trigger_sync''"

definition route_get_sync_history :: route where
  "route_get_sync_history =
     route ''GET'' [Lit ''federation'', Lit ''sync'', Lit ''history'']
       (needs ADMIN None None) ''get_sync_history''"

definition route_list_conflicts :: route where
  "route_list_conflicts =
     route ''GET'' [Lit ''federation'', Lit ''conflicts'']
       (needs ADMIN None None) ''list_conflicts''"

definition route_get_conflict :: route where
  "route_get_conflict =
     route ''GET'' [Lit ''federation'', Lit ''conflicts'', Seg ''conflict_id'']
       (needs ADMIN None None) ''get_conflict''"

definition route_resolve_conflict :: route where
  "route_resolve_conflict =
     route ''POST'' [Lit ''federation'', Lit ''conflicts'', Seg ''conflict_id'', Lit ''resolve'']
       (needs ADMIN None None) ''resolve_conflict''"

definition route_resolve_all_conflicts :: route where
  "route_resolve_all_conflicts =
     route ''POST'' [Lit ''federation'', Lit ''conflicts'', Lit ''resolve-all'']
       (needs ADMIN None None) ''resolve_all_conflicts''"

definition federation_routes :: "route list" where
  "federation_routes =
    [route_list_peers, route_register_peer, route_get_peer, route_unregister_peer, route_check_peer_health,
     route_get_sync_status, route_trigger_sync, route_get_sync_history, route_list_conflicts,
     route_get_conflict, route_resolve_conflict, route_resolve_all_conflicts]"

section \<open>The application\<close>

definition api_routes :: "route list" where
  "api_routes =
     shell_routes @ submodel_routes @ blob_routes @ concept_routes @ registry_routes @ discovery_routes @
     serialization_routes @ package_routes @ admin_routes @ federation_routes"

text \<open>What the guard of a route does with a request; a route without a guard lets everybody in.\<close>

definition guarded ::
  "(string \<Rightarrow> ip option) \<Rightarrow> engine option \<Rightarrow> validator \<Rightarrow> bool \<Rightarrow> string option \<Rightarrow> request \<Rightarrow> route \<Rightarrow> http_error + user option" where
  "guarded ipp abac validator anon authorization rq r =
     (case r_guard r of
        None \<Rightarrow> Inr None
      | Some g \<Rightarrow>
          bindE (get_current_user validator authorization) (\<lambda>ou.
          bindE (require_authenticated validator anon ou) (\<lambda>u.
          bindE (require_permission ipp abac (g_permission g) (g_type g) (g_params g) rq u) (\<lambda>u. Inr (Some u)))))"

text \<open>The route whose handler runs: \<open>Inr None\<close> when no route fits.\<close>

definition admitted ::
  "(string \<Rightarrow> ip option) \<Rightarrow> engine option \<Rightarrow> validator \<Rightarrow> bool \<Rightarrow> string option \<Rightarrow> request \<Rightarrow> string \<Rightarrow> string \<Rightarrow>
   http_error + route option" where
  "admitted ipp abac validator anon authorization rq m p =
     (case dispatch api_routes m p of
        None \<Rightarrow> Inr None
      | Some r \<Rightarrow> bindE (guarded ipp abac validator anon authorization rq r) (\<lambda>_. Inr (Some r)))"

end
