(* ===== verification/RouteSpec.thy ===== *)
theory RouteSpec
  imports Routes
begin

text \<open>
  Which handlers a request can reach, and who may reach them. A route is unreachable when an earlier one
  of its method covers every path it fits; \<open>covers\<close> decides this on the templates.
\<close>

section \<open>Templates that cover others\<close>

fun covers :: "piece list \<Rightarrow> piece list \<Rightarrow> bool" where
  "covers [] qs = (qs = [])"
| "covers (Rest n # ps) qs = (ps = [] \<and> qs \<noteq> [])"
| "covers (Seg n # ps) qs =
     (case qs of Seg m # qs' \<Rightarrow> covers ps qs' | Lit b # qs' \<Rightarrow> b \<noteq> [] \<and> covers ps qs' | _ \<Rightarrow> False)"
| "covers (Lit a # ps) qs = (case qs of Lit b # qs' \<Rightarrow> if a = b then covers ps qs' else False | _ \<Rightarrow> False)"

lemma matches_nonempty: "matches (q # qs) xs \<Longrightarrow> xs \<noteq> []"
  by (cases q) auto

lemma matches_Rest: "xs \<noteq> [] \<Longrightarrow> matches [Rest n] xs"
  by (cases xs) (auto simp: list_ex_iff intro!: bexI [of _ "length xs"])

lemma covers_matches: "covers ps qs \<Longrightarrow> matches qs xs \<Longrightarrow> matches ps xs"
proof (induction ps qs arbitrary: xs rule: covers.induct)
  case (2 n ps qs)
  then obtain q qs' where "ps = []" "qs = q # qs'" by (auto simp: neq_Nil_conv)
  with "2.prems"(2) matches_nonempty matches_Rest show ?case by blast
qed (auto split: list.splits piece.splits if_splits)

section \<open>Reachable routes\<close>

text \<open>Covered by an earlier route of the table.\<close>

fun shadowed :: "route list \<Rightarrow> route list \<Rightarrow> route list" where
  "shadowed earlier [] = []"
| "shadowed earlier (r # rs) =
     (if list_ex (\<lambda>q. if r_method q = r_method r then covers (r_template q) (r_template r) else False) earlier
      then [r] else []) @
     shadowed (r # earlier) rs"

lemma shadowed_split:
  "r \<in> set (shadowed es rs) \<Longrightarrow>
   \<exists>as bs q. rs = as @ r # bs \<and> q \<in> set (es @ as) \<and> r_method q = r_method r \<and> covers (r_template q) (r_template r)"
proof (induction es rs rule: shadowed.induct)
  case (2 es a rs)
  show ?case
  proof (cases "r \<in> set (shadowed (a # es) rs)")
    case True
    from "2.IH" [OF True] obtain as bs q where rs: "rs = as @ r # bs" and q: "q \<in> set ((a # es) @ as)"
      "r_method q = r_method r" "covers (r_template q) (r_template r)" by blast
    from rs have "a # rs = (a # as) @ r # bs" by simp
    with q show ?thesis by (intro exI [of _ "a # as"] exI [of _ bs] exI [of _ q]) simp
  next
    case False
    with "2.prems" have "r = a"
      "list_ex (\<lambda>q. if r_method q = r_method a then covers (r_template q) (r_template a) else False) es"
      by (auto split: if_splits)
    then show ?thesis by (intro exI [of _ "[]"] exI [of _ rs]) (auto simp: list_ex_iff split: if_splits)
  qed
qed simp

lemma shadowed_unreachable:
  assumes "distinct rs" and "r \<in> set (shadowed [] rs)"
  shows "dispatch rs m p \<noteq> Some r"
proof
  assume "dispatch rs m p = Some r"
  then obtain i where i: "i < length rs" "rs ! i = r" "r_method r = m" "matches (r_template r) (path_segments p)"
    and before: "\<forall>j < i. \<not> (r_method (rs ! j) = m \<and> matches (r_template (rs ! j)) (path_segments p))"
    by (auto simp: dispatch_def find_Some_iff)
  from shadowed_split [OF assms(2)] obtain as bs q where rs: "rs = as @ r # bs" and q: "q \<in> set as"
    "r_method q = r_method r" "covers (r_template q) (r_template r)" by auto
  have "i = length as" using assms(1) i(1,2) rs by (metis distinct_conv_nth length_append less_add_same_cancel1
        length_greater_0_conv list.distinct(1) nth_append_length)
  moreover from q(1) obtain j where "j < length as" "as ! j = q" by (auto simp: in_set_conv_nth)
  ultimately have "j < i" "rs ! j = q" using rs by (simp_all add: nth_append)
  with before q covers_matches i(3,4) show False by auto
qed

text \<open>A path that the template fits.\<close>

fun sample_segments :: "piece list \<Rightarrow> string list" where
  "sample_segments [] = []"
| "sample_segments (Lit l # ps) = l # sample_segments ps"
| "sample_segments (Seg n # ps) = ''x'' # sample_segments ps"
| "sample_segments (Rest n # ps) = ''P'' # sample_segments ps"

definition reached :: "route list \<Rightarrow> route \<Rightarrow> bool" where
  "reached rs r =
     (let xs = sample_segments (r_template r) in
      xs \<noteq> [] \<and> list_all (\<lambda>x. CHR ''/'' \<notin> set x) xs \<and>
      find (\<lambda>q. if r_method q = r_method r then matches (r_template q) xs else False) rs = Some r)"

lemma if_conj: "(if c then b else False) = (c \<and> b)"
  by simp

lemma split_char_one: "c \<notin> set x \<Longrightarrow> split_char c (x @ c # s) = x # split_char c s"
  by (induction x) auto

lemma split_char_none: "c \<notin> set x \<Longrightarrow> split_char c x = [x]"
  by (induction x) auto

lemma split_joined:
  "list_all (\<lambda>x. c \<notin> set x) (x # xs) \<Longrightarrow> split_char c (x @ concat (map ((#) c) xs)) = x # xs"
proof (induction xs arbitrary: x)
  case (Cons y ys)
  then show ?case using split_char_one [of c x "y @ concat (map ((#) c) ys)"] by simp
qed (simp add: split_char_none)

lemma reached_dispatch:
  assumes "reached rs r"
  shows "\<exists>p. dispatch rs (r_method r) p = Some r"
proof -
  let ?xs = "sample_segments (r_template r)"
  from assms have "?xs \<noteq> []" and all: "list_all (\<lambda>x. CHR ''/'' \<notin> set x) ?xs"
    and find: "find (\<lambda>q. if r_method q = r_method r then matches (r_template q) ?xs else False) rs = Some r"
    unfolding reached_def Let_def by blast+
  then obtain x xs where xs: "?xs = x # xs" by (cases ?xs) auto
  with all have plain: "list_all (\<lambda>x. CHR ''/'' \<notin> set x) (x # xs)" by simp
  have "path_segments (CHR ''/'' # x @ concat (map ((#) CHR ''/'') xs)) = ?xs"
    using split_joined [OF plain] xs by (simp add: path_segments_def)
  with find have "dispatch rs (r_method r) (CHR ''/'' # x @ concat (map ((#) CHR ''/'') xs)) = Some r"
    by (simp add: dispatch_def if_conj)
  then show ?thesis ..
qed

lemma reached_exact:
  assumes "distinct rs" and "shadowed [] rs = us" and "list_all (\<lambda>r. r \<in> set us \<or> reached rs r) rs" and "r \<in> set rs"
  shows "(\<exists>m p. dispatch rs m p = Some r) \<longleftrightarrow> r \<notin> set us"
  using assms shadowed_unreachable reached_dispatch by (fastforce simp: list_all_iff)

lemmas route_data = route_def needs_def

subsection \<open>Evaluating the tables\<close>

lemma route_fields:
  "r_method (route m t g h) = m" "r_template (route m t g h) = t" "r_guard (route m t g h) = g"
  "r_handler (route m t g h) = h"
  by (simp_all add: route_def)

text \<open>The fields of each route as rewrite rules, so that the names of the routes stay folded.\<close>

lemmas submodel_route_defs =
  route_get_all_submodels_def route_get_all_submodels_metadata_def route_get_all_submodels_reference_def
  route_get_all_submodels_path_def route_get_all_submodels_value_def route_post_submodel_def
  route_get_submodel_by_id_def route_put_submodel_by_id_def route_delete_submodel_by_id_def
  route_get_submodel_elements_def route_get_all_submodel_elements_metadata_def route_get_all_submodel_elements_value_def
  route_get_all_submodel_elements_reference_def route_get_all_submodel_elements_path_def route_get_submodel_element_by_path_def
  route_get_submodel_value_def route_patch_submodel_value_def route_get_element_value_def
  route_get_submodel_metadata_def route_patch_submodel_metadata_def route_get_submodel_reference_def
  route_get_submodel_path_def route_get_element_metadata_def route_get_element_reference_def
  route_get_element_path_def route_get_element_attachment_def route_put_element_attachment_def
  route_delete_element_attachment_def route_post_submodel_element_def route_post_nested_submodel_element_def
  route_put_submodel_element_def route_patch_element_value_def route_patch_submodel_element_def
  route_delete_submodel_element_def route_invoke_operation_sync_def route_invoke_operation_sync_value_only_def
  route_invoke_operation_async_def route_invoke_operation_async_value_only_def route_get_operation_result_def
  route_get_operation_status_def route_get_operation_result_value_only_def route_instantiate_template_endpoint_def

lemmas submodel_fields =
  submodel_route_defs [THEN arg_cong [where f = r_method], unfolded route_fields]
  submodel_route_defs [THEN arg_cong [where f = r_template], unfolded route_fields]
  submodel_route_defs [THEN arg_cong [where f = r_handler], unfolded route_fields]

lemmas shell_route_defs =
  route_get_all_shells_def route_get_all_shells_metadata_def route_get_all_shell_references_def
  route_post_shell_def route_get_shell_by_id_def route_put_shell_by_id_def
  route_delete_shell_by_id_def route_get_shell_metadata_def route_get_shell_reference_def
  route_get_asset_information_def route_put_asset_information_def route_get_asset_information_thumbnail_def
  route_put_asset_information_thumbnail_def route_delete_asset_information_thumbnail_def route_get_submodel_references_def
  route_post_submodel_reference_def route_delete_submodel_reference_def route_get_submodels_for_shell_def
  route_get_submodel_by_id_for_shell_def route_put_submodel_by_id_for_shell_def route_patch_submodel_by_id_for_shell_def
  route_delete_submodel_by_id_for_shell_def route_get_submodel_metadata_for_shell_def route_patch_submodel_metadata_for_shell_def
  route_get_submodel_value_for_shell_def route_patch_submodel_value_for_shell_def route_get_submodel_reference_for_shell_def
  route_get_submodel_path_for_shell_def route_get_submodel_elements_for_shell_def route_get_all_submodel_elements_metadata_for_shell_def
  route_get_all_submodel_elements_value_for_shell_def route_get_all_submodel_elements_reference_for_shell_def route_get_all_submodel_elements_path_for_shell_def
  route_get_submodel_element_by_path_for_shell_def route_get_submodel_element_metadata_for_shell_def route_get_submodel_element_value_for_shell_def
  route_get_submodel_element_reference_for_shell_def route_get_submodel_element_path_for_shell_def route_get_element_attachment_for_shell_def
  route_put_element_attachment_for_shell_def route_delete_element_attachment_for_shell_def route_invoke_operation_sync_for_shell_def
  route_invoke_operation_sync_value_only_for_shell_def route_invoke_operation_async_for_shell_def route_invoke_operation_async_value_only_for_shell_def
  route_get_operation_status_for_shell_def route_get_operation_result_for_shell_def route_get_operation_result_value_only_for_shell_def
  route_post_submodel_element_for_shell_def route_post_nested_submodel_element_for_shell_def route_put_submodel_element_for_shell_def
  route_patch_submodel_element_value_for_shell_def route_patch_submodel_element_for_shell_def route_delete_submodel_element_for_shell_def

lemmas shell_fields =
  shell_route_defs [THEN arg_cong [where f = r_method], unfolded route_fields]
  shell_route_defs [THEN arg_cong [where f = r_template], unfolded route_fields]
  shell_route_defs [THEN arg_cong [where f = r_handler], unfolded route_fields]

lemmas registry_route_defs =
  route_get_all_shell_descriptors_def route_post_shell_descriptor_def route_get_shell_descriptor_by_id_def
  route_put_shell_descriptor_by_id_def route_delete_shell_descriptor_by_id_def route_get_nested_submodel_descriptors_def
  route_post_nested_submodel_descriptor_def route_get_nested_submodel_descriptor_by_id_def route_put_nested_submodel_descriptor_def
  route_delete_nested_submodel_descriptor_def route_bulk_create_shell_descriptors_def route_bulk_delete_shell_descriptors_def
  route_get_all_submodel_descriptors_def route_post_submodel_descriptor_def route_get_submodel_descriptor_by_id_def
  route_put_submodel_descriptor_by_id_def route_delete_submodel_descriptor_by_id_def route_bulk_create_submodel_descriptors_def
  route_bulk_delete_submodel_descriptors_def

lemmas registry_fields =
  registry_route_defs [THEN arg_cong [where f = r_method], unfolded route_fields]
  registry_route_defs [THEN arg_cong [where f = r_template], unfolded route_fields]
  registry_route_defs [THEN arg_cong [where f = r_handler], unfolded route_fields]

definition unreached_submodel :: "route list" where
  "unreached_submodel =
     [route_get_element_value, route_get_element_metadata, route_get_element_reference,
      route_get_element_path, route_get_element_attachment, route_invoke_operation_sync,
      route_invoke_operation_sync_value_only, route_invoke_operation_async,
      route_invoke_operation_async_value_only, route_get_operation_result, route_get_operation_status,
      route_get_operation_result_value_only]"

lemma submodel_shadowed: "shadowed [] submodel_routes = unreached_submodel"
  by (simp add: submodel_routes_def unreached_submodel_def submodel_fields)

lemma submodel_distinct: "distinct submodel_routes"
proof -
  have "distinct (map r_handler submodel_routes)" by (simp add: submodel_routes_def submodel_fields)
  then show ?thesis by (simp add: distinct_map)
qed

lemma submodel_reached: "list_all (\<lambda>r. r \<in> set unreached_submodel \<or> reached submodel_routes r) submodel_routes"
  by (simp add: submodel_routes_def unreached_submodel_def submodel_fields reached_def Let_def upt_rec)

definition unreached_shell :: "route list" where
  "unreached_shell =
     [route_get_submodel_element_metadata_for_shell, route_get_submodel_element_value_for_shell,
      route_get_submodel_element_reference_for_shell, route_get_submodel_element_path_for_shell,
      route_get_element_attachment_for_shell, route_get_operation_status_for_shell,
      route_get_operation_result_for_shell, route_get_operation_result_value_only_for_shell]"

lemma shell_shadowed: "shadowed [] shell_routes = unreached_shell"
  by (simp add: shell_routes_def unreached_shell_def shell_fields)

lemma shell_distinct: "distinct shell_routes"
proof -
  have "distinct (map r_handler shell_routes)" by (simp add: shell_routes_def shell_fields)
  then show ?thesis by (simp add: distinct_map)
qed

lemma shell_reached: "list_all (\<lambda>r. r \<in> set unreached_shell \<or> reached shell_routes r) shell_routes"
  by (simp add: shell_routes_def unreached_shell_def shell_fields reached_def Let_def upt_rec)

definition unreached_registry :: "route list" where
  "unreached_registry =
     [route_bulk_delete_shell_descriptors, route_bulk_delete_submodel_descriptors]"

lemma registry_shadowed: "shadowed [] registry_routes = unreached_registry"
  by (simp add: registry_routes_def unreached_registry_def registry_fields)

lemma registry_distinct: "distinct registry_routes"
proof -
  have "distinct (map r_handler registry_routes)" by (simp add: registry_routes_def registry_fields)
  then show ?thesis by (simp add: distinct_map)
qed

lemma registry_reached: "list_all (\<lambda>r. r \<in> set unreached_registry \<or> reached registry_routes r) registry_routes"
  by (simp add: registry_routes_def unreached_registry_def registry_fields reached_def Let_def upt_rec)

section \<open>What clients can reach\<close>

text \<open>
  C10. Of the routers of shells, submodels and descriptors exactly these handlers can never run, because
  an earlier route of the same method takes every path they fit: below \<open>/submodels\<close> the reads of an
  element's value, metadata, reference, path and attachment, all four invocations of an operation and
  all polls of its results; below \<open>/shells\<close> the same reads and polls; and the two bulk deletions of the
  registry. Every other route takes some path.
\<close>

theorem unreached_exact:
  "(\<forall>r \<in> set submodel_routes. (\<exists>m p. dispatch submodel_routes m p = Some r) \<longleftrightarrow> r \<notin> set unreached_submodel) \<and>
   (\<forall>r \<in> set shell_routes. (\<exists>m p. dispatch shell_routes m p = Some r) \<longleftrightarrow> r \<notin> set unreached_shell) \<and>
   (\<forall>r \<in> set registry_routes. (\<exists>m p. dispatch registry_routes m p = Some r) \<longleftrightarrow> r \<notin> set unreached_registry)"
  using reached_exact [OF submodel_distinct submodel_shadowed submodel_reached]
    reached_exact [OF shell_distinct shell_shadowed shell_reached]
    reached_exact [OF registry_distinct registry_shadowed registry_reached] by blast

theorem unreached_exact_witness: "\<not> (\<exists>m p. dispatch submodel_routes m p = Some route_invoke_operation_sync)"
proof -
  have "route_invoke_operation_sync \<in> set submodel_routes" by (simp add: submodel_routes_def)
  moreover have "route_invoke_operation_sync \<in> set unreached_submodel" by (simp add: unreached_submodel_def)
  ultimately show ?thesis using conjunct1 [OF unreached_exact] by blast
qed

section \<open>Who may reach what\<close>

lemmas all_route_defs =
  route_get_all_shells_def route_get_all_shells_metadata_def route_get_all_shell_references_def
  route_post_shell_def route_get_shell_by_id_def route_put_shell_by_id_def route_delete_shell_by_id_def
  route_get_shell_metadata_def route_get_shell_reference_def route_get_asset_information_def
  route_put_asset_information_def route_get_asset_information_thumbnail_def
  route_put_asset_information_thumbnail_def route_delete_asset_information_thumbnail_def
  route_get_submodel_references_def route_post_submodel_reference_def route_delete_submodel_reference_def
  route_get_submodels_for_shell_def route_get_submodel_by_id_for_shell_def
  route_put_submodel_by_id_for_shell_def route_patch_submodel_by_id_for_shell_def
  route_delete_submodel_by_id_for_shell_def route_get_submodel_metadata_for_shell_def
  route_patch_submodel_metadata_for_shell_def route_get_submodel_value_for_shell_def
  route_patch_submodel_value_for_shell_def route_get_submodel_reference_for_shell_def
  route_get_submodel_path_for_shell_def route_get_submodel_elements_for_shell_def
  route_get_all_submodel_elements_metadata_for_shell_def
  route_get_all_submodel_elements_value_for_shell_def
  route_get_all_submodel_elements_reference_for_shell_def
  route_get_all_submodel_elements_path_for_shell_def route_get_submodel_element_by_path_for_shell_def
  route_get_submodel_element_metadata_for_shell_def route_get_submodel_element_value_for_shell_def
  route_get_submodel_element_reference_for_shell_def route_get_submodel_element_path_for_shell_def
  route_get_element_attachment_for_shell_def route_put_element_attachment_for_shell_def
  route_delete_element_attachment_for_shell_def route_invoke_operation_sync_for_shell_def
  route_invoke_operation_sync_value_only_for_shell_def route_invoke_operation_async_for_shell_def
  route_invoke_operation_async_value_only_for_shell_def route_get_operation_status_for_shell_def
  route_get_operation_result_for_shell_def route_get_operation_result_value_only_for_shell_def
  route_post_submodel_element_for_shell_def route_post_nested_submodel_element_for_shell_def
  route_put_submodel_element_for_shell_def route_patch_submodel_element_value_for_shell_def
  route_patch_submodel_element_for_shell_def route_delete_submodel_element_for_shell_def
  route_get_all_submodels_def route_get_all_submodels_metadata_def route_get_all_submodels_reference_def
  route_get_all_submodels_path_def route_get_all_submodels_value_def route_post_submodel_def
  route_get_submodel_by_id_def route_put_submodel_by_id_def route_delete_submodel_by_id_def
  route_get_submodel_elements_def route_get_all_submodel_elements_metadata_def
  route_get_all_submodel_elements_value_def route_get_all_submodel_elements_reference_def
  route_get_all_submodel_elements_path_def route_get_submodel_element_by_path_def
  route_get_submodel_value_def route_patch_submodel_value_def route_get_element_value_def
  route_get_submodel_metadata_def route_patch_submodel_metadata_def route_get_submodel_reference_def
  route_get_submodel_path_def route_get_element_metadata_def route_get_element_reference_def
  route_get_element_path_def route_get_element_attachment_def route_put_element_attachment_def
  route_delete_element_attachment_def route_post_submodel_element_def
  route_post_nested_submodel_element_def route_put_submodel_element_def route_patch_element_value_def
  route_patch_submodel_element_def route_delete_submodel_element_def route_invoke_operation_sync_def
  route_invoke_operation_sync_value_only_def route_invoke_operation_async_def
  route_invoke_operation_async_value_only_def route_get_operation_result_def route_get_operation_status_def
  route_get_operation_result_value_only_def route_instantiate_template_endpoint_def route_get_blob_def
  route_get_all_concept_descriptions_def route_post_concept_description_def
  route_get_concept_description_by_id_def route_put_concept_description_by_id_def
  route_delete_concept_description_by_id_def route_get_all_shell_descriptors_def
  route_post_shell_descriptor_def route_get_shell_descriptor_by_id_def route_put_shell_descriptor_by_id_def
  route_delete_shell_descriptor_by_id_def route_get_nested_submodel_descriptors_def
  route_post_nested_submodel_descriptor_def route_get_nested_submodel_descriptor_by_id_def
  route_put_nested_submodel_descriptor_def route_delete_nested_submodel_descriptor_def
  route_bulk_create_shell_descriptors_def route_bulk_delete_shell_descriptors_def
  route_get_all_submodel_descriptors_def route_post_submodel_descriptor_def
  route_get_submodel_descriptor_by_id_def route_put_submodel_descriptor_by_id_def
  route_delete_submodel_descriptor_by_id_def route_bulk_create_submodel_descriptors_def
  route_bulk_delete_submodel_descriptors_def route_lookup_shells_def route_lookup_submodels_def
  route_search_shells_by_asset_link_def route_get_asset_links_by_id_def route_post_asset_links_by_id_def
  route_delete_asset_links_by_id_def route_get_serialization_def route_post_serialization_def
  route_get_all_packages_def route_upload_package_def route_download_package_def route_update_package_def
  route_delete_package_def route_create_package_version_def route_list_package_versions_def
  route_get_package_version_def route_rollback_package_version_def route_compare_package_versions_def
  route_diff_package_versions_def route_tag_package_version_def route_get_version_by_tag_def
  route_get_package_shells_def route_get_package_submodels_def route_get_package_shell_by_id_short_def
  route_get_package_submodel_by_id_short_def route_get_package_concept_descriptions_def
  route_get_package_concept_description_by_id_short_def route_validate_package_def
  route_preview_package_import_def route_import_package_contents_def route_export_xml_def
  route_get_dashboard_stats_def route_get_recent_activity_def route_get_admin_health_def
  route_get_semantic_ids_def route_get_global_asset_ids_def route_list_peers_def route_register_peer_def
  route_get_peer_def route_unregister_peer_def route_check_peer_health_def route_get_sync_status_def
  route_trigger_sync_def route_get_sync_history_def route_list_conflicts_def route_get_conflict_def
  route_resolve_conflict_def route_resolve_all_conflicts_def

lemmas all_fields =
  all_route_defs [THEN arg_cong [where f = r_method], unfolded route_fields]
  all_route_defs [THEN arg_cong [where f = r_guard], unfolded route_fields needs_def]
  all_route_defs [THEN arg_cong [where f = r_handler], unfolded route_fields]

text \<open>The routes that let everybody in.\<close>

definition open_handlers :: "string list" where
  "open_handlers =
     [''bulk_create_shell_descriptors'', ''bulk_delete_shell_descriptors'', ''bulk_create_submodel_descriptors'',
      ''bulk_delete_submodel_descriptors'', ''lookup_submodels'', ''post_serialization'']"

text \<open>Posts that ask for something and need a permission to read only.\<close>

definition asking_handlers :: "string list" where
  "asking_handlers =
     [''search_shells_by_asset_link'', ''validate_package'', ''preview_package_import'', ''export_xml'']"

lemma guards_of_writes:
  "list_all (\<lambda>r. case r_guard r of
       None \<Rightarrow> r_handler r \<in> set open_handlers
     | Some g \<Rightarrow> g_permission g \<notin> set reader_permissions \<or> r_method r = ''GET'' \<or> r_handler r \<in> set asking_handlers)
     api_routes"
  by (simp add: api_routes_def shell_routes_def submodel_routes_def blob_routes_def concept_routes_def registry_routes_def
  discovery_routes_def serialization_routes_def package_routes_def admin_routes_def federation_routes_def all_fields reader_permissions_def
      open_handlers_def asking_handlers_def)

lemma open_routes: "map r_handler (filter (\<lambda>r. r_guard r = None) api_routes) =
    [''bulk_create_shell_descriptors'', ''bulk_delete_shell_descriptors'', ''bulk_create_submodel_descriptors'',
     ''bulk_delete_submodel_descriptors'', ''lookup_submodels'', ''post_serialization'']"
  by (simp add: api_routes_def shell_routes_def submodel_routes_def blob_routes_def concept_routes_def registry_routes_def
  discovery_routes_def serialization_routes_def package_routes_def admin_routes_def federation_routes_def all_fields)

text \<open>
  C11. A reader changes nothing, with the exceptions of the code: a request of a user whose only roles are
  readers' and that is admitted to a handler is a \<open>GET\<close>, or one of the posts that only ask, or goes to
  one of the six handlers without a guard --- among them the bulk creation of descriptors, which anybody
  may use.
\<close>

theorem reader_changes_nothing:
  assumes "admitted ipp abac (Some validate) anon (Some (''Bearer '' @ token)) rq m p = Inr (Some r)"
    and "validate token = Inr u" and "set (roles u) \<subseteq> {''reader'', ''titan:read''}"
  shows "r \<in> set api_routes \<and>
    (m = ''GET'' \<or> r_handler r \<in> set asking_handlers \<or> (r_guard r = None \<and> r_handler r \<in> set open_handlers))"
proof -
  from assms(1) have disp: "dispatch api_routes m p = Some r"
    and ok: "\<exists>v. guarded ipp abac (Some validate) anon (Some (''Bearer '' @ token)) rq r = Inr v"
    by (auto simp: admitted_def errs split: option.splits)
  from disp have r: "r \<in> set api_routes" "r_method r = m"
    by (auto simp: dispatch_def find_Some_iff)
  show ?thesis
  proof (cases "r_guard r")
    case None
    with guards_of_writes r show ?thesis by (auto simp: list_all_iff)
  next
    case (Some g)
    with ok assms(2) have "has_permission role_permissions u (g_permission g)"
      by (auto simp: guarded_def errs get_current_user_def require_authenticated_def require_permission_def
        split: if_splits)
    moreover from assms(3) have "\<not> user_is_admin u" by (auto simp: user_is_admin_def)
    ultimately have "g_permission g \<in> set reader_permissions"
      using assms(3) by (fastforce simp: has_permission_def get_user_permissions_def role_permissions_of split: option.splits)
    with guards_of_writes Some r show ?thesis by (fastforce simp: list_all_iff)
  qed
qed

definition reading_user :: user where
  "reading_user = \<lparr>sub = ''u'', email = None, user_name = None, roles = [''reader''], tenant_id = None\<rparr>"

definition plain_request :: request where
  "plain_request =
     \<lparr>headers = Map.empty, client_host = None, path_params = Map.empty, context_tenant = None, at_hour = 0, at_weekday = 0\<rparr>"

theorem reader_changes_nothing_witness:
  "\<exists>r. admitted Map.empty None (Some (\<lambda>t. Inr reading_user)) False (Some ''Bearer t'') plain_request ''POST''
     ''/shell-descriptors/$bulk'' = Inr (Some r) \<and> r_handler r \<in> set open_handlers"
proof -
  have disp: "dispatch api_routes ''POST'' ''/shell-descriptors/$bulk'' = Some route_bulk_create_shell_descriptors"
    by (simp add: dispatch_def path_segments_def api_routes_def shell_routes_def submodel_routes_def blob_routes_def
      concept_routes_def registry_routes_def shell_fields submodel_fields registry_fields upt_rec
      route_get_blob_def route_get_all_concept_descriptions_def route_post_concept_description_def
      route_get_concept_description_by_id_def route_put_concept_description_by_id_def
      route_delete_concept_description_by_id_def route_fields)
  let ?r = route_bulk_create_shell_descriptors
  have fields: "r_guard ?r = None" "r_handler ?r = ''bulk_create_shell_descriptors''"
    by (simp_all add: route_bulk_create_shell_descriptors_def route_fields)
  have adm: "admitted Map.empty None (Some (\<lambda>t. Inr reading_user)) False (Some ''Bearer t'') plain_request ''POST''
     ''/shell-descriptors/$bulk'' = Inr (Some ?r)"
    by (simp add: admitted_def disp guarded_def fields)
  from reader_changes_nothing [of Map.empty None "\<lambda>t. Inr reading_user" False "''t''" plain_request "''POST''"
      "''/shell-descriptors/$bulk''" ?r reading_user] adm fields
  show ?thesis by (auto simp: reading_user_def asking_handlers_def)
qed

end
