(* ===== verification/Concepts.thy ===== *)
theory Concepts
  imports SubmodelApi
begin

text \<open>
  Concept descriptions: \<open>ConceptDescriptionRepository\<close> of \<open>src/titan/persistence/repositories.py\<close> and the
  handlers of \<open>src/titan/api/routers/concept_description_repository.py\<close>. The table has the columns of that
  of shells; the state is a world of its own, since nothing else touches it. The lists read the JSONB
  column, whose order of keys does not show in what they answer.
\<close>

section \<open>State\<close>

record cd_event =
  ce_kind :: event_kind
  ce_id :: "nat list"
  ce_b64 :: string
  ce_doc :: "obj option"
  ce_etag :: "string option"

record 's concepts =
  cd_db :: "row list"
  cd_tx :: "row list"
  cd_cache :: 's
  cd_bus :: "cd_event list"
  cd_serial :: nat

type_synonym ('s, 'a) cd_handler = "('s concepts, 'a) act"

definition cd_commit :: "('s, unit) cd_handler" where
  "cd_commit w = (w\<lparr>cd_db := cd_tx w\<rparr>, Inr ())"

definition cd_set_cache :: "('s \<Rightarrow> 's) \<Rightarrow> ('s, unit) cd_handler" where
  "cd_set_cache f w = (w\<lparr>cd_cache := f (cd_cache w)\<rparr>, Inr ())"

definition cd_publish :: "cd_event \<Rightarrow> ('s, unit) cd_handler" where
  "cd_publish e w = (w\<lparr>cd_bus := cd_bus w @ [e]\<rparr>, Inr ())"

definition run_concept :: "('s, 'a) cd_handler \<Rightarrow> 's concepts \<Rightarrow> 's concepts \<times> (failure + 'a)" where
  "run_concept h w = (case h (w\<lparr>cd_tx := cd_db w\<rparr>) of (w', r) \<Rightarrow> (w'\<lparr>cd_tx := cd_db w'\<rparr>, r))"

section \<open>The repository\<close>

definition concept_get_bytes :: "string \<Rightarrow> row list \<Rightarrow> (obj \<times> string) option" where
  "concept_get_bytes b64 rows = map_option (\<lambda>r. (row_doc r, etag r)) (find (\<lambda>r. row_b64 r = b64) rows)"

definition concept_get_bytes_by_id :: "nat list \<Rightarrow> row list \<Rightarrow> (obj \<times> string) option" where
  "concept_get_bytes_by_id i rows = map_option (\<lambda>r. (row_doc r, etag r)) (row_by_id i rows)"

definition concept_list_all :: "'s env \<Rightarrow> nat \<Rightarrow> nat \<Rightarrow> row list \<Rightarrow> (obj \<times> string) list" where
  "concept_list_all E limit offset rows =
     map (\<lambda>r. (row_doc r, etag_of E (row_doc r))) (take limit (drop offset (sort_key created_at rows)))"

definition concept_exists :: "nat list \<Rightarrow> row list \<Rightarrow> bool" where
  "concept_exists i rows = (row_by_id i rows \<noteq> None)"

definition concept_create :: "'s env \<Rightarrow> obj \<Rightarrow> ('s, obj \<times> string) cd_handler" where
  "concept_create E m w =
     (let r = new_row E (cd_serial w) m; w' = w\<lparr>cd_serial := Suc (cd_serial w)\<rparr> in
      if clashes r (cd_tx w) then (w', Inl (Unhandled IntegrityError))
      else (w'\<lparr>cd_tx := cd_tx w @ [r]\<rparr>, Inr (m, etag_of E m)))"

text \<open>The columns of the identifier stay.\<close>

definition concept_update :: "'s env \<Rightarrow> nat list \<Rightarrow> obj \<Rightarrow> ('s, (obj \<times> string) option) cd_handler" where
  "concept_update E i m w =
     (case row_by_id i (cd_tx w) of
        None \<Rightarrow> (w, Inr None)
      | Some r \<Rightarrow>
          (w\<lparr>cd_tx := replace_row (r\<lparr>row_doc := m, etag := etag_of E m\<rparr>) (cd_tx w)\<rparr>, Inr (Some (m, etag_of E m))))"

definition concept_delete :: "nat list \<Rightarrow> ('s, bool) cd_handler" where
  "concept_delete i w =
     (case row_by_id i (cd_tx w) of
        None \<Rightarrow> (w, Inr False)
      | Some r \<Rightarrow> (w\<lparr>cd_tx := remove_row r (cd_tx w)\<rparr>, Inr True))"

text \<open>The filter by \<open>isCaseOf\<close> is a parameter of the code that the query does not use.\<close>

definition concept_list_paged :: "nat \<Rightarrow> int option \<Rightarrow> nat list option \<Rightarrow> row list \<Rightarrow> obj list \<times> int option" where
  "concept_list_paged limit cursor is_case_of rows =
     (map row_doc (page_rows limit cursor rows), next_page (page_rows limit cursor rows) rows)"

section \<open>Filters of the list\<close>

definition key_has :: "nat list \<Rightarrow> json \<Rightarrow> bool" where
  "key_has v k = (case k of JDict d \<Rightarrow> (case dget d ''value'' of JStr s \<Rightarrow> code_points s = v | _ \<Rightarrow> False) | _ \<Rightarrow> False)"

definition reference_has :: "nat list \<Rightarrow> json \<Rightarrow> py_exn + bool" where
  "reference_has v r =
     (case r of
        JDict d \<Rightarrow> (case dget d ''keys'' of JList ks \<Rightarrow> Inr (list_ex (key_has v) ks) | _ \<Rightarrow> Inr False)
      | _ \<Rightarrow> Inl AttributeError)"

fun any_has :: "(json \<Rightarrow> py_exn + bool) \<Rightarrow> json list \<Rightarrow> py_exn + bool" where
  "any_has f [] = Inr False"
| "any_has f (x # xs) = bindE (f x) (\<lambda>b. if b then Inr True else any_has f xs)"

definition reference_contains_value :: "json \<Rightarrow> nat list \<Rightarrow> py_exn + bool" where
  "reference_contains_value refs v =
     (if \<not> truthy refs then Inr False else bindE (py_iter refs) (any_has (reference_has v)))"

definition data_spec_has :: "nat list \<Rightarrow> json \<Rightarrow> py_exn + bool" where
  "data_spec_has v spec =
     (case spec of
        JDict d \<Rightarrow> (case dget d ''dataSpecification'' of JDict r \<Rightarrow> reference_has v (JDict r) | _ \<Rightarrow> Inr False)
      | _ \<Rightarrow> Inl AttributeError)"

definition data_spec_contains_value :: "json \<Rightarrow> nat list \<Rightarrow> py_exn + bool" where
  "data_spec_contains_value specs v =
     (if \<not> truthy specs then Inr False else bindE (py_iter specs) (any_has (data_spec_has v)))"

record concept_query =
  cq_limit :: nat
  cq_cursor :: "int option"
  cq_id_short :: "string option"
  cq_is_case_of :: "string option"
  cq_data_spec :: "string option"

definition concept_passes :: "string option \<Rightarrow> nat list option \<Rightarrow> nat list option \<Rightarrow> obj \<Rightarrow> py_exn + bool" where
  "concept_passes n c s d =
     (if given n \<and> dget d ''idShort'' \<noteq> JStr (the n) then Inr False
      else bindE (case c of None \<Rightarrow> Inr True | Some v \<Rightarrow> reference_contains_value (dget d ''isCaseOf'') v) (\<lambda>b.
        if \<not> b then Inr False
        else (case s of None \<Rightarrow> Inr True | Some v \<Rightarrow> data_spec_contains_value (dget d ''embeddedDataSpecifications'') v)))"

section \<open>Handlers\<close>

text \<open>An identifier in the query that is present and not empty; a decoded one is never empty.\<close>

definition decode_optional :: "string option \<Rightarrow> ('w, nat list option) act" where
  "decode_optional s = (if given s then bindH (decode_identifier (the s)) (\<lambda>i. retH (Some i)) else retH None)"

definition get_all_concept_descriptions :: "'s env \<Rightarrow> concept_query \<Rightarrow> ('s, response) cd_handler" where
  "get_all_concept_descriptions E q =
     bindH (decode_optional (cq_is_case_of q)) (\<lambda>c.
     bindH (decode_optional (cq_data_spec q)) (\<lambda>s.
       (\<lambda>w.
         if \<not> given (cq_id_short q) \<and> c = None \<and> s = None then
           (case concept_list_paged (cq_limit q) (cq_cursor q) c (cd_tx w) of
              (ds, cur) \<Rightarrow> retH (items_response (JList (map JDict ds)) (cursor_json cur)) w)
         else
           bindH (pureH (concatE (\<lambda>d. bindE (concept_passes (cq_id_short q) c s d) (\<lambda>b. Inr (if b then [JDict d] else [])))
                    (map fst (concept_list_all E (cq_limit q) 0 (cd_tx w)))))
             (\<lambda>items. retH (items_response (JList items) no_cursor)) w)))"

definition concept_event :: "event_kind \<Rightarrow> nat list \<Rightarrow> string \<Rightarrow> (obj \<times> string) option \<Rightarrow> cd_event" where
  "concept_event k i seg p =
     \<lparr>ce_kind = k, ce_id = i, ce_b64 = seg, ce_doc = map_option fst p, ce_etag = map_option snd p\<rparr>"

text \<open>After a change: commit, cache, event.\<close>

definition concept_written :: "'s env \<Rightarrow> event_kind \<Rightarrow> nat list \<Rightarrow> string \<Rightarrow> obj \<Rightarrow> string \<Rightarrow> ('s, unit) cd_handler" where
  "concept_written E k i seg d e =
     bindH cd_commit (\<lambda>_.
     bindH (cd_set_cache (set_concept_description (redis E) seg d e)) (\<lambda>_.
       cd_publish (concept_event k i seg (Some (d, e)))))"

definition post_concept_description :: "'s env \<Rightarrow> obj \<Rightarrow> ('s, response) cd_handler" where
  "post_concept_description E m w =
     (if concept_exists (id_of m) (cd_tx w) then (w, Inl (Conflict ''ConceptDescription'' (id_of m)))
      else bindH (concept_create E m) (\<lambda>(d, e).
           bindH (concept_written E CREATED (id_of m) (b64_of (id_of m)) d e) (\<lambda>_.
             retH (json_response_with_etag (JDict d) e 201
               (Some (''/concept-descriptions/'' @ b64_of (id_of m)))))) w)"

definition get_concept_description_by_id :: "'s env \<Rightarrow> string \<Rightarrow> string option \<Rightarrow> ('s, response) cd_handler" where
  "get_concept_description_by_id E seg if_none_match =
     bindH (decode_identifier seg) (\<lambda>i w.
       case get_concept_description (redis E) seg (cd_cache w) of
         Some (d, e) \<Rightarrow>
           (w, Inr (if not_modified if_none_match e then response_304 else json_response_with_etag (JDict d) e 200 None))
       | None \<Rightarrow>
           (case concept_get_bytes_by_id i (cd_tx w) of
              None \<Rightarrow> (w, Inl (NotFound ''ConceptDescription'' i))
            | Some (d, e) \<Rightarrow>
                bindH (cd_set_cache (set_concept_description (redis E) seg d e)) (\<lambda>_.
                  retH (if not_modified if_none_match e then response_304
                        else json_response_with_etag (JDict d) e 200 None)) w))"

definition put_concept_description_by_id ::
  "'s env \<Rightarrow> string \<Rightarrow> obj \<Rightarrow> string option \<Rightarrow> ('s, response) cd_handler" where
  "put_concept_description_by_id E seg m if_match =
     bindH (decode_identifier seg) (\<lambda>i w.
       if i \<noteq> id_of m then (w, Inl BadRequest)
       else (case concept_get_bytes_by_id i (cd_tx w) of
           None \<Rightarrow>
             bindH (concept_create E m) (\<lambda>(d, e).
             bindH (concept_written E CREATED i seg d e) (\<lambda>_.
               retH (json_response_with_etag (JDict d) e 201 (Some (''/concept-descriptions/'' @ seg))))) w
         | Some (_, current) \<Rightarrow>
             bindH (check_precondition if_match current) (\<lambda>_.
             bindH (concept_update E i m) (\<lambda>r.
               case r of
                 None \<Rightarrow> failH (NotFound ''ConceptDescription'' i)
               | Some (d, e) \<Rightarrow>
                   bindH (concept_written E UPDATED i seg d e) (\<lambda>_.
                     retH (json_response_with_etag (JDict d) e 200 None)))) w))"

definition delete_concept_description_by_id :: "'s env \<Rightarrow> string \<Rightarrow> ('s, response) cd_handler" where
  "delete_concept_description_by_id E seg =
     bindH (decode_identifier seg) (\<lambda>i.
     bindH (concept_delete i) (\<lambda>deleted.
       if \<not> deleted then failH (NotFound ''ConceptDescription'' i)
       else
         bindH cd_commit (\<lambda>_.
         bindH (cd_set_cache (delete_concept_description (redis E) seg)) (\<lambda>_.
         bindH (cd_publish (concept_event DELETED i seg None)) (\<lambda>_. retH response_204)))))"

end
