(* ===== verification/ConceptSpec.thy ===== *)
theory ConceptSpec
  imports Concepts SubmodelSpec
begin

text \<open>
  What clients of the concept descriptions see: a write is read back, also after the cache has lost it, and
  a list that is followed page by page is complete --- if no two rows have the same creation time.
\<close>

section \<open>Reading what was written\<close>

lemma concept_cached:
  assumes "kv_ok K"
  shows "get_concept_description K seg (set_concept_description K seg d e s) = Some (d, e)"
  using assms
  by (simp add: get_concept_description_def set_concept_description_def get_pair_def set_pair_def kv
      concept_description_bytes_def concept_description_etag_def key_of_def)

lemma expired_pair_cases:
  assumes "kv_expires K s s'"
  shows "get_pair K kb ke s' = None \<or> get_pair K kb ke s' = get_pair K kb ke s"
proof -
  have "kv_get K kb s' = None \<or> kv_get K kb s' = kv_get K kb s"
    and "kv_get K ke s' = None \<or> kv_get K ke s' = kv_get K ke s"
    using assms unfolding kv_expires_def by blast+
  then show ?thesis by (cases "kv_get K kb s") (auto simp: get_pair_def)
qed

lemma row_by_id_replaced:
  assumes "row_by_id i rows = Some r" and "row_ident r' = i" and "row_id r' = row_id r"
  shows "row_by_id i (replace_row r' rows) = Some r'"
  using assms by (induction rows) (auto simp: row_by_id_def replace_row_def split: if_splits)

lemma row_by_id_appended: "row_by_id i rows = None \<Longrightarrow> row_ident r = i \<Longrightarrow> row_by_id i (rows @ [r]) = Some r"
  by (induction rows) (auto simp: row_by_id_def split: if_splits)

lemma put_effect:
  assumes "put_concept_description_by_id E seg m h w = (w', Inr r)"
  shows "concept_get_bytes_by_id (id_of m) (cd_db w') = Some (m, etag_of E m) \<and>
    decode_id_from_b64url seg = Inr (id_of m) \<and> http_etag r = Some (quoted (etag_of E m)) \<and>
    (\<exists>s. cd_cache w' = set_concept_description (redis E) seg m (etag_of E m) s)"
proof -
  from assms obtain "decode_id_from_b64url seg = Inr (id_of m)"
    by (auto simp: put_concept_description_by_id_def decode_identifier_def handlers split: sum.splits if_splits)
  note step = assms [unfolded put_concept_description_by_id_def decode_identifier_def this]
  show ?thesis
  proof (cases "row_by_id (id_of m) (cd_tx w)")
    case None
    with step row_by_id_appended [of "id_of m" "cd_tx w" "new_row E (cd_serial w) m"] \<open>decode_id_from_b64url seg = _\<close>
    show ?thesis
      by (auto simp: concept_get_bytes_by_id_def concept_create_def concept_written_def cd_commit_def cd_set_cache_def
          cd_publish_def handlers Let_def json_response_with_etag_def new_row_def split: if_splits)
  next
    case (Some q)
    then have "row_ident q = id_of m" by (auto simp: row_by_id_def find_Some_iff)
    with Some step row_by_id_replaced [OF Some, of "q\<lparr>row_doc := m, etag := etag_of E m\<rparr>"] \<open>decode_id_from_b64url seg = _\<close>
    show ?thesis
      by (auto simp: concept_get_bytes_by_id_def concept_update_def concept_written_def cd_commit_def cd_set_cache_def
          cd_publish_def check_precondition_def handlers Let_def json_response_with_etag_def split: if_splits option.splits)
  qed
qed

text \<open>
  C22. What a client writes is what it reads: after a successful \<open>PUT\<close> of a concept description the \<open>GET\<close> of
  the same path answers that document with the ETag that the \<open>PUT\<close> returned, whatever entries the cache
  has lost in between.
\<close>

theorem put_then_get:
  assumes "kv_ok (redis E)" and "run_concept (put_concept_description_by_id E seg m h) w = (w', Inr r)"
    and "kv_expires (redis E) (cd_cache w') s"
  shows "snd (run_concept (get_concept_description_by_id E seg None) (w'\<lparr>cd_cache := s\<rparr>)) =
      Inr (json_response_with_etag (JDict m) (etag_of E m) 200 None) \<and>
    http_etag r = Some (quoted (etag_of E m))"
proof -
  from assms(2) obtain w1 where "put_concept_description_by_id E seg m h (w\<lparr>cd_tx := cd_db w\<rparr>) = (w1, Inr r)"
    and w': "w' = w1\<lparr>cd_tx := cd_db w1\<rparr>"
    by (auto simp: run_concept_def split: prod.splits)
  note effect = put_effect [OF this(1)]
  then obtain c where c: "cd_cache w1 = set_concept_description (redis E) seg m (etag_of E m) c" by blast
  have "get_concept_description (redis E) seg s = None \<or> get_concept_description (redis E) seg s = Some (m, etag_of E m)"
    using expired_pair_cases [OF assms(3), of "concept_description_bytes seg" "concept_description_etag seg"]
      concept_cached [OF assms(1), of seg m "etag_of E m" c] c w'
    by (auto simp: get_concept_description_def)
  with effect w' show ?thesis
    by (auto simp: run_concept_def get_concept_description_by_id_def decode_identifier_def handlers cd_set_cache_def
        not_modified_def)
qed

definition no_concepts :: "(string \<times> json) list concepts" where
  "no_concepts = \<lparr>cd_db = [], cd_tx = [], cd_cache = [], cd_bus = [], cd_serial = 0\<rparr>"

theorem put_then_get_witness:
  "snd (run_concept (get_concept_description_by_id sample_env ''TQ'' None)
     ((fst (run_concept (put_concept_description_by_id sample_env ''TQ'' (model ''v1'') None) no_concepts))\<lparr>cd_cache := []\<rparr>)) =
   Inr (json_response_with_etag (JDict (model ''v1'')) (etag_of sample_env (model ''v1'')) 200 None)"
proof -
  let ?run = "run_concept (put_concept_description_by_id sample_env ''TQ'' (model ''v1'') None) no_concepts"
  have "case snd ?run of Inl f \<Rightarrow> False | Inr r \<Rightarrow> True" by code_simp
  then obtain r where r: "?run = (fst ?run, Inr r)" by (cases ?run) (auto split: sum.splits)
  have "kv_ok (redis sample_env)" using sample_env_ok by (simp add: env_ok_def)
  moreover have "kv_expires (redis sample_env) c []" for c
    by (simp add: kv_expires_def sample_env_def table_kv_def)
  ultimately show ?thesis using put_then_get [OF _ r, of "[]"] by blast
qed

section \<open>Following the pages of a list\<close>

text \<open>A client that asks for the next page until there is none; \<open>n\<close> bounds the requests.\<close>

fun follow :: "nat \<Rightarrow> row list \<Rightarrow> nat \<Rightarrow> int option \<Rightarrow> obj list option" where
  "follow limit rows 0 c = None"
| "follow limit rows (Suc n) c =
     (case concept_list_paged limit c None rows of
        (ds, None) \<Rightarrow> Some ds
      | (ds, Some t) \<Rightarrow> map_option ((@) ds) (follow limit rows n (Some t)))"

lemma later_rows:
  assumes "sorted (map created_at rs)" and "distinct (map created_at rs)" and "k < length rs"
  shows "filter (\<lambda>r. created_at (rs ! k) < created_at r) rs = drop (Suc k) rs"
proof -
  have "filter (\<lambda>r. created_at (rs ! k) < created_at r) (take (Suc k) rs) = []"
  proof (simp only: filter_empty_conv, rule ballI)
    fix r assume "r \<in> set (take (Suc k) rs)"
    then obtain j where "j < Suc k" "j < length rs" "rs ! j = r" by (auto simp: in_set_conv_nth)
    then have "created_at r \<le> created_at (rs ! k)"
      using sorted_nth_mono [OF assms(1), of j k] assms(3) by simp
    then show "\<not> created_at (rs ! k) < created_at r" by simp
  qed
  moreover have "filter (\<lambda>r. created_at (rs ! k) < created_at r) (drop (Suc k) rs) = drop (Suc k) rs"
  proof (rule filter_True, rule ballI)
    fix r assume "r \<in> set (drop (Suc k) rs)"
    then obtain j where j: "j < length (drop (Suc k) rs)" "drop (Suc k) rs ! j = r" by (auto simp: in_set_conv_nth)
    have n: "Suc k + j < length rs" using j(1) by simp
    then have "created_at (rs ! k) \<le> created_at (rs ! (Suc k + j))"
      using sorted_nth_mono [OF assms(1), of k "Suc k + j"] by simp
    moreover have "created_at (rs ! k) \<noteq> created_at (rs ! (Suc k + j))"
      using nth_eq_iff_index_eq [OF assms(2), of k "Suc k + j"] n by simp
    ultimately show "created_at (rs ! k) < created_at r" using j by simp
  qed
  ultimately show ?thesis using filter_append [of _ "take (Suc k) rs" "drop (Suc k) rs"] by simp
qed

text \<open>\<open>c\<close> is where a client stands that has seen the first \<open>k\<close> rows.\<close>

definition stands_at :: "row list \<Rightarrow> nat \<Rightarrow> int option \<Rightarrow> bool" where
  "stands_at rs k c = (case c of None \<Rightarrow> k = 0 | Some t \<Rightarrow> 0 < k \<and> k \<le> length rs \<and> t = created_at (rs ! (k - 1)))"

lemma page_from:
  assumes "distinct (map created_at rows)" and "stands_at (sort_key created_at rows) k c"
  shows "page_rows limit c rows = take limit (drop k (sort_key created_at rows))"
proof -
  let ?rs = "sort_key created_at rows"
  have "distinct (map created_at ?rs)" using assms(1) by (simp add: distinct_map)
  with later_rows [of ?rs "k - 1"] assms(2) show ?thesis
    by (auto simp: page_rows_def stands_at_def split: option.splits)
qed

lemma next_from:
  assumes "distinct (map created_at rows)" and "0 < limit" and "k < length rows"
    and pg: "pg = take limit (drop k (sort_key created_at rows))"
  shows "next_page pg rows =
    (if length rows \<le> k + limit then None else Some (created_at (sort_key created_at rows ! (k + limit - 1))))"
proof -
  let ?rs = "sort_key created_at rows"
  let ?l = "min (k + limit) (length rows) - 1"
  have d: "distinct (map created_at ?rs)" using assms(1) by (simp add: distinct_map)
  have ne: "pg \<noteq> []" using assms(2-4) by simp
  have len: "length pg = min limit (length rows - k)" using pg by simp
  have "last pg = pg ! (min limit (length rows - k) - 1)" using last_conv_nth [OF ne] len by simp
  also have "\<dots> = ?rs ! (k + (min limit (length rows - k) - 1))" using assms(2,3) pg by simp
  also have "k + (min limit (length rows - k) - 1) = ?l" using assms(2,3) by linarith
  finally have last: "last pg = ?rs ! ?l" .
  have "?l < length ?rs" using assms(2,3) by simp
  note later = later_rows [OF sorted_sort_key d this]
  have "list_ex (\<lambda>r. created_at (last pg) < created_at r) rows \<longleftrightarrow>
      filter (\<lambda>r. created_at (?rs ! ?l) < created_at r) ?rs \<noteq> []"
    unfolding last list_ex_iff filter_empty_conv by simp
  also have "\<dots> \<longleftrightarrow> drop (Suc ?l) ?rs \<noteq> []" by (simp only: later)
  also have "\<dots> \<longleftrightarrow> k + limit < length rows" using assms(2,3) by auto
  finally show ?thesis using ne last by (auto simp: next_page_def min_def)
qed

lemma follow_from:
  assumes "distinct (map created_at rows)" and "0 < limit" and "stands_at (sort_key created_at rows) k c"
    and "length rows < n + k"
  shows "follow limit rows n c = Some (map row_doc (drop k (sort_key created_at rows)))"
  using assms(3,4)
proof (induction n arbitrary: k c)
  case 0
  then show ?case by (auto simp: stands_at_def split: option.splits)
next
  case (Suc n)
  let ?rs = "sort_key created_at rows"
  let ?pg = "take limit (drop k ?rs)"
  note page = page_from [OF assms(1) Suc.prems(1), of limit]
  show ?case
  proof (cases "k < length rows")
    case False
    then show ?thesis by (simp add: concept_list_paged_def page next_page_def)
  next
    case True
    have after: "concept_list_paged limit c None rows =
      (map row_doc ?pg, if length rows \<le> k + limit then None else Some (created_at (?rs ! (k + limit - 1))))"
      unfolding concept_list_paged_def page next_from [OF assms(1,2) True refl] ..
    show ?thesis
    proof (cases "length rows \<le> k + limit")
      case True
      then show ?thesis by (simp add: after)
    next
      case False
      have "stands_at ?rs (k + limit) (Some (created_at (?rs ! (k + limit - 1))))"
        using False assms(2) by (simp add: stands_at_def)
      from Suc.IH [OF this] Suc.prems(2) assms(2)
      have "follow limit rows n (Some (created_at (?rs ! (k + limit - 1)))) = Some (map row_doc (drop (k + limit) ?rs))"
        by simp
      with False show ?thesis
        by (simp add: after)
          (metis append_take_drop_id drop_drop add.commute map_append)
    qed
  qed
qed

text \<open>
  C23. Following the cursor ends and shows everything: when no two rows were created at the same time and
  a page has room, at most one request per row and one more show every document exactly once, in the
  order of creation.
\<close>

theorem pages_show_all:
  assumes "distinct (map created_at rows)" and "0 < limit"
  shows "follow limit rows (Suc (length rows)) None = Some (map row_doc (sort_key created_at rows))"
  using follow_from [OF assms, of 0 None "Suc (length rows)"] by (simp add: stands_at_def)

definition some_rows :: "row list" where
  "some_rows = map (\<lambda>n. new_row sample_env n (model (show_nat n))) [2, 0, 1]"

theorem pages_show_all_witness:
  "follow 2 some_rows 4 None = Some [model ''0'', model ''1'', model ''2'']"
proof -
  have "distinct (map created_at some_rows)" "length some_rows = 3" by code_simp+
  moreover have "map row_doc (sort_key created_at some_rows) = [model ''0'', model ''1'', model ''2'']" by code_simp
  ultimately show ?thesis using pages_show_all [of some_rows 2] by (simp add: numeral_eq_Suc)
qed

text \<open>
  Rows of one transaction have one creation time, \<open>now()\<close> being the time the transaction began: of more
  rows than a page holds the rest is never shown.
\<close>

lemma one_time_one_page:
  assumes "\<forall>r \<in> set rows. created_at r = t"
  shows "follow limit rows (Suc n) None = Some (take limit (map row_doc (sort_key created_at rows)))"
proof -
  have "set (page_rows limit None rows) \<subseteq> set rows" by (auto simp: page_rows_def dest: in_set_takeD)
  then have "next_page (page_rows limit None rows) rows = None"
    using assms by (auto simp: next_page_def list_ex_iff) (metis last_in_set less_irrefl subsetD)
  then show ?thesis by (simp add: concept_list_paged_def) (simp add: page_rows_def take_map)
qed

end
