(* ===== verification/Serialization.thy ===== *)
theory Serialization
  imports ShellState Concepts
begin

text \<open>
  Export and import of an environment (\<open>src/titan/api/routers/serialization.py\<close>): the shells, submodels
  and concept descriptions of the server in one document. One session serves the three repositories.
  The texts of the reported errors are left out. A violated constraint ends the transaction, so that
  every later statement and the final commit fail: the whole import fails.
\<close>

record 's node =
  core :: "'s world"
  cds :: "'s concepts"

type_synonym ('s, 'a) node_handler = "('s node, 'a) act"

record 's node_env =
  core_env :: "'s env"
  valid_concept :: "obj \<Rightarrow> string + obj"

definition coreH :: "('s, 'a) handler \<Rightarrow> ('s, 'a) node_handler" where
  "coreH h w = (case h (core w) of (c, r) \<Rightarrow> (w\<lparr>core := c\<rparr>, r))"

definition cdsH :: "('s, 'a) cd_handler \<Rightarrow> ('s, 'a) node_handler" where
  "cdsH h w = (case h (cds w) of (c, r) \<Rightarrow> (w\<lparr>cds := c\<rparr>, r))"

definition run_node :: "('s, 'a) node_handler \<Rightarrow> 's node \<Rightarrow> 's node \<times> (failure + 'a)" where
  "run_node h w =
     (case h (w\<lparr>core := (core w)\<lparr>tx := db (core w)\<rparr>, cds := (cds w)\<lparr>cd_tx := cd_db (cds w)\<rparr>\<rparr>) of
        (w', r) \<Rightarrow> (w'\<lparr>core := (core w')\<lparr>tx := db (core w')\<rparr>, cds := (cds w')\<lparr>cd_tx := cd_db (cds w')\<rparr>\<rparr>, r))"

section \<open>Export\<close>

text \<open>\<open>get_model_by_id\<close> and \<open>model_dump\<close>; the ids of the query are plain. An error of validation is not caught.\<close>

definition model_by_id :: "(obj \<Rightarrow> string + obj) \<Rightarrow> row list \<Rightarrow> nat list \<Rightarrow> failure + obj list" where
  "model_by_id valid rows i =
     (case row_by_id i rows of
        None \<Rightarrow> Inr []
      | Some r \<Rightarrow> (case valid (row_doc r) of Inl _ \<Rightarrow> Inl (Unhandled (Python ValueError)) | Inr m \<Rightarrow> Inr [m]))"

fun models_by_ids :: "(obj \<Rightarrow> string + obj) \<Rightarrow> row list \<Rightarrow> nat list list \<Rightarrow> failure + obj list" where
  "models_by_ids valid rows [] = Inr []"
| "models_by_ids valid rows (i # is) =
     bindE (model_by_id valid rows i) (\<lambda>m. bindE (models_by_ids valid rows is) (\<lambda>ms. Inr (m @ ms)))"

definition export_limit :: nat where
  "export_limit = 1000"

definition exported :: "'s env \<Rightarrow> (obj \<Rightarrow> string + obj) \<Rightarrow> nat list list \<Rightarrow> row list \<Rightarrow> failure + obj list" where
  "exported E valid is rows =
     (if is \<noteq> [] then models_by_ids valid rows is else Inr (map fst (list_rows E export_limit 0 rows)))"

definition environment :: "obj list \<Rightarrow> obj list \<Rightarrow> obj list \<Rightarrow> obj" where
  "environment as ss cs =
     [(''assetAdministrationShells'', JList (map JDict as)), (''submodels'', JList (map JDict ss)),
      (''conceptDescriptions'', JList (map JDict cs))]"

definition get_serialization ::
  "'s node_env \<Rightarrow> nat list list \<Rightarrow> nat list list \<Rightarrow> bool \<Rightarrow> ('s, response) node_handler" where
  "get_serialization E aas_ids submodel_ids include_cds w =
     (case exported (core_env E) (valid_shell (core_env E)) aas_ids (shells (tx (core w))) of
        Inl f \<Rightarrow> (w, Inl f)
      | Inr as \<Rightarrow>
          (case exported (core_env E) (valid_submodel (core_env E)) submodel_ids (submodels (tx (core w))) of
             Inl f \<Rightarrow> (w, Inl f)
           | Inr ss \<Rightarrow>
               (let cs = (if include_cds then map fst (concept_list_all (core_env E) export_limit 0 (cd_tx (cds w))) else [])
                in (w, Inr (json_response (JDict (environment as ss cs)))))))"

section \<open>Import\<close>

datatype import_error = AlreadyExists "nat list" | Failed

record tally =
  t_count :: nat
  t_errors :: "import_error list"

text \<open>
  One item. \<open>there\<close> looks an identifier up, \<open>create\<close> is the repository's; what it raises is reported, but
  a violated constraint leaves a session that can do nothing more.
\<close>

definition import_item ::
  "(obj \<Rightarrow> string + obj) \<Rightarrow> ('w \<Rightarrow> nat list \<Rightarrow> bool) \<Rightarrow> (obj \<Rightarrow> ('w, obj \<times> string) act) \<Rightarrow> json \<Rightarrow> tally \<Rightarrow> ('w, tally) act" where
  "import_item valid there create j t w =
     (case j of
        JDict d \<Rightarrow>
          (case valid d of
             Inl _ \<Rightarrow> (w, Inr (t\<lparr>t_errors := t_errors t @ [Failed]\<rparr>))
           | Inr m \<Rightarrow>
               if there w (id_of m) then (w, Inr (t\<lparr>t_errors := t_errors t @ [AlreadyExists (id_of m)]\<rparr>))
               else (case create m w of
                   (w', Inr _) \<Rightarrow> (w', Inr (t\<lparr>t_count := Suc (t_count t)\<rparr>))
                 | (w', Inl (Unhandled IntegrityError)) \<Rightarrow> (w', Inl (Unhandled IntegrityError))
                 | (w', Inl _) \<Rightarrow> (w', Inr (t\<lparr>t_errors := t_errors t @ [Failed]\<rparr>))))
      | _ \<Rightarrow> (w, Inr (t\<lparr>t_errors := t_errors t @ [Failed]\<rparr>)))"

fun import_items ::
  "(obj \<Rightarrow> string + obj) \<Rightarrow> ('w \<Rightarrow> nat list \<Rightarrow> bool) \<Rightarrow> (obj \<Rightarrow> ('w, obj \<times> string) act) \<Rightarrow> json list \<Rightarrow> tally \<Rightarrow> ('w, tally) act" where
  "import_items valid there create [] t = retH t"
| "import_items valid there create (j # js) t =
     bindH (import_item valid there create j t) (\<lambda>t. import_items valid there create js t)"

definition import_list ::
  "(obj \<Rightarrow> string + obj) \<Rightarrow> ('w \<Rightarrow> nat list \<Rightarrow> bool) \<Rightarrow> (obj \<Rightarrow> ('w, obj \<times> string) act) \<Rightarrow> obj \<Rightarrow> string \<Rightarrow>
   import_error list \<Rightarrow> ('w, tally) act" where
  "import_list valid there create env k errors =
     bindH (pureH (py_iter (dget_or env k (JList [])))) (\<lambda>js.
       import_items valid there create js \<lparr>t_count = 0, t_errors = errors\<rparr>)"

record import_result =
  imported_shells :: nat
  imported_submodels :: nat
  imported_cds :: nat
  import_errors :: "import_error list"

definition post_serialization :: "'s node_env \<Rightarrow> obj \<Rightarrow> ('s, import_result) node_handler" where
  "post_serialization E env =
     bindH (coreH (import_list (valid_shell (core_env E)) (\<lambda>w i. exists_row i (shells (tx w)))
              (\<lambda>m. repoH (aas_create (core_env E) m)) env ''assetAdministrationShells'' [])) (\<lambda>a.
     bindH (coreH (import_list (valid_submodel (core_env E)) (\<lambda>w i. exists_row i (submodels (tx w)))
              (\<lambda>m. repoH (submodel_create (core_env E) m)) env ''submodels'' (t_errors a))) (\<lambda>s.
     bindH (cdsH (import_list (valid_concept E) (\<lambda>w i. concept_exists i (cd_tx w))
              (concept_create (core_env E)) env ''conceptDescriptions'' (t_errors s))) (\<lambda>c.
     bindH (coreH commit) (\<lambda>_.
     bindH (cdsH cd_commit) (\<lambda>_.
       retH \<lparr>imported_shells = t_count a, imported_submodels = t_count s, imported_cds = t_count c,
             import_errors = t_errors c\<rparr>)))))"

end
