(* ===== verification/ImportSpec.thy ===== *)
theory ImportSpec
  imports Serialization SubmodelSpec
begin

text \<open>
  What an import does to the server: it adds rows behind the back of the event bus, and what one server
  exports another one can take in.
\<close>

section \<open>Rows that are added\<close>

text \<open>Nothing but new rows: \<open>f\<close> selects the table that grows, \<open>g\<close> the one that stays.\<close>

definition grown :: "(database \<Rightarrow> row list) \<Rightarrow> (database \<Rightarrow> row list) \<Rightarrow> nat \<Rightarrow> 's world \<Rightarrow> 's world \<Rightarrow> bool" where
  "grown f g n w w' =
     (quiet w w' \<and> g (tx w') = g (tx w) \<and>
      (\<exists>new. f (tx w') = f (tx w) @ new \<and> length new = n \<and> (\<forall>r \<in> set new. row_by_id (row_ident r) (f (tx w)) = None)))"

lemma grown_refl: "grown f g 0 w w"
  by (simp add: grown_def quiet_def)

lemma grown_trans: "grown f g m w w1 \<Longrightarrow> grown f g n w1 w2 \<Longrightarrow> grown f g (m + n) w w2"
proof -
  assume a: "grown f g m w w1" and b: "grown f g n w1 w2"
  from a obtain as where as: "f (tx w1) = f (tx w) @ as" "length as = m"
    "\<forall>r \<in> set as. row_ident r \<notin> row_ident ` set (f (tx w))"
    by (auto simp: grown_def row_by_id_None)
  from b obtain bs where bs: "f (tx w2) = f (tx w1) @ bs" "length bs = n"
    "\<forall>r \<in> set bs. row_ident r \<notin> row_ident ` set (f (tx w1))"
    by (auto simp: grown_def row_by_id_None)
  have "f (tx w2) = f (tx w) @ (as @ bs)" "length (as @ bs) = m + n"
    "\<forall>r \<in> set (as @ bs). row_by_id (row_ident r) (f (tx w)) = None"
    using as bs by (auto simp: row_by_id_None)
  moreover have "quiet w w2" "g (tx w2) = g (tx w)" using a b by (auto simp: grown_def quiet_def)
  ultimately show ?thesis unfolding grown_def by blast
qed

definition adds_rows ::
  "(database \<Rightarrow> row list) \<Rightarrow> (database \<Rightarrow> row list) \<Rightarrow> (obj \<Rightarrow> ('s, obj \<times> string) handler) \<Rightarrow> bool" where
  "adds_rows f g create =
     (\<forall>m w w' r. create m w = (w', r) \<longrightarrow>
        (case r of Inl e \<Rightarrow> grown f g 0 w w' | Inr p \<Rightarrow> \<not> exists_row (id_of m) (f (tx w)) \<longrightarrow> grown f g 1 w w'))"

lemma imported_item:
  assumes "adds_rows f g create"
    and "import_item valid (\<lambda>w i. exists_row i (f (tx w))) create j t w = (w', Inr t')"
  shows "\<exists>n. grown f g n w w' \<and> t_count t' = t_count t + n"
proof -
  have create: "grown f g 1 w w'" if "create m w = (w', Inr p)" "\<not> exists_row (id_of m) (f (tx w))" for m w w' p
    using assms(1) that unfolding adds_rows_def by (metis (no_types, lifting) sum.simps(6))
  have fails: "grown f g 0 w w'" if "create m w = (w', Inl e)" for m w w' e
    using assms(1) that unfolding adds_rows_def by (metis (no_types, lifting) sum.simps(5))
  have same: ?thesis if "w' = w" "t_count t' = t_count t"
    using that grown_refl by auto
  show ?thesis
  proof (cases j)
    case (JDict d)
    show ?thesis
    proof (cases "valid d")
      case (Inl e)
      with JDict assms(2) same show ?thesis by (auto simp: import_item_def)
    next
      case (Inr m)
      show ?thesis
      proof (cases "exists_row (id_of m) (f (tx w))")
        case True
        with JDict Inr assms(2) same show ?thesis by (auto simp: import_item_def)
      next
        case False
        obtain w1 r where run: "create m w = (w1, r)" by (cases "create m w")
        show ?thesis
        proof (cases r)
          case (Inr p)
          with run False create [of m w w1 p] JDict \<open>valid d = Inr m\<close> assms(2) show ?thesis
            by (auto simp: import_item_def)
        next
          case (Inl e)
          with run False fails [of m w w1 e] JDict \<open>valid d = Inr m\<close> assms(2) show ?thesis
            by (auto simp: import_item_def split: failure.splits repo_error.splits)
        qed
      qed
    qed
  qed (use assms(2) same in \<open>auto simp: import_item_def\<close>)
qed

lemma imported_items:
  assumes "adds_rows f g create"
    and "import_items valid (\<lambda>w i. exists_row i (f (tx w))) create js t w = (w', Inr t')"
  shows "\<exists>n. grown f g n w w' \<and> t_count t' = t_count t + n"
  using assms(2)
proof (induction js arbitrary: t w)
  case Nil
  then show ?case using grown_refl by (auto simp: retH_def)
next
  case (Cons j js)
  from Cons.prems obtain w1 t1 where
    item: "import_item valid (\<lambda>w i. exists_row i (f (tx w))) create j t w = (w1, Inr t1)"
    and rest: "import_items valid (\<lambda>w i. exists_row i (f (tx w))) create js t1 w1 = (w', Inr t')"
    by (auto simp: bindH_def split: prod.splits sum.splits)
  from imported_item [OF assms(1) item] obtain n where n: "grown f g n w w1" "t_count t1 = t_count t + n" by blast
  from Cons.IH [OF rest] obtain k where "grown f g k w1 w'" "t_count t' = t_count t1 + k" by blast
  with n grown_trans show ?case by (intro exI [of _ "n + k"]) auto
qed

lemma imported_list:
  assumes "adds_rows f g create"
    and "import_list valid (\<lambda>w i. exists_row i (f (tx w))) create env k es w = (w', Inr t)"
  shows "grown f g (t_count t) w w'"
proof -
  from assms(2) obtain js where
    "import_items valid (\<lambda>w i. exists_row i (f (tx w))) create js \<lparr>t_count = 0, t_errors = es\<rparr> w = (w', Inr t)"
    by (auto simp: import_list_def bindH_def pureH_def split: prod.splits sum.splits)
  from imported_items [OF assms(1) this] show ?thesis by auto
qed

lemma shells_added: "adds_rows shells submodels (\<lambda>m. repoH (aas_create E m))"
  by (auto simp: adds_rows_def repoH_def aas_create_def Let_def grown_def quiet_def set_tx_def exists_row_def new_row_def
      split: if_splits)

lemma submodels_added: "adds_rows submodels shells (\<lambda>m. repoH (submodel_create E m))"
  unfolding adds_rows_def
proof (intro allI impI)
  fix m w w' r assume run: "repoH (submodel_create E m) w = (w', r)"
  obtain w1 r1 where create: "submodel_create E m w = (w1, r1)" by (cases "submodel_create E m w")
  note effect = submodel_create_effect [OF create]
  show "case r of Inl e \<Rightarrow> grown submodels shells 0 w w'
      | Inr p \<Rightarrow> \<not> exists_row (id_of m) (submodels (tx w)) \<longrightarrow> grown submodels shells 1 w w'"
  proof (cases r1)
    case (Inl e)
    with run create effect(1,3) show ?thesis by (auto simp: repoH_def grown_def)
  next
    case (Inr p)
    then obtain d e where "r1 = Inr (d, e)" by (cases p) simp
    from effect(4) [OF this] obtain q as where "row_ident q = id_of m"
      "tx w1 = (tx w)\<lparr>submodels := submodels (tx w) @ [q], assets := as\<rparr>" by (auto simp: row_of_def)
    with Inr run create effect(1) show ?thesis by (auto simp: repoH_def grown_def exists_row_def)
  qed
qed

section \<open>An import is silent\<close>

lemma import_grows:
  assumes "run_node (post_serialization E env) w = (w', Inr res)"
  shows "bus (core w') = bus (core w) \<and> cache (core w') = cache (core w) \<and>
    (\<exists>as ss. shells (db (core w')) = shells (db (core w)) @ as \<and> length as = imported_shells res \<and>
       submodels (db (core w')) = submodels (db (core w)) @ ss \<and> length ss = imported_submodels res \<and>
       (\<forall>r \<in> set as. row_by_id (row_ident r) (shells (db (core w))) = None) \<and>
       (\<forall>r \<in> set ss. row_by_id (row_ident r) (submodels (db (core w))) = None))"
proof -
  let ?c = "(core w)\<lparr>tx := db (core w)\<rparr>"
  from assms obtain c1 a c2 s where
    a: "import_list (valid_shell (core_env E)) (\<lambda>w i. exists_row i (shells (tx w)))
      (\<lambda>m. repoH (aas_create (core_env E) m)) env ''assetAdministrationShells'' [] ?c = (c1, Inr a)" and
    s: "import_list (valid_submodel (core_env E)) (\<lambda>w i. exists_row i (submodels (tx w)))
      (\<lambda>m. repoH (submodel_create (core_env E) m)) env ''submodels'' (t_errors a) c1 = (c2, Inr s)" and
    core: "core w' = c2\<lparr>db := tx c2, tx := tx c2\<rparr>" and
    res: "imported_shells res = t_count a" "imported_submodels res = t_count s"
    by (auto simp: run_node_def post_serialization_def bindH_def coreH_def cdsH_def commit_def cd_commit_def retH_def
        split: prod.splits sum.splits)
  from imported_list [OF shells_added a] have g1: "grown shells submodels (t_count a) ?c c1" .
  from imported_list [OF submodels_added s] have g2: "grown submodels shells (t_count s) c1 c2" .
  from g1 obtain as where as: "shells (tx c1) = shells (db (core w)) @ as" "length as = t_count a"
    "\<forall>r \<in> set as. row_by_id (row_ident r) (shells (db (core w))) = None" "submodels (tx c1) = submodels (db (core w))"
    by (auto simp: grown_def)
  from g2 obtain ss where ss: "submodels (tx c2) = submodels (tx c1) @ ss" "length ss = t_count s"
    "\<forall>r \<in> set ss. row_by_id (row_ident r) (submodels (tx c1)) = None" "shells (tx c2) = shells (tx c1)"
    by (auto simp: grown_def)
  have "bus c2 = bus (core w)" "cache c2 = cache (core w)" using g1 g2 by (auto simp: grown_def quiet_def)
  with as ss core res show ?thesis by auto
qed

text \<open>
  C24. An import goes behind the back of the event bus: whatever it takes in, it publishes no event, so
  that as soon as one shell or submodel has been imported, replaying the events no longer gives what the
  database holds --- connectors, subscribers and federated peers never hear of it.
\<close>

theorem import_is_silent:
  assumes "store_ok (core_env E) (core w)" and "run_node (post_serialization E env) w = (w', Inr res)"
    and "0 < imported_shells res + imported_submodels res"
  shows "bus (core w') = bus (core w) \<and> logged (db (core w)) (bus (core w)) \<and> \<not> logged (db (core w')) (bus (core w'))"
proof -
  from import_grows [OF assms(2)] obtain as ss where
    as: "shells (db (core w')) = shells (db (core w)) @ as" "length as = imported_shells res"
      "\<forall>r \<in> set as. row_by_id (row_ident r) (shells (db (core w))) = None" and
    ss: "submodels (db (core w')) = submodels (db (core w)) @ ss" "length ss = imported_submodels res"
      "\<forall>r \<in> set ss. row_by_id (row_ident r) (submodels (db (core w))) = None" and
    bus: "bus (core w') = bus (core w)" by blast
  have logged: "logged (db (core w)) (bus (core w))" using assms(1) by (simp add: store_ok_def)
  from assms(3) as(2) ss(2) consider r where "r \<in> set as" | r where "r \<in> set ss" by (cases as; cases ss) auto
  then have "\<not> logged (db (core w')) (bus (core w))"
  proof cases
    case (1 r)
    then have new: "get_bytes_by_id (row_ident r) (shells (db (core w'))) \<noteq> None"
      using as(1) by (auto simp: get_bytes_by_id_def row_by_id_None)
    have "replay True (row_ident r) (bus (core w)) = None"
      using logged as(3) 1 by (simp add: logged_def get_bytes_by_id_def)
    with new show ?thesis unfolding logged_def by metis
  next
    case (2 r)
    then have new: "get_bytes_by_id (row_ident r) (submodels (db (core w'))) \<noteq> None"
      using ss(1) by (auto simp: get_bytes_by_id_def row_by_id_None)
    have "replay False (row_ident r) (bus (core w)) = None"
      using logged ss(3) 2 by (simp add: logged_def get_bytes_by_id_def)
    with new show ?thesis unfolding logged_def by metis
  qed
  with bus logged show ?thesis by simp
qed

definition sample_node :: "(string \<times> json) list node_env" where
  "sample_node = \<lparr>core_env = sample_env, valid_concept = Inr\<rparr>"

definition empty_node :: "(string \<times> json) list node" where
  "empty_node =
     \<lparr>core = empty_world, cds = \<lparr>cd_db = [], cd_tx = [], cd_cache = [], cd_bus = [], cd_serial = 0\<rparr>\<rparr>"

theorem import_is_silent_witness:
  "\<not> logged (db (core (fst (run_node (post_serialization sample_node (environment [] [model ''v1''] [])) empty_node)))) []"
proof -
  let ?run = "run_node (post_serialization sample_node (environment [] [model ''v1''] [])) empty_node"
  have "case snd ?run of Inl f \<Rightarrow> False | Inr r \<Rightarrow> imported_submodels r = 1" by code_simp
  then obtain r where r: "?run = (fst ?run, Inr r)" "imported_submodels r = 1" by (cases ?run) (auto split: sum.splits)
  have ok: "store_ok (core_env sample_node) (core empty_node)"
    using store_ok_start [OF empty_world_fresh] by (simp add: sample_node_def empty_node_def)
  have some: "0 < imported_shells r + imported_submodels r" using r(2) by simp
  have empty: "bus (core empty_node) = []" by (simp add: empty_node_def empty_world_def)
  note silent = import_is_silent [OF ok r(1) some]
  from silent have "bus (core (fst ?run)) = []" unfolding empty by (rule conjunct1)
  moreover from silent have "\<not> logged (db (core (fst ?run))) (bus (core (fst ?run)))" by (elim conjE)
  ultimately show ?thesis by (simp only: not_False_eq_True)
qed

section \<open>Export and import\<close>

text \<open>Importing documents that validation leaves as they are, under ids the server does not have.\<close>

lemma imported_documents:
  assumes "\<forall>d \<in> set ds. valid_shell E d = Inr d" and "distinct (map id_of ds)"
    and "\<forall>d \<in> set ds. id_of d \<notin> row_ident ` set (shells (tx w))"
    and "import_items (valid_shell E) (\<lambda>w i. exists_row i (shells (tx w))) (\<lambda>m. repoH (aas_create E m)) (map JDict ds) t w =
      (w', Inr t')"
  shows "\<exists>new. shells (tx w') = shells (tx w) @ new \<and> map row_doc new = ds \<and> map row_ident new = map id_of ds \<and>
    map etag new = map (etag_of E) ds"
  using assms
proof (induction ds arbitrary: t w)
  case Nil
  then show ?case by (auto simp: retH_def)
next
  case (Cons d ds)
  let ?r = "new_row E (serial w) d"
  from Cons.prems(1,3) have "valid_shell E d = Inr d" "\<not> exists_row (id_of d) (shells (tx w))"
    by (auto simp: exists_row_def row_by_id_None)
  then have item: "import_item (valid_shell E) (\<lambda>w i. exists_row i (shells (tx w))) (\<lambda>m. repoH (aas_create E m)) (JDict d) t w =
      (if clashes ?r (shells (tx w)) then (w\<lparr>serial := Suc (serial w)\<rparr>, Inl (Unhandled IntegrityError))
       else (set_tx (\<lambda>t. t\<lparr>shells := shells t @ [?r]\<rparr>) (w\<lparr>serial := Suc (serial w)\<rparr>),
             Inr (t\<lparr>t_count := Suc (t_count t)\<rparr>)))"
    by (simp add: import_item_def repoH_def aas_create_def Let_def)
  define w1 where "w1 = set_tx (\<lambda>t. t\<lparr>shells := shells t @ [?r]\<rparr>) (w\<lparr>serial := Suc (serial w)\<rparr>)"
  have w1: "shells (tx w1) = shells (tx w) @ [?r]" by (simp add: w1_def set_tx_def)
  from Cons.prems(4) item
  have rest: "import_items (valid_shell E) (\<lambda>w i. exists_row i (shells (tx w))) (\<lambda>m. repoH (aas_create E m)) (map JDict ds)
      (t\<lparr>t_count := Suc (t_count t)\<rparr>) w1 = (w', Inr t')"
    by (cases "clashes ?r (shells (tx w))") (simp_all add: bindH_def w1_def)
  have "\<forall>x \<in> set ds. id_of x \<notin> row_ident ` set (shells (tx w1))"
    using Cons.prems(2,3) w1 by (auto simp: new_row_def image_iff)
  from Cons.IH [OF _ _ this rest] Cons.prems(1,2) obtain new where
    "shells (tx w') = shells (tx w1) @ new" "map row_doc new = ds" "map row_ident new = map id_of ds"
    "map etag new = map (etag_of E) ds" by auto
  with w1 show ?case by (intro exI [of _ "?r # new"]) (simp add: new_row_def)
qed

lemma import_keeps_rest:
  assumes "import_list (valid_submodel E) (\<lambda>w i. exists_row i (submodels (tx w))) (\<lambda>m. repoH (submodel_create E m)) env k es c =
      (c', Inr t)"
  shows "shells (tx c') = shells (tx c)"
  using imported_list [OF submodels_added assms] by (auto simp: grown_def)

lemma row_by_id_of_documents:
  assumes "distinct (map row_ident rows)" and "distinct (map row_ident new)" and "set (map row_doc new) = set (map row_doc rows)"
    and "\<forall>r \<in> set rows \<union> set new. row_ident r = id_of (row_doc r) \<and> etag r = etag_of E (row_doc r)"
  shows "get_bytes_by_id i new = get_bytes_by_id i rows"
proof (cases "i \<in> row_ident ` set rows")
  case True
  then obtain r where r: "r \<in> set rows" "row_ident r = i" by auto
  with assms(3) obtain q where q: "q \<in> set new" "row_doc q = row_doc r" by (auto simp: image_iff set_eq_iff) metis
  with r assms(4) have "row_ident q = i" "etag q = etag r" by auto
  with r q row_by_id_mem [OF assms(1) r(1)] row_by_id_mem [OF assms(2) q(1)]
  show ?thesis by (simp add: get_bytes_by_id_def)
next
  case False
  have "i \<notin> row_ident ` set new"
  proof
    assume "i \<in> row_ident ` set new"
    then obtain q where q: "q \<in> set new" "row_ident q = i" by auto
    with assms(3) obtain r where "r \<in> set rows" "row_doc r = row_doc q" by (auto simp: image_iff set_eq_iff) metis
    moreover from this q assms(4) have "row_ident r = i" by auto
    ultimately show False using False by auto
  qed
  with False show ?thesis by (simp add: get_bytes_by_id_def row_by_id_None [THEN iffD2])
qed

text \<open>
  C25. What one server exports another one takes in: importing the export of a server with at most 1000
  shells into a server without shells gives, for every id, the same document with the same ETag.
\<close>

theorem export_then_import:
  assumes "rows_ok (core_env E) n (shells (tx (core w)))" and "length (shells (tx (core w))) \<le> 1000"
    and "\<forall>r \<in> set (shells (tx (core w))). valid_shell (core_env E) (row_doc r) = Inr (row_doc r)"
    and "get_serialization E [] [] b w = (w1, Inr rsp)" and "http_body rsp = Json (JDict env)"
    and "shells (db (core v)) = []" and "run_node (post_serialization E env) v = (v', Inr res)"
  shows "get_bytes_by_id i (shells (db (core v'))) = get_bytes_by_id i (shells (tx (core w)))"
proof -
  let ?rows = "shells (tx (core w))" let ?ds = "map row_doc (sort_key created_at ?rows)" let ?v = "(core v)\<lparr>tx := db (core v)\<rparr>"
  from assms(2,4,5) have env: "dget_or env ''assetAdministrationShells'' (JList []) = JList (map JDict ?ds)"
    by (cases b) (auto simp: get_serialization_def exported_def list_rows_def export_limit_def environment_def
        json_response_def dget_or_def take_map comp_def split: sum.splits)
  from assms(7) obtain c1 a c2 s where
    a: "import_list (valid_shell (core_env E)) (\<lambda>w i. exists_row i (shells (tx w)))
      (\<lambda>m. repoH (aas_create (core_env E) m)) env ''assetAdministrationShells'' [] ?v = (c1, Inr a)" and
    s: "import_list (valid_submodel (core_env E)) (\<lambda>w i. exists_row i (submodels (tx w)))
      (\<lambda>m. repoH (submodel_create (core_env E) m)) env ''submodels'' (t_errors a) c1 = (c2, Inr s)" and
    core: "shells (db (core v')) = shells (tx c2)"
    by (auto simp: run_node_def post_serialization_def bindH_def coreH_def cdsH_def commit_def cd_commit_def retH_def
        split: prod.splits sum.splits)
  have rows: "distinct (map row_ident ?rows)" "\<forall>r \<in> set ?rows. row_ident r = id_of (row_doc r) \<and> etag r = etag_of (core_env E) (row_doc r)"
    using assms(1) by (auto simp: rows_ok_def row_ok_def)
  then have ids: "map id_of ?ds = map row_ident (sort_key created_at ?rows)" by simp
  from a env have "import_items (valid_shell (core_env E)) (\<lambda>w i. exists_row i (shells (tx w)))
      (\<lambda>m. repoH (aas_create (core_env E) m)) (map JDict ?ds) \<lparr>t_count = 0, t_errors = []\<rparr> ?v = (c1, Inr a)"
    by (simp add: import_list_def bindH_def pureH_def)
  moreover have "distinct (map id_of ?ds)" using rows(1) unfolding ids by (simp add: distinct_map)
  ultimately obtain new where new: "shells (tx c1) = new" "map row_doc new = ?ds" "map row_ident new = map id_of ?ds"
    "map etag new = map (etag_of (core_env E)) ?ds"
    using imported_documents [of ?ds "core_env E" ?v] assms(3,6) by auto
  have "\<forall>r \<in> set new. row_ident r = id_of (row_doc r) \<and> etag r = etag_of (core_env E) (row_doc r)"
    using new(2-4) by (metis (no_types, lifting) map_eq_conv map_map comp_def)
  moreover have "distinct (map row_ident new)" using rows(1) unfolding new(3) ids by (simp add: distinct_map)
  moreover have "set (map row_doc new) = set (map row_doc ?rows)" unfolding new(2) by simp
  ultimately show ?thesis
    using row_by_id_of_documents [OF rows(1), where new = new and E = "core_env E"] rows(2) core import_keeps_rest [OF s] new(1)
    by (simp add: Ball_def)
qed

definition stocked_node :: "(string \<times> json) list node" where
  "stocked_node =
     empty_node\<lparr>core := empty_world\<lparr>tx := \<lparr>shells = [new_row sample_env 0 (model ''v1'')], submodels = [], assets = []\<rparr>\<rparr>\<rparr>"

theorem export_then_import_witness:
  "get_bytes_by_id (id_of (model ''v1''))
     (shells (db (core (fst (run_node (post_serialization sample_node (environment [model ''v1''] [] [])) empty_node))))) =
   Some (model ''v1'', etag_of sample_env (model ''v1''))"
proof -
  let ?env = "environment [model ''v1''] [] []"
  let ?run = "run_node (post_serialization sample_node ?env) empty_node"
  have "case snd ?run of Inl f \<Rightarrow> False | Inr r \<Rightarrow> True" by code_simp
  then obtain r where r: "?run = (fst ?run, Inr r)" by (cases ?run) (auto split: sum.splits)
  have rows: "shells (tx (core stocked_node)) = [new_row sample_env 0 (model ''v1'')]" by (simp add: stocked_node_def)
  have ok: "rows_ok (core_env sample_node) 1 (shells (tx (core stocked_node)))"
    by (simp add: rows rows_ok_def row_ok_def new_row_def sample_node_def)
  have out: "get_serialization sample_node [] [] True stocked_node = (stocked_node, Inr (json_response (JDict ?env)))"
    by (simp add: get_serialization_def exported_def list_rows_def export_limit_def stocked_node_def empty_node_def new_row_def
        concept_list_all_def)
  have "get_bytes_by_id (id_of (model ''v1'')) (shells (db (core (fst ?run)))) =
      get_bytes_by_id (id_of (model ''v1'')) (shells (tx (core stocked_node)))"
    by (rule export_then_import [OF ok _ _ out _ _ r])
      (simp_all add: rows new_row_def sample_node_def sample_env_def json_response_def empty_node_def empty_world_def)
  then show ?thesis by (simp add: rows get_bytes_by_id_def row_by_id_def new_row_def)
qed

end
