(* ===== verification/Packages.thy ===== *)
theory Packages
  imports SubmodelApi
begin

text \<open>
  The AASX packages and their versions: \<open>src/titan/packages/manager.py\<close> (versions),
  \<open>src/titan/packages/differ.py\<close> (comparison) and the handlers of \<open>src/titan/api/routers/aasx.py\<close> on the
  table of packages. The importer, the hash and the blob storage are libraries or back ends: a record of
  parameters. A handler answers with fields of a row; the model returns the row. The storage, the database
  and the bus may fail in the middle of a request: a handler takes what fails in it.
\<close>

section \<open>State\<close>

record package =
  pk_id :: string
  pk_filename :: string
  pk_uri :: string
  pk_size :: nat
  pk_hash :: string
  pk_shells :: nat
  pk_submodels :: nat
  pk_cds :: nat
  pk_info :: obj
  pk_version :: int
  pk_comment :: "string option"
  pk_by :: "string option"
  pk_prev :: "string option"
  pk_tags :: "string list option"
  pk_created :: int

text \<open>What the importer reads: dumps of the models, and the names of the other files.\<close>

record contents =
  pc_shells :: "obj list"
  pc_submodels :: "obj list"
  pc_cds :: "obj list"
  pc_files :: "string list"

datatype package_event_kind = VERSION_CREATED | VERSION_ROLLED_BACK

record package_event =
  pe_kind :: package_event_kind
  pe_id :: string
  pe_parent :: string
  pe_filename :: string
  pe_version :: int
  pe_comment :: "string option"
  pe_by :: "string option"
  pe_hash :: "string option"
  pe_from :: "int option"

text \<open>\<open>drawn\<close> numbers the UUIDs: of rows, of files, and the times of rows.\<close>

record 'c depot =
  packages :: "package list"
  files :: "string \<Rightarrow> 'c option"
  drawn :: nat
  pk_bus :: "package_event list"

text \<open>
  \<open>package_key\<close> is PostgreSQL's reading of a text as a UUID, the type of the column of ids: the text it
  would store, or no value if the text is no UUID.
\<close>

record 'c package_env =
  read_package :: "'c \<Rightarrow> py_exn + contents"
  hash_of :: "'c \<Rightarrow> string"
  size_of :: "'c \<Rightarrow> nat"
  package_id_of :: "nat \<Rightarrow> string"
  uri_of :: "nat \<Rightarrow> string"
  time_of :: "nat \<Rightarrow> int"
  package_key :: "string \<Rightarrow> string option"

text \<open>
  What fails in a request: the deletion of a file, the storing of a file, the commit, the next call of the
  database after the (first) commit, or the publishing of the event.
\<close>

datatype package_fault = NoFault | DeleteFails | StoreFails | CommitFails | LaterFails | PublishFails

datatype package_error =
    NoPackage string
  | NoVersion string int
  | BadPackage
  | MultipleResultsFound
  | FileMissing
  | BadUuid
  | Failed package_fault
  | Crash py_exn

type_synonym ('c, 'a) package_handler = "'c depot \<Rightarrow> 'c depot \<times> (package_error + 'a)"

text \<open>\<open>except ValueError\<close>: a bad request.\<close>

fun caught :: "package_error \<Rightarrow> package_error" where
  "caught (Crash ValueError) = BadPackage"
| "caught e = e"

section \<open>Rows and files\<close>

text \<open>\<open>scalar_one_or_none\<close>.\<close>

definition one_or_none :: "(package \<Rightarrow> bool) \<Rightarrow> package list \<Rightarrow> package_error + package option" where
  "one_or_none P rows =
     (case filter P rows of [] \<Rightarrow> Inr None | [p] \<Rightarrow> Inr (Some p) | _ \<Rightarrow> Inl MultipleResultsFound)"

text \<open>A query by an id that is no UUID is an error of the database, which no handler catches.\<close>

definition package_by_id ::
  "(string \<Rightarrow> string option) \<Rightarrow> string \<Rightarrow> package list \<Rightarrow> package_error + package option" where
  "package_by_id key i rows =
     (case key i of None \<Rightarrow> Inl BadUuid | Some k \<Rightarrow> one_or_none (\<lambda>p. pk_id p = k) rows)"

definition successor_of ::
  "(string \<Rightarrow> string option) \<Rightarrow> string \<Rightarrow> package list \<Rightarrow> package_error + package option" where
  "successor_of key i rows =
     (case key i of None \<Rightarrow> Inl BadUuid | Some k \<Rightarrow> one_or_none (\<lambda>p. pk_prev p = Some k) rows)"

text \<open>A row or the error 404.\<close>

definition existing :: "(string \<Rightarrow> string option) \<Rightarrow> string \<Rightarrow> package list \<Rightarrow> package_error + package" where
  "existing key i rows =
     bindE (package_by_id key i rows) (\<lambda>r. case r of None \<Rightarrow> Inl (NoPackage i) | Some p \<Rightarrow> Inr p)"

definition read_contents :: "'c package_env \<Rightarrow> 'c \<Rightarrow> package_error + contents" where
  "read_contents E c = (case read_package E c of Inl e \<Rightarrow> Inl (caught (Crash e)) | Inr x \<Rightarrow> Inr x)"

text \<open>
  A file goes to a URI that was never used. What a failed write leaves there is not modelled, no row names it.
\<close>

definition store_package ::
  "'c package_env \<Rightarrow> package_fault \<Rightarrow> 'c \<Rightarrow> ('c, string) package_handler" where
  "store_package E tr c d =
     (let u = uri_of E (drawn d); d1 = d\<lparr>drawn := Suc (drawn d)\<rparr> in
      if tr = StoreFails then (d1, Inl (Failed tr)) else (d1\<lparr>files := (files d)(u \<mapsto> c)\<rparr>, Inr u))"

definition retrieve_package :: "string \<Rightarrow> 'c depot \<Rightarrow> package_error + 'c" where
  "retrieve_package u d = (case files d u of None \<Rightarrow> Inl FileMissing | Some c \<Rightarrow> Inr c)"

definition delete_package_file :: "package_fault \<Rightarrow> string \<Rightarrow> ('c, unit) package_handler" where
  "delete_package_file tr u d =
     (if tr = DeleteFails then (d, Inl (Failed tr)) else (d\<lparr>files := (files d)(u := None)\<rparr>, Inr ()))"

definition info_of :: "contents \<Rightarrow> obj" where
  "info_of x =
     [(''shellIds'', JList (map (\<lambda>s. dget s ''id'') (pc_shells x))),
      (''submodelIds'', JList (map (\<lambda>s. dget s ''id'') (pc_submodels x))),
      (''conceptDescriptionIds'', JList (map (\<lambda>s. dget s ''id'') (pc_cds x)))]"

text \<open>\<open>file.filename or ...\<close>\<close>

definition filename_or :: "string option \<Rightarrow> string \<Rightarrow> string" where
  "filename_or f s = (if given f then the f else s)"

section \<open>Versions\<close>

text \<open>The loop back to the row without a previous version; \<open>None\<close> if it runs for ever.\<close>

partial_function (option) root_from ::
  "(string \<Rightarrow> string option) \<Rightarrow> package list \<Rightarrow> string \<Rightarrow> string \<Rightarrow> (package_error + string) option" where
  "root_from key rows i root =
     (case package_by_id key i rows of
        Inl e \<Rightarrow> Some (Inl e)
      | Inr None \<Rightarrow> Some (Inr root)
      | Inr (Some p) \<Rightarrow> if given (pk_prev p) then root_from key rows (the (pk_prev p)) (the (pk_prev p)) else Some (Inr root))"

record package_version =
  pv_version :: int
  pv_created :: int
  pv_by :: "string option"
  pv_comment :: "string option"
  pv_hash :: string
  pv_parent :: "int option"

definition version_of :: "package \<Rightarrow> package_version" where
  "version_of p =
     \<lparr>pv_version = pk_version p, pv_created = pk_created p, pv_by = pk_by p, pv_comment = pk_comment p,
      pv_hash = pk_hash p, pv_parent = (if given (pk_prev p) then Some (pk_version p - 1) else None)\<rparr>"

partial_function (option) versions_from ::
  "(string \<Rightarrow> string option) \<Rightarrow> package list \<Rightarrow> string \<Rightarrow> package_version list \<Rightarrow>
   (package_error + package_version list) option" where
  "versions_from key rows i vs =
     (case package_by_id key i rows of
        Inl e \<Rightarrow> Some (Inl e)
      | Inr None \<Rightarrow> Some (Inr vs)
      | Inr (Some p) \<Rightarrow>
          (case successor_of key i rows of
             Inl e \<Rightarrow> Some (Inl e)
           | Inr None \<Rightarrow> Some (Inr (vs @ [version_of p]))
           | Inr (Some q) \<Rightarrow> versions_from key rows (pk_id q) (vs @ [version_of p])))"

definition list_versions ::
  "(string \<Rightarrow> string option) \<Rightarrow> package list \<Rightarrow> string \<Rightarrow> (package_error + package_version list) option" where
  "list_versions key rows i =
     Option.bind (root_from key rows i i)
       (\<lambda>r. case r of Inl e \<Rightarrow> Some (Inl e) | Inr root \<Rightarrow> versions_from key rows root [])"

text \<open>The loop of a rollback, which stops at the first row of the version.\<close>

partial_function (option) target_from ::
  "(string \<Rightarrow> string option) \<Rightarrow> package list \<Rightarrow> int \<Rightarrow> string \<Rightarrow> (package_error + package option) option" where
  "target_from key rows v i =
     (case package_by_id key i rows of
        Inl e \<Rightarrow> Some (Inl e)
      | Inr None \<Rightarrow> Some (Inr None)
      | Inr (Some p) \<Rightarrow>
          if pk_version p = v then Some (Inr (Some p))
          else (case successor_of key i rows of
             Inl e \<Rightarrow> Some (Inl e)
           | Inr None \<Rightarrow> Some (Inr None)
           | Inr (Some q) \<Rightarrow> target_from key rows v (pk_id q)))"

text \<open>The loop from a package to its ancestors, the package first.\<close>

partial_function (option) ancestors ::
  "(string \<Rightarrow> string option) \<Rightarrow> package list \<Rightarrow> package \<Rightarrow> (package_error + package list) option" where
  "ancestors key rows p =
     (if \<not> given (pk_prev p) then Some (Inr [p])
      else case package_by_id key (the (pk_prev p)) rows of
        Inl e \<Rightarrow> Some (Inl e)
      | Inr None \<Rightarrow> Some (Inr [p])
      | Inr (Some q) \<Rightarrow> Option.bind (ancestors key rows q) (\<lambda>r. Some (map_sum id ((#) p) r)))"

declare root_from.simps [code] versions_from.simps [code] target_from.simps [code] ancestors.simps [code]

definition draw :: "'c depot \<Rightarrow> 'c depot" where
  "draw d = d\<lparr>drawn := Suc (drawn d)\<rparr>"

definition add_package :: "package \<Rightarrow> 'c depot \<Rightarrow> 'c depot" where
  "add_package p d = d\<lparr>packages := packages d @ [p]\<rparr>"

definition next_version ::
  "'c package_env \<Rightarrow> 'c depot \<Rightarrow> package \<Rightarrow> 'c \<Rightarrow> string \<Rightarrow> string \<Rightarrow> string option \<Rightarrow> string option \<Rightarrow> package" where
  "next_version E d cur c fname u by comment =
     \<lparr>pk_id = package_id_of E (drawn d), pk_filename = fname, pk_uri = u, pk_size = size_of E c, pk_hash = hash_of E c,
      pk_shells = pk_shells cur, pk_submodels = pk_submodels cur, pk_cds = pk_cds cur, pk_info = pk_info cur,
      pk_version = pk_version cur + 1, pk_comment = comment, pk_by = by, pk_prev = Some (pk_id cur), pk_tags = None,
      pk_created = time_of E (drawn d)\<rparr>"

definition create_version ::
  "'c package_env \<Rightarrow> package_fault \<Rightarrow> string \<Rightarrow> 'c \<Rightarrow> string \<Rightarrow> string \<Rightarrow> string option \<Rightarrow> string option \<Rightarrow>
   ('c, package) package_handler" where
  "create_version E tr i c fname u by comment d =
     (case package_by_id (package_key E) i (packages d) of
        Inl e \<Rightarrow> (d, Inl e)
      | Inr None \<Rightarrow> (d, Inl (Crash ValueError))
      | Inr (Some cur) \<Rightarrow>
          (let p = next_version E d cur c fname u by comment in
           if tr = CommitFails then (draw d, Inl (Failed tr)) else (add_package p (draw d), Inr p)))"

definition rollback_version :: "'c package_env \<Rightarrow> 'c depot \<Rightarrow> package \<Rightarrow> package \<Rightarrow> package" where
  "rollback_version E d target latest =
     \<lparr>pk_id = package_id_of E (drawn d), pk_filename = pk_filename target, pk_uri = pk_uri target, pk_size = pk_size target,
      pk_hash = pk_hash target, pk_shells = pk_shells target, pk_submodels = pk_submodels target, pk_cds = pk_cds target,
      pk_info = pk_info target, pk_version = pk_version latest + 1,
      pk_comment = Some (''Rollback to version '' @ show_int (pk_version target)), pk_by = None,
      pk_prev = Some (pk_id latest), pk_tags = None, pk_created = time_of E (drawn d)\<rparr>"

definition rollback_target ::
  "(string \<Rightarrow> string option) \<Rightarrow> package list \<Rightarrow> string \<Rightarrow> int \<Rightarrow> (package_error + package) option" where
  "rollback_target key rows i v =
     Option.bind (list_versions key rows i) (\<lambda>r. case r of
       Inl e \<Rightarrow> Some (Inl e)
     | Inr vs \<Rightarrow>
         if vs = [] \<or> \<not> list_ex (\<lambda>x. pv_version x = v) vs then Some (Inl (Crash ValueError))
         else Option.bind (root_from key rows i i) (\<lambda>r. case r of
           Inl e \<Rightarrow> Some (Inl e)
         | Inr root \<Rightarrow> Option.bind (target_from key rows v root) (\<lambda>t. Some (case t of
             Inl e \<Rightarrow> Inl e | Inr None \<Rightarrow> Inl (Crash ValueError) | Inr (Some p) \<Rightarrow> Inr p))))"

definition rollback_to_version ::
  "'c package_env \<Rightarrow> package_fault \<Rightarrow> string \<Rightarrow> int \<Rightarrow> 'c depot \<Rightarrow> ('c depot \<times> (package_error + package)) option" where
  "rollback_to_version E tr i v d =
     Option.bind (rollback_target (package_key E) (packages d) i v) (\<lambda>t. Some (case t of
       Inl e \<Rightarrow> (d, Inl e)
     | Inr target \<Rightarrow>
         (case package_by_id (package_key E) i (packages d) of
            Inl e \<Rightarrow> (d, Inl e)
          | Inr None \<Rightarrow> (d, Inl (Crash ValueError))
          | Inr (Some latest) \<Rightarrow>
              (let p = rollback_version E d target latest in
               if tr = CommitFails then (draw d, Inl (Failed tr)) else (add_package p (draw d), Inr p)))))"

section \<open>Handlers\<close>

text \<open>The commit of a handler and the refresh of the row, which reads it back.\<close>

definition committed :: "package_fault \<Rightarrow> 'c depot \<Rightarrow> 'c depot \<Rightarrow> 'a \<Rightarrow> 'c depot \<times> (package_error + 'a)" where
  "committed tr before after x =
     (if tr = CommitFails then (before, Inl (Failed tr))
      else if tr = LaterFails then (after, Inl (Failed tr)) else (after, Inr x))"

definition upload_package ::
  "'c package_env \<Rightarrow> package_fault \<Rightarrow> 'c \<Rightarrow> string option \<Rightarrow> ('c, package) package_handler" where
  "upload_package E tr c f d =
     (case read_contents E c of
        Inl e \<Rightarrow> (d, Inl e)
      | Inr x \<Rightarrow>
          (case store_package E tr c d of
             (d1, Inl e) \<Rightarrow> (d1, Inl e)
           | (d1, Inr u) \<Rightarrow>
             (let p = \<lparr>pk_id = package_id_of E (drawn d1), pk_filename = filename_or f ''package.aasx'', pk_uri = u,
                       pk_size = size_of E c, pk_hash = hash_of E c, pk_shells = length (pc_shells x),
                       pk_submodels = length (pc_submodels x), pk_cds = length (pc_cds x), pk_info = info_of x,
                       pk_version = 1, pk_comment = None, pk_by = None, pk_prev = None, pk_tags = None,
                       pk_created = time_of E (drawn d1)\<rparr>
              in committed tr (draw d1) (add_package p (draw d1)) p)))"

definition download_package :: "'c package_env \<Rightarrow> string \<Rightarrow> ('c, package \<times> 'c) package_handler" where
  "download_package E i d =
     (d, bindE (existing (package_key E) i (packages d)) (\<lambda>p. bindE (retrieve_package (pk_uri p) d) (\<lambda>c. Inr (p, c))))"

definition replace_package :: "package \<Rightarrow> package list \<Rightarrow> package list" where
  "replace_package p rows = map (\<lambda>q. if pk_id q = pk_id p then p else q) rows"

text \<open>The old file is deleted before the new one is stored, and the row is written after both.\<close>

definition update_package ::
  "'c package_env \<Rightarrow> package_fault \<Rightarrow> string \<Rightarrow> 'c \<Rightarrow> string option \<Rightarrow> ('c, package) package_handler" where
  "update_package E tr i c f d =
     (case existing (package_key E) i (packages d) of
        Inl e \<Rightarrow> (d, Inl e)
      | Inr p \<Rightarrow>
          (case read_contents E c of
             Inl e \<Rightarrow> (d, Inl e)
           | Inr x \<Rightarrow>
               (case delete_package_file tr (pk_uri p) d of
                  (d0, Inl e) \<Rightarrow> (d0, Inl e)
                | (d0, Inr _) \<Rightarrow>
                    (case store_package E tr c d0 of
                       (d1, Inl e) \<Rightarrow> (d1, Inl e)
                     | (d1, Inr u) \<Rightarrow>
                         (let p' = p\<lparr>pk_filename := filename_or f (pk_filename p), pk_uri := u, pk_size := size_of E c,
                                     pk_hash := hash_of E c, pk_shells := length (pc_shells x),
                                     pk_submodels := length (pc_submodels x), pk_cds := length (pc_cds x),
                                     pk_info := info_of x\<rparr>
                          in committed tr d1 (d1\<lparr>packages := replace_package p' (packages d1)\<rparr>) p')))))"

text \<open>The foreign key of the previous version is \<open>ON DELETE SET NULL\<close>.\<close>

definition remove_package :: "string \<Rightarrow> package list \<Rightarrow> package list" where
  "remove_package i rows =
     map (\<lambda>p. if pk_prev p = Some i then p\<lparr>pk_prev := None\<rparr> else p) (filter (\<lambda>p. pk_id p \<noteq> i) rows)"

text \<open>The file is deleted before the row; nothing is read after the commit.\<close>

definition delete_package :: "'c package_env \<Rightarrow> package_fault \<Rightarrow> string \<Rightarrow> ('c, unit) package_handler" where
  "delete_package E tr i d =
     (case existing (package_key E) i (packages d) of
        Inl e \<Rightarrow> (d, Inl e)
      | Inr p \<Rightarrow>
          (case delete_package_file tr (pk_uri p) d of
             (d1, Inl e) \<Rightarrow> (d1, Inl e)
           | (d1, Inr _) \<Rightarrow>
               if tr = CommitFails then (d1, Inl (Failed tr))
               else (d1\<lparr>packages := remove_package (pk_id p) (packages d1)\<rparr>, Inr ())))"

text \<open>\<open>POST\<close> of a version, and \<open>PUT\<close> with \<open>create_version\<close>. The file is stored before the package is looked up.\<close>

definition create_package_version ::
  "'c package_env \<Rightarrow> package_fault \<Rightarrow> string \<Rightarrow> 'c \<Rightarrow> string option \<Rightarrow> string option \<Rightarrow> string option \<Rightarrow>
   ('c, package) package_handler" where
  "create_package_version E tr i c f comment by d =
     (case read_contents E c of
        Inl e \<Rightarrow> (d, Inl e)
      | Inr _ \<Rightarrow>
          (case store_package E tr c d of
             (d1, Inl e) \<Rightarrow> (d1, Inl e)
           | (d1, Inr u) \<Rightarrow>
             (case create_version E tr i c (filename_or f ''package.aasx'') u by comment d1 of
                (d2, Inl e) \<Rightarrow> (d2, Inl (caught e))
              | (d2, Inr p) \<Rightarrow>
                  if tr = LaterFails \<or> tr = PublishFails then (d2, Inl (Failed tr))
                  else (d2\<lparr>pk_bus := pk_bus d2 @
                     [\<lparr>pe_kind = VERSION_CREATED, pe_id = pk_id p, pe_parent = i, pe_filename = pk_filename p,
                       pe_version = pk_version p, pe_comment = comment, pe_by = by, pe_hash = Some (hash_of E c),
                       pe_from = None\<rparr>]\<rparr>, Inr p))))"

definition put_package ::
  "'c package_env \<Rightarrow> package_fault \<Rightarrow> string \<Rightarrow> 'c \<Rightarrow> string option \<Rightarrow> bool \<Rightarrow> string option \<Rightarrow> string option \<Rightarrow>
   ('c, package) package_handler" where
  "put_package E tr i c f versioned comment by =
     (if versioned then create_package_version E tr i c f comment by else update_package E tr i c f)"

record version_page =
  vp_total :: nat
  vp_items :: "package_version list"
  vp_cursor :: "string option"

definition page_of_versions :: "nat \<Rightarrow> package_version list \<Rightarrow> version_page" where
  "page_of_versions limit vs =
     (if limit < length vs then
        \<lparr>vp_total = limit, vp_items = take limit vs,
         vp_cursor = (if take limit vs = [] then None else Some (show_int (pv_version (last (take limit vs)))))\<rparr>
      else \<lparr>vp_total = length vs, vp_items = vs, vp_cursor = None\<rparr>)"

definition list_package_versions ::
  "'c package_env \<Rightarrow> string \<Rightarrow> nat \<Rightarrow> string option \<Rightarrow> 'c depot \<Rightarrow> (package_error + version_page) option" where
  "list_package_versions E i limit cursor d =
     Option.bind (list_versions (package_key E) (packages d) i) (\<lambda>r. Some (
       case r of
         Inl e \<Rightarrow> Inl (caught e)
       | Inr vs \<Rightarrow>
           if given cursor then
             (case py_int (the cursor) of
                None \<Rightarrow> Inl BadPackage
              | Some n \<Rightarrow> Inr (page_of_versions limit (filter (\<lambda>v. n < pv_version v) vs)))
           else Inr (page_of_versions limit vs)))"

definition get_package_version ::
  "'c package_env \<Rightarrow> string \<Rightarrow> int \<Rightarrow> 'c depot \<Rightarrow> (package_error + package \<times> 'c) option" where
  "get_package_version E i v d =
     Option.bind (list_versions (package_key E) (packages d) i) (\<lambda>r. case r of
       Inl e \<Rightarrow> Some (Inl (if e = Crash ValueError then NoPackage i else e))
     | Inr vs \<Rightarrow>
         if \<not> list_ex (\<lambda>x. pv_version x = v) vs then Some (Inl (NoVersion i v))
         else (case existing (package_key E) i (packages d) of
            Inl e \<Rightarrow> Some (Inl e)
          | Inr p \<Rightarrow> Option.bind (ancestors (package_key E) (packages d) p) (\<lambda>a. Some (bindE a (\<lambda>ps.
              case find (\<lambda>q. pk_version q = v) ps of
                None \<Rightarrow> Inl (NoVersion i v)
              | Some q \<Rightarrow> bindE (retrieve_package (pk_uri q) d) (\<lambda>c. Inr (q, c)))))))"

definition comment_or :: "string option \<Rightarrow> int \<Rightarrow> string option" where
  "comment_or comment v = (if given comment then comment else Some (''Rollback to version '' @ show_int v))"

text \<open>
  Two commits: the first adds the version, the second writes who made it and why.
\<close>

definition rollback_package_version ::
  "'c package_env \<Rightarrow> package_fault \<Rightarrow> string \<Rightarrow> int \<Rightarrow> string option \<Rightarrow> string option \<Rightarrow> 'c depot \<Rightarrow>
   ('c depot \<times> (package_error + package)) option" where
  "rollback_package_version E tr i v comment by d =
     Option.bind (rollback_to_version E tr i v d) (\<lambda>r. Some (case r of
       (d1, Inl e) \<Rightarrow> (d1, Inl (caught e))
     | (d1, Inr p) \<Rightarrow>
         (let p' = p\<lparr>pk_by := by, pk_comment := comment_or comment v\<rparr>;
              d2 = d1\<lparr>packages := replace_package p' (packages d1)\<rparr> in
          if tr = LaterFails then (d1, Inl (Failed tr))
          else if tr = PublishFails then (d2, Inl (Failed tr))
          else (d2\<lparr>pk_bus := pk_bus d1 @
                [\<lparr>pe_kind = VERSION_ROLLED_BACK, pe_id = pk_id p, pe_parent = i, pe_filename = pk_filename p,
                  pe_version = pk_version p, pe_comment = comment_or comment v, pe_by = by, pe_hash = None,
                  pe_from = Some v\<rparr>]\<rparr>, Inr p'))))"

text \<open>
  The handler calls \<open>list_versions\<close> without its session, a \<open>TypeError\<close> before anything else happens.
\<close>

definition tag_package_version :: "string \<Rightarrow> int \<Rightarrow> string list \<Rightarrow> ('c, string list) package_handler" where
  "tag_package_version i v tags d = (d, Inl (Crash TypeError))"

text \<open>
  \<open>NotFoundError\<close> takes two arguments and gets one here, again a \<open>TypeError\<close>; the loop reads a field of \<open>None\<close>
  if a previous version is missing.
\<close>

definition get_version_by_tag ::
  "'c package_env \<Rightarrow> string \<Rightarrow> string \<Rightarrow> 'c depot \<Rightarrow> (package_error + package) option" where
  "get_version_by_tag E i tag d =
     (case package_by_id (package_key E) i (packages d) of
        Inl e \<Rightarrow> Some (Inl e)
      | Inr None \<Rightarrow> Some (Inl (Crash TypeError))
      | Inr (Some p) \<Rightarrow> Option.bind (ancestors (package_key E) (packages d) p) (\<lambda>a. Some (bindE a (\<lambda>ps.
          if given (pk_prev (last ps)) then Inl (Crash AttributeError)
          else case find (\<lambda>q. case pk_tags q of None \<Rightarrow> False | Some ts \<Rightarrow> tag \<in> set ts) ps of
            None \<Rightarrow> Inl (Crash TypeError)
          | Some q \<Rightarrow> Inr q))))"

section \<open>Comparison\<close>

text \<open>The rows of two versions, out of the package and its ancestors; a later row of the same version wins.\<close>

definition version_packages ::
  "(string \<Rightarrow> string option) \<Rightarrow> package list \<Rightarrow> string \<Rightarrow> int \<Rightarrow> int \<Rightarrow> (package_error + package \<times> package) option" where
  "version_packages key rows i v1 v2 =
     (case package_by_id key i rows of
        Inl e \<Rightarrow> Some (Inl e)
      | Inr None \<Rightarrow> Some (Inl (Crash ValueError))
      | Inr (Some p) \<Rightarrow> Option.bind (ancestors key rows p) (\<lambda>a. Some (bindE a (\<lambda>ps.
          case (find (\<lambda>q. pk_version q = v1) (rev ps), find (\<lambda>q. pk_version q = v2) (rev ps)) of
            (Some p1, Some p2) \<Rightarrow> Inr (p1, p2)
          | _ \<Rightarrow> Inl (Crash ValueError)))))"

text \<open>The ids in a comparison come in the order of a Python set: sets here.\<close>

record comparison =
  shells_added :: "json set"
  shells_removed :: "json set"
  shells_modified :: "json set"
  submodels_added :: "json set"
  submodels_removed :: "json set"
  submodels_modified :: "json set"
  cds_added :: "json set"
  cds_removed :: "json set"
  files_changed :: bool

definition has_changes :: "comparison \<Rightarrow> bool" where
  "has_changes x =
     (shells_added x \<noteq> {} \<or> shells_removed x \<noteq> {} \<or> shells_modified x \<noteq> {} \<or> submodels_added x \<noteq> {} \<or>
      submodels_removed x \<noteq> {} \<or> submodels_modified x \<noteq> {} \<or> cds_added x \<noteq> {} \<or> cds_removed x \<noteq> {} \<or> files_changed x)"

definition ids_in :: "obj list \<Rightarrow> json set" where
  "ids_in ds = (\<lambda>d. dget d ''id'') ` set ds"

definition shells_differ :: "obj \<Rightarrow> obj \<Rightarrow> bool" where
  "shells_differ a b = list_ex (\<lambda>k. dget a k \<noteq> dget b k) [''idShort'', ''description'', ''assetInformation'']"

definition elements_count :: "obj \<Rightarrow> nat" where
  "elements_count d = (case dget d ''submodelElements'' of JList es \<Rightarrow> length es | _ \<Rightarrow> 0)"

definition submodels_differ :: "obj \<Rightarrow> obj \<Rightarrow> bool" where
  "submodels_differ a b =
     (list_ex (\<lambda>k. dget a k \<noteq> dget b k) [''idShort'', ''description'', ''semanticId''] \<or> elements_count a \<noteq> elements_count b)"

definition modified_in :: "(obj \<Rightarrow> obj \<Rightarrow> bool) \<Rightarrow> obj list \<Rightarrow> obj list \<Rightarrow> json set" where
  "modified_in differ as bs =
     Set.filter (\<lambda>i. case (find (\<lambda>d. dget d ''id'' = i) as, find (\<lambda>d. dget d ''id'' = i) bs) of
         (Some a, Some b) \<Rightarrow> differ a b
       | _ \<Rightarrow> False)
       (ids_in as \<inter> ids_in bs)"

definition compare_contents :: "contents \<Rightarrow> contents \<Rightarrow> comparison" where
  "compare_contents x y =
     \<lparr>shells_added = ids_in (pc_shells y) - ids_in (pc_shells x),
      shells_removed = ids_in (pc_shells x) - ids_in (pc_shells y),
      shells_modified = modified_in shells_differ (pc_shells x) (pc_shells y),
      submodels_added = ids_in (pc_submodels y) - ids_in (pc_submodels x),
      submodels_removed = ids_in (pc_submodels x) - ids_in (pc_submodels y),
      submodels_modified = modified_in submodels_differ (pc_submodels x) (pc_submodels y),
      cds_added = ids_in (pc_cds y) - ids_in (pc_cds x),
      cds_removed = ids_in (pc_cds x) - ids_in (pc_cds y),
      files_changed = (length (pc_files x) \<noteq> length (pc_files y))\<rparr>"

definition compare_versions :: "'c package_env \<Rightarrow> string \<Rightarrow> int \<Rightarrow> int \<Rightarrow> 'c depot \<Rightarrow> (package_error + comparison) option" where
  "compare_versions E i v1 v2 d =
     Option.bind (version_packages (package_key E) (packages d) i v1 v2) (\<lambda>r. Some (bindE r (\<lambda>(p1, p2).
       bindE (retrieve_package (pk_uri p1) d) (\<lambda>c1. bindE (retrieve_package (pk_uri p2) d) (\<lambda>c2.
       bindE (liftE Crash (read_package E c1)) (\<lambda>x. bindE (liftE Crash (read_package E c2)) (\<lambda>y.
         Inr (compare_contents x y))))))))"

definition compare_package_versions ::
  "'c package_env \<Rightarrow> string \<Rightarrow> int \<Rightarrow> int \<Rightarrow> 'c depot \<Rightarrow> (package_error + comparison) option" where
  "compare_package_versions E i v1 v2 d =
     Option.bind (compare_versions E i v1 v2 d) (\<lambda>r. Some (map_sum caught id r))"

end
