(* ===== verification/PackageSpec.thy ===== *)
theory PackageSpec
  imports Packages
begin

text \<open>
  What the version history of packages is worth: the loops over it end, they tell the whole history as
  long as it is linear, and fail while two versions have the same predecessor. Files are shared by a
  rollback and are gone with the first of their owners; a replacement that stops midway loses the file.
\<close>

section \<open>The table of packages\<close>

definition package_env_ok :: "'c package_env \<Rightarrow> bool" where
  "package_env_ok E =
     (inj (package_id_of E) \<and> inj (uri_of E) \<and>
      (\<forall>n. package_id_of E n \<noteq> [] \<and> package_key E (package_id_of E n) = Some (package_id_of E n)))"

definition fits :: "package list \<Rightarrow> package \<Rightarrow> bool" where
  "fits rows p =
     (1 \<le> pk_version p \<and> pk_tags p = None \<and> pk_id p \<noteq> [] \<and>
      (\<forall>i. pk_prev p = Some i \<longrightarrow> (\<exists>r \<in> set rows. pk_id r = i \<and> pk_version p = pk_version r + 1)))"

definition links_ok :: "(string \<Rightarrow> string option) \<Rightarrow> package list \<Rightarrow> bool" where
  "links_ok key rows =
     (distinct (map pk_id rows) \<and> (\<forall>p \<in> set rows. fits rows p) \<and> (\<forall>p \<in> set rows. key (pk_id p) = Some (pk_id p)))"

definition packages_ok :: "'c package_env \<Rightarrow> 'c depot \<Rightarrow> bool" where
  "packages_ok E d =
     (links_ok (package_key E) (packages d) \<and> (\<forall>p \<in> set (packages d). \<exists>k < drawn d. pk_id p = package_id_of E k))"

lemma filter_key: "distinct (map f xs) \<Longrightarrow> x \<in> set xs \<Longrightarrow> filter (\<lambda>y. f y = f x) xs = [x]"
proof (induction xs)
  case (Cons a xs)
  show ?case
  proof (cases "f a = f x")
    case True
    with Cons.prems have "a = x" by (auto simp: image_iff)
    moreover have "filter (\<lambda>y. f y = f x) xs = []" using Cons.prems True by (auto simp: filter_empty_conv image_iff)
    ultimately show ?thesis by simp
  next
    case False
    with Cons show ?thesis by auto
  qed
qed simp

lemma lookup: "links_ok key rows \<Longrightarrow> p \<in> set rows \<Longrightarrow> package_by_id key (pk_id p) rows = Inr (Some p)"
  using filter_key [of pk_id rows p] by (simp add: links_ok_def package_by_id_def one_or_none_def)

lemma same_id: "links_ok key rows \<Longrightarrow> x \<in> set rows \<Longrightarrow> y \<in> set rows \<Longrightarrow> pk_id x = pk_id y \<Longrightarrow> x = y"
  unfolding links_ok_def distinct_map by (blast dest: inj_onD)

lemma lookup_none: "key i = Some k \<Longrightarrow> k \<notin> pk_id ` set rows \<Longrightarrow> package_by_id key i rows = Inr None"
proof -
  assume key: "key i = Some k" and "k \<notin> pk_id ` set rows"
  then have "filter (\<lambda>p. pk_id p = k) rows = []" by (auto simp: filter_empty_conv)
  with key show ?thesis by (simp add: package_by_id_def one_or_none_def)
qed

lemma lookup_spelling: "key i = key k \<Longrightarrow> package_by_id key i rows = package_by_id key k rows"
  by (simp add: package_by_id_def)

lemma own_key: "links_ok key rows \<Longrightarrow> p \<in> set rows \<Longrightarrow> key (pk_id p) = Some (pk_id p)"
  by (simp add: links_ok_def)

lemma lookup_cases:
  assumes "links_ok key rows"
  obtains p where "p \<in> set rows" "key i = Some (pk_id p)" "package_by_id key i rows = Inr (Some p)" |
    k where "key i = Some k" "k \<notin> pk_id ` set rows" "package_by_id key i rows = Inr None" |
    "key i = None" "package_by_id key i rows = Inl BadUuid"
proof (cases "key i")
  case None
  with that(3) show thesis by (simp add: package_by_id_def)
next
  case (Some k)
  show thesis
  proof (cases "k \<in> pk_id ` set rows")
    case True
    then obtain p where p: "p \<in> set rows" "k = pk_id p" by blast
    then have "key i = key (pk_id p)" using own_key [OF assms p(1)] Some by simp
    from lookup_spelling [OF this, of rows] lookup [OF assms p(1)] p Some that(1) show thesis by simp
  qed (use Some lookup_none that(2) in blast)
qed

lemma lookup_some:
  assumes "links_ok key rows" and "package_by_id key i rows = Inr (Some p)"
  shows "p \<in> set rows \<and> key i = Some (pk_id p)"
  using assms(2) by (cases rule: lookup_cases [OF assms(1), of i]) auto

lemma successor_cases:
  assumes "key i = Some i"
  obtains "successor_of key i rows = Inr None" "\<forall>p \<in> set rows. pk_prev p \<noteq> Some i"
  | p where "successor_of key i rows = Inr (Some p)" "p \<in> set rows" "pk_prev p = Some i"
      "\<forall>q \<in> set rows. pk_prev q = Some i \<longrightarrow> q = p"
  | "successor_of key i rows = Inl MultipleResultsFound"
proof (cases "filter (\<lambda>p. pk_prev p = Some i) rows")
  case Nil
  with that(1) assms show ?thesis by (auto simp: successor_of_def one_or_none_def filter_empty_conv)
next
  case (Cons p ps)
  have "set (filter (\<lambda>p. pk_prev p = Some i) rows) = set (p # ps)" using Cons by simp
  then have mem: "q \<in> set (p # ps) \<longleftrightarrow> q \<in> set rows \<and> pk_prev q = Some i" for q by auto
  show ?thesis
  proof (cases ps)
    case Nil
    with mem [of p] have "p \<in> set rows" "pk_prev p = Some i" by simp_all
    moreover have "\<forall>q \<in> set rows. pk_prev q = Some i \<longrightarrow> q = p" using mem Nil by auto
    moreover have "successor_of key i rows = Inr (Some p)" using Cons Nil assms by (simp add: successor_of_def one_or_none_def)
    ultimately show ?thesis by (rule that(2) [rotated])
  next
    case Cons': (Cons q qs)
    with Cons that(3) assms show ?thesis by (simp add: successor_of_def one_or_none_def)
  qed
qed

text \<open>Two spellings of an id find the same.\<close>

lemma successor_spelling: "key i = key k \<Longrightarrow> successor_of key i rows = successor_of key k rows"
  by (simp add: successor_of_def)

lemma versions_spelling:
  assumes "key i = key k"
  shows "versions_from key rows i vs = versions_from key rows k vs"
  by (subst (1 2) versions_from.simps) (simp only: lookup_spelling [OF assms] successor_spelling [OF assms])

lemma target_spelling:
  assumes "key i = key k"
  shows "target_from key rows v i = target_from key rows v k"
  by (subst (1 2) target_from.simps) (simp only: lookup_spelling [OF assms] successor_spelling [OF assms])

lemma root_spelling:
  assumes "key i = key k"
  shows "(root_from key rows i i = Some (Inr i) \<and> root_from key rows k k = Some (Inr k)) \<or>
    root_from key rows i i = root_from key rows k k"
proof -
  have step: "root_from key rows x x =
      (case package_by_id key x rows of
         Inl e \<Rightarrow> Some (Inl e)
       | Inr None \<Rightarrow> Some (Inr x)
       | Inr (Some p) \<Rightarrow>
           if given (pk_prev p) then root_from key rows (the (pk_prev p)) (the (pk_prev p)) else Some (Inr x))" for x
    by (subst root_from.simps) simp
  show ?thesis
    unfolding step [of i] step [of k] lookup_spelling [OF assms] by (auto split: sum.split option.split)
qed

lemma list_spelling: "key i = key k \<Longrightarrow> list_versions key rows i = list_versions key rows k"
  using root_spelling [of key i k rows] versions_spelling [of key i k rows] by (auto simp: list_versions_def)

lemma rollback_spelling:
  assumes "key i = key k"
  shows "rollback_target key rows i v = rollback_target key rows k v"
proof -
  have "Option.bind (root_from key rows i i) (\<lambda>r. case r of
         Inl e \<Rightarrow> Some (Inl e) | Inr root \<Rightarrow> Option.bind (target_from key rows v root) f) =
       Option.bind (root_from key rows k k) (\<lambda>r. case r of
         Inl e \<Rightarrow> Some (Inl e) | Inr root \<Rightarrow> Option.bind (target_from key rows v root) f)"
    for f :: "package_error + package option \<Rightarrow> (package_error + package) option"
    using root_spelling [OF assms, of rows] target_spelling [OF assms, of rows v] by auto
  then show ?thesis unfolding rollback_target_def list_spelling [OF assms] by (simp only:)
qed

lemma fits_prev:
  assumes "fits rows p" and "pk_prev p = Some i"
  obtains q where "q \<in> set rows" "pk_id q = i" "pk_version p = pk_version q + 1"
  using assms unfolding fits_def by metis

lemma fits_mono:
  assumes "fits rows p" and "\<And>i. pk_prev p' = Some i \<Longrightarrow> pk_prev p = Some i \<and> (\<forall>r \<in> set rows. pk_id r = i \<longrightarrow>
      (\<exists>r' \<in> set rows'. pk_id r' = i \<and> pk_version r' = pk_version r))"
    and "pk_version p' = pk_version p" and "pk_tags p' = pk_tags p" and "pk_id p' = pk_id p"
  shows "fits rows' p'"
  using assms unfolding fits_def by metis

lemma prev_ok:
  assumes "links_ok key rows" and "p \<in> set rows" and "pk_prev p = Some i"
  obtains q where "q \<in> set rows" "pk_id q = i" "i \<noteq> []" "pk_version p = pk_version q + 1" "1 \<le> pk_version q"
proof -
  have fits: "fits rows x" if "x \<in> set rows" for x using assms(1) that by (simp add: links_ok_def)
  from fits_prev [OF fits [OF assms(2)] assms(3)] obtain q where
    q: "q \<in> set rows" "pk_id q = i" "pk_version p = pk_version q + 1" .
  have "1 \<le> pk_version q" "pk_id q \<noteq> []" using fits [OF q(1)] by (simp_all add: fits_def)
  with q that show ?thesis by blast
qed

lemma prev_row:
  assumes "links_ok key rows" and "p \<in> set rows" and "given (pk_prev p)"
  obtains q where "q \<in> set rows" "pk_prev p = Some (pk_id q)" "pk_version p = pk_version q + 1"
proof -
  from assms(3) obtain i where i: "pk_prev p = Some i" by (auto simp: given_def)
  from prev_ok [OF assms(1,2) i] obtain q where "q \<in> set rows" "pk_id q = i" "pk_version p = pk_version q + 1" by metis
  with i that show ?thesis by metis
qed

lemma prev_given: "links_ok key rows \<Longrightarrow> p \<in> set rows \<Longrightarrow> pk_prev p = Some i \<Longrightarrow> given (pk_prev p)"
  by (erule (2) prev_ok) (simp add: given_def)

section \<open>The loops end\<close>

text \<open>\<open>p\<close> is \<open>r\<close> or one of the versions made from it.\<close>

inductive descends :: "package list \<Rightarrow> package \<Rightarrow> package \<Rightarrow> bool" for rows where
  self: "p \<in> set rows \<Longrightarrow> descends rows p p"
| version: "descends rows r q \<Longrightarrow> p \<in> set rows \<Longrightarrow> pk_prev p = Some (pk_id q) \<Longrightarrow> descends rows r p"

lemma descends_rows: "descends rows r p \<Longrightarrow> r \<in> set rows \<and> p \<in> set rows"
  by (induction rule: descends.induct) simp_all

lemma root_of_version:
  assumes "links_ok key rows" and "p \<in> set rows" and "q \<in> set rows" and "pk_prev p = Some (pk_id q)"
  shows "root_from key rows (pk_id p) x = root_from key rows (pk_id q) (pk_id q)"
  using prev_given [OF assms(1,2,4)] lookup [OF assms(1,2)] assms(4) by (subst root_from.simps) simp

lemma root_exists:
  assumes "links_ok key rows" and "p \<in> set rows"
  shows "\<exists>r. descends rows r p \<and> root_from key rows (pk_id p) (pk_id p) = Some (Inr (pk_id r))"
  using assms(2)
proof (induction "nat (pk_version p)" arbitrary: p rule: less_induct)
  case less
  show ?case
  proof (cases "given (pk_prev p)")
    case True
    from prev_row [OF assms(1) less.prems True] obtain q where
      q: "q \<in> set rows" "pk_prev p = Some (pk_id q)" "pk_version p = pk_version q + 1" .
    have "1 \<le> pk_version q" using assms(1) q(1) by (simp add: links_ok_def fits_def)
    with less.hyps [OF _ q(1)] q(3) obtain r where
      "descends rows r q" "root_from key rows (pk_id q) (pk_id q) = Some (Inr (pk_id r))" by auto
    with descends.version [OF _ less.prems q(2)] root_of_version [OF assms(1) less.prems q(1,2)] show ?thesis by auto
  next
    case False
    with lookup [OF assms(1) less.prems] descends.self [OF less.prems] show ?thesis by (subst root_from.simps) auto
  qed
qed

definition newer :: "package list \<Rightarrow> package \<Rightarrow> nat" where
  "newer rows p = length (filter (\<lambda>q. pk_version p < pk_version q) rows)"

lemma newer_less:
  assumes "q \<in> set rows" and "pk_version p < pk_version q"
  shows "newer rows q < newer rows p"
proof -
  have "set (filter (\<lambda>x. pk_version q < pk_version x) xs) \<subseteq> set (filter (\<lambda>x. pk_version p < pk_version x) xs)" for xs
    using assms(2) by auto
  have "length (filter (\<lambda>x. pk_version q < pk_version x) xs) +
      (if q \<in> set xs then 1 else 0) \<le> length (filter (\<lambda>x. pk_version p < pk_version x) xs)" for xs
    using assms(2) by (induction xs) auto
  from this [of rows] assms(1) show ?thesis by (simp add: newer_def)
qed

lemma version_of_successor:
  assumes "links_ok key rows" and "p \<in> set rows" and "q \<in> set rows" and "pk_prev q = Some (pk_id p)"
  shows "pk_version q = pk_version p + 1"
proof -
  from prev_ok [OF assms(1,3,4)] obtain r where r: "r \<in> set rows" "pk_id r = pk_id p" "pk_version q = pk_version r + 1"
    by metis
  with same_id [OF assms(1) r(1) assms(2) r(2)] show ?thesis by simp
qed

lemma versions_end:
  assumes "links_ok key rows" and "p \<in> set rows"
  shows "\<exists>r. versions_from key rows (pk_id p) vs = Some r \<and>
    (r = Inl MultipleResultsFound \<and> (\<exists>i. successor_of key i rows = Inl MultipleResultsFound) \<or>
    (\<exists>ws. r = Inr (vs @ version_of p # ws) \<and>
       map pv_version (version_of p # ws) = map (\<lambda>k. pk_version p + int k) [0..<Suc (length ws)]))"
  using assms(2)
proof (induction "newer rows p" arbitrary: p vs rule: less_induct)
  case less
  have unfolded: "versions_from key rows (pk_id p) vs =
      (case successor_of key (pk_id p) rows of
         Inl e \<Rightarrow> Some (Inl e)
       | Inr None \<Rightarrow> Some (Inr (vs @ [version_of p]))
       | Inr (Some q) \<Rightarrow> versions_from key rows (pk_id q) (vs @ [version_of p]))"
    using lookup [OF assms(1) less.prems] by (subst versions_from.simps) simp
  show ?case
  proof (cases rule: successor_cases [where key = key and i = "pk_id p" and rows = rows, OF own_key [OF assms(1) less.prems]])
    case 1
    with unfolded show ?thesis by (auto simp: version_of_def)
  next
    case (2 q)
    note v = version_of_successor [OF assms(1) less.prems 2(2,3)]
    from less.hyps [OF newer_less [OF 2(2)] 2(2), of "vs @ [version_of p]"] v
    obtain r where "versions_from key rows (pk_id q) (vs @ [version_of p]) = Some r" and
      r: "r = Inl MultipleResultsFound \<and> (\<exists>i. successor_of key i rows = Inl MultipleResultsFound) \<or>
        (\<exists>ws. r = Inr ((vs @ [version_of p]) @ version_of q # ws) \<and>
        map pv_version (version_of q # ws) = map (\<lambda>k. pk_version q + int k) [0..<Suc (length ws)])" by auto
    with unfolded 2(1) have run: "versions_from key rows (pk_id p) vs = Some r" by simp
    from r show ?thesis
    proof
      assume "\<exists>ws. r = Inr ((vs @ [version_of p]) @ version_of q # ws) \<and>
        map pv_version (version_of q # ws) = map (\<lambda>k. pk_version q + int k) [0..<Suc (length ws)]"
      then obtain ws where ws: "r = Inr (vs @ version_of p # version_of q # ws)"
        "map pv_version (version_of q # ws) = map (\<lambda>k. pk_version q + int k) [0..<Suc (length ws)]" by auto
      have "map pv_version (version_of p # version_of q # ws) =
          map (\<lambda>k. pk_version p + int k) [0..<Suc (length (version_of q # ws))]"
        unfolding list.map(2) [of pv_version "version_of p"] ws(2) v
        by (simp add: version_of_def upt_conv_Cons map_Suc_upt [symmetric] ac_simps del: upt_Suc)
      with run ws(1) show ?thesis by blast
    qed (use run in blast)
  next
    case 3
    then have "\<exists>i. successor_of key i rows = Inl MultipleResultsFound" by blast
    with unfolded 3 show ?thesis by simp
  qed
qed

text \<open>A walk from an older version either fails or passes each of its versions.\<close>

lemma versions_pass:
  assumes "links_ok key rows" and "descends rows r p"
  shows "versions_from key rows (pk_id r) vs = Some (Inl MultipleResultsFound) \<or>
    (\<exists>vs'. versions_from key rows (pk_id r) vs = versions_from key rows (pk_id p) vs')"
  using assms(2)
proof (induction rule: descends.induct)
  case (version r q p)
  have q: "q \<in> set rows" using descends_rows [OF version.hyps(1)] by simp
  show ?case
  proof (cases "versions_from key rows (pk_id r) vs = Some (Inl MultipleResultsFound)")
    case False
    with version.IH obtain vs' where vs': "versions_from key rows (pk_id r) vs = versions_from key rows (pk_id q) vs'" by blast
    show ?thesis
    proof (cases rule: successor_cases [where key = key and i = "pk_id q" and rows = rows, OF own_key [OF assms(1) q]])
      case (2 x)
      with version.hyps(2,3) have "x = p" by blast
      with 2(1) vs' lookup [OF assms(1) q] show ?thesis
        by (subst (asm) (2) versions_from.simps) auto
    next
      case 3
      with vs' lookup [OF assms(1) q] show ?thesis
        by (subst (asm) (2) versions_from.simps) auto
    qed (use version.hyps(2,3) in blast)
  qed simp
qed blast

section \<open>Every operation keeps the table in order\<close>

text \<open>
  Requests come one after another. Without \<open>all\<close> nothing is rolled back, and no replacement and no deletion
  stops between the deletion of the old file and the commit.
\<close>

inductive package_step :: "'c package_env \<Rightarrow> bool \<Rightarrow> 'c depot \<Rightarrow> 'c depot \<Rightarrow> bool" for E all where
  upload: "package_step E all d (fst (upload_package E tr c f d))"
| put: "all \<or> versioned \<or> tr \<notin> {StoreFails, CommitFails} \<Longrightarrow>
    package_step E all d (fst (put_package E tr i c f versioned comment by d))"
| delete: "all \<or> tr \<noteq> CommitFails \<Longrightarrow> package_step E all d (fst (delete_package E tr i d))"
| new_version: "package_step E all d (fst (create_package_version E tr i c f comment by d))"
| rollback: "all \<Longrightarrow> rollback_package_version E tr i v comment by d = Some (d', r) \<Longrightarrow> package_step E all d d'"
| tag: "package_step E all d (fst (tag_package_version i v ts d))"

definition no_packages :: "'c depot \<Rightarrow> bool" where
  "no_packages d = (packages d = [])"

lemma ok_links: "packages_ok E d \<Longrightarrow> links_ok (package_key E) (packages d)"
  by (simp add: packages_ok_def)

lemma ok_later:
  "packages_ok E d \<Longrightarrow> packages d' = packages d \<Longrightarrow> drawn d \<le> drawn d' \<Longrightarrow> packages_ok E d'"
  unfolding packages_ok_def by (metis order_less_le_trans)

lemma drawn_later: "n \<le> m \<Longrightarrow> \<exists>k < n. P k \<Longrightarrow> \<exists>k < (m::nat). P k"
  by (meson order_less_le_trans)

lemma ok_add:
  assumes "package_env_ok E" and "packages_ok E d" and "pk_id p = package_id_of E (drawn d)" and "1 \<le> pk_version p"
    and "pk_tags p = None" and "\<And>i. pk_prev p = Some i \<Longrightarrow> \<exists>r \<in> set (packages d). pk_id r = i \<and> pk_version p = pk_version r + 1"
  shows "packages_ok E (add_package p (draw d))" and "pk_id p \<notin> pk_id ` set (packages d)"
proof -
  have old: "distinct (map pk_id (packages d))" "\<And>x. x \<in> set (packages d) \<Longrightarrow> fits (packages d) x"
    "\<And>x. x \<in> set (packages d) \<Longrightarrow> \<exists>k < drawn d. pk_id x = package_id_of E k"
    "\<And>x. x \<in> set (packages d) \<Longrightarrow> package_key E (pk_id x) = Some (pk_id x)"
    using assms(2) by (simp_all add: packages_ok_def links_ok_def)
  show new: "pk_id p \<notin> pk_id ` set (packages d)"
  proof
    assume "pk_id p \<in> pk_id ` set (packages d)"
    then obtain x where "x \<in> set (packages d)" "pk_id x = pk_id p" by (metis imageE)
    with old(3) assms(3) obtain k where "k < drawn d" "package_id_of E k = package_id_of E (drawn d)" by metis
    moreover have "inj (package_id_of E)" using assms(1) by (simp add: package_env_ok_def)
    ultimately show False by (simp add: inj_eq)
  qed
  have "pk_id p \<noteq> []" using assms(1,3) by (simp add: package_env_ok_def)
  moreover have "\<exists>r \<in> set (packages d @ [p]). pk_id r = i \<and> pk_version p = pk_version r + 1" if "pk_prev p = Some i" for i
    using assms(6) [OF that] by auto
  ultimately have "fits (packages d @ [p]) p" using assms(4,5) by (simp add: fits_def)
  moreover have "fits (packages d @ [p]) x" if "x \<in> set (packages d)" for x
    using fits_mono [OF old(2) [OF that], of x "packages d @ [p]"] by auto
  moreover have "package_key E (pk_id p) = Some (pk_id p)" using assms(1,3) by (simp add: package_env_ok_def)
  ultimately have "links_ok (package_key E) (packages d @ [p])" using old(1,4) new by (auto simp: links_ok_def)
  moreover have "\<exists>k < Suc (drawn d). pk_id q = package_id_of E k" if "q \<in> set (packages d @ [p])" for q
    using that drawn_later [OF _ old(3) [of q], of "Suc (drawn d)"] assms(3) by auto
  ultimately show "packages_ok E (add_package p (draw d))" by (simp add: packages_ok_def add_package_def draw_def)
qed

lemma replaced_rows:
  assumes "pk_id p' = pk_id p" and "links_ok key rows" and "p \<in> set rows"
  shows "map pk_id (replace_package p' rows) = map pk_id rows"
    and "q \<in> set (replace_package p' rows) \<longleftrightarrow> q = p' \<or> (q \<in> set rows \<and> q \<noteq> p)"
proof -
  show "map pk_id (replace_package p' rows) = map pk_id rows" by (simp add: replace_package_def)
  have same: "(pk_id x = pk_id p') = (x = p)" if "x \<in> set rows" for x
    unfolding assms(1) using same_id [OF assms(2) that assms(3)] by blast
  have "replace_package p' rows = map (\<lambda>x. if x = p then p' else x) rows"
    unfolding replace_package_def by (rule map_cong [OF refl]) (simp only: same)
  with assms(3) show "q \<in> set (replace_package p' rows) \<longleftrightarrow> q = p' \<or> (q \<in> set rows \<and> q \<noteq> p)"
    by (auto simp: image_iff)
qed

lemma ok_replace:
  assumes "packages_ok E d" and "p \<in> set (packages d)" and "pk_id p' = pk_id p" and "pk_version p' = pk_version p"
    and "pk_prev p' = pk_prev p" and "pk_tags p' = pk_tags p" and "packages d' = replace_package p' (packages d)"
    and "drawn d \<le> drawn d'"
  shows "packages_ok E d'"
proof -
  note rows = replaced_rows [OF assms(3) ok_links [OF assms(1)] assms(2)]
  have old: "distinct (map pk_id (packages d))" "\<And>x. x \<in> set (packages d) \<Longrightarrow> fits (packages d) x"
    "\<And>x. x \<in> set (packages d) \<Longrightarrow> \<exists>k < drawn d'. pk_id x = package_id_of E k"
    "\<And>x. x \<in> set (packages d) \<Longrightarrow> package_key E (pk_id x) = Some (pk_id x)"
    using assms(1) drawn_later [OF assms(8)] by (auto simp: packages_ok_def links_ok_def)
  have still: "\<exists>y \<in> set (packages d'). pk_id y = pk_id x \<and> pk_version y = pk_version x" if "x \<in> set (packages d)" for x
    using that rows(2) assms(3,4,7) by metis
  have "fits (packages d') q \<and> (\<exists>k < drawn d'. pk_id q = package_id_of E k) \<and> package_key E (pk_id q) = Some (pk_id q)"
    if q: "q \<in> set (packages d')" for q
  proof -
    obtain x where x: "x \<in> set (packages d)" "pk_id q = pk_id x" "pk_version q = pk_version x" "pk_prev q = pk_prev x"
      "pk_tags q = pk_tags x"
      using q rows(2) [of q] assms(2-7) by auto
    have "fits (packages d') q" by (rule fits_mono [OF old(2) [OF x(1)]]) (use x still in auto)
    with old(3,4) [OF x(1)] x(2) show ?thesis by simp
  qed
  moreover have "distinct (map pk_id (packages d'))" using old(1) rows(1) assms(7) by simp
  ultimately show ?thesis by (simp add: packages_ok_def links_ok_def)
qed

lemma removed_row:
  "q \<in> set (remove_package i rows) \<Longrightarrow> \<exists>x \<in> set rows. pk_id x \<noteq> i \<and>
     q = (if pk_prev x = Some i then x\<lparr>pk_prev := None\<rparr> else x)"
  by (auto simp: remove_package_def)

lemma kept_row:
  "x \<in> set rows \<Longrightarrow> pk_id x \<noteq> i \<Longrightarrow> (if pk_prev x = Some i then x\<lparr>pk_prev := None\<rparr> else x) \<in> set (remove_package i rows)"
  by (auto simp: remove_package_def)

lemma ok_remove:
  assumes "packages_ok E d" and "packages d' = remove_package i (packages d)" and "drawn d' = drawn d"
  shows "packages_ok E d'"
proof -
  have old: "distinct (map pk_id (packages d))" "\<And>x. x \<in> set (packages d) \<Longrightarrow> fits (packages d) x"
    "\<And>x. x \<in> set (packages d) \<Longrightarrow> \<exists>k < drawn d'. pk_id x = package_id_of E k"
    "\<And>x. x \<in> set (packages d) \<Longrightarrow> package_key E (pk_id x) = Some (pk_id x)"
    using assms(1,3) by (auto simp: packages_ok_def links_ok_def)
  have "map pk_id (remove_package i rows) = filter (\<lambda>x. x \<noteq> i) (map pk_id rows)" for rows
    by (induction rows) (auto simp: remove_package_def)
  then have "distinct (map pk_id (packages d'))" using old(1) assms(2) by simp
  moreover have "fits (packages d') q \<and> (\<exists>k < drawn d'. pk_id q = package_id_of E k) \<and>
      package_key E (pk_id q) = Some (pk_id q)" if q: "q \<in> set (packages d')" for q
  proof -
    from removed_row [OF q [unfolded assms(2)]] obtain x where x: "x \<in> set (packages d)"
      "q = (if pk_prev x = Some i then x\<lparr>pk_prev := None\<rparr> else x)" by blast
    have still: "\<exists>y \<in> set (packages d'). pk_id y = j \<and> pk_version y = pk_version r"
      if "r \<in> set (packages d)" "pk_id r = j" "j \<noteq> i" for r j
      using kept_row [OF that(1), of i] that(2,3) unfolding assms(2) by (intro bexI) auto
    have "fits (packages d') q"
      by (rule fits_mono [OF old(2) [OF x(1)]]) (use x(2) still in \<open>auto split: if_splits\<close>)
    with old(3,4) [OF x(1)] x(2) show ?thesis by simp
  qed
  ultimately show ?thesis by (simp add: packages_ok_def links_ok_def)
qed

lemma existing_row: "links_ok key rows \<Longrightarrow> existing key i rows = Inr p \<Longrightarrow> p \<in> set rows \<and> key i = Some (pk_id p)"
  using lookup_some [of key rows i] by (auto simp: existing_def errs split: option.splits)

lemma target_end:
  assumes "links_ok key rows" and "p \<in> set rows"
  shows "\<exists>r. target_from key rows v (pk_id p) = Some r \<and>
    (r = Inl MultipleResultsFound \<or> r = Inr None \<or> (\<exists>t \<in> set rows. r = Inr (Some t) \<and> pk_version t = v))"
  using assms(2)
proof (induction "newer rows p" arbitrary: p rule: less_induct)
  case less
  have unfolded: "target_from key rows v (pk_id p) =
      (if pk_version p = v then Some (Inr (Some p))
       else case successor_of key (pk_id p) rows of
         Inl e \<Rightarrow> Some (Inl e)
       | Inr None \<Rightarrow> Some (Inr None)
       | Inr (Some q) \<Rightarrow> target_from key rows v (pk_id q))"
    using lookup [OF assms(1) less.prems] by (subst target_from.simps) simp
  show ?case
  proof (cases rule: successor_cases [where key = key and i = "pk_id p" and rows = rows, OF own_key [OF assms(1) less.prems]])
    case (2 q)
    have "pk_version p < pk_version q" using version_of_successor [OF assms(1) less.prems 2(2,3)] by simp
    from less.hyps [OF newer_less [OF 2(2) this] 2(2)] 2(1) less.prems unfolded show ?thesis by auto
  qed (use less.prems unfolded in auto)
qed

lemma ancestors_end:
  assumes "links_ok key rows" and "p \<in> set rows"
  shows "\<exists>ps. ancestors key rows p = Some (Inr ps) \<and> set ps \<subseteq> set rows \<and> ps \<noteq> [] \<and> \<not> given (pk_prev (last ps))"
  using assms(2)
proof (induction "nat (pk_version p)" arbitrary: p rule: less_induct)
  case less
  show ?case
  proof (cases "given (pk_prev p)")
    case True
    from True obtain i where i: "pk_prev p = Some i" by (auto simp: given_def)
    from prev_ok [OF assms(1) less.prems i] obtain q where
      q: "q \<in> set rows" "pk_id q = i" "pk_version p = pk_version q + 1" "1 \<le> pk_version q" .
    from less.hyps [OF _ q(1)] q(3,4) obtain ps where "ancestors key rows q = Some (Inr ps)" "set ps \<subseteq> set rows"
      "ps \<noteq> []" "\<not> given (pk_prev (last ps))" by auto
    with True i q(2) lookup [OF assms(1) q(1)] less.prems show ?thesis by (subst ancestors.simps) auto
  qed (use less.prems in \<open>subst ancestors.simps; simp\<close>)
qed

text \<open>What a successful rollback has found.\<close>

lemma rollback_found:
  assumes "links_ok key rows" and "rollback_target key rows i v = Some (Inr t)"
  shows "t \<in> set rows \<and> pk_version t = v"
proof (cases rule: lookup_cases [OF assms(1), of i])
  case (1 p)
  let ?k = "pk_id p"
  have "key i = key ?k" using own_key [OF assms(1) 1(1)] 1(2) by simp
  then have found: "rollback_target key rows ?k v = Some (Inr t)" using rollback_spelling assms(2) by metis
  from root_exists [OF assms(1) 1(1)] obtain r where
    r: "r \<in> set rows" "root_from key rows ?k ?k = Some (Inr (pk_id r))" using descends_rows by blast
  from target_end [OF assms(1) r(1), of v] obtain x where x: "target_from key rows v (pk_id r) = Some x"
    "x = Inl MultipleResultsFound \<or> x = Inr None \<or> (\<exists>t \<in> set rows. x = Inr (Some t) \<and> pk_version t = v)" by blast
  from found r(2) x(1) have "x = Inr (Some t)"
    by (auto simp: rollback_target_def split: Option.bind_splits sum.splits option.splits if_splits)
  with x(2) show ?thesis by auto
next
  case (2 k)
  then have "list_versions key rows i = Some (Inr [])"
    by (simp add: list_versions_def) (subst root_from.simps, simp, subst versions_from.simps, simp)
  with assms(2) show ?thesis by (simp add: rollback_target_def)
next
  case 3
  then have "list_versions key rows i = Some (Inl BadUuid)" by (simp add: list_versions_def) (subst root_from.simps, simp)
  with assms(2) show ?thesis by (simp add: rollback_target_def)
qed

lemma replace_last:
  "pk_id p' = pk_id p \<Longrightarrow> pk_id p \<notin> pk_id ` set rows \<Longrightarrow> replace_package p' (rows @ [p]) = rows @ [p']"
  unfolding replace_package_def map_append by (simp, rule map_idI) (force simp: image_iff)

definition rolled_back :: "'c package_env \<Rightarrow> 'c depot \<Rightarrow> package \<Rightarrow> package \<Rightarrow> int \<Rightarrow> string option \<Rightarrow> string option \<Rightarrow> package" where
  "rolled_back E d t latest v comment by =
     (rollback_version E d t latest)\<lparr>pk_by := by, pk_comment := comment_or comment v\<rparr>"

lemma new_row:
  assumes "package_env_ok E" and "packages_ok E d" and "pk_id p = package_id_of E (drawn d)"
  shows "pk_id p \<notin> pk_id ` set (packages d)"
proof
  assume "pk_id p \<in> pk_id ` set (packages d)"
  then obtain x where "x \<in> set (packages d)" "pk_id x = pk_id p" by (metis imageE)
  with assms(2,3) obtain k where "k < drawn d" "package_id_of E k = package_id_of E (drawn d)"
    unfolding packages_ok_def by metis
  moreover have "inj (package_id_of E)" using assms(1) by (simp add: package_env_ok_def)
  ultimately show False by (simp add: inj_eq)
qed

lemma rollback_to_cases:
  assumes "packages_ok E d" and "rollback_to_version E tr i v d = Some (d', r)"
  obtains e where "packages d' = packages d" "drawn d \<le> drawn d'" "r = Inl e"
  | t latest where "rollback_target (package_key E) (packages d) i v = Some (Inr t)" "latest \<in> set (packages d)"
      "r = Inr (rollback_version E d t latest)" "d' = add_package (rollback_version E d t latest) (draw d)"
proof -
  from assms(2) obtain x where x: "rollback_target (package_key E) (packages d) i v = Some x"
    by (auto simp: rollback_to_version_def split: Option.bind_splits)
  show thesis
  proof (cases x)
    case (Inl e)
    with x assms(2) that(1) show thesis by (auto simp: rollback_to_version_def)
  next
    case (Inr t)
    show thesis
    proof (cases rule: lookup_cases [OF ok_links [OF assms(1)], of i])
      case (1 latest)
      with assms(2) x Inr that show thesis
        by (cases "tr = CommitFails") (auto simp: rollback_to_version_def Let_def draw_def)
    qed (use assms(2) x Inr that(1) in \<open>auto simp: rollback_to_version_def\<close>)
  qed
qed

lemma rollback_cases:
  assumes "package_env_ok E" and "packages_ok E d" and "rollback_package_version E tr i v comment by d = Some (d', r)"
  obtains e where "packages d' = packages d" "drawn d \<le> drawn d'" "r = Inl e"
  | t latest q where "rollback_target (package_key E) (packages d) i v = Some (Inr t)" "t \<in> set (packages d)"
      "latest \<in> set (packages d)" "packages d' = packages d @ [q]" "drawn d' = Suc (drawn d)" "files d' = files d"
      "pk_id q \<notin> pk_id ` set (packages d)"
      "q = rolled_back E d t latest v comment by \<and> (r = Inr q \<or> r = Inl (Failed tr)) \<or>
       q = rollback_version E d t latest \<and> r = Inl (Failed tr)"
proof -
  from assms(3) obtain d1 r1 where undo: "rollback_to_version E tr i v d = Some (d1, r1)"
    by (auto simp: rollback_package_version_def split: Option.bind_splits)
  show thesis
  proof (cases rule: rollback_to_cases [OF assms(2) undo])
    case (1 e)
    with undo assms(3) that(1) show thesis by (auto simp: rollback_package_version_def)
  next
    case (2 t latest)
    let ?p = "rollback_version E d t latest"
    let ?q = "rolled_back E d t latest v comment by"
    have t: "t \<in> set (packages d)" using rollback_found [OF ok_links [OF assms(2)] 2(1)] by simp
    have new: "pk_id ?p \<notin> pk_id ` set (packages d)" by (rule new_row [OF assms(1,2)]) (simp add: rollback_version_def)
    then have new': "pk_id ?q \<notin> pk_id ` set (packages d)" by (simp add: rolled_back_def)
    have rows: "packages d1 = packages d @ [?p]" "drawn d1 = Suc (drawn d)" "files d1 = files d"
      by (simp_all add: 2(4) add_package_def draw_def)
    have last: "replace_package ?q (packages d @ [?p]) = packages d @ [?q]"
      by (rule replace_last) (simp_all add: new rolled_back_def)
    show thesis
    proof (cases "tr = LaterFails")
      case True
      with assms(3) undo 2(3) have "d' = d1" "r = Inl (Failed tr)" by (auto simp: rollback_package_version_def Let_def)
      with that(2) [OF 2(1) t 2(2), of ?p] rows new show thesis by simp
    next
      case False
      with assms(3) undo 2(3) rows(1) last have "packages d' = packages d @ [?q]" "drawn d' = drawn d1" "files d' = files d1"
        "r = Inr ?q \<or> r = Inl (Failed tr)"
        by (auto simp: rollback_package_version_def Let_def rolled_back_def split: if_splits)
      with that(2) [OF 2(1) t 2(2), of ?q] rows new' show thesis by simp
    qed
  qed
qed

lemma version_cases:
  assumes "packages_ok E d" and "create_package_version E tr i c f comment by d = (d', r)"
  obtains e where "r = Inl e" "packages d' = packages d" "drawn d \<le> drawn d'" "\<And>u. u \<noteq> uri_of E (drawn d) \<Longrightarrow> files d' u = files d u"
  | cur d1 u where "cur \<in> set (packages d)" "package_key E i = Some (pk_id cur)" "store_package E tr c d = (d1, Inr u)"
      "r = Inr (next_version E d1 cur c (filename_or f ''package.aasx'') u by comment) \<or> r = Inl (Failed tr)"
      "packages d' = packages (add_package (next_version E d1 cur c (filename_or f ''package.aasx'') u by comment) (draw d1))"
      "drawn d' = Suc (drawn d1)" "files d' = files d1"
proof (cases "read_contents E c")
  case (Inl e)
  with assms(2) that(1) show thesis by (auto simp: create_package_version_def)
next
  case (Inr x)
  obtain d1 s where d1: "store_package E tr c d = (d1, s)" by (cases "store_package E tr c d")
  show thesis
  proof (cases s)
    case (Inl e)
    with d1 assms(2) Inr that(1) show thesis
      by (auto simp: create_package_version_def store_package_def Let_def split: if_splits)
  next
    case s: (Inr u)
    with d1 have stored: "packages d1 = packages d" "drawn d1 = Suc (drawn d)" "files d1 = (files d)(uri_of E (drawn d) \<mapsto> c)"
      by (auto simp: store_package_def Let_def split: if_splits)
    show thesis
    proof (cases rule: lookup_cases [OF ok_links [OF assms(1)], of i])
      case (1 cur)
      let ?p = "next_version E d1 cur c (filename_or f ''package.aasx'') u by comment"
      show thesis
      proof (cases "tr = CommitFails")
        case True
        with assms(2) Inr d1 s stored 1(3) that(1) show thesis
          by (auto simp: create_package_version_def create_version_def Let_def draw_def)
      next
        case False
        with assms(2) Inr d1 s stored 1(3) that(2) [OF 1(1,2) d1 [unfolded s]] show thesis
          by (auto simp: create_package_version_def create_version_def Let_def add_package_def draw_def split: if_splits)
      qed
    qed (use assms(2) Inr d1 s stored that(1) in \<open>auto simp: create_package_version_def create_version_def\<close>)
  qed
qed

lemma upload_cases:
  assumes "upload_package E tr c f d = (d', r)"
  obtains "packages d' = packages d" "drawn d \<le> drawn d'" "\<And>u. u \<noteq> uri_of E (drawn d) \<Longrightarrow> files d' u = files d u"
  | d1 u p where "store_package E tr c d = (d1, Inr u)" "d' = add_package p (draw d1)" "pk_id p = package_id_of E (drawn d1)"
      "pk_version p = 1" "pk_tags p = None" "pk_prev p = None" "pk_uri p = u" "pk_hash p = hash_of E c"
proof (cases "read_contents E c")
  case (Inl e)
  with assms that(1) show thesis by (simp add: upload_package_def)
next
  case (Inr x)
  obtain d1 s where d1: "store_package E tr c d = (d1, s)" by (cases "store_package E tr c d")
  show thesis
  proof (cases s)
    case (Inl e)
    with d1 assms Inr that(1) show thesis by (auto simp: upload_package_def store_package_def Let_def split: if_splits)
  next
    case s: (Inr u)
    show thesis
    proof (cases "tr = CommitFails")
      case True
      with d1 s assms Inr that(1) show thesis
        by (auto simp: upload_package_def store_package_def committed_def draw_def Let_def)
    next
      case False
      show thesis by (rule that(2) [OF d1 [unfolded s]])
        (use False assms Inr d1 s in \<open>auto simp: upload_package_def committed_def Let_def split: if_splits\<close>)
    qed
  qed
qed

lemma update_cases:
  assumes "packages_ok E d" and "update_package E tr i c f d = (d', r)"
  obtains "d' = d"
  | p p' d0 d1 u where "p \<in> set (packages d)" "pk_id p' = pk_id p" "pk_version p' = pk_version p" "pk_prev p' = pk_prev p"
      "pk_tags p' = pk_tags p" "delete_package_file tr (pk_uri p) d = (d0, Inr ())" "store_package E tr c d0 = (d1, Inr u)"
      "d' = d1\<lparr>packages := replace_package p' (packages d1)\<rparr>" "pk_uri p' = u" "pk_hash p' = hash_of E c"
  | "tr \<in> {StoreFails, CommitFails}" "packages d' = packages d" "drawn d \<le> drawn d'"
proof (cases "existing (package_key E) i (packages d)")
  case (Inl e)
  with assms(2) that(1) show thesis by (simp add: update_package_def)
next
  case (Inr p)
  show thesis
  proof (cases "read_contents E c")
    case (Inl e)
    with assms(2) Inr that(1) show thesis by (simp add: update_package_def)
  next
    case read: (Inr x)
    obtain d0 q where d0: "delete_package_file tr (pk_uri p) d = (d0, q)" by (cases "delete_package_file tr (pk_uri p) d")
    show thesis
    proof (cases q)
      case (Inl e)
      with d0 assms(2) Inr read that(1) show thesis by (auto simp: update_package_def delete_package_file_def split: if_splits)
    next
      case q: (Inr z)
      obtain d1 s where d1: "store_package E tr c d0 = (d1, s)" by (cases "store_package E tr c d0")
      have d0': "packages d0 = packages d" "drawn d0 = drawn d" using d0 q by (auto simp: delete_package_file_def split: if_splits)
      have d1': "packages d1 = packages d" "drawn d \<le> drawn d1"
        using d1 d0' by (auto simp: store_package_def Let_def split: if_splits)
      show thesis
      proof (cases s)
        case (Inl e)
        with d1 have "tr = StoreFails" by (auto simp: store_package_def Let_def split: if_splits)
        with d0 q d1 d1' Inl assms(2) Inr read that(3) show thesis by (simp add: update_package_def)
      next
        case s: (Inr u)
        let ?p' = "p\<lparr>pk_filename := filename_or f (pk_filename p), pk_uri := u, pk_size := size_of E c, pk_hash := hash_of E c,
          pk_shells := length (pc_shells x), pk_submodels := length (pc_submodels x), pk_cds := length (pc_cds x), pk_info := info_of x\<rparr>"
        have p: "p \<in> set (packages d)" using existing_row [OF ok_links [OF assms(1)] Inr] by simp
        have run: "(d', r) = committed tr d1 (d1\<lparr>packages := replace_package ?p' (packages d1)\<rparr>) ?p'"
          using d0 q d1 s assms(2) Inr read by (simp add: update_package_def Let_def)
        show thesis
        proof (cases "tr = CommitFails")
          case True
          with run d1' that(3) show thesis by (simp add: committed_def)
        next
          case False
          with run have "d' = d1\<lparr>packages := replace_package ?p' (packages d1)\<rparr>" by (simp add: committed_def split: if_splits)
          then show thesis by (intro that(2) [of p ?p' d0 d1 u]) (use p d0 q d1 s in simp_all)
        qed
      qed
    qed
  qed
qed

lemma delete_cases:
  assumes "packages_ok E d" and "delete_package E tr i d = (d', r)"
  obtains "d' = d"
  | p where "p \<in> set (packages d)" "packages d' = remove_package (pk_id p) (packages d)" "drawn d' = drawn d"
      "files d' = (files d)(pk_uri p := None)"
  | "tr = CommitFails" "packages d' = packages d" "drawn d' = drawn d"
proof (cases "existing (package_key E) i (packages d)")
  case (Inl e)
  with assms(2) that(1) show thesis by (simp add: delete_package_def)
next
  case (Inr p)
  have p: "p \<in> set (packages d)" using existing_row [OF ok_links [OF assms(1)] Inr] by simp
  show thesis
  proof (cases "tr = DeleteFails \<or> tr = CommitFails")
    case True
    with assms(2) Inr that(1,3) show thesis by (auto simp: delete_package_def delete_package_file_def)
  next
    case False
    with assms(2) Inr that(2) [OF p] show thesis by (auto simp: delete_package_def delete_package_file_def)
  qed
qed

lemma stored_ok: "packages_ok E d \<Longrightarrow> store_package E tr c d = (d1, r) \<Longrightarrow> packages_ok E d1 \<and> drawn d1 = Suc (drawn d)"
  using ok_later [of E d d1] by (auto simp: store_package_def Let_def split: if_splits)

lemma stored_rows: "store_package E tr c d = (d1, Inr u) \<Longrightarrow>
    packages d1 = packages d \<and> drawn d1 = Suc (drawn d) \<and> u = uri_of E (drawn d) \<and> files d1 = (files d)(u \<mapsto> c)"
  by (auto simp: store_package_def Let_def split: if_splits)

lemma version_ok:
  assumes "package_env_ok E" and "packages_ok E d" and "create_package_version E tr i c f comment by d = (d', r)"
  shows "packages_ok E d'"
proof (cases rule: version_cases [OF assms(2,3)])
  case (1 e)
  then show ?thesis using ok_later [OF assms(2)] by blast
next
  case (2 cur d1 u)
  have stored: "packages_ok E d1" "packages d1 = packages d" using stored_ok [OF assms(2) 2(3)] stored_rows [OF 2(3)] by simp_all
  have "1 \<le> pk_version cur" using ok_links [OF assms(2)] 2(1) by (simp add: links_ok_def fits_def)
  then have "packages_ok E (add_package (next_version E d1 cur c (filename_or f ''package.aasx'') u by comment) (draw d1))"
    by (intro ok_add(1) [OF assms(1) stored(1)]) (use 2(1) stored(2) in \<open>auto simp: next_version_def\<close>)
  then show ?thesis by (rule ok_later) (use 2(5,6) in \<open>simp_all add: draw_def add_package_def\<close>)
qed

lemma update_ok:
  assumes "packages_ok E d" and "update_package E tr i c f d = (d', r)"
  shows "packages_ok E d'"
proof (cases rule: update_cases [OF assms])
  case (2 p p' d0 d1 u)
  have "packages d0 = packages d \<and> drawn d0 = drawn d" using 2(6) by (auto simp: delete_package_file_def split: if_splits)
  with stored_rows [OF 2(7)] 2(8) show ?thesis by (intro ok_replace [OF assms(1) 2(1-5)]) auto
next
  case 3
  then show ?thesis using ok_later [OF assms(1)] by blast
qed (use assms(1) in simp)

lemma put_ok:
  assumes "package_env_ok E" and "packages_ok E d" and "put_package E tr i c f versioned comment by d = (d', r)"
  shows "packages_ok E d'"
  using assms version_ok update_ok by (cases versioned) (auto simp: put_package_def)

lemma added_ok:
  assumes "package_env_ok E" and "packages_ok E d" and "latest \<in> set (packages d)" and "packages d' = packages d @ [q]"
    and "drawn d' = Suc (drawn d)"
    and "q = rolled_back E d t latest v comment by \<or> q = rollback_version E d t latest"
  shows "packages_ok E d'"
proof -
  have "1 \<le> pk_version latest" using ok_links [OF assms(2)] assms(3) by (simp add: links_ok_def fits_def)
  then have "packages_ok E (add_package q (draw d))"
    by (intro ok_add(1) [OF assms(1,2)]) (use assms(3,6) in \<open>auto simp: rolled_back_def rollback_version_def\<close>)
  then show ?thesis by (rule ok_later) (use assms(4,5) in \<open>simp_all add: draw_def add_package_def\<close>)
qed

lemma package_step_ok:
  assumes "package_env_ok E" and "package_step E every d d'" and "packages_ok E d"
  shows "packages_ok E d'"
  using assms(2)
proof cases
  case (upload tr c f)
  show ?thesis
  proof (cases rule: upload_cases [OF prod.collapse [symmetric], of E tr c f d])
    case 1
    with upload ok_later [OF assms(3)] show ?thesis by simp
  next
    case (2 d1 u p)
    with ok_add(1) [OF assms(1) stored_ok [OF assms(3) 2(1), THEN conjunct1], of p] upload show ?thesis by simp
  qed
next
  case (put versioned tr i c f comment "by")
  show ?thesis unfolding put(1) by (rule put_ok [OF assms(1,3) prod.collapse [symmetric]])
next
  case (delete tr i)
  show ?thesis
  proof (cases rule: delete_cases [OF assms(3) prod.collapse [symmetric], of tr i])
    case (2 p)
    with delete show ?thesis by (intro ok_remove [OF assms(3), of _ "pk_id p"]) simp_all
  qed (use delete assms(3) ok_later [OF assms(3)] in simp_all)
next
  case (new_version tr i c f comment "by")
  show ?thesis unfolding new_version by (rule version_ok [OF assms(1,3) prod.collapse [symmetric]])
next
  case (rollback tr i v comment "by" r)
  show ?thesis
  proof (cases rule: rollback_cases [OF assms(1,3) rollback(2)])
    case 1
    with ok_later [OF assms(3)] show ?thesis by simp
  next
    case (2 t latest q)
    with added_ok [OF assms(1,3) 2(3-5)] show ?thesis by blast
  qed
next
  case (tag i v ts)
  with assms(3) show ?thesis by (simp add: tag_package_version_def)
qed

interpretation package_table: inductive_invariant
  "\<lambda>d. package_env_ok E \<and> no_packages d" "\<lambda>d d'. package_env_ok E \<and> package_step E every d d'" "packages_ok E"
  for E :: "'c package_env" and every
proof unfold_locales
  fix d :: "'c depot" assume "package_env_ok E \<and> no_packages d"
  then show "packages_ok E d" by (simp add: no_packages_def packages_ok_def links_ok_def)
next
  fix d d' :: "'c depot" assume "package_env_ok E \<and> package_step E every d d'" and "packages_ok E d"
  then show "packages_ok E d'" using package_step_ok by blast
qed

lemma reachable_packages:
  assumes "package_env_ok E" and "no_packages d0" and "(package_step E every)\<^sup>*\<^sup>* d0 d"
  shows "packages_ok E d"
  using package_table.reachable_inv [of E d0 every d] assms by simp

section \<open>A few packages\<close>

text \<open>Contents are numbers. \<open>one_package\<close>, then two versions of it.\<close>

definition sample_packages :: "nat package_env" where
  "sample_packages =
     \<lparr>read_package = (\<lambda>_. Inr \<lparr>pc_shells = [], pc_submodels = [], pc_cds = [], pc_files = []\<rparr>), hash_of = show_nat,
      size_of = id, package_id_of = (\<lambda>n. CHR ''p'' # show_nat n), uri_of = (\<lambda>n. CHR ''u'' # show_nat n), time_of = int,
      package_key = (\<lambda>i. if take 1 i = ''p'' then Some i else None)\<rparr>"

definition empty_depot :: "nat depot" where
  "empty_depot = \<lparr>packages = [], files = (\<lambda>_. None), drawn = 0, pk_bus = []\<rparr>"

definition one_package :: "nat depot" where
  "one_package = fst (upload_package sample_packages NoFault 5 None empty_depot)"

definition two_packages :: "nat depot" where
  "two_packages = fst (create_package_version sample_packages NoFault ''p1'' 6 None None None one_package)"

lemma sample_packages_ok: "package_env_ok sample_packages"
  by (simp add: package_env_ok_def sample_packages_def inj_def show_nat_inj)

lemma empty_depot_start: "no_packages empty_depot"
  by (simp add: no_packages_def empty_depot_def)

lemma packages_steps:
  "(package_step sample_packages every)\<^sup>*\<^sup>* empty_depot one_package"
  "(package_step sample_packages every)\<^sup>*\<^sup>* empty_depot two_packages"
proof -
  show one: "(package_step sample_packages every)\<^sup>*\<^sup>* empty_depot one_package"
    unfolding one_package_def by (rule r_into_rtranclp) (rule package_step.upload)
  show "(package_step sample_packages every)\<^sup>*\<^sup>* empty_depot two_packages"
    unfolding two_packages_def by (rule rtranclp.rtrancl_into_rtrancl [OF one]) (rule package_step.new_version)
qed

lemma two_packages_rows: "map pk_id (packages two_packages) = [''p1'', ''p3'']"
  by code_simp

lemma second_package: "\<exists>p \<in> set (packages two_packages). pk_id p = ''p3''"
proof -
  have "''p3'' \<in> set (map pk_id (packages two_packages))" unfolding two_packages_rows by simp
  then show ?thesis by auto
qed

lemma some_result: "(case r of Inl e \<Rightarrow> False | Inr x \<Rightarrow> True) \<Longrightarrow> \<exists>x. r = Inr x"
  by (cases r) simp_all

lemma some_state: "(case x of Some (d, Inr p) \<Rightarrow> True | _ \<Rightarrow> False) \<Longrightarrow> \<exists>d p. x = Some (d, Inr p)"
  by (cases x; cases "snd (the x)") (auto split: prod.splits)

section \<open>The history of versions\<close>

lemma history_result:
  assumes "links_ok key rows"
  obtains "key i = None" "list_versions key rows i = Some (Inl BadUuid)"
  | k where "key i = Some k" "k \<notin> pk_id ` set rows" "list_versions key rows i = Some (Inr [])"
  | p r x where "p \<in> set rows" "key i = Some (pk_id p)" "descends rows r p"
      "root_from key rows (pk_id p) (pk_id p) = Some (Inr (pk_id r))" "list_versions key rows i = Some x"
      "x = Inl MultipleResultsFound \<and> (\<exists>i. successor_of key i rows = Inl MultipleResultsFound) \<or>
       (\<exists>ws. x = Inr (version_of r # ws) \<and>
          map pv_version (version_of r # ws) = map (\<lambda>k. pk_version r + int k) [0..<Suc (length ws)])"
proof (cases rule: lookup_cases [OF assms, of i])
  case (1 p)
  from root_exists [OF assms 1(1)] obtain r where
    r: "descends rows r p" "root_from key rows (pk_id p) (pk_id p) = Some (Inr (pk_id r))" by blast
  from versions_end [OF assms, of r "[]"] descends_rows [OF r(1)] obtain x where
    x: "versions_from key rows (pk_id r) [] = Some x"
      "x = Inl MultipleResultsFound \<and> (\<exists>i. successor_of key i rows = Inl MultipleResultsFound) \<or>
       (\<exists>ws. x = Inr (version_of r # ws) \<and>
          map pv_version (version_of r # ws) = map (\<lambda>k. pk_version r + int k) [0..<Suc (length ws)])" by auto
  have "key i = key (pk_id p)" using own_key [OF assms 1(1)] 1(2) by simp
  from list_spelling [OF this, of rows] have "list_versions key rows i = Some x" using r(2) x(1) by (simp add: list_versions_def)
  from that(3) [OF 1(1,2) r this x(2)] show thesis .
next
  case (2 k)
  have "root_from key rows i i = Some (Inr i)" using 2(3) by (subst root_from.simps) simp
  moreover have "versions_from key rows i [] = Some (Inr [])" using 2(3) by (subst versions_from.simps) simp
  ultimately show thesis using that(2) 2(1,2) by (simp add: list_versions_def)
next
  case 3
  then have "root_from key rows i i = Some (Inl BadUuid)" by (subst root_from.simps) simp
  with that(1) 3(1) show thesis by (simp add: list_versions_def)
qed

text \<open>
  C30. The walks over the version history end: whatever happened to the packages, asking for the versions
  of any of them returns either the error of an ambiguous query or versions numbered one after the other
  (an id that is no UUID is an error of the database), and a rollback returns.
\<close>

theorem history_ends:
  assumes "package_env_ok E" and "no_packages d0" and "(package_step E True)\<^sup>*\<^sup>* d0 d"
  shows "(if package_key E i = None then list_versions (package_key E) (packages d) i = Some (Inl BadUuid)
     else \<exists>x. list_versions (package_key E) (packages d) i = Some x \<and> (x = Inl MultipleResultsFound \<or>
      (\<exists>vs n. x = Inr vs \<and> map pv_version vs = map (\<lambda>k. n + int k) [0..<length vs]))) \<and>
    (\<exists>x. rollback_package_version E tr i v comment by d = Some x)"
proof -
  note links = ok_links [OF reachable_packages [OF assms]]
  have returns: "\<exists>x. rollback_package_version E tr i v comment by d = Some x"
    if "\<exists>y. rollback_target (package_key E) (packages d) i v = Some y"
    using that by (auto simp: rollback_package_version_def rollback_to_version_def)
  show ?thesis
  proof (cases rule: history_result [OF links, of i])
    case (3 p r x)
    have r: "r \<in> set (packages d)" using descends_rows [OF 3(3)] by simp
    have "package_key E i = package_key E (pk_id p)" using own_key [OF links 3(1)] 3(2) by simp
    note same = list_spelling [OF this] rollback_spelling [OF this]
    from target_end [OF links r, of v] obtain y where "target_from (package_key E) (packages d) v (pk_id r) = Some y" by blast
    with 3(4,5) have "\<exists>y. rollback_target (package_key E) (packages d) i v = Some y"
      unfolding same by (cases x) (auto simp: rollback_target_def)
    moreover have "\<exists>vs n. x = Inr vs \<and> map pv_version vs = map (\<lambda>k. n + int k) [0..<length vs]"
      if "x \<noteq> Inl MultipleResultsFound" using 3(6) that by auto
    ultimately show ?thesis using 3(2,5) returns by auto
  qed (use returns in \<open>auto simp: rollback_target_def\<close>)
qed

theorem history_ends_witness:
  "(\<exists>x. list_versions (package_key sample_packages) (packages two_packages) ''p3'' = Some x) \<and>
   list_versions (package_key sample_packages) (packages two_packages) ''3'' = Some (Inl BadUuid)"
proof -
  have "package_key sample_packages ''p3'' = Some ''p3''" "package_key sample_packages ''3'' = None"
    by (simp_all add: sample_packages_def)
  with history_ends [OF sample_packages_ok empty_depot_start packages_steps(2), of "''p3''" NoFault 1 None None]
    history_ends [OF sample_packages_ok empty_depot_start packages_steps(2), of "''3''" NoFault 1 None None] show ?thesis
    by auto
qed

lemma at_most_one:
  "distinct (filter (\<lambda>x. x \<noteq> None) (map f xs)) \<Longrightarrow> length (filter (\<lambda>x. f x = Some i) xs) \<le> 1"
proof (induction xs)
  case (Cons a xs)
  show ?case
  proof (cases "f a = Some i")
    case True
    with Cons.prems have "filter (\<lambda>x. f x = Some i) xs = []" by (auto simp: filter_empty_conv image_iff)
    with True show ?thesis by simp
  qed (use Cons in \<open>auto split: if_splits\<close>)
qed simp

lemma one_at_most: "length (filter P rows) \<le> 1 \<Longrightarrow> one_or_none P rows \<noteq> Inl MultipleResultsFound"
  by (cases "filter P rows"; cases "tl (filter P rows)") (simp_all add: one_or_none_def)

text \<open>
  The history is complete and the same for every package in it, as long as no package was used twice
  to make a version: the versions listed for a package contain the package, and for the version it was
  made from the same versions are listed.
\<close>

lemma history_complete:
  assumes "package_env_ok E" and "no_packages d0" and "(package_step E True)\<^sup>*\<^sup>* d0 d"
    and "distinct (filter (\<lambda>x. x \<noteq> None) (map pk_prev (packages d)))" and "p \<in> set (packages d)"
  shows "\<exists>vs. list_versions (package_key E) (packages d) (pk_id p) = Some (Inr vs) \<and> version_of p \<in> set vs \<and>
    (\<forall>i. pk_prev p = Some i \<longrightarrow> list_versions (package_key E) (packages d) i = Some (Inr vs))"
proof -
  let ?rows = "packages d"
  let ?key = "package_key E"
  note links = ok_links [OF reachable_packages [OF assms(1-3)]]
  have linear: "successor_of ?key i ?rows \<noteq> Inl MultipleResultsFound" for i
  proof -
    have "length (filter (\<lambda>p. pk_prev p = Some k) ?rows) \<le> 1" for k by (rule at_most_one [OF assms(4)])
    then have "one_or_none (\<lambda>p. pk_prev p = Some k) ?rows \<noteq> Inl MultipleResultsFound" for k by (rule one_at_most)
    then show ?thesis by (simp add: successor_of_def split: option.split)
  qed
  obtain q r x where q: "q \<in> set ?rows" "pk_id q = pk_id p" "descends ?rows r q"
    and root: "root_from ?key ?rows (pk_id p) (pk_id p) = Some (Inr (pk_id r))"
    and x: "list_versions ?key ?rows (pk_id p) = Some x" "\<exists>vs. x = Inr vs"
  proof (cases rule: history_result [OF links, of "pk_id p"])
    case 1
    with own_key [OF links assms(5)] show ?thesis by simp
  next
    case (2 k)
    with own_key [OF links assms(5)] assms(5) show ?thesis by auto
  next
    case (3 q r x)
    have "pk_id q = pk_id p" using 3(2) own_key [OF links assms(5)] by simp
    with 3 linear that show ?thesis by metis
  qed
  then have r: "descends ?rows r p" using same_id [OF links q(1) assms(5)] by simp
  from x obtain vs where vs: "list_versions ?key ?rows (pk_id p) = Some (Inr vs)" by blast
  then have walk: "versions_from ?key ?rows (pk_id r) [] = Some (Inr vs)" using root by (simp add: list_versions_def)
  with versions_pass [OF links r, of "[]"] obtain us where "versions_from ?key ?rows (pk_id p) us = Some (Inr vs)" by auto
  with versions_end [OF links assms(5), of us] have "version_of p \<in> set vs" by auto
  moreover have "list_versions ?key ?rows i = Some (Inr vs)" if i: "pk_prev p = Some i" for i
  proof -
    from prev_ok [OF links assms(5) i] obtain z where z: "z \<in> set ?rows" "pk_id z = i" .
    with root_of_version [OF links assms(5) z(1)] i have "root_from ?key ?rows i i = root_from ?key ?rows (pk_id p) (pk_id p)" by simp
    with vs show ?thesis by (simp add: list_versions_def)
  qed
  ultimately show ?thesis using vs by blast
qed

lemma history_complete_witness:
  "\<exists>vs. list_versions (package_key sample_packages) (packages two_packages) ''p3'' = Some (Inr vs) \<and> list_versions (package_key sample_packages) (packages two_packages) ''p1'' = Some (Inr vs)"
proof -
  have distinct: "distinct (filter (\<lambda>x. x \<noteq> None) (map pk_prev (packages two_packages)))"
    and prev: "list_all (\<lambda>p. pk_id p = ''p3'' \<longrightarrow> pk_prev p = Some ''p1'') (packages two_packages)" by code_simp+
  from second_package obtain p where p: "p \<in> set (packages two_packages)" "pk_id p = ''p3''" by blast
  with prev have "pk_prev p = Some ''p1''" by (simp add: list_all_iff)
  with history_complete [OF sample_packages_ok empty_depot_start packages_steps(2) distinct p(1)] p(2) show ?thesis by auto
qed

text \<open>
  What a request does to the links: a row keeps its id and its previous version --- or loses it with the
  row of that version ---, and a new row has a new id.
\<close>

lemma row_origin:
  assumes "package_env_ok E" and "package_step E every d d'" and "packages_ok E d" and "y \<in> set (packages d')"
  shows "(\<exists>n \<ge> drawn d. pk_id y = package_id_of E n) \<or>
    (\<exists>x \<in> set (packages d). pk_id y = pk_id x \<and>
      (pk_prev y = pk_prev x \<or> (\<exists>i. pk_prev x = Some i \<and> i \<notin> pk_id ` set (packages d'))))"
proof -
  have added: ?thesis if "y \<in> set (packages d')" "packages d' = packages d @ [p]" "pk_id p = package_id_of E (Suc (drawn d))" for p
  proof (cases "y = p")
    case True
    with that(3) show ?thesis by (intro disjI1 exI [of _ "Suc (drawn d)"]) simp
  next
    case False
    with that(1,2) show ?thesis by auto
  qed
  have version: ?thesis if "create_package_version E tr i c f comment by d = (d', r)" for tr i c f comment "by" r
  proof (cases rule: version_cases [OF assms(3) that])
    case 1
    with assms(4) show ?thesis by auto
  next
    case (2 cur d1 u)
    let ?p = "next_version E d1 cur c (filename_or f ''package.aasx'') u by comment"
    have "packages d' = packages d @ [?p]" "pk_id ?p = package_id_of E (Suc (drawn d))"
      using 2(5) stored_rows [OF 2(3)] by (simp_all add: add_package_def draw_def next_version_def)
    with assms(4) show ?thesis by (rule added)
  qed
  have update: ?thesis if "update_package E tr i c f d = (d', r)" for tr i c f r
  proof (cases rule: update_cases [OF assms(3) that])
    case (2 p p' d0 d1 u)
    have "packages d1 = packages d" using 2(6) stored_rows [OF 2(7)] by (auto simp: delete_package_file_def split: if_splits)
    with assms(4) 2(8) replaced_rows(2) [OF 2(2) ok_links [OF assms(3)] 2(1), of y] have "y = p' \<or> y \<in> set (packages d)" by auto
    with 2(1,2,4) show ?thesis by metis
  qed (use assms(4) in auto)
  from assms(2) show ?thesis
  proof cases
    case (upload tr c f)
    show ?thesis
    proof (cases rule: upload_cases [OF prod.collapse [symmetric], of E tr c f d])
      case (2 d1 u p)
      have "packages d' = packages d @ [p]" "pk_id p = package_id_of E (Suc (drawn d))"
        using 2(2,3) upload stored_rows [OF 2(1)] by (simp_all add: add_package_def draw_def)
      with assms(4) show ?thesis by (rule added)
    qed (use assms(4) upload in auto)
  next
    case (put versioned tr i c f comment "by")
    show ?thesis
    proof (cases versioned)
      case True
      with put(1) show ?thesis by (intro version [of tr i c f comment "by" "snd (create_package_version E tr i c f comment by d)"]) (auto simp: put_package_def)
    next
      case False
      with put(1) show ?thesis by (intro update [of tr i c f "snd (update_package E tr i c f d)"]) (auto simp: put_package_def)
    qed
  next
    case (delete tr i)
    show ?thesis
    proof (cases rule: delete_cases [OF assms(3) prod.collapse [symmetric], of tr i])
      case (2 p)
      have rows: "packages d' = remove_package (pk_id p) (packages d)" using 2(2) delete by simp
      from removed_row [OF assms(4) [unfolded rows]] obtain x where
        x: "x \<in> set (packages d)" "y = (if pk_prev x = Some (pk_id p) then x\<lparr>pk_prev := None\<rparr> else x)" by blast
      have "pk_id p \<notin> pk_id ` set (packages d')" unfolding rows by (auto simp: remove_package_def)
      with x show ?thesis by (intro disjI2 bexI [of _ x]) auto
    qed (use assms(4) delete in auto)
  next
    case (new_version tr i c f comment "by")
    then show ?thesis by (intro version [of tr i c f comment "by" "snd (create_package_version E tr i c f comment by d)"]) simp
  next
    case (rollback tr i v comment "by" r)
    show ?thesis
    proof (cases rule: rollback_cases [OF assms(1,3) rollback(2)])
      case (2 t latest q)
      then have "pk_id q = package_id_of E (drawn d)" by (auto simp: rolled_back_def rollback_version_def)
      with 2(4) assms(4) show ?thesis by auto
    qed (use assms(4) in auto)
  next
    case (tag i v ts)
    with assms(4) show ?thesis by (auto simp: tag_package_version_def)
  qed
qed

lemma drawn_mono: "package_env_ok E \<Longrightarrow> package_step E every d d' \<Longrightarrow> packages_ok E d \<Longrightarrow> drawn d \<le> drawn d'"
proof -
  assume env: "package_env_ok E" and step: "package_step E every d d'" and ok: "packages_ok E d"
  have version: "drawn d \<le> drawn d'" if "create_package_version E tr i c f comment by d = (d', r)" for tr i c f comment "by" r
    by (cases rule: version_cases [OF ok that]) (auto dest: stored_rows)
  have update: "drawn d \<le> drawn d'" if "update_package E tr i c f d = (d', r)" for tr i c f r
    by (cases rule: update_cases [OF ok that]) (auto dest!: stored_rows simp: delete_package_file_def split: if_splits)
  from step show ?thesis
  proof cases
    case (upload tr c f)
    then show ?thesis
      by (cases rule: upload_cases [OF prod.collapse [symmetric], of E tr c f d]) (auto simp: add_package_def draw_def dest: stored_rows)
  next
    case (put versioned tr i c f comment "by")
    show ?thesis
    proof (cases versioned)
      case True
      with put(1) show ?thesis by (intro version [of tr i c f comment "by" "snd (create_package_version E tr i c f comment by d)"]) (auto simp: put_package_def)
    next
      case False
      with put(1) show ?thesis by (intro update [of tr i c f "snd (update_package E tr i c f d)"]) (auto simp: put_package_def)
    qed
  next
    case (delete tr i)
    then show ?thesis by (cases rule: delete_cases [OF ok prod.collapse [symmetric], of tr i]) auto
  next
    case (new_version tr i c f comment "by")
    then show ?thesis by (intro version [of tr i c f comment "by" "snd (create_package_version E tr i c f comment by d)"]) simp
  next
    case (rollback tr i v comment "by" r)
    show ?thesis by (cases rule: rollback_cases [OF env ok rollback(2)]) auto
  qed (simp add: tag_package_version_def)
qed

text \<open>The package \<open>a\<close> was made from \<open>k\<close>, which stays so while both are there.\<close>

definition made_from :: "'c package_env \<Rightarrow> string \<Rightarrow> string \<Rightarrow> 'c depot \<Rightarrow> bool" where
  "made_from E k a d =
     (packages_ok E d \<and> (\<exists>n < drawn d. k = package_id_of E n) \<and> (\<exists>n < drawn d. a = package_id_of E n) \<and>
      (k \<in> pk_id ` set (packages d) \<and> a \<in> pk_id ` set (packages d) \<longrightarrow>
         (\<exists>p \<in> set (packages d). pk_id p = a \<and> pk_prev p = Some k)))"

lemma made_from_step:
  assumes "package_env_ok E" and "package_step E every d d'" and "made_from E k a d"
  shows "made_from E k a d'"
proof -
  from assms(3) have ok: "packages_ok E d" and old: "\<exists>n < drawn d. k = package_id_of E n" "\<exists>n < drawn d. a = package_id_of E n"
    and link: "k \<in> pk_id ` set (packages d) \<Longrightarrow> a \<in> pk_id ` set (packages d) \<Longrightarrow>
      \<exists>p \<in> set (packages d). pk_id p = a \<and> pk_prev p = Some k"
    by (simp_all add: made_from_def)
  note later = drawn_later [OF drawn_mono [OF assms(1,2) ok]]
  have inj: "package_id_of E m = package_id_of E n \<Longrightarrow> m = n" for m n
    using assms(1) by (simp add: package_env_ok_def inj_eq)
  have origin: "\<exists>x \<in> set (packages d). pk_id y = pk_id x \<and>
      (pk_prev y = pk_prev x \<or> (\<exists>i. pk_prev x = Some i \<and> i \<notin> pk_id ` set (packages d')))"
    if y: "y \<in> set (packages d')" and drawn: "\<exists>n < drawn d. pk_id y = package_id_of E n" for y
  proof -
    have "\<not> (\<exists>n \<ge> drawn d. pk_id y = package_id_of E n)"
    proof
      assume "\<exists>n \<ge> drawn d. pk_id y = package_id_of E n"
      then obtain n where "drawn d \<le> n" "pk_id y = package_id_of E n" by blast
      moreover from drawn obtain m where "m < drawn d" "pk_id y = package_id_of E m" by blast
      ultimately show False using inj [of m n] by simp
    qed
    with row_origin [OF assms(1,2) ok y] show ?thesis by blast
  qed
  have "\<exists>p \<in> set (packages d'). pk_id p = a \<and> pk_prev p = Some k"
    if there: "k \<in> pk_id ` set (packages d')" "a \<in> pk_id ` set (packages d')"
  proof -
    from there obtain z y where z: "z \<in> set (packages d')" "pk_id z = k" and y: "y \<in> set (packages d')" "pk_id y = a" by blast
    from origin [OF z(1)] z(2) old(1) have k: "k \<in> pk_id ` set (packages d)" by (metis imageI)
    from origin [OF y(1)] y(2) old(2) obtain x where x: "x \<in> set (packages d)" "pk_id x = a"
      "pk_prev y = pk_prev x \<or> (\<exists>i. pk_prev x = Some i \<and> i \<notin> pk_id ` set (packages d'))" by metis
    then have "a \<in> pk_id ` set (packages d)" by (metis imageI)
    from link [OF k this] obtain p where p: "p \<in> set (packages d)" "pk_id p = a" "pk_prev p = Some k" by blast
    have "p = x" using same_id [OF ok_links [OF ok] p(1) x(1)] p(2) x(2) by simp
    with p(3) x(3) there(1) have "pk_prev y = Some k" by auto
    with y show ?thesis by blast
  qed
  then show ?thesis
    using package_step_ok [OF assms(1,2) ok] later [OF old(1)] later [OF old(2)] by (simp add: made_from_def)
qed

lemma made_from_run:
  "(package_step E every)\<^sup>*\<^sup>* d d' \<Longrightarrow> package_env_ok E \<Longrightarrow> made_from E k a d \<Longrightarrow> made_from E k a d'"
  by (induction rule: rtranclp_induct) (auto intro: made_from_step)

lemma version_made:
  assumes "package_env_ok E" and "packages_ok E d" and "create_package_version E tr i c f comment by d = (d', Inr p)"
    and "package_key E i = Some k"
  shows "made_from E k (pk_id p) d'" and "\<exists>n \<ge> drawn d. pk_id p = package_id_of E n"
proof -
  obtain cur d1 u where cur: "cur \<in> set (packages d)" "package_key E i = Some (pk_id cur)" "store_package E tr c d = (d1, Inr u)"
      "p \<in> set (packages d')" "pk_prev p = Some (pk_id cur)" "pk_id p = package_id_of E (Suc (drawn d))" "drawn d' = Suc (Suc (drawn d))"
  proof (cases rule: version_cases [OF assms(2,3)])
    case (2 cur d1 u)
    note stored = stored_rows [OF 2(3)]
    have p: "p = next_version E d1 cur c (filename_or f ''package.aasx'') u by comment" using 2(4) by simp
    from that [OF 2(1-3)] 2(5,6) stored p show thesis by (simp add: add_package_def draw_def next_version_def)
  qed simp
  have ok': "packages_ok E d'" by (rule version_ok [OF assms(1-3)])
  have "\<exists>n < drawn d. pk_id cur = package_id_of E n" using assms(2) cur(1) by (simp add: packages_ok_def)
  then have "\<exists>n < drawn d'. pk_id cur = package_id_of E n" by (rule drawn_later [rotated]) (simp add: cur(7))
  moreover have "k = pk_id cur" using cur(2) assms(4) by simp
  ultimately show "made_from E k (pk_id p) d'" unfolding made_from_def using ok' cur(4-7) by auto
  show "\<exists>n \<ge> drawn d. pk_id p = package_id_of E n" using cur(6) by (intro exI [of _ "Suc (drawn d)"]) simp
qed

text \<open>Where two packages were made from one, every walk through it is stuck.\<close>

lemma fork_stuck:
  assumes "links_ok key rows" and "p \<in> set rows" and "q \<in> set rows" and "p \<noteq> q" and "cur \<in> set rows"
    and "pk_prev p = Some (pk_id cur)" and "pk_prev q = Some (pk_id cur)" and "x \<in> {cur, p, q}"
  shows "list_versions key rows (pk_id x) = Some (Inl MultipleResultsFound)"
proof -
  have fork: "successor_of key (pk_id cur) rows = Inl MultipleResultsFound"
  proof (cases rule: successor_cases [where key = key and i = "pk_id cur" and rows = rows, OF own_key [OF assms(1,5)]])
    case 1
    with assms(2,6) show ?thesis by blast
  next
    case (2 x)
    with assms(2-4,6,7) show ?thesis by blast
  qed
  from root_exists [OF assms(1,5)] obtain r where
    r: "descends rows r cur" "root_from key rows (pk_id cur) (pk_id cur) = Some (Inr (pk_id r))" by blast
  have "versions_from key rows (pk_id cur) us = Some (Inl MultipleResultsFound)" for us
    using fork lookup [OF assms(1,5)] by (subst versions_from.simps) simp
  with versions_pass [OF assms(1) r(1), of "[]"]
  have walk: "versions_from key rows (pk_id r) [] = Some (Inl MultipleResultsFound)" by auto
  have "root_from key rows (pk_id x) (pk_id x) = Some (Inr (pk_id r))"
    using assms(8) r(2) root_of_version [OF assms(1,2,5,6)] root_of_version [OF assms(1,3,5,7)] by auto
  with walk show ?thesis by (simp add: list_versions_def)
qed


definition forked_packages :: "nat depot" where
  "forked_packages = fst (create_package_version sample_packages NoFault ''p1'' 7 None None None two_packages)"


text \<open>Deleting one of the two versions, or the package itself, repairs the history.\<close>

lemma deletion_repairs_history:
  "\<forall>i \<in> {''p1'', ''p3'', ''p5''}. \<exists>vs.
     list_versions (package_key sample_packages)
       (packages (fst (delete_package sample_packages NoFault i forked_packages))) (if i = ''p3'' then ''p5'' else ''p3'') = Some (Inr vs)"
proof -
  have "list_all (\<lambda>i. case list_versions (package_key sample_packages)
       (packages (fst (delete_package sample_packages NoFault i forked_packages))) (if i = ''p3'' then ''p5'' else ''p3'') of
      Some (Inr vs) \<Rightarrow> True | _ \<Rightarrow> False) [''p1'', ''p3'', ''p5'']" by code_simp
  then show ?thesis by (auto split: option.splits sum.splits)
qed

section \<open>The files\<close>

definition files_ok :: "'c package_env \<Rightarrow> 'c depot \<Rightarrow> bool" where
  "files_ok E d =
     (distinct (map pk_uri (packages d)) \<and>
      (\<forall>p \<in> set (packages d). (\<exists>k < drawn d. pk_uri p = uri_of E k) \<and>
         (\<exists>c. files d (pk_uri p) = Some c \<and> pk_hash p = hash_of E c)))"

lemma fresh_uri:
  assumes "package_env_ok E" and "files_ok E d" and "p \<in> set (packages d)"
  shows "pk_uri p \<noteq> uri_of E (drawn d)"
  using assms by (fastforce simp: files_ok_def package_env_ok_def inj_eq)

lemma files_unchanged:
  assumes "package_env_ok E" and "files_ok E d" and "packages d' = packages d" and "drawn d \<le> drawn d'"
    and "\<And>u. u \<noteq> uri_of E (drawn d) \<Longrightarrow> files d' u = files d u"
  shows "files_ok E d'"
proof -
  have "\<exists>k < drawn d'. pk_uri x = uri_of E k" "files d' (pk_uri x) = files d (pk_uri x)" if "x \<in> set (packages d)" for x
    using that assms(2) drawn_later [OF assms(4)] assms(5) fresh_uri [OF assms(1,2) that] by (auto simp: files_ok_def)
  with assms(2,3) show ?thesis by (simp add: files_ok_def)
qed

lemma files_stored:
  assumes "package_env_ok E" and "files_ok E d" and "store_package E tr c d = (d1, Inr u)"
  shows "files_ok E d1" and "u \<notin> pk_uri ` set (packages d1)" and "files d1 u = Some c" and "\<exists>k < drawn d1. u = uri_of E k"
proof -
  note d1 = stored_rows [OF assms(3)]
  show "files_ok E d1" by (rule files_unchanged [OF assms(1,2)]) (use d1 in auto)
  show "u \<notin> pk_uri ` set (packages d1)" using d1 fresh_uri [OF assms(1,2)] by (metis imageE)
  show "files d1 u = Some c" "\<exists>k < drawn d1. u = uri_of E k" using d1 by auto
qed

lemma files_added:
  assumes "files_ok E d1" and "u \<notin> pk_uri ` set (packages d1)" and "files d1 u = Some c" and "\<exists>k < drawn d1. u = uri_of E k"
    and "pk_uri p = u" and "pk_hash p = hash_of E c" and "packages d' = packages d1 @ [p]" and "files d' = files d1"
    and "drawn d1 \<le> drawn d'"
  shows "files_ok E d'"
proof -
  have "\<exists>k < drawn d'. pk_uri x = uri_of E k" if "x \<in> set (packages d')" for x
  proof (cases "x = p")
    case True
    with drawn_later [OF assms(9,4)] assms(5) show ?thesis by simp
  next
    case False
    with that assms(1,7) have "\<exists>k < drawn d1. pk_uri x = uri_of E k" by (simp add: files_ok_def)
    then show ?thesis by (rule drawn_later [OF assms(9)])
  qed
  with assms show ?thesis by (simp add: files_ok_def)
qed

lemma files_version:
  assumes "package_env_ok E" and "packages_ok E d" and "files_ok E d" and "create_package_version E tr i c f comment by d = (d', r)"
  shows "files_ok E d'"
proof (cases rule: version_cases [OF assms(2,4)])
  case (1 e)
  then show ?thesis by (intro files_unchanged [OF assms(1,3)]) auto
next
  case (2 cur d1 u)
  show ?thesis
    by (rule files_added [OF files_stored [OF assms(1,3) 2(3)]]) (use 2(5-7) in \<open>auto simp: next_version_def add_package_def draw_def\<close>)
qed

lemma files_update:
  assumes "package_env_ok E" and "packages_ok E d" and "files_ok E d" and "update_package E tr i c f d = (d', r)"
    and "tr \<notin> {StoreFails, CommitFails}"
  shows "files_ok E d'"
proof (cases rule: update_cases [OF assms(2,4)])
  case (2 p p' d0 d1 u)
  have d0: "packages d0 = packages d" "drawn d0 = drawn d" "files d0 = (files d)(pk_uri p := None)"
    using 2(6) by (auto simp: delete_package_file_def split: if_splits)
  have d1: "packages d1 = packages d" "drawn d1 = Suc (drawn d)" "u = uri_of E (drawn d)"
    "files d1 = (files d)(pk_uri p := None, u \<mapsto> c)"
    using stored_rows [OF 2(7)] d0 by auto
  note rows = replaced_rows(2) [OF 2(2) ok_links [OF assms(2)] 2(1)]
  have old: "distinct (map pk_uri (packages d))" "inj_on pk_uri (set (packages d))" using assms(3) by (simp_all add: files_ok_def distinct_map)
  have others: "files d1 (pk_uri x) = files d (pk_uri x)" if "x \<in> set (packages d)" "x \<noteq> p" for x
    using that fresh_uri [OF assms(1,3) that(1)] inj_onD [OF old(2) _ that(1) 2(1)] d1(3,4) by auto
  have "map pk_uri (replace_package p' (packages d)) = map (\<lambda>x. if x = p then u else pk_uri x) (packages d)"
    unfolding replace_package_def map_map
  proof (rule map_cong [OF refl])
    fix x assume "x \<in> set (packages d)"
    with 2(2,9) same_id [OF ok_links [OF assms(2)] _ 2(1), of x] show
      "(pk_uri \<circ> (\<lambda>q. if pk_id q = pk_id p' then p' else q)) x = (if x = p then u else pk_uri x)" by auto
  qed
  moreover have "inj_on (\<lambda>x. if x = p then u else pk_uri x) (set (packages d))"
    using old(2) fresh_uri [OF assms(1,3)] d1(3) unfolding inj_on_def by metis
  ultimately have "distinct (map pk_uri (replace_package p' (packages d)))"
    using ok_links [OF assms(2)] by (simp add: distinct_map links_ok_def)
  moreover have "(\<exists>k < Suc (drawn d). pk_uri x = uri_of E k) \<and> (\<exists>c. files d1 (pk_uri x) = Some c \<and> pk_hash x = hash_of E c)"
    if "x \<in> set (replace_package p' (packages d))" for x
  proof (cases "x = p'")
    case True
    with 2(9,10) d1(3,4) show ?thesis by auto
  next
    case False
    with that rows have x: "x \<in> set (packages d)" "x \<noteq> p" by auto
    from assms(3) x(1) have "\<exists>k < drawn d. pk_uri x = uri_of E k" "\<exists>c. files d (pk_uri x) = Some c \<and> pk_hash x = hash_of E c"
      by (simp_all add: files_ok_def)
    with others [OF x] drawn_later [of "drawn d" "Suc (drawn d)"] show ?thesis by simp
  qed
  ultimately show ?thesis using 2(8) d1(1,2) by (simp add: files_ok_def)
qed (use assms(3,5) in auto)

lemma files_delete:
  assumes "packages_ok E d" and "files_ok E d" and "delete_package E tr i d = (d', r)" and "tr \<noteq> CommitFails"
  shows "files_ok E d'"
proof (cases rule: delete_cases [OF assms(1,3)])
  case (2 p)
  have inj: "inj_on pk_uri (set (packages d))" using assms(2) by (simp add: files_ok_def distinct_map)
  have "map pk_uri (packages d') = map pk_uri (filter (\<lambda>x. pk_id x \<noteq> pk_id p) (packages d))"
    unfolding 2(2) by (auto simp: remove_package_def)
  then have "distinct (map pk_uri (packages d'))" using assms(2) by (simp add: files_ok_def distinct_map_filter)
  moreover have "(\<exists>k < drawn d'. pk_uri q = uri_of E k) \<and> (\<exists>c. files d' (pk_uri q) = Some c \<and> pk_hash q = hash_of E c)"
    if "q \<in> set (packages d')" for q
  proof -
    from removed_row [OF that [unfolded 2(2)]] obtain x where x: "x \<in> set (packages d)" "pk_id x \<noteq> pk_id p"
      "pk_uri q = pk_uri x" "pk_hash q = pk_hash x" by auto
    with 2(1) inj have "pk_uri x \<noteq> pk_uri p" by (auto dest: inj_onD)
    with x assms(2) 2(3,4) show ?thesis by (auto simp: files_ok_def)
  qed
  ultimately show ?thesis by (simp add: files_ok_def)
qed (use assms(2,4) in auto)

lemma files_step:
  assumes "package_env_ok E" and "package_step E False d d'" and "packages_ok E d" and "files_ok E d"
  shows "files_ok E d'"
  using assms(2)
proof cases
  case (upload tr c f)
  show ?thesis
  proof (cases rule: upload_cases [OF prod.collapse [symmetric], of E tr c f d])
    case 1
    with upload show ?thesis by (intro files_unchanged [OF assms(1,4)]) auto
  next
    case (2 d1 u p)
    show ?thesis
      by (rule files_added [OF files_stored [OF assms(1,4) 2(1)]]) (use 2 upload in \<open>auto simp: add_package_def draw_def\<close>)
  qed
next
  case (put versioned tr i c f comment "by")
  show ?thesis
  proof (cases versioned)
    case True
    with put(1) show ?thesis
      by (intro files_version [OF assms(1,3,4), of tr i c f comment "by" _ "snd (create_package_version E tr i c f comment by d)"]) (auto simp: put_package_def)
  next
    case False
    with put show ?thesis by (intro files_update [OF assms(1,3,4), of tr i c f _ "snd (update_package E tr i c f d)"]) (auto simp: put_package_def)
  qed
next
  case (delete tr i)
  then show ?thesis by (intro files_delete [OF assms(3,4), of tr i _ "snd (delete_package E tr i d)"]) auto
next
  case (new_version tr i c f comment "by")
  then show ?thesis by (intro files_version [OF assms(1,3,4), of tr i c f comment "by" _ "snd (create_package_version E tr i c f comment by d)"]) auto
next
  case (tag i v ts)
  with assms(4) show ?thesis by (simp add: tag_package_version_def)
qed simp

interpretation package_files: inductive_invariant
  "\<lambda>d. package_env_ok E \<and> no_packages d" "\<lambda>d d'. package_env_ok E \<and> package_step E False d d'"
  "\<lambda>d. packages_ok E d \<and> files_ok E d" for E :: "'c package_env"
proof unfold_locales
  fix d :: "'c depot" assume "package_env_ok E \<and> no_packages d"
  then show "packages_ok E d \<and> files_ok E d" by (simp add: no_packages_def packages_ok_def links_ok_def files_ok_def)
next
  fix d d' :: "'c depot" assume "package_env_ok E \<and> package_step E False d d'" and "packages_ok E d \<and> files_ok E d"
  then show "packages_ok E d' \<and> files_ok E d'" using package_step_ok files_step by blast
qed

lemma existing_self: "links_ok key rows \<Longrightarrow> p \<in> set rows \<Longrightarrow> existing key (pk_id p) rows = Inr p"
  by (simp add: existing_def lookup)

lemma download_missing:
  "links_ok (package_key E) (packages d) \<Longrightarrow> p \<in> set (packages d) \<Longrightarrow> files d (pk_uri p) = None \<Longrightarrow>
   download_package E (pk_id p) d = (d, Inl FileMissing)"
  by (simp add: download_package_def existing_self retrieve_package_def)



text \<open>
  C28. A rollback shares the file of the version it goes back to, and a file is deleted with the first of
  its packages: once the version that was rolled back to is deleted, the new version cannot be downloaded.
\<close>

theorem rolled_back_file_lost:
  assumes "package_env_ok E" and "no_packages d0" and "(package_step E True)\<^sup>*\<^sup>* d0 d"
    and "rollback_target (package_key E) (packages d) i v = Some (Inr t)"
    and "rollback_package_version E tr i v comment by d = Some (d1, Inr p)"
  shows "\<exists>d2. delete_package E NoFault (pk_id t) d1 = (d2, Inr ()) \<and>
    download_package E (pk_id p) d2 = (d2, Inl FileMissing)"
proof -
  note ok = reachable_packages [OF assms(1-3)]
  from rollback_cases [OF assms(1) ok assms(5)] assms(4) obtain latest where
    t: "t \<in> set (packages d)" and p: "p = rolled_back E d t latest v comment by" "packages d1 = packages d @ [p]"
      "pk_id p \<notin> pk_id ` set (packages d)" by auto
  have ok1: "packages_ok E d1" using package_step_ok [OF assms(1) package_step.rollback [OF TrueI assms(5)] ok] .
  have "existing (package_key E) (pk_id t) (packages d1) = Inr t"
    using existing_self [OF ok_links [OF ok1], of t] t p(2) by simp
  then obtain d2 where d2: "delete_package E NoFault (pk_id t) d1 = (d2, Inr ())"
    "packages d2 = remove_package (pk_id t) (packages d1)" "files d2 (pk_uri t) = None"
    by (simp add: delete_package_def delete_package_file_def)
  have ok2: "packages_ok E d2"
    using package_step_ok [OF assms(1) package_step.delete [of True NoFault E d1 "pk_id t"] ok1] d2(1) by simp
  have "pk_id p \<noteq> pk_id t" "p \<in> set (packages d1)" using p(2,3) t by auto
  from kept_row [OF this(2,1)] d2(2) obtain q where q: "q \<in> set (packages d2)" "pk_id q = pk_id p" "pk_uri q = pk_uri p"
    by (metis (no_types, lifting) package.select_convs(1,3) package.surjective package.update_convs(13))
  have "pk_uri p = pk_uri t" by (simp add: p(1) rolled_back_def rollback_version_def)
  with d2(3) q download_missing [OF ok_links [OF ok2] q(1)] show ?thesis using d2(1) by simp
qed

theorem rolled_back_file_lost_witness:
  "\<exists>d1 d2 p. rollback_package_version sample_packages NoFault ''p3'' 1 None None two_packages = Some (d1, Inr p) \<and>
     fst (delete_package sample_packages NoFault ''p1'' d1) = d2 \<and>
     snd (download_package sample_packages (pk_id p) d2) = Inl FileMissing"
proof -
  let ?target = "rollback_target (package_key sample_packages) (packages two_packages) ''p3'' 1"
  have "map_option (map_sum id pk_id) ?target = Some (Inr ''p1'')" by code_simp
  then obtain t where t: "?target = Some (Inr t)" "pk_id t = ''p1''" by (cases ?target; cases "the ?target") auto
  have "case rollback_package_version sample_packages NoFault ''p3'' 1 None None two_packages of Some (d, Inr p) \<Rightarrow> True | _ \<Rightarrow> False"
    by code_simp
  from some_state [OF this] obtain d1 p where
    p: "rollback_package_version sample_packages NoFault ''p3'' 1 None None two_packages = Some (d1, Inr p)" by blast
  from rolled_back_file_lost [OF sample_packages_ok empty_depot_start packages_steps(2) t(1) p] t(2) p show ?thesis by auto
qed

text \<open>
  Tags cannot be set and cannot be looked up: both requests end in an error of the server.
\<close>

lemma tags_never_work:
  assumes "package_env_ok E" and "no_packages d0" and "(package_step E True)\<^sup>*\<^sup>* d0 d"
  shows "snd (tag_package_version i v ts d) = Inl (Crash TypeError) \<and>
    get_version_by_tag E i tag d = Some (Inl (if package_key E i = None then BadUuid else Crash TypeError))"
proof -
  note links = ok_links [OF reachable_packages [OF assms]]
  have none: "find (\<lambda>q. case pk_tags q of None \<Rightarrow> False | Some ts \<Rightarrow> tag \<in> set ts) ps = None" if "set ps \<subseteq> set (packages d)" for ps
    using that links by (auto simp: find_None_iff links_ok_def fits_def split: option.splits)
  have "get_version_by_tag E i tag d = Some (Inl (if package_key E i = None then BadUuid else Crash TypeError))"
  proof (cases rule: lookup_cases [OF links, of i])
    case (1 p)
    from ancestors_end [OF links 1(1)] obtain ps where "ancestors (package_key E) (packages d) p = Some (Inr ps)" "set ps \<subseteq> set (packages d)"
      "\<not> given (pk_prev (last ps))" by blast
    with 1(2,3) none show ?thesis by (simp add: get_version_by_tag_def)
  qed (simp_all add: get_version_by_tag_def)
  then show ?thesis by (simp add: tag_package_version_def)
qed

lemma tags_never_work_witness:
  "get_version_by_tag sample_packages ''p3'' ''stable'' two_packages = Some (Inl (Crash TypeError))"
proof -
  have "package_key sample_packages ''p3'' \<noteq> None" by (simp add: sample_packages_def)
  with tags_never_work [where i = "''p3''" and tag = "''stable''", OF sample_packages_ok empty_depot_start packages_steps(2)] show ?thesis by simp
qed

end
