(* ===== verification/Mqtt.thy ===== *)
theory Mqtt
  imports ShellState
begin

text \<open>
  Messages that arrive by MQTT (\<open>src/titan/connectors/mqtt_subscriber.py\<close>): the registry of handlers, the
  dispatch of a message, and the handlers for values of elements and for commands. The connection is I/O.
  Topics have no line breaks, and patterns no other characters that are special in regular expressions.
\<close>

record mqtt_message =
  m_topic :: string
  m_payload :: "nat list"

section \<open>Handlers\<close>

text \<open>What a handler leaves, and whether it raised an exception.\<close>

type_synonym 's mqtt_step = "'s world \<Rightarrow> 's world \<times> bool"

text \<open>A command gets the entity, its id and the payload.\<close>

datatype 's mqtt_handler =
    ElementValueHandler
  | CommandHandler "string \<Rightarrow> (string \<Rightarrow> string \<Rightarrow> json \<Rightarrow> 's mqtt_step) option"

text \<open>The pattern as a regular expression: \<open>+\<close> for \<open>[^/]+\<close>, \<open>#\<close> for \<open>.*\<close>.\<close>

fun topic_matches :: "string \<Rightarrow> string \<Rightarrow> bool" where
  "topic_matches [] t = (t = [])"
| "topic_matches (p # ps) [] = (p = CHR ''#'' \<and> topic_matches ps [])"
| "topic_matches (p # ps) (c # t) =
     (if p = CHR ''#'' then topic_matches ps (c # t) \<or> topic_matches (p # ps) t
      else if p = CHR ''+'' then c \<noteq> CHR ''/'' \<and> (topic_matches ps t \<or> topic_matches (p # ps) t)
      else p = c \<and> topic_matches ps t)"

type_synonym 's mqtt_registry = "(string \<times> 's mqtt_handler) list"

definition register_handler :: "string \<Rightarrow> 's mqtt_handler \<Rightarrow> 's mqtt_registry \<Rightarrow> 's mqtt_registry" where
  "register_handler pattern h reg = reg @ [(pattern, h)]"

definition get_handlers :: "string \<Rightarrow> 's mqtt_registry \<Rightarrow> 's mqtt_handler list" where
  "get_handlers topic reg = map snd (filter (\<lambda>(p, h). topic_matches p topic) reg)"

definition create_subscriber :: "(string \<Rightarrow> (string \<Rightarrow> string \<Rightarrow> json \<Rightarrow> 's mqtt_step) option) \<Rightarrow> 's mqtt_registry" where
  "create_subscriber commands =
     register_handler ''titan/+/+/command/#'' (CommandHandler commands)
       (register_handler ''titan/element/+/#'' ElementValueHandler
         (register_handler ''titan/element/+/+/value'' ElementValueHandler []))"

section \<open>Values of elements\<close>

text \<open>Up to a character; \<open>None\<close> without it.\<close>

definition cut :: "char \<Rightarrow> string \<Rightarrow> (string \<times> string) option" where
  "cut c s = (case dropWhile (\<lambda>x. x \<noteq> c) s of [] \<Rightarrow> None | _ # t \<Rightarrow> Some (takeWhile (\<lambda>x. x \<noteq> c) s, t))"

definition without_prefix :: "string \<Rightarrow> string \<Rightarrow> string option" where
  "without_prefix p s = (if take (length p) s = p then Some (drop (length p) s) else None)"

definition without_suffix :: "string \<Rightarrow> string \<Rightarrow> string option" where
  "without_suffix p s =
     (if length p \<le> length s \<and> drop (length s - length p) s = p then Some (take (length s - length p) s) else None)"

text \<open>The segment of the submodel and the path: \<open>^titan/element/([^/]+)/(.+)/value$\<close>.\<close>

definition element_topic :: "string \<Rightarrow> (string \<times> string) option" where
  "element_topic topic =
     Option.bind (without_prefix ''titan/element/'' topic) (\<lambda>rest.
     Option.bind (cut CHR ''/'' rest) (\<lambda>(seg, rest').
     Option.bind (without_suffix ''/value'' rest') (\<lambda>path.
       if seg \<noteq> [] \<and> path \<noteq> [] then Some (seg, path) else None)))"

text \<open>
  In a session of its own. What is not committed is rolled back; the session also closes with an
  exception that is not caught.
\<close>

definition mqtt_update_value :: "'s env \<Rightarrow> string \<Rightarrow> string \<Rightarrow> json \<Rightarrow> 's mqtt_step" where
  "mqtt_update_value E seg path v w =
     (case decode_id_from_b64url seg of
        Inl _ \<Rightarrow> (w, False)
      | Inr i \<Rightarrow>
          (case get_bytes seg (submodels (db w)) of
             None \<Rightarrow> (w, False)
           | Some (d, _) \<Rightarrow>
               (case update_element_value d path v of
                  Inl (ElementNotFound _) \<Rightarrow> (w, False)
                | Inl (InvalidPath _ _) \<Rightarrow> (w, False)
                | Inl _ \<Rightarrow> (w, True)
                | Inr d' \<Rightarrow>
                    (case valid_submodel E d' of
                       Inl _ \<Rightarrow> (w, False)
                     | Inr m \<Rightarrow>
                         (case submodel_update E i m (w\<lparr>tx := db w\<rparr>) of
                            (w', Inr (Some _)) \<Rightarrow> (w'\<lparr>db := tx w'\<rparr>, False)
                          | (w', _) \<Rightarrow> (w'\<lparr>tx := db w'\<rparr>, False))))))"

definition handle_element_value :: "(nat list \<Rightarrow> json option) \<Rightarrow> 's env \<Rightarrow> mqtt_message \<Rightarrow> 's mqtt_step" where
  "handle_element_value loads E m w =
     (case element_topic (m_topic m) of
        None \<Rightarrow> (w, False)
      | Some (seg, path) \<Rightarrow>
          (case loads (m_payload m) of
             None \<Rightarrow> (w, False)
           | Some v \<Rightarrow> mqtt_update_value E seg path v w))"

section \<open>Commands\<close>

text \<open>\<open>^titan/([^/]+)/([^/]+)/command/(.+)$\<close>\<close>

definition command_topic :: "string \<Rightarrow> (string \<times> string \<times> string) option" where
  "command_topic topic =
     Option.bind (without_prefix ''titan/'' topic) (\<lambda>rest.
     Option.bind (cut CHR ''/'' rest) (\<lambda>(entity, rest').
     Option.bind (cut CHR ''/'' rest') (\<lambda>(i, rest'').
     Option.bind (without_prefix ''command/'' rest'') (\<lambda>action.
       if entity \<noteq> [] \<and> i \<noteq> [] \<and> action \<noteq> [] then Some (entity, i, action) else None))))"

definition command_payload :: "(nat list \<Rightarrow> json option) \<Rightarrow> nat list \<Rightarrow> json" where
  "command_payload loads p = (if p = [] then JDict [] else case loads p of None \<Rightarrow> JDict [] | Some j \<Rightarrow> j)"

text \<open>An exception of the command is caught.\<close>

definition handle_command ::
  "(nat list \<Rightarrow> json option) \<Rightarrow> (string \<Rightarrow> (string \<Rightarrow> string \<Rightarrow> json \<Rightarrow> 's mqtt_step) option) \<Rightarrow> mqtt_message \<Rightarrow> 's mqtt_step" where
  "handle_command loads commands m w =
     (case command_topic (m_topic m) of
        None \<Rightarrow> (w, False)
      | Some (entity, i, action) \<Rightarrow>
          (case commands action of
             None \<Rightarrow> (w, False)
           | Some h \<Rightarrow> (fst (h entity i (command_payload loads (m_payload m)) w), False)))"

fun handle_mqtt :: "(nat list \<Rightarrow> json option) \<Rightarrow> 's env \<Rightarrow> mqtt_message \<Rightarrow> 's mqtt_handler \<Rightarrow> 's mqtt_step" where
  "handle_mqtt loads E m ElementValueHandler = handle_element_value loads E m"
| "handle_mqtt loads E m (CommandHandler commands) = handle_command loads commands m"

section \<open>Dispatch\<close>

record mqtt_metrics =
  messages_received :: nat
  messages_processed :: nat
  processing_errors :: nat
  no_handler_found :: nat

fun run_mqtt_handlers ::
  "(nat list \<Rightarrow> json option) \<Rightarrow> 's env \<Rightarrow> mqtt_message \<Rightarrow> 's mqtt_handler list \<Rightarrow> 's world \<times> mqtt_metrics \<Rightarrow>
   's world \<times> mqtt_metrics" where
  "run_mqtt_handlers loads E m [] s = s"
| "run_mqtt_handlers loads E m (h # hs) (w, x) =
     (case handle_mqtt loads E m h w of
        (w', raised) \<Rightarrow>
          run_mqtt_handlers loads E m hs
            (w', if raised then x\<lparr>processing_errors := Suc (processing_errors x)\<rparr>
                 else x\<lparr>messages_processed := Suc (messages_processed x)\<rparr>))"

definition handle_message ::
  "(nat list \<Rightarrow> json option) \<Rightarrow> 's env \<Rightarrow> 's mqtt_registry \<Rightarrow> mqtt_message \<Rightarrow> 's world \<times> mqtt_metrics \<Rightarrow> 's world \<times> mqtt_metrics" where
  "handle_message loads E reg m s =
     (let s' = (fst s, (snd s)\<lparr>messages_received := Suc (messages_received (snd s))\<rparr>); hs = get_handlers (m_topic m) reg in
      if hs = [] then (fst s', (snd s')\<lparr>no_handler_found := Suc (no_handler_found (snd s'))\<rparr>)
      else run_mqtt_handlers loads E m hs s')"

end
