(* ===== verification/PackageImport.thy ===== *)
theory PackageImport
  imports Packages ShellState
begin

text \<open>
  Taking the contents of a package into the repository: \<open>preview_import\<close> and \<open>import_package\<close> of
  \<open>src/titan/packages/manager.py\<close> with their handlers in \<open>src/titan/api/routers/aasx.py\<close>. As in
  Serialization, a violated constraint leaves a session that can do nothing more, so the whole import fails.
  The texts of errors are left out; \<open>stamp\<close> is the time that is part of a new identifier.
\<close>

datatype package_resolution = SKIP | OVERWRITE | ERROR | RENAME | MERGE | NEWER

text \<open>\<open>lower()\<close>; other letters than these do not become one of a name below.\<close>

definition lower_case :: "string \<Rightarrow> string" where
  "lower_case = map (\<lambda>c. if CHR ''A'' \<le> c \<and> c \<le> CHR ''Z'' then char_of (of_char c + 32 :: nat) else c)"

definition resolution_of :: "string \<Rightarrow> package_resolution option" where
  "resolution_of s =
     map_of [(''skip'', SKIP), (''overwrite'', OVERWRITE), (''error'', ERROR), (''rename'', RENAME), (''merge'', MERGE),
       (''newer'', NEWER)] (lower_case s)"

record import_counts =
  n_created :: nat
  n_updated :: nat
  n_skipped :: nat
  n_failed :: nat

definition no_counts :: import_counts where
  "no_counts = \<lparr>n_created = 0, n_updated = 0, n_skipped = 0, n_failed = 0\<rparr>"

definition renamed :: "string \<Rightarrow> obj \<Rightarrow> obj" where
  "renamed stamp m =
     dset ''id'' (JStr ((case dget m ''id'' of JStr s \<Rightarrow> s | _ \<Rightarrow> []) @ ''_imported_'' @ stamp)) m"

text \<open>What became of a call of the repository: counted as \<open>f\<close> says, or as failed.\<close>

definition counted ::
  "'s world \<times> (repo_error + 'a) \<Rightarrow> (import_counts \<Rightarrow> import_counts) \<Rightarrow> import_counts \<Rightarrow> 's world \<times> (failure + import_counts)" where
  "counted r f x =
     (case r of
        (w, Inr _) \<Rightarrow> (w, Inr (f x))
      | (w, Inl IntegrityError) \<Rightarrow> (w, Inl (Unhandled IntegrityError))
      | (w, Inl _) \<Rightarrow> (w, Inr (x\<lparr>n_failed := Suc (n_failed x)\<rparr>)))"

definition count_created :: "import_counts \<Rightarrow> import_counts" where
  "count_created x = x\<lparr>n_created := Suc (n_created x)\<rparr>"

text \<open>One item. With \<open>MERGE\<close> and \<open>NEWER\<close> no branch is taken.\<close>

definition package_item ::
  "('s world \<Rightarrow> nat list \<Rightarrow> bool) \<Rightarrow> (obj \<Rightarrow> ('s, obj \<times> string) action) \<Rightarrow>
   (nat list \<Rightarrow> obj \<Rightarrow> ('s, (obj \<times> string) option) action) \<Rightarrow> package_resolution \<Rightarrow> string \<Rightarrow> nat list list option \<Rightarrow> obj \<Rightarrow>
   import_counts \<Rightarrow> ('s, import_counts) handler" where
  "package_item there create update res stamp wanted m x w =
     (if wanted \<noteq> None \<and> id_of m \<notin> set (the wanted) then (w, Inr x)
      else if \<not> there w (id_of m) then counted (create m w) count_created x
      else case res of
          SKIP \<Rightarrow> (w, Inr (x\<lparr>n_skipped := Suc (n_skipped x)\<rparr>))
        | ERROR \<Rightarrow> (w, Inr (x\<lparr>n_failed := Suc (n_failed x)\<rparr>))
        | OVERWRITE \<Rightarrow> counted (update (id_of m) m w) (\<lambda>x. x\<lparr>n_updated := Suc (n_updated x)\<rparr>) x
        | RENAME \<Rightarrow> counted (create (renamed stamp m) w) count_created x
        | _ \<Rightarrow> (w, Inr x))"

fun package_items ::
  "('s world \<Rightarrow> nat list \<Rightarrow> bool) \<Rightarrow> (obj \<Rightarrow> ('s, obj \<times> string) action) \<Rightarrow>
   (nat list \<Rightarrow> obj \<Rightarrow> ('s, (obj \<times> string) option) action) \<Rightarrow> package_resolution \<Rightarrow> string \<Rightarrow> nat list list option \<Rightarrow> obj list \<Rightarrow>
   import_counts \<Rightarrow> ('s, import_counts) handler" where
  "package_items there create update res stamp wanted [] x = retH x"
| "package_items there create update res stamp wanted (m # ms) x =
     bindH (package_item there create update res stamp wanted m x) (\<lambda>x.
       package_items there create update res stamp wanted ms x)"

text \<open>Concept descriptions are not imported.\<close>

definition import_contents ::
  "'s env \<Rightarrow> contents \<Rightarrow> package_resolution \<Rightarrow> string \<Rightarrow> nat list list option \<Rightarrow> nat list list option \<Rightarrow>
   ('s, import_counts \<times> import_counts) handler" where
  "import_contents E c res stamp shell_ids submodel_ids =
     bindH (package_items (\<lambda>w i. exists_row i (shells (tx w))) (aas_create E) (aas_update E) res stamp shell_ids
              (pc_shells c) no_counts) (\<lambda>a.
     bindH (package_items (\<lambda>w i. exists_row i (submodels (tx w))) (submodel_create E) (submodel_update E) res stamp
              submodel_ids (pc_submodels c) no_counts) (\<lambda>s.
       retH (a, s)))"

text \<open>A package that cannot be read is reported as a failed import, not as an error.\<close>

definition import_package_contents ::
  "'c package_env \<Rightarrow> 's env \<Rightarrow> 'c depot \<Rightarrow> string \<Rightarrow> string \<Rightarrow> string \<Rightarrow> nat list list option \<Rightarrow> nat list list option \<Rightarrow>
   's world \<Rightarrow> 's world \<times> (package_error + failure + (import_counts \<times> import_counts) option)" where
  "import_package_contents P E d i res stamp shell_ids submodel_ids w =
     (case existing (package_key P) i (packages d) of
        Inl e \<Rightarrow> (w, Inl e)
      | Inr p \<Rightarrow>
          (case resolution_of res of
             None \<Rightarrow> (w, Inl BadPackage)
           | Some r \<Rightarrow>
               (case retrieve_package (pk_uri p) d of
                  Inl e \<Rightarrow> (w, Inl e)
                | Inr c \<Rightarrow>
                    (case read_package P c of
                       Inl _ \<Rightarrow> (w, Inr (Inr None))
                     | Inr x \<Rightarrow>
                         (case run_request (bindH (import_contents E x r stamp shell_ids submodel_ids) (\<lambda>n.
                              bindH commit (\<lambda>_. retH n))) w of
                            (w', Inl f) \<Rightarrow> (w', Inr (Inl f))
                          | (w', Inr n) \<Rightarrow> (w', Inr (Inr (Some n))))))))"

section \<open>Preview\<close>

record preview =
  pre_shells :: "(nat list \<times> bool) list"
  pre_submodels :: "(nat list \<times> bool) list"
  pre_cds :: "nat list list"
  pre_files :: "string list"

definition preview_import :: "contents \<Rightarrow> database \<Rightarrow> preview" where
  "preview_import c t =
     \<lparr>pre_shells = map (\<lambda>m. (id_of m, exists_row (id_of m) (shells t))) (pc_shells c),
      pre_submodels = map (\<lambda>m. (id_of m, exists_row (id_of m) (submodels t))) (pc_submodels c),
      pre_cds = map id_of (pc_cds c), pre_files = pc_files c\<rparr>"

definition preview_package_import :: "'c package_env \<Rightarrow> 'c depot \<Rightarrow> string \<Rightarrow> database \<Rightarrow> package_error + preview" where
  "preview_package_import P d i t =
     bindE (existing (package_key P) i (packages d)) (\<lambda>p. bindE (retrieve_package (pk_uri p) d) (\<lambda>c.
       bindE (liftE Crash (read_package P c)) (\<lambda>x. Inr (preview_import x t))))"

end
