(* ===== verification/SideDoors.thy ===== *)
theory SideDoors
  imports Mqtt PackageImport SubmodelSpec
begin

text \<open>
  Two ways into the tables that go past the cache and the event bus: values that arrive by MQTT and
  packages that are imported.
\<close>

section \<open>What these writers leave alone\<close>

definition aside :: "'s world \<Rightarrow> 's world \<Rightarrow> bool" where
  "aside w w' = (cache w' = cache w \<and> bus w' = bus w)"

lemma aside_refl: "aside w w"
  by (simp add: aside_def)

lemma aside_trans: "aside w w1 \<Longrightarrow> aside w1 w2 \<Longrightarrow> aside w w2"
  by (simp add: aside_def)

lemma quiet_aside: "quiet w w' \<Longrightarrow> aside w w'"
  by (simp add: aside_def quiet_def)

lemma mqtt_update_aside: "aside w (fst (mqtt_update_value E seg path v w))"
proof -
  have "aside w w'" if "submodel_update E i m (w\<lparr>tx := db w\<rparr>) = (w', r)" for i m w' r
    using quiet_aside [OF submodel_update_effect(1) [OF that]] by (simp add: aside_def)
  then show ?thesis
    by (auto simp: mqtt_update_value_def aside_def split: sum.split option.split elem_error.split prod.split)
qed

lemma handle_mqtt_aside: "aside w (fst (handle_mqtt loads E m ElementValueHandler w))"
  by (auto simp: handle_element_value_def aside_refl mqtt_update_aside split: option.split)

definition no_commands :: "string \<Rightarrow> (string \<Rightarrow> string \<Rightarrow> json \<Rightarrow> 's mqtt_step) option" where
  "no_commands a = None"

lemma handle_no_command: "fst (handle_mqtt loads E m (CommandHandler no_commands) w) = w"
  by (auto simp: handle_command_def no_commands_def split: option.split)

lemma run_handlers_aside:
  "set hs \<subseteq> {ElementValueHandler, CommandHandler no_commands} \<Longrightarrow> aside (fst s) (fst (run_mqtt_handlers loads E m hs s))"
proof (induction hs arbitrary: s)
  case (Cons h hs)
  obtain w x where s: "s = (w, x)" by (cases s)
  obtain w1 r where h: "handle_mqtt loads E m h w = (w1, r)" by (cases "handle_mqtt loads E m h w")
  have "aside w w1"
    using Cons.prems h handle_mqtt_aside [of w loads E m] handle_no_command [of loads E m w] aside_refl
    by (cases h) auto
  with aside_trans Cons s h show ?case by fastforce
qed (simp add: aside_refl)

lemma message_aside: "aside w (fst (handle_message loads E (create_subscriber no_commands) m (w, x)))"
proof -
  have "set (get_handlers t (create_subscriber no_commands)) \<subseteq> {ElementValueHandler, CommandHandler no_commands}" for t
    by (auto simp: get_handlers_def create_subscriber_def register_handler_def)
  from run_handlers_aside [OF this] show ?thesis
    by (fastforce simp: handle_message_def Let_def aside_refl)
qed

lemma calm_repository:
  "aside w (fst (aas_create E m w))" "aside w (fst (aas_update E i m w))"
  "aside w (fst (submodel_create E m w))" "aside w (fst (submodel_update E i m w))"
  by (rule quiet_aside, metis aas_create_effect(1) prod.collapse,
      rule quiet_aside, metis aas_update_effect(1) prod.collapse,
      rule quiet_aside, metis submodel_create_effect(1) prod.collapse,
      rule quiet_aside, metis submodel_update_effect(1) prod.collapse)

lemma counted_aside: "aside w (fst r) \<Longrightarrow> aside w (fst (counted r g x))"
  by (auto simp: counted_def split: prod.split sum.split repo_error.split)

lemma package_item_aside:
  assumes "\<And>w m. aside w (fst (create m w))" and "\<And>w i m. aside w (fst (update i m w))"
  shows "aside w (fst (package_item there create update res stamp wanted m x w))"
  by (cases res) (simp_all add: package_item_def aside_refl counted_aside assms)

lemma aside_bind: "aside w (fst (f w)) \<Longrightarrow> (\<And>a w. aside w (fst (g a w))) \<Longrightarrow> aside w (fst (bindH f g w))"
  by (cases "f w"; cases "snd (f w)") (auto simp: bindH_def intro: aside_trans)

lemma package_items_aside:
  assumes "\<And>w m. aside w (fst (create m w))" and "\<And>w i m. aside w (fst (update i m w))"
  shows "aside w (fst (package_items there create update res stamp wanted ms x w))"
proof (induction ms arbitrary: x w)
  case (Cons m ms)
  show ?case unfolding package_items.simps by (rule aside_bind [OF package_item_aside [OF assms] Cons.IH])
qed (simp add: retH_def aside_refl)

lemma aside_ret: "aside w (fst (retH a w))"
  by (simp add: retH_def aside_refl)

lemma import_contents_aside: "aside w (fst (import_contents E c r stamp a b w))"
  unfolding import_contents_def
  by (intro aside_bind package_items_aside calm_repository aside_ret)

lemma run_request_aside: "aside (w\<lparr>tx := db w\<rparr>) (fst (h (w\<lparr>tx := db w\<rparr>))) \<Longrightarrow> aside w (fst (run_request h w))"
  by (cases "h (w\<lparr>tx := db w\<rparr>)") (simp add: run_request_def aside_def)

lemma import_aside: "aside w (fst (import_package_contents P E d i res stamp a b w))"
proof -
  have run: "aside w (fst (run_request (bindH (import_contents E c r stamp a b) (\<lambda>n. bindH commit (\<lambda>_. retH n))) w))" for c r
    by (intro run_request_aside aside_bind import_contents_aside aside_ret) (simp add: commit_def aside_def)
  have "aside w w'" if "run_request (bindH (import_contents E c r stamp a b) (\<lambda>n. bindH commit (\<lambda>_. retH n))) w = (w', y)"
    for c r w' y
    using run [of c r] unfolding that by simp
  then show ?thesis
    by (auto simp: import_package_contents_def aside_refl split: sum.split option.split prod.split)
qed

section \<open>Readers do not see them\<close>

inductive side_step :: "(nat list \<Rightarrow> json option) \<Rightarrow> 'c package_env \<Rightarrow> 's env \<Rightarrow> 's world \<Rightarrow> 's world \<Rightarrow> bool"
  for loads P E where
  message: "side_step loads P E w (fst (handle_message loads E (create_subscriber no_commands) m (w, x)))"
| package: "side_step loads P E w (fst (import_package_contents P E d i res stamp shell_ids submodel_ids w))"

text \<open>
  C26. What arrives by MQTT or comes out of a package is written behind the back of the cache and of the
  event bus: no event is published, and a submodel that is cached is served as it was before, with the
  ETag it had before, whatever the database holds now.
\<close>

theorem side_writes_unseen:
  assumes "side_step loads P E w w'" and "decode_id_from_b64url seg = Inr i" and "is_fast_path h"
    and "get_submodel (redis E) seg (cache w) = Some (d, e)"
  shows "bus w' = bus w \<and> snd (run_request (serve_submodel E (GetSubmodel seg h None)) w') =
    Inr (json_response_with_etag (JDict d) e 200 None)"
proof -
  from assms(1) have "aside w w'" by cases (simp_all only: message_aside import_aside)
  with assms(2-4) show ?thesis
    by (simp add: aside_def run_request_snd get_submodel_by_id_def handlers decode_identifier_def not_modified_def)
qed

definition with_property :: "string \<Rightarrow> obj" where
  "with_property v =
     [(''id'', JStr ''M''), (''idShort'', JStr ''v1''), (''submodelElements'', JList [JDict
        [(''modelType'', JStr ''Property''), (''idShort'', JStr ''P''), (''value'', JStr v)]])]"

definition posted_property :: "(string \<times> json) list world" where
  "posted_property = serve_all sample_env [OnSubmodels (PostSubmodel (with_property ''1''))] empty_world"

definition sample_message :: mqtt_message where
  "sample_message = \<lparr>m_topic = ''titan/element/TQ/P/value'', m_payload = []\<rparr>"

definition after_message :: "(string \<times> json) list world" where
  "after_message = fst (handle_message (\<lambda>_. Some (JStr ''2'')) sample_env (create_subscriber no_commands) sample_message
     (posted_property, \<lparr>messages_received = 0, messages_processed = 0, processing_errors = 0, no_handler_found = 0\<rparr>))"

theorem side_writes_unseen_witness:
  "get_bytes_by_id [77] (submodels (db after_message)) = Some (with_property ''2'', ''v1'') \<and>
   snd (run_request (serve_submodel sample_env (GetSubmodel ''TQ'' plain_query None)) after_message) =
     Inr (json_response_with_etag (JDict (with_property ''1'')) ''v1'' 200 None)"
proof -
  have row: "get_bytes_by_id [77] (submodels (db after_message)) = Some (with_property ''2'', ''v1'')" by code_simp
  have id: "decode_id_from_b64url ''TQ'' = Inr [77]" by code_simp
  have cached: "get_submodel (redis sample_env) ''TQ'' (cache posted_property) = Some (with_property ''1'', ''v1'')" by code_simp
  have "side_step (\<lambda>_. Some (JStr ''2'')) P sample_env posted_property after_message" for P :: "nat package_env"
    unfolding after_message_def by (rule side_step.message)
  from side_writes_unseen [OF this id plain_fast cached] row show ?thesis by blast
qed

text \<open>The topic of a value directly below a submodel matches two of the registered patterns.\<close>

lemma value_handled_twice:
  "get_handlers (m_topic sample_message) (create_subscriber no_commands) = [ElementValueHandler, ElementValueHandler]"
proof -
  have "topic_matches ''titan/element/+/+/value'' (m_topic sample_message)" "topic_matches ''titan/element/+/#'' (m_topic sample_message)"
    "\<not> topic_matches ''titan/+/+/command/#'' (m_topic sample_message)" by code_simp+
  then show ?thesis by (simp add: get_handlers_def create_subscriber_def register_handler_def)
qed

text \<open>With \<open>merge\<close> or \<open>newer\<close> what exists already is neither imported nor reported.\<close>

lemma merge_is_silent:
  assumes "res = MERGE \<or> res = NEWER" and "there w (id_of m)"
  shows "package_item there create update res stamp wanted m x w = (w, Inr x)"
  using assms by (auto simp: package_item_def)

end
