(* ===== verification/Events.thy ===== *)
theory Events
  imports Jobs ShellState
begin

text \<open>
  The events as they travel: their form on a Redis stream (\<open>src/titan/events/redis_bus.py\<close>), the delivery to
  handlers in memory (\<open>src/titan/events/bus.py\<close>) and from a stream, the two writers that keep the cache
  (\<open>src/titan/events/worker.py\<close>, \<open>src/titan/events/batch_writer.py\<close>), and the subscriptions of GraphQL
  (\<open>src/titan/graphql/subscription_manager.py\<close>).
\<close>

section \<open>Events\<close>

text \<open>
  \<open>'b\<close> is what an event carries as bytes: lists of bytes on the wire, documents for the cache. The events
  of packages and of operations, \<open>OtherEvent\<close>, have their entity, the value of their type and their other
  fields as \<open>asdict\<close> gives them.
\<close>

record 'b doc_change =
  ch_kind :: event_kind
  ch_ident :: string
  ch_b64 :: string
  ch_doc :: "'b option"
  ch_etag :: "string option"

record 'b element_change =
  el_kind :: event_kind
  el_submodel :: string
  el_b64 :: string
  el_path :: string
  el_bytes :: "'b option"

datatype other_entity = PackageEntity | InvocationEntity

datatype 'b event_body =
    AasEvent "'b doc_change"
  | SubmodelEvent "'b doc_change" "string option"
  | SubmodelElementEvent "'b element_change"
  | ConceptDescriptionEvent "'b doc_change"
  | OtherEvent other_entity string obj

record 'b bus_event =
  body :: "'b event_body"
  event_id :: string
  timestamp :: int

fun kind_value :: "event_kind \<Rightarrow> string" where
  "kind_value CREATED = ''created''"
| "kind_value UPDATED = ''updated''"
| "kind_value DELETED = ''deleted''"

fun entity_of :: "'b event_body \<Rightarrow> string" where
  "entity_of (AasEvent c) = ''aas''"
| "entity_of (SubmodelEvent c s) = ''submodel''"
| "entity_of (SubmodelElementEvent c) = ''element''"
| "entity_of (ConceptDescriptionEvent c) = ''concept_description''"
| "entity_of (OtherEvent PackageEntity k d) = ''package''"
| "entity_of (OtherEvent InvocationEntity k d) = ''operation_invocation''"

section \<open>The form on the wire\<close>

text \<open>
  \<open>base64.b64decode\<close> without validation: Python skips characters that are not of the alphabet and
  superfluous padding, which the model does not follow.
\<close>

definition read_b64 :: "string \<Rightarrow> py_exn + nat list" where
  "read_b64 s =
     (let rest = dropWhile (\<lambda>c. c \<noteq> CHR ''='') s in
      if \<not> set (takeWhile (\<lambda>c. c \<noteq> CHR ''='') s) \<subseteq> set std_alphabet \<or> 2 < length rest \<or> \<not> set rest \<subseteq> {CHR ''=''} then Inl NotModelled
      else case b64decode s of None \<Rightarrow> Inl ValueError | Some bs \<Rightarrow> Inr bs)"

definition opt_str :: "string option \<Rightarrow> json" where
  "opt_str s = (case s of None \<Rightarrow> JNull | Some x \<Rightarrow> JStr x)"

definition bytes_json :: "nat list option \<Rightarrow> json" where
  "bytes_json b = (case b of None \<Rightarrow> JNull | Some x \<Rightarrow> JStr (b64encode x))"

definition stamp_fields :: "iso_format \<Rightarrow> nat list bus_event \<Rightarrow> obj" where
  "stamp_fields F ev =
     [(''entity'', JStr (entity_of (body ev))), (''event_id'', JStr (event_id ev)),
      (''timestamp'', JStr (iso F (timestamp ev))), (''_event_type'', JStr (entity_of (body ev)))]"

definition change_fields :: "nat list doc_change \<Rightarrow> obj" where
  "change_fields c =
     [(''event_type'', JStr (kind_value (ch_kind c))), (''identifier'', JStr (ch_ident c)),
      (''identifier_b64'', JStr (ch_b64 c)), (''doc_bytes'', bytes_json (ch_doc c)), (''etag'', opt_str (ch_etag c))]"

fun body_fields :: "nat list event_body \<Rightarrow> obj" where
  "body_fields (AasEvent c) = change_fields c"
| "body_fields (SubmodelEvent c s) = change_fields c @ [(''semantic_id'', opt_str s)]"
| "body_fields (SubmodelElementEvent c) =
     [(''event_type'', JStr (kind_value (el_kind c))), (''submodel_identifier'', JStr (el_submodel c)),
      (''submodel_identifier_b64'', JStr (el_b64 c)), (''id_short_path'', JStr (el_path c)),
      (''value_bytes'', bytes_json (el_bytes c))]"
| "body_fields (ConceptDescriptionEvent c) = change_fields c"
| "body_fields (OtherEvent e k d) = (''event_type'', JStr k) # d"

text \<open>\<open>_serialize_event\<close>; \<open>orjson\<close> prints the value and reads it back.\<close>

definition serialize_event :: "iso_format \<Rightarrow> nat list bus_event \<Rightarrow> obj" where
  "serialize_event F ev = body_fields (body ev) @ stamp_fields F ev"

text \<open>The fields of a read event. A dataclass does not check their types: an ill-typed one is not modelled.\<close>

definition str_field :: "obj \<Rightarrow> string \<Rightarrow> py_exn + string" where
  "str_field d k = (case map_of d k of None \<Rightarrow> Inl TypeError | Some (JStr s) \<Rightarrow> Inr s | Some _ \<Rightarrow> Inl NotModelled)"

definition opt_field :: "obj \<Rightarrow> string \<Rightarrow> py_exn + string option" where
  "opt_field d k = (case dget d k of JNull \<Rightarrow> Inr None | JStr s \<Rightarrow> Inr (Some s) | _ \<Rightarrow> Inl NotModelled)"

definition bytes_field :: "obj \<Rightarrow> string \<Rightarrow> py_exn + nat list option" where
  "bytes_field d k =
     (case dget d k of
        JNull \<Rightarrow> Inr None
      | JStr s \<Rightarrow> bindE (read_b64 s) (\<lambda>b. Inr (Some b))
      | _ \<Rightarrow> Inl TypeError)"

fun kind_of :: "string \<Rightarrow> event_kind option" where
  "kind_of s = map_of [(''created'', CREATED), (''updated'', UPDATED), (''deleted'', DELETED)] s"

definition kind_field :: "obj \<Rightarrow> py_exn + event_kind option" where
  "kind_field d =
     (case dget d ''event_type'' of
        JNull \<Rightarrow> Inr None
      | JStr s \<Rightarrow> (case kind_of s of None \<Rightarrow> Inl ValueError | Some k \<Rightarrow> Inr (Some k))
      | _ \<Rightarrow> Inl ValueError)"

definition the_kind :: "event_kind option \<Rightarrow> py_exn + event_kind" where
  "the_kind k = (case k of None \<Rightarrow> Inl NotModelled | Some x \<Rightarrow> Inr x)"

text \<open>No other keyword arguments than the fields of the dataclass.\<close>

definition only_keys :: "obj \<Rightarrow> string list \<Rightarrow> py_exn + unit" where
  "only_keys d ks = (if set (map fst d) \<subseteq> set ks then Inr () else Inl TypeError)"

definition read_change :: "obj \<Rightarrow> event_kind option \<Rightarrow> nat list option \<Rightarrow> py_exn + nat list doc_change" where
  "read_change d k doc =
     bindE (the_kind k) (\<lambda>k. bindE (str_field d ''identifier'') (\<lambda>i. bindE (str_field d ''identifier_b64'') (\<lambda>b.
     bindE (opt_field d ''etag'') (\<lambda>e.
       Inr \<lparr>ch_kind = k, ch_ident = i, ch_b64 = b, ch_doc = doc, ch_etag = e\<rparr>))))"

definition common_keys :: "string list" where
  "common_keys = [''event_type'', ''entity'', ''event_id'', ''timestamp'', ''_event_type'']"

definition change_keys :: "string list" where
  "change_keys = common_keys @ [''identifier'', ''identifier_b64'', ''doc_bytes'', ''etag'']"

definition read_body :: "string \<Rightarrow> obj \<Rightarrow> event_kind option \<Rightarrow> nat list option \<Rightarrow> nat list option \<Rightarrow> py_exn + nat list event_body" where
  "read_body entity d k doc val =
     (if entity = ''aas'' then
        bindE (only_keys d change_keys) (\<lambda>_. bindE (read_change d k doc) (\<lambda>c. Inr (AasEvent c)))
      else if entity = ''submodel'' then
        bindE (only_keys d (''semantic_id'' # change_keys)) (\<lambda>_. bindE (read_change d k doc) (\<lambda>c.
          bindE (opt_field d ''semantic_id'') (\<lambda>s. Inr (SubmodelEvent c s))))
      else if entity = ''element'' then
        bindE (only_keys d (common_keys @ [''submodel_identifier'', ''submodel_identifier_b64'', ''id_short_path'', ''value_bytes''])) (\<lambda>_.
        bindE (the_kind k) (\<lambda>k. bindE (str_field d ''submodel_identifier'') (\<lambda>i.
        bindE (str_field d ''submodel_identifier_b64'') (\<lambda>b. bindE (str_field d ''id_short_path'') (\<lambda>p.
          Inr (SubmodelElementEvent \<lparr>el_kind = k, el_submodel = i, el_b64 = b, el_path = p, el_bytes = val\<rparr>))))))
      else if entity = ''concept_description'' then
        bindE (only_keys d change_keys) (\<lambda>_. bindE (read_change d k doc) (\<lambda>c. Inr (ConceptDescriptionEvent c)))
      else Inl ValueError)"

text \<open>An absent id or time would be made up, which the model does not follow.\<close>

definition time_field :: "iso_format \<Rightarrow> obj \<Rightarrow> py_exn + int" where
  "time_field F d =
     (case dget d ''timestamp'' of
        JStr s \<Rightarrow> (case from_iso F s of None \<Rightarrow> Inl ValueError | Some t \<Rightarrow> Inr t)
      | _ \<Rightarrow> Inl NotModelled)"

definition entity_field :: "obj \<Rightarrow> string" where
  "entity_field d =
     (case dget_or d ''entity'' (dget d ''_event_type'') of JStr s \<Rightarrow> s | _ \<Rightarrow> [])"

definition deserialize_event :: "iso_format \<Rightarrow> obj \<Rightarrow> py_exn + nat list bus_event" where
  "deserialize_event F d =
     bindE (time_field F d) (\<lambda>t. bindE (bytes_field d ''doc_bytes'') (\<lambda>doc. bindE (bytes_field d ''value_bytes'') (\<lambda>val.
     bindE (kind_field d) (\<lambda>k. bindE (read_body (entity_field d) d k doc val) (\<lambda>b.
     bindE (str_field d ''event_id'') (\<lambda>i. Inr \<lparr>body = b, event_id = i, timestamp = t\<rparr>))))))"

section \<open>Delivery\<close>

text \<open>A handler is what it does to a state, and whether it raises.\<close>

type_synonym ('b, 's) event_handler = "'b bus_event \<Rightarrow> 's \<Rightarrow> 's \<times> bool"

text \<open>In memory: every handler gets the event, whatever the ones before it did.\<close>

fun deliver_all :: "('b, 's) event_handler list \<Rightarrow> 'b bus_event \<Rightarrow> 's \<Rightarrow> 's" where
  "deliver_all [] ev s = s"
| "deliver_all (h # hs) ev s = deliver_all hs ev (fst (h ev s))"

definition process_queue :: "('b, 's) event_handler list \<Rightarrow> 'b bus_event list \<Rightarrow> 's \<Rightarrow> 's" where
  "process_queue hs evs s = fold (deliver_all hs) evs s"

text \<open>From a stream: the first handler that raises ends it; the result says whether the message is acknowledged.\<close>

fun deliver_until :: "('b, 's) event_handler list \<Rightarrow> 'b bus_event \<Rightarrow> 's \<Rightarrow> 's \<times> bool" where
  "deliver_until [] ev s = (s, True)"
| "deliver_until (h # hs) ev s = (case h ev s of (s', raised) \<Rightarrow> if raised then (s', False) else deliver_until hs ev s')"

definition process_message ::
  "iso_format \<Rightarrow> (nat list, 's) event_handler list \<Rightarrow> obj option \<Rightarrow> 's \<Rightarrow> 's \<times> bool" where
  "process_message F hs data s =
     (case data of
        None \<Rightarrow> (s, True)
      | Some d \<Rightarrow> (case deserialize_event F d of Inl _ \<Rightarrow> (s, False) | Inr ev \<Rightarrow> deliver_until hs ev s))"

text \<open>What a consumer does about a message that was not acknowledged.\<close>

datatype claim_action = Leave | Claim | DeadLetter

definition claim_decision :: "nat \<Rightarrow> nat \<Rightarrow> claim_action" where
  "claim_decision idle_ms delivered =
     (if 30000 < idle_ms then if 3 \<le> delivered then DeadLetter else Claim else Leave)"

section \<open>The writers\<close>

text \<open>Bytes are the JSON they print here, which is never empty.\<close>

definition doc_and_etag_of :: "json doc_change \<Rightarrow> (obj \<times> string) option" where
  "doc_and_etag_of c =
     (case (ch_doc c, ch_etag c) of
        (Some (JDict d), Some e) \<Rightarrow> if e = [] then None else Some (d, e)
      | _ \<Rightarrow> None)"

definition store_aas :: "'s kv \<Rightarrow> json doc_change \<Rightarrow> 's \<Rightarrow> 's" where
  "store_aas K c s = (case doc_and_etag_of c of None \<Rightarrow> s | Some (d, e) \<Rightarrow> set_aas K (ch_b64 c) d e s)"

definition store_submodel :: "'s kv \<Rightarrow> json doc_change \<Rightarrow> 's \<Rightarrow> 's" where
  "store_submodel K c s = (case doc_and_etag_of c of None \<Rightarrow> s | Some (d, e) \<Rightarrow> set_submodel K (ch_b64 c) d e s)"

text \<open>\<open>SingleWriter\<close>: what it does to the cache; other events are not broadcast.\<close>

definition handle_aas_event :: "'s kv \<Rightarrow> json doc_change \<Rightarrow> 's \<Rightarrow> 's" where
  "handle_aas_event K c s =
     (case ch_kind c of
        CREATED \<Rightarrow> store_aas K c s
      | UPDATED \<Rightarrow> store_aas K c s
      | DELETED \<Rightarrow> delete_aas K (ch_b64 c) s)"

definition handle_submodel_event :: "'s kv \<Rightarrow> json doc_change \<Rightarrow> 's \<Rightarrow> 's" where
  "handle_submodel_event K c s =
     (case ch_kind c of
        CREATED \<Rightarrow> store_submodel K c s
      | UPDATED \<Rightarrow> invalidate_submodel_elements K (ch_b64 c) (store_submodel K c s)
      | DELETED \<Rightarrow> invalidate_submodel_elements K (ch_b64 c) (delete_submodel K (ch_b64 c) s))"

definition store_element :: "'s kv \<Rightarrow> json element_change \<Rightarrow> 's \<Rightarrow> 's" where
  "store_element K c s =
     (case el_bytes c of None \<Rightarrow> s | Some v \<Rightarrow> Cache.set_element_value K (el_b64 c) (el_path c) v s)"

definition handle_element_event :: "'s kv \<Rightarrow> json element_change \<Rightarrow> 's \<Rightarrow> 's" where
  "handle_element_event K c s =
     (case el_kind c of
        CREATED \<Rightarrow> s
      | UPDATED \<Rightarrow> store_element K c s
      | DELETED \<Rightarrow> Cache.delete_element_value K (el_b64 c) (el_path c) s)"

record 's writer =
  w_cache :: 's
  w_sent :: "json bus_event list"

text \<open>The broadcast is a parameter of the writer: here it appends to what was sent.\<close>

fun single_cache :: "'s kv \<Rightarrow> json event_body \<Rightarrow> 's \<Rightarrow> 's" where
  "single_cache K (AasEvent c) s = handle_aas_event K c s"
| "single_cache K (SubmodelEvent c sem) s = handle_submodel_event K c s"
| "single_cache K (SubmodelElementEvent c) s = handle_element_event K c s"
| "single_cache K _ s = s"

fun single_known :: "json event_body \<Rightarrow> bool" where
  "single_known (ConceptDescriptionEvent c) = False"
| "single_known (OtherEvent e k d) = False"
| "single_known _ = True"

definition single_handle_event :: "'s kv \<Rightarrow> json bus_event \<Rightarrow> 's writer \<Rightarrow> 's writer" where
  "single_handle_event K ev w =
     (if single_known (body ev) then
        w\<lparr>w_cache := single_cache K (body ev) (w_cache w), w_sent := w_sent w @ [ev]\<rparr>
      else w)"

text \<open>\<open>MicroBatchWriter._update_cache\<close>\<close>

fun batch_cache :: "'s kv \<Rightarrow> json event_body \<Rightarrow> 's \<Rightarrow> 's" where
  "batch_cache K (AasEvent c) s =
     (if ch_kind c = DELETED then delete_aas K (ch_b64 c) s else store_aas K c s)"
| "batch_cache K (SubmodelEvent c sem) s =
     (if ch_kind c = DELETED then invalidate_submodel_elements K (ch_b64 c) (delete_submodel K (ch_b64 c) s)
      else if doc_and_etag_of c \<noteq> None then
        (let s1 = store_submodel K c s in
         if ch_kind c = UPDATED then invalidate_submodel_elements K (ch_b64 c) s1 else s1)
      else s)"
| "batch_cache K (SubmodelElementEvent c) s =
     (if el_kind c = DELETED then Cache.delete_element_value K (el_b64 c) (el_path c) s else store_element K c s)"
| "batch_cache K _ s = s"

text \<open>The batch writer. \<open>b_flushed\<close> is what flushes have written, as the metrics count it.\<close>

record 's batch =
  b_cache :: 's
  b_sent :: "json bus_event list"
  b_buffer :: "json bus_event list"
  b_flushed :: "json bus_event list"
  b_received :: nat
  b_batches :: nat
  b_errors :: nat

text \<open>
  \<open>_handle_event\<close> in its stages, each of which awaits something: the event is counted, the cache updated,
  the event broadcast, and, under the buffer's lock, appended; if the buffer is full then, a flush begins.
  A flush empties the buffer and holds the events itself until the database has answered: they are written
  (\<open>Committed\<close>), or the database raises and they go back to the front of the buffer (\<open>DbFails\<close>), or the
  flush is cancelled (\<open>Cancelled\<close>; a \<open>CancelledError\<close> is no \<open>Exception\<close>, so nothing puts them back).
\<close>

definition receive_event :: "'s batch \<Rightarrow> 's batch" where
  "receive_event b = b\<lparr>b_received := Suc (b_received b)\<rparr>"

definition cache_event :: "'s kv \<Rightarrow> json bus_event \<Rightarrow> 's batch \<Rightarrow> 's batch" where
  "cache_event K ev b = b\<lparr>b_cache := batch_cache K (body ev) (b_cache b)\<rparr>"

definition broadcast_event :: "json bus_event \<Rightarrow> 's batch \<Rightarrow> 's batch" where
  "broadcast_event ev b = b\<lparr>b_sent := b_sent b @ [ev]\<rparr>"

definition flush_begin :: "'s batch \<Rightarrow> 's batch \<times> json bus_event list" where
  "flush_begin b = (b\<lparr>b_buffer := []\<rparr>, b_buffer b)"

datatype flush_outcome = Committed | DbFails | Cancelled

definition flush_end :: "flush_outcome \<Rightarrow> json bus_event list \<Rightarrow> 's batch \<Rightarrow> 's batch" where
  "flush_end out evs b =
     (case out of
        Committed \<Rightarrow> b\<lparr>b_flushed := b_flushed b @ evs, b_batches := Suc (b_batches b)\<rparr>
      | DbFails \<Rightarrow> b\<lparr>b_errors := Suc (b_errors b), b_buffer := evs @ b_buffer b\<rparr>
      | Cancelled \<Rightarrow> b)"

definition buffer_event :: "nat \<Rightarrow> json bus_event \<Rightarrow> 's batch \<Rightarrow> 's batch \<times> json bus_event list option" where
  "buffer_event limit ev b =
     (let b1 = b\<lparr>b_buffer := b_buffer b @ [ev]\<rparr> in
      if limit \<le> length (b_buffer b1) then (let (b2, evs) = flush_begin b1 in (b2, Some evs)) else (b1, None))"

text \<open>The whole operations, without interference. The result says whether the operation returns, and does not raise.\<close>

definition flush_buffer :: "flush_outcome \<Rightarrow> 's batch \<Rightarrow> 's batch \<times> bool" where
  "flush_buffer out b =
     (if b_buffer b = [] then (b, True)
      else (let (b1, evs) = flush_begin b in (flush_end out evs b1, out = Committed)))"

datatype 's handling_outcome = CacheRaises 's | BroadcastRaises | Reaches flush_outcome

text \<open>
  An exception of the cache (which may have been changed in part, to \<open>s\<close>) or of the broadcast leaves
  before the event is in the buffer; one of the flush, after.
\<close>

definition batch_handle_event ::
  "'s kv \<Rightarrow> nat \<Rightarrow> 's handling_outcome \<Rightarrow> json bus_event \<Rightarrow> 's batch \<Rightarrow> 's batch \<times> bool" where
  "batch_handle_event K limit out ev b =
     (let b1 = receive_event b in
      case out of
        CacheRaises s \<Rightarrow> (b1\<lparr>b_cache := s\<rparr>, False)
      | BroadcastRaises \<Rightarrow> (cache_event K ev b1, False)
      | Reaches fo \<Rightarrow>
          (case buffer_event limit ev (broadcast_event ev (cache_event K ev b1)) of
             (b2, None) \<Rightarrow> (b2, True)
           | (b2, Some evs) \<Rightarrow> (flush_end fo evs b2, fo = Committed)))"

text \<open>A failed flush is counted again by the periodic loop; a cancellation ends the loop.\<close>

definition periodic_end :: "flush_outcome \<Rightarrow> json bus_event list \<Rightarrow> 's batch \<Rightarrow> 's batch" where
  "periodic_end out evs b =
     (let b1 = flush_end out evs b in if out = DbFails then b1\<lparr>b_errors := Suc (b_errors b1)\<rparr> else b1)"

definition periodic_flush :: "flush_outcome \<Rightarrow> 's batch \<Rightarrow> 's batch" where
  "periodic_flush out b =
     (if b_buffer b = [] then b else (let (b1, evs) = flush_begin b in periodic_end out evs b1))"

text \<open>\<open>stop\<close> drains the buffer, without the lock; a failure is raised before the bus is stopped.\<close>

definition drain_batch :: "flush_outcome \<Rightarrow> 's batch \<Rightarrow> 's batch \<times> bool" where
  "drain_batch out b = flush_buffer out b"

section \<open>Subscriptions of GraphQL\<close>

record subscription_filter =
  f_entity :: string
  f_kinds :: "event_kind list"
  f_ident :: "string option"

fun ident_of :: "'b event_body \<Rightarrow> string option" where
  "ident_of (AasEvent c) = Some (ch_ident c)"
| "ident_of (SubmodelEvent c s) = Some (ch_ident c)"
| "ident_of (ConceptDescriptionEvent c) = Some (ch_ident c)"
| "ident_of _ = None"

text \<open>The type of another event is compared by its value.\<close>

fun type_value :: "'b event_body \<Rightarrow> string" where
  "type_value (AasEvent c) = kind_value (ch_kind c)"
| "type_value (SubmodelEvent c s) = kind_value (ch_kind c)"
| "type_value (SubmodelElementEvent c) = kind_value (el_kind c)"
| "type_value (ConceptDescriptionEvent c) = kind_value (ch_kind c)"
| "type_value (OtherEvent e k d) = k"

definition filter_matches :: "subscription_filter \<Rightarrow> 'b bus_event \<Rightarrow> bool" where
  "filter_matches f ev =
     (entity_of (body ev) = f_entity f \<and> type_value (body ev) \<in> kind_value ` set (f_kinds f) \<and>
      (f_ident f = None \<or> ident_of (body ev) = f_ident f))"

text \<open>\<open>None\<close> in a queue ends the stream. A maximal size of 0 is none.\<close>

record 'b subscription =
  s_id :: string
  s_filter :: subscription_filter
  s_queue :: "'b bus_event option list"

definition queue_full :: "nat \<Rightarrow> 'a list \<Rightarrow> bool" where
  "queue_full limit q = (0 < limit \<and> limit \<le> length q)"

definition put_dropping :: "nat \<Rightarrow> 'a \<Rightarrow> 'a list \<Rightarrow> 'a list" where
  "put_dropping limit x q = (if queue_full limit q then tl q @ [x] else q @ [x])"

definition offer :: "nat \<Rightarrow> 'b bus_event \<Rightarrow> 'b subscription \<Rightarrow> 'b subscription" where
  "offer limit ev s =
     (if filter_matches (s_filter s) ev then s\<lparr>s_queue := put_dropping limit (Some ev) (s_queue s)\<rparr> else s)"

definition broadcast :: "nat \<Rightarrow> 'b bus_event \<Rightarrow> 'b subscription list \<Rightarrow> 'b subscription list" where
  "broadcast limit ev subs = map (offer limit ev) subs"

definition register_subscription :: "string \<Rightarrow> subscription_filter \<Rightarrow> 'b subscription list \<Rightarrow> 'b subscription list" where
  "register_subscription i f subs = subs @ [\<lparr>s_id = i, s_filter = f, s_queue = []\<rparr>]"

definition unregister_subscription :: "string \<Rightarrow> 'b subscription list \<Rightarrow> 'b subscription list" where
  "unregister_subscription i subs = filter (\<lambda>s. s_id s \<noteq> i) subs"

text \<open>\<open>stop\<close>: the end of the stream for every queue that has room; the registry is emptied.\<close>

definition stop_subscriptions :: "nat \<Rightarrow> 'b subscription list \<Rightarrow> 'b subscription list" where
  "stop_subscriptions limit subs =
     map (\<lambda>s. if queue_full limit (s_queue s) then s else s\<lparr>s_queue := s_queue s @ [None]\<rparr>) subs"

text \<open>The stream a subscriber reads from a queue: the events up to the end, and whether it ended.\<close>

fun iter_events :: "'b bus_event option list \<Rightarrow> 'b bus_event list \<times> bool" where
  "iter_events [] = ([], False)"
| "iter_events (None # q) = ([], True)"
| "iter_events (Some ev # q) = (case iter_events q of (evs, ended) \<Rightarrow> (ev # evs, ended))"

definition subscription_for :: "string \<Rightarrow> event_kind \<Rightarrow> string option \<Rightarrow> subscription_filter" where
  "subscription_for entity k i = \<lparr>f_entity = entity, f_kinds = [k], f_ident = i\<rparr>"

section \<open>What the repositories publish\<close>

text \<open>\<open>publish_aas_event\<close>, \<open>publish_aas_deleted\<close> and the same for submodels, from an entry of the bus.\<close>

definition change_of :: "published \<Rightarrow> json doc_change" where
  "change_of p =
     \<lparr>ch_kind = ev_kind p, ch_ident = map char_of (ev_id p), ch_b64 = ev_b64 p,
      ch_doc = map_option JDict (ev_doc p), ch_etag = ev_etag p\<rparr>"

definition body_of :: "published \<Rightarrow> json event_body" where
  "body_of p =
     (if ev_shell p then AasEvent (change_of p)
      else SubmodelEvent (change_of p) (case ev_semantic p of JStr s \<Rightarrow> Some s | _ \<Rightarrow> None))"

end
