(* ===== verification/EventSpec.thy ===== *)
theory EventSpec
  imports Events SubmodelSpec
begin

text \<open>
  What the events keep of their promises: they survive the wire, a writer that follows them leaves the
  cache in agreement with the database, the batch writer loses none, a subscriber of GraphQL gets the
  latest of those it asked for; and where they do not.
\<close>

section \<open>The wire\<close>

lemma std_position: "n < 64 \<Longrightarrow> std_value (std_alphabet ! n) = n"
proof -
  have "list_all (\<lambda>n. std_value (std_alphabet ! n) = n) [0..<64]" by code_simp
  then show "n < 64 \<Longrightarrow> std_value (std_alphabet ! n) = n" by (simp add: list_all_iff)
qed

lemma std_member: "n < 64 \<Longrightarrow> std_alphabet ! n \<in> set std_alphabet"
  by (rule nth_mem) (simp add: std_alphabet_def b64_alphabet_def)

lemma no_pad: "CHR ''='' \<notin> set std_alphabet"
  by (simp add: std_alphabet_def b64_alphabet_def)

lemma sextets_length: "length (sextets bs) mod 4 \<noteq> 1"
  by (induction bs rule: sextets.induct) simp_all

lemma padded_split:
  assumes "\<forall>c \<in> set core. c \<noteq> x"
  shows "takeWhile (\<lambda>c. c \<noteq> x) (core @ replicate k x) = core" "dropWhile (\<lambda>c. c \<noteq> x) (core @ replicate k x) = replicate k x"
  using assms by (induction core) (cases k; simp)+

lemma read_padded:
  assumes "set core \<subseteq> set std_alphabet" and "k \<le> 2" and "(length core + k) mod 4 = 0"
    and "octets (map std_value core) = Some bs"
  shows "read_b64 (core @ replicate k (CHR ''='')) = Inr bs"
proof -
  have np: "\<forall>c \<in> set core. c \<noteq> CHR ''=''" using assms(1) no_pad by blast
  have mod4: "(l mod 4 + k) mod 4 = 0" "l mod 4 < 4" if "(l + k) mod 4 = 0" for l :: nat
    using that by (simp_all add: mod_add_left_eq)
  have "l mod 4 \<in> {0, 1, 2, 3}" if "l mod 4 < 4" for l :: nat using that by auto
  with mod4 [OF assms(3)] have "length core mod 4 \<in> {0, 1, 2, 3}" by blast
  moreover have "k \<in> {0, 1, 2}" using assms(2) by auto
  ultimately have miss: "(4 - length core mod 4) mod 4 = k" "k \<noteq> 3" using mod4(1) [OF assms(3)] by (auto dest: dvd_imp_le)
  have pads: "length (core @ replicate k (CHR ''='')) - length core = k" "drop (length core) (core @ replicate k (CHR ''='')) = replicate k (CHR ''='')"
    by simp_all
  have chars: "\<forall>c \<in> set core. c \<in> set std_alphabet" "\<forall>c \<in> set (replicate k (CHR ''='')). c = CHR ''=''"
    "\<not> 2 < length (replicate k (CHR ''=''))" "set (replicate k (CHR ''='')) \<subseteq> {CHR ''=''}"
    using assms(1,2) by auto
  have "b64decode (core @ replicate k (CHR ''='')) = Some bs"
    unfolding b64decode_def padded_split [OF np] Let_def pads miss(1) using chars(1,2) assms(2,4) miss(2)
    by (simp only: if_True simp_thms order.refl) (rule if_P, blast)
  then show ?thesis unfolding read_b64_def padded_split [OF np] Let_def using chars(3,4) assms(1)
    by (simp only: if_False simp_thms option.case)
qed

lemma b64_decoded:
  assumes "\<forall>b \<in> set bs. b < 256"
  shows "read_b64 (b64encode bs) = Inr bs"
  unfolding b64encode_def Let_def
proof (rule read_padded)
  let ?n = "length (sextets bs)"
  note small = sextets_bound [OF assms]
  then show "set (map ((!) std_alphabet) (sextets bs)) \<subseteq> set std_alphabet" using std_member by auto
  have "?n mod 4 < 4" by simp
  then have m: "?n mod 4 \<in> {0, 2, 3}" using sextets_length [of bs] by auto
  then show "(4 - ?n mod 4) mod 4 \<le> 2" by auto
  have "(?n mod 4 + (4 - ?n mod 4) mod 4) mod 4 = 0" using m by auto
  then show "(length (map ((!) std_alphabet) (sextets bs)) + (4 - ?n mod 4) mod 4) mod 4 = 0"
    by (simp only: length_map mod_add_left_eq)
  have "map std_value (map ((!) std_alphabet) (sextets bs)) = sextets bs" using small std_position by (simp add: map_idI)
  then show "octets (map std_value (map ((!) std_alphabet) (sextets bs))) = Some bs" using octets_sextets [OF assms] by simp
qed

fun carried :: "nat list event_body \<Rightarrow> nat list option" where
  "carried (AasEvent c) = ch_doc c"
| "carried (SubmodelEvent c s) = ch_doc c"
| "carried (SubmodelElementEvent c) = el_bytes c"
| "carried (ConceptDescriptionEvent c) = ch_doc c"
| "carried (OtherEvent e k d) = None"

fun other_event :: "'b event_body \<Rightarrow> bool" where
  "other_event (OtherEvent e k d) = True"
| "other_event _ = False"

definition octets_only :: "nat list option \<Rightarrow> bool" where
  "octets_only b = (case b of None \<Rightarrow> True | Some bs \<Rightarrow> \<forall>x \<in> set bs. x < 256)"

lemma bytes_read: "octets_only b \<Longrightarrow> dget d k = bytes_json b \<Longrightarrow> bytes_field d k = Inr b"
  by (cases b) (simp_all add: bytes_field_def bytes_json_def octets_only_def b64_decoded)

lemma opt_read: "dget d k = opt_str s \<Longrightarrow> opt_field d k = Inr s"
  by (cases s) (simp_all add: opt_field_def opt_str_def)

lemma absent_bytes: "dget d k = JNull \<Longrightarrow> bytes_field d k = Inr None"
  by (simp add: bytes_field_def)

lemma kind_read: "dget d ''event_type'' = JStr (kind_value k) \<Longrightarrow> kind_field d = Inr (Some k)"
  by (cases k) (simp_all add: kind_field_def)

lemma time_read: "iso_ok F \<Longrightarrow> dget d ''timestamp'' = JStr (iso F t) \<Longrightarrow> time_field F d = Inr t"
  by (simp add: time_field_def iso_ok_def)

lemma wire_head:
  assumes "iso_ok F" and "octets_only (carried (body ev))" and "\<not> other_event (body ev)"
  shows "time_field F (serialize_event F ev) = Inr (timestamp ev)"
    and "str_field (serialize_event F ev) ''event_id'' = Inr (event_id ev)"
    and "entity_field (serialize_event F ev) = entity_of (body ev)"
  using assms(1,3) by (cases "body ev";
    simp add: serialize_event_def stamp_fields_def change_fields_def time_field_def str_field_def entity_field_def
      dget_def dget_or_def iso_ok_def)+

lemmas reads = read_body_def read_change_def only_keys_def change_keys_def common_keys_def str_field_def the_kind_def

lemma change_read:
  assumes "octets_only (ch_doc c)" and "d = change_fields c @ r"
  shows "bytes_field d ''doc_bytes'' = Inr (ch_doc c)" and "kind_field d = Inr (Some (ch_kind c))"
    and "read_change d (Some (ch_kind c)) (ch_doc c) = Inr c"
  unfolding read_change_def the_kind_def assms(2)
  by (rule bytes_read [OF assms(1)], simp add: change_fields_def dget_def,
      rule kind_read, simp add: change_fields_def dget_def,
      simp add: change_fields_def str_field_def opt_read [of _ _ "ch_etag c"] dget_def)

text \<open>
  C18. An event about a shell, a submodel, an element or a concept description that is written to the Redis
  stream and read back is the event that was published: its kind, its identifiers, its document bytes
  through Base64, its ETag, its id and its time.
\<close>

theorem wire_roundtrip:
  assumes "iso_ok F" and "octets_only (carried (body ev))" and "\<not> other_event (body ev)"
  shows "deserialize_event F (serialize_event F ev) = Inr ev"
proof -
  let ?d = "serialize_event F ev"
  note head = wire_head [OF assms]
  have "\<exists>doc val k. bytes_field ?d ''doc_bytes'' = Inr doc \<and> bytes_field ?d ''value_bytes'' = Inr val \<and>
      kind_field ?d = Inr k \<and> read_body (entity_field ?d) ?d k doc val = Inr (body ev)"
  proof (cases "body ev")
    case (AasEvent c)
    then have d: "?d = change_fields c @ stamp_fields F ev" by (simp add: serialize_event_def)
    from assms(2) AasEvent have "octets_only (ch_doc c)" by simp
    note c = change_read [OF this d]
    have "bytes_field ?d ''value_bytes'' = Inr None" unfolding d by (simp add: bytes_field_def change_fields_def stamp_fields_def dget_def)
    with c AasEvent show ?thesis unfolding head
      by (auto simp: read_body_def only_keys_def change_keys_def common_keys_def d change_fields_def stamp_fields_def)
  next
    case (ConceptDescriptionEvent c)
    then have d: "?d = change_fields c @ stamp_fields F ev" by (simp add: serialize_event_def)
    from assms(2) ConceptDescriptionEvent have "octets_only (ch_doc c)" by simp
    note c = change_read [OF this d]
    have "bytes_field ?d ''value_bytes'' = Inr None" unfolding d by (simp add: bytes_field_def change_fields_def stamp_fields_def dget_def)
    with c ConceptDescriptionEvent show ?thesis unfolding head
      by (auto simp: read_body_def only_keys_def change_keys_def common_keys_def d change_fields_def stamp_fields_def)
  next
    case (SubmodelEvent c s)
    then have d: "?d = change_fields c @ ((''semantic_id'', opt_str s) # stamp_fields F ev)" by (simp add: serialize_event_def)
    from assms(2) SubmodelEvent have "octets_only (ch_doc c)" by simp
    note c = change_read [OF this d]
    have "bytes_field ?d ''value_bytes'' = Inr None" "opt_field ?d ''semantic_id'' = Inr s"
      unfolding d by (simp add: bytes_field_def change_fields_def stamp_fields_def dget_def,
        rule opt_read, simp add: change_fields_def dget_def)
    with c SubmodelEvent show ?thesis unfolding head
      by (auto simp: read_body_def only_keys_def change_keys_def common_keys_def d change_fields_def stamp_fields_def)
  next
    case (SubmodelElementEvent c)
    with assms(2) have v: "bytes_field ?d ''value_bytes'' = Inr (el_bytes c)"
      by (intro bytes_read) (simp_all add: serialize_event_def dget_def)
    have "bytes_field ?d ''doc_bytes'' = Inr None" "kind_field ?d = Inr (Some (el_kind c))"
      using SubmodelElementEvent by (simp add: bytes_field_def serialize_event_def stamp_fields_def dget_def,
        intro kind_read, simp add: serialize_event_def dget_def)
    with v SubmodelElementEvent show ?thesis unfolding head
      by (simp add: reads) (simp add: serialize_event_def stamp_fields_def)
  qed (use assms(3) in simp)
  then show ?thesis by (auto simp: deserialize_event_def head)
qed

definition sample_event :: "nat list bus_event" where
  "sample_event = \<lparr>body = AasEvent \<lparr>ch_kind = CREATED, ch_ident = ''S'', ch_b64 = ''Uw'', ch_doc = Some [123, 255],
     ch_etag = Some ''v1''\<rparr>, event_id = ''e1'', timestamp = 5\<rparr>"

theorem wire_roundtrip_witness: "deserialize_event int_iso (serialize_event int_iso sample_event) = Inr sample_event"
  by (rule wire_roundtrip [OF int_iso_ok]) (simp_all add: sample_event_def octets_only_def)

text \<open>
  C19. The other events do not survive it: an event about an operation or a package that is read from the
  stream is an error, whatever its fields are; no handler sees it, and it is not acknowledged, so that
  after three deliveries the consumers put it among the dead letters.
\<close>

theorem operation_events_dead:
  assumes "body ev = OtherEvent e k d" and "''entity'' \<notin> fst ` set d"
  shows "(case deserialize_event F (serialize_event F ev) of Inl _ \<Rightarrow> True | Inr _ \<Rightarrow> False) \<and>
    process_message F hs (Some (serialize_event F ev)) s = (s, False) \<and>
    (3 \<le> delivered \<longrightarrow> 30000 < idle \<longrightarrow> claim_decision idle delivered = DeadLetter)"
proof -
  from assms(2) have "map_of d ''entity'' = None" by (simp add: map_of_eq_None_iff)
  then have "entity_field (serialize_event F ev) = entity_of (body ev)"
    using assms(1) by (simp add: entity_field_def serialize_event_def stamp_fields_def dget_or_def map_add_def)
  moreover have "entity_of (body ev) = ''package'' \<or> entity_of (body ev) = ''operation_invocation''"
    using assms(1) by (cases e) simp_all
  ultimately have "read_body (entity_field (serialize_event F ev)) x k' doc val = Inl ValueError" for x k' doc val
    by (auto simp: read_body_def)
  then have "\<exists>x. deserialize_event F (serialize_event F ev) = Inl x"
    by (cases "deserialize_event F (serialize_event F ev)") (auto simp: deserialize_event_def errs)
  then show ?thesis by (auto simp: process_message_def claim_decision_def)
qed

definition operation_event :: "nat list bus_event" where
  "operation_event = \<lparr>body = OtherEvent InvocationEntity ''invoked'' [(''invocation_id'', JStr ''i1'')],
     event_id = ''e1'', timestamp = 5\<rparr>"

theorem operation_events_dead_witness:
  "process_message int_iso [\<lambda>ev n. (Suc n, False)] (Some (serialize_event int_iso operation_event)) 0 = (0, False)"
  using operation_events_dead [of operation_event InvocationEntity "''invoked''" "[(''invocation_id'', JStr ''i1'')]" int_iso
      "[\<lambda>ev n. (Suc n, False)]" 0 0 0]
  by (simp add: operation_event_def)

section \<open>A writer that follows the bus\<close>

text \<open>
  An event of the repositories: its segment is the encoding of the identifier, and it has a document and
  an ETag unless it reports a deletion.
\<close>

definition sound_event :: "published \<Rightarrow> bool" where
  "sound_event p =
     (canonical (ev_b64 p) (ev_id p) \<and>
      (if ev_kind p = DELETED then ev_doc p = None \<and> ev_etag p = None
       else ev_doc p \<noteq> None \<and> ev_etag p \<noteq> None \<and> ev_etag p \<noteq> Some []))"

lemma sound_cases:
  assumes "sound_event p"
  obtains (gone) "ev_kind p = DELETED" "content_of p = None" "doc_and_etag_of (change_of p) = None"
  | (new) d e where "ev_kind p \<noteq> DELETED" "content_of p = Some (d, e)" "doc_and_etag_of (change_of p) = Some (d, e)"
  using assms by (cases "ev_kind p = DELETED"; cases "ev_doc p"; cases "ev_etag p")
    (auto simp: sound_event_def content_of_def doc_and_etag_of_def change_of_def)

lemma change_of_simps [simp]: "ch_kind (change_of p) = ev_kind p" "ch_b64 (change_of p) = ev_b64 p"
  by (simp_all add: change_of_def)

text \<open>What one event does to the three kinds of entries under canonical segments.\<close>

lemma after_event:
  assumes K: "kv_ok K" and p: "sound_event p" and seg: "canonical seg i"
  shows "get_aas K seg (single_cache K (body_of p) s) = (if ev_shell p \<and> ev_id p = i then content_of p else get_aas K seg s)"
    and "get_submodel K seg (single_cache K (body_of p) s) =
      (if \<not> ev_shell p \<and> ev_id p = i then content_of p else get_submodel K seg s)"
    and "Cache.get_element_value K seg path (single_cache K (body_of p) s) =
      (if \<not> ev_shell p \<and> ev_kind p \<noteq> CREATED \<and> ev_id p = i then None else Cache.get_element_value K seg path s)"
proof -
  have free: "colon_free seg" "colon_free (ev_b64 p)" and same: "seg = ev_b64 p \<longleftrightarrow> ev_id p = i"
    using p seg canonical_colon_free canonical_eq [OF seg] by (auto simp: sound_event_def)
  note after = get_aas_after [OF K] get_submodel_after [OF K] get_element_after [OF K] free same
    handle_aas_event_def handle_submodel_event_def store_aas_def store_submodel_def body_of_def
  show "get_aas K seg (single_cache K (body_of p) s) = (if ev_shell p \<and> ev_id p = i then content_of p else get_aas K seg s)"
    by (rule sound_cases [OF p]; cases "ev_kind p") (simp_all add: after)
  show "get_submodel K seg (single_cache K (body_of p) s) =
      (if \<not> ev_shell p \<and> ev_id p = i then content_of p else get_submodel K seg s)"
    by (rule sound_cases [OF p]; cases "ev_kind p") (simp_all add: after)
  show "Cache.get_element_value K seg path (single_cache K (body_of p) s) =
      (if \<not> ev_shell p \<and> ev_kind p \<noteq> CREATED \<and> ev_id p = i then None else Cache.get_element_value K seg path s)"
    by (rule sound_cases [OF p]; cases "ev_kind p") (simp_all add: after)
qed

text \<open>A fold over a history: the last event about an entry decides.\<close>

definition last_word :: "bool \<Rightarrow> nat list \<Rightarrow> published list \<Rightarrow> (obj \<times> string) option \<Rightarrow> (obj \<times> string) option" where
  "last_word sh i ps p0 = fold (\<lambda>ev p. if ev_shell ev = sh \<and> ev_id ev = i then content_of ev else p) ps p0"

text \<open>Whether a history has an event about an entry, and one that invalidates the values below it.\<close>

definition mentioned :: "bool \<Rightarrow> nat list \<Rightarrow> published list \<Rightarrow> bool" where
  "mentioned sh i ps = list_ex (\<lambda>p. ev_shell p = sh \<and> ev_id p = i) ps"

definition invalidated :: "nat list \<Rightarrow> published list \<Rightarrow> bool" where
  "invalidated i ps = list_ex (\<lambda>p. \<not> ev_shell p \<and> ev_kind p \<noteq> CREATED \<and> ev_id p = i) ps"

lemma last_word_replay: "last_word sh i ps p0 = (if mentioned sh i ps then replay sh i ps else p0)"
proof (induction ps rule: rev_induct)
  case (snoc p ps)
  then show ?case by (auto simp: last_word_def replay_def mentioned_def)
qed (simp add: last_word_def mentioned_def)

lemma after_history:
  assumes K: "kv_ok K" and ps: "\<forall>p \<in> set ps. sound_event p" and seg: "canonical seg i"
  shows "get_aas K seg (fold (\<lambda>p. single_cache K (body_of p)) ps s) = last_word True i ps (get_aas K seg s)" (is ?A)
    and "get_submodel K seg (fold (\<lambda>p. single_cache K (body_of p)) ps s) = last_word False i ps (get_submodel K seg s)" (is ?S)
    and "Cache.get_element_value K seg path (fold (\<lambda>p. single_cache K (body_of p)) ps s) =
      (if invalidated i ps then None else Cache.get_element_value K seg path s)" (is ?V)
proof -
  have "?A \<and> ?S \<and> ?V" using ps
  proof (induction ps rule: rev_induct)
    case (snoc p ps)
    have p: "sound_event p" using snoc.prems by simp
    from snoc show ?case
      by (auto simp: after_event [OF K p seg] last_word_def invalidated_def)
  qed (simp add: last_word_def invalidated_def)
  then show ?A ?S ?V by blast+
qed

lemma batch_is_single: "sound_event p \<Longrightarrow> batch_cache K (body_of p) s = single_cache K (body_of p) s"
  by (rule sound_cases [of p], assumption; cases "ev_kind p")
    (simp_all add: body_of_def handle_aas_event_def handle_submodel_event_def store_aas_def store_submodel_def)

lemma single_follows:
  assumes "map body evs = map body_of ps"
  shows "fold (single_handle_event K) evs w =
    w\<lparr>w_cache := fold (\<lambda>p. single_cache K (body_of p)) ps (w_cache w), w_sent := w_sent w @ evs\<rparr>"
  using assms
proof (induction evs arbitrary: ps w)
  case (Cons ev evs)
  then obtain p ps' where ps: "ps = p # ps'" "body ev = body_of p" "map body evs = map body_of ps'" by auto
  then have "single_known (body ev)" by (simp add: body_of_def)
  with ps Cons.IH [OF ps(3)] show ?case by (simp add: single_handle_event_def)
qed simp

text \<open>
  C15. The single writer catches up from any cache: let it process the events of a history of requests to
  both routers, in their order and without a failure, starting from whatever a cache holds. Then under the
  segment of every identifier with an event the shell (or submodel) in the cache is the document and ETag
  of the database, and there is none if it was deleted; the values of elements below a submodel that was
  updated or deleted are gone; what no event was about is as it was; and it has broadcast exactly these
  events in this order. (The events are as the repositories make them for requests with canonical segments:
  the segment is the encoding of the identifier, and an event that is no deletion has a document and a
  non-empty ETag.)
\<close>

theorem caught_up_writer:
  assumes "env_ok E" and "fresh_start E w0" and "(server_step E)\<^sup>*\<^sup>* w0 w"
    and "\<forall>p \<in> set (bus w). sound_event p" and "map body evs = map body_of (bus w)" and "canonical seg i"
  shows "let after = fold (single_handle_event (redis E)) evs \<lparr>w_cache = c0, w_sent = []\<rparr> in
    get_aas (redis E) seg (w_cache after) =
      (if mentioned True i (bus w) then get_bytes_by_id i (shells (db w)) else get_aas (redis E) seg c0) \<and>
    get_submodel (redis E) seg (w_cache after) =
      (if mentioned False i (bus w) then get_bytes_by_id i (submodels (db w)) else get_submodel (redis E) seg c0) \<and>
    Cache.get_element_value (redis E) seg path (w_cache after) =
      (if invalidated i (bus w) then None else Cache.get_element_value (redis E) seg path c0) \<and>
    w_sent after = evs"
proof -
  have K: "kv_ok (redis E)" using assms(1) by (simp add: env_ok_def)
  have "logged (db w) (bus w)" using reachable_store [OF assms(1-3)] by (simp add: store_ok_def)
  then show ?thesis
    by (simp add: Let_def single_follows [OF assms(5)] after_history [OF K assms(4,6)] last_word_replay logged_def)
qed

definition bus_events :: "'s world \<Rightarrow> json bus_event list" where
  "bus_events w = map (\<lambda>p. \<lparr>body = body_of p, event_id = [], timestamp = 0\<rparr>) (bus w)"

lemma bus_events_body: "map body (bus_events w) = map body_of (bus w)"
  by (simp add: bus_events_def)

definition written_twice :: "(string \<times> json) list world" where
  "written_twice = serve_all sample_env
     [OnSubmodels (PostSubmodel (model ''v1'')), OnSubmodels (PutSubmodel ''TQ'' (model ''v2'') None)] empty_world"

lemma written_twice_steps: "(server_step sample_env)\<^sup>*\<^sup>* empty_world written_twice"
  unfolding written_twice_def using canonical_TQ
  by (intro serve_all_steps) (auto simp: canonical_request_def canonical_segment_def canonical_def)

lemma written_twice_sound: "list_all sound_event (bus written_twice)"
  by code_simp

text \<open>A cache with an old version of the submodel and of a value below it, before and after.\<close>

definition old_cache :: "(string \<times> json) list" where
  "old_cache = Cache.set_element_value table_kv ''TQ'' ''temp'' (JInt 5)
     (set_submodel table_kv ''TQ'' (model ''v0'') ''v0'' [])"

theorem caught_up_writer_witness:
  "get_submodel table_kv ''TQ'' old_cache = Some (model ''v0'', ''v0'') \<and>
   Cache.get_element_value table_kv ''TQ'' ''temp'' old_cache = Some (JInt 5) \<and>
   (let after = fold (single_handle_event table_kv) (bus_events written_twice) \<lparr>w_cache = old_cache, w_sent = []\<rparr> in
    get_submodel table_kv ''TQ'' (w_cache after) = Some (model ''v2'', ''v2'') \<and>
    Cache.get_element_value table_kv ''TQ'' ''temp'' (w_cache after) = None \<and>
    w_sent after = bus_events written_twice)"
proof -
  have kv: "redis sample_env = table_kv" by (simp add: sample_env_def)
  have row: "get_bytes_by_id [77] (submodels (db written_twice)) = Some (model ''v2'', ''v2'')"
    "mentioned False [77] (bus written_twice)" "invalidated [77] (bus written_twice)"
    "get_submodel table_kv ''TQ'' old_cache = Some (model ''v0'', ''v0'')"
    "Cache.get_element_value table_kv ''TQ'' ''temp'' old_cache = Some (JInt 5)"
    by code_simp+
  have "\<forall>p \<in> set (bus written_twice). sound_event p" using written_twice_sound by (simp add: list_all_iff)
  from caught_up_writer [OF sample_env_ok empty_world_fresh written_twice_steps this bus_events_body canonical_TQ,
      of old_cache "''temp''"] row
  show ?thesis by (simp add: kv Let_def)
qed

text \<open>
  A writer that is behind undoes the work of the requests: when it handles an event about a submodel
  the repository has changed since, the old document and its ETag go back into the cache, and they are
  what a client gets, whatever the database holds.
\<close>

lemma late_event_stale:
  assumes "env_ok E" and "sound_event p" and "\<not> ev_shell p" and "content_of p = Some (d, e)" and "is_fast_path h"
    and "body ev = body_of p"
  shows "snd (run_request (serve_submodel E (GetSubmodel (ev_b64 p) h None))
      (w\<lparr>cache := w_cache (single_handle_event (redis E) ev \<lparr>w_cache = cache w, w_sent = sent\<rparr>)\<rparr>)) =
    Inr (json_response_with_etag (JDict d) e 200 None)"
proof -
  have K: "kv_ok (redis E)" using assms(1) by (simp add: env_ok_def)
  have seg: "canonical (ev_b64 p) (ev_id p)" using assms(2) by (simp add: sound_event_def)
  then have id: "decode_id_from_b64url (ev_b64 p) = Inr (ev_id p)" by (simp add: canonical_def)
  have "single_known (body ev)" using assms(6) by (simp add: body_of_def)
  then have "get_submodel (redis E) (ev_b64 p)
      (w_cache (single_handle_event (redis E) ev \<lparr>w_cache = cache w, w_sent = sent\<rparr>)) = Some (d, e)"
    using after_event(2) [OF K assms(2) seg] assms(3,4,6) by (simp add: single_handle_event_def)
  with id assms(5) show ?thesis
    by (simp add: run_request_snd get_submodel_by_id_def handlers decode_identifier_def not_modified_def)
qed

lemma late_event_stale_witness:
  "get_bytes_by_id [77] (submodels (db written_twice)) = Some (model ''v2'', ''v2'') \<and>
   snd (run_request (serve_submodel sample_env (GetSubmodel ''TQ'' plain_query None))
     (written_twice\<lparr>cache := w_cache (single_handle_event (redis sample_env) (hd (bus_events written_twice))
        \<lparr>w_cache = cache written_twice, w_sent = []\<rparr>)\<rparr>)) =
     Inr (json_response_with_etag (JDict (model ''v1'')) ''v1'' 200 None)"
proof -
  let ?p = "hd (bus written_twice)"
  have row: "get_bytes_by_id [77] (submodels (db written_twice)) = Some (model ''v2'', ''v2'')" by code_simp
  have p: "sound_event ?p" "\<not> ev_shell ?p" "content_of ?p = Some (model ''v1'', ''v1'')" "ev_b64 ?p = ''TQ''"
    "body (hd (bus_events written_twice)) = body_of ?p" by code_simp+
  from late_event_stale [OF sample_env_ok p(1-3) plain_fast p(5), of written_twice "[]"] row show ?thesis
    by (simp only: p(4) simp_thms)
qed

section \<open>The batch writer\<close>

text \<open>
  The tasks of the batch writer interleave at their awaits. Handlers are at a stage each; one flush at a
  time holds the buffer's lock (\<open>locked\<close>: begun by a handler or, with \<open>True\<close>, by the periodic loop), and
  while it does no handler appends; the drains of \<open>stop\<close> flush without the lock. What happened is recorded:
  \<open>appended\<close>, the events put into the buffer, in this order; \<open>refused\<close>, those whose handler raised or was
  cancelled before; \<open>gone\<close>, those of cancelled flushes; and \<open>crossed\<close>, whether a flush began while another
  one was under way.
\<close>

datatype stage = Arrived | Cached | Shown

record 's batch_system =
  batch :: "'s batch"
  handling :: "(json bus_event \<times> stage) list"
  locked :: "(bool \<times> json bus_event list) option"
  drains :: "json bus_event list list"
  appended :: "json bus_event list"
  refused :: "json bus_event list"
  gone :: "json bus_event list"
  crossed :: bool

definition in_flight :: "'s batch_system \<Rightarrow> json bus_event list" where
  "in_flight s = (case locked s of None \<Rightarrow> [] | Some (p, evs) \<Rightarrow> evs) @ concat (drains s)"

definition lost_by :: "flush_outcome \<Rightarrow> json bus_event list \<Rightarrow> json bus_event list" where
  "lost_by out evs = (if out = Cancelled then evs else [])"

inductive batch_step :: "'s kv \<Rightarrow> nat \<Rightarrow> 's batch_system \<Rightarrow> 's batch_system \<Rightarrow> bool" for K limit where
  arrive: "batch_step K limit s
    (s\<lparr>batch := receive_event (batch s), handling := handling s @ [(ev, Arrived)]\<rparr>)"
| to_cache: "handling s = xs @ (ev, Arrived) # ys \<Longrightarrow> batch_step K limit s
    (s\<lparr>batch := cache_event K ev (batch s), handling := xs @ (ev, Cached) # ys\<rparr>)"
| cache_raises: "handling s = xs @ (ev, Arrived) # ys \<Longrightarrow> batch_step K limit s
    (s\<lparr>batch := (batch s)\<lparr>b_cache := c\<rparr>, handling := xs @ ys, refused := refused s @ [ev]\<rparr>)"
| to_broadcast: "handling s = xs @ (ev, Cached) # ys \<Longrightarrow> batch_step K limit s
    (s\<lparr>batch := broadcast_event ev (batch s), handling := xs @ (ev, Shown) # ys\<rparr>)"
| handler_ends: "handling s = xs @ (ev, stage) # ys \<Longrightarrow> batch_step K limit s
    (s\<lparr>handling := xs @ ys, refused := refused s @ [ev]\<rparr>)"
| to_buffer: "handling s = xs @ (ev, Shown) # ys \<Longrightarrow> locked s = None \<Longrightarrow>
    buffer_event limit ev (batch s) = (b, full) \<Longrightarrow> batch_step K limit s
    (s\<lparr>batch := b, handling := xs @ ys, appended := appended s @ [ev], locked := map_option (Pair False) full,
       crossed := (crossed s \<or> full \<noteq> None \<and> drains s \<noteq> [])\<rparr>)"
| periodic: "locked s = None \<Longrightarrow> b_buffer (batch s) \<noteq> [] \<Longrightarrow> flush_begin (batch s) = (b, evs) \<Longrightarrow>
    batch_step K limit s
    (s\<lparr>batch := b, locked := Some (True, evs), crossed := (crossed s \<or> drains s \<noteq> [])\<rparr>)"
| flush_done: "locked s = Some (per, evs) \<Longrightarrow> batch_step K limit s
    (s\<lparr>batch := (if per then periodic_end out evs (batch s) else flush_end out evs (batch s)),
       locked := None, gone := gone s @ lost_by out evs\<rparr>)"
| drain: "b_buffer (batch s) \<noteq> [] \<Longrightarrow> flush_begin (batch s) = (b, evs) \<Longrightarrow> batch_step K limit s
    (s\<lparr>batch := b, drains := drains s @ [evs], crossed := (crossed s \<or> in_flight s \<noteq> [])\<rparr>)"
| drain_done: "drains s = xs @ evs # ys \<Longrightarrow> batch_step K limit s
    (s\<lparr>batch := flush_end out evs (batch s), drains := xs @ ys, gone := gone s @ lost_by out evs\<rparr>)"

definition fresh_batch :: "'s batch \<Rightarrow> bool" where
  "fresh_batch b =
     (b_sent b = [] \<and> b_buffer b = [] \<and> b_flushed b = [] \<and> b_received b = 0 \<and> b_batches b = 0 \<and> b_errors b = 0)"

definition fresh_batch_system :: "'s batch_system \<Rightarrow> bool" where
  "fresh_batch_system s =
     (fresh_batch (batch s) \<and> handling s = [] \<and> locked s = None \<and> drains s = [] \<and> appended s = [] \<and>
      refused s = [] \<and> gone s = [] \<and> \<not> crossed s)"

definition batch_ok :: "nat \<Rightarrow> 's batch_system \<Rightarrow> bool" where
  "batch_ok limit s =
     (mset (appended s) =
        mset (b_flushed (batch s)) + mset (in_flight s) + mset (b_buffer (batch s)) + mset (gone s) \<and>
      b_received (batch s) = length (handling s) + length (refused s) + length (appended s) \<and>
      (locked s \<noteq> None \<longrightarrow> snd (the (locked s)) \<noteq> []) \<and> [] \<notin> set (drains s) \<and>
      (gone s = [] \<and> \<not> crossed s \<longrightarrow>
         b_flushed (batch s) @ in_flight s @ b_buffer (batch s) = appended s \<and>
         length (drains s) \<le> 1 \<and> (locked s \<noteq> None \<longrightarrow> drains s = [])) \<and>
      (b_errors (batch s) = 0 \<longrightarrow> 0 < limit \<longrightarrow> length (b_buffer (batch s)) < limit))"

lemmas batch_defs = receive_event_def cache_event_def broadcast_event_def flush_begin_def buffer_event_def
  in_flight_def batch_ok_def Let_def

text \<open>A flush that is over, with the others as they are.\<close>

lemma flush_end_effect:
  "mset (b_flushed (flush_end out evs b)) + mset (b_buffer (flush_end out evs b)) + mset (lost_by out evs) =
     mset (b_flushed b) + mset (b_buffer b) + mset evs"
  "b_received (flush_end out evs b) = b_received b"
  "out \<noteq> Cancelled \<Longrightarrow>
     b_flushed (flush_end out evs b) @ b_buffer (flush_end out evs b) = b_flushed b @ evs @ b_buffer b \<or>
     b_flushed (flush_end out evs b) = b_flushed b @ evs \<and> b_buffer (flush_end out evs b) = b_buffer b"
  "b_errors (flush_end out evs b) = 0 \<Longrightarrow>
     b_errors b = 0 \<and> b_buffer (flush_end out evs b) = b_buffer b"
  by (cases out; simp add: flush_end_def lost_by_def)+

interpretation batch_buffer: inductive_invariant fresh_batch_system "batch_step K limit" "batch_ok limit"
  for K :: "'s kv" and limit
proof unfold_locales
  fix s :: "'s batch_system" assume "fresh_batch_system s"
  then show "batch_ok limit s" by (simp add: fresh_batch_system_def fresh_batch_def batch_ok_def in_flight_def)
next
  fix s s' :: "'s batch_system" assume "batch_step K limit s s'" and s: "batch_ok limit s"
  then show "batch_ok limit s'"
  proof cases
    case (to_buffer xs ev ys b full)
    then show ?thesis using s
      by (cases "drains s") (auto simp: batch_defs split: if_splits)
  next
    case (periodic b evs)
    then show ?thesis using s by (cases "drains s") (auto simp: batch_defs)
  next
    case (flush_done per evs out)
    then show ?thesis using s
      by (cases out; cases per)
        (auto simp: batch_defs flush_end_def periodic_end_def lost_by_def ac_simps)
  next
    case (drain b evs)
    then show ?thesis using s
      by (cases "locked s"; cases "drains s") (auto simp: batch_defs split: if_splits)
  next
    case (drain_done xs evs ys out)
    then show ?thesis using s
      by (cases out; cases "locked s") (auto simp: batch_defs flush_end_def lost_by_def ac_simps)
  qed (use s in \<open>auto simp: batch_defs\<close>)
qed

text \<open>
  C20. What the batch writer loses, and that it keeps the order: however its handlers, flushes and stops
  interleave, and whatever fails, an event put into the buffer is written, in a flush under way, in the
  buffer, or was in a flush that was cancelled, and each as often as it was put there; a failed flush loses
  nothing. The events received are those still being handled, those whose handler raised or was cancelled
  before the buffer (the cache or the broadcast failed), and those put into the buffer. As long as no flush was
  cancelled and none began beside another (only the drain of \<open>stop\<close> can, it takes no lock) the order is that
  of arrival in the buffer; and as long as no flush has failed the buffer is shorter than a batch.
\<close>

theorem batch_loses_none:
  assumes "fresh_batch_system s0" and "(batch_step K limit)\<^sup>*\<^sup>* s0 s"
  shows "mset (appended s) =
       mset (b_flushed (batch s)) + mset (in_flight s) + mset (b_buffer (batch s)) + mset (gone s) \<and>
    b_received (batch s) = length (handling s) + length (refused s) + length (appended s) \<and>
    (gone s = [] \<and> \<not> crossed s \<longrightarrow> b_flushed (batch s) @ in_flight s @ b_buffer (batch s) = appended s) \<and>
    (b_errors (batch s) = 0 \<longrightarrow> 0 < limit \<longrightarrow> length (b_buffer (batch s)) < limit)"
  using batch_buffer.reachable_inv [OF assms] by (simp add: batch_ok_def)

definition empty_batch :: "(string \<times> json) list batch" where
  "empty_batch = \<lparr>b_cache = [], b_sent = [], b_buffer = [], b_flushed = [], b_received = 0, b_batches = 0, b_errors = 0\<rparr>"

definition empty_system :: "(string \<times> json) list batch_system" where
  "empty_system = \<lparr>batch = empty_batch, handling = [], locked = None, drains = [], appended = [], refused = [],
     gone = [], crossed = False\<rparr>"

text \<open>A run: an event is handled up to the buffer; the batches have one event, so a flush begins, and it is cancelled.\<close>

definition one_arrived :: "json bus_event \<Rightarrow> (string \<times> json) list batch_system" where
  "one_arrived ev = empty_system
     \<lparr>batch := broadcast_event ev (cache_event table_kv ev (receive_event empty_batch)), handling := [(ev, Shown)]\<rparr>"

definition one_flushing :: "json bus_event \<Rightarrow> (string \<times> json) list batch_system" where
  "one_flushing ev = (one_arrived ev)
     \<lparr>batch := fst (buffer_event 1 ev (batch (one_arrived ev))), handling := [], appended := [ev],
      locked := Some (False, [ev])\<rparr>"

definition one_gone :: "json bus_event \<Rightarrow> (string \<times> json) list batch_system" where
  "one_gone ev = (one_flushing ev)\<lparr>locked := None, gone := [ev]\<rparr>"

lemma one_gone_steps: "(batch_step table_kv 1)\<^sup>*\<^sup>* empty_system (one_gone ev)"
proof -
  let ?s1 = "empty_system\<lparr>batch := receive_event empty_batch, handling := [(ev, Arrived)]\<rparr>"
  let ?s2 = "empty_system\<lparr>batch := cache_event table_kv ev (receive_event empty_batch), handling := [(ev, Cached)]\<rparr>"
  have "batch_step table_kv 1 empty_system ?s1"
    using arrive [of table_kv 1 empty_system ev] by (simp add: empty_system_def)
  moreover have "batch_step table_kv 1 ?s1 ?s2"
    using to_cache [of ?s1 "[]" ev "[]" table_kv 1] by simp
  moreover have "batch_step table_kv 1 ?s2 (one_arrived ev)"
    using to_broadcast [of ?s2 "[]" ev "[]" table_kv 1] by (simp add: one_arrived_def)
  moreover have "batch_step table_kv 1 (one_arrived ev) (one_flushing ev)"
    using to_buffer [of "one_arrived ev" "[]" ev "[]" 1 _ _ table_kv]
    by (simp add: one_flushing_def one_arrived_def empty_system_def empty_batch_def batch_defs)
  moreover have "batch_step table_kv 1 (one_flushing ev) (one_gone ev)"
    using flush_done [of "one_flushing ev" False "[ev]" table_kv 1 Cancelled]
    by (simp add: one_gone_def one_flushing_def one_arrived_def empty_system_def flush_end_def lost_by_def)
  ultimately show ?thesis by (meson converse_rtranclp_into_rtranclp rtranclp.rtrancl_refl)
qed

theorem batch_loses_none_witness:
  "gone (one_gone (hd (bus_events written_twice))) = [hd (bus_events written_twice)] \<and>
   b_flushed (batch (one_gone (hd (bus_events written_twice)))) = [] \<and>
   mset (appended (one_gone (hd (bus_events written_twice)))) = {#hd (bus_events written_twice)#} \<and>
   b_received (batch (one_gone (hd (bus_events written_twice)))) = 1"
proof -
  have "fresh_batch_system empty_system"
    by (simp add: fresh_batch_system_def fresh_batch_def empty_system_def empty_batch_def)
  from batch_loses_none [OF this one_gone_steps] show ?thesis
    by (simp add: one_gone_def one_flushing_def one_arrived_def empty_system_def empty_batch_def batch_defs)
qed

text \<open>
  A flush of the full buffer that fails is raised with the event in the buffer: a bus that delivers the
  event again makes the writer buffer it twice. An exception of the cache or of the broadcast is raised
  with the event not in the buffer, although it was counted.
\<close>

lemma raised_keeps_event:
  "batch_handle_event K limit (Reaches DbFails) ev b = (b', False) \<Longrightarrow> last (b_buffer b') = ev"
  by (auto simp: batch_handle_event_def flush_end_def batch_defs split: if_splits)

lemma raised_drops_event:
  "out = BroadcastRaises \<or> (\<exists>c. out = CacheRaises c) \<Longrightarrow> batch_handle_event K limit out ev b = (b', r) \<Longrightarrow>
   \<not> r \<and> b_buffer b' = b_buffer b \<and> b_received b' = Suc (b_received b)"
  by (auto simp: batch_handle_event_def batch_defs)

text \<open>The cancellation of a flush loses its whole batch.\<close>

lemma cancelled_flush_loses_batch:
  "b_buffer b \<noteq> [] \<Longrightarrow> flush_buffer Cancelled b = (b\<lparr>b_buffer := []\<rparr>, False)"
  by (simp add: flush_buffer_def flush_begin_def flush_end_def)

section \<open>Subscriptions\<close>

definition latest :: "nat \<Rightarrow> 'a list \<Rightarrow> 'a list" where
  "latest n xs = drop (length xs - n) xs"

lemma put_latest: "0 < n \<Longrightarrow> put_dropping n x (latest n xs) = latest n (xs @ [x])"
  by (auto simp: put_dropping_def queue_full_def latest_def Suc_diff_le drop_Suc tl_drop)

lemma offered:
  assumes "0 < limit" and "s_queue s = latest limit (map Some old)"
  shows "s_queue (fold (offer limit) evs s) = latest limit (map Some (old @ filter (filter_matches (s_filter s)) evs))"
  using assms(2)
proof (induction evs arbitrary: s old)
  case (Cons ev evs)
  show ?case
  proof (cases "filter_matches (s_filter s) ev")
    case True
    then have "s_queue (offer limit ev s) = latest limit (map Some (old @ [ev]))"
      using Cons.prems put_latest [OF assms(1)] by (simp add: offer_def)
    from Cons.IH [OF this] True show ?thesis by (simp add: offer_def)
  next
    case False
    then show ?thesis using Cons.IH [OF Cons.prems] by (simp add: offer_def)
  qed
qed simp

lemma broadcast_each: "fold (broadcast limit) evs subs = map (fold (offer limit) evs) subs"
  by (induction evs arbitrary: subs) (simp_all add: broadcast_def)

lemma iter_some: "iter_events (map Some evs) = (evs, False)" "iter_events (map Some evs @ [None]) = (evs, True)"
  by (induction evs) simp_all

lemma latest_map: "latest n (map f xs) = map f (latest n xs)"
  by (simp add: latest_def drop_map)

text \<open>
  C21. A subscriber of GraphQL that registers and is then broadcast any events before it reads gets, in
  their order, the latest of those its filter matches, at most as many as the queue holds: when there
  were more, the oldest are gone. If the manager is stopped then, the stream ends after them when the
  queue had room for the end; when it was full the stream never ends.
\<close>

theorem queue_keeps_latest:
  assumes "0 < limit"
  shows "map (\<lambda>s. iter_events (s_queue s))
      (stop_subscriptions limit (fold (broadcast limit) evs (register_subscription i f []))) =
    [(latest limit (filter (filter_matches f) evs), length (filter (filter_matches f) evs) < limit)]"
proof -
  let ?s = "fold (offer limit) evs \<lparr>s_id = i, s_filter = f, s_queue = []\<rparr>"
  have q: "s_queue ?s = map Some (latest limit (filter (filter_matches f) evs))"
    using offered [OF assms, of "\<lparr>s_id = i, s_filter = f, s_queue = []\<rparr>" "[]" evs] by (simp add: latest_map) (simp add: latest_def)
  have "queue_full limit (s_queue ?s) \<longleftrightarrow> limit \<le> length (filter (filter_matches f) evs)"
    using assms by (auto simp: queue_full_def q latest_def)
  then show ?thesis
    by (auto simp: broadcast_each register_subscription_def stop_subscriptions_def q iter_some)
qed

definition three_updates :: "nat list bus_event list" where
  "three_updates = map (\<lambda>n. \<lparr>body = AasEvent \<lparr>ch_kind = UPDATED, ch_ident = ''S'', ch_b64 = ''Uw'', ch_doc = Some [n],
     ch_etag = Some ''v''\<rparr>, event_id = [], timestamp = 0\<rparr>) [1, 2, 3]"

theorem queue_keeps_latest_witness:
  "map (\<lambda>s. iter_events (s_queue s)) (stop_subscriptions 2 (fold (broadcast 2) three_updates
      (register_subscription ''1'' (subscription_for ''aas'' UPDATED None) []))) = [(tl three_updates, False)]"
proof -
  have "latest 2 (filter (filter_matches (subscription_for ''aas'' UPDATED None)) three_updates) = tl three_updates"
    "\<not> length (filter (filter_matches (subscription_for ''aas'' UPDATED None)) three_updates) < 2"
    by (simp_all add: three_updates_def filter_matches_def subscription_for_def latest_def)
  with queue_keeps_latest [of 2 three_updates "''1''" "subscription_for ''aas'' UPDATED None"] show ?thesis by simp
qed

end
